(* ===== verification/Prelude.thy ===== *)
theory Prelude
  imports Complex_Main "HOL-Library.Char_ord" "HOL-Library.List_Lexorder" "HOL-Library.Word"
begin

section \<open>What the Go sources use of the language and its standard library\<close>

text \<open>
  Shared vocabulary of the development.  A Go \<^verbatim>\<open>string\<close> is its byte sequence, an Isabelle
  \<^typ>\<open>string\<close>; byte-wise comparison is the lexicographic order of \<open>HOL-Library.List_Lexorder\<close>
  over \<open>HOL-Library.Char_ord\<close>.  A \<^verbatim>\<open>time.Time\<close> is the number of nanoseconds since Go's zero
  time (0001-01-01T00:00:00Z), so the zero time is 0 and \<^verbatim>\<open>IsZero\<close> is a comparison with 0; a
  \<^verbatim>\<open>time.Duration\<close> is a number of nanoseconds, an \<^verbatim>\<open>int64\<close> whose wrap-around is written out with
  \<open>wrap64\<close> where the code computes with it.  An error is a value of \<open>go_error\<close>; a call returning
  \<^verbatim>\<open>(T, error)\<close> returns a sum, a call returning only \<^verbatim>\<open>error\<close> an option.

  The theory ends with the generic lemmas on lists, options and error values that the components
  share, and the collections \<open>go_simps\<close> and \<open>err_simps\<close> they are declared into.
\<close>

named_theorems go_simps \<open>evaluation of the string and time helpers\<close>
named_theorems err_simps \<open>evaluation of the error helpers\<close>

subsection \<open>Time and machine integers\<close>

type_synonym time = int
type_synonym duration = int

abbreviation (input) zero_time :: time where
  "zero_time \<equiv> 0"

definition millisecond :: duration where [go_simps]: "millisecond = 1000000"
definition second :: duration where [go_simps]: "second = 1000000000"
definition minute :: duration where [go_simps]: "minute = 60000000000"
definition hour :: duration where [go_simps]: "hour = 3600000000000"

text \<open>The value an \<^verbatim>\<open>int64\<close> operation leaves, given its mathematical result.\<close>

definition wrap64 :: "int \<Rightarrow> int" where
  "wrap64 i = signed_take_bit 63 i"

definition int64_range :: "int \<Rightarrow> bool" where
  "int64_range i \<longleftrightarrow> - (2 ^ 63) \<le> i \<and> i < 2 ^ 63"

lemma wrap64_range: "int64_range (wrap64 i)"
  unfolding int64_range_def wrap64_def
  using signed_take_bit_int_greater_eq_minus_exp [of 63 i] signed_take_bit_int_less_exp [of 63 i]
  by simp

lemma wrap64_id: "int64_range i \<Longrightarrow> wrap64 i = i"
  unfolding int64_range_def wrap64_def by (simp add: signed_take_bit_int_eq_self)

lemma wrap64_small:
  assumes "0 \<le> i" "i < 2 ^ 63"
  shows "wrap64 i = i"
  using assms by (intro wrap64_id) (simp add: int64_range_def)

text \<open>The conversion \<^verbatim>\<open>int32(n)\<close>.\<close>

definition int32_of :: "int \<Rightarrow> int" where
  "int32_of n = sint (of_int n :: 32 word)"

subsection \<open>Errors\<close>

text \<open>
  \<open>Errorf\<close> is an error made by \<^verbatim>\<open>errors.New\<close> or \<^verbatim>\<open>fmt.Errorf\<close>: its format and its arguments, those
  under \<^verbatim>\<open>%w\<close> as \<open>FWrap\<close>.  \<open>Joined\<close> is the result of \<^verbatim>\<open>errors.Join\<close>.  \<open>FetchError\<close> is the
  struct of \<^verbatim>\<open>internal/feed/errors.go\<close>, which unwraps to its third field.
\<close>

datatype go_error =
    Canceled
  | DeadlineExceeded
  | Errorf string "farg list"
  | Joined "go_error list"
  | FetchError string int go_error
and farg =
    FStr string
  | FStrs "string list"
  | FInt int
  | FDur duration
  | FReal rat
  | FWrap go_error

type_synonym 'a result = "go_error + 'a"

text \<open>\<^verbatim>\<open>errors.Is(err, context.Canceled)\<close>: some error of the tree is the sentinel.\<close>

fun is_canceled :: "go_error \<Rightarrow> bool"
  and is_canceled_args :: "farg list \<Rightarrow> bool"
  and is_canceled_list :: "go_error list \<Rightarrow> bool" where
  "is_canceled Canceled = True"
| "is_canceled DeadlineExceeded = False"
| "is_canceled (Errorf f as) = is_canceled_args as"
| "is_canceled (Joined es) = is_canceled_list es"
| "is_canceled (FetchError op st e) = is_canceled e"
| "is_canceled_args [] = False"
| "is_canceled_args (FWrap e # as) = (is_canceled e \<or> is_canceled_args as)"
| "is_canceled_args (FStr s # as) = is_canceled_args as"
| "is_canceled_args (FStrs ss # as) = is_canceled_args as"
| "is_canceled_args (FInt i # as) = is_canceled_args as"
| "is_canceled_args (FDur d # as) = is_canceled_args as"
| "is_canceled_args (FReal r # as) = is_canceled_args as"
| "is_canceled_list [] = False"
| "is_canceled_list (e # es) = (is_canceled e \<or> is_canceled_list es)"

text \<open>\<^verbatim>\<open>errors.As(err, &fe)\<close> with \<^verbatim>\<open>fe *FetchError\<close>: the first such error in pre-order.\<close>

fun as_fetch_error :: "go_error \<Rightarrow> (string \<times> int \<times> go_error) option"
  and as_fetch_error_args :: "farg list \<Rightarrow> (string \<times> int \<times> go_error) option"
  and as_fetch_error_list :: "go_error list \<Rightarrow> (string \<times> int \<times> go_error) option" where
  "as_fetch_error Canceled = None"
| "as_fetch_error DeadlineExceeded = None"
| "as_fetch_error (Errorf f as) = as_fetch_error_args as"
| "as_fetch_error (Joined es) = as_fetch_error_list es"
| "as_fetch_error (FetchError op st e) = Some (op, st, e)"
| "as_fetch_error_args [] = None"
| "as_fetch_error_args (FWrap e # as) =
     (case as_fetch_error e of Some r \<Rightarrow> Some r | None \<Rightarrow> as_fetch_error_args as)"
| "as_fetch_error_args (FStr s # as) = as_fetch_error_args as"
| "as_fetch_error_args (FStrs ss # as) = as_fetch_error_args as"
| "as_fetch_error_args (FInt i # as) = as_fetch_error_args as"
| "as_fetch_error_args (FDur d # as) = as_fetch_error_args as"
| "as_fetch_error_args (FReal r # as) = as_fetch_error_args as"
| "as_fetch_error_list [] = None"
| "as_fetch_error_list (e # es) =
     (case as_fetch_error e of Some r \<Rightarrow> Some r | None \<Rightarrow> as_fetch_error_list es)"

text \<open>\<^verbatim>\<open>errors.Join\<close>: nil errors are dropped, and joining nothing is nil.\<close>

definition somes :: "'a option list \<Rightarrow> 'a list" where
  "somes xs = concat (map (\<lambda>x. case x of None \<Rightarrow> [] | Some a \<Rightarrow> [a]) xs)"

definition errors_Join :: "go_error option list \<Rightarrow> go_error option" where
  "errors_Join es = (case somes es of [] \<Rightarrow> None | fs \<Rightarrow> Some (Joined fs))"

lemma somes_simps [simp]:
  "somes [] = []" "somes (None # xs) = somes xs" "somes (Some a # xs) = a # somes xs"
  by (simp_all add: somes_def)

lemma errors_Join_Some [simp, err_simps]:
  "errors_Join (Some e # es) = Some (Joined (e # somes es))"
  "errors_Join (None # es) = errors_Join es"
  "errors_Join [] = None"
  by (simp_all add: errors_Join_def)


subsection \<open>Strings\<close>

text \<open>
  \<^verbatim>\<open>unicode.IsSpace\<close> and \<^verbatim>\<open>strings.ToLower\<close> work on runes.  \<open>runes\<close> splits a byte string into
  its UTF-8 sequences; a byte that starts no complete sequence is a rune of its own, as Go's decoder
  has it.
\<close>

definition byte :: "char \<Rightarrow> nat" where
  "byte c = of_char c"

definition nul :: char where
  "nul = char_of (0 :: nat)"

definition continuation :: "char \<Rightarrow> bool" where
  "continuation c \<longleftrightarrow> 128 \<le> byte c \<and> byte c < 192"

definition seq_len :: "char \<Rightarrow> nat" where
  "seq_len c =
     (if byte c < 194 then 0 else if byte c < 224 then 1 else if byte c < 240 then 2
      else if byte c < 245 then 3 else 0)"

text \<open>Overlong sequences, surrogates and values beyond U+10FFFF are ruled out by the second byte.\<close>

definition second_ok :: "char \<Rightarrow> string \<Rightarrow> bool" where
  "second_ok c cs =
     (case cs of
        [] \<Rightarrow> True
      | d # _ \<Rightarrow>
          (byte c = 224 \<longrightarrow> 160 \<le> byte d) \<and> (byte c = 237 \<longrightarrow> byte d < 160) \<and>
          (byte c = 240 \<longrightarrow> 144 \<le> byte d) \<and> (byte c = 244 \<longrightarrow> byte d < 144))"

definition extra_len :: "char \<Rightarrow> string \<Rightarrow> nat" where
  "extra_len c cs =
     (let k = seq_len c
      in if k \<le> length cs \<and> list_all continuation (take k cs) \<and> second_ok c (take k cs) then k else 0)"

fun runes :: "string \<Rightarrow> string list" where
  "runes [] = []"
| "runes (c # cs) = (c # take (extra_len c cs) cs) # runes (drop (extra_len c cs) cs)"

definition mkrune :: "nat list \<Rightarrow> string" where
  "mkrune bs = map char_of bs"

text \<open>The white space of \<^verbatim>\<open>unicode.IsSpace\<close>: six ASCII bytes, U+0085, U+00A0, U+1680,
  U+2000 to U+200A, U+2028, U+2029, U+202F, U+205F and U+3000.\<close>

definition is_space :: "string \<Rightarrow> bool" where
  "is_space r =
     (case map byte r of
        [a] \<Rightarrow> (9 \<le> a \<and> a \<le> 13) \<or> a = 32
      | [a, b] \<Rightarrow> a = 194 \<and> (b = 133 \<or> b = 160)
      | [a, b, c] \<Rightarrow>
          (a = 225 \<and> b = 154 \<and> c = 128) \<or>
          (a = 226 \<and> b = 128 \<and> ((128 \<le> c \<and> c \<le> 138) \<or> c = 168 \<or> c = 169 \<or> c = 175)) \<or>
          (a = 226 \<and> b = 129 \<and> c = 159) \<or> (a = 227 \<and> b = 128 \<and> c = 128)
      | _ \<Rightarrow> False)"

definition TrimSpace :: "string \<Rightarrow> string" where
  "TrimSpace s = concat (rev (dropWhile is_space (rev (dropWhile is_space (runes s)))))"

text \<open>\<^verbatim>\<open>strings.Fields\<close>: the maximal runs of runes that are not white space.\<close>

fun fields_aux :: "string list \<Rightarrow> string \<Rightarrow> string list" where
  "fields_aux [] w = (if w = [] then [] else [w])"
| "fields_aux (r # rs) w =
     (if is_space r then (if w = [] then fields_aux rs [] else w # fields_aux rs [])
      else fields_aux rs (w @ r))"

definition Fields :: "string \<Rightarrow> string list" where
  "Fields s = fields_aux (runes s) []"

fun strings_Join :: "string list \<Rightarrow> string \<Rightarrow> string" where
  "strings_Join [] sep = []"
| "strings_Join [s] sep = s"
| "strings_Join (s # t # ss) sep = s @ sep @ strings_Join (t # ss) sep"

definition HasPrefix :: "string \<Rightarrow> string \<Rightarrow> bool" where
  "HasPrefix s p \<longleftrightarrow> take (length p) s = p"

definition HasSuffix :: "string \<Rightarrow> string \<Rightarrow> bool" where
  "HasSuffix s p \<longleftrightarrow> length p \<le> length s \<and> drop (length s - length p) s = p"

definition TrimPrefix :: "string \<Rightarrow> string \<Rightarrow> string" where
  "TrimPrefix s p = (if HasPrefix s p then drop (length p) s else s)"

text \<open>
  \<^verbatim>\<open>strings.ToLower\<close> as the sources use it, to compare the result with ASCII literals: beside the
  ASCII capitals only U+0130 and U+212A are lowered to an ASCII letter.
\<close>

definition lower_rune :: "string \<Rightarrow> string" where
  "lower_rune r =
     (case map byte r of
        [a] \<Rightarrow> (if 65 \<le> a \<and> a \<le> 90 then mkrune [a + 32] else r)
      | [a, b] \<Rightarrow> (if a = 196 \<and> b = 176 then ''i'' else r)
      | [a, b, c] \<Rightarrow> (if a = 226 \<and> b = 132 \<and> c = 170 then ''k'' else r)
      | _ \<Rightarrow> r)"

definition ToLower :: "string \<Rightarrow> string" where
  "ToLower s = concat (map lower_rune (runes s))"

lemma concat_runes [simp]: "concat (runes s) = s"
  by (induction s rule: runes.induct) simp_all

lemma runes_ne: "r \<in> set (runes s) \<Longrightarrow> r \<noteq> []"
  by (induction s rule: runes.induct) auto

text \<open>A white-space byte ends every rune before it, so splitting distributes over it.\<close>

lemma ascii_not_continuation: "byte c < 128 \<Longrightarrow> \<not> continuation c"
  by (simp add: continuation_def)

lemma extra_len_le: "extra_len c cs \<le> length cs"
  by (simp add: extra_len_def Let_def)

lemma extra_len_append_ascii:
  assumes "byte a < 128"
  shows "extra_len c (cs @ a # ds) = extra_len c cs"
proof (cases "seq_len c \<le> length cs")
  case True
  then show ?thesis by (simp add: extra_len_def Let_def)
next
  case False
  then obtain j where j: "seq_len c - length cs = Suc j"
    by (metis Suc_diff_Suc not_le)
  then have "a \<in> set (take (seq_len c) (cs @ a # ds))" by simp
  with assms have "\<not> list_all continuation (take (seq_len c) (cs @ a # ds))"
    by (auto simp: list_all_iff dest: ascii_not_continuation)
  with False show ?thesis by (auto simp: extra_len_def Let_def)
qed

lemma seq_len_ascii: "byte a < 128 \<Longrightarrow> seq_len a = 0"
  by (simp add: seq_len_def)

lemma runes_ascii: "byte a < 128 \<Longrightarrow> runes (a # cs) = [a] # runes cs"
  by (simp add: extra_len_def seq_len_ascii)

lemma runes_append_ascii:
  assumes "byte a < 128"
  shows "runes (s @ a # t) = runes s @ [a] # runes t"
proof (induction s rule: runes.induct)
  case 1
  show ?case using assms by (simp add: runes_ascii del: runes.simps(2))
next
  case (2 c cs)
  have "extra_len c (cs @ a # t) = extra_len c cs"
    by (rule extra_len_append_ascii [OF assms])
  with "2.IH" show ?case
    using extra_len_le [of c cs] by simp
qed

lemma fields_aux_append_space:
  "is_space r \<Longrightarrow>
     fields_aux (rs @ r # qs) w = fields_aux rs w @ fields_aux qs []"
  by (induction rs w rule: fields_aux.induct) auto

lemma Fields_append_space: "Fields (s @ CHR '' '' # t) = Fields s @ Fields t"
proof -
  have "byte (CHR '' '') = 32" by (simp add: byte_def)
  then have "is_space [CHR '' '']" and "byte (CHR '' '') < 128" by (simp_all add: is_space_def)
  then show ?thesis
    by (simp add: Fields_def runes_append_ascii fields_aux_append_space)
qed

subsection \<open>Lists, options and sums\<close>

lemma sorted_key_append_le:
  "sorted (map f xs) \<Longrightarrow> i < j \<Longrightarrow> j < length xs \<Longrightarrow> f (xs ! i) \<le> f (xs ! j)"
  using sorted_nth_mono [of "map f xs" i j] by simp

subsection \<open>Milliseconds of the Unix epoch\<close>

text \<open>Times count nanoseconds from the year 1, \<^verbatim>\<open>UnixMilli\<close> milliseconds from 1970, rounding down.\<close>

definition UnixMilli :: "time \<Rightarrow> int" where
  "UnixMilli t = t div millisecond - 62135596800000"

lemma UnixMilli_mono: "a \<le> b \<Longrightarrow> UnixMilli a \<le> UnixMilli b"
  by (simp add: UnixMilli_def millisecond_def zdiv_mono1)

end
