(* ===== verification/Change_Model.thy ===== *)
theory Change_Model
  imports Prelude
begin

section \<open>The change envelope (\<^verbatim>\<open>internal/model/change.go\<close>)\<close>

text \<open>
  The envelope \<open>change\<close>, the identity key of an item and the content hash by which the detector
  decides whether an item is new, updated or unchanged.  The SHA-256 digest, as a hex string, is the
  argument \<open>sha\<close> of the definitions that use it: every theorem holds for every digest function.
  The RFC 3339 rendering of a UTC time is modelled, so that what is fed to the digest is concrete.
\<close>

datatype ChangeKind = ChangeNew | ChangeUpdated

definition SchemaVersionConst :: int where
  "SchemaVersionConst = 1"

record change =
  SchemaVersion :: int
  FeedURL :: string
  FeedTitle :: string
  ItemID :: string
  Kind :: ChangeKind
  Title :: string
  Link :: string
  Authors :: "string list"
  Summary :: string
  Content :: string
  Categories :: "string list"
  PublishedAt :: "time option"
  UpdatedAt :: "time option"
  ContentHashOf :: string
  DetectedAt :: time
  DLQFromSink :: string
  DLQError :: string
  DLQAttempts :: int

text \<open>\<^verbatim>\<open>MarshalJSON\<close> encodes the envelope with the schema version filled in when it is unset.\<close>

definition MarshalJSON :: "(change \<Rightarrow> 'j) \<Rightarrow> change \<Rightarrow> 'j" where
  "MarshalJSON enc c =
     enc (if SchemaVersion c = 0 then c\<lparr>SchemaVersion := SchemaVersionConst\<rparr> else c)"

definition UnmarshalJSON :: "('j \<Rightarrow> change result) \<Rightarrow> 'j \<Rightarrow> change result" where
  "UnmarshalJSON dec b = (case dec b of Inl e \<Rightarrow> Inl e | Inr a \<Rightarrow> Inr a)"

subsection \<open>Rendering a time\<close>

definition digit :: "int \<Rightarrow> char" where
  "digit n = char_of (48 + nat (n mod 10))"

definition pad2 :: "int \<Rightarrow> string" where
  "pad2 n = [digit (n div 10), digit n]"

fun itoa_nat :: "nat \<Rightarrow> string" where
  "itoa_nat n = (if n < 10 then [] else itoa_nat (n div 10)) @ [digit (int (n mod 10))]"

declare itoa_nat.simps [simp del]

text \<open>The year is padded to four digits and may have more, or a sign.\<close>

definition pad4 :: "int \<Rightarrow> string" where
  "pad4 n =
     (let m = \<bar>n\<bar>;
          ds = (if m < 10000 then [digit (m div 1000), digit (m div 100), digit (m div 10), digit m]
                else itoa_nat (nat m))
      in (if n < 0 then ''-'' @ ds else ds))"

text \<open>Proleptic Gregorian date of a day number counted from 0001-01-01: the year and the day of the
  year, then the month and the day of the month.\<close>

definition year_day :: "int \<Rightarrow> int \<times> int" where
  "year_day days =
     (let n400 = days div 146097; d1 = days mod 146097;
          n100 = min 3 (d1 div 36524); d2 = d1 - 36524 * n100;
          n4 = d2 div 1461; d3 = d2 mod 1461;
          n1 = min 3 (d3 div 365); d4 = d3 - 365 * n1
      in (400 * n400 + 100 * n100 + 4 * n4 + n1 + 1, d4))"

definition is_leap :: "int \<Rightarrow> bool" where
  "is_leap y \<longleftrightarrow> y mod 4 = 0 \<and> (y mod 100 \<noteq> 0 \<or> y mod 400 = 0)"

definition month_day :: "int \<Rightarrow> int \<Rightarrow> int \<times> int" where
  "month_day l yd =
     (if yd < 31 then (1, yd + 1) else if yd < 59 + l then (2, yd - 30)
      else if yd < 90 + l then (3, yd - 58 - l) else if yd < 120 + l then (4, yd - 89 - l)
      else if yd < 151 + l then (5, yd - 119 - l) else if yd < 181 + l then (6, yd - 150 - l)
      else if yd < 212 + l then (7, yd - 180 - l) else if yd < 243 + l then (8, yd - 211 - l)
      else if yd < 273 + l then (9, yd - 242 - l) else if yd < 304 + l then (10, yd - 272 - l)
      else if yd < 334 + l then (11, yd - 303 - l) else (12, yd - 333 - l))"

definition civil :: "int \<Rightarrow> int \<times> int \<times> int" where
  "civil days =
     (case year_day days of (y, yd) \<Rightarrow> (y, month_day (if is_leap y then 1 else 0) yd))"

definition RFC3339 :: "time \<Rightarrow> string" where
  "RFC3339 t =
     (let s = t div second; day = s div 86400; r = s mod 86400
      in case civil day of (y, m, d) \<Rightarrow>
           pad4 y @ ''-'' @ pad2 m @ ''-'' @ pad2 d @ ''T'' @
           pad2 (r div 3600) @ '':'' @ pad2 (r div 60 mod 60) @ '':'' @ pad2 (r mod 60) @ ''Z'')"

subsection \<open>Identity and content hash\<close>

definition norm_field :: "string \<Rightarrow> string" where
  "norm_field s = strings_Join (Fields s) '' ''"

text \<open>\<^verbatim>\<open>writeField\<close> appends the normalised field and a NUL byte to what the digest has read.\<close>

definition writeField :: "string \<Rightarrow> string \<Rightarrow> string" where
  "writeField h s = h @ norm_field s @ [nul]"

definition hash_input :: "string \<Rightarrow> string \<Rightarrow> string \<Rightarrow> string \<Rightarrow> time \<Rightarrow> string" where
  "hash_input title link body author updatedAt =
     writeField (writeField (writeField (writeField (writeField [] title) link) body) author)
       (RFC3339 updatedAt)"

definition ContentHash ::
    "(string \<Rightarrow> string) \<Rightarrow> string \<Rightarrow> string \<Rightarrow> string \<Rightarrow> string \<Rightarrow> time \<Rightarrow> string" where
  "ContentHash sha title link body author updatedAt =
     sha (hash_input title link body author updatedAt)"

definition IdentityKey ::
    "(string \<Rightarrow> string) \<Rightarrow> string \<Rightarrow> string \<Rightarrow> string \<Rightarrow> time \<Rightarrow> string" where
  "IdentityKey sha guid link title publishedAt =
     (if guid \<noteq> [] then guid
      else if link \<noteq> [] then link
      else sha (TrimSpace title @ ''|'' @ RFC3339 publishedAt))"

subsection \<open>Normalisation is idempotent\<close>

lemma runes_append_prefix: "runes s = rs @ qs \<Longrightarrow> runes (concat rs) = rs"
proof (induction s arbitrary: rs rule: runes.induct)
  case 1
  then show ?case by simp
next
  case (2 c cs)
  show ?case
  proof (cases rs)
    case Nil
    then show ?thesis by simp
  next
    case (Cons r rs')
    let ?k = "extra_len c cs"
    from 2 Cons have r: "r = c # take ?k cs" and rest: "runes (drop ?k cs) = rs' @ qs" by simp_all
    have IH: "runes (concat rs') = rs'" by (rule "2.IH" [OF rest])
    have "drop ?k cs = concat rs' @ concat qs"
      using arg_cong [OF rest, of concat] by simp
    then have cs: "cs = take ?k cs @ concat rs' @ concat qs"
      by (metis append_take_drop_id)
    have "extra_len c (take ?k cs @ concat rs') = ?k"
    proof (cases "?k = 0")
      case True
      define n where "n = seq_len c"
      have "\<not> (n \<le> length cs \<and> list_all continuation (take n cs) \<and> second_ok c (take n cs)) \<or> n = 0"
        using True by (auto simp: extra_len_def Let_def n_def split: if_splits)
      moreover have "take n (concat rs') = take n cs" if "n \<le> length (concat rs')"
        using that cs True by simp
      moreover have "length (concat rs') \<le> length cs"
        using cs True by (metis append.assoc length_append le_add1 append_self_conv2 take_eq_Nil2)
      ultimately show ?thesis
        using True by (auto simp: extra_len_def Let_def n_def)
    next
      case False
      then have k: "?k = seq_len c" and "?k \<le> length cs" "list_all continuation (take ?k cs)"
          "second_ok c (take ?k cs)"
        by (auto simp: extra_len_def Let_def split: if_splits)
      then show ?thesis by (simp add: extra_len_def Let_def)
    qed
    then show ?thesis using Cons r IH extra_len_le [of c cs] by simp
  qed
qed


lemma fields_aux_nonspace:
  "\<forall>r\<in>set rs. \<not> is_space r \<Longrightarrow>
     fields_aux rs w = (if w @ concat rs = [] then [] else [w @ concat rs])"
  by (induction rs w rule: fields_aux.induct) auto

text \<open>
  Every field is the concatenation of a contiguous block of non-space runes, so splitting it again
  leaves it whole.
\<close>

lemma fields_aux_blocks:
  assumes "x \<in> set (fields_aux rs (concat ws))"
  shows "(\<exists>us vs. rs = us @ vs \<and> x = concat (ws @ us) \<and> (\<forall>r\<in>set us. \<not> is_space r))
       \<or> (\<exists>ps us vs. rs = ps @ us @ vs \<and> x = concat us \<and> (\<forall>r\<in>set us. \<not> is_space r))"
  using assms
proof (induction rs arbitrary: ws)
  case Nil
  then show ?case by (auto split: if_splits)
next
  case (Cons r rs)
  show ?case
  proof (cases "is_space r")
    case True
    show ?thesis
    proof (cases "x = concat ws \<and> concat ws \<noteq> []")
      case True
      then have "r # rs = [] @ (r # rs) \<and> x = concat (ws @ []) \<and> (\<forall>r\<in>set []. \<not> is_space r)"
        by simp
      then show ?thesis by blast
    next
      case False
      with True Cons.prems have "x \<in> set (fields_aux rs (concat []))"
        by (auto split: if_splits)
      from Cons.IH [OF this] show ?thesis
      proof (elim disjE exE conjE)
        fix us vs
        assume "rs = us @ vs" "x = concat ([] @ us)" "\<forall>r\<in>set us. \<not> is_space r"
        then show ?thesis by (intro disjI2 exI [of _ "[r]"] exI [of _ us] exI [of _ vs]) simp
      next
        fix ps us vs
        assume "rs = ps @ us @ vs" "x = concat us" "\<forall>r\<in>set us. \<not> is_space r"
        then show ?thesis by (intro disjI2 exI [of _ "r # ps"] exI [of _ us] exI [of _ vs]) simp
      qed
    qed
  next
    case False
    with Cons.prems have "x \<in> set (fields_aux rs (concat (ws @ [r])))" by simp
    from Cons.IH [OF this] show ?thesis
    proof (elim disjE exE conjE)
      fix us vs
      assume "rs = us @ vs" "x = concat ((ws @ [r]) @ us)" "\<forall>r\<in>set us. \<not> is_space r"
      with False show ?thesis by (intro disjI1 exI [of _ "r # us"] exI [of _ vs]) auto
    next
      fix ps us vs
      assume "rs = ps @ us @ vs" "x = concat us" "\<forall>r\<in>set us. \<not> is_space r"
      then show ?thesis by (intro disjI2 exI [of _ "r # ps"] exI [of _ us] exI [of _ vs]) simp
    qed
  qed
qed

lemma runes_drop: "runes s = ps @ qs \<Longrightarrow> runes (concat qs) = qs"
proof (induction s arbitrary: ps rule: runes.induct)
  case 1
  then show ?case by simp
next
  case (2 c cs)
  then show ?case
    using concat_runes [of "c # cs"] by (cases ps) (auto simp del: concat_runes)
qed

lemma fields_aux_ne: "x \<in> set (fields_aux rs w) \<Longrightarrow> x \<noteq> []"
  by (induction rs w rule: fields_aux.induct) (auto split: if_splits)

lemma Fields_Fields: "x \<in> set (Fields s) \<Longrightarrow> Fields x = [x]"
proof -
  assume x: "x \<in> set (Fields s)"
  then have "x \<in> set (fields_aux (runes s) (concat []))" by (simp add: Fields_def)
  then obtain ps us vs where us: "runes s = ps @ us @ vs" "x = concat us"
      "\<forall>r\<in>set us. \<not> is_space r"
    by (metis fields_aux_blocks append_Nil)
  then have "runes (concat (us @ vs)) = us @ vs" by (metis runes_drop)
  then have "runes x = us" using us(2) by (metis runes_append_prefix)
  moreover from x have "x \<noteq> []" unfolding Fields_def by (rule fields_aux_ne)
  ultimately show ?thesis
    using us(2,3) by (simp add: Fields_def fields_aux_nonspace del: concat_eq_Nil_conv)
qed

lemma Fields_Join:
  "\<forall>x\<in>set xs. Fields x = [x] \<Longrightarrow> Fields (strings_Join xs '' '') = xs"
proof (induction xs "'' ''" rule: strings_Join.induct)
  case 1
  then show ?case by (simp add: Fields_def)
next
  case (2 s)
  then show ?case by simp
next
  case (3 s t ss)
  then show ?case by (simp add: Fields_append_space)
qed

lemma Fields_norm: "Fields (norm_field s) = Fields s"
  unfolding norm_field_def by (rule Fields_Join) (simp add: Fields_Fields)

lemma norm_norm: "norm_field (norm_field s) = norm_field s"
  using Fields_norm [of s] by (simp add: norm_field_def)

subsection \<open>The digest's input determines the normalised fields\<close>

lemma split_at_unique:
  assumes "x @ c # xs = y @ c # ys" "c \<notin> set x" "c \<notin> set y"
  shows "x = y \<and> xs = ys"
  using assms by (induction x arbitrary: y) (case_tac y; auto)+

lemma set_fields_aux:
  "x \<in> set (fields_aux rs w) \<Longrightarrow> c \<in> set x \<Longrightarrow> c \<in> set w \<or> (\<exists>r\<in>set rs. c \<in> set r)"
  by (induction rs w rule: fields_aux.induct) (auto split: if_splits)

lemma set_Join: "set (strings_Join xs sep) \<subseteq> \<Union>(set ` set xs) \<union> set sep"
  by (induction xs sep rule: strings_Join.induct) auto

lemma set_norm: "set (norm_field s) \<subseteq> set s \<union> {CHR '' ''}"
proof -
  have "\<Union>(set ` set (runes s)) = set s"
    by (metis concat_runes set_concat)
  then have "\<Union>(set ` set (Fields s)) \<subseteq> set s"
    using set_fields_aux [where rs = "runes s" and w = "[]"] by (fastforce simp: Fields_def)
  then show ?thesis
    using set_Join [of "Fields s" "'' ''"] unfolding norm_field_def by (simp, blast)
qed

lemma nul_ne_blank: "nul \<noteq> CHR '' ''"
  by (simp add: nul_def char_of_def)

lemma nul_norm: "nul \<notin> set s \<Longrightarrow> nul \<notin> set (norm_field s)"
  using set_norm [of s] nul_ne_blank by blast

text \<open>Printable ASCII text without blanks is its own normal form; a rendered time is such text.\<close>

definition graphic :: "char \<Rightarrow> bool" where
  "graphic c \<longleftrightarrow> 33 \<le> byte c \<and> byte c < 127"

lemma runes_graphic: "list_all graphic s \<Longrightarrow> runes s = map (\<lambda>c. [c]) s"
  by (induction s) (simp_all add: graphic_def runes_ascii del: runes.simps(2))

lemma norm_graphic: "list_all graphic s \<Longrightarrow> norm_field s = s"
proof -
  assume g: "list_all graphic s"
  then have "\<forall>r\<in>set (runes s). \<not> is_space r"
    by (auto simp: runes_graphic list_all_iff graphic_def is_space_def)
  then have "Fields s = (if s = [] then [] else [s])"
    by (simp add: Fields_def fields_aux_nonspace)
  then show ?thesis by (simp add: norm_field_def)
qed

lemma graphic_nul: "list_all graphic s \<Longrightarrow> nul \<notin> set s"
  by (auto simp: list_all_iff graphic_def nul_def byte_def)

lemma graphic_digit [simp]: "graphic (digit n)"
proof -
  have "nat (n mod 10) < 10" by simp
  then have "byte (digit n) = 48 + nat (n mod 10)"
    by (simp add: byte_def digit_def)
  with \<open>nat (n mod 10) < 10\<close> show ?thesis by (simp add: graphic_def)
qed

lemma graphic_itoa [simp]: "list_all graphic (itoa_nat n)"
  by (induction n rule: itoa_nat.induct) (subst itoa_nat.simps, simp)

lemma graphic_RFC3339: "list_all graphic (RFC3339 t)"
proof -
  have "graphic (CHR ''-'')" "graphic (CHR ''T'')" "graphic (CHR '':'')" "graphic (CHR ''Z'')"
    by (simp_all add: graphic_def byte_def)
  then show ?thesis
    by (simp add: RFC3339_def Let_def pad2_def pad4_def split: prod.split)
qed

lemma hash_input_inject:
  assumes "nul \<notin> set t" "nul \<notin> set l" "nul \<notin> set b" "nul \<notin> set a"
    and "nul \<notin> set t'" "nul \<notin> set l'" "nul \<notin> set b'" "nul \<notin> set a'"
    and eq: "hash_input t l b a u = hash_input t' l' b' a' u'"
  shows "norm_field t = norm_field t' \<and> norm_field l = norm_field l' \<and> norm_field b = norm_field b' \<and> norm_field a = norm_field a'
       \<and> RFC3339 u = RFC3339 u'"
proof -
  have *: "norm_field t @ nul # norm_field l @ nul # norm_field b @ nul # norm_field a @ nul # norm_field (RFC3339 u) @ [nul] =
      norm_field t' @ nul # norm_field l' @ nul # norm_field b' @ nul # norm_field a' @ nul # norm_field (RFC3339 u') @ [nul]"
    using eq by (simp add: hash_input_def writeField_def)
  note split = split_at_unique [of _ nul]
  from split [OF *] assms have t: "norm_field t = norm_field t'"
    and "norm_field l @ nul # norm_field b @ nul # norm_field a @ nul # norm_field (RFC3339 u) @ [nul] =
      norm_field l' @ nul # norm_field b' @ nul # norm_field a' @ nul # norm_field (RFC3339 u') @ [nul]"
    by (simp_all add: nul_norm)
  from split [OF this(2)] assms have l: "norm_field l = norm_field l'"
    and "norm_field b @ nul # norm_field a @ nul # norm_field (RFC3339 u) @ [nul] =
      norm_field b' @ nul # norm_field a' @ nul # norm_field (RFC3339 u') @ [nul]"
    by (simp_all add: nul_norm)
  from split [OF this(2)] assms have b: "norm_field b = norm_field b'"
    and "norm_field a @ nul # norm_field (RFC3339 u) @ [nul] = norm_field a' @ nul # norm_field (RFC3339 u') @ [nul]"
    by (simp_all add: nul_norm)
  from split [OF this(2)] assms have a: "norm_field a = norm_field a'"
    and "norm_field (RFC3339 u) = norm_field (RFC3339 u')"
    by (simp_all add: nul_norm)
  with t l b show ?thesis by (simp add: norm_graphic graphic_RFC3339)
qed

end
