(* ===== verification/Retry.thy ===== *)
theory Retry
  imports Prelude
begin

section \<open>Retry with full-jitter back-off (\<^verbatim>\<open>internal/retry/retry.go\<close>)\<close>

text \<open>
  The world a call runs in is a state of any type \<open>'s\<close>.  What the code uses of contexts, clocks
  and random numbers is the record \<open>runtime\<close>, an argument of the definitions: the clock, the
  error of a context (a context is its deadline, if it has one), the \<^verbatim>\<open>select\<close> between a
  context's end and a timer, and \<^verbatim>\<open>rand.Int64N\<close>.  Every theorem holds for every runtime, so for
  every moment at which the context may be cancelled and every draw of the jitter.
\<close>

type_synonym ctx = "time option"

record 's runtime =
  rt_now :: "'s \<Rightarrow> time"
  ctx_Err :: "ctx \<Rightarrow> 's \<Rightarrow> go_error option"
  ctx_wait :: "ctx \<Rightarrow> duration \<Rightarrow> 's \<Rightarrow> bool \<times> 's"  \<comment> \<open>True: the context's \<^verbatim>\<open>Done\<close> was selected\<close>
  rand_Int64N :: "int \<Rightarrow> 's \<Rightarrow> int \<times> 's"

definition WithTimeout :: "'s runtime \<Rightarrow> ctx \<Rightarrow> duration \<Rightarrow> 's \<Rightarrow> ctx" where
  "WithTimeout rt c d s =
     (case c of None \<Rightarrow> Some (rt_now rt s + d) | Some t \<Rightarrow> Some (min t (rt_now rt s + d)))"

record retry_config =
  MaxAttempts :: int
  BaseDelay :: duration
  MaxDelay :: duration
  Retryable :: "(go_error \<Rightarrow> bool) option"

record retry_result =
  Attempts :: int
  Err :: "go_error option"

text \<open>A shift by the width or more leaves 0, which is what wrapping the product leaves.\<close>

definition delay_ceiling :: "retry_config \<Rightarrow> int \<Rightarrow> duration" where
  "delay_ceiling cfg attempt =
     (let d = wrap64 (BaseDelay cfg * 2 ^ nat (attempt - 1))
      in if d \<le> 0 \<or> d > MaxDelay cfg then MaxDelay cfg else d)"

definition delayFor :: "'s runtime \<Rightarrow> retry_config \<Rightarrow> int \<Rightarrow> 's \<Rightarrow> duration \<times> 's" where
  "delayFor rt cfg attempt s =
     (let d = delay_ceiling cfg attempt in if d \<le> 0 then (0, s) else rand_Int64N rt d s)"

text \<open>The defaults \<^verbatim>\<open>Do\<close> fills in before its loop.\<close>

definition clampAttempts :: "retry_config \<Rightarrow> retry_config" where
  "clampAttempts cfg = (if MaxAttempts cfg < 1 then cfg\<lparr>MaxAttempts := 1\<rparr> else cfg)"

definition clampBase :: "retry_config \<Rightarrow> retry_config" where
  "clampBase cfg = (if BaseDelay cfg \<le> 0 then cfg\<lparr>BaseDelay := 100 * millisecond\<rparr> else cfg)"

definition clampMax :: "retry_config \<Rightarrow> retry_config" where
  "clampMax cfg =
     (if MaxDelay cfg \<le> 0 \<or> MaxDelay cfg < BaseDelay cfg
      then cfg\<lparr>MaxDelay := wrap64 (10 * BaseDelay cfg)\<rparr> else cfg)"

definition withDefaults :: "retry_config \<Rightarrow> retry_config" where
  "withDefaults cfg = clampMax (clampBase (clampAttempts cfg))"

definition gives_up :: "retry_config \<Rightarrow> go_error \<Rightarrow> bool" where
  "gives_up cfg e = (case Retryable cfg of None \<Rightarrow> False | Some p \<Rightarrow> \<not> p e)"

function do_loop ::
    "'s runtime \<Rightarrow> ctx \<Rightarrow> retry_config \<Rightarrow> ('s \<Rightarrow> go_error option \<times> 's) \<Rightarrow>
     int \<Rightarrow> go_error option \<Rightarrow> 's \<Rightarrow> retry_result \<times> 's" where
  "do_loop rt c cfg fn attempt lastErr s =
     (if attempt > MaxAttempts cfg
      then (\<lparr>Attempts = MaxAttempts cfg, Err = lastErr\<rparr>, s)
      else case ctx_Err rt c s of
        Some err \<Rightarrow>
          (case lastErr of
             None \<Rightarrow> (\<lparr>Attempts = attempt - 1, Err = Some err\<rparr>, s)
           | Some le \<Rightarrow>
               (\<lparr>Attempts = attempt - 1, Err = errors_Join [Some le, Some err]\<rparr>, s))
      | None \<Rightarrow>
          (case fn s of
             (None, s1) \<Rightarrow> (\<lparr>Attempts = attempt, Err = None\<rparr>, s1)
           | (Some err, s1) \<Rightarrow>
               if gives_up cfg err then (\<lparr>Attempts = attempt, Err = Some err\<rparr>, s1)
               else if attempt = MaxAttempts cfg
               then (\<lparr>Attempts = MaxAttempts cfg, Err = Some err\<rparr>, s1)
               else case delayFor rt cfg attempt s1 of
                 (delay, s2) \<Rightarrow>
                   (case ctx_wait rt c delay s2 of
                      (True, s3) \<Rightarrow>
                        (\<lparr>Attempts = attempt,
                          Err = errors_Join [Some err, ctx_Err rt c s3]\<rparr>, s3)
                    | (False, s3) \<Rightarrow> do_loop rt c cfg fn (attempt + 1) (Some err) s3)))"
  by pat_completeness auto
termination
  by (relation "measure (\<lambda>(rt, c, cfg, fn, attempt, le, s). nat (MaxAttempts cfg + 1 - attempt))") auto

declare do_loop.simps [simp del]

definition Do ::
    "'s runtime \<Rightarrow> ctx \<Rightarrow> retry_config \<Rightarrow> ('s \<Rightarrow> go_error option \<times> 's) \<Rightarrow> 's \<Rightarrow>
     retry_result \<times> 's" where
  "Do rt c cfg fn s = do_loop rt c (withDefaults cfg) fn 1 None s"

subsection \<open>Defaults and delays\<close>

definition config_range :: "retry_config \<Rightarrow> bool" where
  "config_range cfg \<longleftrightarrow> int64_range (BaseDelay cfg) \<and> int64_range (MaxDelay cfg)"

lemma MaxAttempts_withDefaults [simp]: "MaxAttempts (withDefaults cfg) = max 1 (MaxAttempts cfg)"
  by (simp add: withDefaults_def clampMax_def clampBase_def clampAttempts_def)

lemma Retryable_withDefaults [simp]: "Retryable (withDefaults cfg) = Retryable cfg"
  by (simp add: withDefaults_def clampMax_def clampBase_def clampAttempts_def)

lemma BaseDelay_withDefaults: "BaseDelay (withDefaults cfg) =
    (if BaseDelay cfg \<le> 0 then 100 * millisecond else BaseDelay cfg)"
  by (simp add: withDefaults_def clampMax_def clampBase_def clampAttempts_def)

lemma gives_up_withDefaults [simp]: "gives_up (withDefaults cfg) e = gives_up cfg e"
  by (simp add: gives_up_def)

lemma delay_ceiling_le: "delay_ceiling cfg n \<le> MaxDelay cfg"
  by (simp add: delay_ceiling_def Let_def)

text \<open>Where nothing overflows the ceiling is the mathematical \<open>min (base * 2 ^ (n - 1)) max\<close>.\<close>

lemma delay_ceiling_exact:
  assumes "0 < BaseDelay cfg" "BaseDelay cfg * 2 ^ nat (n - 1) < 2 ^ 63"
  shows "delay_ceiling cfg n = min (BaseDelay cfg * 2 ^ nat (n - 1)) (MaxDelay cfg)"
proof -
  have pos: "0 < BaseDelay cfg * 2 ^ nat (n - 1)" using assms(1) by simp
  then have "wrap64 (BaseDelay cfg * 2 ^ nat (n - 1)) = BaseDelay cfg * 2 ^ nat (n - 1)"
    using assms(2) by (intro wrap64_small) simp_all
  with pos show ?thesis by (auto simp: delay_ceiling_def Let_def min_def)
qed

text \<open>What \<^verbatim>\<open>rand.Int64N\<close> documents: a value in \<open>[0, n)\<close> for positive \<open>n\<close>.\<close>

definition rand_ok :: "'s runtime \<Rightarrow> bool" where
  "rand_ok rt \<longleftrightarrow> (\<forall>n s. 0 < n \<longrightarrow> 0 \<le> fst (rand_Int64N rt n s) \<and> fst (rand_Int64N rt n s) < n)"

lemma delayFor_bounds:
  assumes "rand_ok rt"
  shows "0 \<le> fst (delayFor rt cfg n s) \<and>
         fst (delayFor rt cfg n s) \<le> max 0 (delay_ceiling cfg n)"
  using assms by (auto simp: delayFor_def Let_def rand_ok_def less_imp_le)

subsection \<open>The loop\<close>

lemma do_loop_attempts:
  assumes "1 \<le> attempt" "attempt \<le> MaxAttempts cfg"
  shows "attempt - 1 \<le> Attempts (fst (do_loop rt c cfg fn attempt le s)) \<and>
         Attempts (fst (do_loop rt c cfg fn attempt le s)) \<le> MaxAttempts cfg"
  using assms
proof (induction rt c cfg fn attempt le s rule: do_loop.induct)
  case (1 rt c cfg fn attempt le s)
  show ?case
    using "1.prems" "1.IH"
    by (subst (1 2) do_loop.simps) (fastforce split: option.split prod.split bool.split)
qed

text \<open>
  A call counter on the side: the instrumented operation runs the given one and counts.  The
  counter ends at the reported number of attempts.
\<close>

definition counted :: "('s \<Rightarrow> go_error option \<times> 's) \<Rightarrow> 's \<times> int \<Rightarrow> go_error option \<times> ('s \<times> int)" where
  "counted fn = (\<lambda>(s, n). case fn s of (r, s') \<Rightarrow> (r, (s', n + 1)))"

definition lift_rt :: "'s runtime \<Rightarrow> ('s \<times> 'x) runtime" where
  "lift_rt rt =
     \<lparr>rt_now = (\<lambda>(s, n). rt_now rt s),
      ctx_Err = (\<lambda>c (s, n). ctx_Err rt c s),
      ctx_wait = (\<lambda>c d (s, n). case ctx_wait rt c d s of (b, s') \<Rightarrow> (b, (s', n))),
      rand_Int64N = (\<lambda>k (s, n). case rand_Int64N rt k s of (x, s') \<Rightarrow> (x, (s', n)))\<rparr>"

lemma delayFor_lift:
  "delayFor (lift_rt rt) cfg a (s, n) = (case delayFor rt cfg a s of (d, s') \<Rightarrow> (d, (s', n)))"
  by (simp add: delayFor_def lift_rt_def Let_def)

lemma do_loop_counted:
  assumes "1 \<le> attempt" "attempt \<le> MaxAttempts cfg"
  shows "do_loop (lift_rt rt) c cfg (counted fn) attempt le (s, n) =
    (case do_loop rt c cfg fn attempt le s of
       (r, s') \<Rightarrow> (r, (s', n + (Attempts r - (attempt - 1)))))"
  using assms
proof (induction rt c cfg fn attempt le s arbitrary: n rule: do_loop.induct)
  case (1 rt c cfg fn attempt le s)
  note unf = do_loop.simps [of "lift_rt rt" c cfg "counted fn" attempt le "(s, n)"]
    do_loop.simps [of rt c cfg fn attempt le s]
  have lift: "ctx_Err (lift_rt rt) c' (s', m) = ctx_Err rt c' s'"
    "ctx_wait (lift_rt rt) c' d (s', m) = (case ctx_wait rt c' d s' of (b, s'') \<Rightarrow> (b, (s'', m)))"
    for c' s' m d
    by (simp_all add: lift_rt_def)
  have cnt: "counted fn (s, m) = (case fn s of (r, s') \<Rightarrow> (r, (s', m + 1)))" for m
    by (simp add: counted_def)
  show ?case
    unfolding unf using "1.prems" "1.IH"
    by (auto simp: lift cnt delayFor_lift split: option.split prod.split bool.split)
qed

lemma do_loop_success:
  assumes "do_loop rt c cfg fn attempt le s = (r, s')" "Err r = None" "attempt \<le> MaxAttempts cfg"
  shows "attempt \<le> Attempts r \<and> (\<exists>s0. fn s0 = (None, s'))"
  using assms
proof (induction rt c cfg fn attempt le s rule: do_loop.induct)
  case (1 rt c cfg fn attempt le s)
  from "1.prems" have "\<not> attempt > MaxAttempts cfg" by simp
  with "1.prems" "1.IH" show ?case
    unfolding do_loop.simps [of rt c cfg fn attempt le s]
    by (fastforce split: option.splits prod.splits bool.splits if_splits)
qed


lemma do_loop_recovers:
  assumes live: "\<And>s. ctx_Err rt c s = None" "\<And>d s. fst (ctx_wait rt c d s) = False"
    and keep: "\<And>d s. f (snd (ctx_wait rt c d s)) = f s" "\<And>n s. f (snd (rand_Int64N rt n s)) = f s"
    and ok: "\<And>s. f s = 0 \<Longrightarrow> fst (fn s) = None"
    and bad: "\<And>s k. f s = Suc k \<Longrightarrow>
                \<exists>e. fst (fn s) = Some e \<and> \<not> gives_up cfg e \<and> f (snd (fn s)) = k"
    and "attempt + int (f s) \<le> MaxAttempts cfg"
  shows "fst (do_loop rt c cfg fn attempt le s) = \<lparr>Attempts = attempt + int (f s), Err = None\<rparr>"
  using assms(7)
proof (induction "f s" arbitrary: attempt le s)
  case 0
  then have "fst (fn s) = None" using ok by simp
  with 0 live show ?case
    by (subst do_loop.simps) (auto split: prod.split)
next
  case (Suc k)
  then obtain e s1 where fn: "fn s = (Some e, s1)" "\<not> gives_up cfg e" "f s1 = k"
    using bad [of s k] by (metis prod.collapse)
  obtain d s2 where d: "delayFor rt cfg attempt s1 = (d, s2)" by fastforce
  then have "f s2 = k"
    using keep(2) [of "delay_ceiling cfg attempt" s1] fn(3)
    by (auto simp: delayFor_def Let_def split: if_splits)
  obtain s3 where w: "ctx_wait rt c d s2 = (False, s3)" using live(2) by (metis prod.collapse)
  with keep(1) \<open>f s2 = k\<close> have "f s3 = k" by (metis snd_conv)
  then have "fst (do_loop rt c cfg fn (attempt + 1) (Some e) s3) =
      \<lparr>Attempts = attempt + 1 + int (f s3), Err = None\<rparr>"
    using Suc.prems Suc.hyps(2) by (intro Suc.hyps(1)) simp_all
  moreover have "do_loop rt c cfg fn attempt le s = do_loop rt c cfg fn (attempt + 1) (Some e) s3"
    using Suc.prems Suc.hyps(2) fn d w live(1) by (subst do_loop.simps) simp
  ultimately show ?case using \<open>f s3 = k\<close> Suc.hyps(2) by simp
qed

subsection \<open>Properties of \<^verbatim>\<open>Do\<close>\<close>

text \<open>\<^verbatim>\<open>retry.Do\<close> calls the operation exactly as often as it reports, and at most
  \<^verbatim>\<open>max(1, MaxAttempts)\<close> times, whatever the context, the jitter and the operation do.\<close>

theorem Do_counts_calls:
  "case Do rt c cfg fn s of (r, s') \<Rightarrow>
     Do (lift_rt rt) c cfg (counted fn) (s, 0) = (r, (s', Attempts r)) \<and>
     0 \<le> Attempts r \<and> Attempts r \<le> max 1 (MaxAttempts cfg)"
proof -
  obtain r s' where r: "do_loop rt c (withDefaults cfg) fn 1 None s = (r, s')" by fastforce
  have range: "(1::int) \<le> 1" "1 \<le> MaxAttempts (withDefaults cfg)" by simp_all
  have "0 \<le> Attempts r \<and> Attempts r \<le> max 1 (MaxAttempts cfg)"
    using do_loop_attempts [OF range, of rt c fn None s] r by simp
  moreover have "do_loop (lift_rt rt) c (withDefaults cfg) (counted fn) 1 None (s, 0) =
      (r, (s', Attempts r))"
    using do_loop_counted [OF range, of rt c fn None s 0] r by simp
  ultimately show ?thesis using r by (simp add: Do_def)
qed

text \<open>An operation that fails \<open>f s\<close> times with errors worth retrying and then succeeds is
  retried until it succeeds, provided the budget allows \<open>f s + 1\<close> calls and the context stays
  live: \<^verbatim>\<open>Do\<close> returns no error and reports that many attempts.\<close>

theorem Do_recovers:
  assumes "\<And>s. ctx_Err rt c s = None" "\<And>d s. fst (ctx_wait rt c d s) = False"
    and "\<And>d s. f (snd (ctx_wait rt c d s)) = f s" "\<And>n s. f (snd (rand_Int64N rt n s)) = f s"
    and "\<And>s. f s = 0 \<Longrightarrow> fst (fn s) = None"
    and "\<And>s k. f s = Suc k \<Longrightarrow>
           \<exists>e. fst (fn s) = Some e \<and> \<not> gives_up cfg e \<and> f (snd (fn s)) = k"
    and "int (f s) + 1 \<le> max 1 (MaxAttempts cfg)"
  shows "fst (Do rt c cfg fn s) = \<lparr>Attempts = int (f s) + 1, Err = None\<rparr>"
  unfolding Do_def
  using assms by (subst do_loop_recovers [where f = f]) simp_all

definition quiet_rt :: "nat runtime" where
  "quiet_rt = \<lparr>rt_now = (\<lambda>_. 0), ctx_Err = (\<lambda>_ _. None), ctx_wait = (\<lambda>_ _ s. (False, s)),
     rand_Int64N = (\<lambda>n s. (0, s))\<rparr>"

theorem Do_recovers_witness:
  "fst (Do quiet_rt None \<lparr>MaxAttempts = 5, BaseDelay = 0, MaxDelay = 0, Retryable = None\<rparr>
     (\<lambda>s. case s of 0 \<Rightarrow> (None, 0) | Suc k \<Rightarrow> (Some DeadlineExceeded, k)) (2::nat))
   = \<lparr>Attempts = 3, Err = None\<rparr>"
  using Do_recovers [where f = id and rt = quiet_rt and c = None and s = "2::nat"
      and cfg = "\<lparr>MaxAttempts = 5, BaseDelay = 0, MaxDelay = 0, Retryable = None\<rparr>"
      and fn = "\<lambda>s. case s of 0 \<Rightarrow> (None, 0) | Suc k \<Rightarrow> (Some DeadlineExceeded, k)"]
  by (simp add: quiet_rt_def gives_up_def split: nat.splits)

text \<open>An error that \<^verbatim>\<open>Retryable\<close> rejects ends the loop at once: one call, and that error is
  returned unwrapped.\<close>

theorem Do_permanent_error:
  assumes "ctx_Err rt c s = None" "fn s = (Some e, s')" "Retryable cfg = Some p" "\<not> p e"
  shows "Do rt c cfg fn s = (\<lparr>Attempts = 1, Err = Some e\<rparr>, s')"
  unfolding Do_def using assms by (subst do_loop.simps) (simp add: gives_up_def)

theorem Do_permanent_error_witness:
  "Do quiet_rt None \<lparr>MaxAttempts = 5, BaseDelay = 0, MaxDelay = 0, Retryable = Some is_canceled\<rparr>
     (\<lambda>s. (Some DeadlineExceeded, s)) 7 = (\<lparr>Attempts = 1, Err = Some DeadlineExceeded\<rparr>, 7)"
  by (rule Do_permanent_error [where p = is_canceled]) (simp_all add: quiet_rt_def)

text \<open>C21: every delay lies in \<open>[0, max 0 MaxDelay]\<close>, for every attempt number and every
  configuration, also where the shifted base overflows \<^verbatim>\<open>int64\<close>; and as long as the shift does not
  overflow it is below the exponential ceiling \<open>min (base * 2 ^ (attempt - 1)) MaxDelay\<close>.\<close>

theorem delayFor_jitter_bounds:
  assumes "rand_ok rt"
  shows "0 \<le> fst (delayFor rt cfg n s) \<and> fst (delayFor rt cfg n s) \<le> max 0 (MaxDelay cfg) \<and>
    (0 < BaseDelay cfg \<and> BaseDelay cfg * 2 ^ nat (n - 1) < 2 ^ 63 \<and> 0 < MaxDelay cfg \<longrightarrow>
       fst (delayFor rt cfg n s) < min (BaseDelay cfg * 2 ^ nat (n - 1)) (MaxDelay cfg))"
proof -
  have "fst (delayFor rt cfg n s) < min (BaseDelay cfg * 2 ^ nat (n - 1)) (MaxDelay cfg)"
    if "0 < BaseDelay cfg" "BaseDelay cfg * 2 ^ nat (n - 1) < 2 ^ 63" "0 < MaxDelay cfg"
  proof -
    from that have eq: "delay_ceiling cfg n = min (BaseDelay cfg * 2 ^ nat (n - 1)) (MaxDelay cfg)"
      by (intro delay_ceiling_exact)
    with that have "0 < delay_ceiling cfg n" by simp
    with assms have "fst (rand_Int64N rt (delay_ceiling cfg n) s) < delay_ceiling cfg n"
      by (simp add: rand_ok_def)
    with \<open>0 < delay_ceiling cfg n\<close> have "fst (delayFor rt cfg n s) < delay_ceiling cfg n"
      by (simp add: delayFor_def Let_def)
    with eq show ?thesis by simp
  qed
  with delayFor_bounds [OF assms, of cfg n s] delay_ceiling_le [of cfg n] show ?thesis
    by (auto simp: max_def split: if_splits)
qed

theorem delayFor_jitter_bounds_witness:
  "rand_ok quiet_rt \<and>
   fst (delayFor quiet_rt
     \<lparr>MaxAttempts = 90, BaseDelay = 500000000, MaxDelay = 10000000000, Retryable = None\<rparr> 40 0)
   \<le> 10000000000"
proof -
  have "rand_ok quiet_rt" by (simp add: rand_ok_def quiet_rt_def)
  from this delayFor_jitter_bounds [OF this, of
      "\<lparr>MaxAttempts = 90, BaseDelay = 500000000, MaxDelay = 10000000000, Retryable = None\<rparr>" 40 0]
  show ?thesis by simp
qed

end
