(* ===== verification/Assign.thy ===== *)
theory Assign
  imports Prelude
begin

section \<open>Rendezvous assignment (\<^verbatim>\<open>internal/assign/assign.go\<close>)\<close>

text \<open>
  The 64-bit xxHash of a third-party package is the argument \<open>h64\<close>.  \<open>Owner\<close> is the loop of
  the source; the locale \<open>rendezvous\<close> states what a highest-weight assignment promises, its
  consequences (agreement, minimal churn, the partition of the feeds) are proved there once, and
  \<open>Owner\<close> is shown to keep the promise.
\<close>

type_synonym hash64 = "string \<Rightarrow> 64 word"

definition score :: "hash64 \<Rightarrow> string \<Rightarrow> string \<Rightarrow> 64 word" where
  "score h64 member feedURL = h64 (member @ [nul] @ feedURL)"

fun owner_loop ::
    "hash64 \<Rightarrow> string \<Rightarrow> string list \<Rightarrow> string \<Rightarrow> 64 word \<Rightarrow> bool \<Rightarrow> string \<times> bool" where
  "owner_loop h64 feedURL [] best bestScore found = (best, found)"
| "owner_loop h64 feedURL (m # ms) best bestScore found =
     (let s = score h64 m feedURL
      in if \<not> found \<or> s > bestScore \<or> (s = bestScore \<and> m > best)
         then owner_loop h64 feedURL ms m s True
         else owner_loop h64 feedURL ms best bestScore found)"

definition Owner :: "hash64 \<Rightarrow> string \<Rightarrow> string list \<Rightarrow> string \<times> bool" where
  "Owner h64 feedURL members = owner_loop h64 feedURL members [] 0 False"

text \<open>A nil slice and an empty one are the same list.\<close>

definition Owned :: "hash64 \<Rightarrow> string \<Rightarrow> string list \<Rightarrow> string list \<Rightarrow> string list" where
  "Owned h64 self feeds members =
     (if self \<notin> set members then []
      else filter (\<lambda>f. case Owner h64 f members of (o1, ok) \<Rightarrow> ok \<and> o1 = self) feeds)"

subsection \<open>What a highest-weight assignment promises\<close>

locale rendezvous =
  fixes weight :: "'m::linorder \<Rightarrow> 'f \<Rightarrow> 'w::linorder"
    and owner :: "'f \<Rightarrow> 'm list \<Rightarrow> 'm option"
  assumes owner_None: "owner f [] = None"
    and owner_ne: "ms \<noteq> [] \<Longrightarrow> \<exists>m. owner f ms = Some m"
    and owner_in: "owner f ms = Some m \<Longrightarrow> m \<in> set ms"
    and owner_max: "owner f ms = Some m \<Longrightarrow> m' \<in> set ms \<Longrightarrow> m' \<noteq> m \<Longrightarrow>
          weight m' f < weight m f \<or> (weight m' f = weight m f \<and> m' < m)"
begin

lemma owner_eqI:
  assumes "m \<in> set ms"
    and "\<And>m'. m' \<in> set ms \<Longrightarrow> m' \<noteq> m \<Longrightarrow>
           weight m' f < weight m f \<or> (weight m' f = weight m f \<and> m' < m)"
  shows "owner f ms = Some m"
proof -
  from assms(1) obtain k where k: "owner f ms = Some k" using owner_ne [of ms f] by fastforce
  have "k = m"
  proof (rule ccontr)
    assume "k \<noteq> m"
    with owner_max [OF k assms(1)] assms(2) [OF owner_in [OF k]] show False by auto
  qed
  with k show ?thesis by simp
qed

text \<open>Two instances with the same live members agree, whatever order they list them in.\<close>

lemma owner_agree: "set ms = set ms' \<Longrightarrow> owner f ms = owner f ms'"
proof (cases "owner f ms")
  case None
  assume "set ms = set ms'"
  with None show ?thesis using owner_None owner_ne [of ms f] by (cases ms) auto
next
  case (Some m)
  assume eq: "set ms = set ms'"
  have "owner f ms' = Some m"
    using owner_in [OF Some] owner_max [OF Some] eq by (intro owner_eqI) auto
  with Some show ?thesis by simp
qed

text \<open>A member that leaves takes only its own feeds with it.\<close>

lemma owner_leave:
  assumes "owner f ms = Some m" "m \<noteq> gone"
  shows "owner f (removeAll gone ms) = Some m"
  using owner_in [OF assms(1)] owner_max [OF assms(1)] assms(2) by (intro owner_eqI) auto

text \<open>A member that joins takes feeds only for itself.\<close>

lemma owner_join:
  assumes "owner f ms = Some m"
  shows "owner f (new # ms) = Some m \<or> owner f (new # ms) = Some new"
proof -
  obtain k where k: "owner f (new # ms) = Some k" using owner_ne [of "new # ms" f] by auto
  show ?thesis
  proof (cases "k = new")
    case False
    with owner_in [OF k] have "k \<in> set ms" by simp
    with owner_max [OF k, of m] owner_max [OF assms, of k] owner_in [OF assms] have "k = m"
      by force
    with k show ?thesis by simp
  qed (use k in simp)
qed

end

subsection \<open>The code's loop keeps the promise\<close>

definition owner_of :: "hash64 \<Rightarrow> string \<Rightarrow> string list \<Rightarrow> string option" where
  "owner_of h64 f ms = (case Owner h64 f ms of (m, ok) \<Rightarrow> if ok then Some m else None)"

definition outranks :: "hash64 \<Rightarrow> string \<Rightarrow> string \<Rightarrow> string \<Rightarrow> bool" where
  "outranks h64 f m m' \<longleftrightarrow>
     score h64 m' f < score h64 m f \<or> (score h64 m' f = score h64 m f \<and> m' \<le> m)"

lemma outranks_refl [simp]: "outranks h64 f m m"
  by (simp add: outranks_def)

lemma outranks_trans: "outranks h64 f a b \<Longrightarrow> outranks h64 f b c \<Longrightarrow> outranks h64 f a c"
  by (auto simp: outranks_def)

lemma outranks_linear: "\<not> outranks h64 f a b \<Longrightarrow> outranks h64 f b a"
  by (auto simp: outranks_def)

lemma owner_loop_step:
  "owner_loop h64 f (m # ms) best (score h64 best f) True =
     (if outranks h64 f best m then owner_loop h64 f ms best (score h64 best f) True
      else owner_loop h64 f ms m (score h64 m f) True)"
  by (auto simp: Let_def outranks_def)

lemma owner_loop_spec:
  "\<exists>k. owner_loop h64 f ms best (score h64 best f) True = (k, True) \<and>
       k \<in> insert best (set ms) \<and> outranks h64 f k best \<and> (\<forall>m\<in>set ms. outranks h64 f k m)"
proof (induction ms arbitrary: best)
  case Nil
  then show ?case by simp
next
  case (Cons m ms)
  show ?case
  proof (cases "outranks h64 f best m")
    case True
    from Cons.IH [of best] True show ?thesis
      unfolding owner_loop_step by (auto intro: outranks_trans)
  next
    case False
    from Cons.IH [of m] outranks_linear [OF False] False show ?thesis
      unfolding owner_loop_step by (auto intro: outranks_trans)
  qed
qed

lemma owner_of_Cons:
  "\<exists>k. owner_of h64 f (m # ms) = Some k \<and> k \<in> set (m # ms) \<and>
       (\<forall>m'\<in>set (m # ms). outranks h64 f k m')"
proof -
  from owner_loop_spec [of h64 f ms m] obtain k where
    k: "owner_loop h64 f ms m (score h64 m f) True = (k, True)"
      "k \<in> insert m (set ms)" "outranks h64 f k m" "\<forall>m'\<in>set ms. outranks h64 f k m'" by blast
  then show ?thesis by (simp add: owner_of_def Owner_def Let_def)
qed

lemma owner_of_Nil [simp]: "owner_of h64 f [] = None"
  by (simp add: owner_of_def Owner_def)

lemma owner_of_spec:
  assumes "owner_of h64 f ms = Some m"
  shows "m \<in> set ms \<and> (\<forall>m'\<in>set ms. outranks h64 f m m')"
proof (cases ms)
  case Nil
  with assms show ?thesis by simp
next
  case (Cons a as)
  with owner_of_Cons [of h64 f a as] assms show ?thesis by auto
qed

interpretation hrw: rendezvous "score h64" "owner_of h64" for h64
proof unfold_locales
  fix f ms m m'
  show "owner_of h64 f [] = None" by simp
  show "\<exists>m. owner_of h64 f ms = Some m" if "ms \<noteq> []"
    using that owner_of_Cons [of h64 f "hd ms" "tl ms"] by (cases ms) auto
  show "m \<in> set ms" if "owner_of h64 f ms = Some m"
    using owner_of_spec [OF that] by simp
  assume "owner_of h64 f ms = Some m" "m' \<in> set ms" "m' \<noteq> m"
  moreover from this have "outranks h64 f m m'"
    using owner_of_spec by blast
  ultimately show "score h64 m' f < score h64 m f \<or> score h64 m' f = score h64 m f \<and> m' < m"
    by (auto simp: outranks_def)
qed

lemma Owned_iff:
  "f \<in> set (Owned h64 self feeds members) \<longleftrightarrow> f \<in> set feeds \<and> owner_of h64 f members = Some self"
proof -
  have "self \<in> set members" if "owner_of h64 f members = Some self"
    using that by (rule hrw.owner_in)
  then show ?thesis
    by (auto simp: Owned_def owner_of_def split: prod.splits if_splits)
qed

lemma Owned_eq_filter:
  "Owned h64 self feeds members = filter (\<lambda>f. owner_of h64 f members = Some self) feeds"
proof (cases "self \<in> set members")
  case True
  have "(case Owner h64 f members of (o1, ok) \<Rightarrow> ok \<and> o1 = self) \<longleftrightarrow>
      owner_of h64 f members = Some self" for f
    by (simp add: owner_of_def split: prod.split)
  with True show ?thesis by (simp add: Owned_def)
next
  case False
  then have "owner_of h64 f members \<noteq> Some self" for f using hrw.owner_in by blast
  with False show ?thesis by (simp add: Owned_def)
qed

subsection \<open>Properties\<close>

text \<open>The feeds are partitioned: with at least one live member, every feed is owned by exactly
  one of them (\<^verbatim>\<open>Owned\<close> of that member lists it and no other member's does), and each member's list
  keeps the order of the feeds.\<close>

theorem Owned_partition:
  assumes "members \<noteq> []" "f \<in> set feeds"
  shows "(\<exists>!m. f \<in> set (Owned h64 m feeds members)) \<and>
         (\<forall>m. f \<in> set (Owned h64 m feeds members) \<longrightarrow> m \<in> set members)"
  using hrw.owner_ne [OF assms(1)] assms(2) by (auto simp: Owned_iff dest: hrw.owner_in)

theorem Owned_partition_witness:
  "\<exists>!m. ''f'' \<in> set (Owned (\<lambda>_. 0) m [''f''] [''a'', ''b''])"
  using Owned_partition [of "[''a'', ''b'']" "''f''" "[''f'']" "\<lambda>_. 0"] by simp

text \<open>Instances that see the same live members agree on every owner: the assignment depends on
  the set of members only, not on their order or multiplicity, and an instance that is not among
  them owns nothing.\<close>

theorem Owned_agree:
  assumes "set members = set members'"
  shows "Owned h64 self feeds members = Owned h64 self feeds members' \<and>
         (self \<notin> set members \<longrightarrow> Owned h64 self feeds members = [])"
proof
  show "Owned h64 self feeds members = Owned h64 self feeds members'"
    using hrw.owner_agree [OF assms] by (simp add: Owned_eq_filter)
  show "self \<notin> set members \<longrightarrow> Owned h64 self feeds members = []"
    by (simp add: Owned_def)
qed

theorem Owned_agree_witness:
  "Owned (\<lambda>_. 0) ''a'' [''f''] [''a'', ''b''] = Owned (\<lambda>_. 0) ''a'' [''f''] [''b'', ''a'', ''b'']"
  using Owned_agree [of "[''a'', ''b'']" "[''b'', ''a'', ''b'']" "\<lambda>_. 0" "''a''" "[''f'']"]
  by (simp add: insert_commute)

text \<open>Minimal churn.  When a member leaves, every other member keeps all feeds it owned; when a
  member joins, a feed either keeps its owner or moves to the newcomer, never between old members.\<close>

theorem Owned_minimal_churn:
  "(m \<noteq> gone \<longrightarrow>
      set (Owned h64 m feeds members) \<subseteq> set (Owned h64 m feeds (removeAll gone members))) \<and>
   (m \<noteq> new \<and> members \<noteq> [] \<longrightarrow>
      set (Owned h64 m feeds (new # members)) \<subseteq> set (Owned h64 m feeds members))"
proof (intro conjI impI subsetI)
  fix f
  assume "m \<noteq> gone" "f \<in> set (Owned h64 m feeds members)"
  then show "f \<in> set (Owned h64 m feeds (removeAll gone members))"
    by (simp add: Owned_iff hrw.owner_leave)
next
  fix f
  assume a: "m \<noteq> new \<and> members \<noteq> []" "f \<in> set (Owned h64 m feeds (new # members))"
  then obtain k where k: "owner_of h64 f members = Some k" using hrw.owner_ne by blast
  with a hrw.owner_join [OF k, of new] show "f \<in> set (Owned h64 m feeds members)"
    by (auto simp: Owned_iff)
qed

theorem Owned_minimal_churn_witness:
  "set (Owned (\<lambda>_. 0) ''b'' [''f''] [''b'', ''a'']) \<subseteq> set (Owned (\<lambda>_. 0) ''b'' [''f''] [''b''])"
  using Owned_minimal_churn [of "''b''" "''a''" "\<lambda>_. 0" "[''f'']" "[''b'', ''a'']" "[]"] by simp

end
