(* ===== verification/State_Store.thy ===== *)
theory State_Store
  imports Retry
begin

section \<open>The state store: interface and the SQLite backend\<close>

text \<open>
  \<^verbatim>\<open>internal/state/state.go\<close> declares the interface the pipeline, the detector and the cleanup
  loop use; \<open>Store\<close> is that interface as a record of operations on the world, and the locale
  \<open>state_store\<close> what a backend promises: reads report the two tables, a successful upsert changes
  one row, a failed call changes nothing, a sweep removes exactly the rows older than the cutoff.
  \<^verbatim>\<open>internal/state/sqlite/sqlite.go\<close> is modelled on tables of rows and shown to keep the promise.
  What the SQL engine does beyond its tables is an argument: \<open>sql_fault\<close> says which call fails, and
  \<open>sql_datetime\<close> is SQLite's \<^verbatim>\<open>datetime()\<close>, which drops what is below a second.
\<close>

record ItemState =
  ContentHashS :: string
  LastSeenAt :: time

record FeedMeta =
  ETagM :: string
  LastModifiedM :: time

definition zero_meta :: FeedMeta where
  "zero_meta = \<lparr>ETagM = [], LastModifiedM = zero_time\<rparr>"

record 's Store =
  GetItem :: "ctx \<Rightarrow> string \<Rightarrow> string \<Rightarrow> 's \<Rightarrow> ItemState option result \<times> 's"
  UpsertItem :: "ctx \<Rightarrow> string \<Rightarrow> string \<Rightarrow> string \<Rightarrow> time \<Rightarrow> 's \<Rightarrow> go_error option \<times> 's"
  PruneItemsBefore :: "ctx \<Rightarrow> time \<Rightarrow> 's \<Rightarrow> int \<times> go_error option \<times> 's"
  PruneFeedMetaBefore :: "ctx \<Rightarrow> time \<Rightarrow> 's \<Rightarrow> int \<times> go_error option \<times> 's"
  GetFeedMeta :: "ctx \<Rightarrow> string \<Rightarrow> 's \<Rightarrow> FeedMeta option result \<times> 's"
  UpsertFeedMeta :: "ctx \<Rightarrow> string \<Rightarrow> FeedMeta \<Rightarrow> 's \<Rightarrow> go_error option \<times> 's"

subsection \<open>What a backend promises\<close>

text \<open>
  The weakest contract, which every backend keeps: reads report the stored rows, and a successful upsert
  changes one row.  A backend may reserve some item identifiers, may be unable to keep some times, and may
  keep a time with less precision; a failed upsert may or may not have taken effect.
\<close>

locale seen_store =
  fixes st :: "'s Store"
    and inv :: "'s \<Rightarrow> bool"
    and items :: "'s \<Rightarrow> string \<times> string \<Rightarrow> ItemState option"
    and metas :: "'s \<Rightarrow> string \<Rightarrow> FeedMeta option"
    and ids :: "string \<Rightarrow> bool"
    and times :: "time \<Rightarrow> bool"
    and stamp :: "time \<Rightarrow> time"
  assumes get_item: "ids i \<Longrightarrow> inv s \<Longrightarrow> GetItem st c u i s = (ri, s') \<Longrightarrow>
        inv s' \<and> items s' = items s \<and> metas s' = metas s \<and> (\<forall>v. ri = Inr v \<longrightarrow> v = items s (u, i))"
    and upsert_item: "ids i \<Longrightarrow> times t \<Longrightarrow> inv s \<Longrightarrow> UpsertItem st c u i h t s = (r, s') \<Longrightarrow>
        inv s' \<and> metas s' = metas s \<and>
        (items s' = (items s)((u, i) \<mapsto> \<lparr>ContentHashS = h, LastSeenAt = stamp t\<rparr>) \<or>
         r \<noteq> None \<and> items s' = items s)"
    and get_meta: "inv s \<Longrightarrow> GetFeedMeta st c u s = (rm, s') \<Longrightarrow>
        inv s' \<and> items s' = items s \<and> metas s' = metas s \<and> (\<forall>v. rm = Inr v \<longrightarrow> v = metas s u)"
    and upsert_meta: "times (LastModifiedM m) \<Longrightarrow> inv s \<Longrightarrow> UpsertFeedMeta st c u m s = (r, s') \<Longrightarrow>
        inv s' \<and> items s' = items s \<and>
        (metas s' = (metas s)(u \<mapsto> m\<lparr>LastModifiedM := stamp (LastModifiedM m)\<rparr>) \<or>
         r \<noteq> None \<and> metas s' = metas s)"
begin

text \<open>Round trip: what was stored is read back, and an upsert is seen at its own key only.\<close>

lemma get_after_upsert:
  assumes "ids i" "times t" "inv s" "UpsertItem st c u i h t s = (None, s1)"
    and "ids i'" "GetItem st c' u' i' s1 = (Inr v, s2)"
  shows "v = (if (u', i') = (u, i) then Some \<lparr>ContentHashS = h, LastSeenAt = stamp t\<rparr>
              else items s (u', i'))"
  using upsert_item [OF assms(1-4)] get_item [OF assms(5) _ assms(6)] by auto

lemma meta_after_upsert:
  assumes "times (LastModifiedM m)" "inv s" "UpsertFeedMeta st c u m s = (None, s1)"
    and "GetFeedMeta st c' u' s1 = (Inr v, s2)"
  shows "v = (if u' = u then Some (m\<lparr>LastModifiedM := stamp (LastModifiedM m)\<rparr>) else metas s u')"
  using upsert_meta [OF assms(1-3)] get_meta [OF _ assms(4)] by auto

end

text \<open>A backend that is swept by the program and not by its own expiry.\<close>

locale pruning_store = seen_store +
  fixes expired :: "time \<Rightarrow> time \<Rightarrow> bool"
  assumes prune_items: "inv s \<Longrightarrow> PruneItemsBefore st c cutoff s = (n, r, s') \<Longrightarrow>
        inv s' \<and> metas s' = metas s \<and>
        (items s' = (\<lambda>k. case items s k of
               Some v \<Rightarrow> if expired (LastSeenAt v) cutoff then None else Some v
             | None \<Rightarrow> None) \<or>
         r \<noteq> None \<and> items s' = items s)"
    and prune_metas: "inv s \<Longrightarrow> PruneFeedMetaBefore st c cutoff s = (n, r, s') \<Longrightarrow>
        inv s' \<and> items s' = items s \<and> (\<forall>u v. metas s' u = Some v \<longrightarrow> metas s u = Some v)"

text \<open>The contract of the local store: every identifier, every time, to the nanosecond, and a failed call
  changes nothing.\<close>

locale state_store =
  fixes st :: "'s Store"
    and inv :: "'s \<Rightarrow> bool"
    and items :: "'s \<Rightarrow> string \<times> string \<Rightarrow> ItemState option"
    and metas :: "'s \<Rightarrow> string \<Rightarrow> FeedMeta option"
    and expired :: "time \<Rightarrow> time \<Rightarrow> bool"
  assumes get_item: "inv s \<Longrightarrow> GetItem st c u i s = (ri, s') \<Longrightarrow>
        inv s' \<and> items s' = items s \<and> metas s' = metas s \<and> (\<forall>v. ri = Inr v \<longrightarrow> v = items s (u, i))"
    and upsert_item: "inv s \<Longrightarrow> UpsertItem st c u i h t s = (r, s') \<Longrightarrow>
        inv s' \<and> metas s' = metas s \<and>
        items s' = (if r = None then (items s)((u, i) \<mapsto> \<lparr>ContentHashS = h, LastSeenAt = t\<rparr>)
                    else items s)"
    and get_meta: "inv s \<Longrightarrow> GetFeedMeta st c u s = (rm, s') \<Longrightarrow>
        inv s' \<and> items s' = items s \<and> metas s' = metas s \<and> (\<forall>v. rm = Inr v \<longrightarrow> v = metas s u)"
    and upsert_meta: "inv s \<Longrightarrow> UpsertFeedMeta st c u m s = (r, s') \<Longrightarrow>
        inv s' \<and> items s' = items s \<and>
        metas s' = (if r = None then (metas s)(u \<mapsto> m) else metas s)"
    and prune_items: "inv s \<Longrightarrow> PruneItemsBefore st c cutoff s = (n, r, s') \<Longrightarrow>
        inv s' \<and> metas s' = metas s \<and>
        items s' = (\<lambda>k. case items s k of
               Some v \<Rightarrow> if r = None \<and> expired (LastSeenAt v) cutoff then None else Some v
             | None \<Rightarrow> None)"
    and prune_metas: "inv s \<Longrightarrow> PruneFeedMetaBefore st c cutoff s = (n, r, s') \<Longrightarrow>
        inv s' \<and> items s' = items s \<and> (\<forall>u v. metas s' u = Some v \<longrightarrow> metas s u = Some v)"

sublocale state_store \<subseteq> seen: pruning_store st inv items metas "\<lambda>_. True" "\<lambda>_. True" "\<lambda>t. t" expired
proof (unfold_locales, goal_cases)
  case (1 i s c u ri s')
  then show ?case using get_item [of s c u i ri s'] by simp
next
  case (2 i t s c u h r s')
  then show ?case using upsert_item [of s c u i h t r s'] by simp
next
  case (3 s c u rm s')
  then show ?case using get_meta [of s c u rm s'] by simp
next
  case (4 m s c u r s')
  then show ?case using upsert_meta [of s c u m r s'] by simp
next
  case (5 s c cutoff n r s')
  then show ?case using prune_items [of s c cutoff n r s']
    by (cases r) (auto simp: fun_eq_iff split: option.splits)
next
  case (6 s c cutoff n r s')
  then show ?case by (rule prune_metas)
qed

subsection \<open>The SQLite backend\<close>

record sqlite_db =
  seen_items :: "((string \<times> string) \<times> ItemState) list"
  feed_meta :: "(string \<times> FeedMeta \<times> time) list"

type_synonym 'z sql_fault = "ctx \<Rightarrow> 'z sqlite_db_scheme \<Rightarrow> go_error option"

text \<open>\<^verbatim>\<open>INSERT ... ON CONFLICT DO UPDATE\<close> on a table keyed by its first component.\<close>

fun upsert_row :: "'k \<Rightarrow> 'v \<Rightarrow> ('k \<times> 'v) list \<Rightarrow> ('k \<times> 'v) list" where
  "upsert_row k v [] = [(k, v)]"
| "upsert_row k v (r # rs) = (if fst r = k then (k, v) # rs else r # upsert_row k v rs)"

definition sqlite_GetItem ::
    "'z sql_fault \<Rightarrow> ctx \<Rightarrow> string \<Rightarrow> string \<Rightarrow> 'z sqlite_db_scheme \<Rightarrow>
     ItemState option result \<times> 'z sqlite_db_scheme" where
  "sqlite_GetItem sql_fault c feedURL itemID s =
     (case sql_fault c s of
        Some e \<Rightarrow> (Inl e, s)
      | None \<Rightarrow> (Inr (map_of (seen_items s) (feedURL, itemID)), s))"

definition sqlite_UpsertItem ::
    "'z sql_fault \<Rightarrow> ctx \<Rightarrow> string \<Rightarrow> string \<Rightarrow> string \<Rightarrow> time \<Rightarrow> 'z sqlite_db_scheme \<Rightarrow>
     go_error option \<times> 'z sqlite_db_scheme" where
  "sqlite_UpsertItem sql_fault c feedURL itemID hash seenAt s =
     (case sql_fault c s of
        Some e \<Rightarrow> (Some e, s)
      | None \<Rightarrow>
          (None, s\<lparr>seen_items := upsert_row (feedURL, itemID)
                    \<lparr>ContentHashS = hash, LastSeenAt = seenAt\<rparr> (seen_items s)\<rparr>))"

definition sqlite_PruneItemsBefore ::
    "'z sql_fault \<Rightarrow> (time \<Rightarrow> time) \<Rightarrow> ctx \<Rightarrow> time \<Rightarrow> 'z sqlite_db_scheme \<Rightarrow>
     int \<times> go_error option \<times> 'z sqlite_db_scheme" where
  "sqlite_PruneItemsBefore sql_fault sql_datetime c cutoff s =
     (case sql_fault c s of
        Some e \<Rightarrow> (0, Some (Errorf ''state/sqlite: prune: %w'' [FWrap e]), s)
      | None \<Rightarrow>
          let keep = filter (\<lambda>(k, v). \<not> sql_datetime (LastSeenAt v) < sql_datetime cutoff)
                       (seen_items s)
          in (int (length (seen_items s) - length keep), None, s\<lparr>seen_items := keep\<rparr>))"

definition sqlite_GetFeedMeta ::
    "'z sql_fault \<Rightarrow> ctx \<Rightarrow> string \<Rightarrow> 'z sqlite_db_scheme \<Rightarrow>
     FeedMeta option result \<times> 'z sqlite_db_scheme" where
  "sqlite_GetFeedMeta sql_fault c feedURL s =
     (case sql_fault c s of
        Some e \<Rightarrow> (Inl e, s)
      | None \<Rightarrow> (Inr (map_option fst (map_of (feed_meta s) feedURL)), s))"

text \<open>A zero \<^verbatim>\<open>LastModified\<close> is stored as NULL and read back as the zero time.\<close>

definition sqlite_UpsertFeedMeta ::
    "'z sql_fault \<Rightarrow> ('z sqlite_db_scheme \<Rightarrow> time) \<Rightarrow> ctx \<Rightarrow> string \<Rightarrow> FeedMeta \<Rightarrow>
     'z sqlite_db_scheme \<Rightarrow> go_error option \<times> 'z sqlite_db_scheme" where
  "sqlite_UpsertFeedMeta sql_fault now c feedURL meta s =
     (case sql_fault c s of
        Some e \<Rightarrow> (Some e, s)
      | None \<Rightarrow> (None, s\<lparr>feed_meta := upsert_row feedURL (meta, now s) (feed_meta s)\<rparr>))"

definition sqlite_PruneFeedMetaBefore ::
    "'z sql_fault \<Rightarrow> (time \<Rightarrow> time) \<Rightarrow> ctx \<Rightarrow> time \<Rightarrow> 'z sqlite_db_scheme \<Rightarrow>
     int \<times> go_error option \<times> 'z sqlite_db_scheme" where
  "sqlite_PruneFeedMetaBefore sql_fault sql_datetime c cutoff s =
     (case sql_fault c s of
        Some e \<Rightarrow> (0, Some (Errorf ''state/sqlite: prune feed_meta: %w'' [FWrap e]), s)
      | None \<Rightarrow>
          let keep = filter (\<lambda>(u, m, t). \<not> sql_datetime t < sql_datetime cutoff) (feed_meta s)
          in (int (length (feed_meta s) - length keep), None, s\<lparr>feed_meta := keep\<rparr>))"

definition sqlite_store ::
    "'z sql_fault \<Rightarrow> (time \<Rightarrow> time) \<Rightarrow> ('z sqlite_db_scheme \<Rightarrow> time) \<Rightarrow> 'z sqlite_db_scheme Store" where
  "sqlite_store sql_fault sql_datetime now =
     \<lparr>GetItem = sqlite_GetItem sql_fault,
      UpsertItem = sqlite_UpsertItem sql_fault,
      PruneItemsBefore = sqlite_PruneItemsBefore sql_fault sql_datetime,
      PruneFeedMetaBefore = sqlite_PruneFeedMetaBefore sql_fault sql_datetime,
      GetFeedMeta = sqlite_GetFeedMeta sql_fault,
      UpsertFeedMeta = sqlite_UpsertFeedMeta sql_fault now\<rparr>"

subsection \<open>The backend keeps the promise\<close>

text \<open>The primary keys: no table has two rows for one key.\<close>

definition db_inv :: "'z sqlite_db_scheme \<Rightarrow> bool" where
  "db_inv s \<longleftrightarrow> distinct (map fst (seen_items s)) \<and> distinct (map fst (feed_meta s))"

lemma map_of_upsert_row [simp]: "map_of (upsert_row k v rs) = (map_of rs)(k \<mapsto> v)"
  by (induction k v rs rule: upsert_row.induct) auto

lemma fst_upsert_row: "fst ` set (upsert_row k v rs) = insert k (fst ` set rs)"
  by (induction k v rs rule: upsert_row.induct) auto

lemma distinct_upsert_row:
  "distinct (map fst rs) \<Longrightarrow> distinct (map fst (upsert_row k v rs))"
  by (induction k v rs rule: upsert_row.induct) (auto simp: fst_upsert_row)

lemma set_upsert_row:
  "distinct (map fst rs) \<Longrightarrow> set (upsert_row k v rs) = insert (k, v) {r \<in> set rs. fst r \<noteq> k}"
  by (induction k v rs rule: upsert_row.induct) (auto simp: rev_image_eqI)

lemma length_upsert_row:
  "length rs \<le> length (upsert_row k v rs)" "length (upsert_row k v rs) \<le> Suc (length rs)"
  by (induction k v rs rule: upsert_row.induct) auto

lemma map_of_filter_row:
  "distinct (map fst rs) \<Longrightarrow>
     map_of (filter P rs) k =
       (case map_of rs k of Some v \<Rightarrow> if P (k, v) then Some v else None | None \<Rightarrow> None)"
proof (induction rs)
  case (Cons r rs)
  then have "map_of rs (fst r) = None" by (simp add: map_of_eq_None_iff)
  with Cons show ?case by (cases r) (auto split: option.splits)
qed simp

lemma distinct_filter_rows: "distinct (map fst rs) \<Longrightarrow> distinct (map fst (filter P rs))"
  by (rule distinct_map_filter)

lemmas sqlite_defs = sqlite_GetItem_def sqlite_UpsertItem_def sqlite_PruneItemsBefore_def
  sqlite_GetFeedMeta_def sqlite_UpsertFeedMeta_def sqlite_PruneFeedMetaBefore_def

lemma sqlite_store_sel [simp]:
  "GetItem (sqlite_store flt dt now) = sqlite_GetItem flt"
  "UpsertItem (sqlite_store flt dt now) = sqlite_UpsertItem flt"
  "PruneItemsBefore (sqlite_store flt dt now) = sqlite_PruneItemsBefore flt dt"
  "PruneFeedMetaBefore (sqlite_store flt dt now) = sqlite_PruneFeedMetaBefore flt dt"
  "GetFeedMeta (sqlite_store flt dt now) = sqlite_GetFeedMeta flt"
  "UpsertFeedMeta (sqlite_store flt dt now) = sqlite_UpsertFeedMeta flt now"
  by (simp_all add: sqlite_store_def)

text \<open>
  A table that breaks its primary key cannot occur; the interface reads it through the rows a
  \<^verbatim>\<open>SELECT\<close> would return first.
\<close>

definition sql_items :: "'z sqlite_db_scheme \<Rightarrow> string \<times> string \<Rightarrow> ItemState option" where
  "sql_items s = map_of (seen_items s)"

definition sql_metas :: "'z sqlite_db_scheme \<Rightarrow> string \<Rightarrow> FeedMeta option" where
  "sql_metas s u = map_option fst (map_of (feed_meta s) u)"


interpretation sqlite: state_store
  "sqlite_store flt dt now" db_inv sql_items sql_metas "\<lambda>t cutoff. dt t < dt cutoff" for flt dt now
proof (unfold_locales, goal_cases)
  case (1 s c u i ri s')
  then show ?case by (auto simp: sqlite_defs sql_items_def split: option.splits)
next
  case (2 s c u i h t r s')
  then show ?case
    by (auto simp: sqlite_defs sql_items_def sql_metas_def db_inv_def distinct_upsert_row
        split: option.splits)
next
  case (3 s c u rm s')
  then show ?case by (auto simp: sqlite_defs sql_metas_def split: option.splits)
next
  case (4 s c u m r s')
  then show ?case
    by (auto simp: sqlite_defs sql_items_def sql_metas_def db_inv_def distinct_upsert_row
        fun_eq_iff split: option.splits)
next
  case (5 s c cutoff n r s')
  then show ?case
    by (auto simp: sqlite_defs sql_items_def sql_metas_def db_inv_def Let_def fun_eq_iff
        map_of_filter_row distinct_filter_rows split: option.splits)
next
  case (6 s c cutoff n r s')
  then show ?case
    by (auto simp: sqlite_defs sql_items_def sql_metas_def db_inv_def Let_def map_of_filter_row
        distinct_filter_rows split: option.splits if_splits)
qed

subsection \<open>Properties\<close>

text \<open>SQLite round trip.  After a successful \<^verbatim>\<open>UpsertItem\<close> a \<^verbatim>\<open>GetItem\<close> that succeeds reports the
  stored hash and time for that \<^verbatim>\<open>(feed_url, item_id)\<close>, and for every other key what was there before;
  the primary keys stay unique.\<close>

theorem sqlite_item_roundtrip:
  assumes "db_inv s"
    and "sqlite_UpsertItem flt c u i h t s = (None, s1)"
    and "sqlite_GetItem flt c' u' i' s1 = (Inr v, s2)"
  shows "v = (if (u', i') = (u, i) then Some \<lparr>ContentHashS = h, LastSeenAt = t\<rparr>
              else map_of (seen_items s) (u', i')) \<and> db_inv s2"
proof -
  have "db_inv s1"
    using sqlite.upsert_item [unfolded sqlite_store_sel, OF assms(1,2)] by simp
  then have "db_inv s2"
    using sqlite.get_item [unfolded sqlite_store_sel, OF _ assms(3)] by simp
  with sqlite.seen.get_after_upsert [unfolded sqlite_store_sel, OF TrueI TrueI assms(1,2) TrueI assms(3)] show ?thesis
    by (simp add: sql_items_def)
qed

theorem sqlite_item_roundtrip_witness:
  "sqlite_GetItem (\<lambda>_ _. None) None ''u'' ''i''
     \<lparr>seen_items = [((''u'', ''i''), \<lparr>ContentHashS = ''h'', LastSeenAt = 5\<rparr>)], feed_meta = []\<rparr>
   = (Inr (Some \<lparr>ContentHashS = ''h'', LastSeenAt = 5\<rparr>),
      \<lparr>seen_items = [((''u'', ''i''), \<lparr>ContentHashS = ''h'', LastSeenAt = 5\<rparr>)], feed_meta = []\<rparr>)"
proof -
  let ?s1 = "\<lparr>seen_items = [((''u'', ''i''), \<lparr>ContentHashS = ''h'', LastSeenAt = 5\<rparr>)], feed_meta = []\<rparr>"
  let ?flt = "\<lambda>_ _. None"
  have 1: "db_inv \<lparr>seen_items = [], feed_meta = []\<rparr>" by (simp add: db_inv_def)
  have 2: "sqlite_UpsertItem ?flt None ''u'' ''i'' ''h'' 5 \<lparr>seen_items = [], feed_meta = []\<rparr>
      = (None, ?s1)"
    by (simp add: sqlite_UpsertItem_def)
  obtain v where 3: "sqlite_GetItem ?flt None ''u'' ''i'' ?s1 = (Inr v, ?s1)"
    by (simp add: sqlite_GetItem_def)
  from sqlite_item_roundtrip [OF 1 2 3] 3 show ?thesis by simp
qed

text \<open>A sweep is exact.  A successful \<^verbatim>\<open>PruneItemsBefore\<close> removes precisely the items last seen
  before the cutoff (at the precision of \<^verbatim>\<open>datetime()\<close>), reports their number, and leaves the feed
  metadata alone; a failed one removes nothing.\<close>

theorem sqlite_prune_exact:
  assumes "db_inv s" "sqlite_PruneItemsBefore flt dt c cutoff s = (n, err, s')"
  shows "(err = None \<longrightarrow>
            (\<forall>k v. map_of (seen_items s') k = Some v \<longleftrightarrow>
               map_of (seen_items s) k = Some v \<and> \<not> dt (LastSeenAt v) < dt cutoff) \<and>
            int (length (seen_items s')) + n = int (length (seen_items s))) \<and>
         (err \<noteq> None \<longrightarrow> s' = s \<and> n = 0) \<and>
         feed_meta s' = feed_meta s"
  using assms
  by (auto simp: sqlite_PruneItemsBefore_def db_inv_def Let_def map_of_filter_row of_nat_diff
      split: option.splits if_splits)

theorem sqlite_prune_exact_witness:
  "sqlite_PruneItemsBefore (\<lambda>_ _. None) (\<lambda>t. t div 10) None 25
     \<lparr>seen_items = [((''u'', ''i''), \<lparr>ContentHashS = ''h'', LastSeenAt = 5\<rparr>)], feed_meta = []\<rparr>
   = (1, None, \<lparr>seen_items = [], feed_meta = []\<rparr>) \<and> int (length ([] :: nat list)) + 1 = 1"
proof -
  let ?s = "\<lparr>seen_items = [((''u'', ''i''), \<lparr>ContentHashS = ''h'', LastSeenAt = 5\<rparr>)], feed_meta = []\<rparr>"
  have 1: "db_inv ?s" by (simp add: db_inv_def)
  have 2: "sqlite_PruneItemsBefore (\<lambda>_ _. None) (\<lambda>t. t div 10) None 25 ?s
      = (1, None, \<lparr>seen_items = [], feed_meta = []\<rparr>)"
    by (simp add: sqlite_PruneItemsBefore_def)
  from sqlite_prune_exact [OF 1 2] 2 show ?thesis by simp
qed

end
