(* ===== verification/Feed_Fetch.thy ===== *)
theory Feed_Fetch
  imports Retry
begin

section \<open>Fetching a feed (\<^verbatim>\<open>internal/feed/errors.go\<close>, \<^verbatim>\<open>internal/feed/fetcher.go\<close>)\<close>

text \<open>
  The HTTP client, the feed parser (third-party \<^verbatim>\<open>gofeed\<close>), the construction of a request from a
  URL and the two conversions of HTTP dates are the record \<open>http_env\<close>, an argument.  Everything the
  fetcher decides is modelled: the timeout, the conditional headers, the per-feed overrides and the
  classification of the outcome by which the poll is retried or not.
\<close>

subsection \<open>Which failures are worth retrying\<close>

definition IsRetryable :: "go_error \<Rightarrow> bool" where
  "IsRetryable err =
     (case as_fetch_error err of
        None \<Rightarrow> False
      | Some (op, status, e) \<Rightarrow>
          if op = ''transport'' then \<not> is_canceled e
          else if op = ''status'' then status \<ge> 500 \<or> status = 429
          else False)"

subsection \<open>Headers\<close>

definition is_lower :: "char \<Rightarrow> bool" where
  "is_lower c \<longleftrightarrow> 97 \<le> byte c \<and> byte c \<le> 122"

definition is_upper :: "char \<Rightarrow> bool" where
  "is_upper c \<longleftrightarrow> 65 \<le> byte c \<and> byte c \<le> 90"

definition is_token_byte :: "char \<Rightarrow> bool" where
  "is_token_byte c \<longleftrightarrow> is_lower c \<or> is_upper c \<or> (48 \<le> byte c \<and> byte c \<le> 57) \<or>
     byte c \<in> {33, 35, 36, 37, 38, 39, 42, 43, 45, 46, 94, 95, 96, 124, 126}"

fun canon_bytes :: "bool \<Rightarrow> string \<Rightarrow> string" where
  "canon_bytes up [] = []"
| "canon_bytes up (c # cs) =
     (if up \<and> is_lower c then char_of (byte c - 32)
      else if \<not> up \<and> is_upper c then char_of (byte c + 32) else c)
     # canon_bytes (byte c = 45) cs"

definition CanonicalHeaderKey :: "string \<Rightarrow> string" where
  "CanonicalHeaderKey k = (if list_all is_token_byte k then canon_bytes True k else k)"

type_synonym header = "string \<Rightarrow> string list option"

definition header_Set :: "string \<Rightarrow> string \<Rightarrow> header \<Rightarrow> header" where
  "header_Set k v h = h(CanonicalHeaderKey k \<mapsto> [v])"

definition header_Get :: "header \<Rightarrow> string \<Rightarrow> string" where
  "header_Get h k = (case h (CanonicalHeaderKey k) of Some (v # _) \<Rightarrow> v | _ \<Rightarrow> [])"

subsection \<open>The fetcher\<close>

record gofeed_item =
  GUID :: string
  itLink :: string
  itTitle :: string
  itContent :: string
  Description :: string
  Author :: "string option"
  itAuthors :: "string option list"
  itCategories :: "string list"
  PublishedParsed :: "time option"
  UpdatedParsed :: "time option"

record gofeed =
  gfTitle :: string
  Items :: "gofeed_item list"

record Options =
  UserAgent :: string
  Timeout :: duration

record FetchRequest =
  frURL :: string
  frHeaders :: "(string \<times> string) list"  \<comment> \<open>in the order the map is iterated\<close>
  frTimeout :: duration
  frETag :: string
  frLastModified :: time

record FetchResult =
  Status :: int
  NotModified :: bool
  resETag :: string
  resLastModified :: time
  Feed :: "gofeed option"

record http_request =
  rqURL :: string
  rqHeader :: header

record http_response =
  rsStatus :: int
  rsHeader :: header
  rsBody :: string

record 's http_env =
  new_request :: "string \<Rightarrow> go_error option"
  http_do :: "ctx \<Rightarrow> http_request \<Rightarrow> 's \<Rightarrow> http_response result \<times> 's"
  parse_feed :: "ctx \<Rightarrow> string \<Rightarrow> 's \<Rightarrow> gofeed result \<times> 's"
  http_TimeFormat :: "time \<Rightarrow> string"
  http_ParseTime :: "string \<Rightarrow> time option"

definition zero_result :: FetchResult where
  "zero_result = \<lparr>Status = 0, NotModified = False, resETag = [], resLastModified = zero_time,
     Feed = None\<rparr>"

definition NewFetcher :: "Options \<Rightarrow> Options" where
  "NewFetcher opts = (if Timeout opts \<le> 0 then opts\<lparr>Timeout := 30 * second\<rparr> else opts)"

text \<open>The request headers: defaults first, then the per-feed overrides, an empty value suppressing
  the default.\<close>

definition default_headers :: "'s http_env \<Rightarrow> Options \<Rightarrow> FetchRequest \<Rightarrow> header" where
  "default_headers env opts fr =
     (let h0 = Map.empty;
          h1 = (if UserAgent opts \<noteq> [] then header_Set ''User-Agent'' (UserAgent opts) h0 else h0);
          h2 = (if frETag fr \<noteq> [] then header_Set ''If-None-Match'' (frETag fr) h1 else h1)
      in if frLastModified fr \<noteq> zero_time
         then header_Set ''If-Modified-Since'' (http_TimeFormat env (frLastModified fr)) h2 else h2)"

fun override_headers :: "(string \<times> string) list \<Rightarrow> header \<Rightarrow> header" where
  "override_headers [] h = h"
| "override_headers ((k, v) # kvs) h =
     override_headers kvs
       (if v = [] then h(CanonicalHeaderKey k \<mapsto> [[]]) else header_Set k v h)"

definition classify_response ::
    "'s http_env \<Rightarrow> ctx \<Rightarrow> http_response \<Rightarrow> 's \<Rightarrow> FetchResult \<times> go_error option \<times> 's" where
  "classify_response env c resp s =
     (let lm = header_Get (rsHeader resp) ''Last-Modified'';
          res = \<lparr>Status = rsStatus resp, NotModified = False,
                 resETag = header_Get (rsHeader resp) ''ETag'',
                 resLastModified =
                   (if lm \<noteq> [] then (case http_ParseTime env lm of Some t \<Rightarrow> t | None \<Rightarrow> zero_time)
                    else zero_time),
                 Feed = None\<rparr>
      in if rsStatus resp = 304 then (res\<lparr>NotModified := True\<rparr>, None, s)
         else if 200 \<le> rsStatus resp \<and> rsStatus resp < 300
         then (case parse_feed env c (rsBody resp) s of
                 (Inl err, s1) \<Rightarrow>
                   (res, Some (FetchError ''parse'' 0 (Errorf ''parse feed: %w'' [FWrap err])), s1)
               | (Inr feed, s1) \<Rightarrow> (res\<lparr>Feed := Some feed\<rparr>, None, s1))
         else (res, Some (FetchError ''status'' (rsStatus resp)
                 (Errorf ''unexpected status %d'' [FInt (rsStatus resp)])), s))"

definition Fetch ::
    "'s runtime \<Rightarrow> 's http_env \<Rightarrow> Options \<Rightarrow> ctx \<Rightarrow> FetchRequest \<Rightarrow> 's \<Rightarrow>
     FetchResult \<times> go_error option \<times> 's" where
  "Fetch rt env opts c0 fr s =
     (let timeout = (if frTimeout fr > 0 then frTimeout fr else Timeout opts);
          c = WithTimeout rt c0 timeout s
      in case new_request env (frURL fr) of
           Some err \<Rightarrow>
             (zero_result, Some (FetchError ''request'' 0 (Errorf ''build request: %w'' [FWrap err])), s)
         | None \<Rightarrow>
             let req = \<lparr>rqURL = frURL fr,
                        rqHeader = override_headers (frHeaders fr) (default_headers env opts fr)\<rparr>
             in case http_do env c req s of
                  (Inl err, s1) \<Rightarrow>
                    (zero_result,
                     Some (FetchError ''transport'' 0 (Errorf ''http get: %w'' [FWrap err])), s1)
                | (Inr resp, s1) \<Rightarrow> classify_response env c resp s1)"

subsection \<open>Properties\<close>

lemma IsRetryable_FetchError [simp]:
  "IsRetryable (FetchError op st e) =
     (if op = ''transport'' then \<not> is_canceled e
      else if op = ''status'' then st \<ge> 500 \<or> st = 429 else False)"
  by (simp add: IsRetryable_def)

lemma classify_response_error:
  assumes "classify_response env c resp s = (res, Some err, s')"
  shows "IsRetryable err \<longleftrightarrow> (rsStatus resp \<ge> 500 \<or> rsStatus resp = 429)"
  using assms
  by (auto simp: classify_response_def Let_def split: if_splits prod.splits sum.splits)

text \<open>A failed fetch is retried exactly when it can be transient: the transport failed for a
  reason other than cancellation, or the server answered 5xx or 429.  A malformed request, another
  status and an unparsable body are permanent.\<close>

theorem Fetch_retry_classification:
  assumes "Fetch rt env opts c fr s = (res, Some err, s')"
  shows "IsRetryable err \<longleftrightarrow>
    new_request env (frURL fr) = None \<and>
    (case http_do env (WithTimeout rt c (if frTimeout fr > 0 then frTimeout fr else Timeout opts) s)
            \<lparr>rqURL = frURL fr,
             rqHeader = override_headers (frHeaders fr) (default_headers env opts fr)\<rparr> s of
       (Inl e, _) \<Rightarrow> \<not> is_canceled e
     | (Inr resp, _) \<Rightarrow> rsStatus resp \<ge> 500 \<or> rsStatus resp = 429)"
proof (cases "new_request env (frURL fr)")
  case (Some e)
  with assms show ?thesis by (auto simp: Fetch_def Let_def)
next
  case None
  with assms show ?thesis
    by (auto simp: Fetch_def Let_def dest: classify_response_error split: prod.splits sum.splits)
qed

definition toy_env :: "nat http_env" where
  "toy_env = \<lparr>new_request = (\<lambda>_. None),
     http_do = (\<lambda>_ _ s. (Inr \<lparr>rsStatus = 503, rsHeader = Map.empty, rsBody = []\<rparr>, s)),
     parse_feed = (\<lambda>_ _ s. (Inl (Errorf ''bad'' []), s)),
     http_TimeFormat = (\<lambda>_. []), http_ParseTime = (\<lambda>_. None)\<rparr>"

theorem Fetch_retry_classification_witness:
  "IsRetryable (FetchError ''status'' 503 (Errorf ''unexpected status %d'' [FInt 503]))"
proof -
  have "Fetch quiet_rt toy_env \<lparr>UserAgent = [], Timeout = 1\<rparr> None
      \<lparr>frURL = ''u'', frHeaders = [], frTimeout = 0, frETag = [], frLastModified = 0\<rparr> 0
    = (\<lparr>Status = 503, NotModified = False, resETag = [], resLastModified = 0, Feed = None\<rparr>,
       Some (FetchError ''status'' 503 (Errorf ''unexpected status %d'' [FInt 503])), 0)"
    by (simp add: Fetch_def toy_env_def classify_response_def header_Get_def Let_def)
  from Fetch_retry_classification [OF this] show ?thesis
    by (simp add: toy_env_def)
qed

lemma canon_literals [simp]:
  "CanonicalHeaderKey ''User-Agent'' = ''User-Agent''"
  "CanonicalHeaderKey ''If-None-Match'' = ''If-None-Match''"
  "CanonicalHeaderKey ''If-Modified-Since'' = ''If-Modified-Since''"
  by (simp_all add: CanonicalHeaderKey_def is_token_byte_def is_lower_def is_upper_def byte_def)

lemma override_headers_other:
  "\<forall>(k, v)\<in>set kvs. CanonicalHeaderKey k \<noteq> x \<Longrightarrow> override_headers kvs h x = h x"
  by (induction kvs h rule: override_headers.induct) (auto simp: header_Set_def)

text \<open>The conditional GET.  With no override of its own for them in the feed's headers, the
  request carries \<^verbatim>\<open>If-None-Match\<close> exactly when an entity tag is stored, with that tag, and
  \<^verbatim>\<open>If-Modified-Since\<close> exactly when a modification time is stored.\<close>

theorem conditional_get_headers:
  assumes "\<forall>(k, v)\<in>set (frHeaders fr).
             CanonicalHeaderKey k \<notin> {''If-None-Match'', ''If-Modified-Since''}"
  shows "override_headers (frHeaders fr) (default_headers env opts fr) ''If-None-Match'' =
           (if frETag fr = [] then None else Some [frETag fr]) \<and>
         override_headers (frHeaders fr) (default_headers env opts fr) ''If-Modified-Since'' =
           (if frLastModified fr = 0 then None
            else Some [http_TimeFormat env (frLastModified fr)])"
proof -
  from assms have "\<forall>(k, v)\<in>set (frHeaders fr). CanonicalHeaderKey k \<noteq> ''If-None-Match''"
    "\<forall>(k, v)\<in>set (frHeaders fr). CanonicalHeaderKey k \<noteq> ''If-Modified-Since''" by auto
  then show ?thesis
    by (simp add: override_headers_other default_headers_def header_Set_def Let_def)
qed

theorem conditional_get_headers_witness:
  "override_headers [(''x-token'', ''t'')]
     (default_headers toy_env \<lparr>UserAgent = ''a'', Timeout = 1\<rparr>
        \<lparr>frURL = ''u'', frHeaders = [(''x-token'', ''t'')], frTimeout = 0, frETag = ''e'',
         frLastModified = 0\<rparr>) ''If-None-Match'' = Some [''e'']"
  using conditional_get_headers [of "\<lparr>frURL = ''u'', frHeaders = [(''x-token'', ''t'')],
      frTimeout = 0, frETag = ''e'', frLastModified = 0\<rparr>" toy_env "\<lparr>UserAgent = ''a'', Timeout = 1\<rparr>"]
  by (simp add: CanonicalHeaderKey_def is_token_byte_def is_lower_def is_upper_def byte_def)

end
