(* ===== verification/Feed_Detect.thy ===== *)
theory Feed_Detect
  imports Change_Model State_Store Feed_Fetch "HOL-Library.Sublist"
begin

section \<open>Change detection (\<^verbatim>\<open>internal/feed/detector.go\<close>)\<close>

text \<open>
  \<open>Detect\<close> walks the items of a parsed feed oldest first, reads the stored state of each and builds
  the list of changes.  \<^verbatim>\<open>sort.SliceStable\<close> with a comparison of publication times is the stable
  \<^const>\<open>sort_key\<close>.  The specification \<open>detect_spec\<close> is what a reader expects: a filter over
  the sorted items by the stored hashes.  For every backend that keeps the promise of
  \<open>state_store\<close> the code computes it.
\<close>

definition publishedTime :: "gofeed_item \<Rightarrow> time" where
  "publishedTime it = (case PublishedParsed it of Some t \<Rightarrow> t | None \<Rightarrow> zero_time)"

definition collectAuthors :: "gofeed_item \<Rightarrow> string list" where
  "collectAuthors it =
     (if length (itAuthors it) > 0
      then filter (\<lambda>n. n \<noteq> []) (somes (itAuthors it))
      else case Author it of
             Some n \<Rightarrow> if n \<noteq> [] then [n] else []
           | None \<Rightarrow> [])"

text \<open>The parts of \<^verbatim>\<open>classify\<close> that look at the item only.\<close>

definition item_id :: "(string \<Rightarrow> string) \<Rightarrow> gofeed_item \<Rightarrow> string" where
  "item_id sha it =
     IdentityKey sha (GUID it) (itLink it) (itTitle it)
       (case PublishedParsed it of Some t \<Rightarrow> t | None \<Rightarrow> zero_time)"

definition item_hash :: "(string \<Rightarrow> string) \<Rightarrow> gofeed_item \<Rightarrow> string" where
  "item_hash sha it =
     (let upd = (case UpdatedParsed it of Some t \<Rightarrow> t | None \<Rightarrow> zero_time);
          b0 = TrimSpace (itContent it);
          body = (if b0 = [] then TrimSpace (Description it) else b0);
          author = (case Author it of Some n \<Rightarrow> n | None \<Rightarrow> [])
      in ContentHash sha (itTitle it) (itLink it) body author upd)"

definition mkChange ::
    "(string \<Rightarrow> string) \<Rightarrow> string \<Rightarrow> string \<Rightarrow> gofeed_item \<Rightarrow> time \<Rightarrow> ChangeKind \<Rightarrow> change" where
  "mkChange sha feedURL feedTitle it detectedAt kind =
     \<lparr>SchemaVersion = SchemaVersionConst, FeedURL = feedURL, FeedTitle = feedTitle,
      ItemID = item_id sha it, Kind = kind, Title = itTitle it, Link = itLink it,
      Authors = collectAuthors it, Summary = Description it, Content = itContent it,
      Categories = itCategories it, PublishedAt = PublishedParsed it,
      UpdatedAt = UpdatedParsed it, ContentHashOf = item_hash sha it, DetectedAt = detectedAt,
      DLQFromSink = [], DLQError = [], DLQAttempts = 0\<rparr>"

definition classify ::
    "(string \<Rightarrow> string) \<Rightarrow> 's Store \<Rightarrow> ctx \<Rightarrow> string \<Rightarrow> string \<Rightarrow> gofeed_item \<Rightarrow> time \<Rightarrow> 's \<Rightarrow>
     change option result \<times> 's" where
  "classify sha st c feedURL feedTitle it detectedAt s =
     (case GetItem st c feedURL (item_id sha it) s of
        (Inl err, s1) \<Rightarrow> (Inl err, s1)
      | (Inr existing, s1) \<Rightarrow>
          (case existing of
             Some e \<Rightarrow>
               if ContentHashS e = item_hash sha it then (Inr None, s1)
               else (Inr (Some (mkChange sha feedURL feedTitle it detectedAt ChangeUpdated)), s1)
           | None \<Rightarrow> (Inr (Some (mkChange sha feedURL feedTitle it detectedAt ChangeNew)), s1)))"

fun detect_loop ::
    "(string \<Rightarrow> string) \<Rightarrow> 's Store \<Rightarrow> ctx \<Rightarrow> string \<Rightarrow> string \<Rightarrow> time \<Rightarrow> gofeed_item list \<Rightarrow>
     change list \<Rightarrow> 's \<Rightarrow> change list result \<times> 's" where
  "detect_loop sha st c feedURL feedTitle detectedAt [] out s = (Inr out, s)"
| "detect_loop sha st c feedURL feedTitle detectedAt (it # its) out s =
     (case classify sha st c feedURL feedTitle it detectedAt s of
        (Inl err, s1) \<Rightarrow> (Inl err, s1)
      | (Inr (Some ch), s1) \<Rightarrow>
          detect_loop sha st c feedURL feedTitle detectedAt its (out @ [ch]) s1
      | (Inr None, s1) \<Rightarrow> detect_loop sha st c feedURL feedTitle detectedAt its out s1)"

definition Detect ::
    "(string \<Rightarrow> string) \<Rightarrow> 's Store \<Rightarrow> ctx \<Rightarrow> string \<Rightarrow> gofeed option \<Rightarrow> time \<Rightarrow> 's \<Rightarrow>
     change list result \<times> 's" where
  "Detect sha st c feedURL f detectedAt s =
     (case f of
        None \<Rightarrow> (Inr [], s)
      | Some g \<Rightarrow>
          detect_loop sha st c feedURL (gfTitle g) detectedAt
            (sort_key publishedTime (Items g)) [] s)"

subsection \<open>The specification\<close>

definition classify_spec ::
    "(string \<Rightarrow> string) \<Rightarrow> (string \<times> string \<Rightarrow> ItemState option) \<Rightarrow> string \<Rightarrow> string \<Rightarrow> time \<Rightarrow>
     gofeed_item \<Rightarrow> change option" where
  "classify_spec sha seen feedURL feedTitle detectedAt it =
     (case seen (feedURL, item_id sha it) of
        None \<Rightarrow> Some (mkChange sha feedURL feedTitle it detectedAt ChangeNew)
      | Some e \<Rightarrow>
          if ContentHashS e = item_hash sha it then None
          else Some (mkChange sha feedURL feedTitle it detectedAt ChangeUpdated))"

definition detect_spec ::
    "(string \<Rightarrow> string) \<Rightarrow> (string \<times> string \<Rightarrow> ItemState option) \<Rightarrow> string \<Rightarrow> time \<Rightarrow>
     gofeed option \<Rightarrow> change list" where
  "detect_spec sha seen feedURL detectedAt f =
     (case f of
        None \<Rightarrow> []
      | Some g \<Rightarrow>
          somes (map (classify_spec sha seen feedURL (gfTitle g) detectedAt)
                   (sort_key publishedTime (Items g))))"

lemma mkChange_sel [simp]:
  "FeedURL (mkChange sha u t it d k) = u" "ItemID (mkChange sha u t it d k) = item_id sha it"
  "ContentHashOf (mkChange sha u t it d k) = item_hash sha it"
  "DetectedAt (mkChange sha u t it d k) = d" "Kind (mkChange sha u t it d k) = k"
  "PublishedAt (mkChange sha u t it d k) = PublishedParsed it"
  by (simp_all add: mkChange_def)

lemma set_somes: "set (somes xs) = {a. Some a \<in> set xs}"
  by (induction xs) (auto simp: somes_def split: option.splits)

context seen_store
begin

lemma classify_refines:
  assumes "ids (item_id sha it)" "inv s" "classify sha st c u t it d s = (r, s')"
  shows "inv s' \<and> items s' = items s \<and> metas s' = metas s \<and>
         (\<forall>v. r = Inr v \<longrightarrow> v = classify_spec sha (items s) u t d it)"
proof -
  obtain ri s1 where g: "GetItem st c u (item_id sha it) s = (ri, s1)" by fastforce
  with get_item [OF assms(1,2) g] assms(3) show ?thesis
    by (auto simp: classify_def classify_spec_def split: sum.splits option.splits if_splits)
qed

lemma detect_loop_refines:
  assumes "\<forall>it\<in>set its. ids (item_id sha it)" "inv s" "detect_loop sha st c u t d its out s = (r, s')"
  shows "inv s' \<and> items s' = items s \<and> metas s' = metas s \<and>
    (\<forall>v. r = Inr v \<longrightarrow> v = out @ somes (map (classify_spec sha (items s) u t d) its))"
  using assms
proof (induction its arbitrary: out s)
  case Nil
  then show ?case by auto
next
  case (Cons it its)
  obtain rc s1 where cl: "classify sha st c u t it d s = (rc, s1)" by fastforce
  have ok: "ids (item_id sha it)" "\<forall>it\<in>set its. ids (item_id sha it)" using Cons.prems(1) by simp_all
  note ref = classify_refines [OF ok(1) Cons.prems(2) cl]
  show ?case
  proof (cases rc)
    case (Inl err)
    with Cons.prems(3) cl ref show ?thesis by auto
  next
    case (Inr v)
    then have v: "v = classify_spec sha (items s) u t d it" using ref by simp
    show ?thesis
    proof (cases v)
      case None
      with Cons.prems(3) cl Inr have "detect_loop sha st c u t d its out s1 = (r, s')" by simp
      from Cons.IH [OF ok(2) _ this] ref v None show ?thesis by simp
    next
      case (Some ch)
      with Cons.prems(3) cl Inr have "detect_loop sha st c u t d its (out @ [ch]) s1 = (r, s')"
        by simp
      with Cons.IH [OF ok(2), of s1 "out @ [ch]"] ref
      have "inv s' \<and> items s' = items s \<and> metas s' = metas s \<and>
        (\<forall>v. r = Inr v \<longrightarrow> v = out @ ch # somes (map (classify_spec sha (items s) u t d) its))"
        by simp
      with v Some show ?thesis by (metis list.simps(9) somes_simps(3))
    qed
  qed
qed

lemma Detect_refines:
  assumes "\<forall>g\<in>set_option f. \<forall>it\<in>set (Items g). ids (item_id sha it)"
    and "inv s" "Detect sha st c u f d s = (r, s')"
  shows "inv s' \<and> items s' = items s \<and> metas s' = metas s \<and>
         (\<forall>v. r = Inr v \<longrightarrow> v = detect_spec sha (items s) u d f)"
proof (cases f)
  case None
  with assms show ?thesis by (auto simp: Detect_def detect_spec_def)
next
  case (Some g)
  with assms(3) have "detect_loop sha st c u (gfTitle g) d
      (sort_key publishedTime (Items g)) [] s = (r, s')" by (simp add: Detect_def)
  from detect_loop_refines [OF _ assms(2) this] assms(1) Some show ?thesis by (simp add: detect_spec_def)
qed

end

context state_store
begin

lemma Detect_refines:
  assumes "inv s" "Detect sha st c u f d s = (r, s')"
  shows "inv s' \<and> items s' = items s \<and> metas s' = metas s \<and>
         (\<forall>v. r = Inr v \<longrightarrow> v = detect_spec sha (items s) u d f)"
  using seen.Detect_refines [OF _ assms] by simp

end

lemma detect_spec_mem:
  "ch \<in> set (detect_spec sha seen u d (Some g)) \<longleftrightarrow>
     (\<exists>it\<in>set (Items g). classify_spec sha seen u (gfTitle g) d it = Some ch)"
  by (auto simp: detect_spec_def set_somes image_iff) (metis)

lemma sorted_of_subseq: "subseq xs ys \<Longrightarrow> sorted ys \<Longrightarrow> sorted xs"
proof (induction rule: list_emb.induct)
  case (list_emb_Cons2 x y xs ys)
  then show ?case using list_emb_set [of "(=)" xs ys] by auto
qed auto

text \<open>Whatever the store answers, the loop appends changes of the items in their order.\<close>

lemma classify_published:
  "classify sha st c u ti it d s = (Inr (Some ch), s') \<Longrightarrow>
     (case PublishedAt ch of Some t \<Rightarrow> t | None \<Rightarrow> zero_time) = publishedTime it"
  by (auto simp: classify_def publishedTime_def mkChange_def split: prod.splits sum.splits
      option.splits if_splits)

lemma detect_loop_subseq:
  "detect_loop sha st c u ti d its out s = (Inr chs, s') \<Longrightarrow>
     \<exists>new. chs = out @ new \<and>
       subseq (map (\<lambda>ch. case PublishedAt ch of Some t \<Rightarrow> t | None \<Rightarrow> zero_time) new)
         (map publishedTime its)"
proof (induction its arbitrary: out s)
  case (Cons it its)
  obtain r s1 where cl: "classify sha st c u ti it d s = (r, s1)" by fastforce
  show ?case
  proof (cases r)
    case (Inl e)
    with Cons.prems cl show ?thesis by simp
  next
    case (Inr o1)
    show ?thesis
    proof (cases o1)
      case None
      with Inr Cons.prems cl have "detect_loop sha st c u ti d its out s1 = (Inr chs, s')" by simp
      from Cons.IH [OF this] show ?thesis by (auto intro: subseq_order.trans)
    next
      case (Some ch)
      with Inr Cons.prems cl
      have "detect_loop sha st c u ti d its (out @ [ch]) s1 = (Inr chs, s')" by simp
      from Cons.IH [OF this] obtain new where new: "chs = out @ ch # new"
        "subseq (map (\<lambda>ch. case PublishedAt ch of Some t \<Rightarrow> t | None \<Rightarrow> zero_time) new)
           (map publishedTime its)" by auto
      with classify_published [OF cl [unfolded Inr Some]] show ?thesis
        by (intro exI [of _ "ch # new"]) simp
    qed
  qed
qed simp

subsection \<open>Properties\<close>

text \<open>An item for the examples: a GUID and a publication time.\<close>

definition dated :: "string \<Rightarrow> time \<Rightarrow> gofeed_item" where
  "dated guid t = \<lparr>GUID = guid, itLink = [], itTitle = [], itContent = [], Description = [],
     Author = None, itAuthors = [], itCategories = [], PublishedParsed = Some t,
     UpdatedParsed = None\<rparr>"

text \<open>C17: refinement, for the SQLite store.  When \<^verbatim>\<open>Detect\<close> returns without error it returns exactly
  the specified list (each item in publication order, new when its identity is unknown, updated when
  the stored hash differs, absent when it is equal), and it never writes to the store.\<close>

theorem Detect_refines_spec:
  assumes "db_inv s" "Detect sha (sqlite_store flt dt now) c u f d s = (r, s')"
  shows "sql_items s' = sql_items s \<and> sql_metas s' = sql_metas s \<and> db_inv s' \<and>
         (\<forall>v. r = Inr v \<longrightarrow> v = detect_spec sha (sql_items s) u d f)"
  using sqlite.Detect_refines [OF assms] by blast

theorem Detect_refines_spec_witness:
  "detect_spec id (sql_items \<lparr>seen_items = [], feed_meta = []\<rparr>) ''u'' 3
     (Some \<lparr>gfTitle = ''t'', Items = [dated ''a'' 3]\<rparr>) =
   [mkChange id ''u'' ''t'' (dated ''a'' 3) 3 ChangeNew]"
proof -
  let ?s = "\<lparr>seen_items = [], feed_meta = []\<rparr> :: sqlite_db"
  have 1: "db_inv ?s" by (simp add: db_inv_def)
  have 2: "Detect id (sqlite_store (\<lambda>_ _. None) (\<lambda>t. t) (\<lambda>_. 0)) None ''u''
      (Some \<lparr>gfTitle = ''t'', Items = [dated ''a'' 3]\<rparr>) 3 ?s =
      (Inr [mkChange id ''u'' ''t'' (dated ''a'' 3) 3 ChangeNew], ?s)"
    by (simp add: Detect_def classify_def sqlite_store_def sqlite_GetItem_def)
  from Detect_refines_spec [OF 1 2] show ?thesis by simp
qed

text \<open>Changes come out oldest first, whatever the store answers.  The publication times of the
  changes \<^verbatim>\<open>Detect\<close> returns are ascending, an item without one counting as published at the zero
  time.\<close>

theorem Detect_oldest_first:
  assumes "Detect sha st c u f d s = (Inr chs, s')"
  shows "sorted (map (\<lambda>ch. case PublishedAt ch of Some t \<Rightarrow> t | None \<Rightarrow> zero_time) chs)"
proof (cases f)
  case None
  with assms show ?thesis by (simp add: Detect_def)
next
  case (Some g)
  with assms have "detect_loop sha st c u (gfTitle g) d (sort_key publishedTime (Items g)) [] s =
      (Inr chs, s')" by (simp add: Detect_def)
  from detect_loop_subseq [OF this] show ?thesis
    using sorted_of_subseq [OF _ sorted_sort_key] by auto
qed

theorem Detect_oldest_first_witness:
  "sorted (map (\<lambda>ch. case PublishedAt ch of Some t \<Rightarrow> t | None \<Rightarrow> zero_time)
     [mkChange id ''u'' [] (dated ''a'' 3) 9 ChangeNew, mkChange id ''u'' [] (dated ''b'' 5) 9 ChangeNew])"
  using Detect_oldest_first [of id "sqlite_store (\<lambda>_ _. None) id (\<lambda>_. 0)" None "''u''"
      "Some \<lparr>gfTitle = [], Items = [dated ''b'' 5, dated ''a'' 3]\<rparr>" 9
      "\<lparr>seen_items = [], feed_meta = []\<rparr>"]
  by (simp add: Detect_def classify_def sqlite_store_def sqlite_GetItem_def publishedTime_def dated_def
      item_id_def IdentityKey_def)

text \<open>Reformatting is not a change.  Collapsing the white space of the hashed fields leaves the
  content hash as it is, and two contents without NUL bytes that give the digest the same input have
  equal normalised title, link, body and author and the same update second.\<close>

theorem ContentHash_normalised:
  "ContentHash sha (norm_field t) (norm_field l) (norm_field b) (norm_field a) u =
     ContentHash sha t l b a u \<and>
   (\<forall>t' l' b' a' u'. nul \<notin> \<Union>(set ` {t, l, b, a, t', l', b', a'}) \<longrightarrow>
      hash_input t l b a u = hash_input t' l' b' a' u' \<longrightarrow>
      norm_field t = norm_field t' \<and> norm_field l = norm_field l' \<and>
      norm_field b = norm_field b' \<and> norm_field a = norm_field a' \<and> RFC3339 u = RFC3339 u')"
proof (intro conjI allI impI)
  show "ContentHash sha (norm_field t) (norm_field l) (norm_field b) (norm_field a) u =
     ContentHash sha t l b a u"
    by (simp add: ContentHash_def hash_input_def writeField_def norm_norm)
next
  fix t' l' b' a' u'
  assume "nul \<notin> \<Union>(set ` {t, l, b, a, t', l', b', a'})"
    and eq: "hash_input t l b a u = hash_input t' l' b' a' u'"
  then have "norm_field t = norm_field t' \<and> norm_field l = norm_field l' \<and>
      norm_field b = norm_field b' \<and> norm_field a = norm_field a' \<and> RFC3339 u = RFC3339 u'"
    by (intro hash_input_inject [OF _ _ _ _ _ _ _ _ eq]) auto
  then show "norm_field t = norm_field t'" "norm_field l = norm_field l'"
    "norm_field b = norm_field b'" "norm_field a = norm_field a'" "RFC3339 u = RFC3339 u'"
    by simp_all
qed

theorem ContentHash_normalised_witness:
  "ContentHash id (norm_field ''a  b'') [] [] [] 5 = ContentHash id ''a  b'' [] [] [] 5 \<and>
   RFC3339 5 = RFC3339 6"
proof -
  have "RFC3339 5 = RFC3339 6" by (simp add: RFC3339_def second_def)
  then have "hash_input ''a  b'' [] [] [] 5 = hash_input ''a  b'' [] [] [] 6"
    by (simp add: hash_input_def)
  moreover have "nul \<notin> \<Union>(set ` {''a  b'', [], [], [], ''a  b'', [], [], []})"
    by (simp add: nul_def char_of_def)
  moreover have "norm_field [] = []" by (simp add: norm_field_def Fields_def)
  ultimately show ?thesis
    using ContentHash_normalised [of id "''a  b''" "[]" "[]" "[]" 5] by metis
qed

end
