(* ===== verification/Sink.thy ===== *)
theory Sink
  imports Change_Model Retry
begin

section \<open>Delivery: registry, retry and dead letter, composite fan-out\<close>

text \<open>
  \<^verbatim>\<open>internal/sink/sink.go\<close>, \<^verbatim>\<open>internal/sink/retrywrap.go\<close> and
  \<^verbatim>\<open>internal/sink/composite/composite.go\<close>.  A \<^verbatim>\<open>Publisher\<close> is either a driver of one sink, whose
  \<^verbatim>\<open>Publish\<close> is the argument \<open>leaf_publish\<close> of the environment, or a composite, whose branches
  the wiring has attached (\<open>branches\<close>).  A composite calls back into \<^verbatim>\<open>Deliver\<close> for each child and
  \<^verbatim>\<open>Deliver\<close> calls the child's own \<^verbatim>\<open>Publish\<close> and, on failure, that of its dead-letter sink, so
  publishing recurses through the wiring; \<open>Publish\<close> takes fuel and \<open>None\<close> means that it ran out.
  \<open>Publish_terminates\<close> says how much fuel is enough for a wiring without cycles.
\<close>

datatype BranchState = BranchSuccess | BranchDLQ | BranchDropped

definition branch_string :: "BranchState \<Rightarrow> string" where
  "branch_string b =
     (case b of BranchSuccess \<Rightarrow> ''success'' | BranchDLQ \<Rightarrow> ''dlq'' | BranchDropped \<Rightarrow> ''dropped'')"

record BranchResult =
  brState :: BranchState
  brAttempts :: int
  brErr :: "go_error option"

definition dlqErrorMaxBytes :: nat where
  "dlqErrorMaxBytes = 1024"

datatype publisher = Driver string | Composite string

definition pubName :: "publisher \<Rightarrow> string" where
  "pubName p = (case p of Driver n \<Rightarrow> n | Composite n \<Rightarrow> n)"

record RetryingPublisher =
  primary :: publisher
  dlq :: "publisher option"
  rpCfg :: retry_config
  rpTimeout :: duration

definition WithRetry ::
    "publisher \<Rightarrow> publisher option \<Rightarrow> retry_config \<Rightarrow> duration \<Rightarrow> RetryingPublisher" where
  "WithRetry p d cfg timeout = \<lparr>primary = p, dlq = d, rpCfg = cfg, rpTimeout = timeout\<rparr>"

record Branch =
  brName :: string
  Wrapped :: RetryingPublisher

text \<open>The environment: the drivers, the composites' branches, and \<^verbatim>\<open>fmt.Sprintf\<close>.\<close>

record 's sink_env =
  leaf_publish :: "string \<Rightarrow> ctx \<Rightarrow> change \<Rightarrow> 's \<Rightarrow> go_error option \<times> 's"
  branches :: "string \<Rightarrow> Branch list"
  sprintf :: "string \<Rightarrow> farg list \<Rightarrow> string"

subsection \<open>Registry\<close>

type_synonym registry = "(string \<times> publisher) list"

definition NewRegistry :: registry where
  "NewRegistry = []"

definition registry_Get :: "registry \<Rightarrow> string \<Rightarrow> publisher option" where
  "registry_Get r name = map_of r name"

definition registry_Add :: "registry \<Rightarrow> publisher \<Rightarrow> registry result" where
  "registry_Add r p =
     (if registry_Get r (pubName p) \<noteq> None
      then Inl (Errorf ''duplicate publisher %q'' [FStr (pubName p)])
      else Inr (r @ [(pubName p, p)]))"

definition registry_All :: "registry \<Rightarrow> publisher list" where
  "registry_All r = map snd r"

text \<open>\<^verbatim>\<open>Close\<close> closes every publisher and returns the first error; \<open>ps\<close> lists them in the order
  the map is iterated.\<close>

fun registry_Close :: "(publisher \<Rightarrow> 's \<Rightarrow> go_error option \<times> 's) \<Rightarrow> publisher list \<Rightarrow>
    go_error option \<Rightarrow> 's \<Rightarrow> go_error option \<times> 's" where
  "registry_Close close [] firstErr s = (firstErr, s)"
| "registry_Close close (p # ps) firstErr s =
     (case close p s of (err, s1) \<Rightarrow>
        registry_Close close ps (if err \<noteq> None \<and> firstErr = None then err else firstErr) s1)"

subsection \<open>Retry and dead letter\<close>

definition truncate :: "string \<Rightarrow> nat \<Rightarrow> string" where
  "truncate s mx = (if length s \<le> mx then s else take mx s)"

text \<open>\<^verbatim>\<open>Error()\<close>; a wrapped error is formatted as its own text.\<close>

fun error_text :: "(string \<Rightarrow> farg list \<Rightarrow> string) \<Rightarrow> go_error \<Rightarrow> string"
  and args_text :: "(string \<Rightarrow> farg list \<Rightarrow> string) \<Rightarrow> farg list \<Rightarrow> farg list"
  and join_text :: "(string \<Rightarrow> farg list \<Rightarrow> string) \<Rightarrow> go_error list \<Rightarrow> string" where
  "error_text spf Canceled = ''context canceled''"
| "error_text spf DeadlineExceeded = ''context deadline exceeded''"
| "error_text spf (Errorf f as) = spf f (args_text spf as)"
| "error_text spf (Joined es) = join_text spf es"
| "error_text spf (FetchError op st e) = error_text spf e"
| "args_text spf [] = []"
| "args_text spf (FWrap e # as) = FStr (error_text spf e) # args_text spf as"
| "args_text spf (FStr x # as) = FStr x # args_text spf as"
| "args_text spf (FStrs x # as) = FStrs x # args_text spf as"
| "args_text spf (FInt x # as) = FInt x # args_text spf as"
| "args_text spf (FDur x # as) = FDur x # args_text spf as"
| "args_text spf (FReal x # as) = FReal x # args_text spf as"
| "join_text spf [] = []"
| "join_text spf [e] = error_text spf e"
| "join_text spf (e # d # es) = error_text spf e @ [CHR 0x0A] @ join_text spf (d # es)"

definition envelope :: "(string \<Rightarrow> farg list \<Rightarrow> string) \<Rightarrow> string \<Rightarrow> go_error \<Rightarrow> int \<Rightarrow> change \<Rightarrow> change" where
  "envelope spf name err n ch =
     ch\<lparr>DLQFromSink := name,
        DLQError := truncate (error_text spf err) dlqErrorMaxBytes,
        DLQAttempts := n\<rparr>"

text \<open>
  A publish call that may not return is an operation on \<open>'s option\<close> that leaves \<open>None\<close>;
  \<open>opt_fn\<close> and \<open>opt_rt\<close> carry an operation and the runtime to such states, and a run that ends in
  \<open>None\<close> has not returned.
\<close>

definition opt_fn :: "('s \<Rightarrow> ('r option \<times> 's) option) \<Rightarrow> 's option \<Rightarrow> 'r option \<times> 's option" where
  "opt_fn f so =
     (case so of
        None \<Rightarrow> (None, None)
      | Some s \<Rightarrow> (case f s of None \<Rightarrow> (None, None) | Some (r, s') \<Rightarrow> (r, Some s')))"

definition opt_rt :: "'s runtime \<Rightarrow> 's option runtime" where
  "opt_rt rt =
     \<lparr>rt_now = (\<lambda>so. case so of None \<Rightarrow> 0 | Some s \<Rightarrow> rt_now rt s),
      ctx_Err = (\<lambda>c so. case so of None \<Rightarrow> None | Some s \<Rightarrow> ctx_Err rt c s),
      ctx_wait = (\<lambda>c d so. case so of None \<Rightarrow> (False, None)
                   | Some s \<Rightarrow> (case ctx_wait rt c d s of (b, s') \<Rightarrow> (b, Some s'))),
      rand_Int64N = (\<lambda>n so. case so of None \<Rightarrow> (0, None)
                   | Some s \<Rightarrow> (case rand_Int64N rt n s of (x, s') \<Rightarrow> (x, Some s')))\<rparr>"

definition DoOpt ::
    "'s runtime \<Rightarrow> ctx \<Rightarrow> retry_config \<Rightarrow> ('s \<Rightarrow> (go_error option \<times> 's) option) \<Rightarrow> 's \<Rightarrow>
     (retry_result \<times> 's) option" where
  "DoOpt rt c cfg f s =
     (case Do (opt_rt rt) c cfg (opt_fn f) (Some s) of
        (r, None) \<Rightarrow> None | (r, Some s') \<Rightarrow> Some (r, s'))"

type_synonym 's publish_fn = "publisher \<Rightarrow> ctx \<Rightarrow> change \<Rightarrow> 's \<Rightarrow> (go_error option \<times> 's) option"

definition Deliver ::
    "'s runtime \<Rightarrow> 's sink_env \<Rightarrow> 's publish_fn \<Rightarrow> RetryingPublisher \<Rightarrow> ctx \<Rightarrow> change \<Rightarrow> 's \<Rightarrow>
     (BranchResult \<times> 's) option" where
  "Deliver rt env pub r c0 ch s =
     (let c = (if rpTimeout r > 0 then WithTimeout rt c0 (rpTimeout r) s else c0)
      in case DoOpt rt c (rpCfg r) (pub (primary r) c ch) s of
           None \<Rightarrow> None
         | Some (res, s1) \<Rightarrow>
             (case Err res of
                None \<Rightarrow>
                  Some (\<lparr>brState = BranchSuccess, brAttempts = Attempts res, brErr = None\<rparr>, s1)
              | Some err \<Rightarrow>
                  (case dlq r of
                     None \<Rightarrow>
                       Some (\<lparr>brState = BranchDropped, brAttempts = Attempts res,
                              brErr = Some err\<rparr>, s1)
                   | Some q \<Rightarrow>
                       (case pub q c (envelope (sprintf env) (pubName (primary r)) err
                                        (Attempts res) ch) s1 of
                          None \<Rightarrow> None
                        | Some (Some e2, s2) \<Rightarrow>
                            Some (\<lparr>brState = BranchDropped, brAttempts = Attempts res,
                                   brErr = Some (Errorf ''primary err=%w; dlq err=%w''
                                              [FWrap err, FWrap e2])\<rparr>, s2)
                        | Some (None, s2) \<Rightarrow>
                            Some (\<lparr>brState = BranchDLQ, brAttempts = Attempts res,
                                   brErr = Some err\<rparr>, s2)))))"

subsection \<open>Composite\<close>

fun publish_children ::
    "(RetryingPublisher \<Rightarrow> ctx \<Rightarrow> change \<Rightarrow> 's \<Rightarrow> (BranchResult \<times> 's) option) \<Rightarrow>
     Branch list \<Rightarrow> ctx \<Rightarrow> change \<Rightarrow> string list \<Rightarrow> 's \<Rightarrow> (string list \<times> 's) option" where
  "publish_children del [] c ch dropped s = Some (dropped, s)"
| "publish_children del (b # bs) c ch dropped s =
     (case del (Wrapped b) c ch s of
        None \<Rightarrow> None
      | Some (r, s1) \<Rightarrow>
          publish_children del bs c ch
            (if brState r = BranchDropped then dropped @ [brName b] else dropped) s1)"

definition composite_Publish ::
    "(RetryingPublisher \<Rightarrow> ctx \<Rightarrow> change \<Rightarrow> 's \<Rightarrow> (BranchResult \<times> 's) option) \<Rightarrow>
     string \<Rightarrow> Branch list \<Rightarrow> ctx \<Rightarrow> change \<Rightarrow> 's \<Rightarrow> (go_error option \<times> 's) option" where
  "composite_Publish del name bs c ch s =
     (case publish_children del bs c ch [] s of
        None \<Rightarrow> None
      | Some (dropped, s1) \<Rightarrow>
          Some (if length dropped > 0
                then Some (Errorf ''composite sink %q: %d child sink(s) dropped: %s''
                       [FStr name, FInt (int (length dropped)),
                        FStr (strings_Join dropped '', '')])
                else None, s1))"

primrec Publish :: "nat \<Rightarrow> 's runtime \<Rightarrow> 's sink_env \<Rightarrow> 's publish_fn" where
  "Publish 0 rt env = (\<lambda>p c ch s. None)"
| "Publish (Suc k) rt env = (\<lambda>p c ch s.
     case p of
       Driver n \<Rightarrow> Some (leaf_publish env n c ch s)
     | Composite n \<Rightarrow>
         composite_Publish (Deliver rt env (Publish k rt env)) n (branches env n) c ch s)"


subsection \<open>Operations that may not return under retry\<close>

lemma opt_rt_sel [simp]:
  "ctx_Err (opt_rt rt) c (Some s) = ctx_Err rt c s"
  "ctx_wait (opt_rt rt) c d (Some s) = (case ctx_wait rt c d s of (b, s') \<Rightarrow> (b, Some s'))"
  by (simp_all add: opt_rt_def)

lemma delayFor_opt:
  "delayFor (opt_rt rt) cfg a (Some s) = (case delayFor rt cfg a s of (d, s') \<Rightarrow> (d, Some s'))"
  by (simp add: delayFor_def opt_rt_def Let_def)

lemma opt_fn_Some: "f s = Some (r, s') \<Longrightarrow> opt_fn f (Some s) = (r, Some s')"
  by (simp add: opt_fn_def)

lemma do_loop_opt:
  "do_loop (opt_rt rt) c cfg (opt_fn (\<lambda>s. Some (g s))) a le (Some s) =
    (case do_loop rt c cfg g a le s of (r, s') \<Rightarrow> (r, Some s'))"
proof (induction rt c cfg g a le s rule: do_loop.induct)
  case (1 rt c cfg g a le s)
  have fn: "opt_fn (\<lambda>s. Some (g s)) (Some s') = (case g s' of (r, s'') \<Rightarrow> (r, Some s''))" for s'
    by (cases "g s'") (simp add: opt_fn_def)
  show ?case
    unfolding do_loop.simps [of "opt_rt rt" c cfg "opt_fn (\<lambda>s. Some (g s))" a le "Some s"]
      do_loop.simps [of rt c cfg g a le s]
    using "1.IH" by (auto simp: fn delayFor_opt split: option.split prod.split bool.split)
qed

lemma DoOpt_total: "DoOpt rt c cfg (\<lambda>s. Some (g s)) s = Some (Do rt c cfg g s)"
  using do_loop_opt [of rt c "withDefaults cfg" g 1 None s]
  by (simp add: DoOpt_def Do_def split: prod.split)

lemma DoOpt_success:
  assumes "DoOpt rt c cfg f s = Some (r, s')" "Err r = None"
  shows "\<exists>s0. f s0 = Some (None, s')"
proof -
  from assms(1) have "do_loop (opt_rt rt) c (withDefaults cfg) (opt_fn f) 1 None (Some s) = (r, Some s')"
    by (auto simp: DoOpt_def Do_def split: prod.splits option.splits)
  from do_loop_success [OF this assms(2)] obtain so where "opt_fn f so = (None, Some s')" by auto
  then show ?thesis by (auto simp: opt_fn_def split: option.splits)
qed

lemma DoOpt_attempts:
  assumes "DoOpt rt c cfg f s = Some (r, s')"
  shows "0 \<le> Attempts r \<and> Attempts r \<le> max 1 (MaxAttempts cfg)"
proof -
  from assms have "do_loop (opt_rt rt) c (withDefaults cfg) (opt_fn f) 1 None (Some s) = (r, Some s')"
    by (auto simp: DoOpt_def Do_def split: prod.splits option.splits)
  then show ?thesis
    using do_loop_attempts [of 1 "withDefaults cfg" "opt_rt rt" c "opt_fn f" None "Some s"] by simp
qed

lemma do_loop_fails:
  assumes "\<And>s. fst (fn s) \<noteq> None" "a \<le> MaxAttempts cfg"
  shows "Err (fst (do_loop rt c cfg fn a le s)) \<noteq> None"
  using assms
proof (induction rt c cfg fn a le s rule: do_loop.induct)
  case (1 rt c cfg fn a le s)
  have "fst (fn s) \<noteq> None" by (rule "1.prems")
  then obtain e s1 where fn: "fn s = (Some e, s1)" by (metis prod.collapse not_None_eq)
  show ?case
    unfolding do_loop.simps [of rt c cfg fn a le s]
    using "1.prems" "1.IH" fn by (auto split: option.split prod.split bool.split)
qed

text \<open>An operation that never succeeds, returning or not, never makes \<^verbatim>\<open>Do\<close> report success.\<close>

lemma DoOpt_fails:
  assumes "\<And>s s'. f s \<noteq> Some (None, s')" "DoOpt rt c cfg f s = Some (r, s')"
  shows "Err r \<noteq> None"
  using DoOpt_success [OF assms(2)] assms(1) by blast

subsection \<open>What a delivery does\<close>

lemma Deliver_cases:
  assumes "Deliver rt env pub r c0 ch s = Some (res, s')"
  obtains (success) s0 c where "brState res = BranchSuccess" "brErr res = None"
      "pub (primary r) c ch s0 = Some (None, s')"
  | (dlq) q e s1 c where "brState res = BranchDLQ" "brErr res = Some e" "dlq r = Some q"
      "pub q c (envelope (sprintf env) (pubName (primary r)) e (brAttempts res) ch) s1 = Some (None, s')"
  | (dropped) e where "brState res = BranchDropped" "brErr res = Some e"
proof -
  define c where "c = (if rpTimeout r > 0 then WithTimeout rt c0 (rpTimeout r) s else c0)"
  obtain rr s1 where d: "DoOpt rt c (rpCfg r) (pub (primary r) c ch) s = Some (rr, s1)"
    using assms by (auto simp: Deliver_def Let_def c_def split: option.splits)
  show ?thesis
  proof (cases "Err rr")
    case None
    with DoOpt_success [OF d] obtain s0 where "pub (primary r) c ch s0 = Some (None, s1)" by blast
    moreover from assms d None
    have "res = \<lparr>brState = BranchSuccess, brAttempts = Attempts rr, brErr = None\<rparr>" "s' = s1"
      by (simp_all add: Deliver_def Let_def c_def)
    ultimately show ?thesis by (intro success) simp_all
  next
    case (Some e)
    show ?thesis
    proof (cases "dlq r")
      case None
      with assms d Some show ?thesis
        by (intro dropped) (auto simp: Deliver_def Let_def c_def)
    next
      case (Some q)
      let ?pq = "pub q c (envelope (sprintf env) (pubName (primary r)) e (Attempts rr) ch) s1"
      from assms d Some \<open>Err rr = Some e\<close> obtain e2 s2 where pq: "?pq = Some (e2, s2)"
        by (auto simp: Deliver_def Let_def simp flip: c_def split: option.splits)
      show ?thesis
      proof (cases e2)
        case None
        with assms d Some \<open>Err rr = Some e\<close> pq
        have "res = \<lparr>brState = BranchDLQ, brAttempts = Attempts rr, brErr = Some e\<rparr>" "s' = s2"
          by (simp_all add: Deliver_def Let_def flip: c_def)
        with Some pq None show ?thesis by (intro dlq [of e q c s1]) simp_all
      next
        case (Some e3)
        with assms d \<open>dlq r = Some q\<close> \<open>Err rr = Some e\<close> pq show ?thesis
          by (intro dropped) (auto simp: Deliver_def Let_def simp flip: c_def)
      qed
    qed
  qed
qed

lemma Deliver_total:
  assumes "\<And>c ch s. pub (primary r) c ch s \<noteq> None"
    and "\<And>q c ch s. dlq r = Some q \<Longrightarrow> pub q c ch s \<noteq> None"
  shows "Deliver rt env pub r c ch s \<noteq> None"
proof -
  define c' where "c' = (if rpTimeout r > 0 then WithTimeout rt c (rpTimeout r) s else c)"
  have "pub (primary r) c' ch = (\<lambda>s. Some (the (pub (primary r) c' ch s)))"
    using assms(1) by (simp add: fun_eq_iff)
  then obtain rr s1 where d: "DoOpt rt c' (rpCfg r) (pub (primary r) c' ch) s = Some (rr, s1)"
    by (metis DoOpt_total prod.collapse)
  show ?thesis
  proof (cases "Err rr = None \<or> dlq r = None")
    case True
    with d show ?thesis by (auto simp: Deliver_def Let_def simp flip: c'_def split: option.split)
  next
    case False
    then obtain e q where "Err rr = Some e" and q: "dlq r = Some q" by auto
    moreover obtain e2 s2 where
      "pub q c' (envelope (sprintf env) (pubName (primary r)) e (Attempts rr) ch) s1 = Some (e2, s2)"
      using assms(2) [OF q] by (metis not_None_eq prod.collapse)
    ultimately show ?thesis
      using d by (simp add: Deliver_def Let_def flip: c'_def split: option.split)
  qed
qed

subsection \<open>What a composite does\<close>

text \<open>The results of delivering to the children one after the other.\<close>

fun child_results ::
    "(RetryingPublisher \<Rightarrow> ctx \<Rightarrow> change \<Rightarrow> 's \<Rightarrow> (BranchResult \<times> 's) option) \<Rightarrow>
     Branch list \<Rightarrow> ctx \<Rightarrow> change \<Rightarrow> 's \<Rightarrow> (BranchResult list \<times> 's) option" where
  "child_results del [] c ch s = Some ([], s)"
| "child_results del (b # bs) c ch s =
     (case del (Wrapped b) c ch s of
        None \<Rightarrow> None
      | Some (r, s1) \<Rightarrow> map_option (\<lambda>(rs, s2). (r # rs, s2)) (child_results del bs c ch s1))"

definition dropped_names :: "Branch list \<Rightarrow> BranchResult list \<Rightarrow> string list" where
  "dropped_names bs rs =
     map (brName \<circ> fst) (filter (\<lambda>(b, r). brState r = BranchDropped) (zip bs rs))"

lemma publish_children_eq:
  "publish_children del bs c ch dropped s =
     map_option (\<lambda>(rs, s'). (dropped @ dropped_names bs rs, s')) (child_results del bs c ch s)"
proof (induction bs arbitrary: dropped s)
  case Nil
  then show ?case by (simp add: dropped_names_def)
next
  case (Cons b bs)
  then show ?case
    by (auto simp: dropped_names_def option.map_comp o_def split_def split: option.split)
qed

lemma child_results_length:
  "child_results del bs c ch s = Some (rs, s') \<Longrightarrow> length rs = length bs"
  by (induction bs arbitrary: s rs) (auto split: option.splits)

lemma dropped_names_empty:
  "length rs = length bs \<Longrightarrow>
     dropped_names bs rs = [] \<longleftrightarrow> (\<forall>r\<in>set rs. brState r \<noteq> BranchDropped)"
  by (induction rs bs rule: list_induct2) (auto simp: dropped_names_def)

lemma child_results_total:
  "\<forall>b\<in>set bs. \<forall>s. del (Wrapped b) c ch s \<noteq> None \<Longrightarrow> child_results del bs c ch s \<noteq> None"
proof (induction bs arbitrary: s)
  case (Cons b bs)
  then obtain r s1 where "del (Wrapped b) c ch s = Some (r, s1)" by fastforce
  with Cons.IH [of s1] Cons.prems show ?case by auto
qed simp

subsection \<open>Properties\<close>



definition toy_change :: change where
  "toy_change = \<lparr>SchemaVersion = 1, FeedURL = ''u'', FeedTitle = [], ItemID = ''i'', Kind = ChangeNew,
     Title = [], Link = [], Authors = [], Summary = [], Content = [], Categories = [],
     PublishedAt = None, UpdatedAt = None, ContentHashOf = ''h'', DetectedAt = 0,
     DLQFromSink = [], DLQError = [], DLQAttempts = 0\<rparr>"

text \<open>A world that counts accepted publishes; the sink named \<open>bad\<close> always fails.\<close>

definition toy_sinks :: "(string \<Rightarrow> Branch list) \<Rightarrow> nat sink_env" where
  "toy_sinks bs = \<lparr>leaf_publish = (\<lambda>n c ch s.
      if n = ''bad'' then (Some (Errorf ''down'' []), s) else (None, Suc s)),
     branches = bs, sprintf = (\<lambda>f as. f)\<rparr>"

definition one_try :: retry_config where
  "one_try = \<lparr>MaxAttempts = 1, BaseDelay = 0, MaxDelay = 0, Retryable = None\<rparr>"

lemma toy_deliver_dlq:
  "Deliver quiet_rt (toy_sinks bs) (Publish (Suc 0) quiet_rt (toy_sinks bs))
     \<lparr>primary = Driver ''bad'', dlq = Some (Driver ''q''), rpCfg = one_try, rpTimeout = 0\<rparr>
     None toy_change 0
   = Some (\<lparr>brState = BranchDLQ, brAttempts = 1, brErr = Some (Errorf ''down'' [])\<rparr>, 1)"
  by (simp add: Deliver_def DoOpt_def Do_def do_loop.simps withDefaults_def clampMax_def
      clampBase_def clampAttempts_def one_try_def opt_fn_def opt_rt_def quiet_rt_def toy_sinks_def
      gives_up_def Let_def)


text \<open>C4: a composite delivers to every child, in order and one after the other, whatever happens to
  the others; it reports no error exactly when no child was dropped (each succeeded or was captured
  by its own dead letter), and otherwise names exactly the dropped children, in order.\<close>

theorem composite_Publish_contract:
  assumes "composite_Publish del name bs c ch s = Some (err, s')"
  shows "\<exists>rs. child_results del bs c ch s = Some (rs, s') \<and> length rs = length bs \<and>
    (err = None \<longleftrightarrow> (\<forall>r\<in>set rs. brState r \<noteq> BranchDropped)) \<and>
    (err \<noteq> None \<longrightarrow>
       err = Some (Errorf ''composite sink %q: %d child sink(s) dropped: %s''
               [FStr name, FInt (int (length (dropped_names bs rs))),
                FStr (strings_Join (dropped_names bs rs) '', '')]))"
proof -
  from assms obtain rs where rs: "child_results del bs c ch s = Some (rs, s')"
    and err: "err = (if length (dropped_names bs rs) > 0
                then Some (Errorf ''composite sink %q: %d child sink(s) dropped: %s''
                       [FStr name, FInt (int (length (dropped_names bs rs))),
                        FStr (strings_Join (dropped_names bs rs) '', '')])
                else None)"
    by (auto simp: composite_Publish_def publish_children_eq split: option.splits)
  note len = child_results_length [OF rs]
  with dropped_names_empty [OF len] show ?thesis
    by (intro exI [of _ rs]) (auto simp: rs err)
qed

theorem composite_Publish_contract_witness:
  "\<exists>rs. child_results (\<lambda>r c ch (s :: nat).
      Some (\<lparr>brState = BranchDropped, brAttempts = 1, brErr = Some Canceled\<rparr>, Suc s))
     [\<lparr>brName = ''a'', Wrapped = \<lparr>primary = Driver ''a'', dlq = None, rpCfg = one_try,
       rpTimeout = 0\<rparr>\<rparr>] None toy_change 0 = Some (rs, 1) \<and> length rs = 1 \<and>
    \<not> (\<forall>r\<in>set rs. brState r \<noteq> BranchDropped)"
proof -
  let ?del = "\<lambda>r c ch (s :: nat).
    Some (\<lparr>brState = BranchDropped, brAttempts = 1, brErr = Some Canceled\<rparr>, Suc s)"
  let ?bs = "[\<lparr>brName = ''a'', Wrapped = \<lparr>primary = Driver ''a'', dlq = None, rpCfg = one_try,
    rpTimeout = 0\<rparr>\<rparr>]"
  have "composite_Publish ?del ''c'' ?bs None toy_change 0 =
    Some (Some (Errorf ''composite sink %q: %d child sink(s) dropped: %s''
      [FStr ''c'', FInt 1, FStr ''a'']), 1)"
    by (simp add: composite_Publish_def)
  from composite_Publish_contract [OF this] show ?thesis by simp
qed

text \<open>Publishing returns.  If the wiring has no cycle through children and their dead letters (a
  rank that decreases along both), then fuel above the rank is enough: the call returns, whatever
  the drivers, the context and the retries do.\<close>

lemma Publish_returns:
  assumes "\<And>n b. b \<in> set (branches env n) \<Longrightarrow>
             rank (primary (Wrapped b)) < rank (Composite n) \<and>
             (\<forall>q. dlq (Wrapped b) = Some q \<longrightarrow> rank q < rank (Composite n))"
    and "rank p < k"
  shows "\<exists>err s'. Publish k rt env p c ch s = Some (err, s')"
  using assms(2)
proof (induction k arbitrary: p c ch s)
  case 0
  then show ?case by simp
next
  case (Suc k)
  show ?case
  proof (cases p)
    case (Driver n)
    then show ?thesis by (simp add: prod_eq_iff)
  next
    case (Composite n)
    have tot: "Publish k rt env q c ch s \<noteq> None" if "rank q < k" for q c ch s
      using Suc.IH [OF that] by fastforce
    have "Deliver rt env (Publish k rt env) (Wrapped b) c ch s \<noteq> None"
      if "b \<in> set (branches env n)" for b s
    proof (rule Deliver_total)
      show "Publish k rt env (primary (Wrapped b)) c ch s \<noteq> None" for c ch s
        using assms(1) [OF that] Suc.prems Composite by (intro tot) auto
      show "Publish k rt env q c ch s \<noteq> None" if "dlq (Wrapped b) = Some q" for q c ch s
        using assms(1) [OF \<open>b \<in> set (branches env n)\<close>] that Suc.prems Composite
        by (intro tot) auto
    qed
    then have "child_results (Deliver rt env (Publish k rt env)) (branches env n) c ch s \<noteq> None"
      by (intro child_results_total) blast
    then show ?thesis
      by (auto simp: Composite composite_Publish_def publish_children_eq split: option.split)
  qed
qed

text \<open>A dead letter that leads back into its own composite never returns.  If the first child of
  a composite fails and its dead-letter sink is that composite, no amount of fuel gives a result: the
  program recurses until its stack is exhausted, for every runtime and deadline.\<close>

lemma Publish_cycle_diverges:
  assumes "branches env n = b # bs" "primary (Wrapped b) = Driver m"
    and "dlq (Wrapped b) = Some (Composite n)"
    and "\<And>c ch s. fst (leaf_publish env m c ch s) \<noteq> None"
  shows "Publish k rt env (Composite n) c ch s = None"
proof (induction k arbitrary: c ch s)
  case 0
  then show ?case by simp
next
  case (Suc k)
  have nosuc: "Publish k rt env (Driver m) c ch s \<noteq> Some (None, s')" for c ch s s'
    using assms(4) [of c ch s] by (cases k) (auto simp: prod_eq_iff)
  have "Deliver rt env (Publish k rt env) (Wrapped b) c ch s = None"
  proof (rule ccontr)
    assume "Deliver rt env (Publish k rt env) (Wrapped b) c ch s \<noteq> None"
    then obtain res s' where d: "Deliver rt env (Publish k rt env) (Wrapped b) c ch s = Some (res, s')"
      by (metis not_None_eq prod.collapse)
    define c' where "c' = (if rpTimeout (Wrapped b) > 0
        then WithTimeout rt c (rpTimeout (Wrapped b)) s else c)"
    from d obtain rr s1 where
      do: "DoOpt rt c' (rpCfg (Wrapped b)) (Publish k rt env (Driver m) c' ch) s = Some (rr, s1)"
      by (auto simp: Deliver_def Let_def assms(2) simp flip: c'_def split: option.splits)
    then have "Err rr \<noteq> None" using nosuc by (intro DoOpt_fails) auto
    with d do show False
      by (auto simp: Deliver_def Let_def assms(2,3) Suc.IH simp flip: c'_def split: option.splits)
  qed
  then show ?case by (simp add: composite_Publish_def assms(1))
qed

end
