(* ===== verification/Config.thy ===== *)
theory Config
  imports Prelude
begin

section \<open>The configuration (\<^verbatim>\<open>internal/config/config.go\<close>)\<close>

text \<open>
  One record per struct, in the order of the source; a pointer that may be nil is an option, a map
  the list of its entries in the order an iteration meets them.  A \<^verbatim>\<open>float64\<close> sample rate is a
  rational, or \<open>None\<close> for NaN, which compares false with everything.  The five structs with the
  same TLS fields share the record \<open>pg_tls\<close>.  The catch-all maps \<^verbatim>\<open>Extra\<close>, which nothing reads, are
  left out.
\<close>

subsection \<open>Telemetry\<close>

record LogConfig =
  lg_Level :: string
  lg_Format :: string

record CloudWatchLogsConfig =
  cwl_Enabled :: bool
  cwl_LogGroup :: string
  cwl_LogStream :: string
  cwl_Level :: string
  cwl_BatchInterval :: duration
  cwl_CreateGroup :: bool

record CloudWatchMetricsConfig =
  cwm_Enabled :: bool
  cwm_Namespace :: string
  cwm_Interval :: duration

record TelemetryCloudWatchConfig =
  cw_Enabled :: bool
  cw_Region :: string
  cw_EndpointURL :: string
  cw_Logs :: CloudWatchLogsConfig
  cw_Metrics :: CloudWatchMetricsConfig

record TelemetryPostHogConfig =
  ph_Enabled :: bool
  ph_APIKey :: string
  ph_Endpoint :: string
  ph_DistinctID :: string
  ph_Level :: string
  ph_FlushInterval :: duration

record TelemetrySentryConfig =
  se_Enabled :: bool
  se_DSN :: string
  se_Environment :: string
  se_Release :: string
  se_ServerName :: string
  se_Level :: string
  se_SampleRate :: "rat option"
  se_TracesSampleRate :: "rat option"
  se_Debug :: bool

record TelemetrySignalConfig =
  ts_Enabled :: bool

record TelemetryPrometheusConfig =
  pr_Enabled :: bool
  pr_Listen :: string

record TelemetryGraphiteConfig =
  gr_Enabled :: bool
  gr_Address :: string
  gr_Prefix :: string
  gr_Interval :: duration

record TelemetryConfig =
  tl_ServiceName :: string
  tl_InstanceID :: string
  tl_Traces :: TelemetrySignalConfig
  tl_Metrics :: TelemetrySignalConfig
  tl_Logs :: TelemetrySignalConfig
  tl_Prometheus :: TelemetryPrometheusConfig
  tl_Graphite :: TelemetryGraphiteConfig
  tl_Sentry :: TelemetrySentryConfig
  tl_PostHog :: TelemetryPostHogConfig
  tl_CloudWatch :: TelemetryCloudWatchConfig

subsection \<open>HTTP, retry, runtime\<close>

record RetryConfig =
  rc_MaxAttempts :: int
  rc_BaseDelay :: duration
  rc_MaxDelay :: duration

record HTTPConfig =
  ht_UserAgent :: string
  ht_Timeout :: duration
  ht_Retry :: RetryConfig

record RuntimeConfig =
  rn_ShutdownDrainTimeout :: duration
  rn_RunOnceConcurrency :: int
  rn_DeliverTimeout :: duration

record HeartbeatConfig =
  hb_Enabled :: bool
  hb_Interval :: duration

subsection \<open>Coordination\<close>

record CoordinationAssignmentConfig =
  as_Enabled :: bool
  as_Strategy :: string
  as_HeartbeatInterval :: duration
  as_MemberTTL :: duration
  as_RebalanceGrace :: duration

record CoordinationCosmosDBConfig =
  cc_Endpoint :: string
  cc_ConnectionString :: string
  cc_Database :: string
  cc_Container :: string
  cc_CreateIfMissing :: bool
  cc_Throughput :: int
  cc_LeaseDuration :: duration

record CoordinationDynamoDBConfig =
  cd_Table :: string
  cd_Region :: string
  cd_EndpointURL :: string
  cd_LeaseDuration :: duration

record pg_tls =
  pt_CAFile :: string
  pt_CertFile :: string
  pt_KeyFile :: string
  pt_ServerName :: string
  pt_InsecureSkipVerify :: bool

type_synonym CoordinationPGTLSConfig = pg_tls
type_synonym CoordinationRedisTLSConfig = pg_tls
type_synonym StatePGTLSConfig = pg_tls
type_synonym FeedSourcePGTLSConfig = pg_tls
type_synonym FeedSourceHTTPTLSConfig = pg_tls

record CoordinationPGConfig =
  cp_DSN :: string
  cp_TLS :: CoordinationPGTLSConfig

record CoordinationRedisSentinelConfig =
  rs_MasterName :: string
  rs_Addrs :: "string list"
  rs_Username :: string
  rs_Password :: string
  rs_SentinelUsername :: string
  rs_SentinelPassword :: string
  rs_DB :: int

record CoordinationRedisClusterConfig =
  rcl_Addrs :: "string list"
  rcl_Username :: string
  rcl_Password :: string

record CoordinationRedisConfig =
  rd_Mode :: string
  rd_URL :: string
  rd_LockTTL :: duration
  rd_RenewalInterval :: duration
  rd_TLS :: CoordinationRedisTLSConfig
  rd_Sentinel :: CoordinationRedisSentinelConfig
  rd_Cluster :: CoordinationRedisClusterConfig

record CoordinationConfig =
  co_Driver :: string
  co_Postgres :: CoordinationPGConfig
  co_Redis :: CoordinationRedisConfig
  co_DynamoDB :: CoordinationDynamoDBConfig
  co_CosmosDB :: CoordinationCosmosDBConfig
  co_Assignment :: CoordinationAssignmentConfig

subsection \<open>Health and admin\<close>

record HealthConfig =
  hc_Enabled :: bool
  hc_Listen :: string
  hc_LivenessPath :: string
  hc_ReadinessPath :: string
  hc_StartupPath :: string

record FeedBasicAuthConfig =
  ba_Name :: string
  ba_Username :: string
  ba_Password :: string

record FeedBearerCred =
  bc_Name :: string
  bc_Token :: string

record FeedAPIKeyCred =
  ak_Name :: string
  ak_Key :: string

record AdminTLSConfig =
  at_Enabled :: bool
  at_CertFile :: string
  at_KeyFile :: string
  at_ClientCAFile :: string

record AdminAuthConfig =
  aa_Enabled :: bool
  aa_BasicUsers :: "FeedBasicAuthConfig list"
  aa_BearerTokens :: "FeedBearerCred list"
  aa_APIKeys :: "FeedAPIKeyCred list"
  aa_APIKeyHeader :: string

record AdminCORSConfig =
  ac_AllowedOrigins :: "string list"

record AdminConfig =
  ad_Enabled :: bool
  ad_Listen :: string
  ad_TLS :: AdminTLSConfig
  ad_Auth :: AdminAuthConfig
  ad_CORS :: AdminCORSConfig

definition HasCredentials :: "AdminAuthConfig \<Rightarrow> bool" where
  "HasCredentials a \<longleftrightarrow>
     length (aa_BasicUsers a) > 0 \<or> length (aa_BearerTokens a) > 0 \<or> length (aa_APIKeys a) > 0"

subsection \<open>State\<close>

record PostgresStateConfig =
  ps_DSN :: string
  ps_TLS :: StatePGTLSConfig
  ps_CleanupInterval :: duration

record SQLiteStateConfig =
  sq_Path :: string
  sq_CleanupInterval :: duration

record DynamoDBStateConfig =
  ds_Table :: string
  ds_Region :: string
  ds_EndpointURL :: string
  ds_TTLAttribute :: string

record CosmosDBStateConfig =
  cs_Endpoint :: string
  cs_ConnectionString :: string
  cs_Database :: string
  cs_Container :: string
  cs_CreateIfMissing :: bool
  cs_Throughput :: int

record StateConfig =
  st_Driver :: string
  st_ItemTTL :: duration
  st_Postgres :: PostgresStateConfig
  st_SQLite :: SQLiteStateConfig
  st_DynamoDB :: DynamoDBStateConfig
  st_CosmosDB :: CosmosDBStateConfig

subsection \<open>Sinks\<close>

record SinkTLSConfig =
  tls_Enabled :: bool
  tls_CAFile :: string
  tls_CertFile :: string
  tls_KeyFile :: string
  tls_ServerName :: string
  tls_InsecureSkipVerify :: bool

definition Active :: "SinkTLSConfig \<Rightarrow> bool" where
  "Active t \<longleftrightarrow> tls_Enabled t \<or> tls_CAFile t \<noteq> [] \<or> tls_CertFile t \<noteq> [] \<or> tls_KeyFile t \<noteq> [] \<or>
     tls_ServerName t \<noteq> [] \<or> tls_InsecureSkipVerify t"

record GRPCSinkConfig =
  gp_Target :: string
  gp_Authority :: string
  gp_Timeout :: duration
  gp_Metadata :: "(string \<times> string) list"
  gp_TLS :: SinkTLSConfig

record HTTPSinkConfig =
  hs_URL :: string
  hs_Method :: string
  hs_Headers :: "(string \<times> string) list"
  hs_Timeout :: duration
  hs_SuccessCodes :: "int list"
  hs_TLS :: SinkTLSConfig
  hs_HTTP3 :: bool

record FeedAuthConfig =
  fa_Disabled :: bool
  fa_BasicUsers :: "FeedBasicAuthConfig list"
  fa_BearerTokens :: "FeedBearerCred list"
  fa_APIKeys :: "FeedAPIKeyCred list"
  fa_APIKeyHeader :: string

definition HasMethods :: "FeedAuthConfig \<Rightarrow> bool" where
  "HasMethods a \<longleftrightarrow>
     length (fa_BasicUsers a) > 0 \<or> length (fa_BearerTokens a) > 0 \<or> length (fa_APIKeys a) > 0"

record FeedSurfaceConfig =
  su_Enabled :: "bool option"
  su_Path :: string
  su_Auth :: "FeedAuthConfig option"

definition surface_On :: "FeedSurfaceConfig \<Rightarrow> bool \<Rightarrow> bool" where
  "surface_On s def = (case su_Enabled s of None \<Rightarrow> def | Some b \<Rightarrow> b)"

definition PathOr :: "FeedSurfaceConfig \<Rightarrow> string \<Rightarrow> string" where
  "PathOr s def = (if su_Path s = [] then def else su_Path s)"

record FeedTimeoutsConfig =
  ft_ReadHeader :: duration
  ft_Read :: duration
  ft_Write :: duration
  ft_Idle :: duration
  ft_Shutdown :: duration

record FeedTLSConfig =
  fl_CertFile :: string
  fl_KeyFile :: string

record FeedStoreSQLiteConfig =
  fsq_Path :: string

record FeedStorePostgresConfig =
  fsp_DSN :: string
  fsp_Table :: string
  fsp_TLS :: StatePGTLSConfig

record FeedStoreConfig =
  fs_Driver :: string
  fs_SQLite :: FeedStoreSQLiteConfig
  fs_Postgres :: FeedStorePostgresConfig

record FeedSinkConfig =
  fk_Listen :: string
  fk_PublicURL :: string
  fk_Title :: string
  fk_Link :: string
  fk_Description :: string
  fk_MaxItems :: int
  fk_RSS :: FeedSurfaceConfig
  fk_Atom :: FeedSurfaceConfig
  fk_MCP :: FeedSurfaceConfig
  fk_RenderCacheTTL :: duration
  fk_CacheControlTTL :: duration
  fk_Timeouts :: FeedTimeoutsConfig
  fk_TLS :: FeedTLSConfig
  fk_HTTP3 :: bool
  fk_TrustedProxies :: "string list"
  fk_Auth :: FeedAuthConfig
  fk_Store :: FeedStoreConfig

definition EffectiveAuth :: "FeedSinkConfig \<Rightarrow> FeedSurfaceConfig \<Rightarrow> FeedAuthConfig" where
  "EffectiveAuth f s = (case su_Auth s of Some a \<Rightarrow> a | None \<Rightarrow> fk_Auth f)"

record CompositeSinkConfig =
  cm_Children :: "string list"

record StdoutSinkConfig =
  so_Target :: string
  so_Format :: string

record AMQP091SinkConfig =
  aq_URL :: string
  aq_Exchange :: string
  aq_ExchangeType :: string
  aq_RoutingKey :: string
  aq_Declare :: bool
  aq_Durable :: bool
  aq_Mandatory :: bool
  aq_TLS :: SinkTLSConfig

record AMQP10SinkConfig =
  a1_URL :: string
  a1_Target :: string
  a1_Username :: string
  a1_Password :: string
  a1_TLS :: SinkTLSConfig

record RabbitMQStreamSinkConfig =
  rq_URIs :: "string list"
  rq_URL :: string
  rq_Stream :: string
  rq_Username :: string
  rq_Password :: string
  rq_Declare :: bool
  rq_MaxAge :: duration
  rq_MaxLengthBytes :: int
  rq_TLS :: SinkTLSConfig

record PostgresSinkConfig =
  pk_DSN :: string
  pk_Table :: string
  pk_TLS :: SinkTLSConfig

record SchemaRegistryBasicAuth =
  sb_Username :: string
  sb_Password :: string

record SchemaRegistryConfig =
  sr_URL :: string
  sr_Format :: string
  sr_Subject :: string
  sr_AutoRegister :: "bool option"
  sr_SchemaFile :: string
  sr_BasicAuth :: SchemaRegistryBasicAuth
  sr_TLS :: SinkTLSConfig

record KafkaSinkConfig =
  kf_Brokers :: "string list"
  kf_Topic :: string
  kf_Acks :: string
  kf_Compression :: string
  kf_TLS :: SinkTLSConfig
  kf_SchemaRegistry :: SchemaRegistryConfig

record SQSSinkConfig =
  qs_QueueURL :: string
  qs_Region :: string
  qs_EndpointURL :: string
  qs_MessageGroup :: string

record SNSSinkConfig =
  sn_TopicARN :: string
  sn_Region :: string
  sn_EndpointURL :: string
  sn_MessageGroup :: string

record DynamoDBSinkConfig =
  dy_Table :: string
  dy_Region :: string
  dy_EndpointURL :: string
  dy_PartitionKey :: string
  dy_SortKey :: string
  dy_TTLAttribute :: string
  dy_ItemTTL :: duration

record GCPPubSubSinkConfig =
  gc_ProjectID :: string
  gc_TopicID :: string
  gc_Endpoint :: string
  gc_OrderingKey :: string

record AzureServiceBusSinkConfig =
  az_ConnectionString :: string
  az_Namespace :: string
  az_Queue :: string
  az_Topic :: string

record CosmosDBSinkConfig =
  cb_Endpoint :: string
  cb_ConnectionString :: string
  cb_Database :: string
  cb_Container :: string
  cb_CreateIfMissing :: bool
  cb_Throughput :: int

record DaprPubSubSinkConfig =
  dp_Address :: string
  dp_PubsubName :: string
  dp_Topic :: string
  dp_ContentType :: string
  dp_Metadata :: "(string \<times> string) list"

record NATSSinkConfig =
  na_URL :: string
  na_Subject :: string
  na_Token :: string
  na_Username :: string
  na_Password :: string
  na_CredsFile :: string
  na_JetStream :: bool
  na_TLS :: SinkTLSConfig

record SinkConfig =
  sc_Name :: string
  sc_Driver :: string
  sc_DeadLetter :: string
  sc_Postgres :: PostgresSinkConfig
  sc_Kafka :: KafkaSinkConfig
  sc_AMQP091 :: AMQP091SinkConfig
  sc_AMQP10 :: AMQP10SinkConfig
  sc_RabbitMQStream :: RabbitMQStreamSinkConfig
  sc_SQS :: SQSSinkConfig
  sc_SNS :: SNSSinkConfig
  sc_DynamoDB :: DynamoDBSinkConfig
  sc_Stdout :: StdoutSinkConfig
  sc_HTTP :: HTTPSinkConfig
  sc_Feed :: FeedSinkConfig
  sc_Composite :: CompositeSinkConfig
  sc_GCPPubSub :: GCPPubSubSinkConfig
  sc_AzureServiceBus :: AzureServiceBusSinkConfig
  sc_CosmosDB :: CosmosDBSinkConfig
  sc_DaprPubSub :: DaprPubSubSinkConfig
  sc_NATS :: NATSSinkConfig
  sc_GRPC :: GRPCSinkConfig

subsection \<open>Feeds and feed sources\<close>

record KubernetesFeedSourceConfig =
  kb_Namespace :: string
  kb_Kubeconfig :: string
  kb_LabelSelector :: string
  kb_ResyncInterval :: duration
  kb_WriteStatus :: "bool option"

record PostgresFeedSourceConfig =
  fp_DSN :: string
  fp_Table :: string
  fp_Query :: string
  fp_TLS :: FeedSourcePGTLSConfig

record HTTPFeedSourceConfig =
  fh_URL :: string
  fh_Timeout :: duration
  fh_Headers :: "(string \<times> string) list"
  fh_TLS :: FeedSourceHTTPTLSConfig

record FeedSourceConfig =
  fo_Type :: string
  fo_Name :: string
  fo_Path :: string
  fo_Interval :: duration
  fo_Postgres :: PostgresFeedSourceConfig
  fo_HTTP :: HTTPFeedSourceConfig
  fo_Kubernetes :: KubernetesFeedSourceConfig

record FeedHTTPConfig =
  fd_Timeout :: duration
  fd_Headers :: "(string \<times> string) list"
  fd_Retry :: RetryConfig

record FeedConfig =
  fc_URL :: string
  fc_Interval :: duration
  fc_Sinks :: "string list"
  fc_HTTP :: FeedHTTPConfig

record Config =
  cf_Log :: LogConfig
  cf_Telemetry :: TelemetryConfig
  cf_HTTP :: HTTPConfig
  cf_Retry :: RetryConfig
  cf_Runtime :: RuntimeConfig
  cf_Heartbeat :: HeartbeatConfig
  cf_Coordination :: CoordinationConfig
  cf_State :: StateConfig
  cf_Health :: HealthConfig
  cf_Admin :: AdminConfig
  cf_Sinks :: "SinkConfig list"
  cf_Feeds :: "FeedConfig list"
  cf_FeedSources :: "FeedSourceConfig list"

end
