(* ===== verification/Frames.thy ===== *)
theory Frames
  imports Sink Feed_Fetch
begin

section \<open>Frame conditions\<close>

text \<open>
  Sinks, HTTP servers, timers and coordinators live beside the tables of the state store.  A
  preorder \<open>R\<close> on worlds that every step of theirs respects (for instance: the tables are the same)
  is respected by every composition the code makes of such steps: by \<^verbatim>\<open>retry.Do\<close>, by a fetch, by a
  delivery with its dead letter and by a composite fan-out of any depth.
\<close>

lemma do_loop_inv:
  assumes "\<And>s. P s \<Longrightarrow> P (snd (fn s))" "\<And>c d s. P s \<Longrightarrow> P (snd (ctx_wait rt c d s))"
    and "\<And>n s. P s \<Longrightarrow> P (snd (rand_Int64N rt n s))" "P s"
  shows "P (snd (do_loop rt c cfg fn a le s))"
  using assms
proof (induction rt c cfg fn a le s rule: do_loop.induct)
  case (1 rt c cfg fn a le s)
  obtain e s1 where fn: "fn s = (e, s1)" by fastforce
  with "1.prems"(1) [OF "1.prems"(4)] have p1: "P s1" by simp
  obtain d s2 where dl: "delayFor rt cfg a s1 = (d, s2)" by fastforce
  then have p2: "P s2"
    using "1.prems"(3) [OF p1] p1 by (auto simp: delayFor_def Let_def split: if_splits) (metis snd_conv)
  obtain b s3 where w: "ctx_wait rt c d s2 = (b, s3)" by fastforce
  then have p3: "P s3" using "1.prems"(2) [OF p2, of c d] by simp
  show ?case
    unfolding do_loop.simps [of rt c cfg fn a le s]
    using "1.IH" "1.prems" by (auto simp: fn dl w p1 p3 split: option.split bool.split)
qed

locale world_frame =
  fixes R :: "'s \<Rightarrow> 's \<Rightarrow> bool"
    and rt :: "'s runtime"
  assumes R_refl: "R s s"
    and R_trans: "R s1 s2 \<Longrightarrow> R s2 s3 \<Longrightarrow> R s1 s3"
    and R_wait: "R s (snd (ctx_wait rt c d s))"
    and R_rand: "R s (snd (rand_Int64N rt n s))"
begin

text \<open>The operation may carry a variable of its own beside the world.\<close>

lemma Do_frame:
  assumes "\<And>s x. R s (fst (snd (fn (s, x))))"
  shows "R s (fst (snd (Do (lift_rt rt) c cfg fn (s, x))))"
proof -
  let ?P = "\<lambda>sx. R s (fst sx)"
  have "?P (snd (do_loop (lift_rt rt) c (withDefaults cfg) fn 1 None (s, x)))"
  proof (rule do_loop_inv [where P = ?P])
    show "?P (snd (fn sx))" if "?P sx" for sx
      using that assms [of "fst sx" "snd sx"] R_trans by auto
    show "?P (snd (ctx_wait (lift_rt rt) c d sx))" if "?P sx" for c d sx
      using that R_wait [of "fst sx" c d] R_trans by (cases sx) (auto simp: lift_rt_def split: prod.splits)
    show "?P (snd (rand_Int64N (lift_rt rt) n sx))" if "?P sx" for n sx
      using that R_rand [of "fst sx" n] R_trans by (cases sx) (auto simp: lift_rt_def split: prod.splits)
  qed (simp add: R_refl)
  then show ?thesis by (simp add: Do_def)
qed

lemma DoOpt_frame:
  assumes "\<And>s r s'. f s = Some (r, s') \<Longrightarrow> R s s'" "DoOpt rt c cfg f s = Some (r, s')"
  shows "R s s'"
proof -
  let ?P = "\<lambda>so. case so of None \<Rightarrow> True | Some s' \<Rightarrow> R s s'"
  have "?P (snd (do_loop (opt_rt rt) c (withDefaults cfg) (opt_fn f) 1 None (Some s)))"
  proof (rule do_loop_inv [where P = ?P])
    show "?P (snd (opt_fn f so))" if "?P so" for so
      using that assms(1) R_trans by (auto simp: opt_fn_def split: option.splits)
    show "?P (snd (ctx_wait (opt_rt rt) c d so))" if "?P so" for c d so
      using that R_trans R_wait by (auto simp: opt_rt_def split: option.splits prod.splits) (metis snd_conv)
    show "?P (snd (rand_Int64N (opt_rt rt) n so))" if "?P so" for n so
      using that R_trans R_rand by (auto simp: opt_rt_def split: option.splits prod.splits) (metis snd_conv)
  qed (simp add: R_refl)
  with assms(2) show ?thesis by (auto simp: DoOpt_def Do_def split: prod.splits option.splits)
qed

lemma Deliver_frame:
  assumes pub: "\<And>p c ch s e s'. pub p c ch s = Some (e, s') \<Longrightarrow> R s s'"
    and "Deliver rt env pub r c ch s = Some (res, s')"
  shows "R s s'"
proof -
  define c' where "c' = (if rpTimeout r > 0 then WithTimeout rt c (rpTimeout r) s else c)"
  from assms(2) obtain rr s1 where d: "DoOpt rt c' (rpCfg r) (pub (primary r) c' ch) s = Some (rr, s1)"
    by (auto simp: Deliver_def Let_def simp flip: c'_def split: option.splits)
  have "R s s1" using DoOpt_frame [OF pub d] .
  moreover have "R s1 s'"
    using assms(2) d
    by (auto simp: Deliver_def Let_def R_refl simp flip: c'_def split: option.splits dest: pub)
  ultimately show ?thesis by (rule R_trans)
qed

lemma child_results_frame:
  assumes "\<And>r c ch s res s'. del r c ch s = Some (res, s') \<Longrightarrow> R s s'"
  shows "child_results del bs c ch s = Some (rs, s') \<Longrightarrow> R s s'"
proof (induction bs arbitrary: s rs)
  case Nil
  then show ?case by (simp add: R_refl)
next
  case (Cons b bs)
  then show ?case by (auto split: option.splits dest!: assms intro: R_trans)
qed

lemma Publish_frame:
  assumes leaf: "\<And>n c ch s. R s (snd (leaf_publish env n c ch s))"
  shows "Publish k rt env p c ch s = Some (e, s') \<Longrightarrow> R s s'"
proof (induction k arbitrary: p c ch s e s')
  case 0
  then show ?case by simp
next
  case (Suc k)
  show ?case
  proof (cases p)
    case (Driver n)
    with Suc.prems leaf [of s n c ch] show ?thesis by auto
  next
    case (Composite n)
    with Suc.prems obtain rs where
      "child_results (Deliver rt env (Publish k rt env)) (branches env n) c ch s = Some (rs, s')"
      by (auto simp: composite_Publish_def publish_children_eq split: option.splits)
    then show ?thesis using Deliver_frame [OF Suc.IH] by (rule child_results_frame [rotated])
  qed
qed

lemma Fetch_frame:
  assumes "\<And>c rq s. R s (snd (http_do env c rq s))" "\<And>c b s. R s (snd (parse_feed env c b s))"
  shows "R s (snd (snd (Fetch rt env opts c fr s)))"
proof (cases "new_request env (frURL fr)")
  case (Some e)
  then show ?thesis by (simp add: Fetch_def Let_def R_refl)
next
  case None
  define c' where "c' = WithTimeout rt c (if frTimeout fr > 0 then frTimeout fr else Timeout opts) s"
  define rq where "rq = \<lparr>rqURL = frURL fr,
    rqHeader = override_headers (frHeaders fr) (default_headers env opts fr)\<rparr>"
  obtain r s1 where h: "http_do env c' rq s = (r, s1)" by fastforce
  with assms(1) [of s c' rq] have r1: "R s s1" by simp
  have cl: "R s (snd (snd (classify_response env c'' resp s1)))" for c'' resp
    using assms(2) [of s1 c'' "rsBody resp"] r1 R_trans [OF r1]
    by (auto simp: classify_response_def Let_def split: sum.split prod.split)
  have "Fetch rt env opts c fr s = (case r of
      Inl err \<Rightarrow> (zero_result, Some (FetchError ''transport'' 0 (Errorf ''http get: %w'' [FWrap err])), s1)
    | Inr resp \<Rightarrow> classify_response env c' resp s1)"
    using None h by (simp add: Fetch_def Let_def c'_def rq_def split: sum.split)
  with cl r1 show ?thesis by (cases r) simp_all
qed

end

end
