(* ===== verification/Pipeline.thy ===== *)
theory Pipeline
  imports Feed_Detect Frames Config
begin

section \<open>One poll of one feed (\<^verbatim>\<open>cmd/rss2msg/pipeline.go\<close>)\<close>

text \<open>
  \<open>RunOnce\<close> strings the components together: acquire the lease of the feed, read its cache
  validators, fetch under retry, store the new validators, detect the changes, deliver each to every
  sink, and record an item as seen only when no sink dropped it.  Tracing and metrics are left out;
  what the code logs of each delivery is returned as the list \<open>outcome\<close>.  \<open>None\<close> means that a
  delivery did not return (see theory \<open>Sink\<close>).
\<close>

type_synonym 's ReleaseFunc = "ctx \<Rightarrow> 's \<Rightarrow> go_error option \<times> 's"

text \<open>The interface of \<^verbatim>\<open>internal/coord/coord.go\<close>: \<^verbatim>\<open>(release, true, nil)\<close> is \<open>Inr (Some release)\<close>,
  \<^verbatim>\<open>(nil, false, nil)\<close> is \<open>Inr None\<close>.\<close>

record 's Coordinator =
  TryAcquire :: "ctx \<Rightarrow> string \<Rightarrow> 's \<Rightarrow> 's ReleaseFunc option result \<times> 's"

text \<open>\<^verbatim>\<open>internal/coord/memory\<close>: the lease is always granted and there is nothing to release.\<close>

definition memory_coordinator :: "'s Coordinator" where
  "memory_coordinator = \<lparr>TryAcquire = (\<lambda>c u s. (Inr (Some (\<lambda>c' s'. (None, s'))), s))\<rparr>"

record sinkBranch =
  sbName :: string
  sbWrapped :: RetryingPublisher

record 's pipeline =
  plCfg :: FeedConfig
  plSinks :: "sinkBranch list"
  plFetcher :: Options
  plHTTP :: "'s http_env"
  plStore :: "'s Store"
  plCoord :: "'s Coordinator"
  plFetchRetry :: retry_config
  plSha :: "string \<Rightarrow> string"

record outcome =
  ocChange :: change
  ocResults :: "(string \<times> BranchResult) list"
  ocCommit :: "go_error option option"  \<comment> \<open>\<open>Some r\<close>: \<^verbatim>\<open>UpsertItem\<close> was called and returned \<open>r\<close>\<close>

type_synonym 's deliver_fn =
  "RetryingPublisher \<Rightarrow> ctx \<Rightarrow> change \<Rightarrow> 's \<Rightarrow> (BranchResult \<times> 's) option"

fun deliver_branches ::
    "'s deliver_fn \<Rightarrow> sinkBranch list \<Rightarrow> ctx \<Rightarrow> change \<Rightarrow> bool \<Rightarrow> 's \<Rightarrow>
     (bool \<times> (string \<times> BranchResult) list \<times> 's) option" where
  "deliver_branches del [] c ch allOK s = Some (allOK, [], s)"
| "deliver_branches del (b # bs) c ch allOK s =
     (case del (sbWrapped b) c ch s of
        None \<Rightarrow> None
      | Some (r, s1) \<Rightarrow>
          (case deliver_branches del bs c ch
                  (if brState r = BranchDropped then False else allOK) s1 of
             None \<Rightarrow> None
           | Some (ok, rs, s2) \<Rightarrow> Some (ok, (sbName b, r) # rs, s2)))"

fun publish_changes ::
    "'s deliver_fn \<Rightarrow> 's Store \<Rightarrow> sinkBranch list \<Rightarrow> ctx \<Rightarrow> string \<Rightarrow> change list \<Rightarrow> 's \<Rightarrow>
     (outcome list \<times> 's) option" where
  "publish_changes del st bs c feedURL [] s = Some ([], s)"
| "publish_changes del st bs c feedURL (ch # chs) s =
     (case deliver_branches del bs c ch True s of
        None \<Rightarrow> None
      | Some (allOK, rs, s1) \<Rightarrow>
          (case (if allOK
                 then (case UpsertItem st c feedURL (ItemID ch) (ContentHashOf ch) (DetectedAt ch) s1 of
                         (err, s2) \<Rightarrow> (Some err, s2))
                 else (None, s1)) of
             (commit, s2) \<Rightarrow>
               (case publish_changes del st bs c feedURL chs s2 of
                  None \<Rightarrow> None
                | Some (ocs, s3) \<Rightarrow>
                    Some (\<lparr>ocChange = ch, ocResults = rs, ocCommit = commit\<rparr> # ocs, s3))))"

text \<open>The closure passed to \<^verbatim>\<open>retry.Do\<close> assigns the captured variable \<^verbatim>\<open>res\<close>.\<close>

definition fetch_attempt ::
    "'s runtime \<Rightarrow> 's pipeline \<Rightarrow> ctx \<Rightarrow> string \<Rightarrow> FeedMeta \<Rightarrow> 's \<times> FetchResult \<Rightarrow>
     go_error option \<times> ('s \<times> FetchResult)" where
  "fetch_attempt rt p c feedURL meta =
     (\<lambda>(s, res0).
        case Fetch rt (plHTTP p) (plFetcher p) c
               \<lparr>frURL = feedURL, frHeaders = fd_Headers (fc_HTTP (plCfg p)),
                frTimeout = fd_Timeout (fc_HTTP (plCfg p)), frETag = ETagM meta,
                frLastModified = LastModifiedM meta\<rparr> s of
          (res, err, s1) \<Rightarrow> (err, (s1, res)))"

definition poll_body ::
    "'s runtime \<Rightarrow> 's deliver_fn \<Rightarrow> 's pipeline \<Rightarrow> ctx \<Rightarrow> string \<Rightarrow> time \<Rightarrow> 's \<Rightarrow>
     ((change list result \<times> outcome list) \<times> 's) option" where
  "poll_body rt del p c feedURL when s =
     (case GetFeedMeta (plStore p) c feedURL s of
        (Inl err, s1) \<Rightarrow> Some ((Inl err, []), s1)
      | (Inr m, s1) \<Rightarrow>
          (let meta = (case m of Some x \<Rightarrow> x | None \<Rightarrow> zero_meta)
           in case Do (lift_rt rt) c (plFetchRetry p) (fetch_attempt rt p c feedURL meta)
                     (s1, zero_result) of
                (rr, (s2, res)) \<Rightarrow>
                  (case Err rr of
                     Some err \<Rightarrow> Some ((Inl err, []), s2)
                   | None \<Rightarrow>
                       if NotModified res then Some ((Inr [], []), s2)
                       else (case UpsertFeedMeta (plStore p) c feedURL
                                    \<lparr>ETagM = resETag res, LastModifiedM = resLastModified res\<rparr> s2 of
                               (_, s3) \<Rightarrow>
                                 (case Detect (plSha p) (plStore p) c feedURL (Feed res) when s3 of
                                    (Inl err, s4) \<Rightarrow> Some ((Inl err, []), s4)
                                  | (Inr changes, s4) \<Rightarrow>
                                      (case publish_changes del (plStore p) (plSinks p) c feedURL
                                              changes s4 of
                                         None \<Rightarrow> None
                                       | Some (ocs, s5) \<Rightarrow> Some ((Inr changes, ocs), s5)))))))"

definition RunOnce ::
    "'s runtime \<Rightarrow> 's deliver_fn \<Rightarrow> 's pipeline \<Rightarrow> ctx \<Rightarrow> string \<Rightarrow> time \<Rightarrow> 's \<Rightarrow>
     ((change list result \<times> outcome list) \<times> 's) option" where
  "RunOnce rt del p c feedURL when s =
     (case TryAcquire (plCoord p) c feedURL s of
        (Inl err, s1) \<Rightarrow> Some ((Inr [], []), s1)
      | (Inr None, s1) \<Rightarrow> Some ((Inr [], []), s1)
      | (Inr (Some release), s1) \<Rightarrow>
          (case poll_body rt del p c feedURL when s1 of
             None \<Rightarrow> None
           | Some (r, s2) \<Rightarrow> (case release c s2 of (_, s3) \<Rightarrow> Some (r, s3))))"


subsection \<open>A poll returns when its deliveries do\<close>

lemma deliver_branches_total:
  assumes "\<And>b s. b \<in> set bs \<Longrightarrow> del (sbWrapped b) c ch s \<noteq> None"
  shows "deliver_branches del bs c ch ok s \<noteq> None"
  using assms by (induction del bs c ch ok s rule: deliver_branches.induct) (fastforce split: option.splits)+

lemma publish_changes_total:
  assumes "\<And>b ch s. b \<in> set bs \<Longrightarrow> del (sbWrapped b) c ch s \<noteq> None"
  shows "publish_changes del st bs c u chs s \<noteq> None"
proof (induction chs arbitrary: s)
  case (Cons ch chs)
  have "deliver_branches del bs c ch True s \<noteq> None"
    by (rule deliver_branches_total) (rule assms)
  then obtain ok rs s1 where "deliver_branches del bs c ch True s = Some (ok, rs, s1)"
    by (metis not_None_eq prod.collapse)
  then show ?case by (simp add: Cons.IH del: not_None_eq split: option.split prod.split)
qed simp

lemma poll_body_total:
  assumes "\<And>b ch s. b \<in> set (plSinks p) \<Longrightarrow> del (sbWrapped b) c ch s \<noteq> None"
  shows "poll_body rt del p c u when s \<noteq> None"
proof -
  have tot: "publish_changes del (plStore p) (plSinks p) c u chs s \<noteq> None" for chs s
    by (rule publish_changes_total) (rule assms)
  show ?thesis
    unfolding poll_body_def Let_def
    by (simp add: tot del: not_None_eq split: option.split sum.split prod.split)
qed

lemma RunOnce_total:
  assumes "\<And>b c ch s. b \<in> set (plSinks p) \<Longrightarrow> del (sbWrapped b) c ch s \<noteq> None"
  shows "RunOnce rt del p c u when s \<noteq> None"
proof -
  have tot: "poll_body rt del p c u when s \<noteq> None" for s
    by (rule poll_body_total) (rule assms)
  show ?thesis
    unfolding RunOnce_def
    by (simp add: tot del: not_None_eq split: option.split sum.split prod.split)
qed

subsection \<open>What a poll does to the store\<close>

text \<open>The store's items after a list of outcomes: each successful commit sets one row.\<close>

fun commits ::
    "string \<Rightarrow> outcome list \<Rightarrow> (string \<times> string \<Rightarrow> ItemState option) \<Rightarrow>
     string \<times> string \<Rightarrow> ItemState option" where
  "commits u [] m = m"
| "commits u (oc # ocs) m =
     commits u ocs
       (if ocCommit oc = Some None
        then m((u, ItemID (ocChange oc)) \<mapsto> \<lparr>ContentHashS = ContentHashOf (ocChange oc),
                                             LastSeenAt = DetectedAt (ocChange oc)\<rparr>)
        else m)"

definition no_drop :: "outcome \<Rightarrow> bool" where
  "no_drop oc \<longleftrightarrow> (\<forall>(n, r)\<in>set (ocResults oc). brState r \<noteq> BranchDropped)"

definition outcome_ok :: "sinkBranch list \<Rightarrow> outcome \<Rightarrow> bool" where
  "outcome_ok bs oc \<longleftrightarrow> map fst (ocResults oc) = map sbName bs \<and> (ocCommit oc \<noteq> None \<longleftrightarrow> no_drop oc)"

lemma deliver_branches_spec:
  "deliver_branches del bs c ch ok s = Some (ok', rs, s') \<Longrightarrow>
     map fst rs = map sbName bs \<and>
     (ok' \<longleftrightarrow> ok \<and> (\<forall>(n, r)\<in>set rs. brState r \<noteq> BranchDropped))"
  by (induction bs arbitrary: ok s rs) (fastforce split: option.splits if_splits)+

text \<open>A commit of an item whose outcome is not among the commits leaves its row as it was.\<close>

lemma commits_other:
  "(\<And>oc. oc \<in> set ocs \<Longrightarrow> ocCommit oc = Some None \<Longrightarrow> (u, ItemID (ocChange oc)) \<noteq> k) \<Longrightarrow>
     commits u ocs m k = m k"
  by (induction ocs arbitrary: m) auto

lemma commits_changed:
  "commits u ocs m k \<noteq> m k \<Longrightarrow>
     \<exists>oc\<in>set ocs. ocCommit oc = Some None \<and> k = (u, ItemID (ocChange oc)) \<and>
       commits u ocs m k = Some \<lparr>ContentHashS = ContentHashOf (ocChange oc),
                                  LastSeenAt = DetectedAt (ocChange oc)\<rparr>"
proof (induction ocs arbitrary: m)
  case Nil
  then show ?case by simp
next
  case (Cons oc ocs)
  let ?m = "if ocCommit oc = Some None
        then m((u, ItemID (ocChange oc)) \<mapsto> \<lparr>ContentHashS = ContentHashOf (ocChange oc),
                                             LastSeenAt = DetectedAt (ocChange oc)\<rparr>) else m"
  show ?case
  proof (cases "commits u ocs ?m k = ?m k")
    case True
    with Cons.prems show ?thesis by (auto split: if_splits)
  next
    case False
    from Cons.IH [OF this] show ?thesis by auto
  qed
qed

lemma commits_set:
  assumes "distinct (map (ItemID \<circ> ocChange) ocs)" "oc \<in> set ocs"
  shows "commits u ocs m (u, ItemID (ocChange oc)) =
    (if ocCommit oc = Some None
     then Some \<lparr>ContentHashS = ContentHashOf (ocChange oc), LastSeenAt = DetectedAt (ocChange oc)\<rparr>
     else m (u, ItemID (ocChange oc)))"
  using assms
proof (induction ocs arbitrary: m)
  case Nil
  then show ?case by simp
next
  case (Cons o1 ocs)
  show ?case
  proof (cases "oc = o1")
    case True
    have "commits u ocs m' (u, ItemID (ocChange o1)) = m' (u, ItemID (ocChange o1))" for m'
      using Cons.prems(1) by (intro commits_other) (auto simp: image_iff)
    with True show ?thesis by simp
  next
    case False
    with Cons.prems have "oc \<in> set ocs" "ItemID (ocChange oc) \<noteq> ItemID (ocChange o1)"
      by (auto simp: image_iff)
    with Cons.IH Cons.prems(1) show ?thesis by simp
  qed
qed

definition same_store ::
    "('s \<Rightarrow> bool) \<Rightarrow> ('s \<Rightarrow> string \<times> string \<Rightarrow> ItemState option) \<Rightarrow>
     ('s \<Rightarrow> string \<Rightarrow> FeedMeta option) \<Rightarrow> 's \<Rightarrow> 's \<Rightarrow> bool" where
  "same_store ok its mts s s' \<longleftrightarrow>
     (ok s \<longrightarrow> ok s') \<and> its s' = its s \<and> mts s' = mts s"

text \<open>
  The world of a poll: a store that keeps its promise, and everything else of the world respecting
  the tables.
\<close>

locale poll_world = state_store st inv items metas expired
    + world_frame "same_store inv items metas" rt
  for st :: "'s Store" and inv :: "'s \<Rightarrow> bool"
    and items :: "'s \<Rightarrow> string \<times> string \<Rightarrow> ItemState option"
    and metas :: "'s \<Rightarrow> string \<Rightarrow> FeedMeta option"
    and expired :: "time \<Rightarrow> time \<Rightarrow> bool" and rt :: "'s runtime" +
  fixes henv :: "'s http_env" and senv :: "'s sink_env" and co :: "'s Coordinator"
  assumes frame_http: "same_store inv items metas s (snd (http_do henv c rq s))"
    and frame_parse: "same_store inv items metas s (snd (parse_feed henv c b s))"
    and frame_leaf: "same_store inv items metas s (snd (leaf_publish senv n c ch s))"
    and frame_acquire: "same_store inv items metas s (snd (TryAcquire co c u s))"
    and frame_release: "TryAcquire co c u s = (Inr (Some release), s1) \<Longrightarrow>
          same_store inv items metas s2 (snd (release c' s2))"
begin

lemma deliver_branches_frame:
  "deliver_branches (Deliver rt senv (Publish k rt senv)) bs c ch ok s = Some (ok', rs, s') \<Longrightarrow>
     same_store inv items metas s s'"
proof (induction bs arbitrary: ok s rs)
  case Nil
  then show ?case by (simp add: R_refl)
next
  case (Cons b bs)
  from Cons.prems obtain r s1 ok1 rs1 where
    d: "Deliver rt senv (Publish k rt senv) (sbWrapped b) c ch s = Some (r, s1)"
    and rest: "deliver_branches (Deliver rt senv (Publish k rt senv)) bs c ch ok1 s1 = Some (ok', rs1, s')"
    by (auto split: option.splits)
  from Deliver_frame [OF Publish_frame [OF frame_leaf] d] Cons.IH [OF rest] show ?case
    by (rule R_trans)
qed

lemma publish_changes_spec:
  assumes "publish_changes (Deliver rt senv (Publish k rt senv)) st bs c u chs s = Some (ocs, s')"
    and "inv s"
  shows "inv s' \<and> metas s' = metas s \<and> items s' = commits u ocs (items s) \<and>
         map ocChange ocs = chs \<and> (\<forall>oc\<in>set ocs. outcome_ok bs oc)"
  using assms
proof (induction chs arbitrary: s ocs)
  case Nil
  then show ?case by simp
next
  case (Cons ch chs)
  let ?del = "Deliver rt senv (Publish k rt senv)"
  from Cons.prems(1) obtain ok rs s1 where
    d: "deliver_branches ?del bs c ch True s = Some (ok, rs, s1)" by (auto split: option.splits)
  note fr = deliver_branches_frame [OF d, unfolded same_store_def]
  note sp = deliver_branches_spec [OF d]
  define commit s2 where "commit = (if ok then Some (fst (UpsertItem st c u (ItemID ch)
      (ContentHashOf ch) (DetectedAt ch) s1)) else None)"
    and "s2 = (if ok then snd (UpsertItem st c u (ItemID ch) (ContentHashOf ch) (DetectedAt ch) s1)
      else s1)"
  from Cons.prems(1) d obtain ocs' where
    rest: "publish_changes ?del st bs c u chs s2 = Some (ocs', s')"
    and ocs: "ocs = \<lparr>ocChange = ch, ocResults = rs, ocCommit = commit\<rparr> # ocs'"
    by (auto simp: commit_def s2_def split: option.splits prod.splits if_splits)
  have inv1: "inv s1" using fr Cons.prems(2) by simp
  have s2: "inv s2 \<and> metas s2 = metas s \<and> items s2 = (if commit = Some None
      then (items s)((u, ItemID ch) \<mapsto> \<lparr>ContentHashS = ContentHashOf ch, LastSeenAt = DetectedAt ch\<rparr>)
      else items s)"
    using upsert_item [OF inv1, of c u "ItemID ch" "ContentHashOf ch" "DetectedAt ch"
        "fst (UpsertItem st c u (ItemID ch) (ContentHashOf ch) (DetectedAt ch) s1)"
        "snd (UpsertItem st c u (ItemID ch) (ContentHashOf ch) (DetectedAt ch) s1)"] fr inv1
    by (auto simp: s2_def commit_def)
  have "outcome_ok bs \<lparr>ocChange = ch, ocResults = rs, ocCommit = commit\<rparr>"
    using sp by (auto simp: outcome_ok_def no_drop_def commit_def)
  with Cons.IH [OF rest] s2 show ?case by (simp add: ocs)
qed


text \<open>The fetch under retry leaves the tables alone.\<close>

lemma fetch_frame:
  assumes "plHTTP p = henv"
    and "Do (lift_rt rt) c cfg (fetch_attempt rt p c u meta) (s, res0) = (rr, (s', res))"
  shows "same_store inv items metas s s'"
proof -
  have "same_store inv items metas s (fst (snd (fetch_attempt rt p c u meta (s, x))))" for s x
  proof -
    obtain r e s1 where f: "Fetch rt henv (plFetcher p) c
               \<lparr>frURL = u, frHeaders = fd_Headers (fc_HTTP (plCfg p)),
                frTimeout = fd_Timeout (fc_HTTP (plCfg p)), frETag = ETagM meta,
                frLastModified = LastModifiedM meta\<rparr> s = (r, e, s1)" by (metis prod.collapse)
    then have "same_store inv items metas s s1"
      using Fetch_frame [OF frame_http frame_parse] by (metis snd_conv)
    with f show ?thesis by (simp add: fetch_attempt_def assms(1))
  qed
  from Do_frame [OF this, of s c cfg res0] assms(2) show ?thesis by simp
qed

text \<open>
  The store after the body of a poll: what the outcomes commit, and nothing else; the validators
  change only to those of a fetched response, and they do so before anything is delivered.
\<close>

lemma poll_body_spec:
  assumes "plHTTP p = henv" "plStore p = st" "inv s"
    and body: "poll_body rt (Deliver rt senv (Publish k rt senv)) p c u t s = Some ((r, ocs), s')"
  shows "inv s' \<and> items s' = commits u ocs (items s) \<and> (\<forall>oc\<in>set ocs. outcome_ok (plSinks p) oc) \<and>
    (\<forall>v. v \<noteq> u \<longrightarrow> metas s' v = metas s v) \<and>
    (case r of Inl _ \<Rightarrow> ocs = [] | Inr chs \<Rightarrow> map ocChange ocs = chs \<and>
       (chs \<noteq> [] \<longrightarrow> (\<exists>f. chs = detect_spec (plSha p) (items s) u t f)))"
proof -
  let ?del = "Deliver rt senv (Publish k rt senv)"
  obtain rm s1 where g: "GetFeedMeta st c u s = (rm, s1)" by fastforce
  note g' = get_meta [OF assms(3) g]
  show ?thesis
  proof (cases rm)
    case (Inl e)
    with body g g' assms(2) show ?thesis by (auto simp: poll_body_def)
  next
    case (Inr m)
    define meta where "meta = (case m of Some x \<Rightarrow> x | None \<Rightarrow> zero_meta)"
    obtain rr s2 res where d: "Do (lift_rt rt) c (plFetchRetry p) (fetch_attempt rt p c u meta)
        (s1, zero_result) = (rr, (s2, res))" by (metis prod.collapse)
    have s2: "inv s2" "items s2 = items s" "metas s2 = metas s"
      using fetch_frame [OF assms(1) d] g' by (auto simp: same_store_def)
    show ?thesis
    proof (cases "Err rr \<noteq> None \<or> NotModified res")
      case True
      with body g Inr d s2 assms(2) show ?thesis
        by (auto simp: poll_body_def simp flip: meta_def split: option.splits)
    next
      case False
      define m' where "m' = \<lparr>ETagM = resETag res, LastModifiedM = resLastModified res\<rparr>"
      obtain e s3 where um: "UpsertFeedMeta st c u m' s2 = (e, s3)" by fastforce
      note um' = upsert_meta [OF s2(1) um]
      obtain rd s4 where de: "Detect (plSha p) st c u (Feed res) t s3 = (rd, s4)" by fastforce
      note de' = Detect_refines [OF conjunct1 [OF um'] de]
      show ?thesis
      proof (cases rd)
        case (Inl err)
        with body g Inr d False um de um' de' s2 assms(2) show ?thesis
          by (auto simp: poll_body_def simp flip: meta_def m'_def split: if_splits)
      next
        case (Inr chs)
        with body g \<open>rm = Inr m\<close> d False um de assms(2) have
          pc: "publish_changes ?del st (plSinks p) c u chs s4 = Some (ocs, s')" and r: "r = Inr chs"
          by (auto simp: poll_body_def simp flip: meta_def m'_def split: option.splits)
        have "inv s4" using de' by simp
        from publish_changes_spec [OF pc this] r um' de' s2 Inr show ?thesis by auto
      qed
    qed
  qed
qed

lemma RunOnce_spec:
  assumes "plHTTP p = henv" "plStore p = st" "plCoord p = co" "inv s"
    and run: "RunOnce rt (Deliver rt senv (Publish k rt senv)) p c u t s = Some ((r, ocs), s')"
  shows "inv s' \<and> items s' = commits u ocs (items s) \<and> (\<forall>oc\<in>set ocs. outcome_ok (plSinks p) oc) \<and>
    (\<forall>v. v \<noteq> u \<longrightarrow> metas s' v = metas s v) \<and>
    (case r of Inl _ \<Rightarrow> ocs = [] | Inr chs \<Rightarrow> map ocChange ocs = chs \<and>
       (chs \<noteq> [] \<longrightarrow> (\<exists>f. chs = detect_spec (plSha p) (items s) u t f)))"
proof -
  obtain ra s1 where acq: "TryAcquire co c u s = (ra, s1)" by fastforce
  have s1: "inv s1" "items s1 = items s" "metas s1 = metas s"
    using frame_acquire [of s c u] acq assms(4) by (auto simp: same_store_def)
  show ?thesis
  proof (cases "\<exists>rel. ra = Inr (Some rel)")
    case False
    then have "ra = Inr None \<or> (\<exists>e. ra = Inl e)" by (metis not_None_eq obj_sumE)
    with run acq s1 assms(3) show ?thesis by (auto simp: RunOnce_def)
  next
    case True
    then obtain rel where rel: "ra = Inr (Some rel)" by blast
    with run acq assms(3) obtain s2 where
      body: "poll_body rt (Deliver rt senv (Publish k rt senv)) p c u t s1 = Some ((r, ocs), s2)"
      and s': "s' = snd (rel c s2)"
      by (auto simp: RunOnce_def split: option.splits prod.splits)
    have "same_store inv items metas s2 s'"
      using frame_release [of c u s rel s1 s2 c] acq rel s' by simp
    with poll_body_spec [OF assms(1,2) s1(1) body] s1 show ?thesis
      by (auto simp: same_store_def split: sum.splits)
  qed
qed

end

end
