(* ===== verification/Poll.thy ===== *)
theory Poll
  imports Pipeline
begin

section \<open>Polls on the SQLite store\<close>

text \<open>
  The world of a running instance: the tables of the SQLite store, extended by anything else
  (\<open>'z\<close>): servers, brokers, clocks, coordinators.  An operation of that outside world is lifted to
  the whole by \<open>ext_op\<close>; a poll of \<open>sqlite_poll\<close> runs \<^verbatim>\<open>RunOnce\<close> there.  Nothing is assumed of the
  outside: it may fail, cancel, time out and answer as it likes.
\<close>

definition ext_op :: "('z \<Rightarrow> 'r \<times> 'z) \<Rightarrow> 'z sqlite_db_scheme \<Rightarrow> 'r \<times> 'z sqlite_db_scheme" where
  "ext_op f s = (case f (sqlite_db.more s) of (r, z) \<Rightarrow> (r, s\<lparr>sqlite_db.more := z\<rparr>))"

definition ext_runtime :: "'z runtime \<Rightarrow> 'z sqlite_db_scheme runtime" where
  "ext_runtime r =
     \<lparr>rt_now = (\<lambda>s. rt_now r (sqlite_db.more s)),
      ctx_Err = (\<lambda>c s. ctx_Err r c (sqlite_db.more s)),
      ctx_wait = (\<lambda>c d. ext_op (ctx_wait r c d)),
      rand_Int64N = (\<lambda>n. ext_op (rand_Int64N r n))\<rparr>"

definition ext_http :: "'z http_env \<Rightarrow> 'z sqlite_db_scheme http_env" where
  "ext_http h =
     \<lparr>new_request = new_request h,
      http_do = (\<lambda>c rq. ext_op (http_do h c rq)),
      parse_feed = (\<lambda>c b. ext_op (parse_feed h c b)),
      http_TimeFormat = http_TimeFormat h,
      http_ParseTime = http_ParseTime h\<rparr>"

definition ext_sinks :: "'z sink_env \<Rightarrow> 'z sqlite_db_scheme sink_env" where
  "ext_sinks e =
     \<lparr>leaf_publish = (\<lambda>n c ch. ext_op (leaf_publish e n c ch)),
      branches = branches e, sprintf = sprintf e\<rparr>"

definition ext_coord :: "'z Coordinator \<Rightarrow> 'z sqlite_db_scheme Coordinator" where
  "ext_coord co =
     \<lparr>TryAcquire = (\<lambda>c u s.
        case TryAcquire co c u (sqlite_db.more s) of
          (r, z) \<Rightarrow> (map_sum id (map_option (\<lambda>rel c'. ext_op (rel c'))) r, s\<lparr>sqlite_db.more := z\<rparr>))\<rparr>"

record 'z outside =
  osRuntime :: "'z runtime"
  osHTTP :: "'z http_env"
  osSinks :: "'z sink_env"
  osCoord :: "'z Coordinator"

record feed_setup =
  fsCfg :: FeedConfig
  fsSinks :: "sinkBranch list"
  fsFetcher :: Options
  fsRetry :: retry_config
  fsSha :: "string \<Rightarrow> string"

definition sqlite_pipeline ::
    "'z outside \<Rightarrow> feed_setup \<Rightarrow> 'z sql_fault \<Rightarrow> (time \<Rightarrow> time) \<Rightarrow> ('z sqlite_db_scheme \<Rightarrow> time) \<Rightarrow>
     'z sqlite_db_scheme pipeline" where
  "sqlite_pipeline w f flt dt now =
     \<lparr>plCfg = fsCfg f, plSinks = fsSinks f, plFetcher = fsFetcher f,
      plHTTP = ext_http (osHTTP w), plStore = sqlite_store flt dt now,
      plCoord = ext_coord (osCoord w), plFetchRetry = fsRetry f, plSha = fsSha f\<rparr>"

definition sqlite_poll ::
    "nat \<Rightarrow> 'z outside \<Rightarrow> feed_setup \<Rightarrow> 'z sql_fault \<Rightarrow> (time \<Rightarrow> time) \<Rightarrow>
     ('z sqlite_db_scheme \<Rightarrow> time) \<Rightarrow> ctx \<Rightarrow> string \<Rightarrow> time \<Rightarrow> 'z sqlite_db_scheme \<Rightarrow>
     ((change list result \<times> outcome list) \<times> 'z sqlite_db_scheme) option" where
  "sqlite_poll k w f flt dt now c u t s =
     RunOnce (ext_runtime (osRuntime w))
       (Deliver (ext_runtime (osRuntime w)) (ext_sinks (osSinks w))
          (Publish k (ext_runtime (osRuntime w)) (ext_sinks (osSinks w))))
       (sqlite_pipeline w f flt dt now) c u t s"

lemma same_store_more [simp]:
  "same_store db_inv sql_items sql_metas s (s\<lparr>sqlite_db.more := z\<rparr>)"
  by (simp add: same_store_def db_inv_def sql_items_def sql_metas_def fun_eq_iff)

lemma same_store_ext_op [simp]: "same_store db_inv sql_items sql_metas s (snd (ext_op f s))"
  by (simp add: ext_op_def split: prod.split)

lemma same_store_refl: "same_store ok its mts s s"
  by (simp add: same_store_def)

lemma same_store_trans:
  "same_store ok its mts s1 s2 \<Longrightarrow> same_store ok its mts s2 s3 \<Longrightarrow> same_store ok its mts s1 s3"
  by (simp add: same_store_def)

interpretation poll: poll_world
  "sqlite_store flt dt now" db_inv sql_items sql_metas "\<lambda>t cutoff. dt t < dt cutoff"
  "ext_runtime r" "ext_http h" "ext_sinks e" "ext_coord co"
  for flt dt now r h e co
proof unfold_locales
  fix s1 s2 s3 :: "'a sqlite_db_scheme" and release c u
  show "same_store db_inv sql_items sql_metas s1 s2 \<Longrightarrow>
      same_store db_inv sql_items sql_metas s2 s3 \<Longrightarrow> same_store db_inv sql_items sql_metas s1 s3"
    by (rule same_store_trans)
  assume "TryAcquire (ext_coord co) c u s1 = (Inr (Some release), s2)"
  then obtain rel where "release = (\<lambda>c'. ext_op (rel c'))"
    by (auto simp: ext_coord_def map_sum_def split: prod.splits sum.splits)
  then show "same_store db_inv sql_items sql_metas s3 (snd (release c' s3))" for c' by simp
qed (simp_all add: same_store_refl ext_runtime_def ext_http_def ext_sinks_def ext_coord_def
      split: prod.split)

lemma sqlite_pipeline_sel [simp]:
  "plHTTP (sqlite_pipeline w f flt dt now) = ext_http (osHTTP w)"
  "plStore (sqlite_pipeline w f flt dt now) = sqlite_store flt dt now"
  "plCoord (sqlite_pipeline w f flt dt now) = ext_coord (osCoord w)"
  "plSinks (sqlite_pipeline w f flt dt now) = fsSinks f"
  "plSha (sqlite_pipeline w f flt dt now) = fsSha f"
  "plCfg (sqlite_pipeline w f flt dt now) = fsCfg f"
  "plFetcher (sqlite_pipeline w f flt dt now) = fsFetcher f"
  "plFetchRetry (sqlite_pipeline w f flt dt now) = fsRetry f"
  by (simp_all add: sqlite_pipeline_def)

lemma sqlite_poll_spec:
  assumes "db_inv s" "sqlite_poll k w f flt dt now c u t s = Some ((r, ocs), s')"
  shows "db_inv s' \<and> sql_items s' = commits u ocs (sql_items s) \<and>
    (\<forall>oc\<in>set ocs. outcome_ok (fsSinks f) oc) \<and>
    (\<forall>v. v \<noteq> u \<longrightarrow> sql_metas s' v = sql_metas s v) \<and>
    (case r of Inl _ \<Rightarrow> ocs = [] | Inr chs \<Rightarrow> map ocChange ocs = chs \<and>
       (chs \<noteq> [] \<longrightarrow> (\<exists>g. chs = detect_spec (fsSha f) (sql_items s) u t g)))"
  using poll.RunOnce_spec [OF sqlite_pipeline_sel(1-3) assms(1) assms(2) [unfolded sqlite_poll_def]]
  unfolding sqlite_pipeline_sel .

text \<open>What the tables hold for an item whose change was delivered, or not, in a poll.\<close>

lemma commits_outcome:
  assumes "sql_items s' = commits u ocs (sql_items s)" "\<forall>oc\<in>set ocs. outcome_ok bs oc"
    and "sql_items s' (v, i) \<noteq> sql_items s (v, i)"
  shows "\<exists>oc\<in>set ocs. v = u \<and> i = ItemID (ocChange oc) \<and> no_drop oc \<and>
    map fst (ocResults oc) = map sbName bs \<and>
    sql_items s' (v, i) = Some \<lparr>ContentHashS = ContentHashOf (ocChange oc),
                                 LastSeenAt = DetectedAt (ocChange oc)\<rparr>"
proof -
  from assms(1,3) obtain oc where "oc \<in> set ocs" "ocCommit oc = Some None"
    "(v, i) = (u, ItemID (ocChange oc))"
    "sql_items s' (v, i) = Some \<lparr>ContentHashS = ContentHashOf (ocChange oc),
       LastSeenAt = DetectedAt (ocChange oc)\<rparr>"
    using commits_changed [of u ocs "sql_items s" "(v, i)"] by auto
  with assms(2) show ?thesis by (intro bexI [of _ oc]) (auto simp: outcome_ok_def)
qed

lemma classify_spec_Some:
  assumes "classify_spec sha seen u ti t it = Some ch"
  shows "\<exists>kd. ch = mkChange sha u ti it t kd"
proof (cases "seen (u, item_id sha it)")
  case None
  with assms have "ch = mkChange sha u ti it t ChangeNew" by (simp add: classify_spec_def)
  then show ?thesis ..
next
  case (Some e)
  with assms have "ch = mkChange sha u ti it t ChangeUpdated"
    by (simp add: classify_spec_def split: if_splits)
  then show ?thesis ..
qed

lemma classify_spec_None:
  "classify_spec sha seen u ti t it = None \<longleftrightarrow>
     (\<exists>e. seen (u, item_id sha it) = Some e \<and> ContentHashS e = item_hash sha it)"
  by (auto simp: classify_spec_def split: option.splits)

lemma detect_spec_ids:
  assumes "distinct (map (item_id sha) (Items g))"
  shows "distinct (map ItemID (detect_spec sha seen u t (Some g)))"
proof -
  have "distinct (map ItemID (somes (map (classify_spec sha seen u ti t) its)))"
    if "distinct (map (item_id sha) its)" for its ti
    using that
  proof (induction its)
    case (Cons it its)
    have "\<forall>ch\<in>set (somes (map (classify_spec sha seen u ti t) its)).
        \<exists>j\<in>set its. ItemID ch = item_id sha j"
      by (auto simp: set_somes classify_spec_def split: option.splits if_splits)
    moreover have "ItemID ch = item_id sha it" if "classify_spec sha seen u ti t it = Some ch" for ch
      using that by (auto simp: classify_spec_def split: option.splits if_splits)
    ultimately show ?case
      using Cons by (cases "classify_spec sha seen u ti t it") (simp, fastforce)
  qed simp
  moreover have "distinct (map (item_id sha) (sort_key publishedTime (Items g)))"
    using assms by (simp add: distinct_map)
  ultimately show ?thesis by (simp add: detect_spec_def)
qed

text \<open>An item the detection passes over keeps its row as it is, its time of last sight included.\<close>

lemma commits_keep_known:
  assumes "map ocChange ocs = chs" "chs = detect_spec sha seen u t (Some g)"
    and "distinct (map (item_id sha) (Items g))" "it \<in> set (Items g)"
    and "classify_spec sha seen u (gfTitle g) t it = None"
  shows "commits u ocs seen (u, item_id sha it) = seen (u, item_id sha it)"
proof (rule commits_other)
  fix oc
  assume oc: "oc \<in> set ocs" "ocCommit oc = Some None"
  then have "ocChange oc \<in> set chs" using assms(1) by auto
  then obtain it' where it': "it' \<in> set (Items g)"
    "classify_spec sha seen u (gfTitle g) t it' = Some (ocChange oc)"
    using assms(2) by (auto simp: detect_spec_mem)
  with assms(5) have "it' \<noteq> it" by auto
  with assms(3,4) it'(1) have "item_id sha it' \<noteq> item_id sha it"
    by (auto simp: distinct_map dest: inj_onD)
  with classify_spec_Some [OF it'(2)] show "(u, ItemID (ocChange oc)) \<noteq> (u, item_id sha it)" by auto
qed

subsection \<open>A concrete instance\<close>

text \<open>A server with one item and the validator \<open>e1\<close>, which it honours: a request that carries it is
  answered 304.  The sink \<open>bad\<close> always fails, every other sink accepts.\<close>

definition toy_item :: gofeed_item where
  "toy_item = \<lparr>GUID = ''g1'', itLink = [], itTitle = ''t'', itContent = [], Description = [],
     Author = None, itAuthors = [], itCategories = [], PublishedParsed = None,
     UpdatedParsed = None\<rparr>"

definition etag_server :: "nat http_env" where
  "etag_server =
     \<lparr>new_request = (\<lambda>_. None),
      http_do = (\<lambda>c rq s.
        (Inr \<lparr>rsStatus = (if rqHeader rq ''If-None-Match'' = Some [''e1''] then 304 else 200),
              rsHeader = [''Etag'' \<mapsto> [''e1'']], rsBody = []\<rparr>, s)),
      parse_feed = (\<lambda>c b s. (Inr \<lparr>gfTitle = [], Items = [toy_item]\<rparr>, s)),
      http_TimeFormat = (\<lambda>_. []), http_ParseTime = (\<lambda>_. None)\<rparr>"

definition toy_outside :: "nat outside" where
  "toy_outside = \<lparr>osRuntime = quiet_rt, osHTTP = etag_server, osSinks = toy_sinks (\<lambda>_. []),
     osCoord = memory_coordinator\<rparr>"

definition toy_setup :: "string \<Rightarrow> feed_setup" where
  "toy_setup n =
     \<lparr>fsCfg = \<lparr>fc_URL = ''u'', fc_Interval = 0, fc_Sinks = [n],
        fc_HTTP = \<lparr>fd_Timeout = 0, fd_Headers = [],
          fd_Retry = \<lparr>rc_MaxAttempts = 1, rc_BaseDelay = 0, rc_MaxDelay = 0\<rparr>\<rparr>\<rparr>,
      fsSinks = [\<lparr>sbName = n,
        sbWrapped = \<lparr>primary = Driver n, dlq = None, rpCfg = one_try, rpTimeout = 0\<rparr>\<rparr>],
      fsFetcher = \<lparr>UserAgent = [], Timeout = 1\<rparr>, fsRetry = one_try, fsSha = id\<rparr>"

definition toy_poll ::
    "string \<Rightarrow> nat sqlite_db_scheme \<Rightarrow>
     ((change list result \<times> outcome list) \<times> nat sqlite_db_scheme) option" where
  "toy_poll n = sqlite_poll (Suc 0) toy_outside (toy_setup n) (\<lambda>_ _. None) id (\<lambda>_. 0) None ''u'' 7"

text \<open>The definitions a concrete poll unfolds.\<close>

lemmas toy_eval = toy_poll_def sqlite_poll_def RunOnce_def toy_outside_def ext_coord_def
  memory_coordinator_def poll_body_def sqlite_store_def sqlite_GetFeedMeta_def Do_def do_loop.simps
  toy_setup_def one_try_def withDefaults_def clampMax_def clampBase_def clampAttempts_def
  gives_up_def Let_def lift_rt_def ext_runtime_def ext_op_def quiet_rt_def fetch_attempt_def
  Fetch_def ext_http_def etag_server_def WithTimeout_def classify_response_def
  default_headers_def header_Get_def header_Set_def zero_meta_def sqlite_UpsertFeedMeta_def
  sqlite_UpsertItem_def Deliver_def DoOpt_def opt_fn_def opt_rt_def toy_sinks_def ext_sinks_def

lemma canon_response [simp]:
  "CanonicalHeaderKey ''ETag'' = ''Etag''" "CanonicalHeaderKey ''Last-Modified'' = ''Last-Modified''"
  by code_simp+

lemma toy_id [simp]: "item_id id toy_item = ''g1''"
  by (simp add: item_id_def toy_item_def IdentityKey_def)

definition toy_ch :: change where
  "toy_ch = mkChange id ''u'' [] toy_item 7 ChangeNew"

definition toy_meta :: "(string \<times> FeedMeta \<times> time) list" where
  "toy_meta = [(''u'', \<lparr>ETagM = ''e1'', LastModifiedM = zero_time\<rparr>, 0)]"

lemma toy_detect:
  "Detect id (sqlite_store (\<lambda>_ _. None) id (\<lambda>_. 0)) c ''u''
     (Some \<lparr>gfTitle = [], Items = [toy_item]\<rparr>) 7 \<lparr>seen_items = [], feed_meta = m, \<dots> = z\<rparr> =
   (Inr [toy_ch], \<lparr>seen_items = [], feed_meta = m, \<dots> = z\<rparr>)"
  by (simp add: Detect_def classify_def sqlite_store_def sqlite_GetItem_def toy_ch_def)

text \<open>A failing sink: the change is dropped and not recorded, but the validator is stored.\<close>

lemma toy_poll_bad:
  "toy_poll ''bad'' \<lparr>seen_items = [], feed_meta = [], \<dots> = 0\<rparr> =
   Some ((Inr [toy_ch],
     [\<lparr>ocChange = toy_ch, ocResults = [(''bad'',
        \<lparr>brState = BranchDropped, brAttempts = 1, brErr = Some (Errorf ''down'' [])\<rparr>)],
       ocCommit = None\<rparr>]),
     \<lparr>seen_items = [], feed_meta = toy_meta, \<dots> = 0\<rparr>)"
  by (simp add: toy_eval toy_detect [unfolded sqlite_store_def] toy_meta_def)

lemma toy_poll_again:
  "toy_poll n \<lparr>seen_items = [], feed_meta = toy_meta, \<dots> = z\<rparr> =
   Some ((Inr [], []), \<lparr>seen_items = [], feed_meta = toy_meta, \<dots> = z\<rparr>)"
  by (simp add: toy_eval toy_meta_def)

lemma toy_poll_ok:
  "toy_poll ''ok'' \<lparr>seen_items = [], feed_meta = [], \<dots> = 0\<rparr> =
   Some ((Inr [toy_ch],
     [\<lparr>ocChange = toy_ch, ocResults = [(''ok'',
        \<lparr>brState = BranchSuccess, brAttempts = 1, brErr = None\<rparr>)], ocCommit = Some None\<rparr>]),
     \<lparr>seen_items = [((''u'', ''g1''), \<lparr>ContentHashS = item_hash id toy_item, LastSeenAt = 7\<rparr>)],
      feed_meta = toy_meta, \<dots> = 1\<rparr>)"
  by (simp add: toy_eval toy_detect [unfolded sqlite_store_def] toy_meta_def toy_ch_def)

subsection \<open>Properties\<close>

text \<open>C1: recorded as seen only after delivery.  If a poll changes the stored state of an item, then
  in this poll a change with that item's identity and the stored hash was handed to every configured
  sink and none dropped it (each accepted it or its dead letter captured it).  A poll writes no other
  row of the seen-items table.\<close>

theorem poll_commits_after_delivery:
  assumes "db_inv s" "sqlite_poll k w f flt dt now c u t s = Some ((r, ocs), s')"
    and "sql_items s' (v, i) \<noteq> sql_items s (v, i)"
  shows "\<exists>oc\<in>set ocs. v = u \<and> ItemID (ocChange oc) = i \<and>
    map fst (ocResults oc) = map sbName (fsSinks f) \<and>
    (\<forall>(n, br)\<in>set (ocResults oc). brState br \<noteq> BranchDropped) \<and>
    sql_items s' (v, i) = Some \<lparr>ContentHashS = ContentHashOf (ocChange oc),
                                 LastSeenAt = DetectedAt (ocChange oc)\<rparr>"
proof -
  note sp = sqlite_poll_spec [OF assms(1,2)]
  have "\<exists>oc\<in>set ocs. v = u \<and> i = ItemID (ocChange oc) \<and> no_drop oc \<and>
    map fst (ocResults oc) = map sbName (fsSinks f) \<and>
    sql_items s' (v, i) = Some \<lparr>ContentHashS = ContentHashOf (ocChange oc),
                                 LastSeenAt = DetectedAt (ocChange oc)\<rparr>"
    using sp assms(3) by (intro commits_outcome) auto
  then show ?thesis by (auto simp: no_drop_def)
qed

theorem poll_commits_after_delivery_witness:
  "\<exists>ocs s'. toy_poll ''ok'' \<lparr>seen_items = [], feed_meta = [], \<dots> = 0\<rparr> = Some ((Inr [toy_ch], ocs), s') \<and>
     (\<exists>oc\<in>set ocs. ItemID (ocChange oc) = ''g1'' \<and> map fst (ocResults oc) = [''ok''])"
  using poll_commits_after_delivery [OF _ toy_poll_ok [unfolded toy_poll_def], of "''u''" "''g1''"]
    toy_poll_ok
  by (simp add: db_inv_def sql_items_def toy_setup_def)

text \<open>C2: at least once.  A change that some sink dropped leaves the stored state of its item as it
  was (identities being unique in the feed), so detecting the same feed again yields it again.\<close>

theorem poll_drop_is_redetected:
  assumes "db_inv s" "sqlite_poll k w f flt dt now c u t s = Some ((Inr chs, ocs), s')"
    and "chs = detect_spec (fsSha f) (sql_items s) u t (Some g)"
    and "distinct (map (item_id (fsSha f)) (Items g))"
    and "oc \<in> set ocs" "(n, br) \<in> set (ocResults oc)" "brState br = BranchDropped"
  shows "\<exists>ch\<in>set (detect_spec (fsSha f) (sql_items s') u t' (Some g)).
           ItemID ch = ItemID (ocChange oc) \<and> ContentHashOf ch = ContentHashOf (ocChange oc)"
proof -
  note sp = sqlite_poll_spec [OF assms(1,2)]
  have nc: "ocCommit oc = None"
    using sp assms(5-7) by (auto simp: outcome_ok_def no_drop_def)
  have "distinct (map (ItemID \<circ> ocChange) ocs)"
    using detect_spec_ids [OF assms(4), of "sql_items s" u t, folded assms(3)] sp by (simp flip: map_map)
  from commits_set [OF this assms(5), of u "sql_items s"] nc sp
  have same: "sql_items s' (u, ItemID (ocChange oc)) = sql_items s (u, ItemID (ocChange oc))" by simp
  have "map ocChange ocs = chs" using sp by simp
  then have "ocChange oc \<in> set chs" using assms(5) by auto
  then obtain it where it: "it \<in> set (Items g)"
    "classify_spec (fsSha f) (sql_items s) u (gfTitle g) t it = Some (ocChange oc)"
    using assms(3) by (auto simp: detect_spec_mem)
  then obtain kd where kd: "ocChange oc = mkChange (fsSha f) u (gfTitle g) it t kd"
    using classify_spec_Some by blast
  with it(2) same obtain kd' where
    "classify_spec (fsSha f) (sql_items s') u (gfTitle g) t' it =
       Some (mkChange (fsSha f) u (gfTitle g) it t' kd')"
    by (auto simp: classify_spec_def split: option.splits if_splits)
  with it(1) kd show ?thesis by (auto simp: detect_spec_mem intro!: bexI)
qed

theorem poll_drop_is_redetected_witness:
  "\<exists>ch\<in>set (detect_spec id (sql_items \<lparr>seen_items = [], feed_meta = toy_meta, \<dots> = 0::nat\<rparr>) ''u'' 9
      (Some \<lparr>gfTitle = [], Items = [toy_item]\<rparr>)). ItemID ch = ''g1''"
  using poll_drop_is_redetected [OF _ toy_poll_bad [unfolded toy_poll_def],
      where g = "\<lparr>gfTitle = [], Items = [toy_item]\<rparr>" and t' = 9 and n = "''bad''"
        and br = "\<lparr>brState = BranchDropped, brAttempts = 1, brErr = Some (Errorf ''down'' [])\<rparr>"]
  by (simp add: db_inv_def sql_items_def toy_setup_def toy_ch_def detect_spec_def classify_spec_def)

text \<open>No duplicates in steady state.  If a poll delivered every change without a drop and every
  commit succeeded, then detecting the same feed again yields nothing.\<close>

theorem poll_then_quiet:
  assumes "db_inv s" "sqlite_poll k w f flt dt now c u t s = Some ((Inr chs, ocs), s')"
    and "chs = detect_spec (fsSha f) (sql_items s) u t (Some g)"
    and "distinct (map (item_id (fsSha f)) (Items g))"
    and "\<forall>oc\<in>set ocs. ocCommit oc = Some None"
  shows "detect_spec (fsSha f) (sql_items s') u t' (Some g) = []"
proof -
  note sp = sqlite_poll_spec [OF assms(1,2)]
  have mp: "map ocChange ocs = chs" using sp by simp
  have dist: "distinct (map (ItemID \<circ> ocChange) ocs)"
    using detect_spec_ids [OF assms(4), of "sql_items s" u t, folded assms(3)] sp by (simp flip: map_map)
  have "classify_spec (fsSha f) (sql_items s') u (gfTitle g) t' it = None"
    if it: "it \<in> set (Items g)" for it
  proof (cases "classify_spec (fsSha f) (sql_items s) u (gfTitle g) t it")
    case (Some ch)
    with it have "ch \<in> set chs" using assms(3) by (auto simp: detect_spec_mem)
    then obtain oc where oc: "oc \<in> set ocs" "ch = ocChange oc" using mp by auto
    from commits_set [OF dist oc(1), of u "sql_items s"] assms(5) oc sp
    have "sql_items s' (u, ItemID ch) =
      Some \<lparr>ContentHashS = ContentHashOf ch, LastSeenAt = DetectedAt ch\<rparr>" by simp
    with classify_spec_Some [OF Some] show ?thesis by (auto simp: classify_spec_None)
  next
    case None
    then obtain e where e: "sql_items s (u, item_id (fsSha f) it) = Some e"
      "ContentHashS e = item_hash (fsSha f) it"
      by (auto simp: classify_spec_def split: option.splits if_splits)
    have "sql_items s' (u, item_id (fsSha f) it) = Some e"
      using commits_keep_known [OF mp assms(3,4) it None] sp e(1) by simp
    with e show ?thesis by (simp add: classify_spec_def)
  qed
  then have "ch \<notin> set (detect_spec (fsSha f) (sql_items s') u t' (Some g))" for ch
    by (auto simp: detect_spec_mem)
  then show ?thesis by (metis last_in_set)
qed

theorem poll_then_quiet_witness:
  "detect_spec id (sql_items \<lparr>seen_items =
      [((''u'', ''g1''), \<lparr>ContentHashS = item_hash id toy_item, LastSeenAt = 7\<rparr>)],
      feed_meta = toy_meta, \<dots> = 1::nat\<rparr>) ''u'' 9 (Some \<lparr>gfTitle = [], Items = [toy_item]\<rparr>) = []"
  using poll_then_quiet [OF _ toy_poll_ok [unfolded toy_poll_def],
      where g = "\<lparr>gfTitle = [], Items = [toy_item]\<rparr>" and t' = 9]
  by (simp add: db_inv_def toy_setup_def toy_ch_def detect_spec_def classify_spec_def sql_items_def)


end
