(* ===== verification/Feedsource.thy ===== *)
theory Feedsource
  imports Prelude Retry Config
begin

section \<open>Feed sources (\<^verbatim>\<open>internal/feedsource\<close>)\<close>

text \<open>
  Where the list of feeds comes from: a serialized \<open>FeedSpec\<close> and its conversion, fixed and polling
  sources, the one-shot \<open>Snapshot\<close> and the long-lived \<open>Aggregator\<close> with its last-known-good
  contributions.  \<^verbatim>\<open>time.ParseDuration\<close> is the argument \<open>parse_duration\<close>.  A channel of capacity one
  that only signals is a flag: sending to it when it is full does nothing.
\<close>

subsection \<open>Specs\<close>

record FeedSpecHTTP =
  sh_Timeout :: string
  sh_Headers :: "(string \<times> string) list"

record FeedSpec =
  sp_URL :: string
  sp_Interval :: string
  sp_Sinks :: "string list"
  sp_HTTP :: "FeedSpecHTTP option"

definition zero_feed_http :: FeedHTTPConfig where
  "zero_feed_http = \<lparr>fd_Timeout = 0, fd_Headers = [],
     fd_Retry = \<lparr>rc_MaxAttempts = 0, rc_BaseDelay = 0, rc_MaxDelay = 0\<rparr>\<rparr>"

definition ToFeedConfig :: "(string \<Rightarrow> duration result) \<Rightarrow> FeedSpec \<Rightarrow> FeedConfig result" where
  "ToFeedConfig parse_duration s =
     (if TrimSpace (sp_URL s) = [] then Inl (Errorf ''feed spec: url is required'' [])
      else
        let fc = \<lparr>fc_URL = sp_URL s, fc_Interval = 0, fc_Sinks = sp_Sinks s,
                  fc_HTTP = zero_feed_http\<rparr>
        in case (if sp_Interval s \<noteq> []
                 then (case parse_duration (sp_Interval s) of
                         Inl err \<Rightarrow>
                           Inl (Errorf ''feed spec %s: interval: %w'' [FStr (sp_URL s), FWrap err])
                       | Inr d \<Rightarrow> Inr (fc\<lparr>fc_Interval := d\<rparr>))
                 else Inr fc) of
             Inl err \<Rightarrow> Inl err
           | Inr fc1 \<Rightarrow>
               (case sp_HTTP s of
                  None \<Rightarrow> Inr fc1
                | Some h \<Rightarrow>
                    let fc2 = fc1\<lparr>fc_HTTP := (fc_HTTP fc1)\<lparr>fd_Headers := sh_Headers h\<rparr>\<rparr>
                    in if sh_Timeout h \<noteq> []
                       then (case parse_duration (sh_Timeout h) of
                               Inl err \<Rightarrow>
                                 Inl (Errorf ''feed spec %s: http.timeout: %w''
                                        [FStr (sp_URL s), FWrap err])
                             | Inr d \<Rightarrow>
                                 Inr (fc2\<lparr>fc_HTTP := (fc_HTTP fc2)\<lparr>fd_Timeout := d\<rparr>\<rparr>))
                       else Inr fc2))"

fun specs_loop ::
    "(string \<Rightarrow> duration result) \<Rightarrow> FeedSpec list \<Rightarrow> FeedConfig list \<Rightarrow> FeedConfig list result" where
  "specs_loop pd [] out = Inr out"
| "specs_loop pd (s # ss) out =
     (case ToFeedConfig pd s of Inl err \<Rightarrow> Inl err | Inr fc \<Rightarrow> specs_loop pd ss (out @ [fc]))"

definition SpecsToConfigs ::
    "(string \<Rightarrow> duration result) \<Rightarrow> FeedSpec list \<Rightarrow> FeedConfig list result" where
  "SpecsToConfigs pd specs = specs_loop pd specs []"

subsection \<open>Sources\<close>

record 's Source =
  srcName :: string
  srcFeeds :: "ctx \<Rightarrow> 's \<Rightarrow> FeedConfig list result \<times> 's"

definition NewStatic :: "string \<Rightarrow> FeedConfig list \<Rightarrow> 's Source" where
  "NewStatic name feeds = \<lparr>srcName = name, srcFeeds = (\<lambda>c s. (Inr feeds, s))\<rparr>"

text \<open>A polling source: the interval after the default, the fetch function and the loop, whose only
  state is the pending signal and whether it was stopped.\<close>

record 's PollSource =
  poName :: string
  poInterval :: duration
  poFetch :: "ctx \<Rightarrow> 's \<Rightarrow> FeedConfig list result \<times> 's"
  poOut :: bool
  poStopped :: bool

definition NewPoll ::
    "string \<Rightarrow> duration \<Rightarrow> (ctx \<Rightarrow> 's \<Rightarrow> FeedConfig list result \<times> 's) \<Rightarrow> 's PollSource" where
  "NewPoll name interval fetch =
     \<lparr>poName = name, poInterval = (if interval \<le> 0 then second else interval), poFetch = fetch,
      poOut = False, poStopped = False\<rparr>"

definition poll_tick :: "'s PollSource \<Rightarrow> 's PollSource" where
  "poll_tick p = (if poStopped p then p else p\<lparr>poOut := True\<rparr>)"

definition poll_Close :: "'s PollSource \<Rightarrow> 's PollSource" where
  "poll_Close p = p\<lparr>poStopped := True\<rparr>"

definition poll_source :: "'s PollSource \<Rightarrow> 's Source" where
  "poll_source p = \<lparr>srcName = poName p, srcFeeds = poFetch p\<rparr>"

subsection \<open>Merging\<close>

text \<open>The inner loop both mergers share: \<open>seen\<close> is the set of URLs, \<open>merged\<close> the list built.\<close>

fun merge_loop ::
    "FeedConfig list \<Rightarrow> string list \<times> FeedConfig list \<Rightarrow> string list \<times> FeedConfig list" where
  "merge_loop [] acc = acc"
| "merge_loop (fc # fcs) (seen, merged) =
     merge_loop fcs
       (if fc_URL fc \<in> set seen then (seen, merged) else (fc_URL fc # seen, merged @ [fc]))"

fun snapshot_loop ::
    "ctx \<Rightarrow> 's Source list \<Rightarrow> string list \<times> FeedConfig list \<Rightarrow> 's \<Rightarrow>
     FeedConfig list result \<times> 's" where
  "snapshot_loop c [] acc s = (Inr (snd acc), s)"
| "snapshot_loop c (src # srcs) acc s =
     (case srcFeeds src c s of
        (Inl err, s1) \<Rightarrow> (Inl (Errorf ''feed source %q: %w'' [FStr (srcName src), FWrap err]), s1)
      | (Inr feeds, s1) \<Rightarrow> snapshot_loop c srcs (merge_loop feeds acc) s1)"

definition Snapshot :: "ctx \<Rightarrow> 's Source list \<Rightarrow> 's \<Rightarrow> FeedConfig list result \<times> 's" where
  "Snapshot c sources s = snapshot_loop c sources ([], []) s"

record 's Aggregator =
  agSources :: "'s Source list"
  agOut :: bool
  lastGood :: "string \<Rightarrow> FeedConfig list option"

definition NewAggregator :: "'s Source list \<Rightarrow> 's Aggregator" where
  "NewAggregator sources = \<lparr>agSources = sources, agOut = False, lastGood = Map.empty\<rparr>"

definition Trigger :: "'s Aggregator \<Rightarrow> 's Aggregator" where
  "Trigger a = a\<lparr>agOut := True\<rparr>"

text \<open>
  The concurrent fetches: each writes its own slot of \<open>results\<close>.  The order in which the calls take
  place is up to the scheduler of the language: a list of indices, an argument.
\<close>

fun fetch_slots ::
    "ctx \<Rightarrow> 's Source list \<Rightarrow> nat list \<Rightarrow> FeedConfig list result list \<Rightarrow> 's \<Rightarrow>
     FeedConfig list result list \<times> 's" where
  "fetch_slots c sources [] results s = (results, s)"
| "fetch_slots c sources (i # order) results s =
     (case srcFeeds (sources ! i) c s of
        (r, s1) \<Rightarrow> fetch_slots c sources order (results[i := r]) s1)"

fun desired_loop ::
    "('s Source \<times> FeedConfig list result) list \<Rightarrow> (string \<Rightarrow> FeedConfig list option) \<Rightarrow>
     string list \<times> FeedConfig list \<Rightarrow> FeedConfig list \<times> (string \<Rightarrow> FeedConfig list option)" where
  "desired_loop [] good acc = (snd acc, good)"
| "desired_loop ((src, r) # rest) good acc =
     (case (case r of
              Inl err \<Rightarrow> (case good (srcName src) of Some fs \<Rightarrow> fs | None \<Rightarrow> [], good)
            | Inr feeds \<Rightarrow> (feeds, good(srcName src \<mapsto> feeds))) of
        (feeds, good1) \<Rightarrow> desired_loop rest good1 (merge_loop feeds acc))"

definition agg_Desired ::
    "nat list \<Rightarrow> ctx \<Rightarrow> 's Aggregator \<times> 's \<Rightarrow> FeedConfig list result \<times> ('s Aggregator \<times> 's)" where
  "agg_Desired order c = (\<lambda>(a, s).
     case fetch_slots c (agSources a) order (replicate (length (agSources a)) (Inr [])) s of
       (results, s1) \<Rightarrow>
         (case desired_loop (zip (agSources a) results) (lastGood a) ([], []) of
            (merged, good) \<Rightarrow> (Inr merged, (a\<lparr>lastGood := good\<rparr>, s1))))"

subsection \<open>What the merge computes\<close>

text \<open>Keep the first entry of every URL.\<close>

fun first_by_url :: "FeedConfig list \<Rightarrow> FeedConfig list" where
  "first_by_url [] = []"
| "first_by_url (fc # fcs) = fc # filter (\<lambda>x. fc_URL x \<noteq> fc_URL fc) (first_by_url fcs)"

lemma first_by_url_distinct: "distinct (map fc_URL (first_by_url fcs))"
  by (induction fcs) (auto simp: distinct_map inj_on_def)

lemma first_by_url_urls: "fc_URL ` set (first_by_url fcs) = fc_URL ` set fcs"
proof (induction fcs)
  case (Cons fc fcs)
  have "fc_URL ` {x \<in> A. fc_URL x \<noteq> u} = fc_URL ` A - {u}" for A :: "FeedConfig set" and u
    by auto
  with Cons show ?case by simp
qed simp

lemma first_by_url_subset: "set (first_by_url fcs) \<subseteq> set fcs"
  by (induction fcs) auto

lemma filter_first_by_url:
  "filter (\<lambda>x. fc_URL x \<notin> S) (first_by_url fcs) = first_by_url (filter (\<lambda>x. fc_URL x \<notin> S) fcs)"
proof (induction fcs)
  case (Cons fc fcs)
  have "filter (\<lambda>x. fc_URL x \<notin> S) (filter (\<lambda>x. fc_URL x \<noteq> fc_URL fc) (first_by_url fcs)) =
      filter (\<lambda>x. fc_URL x \<noteq> fc_URL fc) (first_by_url (filter (\<lambda>x. fc_URL x \<notin> S) fcs))"
    by (simp add: conj_commute flip: Cons.IH)
  moreover have "filter (\<lambda>x. fc_URL x \<notin> S) (filter (\<lambda>x. fc_URL x \<noteq> fc_URL fc) (first_by_url fcs)) =
      filter (\<lambda>x. fc_URL x \<notin> S) (first_by_url fcs)" if "fc_URL fc \<in> S"
    using that by (auto intro!: filter_cong)
  ultimately show ?case using Cons.IH by auto
qed simp

lemma merge_loop_spec:
  "merge_loop fcs (seen, m) =
     (rev (map fc_URL (first_by_url (filter (\<lambda>x. fc_URL x \<notin> set seen) fcs))) @ seen,
      m @ first_by_url (filter (\<lambda>x. fc_URL x \<notin> set seen) fcs))"
proof (induction fcs arbitrary: seen m)
  case (Cons fc fcs)
  have "filter (\<lambda>x. fc_URL x \<noteq> fc_URL fc) (first_by_url (filter (\<lambda>x. fc_URL x \<notin> set seen) fcs)) =
      first_by_url (filter (\<lambda>x. fc_URL x \<notin> set (fc_URL fc # seen)) fcs)"
    using filter_first_by_url [of "{fc_URL fc}" "filter (\<lambda>x. fc_URL x \<notin> set seen) fcs"]
    by (simp add: conj_commute)
  with Cons show ?case by simp
qed simp

text \<open>The accumulator after some contributions: their URLs and their first entries.\<close>

definition merged_acc :: "FeedConfig list \<Rightarrow> string list \<times> FeedConfig list \<Rightarrow> bool" where
  "merged_acc fcs acc \<longleftrightarrow> set (fst acc) = fc_URL ` set fcs \<and> snd acc = first_by_url fcs"

lemma merged_acc_Nil [simp]: "merged_acc [] ([], [])"
  by (simp add: merged_acc_def)

lemma first_by_url_append:
  "first_by_url (xs @ ys) =
     first_by_url xs @ first_by_url (filter (\<lambda>x. fc_URL x \<notin> fc_URL ` set xs) ys)"
proof (induction xs)
  case (Cons x xs)
  have "filter (\<lambda>y. fc_URL y \<noteq> fc_URL x) (first_by_url (filter (\<lambda>y. fc_URL y \<notin> fc_URL ` set xs) ys)) =
      first_by_url (filter (\<lambda>y. fc_URL y \<notin> fc_URL ` set (x # xs)) ys)"
    using filter_first_by_url [of "{fc_URL x}" "filter (\<lambda>y. fc_URL y \<notin> fc_URL ` set xs) ys"]
    by (simp add: conj_commute)
  with Cons show ?case by simp
qed simp

lemma merge_loop_acc:
  "merged_acc fcs acc \<Longrightarrow> merged_acc (fcs @ new) (merge_loop new acc)"
proof -
  assume acc: "merged_acc fcs acc"
  obtain seen m where a: "acc = (seen, m)" by (cases acc)
  with acc show ?thesis
    by (auto simp: merged_acc_def merge_loop_spec first_by_url_append first_by_url_urls)
qed

text \<open>Who wins: an entry of the merged list comes from the first contribution that has its URL.\<close>

lemma first_by_url_concat:
  assumes "fc \<in> set (first_by_url (concat fss))"
  shows "\<exists>i<length fss. fc \<in> set (fss ! i) \<and> (\<forall>j<i. fc_URL fc \<notin> fc_URL ` set (fss ! j))"
  using assms
proof (induction fss)
  case (Cons fs fss)
  then have "fc \<in> set (first_by_url fs) \<or>
      fc \<in> set (first_by_url (filter (\<lambda>x. fc_URL x \<notin> fc_URL ` set fs) (concat fss)))"
    by (simp add: first_by_url_append)
  then show ?case
  proof
    assume "fc \<in> set (first_by_url fs)"
    then have "fc \<in> set fs" using first_by_url_subset by blast
    then show ?thesis by (intro exI [of _ 0]) simp
  next
    assume "fc \<in> set (first_by_url (filter (\<lambda>x. fc_URL x \<notin> fc_URL ` set fs) (concat fss)))"
    then have "fc \<in> set (filter (\<lambda>x. fc_URL x \<notin> fc_URL ` set fs) (first_by_url (concat fss)))"
      by (simp add: filter_first_by_url)
    then have new: "fc_URL fc \<notin> fc_URL ` set fs" and "fc \<in> set (first_by_url (concat fss))" by auto
    from Cons.IH [OF this(2)] obtain i where "i < length fss" "fc \<in> set (fss ! i)"
      "\<forall>j<i. fc_URL fc \<notin> fc_URL ` set (fss ! j)" by blast
    with new show ?thesis
      by (intro exI [of _ "Suc i"]) (auto simp: nth_Cons split: nat.split)
  qed
qed simp

subsection \<open>Reading the sources\<close>

text \<open>All sources one after the other, with what each answered.\<close>

fun source_reads :: "ctx \<Rightarrow> 's Source list \<Rightarrow> 's \<Rightarrow> FeedConfig list result list \<times> 's" where
  "source_reads c [] s = ([], s)"
| "source_reads c (src # srcs) s =
     (case srcFeeds src c s of
        (r, s1) \<Rightarrow> (case source_reads c srcs s1 of (rs, s2) \<Rightarrow> (r # rs, s2)))"

lemma snapshot_loop_spec:
  assumes "snapshot_loop c sources acc s = (Inr fcs, s')" "merged_acc old acc"
  shows "\<exists>fss. source_reads c sources s = (map Inr fss, s') \<and> fcs = first_by_url (old @ concat fss)"
  using assms
proof (induction sources arbitrary: acc s old)
  case Nil
  then show ?case by (auto simp: merged_acc_def)
next
  case (Cons src sources)
  from Cons.prems(1) obtain feeds s1 where f: "srcFeeds src c s = (Inr feeds, s1)"
    and rest: "snapshot_loop c sources (merge_loop feeds acc) s1 = (Inr fcs, s')"
    by (auto split: prod.splits sum.splits)
  from Cons.IH [OF rest merge_loop_acc [OF Cons.prems(2)]] obtain fss where
    "source_reads c sources s1 = (map Inr fss, s')"
    "fcs = first_by_url ((old @ feeds) @ concat fss)" by blast
  with f show ?case by (intro exI [of _ "feeds # fss"]) simp
qed

lemma snapshot_loop_error:
  assumes "snapshot_loop c sources acc s = (Inl e, s')"
  shows "\<exists>pre src post fss s1 err. sources = pre @ src # post \<and>
    source_reads c pre s = (map Inr fss, s1) \<and> srcFeeds src c s1 = (Inl err, s') \<and>
    e = Errorf ''feed source %q: %w'' [FStr (srcName src), FWrap err]"
  using assms
proof (induction sources arbitrary: acc s)
  case (Cons src sources)
  obtain r s1 where f: "srcFeeds src c s = (r, s1)" by fastforce
  show ?case
  proof (cases r)
    case (Inl err)
    with f Cons.prems show ?thesis by (intro exI [of _ "[]"]) auto
  next
    case (Inr feeds)
    with f Cons.prems have "snapshot_loop c sources (merge_loop feeds acc) s1 = (Inl e, s')" by simp
    from Cons.IH [OF this] obtain pre sc post fss s2 err where h: "sources = pre @ sc # post"
      "source_reads c pre s1 = (map Inr fss, s2)" "srcFeeds sc c s2 = (Inl err, s')"
      "e = Errorf ''feed source %q: %w'' [FStr (srcName sc), FWrap err]" by blast
    with f Inr show ?thesis
      by (intro exI [of _ "src # pre"] exI [of _ sc] exI [of _ post] exI [of _ "feeds # fss"]
          exI [of _ s2] exI [of _ err]) simp
  qed
qed simp

subsection \<open>The aggregator\<close>

text \<open>What a source contributes: its answer, or what it last answered.\<close>

definition contribution ::
    "(string \<Rightarrow> FeedConfig list option) \<Rightarrow> 's Source \<times> FeedConfig list result \<Rightarrow> FeedConfig list" where
  "contribution good = (\<lambda>(src, r).
     case r of Inr fs \<Rightarrow> fs
     | Inl _ \<Rightarrow> (case good (srcName src) of Some fs \<Rightarrow> fs | None \<Rightarrow> []))"

definition remembered ::
    "(string \<Rightarrow> FeedConfig list option) \<Rightarrow> 's Source \<times> FeedConfig list result \<Rightarrow>
     FeedConfig list option" where
  "remembered good = (\<lambda>(src, r). case r of Inr fs \<Rightarrow> Some fs | Inl _ \<Rightarrow> good (srcName src))"

lemma contribution_cong:
  "good (srcName (fst p)) = good' (srcName (fst p)) \<Longrightarrow> contribution good p = contribution good' p"
  "good (srcName (fst p)) = good' (srcName (fst p)) \<Longrightarrow> remembered good p = remembered good' p"
  by (auto simp: contribution_def remembered_def split: prod.split sum.split)

lemma desired_loop_spec:
  assumes "desired_loop ps good acc = (merged, good')" "merged_acc old acc"
    and "distinct (map (\<lambda>p. srcName (fst p)) ps)"
  shows "merged = first_by_url (old @ concat (map (contribution good) ps)) \<and>
    (\<forall>p\<in>set ps. good' (srcName (fst p)) = remembered good p) \<and>
    (\<forall>n. n \<notin> (\<lambda>p. srcName (fst p)) ` set ps \<longrightarrow> good' n = good n)"
  using assms
proof (induction ps arbitrary: good acc old)
  case Nil
  then show ?case by (auto simp: merged_acc_def)
next
  case (Cons p ps)
  obtain src r where p: "p = (src, r)" by (cases p)
  define good1 where "good1 = (case r of Inl _ \<Rightarrow> good | Inr feeds \<Rightarrow> good(srcName src \<mapsto> feeds))"
  have rest: "desired_loop ps good1 (merge_loop (contribution good p) acc) = (merged, good')"
    using Cons.prems(1) p by (auto simp: good1_def contribution_def split: sum.splits)
  have same: "good1 (srcName (fst q)) = good (srcName (fst q))" if "q \<in> set ps" for q
    using Cons.prems(3) p that by (auto simp: good1_def image_iff split: sum.split)
  have dist: "distinct (map (\<lambda>p. srcName (fst p)) ps)" and
    new: "srcName src \<notin> (\<lambda>p. srcName (fst p)) ` set ps" using Cons.prems(3) p by auto
  note IH = Cons.IH [OF rest merge_loop_acc [OF Cons.prems(2)] dist]
  have cm: "map (contribution good1) ps = map (contribution good) ps"
    using same by (intro map_cong) (auto intro: contribution_cong)
  have rm: "\<forall>q\<in>set ps. good' (srcName (fst q)) = remembered good q"
    using IH same contribution_cong(2) by metis
  have hd: "good' (srcName src) = remembered good p"
    using IH new p by (auto simp: good1_def remembered_def split: sum.split)
  have oth: "\<forall>n. n \<notin> (\<lambda>p. srcName (fst p)) ` set (p # ps) \<longrightarrow> good' n = good n"
    using IH p by (auto simp: good1_def split: sum.splits)
  from IH cm have "merged = first_by_url (old @ concat (map (contribution good) (p # ps)))" by simp
  with rm hd oth p show ?case by simp
qed

lemma fetch_slots_length:
  "fetch_slots c sources order results s = (results', s') \<Longrightarrow> length results' = length results"
  by (induction order arbitrary: results s) (auto split: prod.splits)

text \<open>Answers that do not depend on when they are read fill the slots the same in every order.\<close>

lemma fetch_slots_fixed:
  assumes "\<And>i s. i \<in> set order \<Longrightarrow> srcFeeds (sources ! i) c s = (f i, s)"
    and "\<forall>i\<in>set order. i < length results"
  shows "fetch_slots c sources order results s =
    (map (\<lambda>i. if i \<in> set order then f i else results ! i) [0..<length results], s)"
  using assms
proof (induction order arbitrary: results)
  case Nil
  then show ?case by (simp add: map_nth)
next
  case (Cons i order)
  from Cons.IH [of "results[i := f i]"] Cons.prems show ?case
    by (auto simp: nth_list_update intro!: map_cong)
qed

subsection \<open>The contract of a provider of feeds\<close>

text \<open>What the scheduler relies on: no URL is listed twice.\<close>

locale feed_provider =
  fixes desired :: "'s \<Rightarrow> FeedConfig list result \<times> 's"
  assumes distinct_urls: "desired s = (Inr fcs, s') \<Longrightarrow> distinct (map fc_URL fcs)"
begin

lemma same_url_same_feed:
  assumes "desired s = (Inr fcs, s')" "fc \<in> set fcs" "fc' \<in> set fcs" "fc_URL fc = fc_URL fc'"
  shows "fc = fc'"
  using distinct_urls [OF assms(1)] assms(2-4) by (auto simp: distinct_map dest: inj_onD)

lemma lookup_url:
  assumes "desired s = (Inr fcs, s')" "fc \<in> set fcs"
  shows "map_of (map (\<lambda>x. (fc_URL x, x)) fcs) (fc_URL fc) = Some fc"
  using distinct_urls [OF assms(1)] assms(2) by (intro map_of_is_SomeI) (auto simp: comp_def)

end

interpretation snapshot: feed_provider "Snapshot c sources"
proof
  fix s :: 'a and fcs s'
  assume "Snapshot c sources s = (Inr fcs, s')"
  then have "snapshot_loop c sources ([], []) s = (Inr fcs, s')" by (simp add: Snapshot_def)
  from snapshot_loop_spec [OF this merged_acc_Nil] show "distinct (map fc_URL fcs)"
    using first_by_url_distinct by auto
qed

lemma desired_loop_distinct:
  "desired_loop ps good acc = (merged, good') \<Longrightarrow> merged_acc old acc \<Longrightarrow>
     distinct (map fc_URL merged)"
proof (induction ps arbitrary: good acc old)
  case Nil
  then show ?case by (auto simp: merged_acc_def first_by_url_distinct)
next
  case (Cons p ps)
  obtain src r where p: "p = (src, r)" by (cases p)
  from Cons.prems(1) p obtain good1 fs where
    "desired_loop ps good1 (merge_loop fs acc) = (merged, good')"
    by (auto split: sum.splits)
  from Cons.IH [OF this merge_loop_acc [OF Cons.prems(2)]] show ?case .
qed

interpretation agg: feed_provider "agg_Desired order c"
  by unfold_locales
    (auto simp: agg_Desired_def intro: desired_loop_distinct [OF _ merged_acc_Nil] split: prod.splits)

subsection \<open>Properties\<close>

text \<open>Precedence of the one-shot snapshot.  Every source was read once, in order, and succeeded;
  no URL is listed twice; a listed feed comes from the first source that has its URL; every URL of
  every source is listed.\<close>

theorem Snapshot_first_source_wins:
  assumes "Snapshot c sources s = (Inr fcs, s')"
  shows "\<exists>fss. source_reads c sources s = (map Inr fss, s') \<and> distinct (map fc_URL fcs) \<and>
    (\<forall>fc\<in>set fcs. \<exists>i<length fss. fc \<in> set (fss ! i) \<and> (\<forall>j<i. fc_URL fc \<notin> fc_URL ` set (fss ! j))) \<and>
    fc_URL ` set fcs = (\<Union>fs\<in>set fss. fc_URL ` set fs)"
proof -
  have "snapshot_loop c sources ([], []) s = (Inr fcs, s')" using assms by (simp add: Snapshot_def)
  from snapshot_loop_spec [OF this merged_acc_Nil] obtain fss where
    fss: "source_reads c sources s = (map Inr fss, s')" "fcs = first_by_url (concat fss)" by auto
  then have "fc_URL ` set fcs = (\<Union>fs\<in>set fss. fc_URL ` set fs)" by (auto simp: first_by_url_urls)
  with fss snapshot.distinct_urls [OF assms] first_by_url_concat show ?thesis by blast
qed

definition toy_feed :: "string \<Rightarrow> duration \<Rightarrow> FeedConfig" where
  "toy_feed u i = \<lparr>fc_URL = u, fc_Interval = i, fc_Sinks = [], fc_HTTP = zero_feed_http\<rparr>"

theorem Snapshot_first_source_wins_witness:
  "distinct (map fc_URL [toy_feed ''a'' 1, toy_feed ''b'' 2])"
  using Snapshot_first_source_wins [of None "[NewStatic ''x'' [toy_feed ''a'' 1],
      NewStatic ''y'' [toy_feed ''a'' 5, toy_feed ''b'' 2]]" "0 :: nat"
      "[toy_feed ''a'' 1, toy_feed ''b'' 2]" 0]
  by (simp add: Snapshot_def NewStatic_def toy_feed_def)

text \<open>Last known good.  A reconcile merges, in source order whatever order the fetches finished
  in, the answer of every source that answered and the last good answer of every source that failed;
  it remembers the former, forgets nothing, and never fails itself.\<close>

theorem Desired_last_known_good:
  assumes "distinct (map srcName (agSources a))"
    and "fetch_slots c (agSources a) order (replicate (length (agSources a)) (Inr [])) s = (results, s1)"
    and "agg_Desired order c (a, s) = (r, (a', s'))"
  shows "r = Inr (first_by_url (concat (map (contribution (lastGood a)) (zip (agSources a) results)))) \<and>
    s' = s1 \<and> agSources a' = agSources a \<and>
    (\<forall>i<length (agSources a). lastGood a' (srcName (agSources a ! i)) =
       (case results ! i of Inr fs \<Rightarrow> Some fs | Inl _ \<Rightarrow> lastGood a (srcName (agSources a ! i))))"
proof -
  obtain merged good where dl: "desired_loop (zip (agSources a) results) (lastGood a) ([], []) =
      (merged, good)" by fastforce
  have res: "r = Inr merged" "a' = a\<lparr>lastGood := good\<rparr>" "s' = s1"
    using assms(2,3) dl by (auto simp: agg_Desired_def)
  have len: "length results = length (agSources a)" using fetch_slots_length [OF assms(2)] by simp
  then have "map (\<lambda>p. srcName (fst p)) (zip (agSources a) results) = map srcName (agSources a)"
    using map_map [of srcName fst "zip (agSources a) results"] by (simp add: comp_def)
  then have dist: "distinct (map (\<lambda>p. srcName (fst p)) (zip (agSources a) results))" using assms(1) by simp
  from desired_loop_spec [OF dl merged_acc_Nil dist]
  have sp: "merged = first_by_url (concat (map (contribution (lastGood a)) (zip (agSources a) results)))"
    "\<forall>p\<in>set (zip (agSources a) results). good (srcName (fst p)) = remembered (lastGood a) p" by auto
  have "good (srcName (agSources a ! i)) = remembered (lastGood a) (agSources a ! i, results ! i)"
    if "i < length (agSources a)" for i
  proof -
    have "(agSources a ! i, results ! i) \<in> set (zip (agSources a) results)"
      using that len by (auto simp: in_set_zip)
    with sp(2) show ?thesis by fastforce
  qed
  then show ?thesis by (simp add: res sp(1) remembered_def)
qed

theorem Desired_last_known_good_witness:
  "\<exists>a'. agg_Desired [1, 0] None
     (\<lparr>agSources = [\<lparr>srcName = ''db'', srcFeeds = (\<lambda>c s. (Inl Canceled, s))\<rparr>,
                     NewStatic ''y'' [toy_feed ''a'' 5, toy_feed ''b'' 2]],
       agOut = False, lastGood = [''db'' \<mapsto> [toy_feed ''a'' 1]]\<rparr>, 0 :: nat) =
     (Inr [toy_feed ''a'' 1, toy_feed ''b'' 2], (a', 0)) \<and> lastGood a' ''db'' = Some [toy_feed ''a'' 1]"
proof -
  let ?a = "\<lparr>agSources = [\<lparr>srcName = ''db'', srcFeeds = (\<lambda>c s. (Inl Canceled, s))\<rparr>,
                     NewStatic ''y'' [toy_feed ''a'' 5, toy_feed ''b'' 2]],
       agOut = False, lastGood = [''db'' \<mapsto> [toy_feed ''a'' 1]]\<rparr> :: nat Aggregator"
  obtain r a' s' where d: "agg_Desired [1, 0] None (?a, 0) = (r, (a', s'))" by (metis prod.collapse)
  have "distinct (map srcName (agSources ?a))" by (simp add: NewStatic_def)
  moreover have "fetch_slots None (agSources ?a) [1, 0] (replicate (length (agSources ?a)) (Inr [])) 0 =
      ([Inl Canceled, Inr [toy_feed ''a'' 5, toy_feed ''b'' 2]], 0)"
    by (simp add: NewStatic_def)
  ultimately have "r = Inr [toy_feed ''a'' 1, toy_feed ''b'' 2] \<and> s' = 0 \<and>
      lastGood a' ''db'' = Some [toy_feed ''a'' 1]"
    using Desired_last_known_good [OF _ _ d]
    by (fastforce simp: contribution_def NewStatic_def toy_feed_def)
  with d show ?thesis by blast
qed

end
