(* ===== verification/Scheduler.thy ===== *)
theory Scheduler
  imports Feedsource Change_Model "HOL-Library.AList" "HOL-Library.Multiset"
begin

section \<open>The daemon's schedulers (\<^verbatim>\<open>internal/scheduler/serve.go\<close>, \<^verbatim>\<open>internal/scheduler/dynamic.go\<close>)\<close>

text \<open>
  \<open>ServeDynamic\<close> keeps one loop per feed and reconciles that set with what the provider desires.  A
  Go map is an association list without duplicate keys; the order in which a \<^verbatim>\<open>range\<close> over it visits
  the entries is the argument \<open>ord\<close>, of which only is known that it permutes.  The goroutines of
  the loops are numbered, so that a loop that was left alone can be told from one that was restarted.
  What the optional callbacks would be told is the \<open>trace\<close>.  A poll is one step: the daemon waits for
  the poll of a loop it stops (\<^verbatim>\<open>rf.cancel(); <-rf.done\<close>).
\<close>

subsection \<open>One tick\<close>

record ('p, 's) FeedPipelines =
  fpURL :: "'p \<Rightarrow> string"
  fpRunOnce :: "'p \<Rightarrow> ctx \<Rightarrow> string \<Rightarrow> time \<Rightarrow> 's \<Rightarrow> change list result \<times> 's"

record tick_report =
  tkCollect :: "go_error option"
  tkComplete :: "(int \<times> go_error option \<times> time) option"
  tkOverrun :: "duration option"

definition tick ::
    "'s runtime \<Rightarrow> ('p, 's) FeedPipelines \<Rightarrow> ctx \<Rightarrow> 'p \<Rightarrow> 's \<Rightarrow> tick_report \<times> 's" where
  "tick rt fp c p s =
     (let t0 = rt_now rt s
      in case fpRunOnce fp p c (fpURL fp p) t0 s of
           (r, s1) \<Rightarrow>
             let err = (case r of Inl e \<Rightarrow> Some e | Inr _ \<Rightarrow> None);
                 n = (case r of Inl _ \<Rightarrow> 0 | Inr chs \<Rightarrow> int (length chs))
             in (\<lparr>tkCollect = (case err of
                                Some e \<Rightarrow> if is_canceled e then None else Some e
                              | None \<Rightarrow> None),
                  tkComplete = (if ctx_Err rt c s1 = None then Some (n, err, t0) else None),
                  tkOverrun = None\<rparr>, s1))"

definition runTick ::
    "'s runtime \<Rightarrow> ('p, 's) FeedPipelines \<Rightarrow> ctx \<Rightarrow> 'p \<Rightarrow> duration \<Rightarrow> 's \<Rightarrow> tick_report \<times> 's" where
  "runTick rt fp c p interval s =
     (let start = rt_now rt s
      in case tick rt fp c p s of
           (rep, s1) \<Rightarrow>
             let took = rt_now rt s1 - start
             in (rep\<lparr>tkOverrun :=
                       (if took > interval \<and> ctx_Err rt c s1 = None then Some took else None)\<rparr>, s1))"

subsection \<open>The fixed set: \<^verbatim>\<open>Serve\<close>\<close>

text \<open>Which loops are started, and the errors collected for the others.\<close>

fun serve_start ::
    "('p, 's) FeedPipelines \<Rightarrow> (string \<Rightarrow> duration option) \<Rightarrow> 'p list \<Rightarrow>
     ('p \<times> duration) list \<times> go_error list" where
  "serve_start fp intervals [] = ([], [])"
| "serve_start fp intervals (p # ps) =
     (case serve_start fp intervals ps of
        (loops, errs) \<Rightarrow>
          (case intervals (fpURL fp p) of
             None \<Rightarrow> (loops, Errorf ''scheduler: no interval for feed %s'' [FStr (fpURL fp p)] # errs)
           | Some interval \<Rightarrow>
               if interval \<le> 0
               then (loops, Errorf ''scheduler: no interval for feed %s'' [FStr (fpURL fp p)] # errs)
               else ((p, interval) # loops, errs)))"

text \<open>The ticks of all loops in the order in which they happen; \<open>drained\<close> says whether the loops
  ended within the grace period.\<close>

fun serve_ticks ::
    "'s runtime \<Rightarrow> ('p, 's) FeedPipelines \<Rightarrow> ctx \<Rightarrow> ('p \<times> duration) list \<Rightarrow> go_error list \<Rightarrow> 's \<Rightarrow>
     go_error list \<times> 's" where
  "serve_ticks rt fp c [] joined s = (joined, s)"
| "serve_ticks rt fp c ((p, interval) # ticks) joined s =
     (case runTick rt fp c p interval s of
        (rep, s1) \<Rightarrow>
          serve_ticks rt fp c ticks
            (case tkCollect rep of Some e \<Rightarrow> joined @ [e] | None \<Rightarrow> joined) s1)"

definition serve_drain :: "duration \<Rightarrow> duration" where
  "serve_drain d = (if d \<le> 0 then 30 * second else d)"

definition Serve ::
    "'s runtime \<Rightarrow> ('p, 's) FeedPipelines \<Rightarrow> (string \<Rightarrow> duration option) \<Rightarrow> 'p list \<Rightarrow> ctx \<Rightarrow>
     (('p \<times> duration) list \<Rightarrow> ('p \<times> duration) list) \<Rightarrow> bool \<Rightarrow> 's \<Rightarrow> go_error option \<times> 's" where
  "Serve rt fp intervals pipelines c interleave drained s =
     (case serve_start fp intervals pipelines of
        (loops, errs) \<Rightarrow>
          (case serve_ticks rt fp c (interleave loops) errs s of
             (joined, s1) \<Rightarrow>
               (errors_Join (map Some
                  (joined @ (if drained then []
                             else [Errorf ''scheduler: drain timeout exceeded'' []]))), s1)))"

subsection \<open>The reconciled set: \<^verbatim>\<open>ServeDynamic\<close>\<close>

record 'p runningFeed =
  rfCfg :: FeedConfig
  rfPipe :: 'p
  rfPoke :: bool
  rfLoop :: nat

datatype dyn_event =
    Started string nat
  | Stopped string nat
  | OnError go_error
  | OnReconcile int int int

record 'p daemon =
  running :: "(string \<times> 'p runningFeed) list"
  nextLoop :: nat
  trace :: "dyn_event list"

type_synonym 'a visit = "'a list \<Rightarrow> 'a list"

text \<open>\<^verbatim>\<open>reflect.DeepEqual\<close>: header maps are compared as maps.  (The model has no nil slices; the code
  takes a nil and an empty one for different and restarts the loop, which does no harm.)\<close>

definition same_headers :: "(string \<times> string) list \<Rightarrow> (string \<times> string) list \<Rightarrow> bool" where
  "same_headers h h' \<longleftrightarrow> (\<forall>k\<in>set (map fst h @ map fst h'). map_of h k = map_of h' k)"

definition DeepEqual :: "FeedConfig \<Rightarrow> FeedConfig \<Rightarrow> bool" where
  "DeepEqual x y \<longleftrightarrow>
     fc_URL x = fc_URL y \<and> fc_Interval x = fc_Interval y \<and> fc_Sinks x = fc_Sinks y \<and>
     fd_Timeout (fc_HTTP x) = fd_Timeout (fc_HTTP y) \<and> fd_Retry (fc_HTTP x) = fd_Retry (fc_HTTP y) \<and>
     same_headers (fd_Headers (fc_HTTP x)) (fd_Headers (fc_HTTP y))"

definition by_url :: "FeedConfig list \<Rightarrow> (string \<times> FeedConfig) list" where
  "by_url desired = fold (\<lambda>fc m. AList.update (fc_URL fc) fc m) desired []"

definition unchanged :: "(string \<times> 'p runningFeed) list \<Rightarrow> string \<Rightarrow> FeedConfig \<Rightarrow> bool" where
  "unchanged run url fc =
     (case map_of run url of Some rf \<Rightarrow> DeepEqual (rfCfg rf) fc | None \<Rightarrow> False)"

fun prebuild ::
    "(FeedConfig \<Rightarrow> 's \<Rightarrow> 'p result \<times> 's) \<Rightarrow> (string \<times> 'p runningFeed) list \<Rightarrow>
     (string \<times> FeedConfig) list \<Rightarrow> (string \<times> 'p) list \<Rightarrow> 's \<Rightarrow> (string \<times> 'p) list result \<times> 's" where
  "prebuild factory run [] toStart s = (Inr toStart, s)"
| "prebuild factory run ((url, fc) # es) toStart s =
     (if unchanged run url fc then prebuild factory run es toStart s
      else if fc_Interval fc \<le> 0
      then (Inl (Errorf ''feed %s: interval is required (minimum 1s)'' [FStr (fc_URL fc)]), s)
      else case factory fc s of
             (Inl err, s1) \<Rightarrow> (Inl err, s1)
           | (Inr p, s1) \<Rightarrow> prebuild factory run es (AList.update url p toStart) s1)"

fun stop_removed ::
    "(string \<times> FeedConfig) list \<Rightarrow> (string \<times> 'p runningFeed) list \<Rightarrow> 'p daemon \<times> int \<Rightarrow>
     'p daemon \<times> int" where
  "stop_removed byURL [] acc = acc"
| "stop_removed byURL ((url, rf) # rest) (d, removed) =
     stop_removed byURL rest
       (if map_of byURL url = None
        then (d\<lparr>running := AList.delete url (running d),
                trace := trace d @ [Stopped url (rfLoop rf)]\<rparr>, removed + 1)
        else (d, removed))"

definition startFeed :: "string \<Rightarrow> FeedConfig \<Rightarrow> 'p \<Rightarrow> 'p daemon \<Rightarrow> 'p daemon" where
  "startFeed url fc p d =
     d\<lparr>running := AList.update url
          \<lparr>rfCfg = fc, rfPipe = p, rfPoke = False, rfLoop = nextLoop d\<rparr> (running d),
       nextLoop := Suc (nextLoop d), trace := trace d @ [Started url (nextLoop d)]\<rparr>"

fun apply_start ::
    "(string \<times> FeedConfig) list \<Rightarrow> (string \<times> 'p) list \<Rightarrow> 'p daemon \<times> int \<times> int \<Rightarrow>
     'p daemon \<times> int \<times> int" where
  "apply_start byURL [] acc = acc"
| "apply_start byURL ((url, p) # rest) (d, added, changed) =
     apply_start byURL rest
       (case map_of (running d) url of
          Some rf \<Rightarrow>
            (startFeed url (the (map_of byURL url)) p
               (d\<lparr>trace := trace d @ [Stopped url (rfLoop rf)]\<rparr>), added, changed + 1)
        | None \<Rightarrow> (startFeed url (the (map_of byURL url)) p d, added + 1, changed))"

definition reconcile ::
    "(string \<times> FeedConfig) visit \<Rightarrow> (string \<times> 'p runningFeed) visit \<Rightarrow> (string \<times> 'p) visit \<Rightarrow>
     ('s \<Rightarrow> FeedConfig list result \<times> 's) \<Rightarrow> (FeedConfig \<Rightarrow> 's \<Rightarrow> 'p result \<times> 's) \<Rightarrow>
     'p daemon \<times> 's \<Rightarrow> 'p daemon \<times> 's" where
  "reconcile ord1 ord2 ord3 desired factory = (\<lambda>(d, s).
     case desired s of
       (Inl err, s1) \<Rightarrow> (d\<lparr>trace := trace d @ [OnError err]\<rparr>, s1)
     | (Inr feeds, s1) \<Rightarrow>
         let byURL = by_url feeds
         in case prebuild factory (running d) (ord1 byURL) [] s1 of
              (Inl err, s2) \<Rightarrow> (d\<lparr>trace := trace d @ [OnError err]\<rparr>, s2)
            | (Inr toStart, s2) \<Rightarrow>
                (case stop_removed byURL (ord2 (running d)) (d, 0) of
                   (d1, removed) \<Rightarrow>
                     (case apply_start byURL (ord3 toStart) (d1, 0, 0) of
                        (d2, added, changed) \<Rightarrow>
                          (d2\<lparr>trace := trace d2 @ [OnReconcile added removed changed]\<rparr>, s2))))"

text \<open>\<^verbatim>\<open>PollNow\<close>: the poke channel has room for one.\<close>

definition poke :: "string \<Rightarrow> 'p daemon \<Rightarrow> 'p daemon" where
  "poke url d =
     (case map_of (running d) url of
        Some rf \<Rightarrow> d\<lparr>running := AList.update url (rf\<lparr>rfPoke := True\<rparr>) (running d)\<rparr>
      | None \<Rightarrow> d)"

datatype dyn_input = Changes | PollNow string | TimerTick string | PokeTick string

text \<open>One turn of the daemon: a turn of its select, or a turn of the select of one of its loops.\<close>

definition dyn_step ::
    "'s runtime \<Rightarrow> ('p, 's) FeedPipelines \<Rightarrow> ctx \<Rightarrow> ('p daemon \<times> 's \<Rightarrow> 'p daemon \<times> 's) \<Rightarrow>
     dyn_input \<Rightarrow> 'p daemon \<times> 's \<Rightarrow> 'p daemon \<times> 's" where
  "dyn_step rt fp c rec inp = (\<lambda>(d, s).
     case inp of
       Changes \<Rightarrow> rec (d, s)
     | PollNow url \<Rightarrow> (poke url d, s)
     | TimerTick url \<Rightarrow>
         (case map_of (running d) url of
            None \<Rightarrow> (d, s)
          | Some rf \<Rightarrow> (d, snd (runTick rt fp c (rfPipe rf) (fc_Interval (rfCfg rf)) s)))
     | PokeTick url \<Rightarrow>
         (case map_of (running d) url of
            None \<Rightarrow> (d, s)
          | Some rf \<Rightarrow>
              if rfPoke rf
              then (d\<lparr>running := AList.update url (rf\<lparr>rfPoke := False\<rparr>) (running d)\<rparr>,
                    snd (runTick rt fp c (rfPipe rf) (fc_Interval (rfCfg rf)) s))
              else (d, s)))"

definition idle_daemon :: "'p daemon" where
  "idle_daemon = \<lparr>running = [], nextLoop = 0, trace = []\<rparr>"

text \<open>The daemon up to the cancellation of its context: reconcile once, then the inputs.\<close>

definition ServeDynamic ::
    "'s runtime \<Rightarrow> ('p, 's) FeedPipelines \<Rightarrow> ctx \<Rightarrow> ('p daemon \<times> 's \<Rightarrow> 'p daemon \<times> 's) \<Rightarrow>
     dyn_input list \<Rightarrow> 's \<Rightarrow> 'p daemon \<times> 's" where
  "ServeDynamic rt fp c rec inputs s =
     fold (dyn_step rt fp c rec) inputs (rec (idle_daemon, s))"

subsection \<open>Lookup laws\<close>

declare map_of_eq_Some_iff [simp del] Some_eq_map_of_iff [simp del]

definition permuting :: "'a visit \<Rightarrow> bool" where
  "permuting ord \<longleftrightarrow> (\<forall>xs. mset (ord xs) = mset xs)"

lemma permuting_set [simp]: "permuting ord \<Longrightarrow> set (ord xs) = set xs"
  unfolding permuting_def by (metis set_mset_mset)

lemma permuting_distinct_keys:
  assumes "permuting ord" "distinct (map fst xs)"
  shows "distinct (map fst (ord xs))"
proof -
  have "mset (map fst (ord xs)) = mset (map fst xs)" using assms(1) by (simp add: permuting_def)
  then show ?thesis using assms(2) by (metis mset_eq_imp_distinct_iff)
qed

lemma key_in_dom: "(u, v) \<in> set xs \<Longrightarrow> u \<in> dom (map_of xs)"
  by (simp add: dom_map_of_conv_image_fst image_iff) (metis fst_conv)

lemma by_url_map: "map_of (by_url fcs) = map_of (rev (map (\<lambda>fc. (fc_URL fc, fc)) fcs))"
proof -
  have "map_of (fold (\<lambda>fc m. AList.update (fc_URL fc) fc m) fcs m) =
      map_of m ++ map_of (rev (map (\<lambda>fc. (fc_URL fc, fc)) fcs))" for m
    by (induction fcs arbitrary: m)
      (simp_all add: update_conv' fun_eq_iff map_add_def split: option.split)
  from this [of "[]"] show ?thesis by (simp add: by_url_def)
qed

lemma by_url_lookup:
  "map_of (by_url fcs) u = Some fc \<Longrightarrow> fc_URL fc = u \<and> fc \<in> set fcs"
  "dom (map_of (by_url fcs)) = fc_URL ` set fcs"
  by (auto simp: by_url_map dom_map_of_conv_image_fst image_image dest!: map_of_SomeD)

lemma by_url_distinct: "distinct (map fst (by_url fcs))"
proof -
  have "distinct (map fst m) \<Longrightarrow>
      distinct (map fst (fold (\<lambda>fc m. AList.update (fc_URL fc) fc m) fcs m))" for m
    by (induction fcs arbitrary: m) (simp_all add: distinct_update)
  then show ?thesis by (simp add: by_url_def)
qed

context feed_provider
begin

lemma by_url_desired:
  assumes "desired s = (Inr fcs, s')"
  shows "map_of (by_url fcs) u = Some fc \<longleftrightarrow> fc \<in> set fcs \<and> fc_URL fc = u"
proof
  assume "fc \<in> set fcs \<and> fc_URL fc = u"
  then have "u \<in> dom (map_of (by_url fcs))" by (auto simp: by_url_lookup(2))
  then obtain fc' where "map_of (by_url fcs) u = Some fc'" by blast
  with by_url_lookup(1) [OF this] same_url_same_feed [OF assms] \<open>fc \<in> set fcs \<and> fc_URL fc = u\<close>
  show "map_of (by_url fcs) u = Some fc" by metis
qed (auto dest: by_url_lookup(1))

end

subsection \<open>The phases of a reconcile\<close>

definition built :: "(FeedConfig \<Rightarrow> 's \<Rightarrow> 'p result \<times> 's) \<Rightarrow> FeedConfig \<Rightarrow> 'p \<Rightarrow> bool" where
  "built factory fc p \<longleftrightarrow> (\<exists>s1 s2. factory fc s1 = (Inr p, s2))"

lemma prebuild_spec:
  assumes "prebuild factory run es acc s = (Inr toStart, s')" "distinct (map fst acc)"
  shows "distinct (map fst toStart)"
    "dom (map_of toStart) =
      dom (map_of acc) \<union> {u. \<exists>fc. (u, fc) \<in> set es \<and> \<not> unchanged run u fc}"
    "(u, fc) \<in> set es \<Longrightarrow> \<not> unchanged run u fc \<Longrightarrow> 0 < fc_Interval fc \<and> (\<exists>p. built factory fc p)"
    "map_of toStart u = Some p \<Longrightarrow> map_of acc u = Some p \<or> (\<exists>fc. (u, fc) \<in> set es \<and> built factory fc p)"
proof -
  have "distinct (map fst toStart) \<and>
    dom (map_of toStart) =
      dom (map_of acc) \<union> {u. \<exists>fc. (u, fc) \<in> set es \<and> \<not> unchanged run u fc} \<and>
    (\<forall>u fc. (u, fc) \<in> set es \<longrightarrow> \<not> unchanged run u fc \<longrightarrow>
       0 < fc_Interval fc \<and> (\<exists>p. built factory fc p)) \<and>
    (\<forall>u p. map_of toStart u = Some p \<longrightarrow>
       map_of acc u = Some p \<or> (\<exists>fc. (u, fc) \<in> set es \<and> built factory fc p))"
    using assms
  proof (induction factory run es acc s rule: prebuild.induct)
    case (2 factory run url fc es acc s)
    show ?case
    proof (cases "unchanged run url fc")
      case True
      with "2.prems" have "prebuild factory run es acc s = (Inr toStart, s')" by simp
      note IH = "2.IH"(1) [OF True this "2.prems"(2)]
      with True show ?thesis by simp blast
    next
      case False
      with "2.prems" obtain p s1 where f: "0 < fc_Interval fc" "factory fc s = (Inr p, s1)"
        "prebuild factory run es (AList.update url p acc) s1 = (Inr toStart, s')"
        by (auto split: if_splits prod.splits sum.splits)
      have b: "built factory fc p" using f(2) by (auto simp: built_def)
      have "\<not> fc_Interval fc \<le> 0" using f(1) by simp
      note IH = "2.IH"(2) [OF False this f(2) [symmetric] refl f(3) distinct_update [OF "2.prems"(2)]]
      have "map_of acc u = Some q \<or> (\<exists>fc'. (u, fc') \<in> set ((url, fc) # es) \<and> built factory fc' q)"
        if "map_of toStart u = Some q" for u q
      proof (cases "u = url \<and> q = p")
        case True
        with b show ?thesis by auto
      next
        case other: False
        from IH that have "map_of (AList.update url p acc) u = Some q \<or>
            (\<exists>fc'. (u, fc') \<in> set es \<and> built factory fc' q)" by blast
        with other show ?thesis by (auto simp: update_conv' split: if_splits)
      qed
      moreover have "dom (map_of toStart) =
          dom (map_of acc) \<union> {u. \<exists>fc'. (u, fc') \<in> set ((url, fc) # es) \<and> \<not> unchanged run u fc'}"
        using IH False by (auto simp: update_conv' dom_def)
      ultimately show ?thesis using IH f(1) b by auto
    qed
  qed auto
  then show "distinct (map fst toStart)"
    "dom (map_of toStart) =
      dom (map_of acc) \<union> {u. \<exists>fc. (u, fc) \<in> set es \<and> \<not> unchanged run u fc}"
    "(u, fc) \<in> set es \<Longrightarrow> \<not> unchanged run u fc \<Longrightarrow> 0 < fc_Interval fc \<and> (\<exists>p. built factory fc p)"
    "map_of toStart u = Some p \<Longrightarrow> map_of acc u = Some p \<or> (\<exists>fc. (u, fc) \<in> set es \<and> built factory fc p)"
    by blast+
qed

lemma prebuild_total:
  assumes "\<forall>u fc. (u, fc) \<in> set es \<longrightarrow> \<not> unchanged run u fc \<longrightarrow>
    0 < fc_Interval fc \<and> (\<forall>s. \<exists>p s'. factory fc s = (Inr p, s'))"
  shows "\<exists>toStart s'. prebuild factory run es acc s = (Inr toStart, s')"
  using assms
proof (induction factory run es acc s rule: prebuild.induct)
  case (2 factory run url fc es acc s)
  show ?case
  proof (cases "unchanged run url fc")
    case True
    from "2.prems" have "\<forall>u fc. (u, fc) \<in> set es \<longrightarrow> \<not> unchanged run u fc \<longrightarrow>
      0 < fc_Interval fc \<and> (\<forall>s. \<exists>p s'. factory fc s = (Inr p, s'))" by simp
    with "2.IH"(1) [OF True] True show ?thesis by simp
  next
    case False
    with "2.prems" obtain p s1 where "0 < fc_Interval fc" "factory fc s = (Inr p, s1)"
      by (meson list.set_intros(1))
    moreover from "2.prems" have "\<forall>u fc. (u, fc) \<in> set es \<longrightarrow> \<not> unchanged run u fc \<longrightarrow>
      0 < fc_Interval fc \<and> (\<forall>s. \<exists>p s'. factory fc s = (Inr p, s'))" by simp
    ultimately show ?thesis using "2.IH"(2) [OF False] False by simp
  qed
qed simp

lemma stop_removed_spec:
  assumes "stop_removed byURL es (d, k) = (d', k')" "distinct (map fst es)"
  shows "nextLoop d' = nextLoop d \<and>
    map_of (running d') = (\<lambda>u. if u \<in> fst ` set es \<and> map_of byURL u = None then None
                               else map_of (running d) u) \<and>
    k' = k + int (length (filter (\<lambda>(u, rf). map_of byURL u = None) es))"
  using assms
proof (induction byURL es "(d, k)" arbitrary: d k rule: stop_removed.induct)
  case (2 byURL url rf rest d k)
  show ?case
  proof (cases "map_of byURL url = None")
    case True
    with "2.prems" "2.hyps" show ?thesis by (auto simp: delete_conv' fun_eq_iff)
  next
    case False
    with "2.prems" "2.hyps" show ?thesis by (auto simp: fun_eq_iff)
  qed
qed simp

lemma startFeed_sel [simp]:
  "map_of (running (startFeed url fc p d)) =
     (map_of (running d))(url \<mapsto> \<lparr>rfCfg = fc, rfPipe = p, rfPoke = False, rfLoop = nextLoop d\<rparr>)"
  "nextLoop (startFeed url fc p d) = Suc (nextLoop d)"
  "trace (startFeed url fc p d) = trace d @ [Started url (nextLoop d)]"
  by (simp_all add: startFeed_def update_conv')

lemma apply_start_spec:
  assumes "apply_start byURL es (d, a, c) = (d', a', c')" "distinct (map fst es)"
  shows "nextLoop d \<le> nextLoop d'"
    and "u \<notin> fst ` set es \<Longrightarrow> map_of (running d') u = map_of (running d) u"
    and "(u, p) \<in> set es \<Longrightarrow> \<exists>n. nextLoop d \<le> n \<and> n < nextLoop d' \<and> map_of (running d') u =
        Some \<lparr>rfCfg = the (map_of byURL u), rfPipe = p, rfPoke = False, rfLoop = n\<rparr>"
    and "a' = a + int (length (filter (\<lambda>(u, p). map_of (running d) u = None) es))"
    and "c' = c + int (length (filter (\<lambda>(u, p). map_of (running d) u \<noteq> None) es))"
proof -
  have "nextLoop d \<le> nextLoop d' \<and>
    (\<forall>u. u \<notin> fst ` set es \<longrightarrow> map_of (running d') u = map_of (running d) u) \<and>
    (\<forall>u p. (u, p) \<in> set es \<longrightarrow> (\<exists>n. nextLoop d \<le> n \<and> n < nextLoop d' \<and> map_of (running d') u =
        Some \<lparr>rfCfg = the (map_of byURL u), rfPipe = p, rfPoke = False, rfLoop = n\<rparr>)) \<and>
    a' = a + int (length (filter (\<lambda>(u, p). map_of (running d) u = None) es)) \<and>
    c' = c + int (length (filter (\<lambda>(u, p). map_of (running d) u \<noteq> None) es))"
    using assms
  proof (induction es arbitrary: d a c)
    case (Cons e es)
    obtain url q where e: "e = (url, q)" by (cases e)
    let ?fc = "the (map_of byURL url)"
    define d1 where "d1 = (case map_of (running d) url of
        Some rf \<Rightarrow> startFeed url ?fc q (d\<lparr>trace := trace d @ [Stopped url (rfLoop rf)]\<rparr>)
      | None \<Rightarrow> startFeed url ?fc q d)"
    define a1 c1 where "a1 = (if map_of (running d) url = None then a + 1 else a)"
      and "c1 = (if map_of (running d) url = None then c else c + 1)"
    have step: "apply_start byURL es (d1, a1, c1) = (d', a', c')"
      using Cons.prems(1) by (auto simp: e d1_def a1_def c1_def split: option.splits)
    have new: "url \<notin> fst ` set es" and dist: "distinct (map fst es)" using Cons.prems(2) e by auto
    have run1: "map_of (running d1) =
        (map_of (running d))(url \<mapsto> \<lparr>rfCfg = ?fc, rfPipe = q, rfPoke = False, rfLoop = nextLoop d\<rparr>)"
      and next1: "nextLoop d1 = Suc (nextLoop d)"
      by (auto simp: d1_def split: option.split)
    note IH = Cons.IH [OF step dist]
    have keep: "filter (\<lambda>(u, p). map_of (running d1) u = None) es =
        filter (\<lambda>(u, p). map_of (running d) u = None) es"
      "filter (\<lambda>(u, p). map_of (running d1) u \<noteq> None) es =
        filter (\<lambda>(u, p). map_of (running d) u \<noteq> None) es"
      using new by (auto intro!: filter_cong simp: run1 image_iff)
    have "map_of (running d') url = map_of (running d1) url" "nextLoop d1 \<le> nextLoop d'"
      using IH new by blast+
    then have "nextLoop d \<le> nextLoop d \<and> nextLoop d < nextLoop d' \<and> map_of (running d') url =
        Some \<lparr>rfCfg = ?fc, rfPipe = q, rfPoke = False, rfLoop = nextLoop d\<rparr>"
      by (simp add: run1 next1)
    moreover have "\<exists>n. nextLoop d \<le> n \<and> n < nextLoop d' \<and> map_of (running d') u =
        Some \<lparr>rfCfg = the (map_of byURL u), rfPipe = p, rfPoke = False, rfLoop = n\<rparr>"
      if "(u, p) \<in> set es" for u p
    proof -
      from IH that obtain n where "nextLoop d1 \<le> n" "n < nextLoop d'" "map_of (running d') u =
        Some \<lparr>rfCfg = the (map_of byURL u), rfPipe = p, rfPoke = False, rfLoop = n\<rparr>" by blast
      then show ?thesis using next1 by (intro exI [of _ n]) simp
    qed
    ultimately have "\<forall>u p. (u, p) \<in> set (e # es) \<longrightarrow> (\<exists>n. nextLoop d \<le> n \<and> n < nextLoop d' \<and>
        map_of (running d') u =
        Some \<lparr>rfCfg = the (map_of byURL u), rfPipe = p, rfPoke = False, rfLoop = n\<rparr>)"
      using e by auto
    moreover have "\<forall>u. u \<notin> fst ` set (e # es) \<longrightarrow> map_of (running d') u = map_of (running d) u"
      using IH e by (simp add: run1)
    moreover have "nextLoop d \<le> nextLoop d'" using IH next1 by simp
    moreover have "a' = a1 + int (length (filter (\<lambda>(u, p). map_of (running d) u = None) es))"
      "c' = c1 + int (length (filter (\<lambda>(u, p). map_of (running d) u \<noteq> None) es))"
      using IH unfolding keep by blast+
    ultimately show ?case by (simp add: e a1_def c1_def)
  qed simp
  then show "nextLoop d \<le> nextLoop d'"
    "u \<notin> fst ` set es \<Longrightarrow> map_of (running d') u = map_of (running d) u"
    "(u, p) \<in> set es \<Longrightarrow> \<exists>n. nextLoop d \<le> n \<and> n < nextLoop d' \<and> map_of (running d') u =
        Some \<lparr>rfCfg = the (map_of byURL u), rfPipe = p, rfPoke = False, rfLoop = n\<rparr>"
    "a' = a + int (length (filter (\<lambda>(u, p). map_of (running d) u = None) es))"
    "c' = c + int (length (filter (\<lambda>(u, p). map_of (running d) u \<noteq> None) es))"
    by blast+
qed

subsection \<open>One loop per feed\<close>

text \<open>Replaying a trace: a loop is started only where none is live, and the live one is stopped.  The
  result is the live loop of every feed, or \<open>None\<close> for a trace that breaks the rule.\<close>

fun replay :: "(string \<Rightarrow> nat option) \<Rightarrow> dyn_event list \<Rightarrow> (string \<Rightarrow> nat option) option" where
  "replay live [] = Some live"
| "replay live (Started u n # es) = (if live u = None then replay (live(u \<mapsto> n)) es else None)"
| "replay live (Stopped u n # es) = (if live u = Some n then replay (live(u := None)) es else None)"
| "replay live (OnError e # es) = replay live es"
| "replay live (OnReconcile a r c # es) = replay live es"

lemma replay_append:
  "replay live (xs @ ys) = (case replay live xs of None \<Rightarrow> None | Some l \<Rightarrow> replay l ys)"
proof (induction xs arbitrary: live)
  case (Cons e xs)
  then show ?case by (cases e) (simp_all add: fun_upd_def)
qed simp

definition live_loops :: "'p daemon \<Rightarrow> string \<Rightarrow> nat option" where
  "live_loops d u = map_option rfLoop (map_of (running d) u)"

definition daemon_ok :: "'p daemon \<Rightarrow> bool" where
  "daemon_ok d \<longleftrightarrow> distinct (map fst (running d)) \<and>
     (\<forall>u rf. map_of (running d) u = Some rf \<longrightarrow>
        fc_URL (rfCfg rf) = u \<and> 0 < fc_Interval (rfCfg rf) \<and> rfLoop rf < nextLoop d) \<and>
     replay Map.empty (trace d) = Some (live_loops d)"

lemma ok_event:
  assumes "daemon_ok d" "\<And>live. replay live [e] = Some live"
  shows "daemon_ok (d\<lparr>trace := trace d @ [e]\<rparr>)"
proof -
  have "live_loops (d\<lparr>trace := trace d @ [e]\<rparr>) = live_loops d" by (simp add: live_loops_def fun_eq_iff)
  with assms show ?thesis by (simp add: daemon_ok_def replay_append)
qed

lemma ok_stop:
  assumes "daemon_ok d" "map_of (running d) u = Some rf"
  shows "daemon_ok (d\<lparr>running := AList.delete u (running d), trace := trace d @ [Stopped u (rfLoop rf)]\<rparr>)"
proof -
  have "live_loops (d\<lparr>running := AList.delete u (running d), trace := t\<rparr>) = (live_loops d)(u := None)" for t
    by (simp add: live_loops_def fun_eq_iff delete_conv')
  moreover have "live_loops d u = Some (rfLoop rf)" using assms(2) by (simp add: live_loops_def)
  ultimately show ?thesis
    using assms(1) by (simp add: daemon_ok_def replay_append distinct_delete delete_conv')
qed

lemma ok_start:
  assumes "distinct (map fst (running d))"
    and "\<And>v rf. map_of (running d) v = Some rf \<Longrightarrow> v \<noteq> u \<Longrightarrow>
          fc_URL (rfCfg rf) = v \<and> 0 < fc_Interval (rfCfg rf) \<and> rfLoop rf < nextLoop d"
    and "replay Map.empty (trace d) = Some ((live_loops d)(u := None))"
    and "fc_URL fc = u" "0 < fc_Interval fc"
  shows "daemon_ok (startFeed u fc p d)"
proof -
  have "live_loops (startFeed u fc p d) = (live_loops d)(u \<mapsto> nextLoop d)"
    by (simp add: live_loops_def fun_eq_iff)
  moreover have "distinct (map fst (running (startFeed u fc p d)))"
    using assms(1) by (simp add: startFeed_def distinct_update)
  ultimately show ?thesis
    using assms by (auto simp: daemon_ok_def replay_append less_Suc_eq)
qed

lemma ok_apply_one:
  assumes "daemon_ok d" "fc_URL fc = u" "0 < fc_Interval fc"
  shows "daemon_ok (case map_of (running d) u of
      Some rf \<Rightarrow> startFeed u fc p (d\<lparr>trace := trace d @ [Stopped u (rfLoop rf)]\<rparr>)
    | None \<Rightarrow> startFeed u fc p d)"
proof (cases "map_of (running d) u")
  case None
  then have "(live_loops d)(u := None) = live_loops d" by (simp add: live_loops_def fun_eq_iff)
  with assms have "daemon_ok (startFeed u fc p d)"
    by (intro ok_start) (simp_all add: daemon_ok_def)
  with None show ?thesis by simp
next
  case (Some rf)
  let ?d = "d\<lparr>trace := trace d @ [Stopped u (rfLoop rf)]\<rparr>"
  have "live_loops ?d = live_loops d" by (simp add: live_loops_def fun_eq_iff)
  moreover have "live_loops d u = Some (rfLoop rf)" using Some by (simp add: live_loops_def)
  ultimately have "daemon_ok (startFeed u fc p ?d)"
    using assms by (intro ok_start) (simp_all add: daemon_ok_def replay_append)
  with Some show ?thesis by simp
qed

lemma stop_removed_ok:
  assumes "stop_removed byURL es (d, k) = (d', k')" "distinct (map fst es)" "daemon_ok d"
    and "\<forall>(u, rf)\<in>set es. map_of (running d) u = Some rf"
  shows "daemon_ok d'"
  using assms
proof (induction es arbitrary: d k)
  case (Cons e es)
  obtain u rf where e: "e = (u, rf)" by (cases e)
  show ?case
  proof (cases "map_of byURL u = None")
    case True
    let ?d = "d\<lparr>running := AList.delete u (running d), trace := trace d @ [Stopped u (rfLoop rf)]\<rparr>"
    have "daemon_ok ?d" using Cons.prems e by (intro ok_stop) auto
    moreover have "\<forall>(v, r)\<in>set es. map_of (running ?d) v = Some r"
    proof clarify
      fix v r
      assume vr: "(v, r) \<in> set es"
      then have "v \<noteq> u" using Cons.prems(2) e by force
      moreover have "map_of (running d) v = Some r" using Cons.prems(4) vr by auto
      ultimately show "map_of (running ?d) v = Some r" by (simp add: delete_conv')
    qed
    moreover have "stop_removed byURL es (?d, k + 1) = (d', k')" "distinct (map fst es)"
      using Cons.prems(1,2) e True by auto
    ultimately show ?thesis using Cons.IH by blast
  next
    case False
    then have "stop_removed byURL es (d, k) = (d', k')" using Cons.prems(1) e by auto
    moreover have "distinct (map fst es)" "\<forall>(v, r)\<in>set es. map_of (running d) v = Some r"
      using Cons.prems(2,4) by auto
    ultimately show ?thesis using Cons.IH Cons.prems(3) by blast
  qed
qed simp

lemma apply_start_ok:
  assumes "apply_start byURL es (d, a, c) = (d', a', c')" "daemon_ok d"
    and "\<And>u p. (u, p) \<in> set es \<Longrightarrow>
      fc_URL (the (map_of byURL u)) = u \<and> 0 < fc_Interval (the (map_of byURL u))"
  shows "daemon_ok d'"
  using assms
proof (induction es arbitrary: d a c)
  case (Cons e es)
  obtain u p where e: "e = (u, p)" by (cases e)
  from Cons.prems(3) e have "daemon_ok (case map_of (running d) u of
      Some rf \<Rightarrow> startFeed u (the (map_of byURL u)) p (d\<lparr>trace := trace d @ [Stopped u (rfLoop rf)]\<rparr>)
    | None \<Rightarrow> startFeed u (the (map_of byURL u)) p d)"
    by (intro ok_apply_one Cons.prems) auto
  moreover obtain a1 c1 where "apply_start byURL es (case map_of (running d) u of
      Some rf \<Rightarrow> startFeed u (the (map_of byURL u)) p (d\<lparr>trace := trace d @ [Stopped u (rfLoop rf)]\<rparr>)
    | None \<Rightarrow> startFeed u (the (map_of byURL u)) p d, a1, c1) = (d', a', c')"
    using Cons.prems(1) e by (cases "map_of (running d) u") auto
  ultimately show ?case using Cons.IH Cons.prems(3) by (metis list.set_intros(2))
qed simp

text \<open>What the phases of a successful reconcile hand to each other.\<close>

lemma reconcile_cases:
  assumes "reconcile o1 o2 o3 desired factory (d, s) = (d', s')"
  obtains (failed) e where "d' = d\<lparr>trace := trace d @ [OnError e]\<rparr>"
      and "(\<exists>s1. desired s = (Inl e, s1)) \<or>
        (\<exists>fcs s1. desired s = (Inr fcs, s1) \<and>
           fst (prebuild factory (running d) (o1 (by_url fcs)) [] s1) = Inl e)"
  | (applied) fcs s1 toStart d1 removed d2 added changed where "desired s = (Inr fcs, s1)"
      and "prebuild factory (running d) (o1 (by_url fcs)) [] s1 = (Inr toStart, s')"
      and "stop_removed (by_url fcs) (o2 (running d)) (d, 0) = (d1, removed)"
      and "apply_start (by_url fcs) (o3 toStart) (d1, 0, 0) = (d2, added, changed)"
      and "d' = d2\<lparr>trace := trace d2 @ [OnReconcile added removed changed]\<rparr>"
proof (cases "desired s")
  case (Pair r s1)
  show thesis
  proof (cases r)
    case (Inl e)
    with assms Pair show thesis by (intro failed) (auto simp: reconcile_def)
  next
    case (Inr fcs)
    show thesis
    proof (cases "prebuild factory (running d) (o1 (by_url fcs)) [] s1")
      case pb: (Pair rb s2)
      show thesis
      proof (cases rb)
        case (Inl e)
        with assms Pair Inr pb show thesis by (intro failed) (auto simp: reconcile_def)
      next
        case toStart: (Inr toStart)
        obtain d1 removed where st: "stop_removed (by_url fcs) (o2 (running d)) (d, 0) = (d1, removed)"
          by fastforce
        obtain d2 added changed where
          ap: "apply_start (by_url fcs) (o3 toStart) (d1, 0, 0) = (d2, added, changed)"
          by (metis prod.collapse)
        from assms Pair Inr pb toStart st ap show thesis
          by (intro applied [OF _ _ st ap]) (auto simp: reconcile_def)
      qed
    qed
  qed
qed

lemma reconcile_ok:
  assumes "daemon_ok d" "permuting o1" "permuting o2" "permuting o3"
    and rc: "reconcile o1 o2 o3 desired factory (d, s) = (d', s')"
  shows "daemon_ok d'"
  using rc
proof (cases rule: reconcile_cases)
  case (failed e)
  with assms(1) show ?thesis by (auto intro: ok_event)
next
  case (applied fcs s1 toStart d1 removed d2 added changed)
  have dist: "distinct (map fst (running d))" using assms(1) by (simp add: daemon_ok_def)
  have "daemon_ok d1"
  proof (rule stop_removed_ok [OF applied(3) _ assms(1)])
    show "distinct (map fst (o2 (running d)))" using assms(3) dist by (rule permuting_distinct_keys)
    show "\<forall>(u, rf)\<in>set (o2 (running d)). map_of (running d) u = Some rf"
      using assms(3) dist by (auto simp: map_of_is_SomeI)
  qed
  moreover have "fc_URL (the (map_of (by_url fcs) u)) = u \<and> 0 < fc_Interval (the (map_of (by_url fcs) u))"
    if "(u, p) \<in> set (o3 toStart)" for u p
  proof -
    have "u \<in> dom (map_of toStart)" using that assms(4) by (simp add: key_in_dom)
    with prebuild_spec(2,3) [OF applied(2)] obtain fc where fc: "(u, fc) \<in> set (by_url fcs)" "0 < fc_Interval fc"
      using assms(2) by auto
    then have "map_of (by_url fcs) u = Some fc" by (intro map_of_is_SomeI by_url_distinct)
    with by_url_lookup(1) [OF this] fc(2) show ?thesis by simp
  qed
  ultimately have "daemon_ok d2" by (rule apply_start_ok [OF applied(4)])
  with applied(5) show ?thesis by (auto intro: ok_event)
qed

lemma length_filter_keys:
  assumes "distinct (map fst es)"
  shows "length (filter P es) = card {u. \<exists>v. (u, v) \<in> set es \<and> P (u, v)}"
proof -
  have "length (filter P es) = card (fst ` set (filter P es))"
    using assms by (metis distinct_card distinct_map_filter length_map set_map)
  also have "fst ` set (filter P es) = {u. \<exists>v. (u, v) \<in> set es \<and> P (u, v)}" by force
  finally show ?thesis .
qed

lemma DeepEqual_refl [simp]: "DeepEqual fc fc"
  by (simp add: DeepEqual_def same_headers_def)

text \<open>A reconcile that is applied, seen from the daemon before it.\<close>

lemma applied_running:
  assumes "daemon_ok d" "permuting o1" "permuting o2" "permuting o3"
    and pb: "prebuild factory (running d) (o1 (by_url fcs)) [] s1 = (Inr toStart, s')"
    and st: "stop_removed (by_url fcs) (o2 (running d)) (d, 0) = (d1, removed)"
    and ap: "apply_start (by_url fcs) (o3 toStart) (d1, 0, 0) = (d2, added, changed)"
  shows "map_of (by_url fcs) u = None \<Longrightarrow> map_of (running d2) u = None"
    and "map_of (by_url fcs) u = Some fc \<Longrightarrow> unchanged (running d) u fc \<Longrightarrow>
      map_of (running d2) u = map_of (running d) u"
    and "map_of (by_url fcs) u = Some fc \<Longrightarrow> \<not> unchanged (running d) u fc \<Longrightarrow>
      \<exists>p n. map_of (running d2) u = Some \<lparr>rfCfg = fc, rfPipe = p, rfPoke = False, rfLoop = n\<rparr> \<and>
        built factory fc p \<and> nextLoop d \<le> n"
proof -
  have dist: "distinct (map fst (running d))" using assms(1) by (simp add: daemon_ok_def)
  have in_url: "(v, x) \<in> set (o1 (by_url fcs)) \<longleftrightarrow> map_of (by_url fcs) v = Some x" for v x
    using assms(2) by_url_distinct by (simp add: map_of_eq_Some_iff)
  have nil: "distinct (map fst [])" by simp
  note pbs = prebuild_spec [OF pb nil, unfolded in_url]
  have ds: "distinct (map fst (o3 toStart))" by (rule permuting_distinct_keys [OF assms(4) pbs(1)])
  have dom: "v \<in> fst ` set (o3 toStart) \<longleftrightarrow>
      (\<exists>x. map_of (by_url fcs) v = Some x \<and> \<not> unchanged (running d) v x)" for v
    unfolding permuting_set [OF assms(4)] dom_map_of_conv_image_fst [symmetric] pbs(2) by simp
  note aps = apply_start_spec [OF ap ds]
  note sts = stop_removed_spec [OF st permuting_distinct_keys [OF assms(3) dist]]
  have run1: "map_of (running d1) v = (if map_of (by_url fcs) v = None then None else map_of (running d) v)" for v
    using sts assms(3) by (auto simp: fun_eq_iff map_of_eq_None_iff)
  show "map_of (running d2) u = None" if "map_of (by_url fcs) u = None"
    using aps(2) [of u] dom [of u] run1 [of u] that by auto
  show "map_of (running d2) u = map_of (running d) u"
    if "map_of (by_url fcs) u = Some fc" "unchanged (running d) u fc"
    using aps(2) [of u] dom [of u] run1 [of u] that by auto
  show "\<exists>p n. map_of (running d2) u = Some \<lparr>rfCfg = fc, rfPipe = p, rfPoke = False, rfLoop = n\<rparr> \<and>
        built factory fc p \<and> nextLoop d \<le> n"
    if u: "map_of (by_url fcs) u = Some fc" "\<not> unchanged (running d) u fc"
  proof -
    from u dom [of u] obtain p where p: "(u, p) \<in> set (o3 toStart)" by force
    then have "map_of toStart u = Some p" using assms(4) pbs(1) by (simp add: map_of_is_SomeI)
    from pbs(4) [OF this] u(1) have "built factory fc p" by simp
    with aps(3) [OF p] u(1) sts show ?thesis by auto
  qed
qed

lemma applied_counts:
  assumes "daemon_ok d" "permuting o1" "permuting o2" "permuting o3"
    and pb: "prebuild factory (running d) (o1 (by_url fcs)) [] s1 = (Inr toStart, s')"
    and st: "stop_removed (by_url fcs) (o2 (running d)) (d, 0) = (d1, removed)"
    and ap: "apply_start (by_url fcs) (o3 toStart) (d1, 0, 0) = (d2, added, changed)"
  shows "removed = int (card {u. map_of (running d) u \<noteq> None \<and> map_of (by_url fcs) u = None})"
    and "added = int (card {u. map_of (by_url fcs) u \<noteq> None \<and> map_of (running d) u = None})"
    and "changed = int (card {u. \<exists>fc. map_of (by_url fcs) u = Some fc \<and> map_of (running d) u \<noteq> None \<and>
           \<not> unchanged (running d) u fc})"
proof -
  have dist: "distinct (map fst (running d))" using assms(1) by (simp add: daemon_ok_def)
  have nil: "distinct (map fst [])" by simp
  have in_url: "(v, x) \<in> set (o1 (by_url fcs)) \<longleftrightarrow> map_of (by_url fcs) v = Some x" for v x
    using assms(2) by_url_distinct by (simp add: map_of_eq_Some_iff)
  note pbs = prebuild_spec [OF pb nil, unfolded in_url]
  have ds: "distinct (map fst (o3 toStart))" by (rule permuting_distinct_keys [OF assms(4) pbs(1)])
  have ds2: "distinct (map fst (o2 (running d)))" by (rule permuting_distinct_keys [OF assms(3) dist])
  have dom: "(\<exists>p. (v, p) \<in> set (o3 toStart)) \<longleftrightarrow>
      (\<exists>x. map_of (by_url fcs) v = Some x \<and> \<not> unchanged (running d) v x)" for v
    using pbs(2) pbs(1) unfolding permuting_set [OF assms(4)]
    by (auto simp: dom_def map_of_eq_Some_iff)
  note aps = apply_start_spec [OF ap ds]
  note sts = stop_removed_spec [OF st ds2]
  have run1: "map_of (running d1) v = (if map_of (by_url fcs) v = None then None else map_of (running d) v)" for v
    using sts assms(3) by (auto simp: fun_eq_iff map_of_eq_None_iff)
  have "{u. \<exists>v. (u, v) \<in> set (o2 (running d)) \<and> map_of (by_url fcs) u = None} =
      {u. map_of (running d) u \<noteq> None \<and> map_of (by_url fcs) u = None}"
    using assms(3) dist by (auto simp: map_of_is_SomeI dest: map_of_SomeD)
  then show "removed = int (card {u. map_of (running d) u \<noteq> None \<and> map_of (by_url fcs) u = None})"
    using sts length_filter_keys [OF ds2, of "\<lambda>(u, rf). map_of (by_url fcs) u = None"] by simp
  have "{u. \<exists>v. (u, v) \<in> set (o3 toStart) \<and> map_of (running d1) u = None} =
      {u. map_of (by_url fcs) u \<noteq> None \<and> map_of (running d) u = None}"
    using dom by (auto simp: run1 unchanged_def split: if_splits)
  then show "added = int (card {u. map_of (by_url fcs) u \<noteq> None \<and> map_of (running d) u = None})"
    using aps(4) length_filter_keys [OF ds, of "\<lambda>(u, p). map_of (running d1) u = None"] by simp
  have "{u. \<exists>v. (u, v) \<in> set (o3 toStart) \<and> map_of (running d1) u \<noteq> None} =
      {u. \<exists>fc. map_of (by_url fcs) u = Some fc \<and> map_of (running d) u \<noteq> None \<and>
           \<not> unchanged (running d) u fc}"
    using dom by (auto simp: run1 split: if_splits)
  then show "changed = int (card {u. \<exists>fc. map_of (by_url fcs) u = Some fc \<and> map_of (running d) u \<noteq> None \<and>
           \<not> unchanged (running d) u fc})"
    using aps(5) length_filter_keys [OF ds, of "\<lambda>(u, p). map_of (running d1) u \<noteq> None"] by simp
qed

lemma applied_dom:
  assumes "daemon_ok d" "permuting o1" "permuting o2" "permuting o3"
    and pb: "prebuild factory (running d) (o1 (by_url fcs)) [] s1 = (Inr toStart, s')"
    and st: "stop_removed (by_url fcs) (o2 (running d)) (d, 0) = (d1, removed)"
    and ap: "apply_start (by_url fcs) (o3 toStart) (d1, 0, 0) = (d2, added, changed)"
  shows "dom (map_of (running d2)) = fc_URL ` set fcs"
proof -
  note ap = applied_running [OF assms]
  have "u \<in> dom (map_of (running d2)) \<longleftrightarrow> u \<in> dom (map_of (by_url fcs))" for u
  proof (cases "map_of (by_url fcs) u")
    case None
    with ap(1) [OF this] show ?thesis by auto
  next
    case (Some fc)
    moreover have "\<exists>rf. map_of (running d2) u = Some rf"
      using ap(2,3) [OF Some] by (cases "unchanged (running d) u fc")
        (auto simp: unchanged_def split: option.splits)
    ultimately show ?thesis by auto
  qed
  then show ?thesis by (auto simp flip: by_url_lookup(2))
qed

context feed_provider
begin

lemma applied_each:
  assumes "desired s = (Inr fcs, s0)" "daemon_ok d" "permuting o1" "permuting o2" "permuting o3"
    and pb: "prebuild factory (running d) (o1 (by_url fcs)) [] s1 = (Inr toStart, s')"
    and st: "stop_removed (by_url fcs) (o2 (running d)) (d, 0) = (d1, removed)"
    and ap: "apply_start (by_url fcs) (o3 toStart) (d1, 0, 0) = (d2, added, changed)"
    and fc: "fc \<in> set fcs"
  shows "\<exists>rf. map_of (running d2) (fc_URL fc) = Some rf \<and> DeepEqual (rfCfg rf) fc \<and>
       (if unchanged (running d) (fc_URL fc) fc then map_of (running d) (fc_URL fc) = Some rf
        else rfCfg rf = fc \<and> built factory fc (rfPipe rf) \<and> nextLoop d \<le> rfLoop rf)"
proof -
  have u: "map_of (by_url fcs) (fc_URL fc) = Some fc" using fc by_url_desired [OF assms(1)] by blast
  note ap = applied_running [OF assms(2-8)]
  show ?thesis
  proof (cases "unchanged (running d) (fc_URL fc) fc")
    case True
    with ap(2) [OF u] show ?thesis by (auto simp: unchanged_def split: option.splits)
  next
    case False
    with ap(3) [OF u] show ?thesis by auto
  qed
qed

text \<open>When every new or changed feed can be built, the reconcile is applied and the running set is
  the desired one.\<close>

lemma converges:
  assumes ok: "daemon_ok d" and perm: "permuting o1" "permuting o2" "permuting o3"
    and des: "desired s = (Inr fcs, s1)"
    and build: "\<forall>fc\<in>set fcs. \<not> unchanged (running d) (fc_URL fc) fc \<longrightarrow>
          0 < fc_Interval fc \<and> (\<forall>t. \<exists>p t'. factory fc t = (Inr p, t'))"
    and rc: "reconcile o1 o2 o3 desired factory (d, s) = (d', s')"
  shows "dom (map_of (running d')) = fc_URL ` set fcs \<and>
    (\<forall>fc\<in>set fcs. \<exists>rf. map_of (running d') (fc_URL fc) = Some rf \<and> DeepEqual (rfCfg rf) fc \<and>
       (if unchanged (running d) (fc_URL fc) fc then map_of (running d) (fc_URL fc) = Some rf
        else rfCfg rf = fc \<and> built factory fc (rfPipe rf) \<and> nextLoop d \<le> rfLoop rf)) \<and>
    last (trace d') = OnReconcile
       (int (card (fc_URL ` set fcs - dom (map_of (running d)))))
       (int (card (dom (map_of (running d)) - fc_URL ` set fcs)))
       (int (card {fc_URL fc | fc. fc \<in> set fcs \<and> fc_URL fc \<in> dom (map_of (running d)) \<and>
                     \<not> unchanged (running d) (fc_URL fc) fc}))"
proof -
  have "\<forall>u fc. (u, fc) \<in> set (o1 (by_url fcs)) \<longrightarrow> \<not> unchanged (running d) u fc \<longrightarrow>
      0 < fc_Interval fc \<and> (\<forall>t. \<exists>p t'. factory fc t = (Inr p, t'))"
    using build perm(1) by_url_lookup(1) map_of_is_SomeI [OF by_url_distinct] by fastforce
  from prebuild_total [OF this, of "[]" s1] obtain ts s2 where
    ts: "prebuild factory (running d) (o1 (by_url fcs)) [] s1 = (Inr ts, s2)" by blast
  from rc show ?thesis
  proof (cases rule: reconcile_cases)
    case (failed e)
    then show ?thesis using ts des by auto
  next
    case (applied fcs' s1' toStart d1 removed d2 added changed)
    then have [simp]: "fcs' = fcs" "s1' = s1" using des by simp_all
    note ap = applied_running [OF ok perm applied(2-4), simplified]
    note cn = applied_counts [OF ok perm applied(2-4), simplified]
    note dom2 = applied_dom [OF ok perm applied(2-4), simplified]
    note each = applied_each [OF des ok perm applied(2-4) [simplified]]
    have "{u. map_of (running d) u \<noteq> None \<and> map_of (by_url fcs) u = None} =
        dom (map_of (running d)) - fc_URL ` set fcs"
      "{u. map_of (by_url fcs) u \<noteq> None \<and> map_of (running d) u = None} =
        fc_URL ` set fcs - dom (map_of (running d))"
      unfolding by_url_lookup(2) [symmetric] by auto
    moreover have "{u. \<exists>fc. map_of (by_url fcs) u = Some fc \<and> map_of (running d) u \<noteq> None \<and>
           \<not> unchanged (running d) u fc} =
        {fc_URL fc | fc. fc \<in> set fcs \<and> fc_URL fc \<in> dom (map_of (running d)) \<and>
                     \<not> unchanged (running d) (fc_URL fc) fc}"
      using by_url_desired [OF des] by auto
    ultimately show ?thesis using cn applied(5) dom2 each by auto
  qed
qed

end

subsection \<open>The daemon over time\<close>

lemma ok_refresh:
  assumes "daemon_ok d" "map_of (running d) u = Some rf"
  shows "daemon_ok (d\<lparr>running := AList.update u (rf\<lparr>rfPoke := b\<rparr>) (running d)\<rparr>)"
proof -
  let ?d = "d\<lparr>running := AList.update u (rf\<lparr>rfPoke := b\<rparr>) (running d)\<rparr>"
  have "live_loops ?d = live_loops d"
    using assms(2) by (auto simp: live_loops_def fun_eq_iff update_conv')
  with assms show ?thesis by (auto simp: daemon_ok_def distinct_update update_conv')
qed

lemma dyn_step_ok:
  assumes "\<And>d s. daemon_ok d \<Longrightarrow> daemon_ok (fst (rec (d, s)))" "daemon_ok d"
  shows "daemon_ok (fst (dyn_step rt fp c rec inp (d, s)))"
proof (cases inp)
  case (PokeTick u)
  with assms(2) show ?thesis
    by (cases "map_of (running d) u") (auto simp: dyn_step_def intro: ok_refresh)
next
  case (PollNow u)
  with assms(2) show ?thesis
    by (cases "map_of (running d) u") (auto simp: dyn_step_def poke_def intro: ok_refresh)
next
  case (TimerTick u)
  with assms(2) show ?thesis by (auto simp: dyn_step_def split: option.split)
qed (use assms in \<open>simp add: dyn_step_def\<close>)

lemma fold_dyn_step_ok:
  assumes "\<And>d s. daemon_ok d \<Longrightarrow> daemon_ok (fst (rec (d, s)))" "daemon_ok (fst ds)"
  shows "daemon_ok (fst (fold (dyn_step rt fp c rec) inputs ds))"
  using assms(2)
proof (induction inputs arbitrary: ds)
  case (Cons i inputs)
  have "daemon_ok (fst (dyn_step rt fp c rec i (fst ds, snd ds)))"
    using assms(1) Cons.prems by (rule dyn_step_ok)
  then have "daemon_ok (fst (dyn_step rt fp c rec i ds))" by simp
  from Cons.IH [OF this] show ?case by simp
qed simp

lemma idle_daemon_ok: "daemon_ok idle_daemon"
  by (simp add: daemon_ok_def idle_daemon_def live_loops_def fun_eq_iff)

subsection \<open>Properties\<close>

text \<open>An order of visiting that a witness can compute with, and a factory that always succeeds.\<close>

definition toy_factory :: "FeedConfig \<Rightarrow> 's \<Rightarrow> string result \<times> 's" where
  "toy_factory fc s = (if fc_Sinks fc = [] then Inr (fc_URL fc) else Inl (Errorf ''no sink'' []), s)"

definition toy_agg :: "FeedConfig list \<Rightarrow> unit Aggregator" where
  "toy_agg fcs = NewAggregator [NewStatic ''static'' fcs]"

lemma permuting_id [simp]: "permuting (\<lambda>xs. xs)" "permuting rev"
  by (simp_all add: permuting_def)

lemma toy_desired:
  "agg_Desired [0] c (toy_agg fcs, ()) =
     (Inr (snd (merge_loop fcs ([], []))), ((toy_agg fcs)\<lparr>lastGood := [''static'' \<mapsto> fcs]\<rparr>, ()))"
  by (simp add: agg_Desired_def toy_agg_def NewAggregator_def NewStatic_def)

text \<open>C22: a reload is all or nothing.  If the provider fails, or one feed that is new or changed has no
  positive interval or cannot be built, then no loop is started, stopped or restarted and the error
  is reported; whatever order the maps are visited in.\<close>

theorem reconcile_atomic:
  assumes "permuting o1"
    and "(\<exists>e s1. desired s = (Inl e, s1)) \<or>
      (\<exists>fcs s1 fc. desired s = (Inr fcs, s1) \<and> distinct (map fc_URL fcs) \<and> fc \<in> set fcs \<and>
         \<not> unchanged (running d) (fc_URL fc) fc \<and>
         (fc_Interval fc \<le> 0 \<or> (\<forall>t. \<exists>e t'. factory fc t = (Inl e, t'))))"
    and rc: "reconcile o1 o2 o3 desired factory (d, s) = (d', s')"
  shows "running d' = running d \<and> nextLoop d' = nextLoop d \<and> (\<exists>e. trace d' = trace d @ [OnError e])"
  using rc
proof (cases rule: reconcile_cases)
  case (failed e)
  then show ?thesis by simp
next
  case (applied fcs s1 toStart d1 removed d2 added changed)
  with assms(2) obtain fc where fc: "distinct (map fc_URL fcs)" "fc \<in> set fcs"
    "\<not> unchanged (running d) (fc_URL fc) fc"
    "fc_Interval fc \<le> 0 \<or> (\<forall>t. \<exists>e t'. factory fc t = (Inl e, t'))" by auto
  have "\<exists>fc'. map_of (by_url fcs) (fc_URL fc) = Some fc'"
    using by_url_lookup(2) [of fcs] fc(2) by blast
  then obtain fc' where fc': "map_of (by_url fcs) (fc_URL fc) = Some fc'" ..
  with by_url_lookup(1) [OF fc'] fc(1,2) have "fc' = fc" by (auto simp: distinct_map dest: inj_onD)
  with fc' have "(fc_URL fc, fc) \<in> set (o1 (by_url fcs))" using assms(1) by (simp add: map_of_SomeD)
  from prebuild_spec(3) [OF applied(2) _ this fc(3)] have "0 < fc_Interval fc" "\<exists>p. built factory fc p"
    by simp_all
  with fc(4) obtain p t t' where "factory fc t = (Inr p, t')" "\<forall>t. \<exists>e t'. factory fc t = (Inl e, t')"
    by (auto simp: built_def)
  then show ?thesis by (metis Inl_Inr_False prod.inject)
qed

theorem reconcile_atomic_witness:
  "\<exists>e. fst (reconcile rev (\<lambda>xs. xs) (\<lambda>xs. xs) (agg_Desired [0] None) toy_factory
     (idle_daemon, (toy_agg [toy_feed ''a'' 1, toy_feed ''b'' 0], ()))) =
     (idle_daemon :: string daemon)\<lparr>trace := [OnError e]\<rparr>"
proof -
  let ?fcs = "[toy_feed ''a'' 1, toy_feed ''b'' 0]"
  obtain d' s' where rc: "reconcile rev (\<lambda>xs. xs) (\<lambda>xs. xs) (agg_Desired [0] None) toy_factory
     (idle_daemon, (toy_agg ?fcs, ())) = (d' :: string daemon, s')"
    by (metis prod.collapse)
  have "running d' = running (idle_daemon :: string daemon) \<and> nextLoop d' = nextLoop (idle_daemon :: string daemon) \<and>
      (\<exists>e. trace d' = trace (idle_daemon :: string daemon) @ [OnError e])"
    by (rule reconcile_atomic [OF _ _ rc]) (auto simp: toy_desired toy_feed_def unchanged_def idle_daemon_def)
  with rc show ?thesis by (cases d') (auto simp: idle_daemon_def)
qed

text \<open>C23: a reload converges.  When every new or changed feed of the aggregated set has a positive
  interval and can be built, the daemon afterwards runs exactly the desired feeds: an unchanged one
  keeps its very loop, a new or changed one has a fresh loop on a pipeline built for it, and the
  reported counts are the numbers of added, removed and changed feeds.\<close>

theorem reconcile_converges:
  assumes "daemon_ok d" "permuting o1" "permuting o2" "permuting o3"
    and "agg_Desired order c s = (Inr fcs, s1)"
    and "\<forall>fc\<in>set fcs. \<not> unchanged (running d) (fc_URL fc) fc \<longrightarrow>
          0 < fc_Interval fc \<and> (\<forall>t. \<exists>p t'. factory fc t = (Inr p, t'))"
    and "reconcile o1 o2 o3 (agg_Desired order c) factory (d, s) = (d', s')"
  shows "dom (map_of (running d')) = fc_URL ` set fcs \<and>
    (\<forall>fc\<in>set fcs. \<exists>rf. map_of (running d') (fc_URL fc) = Some rf \<and> DeepEqual (rfCfg rf) fc \<and>
       (if unchanged (running d) (fc_URL fc) fc then map_of (running d) (fc_URL fc) = Some rf
        else rfCfg rf = fc \<and> built factory fc (rfPipe rf) \<and> nextLoop d \<le> rfLoop rf)) \<and>
    last (trace d') = OnReconcile
       (int (card (fc_URL ` set fcs - dom (map_of (running d)))))
       (int (card (dom (map_of (running d)) - fc_URL ` set fcs)))
       (int (card {fc_URL fc | fc. fc \<in> set fcs \<and> fc_URL fc \<in> dom (map_of (running d)) \<and>
                     \<not> unchanged (running d) (fc_URL fc) fc}))"
  using assms by (rule agg.converges)

theorem reconcile_converges_witness:
  "dom (map_of (running (fst (reconcile rev rev rev (agg_Desired [0] None) toy_factory
     (idle_daemon, (toy_agg [toy_feed ''a'' 1, toy_feed ''b'' 5], ())))))) = {''a'', ''b''}"
proof -
  let ?fcs = "[toy_feed ''a'' 1, toy_feed ''b'' 5]"
  obtain d' s' where rc: "reconcile rev rev rev (agg_Desired [0] None) toy_factory
     (idle_daemon, (toy_agg ?fcs, ())) = (d' :: string daemon, s')"
    by (metis prod.collapse)
  have d: "agg_Desired [0] None (toy_agg ?fcs, ()) =
      (Inr ?fcs, ((toy_agg ?fcs)\<lparr>lastGood := [''static'' \<mapsto> ?fcs]\<rparr>, ()))"
    by (simp add: toy_desired toy_feed_def)
  have "dom (map_of (running d')) = fc_URL ` set ?fcs"
    using reconcile_converges [OF idle_daemon_ok permuting_id(2) permuting_id(2) permuting_id(2) d _ rc]
    by (simp add: toy_feed_def toy_factory_def)
  with rc show ?thesis by (simp add: toy_feed_def)
qed

text \<open>C24: one loop per feed, always.  From the start and after any sequence of change signals, poll
  requests and ticks, whatever the provider and the factory answer and in whatever order maps are
  visited: the daemon is in a state where every feed has at most one loop, under its own URL and with
  a positive interval, and the trace shows that a loop was started only when none was live for its
  feed and stopped only when it was the live one.\<close>

theorem one_loop_per_feed:
  assumes "\<forall>d s. \<exists>o1 o2 o3. permuting o1 \<and> permuting o2 \<and> permuting o3 \<and>
      rec (d, s) = reconcile o1 o2 o3 desired factory (d, s)"
  shows "daemon_ok (fst (ServeDynamic rt fp c rec inputs s))"
proof -
  have rec_ok: "daemon_ok (fst (rec (d, s)))" if "daemon_ok d" for d s
  proof -
    obtain o1 o2 o3 where o: "permuting o1" "permuting o2" "permuting o3"
      "rec (d, s) = reconcile o1 o2 o3 desired factory (d, s)" using assms by blast
    have "reconcile o1 o2 o3 desired factory (d, s) = (fst (rec (d, s)), snd (rec (d, s)))"
      using o(4) by simp
    from reconcile_ok [OF that o(1-3) this] show ?thesis .
  qed
  from rec_ok [OF idle_daemon_ok] show ?thesis
    unfolding ServeDynamic_def by (intro fold_dyn_step_ok rec_ok idle_daemon_ok)
qed

theorem one_loop_per_feed_witness:
  "daemon_ok (fst (ServeDynamic \<lparr>rt_now = (\<lambda>_. 0), ctx_Err = (\<lambda>_ _. None),
       ctx_wait = (\<lambda>_ _ s. (False, s)), rand_Int64N = (\<lambda>n s. (0, s))\<rparr>
     \<lparr>fpURL = (\<lambda>p. p), fpRunOnce = (\<lambda>p c u t s. (Inr [], s))\<rparr> None
     (reconcile rev rev rev (agg_Desired [0] None) toy_factory)
     [PollNow ''a'', Changes, PokeTick ''a''] (toy_agg [toy_feed ''a'' 1], ())))"
  by (rule one_loop_per_feed [where desired = "agg_Desired [0] None" and factory = toy_factory])
    (metis permuting_id(2))

end
