(* ===== verification/Run_Pool.thy ===== *)
theory Run_Pool
  imports Prelude "HOL-Library.Multiset"
begin

section \<open>The worker pool of a one-shot run (\<^verbatim>\<open>internal/scheduler/runonce.go\<close>)\<close>

text \<open>
  \<^verbatim>\<open>RunOnce\<close> hands the pipelines over an unbuffered channel to a fixed number of workers.  The state
  is what the main goroutine has still to send, what every worker is doing and what was collected; a
  step is one action of one goroutine, chosen by the scheduler of the language.  The poll of a
  pipeline may end with any result: the error is part of the step.  The context may be cancelled at
  any time.
\<close>

definition effectiveConcurrency :: "int \<Rightarrow> 'p list \<Rightarrow> int" where
  "effectiveConcurrency concurrency pipelines =
     (if concurrency > 0 then concurrency
      else let n = int (length pipelines)
           in if n = 0 then 1 else if n < 8 then n else 8)"

datatype 'p worker = Waiting | Received 'p | Polling 'p | Exited

record 'p pool =
  pending :: "'p list"
  workers :: "'p worker list"
  errs :: "go_error list"
  polled :: "('p \<times> go_error option) list"
  skipped :: "'p list"
  cancelled :: bool

definition start_pool :: "int \<Rightarrow> 'p list \<Rightarrow> 'p pool" where
  "start_pool concurrency pipelines =
     \<lparr>pending = pipelines, workers = replicate (nat (effectiveConcurrency concurrency pipelines)) Waiting,
      errs = [], polled = [], skipped = [], cancelled = False\<rparr>"

datatype pool_action =
    Cancel
  | Send nat                       \<comment> \<open>main sends the next pipeline to this worker\<close>
  | Skip                           \<comment> \<open>main's select takes \<^verbatim>\<open>ctx.Done()\<close>\<close>
  | CheckCtx nat                   \<comment> \<open>the worker tests \<^verbatim>\<open>ctx.Err()\<close>\<close>
  | Finish nat "go_error option"   \<comment> \<open>the worker's \<^verbatim>\<open>p.RunOnce\<close> returns\<close>
  | Close nat                      \<comment> \<open>the worker sees the closed, drained channel\<close>

definition collected :: "go_error option \<Rightarrow> go_error list" where
  "collected err = (case err of Some e \<Rightarrow> if is_canceled e then [] else [e] | None \<Rightarrow> [])"

text \<open>What an action does, \<open>None\<close> where it is not possible.\<close>

fun pool_step :: "pool_action \<Rightarrow> 'p pool \<Rightarrow> 'p pool option" where
  "pool_step Cancel st = (if cancelled st then None else Some (st\<lparr>cancelled := True\<rparr>))"
| "pool_step (Send i) st =
     (case pending st of
        p # ps \<Rightarrow>
          if i < length (workers st) \<and> workers st ! i = Waiting
          then Some (st\<lparr>pending := ps, workers := (workers st)[i := Received p]\<rparr>) else None
      | [] \<Rightarrow> None)"
| "pool_step Skip st =
     (case pending st of
        p # ps \<Rightarrow> if cancelled st then Some (st\<lparr>pending := ps, skipped := p # skipped st\<rparr>) else None
      | [] \<Rightarrow> None)"
| "pool_step (CheckCtx i) st =
     (if i < length (workers st)
      then (case workers st ! i of
              Received p \<Rightarrow>
                if cancelled st
                then Some (st\<lparr>workers := (workers st)[i := Exited], skipped := p # skipped st\<rparr>)
                else Some (st\<lparr>workers := (workers st)[i := Polling p]\<rparr>)
            | _ \<Rightarrow> None)
      else None)"
| "pool_step (Finish i err) st =
     (if i < length (workers st)
      then (case workers st ! i of
              Polling p \<Rightarrow>
                Some (st\<lparr>workers := (workers st)[i := Waiting], polled := (p, err) # polled st,
                         errs := errs st @ collected err\<rparr>)
            | _ \<Rightarrow> None)
      else None)"
| "pool_step (Close i) st =
     (if pending st = [] \<and> i < length (workers st) \<and> workers st ! i = Waiting
      then Some (st\<lparr>workers := (workers st)[i := Exited]\<rparr>) else None)"

text \<open>\<^verbatim>\<open>wg.Wait()\<close> returns: everything was sent or skipped and every worker has returned.\<close>

definition pool_done :: "'p pool \<Rightarrow> bool" where
  "pool_done st \<longleftrightarrow> pending st = [] \<and> list_all (\<lambda>w. w = Exited) (workers st)"

definition pool_result :: "'p pool \<Rightarrow> go_error option" where
  "pool_result st = errors_Join (map Some (errs st))"

inductive pool_run :: "'p pool \<Rightarrow> pool_action list \<Rightarrow> 'p pool \<Rightarrow> bool" where
  pool_nil: "pool_run st [] st"
| pool_snoc: "pool_run st as st1 \<Longrightarrow> pool_step a st1 = Some st2 \<Longrightarrow> pool_run st (as @ [a]) st2"

text \<open>The same for a given schedule, computed.\<close>

fun pool_exec :: "pool_action list \<Rightarrow> 'p pool \<Rightarrow> 'p pool option" where
  "pool_exec [] st = Some st"
| "pool_exec (a # as) st =
     (case pool_step a st of None \<Rightarrow> None | Some st1 \<Rightarrow> pool_exec as st1)"

lemma pool_exec_append:
  "pool_exec (as @ bs) st = (case pool_exec as st of None \<Rightarrow> None | Some st1 \<Rightarrow> pool_exec bs st1)"
  by (induction as st rule: pool_exec.induct) (auto split: option.split)

lemma pool_run_exec: "pool_run st as st' \<longleftrightarrow> pool_exec as st = Some st'"
proof
  show "pool_run st as st' \<Longrightarrow> pool_exec as st = Some st'"
    by (induction rule: pool_run.induct) (auto simp: pool_exec_append)
  show "pool_exec as st = Some st' \<Longrightarrow> pool_run st as st'"
    by (induction as arbitrary: st' rule: rev_induct)
      (auto simp: pool_exec_append intro: pool_run.intros split: option.splits)
qed

subsection \<open>Accounting\<close>

fun in_hand :: "'p worker \<Rightarrow> 'p multiset" where
  "in_hand (Received p) = {#p#}"
| "in_hand (Polling p) = {#p#}"
| "in_hand _ = {#}"

definition accounted :: "'p pool \<Rightarrow> 'p multiset" where
  "accounted st = mset (pending st) + (\<Sum>w\<leftarrow>workers st. in_hand w) +
     mset (map fst (polled st)) + mset (skipped st)"

lemma sum_list_update_mset:
  fixes f :: "'a \<Rightarrow> 'b multiset"
  assumes "i < length xs"
  shows "(\<Sum>x\<leftarrow>xs[i := y]. f x) + f (xs ! i) = (\<Sum>x\<leftarrow>xs. f x) + f y"
  using assms
proof (induction xs arbitrary: i)
  case (Cons x xs)
  then show ?case by (cases i) (auto simp: add_ac)
qed simp

lemma hands_update:
  assumes "i < length ws" "ws ! i = w"
  shows "(\<Sum>x\<leftarrow>ws[i := w']. in_hand x) + in_hand w = (\<Sum>x\<leftarrow>ws. in_hand x) + in_hand w'"
  using sum_list_update_mset [OF assms(1), where f = in_hand] assms(2) by simp

lemma hands_empty: "\<forall>w\<in>set ws. in_hand w = {#} \<Longrightarrow> (\<Sum>w\<leftarrow>ws. in_hand w) = {#}"
  by (induction ws) auto

lemma pool_step_accounted:
  assumes "pool_step a st = Some st'"
  shows "accounted st' = accounted st"
proof (cases a)
  case (Send i)
  with assms obtain p ps where s: "pending st = p # ps" "i < length (workers st)"
    "workers st ! i = Waiting" "st' = st\<lparr>pending := ps, workers := (workers st)[i := Received p]\<rparr>"
    by (auto split: list.splits if_splits)
  with hands_update [OF s(2,3), of "Received p"] show ?thesis by (simp add: accounted_def)
next
  case (CheckCtx i)
  with assms obtain p where i: "i < length (workers st)" "workers st ! i = Received p"
    by (auto split: worker.splits if_splits)
  with assms CheckCtx hands_update [OF i, of Exited] hands_update [OF i, of "Polling p"]
  show ?thesis by (auto simp: accounted_def split: if_splits)
next
  case (Finish i err)
  with assms obtain p where i: "i < length (workers st)" "workers st ! i = Polling p"
    by (auto split: worker.splits if_splits)
  with assms Finish hands_update [OF i, of Waiting] show ?thesis by (auto simp: accounted_def)
next
  case (Close i)
  with assms have i: "i < length (workers st)" "workers st ! i = Waiting" by (auto split: if_splits)
  with assms Close hands_update [OF i, of Exited] show ?thesis by (auto simp: accounted_def split: if_splits)
qed (use assms in \<open>auto simp: accounted_def split: if_splits list.splits\<close>)

subsection \<open>Invariant and measure\<close>

definition pool_inv :: "'p list \<Rightarrow> nat \<Rightarrow> 'p pool \<Rightarrow> bool" where
  "pool_inv ps n st \<longleftrightarrow> accounted st = mset ps \<and> length (workers st) = n \<and>
     (Exited \<in> set (workers st) \<longrightarrow> cancelled st \<or> pending st = []) \<and>
     (skipped st \<noteq> [] \<longrightarrow> cancelled st) \<and>
     errs st = concat (map (collected \<circ> snd) (rev (polled st)))"

lemma pool_step_inv:
  assumes "pool_step a st = Some st'" "pool_inv ps n st"
  shows "pool_inv ps n st'"
proof -
  have "accounted st' = mset ps"
    using pool_step_accounted [OF assms(1)] assms(2) by (simp add: pool_inv_def)
  moreover have "length (workers st') = n \<and>
     (Exited \<in> set (workers st') \<longrightarrow> cancelled st' \<or> pending st' = []) \<and>
     (skipped st' \<noteq> [] \<longrightarrow> cancelled st') \<and>
     errs st' = concat (map (collected \<circ> snd) (rev (polled st')))"
    using assms unfolding pool_inv_def
    by (cases a) (auto split: list.splits if_splits worker.splits dest: set_update_subset_insert [THEN subsetD])
  ultimately show ?thesis by (simp add: pool_inv_def)
qed

fun weight :: "'p worker \<Rightarrow> nat" where
  "weight Waiting = 1" | "weight (Received p) = 3" | "weight (Polling p) = 2" | "weight Exited = 0"

definition work_left :: "'p pool \<Rightarrow> nat" where
  "work_left st = 4 * length (pending st) + (\<Sum>w\<leftarrow>workers st. weight w) + (if cancelled st then 0 else 1)"

lemma weight_update:
  assumes "i < length ws"
  shows "(\<Sum>w\<leftarrow>ws[i := w']. weight w) + weight (ws ! i) = (\<Sum>w\<leftarrow>ws. weight w) + weight w'"
  using assms
proof (induction ws arbitrary: i)
  case (Cons w ws)
  then show ?case by (cases i) auto
qed simp

lemma pool_step_decreases:
  assumes "pool_step a st = Some st'"
  shows "work_left st' < work_left st"
proof (cases a)
  case (Send i)
  with assms obtain p ps where s: "pending st = p # ps" "i < length (workers st)"
    "workers st ! i = Waiting" "st' = st\<lparr>pending := ps, workers := (workers st)[i := Received p]\<rparr>"
    by (auto split: list.splits if_splits)
  with weight_update [OF s(2), of "Received p"] show ?thesis by (simp add: work_left_def)
next
  case (CheckCtx i)
  with assms obtain p where i: "i < length (workers st)" "workers st ! i = Received p"
    by (auto split: worker.splits if_splits)
  with assms CheckCtx weight_update [OF i(1), of Exited] weight_update [OF i(1), of "Polling p"]
  show ?thesis by (auto simp: work_left_def split: if_splits)
next
  case (Finish i err)
  with assms obtain p where i: "i < length (workers st)" "workers st ! i = Polling p"
    by (auto split: worker.splits if_splits)
  with assms Finish weight_update [OF i(1), of Waiting] show ?thesis by (auto simp: work_left_def)
next
  case (Close i)
  with assms have i: "i < length (workers st)" "workers st ! i = Waiting" by (auto split: if_splits)
  with assms Close weight_update [OF i(1), of Exited] show ?thesis
    by (auto simp: work_left_def split: if_splits)
qed (use assms in \<open>auto simp: work_left_def split: if_splits list.splits\<close>)

lemma pool_run_inv:
  assumes "pool_run st as st'" "pool_inv ps n st"
  shows "pool_inv ps n st' \<and> length as + work_left st' \<le> work_left st"
  using assms
proof (induction rule: pool_run.induct)
  case (pool_snoc st as st1 a st2)
  from pool_step_decreases [OF pool_snoc.hyps(2)] pool_snoc.IH [OF pool_snoc.prems]
    pool_step_inv [OF pool_snoc.hyps(2)] show ?case by auto
qed simp

lemma pool_run_cancel:
  assumes "pool_run st as st'" "cancelled st'" "\<not> cancelled st"
  shows "Cancel \<in> set as"
  using assms
proof (induction rule: pool_run.induct)
  case (pool_snoc st as st1 a st2)
  then show ?case
    by (cases a; cases "cancelled st1") (auto split: list.splits if_splits worker.splits)
qed simp

lemma start_pool_inv: "pool_inv ps (nat (effectiveConcurrency k ps)) (start_pool k ps)"
  by (auto simp: pool_inv_def start_pool_def accounted_def intro!: hands_empty simp del: map_replicate)

lemma effectiveConcurrency_pos: "0 < effectiveConcurrency k ps"
  by (simp add: effectiveConcurrency_def Let_def)

text \<open>Unless everything is done, some goroutine other than the one that cancels can move.\<close>

lemma pool_progress:
  assumes "pool_inv ps n st" "0 < n" "\<not> pool_done st"
  shows "\<exists>a st'. a \<noteq> Cancel \<and> pool_step a st = Some st'"
proof (cases "\<exists>i<length (workers st). \<exists>p. workers st ! i \<in> {Received p, Polling p}")
  case True
  then obtain i p where i: "i < length (workers st)" "workers st ! i \<in> {Received p, Polling p}" by blast
  show ?thesis
  proof (cases "workers st ! i = Polling p")
    case True
    with i(1) have "pool_step (Finish i None) st \<noteq> None" by simp
    then show ?thesis by blast
  next
    case False
    with i have "pool_step (CheckCtx i) st \<noteq> None" by simp
    then show ?thesis by blast
  qed
next
  case False
  then have free: "w = Waiting \<or> w = Exited" if "w \<in> set (workers st)" for w
    using that by (cases w) (auto simp: in_set_conv_nth)
  show ?thesis
  proof (cases "Waiting \<in> set (workers st)")
    case True
    then obtain i where "i < length (workers st)" "workers st ! i = Waiting" by (auto simp: in_set_conv_nth)
    then have "pool_step (Send i) st \<noteq> None \<or> pool_step (Close i) st \<noteq> None"
      by (auto split: list.split)
    then show ?thesis by blast
  next
    case False
    with free have "list_all (\<lambda>w. w = Exited) (workers st)" by (auto simp: list_all_iff)
    moreover from this have "Exited \<in> set (workers st)"
      using assms(1,2) by (cases "workers st") (auto simp: pool_inv_def)
    ultimately have "pending st \<noteq> []" "cancelled st"
      using assms(1,3) by (auto simp: pool_done_def pool_inv_def)
    then have "pool_step Skip st \<noteq> None" by (auto split: list.split)
    then show ?thesis by blast
  qed
qed

subsection \<open>Properties\<close>

text \<open>C26: every pipeline exactly once.  When a one-shot run returns, every pipeline was polled once or
  was skipped because of the cancellation, none twice; without a cancellation none was skipped; and
  the result joins exactly the errors of the polls, in the order they ended, cancellations left
  out.\<close>

theorem RunOnce_each_once:
  assumes "pool_run (start_pool k ps) as st" "pool_done st"
  shows "mset (map fst (polled st)) + mset (skipped st) = mset ps \<and>
    (Cancel \<notin> set as \<longrightarrow> skipped st = [] \<and> mset (map fst (polled st)) = mset ps) \<and>
    pool_result st = errors_Join (map Some (concat (map (collected \<circ> snd) (rev (polled st)))))"
proof -
  have iv: "pool_inv ps (nat (effectiveConcurrency k ps)) st"
    using pool_run_inv [OF assms(1) start_pool_inv] by blast
  have "(\<Sum>w\<leftarrow>workers st. in_hand w) = {#}"
    using assms(2) by (intro hands_empty) (auto simp: pool_done_def list_all_iff)
  then have all: "mset (map fst (polled st)) + mset (skipped st) = mset ps"
    using iv assms(2) by (simp add: pool_inv_def accounted_def pool_done_def)
  moreover have "skipped st = []" if "Cancel \<notin> set as"
    using pool_run_cancel [OF assms(1)] that iv by (auto simp: pool_inv_def start_pool_def)
  ultimately show ?thesis using iv by (auto simp: pool_inv_def pool_result_def)
qed

theorem RunOnce_each_once_witness:
  "\<exists>st. pool_run (start_pool 1 [''a'']) [Send 0, CheckCtx 0, Finish 0 (Some DeadlineExceeded), Close 0] st \<and>
     pool_done st \<and> mset (map fst (polled st)) = {#''a''#}"
proof -
  let ?st = "\<lparr>pending = [], workers = [Exited], errs = [DeadlineExceeded],
    polled = [(''a'', Some DeadlineExceeded)], skipped = [], cancelled = False\<rparr> :: string pool"
  have run: "pool_run (start_pool 1 [''a''])
      [Send 0, CheckCtx 0, Finish 0 (Some DeadlineExceeded), Close 0] ?st"
    by (simp add: pool_run_exec start_pool_def effectiveConcurrency_def collected_def)
  moreover have fin: "pool_done ?st" by (simp add: pool_done_def)
  ultimately show ?thesis using RunOnce_each_once [OF run fin] by (intro exI [of _ ?st]) simp
qed

text \<open>A one-shot run returns and never gets stuck.  As long as polls return, every schedule is
  finite, with at most four actions per pipeline, one per worker and one for the cancellation, and
  wherever it is not finished some goroutine can move without waiting for a cancellation; never more
  polls run at a time than the effective concurrency.\<close>

theorem RunOnce_terminates:
  assumes "pool_run (start_pool k ps) as st"
  shows "int (length as) \<le> 4 * int (length ps) + effectiveConcurrency k ps + 1 \<and>
    (pool_done st \<or> (\<exists>a st'. a \<noteq> Cancel \<and> pool_step a st = Some st')) \<and>
    int (length (filter (\<lambda>w. \<exists>p. w = Polling p) (workers st))) \<le> effectiveConcurrency k ps"
proof -
  note run = pool_run_inv [OF assms start_pool_inv]
  have "work_left (start_pool k ps) = 4 * length ps + nat (effectiveConcurrency k ps) + 1"
    by (simp add: work_left_def start_pool_def sum_list_replicate)
  with run have "int (length as) \<le> 4 * int (length ps) + effectiveConcurrency k ps + 1"
    using effectiveConcurrency_pos [of k ps] by linarith
  moreover have "int (length (filter (\<lambda>w. \<exists>p. w = Polling p) (workers st))) \<le> effectiveConcurrency k ps"
    using run length_filter_le [of "\<lambda>w. \<exists>p. w = Polling p" "workers st"] effectiveConcurrency_pos [of k ps]
    by (simp add: pool_inv_def)
  moreover have "pool_done st \<or> (\<exists>a st'. a \<noteq> Cancel \<and> pool_step a st = Some st')"
    using pool_progress [of ps "nat (effectiveConcurrency k ps)" st] run effectiveConcurrency_pos [of k ps]
    by auto
  ultimately show ?thesis by blast
qed

theorem RunOnce_terminates_witness:
  "pool_run (start_pool 0 [''a'', ''b'']) [Send 1] (the (pool_step (Send 1) (start_pool 0 [''a'', ''b'']))) \<and>
   int (length [Send 1]) \<le> 4 * int (length [''a'', ''b'']) + effectiveConcurrency 0 [''a'', ''b''] + 1"
proof
  show run: "pool_run (start_pool 0 [''a'', ''b'']) [Send 1]
      (the (pool_step (Send 1) (start_pool 0 [''a'', ''b''])))"
    using pool_snoc [OF pool_nil, of "Send 1" "start_pool 0 [''a'', ''b'']"]
    by (simp add: start_pool_def effectiveConcurrency_def)
  from RunOnce_terminates [OF run]
  show "int (length [Send 1]) \<le> 4 * int (length [''a'', ''b'']) + effectiveConcurrency 0 [''a'', ''b''] + 1"
    by blast
qed

end
