(* ===== verification/Ownership.thy ===== *)
theory Ownership
  imports Scheduler Assign Pipeline
begin

section \<open>Owned feeds of one instance (\<^verbatim>\<open>internal/scheduler/ownerprovider.go\<close>, \<^verbatim>\<open>cmd/rss2msg/assignment.go\<close>)\<close>

text \<open>
  \<open>OwnerProvider\<close> filters the desired feeds of an inner provider down to those this instance owns
  under rendezvous hashing of the live members, and refreshes the members by heartbeats.  Whatever
  provider is wrapped, the result is again a provider (locale \<open>owned_provider\<close>), so what the
  scheduler was shown to do holds for it as well.
\<close>

record 's Membership =
  mbHeartbeat :: "ctx \<Rightarrow> 's \<Rightarrow> string list result \<times> 's"
  mbDeregister :: "ctx \<Rightarrow> 's \<Rightarrow> go_error option \<times> 's"
  mbClose :: "'s \<Rightarrow> go_error option \<times> 's"

text \<open>\<^verbatim>\<open>internal/coord/memory/membership.go\<close>: alone, always.\<close>

definition memory_Membership :: "string \<Rightarrow> 's Membership" where
  "memory_Membership self =
     \<lparr>mbHeartbeat = (\<lambda>c s. (Inr [self], s)), mbDeregister = (\<lambda>c s. (None, s)),
      mbClose = (\<lambda>s. (None, s))\<rparr>"

record OwnerProvider =
  opSelf :: string
  opHeartbeat :: duration
  opChanges :: bool
  opMembers :: "string list"
  opLastKey :: string

definition NewOwnerProvider :: "string \<Rightarrow> duration \<Rightarrow> OwnerProvider" where
  "NewOwnerProvider self heartbeat =
     \<lparr>opSelf = self, opHeartbeat = (if heartbeat \<le> 0 then 10 * second else heartbeat),
      opChanges = False, opMembers = [self], opLastKey = []\<rparr>"

definition op_signal :: "OwnerProvider \<Rightarrow> OwnerProvider" where
  "op_signal p = p\<lparr>opChanges := True\<rparr>"

definition urls :: "FeedConfig list \<Rightarrow> string list" where
  "urls feeds = map fc_URL feeds"

text \<open>The result is the returned member set, the error and what \<^verbatim>\<open>onRebalance\<close> would be told.\<close>

definition op_Heartbeat ::
    "hash64 \<Rightarrow> 's Membership \<Rightarrow> ('s \<Rightarrow> FeedConfig list result \<times> 's) \<Rightarrow> ctx \<Rightarrow> OwnerProvider \<times> 's \<Rightarrow>
     (string list \<times> go_error option \<times> (int \<times> int) option) \<times> (OwnerProvider \<times> 's)" where
  "op_Heartbeat h64 mb inner c = (\<lambda>(p, s).
     case mbHeartbeat mb c s of
       (Inl err, s1) \<Rightarrow> ((opMembers p, Some err, None), (p, s1))
     | (Inr members, s1) \<Rightarrow>
         let sorted = sort members;
             key = strings_Join sorted '','';
             changed = (key \<noteq> opLastKey p);
             p1 = p\<lparr>opMembers := sorted, opLastKey := key\<rparr>
         in if changed
            then (case inner s1 of
                    (r, s2) \<Rightarrow>
                      let feeds = (case r of Inl _ \<Rightarrow> [] | Inr fs \<Rightarrow> fs);
                          owned = Owned h64 (opSelf p) (urls feeds) sorted
                      in ((sorted, None, Some (int (length sorted), int (length owned))),
                          (op_signal p1, s2)))
            else ((sorted, None, None), (p1, s1)))"

definition op_Desired ::
    "hash64 \<Rightarrow> ('s \<Rightarrow> FeedConfig list result \<times> 's) \<Rightarrow> OwnerProvider \<times> 's \<Rightarrow>
     FeedConfig list result \<times> (OwnerProvider \<times> 's)" where
  "op_Desired h64 inner = (\<lambda>(p, s).
     case inner s of
       (Inl err, s1) \<Rightarrow> (Inl err, (p, s1))
     | (Inr all, s1) \<Rightarrow>
         let owned = Owned h64 (opSelf p) (urls all) (opMembers p)
         in (Inr (filter (\<lambda>fc. fc_URL fc \<in> set owned) all), (p, s1)))"

definition op_Close ::
    "'s Membership \<Rightarrow> ctx \<Rightarrow> 's \<Rightarrow> go_error option \<times> 's" where
  "op_Close mb c s =
     (case mbDeregister mb c s of
        (derr, s1) \<Rightarrow>
          (case mbClose mb s1 of
             (cerr, s2) \<Rightarrow> (if derr \<noteq> None then derr else cerr, s2)))"

text \<open>\<^verbatim>\<open>Run\<close>: the baseline heartbeat, then one step per tick of the ticker or signal of the inner
  provider.\<close>

datatype op_input = HeartbeatTick | InnerChanged

definition op_step ::
    "hash64 \<Rightarrow> 's Membership \<Rightarrow> ('s \<Rightarrow> FeedConfig list result \<times> 's) \<Rightarrow> ctx \<Rightarrow> op_input \<Rightarrow>
     OwnerProvider \<times> 's \<Rightarrow> OwnerProvider \<times> 's" where
  "op_step h64 mb inner c inp ps =
     (case inp of
        HeartbeatTick \<Rightarrow> snd (op_Heartbeat h64 mb inner c ps)
      | InnerChanged \<Rightarrow> (op_signal (fst ps), snd ps))"

definition op_Run ::
    "hash64 \<Rightarrow> 's Membership \<Rightarrow> ('s \<Rightarrow> FeedConfig list result \<times> 's) \<Rightarrow> ctx \<Rightarrow> op_input list \<Rightarrow>
     OwnerProvider \<times> 's \<Rightarrow> OwnerProvider \<times> 's" where
  "op_Run h64 mb inner c inputs ps =
     fold (op_step h64 mb inner c) inputs (snd (op_Heartbeat h64 mb inner c ps))"

text \<open>\<^verbatim>\<open>maybeWrapProvider\<close>: \<open>Inr None\<close> leaves the inner provider alone.  Whether the coordinator
  supports membership, and what building it gives, is the argument \<open>provider\<close>.\<close>

definition maybeWrapProvider ::
    "CoordinationConfig \<Rightarrow> (string \<Rightarrow> 's Membership result) option \<Rightarrow> string \<Rightarrow>
     (OwnerProvider \<times> 's Membership) option result" where
  "maybeWrapProvider cfg provider self =
     (let a = co_Assignment cfg
      in if \<not> as_Enabled a then Inr None
         else case provider of
                None \<Rightarrow>
                  Inl (Errorf
                    ''coordination.assignment.enabled but driver %q does not support membership''
                    [FStr (co_Driver cfg)])
              | Some mk \<Rightarrow>
                  (case mk self of
                     Inl err \<Rightarrow> Inl (Errorf ''build membership: %w'' [FWrap err])
                   | Inr m \<Rightarrow> Inr (Some (NewOwnerProvider self (as_HeartbeatInterval a), m))))"

subsection \<open>An owned provider is a provider\<close>

lemma op_Desired_spec:
  assumes "op_Desired h64 inner (p, s) = (Inr fcs, ps')"
  shows "\<exists>all s1. inner s = (Inr all, s1) \<and> ps' = (p, s1) \<and>
    fcs = filter (\<lambda>fc. owner_of h64 (fc_URL fc) (opMembers p) = Some (opSelf p)) all"
proof -
  from assms obtain all s1 where "inner s = (Inr all, s1)" "ps' = (p, s1)"
    "fcs = filter (\<lambda>fc. fc_URL fc \<in> set (Owned h64 (opSelf p) (urls all) (opMembers p))) all"
    by (auto simp: op_Desired_def Let_def split: prod.splits sum.splits)
  moreover from this have "fcs = filter (\<lambda>fc. owner_of h64 (fc_URL fc) (opMembers p) = Some (opSelf p)) all"
    by (auto simp: Owned_iff urls_def intro!: filter_cong)
  ultimately show ?thesis by blast
qed

locale owned_provider = inner: feed_provider inner
  for inner :: "'s \<Rightarrow> FeedConfig list result \<times> 's" +
  fixes h64 :: hash64
begin

lemma owned_distinct:
  "op_Desired h64 inner ps = (Inr fcs, ps') \<Longrightarrow> distinct (map fc_URL fcs)"
  using op_Desired_spec [of h64 inner "fst ps" "snd ps" fcs ps'] inner.distinct_urls
  by (auto simp: distinct_map_filter)

end

sublocale owned_provider \<subseteq> owned: feed_provider "op_Desired h64 inner"
  by unfold_locales (rule owned_distinct)

interpretation fleet: owned_provider "agg_Desired order c" h64 for order c h64
  by unfold_locales

lemma op_Desired_Inr:
  assumes "inner s = (Inr all, s1)"
  shows "op_Desired h64 inner (p, s) =
    (Inr (filter (\<lambda>fc. owner_of h64 (fc_URL fc) (opMembers p) = Some (opSelf p)) all), (p, s1))"
  using assms op_Desired_spec [of h64 inner p s]
  by (simp add: op_Desired_def Let_def)

text \<open>A comma cannot hide in the joined key when no member has one.\<close>

lemma append_sep_inject:
  "x @ a # xs = y @ a # ys \<Longrightarrow> a \<notin> set x \<Longrightarrow> a \<notin> set y \<Longrightarrow> x = y \<and> xs = ys"
proof (induction x arbitrary: y)
  case Nil
  then show ?case by (cases y) auto
next
  case (Cons b x)
  then show ?case by (cases y) auto
qed

lemma strings_Join_inject:
  assumes "\<forall>x\<in>set xs \<union> set ys. CHR '','' \<notin> set x" "xs \<noteq> []" "ys \<noteq> []"
    and "strings_Join xs '','' = strings_Join ys '',''"
  shows "xs = ys"
  using assms
proof (induction xs "'',''" arbitrary: ys rule: strings_Join.induct)
  case (2 x)
  show ?case
  proof (cases ys rule: remdups_adj.cases)
    case (3 y z zs)
    with 2 have "CHR '','' \<in> set x" by simp
    with 2 show ?thesis by simp
  qed (use 2 in auto)
next
  case (3 x x' xs)
  show ?case
  proof (cases ys rule: remdups_adj.cases)
    case (2 y)
    with 3 have "CHR '','' \<in> set y" by (metis Un_iff append_Cons in_set_conv_decomp strings_Join.simps(2,3))
    with 2 3 show ?thesis by simp
  next
    case ys: (3 y z zs)
    have nx: "CHR '','' \<notin> set x" "CHR '','' \<notin> set y" using "3.prems"(1) ys by auto
    have eq: "x @ CHR '','' # strings_Join (x' # xs) '','' = y @ CHR '','' # strings_Join (z # zs) '',''"
      using "3.prems"(4) ys by simp
    have "x = y" "strings_Join (x' # xs) '','' = strings_Join (z # zs) '',''"
      using append_sep_inject [OF eq nx] by auto
    with "3.hyps" [of "z # zs"] "3.prems"(1) ys show ?thesis by simp
  qed (use 3 in auto)
qed simp


subsection \<open>Properties\<close>

text \<open>C25: the fleet polls every feed on exactly one instance.  If the instances have different
  identities, each sees exactly the others as live and the inner providers list the same feeds, then
  every feed is in the desired set of exactly one instance.\<close>

theorem fleet_polls_each_feed_once:
  assumes "ps \<noteq> []" "distinct (map opSelf ps)"
    and "\<forall>p\<in>set ps. set (opMembers p) = opSelf ` set ps"
    and "inner s = (Inr all, s1)" "fc \<in> set all"
  shows "\<exists>!p. p \<in> set ps \<and>
    (\<exists>fcs ps'. op_Desired h64 inner (p, s) = (Inr fcs, ps') \<and> fc \<in> set fcs)"
proof -
  let ?ms = "map opSelf ps"
  have own: "owner_of h64 (fc_URL fc) (opMembers p) = owner_of h64 (fc_URL fc) ?ms" if "p \<in> set ps" for p
    using that assms(3) by (intro hrw.owner_agree) simp
  obtain m where m: "owner_of h64 (fc_URL fc) ?ms = Some m"
    using hrw.owner_ne [of ?ms] assms(1) by auto
  with hrw.owner_in [OF m] obtain p where p: "p \<in> set ps" "opSelf p = m" by auto
  have mem: "(\<exists>fcs ps'. op_Desired h64 inner (q, s) = (Inr fcs, ps') \<and> fc \<in> set fcs) \<longleftrightarrow> opSelf q = m"
    if "q \<in> set ps" for q
    using own [OF that] m assms(5) by (auto simp: op_Desired_Inr [where inner = inner and s = s, OF assms(4)])
  show ?thesis
  proof (rule ex1I [of _ p])
    show "p \<in> set ps \<and> (\<exists>fcs ps'. op_Desired h64 inner (p, s) = (Inr fcs, ps') \<and> fc \<in> set fcs)"
      using p mem by blast
  next
    fix q
    assume q: "q \<in> set ps \<and> (\<exists>fcs ps'. op_Desired h64 inner (q, s) = (Inr fcs, ps') \<and> fc \<in> set fcs)"
    then have "opSelf q = opSelf p" using mem p by auto
    with assms(2) q p(1) show "q = p" by (auto simp: distinct_map dest: inj_onD)
  qed
qed

theorem fleet_polls_each_feed_once_witness:
  "\<exists>!p. p \<in> set [(NewOwnerProvider ''a'' 0)\<lparr>opMembers := [''a'', ''b'']\<rparr>,
                  (NewOwnerProvider ''b'' 0)\<lparr>opMembers := [''b'', ''a'']\<rparr>] \<and>
     (\<exists>fcs ps'. op_Desired (\<lambda>_. 0) (agg_Desired [0] None) (p, (toy_agg [toy_feed ''f'' 1], ())) =
        (Inr fcs, ps') \<and> toy_feed ''f'' 1 \<in> set fcs)"
  by (rule fleet_polls_each_feed_once [where all = "[toy_feed ''f'' 1]"
        and ?s1.0 = "((toy_agg [toy_feed ''f'' 1])\<lparr>lastGood := [''static'' \<mapsto> [toy_feed ''f'' 1]]\<rparr>, ())"])
    (auto simp: NewOwnerProvider_def toy_desired)

text \<open>Heartbeats are fail-static and signal real changes.  A failed heartbeat keeps the members,
  the key and the pending signal as they were; a successful one stores the members in sorted order,
  and, identities being free of commas, leaves the signal alone exactly when the members (as a
  multiset) are those of the last successful heartbeat.\<close>

theorem Heartbeat_fail_static:
  assumes "op_Heartbeat h64 mb inner c (p, s) = ((members, err, rb), (p', s'))"
    and "opLastKey p = strings_Join (opMembers p) '',''" "sorted (opMembers p)" "opMembers p \<noteq> []"
    and "\<forall>m\<in>set (opMembers p). CHR '','' \<notin> set m"
  shows "case mbHeartbeat mb c s of
      (Inl e, s1) \<Rightarrow> err = Some e \<and> members = opMembers p \<and> p' = p \<and> s' = s1
    | (Inr ms, s1) \<Rightarrow> err = None \<and> opMembers p' = sort ms \<and> opSelf p' = opSelf p \<and>
        (ms \<noteq> [] \<and> (\<forall>m\<in>set ms. CHR '','' \<notin> set m) \<longrightarrow>
           (opChanges p' \<longleftrightarrow> opChanges p \<or> mset ms \<noteq> mset (opMembers p)))"
proof (cases "mbHeartbeat mb c s")
  case (Pair r s1)
  show ?thesis
  proof (cases r)
    case (Inl e)
    with Pair assms(1) show ?thesis by (auto simp: op_Heartbeat_def)
  next
    case (Inr ms)
    define key where "key = strings_Join (sort ms) '',''"
    have p': "err = None" "opMembers p' = sort ms" "opSelf p' = opSelf p"
      "opChanges p' \<longleftrightarrow> opChanges p \<or> key \<noteq> opLastKey p"
      using assms(1) Pair Inr
      by (auto simp: op_Heartbeat_def Let_def key_def op_signal_def split: if_splits prod.splits)
    have "key = opLastKey p \<longleftrightarrow> mset ms = mset (opMembers p)"
      if "ms \<noteq> []" "\<forall>m\<in>set ms. CHR '','' \<notin> set m"
    proof
      assume "key = opLastKey p"
      then have "sort ms = opMembers p"
        using that assms(2,4,5)
        by (intro strings_Join_inject) (auto simp: key_def dest: arg_cong [of _ _ length])
      then show "mset ms = mset (opMembers p)" by (metis mset_sort)
    next
      assume "mset ms = mset (opMembers p)"
      then have "sort ms = opMembers p" using assms(3) by (metis properties_for_sort)
      then show "key = opLastKey p" using assms(2) by (simp add: key_def)
    qed
    with p' Pair Inr show ?thesis by auto
  qed
qed

theorem Heartbeat_fail_static_witness:
  "\<exists>p' s'. op_Heartbeat (\<lambda>_. 0)
     \<lparr>mbHeartbeat = (\<lambda>c (s :: nat). (Inr [''b'', ''a''], s)), mbDeregister = (\<lambda>c s. (None, s)),
      mbClose = (\<lambda>s. (None, s))\<rparr> (\<lambda>s. (Inr [], s)) None
     (\<lparr>opSelf = ''a'', opHeartbeat = 1, opChanges = False, opMembers = [''a''], opLastKey = ''a''\<rparr>, 0) =
       (([''a'', ''b''], None, Some (2, 0)), (p', s')) \<and> opChanges p'"
proof -
  let ?mb = "\<lparr>mbHeartbeat = (\<lambda>c (s :: nat). (Inr [''b'', ''a''], s)), mbDeregister = (\<lambda>c s. (None, s)),
      mbClose = (\<lambda>s. (None, s))\<rparr>"
  let ?p = "\<lparr>opSelf = ''a'', opHeartbeat = 1, opChanges = False, opMembers = [''a''], opLastKey = ''a''\<rparr>"
  have srt: "sort [''b'', ''a''] = [''a'', ''b'']" by code_simp
  obtain p' s' where h: "op_Heartbeat (\<lambda>_. 0) ?mb (\<lambda>s. (Inr [], s)) None (?p, 0) =
      (([''a'', ''b''], None, Some (2, 0)), (p', s'))"
    by (simp add: op_Heartbeat_def srt Owned_def urls_def Let_def)
  from Heartbeat_fail_static [OF h] have "opChanges p'" by (simp add: mset_eq_length)
  with h show ?thesis by blast
qed

end
