(* ===== verification/State_Cleanup.thy ===== *)
theory State_Cleanup
  imports Poll
begin

section \<open>Periodic loops (\<^verbatim>\<open>internal/statecleanup\<close>, \<^verbatim>\<open>internal/heartbeat\<close>)\<close>

text \<open>
  The sweep that ages out stored state, and the liveness beat.  Both loop on a ticker until their
  context ends: the wait for the next tick is \<^const>\<open>ctx_wait\<close>, whose answer \<^term>\<open>True\<close> is the
  cancelled context; the number of turns is bounded by the first argument, so that a run of any
  finite length is modelled.
\<close>

definition sweep ::
    "'s runtime \<Rightarrow> 's Store \<Rightarrow> ctx \<Rightarrow> duration \<Rightarrow> 's \<Rightarrow> (int \<times> go_error option) \<times> 's" where
  "sweep rt p c ttl s =
     (let cutoff = rt_now rt s - ttl
      in case PruneItemsBefore p c cutoff s of
           (nItems, Some err, s1) \<Rightarrow> ((nItems, Some err), s1)
         | (nItems, None, s1) \<Rightarrow>
             (case PruneFeedMetaBefore p c cutoff s1 of
                (nMeta, err, s2) \<Rightarrow> ((nItems + nMeta, err), s2)))"

fun sweep_loop ::
    "nat \<Rightarrow> 's runtime \<Rightarrow> 's Store \<Rightarrow> ctx \<Rightarrow> duration \<Rightarrow> duration \<Rightarrow> 's \<Rightarrow>
     (int \<times> go_error option) list \<times> 's" where
  "sweep_loop 0 rt p c interval ttl s = ([], s)"
| "sweep_loop (Suc k) rt p c interval ttl s =
     (case ctx_wait rt c interval s of
        (True, s1) \<Rightarrow> ([], s1)
      | (False, s1) \<Rightarrow>
          (case sweep rt p c ttl s1 of
             (r, s2) \<Rightarrow>
               (case sweep_loop k rt p c interval ttl s2 of (rs, s3) \<Rightarrow> (r # rs, s3))))"

definition cleanup_Run ::
    "nat \<Rightarrow> 's runtime \<Rightarrow> 's Store \<Rightarrow> ctx \<Rightarrow> duration \<Rightarrow> duration \<Rightarrow> 's \<Rightarrow>
     (int \<times> go_error option) list \<times> 's" where
  "cleanup_Run k rt p c interval ttl s =
     (if interval \<le> 0 \<or> ttl \<le> 0 then ([], s)
      else case sweep rt p c ttl s of
             (r, s1) \<Rightarrow>
               (case sweep_loop k rt p c interval ttl s1 of (rs, s2) \<Rightarrow> (r # rs, s2)))"

text \<open>The beats emitted.\<close>

fun beat_loop :: "nat \<Rightarrow> 's runtime \<Rightarrow> ctx \<Rightarrow> duration \<Rightarrow> ('s \<Rightarrow> 's) \<Rightarrow> 's \<Rightarrow> nat \<times> 's" where
  "beat_loop 0 rt c interval emit s = (0, s)"
| "beat_loop (Suc k) rt c interval emit s =
     (case ctx_wait rt c interval s of
        (True, s1) \<Rightarrow> (0, s1)
      | (False, s1) \<Rightarrow> (case beat_loop k rt c interval emit (emit s1) of (n, s2) \<Rightarrow> (Suc n, s2)))"

definition heartbeat_Run ::
    "nat \<Rightarrow> 's runtime \<Rightarrow> ctx \<Rightarrow> duration \<Rightarrow> ('s \<Rightarrow> 's) \<Rightarrow> 's \<Rightarrow> nat \<times> 's" where
  "heartbeat_Run k rt c interval emit s =
     (if interval \<le> 0 then (0, s) else beat_loop k rt c interval emit s)"

subsection \<open>What a sweep leaves\<close>

context pruning_store
begin

lemma sweep_items:
  assumes "inv s" "sweep rt st c ttl s = ((n, err), s')"
  shows "inv s' \<and> (\<forall>k v. items s' k = Some v \<longrightarrow> items s k = Some v) \<and>
    (\<forall>k v. items s k = Some v \<longrightarrow> \<not> expired (LastSeenAt v) (rt_now rt s - ttl) \<longrightarrow> items s' k = Some v) \<and>
    (err = None \<longrightarrow>
      (\<forall>k v. items s k = Some v \<longrightarrow> expired (LastSeenAt v) (rt_now rt s - ttl) \<longrightarrow> items s' k = None))"
proof -
  obtain n1 e1 s1 where p1: "PruneItemsBefore st c (rt_now rt s - ttl) s = (n1, e1, s1)"
    by (metis prod.collapse)
  note i1 = prune_items [OF assms(1) p1]
  show ?thesis
  proof (cases e1)
    case (Some e)
    with p1 assms(2) have "s' = s1" "err \<noteq> None" by (auto simp: sweep_def Let_def)
    with i1 show ?thesis by (auto split: option.splits if_splits)
  next
    case None
    obtain n2 e2 s2 where p2: "PruneFeedMetaBefore st c (rt_now rt s - ttl) s1 = (n2, e2, s2)"
      by (metis prod.collapse)
    with p1 None assms(2) have "s' = s2" "err = e2" by (auto simp: sweep_def Let_def)
    with prune_metas [OF _ p2] i1 None show ?thesis
      by (auto split: option.splits if_splits)
  qed
qed

end

subsection \<open>Properties\<close>

text \<open>A sweep takes expired rows only.  Whether it fails or not, every row that survives is as it
  was, and every row seen within the TTL survives; when it does not fail, no expired row survives.\<close>

theorem sweep_takes_expired_only:
  assumes "db_inv s" "sweep rt (sqlite_store flt dt now) c ttl s = ((n, err), s')"
  shows "db_inv s' \<and> (\<forall>k v. sql_items s' k = Some v \<longrightarrow> sql_items s k = Some v) \<and>
    (\<forall>k v. sql_items s k = Some v \<longrightarrow> \<not> dt (LastSeenAt v) < dt (rt_now rt s - ttl) \<longrightarrow>
       sql_items s' k = Some v) \<and>
    (err = None \<longrightarrow>
      (\<forall>k v. sql_items s k = Some v \<longrightarrow> dt (LastSeenAt v) < dt (rt_now rt s - ttl) \<longrightarrow>
         sql_items s' k = None))"
  using assms by (rule sqlite.seen.sweep_items)

definition late_rt :: "nat runtime" where
  "late_rt = quiet_rt\<lparr>rt_now := (\<lambda>_. 100)\<rparr>"

lemma toy_sweep:
  "sweep (ext_runtime late_rt) (sqlite_store (\<lambda>_ _. None) id (\<lambda>_. 0)) None 50
     \<lparr>seen_items = [((''u'', ''g1''), \<lparr>ContentHashS = h, LastSeenAt = 7\<rparr>)], feed_meta = toy_meta, \<dots> = z\<rparr> =
   ((2, None), \<lparr>seen_items = [], feed_meta = [], \<dots> = z\<rparr>)"
  by (simp add: sweep_def late_rt_def ext_runtime_def sqlite_store_def sqlite_PruneItemsBefore_def
      sqlite_PruneFeedMetaBefore_def toy_meta_def)

theorem sweep_takes_expired_only_witness:
  "sql_items \<lparr>seen_items = [], feed_meta = [], \<dots> = 0 :: nat\<rparr> (''u'', ''g1'') = None"
  using sweep_takes_expired_only [OF _ toy_sweep [of "''h''" 0]]
  by (simp add: db_inv_def sql_items_def toy_meta_def ext_runtime_def late_rt_def)

text \<open>An item that is still in the feed ages out and is published again.  A poll does not touch
  the row of an unchanged item, so its time of last sight stays that of its last change; a sweep
  after the TTL deletes the row, although the item was seen by every poll, and the next detection
  reports the item as new.\<close>

theorem unchanged_item_is_republished:
  assumes "db_inv s" "it \<in> set (Items g)" "distinct (map (item_id (fsSha f)) (Items g))"
    and known: "sql_items s (u, item_id (fsSha f) it) = Some e" "ContentHashS e = item_hash (fsSha f) it"
    and poll: "sqlite_poll k w f flt dt now c u t s = Some ((Inr chs, ocs), s1)"
      "chs = detect_spec (fsSha f) (sql_items s) u t (Some g)"
    and sweep: "sweep rt (sqlite_store flt dt now) c' ttl s1 = ((n, None), s2)"
      "dt (LastSeenAt e) < dt (rt_now rt s1 - ttl)"
  shows "sql_items s1 (u, item_id (fsSha f) it) = Some e \<and>
    mkChange (fsSha f) u (gfTitle g) it t' ChangeNew \<in>
      set (detect_spec (fsSha f) (sql_items s2) u t' (Some g))"
proof -
  note sp = sqlite_poll_spec [OF assms(1) poll(1)]
  have "map ocChange ocs = chs" using sp by simp
  moreover have "classify_spec (fsSha f) (sql_items s) u (gfTitle g) t it = None"
    unfolding classify_spec_None using known by blast
  ultimately have keep: "sql_items s1 (u, item_id (fsSha f) it) = Some e"
    using commits_keep_known [OF _ poll(2) assms(3,2)] conjunct1 [OF conjunct2 [OF sp]] known(1) by simp
  have "sql_items s2 (u, item_id (fsSha f) it) = None"
    using sqlite.seen.sweep_items [OF conjunct1 [OF sp] sweep(1)] keep sweep(2) by blast
  then have "classify_spec (fsSha f) (sql_items s2) u (gfTitle g) t' it =
      Some (mkChange (fsSha f) u (gfTitle g) it t' ChangeNew)" by (simp add: classify_spec_def)
  with assms(2) keep show ?thesis by (auto simp: detect_spec_mem)
qed

lemma toy_poll_known:
  "toy_poll ''ok'' \<lparr>seen_items = [((''u'', ''g1''), \<lparr>ContentHashS = item_hash id toy_item, LastSeenAt = 7\<rparr>)],
      feed_meta = [], \<dots> = 0\<rparr> =
   Some ((Inr [], []),
     \<lparr>seen_items = [((''u'', ''g1''), \<lparr>ContentHashS = item_hash id toy_item, LastSeenAt = 7\<rparr>)],
      feed_meta = toy_meta, \<dots> = 0\<rparr>)"
  by (simp add: toy_eval toy_meta_def Detect_def classify_def sqlite_GetItem_def)

theorem unchanged_item_is_republished_witness:
  "mkChange id ''u'' [] toy_item 200 ChangeNew \<in>
     set (detect_spec id (sql_items \<lparr>seen_items = [], feed_meta = [], \<dots> = 0 :: nat\<rparr>) ''u'' 200
       (Some \<lparr>gfTitle = [], Items = [toy_item]\<rparr>))"
  using unchanged_item_is_republished [where g = "\<lparr>gfTitle = [], Items = [toy_item]\<rparr>" and it = toy_item
      and t' = 200 and f = "toy_setup ''ok''", OF _ _ _ _ _ toy_poll_known [unfolded toy_poll_def] _ toy_sweep]
  by (simp add: db_inv_def sql_items_def toy_setup_def detect_spec_def classify_spec_def
      ext_runtime_def late_rt_def)

end
