(* ===== verification/Config_Defaults.thy ===== *)
theory Config_Defaults
  imports Config
begin

section \<open>Zero values and built-in defaults (\<^verbatim>\<open>internal/config/config.go\<close>)\<close>

text \<open>
  The zero value of every struct of the configuration, which is what Go gives to a field that a
  composite literal leaves out, and \<^verbatim>\<open>Defaults()\<close>, written as the source writes it: the fields it names,
  over zero values.
\<close>

named_theorems zero_simps \<open>the zero values of the configuration\<close>

subsection \<open>Zero values\<close>

definition zero_LogConfig :: LogConfig where
  "zero_LogConfig =
     \<lparr>lg_Level = [], lg_Format = []\<rparr>"

definition zero_CloudWatchLogsConfig :: CloudWatchLogsConfig where
  "zero_CloudWatchLogsConfig =
     \<lparr>cwl_Enabled = False, cwl_LogGroup = [], cwl_LogStream = [], cwl_Level = [],
       cwl_BatchInterval = 0, cwl_CreateGroup = False\<rparr>"

definition zero_CloudWatchMetricsConfig :: CloudWatchMetricsConfig where
  "zero_CloudWatchMetricsConfig =
     \<lparr>cwm_Enabled = False, cwm_Namespace = [], cwm_Interval = 0\<rparr>"

definition zero_TelemetryCloudWatchConfig :: TelemetryCloudWatchConfig where
  "zero_TelemetryCloudWatchConfig =
     \<lparr>cw_Enabled = False, cw_Region = [], cw_EndpointURL = [],
       cw_Logs = zero_CloudWatchLogsConfig, cw_Metrics = zero_CloudWatchMetricsConfig\<rparr>"

definition zero_TelemetryPostHogConfig :: TelemetryPostHogConfig where
  "zero_TelemetryPostHogConfig =
     \<lparr>ph_Enabled = False, ph_APIKey = [], ph_Endpoint = [], ph_DistinctID = [], ph_Level = [],
       ph_FlushInterval = 0\<rparr>"

definition zero_TelemetrySentryConfig :: TelemetrySentryConfig where
  "zero_TelemetrySentryConfig =
     \<lparr>se_Enabled = False, se_DSN = [], se_Environment = [], se_Release = [], se_ServerName = [],
       se_Level = [], se_SampleRate = Some 0, se_TracesSampleRate = Some 0, se_Debug = False\<rparr>"

definition zero_TelemetrySignalConfig :: TelemetrySignalConfig where
  "zero_TelemetrySignalConfig =
     \<lparr>ts_Enabled = False\<rparr>"

definition zero_TelemetryPrometheusConfig :: TelemetryPrometheusConfig where
  "zero_TelemetryPrometheusConfig =
     \<lparr>pr_Enabled = False, pr_Listen = []\<rparr>"

definition zero_TelemetryGraphiteConfig :: TelemetryGraphiteConfig where
  "zero_TelemetryGraphiteConfig =
     \<lparr>gr_Enabled = False, gr_Address = [], gr_Prefix = [], gr_Interval = 0\<rparr>"

definition zero_TelemetryConfig :: TelemetryConfig where
  "zero_TelemetryConfig =
     \<lparr>tl_ServiceName = [], tl_InstanceID = [], tl_Traces = zero_TelemetrySignalConfig,
       tl_Metrics = zero_TelemetrySignalConfig, tl_Logs = zero_TelemetrySignalConfig,
       tl_Prometheus = zero_TelemetryPrometheusConfig, tl_Graphite = zero_TelemetryGraphiteConfig,
       tl_Sentry = zero_TelemetrySentryConfig, tl_PostHog = zero_TelemetryPostHogConfig,
       tl_CloudWatch = zero_TelemetryCloudWatchConfig\<rparr>"

definition zero_RetryConfig :: RetryConfig where
  "zero_RetryConfig =
     \<lparr>rc_MaxAttempts = 0, rc_BaseDelay = 0, rc_MaxDelay = 0\<rparr>"

definition zero_HTTPConfig :: HTTPConfig where
  "zero_HTTPConfig =
     \<lparr>ht_UserAgent = [], ht_Timeout = 0, ht_Retry = zero_RetryConfig\<rparr>"

definition zero_RuntimeConfig :: RuntimeConfig where
  "zero_RuntimeConfig =
     \<lparr>rn_ShutdownDrainTimeout = 0, rn_RunOnceConcurrency = 0, rn_DeliverTimeout = 0\<rparr>"

definition zero_HeartbeatConfig :: HeartbeatConfig where
  "zero_HeartbeatConfig =
     \<lparr>hb_Enabled = False, hb_Interval = 0\<rparr>"

definition zero_CoordinationAssignmentConfig :: CoordinationAssignmentConfig where
  "zero_CoordinationAssignmentConfig =
     \<lparr>as_Enabled = False, as_Strategy = [], as_HeartbeatInterval = 0, as_MemberTTL = 0,
       as_RebalanceGrace = 0\<rparr>"

definition zero_CoordinationCosmosDBConfig :: CoordinationCosmosDBConfig where
  "zero_CoordinationCosmosDBConfig =
     \<lparr>cc_Endpoint = [], cc_ConnectionString = [], cc_Database = [], cc_Container = [],
       cc_CreateIfMissing = False, cc_Throughput = 0, cc_LeaseDuration = 0\<rparr>"

definition zero_CoordinationDynamoDBConfig :: CoordinationDynamoDBConfig where
  "zero_CoordinationDynamoDBConfig =
     \<lparr>cd_Table = [], cd_Region = [], cd_EndpointURL = [], cd_LeaseDuration = 0\<rparr>"

definition zero_pg_tls :: pg_tls where
  "zero_pg_tls =
     \<lparr>pt_CAFile = [], pt_CertFile = [], pt_KeyFile = [], pt_ServerName = [],
       pt_InsecureSkipVerify = False\<rparr>"

definition zero_CoordinationPGConfig :: CoordinationPGConfig where
  "zero_CoordinationPGConfig =
     \<lparr>cp_DSN = [], cp_TLS = zero_pg_tls\<rparr>"

definition zero_CoordinationRedisSentinelConfig :: CoordinationRedisSentinelConfig where
  "zero_CoordinationRedisSentinelConfig =
     \<lparr>rs_MasterName = [], rs_Addrs = [], rs_Username = [], rs_Password = [],
       rs_SentinelUsername = [], rs_SentinelPassword = [], rs_DB = 0\<rparr>"

definition zero_CoordinationRedisClusterConfig :: CoordinationRedisClusterConfig where
  "zero_CoordinationRedisClusterConfig =
     \<lparr>rcl_Addrs = [], rcl_Username = [], rcl_Password = []\<rparr>"

definition zero_CoordinationRedisConfig :: CoordinationRedisConfig where
  "zero_CoordinationRedisConfig =
     \<lparr>rd_Mode = [], rd_URL = [], rd_LockTTL = 0, rd_RenewalInterval = 0, rd_TLS = zero_pg_tls,
       rd_Sentinel = zero_CoordinationRedisSentinelConfig,
       rd_Cluster = zero_CoordinationRedisClusterConfig\<rparr>"

definition zero_CoordinationConfig :: CoordinationConfig where
  "zero_CoordinationConfig =
     \<lparr>co_Driver = [], co_Postgres = zero_CoordinationPGConfig,
       co_Redis = zero_CoordinationRedisConfig, co_DynamoDB = zero_CoordinationDynamoDBConfig,
       co_CosmosDB = zero_CoordinationCosmosDBConfig,
       co_Assignment = zero_CoordinationAssignmentConfig\<rparr>"

definition zero_HealthConfig :: HealthConfig where
  "zero_HealthConfig =
     \<lparr>hc_Enabled = False, hc_Listen = [], hc_LivenessPath = [], hc_ReadinessPath = [],
       hc_StartupPath = []\<rparr>"

definition zero_FeedBasicAuthConfig :: FeedBasicAuthConfig where
  "zero_FeedBasicAuthConfig =
     \<lparr>ba_Name = [], ba_Username = [], ba_Password = []\<rparr>"

definition zero_FeedBearerCred :: FeedBearerCred where
  "zero_FeedBearerCred =
     \<lparr>bc_Name = [], bc_Token = []\<rparr>"

definition zero_FeedAPIKeyCred :: FeedAPIKeyCred where
  "zero_FeedAPIKeyCred =
     \<lparr>ak_Name = [], ak_Key = []\<rparr>"

definition zero_AdminTLSConfig :: AdminTLSConfig where
  "zero_AdminTLSConfig =
     \<lparr>at_Enabled = False, at_CertFile = [], at_KeyFile = [], at_ClientCAFile = []\<rparr>"

definition zero_AdminAuthConfig :: AdminAuthConfig where
  "zero_AdminAuthConfig =
     \<lparr>aa_Enabled = False, aa_BasicUsers = [], aa_BearerTokens = [], aa_APIKeys = [],
       aa_APIKeyHeader = []\<rparr>"

definition zero_AdminCORSConfig :: AdminCORSConfig where
  "zero_AdminCORSConfig =
     \<lparr>ac_AllowedOrigins = []\<rparr>"

definition zero_AdminConfig :: AdminConfig where
  "zero_AdminConfig =
     \<lparr>ad_Enabled = False, ad_Listen = [], ad_TLS = zero_AdminTLSConfig,
       ad_Auth = zero_AdminAuthConfig, ad_CORS = zero_AdminCORSConfig\<rparr>"

definition zero_PostgresStateConfig :: PostgresStateConfig where
  "zero_PostgresStateConfig =
     \<lparr>ps_DSN = [], ps_TLS = zero_pg_tls, ps_CleanupInterval = 0\<rparr>"

definition zero_SQLiteStateConfig :: SQLiteStateConfig where
  "zero_SQLiteStateConfig =
     \<lparr>sq_Path = [], sq_CleanupInterval = 0\<rparr>"

definition zero_DynamoDBStateConfig :: DynamoDBStateConfig where
  "zero_DynamoDBStateConfig =
     \<lparr>ds_Table = [], ds_Region = [], ds_EndpointURL = [], ds_TTLAttribute = []\<rparr>"

definition zero_CosmosDBStateConfig :: CosmosDBStateConfig where
  "zero_CosmosDBStateConfig =
     \<lparr>cs_Endpoint = [], cs_ConnectionString = [], cs_Database = [], cs_Container = [],
       cs_CreateIfMissing = False, cs_Throughput = 0\<rparr>"

definition zero_StateConfig :: StateConfig where
  "zero_StateConfig =
     \<lparr>st_Driver = [], st_ItemTTL = 0, st_Postgres = zero_PostgresStateConfig,
       st_SQLite = zero_SQLiteStateConfig, st_DynamoDB = zero_DynamoDBStateConfig,
       st_CosmosDB = zero_CosmosDBStateConfig\<rparr>"

definition zero_SinkTLSConfig :: SinkTLSConfig where
  "zero_SinkTLSConfig =
     \<lparr>tls_Enabled = False, tls_CAFile = [], tls_CertFile = [], tls_KeyFile = [],
       tls_ServerName = [], tls_InsecureSkipVerify = False\<rparr>"

definition zero_GRPCSinkConfig :: GRPCSinkConfig where
  "zero_GRPCSinkConfig =
     \<lparr>gp_Target = [], gp_Authority = [], gp_Timeout = 0, gp_Metadata = [],
       gp_TLS = zero_SinkTLSConfig\<rparr>"

definition zero_HTTPSinkConfig :: HTTPSinkConfig where
  "zero_HTTPSinkConfig =
     \<lparr>hs_URL = [], hs_Method = [], hs_Headers = [], hs_Timeout = 0, hs_SuccessCodes = [],
       hs_TLS = zero_SinkTLSConfig, hs_HTTP3 = False\<rparr>"

definition zero_FeedAuthConfig :: FeedAuthConfig where
  "zero_FeedAuthConfig =
     \<lparr>fa_Disabled = False, fa_BasicUsers = [], fa_BearerTokens = [], fa_APIKeys = [],
       fa_APIKeyHeader = []\<rparr>"

definition zero_FeedSurfaceConfig :: FeedSurfaceConfig where
  "zero_FeedSurfaceConfig =
     \<lparr>su_Enabled = None, su_Path = [], su_Auth = None\<rparr>"

definition zero_FeedTimeoutsConfig :: FeedTimeoutsConfig where
  "zero_FeedTimeoutsConfig =
     \<lparr>ft_ReadHeader = 0, ft_Read = 0, ft_Write = 0, ft_Idle = 0, ft_Shutdown = 0\<rparr>"

definition zero_FeedTLSConfig :: FeedTLSConfig where
  "zero_FeedTLSConfig =
     \<lparr>fl_CertFile = [], fl_KeyFile = []\<rparr>"

definition zero_FeedStoreSQLiteConfig :: FeedStoreSQLiteConfig where
  "zero_FeedStoreSQLiteConfig =
     \<lparr>fsq_Path = []\<rparr>"

definition zero_FeedStorePostgresConfig :: FeedStorePostgresConfig where
  "zero_FeedStorePostgresConfig =
     \<lparr>fsp_DSN = [], fsp_Table = [], fsp_TLS = zero_pg_tls\<rparr>"

definition zero_FeedStoreConfig :: FeedStoreConfig where
  "zero_FeedStoreConfig =
     \<lparr>fs_Driver = [], fs_SQLite = zero_FeedStoreSQLiteConfig,
       fs_Postgres = zero_FeedStorePostgresConfig\<rparr>"

definition zero_FeedSinkConfig :: FeedSinkConfig where
  "zero_FeedSinkConfig =
     \<lparr>fk_Listen = [], fk_PublicURL = [], fk_Title = [], fk_Link = [], fk_Description = [],
       fk_MaxItems = 0, fk_RSS = zero_FeedSurfaceConfig, fk_Atom = zero_FeedSurfaceConfig,
       fk_MCP = zero_FeedSurfaceConfig, fk_RenderCacheTTL = 0, fk_CacheControlTTL = 0,
       fk_Timeouts = zero_FeedTimeoutsConfig, fk_TLS = zero_FeedTLSConfig, fk_HTTP3 = False,
       fk_TrustedProxies = [], fk_Auth = zero_FeedAuthConfig, fk_Store = zero_FeedStoreConfig\<rparr>"

definition zero_CompositeSinkConfig :: CompositeSinkConfig where
  "zero_CompositeSinkConfig =
     \<lparr>cm_Children = []\<rparr>"

definition zero_StdoutSinkConfig :: StdoutSinkConfig where
  "zero_StdoutSinkConfig =
     \<lparr>so_Target = [], so_Format = []\<rparr>"

definition zero_AMQP091SinkConfig :: AMQP091SinkConfig where
  "zero_AMQP091SinkConfig =
     \<lparr>aq_URL = [], aq_Exchange = [], aq_ExchangeType = [], aq_RoutingKey = [],
       aq_Declare = False, aq_Durable = False, aq_Mandatory = False,
       aq_TLS = zero_SinkTLSConfig\<rparr>"

definition zero_AMQP10SinkConfig :: AMQP10SinkConfig where
  "zero_AMQP10SinkConfig =
     \<lparr>a1_URL = [], a1_Target = [], a1_Username = [], a1_Password = [],
       a1_TLS = zero_SinkTLSConfig\<rparr>"

definition zero_RabbitMQStreamSinkConfig :: RabbitMQStreamSinkConfig where
  "zero_RabbitMQStreamSinkConfig =
     \<lparr>rq_URIs = [], rq_URL = [], rq_Stream = [], rq_Username = [], rq_Password = [],
       rq_Declare = False, rq_MaxAge = 0, rq_MaxLengthBytes = 0, rq_TLS = zero_SinkTLSConfig\<rparr>"

definition zero_PostgresSinkConfig :: PostgresSinkConfig where
  "zero_PostgresSinkConfig =
     \<lparr>pk_DSN = [], pk_Table = [], pk_TLS = zero_SinkTLSConfig\<rparr>"

definition zero_SchemaRegistryBasicAuth :: SchemaRegistryBasicAuth where
  "zero_SchemaRegistryBasicAuth =
     \<lparr>sb_Username = [], sb_Password = []\<rparr>"

definition zero_SchemaRegistryConfig :: SchemaRegistryConfig where
  "zero_SchemaRegistryConfig =
     \<lparr>sr_URL = [], sr_Format = [], sr_Subject = [], sr_AutoRegister = None, sr_SchemaFile = [],
       sr_BasicAuth = zero_SchemaRegistryBasicAuth, sr_TLS = zero_SinkTLSConfig\<rparr>"

definition zero_KafkaSinkConfig :: KafkaSinkConfig where
  "zero_KafkaSinkConfig =
     \<lparr>kf_Brokers = [], kf_Topic = [], kf_Acks = [], kf_Compression = [],
       kf_TLS = zero_SinkTLSConfig, kf_SchemaRegistry = zero_SchemaRegistryConfig\<rparr>"

definition zero_SQSSinkConfig :: SQSSinkConfig where
  "zero_SQSSinkConfig =
     \<lparr>qs_QueueURL = [], qs_Region = [], qs_EndpointURL = [], qs_MessageGroup = []\<rparr>"

definition zero_SNSSinkConfig :: SNSSinkConfig where
  "zero_SNSSinkConfig =
     \<lparr>sn_TopicARN = [], sn_Region = [], sn_EndpointURL = [], sn_MessageGroup = []\<rparr>"

definition zero_DynamoDBSinkConfig :: DynamoDBSinkConfig where
  "zero_DynamoDBSinkConfig =
     \<lparr>dy_Table = [], dy_Region = [], dy_EndpointURL = [], dy_PartitionKey = [], dy_SortKey = [],
       dy_TTLAttribute = [], dy_ItemTTL = 0\<rparr>"

definition zero_GCPPubSubSinkConfig :: GCPPubSubSinkConfig where
  "zero_GCPPubSubSinkConfig =
     \<lparr>gc_ProjectID = [], gc_TopicID = [], gc_Endpoint = [], gc_OrderingKey = []\<rparr>"

definition zero_AzureServiceBusSinkConfig :: AzureServiceBusSinkConfig where
  "zero_AzureServiceBusSinkConfig =
     \<lparr>az_ConnectionString = [], az_Namespace = [], az_Queue = [], az_Topic = []\<rparr>"

definition zero_CosmosDBSinkConfig :: CosmosDBSinkConfig where
  "zero_CosmosDBSinkConfig =
     \<lparr>cb_Endpoint = [], cb_ConnectionString = [], cb_Database = [], cb_Container = [],
       cb_CreateIfMissing = False, cb_Throughput = 0\<rparr>"

definition zero_DaprPubSubSinkConfig :: DaprPubSubSinkConfig where
  "zero_DaprPubSubSinkConfig =
     \<lparr>dp_Address = [], dp_PubsubName = [], dp_Topic = [], dp_ContentType = [],
       dp_Metadata = []\<rparr>"

definition zero_NATSSinkConfig :: NATSSinkConfig where
  "zero_NATSSinkConfig =
     \<lparr>na_URL = [], na_Subject = [], na_Token = [], na_Username = [], na_Password = [],
       na_CredsFile = [], na_JetStream = False, na_TLS = zero_SinkTLSConfig\<rparr>"

definition zero_SinkConfig :: SinkConfig where
  "zero_SinkConfig =
     \<lparr>sc_Name = [], sc_Driver = [], sc_DeadLetter = [], sc_Postgres = zero_PostgresSinkConfig,
       sc_Kafka = zero_KafkaSinkConfig, sc_AMQP091 = zero_AMQP091SinkConfig,
       sc_AMQP10 = zero_AMQP10SinkConfig, sc_RabbitMQStream = zero_RabbitMQStreamSinkConfig,
       sc_SQS = zero_SQSSinkConfig, sc_SNS = zero_SNSSinkConfig, sc_DynamoDB = zero_DynamoDBSinkConfig,
       sc_Stdout = zero_StdoutSinkConfig, sc_HTTP = zero_HTTPSinkConfig, sc_Feed = zero_FeedSinkConfig,
       sc_Composite = zero_CompositeSinkConfig, sc_GCPPubSub = zero_GCPPubSubSinkConfig,
       sc_AzureServiceBus = zero_AzureServiceBusSinkConfig, sc_CosmosDB = zero_CosmosDBSinkConfig,
       sc_DaprPubSub = zero_DaprPubSubSinkConfig, sc_NATS = zero_NATSSinkConfig,
       sc_GRPC = zero_GRPCSinkConfig\<rparr>"

definition zero_KubernetesFeedSourceConfig :: KubernetesFeedSourceConfig where
  "zero_KubernetesFeedSourceConfig =
     \<lparr>kb_Namespace = [], kb_Kubeconfig = [], kb_LabelSelector = [], kb_ResyncInterval = 0,
       kb_WriteStatus = None\<rparr>"

definition zero_PostgresFeedSourceConfig :: PostgresFeedSourceConfig where
  "zero_PostgresFeedSourceConfig =
     \<lparr>fp_DSN = [], fp_Table = [], fp_Query = [], fp_TLS = zero_pg_tls\<rparr>"

definition zero_HTTPFeedSourceConfig :: HTTPFeedSourceConfig where
  "zero_HTTPFeedSourceConfig =
     \<lparr>fh_URL = [], fh_Timeout = 0, fh_Headers = [], fh_TLS = zero_pg_tls\<rparr>"

definition zero_FeedSourceConfig :: FeedSourceConfig where
  "zero_FeedSourceConfig =
     \<lparr>fo_Type = [], fo_Name = [], fo_Path = [], fo_Interval = 0,
       fo_Postgres = zero_PostgresFeedSourceConfig, fo_HTTP = zero_HTTPFeedSourceConfig,
       fo_Kubernetes = zero_KubernetesFeedSourceConfig\<rparr>"

definition zero_FeedHTTPConfig :: FeedHTTPConfig where
  "zero_FeedHTTPConfig =
     \<lparr>fd_Timeout = 0, fd_Headers = [], fd_Retry = zero_RetryConfig\<rparr>"

definition zero_FeedConfig :: FeedConfig where
  "zero_FeedConfig =
     \<lparr>fc_URL = [], fc_Interval = 0, fc_Sinks = [], fc_HTTP = zero_FeedHTTPConfig\<rparr>"

definition zero_Config :: Config where
  "zero_Config =
     \<lparr>cf_Log = zero_LogConfig, cf_Telemetry = zero_TelemetryConfig, cf_HTTP = zero_HTTPConfig,
       cf_Retry = zero_RetryConfig, cf_Runtime = zero_RuntimeConfig,
       cf_Heartbeat = zero_HeartbeatConfig, cf_Coordination = zero_CoordinationConfig,
       cf_State = zero_StateConfig, cf_Health = zero_HealthConfig, cf_Admin = zero_AdminConfig,
       cf_Sinks = [], cf_Feeds = [], cf_FeedSources = []\<rparr>"

lemmas zero_defs [zero_simps] =
  zero_LogConfig_def zero_CloudWatchLogsConfig_def zero_CloudWatchMetricsConfig_def
  zero_TelemetryCloudWatchConfig_def zero_TelemetryPostHogConfig_def zero_TelemetrySentryConfig_def
  zero_TelemetrySignalConfig_def zero_TelemetryPrometheusConfig_def zero_TelemetryGraphiteConfig_def
  zero_TelemetryConfig_def zero_RetryConfig_def zero_HTTPConfig_def
  zero_RuntimeConfig_def zero_HeartbeatConfig_def zero_CoordinationAssignmentConfig_def
  zero_CoordinationCosmosDBConfig_def zero_CoordinationDynamoDBConfig_def zero_pg_tls_def
  zero_CoordinationPGConfig_def zero_CoordinationRedisSentinelConfig_def zero_CoordinationRedisClusterConfig_def
  zero_CoordinationRedisConfig_def zero_CoordinationConfig_def zero_HealthConfig_def
  zero_FeedBasicAuthConfig_def zero_FeedBearerCred_def zero_FeedAPIKeyCred_def
  zero_AdminTLSConfig_def zero_AdminAuthConfig_def zero_AdminCORSConfig_def
  zero_AdminConfig_def zero_PostgresStateConfig_def zero_SQLiteStateConfig_def
  zero_DynamoDBStateConfig_def zero_CosmosDBStateConfig_def zero_StateConfig_def
  zero_SinkTLSConfig_def zero_GRPCSinkConfig_def zero_HTTPSinkConfig_def
  zero_FeedAuthConfig_def zero_FeedSurfaceConfig_def zero_FeedTimeoutsConfig_def
  zero_FeedTLSConfig_def zero_FeedStoreSQLiteConfig_def zero_FeedStorePostgresConfig_def
  zero_FeedStoreConfig_def zero_FeedSinkConfig_def zero_CompositeSinkConfig_def
  zero_StdoutSinkConfig_def zero_AMQP091SinkConfig_def zero_AMQP10SinkConfig_def
  zero_RabbitMQStreamSinkConfig_def zero_PostgresSinkConfig_def zero_SchemaRegistryBasicAuth_def
  zero_SchemaRegistryConfig_def zero_KafkaSinkConfig_def zero_SQSSinkConfig_def
  zero_SNSSinkConfig_def zero_DynamoDBSinkConfig_def zero_GCPPubSubSinkConfig_def
  zero_AzureServiceBusSinkConfig_def zero_CosmosDBSinkConfig_def zero_DaprPubSubSinkConfig_def
  zero_NATSSinkConfig_def zero_SinkConfig_def zero_KubernetesFeedSourceConfig_def
  zero_PostgresFeedSourceConfig_def zero_HTTPFeedSourceConfig_def zero_FeedSourceConfig_def
  zero_FeedHTTPConfig_def zero_FeedConfig_def zero_Config_def

subsection \<open>Defaults\<close>

definition Defaults_Telemetry :: TelemetryConfig where
  "Defaults_Telemetry = zero_TelemetryConfig
     \<lparr>tl_ServiceName := ''rss2msg'',
      tl_Traces := zero_TelemetrySignalConfig\<lparr>ts_Enabled := True\<rparr>,
      tl_Metrics := zero_TelemetrySignalConfig\<lparr>ts_Enabled := True\<rparr>,
      tl_Logs := zero_TelemetrySignalConfig\<lparr>ts_Enabled := False\<rparr>,
      tl_Prometheus := zero_TelemetryPrometheusConfig\<lparr>pr_Enabled := False, pr_Listen := '':9090''\<rparr>,
      tl_Graphite := zero_TelemetryGraphiteConfig\<lparr>gr_Enabled := False, gr_Address := ''localhost:2003'',
        gr_Prefix := ''rss2msg'', gr_Interval := 10 * second\<rparr>,
      tl_Sentry := zero_TelemetrySentryConfig\<lparr>se_Enabled := False, se_Level := ''error'',
        se_SampleRate := Some 1, se_TracesSampleRate := Some 0\<rparr>,
      tl_PostHog := zero_TelemetryPostHogConfig\<lparr>ph_Enabled := False,
        ph_Endpoint := ''https://us.i.posthog.com'', ph_Level := ''error''\<rparr>,
      tl_CloudWatch := zero_TelemetryCloudWatchConfig\<lparr>cw_Enabled := False,
        cw_Logs := zero_CloudWatchLogsConfig\<lparr>cwl_Level := ''info'', cwl_BatchInterval := 5 * second\<rparr>,
        cw_Metrics := zero_CloudWatchMetricsConfig\<lparr>cwm_Namespace := ''rss2msg'',
          cwm_Interval := 60 * second\<rparr>\<rparr>\<rparr>"

definition Defaults_Retry :: RetryConfig where
  "Defaults_Retry =
     \<lparr>rc_MaxAttempts = 3, rc_BaseDelay = 500 * millisecond, rc_MaxDelay = 10 * second\<rparr>"

definition Defaults :: Config where
  "Defaults = zero_Config
     \<lparr>cf_Log := \<lparr>lg_Level = ''info'', lg_Format = ''json''\<rparr>,
      cf_Telemetry := Defaults_Telemetry,
      cf_HTTP := \<lparr>ht_UserAgent = ''rss2msg/0.1'', ht_Timeout = 30 * second, ht_Retry = Defaults_Retry\<rparr>,
      cf_Retry := Defaults_Retry,
      cf_Runtime := zero_RuntimeConfig\<lparr>rn_ShutdownDrainTimeout := 30 * second, rn_RunOnceConcurrency := 0\<rparr>,
      cf_Heartbeat := \<lparr>hb_Enabled = False, hb_Interval = minute\<rparr>,
      cf_Coordination := zero_CoordinationConfig\<lparr>co_Driver := ''memory'',
        co_Assignment := \<lparr>as_Enabled = False, as_Strategy = ''rendezvous'',
          as_HeartbeatInterval = 10 * second, as_MemberTTL = 30 * second,
          as_RebalanceGrace = 5 * second\<rparr>\<rparr>,
      cf_Health := \<lparr>hc_Enabled = True, hc_Listen = '':8080'', hc_LivenessPath = ''/healthz'',
        hc_ReadinessPath = ''/readyz'', hc_StartupPath = ''/startupz''\<rparr>,
      cf_Admin := zero_AdminConfig\<lparr>ad_Enabled := False, ad_Listen := '':8090'',
        ad_Auth := zero_AdminAuthConfig\<lparr>aa_Enabled := True\<rparr>\<rparr>\<rparr>"

lemmas Defaults_defs [zero_simps] = Defaults_def Defaults_Telemetry_def Defaults_Retry_def

end
