(* ===== verification/Validate_Base.thy ===== *)
theory Validate_Base
  imports Config Feed_Fetch
begin

section \<open>Validation: checks and the sections without sinks (\<^verbatim>\<open>internal/config/validate.go\<close>)\<close>

text \<open>
  \<^verbatim>\<open>validate\<close> is one long function of early returns.  A run of \<^verbatim>\<open>if cond { return err }\<close> is the list
  of its conditions with their errors, of which \<open>first_error\<close> takes the first that holds; a section
  gives its warnings and its error, and \<open>run_checks\<close> stops at the first section with an error, with
  the warnings collected so far.  Formatted messages are their format and arguments.

  Outside the model, as the record \<open>valid_env\<close>: \<^verbatim>\<open>url.Parse\<close>, the parsers of network addresses,
  \<^verbatim>\<open>os.Stat\<close>, the label selectors of Kubernetes, and the order in which a map literal is visited.
\<close>

type_synonym warning = go_error
type_synonym checked = "warning list \<times> go_error option"

fun first_error :: "(bool \<times> go_error) list \<Rightarrow> go_error option" where
  "first_error [] = None"
| "first_error ((bad, err) # rest) = (if bad then Some err else first_error rest)"

definition checks :: "(bool \<times> go_error) list \<Rightarrow> checked" where
  "checks cs = ([], first_error cs)"

fun run_checks :: "checked list \<Rightarrow> checked" where
  "run_checks [] = ([], None)"
| "run_checks ((ws, Some err) # rest) = (ws, Some err)"
| "run_checks ((ws, None) # rest) = (case run_checks rest of (ws', e) \<Rightarrow> (ws @ ws', e))"

definition warn_if :: "bool \<Rightarrow> warning \<Rightarrow> checked" where
  "warn_if b w = ((if b then [w] else []), None)"

definition from_error :: "go_error option \<Rightarrow> checked" where
  "from_error e = ([], e)"

lemma first_error_None [simp]: "first_error cs = None \<longleftrightarrow> (\<forall>(bad, err)\<in>set cs. \<not> bad)"
  by (induction cs rule: first_error.induct) auto

lemma run_checks_ok [simp]: "snd (run_checks cs) = None \<longleftrightarrow> (\<forall>c\<in>set cs. snd c = None)"
  by (induction cs rule: run_checks.induct) (auto split: prod.splits)

lemma checks_ok [simp]: "snd (checks cs) = None \<longleftrightarrow> (\<forall>(bad, err)\<in>set cs. \<not> bad)"
  by (simp add: checks_def)

lemma warn_if_ok [simp]: "snd (warn_if b w) = None" "fst (warn_if b w) = (if b then [w] else [])"
  by (simp_all add: warn_if_def)

lemma from_error_ok [simp]: "snd (from_error e) = e" "fst (from_error e) = []"
  by (simp_all add: from_error_def)

text \<open>The first error reported is the one of the first section that has one.\<close>

lemma run_checks_first:
  "run_checks (pre @ (ws, Some err) # post) =
     (if \<forall>c\<in>set pre. snd c = None then (concat (map fst pre) @ ws, Some err) else run_checks pre)"
proof (induction pre rule: run_checks.induct)
  case (3 ws' rest)
  then show ?case by (auto split: prod.splits)
qed auto

record url =
  u_Scheme :: string
  u_Host :: string
  u_Path :: string
  u_Query :: "string \<Rightarrow> string"
  u_Redacted :: string

record valid_env =
  url_Parse :: "string \<Rightarrow> url result"
  ParseCIDR :: "string \<Rightarrow> go_error option"
  ParseIP :: "string \<Rightarrow> bool"
  os_Stat :: "string \<Rightarrow> go_error option"
  labels_Parse :: "string \<Rightarrow> go_error option"
  map_order :: "(string \<times> string) list \<Rightarrow> (string \<times> string) list"

abbreviation empty :: "string \<Rightarrow> bool" where
  "empty s \<equiv> s = []"

subsection \<open>Known names\<close>

definition knownStateDrivers :: "string list" where
  "knownStateDrivers = [''postgres'', ''sqlite'', ''dynamodb'', ''cosmosdb'']"

definition knownZerologLevels :: "string list" where
  "knownZerologLevels =
     [''trace'', ''debug'', ''info'', ''warn'', ''error'', ''fatal'', ''panic'', ''disabled'']"

definition knownSinkDrivers :: "string list" where
  "knownSinkDrivers =
     [''postgres'', ''kafka'', ''amqp091'', ''amqp10'', ''rabbitmq_stream'', ''sqs'', ''sns'',
      ''dynamodb'', ''stdout'', ''http'', ''grpc'', ''feed'', ''composite'', ''gcp_pubsub'',
      ''azureservicebus'', ''cosmosdb'', ''dapr_pubsub'', ''nats'']"

definition knownFeedStoreDrivers :: "string list" where
  "knownFeedStoreDrivers = [''memory'', ''sqlite'', ''postgres'']"

definition knownHTTPSinkMethods :: "string list" where
  "knownHTTPSinkMethods = ['''', ''POST'', ''PUT'']"

definition knownStdoutTargets :: "string list" where
  "knownStdoutTargets = ['''', ''stdout'', ''stderr'']"

definition knownStdoutFormats :: "string list" where
  "knownStdoutFormats = ['''', ''json'', ''pretty'']"

definition knownSQSMessageGroups :: "string list" where
  "knownSQSMessageGroups = [''feed_url'', ''item_id'', ''sink'']"

definition knownGCPPubSubOrderingKeys :: "string list" where
  "knownGCPPubSubOrderingKeys = [''feed_url'', ''item_id'', ''sink'']"

definition knownRabbitMQExchangeTypes :: "string list" where
  "knownRabbitMQExchangeTypes = [''direct'', ''topic'', ''fanout'', ''headers'']"

definition knownCoordinationDrivers :: "string list" where
  "knownCoordinationDrivers = ['''', ''memory'', ''postgres'', ''redis'', ''dynamodb'', ''cosmosdb'']"

definition reservedHeaders :: "string list" where
  "reservedHeaders =
     [CanonicalHeaderKey ''If-Modified-Since'', CanonicalHeaderKey ''If-None-Match'']"

subsection \<open>The ssl mode of a DSN\<close>

text \<open>\<^verbatim>\<open>(?i)\bsslmode\s*=\s*(\S+)\<close> at the leftmost position it matches.  \<^verbatim>\<open>\s\<close>, \<^verbatim>\<open>\b\<close> are ASCII; the case
  folding of the letter s includes U+017F.\<close>

definition re_space :: "char \<Rightarrow> bool" where
  "re_space c \<longleftrightarrow> byte c \<in> {9, 10, 12, 13, 32}"

definition re_word :: "char \<Rightarrow> bool" where
  "re_word c \<longleftrightarrow> is_lower c \<or> is_upper c \<or> (48 \<le> byte c \<and> byte c \<le> 57) \<or> byte c = 95"

fun re_letters :: "string \<Rightarrow> string \<Rightarrow> string option" where
  "re_letters [] s = Some s"
| "re_letters (l # ls) [] = None"
| "re_letters (l # ls) (c # cs) =
     (if c = l \<or> (is_upper c \<and> byte c + 32 = byte l) then re_letters ls cs
      else if byte l = 115 \<and> byte c = 197
      then (case cs of d # ds \<Rightarrow> if byte d = 191 then re_letters ls ds else None | [] \<Rightarrow> None)
      else None)"

definition re_match_here :: "string \<Rightarrow> string option" where
  "re_match_here s =
     (case re_letters ''sslmode'' s of
        None \<Rightarrow> None
      | Some rest \<Rightarrow>
          (case dropWhile re_space rest of
             [] \<Rightarrow> None
           | e # rest1 \<Rightarrow>
               if e \<noteq> CHR ''='' then None
               else let v = takeWhile (\<lambda>c. \<not> re_space c) (dropWhile re_space rest1)
                    in if v = [] then None else Some v))"

fun re_find :: "bool \<Rightarrow> string \<Rightarrow> string option" where
  "re_find prev_word [] = None"
| "re_find prev_word (c # cs) =
     (case (if prev_word \<noteq> re_word c then re_match_here (c # cs) else None) of
        Some v \<Rightarrow> Some v
      | None \<Rightarrow> re_find (re_word c) cs)"

definition pgKeywordSSLModeRE :: "string \<Rightarrow> string option" where
  "pgKeywordSSLModeRE dsn = re_find False dsn"

definition trim_quotes :: "string \<Rightarrow> string" where
  "trim_quotes s =
     (let q = (\<lambda>c. byte c = 34 \<or> byte c = 39) in rev (dropWhile q (rev (dropWhile q s))))"

text \<open>\<^verbatim>\<open>strings.EqualFold\<close> with a lower-case ASCII word that has no k.\<close>

definition equal_fold :: "string \<Rightarrow> string \<Rightarrow> bool" where
  "equal_fold v w \<longleftrightarrow> re_letters w v = Some []"

definition pgSSLModeIsDisable :: "valid_env \<Rightarrow> string \<Rightarrow> bool" where
  "pgSSLModeIsDisable env dsn =
     (let by_keyword = (case pgKeywordSSLModeRE dsn of
            Some m \<Rightarrow> trim_quotes (ToLower m) = ''disable'' | None \<Rightarrow> False)
      in case url_Parse env dsn of
           Inr u \<Rightarrow>
             if (u_Scheme u = ''postgres'' \<or> u_Scheme u = ''postgresql'') \<and>
                \<not> empty (u_Query u ''sslmode'')
             then equal_fold (u_Query u ''sslmode'') ''disable'' else by_keyword
         | Inl _ \<Rightarrow> by_keyword)"

definition tls_given :: "pg_tls \<Rightarrow> bool" where
  "tls_given t \<longleftrightarrow> \<not> empty (pt_CAFile t) \<or> \<not> empty (pt_CertFile t) \<or> \<not> empty (pt_KeyFile t) \<or>
     \<not> empty (pt_ServerName t) \<or> pt_InsecureSkipVerify t"

subsection \<open>State\<close>

definition validate_state_driver :: "valid_env \<Rightarrow> Config \<Rightarrow> checked" where
  "validate_state_driver env c =
     (let st = cf_State c; drv = st_Driver st; pg = st_Postgres st; cdb = st_CosmosDB st in
      run_checks
        [checks
           [(drv \<notin> set knownStateDrivers, Errorf ''state.driver %q is not supported'' [FStr drv])],
         (if drv = ''postgres'' then
            let dsn = TrimSpace (ps_DSN pg); t = ps_TLS pg in
            checks
              [(empty dsn, Errorf ''state.postgres.dsn is required when state.driver=postgres'' []),
               (tls_given t \<and> pgSSLModeIsDisable env dsn,
                Errorf ''state.postgres.tls is set but the DSN has sslmode=disable; remove sslmode=disable or drop the tls block'' []),
               (empty (pt_CertFile t) \<noteq> empty (pt_KeyFile t),
                Errorf ''state.postgres.tls.cert_file and key_file must both be set or both empty'' [])]
          else if drv = ''sqlite'' then
            checks
              [(empty (TrimSpace (sq_Path (st_SQLite st))),
                Errorf ''state.sqlite.path is required when state.driver=sqlite'' [])]
          else if drv = ''dynamodb'' then
            checks
              [(empty (TrimSpace (ds_Table (st_DynamoDB st))),
                Errorf ''state.dynamodb.table is required when state.driver=dynamodb'' [])]
          else if drv = ''cosmosdb'' then
            let hasEndpoint = \<not> empty (TrimSpace (cs_Endpoint cdb));
                hasConn = \<not> empty (TrimSpace (cs_ConnectionString cdb)) in
            checks
              [(\<not> hasEndpoint \<and> \<not> hasConn,
                Errorf ''state.cosmosdb: one of endpoint or connection_string is required when state.driver=cosmosdb'' []),
               (hasEndpoint \<and> hasConn,
                Errorf ''state.cosmosdb: endpoint and connection_string are mutually exclusive'' []),
               (empty (TrimSpace (cs_Database cdb)),
                Errorf ''state.cosmosdb.database is required when state.driver=cosmosdb'' [])]
          else checks [])])"

text \<open>The map of the two SQL intervals has at most one entry for the driver, so the order of its
  iteration does not matter.\<close>

definition validate_state_retention :: "Config \<Rightarrow> checked" where
  "validate_state_retention c =
     (let st = cf_State c; drv = st_Driver st; ttl = st_ItemTTL st;
          sqlCleanup = [(''sqlite'', sq_CleanupInterval (st_SQLite st)),
                        (''postgres'', ps_CleanupInterval (st_Postgres st))] in
      run_checks
        [checks [(ttl < 0, Errorf ''state.item_ttl %v must not be negative'' [FDur ttl])],
         (case map_of sqlCleanup drv of
            None \<Rightarrow> checks []
          | Some iv \<Rightarrow>
              checks
                [(iv < 0, Errorf ''state.%s.cleanup_interval %v must not be negative''
                            [FStr drv, FDur iv]),
                 (iv > 0 \<and> ttl = 0,
                  Errorf ''state.%s.cleanup_interval is set but state.item_ttl is 0 (cleanup disabled)''
                    [FStr drv])]),
         checks
           [(drv = ''dynamodb'' \<and> ttl > 0 \<and> empty (TrimSpace (ds_TTLAttribute (st_DynamoDB st))),
             Errorf ''state.dynamodb.ttl_attribute is required when state.item_ttl is set'' [])],
         warn_if (ttl > 0 \<and> ttl < hour)
           (Errorf ''state.item_ttl %v is very short; items still present in a feed may be pruned and re-published''
              [FDur ttl])])"

subsection \<open>Coordination\<close>

definition validate_coord_postgres :: "valid_env \<Rightarrow> Config \<Rightarrow> checked" where
  "validate_coord_postgres env c =
     (let co = cf_Coordination c;
          dsn0 = TrimSpace (cp_DSN (co_Postgres co));
          dsn = (if empty dsn0 then TrimSpace (ps_DSN (st_Postgres (cf_State c))) else dsn0);
          t = cp_TLS (co_Postgres co) in
      run_checks
        [checks
           [(co_Driver co \<notin> set knownCoordinationDrivers,
             Errorf ''coordination.driver %q is not supported'' [FStr (co_Driver co)])],
         (if co_Driver co = ''postgres'' then
            checks
              [(empty dsn, Errorf ''coordination.postgres.dsn (or state.postgres.dsn fallback) is required when coordination.driver=postgres'' []),
               (tls_given t \<and> pgSSLModeIsDisable env dsn,
                Errorf ''coordination.postgres.tls is set but the DSN has sslmode=disable; remove sslmode=disable or drop the tls block'' []),
               (empty (pt_CertFile t) \<noteq> empty (pt_KeyFile t),
                Errorf ''coordination.postgres.tls.cert_file and key_file must both be set or both empty'' [])]
          else checks [])])"

text \<open>\<^verbatim>\<open>strconv.Atoi\<close>: an optional sign and decimal digits, within the range of \<^verbatim>\<open>int\<close>.\<close>

definition is_digit :: "char \<Rightarrow> bool" where
  "is_digit ch \<longleftrightarrow> 48 \<le> byte ch \<and> byte ch \<le> 57"

definition digits_value :: "string \<Rightarrow> int" where
  "digits_value ds = foldl (\<lambda>n d. 10 * n + int (byte d - 48)) 0 ds"

definition Atoi :: "string \<Rightarrow> int option" where
  "Atoi s =
     (let (sgn, ds) = (case s of
            ch # cs \<Rightarrow> if ch = CHR ''-'' then (- 1, cs) else if ch = CHR ''+'' then (1, cs) else (1, s)
          | [] \<Rightarrow> (1, []))
      in if ds \<noteq> [] \<and> list_all is_digit ds \<and> int64_range (sgn * digits_value ds)
         then Some (sgn * digits_value ds) else None)"

definition redisparseURL :: "valid_env \<Rightarrow> string \<Rightarrow> url result" where
  "redisparseURL env raw =
     (case url_Parse env raw of
        Inl err \<Rightarrow> Inl err
      | Inr u \<Rightarrow>
          let p = TrimPrefix (u_Path u) ''/'' in
          (case first_error
             [(u_Scheme u \<noteq> ''redis'' \<and> u_Scheme u \<noteq> ''rediss'',
               Errorf ''scheme must be redis or rediss, got %q'' [FStr (u_Scheme u)]),
              (empty (u_Host u), Errorf ''host is required'' []),
              (\<not> empty p \<and> (case Atoi p of None \<Rightarrow> True | Some n \<Rightarrow> n < 0),
               Errorf ''db index %q must be a non-negative integer'' [FStr p])] of
             Some err \<Rightarrow> Inl err
           | None \<Rightarrow> Inr u))"

definition redis_mode :: "CoordinationRedisConfig \<Rightarrow> string" where
  "redis_mode r = (if empty (rd_Mode r) then ''single'' else rd_Mode r)"

definition validate_redis_mode :: "valid_env \<Rightarrow> CoordinationRedisConfig \<Rightarrow> checked" where
  "validate_redis_mode env r =
     (let mode = redis_mode r; sn = rd_Sentinel r;
          sentinelSet = (\<not> empty (rs_MasterName sn) \<or> length (rs_Addrs sn) > 0);
          clusterSet = (length (rcl_Addrs (rd_Cluster r)) > 0);
          raw = TrimSpace (rd_URL r) in
      if mode = ''single'' then
        checks
          [(sentinelSet, Errorf ''coordination.redis.sentinel must not be set when mode=single'' []),
           (clusterSet, Errorf ''coordination.redis.cluster must not be set when mode=single'' []),
           (empty raw, Errorf ''coordination.redis.url is required when coordination.driver=redis and mode=single'' []),
           (case redisparseURL env raw of
              Inl err \<Rightarrow>
                (True, Errorf ''coordination.redis.url %q is not parseable: %w''
                  [FStr (case url_Parse env raw of Inr u \<Rightarrow> u_Redacted u | Inl _ \<Rightarrow> raw), FWrap err])
            | Inr _ \<Rightarrow> (False, Errorf '''' []))]
      else if mode = ''sentinel'' then
        checks
          [(\<not> empty raw, Errorf ''coordination.redis.url must not be set when mode=sentinel (use sentinel.addrs)'' []),
           (clusterSet, Errorf ''coordination.redis.cluster must not be set when mode=sentinel'' []),
           (empty (TrimSpace (rs_MasterName sn)),
            Errorf ''coordination.redis.sentinel.master_name is required when mode=sentinel'' []),
           (length (rs_Addrs sn) = 0,
            Errorf ''coordination.redis.sentinel.addrs is required when mode=sentinel'' [])]
      else if mode = ''cluster'' then
        checks
          [(\<not> empty raw, Errorf ''coordination.redis.url must not be set when mode=cluster (use cluster.addrs)'' []),
           (sentinelSet, Errorf ''coordination.redis.sentinel must not be set when mode=cluster'' []),
           (\<not> clusterSet, Errorf ''coordination.redis.cluster.addrs is required when mode=cluster'' [])]
      else
        checks
          [(True, Errorf ''coordination.redis.mode %q is not supported (want single, sentinel, or cluster)''
                    [FStr (rd_Mode r)])])"

definition validate_coord_redis :: "valid_env \<Rightarrow> Config \<Rightarrow> checked" where
  "validate_coord_redis env c =
     (if co_Driver (cf_Coordination c) \<noteq> ''redis'' then checks []
      else
        let r = co_Redis (cf_Coordination c); t = rd_TLS r; ttl0 = rd_LockTTL r;
            ri = rd_RenewalInterval r; ttl = (if ttl0 = 0 then 30 * second else ttl0);
            u = url_Parse env (TrimSpace (rd_URL r)) in
        run_checks
          [validate_redis_mode env r,
           checks
             [(ttl0 \<noteq> 0 \<and> ttl0 < second,
               Errorf ''coordination.redis.lock_ttl %v is below the 1s minimum'' [FDur ttl0]),
              (ri \<noteq> 0 \<and> ri \<ge> ttl,
               Errorf ''coordination.redis.renewal_interval %v must be less than lock_ttl %v''
                 [FDur ri, FDur ttl]),
              (tls_given t \<and> redis_mode r = ''single'' \<and>
                 (case u of Inl _ \<Rightarrow> True | Inr v \<Rightarrow> u_Scheme v \<noteq> ''rediss''),
               Errorf ''coordination.redis.tls is only valid when coordination.redis.url uses the rediss:// scheme'' []),
              (empty (pt_CertFile t) \<noteq> empty (pt_KeyFile t),
               Errorf ''coordination.redis.tls.cert_file and key_file must both be set or both empty'' [])]])"

definition validate_coord_dynamodb :: "Config \<Rightarrow> checked" where
  "validate_coord_dynamodb c =
     (if co_Driver (cf_Coordination c) \<noteq> ''dynamodb'' then checks []
      else let d = co_DynamoDB (cf_Coordination c) in
        checks
          [(empty (TrimSpace (cd_Table d)),
            Errorf ''coordination.dynamodb.table is required when coordination.driver=dynamodb'' []),
           (cd_LeaseDuration d \<noteq> 0 \<and> cd_LeaseDuration d < second,
            Errorf ''coordination.dynamodb.lease_duration %v is below the 1s minimum''
              [FDur (cd_LeaseDuration d)])])"

definition validate_coord_cosmosdb :: "Config \<Rightarrow> checked" where
  "validate_coord_cosmosdb c =
     (if co_Driver (cf_Coordination c) \<noteq> ''cosmosdb'' then checks []
      else
        let d = co_CosmosDB (cf_Coordination c);
            hasEndpoint = \<not> empty (TrimSpace (cc_Endpoint d));
            hasConn = \<not> empty (TrimSpace (cc_ConnectionString d)) in
        checks
          [(\<not> hasEndpoint \<and> \<not> hasConn,
            Errorf ''coordination.cosmosdb: one of endpoint or connection_string is required when coordination.driver=cosmosdb'' []),
           (hasEndpoint \<and> hasConn,
            Errorf ''coordination.cosmosdb: endpoint and connection_string are mutually exclusive'' []),
           (empty (TrimSpace (cc_Database d)),
            Errorf ''coordination.cosmosdb.database is required when coordination.driver=cosmosdb'' []),
           (cc_LeaseDuration d \<noteq> 0 \<and> cc_LeaseDuration d < second,
            Errorf ''coordination.cosmosdb.lease_duration %v is below the 1s minimum''
              [FDur (cc_LeaseDuration d)])])"

definition validate_assignment :: "Config \<Rightarrow> checked" where
  "validate_assignment c =
     (let a = co_Assignment (cf_Coordination c); drv = co_Driver (cf_Coordination c);
          hb = (if as_HeartbeatInterval a = 0 then 10 * second else as_HeartbeatInterval a);
          ttl = (if as_MemberTTL a = 0 then 30 * second else as_MemberTTL a) in
      if \<not> as_Enabled a then checks []
      else run_checks
        [checks
           [(\<not> empty (as_Strategy a) \<and> as_Strategy a \<noteq> ''rendezvous'',
             Errorf ''coordination.assignment.strategy %q is not supported (only \"rendezvous\")''
               [FStr (as_Strategy a)]),
            (as_HeartbeatInterval a < 0 \<or> as_MemberTTL a < 0 \<or> as_RebalanceGrace a < 0,
             Errorf ''coordination.assignment durations must be non-negative'' []),
            (ttl \<le> hb,
             Errorf ''coordination.assignment.member_ttl (%s) must exceed heartbeat_interval (%s)''
               [FDur ttl, FDur hb])],
         warn_if (empty drv \<or> drv = ''memory'')
           (Errorf ''coordination.assignment.enabled has no effect with the memory coordinator (single instance); use redis/postgres/dynamodb/cosmosdb for multi-instance assignment'' [])])"

definition validate_runtime :: "Config \<Rightarrow> checked" where
  "validate_runtime c =
     (let drv = co_Driver (cf_Coordination c) in
      run_checks
        [checks
           [(rn_DeliverTimeout (cf_Runtime c) < 0,
             Errorf ''runtime.deliver_timeout %v must not be negative (0 disables it)''
               [FDur (rn_DeliverTimeout (cf_Runtime c))])],
         warn_if (st_Driver (cf_State c) = ''sqlite'' \<and>
                  (drv = ''redis'' \<or> drv = ''postgres'' \<or> drv = ''dynamodb'' \<or> drv = ''cosmosdb''))
           (Errorf ''coordination.driver=%q looks multi-instance but state.driver=%q is a per-instance local file; cross-instance dedup is broken and items will be republished (use state.driver: postgres)''
              [FStr drv, FStr (st_Driver (cf_State c))])])"

subsection \<open>Telemetry, health, admin\<close>

definition rate_bad :: "rat option \<Rightarrow> bool" where
  "rate_bad r = (case r of None \<Rightarrow> False | Some x \<Rightarrow> x < 0 \<or> x > 1)"

definition rate_arg :: "rat option \<Rightarrow> farg" where
  "rate_arg r = (case r of None \<Rightarrow> FStr ''NaN'' | Some x \<Rightarrow> FReal x)"

definition level_bad :: "string \<Rightarrow> bool" where
  "level_bad l \<longleftrightarrow> \<not> empty (TrimSpace l) \<and> ToLower (TrimSpace l) \<notin> set knownZerologLevels"

definition validate_sentry_posthog :: "Config \<Rightarrow> checked" where
  "validate_sentry_posthog c =
     (let s = tl_Sentry (cf_Telemetry c); p = tl_PostHog (cf_Telemetry c) in
      run_checks
        [(if se_Enabled s then
            checks
              [(rate_bad (se_SampleRate s),
                Errorf ''telemetry.sentry.sample_rate %v must be within [0.0, 1.0]'' [rate_arg (se_SampleRate s)]),
               (rate_bad (se_TracesSampleRate s),
                Errorf ''telemetry.sentry.traces_sample_rate %v must be within [0.0, 1.0]'' [rate_arg (se_TracesSampleRate s)]),
               (level_bad (se_Level s),
                Errorf ''telemetry.sentry.level %q is not a valid level (want one of trace, debug, info, warn, error, fatal, panic, disabled)'' [FStr (se_Level s)])]
          else checks []),
         (if ph_Enabled p then
            checks
              [(ph_FlushInterval p < 0,
                Errorf ''telemetry.posthog.flush_interval %v must not be negative'' [FDur (ph_FlushInterval p)]),
               (level_bad (ph_Level p),
                Errorf ''telemetry.posthog.level %q is not a valid level (want one of trace, debug, info, warn, error, fatal, panic, disabled)'' [FStr (ph_Level p)])]
          else checks [])])"

definition no_slash :: "string \<Rightarrow> bool" where
  "no_slash p = (case p of [] \<Rightarrow> True | ch # _ \<Rightarrow> ch \<noteq> CHR ''/'')"

fun first_dup :: "string list \<Rightarrow> string list \<Rightarrow> string option" where
  "first_dup [] seen = None"
| "first_dup (p # ps) seen = (if p \<in> set seen then Some p else first_dup ps (p # seen))"

definition validate_health :: "valid_env \<Rightarrow> Config \<Rightarrow> checked" where
  "validate_health env c =
     (let h = cf_Health c; pr = tl_Prometheus (cf_Telemetry c);
          paths = [(''health.liveness_path'', hc_LivenessPath h),
                   (''health.readiness_path'', hc_ReadinessPath h),
                   (''health.startup_path'', hc_StartupPath h)] in
      if \<not> hc_Enabled h then checks []
      else run_checks
        [checks
           [(empty (TrimSpace (hc_Listen h)),
             Errorf ''health.listen is required when health.enabled=true'' [])],
         checks (map (\<lambda>(key, p). (no_slash p, Errorf ''%s %q must start with /'' [FStr key, FStr p]))
                   (map_order env paths)),
         (case first_dup [hc_LivenessPath h, hc_ReadinessPath h, hc_StartupPath h] [] of
            Some p \<Rightarrow> checks [(True, Errorf ''health probe paths must be distinct (%q is reused)'' [FStr p])]
          | None \<Rightarrow> checks []),
         warn_if (pr_Enabled pr \<and> hc_Listen h = pr_Listen pr)
           (Errorf ''health.listen %q is the same as telemetry.prometheus.listen; one server will fail to bind'' [FStr (hc_Listen h)])])"

definition cors_check :: "valid_env \<Rightarrow> string \<Rightarrow> checked" where
  "cors_check env o1 =
     (if o1 = ''*'' then
        warn_if True (Errorf ''admin.cors.allowed_origins contains \"*\" (wildcard) combined with credentialed requests; prefer explicit origins'' [])
      else
        checks
          [(case url_Parse env o1 of Inl _ \<Rightarrow> True | Inr u \<Rightarrow> empty (u_Scheme u) \<or> empty (u_Host u),
            Errorf ''admin.cors.allowed_origins entry %q is not a valid origin (scheme://host[:port])'' [FStr o1])])"

definition validateAdmin :: "valid_env \<Rightarrow> Config \<Rightarrow> checked" where
  "validateAdmin env c =
     (let a = cf_Admin c; t = ad_TLS a; h = cf_Health c; pr = tl_Prometheus (cf_Telemetry c);
          mtls = (at_Enabled t \<and> \<not> empty (TrimSpace (at_ClientCAFile t))) in
      if \<not> ad_Enabled a then checks []
      else run_checks
        ([checks
           [(empty (TrimSpace (ad_Listen a)), Errorf ''admin.listen is required when admin.enabled=true'' []),
            (at_Enabled t \<and> (empty (TrimSpace (at_CertFile t)) \<or> empty (TrimSpace (at_KeyFile t))),
             Errorf ''admin.tls.cert_file and admin.tls.key_file are required when admin.tls.enabled=true'' []),
            (\<not> at_Enabled t \<and> \<not> empty (TrimSpace (at_ClientCAFile t)),
             Errorf ''admin.tls.client_ca_file requires admin.tls.enabled=true (mTLS needs TLS)'' []),
            (aa_Enabled (ad_Auth a) \<and> \<not> HasCredentials (ad_Auth a),
             Errorf ''admin.auth is enabled but no credentials are configured; add bearer_tokens/basic_users/api_keys or set admin.auth.enabled=false'' [])],
          warn_if (\<not> aa_Enabled (ad_Auth a) \<and> \<not> mtls)
            (Errorf ''admin.enabled=true but the API has no authentication (admin.auth.enabled=false and no mTLS): it is fully open'' []),
          warn_if (hc_Enabled h \<and> ad_Listen a = hc_Listen h)
            (Errorf ''admin.listen %q is the same as health.listen; one server will fail to bind'' [FStr (ad_Listen a)]),
          warn_if (pr_Enabled pr \<and> ad_Listen a = pr_Listen pr)
            (Errorf ''admin.listen %q is the same as telemetry.prometheus.listen; one server will fail to bind'' [FStr (ad_Listen a)])]
         @ map (cors_check env) (ac_AllowedOrigins (ad_CORS a))))"

definition validate_graphite_cloudwatch :: "Config \<Rightarrow> checked" where
  "validate_graphite_cloudwatch c =
     (let g = tl_Graphite (cf_Telemetry c); cw = tl_CloudWatch (cf_Telemetry c);
          lg = cw_Logs cw; mt = cw_Metrics cw; metrics = ts_Enabled (tl_Metrics (cf_Telemetry c)) in
      run_checks
        [(if gr_Enabled g then
            run_checks
              [checks
                 [(empty (TrimSpace (gr_Address g)),
                   Errorf ''telemetry.graphite.address is required when telemetry.graphite.enabled=true'' []),
                  (gr_Interval g < 0, Errorf ''telemetry.graphite.interval must not be negative'' [])],
               warn_if (\<not> metrics)
                 (Errorf ''telemetry.graphite is enabled but telemetry.metrics.enabled=false; no metrics will be pushed'' [])]
          else checks []),
         (if cw_Enabled cw then
            run_checks
              [(if cwl_Enabled lg then
                  checks
                    [(empty (TrimSpace (cwl_LogGroup lg)),
                      Errorf ''telemetry.cloudwatch.logs.log_group is required when telemetry.cloudwatch.logs.enabled=true'' []),
                     (level_bad (cwl_Level lg),
                      Errorf ''telemetry.cloudwatch.logs.level %q is not a valid level (want one of trace, debug, info, warn, error, fatal, panic, disabled)'' [FStr (cwl_Level lg)]),
                     (cwl_BatchInterval lg < 0,
                      Errorf ''telemetry.cloudwatch.logs.batch_interval must not be negative'' [])]
                else checks []),
               (if cwm_Enabled mt then
                  run_checks
                    [checks
                       [(cwm_Interval mt < 0,
                         Errorf ''telemetry.cloudwatch.metrics.interval must not be negative'' [])],
                     warn_if (\<not> metrics)
                       (Errorf ''telemetry.cloudwatch.metrics is enabled but telemetry.metrics.enabled=false; no metrics will be pushed'' [])]
                else checks []),
               warn_if (\<not> cwl_Enabled lg \<and> \<not> cwm_Enabled mt)
                 (Errorf ''telemetry.cloudwatch.enabled=true but neither logs nor metrics is enabled; CloudWatch will do nothing'' [])]
          else checks [])])"

subsection \<open>Retry settings\<close>

definition validateRetry :: "string \<Rightarrow> RetryConfig \<Rightarrow> go_error option" where
  "validateRetry label r =
     first_error
       [(rc_MaxAttempts r < 0, Errorf ''%s.max_attempts must not be negative'' [FStr label]),
        (rc_BaseDelay r < 0, Errorf ''%s.base_delay must not be negative'' [FStr label]),
        (rc_MaxDelay r < 0, Errorf ''%s.max_delay must not be negative'' [FStr label]),
        (rc_MaxDelay r \<noteq> 0 \<and> rc_BaseDelay r \<noteq> 0 \<and> rc_MaxDelay r < rc_BaseDelay r,
         Errorf ''%s.max_delay %v is below base_delay %v''
           [FStr label, FDur (rc_MaxDelay r), FDur (rc_BaseDelay r)])]"

end
