(* ===== verification/Validate_Sinks.thy ===== *)
theory Validate_Sinks
  imports Validate_Base
begin

section \<open>Validation of the sinks (\<^verbatim>\<open>internal/config/validate.go\<close>)\<close>

text \<open>
  The passes over the declared sinks: names and drivers, the references to other sinks, one check per
  driver, the client TLS blocks and the schema registry of Kafka.  \<open>i\<close> is the index that the
  messages carry.
\<close>

subsection \<open>Helpers\<close>

text \<open>Both identifier checks go over the runes of the string; a rune that is no ASCII letter, digit or
  underscore is refused.\<close>

fun ident_runes :: "nat \<Rightarrow> string list \<Rightarrow> bool" where
  "ident_runes i [] = True"
| "ident_runes i (r # rs) =
     ((case r of
         [c] \<Rightarrow> byte c = 95 \<or> (97 \<le> byte c \<and> byte c \<le> 122) \<or> (65 \<le> byte c \<and> byte c \<le> 90) \<or>
                (48 \<le> byte c \<and> byte c \<le> 57 \<and> i > 0)
       | _ \<Rightarrow> False) \<and> ident_runes (i + length r) rs)"

definition validSQLIdentifier :: "string \<Rightarrow> bool" where
  "validSQLIdentifier s = (if s = [] \<or> length s > 63 then False else ident_runes 0 (runes s))"

definition isValidPGIdentifier :: "string \<Rightarrow> bool" where
  "isValidPGIdentifier s = (if s = [] \<or> length s > 63 then False else ident_runes 0 (runes s))"

definition storeDriverOrDefault :: "string \<Rightarrow> string" where
  "storeDriverOrDefault d = (if empty d then ''memory'' else d)"

fun dup_name :: "string list \<Rightarrow> string list \<Rightarrow> string" where
  "dup_name [] seen = []"
| "dup_name (n # ns) seen =
     (if empty n then dup_name ns seen
      else if n \<in> set seen then n else dup_name ns (n # seen))"

definition firstDupFeedName :: "string list \<Rightarrow> string" where
  "firstDupFeedName names = dup_name names []"

definition validateTrustedProxyEntry :: "valid_env \<Rightarrow> string \<Rightarrow> go_error option" where
  "validateTrustedProxyEntry env raw =
     (let t = TrimSpace raw; l = ToLower t in
      if empty l then Some (Errorf ''must not be empty'' [])
      else if l = ''private'' \<or> l = ''all'' then None
      else if ParseCIDR env t = None then None
      else if ParseIP env t then None
      else Some (Errorf ''not a preset (private|all), CIDR, or IP'' []))"

definition validateFeedAuth ::
    "int \<Rightarrow> string \<Rightarrow> string \<Rightarrow> FeedAuthConfig \<Rightarrow> bool \<Rightarrow> go_error option" where
  "validateFeedAuth i name label a isOverride =
     (let dupAt = (\<lambda>kind names.
            (\<not> empty (firstDupFeedName names),
             Errorf ''sinks[%d] (feed %q): %s.%s has duplicate name %q''
               [FInt i, FStr name, FStr label, FStr kind, FStr (firstDupFeedName names)]));
          h = fa_APIKeyHeader a in
      first_error
        [(fa_Disabled a \<and> HasMethods a,
          Errorf ''sinks[%d] (feed %q): %s.disabled cannot be combined with credentials'' [FInt i, FStr name, FStr label]),
         (isOverride \<and> \<not> fa_Disabled a \<and> \<not> HasMethods a,
          Errorf ''sinks[%d] (feed %q): %s defines no credentials and is not disabled (set disabled: true for a public surface)'' [FInt i, FStr name, FStr label]),
         (list_ex (\<lambda>b. empty (ba_Username b) \<or> empty (ba_Password b)) (fa_BasicUsers a),
          Errorf ''sinks[%d] (feed %q): %s.basic_users entries need both username and password'' [FInt i, FStr name, FStr label]),
         (list_ex (\<lambda>t. empty (bc_Token t)) (fa_BearerTokens a),
          Errorf ''sinks[%d] (feed %q): %s.bearer_tokens entries need a token'' [FInt i, FStr name, FStr label]),
         (list_ex (\<lambda>k. empty (ak_Key k)) (fa_APIKeys a),
          Errorf ''sinks[%d] (feed %q): %s.api_keys entries need a key'' [FInt i, FStr name, FStr label]),
         dupAt ''basic_users'' (map ba_Name (fa_BasicUsers a)),
         dupAt ''bearer_tokens'' (map bc_Name (fa_BearerTokens a)),
         dupAt ''api_keys'' (map ak_Name (fa_APIKeys a)),
         (\<not> empty h \<and> list_ex (\<lambda>c. byte c \<in> {32, 9, 58}) h,
          Errorf ''sinks[%d] (feed %q): %s.api_key_header %q is not a valid header name'' [FInt i, FStr name, FStr label, FStr h]),
         (\<not> empty h \<and> fa_APIKeys a = [],
          Errorf ''sinks[%d] (feed %q): %s.api_key_header requires at least one api_keys entry'' [FInt i, FStr name, FStr label])])"

subsection \<open>Cycles of composites\<close>

text \<open>
  The search of \<^verbatim>\<open>compositeCycle\<close>.  A node is marked on the stack exactly while it is on the path, so
  the path is the whole state; only composites are entered.  The value is the path that closes a
  cycle.
\<close>

function dfs :: "(string \<times> string list) list \<Rightarrow> string list \<Rightarrow> string list \<Rightarrow> string list option" where
  "dfs childrenOf path [] = None"
| "dfs childrenOf path (c # cs) =
     (case map_of childrenOf c of
        None \<Rightarrow> dfs childrenOf path cs
      | Some kids \<Rightarrow>
          if c \<in> set path then Some (path @ [c])
          else (case dfs childrenOf (path @ [c]) kids of
                  Some p \<Rightarrow> Some p
                | None \<Rightarrow> dfs childrenOf path cs))"
  by pat_completeness auto
termination
proof (relation "inv_image (less_than <*lex*> less_than)
    (\<lambda>(ch, path, cs). (card (fst ` set ch - set path), length cs))", goal_cases)
  case 1
  show ?case by auto
next
  case (2 ch path c cs)
  show ?case by simp
next
  case (3 ch path c cs kids)
  then have "c \<in> fst ` set ch" by (force dest: map_of_SomeD)
  with 3 have "card (fst ` set ch - set (path @ [c])) < card (fst ` set ch - set path)"
    by (intro psubset_card_mono) auto
  then show ?case by simp
next
  case (4 ch path c cs kids)
  show ?case by simp
qed

definition children_of :: "(string \<times> string list) list \<Rightarrow> string \<Rightarrow> string list" where
  "children_of childrenOf n = (case map_of childrenOf n of Some cs \<Rightarrow> cs | None \<Rightarrow> [])"

definition compositeCycle :: "string \<Rightarrow> (string \<times> string list) list \<Rightarrow> string" where
  "compositeCycle start childrenOf =
     (case dfs childrenOf [start] (children_of childrenOf start) of
        Some path \<Rightarrow> strings_Join path '' -> ''
      | None \<Rightarrow> [])"

subsection \<open>One check per driver\<close>

definition blank :: "string \<Rightarrow> bool" where
  "blank s = empty (TrimSpace s)"

definition validate_sqs :: "int \<Rightarrow> SinkConfig \<Rightarrow> checked" where
  "validate_sqs i s =
     (let q = sc_SQS s; mg = qs_MessageGroup q; fifo = HasSuffix (qs_QueueURL q) ''.fifo'' in
      checks
        [(blank (qs_QueueURL q), Errorf ''sinks[%d] (sqs %q): sqs.queue_url is required'' [FInt i, FStr (sc_Name s)]),
         (\<not> empty mg \<and> mg \<notin> set knownSQSMessageGroups,
          Errorf ''sinks[%d] (sqs %q): unknown message_group %q (want one of feed_url, item_id, sink)'' [FInt i, FStr (sc_Name s), FStr mg]),
         (\<not> empty mg \<and> \<not> fifo,
          Errorf ''sinks[%d] (sqs %q): message_group is only valid for FIFO queues (queue_url must end with .fifo)'' [FInt i, FStr (sc_Name s)])])"

definition validate_sns :: "int \<Rightarrow> SinkConfig \<Rightarrow> checked" where
  "validate_sns i s =
     (let q = sc_SNS s; mg = sn_MessageGroup q; fifo = HasSuffix (sn_TopicARN q) ''.fifo'' in
      checks
        [(blank (sn_TopicARN q), Errorf ''sinks[%d] (sns %q): sns.topic_arn is required'' [FInt i, FStr (sc_Name s)]),
         (\<not> empty mg \<and> mg \<notin> set knownSQSMessageGroups,
          Errorf ''sinks[%d] (sns %q): unknown message_group %q (want one of feed_url, item_id, sink)'' [FInt i, FStr (sc_Name s), FStr mg]),
         (\<not> empty mg \<and> \<not> fifo,
          Errorf ''sinks[%d] (sns %q): message_group is only valid for FIFO topics (topic_arn must end with .fifo)'' [FInt i, FStr (sc_Name s)])])"

definition validate_dynamodb :: "int \<Rightarrow> SinkConfig \<Rightarrow> checked" where
  "validate_dynamodb i s =
     (let d = sc_DynamoDB s in
      checks
        [(blank (dy_Table d), Errorf ''sinks[%d] (dynamodb %q): dynamodb.table is required'' [FInt i, FStr (sc_Name s)]),
         (blank (dy_TTLAttribute d) \<and> dy_ItemTTL d \<noteq> 0,
          Errorf ''sinks[%d] (dynamodb %q): item_ttl set but ttl_attribute is empty'' [FInt i, FStr (sc_Name s)])])"

definition validate_gcp_pubsub :: "int \<Rightarrow> SinkConfig \<Rightarrow> checked" where
  "validate_gcp_pubsub i s =
     (let g = sc_GCPPubSub s; ok = gc_OrderingKey g in
      checks
        [(blank (gc_ProjectID g), Errorf ''sinks[%d] (gcp_pubsub %q): gcp_pubsub.project_id is required'' [FInt i, FStr (sc_Name s)]),
         (blank (gc_TopicID g), Errorf ''sinks[%d] (gcp_pubsub %q): gcp_pubsub.topic_id is required'' [FInt i, FStr (sc_Name s)]),
         (\<not> empty ok \<and> ok \<notin> set knownGCPPubSubOrderingKeys,
          Errorf ''sinks[%d] (gcp_pubsub %q): unknown ordering_key %q (want one of feed_url, item_id, sink)'' [FInt i, FStr (sc_Name s), FStr ok])])"

definition validate_stdout :: "int \<Rightarrow> SinkConfig \<Rightarrow> checked" where
  "validate_stdout i s =
     (let o1 = sc_Stdout s in
      checks
        [(so_Target o1 \<notin> set knownStdoutTargets,
          Errorf ''sinks[%d] (stdout %q): unknown target %q (want stdout or stderr)'' [FInt i, FStr (sc_Name s), FStr (so_Target o1)]),
         (so_Format o1 \<notin> set knownStdoutFormats,
          Errorf ''sinks[%d] (stdout %q): unknown format %q (want json or pretty)'' [FInt i, FStr (sc_Name s), FStr (so_Format o1)])])"

definition validate_http :: "valid_env \<Rightarrow> int \<Rightarrow> SinkConfig \<Rightarrow> checked" where
  "validate_http env i s =
     (let h = sc_HTTP s; raw = TrimSpace (hs_URL h); u = url_Parse env raw in
      checks
        ([(empty raw, Errorf ''sinks[%d] (http %q): http.url is required'' [FInt i, FStr (sc_Name s)]),
          (case u of Inl _ \<Rightarrow> True
           | Inr v \<Rightarrow> (u_Scheme v \<noteq> ''http'' \<and> u_Scheme v \<noteq> ''https'') \<or> empty (u_Host v),
           Errorf ''sinks[%d] (http %q): http.url %q is not a valid http(s) URL'' [FInt i, FStr (sc_Name s), FStr raw]),
          (hs_HTTP3 h \<and> (case u of Inl _ \<Rightarrow> True | Inr v \<Rightarrow> u_Scheme v \<noteq> ''https''),
           Errorf ''sinks[%d] (http %q): http3 requires an https:// url (HTTP/3 is TLS-only)'' [FInt i, FStr (sc_Name s)]),
          (hs_Method h \<notin> set knownHTTPSinkMethods,
           Errorf ''sinks[%d] (http %q): unknown method %q (want POST or PUT)'' [FInt i, FStr (sc_Name s), FStr (hs_Method h)])]
         @ map (\<lambda>code. (code < 100 \<or> code > 599,
             Errorf ''sinks[%d] (http %q): success_code %d is out of range 100-599'' [FInt i, FStr (sc_Name s), FInt code]))
           (hs_SuccessCodes h)))"

definition validate_grpc :: "int \<Rightarrow> SinkConfig \<Rightarrow> checked" where
  "validate_grpc i s =
     (let g = sc_GRPC s in
      checks
        ([(blank (gp_Target g), Errorf ''sinks[%d] (grpc %q): grpc.target is required'' [FInt i, FStr (sc_Name s)]),
          (gp_Timeout g < 0, Errorf ''sinks[%d] (grpc %q): grpc.timeout must not be negative'' [FInt i, FStr (sc_Name s)])]
         @ concat (map (\<lambda>(k, v).
             let lk = ToLower (TrimSpace k) in
             [(empty lk, Errorf ''sinks[%d] (grpc %q): grpc.metadata has an empty key'' [FInt i, FStr (sc_Name s)]),
              (HasPrefix lk '':'' \<or> HasPrefix lk ''grpc-'' \<or> lk = ''content-type'',
               Errorf ''sinks[%d] (grpc %q): grpc.metadata key %q is reserved'' [FInt i, FStr (sc_Name s), FStr k])])
           (gp_Metadata g))))"

definition validate_amqp091 :: "int \<Rightarrow> SinkConfig \<Rightarrow> checked" where
  "validate_amqp091 i s =
     (let a = sc_AMQP091 s; et = aq_ExchangeType a in
      checks
        [(blank (aq_URL a), Errorf ''sinks[%d] (amqp091 %q): amqp091.url is required'' [FInt i, FStr (sc_Name s)]),
         (\<not> empty et \<and> et \<notin> set knownRabbitMQExchangeTypes,
          Errorf ''sinks[%d] (amqp091 %q): unknown exchange_type %q (want one of direct, topic, fanout, headers)'' [FInt i, FStr (sc_Name s), FStr et]),
         (aq_Declare a \<and> blank (aq_Exchange a),
          Errorf ''sinks[%d] (amqp091 %q): declare=true requires a non-empty exchange (the default exchange cannot be declared)'' [FInt i, FStr (sc_Name s)])])"

definition validate_amqp10 :: "int \<Rightarrow> SinkConfig \<Rightarrow> checked" where
  "validate_amqp10 i s =
     (let a = sc_AMQP10 s in
      checks
        [(blank (a1_URL a), Errorf ''sinks[%d] (amqp10 %q): amqp10.url is required'' [FInt i, FStr (sc_Name s)]),
         (blank (a1_Target a), Errorf ''sinks[%d] (amqp10 %q): amqp10.target is required'' [FInt i, FStr (sc_Name s)])])"

definition validate_rabbitmq_stream :: "int \<Rightarrow> SinkConfig \<Rightarrow> checked" where
  "validate_rabbitmq_stream i s =
     (let r = sc_RabbitMQStream s in
      checks
        [(blank (rq_Stream r), Errorf ''sinks[%d] (rabbitmq_stream %q): rabbitmq_stream.stream is required'' [FInt i, FStr (sc_Name s)]),
         (length (rq_URIs r) = 0 \<and> blank (rq_URL r),
          Errorf ''sinks[%d] (rabbitmq_stream %q): rabbitmq_stream.uris or rabbitmq_stream.url is required'' [FInt i, FStr (sc_Name s)])])"

definition validate_azureservicebus :: "int \<Rightarrow> SinkConfig \<Rightarrow> checked" where
  "validate_azureservicebus i s =
     (let a = sc_AzureServiceBus s;
          hasConn = \<not> blank (az_ConnectionString a); hasNS = \<not> blank (az_Namespace a);
          hasQueue = \<not> blank (az_Queue a); hasTopic = \<not> blank (az_Topic a) in
      checks
        [(\<not> hasConn \<and> \<not> hasNS,
          Errorf ''sinks[%d] (azureservicebus %q): one of connection_string or namespace is required'' [FInt i, FStr (sc_Name s)]),
         (hasConn \<and> hasNS,
          Errorf ''sinks[%d] (azureservicebus %q): connection_string and namespace are mutually exclusive'' [FInt i, FStr (sc_Name s)]),
         (\<not> hasQueue \<and> \<not> hasTopic,
          Errorf ''sinks[%d] (azureservicebus %q): one of queue or topic is required'' [FInt i, FStr (sc_Name s)]),
         (hasQueue \<and> hasTopic,
          Errorf ''sinks[%d] (azureservicebus %q): queue and topic are mutually exclusive'' [FInt i, FStr (sc_Name s)])])"

definition validate_cosmosdb :: "int \<Rightarrow> SinkConfig \<Rightarrow> checked" where
  "validate_cosmosdb i s =
     (let d = sc_CosmosDB s;
          hasEndpoint = \<not> blank (cb_Endpoint d); hasConn = \<not> blank (cb_ConnectionString d) in
      checks
        [(\<not> hasEndpoint \<and> \<not> hasConn,
          Errorf ''sinks[%d] (cosmosdb %q): one of endpoint or connection_string is required'' [FInt i, FStr (sc_Name s)]),
         (hasEndpoint \<and> hasConn,
          Errorf ''sinks[%d] (cosmosdb %q): endpoint and connection_string are mutually exclusive'' [FInt i, FStr (sc_Name s)]),
         (blank (cb_Database d), Errorf ''sinks[%d] (cosmosdb %q): cosmosdb.database is required'' [FInt i, FStr (sc_Name s)]),
         (cb_Throughput d < 0, Errorf ''sinks[%d] (cosmosdb %q): cosmosdb.throughput must not be negative'' [FInt i, FStr (sc_Name s)])])"

definition validate_dapr_pubsub :: "int \<Rightarrow> SinkConfig \<Rightarrow> checked" where
  "validate_dapr_pubsub i s =
     (let d = sc_DaprPubSub s in
      checks
        [(blank (dp_PubsubName d), Errorf ''sinks[%d] (dapr_pubsub %q): dapr_pubsub.pubsub_name is required'' [FInt i, FStr (sc_Name s)]),
         (blank (dp_Topic d), Errorf ''sinks[%d] (dapr_pubsub %q): dapr_pubsub.topic is required'' [FInt i, FStr (sc_Name s)])])"

definition validate_nats :: "int \<Rightarrow> SinkConfig \<Rightarrow> checked" where
  "validate_nats i s =
     (let n = sc_NATS s;
          authGroups = length (filter (\<lambda>x. \<not> blank x) [na_Token n, na_Username n, na_CredsFile n]) in
      checks
        [(blank (na_URL n), Errorf ''sinks[%d] (nats %q): nats.url is required'' [FInt i, FStr (sc_Name s)]),
         (blank (na_Subject n), Errorf ''sinks[%d] (nats %q): nats.subject is required'' [FInt i, FStr (sc_Name s)]),
         (blank (na_Username n) \<noteq> blank (na_Password n),
          Errorf ''sinks[%d] (nats %q): username and password must both be set or both empty'' [FInt i, FStr (sc_Name s)]),
         (authGroups > 1,
          Errorf ''sinks[%d] (nats %q): at most one of token, username/password, or creds_file may be set'' [FInt i, FStr (sc_Name s)])])"

text \<open>The children of a composite, in the order of the list.\<close>

fun children_checks ::
    "int \<Rightarrow> string \<Rightarrow> string list \<Rightarrow> string list \<Rightarrow> string list \<Rightarrow> (bool \<times> go_error) list" where
  "children_checks i name names [] seen = []"
| "children_checks i name names (child # cs) seen =
     [(child = name,
       Errorf ''sinks[%d] (composite %q): composite.children must not reference its own sink'' [FInt i, FStr name]),
      (child \<notin> set names,
       Errorf ''sinks[%d] (composite %q): composite.children references unknown sink %q'' [FInt i, FStr name, FStr child]),
      (child \<in> set seen,
       Errorf ''sinks[%d] (composite %q): composite.children has a duplicate entry %q'' [FInt i, FStr name, FStr child])]
     @ children_checks i name names cs (child # seen)"

definition validate_composite ::
    "string list \<Rightarrow> (string \<times> string list) list \<Rightarrow> int \<Rightarrow> SinkConfig \<Rightarrow> checked" where
  "validate_composite names compositeChildren i s =
     (let cs = cm_Children (sc_Composite s); path = compositeCycle (sc_Name s) compositeChildren in
      checks
        ([(length cs = 0, Errorf ''sinks[%d] (composite %q): composite.children is required'' [FInt i, FStr (sc_Name s)])]
         @ children_checks i (sc_Name s) names cs []
         @ [(\<not> empty path,
             Errorf ''sinks[%d] (composite %q): cyclic child reference (%s)'' [FInt i, FStr (sc_Name s), FStr path])]))"

subsection \<open>The feed sink\<close>

fun surface_checks ::
    "int \<Rightarrow> string \<Rightarrow> (string \<times> string) list \<Rightarrow> (string \<times> string) list \<Rightarrow> (bool \<times> go_error) list" where
  "surface_checks i name [] byPath = []"
| "surface_checks i name ((srf, path) # rest) byPath =
     [(no_slash path, Errorf ''sinks[%d] (feed %q): %s.path must start with /'' [FInt i, FStr name, FStr srf]),
      (map_of byPath path \<noteq> None,
       Errorf ''sinks[%d] (feed %q): %s.path %q collides with %s.path''
         [FInt i, FStr name, FStr srf, FStr path, FStr (case map_of byPath path of Some x \<Rightarrow> x | None \<Rightarrow> [])])]
     @ surface_checks i name rest ((path, srf) # byPath)"

definition enabled_surfaces :: "FeedSinkConfig \<Rightarrow> (string \<times> string) list" where
  "enabled_surfaces f =
     map fst (filter snd
       [((''rss'', PathOr (fk_RSS f) ''/rss''), surface_On (fk_RSS f) True),
        ((''atom'', PathOr (fk_Atom f) ''/atom''), surface_On (fk_Atom f) True),
        ((''mcp'', PathOr (fk_MCP f) ''/mcp''), surface_On (fk_MCP f) False)])"

definition validate_feed_surfaces :: "valid_env \<Rightarrow> int \<Rightarrow> SinkConfig \<Rightarrow> checked" where
  "validate_feed_surfaces env i s =
     (let f = sc_Feed s; n = sc_Name s; t = fk_TLS f in
      checks
        ([(blank (fk_Listen f), Errorf ''sinks[%d] (feed %q): feed.listen is required'' [FInt i, FStr n]),
          (fk_MaxItems f < 0, Errorf ''sinks[%d] (feed %q): feed.max_items must not be negative'' [FInt i, FStr n])]
         @ surface_checks i n (enabled_surfaces f) []
         @ [(enabled_surfaces f = [],
             Errorf ''sinks[%d] (feed %q): at least one of rss/atom/mcp must be enabled'' [FInt i, FStr n])]
         @ map (\<lambda>raw.
             (\<not> empty raw \<and> (case url_Parse env raw of Inl _ \<Rightarrow> True
                              | Inr u \<Rightarrow> empty (u_Scheme u) \<or> empty (u_Host u)),
              Errorf ''sinks[%d] (feed %q): %q is not an absolute URL'' [FInt i, FStr n, FStr raw]))
           [fk_Link f, fk_PublicURL f]
         @ map (\<lambda>raw.
             case validateTrustedProxyEntry env raw of
               Some err \<Rightarrow>
                 (True, Errorf ''sinks[%d] (feed %q): trusted_proxies entry %q: %w'' [FInt i, FStr n, FStr raw, FWrap err])
             | None \<Rightarrow> (False, Canceled))
           (fk_TrustedProxies f)
         @ [(empty (fl_CertFile t) \<noteq> empty (fl_KeyFile t),
             Errorf ''sinks[%d] (feed %q): tls.cert_file and key_file must both be set or both empty'' [FInt i, FStr n]),
            (fk_HTTP3 f \<and> (empty (fl_CertFile t) \<or> empty (fl_KeyFile t)),
             Errorf ''sinks[%d] (feed %q): http3 requires tls.cert_file and key_file (HTTP/3 is TLS-only)'' [FInt i, FStr n])]))"

definition validate_feed_auths :: "int \<Rightarrow> SinkConfig \<Rightarrow> checked" where
  "validate_feed_auths i s =
     (let f = sc_Feed s in
      run_checks
        (from_error (validateFeedAuth i (sc_Name s) ''auth'' (fk_Auth f) False)
         # map (\<lambda>(label, ov).
             case ov of
               None \<Rightarrow> checks []
             | Some a \<Rightarrow> from_error (validateFeedAuth i (sc_Name s) label a True))
           [(''rss.auth'', su_Auth (fk_RSS f)), (''atom.auth'', su_Auth (fk_Atom f)),
            (''mcp.auth'', su_Auth (fk_MCP f))]))"

definition validate_feed_store :: "valid_env \<Rightarrow> Config \<Rightarrow> int \<Rightarrow> SinkConfig \<Rightarrow> checked" where
  "validate_feed_store env c i s =
     (let st = fk_Store (sc_Feed s); n = sc_Name s; sd = storeDriverOrDefault (fs_Driver st);
          pg = fs_Postgres st; t = fsp_TLS pg; drv = co_Driver (cf_Coordination c) in
      run_checks
        [checks
           [(sd \<notin> set knownFeedStoreDrivers,
             Errorf ''sinks[%d] (feed %q): unknown store.driver %q'' [FInt i, FStr n, FStr (fs_Driver st)])],
         (if sd = ''sqlite'' then
            checks [(blank (fsq_Path (fs_SQLite st)),
                     Errorf ''sinks[%d] (feed %q): store.sqlite.path is required'' [FInt i, FStr n])]
          else if sd = ''postgres'' then
            checks
              [(blank (fsp_DSN pg), Errorf ''sinks[%d] (feed %q): store.postgres.dsn is required'' [FInt i, FStr n]),
               (\<not> empty (fsp_Table pg) \<and> \<not> isValidPGIdentifier (fsp_Table pg),
                Errorf ''sinks[%d] (feed %q): invalid store.postgres.table %q'' [FInt i, FStr n, FStr (fsp_Table pg)]),
               (tls_given t \<and> pgSSLModeIsDisable env (fsp_DSN pg),
                Errorf ''sinks[%d] (feed %q): store.postgres.tls set but DSN has sslmode=disable'' [FInt i, FStr n]),
               (empty (pt_CertFile t) \<noteq> empty (pt_KeyFile t),
                Errorf ''sinks[%d] (feed %q): store.postgres.tls.cert_file and key_file must both be set or both empty'' [FInt i, FStr n])]
          else checks []),
         warn_if (sd \<noteq> ''postgres'' \<and> \<not> empty drv \<and> drv \<noteq> ''memory'')
           (Errorf ''sink %q: coordination=%q looks multi-instance but feed window is %q; readers may get partial feeds (use store.driver: postgres)''
              [FStr n, FStr drv, FStr sd])])"

definition validate_feed_sink :: "valid_env \<Rightarrow> Config \<Rightarrow> int \<Rightarrow> SinkConfig \<Rightarrow> checked" where
  "validate_feed_sink env c i s =
     run_checks [validate_feed_surfaces env i s, validate_feed_auths i s, validate_feed_store env c i s]"

subsection \<open>The passes over the sinks\<close>

fun name_checks :: "int \<Rightarrow> SinkConfig list \<Rightarrow> string list \<Rightarrow> (bool \<times> go_error) list" where
  "name_checks i [] names = []"
| "name_checks i (s # ss) names =
     [(blank (sc_Name s), Errorf ''sinks[%d].name is required'' [FInt i]),
      (sc_Name s \<in> set names, Errorf ''duplicate sink name %q'' [FStr (sc_Name s)]),
      (sc_Driver s \<notin> set knownSinkDrivers,
       Errorf ''sinks[%d].driver %q is not supported'' [FInt i, FStr (sc_Driver s)])]
     @ name_checks (i + 1) ss (sc_Name s # names)"

definition compositeChildren :: "SinkConfig list \<Rightarrow> (string \<times> string list) list" where
  "compositeChildren sinks =
     map (\<lambda>s. (sc_Name s, cm_Children (sc_Composite s)))
       (filter (\<lambda>s. sc_Driver s = ''composite'') sinks)"

definition validate_dead_letter :: "SinkConfig list \<Rightarrow> int \<Rightarrow> SinkConfig \<Rightarrow> checked" where
  "validate_dead_letter sinks i s =
     (let dl = sc_DeadLetter s in
      checks
        [(sc_Driver s = ''composite'' \<and> \<not> empty dl,
          Errorf ''sinks[%d] (composite %q): dead_letter is not allowed on a composite; configure dead_letter on each child instead'' [FInt i, FStr (sc_Name s)]),
         (\<not> empty dl \<and> dl = sc_Name s,
          Errorf ''sinks[%d].dead_letter must not refer to its own sink %q'' [FInt i, FStr (sc_Name s)]),
         (\<not> empty dl \<and> dl \<notin> set (map sc_Name sinks),
          Errorf ''sinks[%d].dead_letter %q does not refer to a declared sink'' [FInt i, FStr dl]),
         (\<not> empty dl \<and> map_of (map (\<lambda>x. (sc_Name x, sc_Driver x)) sinks) dl = Some ''feed'',
          Errorf ''sinks[%d].dead_letter %q: a feed sink cannot be used as a dead-letter target'' [FInt i, FStr dl])])"

definition validate_driver :: "valid_env \<Rightarrow> Config \<Rightarrow> int \<Rightarrow> SinkConfig \<Rightarrow> checked" where
  "validate_driver env c i s =
     (let d = sc_Driver s in
      if d = ''sqs'' then validate_sqs i s
      else if d = ''sns'' then validate_sns i s
      else if d = ''dynamodb'' then validate_dynamodb i s
      else if d = ''gcp_pubsub'' then validate_gcp_pubsub i s
      else if d = ''stdout'' then validate_stdout i s
      else if d = ''http'' then validate_http env i s
      else if d = ''grpc'' then validate_grpc i s
      else if d = ''amqp091'' then validate_amqp091 i s
      else if d = ''amqp10'' then validate_amqp10 i s
      else if d = ''rabbitmq_stream'' then validate_rabbitmq_stream i s
      else if d = ''azureservicebus'' then validate_azureservicebus i s
      else if d = ''cosmosdb'' then validate_cosmosdb i s
      else if d = ''dapr_pubsub'' then validate_dapr_pubsub i s
      else if d = ''nats'' then validate_nats i s
      else if d = ''composite''
      then validate_composite (map sc_Name (cf_Sinks c)) (compositeChildren (cf_Sinks c)) i s
      else if d = ''feed'' then validate_feed_sink env c i s
      else checks [])"

fun each_sink :: "(int \<Rightarrow> SinkConfig \<Rightarrow> checked) \<Rightarrow> int \<Rightarrow> SinkConfig list \<Rightarrow> checked list" where
  "each_sink f i [] = []"
| "each_sink f i (s # ss) = f i s # each_sink f (i + 1) ss"

definition sink_tls :: "SinkConfig \<Rightarrow> SinkTLSConfig option" where
  "sink_tls s =
     (let d = sc_Driver s in
      if d = ''postgres'' then Some (pk_TLS (sc_Postgres s))
      else if d = ''kafka'' then Some (kf_TLS (sc_Kafka s))
      else if d = ''amqp091'' then Some (aq_TLS (sc_AMQP091 s))
      else if d = ''amqp10'' then Some (a1_TLS (sc_AMQP10 s))
      else if d = ''rabbitmq_stream'' then Some (rq_TLS (sc_RabbitMQStream s))
      else if d = ''http'' then Some (hs_TLS (sc_HTTP s))
      else if d = ''nats'' then Some (na_TLS (sc_NATS s))
      else if d = ''grpc'' then Some (gp_TLS (sc_GRPC s))
      else None)"

definition validate_sink_tls :: "int \<Rightarrow> SinkConfig \<Rightarrow> checked" where
  "validate_sink_tls i s =
     (case sink_tls s of
        None \<Rightarrow> checks []
      | Some t \<Rightarrow>
          checks [(empty (tls_CertFile t) \<noteq> empty (tls_KeyFile t),
                   Errorf ''sinks[%d] (%s %q): tls.cert_file and key_file must both be set or both empty''
                     [FInt i, FStr (sc_Driver s), FStr (sc_Name s)])])"

definition validate_schema_registry :: "valid_env \<Rightarrow> int \<Rightarrow> SinkConfig \<Rightarrow> checked" where
  "validate_schema_registry env i s =
     (let sr = kf_SchemaRegistry (sc_Kafka s); n = sc_Name s; ba = sr_BasicAuth sr; t = sr_TLS sr in
      if sc_Driver s \<noteq> ''kafka'' then checks []
      else if empty (sr_URL sr) then
        checks [(\<not> empty (sr_Format sr),
                 Errorf ''sinks[%d] (kafka %q): schema_registry.format set without schema_registry.url'' [FInt i, FStr n])]
      else
        checks
          [(empty (sr_Format sr),
            Errorf ''sinks[%d] (kafka %q): schema_registry.format is required when url is set'' [FInt i, FStr n]),
           (sr_Format sr \<notin> {''json'', ''avro'', ''protobuf''},
            Errorf ''sinks[%d] (kafka %q): schema_registry.format %q is invalid (json|avro|protobuf)'' [FInt i, FStr n, FStr (sr_Format sr)]),
           (if empty (sr_SchemaFile sr) then (False, Canceled)
            else (case os_Stat env (sr_SchemaFile sr) of
                    None \<Rightarrow> (False, Canceled)
                  | Some err \<Rightarrow>
                      (True, Errorf ''sinks[%d] (kafka %q): schema_registry.schema_file %q: %w''
                               [FInt i, FStr n, FStr (sr_SchemaFile sr), FWrap err]))),
           (empty (sb_Username ba) \<noteq> empty (sb_Password ba),
            Errorf ''sinks[%d] (kafka %q): schema_registry.basic_auth username and password must both be set or both empty'' [FInt i, FStr n]),
           (empty (tls_CertFile t) \<noteq> empty (tls_KeyFile t),
            Errorf ''sinks[%d] (kafka %q): schema_registry.tls.cert_file and key_file must both be set or both empty'' [FInt i, FStr n])])"

definition validate_sinks :: "valid_env \<Rightarrow> Config \<Rightarrow> checked" where
  "validate_sinks env c =
     (let sinks = cf_Sinks c in
      run_checks
        ([checks [(length sinks = 0, Errorf ''at least one sink must be declared'' [])],
          checks (name_checks 0 sinks [])]
         @ each_sink (\<lambda>i s. run_checks [validate_dead_letter sinks i s, validate_driver env c i s]) 0 sinks
         @ each_sink validate_sink_tls 0 sinks
         @ each_sink (validate_schema_registry env) 0 sinks))"

end
