(* ===== verification/Validate.thy ===== *)
theory Validate
  imports Validate_Sinks Config_Defaults Change_Model
begin

section \<open>Validation of a whole configuration (\<^verbatim>\<open>internal/config/validate.go\<close>)\<close>

text \<open>
  The feeds, the feed sources and \<^verbatim>\<open>Validate\<close> itself, which runs all sections in the order of the
  source; then what an accepted configuration is worth: every reference resolves, and no composite
  contains itself.
\<close>

subsection \<open>Feeds and feed sources\<close>

definition ResolveFeedSinks :: "FeedConfig \<Rightarrow> string list" where
  "ResolveFeedSinks f = (if length (fc_Sinks f) > 0 then fc_Sinks f else [''default''])"

definition validate_feed :: "string list \<Rightarrow> int \<Rightarrow> FeedConfig \<Rightarrow> checked" where
  "validate_feed names i f =
     (let hasDefault = (''default'' \<in> set names) in
      run_checks
        [checks
           ([(blank (fc_URL f), Errorf ''feeds[%d].url is required'' [FInt i]),
             (fc_Interval f < second,
              Errorf ''feeds[%d].interval %v is below the 1s minimum'' [FInt i, FDur (fc_Interval f)]),
             (length (fc_Sinks f) = 0 \<and> \<not> hasDefault,
              Errorf ''feeds[%d] has no sinks and no sink named \"default\" is declared'' [FInt i])]
            @ map (\<lambda>name. (name \<notin> set names,
                Errorf ''feeds[%d].sinks references unknown sink %q'' [FInt i, FStr name])) (fc_Sinks f)
            @ map (\<lambda>(h, v). (CanonicalHeaderKey h \<in> set reservedHeaders,
                Errorf ''feeds[%d].http.headers must not set reserved cache header %q'' [FInt i, FStr h]))
              (fd_Headers (fc_HTTP f))),
         from_error (validateRetry (''feeds['' @ itoa_nat (nat i) @ ''].http.retry'')
                       (fd_Retry (fc_HTTP f)))])"

definition validate_feed_source :: "valid_env \<Rightarrow> int \<Rightarrow> FeedSourceConfig \<Rightarrow> checked" where
  "validate_feed_source env i s =
     (let ty = fo_Type s; pg = fo_Postgres s; h = fo_HTTP s; k = fo_Kubernetes s in
      run_checks
        [(if ty = ''static'' then checks []
          else if ty = ''file'' then
            checks [(blank (fo_Path s), Errorf ''feed_sources[%d] (file): path is required'' [FInt i])]
          else if ty = ''postgres'' then
            checks
              [(blank (fp_DSN pg), Errorf ''feed_sources[%d] (postgres): dsn is required'' [FInt i]),
               (\<not> empty (fp_Table pg) \<and> \<not> empty (fp_Query pg),
                Errorf ''feed_sources[%d] (postgres): table and query are mutually exclusive'' [FInt i]),
               (\<not> empty (fp_Table pg) \<and> \<not> validSQLIdentifier (fp_Table pg),
                Errorf ''feed_sources[%d] (postgres): invalid table %q'' [FInt i, FStr (fp_Table pg)])]
          else if ty = ''http'' then
            checks
              ([(blank (fh_URL h), Errorf ''feed_sources[%d] (http): url is required'' [FInt i]),
                (empty (pt_CertFile (fh_TLS h)) \<noteq> empty (pt_KeyFile (fh_TLS h)),
                 Errorf ''feed_sources[%d] (http): cert_file and key_file must both be set or both empty'' [FInt i]),
                (fh_Timeout h < 0, Errorf ''feed_sources[%d] (http): timeout must not be negative'' [FInt i])]
               @ map (\<lambda>(hd, v). (CanonicalHeaderKey hd \<in> set reservedHeaders,
                   Errorf ''feed_sources[%d] (http): headers must not set reserved cache header %q'' [FInt i, FStr hd]))
                 (fh_Headers h))
          else if ty = ''kubernetes'' then
            checks
              [(if empty (kb_LabelSelector k) then (False, Canceled)
                else (case labels_Parse env (kb_LabelSelector k) of
                        None \<Rightarrow> (False, Canceled)
                      | Some err \<Rightarrow>
                          (True, Errorf ''feed_sources[%d] (kubernetes): invalid label_selector: %w'' [FInt i, FWrap err]))),
               (kb_ResyncInterval k \<noteq> 0 \<and> kb_ResyncInterval k < second,
                Errorf ''feed_sources[%d] (kubernetes): resync_interval %v is below the 1s minimum''
                  [FInt i, FDur (kb_ResyncInterval k)])]
          else if empty ty then checks [(True, Errorf ''feed_sources[%d]: type is required'' [FInt i])]
          else checks [(True, Errorf ''feed_sources[%d]: unsupported type %q'' [FInt i, FStr ty])]),
         checks
           [(fo_Interval s \<noteq> 0 \<and> fo_Interval s < second,
             Errorf ''feed_sources[%d].interval %v is below the 1s minimum'' [FInt i, FDur (fo_Interval s)])]])"

fun indexed :: "(int \<Rightarrow> 'a \<Rightarrow> checked) \<Rightarrow> int \<Rightarrow> 'a list \<Rightarrow> checked list" where
  "indexed f i [] = []"
| "indexed f i (x # xs) = f i x # indexed f (i + 1) xs"

definition validate_feeds :: "valid_env \<Rightarrow> Config \<Rightarrow> checked" where
  "validate_feeds env c =
     run_checks
       ([from_error (validateRetry ''http.retry'' (ht_Retry (cf_HTTP c))),
         checks
           [(hb_Enabled (cf_Heartbeat c) \<and> hb_Interval (cf_Heartbeat c) \<le> 0,
             Errorf ''heartbeat.interval %v must be positive when heartbeat.enabled is true''
               [FDur (hb_Interval (cf_Heartbeat c))]),
            (length (cf_Feeds c) = 0 \<and> length (cf_FeedSources c) = 0,
             Errorf ''at least one feed must be declared'' [])]]
        @ indexed (validate_feed (map sc_Name (cf_Sinks c))) 0 (cf_Feeds c)
        @ indexed (validate_feed_source env) 0 (cf_FeedSources c))"

definition Validate :: "valid_env \<Rightarrow> Config \<Rightarrow> checked" where
  "Validate env c =
     run_checks
       [validate_state_driver env c, validate_state_retention c, validate_coord_postgres env c,
        validate_coord_redis env c, validate_coord_dynamodb c, validate_coord_cosmosdb c,
        validate_assignment c, validate_runtime c, validate_sentry_posthog c, validate_health env c,
        validateAdmin env c, validate_graphite_cloudwatch c, validate_sinks env c,
        validate_feeds env c]"

subsection \<open>Cycles\<close>

text \<open>The edges \<^verbatim>\<open>compositeCycle\<close> walks: from a composite to a child that is itself a composite.\<close>

definition composite_edges :: "(string \<times> string list) list \<Rightarrow> (string \<times> string) set" where
  "composite_edges ch = {(a, b). b \<in> set (children_of ch a) \<and> map_of ch b \<noteq> None}"

lemma dfs_None:
  assumes "dfs ch path cs = None" "c \<in> set cs" "map_of ch c \<noteq> None"
  shows "c \<notin> set path \<and> dfs ch (path @ [c]) (children_of ch c) = None"
  using assms
proof (induction ch path cs rule: dfs.induct)
  case (2 ch path x xs)
  show ?case
  proof (cases "map_of ch x")
    case None
    with "2.prems" have "c \<in> set xs" "dfs ch path xs = None" by auto
    with "2.IH"(1) [OF None] "2.prems"(3) show ?thesis by blast
  next
    case (Some kids)
    with "2.prems"(1) have x: "x \<notin> set path" "dfs ch (path @ [x]) kids = None" "dfs ch path xs = None"
      by (auto split: if_splits option.splits)
    show ?thesis
    proof (cases "c = x")
      case True
      with x Some show ?thesis by (simp add: children_of_def)
    next
      case False
      with "2.prems"(2) have "c \<in> set xs" by simp
      with "2.IH"(3) [OF Some x(1) x(2)] x(3) "2.prems"(3) show ?thesis by blast
    qed
  qed
qed simp

lemma dfs_no_return:
  assumes "dfs ch path (children_of ch a) = None" "(a, y) \<in> (composite_edges ch)\<^sup>+"
  shows "y \<notin> set path \<and> (\<exists>path'. insert y (set path) \<subseteq> set path' \<and>
    dfs ch path' (children_of ch y) = None)"
  using assms(2)
proof (induction rule: trancl_induct)
  case (base y)
  with dfs_None [OF assms(1)] have "y \<notin> set path \<and> dfs ch (path @ [y]) (children_of ch y) = None"
    by (simp add: composite_edges_def)
  then show ?case by (intro conjI exI [of _ "path @ [y]"]) auto
next
  case (step y z)
  then obtain p' where p: "set path \<subseteq> set p'" "dfs ch p' (children_of ch y) = None" by blast
  with step.hyps(2) dfs_None [OF p(2)] have "z \<notin> set p' \<and> dfs ch (p' @ [z]) (children_of ch z) = None"
    by (simp add: composite_edges_def)
  with p(1) show ?case by (intro conjI exI [of _ "p' @ [z]"]) auto
qed

lemma dfs_None_no_cycle:
  assumes "dfs ch [start] (children_of ch start) = None" "(start, x) \<in> (composite_edges ch)\<^sup>*"
  shows "(x, x) \<notin> (composite_edges ch)\<^sup>+"
proof
  assume loop: "(x, x) \<in> (composite_edges ch)\<^sup>+"
  obtain path where "x \<in> set path" "dfs ch path (children_of ch x) = None"
  proof (cases "x = start")
    case True
    with assms(1) show ?thesis by (intro that [of "[start]"]) simp_all
  next
    case False
    with assms(2) have "(start, x) \<in> (composite_edges ch)\<^sup>+" by (simp add: rtrancl_eq_or_trancl)
    with dfs_no_return [OF assms(1)] that show ?thesis by (metis insert_subset)
  qed
  with dfs_no_return [OF _ loop] show False by blast
qed

text \<open>A path the search reports follows edges and ends on a node it has met before.\<close>

lemma walk_reach:
  assumes "successively (\<lambda>a b. (a, b) \<in> E) path" "c \<in> set path"
  shows "(hd path, c) \<in> E\<^sup>* \<and> (c, last path) \<in> E\<^sup>*"
  using assms
proof (induction path arbitrary: c)
  case (Cons x path)
  show ?case
  proof (cases path)
    case Nil
    with Cons.prems show ?thesis by simp
  next
    case (Cons y ys)
    with Cons.prems(1) have xy: "(x, y) \<in> E" "successively (\<lambda>a b. (a, b) \<in> E) path" by auto
    have y: "(y, last path) \<in> E\<^sup>*" using Cons.IH [OF xy(2), of y] local.Cons by simp
    show ?thesis
    proof (cases "c = x")
      case True
      with xy(1) y local.Cons show ?thesis by (auto intro: converse_rtrancl_into_rtrancl)
    next
      case False
      with Cons.prems(2) have "c \<in> set path" by simp
      with Cons.IH [OF xy(2)] have "(hd path, c) \<in> E\<^sup>*" "(c, last path) \<in> E\<^sup>*" by auto
      with xy(1) local.Cons show ?thesis by (auto intro: converse_rtrancl_into_rtrancl)
    qed
  qed
qed simp

lemma dfs_Some:
  assumes "dfs ch path cs = Some p" "path \<noteq> []" "set cs \<subseteq> set (children_of ch (last path))"
    and "successively (\<lambda>a b. (a, b) \<in> composite_edges ch) path"
  shows "\<exists>x. (hd path, x) \<in> (composite_edges ch)\<^sup>* \<and> (x, x) \<in> (composite_edges ch)\<^sup>+"
  using assms
proof (induction ch path cs rule: dfs.induct)
  case (2 ch path c cs)
  show ?case
  proof (cases "map_of ch c")
    case None
    with "2.IH"(1) [OF None] "2.prems" show ?thesis by simp
  next
    case (Some kids)
    have edge: "(last path, c) \<in> composite_edges ch"
      using "2.prems"(3) Some by (simp add: composite_edges_def)
    show ?thesis
    proof (cases "c \<in> set path")
      case True
      from walk_reach [OF "2.prems"(4) True] edge show ?thesis by (auto intro: rtrancl_into_trancl1)
    next
      case out: False
      have walk: "successively (\<lambda>a b. (a, b) \<in> composite_edges ch) (path @ [c])"
        using "2.prems"(2,4) edge by (simp add: successively_append_iff)
      show ?thesis
      proof (cases "dfs ch (path @ [c]) kids")
        case None
        with "2.IH"(3) [OF Some out None] "2.prems" Some out show ?thesis by simp
      next
        case (Some p')
        with "2.prems"(1) \<open>map_of ch c = Some kids\<close> out have "dfs ch (path @ [c]) kids = Some p" by simp
        from "2.IH"(2) [OF \<open>map_of ch c = Some kids\<close> out this _ _ walk] "2.prems"(2)
          \<open>map_of ch c = Some kids\<close>
        show ?thesis by (simp add: children_of_def)
      qed
    qed
  qed
qed simp

lemma dfs_Some_longer: "dfs ch path cs = Some p \<Longrightarrow> length path < length p"
  by (induction ch path cs rule: dfs.induct) (auto split: option.splits if_splits)

lemma strings_Join_nonempty: "2 \<le> length xs \<Longrightarrow> sep \<noteq> [] \<Longrightarrow> strings_Join xs sep \<noteq> []"
  by (cases xs rule: remdups_adj.cases) auto

lemma compositeCycle_None: "compositeCycle start ch = [] \<longleftrightarrow> dfs ch [start] (children_of ch start) = None"
proof (cases "dfs ch [start] (children_of ch start)")
  case (Some p)
  from dfs_Some_longer [OF this] have "strings_Join p '' -> '' \<noteq> []"
    by (intro strings_Join_nonempty) simp_all
  with Some show ?thesis by (simp add: compositeCycle_def)
qed (simp add: compositeCycle_def)

lemma compositeCycle_acyclic:
  assumes "\<forall>a\<in>fst ` set ch. compositeCycle a ch = []"
  shows "acyclic (composite_edges ch)"
proof (rule acyclicI, rule allI, rule notI)
  fix x
  assume loop: "(x, x) \<in> (composite_edges ch)\<^sup>+"
  then obtain y where "(x, y) \<in> composite_edges ch" by (meson tranclD)
  then have "map_of ch x \<noteq> None" by (cases "map_of ch x") (auto simp: composite_edges_def children_of_def)
  then have "x \<in> fst ` set ch" by (simp add: map_of_eq_None_iff)
  with assms have "compositeCycle x ch = []" by blast
  then have "dfs ch [x] (children_of ch x) = None" by (simp only: compositeCycle_None)
  from dfs_None_no_cycle [OF this rtrancl_refl] loop show False by simp
qed

subsection \<open>What the passes establish\<close>

lemma indexed_ok:
  "\<forall>r\<in>set (indexed f i xs). snd r = None \<Longrightarrow> x \<in> set xs \<Longrightarrow> \<exists>k. snd (f k x) = None"
  by (induction f i xs rule: indexed.induct) auto

lemma each_sink_ok:
  "\<forall>r\<in>set (each_sink f i ss). snd r = None \<Longrightarrow> s \<in> set ss \<Longrightarrow> \<exists>k. snd (f k s) = None"
  by (induction f i ss rule: each_sink.induct) auto

lemma name_checks_ok:
  "\<forall>(bad, err)\<in>set (name_checks i ss names). \<not> bad \<Longrightarrow>
     distinct (map sc_Name ss) \<and> set (map sc_Name ss) \<inter> set names = {} \<and>
     (\<forall>s\<in>set ss. sc_Driver s \<in> set knownSinkDrivers \<and> \<not> blank (sc_Name s))"
  by (induction i ss names rule: name_checks.induct) auto

lemma children_checks_ok:
  "\<forall>(bad, err)\<in>set (children_checks i name names cs seen). \<not> bad \<Longrightarrow>
     distinct cs \<and> set cs \<subseteq> set names \<and> name \<notin> set cs \<and> set cs \<inter> set seen = {}"
  by (induction i name names cs seen rule: children_checks.induct) auto

lemma validate_composite_ok:
  assumes "snd (validate_composite names ch i s) = None"
  shows "cm_Children (sc_Composite s) \<noteq> [] \<and> distinct (cm_Children (sc_Composite s)) \<and>
    set (cm_Children (sc_Composite s)) \<subseteq> set names \<and> compositeCycle (sc_Name s) ch = []"
  using assms children_checks_ok [of i "sc_Name s" names "cm_Children (sc_Composite s)" "[]"]
  by (auto simp: validate_composite_def Let_def)

lemma validate_sinks_ok:
  assumes "snd (validate_sinks env c) = None"
  shows "cf_Sinks c \<noteq> []" "distinct (map sc_Name (cf_Sinks c))"
    and "s \<in> set (cf_Sinks c) \<Longrightarrow> sc_Driver s \<in> set knownSinkDrivers \<and> \<not> blank (sc_Name s)"
    and "s \<in> set (cf_Sinks c) \<Longrightarrow> \<exists>i. snd (validate_dead_letter (cf_Sinks c) i s) = None \<and>
      snd (validate_driver env c i s) = None"
proof -
  from assms have n: "\<forall>(bad, err)\<in>set (name_checks 0 (cf_Sinks c) []). \<not> bad"
    and e: "\<forall>r\<in>set (each_sink (\<lambda>i s. run_checks [validate_dead_letter (cf_Sinks c) i s,
        validate_driver env c i s]) 0 (cf_Sinks c)). snd r = None" and "cf_Sinks c \<noteq> []"
    unfolding validate_sinks_def Let_def run_checks_ok by auto
  from name_checks_ok [OF n] \<open>cf_Sinks c \<noteq> []\<close>
  show "cf_Sinks c \<noteq> []" "distinct (map sc_Name (cf_Sinks c))"
    "s \<in> set (cf_Sinks c) \<Longrightarrow> sc_Driver s \<in> set knownSinkDrivers \<and> \<not> blank (sc_Name s)" by auto
  show "\<exists>i. snd (validate_dead_letter (cf_Sinks c) i s) = None \<and> snd (validate_driver env c i s) = None"
    if "s \<in> set (cf_Sinks c)"
    using each_sink_ok [OF e that] by auto
qed

lemma Validate_sections:
  assumes "snd (Validate env c) = None"
  shows "snd (validate_sinks env c) = None" "snd (validate_feeds env c) = None"
    "snd (validate_state_driver env c) = None" "snd (validate_coord_postgres env c) = None"
    "snd (validate_assignment c) = None" "snd (validate_runtime c) = None"
  using assms by (simp_all add: Validate_def)

lemma accepted_composites:
  assumes "snd (Validate env c) = None" "s \<in> set (cf_Sinks c)" "sc_Driver s = ''composite''"
  shows "cm_Children (sc_Composite s) \<noteq> [] \<and> distinct (cm_Children (sc_Composite s)) \<and>
    set (cm_Children (sc_Composite s)) \<subseteq> sc_Name ` set (cf_Sinks c) \<and>
    compositeCycle (sc_Name s) (compositeChildren (cf_Sinks c)) = []"
proof -
  from validate_sinks_ok(4) [OF Validate_sections(1) [OF assms(1)] assms(2)] obtain i where
    "snd (validate_driver env c i s) = None" by blast
  then have "snd (validate_composite (map sc_Name (cf_Sinks c)) (compositeChildren (cf_Sinks c)) i s) = None"
    using assms(3) by (simp add: validate_driver_def)
  from validate_composite_ok [OF this] show ?thesis by simp
qed

lemma accepted_acyclic:
  assumes "snd (Validate env c) = None"
  shows "acyclic (composite_edges (compositeChildren (cf_Sinks c)))"
proof (rule compositeCycle_acyclic, rule ballI)
  fix a
  assume "a \<in> fst ` set (compositeChildren (cf_Sinks c))"
  then obtain s where "s \<in> set (cf_Sinks c)" "sc_Driver s = ''composite''" "a = sc_Name s"
    by (auto simp: compositeChildren_def)
  with accepted_composites [OF assms] show "compositeCycle a (compositeChildren (cf_Sinks c)) = []" by blast
qed

lemma accepted_dead_letter:
  assumes "snd (Validate env c) = None" "s \<in> set (cf_Sinks c)" "sc_DeadLetter s \<noteq> []"
  shows "sc_Driver s \<noteq> ''composite'' \<and> sc_DeadLetter s \<noteq> sc_Name s \<and>
    (\<exists>t\<in>set (cf_Sinks c). sc_Name t = sc_DeadLetter s \<and> sc_Driver t \<noteq> ''feed'')"
proof -
  note v = validate_sinks_ok [OF Validate_sections(1) [OF assms(1)]]
  from v(4) [OF assms(2)] obtain i where "snd (validate_dead_letter (cf_Sinks c) i s) = None" by blast
  then have d: "sc_Driver s \<noteq> ''composite''" "sc_DeadLetter s \<noteq> sc_Name s"
    "sc_DeadLetter s \<in> sc_Name ` set (cf_Sinks c)"
    "map_of (map (\<lambda>x. (sc_Name x, sc_Driver x)) (cf_Sinks c)) (sc_DeadLetter s) \<noteq> Some ''feed''"
    using assms(3) by (auto simp: validate_dead_letter_def Let_def)
  from d(3) obtain t where t: "t \<in> set (cf_Sinks c)" "sc_Name t = sc_DeadLetter s" by auto
  have "map_of (map (\<lambda>x. (sc_Name x, sc_Driver x)) (cf_Sinks c)) (sc_DeadLetter s) = Some (sc_Driver t)"
    using v(2) t by (intro map_of_is_SomeI) (force simp: comp_def)+
  with d t show ?thesis by auto
qed

lemma validate_feed_ok:
  assumes "snd (validate_feed names i f) = None"
  shows "\<not> blank (fc_URL f)" "second \<le> fc_Interval f"
    and "set (ResolveFeedSinks f) \<subseteq> set names"
    and "(h, v) \<in> set (fd_Headers (fc_HTTP f)) \<Longrightarrow> CanonicalHeaderKey h \<notin> set reservedHeaders"
proof -
  note c = assms [unfolded validate_feed_def Let_def, simplified]
  from c show "\<not> blank (fc_URL f)" "second \<le> fc_Interval f" by simp_all
  from c show "set (ResolveFeedSinks f) \<subseteq> set names" by (auto simp: ResolveFeedSinks_def)
  from c have "\<forall>x\<in>set (fd_Headers (fc_HTTP f)). CanonicalHeaderKey (fst x) \<notin> set reservedHeaders"
    by (simp add: case_prod_beta ball_Un)
  then show "(h, v) \<in> set (fd_Headers (fc_HTTP f)) \<Longrightarrow> CanonicalHeaderKey h \<notin> set reservedHeaders"
    by fastforce
qed

lemma accepted_feed:
  assumes "snd (Validate env c) = None" "f \<in> set (cf_Feeds c)"
  shows "set (ResolveFeedSinks f) \<subseteq> sc_Name ` set (cf_Sinks c) \<and> second \<le> fc_Interval f \<and>
    \<not> blank (fc_URL f) \<and> (\<forall>(h, v)\<in>set (fd_Headers (fc_HTTP f)). CanonicalHeaderKey h \<notin> set reservedHeaders)"
proof -
  from Validate_sections(2) [OF assms(1)]
  have "\<forall>r\<in>set (indexed (validate_feed (map sc_Name (cf_Sinks c))) 0 (cf_Feeds c)). snd r = None"
    unfolding validate_feeds_def run_checks_ok by auto
  from indexed_ok [OF this assms(2)] obtain i where
    "snd (validate_feed (map sc_Name (cf_Sinks c)) i f) = None" by blast
  note this = validate_feed_ok [OF this]
  from this(1-3) this(4) show ?thesis by auto
qed

lemma composite_children_edge:
  assumes "distinct (map sc_Name (cf_Sinks c))" "s \<in> set (cf_Sinks c)" "sc_Driver s = ''composite''"
  shows "map_of (compositeChildren (cf_Sinks c)) (sc_Name s) = Some (cm_Children (sc_Composite s))"
proof (rule map_of_is_SomeI)
  have "distinct (map sc_Name (filter (\<lambda>x. sc_Driver x = ''composite'') (cf_Sinks c)))"
    using assms(1) by (rule distinct_map_filter)
  then show "distinct (map fst (compositeChildren (cf_Sinks c)))"
    by (simp add: compositeChildren_def comp_def)
  show "(sc_Name s, cm_Children (sc_Composite s)) \<in> set (compositeChildren (cf_Sinks c))"
    using assms(2,3) by (force simp: compositeChildren_def)
qed

subsection \<open>A configuration that is accepted\<close>

definition plain_env :: valid_env where
  "plain_env = \<lparr>url_Parse = (\<lambda>_. Inl Canceled), ParseCIDR = (\<lambda>_. None), ParseIP = (\<lambda>_. True),
     os_Stat = (\<lambda>_. None), labels_Parse = (\<lambda>_. None), map_order = (\<lambda>xs. xs)\<rparr>"

definition stdout_sink :: "string \<Rightarrow> string \<Rightarrow> SinkConfig" where
  "stdout_sink name dead = zero_SinkConfig\<lparr>sc_Name := name, sc_Driver := ''stdout'', sc_DeadLetter := dead\<rparr>"

definition composite_sink :: "string \<Rightarrow> string list \<Rightarrow> SinkConfig" where
  "composite_sink name kids = zero_SinkConfig\<lparr>sc_Name := name, sc_Driver := ''composite'',
     sc_Composite := \<lparr>cm_Children = kids\<rparr>\<rparr>"

definition sample_config :: "SinkConfig list \<Rightarrow> Config" where
  "sample_config sinks = Defaults
     \<lparr>cf_State := zero_StateConfig\<lparr>st_Driver := ''sqlite'', st_SQLite := zero_SQLiteStateConfig\<lparr>sq_Path := ''s''\<rparr>\<rparr>,
      cf_Sinks := sinks,
      cf_Feeds := [zero_FeedConfig\<lparr>fc_URL := ''u'', fc_Interval := minute, fc_Sinks := [''c'']\<rparr>]\<rparr>"

lemma sample_accepted:
  "snd (Validate plain_env (sample_config [composite_sink ''c'' [''a''], stdout_sink ''a'' []])) = None"
  by code_simp

lemma sample_loop_accepted:
  "snd (Validate plain_env (sample_config [composite_sink ''c'' [''a''], stdout_sink ''a'' ''c''])) = None"
  by code_simp

subsection \<open>Properties\<close>

lemma ident_runes_bytes:
  "ident_runes i (runes s) \<longleftrightarrow>
     list_all (\<lambda>c. is_lower c \<or> is_upper c \<or> byte c = 95 \<or> (48 \<le> byte c \<and> byte c \<le> 57)) s \<and>
     (i = 0 \<longrightarrow> s = [] \<or> \<not> (48 \<le> byte (hd s) \<and> byte (hd s) \<le> 57))"
proof (induction s arbitrary: i rule: runes.induct)
  case (2 c cs)
  show ?case
  proof (cases "byte c < 128")
    case True
    then have "extra_len c cs = 0" by (simp add: extra_len_def seq_len_ascii)
    with "2.IH" [of "Suc i"] show ?thesis by (auto simp: is_lower_def is_upper_def)
  next
    case False
    then show ?thesis by (auto simp: is_lower_def is_upper_def split: list.splits)
  qed
qed simp

text \<open>C30: an accepted configuration is closed.  Sink names are pairwise distinct and their drivers
  known; the children of every composite are distinct declared sinks and no composite reaches itself
  through children; a dead letter names another declared sink that is not a feed, and only a
  non-composite has one; every feed has a URL, polls at most once a second, resolves all its sinks and
  leaves the conditional-request headers alone.\<close>

theorem accepted_references_resolve:
  assumes "snd (Validate env c) = None"
  shows "distinct (map sc_Name (cf_Sinks c)) \<and>
    acyclic (composite_edges (compositeChildren (cf_Sinks c))) \<and>
    (\<forall>s\<in>set (cf_Sinks c).
       sc_Driver s \<in> set knownSinkDrivers \<and>
       (sc_Driver s = ''composite'' \<longrightarrow>
          cm_Children (sc_Composite s) \<noteq> [] \<and> distinct (cm_Children (sc_Composite s)) \<and>
          set (cm_Children (sc_Composite s)) \<subseteq> sc_Name ` set (cf_Sinks c)) \<and>
       (sc_DeadLetter s \<noteq> [] \<longrightarrow>
          sc_Driver s \<noteq> ''composite'' \<and> sc_DeadLetter s \<noteq> sc_Name s \<and>
          (\<exists>t\<in>set (cf_Sinks c). sc_Name t = sc_DeadLetter s \<and> sc_Driver t \<noteq> ''feed''))) \<and>
    (\<forall>f\<in>set (cf_Feeds c).
       set (ResolveFeedSinks f) \<subseteq> sc_Name ` set (cf_Sinks c) \<and> second \<le> fc_Interval f \<and>
       \<not> blank (fc_URL f) \<and>
       (\<forall>(h, v)\<in>set (fd_Headers (fc_HTTP f)). CanonicalHeaderKey h \<notin> set reservedHeaders))"
proof (intro conjI ballI impI)
  note v = validate_sinks_ok [OF Validate_sections(1) [OF assms]]
  show "distinct (map sc_Name (cf_Sinks c))" by (rule v(2))
  show "acyclic (composite_edges (compositeChildren (cf_Sinks c)))" by (rule accepted_acyclic [OF assms])
  fix s
  assume s: "s \<in> set (cf_Sinks c)"
  show "sc_Driver s \<in> set knownSinkDrivers" using v(3) [OF s] by blast
  show "cm_Children (sc_Composite s) \<noteq> []" "distinct (cm_Children (sc_Composite s))"
    "set (cm_Children (sc_Composite s)) \<subseteq> sc_Name ` set (cf_Sinks c)"
    if "sc_Driver s = ''composite''"
    using accepted_composites [OF assms s that] by blast+
  show "sc_Driver s \<noteq> ''composite''" "sc_DeadLetter s \<noteq> sc_Name s"
    "\<exists>t\<in>set (cf_Sinks c). sc_Name t = sc_DeadLetter s \<and> sc_Driver t \<noteq> ''feed''"
    if "sc_DeadLetter s \<noteq> []"
    using accepted_dead_letter [OF assms s that] by blast+
next
  fix f
  assume f: "f \<in> set (cf_Feeds c)"
  show "set (ResolveFeedSinks f) \<subseteq> sc_Name ` set (cf_Sinks c)" "second \<le> fc_Interval f"
    "\<not> blank (fc_URL f)"
    using accepted_feed [OF assms f] by blast+
  show "case x of (h, v) \<Rightarrow> CanonicalHeaderKey h \<notin> set reservedHeaders"
    if "x \<in> set (fd_Headers (fc_HTTP f))" for x
    using accepted_feed [OF assms f] that by blast
qed

theorem accepted_references_resolve_witness:
  "acyclic (composite_edges (compositeChildren
     (cf_Sinks (sample_config [composite_sink ''c'' [''a''], stdout_sink ''a'' []]))))"
  using accepted_references_resolve [OF sample_accepted] by blast

text \<open>C31: the cycle check is exact: \<^verbatim>\<open>compositeCycle\<close> reports a path exactly when some composite that
  is reachable from the start through children contains itself.\<close>

theorem compositeCycle_exact:
  "compositeCycle start ch \<noteq> [] \<longleftrightarrow>
     (\<exists>x. (start, x) \<in> (composite_edges ch)\<^sup>* \<and> (x, x) \<in> (composite_edges ch)\<^sup>+)"
proof (cases "dfs ch [start] (children_of ch start)")
  case None
  with dfs_None_no_cycle [OF None] show ?thesis by (simp only: compositeCycle_None) blast
next
  case (Some p)
  then have "\<exists>x. (hd [start], x) \<in> (composite_edges ch)\<^sup>* \<and> (x, x) \<in> (composite_edges ch)\<^sup>+"
    by (rule dfs_Some) simp_all
  with Some show ?thesis by (simp only: compositeCycle_None list.sel) simp
qed

text \<open>The SQL identifiers that validation lets through are plain ASCII words of 1 to 63 bytes: the
  rune-by-rune check accepts exactly the strings of letters, digits and underscores that do not
  begin with a digit, so no quote, blank, dot or semicolon reaches a statement built from them.\<close>

theorem validSQLIdentifier_exact:
  "validSQLIdentifier s \<longleftrightarrow>
     1 \<le> length s \<and> length s \<le> 63 \<and> \<not> (48 \<le> byte (hd s) \<and> byte (hd s) \<le> 57) \<and>
     list_all (\<lambda>c. is_lower c \<or> is_upper c \<or> byte c = 95 \<or> (48 \<le> byte c \<and> byte c \<le> 57)) s"
  by (cases s) (auto simp: validSQLIdentifier_def ident_runes_bytes simp del: runes.simps)

end
