(* ===== verification/Net_Http.thy ===== *)
theory Net_Http
  imports Feed_Fetch
begin

section \<open>What the HTTP servers use of the standard library\<close>

text \<open>
  The parts of \<^verbatim>\<open>strings\<close>, \<^verbatim>\<open>encoding/base64\<close>, \<^verbatim>\<open>net/url\<close> and \<^verbatim>\<open>net/http\<close> that the feed sink, the
  admin API and the health probes use: searching and cutting strings, decoding Base64 and
  percent-escapes, a request as a handler reads it and a response as a handler writes it.  A handler
  is a function that takes the response written so far to the response it leaves.
\<close>

subsection \<open>Searching and cutting strings\<close>

fun strings_Index :: "string \<Rightarrow> string \<Rightarrow> nat option" where
  "strings_Index [] p = (if p = [] then Some 0 else None)"
| "strings_Index (c # cs) p =
     (if HasPrefix (c # cs) p then Some 0 else map_option Suc (strings_Index cs p))"

definition strings_Contains :: "string \<Rightarrow> string \<Rightarrow> bool" where
  "strings_Contains s p \<longleftrightarrow> strings_Index s p \<noteq> None"

fun strings_Split :: "string \<Rightarrow> char \<Rightarrow> string list" where
  "strings_Split [] c = [[]]"
| "strings_Split (x # xs) c =
     (if x = c then [] # strings_Split xs c
      else case strings_Split xs c of w # ws \<Rightarrow> (x # w) # ws | [] \<Rightarrow> [[x]])"

text \<open>\<^verbatim>\<open>strings.Cut\<close> at a one-byte separator: what is before it and, when it occurs, what is after.\<close>

definition strings_Cut :: "string \<Rightarrow> char \<Rightarrow> string \<times> string option" where
  "strings_Cut s c =
     (takeWhile (\<lambda>x. x \<noteq> c) s, (if c \<in> set s then Some (tl (dropWhile (\<lambda>x. x \<noteq> c) s)) else None))"

definition TrimLeft :: "string \<Rightarrow> char \<Rightarrow> string" where
  "TrimLeft s c = dropWhile (\<lambda>x. x = c) s"

definition TrimRight :: "string \<Rightarrow> char \<Rightarrow> string" where
  "TrimRight s c = rev (dropWhile (\<lambda>x. x = c) (rev s))"

lemma strings_Cut_found: "c \<notin> set a \<Longrightarrow> strings_Cut (a @ c # b) c = (a, Some b)"
  by (induction a) (auto simp: strings_Cut_def)

lemma strings_Cut_no_sep: "c \<notin> set (fst (strings_Cut s c))"
  by (auto simp: strings_Cut_def dest: set_takeWhileD)

lemma strings_Index_found:
  "strings_Index s p = Some i \<Longrightarrow> i + length p \<le> length s \<and> take (length p) (drop i s) = p"
proof (induction s p arbitrary: i rule: strings_Index.induct)
  case (1 p)
  then show ?case by (simp split: if_splits)
next
  case (2 c cs p)
  then show ?case
    by (cases "HasPrefix (c # cs) p") (auto simp: HasPrefix_def min_def dest: arg_cong [of _ _ length] split: if_splits)
qed

lemma strings_Index_append:
  "strings_Index s p = Some i \<Longrightarrow> \<exists>a b. s = a @ p @ b \<and> length a = i"
proof -
  assume "strings_Index s p = Some i"
  from strings_Index_found [OF this] have i: "i + length p \<le> length s" "take (length p) (drop i s) = p"
    by simp_all
  have "s = take i s @ take (length p) (drop i s) @ drop (length p) (drop i s)"
    by (simp only: append_take_drop_id)
  with i show ?thesis
    by (intro exI [of _ "take i s"] exI [of _ "drop (length p) (drop i s)"]) simp
qed

lemma Split_nonempty [simp]: "strings_Split s c \<noteq> []"
  by (induction s c rule: strings_Split.induct) (auto split: list.split)

lemma Split_single: "c \<notin> set s \<Longrightarrow> strings_Split s c = [s]"
  by (induction s c rule: strings_Split.induct) auto

lemma Split_append: "c \<notin> set s \<Longrightarrow> strings_Split (s @ c # t) c = s # strings_Split t c"
  by (induction s) auto

lemma TrimRight_last: "TrimRight s c = [] \<or> last (TrimRight s c) \<noteq> c"
proof (cases "dropWhile (\<lambda>x. x = c) (rev s)")
  case Nil
  then show ?thesis by (simp add: TrimRight_def)
next
  case (Cons x xs)
  then have "x \<noteq> c" by (metis (mono_tags) hd_dropWhile list.sel(1) list.simps(3))
  then show ?thesis using Cons by (simp add: TrimRight_def)
qed

subsection \<open>Base64 (\<^verbatim>\<open>base64.StdEncoding\<close>)\<close>

definition b64_value :: "char \<Rightarrow> nat option" where
  "b64_value c =
     (let b = byte c in
      if 65 \<le> b \<and> b \<le> 90 then Some (b - 65)
      else if 97 \<le> b \<and> b \<le> 122 then Some (b - 71)
      else if 48 \<le> b \<and> b \<le> 57 then Some (b + 4)
      else if b = 43 then Some 62 else if b = 47 then Some 63 else None)"

fun b64_quads :: "string \<Rightarrow> string option" where
  "b64_quads [] = Some []"
| "b64_quads (a # b # c # d # rest) =
     (case (b64_value a, b64_value b) of
        (Some x, Some y) \<Rightarrow>
          (if byte c = 61 then
             (if byte d = 61 \<and> rest = [] then Some [char_of (x * 4 + y div 16)] else None)
           else
             case b64_value c of
               None \<Rightarrow> None
             | Some z \<Rightarrow>
                 if byte d = 61 then
                   (if rest = [] then
                      Some [char_of (x * 4 + y div 16), char_of (y mod 16 * 16 + z div 4)]
                    else None)
                 else
                   case (b64_value d, b64_quads rest) of
                     (Some w, Some t) \<Rightarrow>
                       Some (char_of (x * 4 + y div 16) # char_of (y mod 16 * 16 + z div 4) #
                             char_of (z mod 4 * 64 + w) # t)
                   | _ \<Rightarrow> None)
      | _ \<Rightarrow> None)"
| "b64_quads _ = None"

text \<open>Line ends are skipped wherever they stand.\<close>

definition b64_decode :: "string \<Rightarrow> string option" where
  "b64_decode s = b64_quads (filter (\<lambda>c. byte c \<noteq> 10 \<and> byte c \<noteq> 13) s)"

text \<open>The encoding of RFC 4648, with which a client writes its credentials.\<close>

definition b64_digit :: "nat \<Rightarrow> char" where
  "b64_digit n =
     char_of (if n < 26 then n + 65 else if n < 52 then n + 71 else if n < 62 then n - 4
              else if n = 62 then 43 else (47 :: nat))"

fun b64_encode :: "string \<Rightarrow> string" where
  "b64_encode [] = []"
| "b64_encode [p] = [b64_digit (byte p div 4), b64_digit (byte p mod 4 * 16), CHR ''='', CHR ''='']"
| "b64_encode [p, q] =
     [b64_digit (byte p div 4), b64_digit (byte p mod 4 * 16 + byte q div 16),
      b64_digit (byte q mod 16 * 4), CHR ''='']"
| "b64_encode (p # q # r # rest) =
     b64_digit (byte p div 4) # b64_digit (byte p mod 4 * 16 + byte q div 16) #
     b64_digit (byte q mod 16 * 4 + byte r div 64) # b64_digit (byte r mod 64) # b64_encode rest"

lemma byte_bound [simp]: "byte c < 256"
  by (simp add: byte_def)

lemma char_of_byte [simp]: "char_of (byte c) = c"
  by (simp add: byte_def)

lemma byte_char_of: "n < 256 \<Longrightarrow> byte (char_of n) = n"
  by (simp add: byte_def)

lemma byte_b64_digit:
  "n < 64 \<Longrightarrow> byte (b64_digit n) =
     (if n < 26 then n + 65 else if n < 52 then n + 71 else if n < 62 then n - 4
      else if n = 62 then 43 else 47)"
  by (simp add: b64_digit_def byte_char_of)

lemma b64_value_digit [simp]: "n < 64 \<Longrightarrow> b64_value (b64_digit n) = Some n"
proof -
  assume n: "n < 64"
  consider "n < 26" | "26 \<le> n" "n < 52" | "52 \<le> n" "n < 62" | "n = 62" | "n = 63"
    using n by linarith
  then show ?thesis by cases (auto simp: b64_value_def byte_b64_digit Let_def)
qed

lemma b64_digit_plain:
  "n < 64 \<Longrightarrow> byte (b64_digit n) \<noteq> 61 \<and> byte (b64_digit n) \<noteq> 10 \<and> byte (b64_digit n) \<noteq> 13"
  by (simp only: byte_b64_digit split: if_split) presburger

lemma b64_bounds [simp]:
  "byte p div 4 < 64" "byte p mod 4 * 16 < 64" "byte p mod 4 * 16 + byte q div 16 < 64"
  "byte q mod 16 * 4 < 64" "byte q mod 16 * 4 + byte r div 64 < 64" "byte r mod 64 < 64"
  using byte_bound [of p] byte_bound [of q] byte_bound [of r] by linarith+

lemma b64_join:
  "byte p div 4 * 4 + (byte p mod 4 * 16 + byte q div 16) div 16 = byte p"
  "byte p div 4 * 4 + byte p mod 4 * 16 div 16 = byte p"
  "(byte p mod 4 * 16 + byte q div 16) mod 16 * 16 + (byte q mod 16 * 4 + byte r div 64) div 4 = byte q"
  "(byte p mod 4 * 16 + byte q div 16) mod 16 * 16 + byte q mod 16 = byte q"
  "(byte q mod 16 * 4 + byte r div 64) mod 4 * 64 + byte r mod 64 = byte r"
proof -
  have q: "byte q div 16 < 16" and r: "byte r div 64 < 4"
    using byte_bound [of q] byte_bound [of r] by linarith+
  show "byte p div 4 * 4 + (byte p mod 4 * 16 + byte q div 16) div 16 = byte p"
    using q by simp
  show "byte p div 4 * 4 + byte p mod 4 * 16 div 16 = byte p" by simp
  show "(byte p mod 4 * 16 + byte q div 16) mod 16 * 16 + (byte q mod 16 * 4 + byte r div 64) div 4 = byte q"
    using q r by simp
  show "(byte p mod 4 * 16 + byte q div 16) mod 16 * 16 + byte q mod 16 = byte q"
    using q by simp
  show "(byte q mod 16 * 4 + byte r div 64) mod 4 * 64 + byte r mod 64 = byte r"
    using r by simp
qed

lemma b64_quads_encode: "b64_quads (b64_encode s) = Some s"
proof (induction s rule: b64_encode.induct)
  case (2 p)
  have "byte (CHR ''='') = 61" by (simp add: byte_def)
  then show ?case by (simp only: b64_encode.simps b64_quads.simps b64_value_digit b64_bounds) (simp add: b64_join)
next
  case (3 p q)
  have "byte (CHR ''='') = 61" by (simp add: byte_def)
  then show ?case
    by (simp add: b64_digit_plain b64_join
          del: div_mult_self3 div_mult_self4 mod_mult_self3 mod_mult_self4)
next
  case (4 p q r rest)
  then show ?case
    by (simp add: b64_digit_plain b64_join
          del: div_mult_self3 div_mult_self4 mod_mult_self3 mod_mult_self4)
qed simp

lemma b64_encode_lines: "\<forall>c\<in>set (b64_encode s). byte c \<noteq> 10 \<and> byte c \<noteq> 13"
proof (induction s rule: b64_encode.induct)
  case (4 p q r rest)
  then show ?case by (simp add: b64_digit_plain)
qed (simp_all add: b64_digit_plain byte_def [of "CHR ''=''"])

lemma b64_decode_encode: "b64_decode (b64_encode s) = Some s"
proof -
  have "filter (\<lambda>c. byte c \<noteq> 10 \<and> byte c \<noteq> 13) (b64_encode s) = b64_encode s"
    using b64_encode_lines [of s] by (simp add: filter_id_conv)
  then show ?thesis by (simp add: b64_decode_def b64_quads_encode)
qed

subsection \<open>Percent-escapes (\<^verbatim>\<open>net/url\<close>)\<close>

definition hex_value :: "char \<Rightarrow> nat option" where
  "hex_value c =
     (let b = byte c in
      if 48 \<le> b \<and> b \<le> 57 then Some (b - 48)
      else if 97 \<le> b \<and> b \<le> 102 then Some (b - 87)
      else if 65 \<le> b \<and> b \<le> 70 then Some (b - 55) else None)"

text \<open>\<^verbatim>\<open>url.PathUnescape\<close>: a percent sign must introduce two hexadecimal digits.\<close>

fun PathUnescape :: "string \<Rightarrow> string result" where
  "PathUnescape [] = Inr []"
| "PathUnescape (c # cs) =
     (if c \<noteq> CHR ''%'' then (case PathUnescape cs of Inr t \<Rightarrow> Inr (c # t) | Inl e \<Rightarrow> Inl e)
      else case cs of
             x # y # rest \<Rightarrow>
               (case (hex_value x, hex_value y) of
                  (Some h, Some l) \<Rightarrow>
                    (case PathUnescape rest of
                       Inr t \<Rightarrow> Inr (char_of (16 * h + l) # t) | Inl e \<Rightarrow> Inl e)
                | _ \<Rightarrow> Inl (Errorf ''invalid URL escape %q'' [FStr (take 3 (c # cs))]))
           | _ \<Rightarrow> Inl (Errorf ''invalid URL escape %q'' [FStr (take 3 (c # cs))]))"

definition hex_digit :: "nat \<Rightarrow> char" where
  "hex_digit n = char_of (if n < 10 then n + 48 else n + (55 :: nat))"

definition path_safe :: "char \<Rightarrow> bool" where
  "path_safe c \<longleftrightarrow> is_lower c \<or> is_upper c \<or> (48 \<le> byte c \<and> byte c \<le> 57) \<or>
     byte c \<in> {36, 38, 43, 45, 46, 58, 61, 64, 95, 126}"

text \<open>\<^verbatim>\<open>url.PathEscape\<close>, with which a client puts an arbitrary string into one path segment.\<close>

definition PathEscape :: "string \<Rightarrow> string" where
  "PathEscape s = concat (map (\<lambda>c. if path_safe c then [c]
     else [CHR ''%'', hex_digit (byte c div 16), hex_digit (byte c mod 16)]) s)"

lemma hex_value_digit [simp]: "n < 16 \<Longrightarrow> hex_value (hex_digit n) = Some n"
  by (simp add: hex_value_def hex_digit_def byte_char_of Let_def)

lemma PathEscape_simps [simp]:
  "PathEscape [] = []"
  "PathEscape (c # cs) =
     (if path_safe c then c # PathEscape cs
      else CHR ''%'' # hex_digit (byte c div 16) # hex_digit (byte c mod 16) # PathEscape cs)"
  by (simp_all add: PathEscape_def)

lemma byte_nibbles: "16 * (byte c div 16) + byte c mod 16 = byte c" "byte c div 16 < 16"
  using byte_bound [of c] by (simp_all del: byte_bound)

lemma PathUnescape_Escape: "PathUnescape (PathEscape s) = Inr s"
proof (induction s)
  case (Cons c cs)
  have "byte (CHR ''%'') = 37" by (simp add: byte_def)
  then have "path_safe c \<Longrightarrow> c \<noteq> CHR ''%''"
    by (auto simp: path_safe_def is_lower_def is_upper_def)
  with Cons show ?case by (auto simp: byte_nibbles)
qed simp

lemma PathUnescape_plain: "CHR ''%'' \<notin> set s \<Longrightarrow> PathUnescape s = Inr s"
  by (induction s) auto

subsection \<open>Requests and responses\<close>

record server_request =
  srMethod :: string
  srPath :: string    \<comment> \<open>\<^verbatim>\<open>r.URL.Path\<close>\<close>
  srHost :: string
  srRemoteAddr :: string
  srTLS :: bool
  srHeader :: header
  srBody :: string

abbreviation request_Get :: "'z server_request_scheme \<Rightarrow> string \<Rightarrow> string" where
  "request_Get r k \<equiv> header_Get (srHeader r) k"

text \<open>A response as the handler has written it; status 0 stands for a header not yet sent, which the
  server turns into 200 when the handler returns.\<close>

record reply =
  rpStatus :: int
  rpHeader :: header
  rpBody :: string

definition new_reply :: reply where
  "new_reply = \<lparr>rpStatus = 0, rpHeader = (\<lambda>_. None), rpBody = []\<rparr>"

definition reply_Set :: "string \<Rightarrow> string \<Rightarrow> reply \<Rightarrow> reply" where
  "reply_Set k v w = (if rpStatus w = 0 then w\<lparr>rpHeader := header_Set k v (rpHeader w)\<rparr> else w)"

definition WriteHeader :: "int \<Rightarrow> reply \<Rightarrow> reply" where
  "WriteHeader code w = (if rpStatus w = 0 then w\<lparr>rpStatus := code\<rparr> else w)"

definition reply_Write :: "string \<Rightarrow> reply \<Rightarrow> reply" where
  "reply_Write b w = (let w' = WriteHeader 200 w in w'\<lparr>rpBody := rpBody w' @ b\<rparr>)"

definition newline :: string where
  "newline = [char_of (10 :: nat)]"

definition http_Error :: "string \<Rightarrow> int \<Rightarrow> reply \<Rightarrow> reply" where
  "http_Error msg code w =
     reply_Write (msg @ newline)
       (WriteHeader code
         (reply_Set ''X-Content-Type-Options'' ''nosniff''
           (reply_Set ''Content-Type'' ''text/plain; charset=utf-8'' w)))"

definition NotFound :: "reply \<Rightarrow> reply" where
  "NotFound = http_Error ''404 page not found'' 404"

text \<open>\<^verbatim>\<open>http.ServeMux\<close> on patterns without a method or a wildcard: a pattern that ends in a slash
  covers its subtree, and the longest matching pattern wins.  The path is taken as clean; the mux
  redirects other paths to the clean one.\<close>

definition mux_matches :: "string \<Rightarrow> string \<Rightarrow> bool" where
  "mux_matches pattern path = (if HasSuffix pattern ''/'' then HasPrefix path pattern else path = pattern)"

fun mux_find :: "(string \<times> 'h) list \<Rightarrow> string \<Rightarrow> (string \<times> 'h) option" where
  "mux_find [] path = None"
| "mux_find ((p, h) # routes) path =
     (let rest = mux_find routes path in
      if \<not> mux_matches p path then rest
      else case rest of
        None \<Rightarrow> Some (p, h)
      | Some (q, g) \<Rightarrow> if length q > length p then rest else Some (p, h))"

lemma mux_find_exact:
  assumes "distinct (map fst routes)" "(p, h) \<in> set routes"
  shows "mux_find routes p = Some (p, h)"
proof -
  have pre: "HasPrefix p q \<Longrightarrow> length q \<le> length p \<and> (length q = length p \<longrightarrow> q = p)" for q
    by (metis HasPrefix_def length_take min.cobounded1 order_refl take_all)
  have le: "mux_matches q p \<Longrightarrow> length q \<le> length p" for q
    by (auto simp: mux_matches_def dest: pre split: if_splits)
  have none: "length q \<le> length p \<and> mux_matches q p" if "mux_find rs p = Some (q, g)" for rs q g
    using that by (induction rs) (auto simp: Let_def le split: if_splits option.splits)
  have self: "mux_matches p p" by (auto simp: mux_matches_def HasPrefix_def)
  have eq: "mux_matches q p \<Longrightarrow> length q = length p \<Longrightarrow> q = p" for q
    by (auto simp: mux_matches_def dest: pre split: if_splits)
  show ?thesis using assms
  proof (induction routes)
    case (Cons a rs)
    obtain q g where a: "a = (q, g)" by (cases a)
    show ?case
    proof (cases "(q, g) = (p, h)")
      case True
      then show ?thesis using self none by (fastforce simp: a Let_def split: option.splits)
    next
      case False
      then have in_rs: "(p, h) \<in> set rs" using Cons.prems False by (auto simp: a)
      then have "q \<noteq> p" using Cons.prems by (force simp: a)
      moreover have "mux_find rs p = Some (p, h)" using Cons in_rs by simp
      ultimately show ?thesis using le [of q] eq [of q] by (auto simp: a Let_def)
    qed
  qed simp
qed

text \<open>\<^verbatim>\<open>r.BasicAuth()\<close>: the scheme in any case, then Base64 of \<^verbatim>\<open>user:password\<close>, cut at the first
  colon.\<close>

definition ascii_lower :: "string \<Rightarrow> string" where
  "ascii_lower s = map (\<lambda>c. if is_upper c then char_of (byte c + 32) else c) s"

definition BasicAuth :: "'z server_request_scheme \<Rightarrow> (string \<times> string) option" where
  "BasicAuth r =
     (let auth = request_Get r ''Authorization''; prefix = ''Basic '' in
      if auth = [] then None
      else if length auth < length prefix \<or> ascii_lower (take (length prefix) auth) \<noteq> ascii_lower prefix
      then None
      else case b64_decode (drop (length prefix) auth) of
             None \<Rightarrow> None
           | Some cs \<Rightarrow> (case strings_Cut cs (CHR '':'') of
                 (u, Some pw) \<Rightarrow> Some (u, pw)
               | (u, None) \<Rightarrow> None))"

lemma BasicAuth_sent:
  assumes "request_Get r ''Authorization'' = ''Basic '' @ b64_encode (u @ '':'' @ pw)"
    and "CHR '':'' \<notin> set u"
  shows "BasicAuth r = Some (u, pw)"
  using assms by (simp add: BasicAuth_def b64_decode_encode strings_Cut_found)

lemma BasicAuth_no_colon: "BasicAuth r = Some (u, pw) \<Longrightarrow> CHR '':'' \<notin> set u"
  using strings_Cut_no_sep [of "CHR '':''"]
  by (auto simp: BasicAuth_def Let_def split: if_splits option.splits prod.splits) (metis fst_conv)+

lemma reply_simps [simp]:
  "rpStatus (WriteHeader code w) = (if rpStatus w = 0 then code else rpStatus w)"
  "rpBody (WriteHeader code w) = rpBody w" "rpHeader (WriteHeader code w) = rpHeader w"
  "rpStatus (reply_Set k v w) = rpStatus w" "rpBody (reply_Set k v w) = rpBody w"
  "rpHeader (reply_Set k v w) = (if rpStatus w = 0 then header_Set k v (rpHeader w) else rpHeader w)"
  "rpStatus (reply_Write b w) = (if rpStatus w = 0 then 200 else rpStatus w)"
  "rpBody (reply_Write b w) = rpBody w @ b" "rpHeader (reply_Write b w) = rpHeader w"
  "rpStatus new_reply = 0" "rpBody new_reply = []" "rpHeader new_reply = (\<lambda>_. None)"
  by (simp_all add: WriteHeader_def reply_Set_def reply_Write_def new_reply_def Let_def)

lemma http_Error_simps [simp]:
  "rpStatus w = 0 \<Longrightarrow> code \<noteq> 0 \<Longrightarrow> rpStatus (http_Error msg code w) = code"
  "rpStatus w = 0 \<Longrightarrow> code \<noteq> 0 \<Longrightarrow> rpBody (http_Error msg code w) = rpBody w @ msg @ newline"
  by (simp_all add: http_Error_def)

end
