(* ===== verification/HTTP_Auth.thy ===== *)
theory HTTP_Auth
  imports Net_Http
begin

section \<open>Credential checks (\<^verbatim>\<open>internal/httpauth/httpauth.go\<close>, \<^verbatim>\<open>internal/sink/feed/auth.go\<close>)\<close>

text \<open>
  The credential set that the feed sink and the admin API share: bearer tokens, basic users and API
  keys, any of which admits a request.  A nil \<^verbatim>\<open>*Auth\<close> is \<^const>\<open>None\<close>.  The constant-time comparison
  is equality of the byte strings.  The lemmas say exactly which requests are admitted, that a client
  following RFC 7617 is, and that a user name with a colon never can be.
\<close>

record BasicCred =
  credName :: string
  Username :: string
  Password :: string

record NamedSecret =
  secName :: string
  Secret :: string

record Auth =
  BasicUsers :: "BasicCred list"
  BearerTokens :: "NamedSecret list"
  APIKeys :: "NamedSecret list"
  APIKeyHeader :: string

definition ctEqual :: "string \<Rightarrow> string \<Rightarrow> bool" where
  "ctEqual a b \<longleftrightarrow> a = b"

definition auth_Empty :: "Auth option \<Rightarrow> bool" where
  "auth_Empty a =
     (case a of None \<Rightarrow> True
      | Some a \<Rightarrow> length (BasicUsers a) = 0 \<and> length (BearerTokens a) = 0 \<and> length (APIKeys a) = 0)"

definition apiKeyHeader :: "Auth \<Rightarrow> string" where
  "apiKeyHeader a = (if APIKeyHeader a = [] then ''X-API-Key'' else APIKeyHeader a)"

text \<open>The three loops of \<^verbatim>\<open>Authenticate\<close>: the name of the first credential that matches.\<close>

fun match_secret :: "string \<Rightarrow> NamedSecret list \<Rightarrow> string option" where
  "match_secret tok [] = None"
| "match_secret tok (c # cs) = (if ctEqual tok (Secret c) then Some (secName c) else match_secret tok cs)"

fun match_basic :: "string \<Rightarrow> string \<Rightarrow> BasicCred list \<Rightarrow> string option" where
  "match_basic u pw [] = None"
| "match_basic u pw (c # cs) =
     (let userOK = ctEqual u (Username c); passOK = ctEqual pw (Password c)
      in if userOK \<and> passOK then Some (credName c) else match_basic u pw cs)"

definition Authenticate :: "Auth \<Rightarrow> 'z server_request_scheme \<Rightarrow> string \<times> bool" where
  "Authenticate a r =
     (let got = request_Get r ''Authorization'';
          key = request_Get r (apiKeyHeader a) in
      case (if HasPrefix got ''Bearer '' then match_secret (drop (length ''Bearer '') got) (BearerTokens a)
            else None) of
        Some name \<Rightarrow> (name, True)
      | None \<Rightarrow>
          (case (case BasicAuth r of Some (u, pw) \<Rightarrow> match_basic u pw (BasicUsers a) | None \<Rightarrow> None) of
             Some name \<Rightarrow> (name, True)
           | None \<Rightarrow>
               (case (if key \<noteq> [] then match_secret key (APIKeys a) else None) of
                  Some name \<Rightarrow> (name, True)
                | None \<Rightarrow> ([], False))))"

definition FailReason :: "Auth \<Rightarrow> 'z server_request_scheme \<Rightarrow> string" where
  "FailReason a r =
     (if request_Get r ''Authorization'' = [] \<and> request_Get r (apiKeyHeader a) = [] then ''no_credentials''
      else ''bad_token'')"

definition quoted :: "string \<Rightarrow> string" where
  "quoted s = [char_of (34 :: nat)] @ s @ [char_of (34 :: nat)]"

definition WriteChallenge :: "Auth option \<Rightarrow> reply \<Rightarrow> reply" where
  "WriteChallenge a w =
     http_Error ''unauthorized'' 401
       (reply_Set ''WWW-Authenticate''
         ((case a of
             Some x \<Rightarrow> if length (BasicUsers x) > 0 then ''Basic'' else ''Bearer''
           | None \<Rightarrow> ''Bearer'') @ '' realm='' @ quoted ''rss2msg'') w)"

subsection \<open>The surfaces of the feed sink\<close>

type_synonym SurfaceAuth = Auth

definition authenticate :: "SurfaceAuth option \<Rightarrow> 'z server_request_scheme \<Rightarrow> string \<times> bool" where
  "authenticate a r = (case a of None \<Rightarrow> ([], True) | Some a \<Rightarrow> Authenticate a r)"

definition authFailReason :: "SurfaceAuth option \<Rightarrow> 'z server_request_scheme \<Rightarrow> string" where
  "authFailReason a r = (case a of None \<Rightarrow> [] | Some a \<Rightarrow> FailReason a r)"

definition writeAuthChallenge :: "SurfaceAuth option \<Rightarrow> reply \<Rightarrow> reply" where
  "writeAuthChallenge a w = WriteChallenge a w"

subsection \<open>Who is admitted\<close>

lemma match_secret_iff: "(\<exists>n. match_secret tok cs = Some n) \<longleftrightarrow> (\<exists>c\<in>set cs. Secret c = tok)"
  by (induction cs) (auto simp: ctEqual_def)

lemma match_basic_iff:
  "(\<exists>n. match_basic u pw cs = Some n) \<longleftrightarrow> (\<exists>c\<in>set cs. Username c = u \<and> Password c = pw)"
  by (induction cs) (auto simp: ctEqual_def Let_def)

lemma HasPrefix_drop: "HasPrefix s p \<longleftrightarrow> (\<exists>t. s = p @ t \<and> drop (length p) s = t)"
  by (metis HasPrefix_def append_eq_conv_conj)

text \<open>The request carries a configured credential: specification of \<^const>\<open>Authenticate\<close>.\<close>

definition presents :: "'z server_request_scheme \<Rightarrow> Auth \<Rightarrow> bool" where
  "presents r a \<longleftrightarrow>
     (\<exists>c\<in>set (BearerTokens a). request_Get r ''Authorization'' = ''Bearer '' @ Secret c) \<or>
     (\<exists>c\<in>set (BasicUsers a). BasicAuth r = Some (Username c, Password c)) \<or>
     (\<exists>c\<in>set (APIKeys a). Secret c \<noteq> [] \<and> request_Get r (apiKeyHeader a) = Secret c)"

lemma bearer_branch:
  "(\<exists>n. (if HasPrefix got ''Bearer '' then match_secret (drop (length ''Bearer '') got) cs else None) = Some n)
   \<longleftrightarrow> (\<exists>c\<in>set cs. got = ''Bearer '' @ Secret c)"
proof (cases "HasPrefix got ''Bearer ''")
  case True
  then obtain t where "got = ''Bearer '' @ t" "drop (length ''Bearer '') got = t"
    by (metis HasPrefix_drop)
  then show ?thesis using True match_secret_iff [of t cs] by auto
next
  case False
  then show ?thesis by (auto simp: HasPrefix_def)
qed

lemma basic_branch:
  "(\<exists>n. (case BasicAuth r of Some (u, pw) \<Rightarrow> match_basic u pw cs | None \<Rightarrow> None) = Some n)
   \<longleftrightarrow> (\<exists>c\<in>set cs. BasicAuth r = Some (Username c, Password c))"
  using match_basic_iff [of _ _ cs] by (auto split: option.split)

lemma key_branch:
  "(\<exists>n. (if key \<noteq> [] then match_secret key cs else None) = Some n)
   \<longleftrightarrow> (\<exists>c\<in>set cs. Secret c \<noteq> [] \<and> key = Secret c)"
  using match_secret_iff [of key cs] by auto

lemma Authenticate_iff: "snd (Authenticate a r) \<longleftrightarrow> presents r a"
proof -
  have three: "snd (case x of Some n \<Rightarrow> (n, True) | None \<Rightarrow>
      (case y of Some n \<Rightarrow> (n, True) | None \<Rightarrow> (case z of Some n \<Rightarrow> (n, True) | None \<Rightarrow> ([], False))))
    \<longleftrightarrow> (\<exists>n. x = Some n) \<or> (\<exists>n. y = Some n) \<or> (\<exists>n. z = Some n)" for x y z :: "string option"
    by (auto split: option.split)
  show ?thesis
    unfolding Authenticate_def Let_def three presents_def bearer_branch basic_branch key_branch by (rule refl)
qed

lemma Authenticate_empty: "auth_Empty (Some a) \<Longrightarrow> Authenticate a r = ([], False)"
  by (auto simp: auth_Empty_def Authenticate_def Let_def split: option.split)

lemma authenticate_iff: "snd (authenticate a r) \<longleftrightarrow> (case a of None \<Rightarrow> True | Some a \<Rightarrow> presents r a)"
  by (simp add: authenticate_def Authenticate_iff split: option.split)

lemma authenticate_None [simp]: "authenticate None r = ([], True)"
  by (simp add: authenticate_def)

lemma WriteChallenge_simps [simp]:
  "rpStatus w = 0 \<Longrightarrow> rpStatus (WriteChallenge a w) = 401"
  "rpStatus w = 0 \<Longrightarrow> rpBody (WriteChallenge a w) = rpBody w @ ''unauthorized'' @ newline"
  by (simp_all add: WriteChallenge_def)

definition sample_auth :: Auth where
  "sample_auth = \<lparr>BasicUsers = [\<lparr>credName = ''ops'', Username = ''ann'', Password = ''s3:cret''\<rparr>,
       \<lparr>credName = ''bad'', Username = ''a:b'', Password = ''x''\<rparr>],
     BearerTokens = [\<lparr>secName = ''ci'', Secret = ''tok''\<rparr>], APIKeys = [], APIKeyHeader = ''''\<rparr>"

definition sample_request :: server_request where
  "sample_request = \<lparr>srMethod = ''GET'', srPath = ''/rss'', srHost = ''h'', srRemoteAddr = ''192.0.2.7:80'',
     srTLS = False, srHeader = header_Set ''Authorization'' (''Basic '' @ b64_encode ''ann:s3:cret'') (\<lambda>_. None),
     srBody = ''''\<rparr>"

text \<open>Admission.  A request is admitted exactly when it carries one of the configured credentials:
  the bearer token verbatim after \<^verbatim>\<open>Bearer \<close>, the user and password of a basic user, or a non-empty
  API key in the key header.  A client that encodes a user name without a colon as RFC 7617 says is
  admitted; a configured user name that contains a colon admits nobody, whatever is sent.\<close>

theorem credentials_admitted_exactly:
  fixes a :: Auth and r :: server_request
  shows "(snd (Authenticate a r) \<longleftrightarrow> presents r a) \<and>
    (\<forall>c\<in>set (BasicUsers a).
       (CHR '':'' \<notin> set (Username c) \<longrightarrow>
        request_Get r ''Authorization'' = ''Basic '' @ b64_encode (Username c @ '':'' @ Password c) \<longrightarrow>
        snd (Authenticate a r)) \<and>
       (CHR '':'' \<in> set (Username c) \<longrightarrow> BasicAuth r \<noteq> Some (Username c, Password c)))"
  by (auto simp: Authenticate_iff presents_def BasicAuth_sent dest: BasicAuth_no_colon)

theorem credentials_admitted_exactly_witness:
  "snd (Authenticate sample_auth sample_request) \<and>
   BasicAuth sample_request \<noteq> Some (''a:b'', ''x'')"
proof -
  have users: "BasicUsers sample_auth = [\<lparr>credName = ''ops'', Username = ''ann'', Password = ''s3:cret''\<rparr>,
      \<lparr>credName = ''bad'', Username = ''a:b'', Password = ''x''\<rparr>]"
    by (simp add: sample_auth_def)
  have sent: "request_Get sample_request ''Authorization'' = ''Basic '' @ b64_encode ''ann:s3:cret''"
    by (simp add: sample_request_def header_Get_def header_Set_def)
  show ?thesis
    using credentials_admitted_exactly [of sample_auth sample_request]
    unfolding users sent by auto
qed

end
