(* ===== verification/TLS_Config.thy ===== *)
theory TLS_Config
  imports Prelude
begin

section \<open>TLS settings of the drivers\<close>

text \<open>
  Every driver that dials a server carries its own copy of \<^verbatim>\<open>buildTLSConfig\<close>, which turns the TLS options of
  the configuration into a \<^verbatim>\<open>tls.Config\<close>.  There are two variants: the drivers that parse a connection
  string default the server name to its host, the others leave it to their client library.  Files are read
  through \<open>tls_env\<close>; the root pool is represented by the file it was read from.
\<close>

record tls_options =
  toCAFile :: string
  toCertFile :: string
  toKeyFile :: string
  toServerName :: string
  toInsecureSkipVerify :: bool

record tls_config =
  tcServerName :: string
  tcInsecureSkipVerify :: bool
  tcRootCAs :: "string option"
  tcCertificates :: "(string \<times> string) list"

text \<open>\<^verbatim>\<open>os.ReadFile\<close>, whether a file holds a certificate (as \<^verbatim>\<open>AppendCertsFromPEM\<close> reports it), and
  \<^verbatim>\<open>tls.LoadX509KeyPair\<close>.\<close>

record tls_env =
  teReadFile :: "string \<Rightarrow> string result"
  tePemCerts :: "string \<Rightarrow> bool"
  teLoadPair :: "string \<Rightarrow> string \<Rightarrow> go_error option"

definition buildTLSConfig :: "tls_env \<Rightarrow> tls_options \<Rightarrow> string \<Rightarrow> tls_config result" where
  "buildTLSConfig env opts defaultServerName =
     (let tc = \<lparr>tcServerName = (if toServerName opts \<noteq> [] then toServerName opts else defaultServerName),
                tcInsecureSkipVerify = toInsecureSkipVerify opts, tcRootCAs = None, tcCertificates = []\<rparr>;
          with_ca =
            (if toCAFile opts \<noteq> [] then
               (case teReadFile env (toCAFile opts) of
                  Inl err \<Rightarrow> Inl (Errorf ''ca_file: %w'' [FWrap err])
                | Inr pem \<Rightarrow>
                    if \<not> tePemCerts env pem
                    then Inl (Errorf ''ca_file %q: no PEM certificates parsed'' [FStr (toCAFile opts)])
                    else Inr (tc\<lparr>tcRootCAs := Some pem\<rparr>))
             else Inr tc)
      in case with_ca of
           Inl err \<Rightarrow> Inl err
         | Inr tc \<Rightarrow>
             if toCertFile opts \<noteq> [] \<or> toKeyFile opts \<noteq> [] then
               if toCertFile opts = [] \<or> toKeyFile opts = []
               then Inl (Errorf ''cert_file and key_file must both be set or both empty'' [])
               else (case teLoadPair env (toCertFile opts) (toKeyFile opts) of
                       Some err \<Rightarrow> Inl (Errorf ''client cert: %w'' [FWrap err])
                     | None \<Rightarrow> Inr (tc\<lparr>tcCertificates := [(toCertFile opts, toKeyFile opts)]\<rparr>))
             else Inr tc)"

text \<open>The copies with a default server name, and those without one.\<close>

definition redis_buildTLSConfig :: "tls_env \<Rightarrow> tls_options \<Rightarrow> string \<Rightarrow> tls_config result" where
  "redis_buildTLSConfig env opts host = buildTLSConfig env opts host"

definition pg_state_buildTLSConfig :: "tls_env \<Rightarrow> tls_options \<Rightarrow> string \<Rightarrow> tls_config result" where
  "pg_state_buildTLSConfig env opts host = buildTLSConfig env opts host"

definition pg_sink_buildTLSConfig :: "tls_env \<Rightarrow> tls_options \<Rightarrow> string \<Rightarrow> tls_config result" where
  "pg_sink_buildTLSConfig env opts host = buildTLSConfig env opts host"

definition buildPostgresTLS :: "tls_env \<Rightarrow> tls_options \<Rightarrow> string \<Rightarrow> tls_config result" where
  "buildPostgresTLS env opts host = buildTLSConfig env opts host"

definition buildHTTPSourceTLS :: "tls_env \<Rightarrow> tls_options \<Rightarrow> tls_config result" where
  "buildHTTPSourceTLS env opts = buildTLSConfig env opts []"

definition http_buildTLSConfig :: "tls_env \<Rightarrow> tls_options \<Rightarrow> tls_config result" where
  "http_buildTLSConfig env opts = buildTLSConfig env opts []"

definition nats_buildTLSConfig :: "tls_env \<Rightarrow> tls_options \<Rightarrow> tls_config result" where
  "nats_buildTLSConfig env opts = buildTLSConfig env opts []"

definition kafka_buildTLSConfig :: "tls_env \<Rightarrow> tls_options \<Rightarrow> tls_config result" where
  "kafka_buildTLSConfig env opts = buildTLSConfig env opts []"

definition amqp091_buildTLSConfig :: "tls_env \<Rightarrow> tls_options \<Rightarrow> tls_config result" where
  "amqp091_buildTLSConfig env opts = buildTLSConfig env opts []"

definition amqp10_buildTLSConfig :: "tls_env \<Rightarrow> tls_options \<Rightarrow> tls_config result" where
  "amqp10_buildTLSConfig env opts = buildTLSConfig env opts []"

definition grpc_buildTLSConfig :: "tls_env \<Rightarrow> tls_options \<Rightarrow> tls_config result" where
  "grpc_buildTLSConfig env opts = buildTLSConfig env opts []"

definition rabbitmqstream_buildTLSConfig :: "tls_env \<Rightarrow> tls_options \<Rightarrow> tls_config result" where
  "rabbitmqstream_buildTLSConfig env opts = buildTLSConfig env opts []"

text \<open>\<^verbatim>\<open>crypto/tls\<close> refuses a client handshake without a name to verify.\<close>

definition tls_client_ok :: "tls_config \<Rightarrow> bool" where
  "tls_client_ok tc \<longleftrightarrow> tcServerName tc \<noteq> [] \<or> tcInsecureSkipVerify tc"

text \<open>
  What was asked for is what is built: verification is off only on request, a named CA file is the only
  root, a client certificate is presented exactly when both files are named, and half a pair is refused.
\<close>

lemma buildTLSConfig_exact:
  "buildTLSConfig env opts host = Inr tc \<longleftrightarrow>
     tc = \<lparr>tcServerName = (if toServerName opts \<noteq> [] then toServerName opts else host),
           tcInsecureSkipVerify = toInsecureSkipVerify opts,
           tcRootCAs = (if toCAFile opts = [] then None else Some (projr (teReadFile env (toCAFile opts)))),
           tcCertificates = (if toCertFile opts = [] then [] else [(toCertFile opts, toKeyFile opts)])\<rparr> \<and>
     (toCAFile opts \<noteq> [] \<longrightarrow> (\<exists>pem. teReadFile env (toCAFile opts) = Inr pem \<and> tePemCerts env pem)) \<and>
     (toCertFile opts = [] \<longleftrightarrow> toKeyFile opts = []) \<and>
     (toCertFile opts \<noteq> [] \<longrightarrow> teLoadPair env (toCertFile opts) (toKeyFile opts) = None)"
  by (cases "teReadFile env (toCAFile opts)"; cases "teLoadPair env (toCertFile opts) (toKeyFile opts)")
    (auto simp: buildTLSConfig_def Let_def)

lemma buildTLSConfig_client_ok:
  "buildTLSConfig env opts host = Inr tc \<Longrightarrow> host \<noteq> [] \<Longrightarrow> tls_client_ok tc"
  by (simp add: buildTLSConfig_exact tls_client_ok_def)

end
