(* ===== verification/Wire_Options.thy ===== *)
theory Wire_Options
  imports Config Change_Model HTTP_Auth TLS_Config
begin

section \<open>From configuration to options (\<^verbatim>\<open>cmd/rss2msg/wire.go\<close>)\<close>

text \<open>
  The mappings from the configuration to the options of the state stores, the coordinators and the
  sinks: which fields go where, the defaults that are filled in, and when a TLS or an authentication
  block is passed at all.  The \<^verbatim>\<open>TLSOptions\<close> structs of all packages have the same five fields and are
  the record \<open>tls_options\<close> of theory \<open>TLS_Config\<close>; a nil pointer is \<open>None\<close>.  The constructors that take the options are
  arguments of theory \<open>Wire\<close>.  Meters and loggers are left out.
\<close>

subsection \<open>TLS\<close>

definition tls_from_pg :: "pg_tls \<Rightarrow> tls_options option" where
  "tls_from_pg t =
     (if pt_CAFile t = [] \<and> pt_CertFile t = [] \<and> pt_KeyFile t = [] \<and> pt_ServerName t = [] \<and>
         \<not> pt_InsecureSkipVerify t
      then None
      else Some \<lparr>toCAFile = pt_CAFile t, toCertFile = pt_CertFile t, toKeyFile = pt_KeyFile t,
                 toServerName = pt_ServerName t, toInsecureSkipVerify = pt_InsecureSkipVerify t\<rparr>)"

definition tls_from_sink :: "SinkTLSConfig \<Rightarrow> tls_options option" where
  "tls_from_sink t =
     (if \<not> Active t then None
      else Some \<lparr>toCAFile = tls_CAFile t, toCertFile = tls_CertFile t, toKeyFile = tls_KeyFile t,
                 toServerName = tls_ServerName t, toInsecureSkipVerify = tls_InsecureSkipVerify t\<rparr>)"

definition statePGTLSFromConfig :: "StatePGTLSConfig \<Rightarrow> tls_options option" where
  "statePGTLSFromConfig t = tls_from_pg t"

definition coordPGTLSFromConfig :: "CoordinationPGTLSConfig \<Rightarrow> tls_options option" where
  "coordPGTLSFromConfig t = tls_from_pg t"

definition redisTLSFromConfig :: "CoordinationRedisTLSConfig \<Rightarrow> tls_options option" where
  "redisTLSFromConfig t = tls_from_pg t"

definition sinkPGTLSFromConfig :: "SinkTLSConfig \<Rightarrow> tls_options option" where
  "sinkPGTLSFromConfig t = tls_from_sink t"

definition sinkKafkaTLSFromConfig :: "SinkTLSConfig \<Rightarrow> tls_options option" where
  "sinkKafkaTLSFromConfig t = tls_from_sink t"

definition schemaRegistryTLSFromConfig :: "SinkTLSConfig \<Rightarrow> tls_options option" where
  "schemaRegistryTLSFromConfig t = tls_from_sink t"

definition sinkAMQP10TLSFromConfig :: "SinkTLSConfig \<Rightarrow> tls_options option" where
  "sinkAMQP10TLSFromConfig t = tls_from_sink t"

definition sinkAMQP091TLSFromConfig :: "SinkTLSConfig \<Rightarrow> tls_options option" where
  "sinkAMQP091TLSFromConfig t = tls_from_sink t"

definition sinkRabbitMQStreamTLSFromConfig :: "SinkTLSConfig \<Rightarrow> tls_options option" where
  "sinkRabbitMQStreamTLSFromConfig t = tls_from_sink t"

definition sinkNATSTLSFromConfig :: "SinkTLSConfig \<Rightarrow> tls_options option" where
  "sinkNATSTLSFromConfig t = tls_from_sink t"

definition sinkHTTPTLSFromConfig :: "SinkTLSConfig \<Rightarrow> tls_options option" where
  "sinkHTTPTLSFromConfig t = tls_from_sink t"

definition sinkGRPCTLSFromConfig :: "SinkTLSConfig \<Rightarrow> tls_options option" where
  "sinkGRPCTLSFromConfig t = tls_from_sink t"

subsection \<open>State store and coordinator\<close>

datatype state_options =
    StatePostgres (so_DSN: string) (so_TLS: "tls_options option")
  | StateSQLite (so_path: string)
  | StateDynamoDB (so_table: string) (so_region: string) (so_endpointURL: string)
      (so_ttlAttribute: string) (so_itemTTL: duration)
  | StateCosmosDB (so_endpoint: string) (so_connectionString: string) (so_database: string)
      (so_container: string) (so_createIfMissing: bool) (so_throughput: int) (so_itemTTL: duration)

definition openStateStore :: "StateConfig \<Rightarrow> state_options result" where
  "openStateStore c =
     (if st_Driver c = ''postgres'' then
        Inr (StatePostgres (ps_DSN (st_Postgres c)) (statePGTLSFromConfig (ps_TLS (st_Postgres c))))
      else if st_Driver c = ''sqlite'' then Inr (StateSQLite (sq_Path (st_SQLite c)))
      else if st_Driver c = ''dynamodb'' then
        (let d = st_DynamoDB c in
         Inr (StateDynamoDB (ds_Table d) (ds_Region d) (ds_EndpointURL d) (ds_TTLAttribute d) (st_ItemTTL c)))
      else if st_Driver c = ''cosmosdb'' then
        (let d = st_CosmosDB c in
         Inr (StateCosmosDB (cs_Endpoint d) (cs_ConnectionString d) (cs_Database d) (cs_Container d)
                (cs_CreateIfMissing d) (cs_Throughput d) (st_ItemTTL c)))
      else Inl (Errorf ''unsupported state driver %q'' [FStr (st_Driver c)]))"

definition stateCleanupInterval :: "StateConfig \<Rightarrow> duration" where
  "stateCleanupInterval c =
     (if st_Driver c = ''sqlite'' \<or> st_Driver c = ''postgres'' then
        (let iv = (if st_Driver c = ''sqlite'' then sq_CleanupInterval (st_SQLite c)
                   else ps_CleanupInterval (st_Postgres c))
         in if iv \<le> 0 then hour else iv)
      else 0)"

record redis_options =
  roMode :: string
  roURL :: string
  roLockTTL :: duration
  roRenewalInterval :: duration
  roMemberTTL :: duration
  roTLS :: "tls_options option"
  roSentinel :: CoordinationRedisSentinelConfig
  roCluster :: CoordinationRedisClusterConfig

text \<open>\<^verbatim>\<open>SentinelOptions\<close> and \<^verbatim>\<open>ClusterOptions\<close> copy their configuration structs field by field.\<close>

definition redisCoordOptions :: "CoordinationConfig \<Rightarrow> redis_options" where
  "redisCoordOptions cc =
     (let r = co_Redis cc; se = rd_Sentinel r; cl = rd_Cluster r in
      \<lparr>roMode = rd_Mode r, roURL = rd_URL r, roLockTTL = rd_LockTTL r,
       roRenewalInterval = rd_RenewalInterval r, roMemberTTL = as_MemberTTL (co_Assignment cc),
       roTLS = redisTLSFromConfig (rd_TLS r),
       roSentinel = \<lparr>rs_MasterName = rs_MasterName se, rs_Addrs = rs_Addrs se,
         rs_Username = rs_Username se, rs_Password = rs_Password se,
         rs_SentinelUsername = rs_SentinelUsername se, rs_SentinelPassword = rs_SentinelPassword se,
         rs_DB = rs_DB se\<rparr>,
       roCluster = \<lparr>rcl_Addrs = rcl_Addrs cl, rcl_Username = rcl_Username cl,
         rcl_Password = rcl_Password cl\<rparr>\<rparr>)"

datatype coord_options =
    CoordMemory
  | CoordPostgres (co_dsn: string) (co_minConns: int) (co_tls: "tls_options option") (co_memberTTL: duration)
  | CoordRedis redis_options
  | CoordDynamoDB (co_table: string) (co_region: string) (co_endpointURL: string)
      (co_leaseDuration: duration) (co_memberTTL: duration)
  | CoordCosmosDB (co_endpoint: string) (co_connectionString: string) (co_database: string)
      (co_container: string) (co_createIfMissing: bool) (co_throughput: int)
      (co_leaseDuration: duration) (co_memberTTL: duration)

definition openCoordinator :: "CoordinationConfig \<Rightarrow> StateConfig \<Rightarrow> int \<Rightarrow> coord_options result" where
  "openCoordinator cc sc feedCount =
     (let driver = (if co_Driver cc = [] then ''memory'' else co_Driver cc);
          mttl = as_MemberTTL (co_Assignment cc) in
      if driver = ''memory'' then Inr CoordMemory
      else if driver = ''postgres'' then
        (let dsn = (if cp_DSN (co_Postgres cc) = [] then ps_DSN (st_Postgres sc) else cp_DSN (co_Postgres cc)) in
         if dsn = [] then
           Inl (Errorf ''coordination postgres: no dsn (and no state.postgres.dsn fallback)'' [])
         else Inr (CoordPostgres dsn feedCount (coordPGTLSFromConfig (cp_TLS (co_Postgres cc))) mttl))
      else if driver = ''redis'' then Inr (CoordRedis (redisCoordOptions cc))
      else if driver = ''dynamodb'' then
        (let d = co_DynamoDB cc in
         Inr (CoordDynamoDB (cd_Table d) (cd_Region d) (cd_EndpointURL d) (cd_LeaseDuration d) mttl))
      else if driver = ''cosmosdb'' then
        (let d = co_CosmosDB cc in
         Inr (CoordCosmosDB (cc_Endpoint d) (cc_ConnectionString d) (cc_Database d) (cc_Container d)
                (cc_CreateIfMissing d) (cc_Throughput d) (cc_LeaseDuration d) mttl))
      else Inl (Errorf ''unsupported coordination driver %q'' [FStr driver]))"

subsection \<open>Sinks\<close>

record schema_options =
  shURL :: string
  shFormat :: string
  shTopic :: string
  shSubject :: string
  shAutoRegister :: bool
  shBasicUser :: string
  shBasicPass :: string
  shTLS :: "tls_options option"
  shSchemaText :: string

text \<open>\<open>readFile\<close> is \<^verbatim>\<open>os.ReadFile\<close>.\<close>

definition schemaOptionsFromConfig ::
    "(string \<Rightarrow> string result) \<Rightarrow> string \<Rightarrow> SchemaRegistryConfig \<Rightarrow> schema_options option result" where
  "schemaOptionsFromConfig readFile topic c =
     (if sr_URL c = [] then Inr None
      else
        (let o1 = \<lparr>shURL = sr_URL c, shFormat = sr_Format c, shTopic = topic, shSubject = sr_Subject c,
               shAutoRegister = (case sr_AutoRegister c of None \<Rightarrow> True | Some b \<Rightarrow> b),
               shBasicUser = sb_Username (sr_BasicAuth c), shBasicPass = sb_Password (sr_BasicAuth c),
               shTLS = schemaRegistryTLSFromConfig (sr_TLS c), shSchemaText = []\<rparr> in
         if sr_SchemaFile c \<noteq> [] then
           (case readFile (sr_SchemaFile c) of
              Inl err \<Rightarrow> Inl (Errorf ''schema_registry.schema_file: %w'' [FWrap err])
            | Inr b \<Rightarrow> Inr (Some (o1\<lparr>shSchemaText := b\<rparr>)))
         else Inr (Some o1)))"

definition toFeedSurfaceAuth :: "FeedAuthConfig \<Rightarrow> SurfaceAuth option" where
  "toFeedSurfaceAuth a =
     (if fa_Disabled a \<or> \<not> HasMethods a then None
      else Some
        \<lparr>BasicUsers = map (\<lambda>b. \<lparr>credName = ba_Name b, Username = ba_Username b, Password = ba_Password b\<rparr>)
           (fa_BasicUsers a),
         BearerTokens = map (\<lambda>t. \<lparr>secName = bc_Name t, Secret = bc_Token t\<rparr>) (fa_BearerTokens a),
         APIKeys = map (\<lambda>k. \<lparr>secName = ak_Name k, Secret = ak_Key k\<rparr>) (fa_APIKeys a),
         APIKeyHeader = fa_APIKeyHeader a\<rparr>)"

record feed_options =
  feName :: string
  feListen :: string
  fePublicURL :: string
  feTitle :: string
  feLink :: string
  feDescription :: string
  feMaxItems :: int
  feRSS :: "bool \<times> string"
  feAtom :: "bool \<times> string"
  feMCP :: "bool \<times> string"
  feRenderCacheTTL :: duration
  feCacheControlTTL :: duration
  feTimeouts :: FeedTimeoutsConfig
  feTLSCertFile :: string
  feTLSKeyFile :: string
  feHTTP3 :: bool
  feTrustedProxies :: "string list"
  feRSSAuth :: "SurfaceAuth option"
  feAtomAuth :: "SurfaceAuth option"
  feMCPAuth :: "SurfaceAuth option"
  feStoreDriver :: string
  feSQLitePath :: string
  fePostgresDSN :: string
  feTable :: string
  fePostgresTLS :: "tls_options option"

definition feedOptions :: "SinkConfig \<Rightarrow> feed_options" where
  "feedOptions sc =
     (let f = sc_Feed sc; st = fk_Store f; pg = fs_Postgres st in
      \<lparr>feName = sc_Name sc, feListen = fk_Listen f, fePublicURL = fk_PublicURL f,
       feTitle = (if fk_Title f = [] then sc_Name sc else fk_Title f),
       feLink = fk_Link f, feDescription = fk_Description f,
       feMaxItems = (if fk_MaxItems f = 0 then 50 else fk_MaxItems f),
       feRSS = (surface_On (fk_RSS f) True, PathOr (fk_RSS f) ''/rss''),
       feAtom = (surface_On (fk_Atom f) True, PathOr (fk_Atom f) ''/atom''),
       feMCP = (surface_On (fk_MCP f) False, PathOr (fk_MCP f) ''/mcp''),
       feRenderCacheTTL = fk_RenderCacheTTL f, feCacheControlTTL = fk_CacheControlTTL f,
       feTimeouts = \<lparr>ft_ReadHeader = ft_ReadHeader (fk_Timeouts f), ft_Read = ft_Read (fk_Timeouts f),
         ft_Write = ft_Write (fk_Timeouts f), ft_Idle = ft_Idle (fk_Timeouts f),
         ft_Shutdown = ft_Shutdown (fk_Timeouts f)\<rparr>,
       feTLSCertFile = fl_CertFile (fk_TLS f), feTLSKeyFile = fl_KeyFile (fk_TLS f),
       feHTTP3 = fk_HTTP3 f, feTrustedProxies = fk_TrustedProxies f,
       feRSSAuth = toFeedSurfaceAuth (EffectiveAuth f (fk_RSS f)),
       feAtomAuth = toFeedSurfaceAuth (EffectiveAuth f (fk_Atom f)),
       feMCPAuth = toFeedSurfaceAuth (EffectiveAuth f (fk_MCP f)),
       feStoreDriver = fs_Driver st, feSQLitePath = fsq_Path (fs_SQLite st),
       fePostgresDSN = fsp_DSN pg, feTable = fsp_Table pg, fePostgresTLS = tls_from_pg (fsp_TLS pg)\<rparr>)"

datatype sink_options =
    PostgresOptions (oName: string) (oDSN: string) (oTable: string) (oTLS: "tls_options option")
  | KafkaOptions (oName: string) (oBrokers: "string list") (oTopic: string) (oAcks: string)
      (oCompression: string) (oTLS: "tls_options option") (oSchema: "schema_options option")
  | StdoutOptions (oName: string) (oTarget: string) (oFormat: string)
  | HTTPOptions (oName: string) (oURL: string) (oMethod: string) (oHeaders: "(string \<times> string) list")
      (oTimeout: duration) (oSuccessCodes: "int list") (oTLS: "tls_options option") (oHTTP3: bool)
  | GRPCOptions (oName: string) (oTarget: string) (oAuthority: string) (oTimeout: duration)
      (oMetadata: "(string \<times> string) list") (oTLS: "tls_options option")
  | AMQP091Options (oName: string) (oURL: string) (oExchange: string) (oExchangeType: string)
      (oRoutingKey: string) (oDeclare: bool) (oDurable: bool) (oMandatory: bool)
      (oTLS: "tls_options option")
  | AMQP10Options (oName: string) (oURL: string) (oTarget: string) (oUsername: string)
      (oPassword: string) (oTLS: "tls_options option")
  | RabbitMQStreamOptions (oName: string) (oURIs: "string list") (oURL: string) (oStream: string)
      (oUsername: string) (oPassword: string) (oDeclare: bool) (oMaxAge: duration)
      (oMaxLengthBytes: int) (oTLS: "tls_options option")
  | SQSOptions (oName: string) (oQueueURL: string) (oRegion: string) (oEndpointURL: string)
      (oMessageGroup: string)
  | SNSOptions (oName: string) (oTopicARN: string) (oRegion: string) (oEndpointURL: string)
      (oMessageGroup: string)
  | DynamoDBOptions (oName: string) (oTable: string) (oRegion: string) (oEndpointURL: string)
      (oPartitionKey: string) (oSortKey: string) (oTTLAttribute: string) (oItemTTL: duration)
  | FeedOptions feed_options
  | GCPPubSubOptions (oName: string) (oProjectID: string) (oTopicID: string) (oEndpoint: string)
      (oOrderingKey: string)
  | DaprOptions (oName: string) (oAddress: string) (oPubsubName: string) (oTopic: string)
      (oContentType: string) (oMetadata: "(string \<times> string) list")
  | NATSOptions (oName: string) (oURL: string) (oSubject: string) (oToken: string) (oUsername: string)
      (oPassword: string) (oCredsFile: string) (oJetStream: bool) (oTLS: "tls_options option")
  | AzureServiceBusOptions (oName: string) (oConnectionString: string) (oNamespace: string)
      (oQueue: string) (oTopic: string)
  | CosmosDBOptions (oName: string) (oEndpoint: string) (oConnectionString: string)
      (oDatabase: string) (oContainer: string) (oCreateIfMissing: bool) (oThroughput: int)
  | CompositeOptions (oName: string) (oChildren: "string list")

definition buildOptions :: "(string \<Rightarrow> string result) \<Rightarrow> SinkConfig \<Rightarrow> sink_options result" where
  "buildOptions readFile sc =
     (let d = sc_Driver sc; n = sc_Name sc in
      if d = ''postgres'' then
        (let p = sc_Postgres sc in
         Inr (PostgresOptions n (pk_DSN p) (pk_Table p) (sinkPGTLSFromConfig (pk_TLS p))))
      else if d = ''kafka'' then
        (let k = sc_Kafka sc in
         case schemaOptionsFromConfig readFile (kf_Topic k) (kf_SchemaRegistry k) of
           Inl err \<Rightarrow> Inl (Errorf ''kafka sink %q: %w'' [FStr n, FWrap err])
         | Inr schemaOpts \<Rightarrow>
             Inr (KafkaOptions n (kf_Brokers k) (kf_Topic k) (kf_Acks k) (kf_Compression k)
                    (sinkKafkaTLSFromConfig (kf_TLS k)) schemaOpts))
      else if d = ''stdout'' then
        Inr (StdoutOptions n (so_Target (sc_Stdout sc)) (so_Format (sc_Stdout sc)))
      else if d = ''http'' then
        (let h = sc_HTTP sc in
         Inr (HTTPOptions n (hs_URL h) (hs_Method h) (hs_Headers h) (hs_Timeout h) (hs_SuccessCodes h)
                (sinkHTTPTLSFromConfig (hs_TLS h)) (hs_HTTP3 h)))
      else if d = ''grpc'' then
        (let g = sc_GRPC sc in
         Inr (GRPCOptions n (gp_Target g) (gp_Authority g) (gp_Timeout g) (gp_Metadata g)
                (sinkGRPCTLSFromConfig (gp_TLS g))))
      else if d = ''amqp091'' then
        (let a = sc_AMQP091 sc in
         Inr (AMQP091Options n (aq_URL a) (aq_Exchange a) (aq_ExchangeType a) (aq_RoutingKey a)
                (aq_Declare a) (aq_Durable a) (aq_Mandatory a) (sinkAMQP091TLSFromConfig (aq_TLS a))))
      else if d = ''amqp10'' then
        (let a = sc_AMQP10 sc in
         Inr (AMQP10Options n (a1_URL a) (a1_Target a) (a1_Username a) (a1_Password a)
                (sinkAMQP10TLSFromConfig (a1_TLS a))))
      else if d = ''rabbitmq_stream'' then
        (let r = sc_RabbitMQStream sc in
         Inr (RabbitMQStreamOptions n (rq_URIs r) (rq_URL r) (rq_Stream r) (rq_Username r)
                (rq_Password r) (rq_Declare r) (rq_MaxAge r) (rq_MaxLengthBytes r)
                (sinkRabbitMQStreamTLSFromConfig (rq_TLS r))))
      else if d = ''sqs'' then
        (let q = sc_SQS sc in
         Inr (SQSOptions n (qs_QueueURL q) (qs_Region q) (qs_EndpointURL q) (qs_MessageGroup q)))
      else if d = ''sns'' then
        (let q = sc_SNS sc in
         Inr (SNSOptions n (sn_TopicARN q) (sn_Region q) (sn_EndpointURL q) (sn_MessageGroup q)))
      else if d = ''dynamodb'' then
        (let q = sc_DynamoDB sc in
         Inr (DynamoDBOptions n (dy_Table q) (dy_Region q) (dy_EndpointURL q) (dy_PartitionKey q)
                (dy_SortKey q) (dy_TTLAttribute q) (dy_ItemTTL q)))
      else if d = ''feed'' then Inr (FeedOptions (feedOptions sc))
      else if d = ''gcp_pubsub'' then
        (let g = sc_GCPPubSub sc in
         Inr (GCPPubSubOptions n (gc_ProjectID g) (gc_TopicID g) (gc_Endpoint g) (gc_OrderingKey g)))
      else if d = ''dapr_pubsub'' then
        (let p = sc_DaprPubSub sc in
         Inr (DaprOptions n (dp_Address p) (dp_PubsubName p) (dp_Topic p) (dp_ContentType p)
                (dp_Metadata p)))
      else if d = ''nats'' then
        (let q = sc_NATS sc in
         Inr (NATSOptions n (na_URL q) (na_Subject q) (na_Token q) (na_Username q) (na_Password q)
                (na_CredsFile q) (na_JetStream q) (sinkNATSTLSFromConfig (na_TLS q))))
      else if d = ''azureservicebus'' then
        (let a = sc_AzureServiceBus sc in
         Inr (AzureServiceBusOptions n (az_ConnectionString a) (az_Namespace a) (az_Queue a) (az_Topic a)))
      else if d = ''cosmosdb'' then
        (let q = sc_CosmosDB sc in
         Inr (CosmosDBOptions n (cb_Endpoint q) (cb_ConnectionString q) (cb_Database q) (cb_Container q)
                (cb_CreateIfMissing q) (cb_Throughput q)))
      else if d = ''composite'' then
        Inr (CompositeOptions n (cm_Children (sc_Composite sc)))
      else Inl (Errorf ''unsupported sink driver %q'' [FStr d]))"

end
