(* ===== verification/Wire.thy ===== *)
theory Wire
  imports Wire_Options Validate Pipeline Feedsource "HOL-Library.Multiset"
begin

section \<open>Wiring (\<^verbatim>\<open>cmd/rss2msg/wire.go\<close>, \<^verbatim>\<open>cmd/rss2msg/sources.go\<close>)\<close>

text \<open>
  How a configuration becomes a running program: the state store, the sinks with their retries, dead
  letters and children, the coordinator, and the factory that builds a pipeline for a feed.  The
  constructors of the packages and their \<^verbatim>\<open>Close\<close> methods are the record \<open>wire_env\<close>; the log of
  what was opened and closed is kept beside the state, so that leaks can be stated.
\<close>

subsection \<open>Resources\<close>

datatype resource = RStore | RSink string | RCoord
datatype wire_event = Opened resource | Closed resource

type_synonym 's world = "'s \<times> wire_event list"

record 's wire_env =
  weReadFile :: "string \<Rightarrow> string result"
  weNewStore :: "state_options \<Rightarrow> 's \<Rightarrow> 's Store result \<times> 's"
  weNewSink :: "sink_options \<Rightarrow> 's \<Rightarrow> go_error option \<times> 's"
  weNewCoord :: "coord_options \<Rightarrow> 's \<Rightarrow> 's Coordinator result \<times> 's"
  weCompositeInstruments :: "string \<Rightarrow> go_error option"
  weInstruments :: "go_error option"
  weClose :: "resource \<Rightarrow> 's \<Rightarrow> go_error option \<times> 's"
  weOrder :: "publisher list \<Rightarrow> publisher list"  \<comment> \<open>the order in which the registry's map is visited\<close>

definition log_event :: "wire_event \<Rightarrow> 's world \<Rightarrow> 's world" where
  "log_event e w = (fst w, snd w @ [e])"

definition close_resource :: "'s wire_env \<Rightarrow> resource \<Rightarrow> 's world \<Rightarrow> go_error option \<times> 's world" where
  "close_resource env r w =
     (case weClose env r (fst w) of (err, s) \<Rightarrow> (err, (s, snd w @ [Closed r])))"

definition close_registry :: "'s wire_env \<Rightarrow> registry \<Rightarrow> 's world \<Rightarrow> 's world" where
  "close_registry env reg w =
     snd (registry_Close (\<lambda>p. close_resource env (RSink (pubName p)))
            (weOrder env (registry_All reg)) None w)"

subsection \<open>Building and linking the sinks\<close>

text \<open>\<^verbatim>\<open>internal/sink/composite\<close>: the shell of a composite; the meter's instruments may fail.\<close>

definition composite_New :: "'s wire_env \<Rightarrow> string \<Rightarrow> publisher result" where
  "composite_New env name =
     (if name = [] then Inl (Errorf ''composite sink: name is required'' [])
      else (case weCompositeInstruments env name of
              Some err \<Rightarrow> Inl (Errorf ''composite sink %q: instruments: %w'' [FStr name, FWrap err])
            | None \<Rightarrow> Inr (Composite name)))"

definition buildPublisher :: "'s wire_env \<Rightarrow> SinkConfig \<Rightarrow> 's world \<Rightarrow> publisher result \<times> 's world" where
  "buildPublisher env sc w =
     (case buildOptions (weReadFile env) sc of
        Inl err \<Rightarrow> (Inl err, w)
      | Inr opts \<Rightarrow>
          if is_CompositeOptions opts then
            (case composite_New env (oName opts) of
               Inl err \<Rightarrow> (Inl err, w)
             | Inr p \<Rightarrow> (Inr p, log_event (Opened (RSink (pubName p))) w))
          else
            (case weNewSink env opts (fst w) of
               (Some err, s) \<Rightarrow> (Inl err, (s, snd w))
             | (None, s) \<Rightarrow>
                 (Inr (Driver (sc_Name sc)), log_event (Opened (RSink (sc_Name sc))) (s, snd w))))"

fun build_sinks ::
    "'s wire_env \<Rightarrow> SinkConfig list \<Rightarrow> registry \<Rightarrow> 's world \<Rightarrow> go_error option \<times> registry \<times> 's world" where
  "build_sinks env [] reg w = (None, reg, w)"
| "build_sinks env (sc # scs) reg w =
     (case buildPublisher env sc w of
        (Inl err, w1) \<Rightarrow> (Some err, reg, w1)
      | (Inr p, w1) \<Rightarrow>
          (case registry_Add reg p of
             Inl err \<Rightarrow> (Some err, reg, w1)
           | Inr reg1 \<Rightarrow> build_sinks env scs reg1 w1))"

fun findSink :: "SinkConfig list \<Rightarrow> string \<Rightarrow> SinkConfig" where
  "findSink [] name = zero_SinkConfig"
| "findSink (s # list) name = (if sc_Name s = name then s else findSink list name)"

definition wrapSink :: "registry \<Rightarrow> Config \<Rightarrow> string \<Rightarrow> RetryingPublisher result" where
  "wrapSink reg cfg name =
     (case registry_Get reg name of
        None \<Rightarrow> Inl (Errorf ''unknown sink %q'' [FStr name])
      | Some p \<Rightarrow>
          (let scCfg = findSink (cf_Sinks cfg) name; timeout = rn_DeliverTimeout (cf_Runtime cfg) in
           if sc_Driver scCfg = ''composite'' then
             Inr (WithRetry p None \<lparr>MaxAttempts = 1, BaseDelay = 0, MaxDelay = 0, Retryable = None\<rparr> timeout)
           else
             Inr (WithRetry p
                    (if sc_DeadLetter scCfg \<noteq> [] then registry_Get reg (sc_DeadLetter scCfg) else None)
                    \<lparr>MaxAttempts = rc_MaxAttempts (cf_Retry cfg), BaseDelay = rc_BaseDelay (cf_Retry cfg),
                     MaxDelay = rc_MaxDelay (cf_Retry cfg), Retryable = None\<rparr>
                    timeout)))"

fun wrap_children :: "registry \<Rightarrow> Config \<Rightarrow> string \<Rightarrow> string list \<Rightarrow> Branch list result" where
  "wrap_children reg cfg owner [] = Inr []"
| "wrap_children reg cfg owner (child # cs) =
     (case wrapSink reg cfg child of
        Inl err \<Rightarrow> Inl (Errorf ''composite %q: child %q: %w'' [FStr owner, FStr child, FWrap err])
      | Inr wrapped \<Rightarrow>
          (case wrap_children reg cfg owner cs of
             Inl err \<Rightarrow> Inl err
           | Inr bs \<Rightarrow> Inr (\<lparr>brName = child, Wrapped = wrapped\<rparr> # bs)))"

text \<open>The result lists what \<^verbatim>\<open>SetBranches\<close> attached to each composite.  The Go type that \<^verbatim>\<open>%T\<close> prints for a
  publisher that is no composite is represented by its name.\<close>

fun link_loop :: "registry \<Rightarrow> Config \<Rightarrow> SinkConfig list \<Rightarrow> (string \<times> Branch list) list result" where
  "link_loop reg cfg [] = Inr []"
| "link_loop reg cfg (sc # scs) =
     (if sc_Driver sc \<noteq> ''composite'' then link_loop reg cfg scs
      else
        (case registry_Get reg (sc_Name sc) of
           None \<Rightarrow> Inl (Errorf ''composite %q: not in registry (bug)'' [FStr (sc_Name sc)])
         | Some (Driver n) \<Rightarrow>
             Inl (Errorf ''composite %q: expected *compositesink.Publisher, got %T'' [FStr (sc_Name sc), FStr n])
         | Some (Composite n) \<Rightarrow>
             (case wrap_children reg cfg (sc_Name sc) (cm_Children (sc_Composite sc)) of
                Inl err \<Rightarrow> Inl err
              | Inr bs \<Rightarrow>
                  (case link_loop reg cfg scs of
                     Inl err \<Rightarrow> Inl err
                   | Inr rest \<Rightarrow> Inr ((n, bs) # rest)))))"

definition linkComposites :: "registry \<Rightarrow> Config \<Rightarrow> (string \<times> Branch list) list result" where
  "linkComposites reg cfg = link_loop reg cfg (cf_Sinks cfg)"

subsection \<open>The whole program\<close>

record 's wired =
  wdStore :: "'s Store"
  wdRegistry :: registry
  wdCoord :: "'s Coordinator"
  wdBranches :: "(string \<times> Branch list) list"
  wdFetcher :: Options

definition new_store :: "'s wire_env \<Rightarrow> StateConfig \<Rightarrow> 's world \<Rightarrow> 's Store result \<times> 's world" where
  "new_store env c w =
     (case openStateStore c of
        Inl err \<Rightarrow> (Inl err, w)
      | Inr opts \<Rightarrow>
          (case weNewStore env opts (fst w) of
             (Inl err, s) \<Rightarrow> (Inl err, (s, snd w))
           | (Inr st, s) \<Rightarrow> (Inr st, log_event (Opened RStore) (s, snd w))))"

definition new_coordinator ::
    "'s wire_env \<Rightarrow> Config \<Rightarrow> 's world \<Rightarrow> 's Coordinator result \<times> 's world" where
  "new_coordinator env cfg w =
     (case openCoordinator (cf_Coordination cfg) (cf_State cfg) (int (length (cf_Feeds cfg))) of
        Inl err \<Rightarrow> (Inl err, w)
      | Inr opts \<Rightarrow>
          (case (if opts = CoordMemory then (Inr memory_coordinator, fst w)
                 else weNewCoord env opts (fst w)) of
             (Inl err, s) \<Rightarrow> (Inl err, (s, snd w))
           | (Inr cd, s) \<Rightarrow> (Inr cd, log_event (Opened RCoord) (s, snd w))))"

definition wireAll :: "'s wire_env \<Rightarrow> Config \<Rightarrow> 's world \<Rightarrow> 's wired result \<times> 's world" where
  "wireAll env cfg w =
     (case new_store env (cf_State cfg) w of
        (Inl err, w1) \<Rightarrow> (Inl err, w1)
      | (Inr st, w1) \<Rightarrow>
          (let undo = (\<lambda>reg w'. snd (close_resource env RStore (close_registry env reg w'))) in
           case build_sinks env (cf_Sinks cfg) NewRegistry w1 of
             (Some err, reg, w2) \<Rightarrow> (Inl err, undo reg w2)
           | (None, reg, w2) \<Rightarrow>
               (case linkComposites reg cfg of
                  Inl err \<Rightarrow> (Inl err, undo reg w2)
                | Inr brs \<Rightarrow>
                    (case new_coordinator env cfg w2 of
                       (Inl err, w3) \<Rightarrow> (Inl err, undo reg w3)
                     | (Inr cd, w3) \<Rightarrow>
                         (case weInstruments env of
                            Some err \<Rightarrow>
                              (Inl (Errorf ''instruments: %w'' [FWrap err]),
                               undo reg (snd (close_resource env RCoord w3)))
                          | None \<Rightarrow>
                              (Inr \<lparr>wdStore = st, wdRegistry = reg, wdCoord = cd, wdBranches = brs,
                                    wdFetcher = NewFetcher \<lparr>UserAgent = ht_UserAgent (cf_HTTP cfg),
                                                           Timeout = ht_Timeout (cf_HTTP cfg)\<rparr>\<rparr>, w3))))))"

definition wired_Close :: "'s wire_env \<Rightarrow> 's wired \<Rightarrow> 's world \<Rightarrow> 's world" where
  "wired_Close env wd w =
     snd (close_resource env RStore (snd (close_resource env RCoord
       (close_registry env (wdRegistry wd) w))))"

definition effectiveFetchRetry :: "RetryConfig \<Rightarrow> RetryConfig \<Rightarrow> retry_config" where
  "effectiveFetchRetry global perFeed =
     \<lparr>MaxAttempts = (if rc_MaxAttempts perFeed \<noteq> 0 then rc_MaxAttempts perFeed else rc_MaxAttempts global),
      BaseDelay = (if rc_BaseDelay perFeed \<noteq> 0 then rc_BaseDelay perFeed else rc_BaseDelay global),
      MaxDelay = (if rc_MaxDelay perFeed \<noteq> 0 then rc_MaxDelay perFeed else rc_MaxDelay global),
      Retryable = Some IsRetryable\<rparr>"

fun factory_branches :: "registry \<Rightarrow> Config \<Rightarrow> string list \<Rightarrow> sinkBranch list result" where
  "factory_branches reg cfg [] = Inr []"
| "factory_branches reg cfg (name # names) =
     (case wrapSink reg cfg name of
        Inl err \<Rightarrow> Inl err
      | Inr wrapped \<Rightarrow>
          (case factory_branches reg cfg names of
             Inl err \<Rightarrow> Inl err
           | Inr bs \<Rightarrow> Inr (\<lparr>sbName = name, sbWrapped = wrapped\<rparr> # bs)))"

text \<open>The HTTP transport and SHA-256 are the arguments they are in \<open>Fetch\<close> and \<open>Detect\<close>.\<close>

definition newPipelineFactory ::
    "'s http_env \<Rightarrow> (string \<Rightarrow> string) \<Rightarrow> 's wired \<Rightarrow> Config \<Rightarrow> FeedConfig \<Rightarrow> 's pipeline result" where
  "newPipelineFactory http sha wd cfg fc =
     (case factory_branches (wdRegistry wd) cfg (ResolveFeedSinks fc) of
        Inl err \<Rightarrow> Inl (Errorf ''feed %s: %w'' [FStr (fc_URL fc), FWrap err])
      | Inr bs \<Rightarrow>
          Inr \<lparr>plCfg = fc, plSinks = bs, plFetcher = wdFetcher wd, plHTTP = http,
               plStore = wdStore wd, plCoord = wdCoord wd,
               plFetchRetry = effectiveFetchRetry (ht_Retry (cf_HTTP cfg)) (fd_Retry (fc_HTTP fc)),
               plSha = sha\<rparr>)"

subsection \<open>Feed sources (\<^verbatim>\<open>cmd/rss2msg/sources.go\<close>)\<close>

datatype source_options =
    FileSource (soName: string) (soPath: string)
  | PostgresSource (soName: string) (soDSN: string) (soTable: string) (soQuery: string)
      (soInterval: duration) (soTLS: "tls_options option")
  | HTTPSource (soName: string) (soURL: string) (soTimeout: duration)
      (soHeaders: "(string \<times> string) list") (soInterval: duration) (soTLS: "tls_options option")
  | KubernetesSource (soName: string) (soNamespace: string) (soLabelSelector: string)
      (soResync: duration) (soWriteStatus: bool) (soKubeconfig: string)

definition source_name :: "int \<Rightarrow> FeedSourceConfig \<Rightarrow> string" where
  "source_name i sc =
     (if fo_Name sc = [] then fo_Type sc @ ''['' @ itoa_nat (nat i) @ '']'' else fo_Name sc)"

text \<open>The options of a source that has to be opened; \<open>Inr None\<close> is a static entry.\<close>

definition sourceOptions :: "int \<Rightarrow> FeedSourceConfig \<Rightarrow> source_options option result" where
  "sourceOptions i sc =
     (let name = source_name i sc; ty = fo_Type sc; pg = fo_Postgres sc; h = fo_HTTP sc; k = fo_Kubernetes sc in
      if ty = ''static'' then Inr None
      else if ty = ''file'' then Inr (Some (FileSource name (fo_Path sc)))
      else if ty = ''postgres'' then
        Inr (Some (PostgresSource name (fp_DSN pg) (fp_Table pg) (fp_Query pg) (fo_Interval sc)
          (tls_from_pg (fp_TLS pg))))
      else if ty = ''http'' then
        Inr (Some (HTTPSource name (fh_URL h) (fh_Timeout h) (fh_Headers h) (fo_Interval sc)
          (tls_from_pg (fh_TLS h))))
      else if ty = ''kubernetes'' then
        Inr (Some (KubernetesSource name (kb_Namespace k) (kb_LabelSelector k) (kb_ResyncInterval k)
          (case kb_WriteStatus k of None \<Rightarrow> True | Some b \<Rightarrow> b) (kb_Kubeconfig k)))
      else Inl (Errorf ''feed_sources[%d]: unsupported type %q'' [FInt i, FStr ty]))"

text \<open>\<open>opn\<close> stands for the constructors of the source packages and \<open>cls\<close> for their \<^verbatim>\<open>Close\<close>;
  \<open>closers\<close> are the sources opened so far.\<close>

definition closeAll :: "(source_options \<Rightarrow> 's \<Rightarrow> 's) \<Rightarrow> source_options list \<Rightarrow> 's \<Rightarrow> 's" where
  "closeAll cls fns s = fold cls fns s"

fun sources_loop ::
    "(source_options \<Rightarrow> 's \<Rightarrow> 's Source result \<times> 's) \<Rightarrow> (source_options \<Rightarrow> 's \<Rightarrow> 's) \<Rightarrow> FeedConfig list \<Rightarrow>
     int \<Rightarrow> FeedSourceConfig list \<Rightarrow> 's Source list \<Rightarrow> source_options list \<Rightarrow> 's \<Rightarrow>
     ('s Source list \<times> source_options list) result \<times> 's" where
  "sources_loop opn cls feeds i [] srcs closers s = (Inr (srcs, closers), s)"
| "sources_loop opn cls feeds i (sc # scs) srcs closers s =
     (case sourceOptions i sc of
        Inl err \<Rightarrow> (Inl err, closeAll cls closers s)
      | Inr None \<Rightarrow>
          sources_loop opn cls feeds (i + 1) scs (srcs @ [NewStatic (source_name i sc) feeds]) closers s
      | Inr (Some opts) \<Rightarrow>
          (case opn opts s of
             (Inl err, s1) \<Rightarrow> (Inl err, closeAll cls closers s1)
           | (Inr src, s1) \<Rightarrow>
               sources_loop opn cls feeds (i + 1) scs (srcs @ [src]) (closers @ [opts]) s1))"

definition buildSources ::
    "(source_options \<Rightarrow> 's \<Rightarrow> 's Source result \<times> 's) \<Rightarrow> (source_options \<Rightarrow> 's \<Rightarrow> 's) \<Rightarrow> Config \<Rightarrow> 's \<Rightarrow>
     ('s Source list \<times> source_options list) result \<times> 's" where
  "buildSources opn cls cfg s =
     (if length (cf_FeedSources cfg) = 0
      then (Inr ([NewStatic ''static'' (cf_Feeds cfg)], []), s)
      else sources_loop opn cls (cf_Feeds cfg) 0 (cf_FeedSources cfg) [] [] s)"

fun build_pipelines :: "(FeedConfig \<Rightarrow> 'p result) \<Rightarrow> FeedConfig list \<Rightarrow> 'p list result" where
  "build_pipelines factory [] = Inr []"
| "build_pipelines factory (fc # fcs) =
     (case factory fc of
        Inl err \<Rightarrow> Inl err
      | Inr p \<Rightarrow> (case build_pipelines factory fcs of Inl err \<Rightarrow> Inl err | Inr ps \<Rightarrow> Inr (p # ps)))"

definition buildOneShotPipelines ::
    "(source_options \<Rightarrow> 's \<Rightarrow> 's Source result \<times> 's) \<Rightarrow> (source_options \<Rightarrow> 's \<Rightarrow> 's) \<Rightarrow>
     (FeedConfig \<Rightarrow> 'p result) \<Rightarrow> ctx \<Rightarrow> Config \<Rightarrow> 's \<Rightarrow> 'p list result \<times> 's" where
  "buildOneShotPipelines opn cls factory c cfg s =
     (case buildSources opn cls cfg s of
        (Inl err, s1) \<Rightarrow> (Inl err, s1)
      | (Inr (sources, closers), s1) \<Rightarrow>
          (case Snapshot c sources s1 of
             (Inl err, s2) \<Rightarrow> (Inl err, closeAll cls closers s2)
           | (Inr feeds, s2) \<Rightarrow> (build_pipelines factory feeds, closeAll cls closers s2)))"

subsection \<open>What the wiring produces\<close>

definition publisher_of :: "SinkConfig \<Rightarrow> publisher" where
  "publisher_of sc = (if sc_Driver sc = ''composite'' then Composite (sc_Name sc) else Driver (sc_Name sc))"

lemma pubName_publisher_of [simp]: "pubName (publisher_of sc) = sc_Name sc"
  by (simp add: publisher_of_def pubName_def)

lemma buildOptions_composite:
  "buildOptions rf sc = Inr opts \<Longrightarrow>
     is_CompositeOptions opts \<longleftrightarrow> sc_Driver sc = ''composite''"
  unfolding buildOptions_def Let_def
  by (simp split: if_split_asm sum.split_asm) (hypsubst, simp)+

lemma buildOptions_composite_name:
  "sc_Driver sc = ''composite'' \<Longrightarrow>
     buildOptions rf sc = Inr (CompositeOptions (sc_Name sc) (cm_Children (sc_Composite sc)))"
  by (simp add: buildOptions_def)

lemma buildPublisher_Inr:
  assumes "buildPublisher env sc w = (Inr p, w')"
  shows "p = publisher_of sc" "snd w' = snd w @ [Opened (RSink (sc_Name sc))]"
proof -
  from assms obtain opts where o: "buildOptions (weReadFile env) sc = Inr opts"
    by (auto simp: buildPublisher_def split: sum.splits)
  show "p = publisher_of sc" "snd w' = snd w @ [Opened (RSink (sc_Name sc))]"
    using assms o buildOptions_composite [OF o] buildOptions_composite_name [of sc "weReadFile env"]
    by (auto simp: buildPublisher_def composite_New_def publisher_of_def pubName_def log_event_def
        split: if_splits sum.splits prod.splits option.splits)
qed

lemma buildPublisher_Inl: "buildPublisher env sc w = (Inl err, w') \<Longrightarrow> snd w' = snd w"
  by (auto simp: buildPublisher_def split: if_splits sum.splits prod.splits option.splits)

text \<open>The registry after \<open>n\<close> sinks, and what has been opened.\<close>

lemma build_sinks_log:
  assumes "build_sinks env scs reg w = (r, reg', w')" "\<forall>(n, p)\<in>set reg. pubName p = n"
    and "distinct (map fst reg @ map sc_Name scs)"
  shows "\<exists>k\<le>length scs. reg' = reg @ map (\<lambda>sc. (sc_Name sc, publisher_of sc)) (take k scs) \<and>
    snd w' = snd w @ map (\<lambda>sc. Opened (RSink (sc_Name sc))) (take k scs) \<and> (r = None \<longrightarrow> k = length scs)"
  using assms
proof (induction env scs reg w rule: build_sinks.induct)
  case (1 env reg w)
  then show ?case by auto
next
  case (2 env sc scs reg w)
  obtain b w1 where b: "buildPublisher env sc w = (b, w1)" by (metis prod.collapse)
  show ?case
  proof (cases b)
    case (Inl err)
    with b "2.prems"(1) buildPublisher_Inl [of env sc w err w1] show ?thesis
      by (intro exI [of _ 0]) auto
  next
    case (Inr p)
    note p = buildPublisher_Inr [OF b [unfolded Inr]]
    have "registry_Add reg p = Inr (reg @ [(sc_Name sc, publisher_of sc)])"
      using "2.prems"(3) by (auto simp: registry_Add_def registry_Get_def p(1) map_of_eq_None_iff)
    with "2.prems" b Inr "2.IH" [OF b [symmetric] Inr this] obtain k where
      "k \<le> length scs"
      "reg' = (reg @ [(sc_Name sc, publisher_of sc)]) @ map (\<lambda>sc. (sc_Name sc, publisher_of sc)) (take k scs)"
      "snd w' = snd w1 @ map (\<lambda>sc. Opened (RSink (sc_Name sc))) (take k scs)" "r = None \<longrightarrow> k = length scs"
      by auto
    with p(2) show ?thesis by (intro exI [of _ "Suc k"]) auto
  qed
qed

subsection \<open>What is opened is closed\<close>

definition balanced :: "wire_event list \<Rightarrow> bool" where
  "balanced l \<longleftrightarrow> (\<forall>x. count_list l (Opened x) = count_list l (Closed x))"

lemma close_resource_log [simp]: "snd (snd (close_resource env r w)) = snd w @ [Closed r]"
  by (simp add: close_resource_def split: prod.split)

lemma registry_Close_log:
  "snd (snd (registry_Close (\<lambda>p. close_resource env (RSink (pubName p))) ps err w)) =
     snd w @ map (\<lambda>p. Closed (RSink (pubName p))) ps"
  by (induction ps arbitrary: err w) (auto simp: close_resource_def split: prod.splits)

lemma close_registry_log:
  "snd (close_registry env reg w) =
     snd w @ map (\<lambda>p. Closed (RSink (pubName p))) (weOrder env (registry_All reg))"
  by (simp add: close_registry_def registry_Close_log)

lemma count_list_mset: "count_list xs x = count (mset xs) x"
  by (induction xs) auto

lemma count_closed_opened:
  assumes "mset (order (map g xs)) = mset (map g xs)"
  shows "count_list (map (\<lambda>p. Closed (RSink (f p))) (order (map g xs))) (Closed x) =
    count_list (map (\<lambda>a. Opened (RSink (f (g a)))) xs) (Opened x)"
    "count_list (map (\<lambda>p. Closed (RSink (f p))) (order (map g xs))) (Opened x) = 0"
    "count_list (map (\<lambda>a. Opened (RSink (f (g a)))) xs) (Closed x) = 0"
proof -
  have "mset (map (\<lambda>p. Closed (RSink (f p))) (order (map g xs))) =
      mset (map (\<lambda>p. Closed (RSink (f p))) (map g xs))"
    using assms by (metis mset_map)
  then have "count_list (map (\<lambda>p. Closed (RSink (f p))) (order (map g xs))) (Closed x) =
      count_list (map (\<lambda>p. Closed (RSink (f p))) (map g xs)) (Closed x)"
    by (simp only: count_list_mset)
  also have "\<dots> = count_list (map (\<lambda>a. Opened (RSink (f (g a)))) xs) (Opened x)"
    by (induction xs) auto
  finally show "count_list (map (\<lambda>p. Closed (RSink (f p))) (order (map g xs))) (Closed x) =
    count_list (map (\<lambda>a. Opened (RSink (f (g a)))) xs) (Opened x)" .
  show "count_list (map (\<lambda>p. Closed (RSink (f p))) (order (map g xs))) (Opened x) = 0"
    by (rule count_list_0_iff [THEN iffD2]) auto
  show "count_list (map (\<lambda>a. Opened (RSink (f (g a)))) xs) (Closed x) = 0"
    by (rule count_list_0_iff [THEN iffD2]) auto
qed

text \<open>The undo path and the final \<^verbatim>\<open>Close\<close>, for the sinks \<open>scs\<close> that were registered.\<close>

lemma balanced_closed:
  assumes "\<And>ps. mset (weOrder env ps) = mset ps"
    and "registry_All reg = map publisher_of scs"
    and "l = Opened RStore # map (\<lambda>sc. Opened (RSink (sc_Name sc))) scs"
  shows "balanced (l @ map (\<lambda>p. Closed (RSink (pubName p))) (weOrder env (registry_All reg)) @ [Closed RStore])"
    "balanced (l @ [Opened RCoord, Closed RCoord] @
       map (\<lambda>p. Closed (RSink (pubName p))) (weOrder env (registry_All reg)) @ [Closed RStore])"
    "balanced (l @ [Opened RCoord] @
       map (\<lambda>p. Closed (RSink (pubName p))) (weOrder env (registry_All reg)) @ [Closed RCoord, Closed RStore])"
  using count_closed_opened [where order = "weOrder env" and f = pubName and g = publisher_of and xs = scs,
      OF assms(1)]
  by (auto simp: balanced_def assms(2,3))

lemma wireAll_log:
  assumes d: "distinct (map sc_Name (cf_Sinks cfg))" and o: "\<And>ps. mset (weOrder env ps) = mset ps"
    and "wireAll env cfg (s, []) = (r, w')"
  shows "case r of
      Inl err \<Rightarrow> balanced (snd w')
    | Inr wd \<Rightarrow>
        snd w' = Opened RStore # map (\<lambda>sc. Opened (RSink (sc_Name sc))) (cf_Sinks cfg) @ [Opened RCoord] \<and>
        wdRegistry wd = map (\<lambda>sc. (sc_Name sc, publisher_of sc)) (cf_Sinks cfg) \<and>
        linkComposites (wdRegistry wd) cfg = Inr (wdBranches wd)"
proof -
  obtain st w1 where st: "new_store env (cf_State cfg) (s, []) = (st, w1)" by (metis prod.collapse)
  show ?thesis
  proof (cases st)
    case (Inl err)
    with assms(3) st show ?thesis
      by (auto simp: wireAll_def new_store_def balanced_def log_event_def
          split: sum.splits prod.splits)
  next
    case (Inr store)
    with st have w1: "snd w1 = [Opened RStore]"
      by (auto simp: new_store_def log_event_def split: sum.splits prod.splits)
    obtain e reg w2 where b: "build_sinks env (cf_Sinks cfg) NewRegistry w1 = (e, reg, w2)"
      by (metis prod.collapse)
    from build_sinks_log [OF b] d obtain k where k:
      "reg = map (\<lambda>sc. (sc_Name sc, publisher_of sc)) (take k (cf_Sinks cfg))"
      "snd w2 = Opened RStore # map (\<lambda>sc. Opened (RSink (sc_Name sc))) (take k (cf_Sinks cfg))"
      "e = None \<longrightarrow> k = length (cf_Sinks cfg)"
      by (auto simp: NewRegistry_def w1)
    have all: "registry_All reg = map publisher_of (take k (cf_Sinks cfg))"
      by (simp add: registry_All_def k(1))
    note bal = balanced_closed [OF o all k(2)]
    have co: "snd w3 = snd w2 @ (if isl cd then [] else [Opened RCoord])"
      if "new_coordinator env cfg w2 = (cd, w3)" for cd w3
      using that by (auto simp: new_coordinator_def log_event_def split: sum.splits prod.splits if_splits)
    from assms(3) st Inr b bal k co show ?thesis
      by (auto simp: wireAll_def Let_def close_registry_log split: sum.splits prod.splits option.splits)
  qed
qed

subsection \<open>References resolve\<close>

definition registry_of :: "Config \<Rightarrow> registry" where
  "registry_of c = map (\<lambda>sc. (sc_Name sc, publisher_of sc)) (cf_Sinks c)"

lemma registry_of_Get:
  assumes "distinct (map sc_Name (cf_Sinks c))"
  shows "registry_Get (registry_of c) n = Some p \<longleftrightarrow>
    (\<exists>sc\<in>set (cf_Sinks c). sc_Name sc = n \<and> p = publisher_of sc)"
proof -
  have "distinct (map fst (registry_of c))" using assms by (simp add: registry_of_def comp_def)
  then have "map_of (registry_of c) n = Some p \<longleftrightarrow> (n, p) \<in> set (registry_of c)"
    by (rule map_of_eq_Some_iff)
  then show ?thesis by (auto simp: registry_Get_def registry_of_def)
qed

lemma findSink_in:
  "distinct (map sc_Name scs) \<Longrightarrow> sc \<in> set scs \<Longrightarrow> findSink scs (sc_Name sc) = sc"
  by (induction scs) auto

lemma wrapSink_eq:
  assumes "distinct (map sc_Name (cf_Sinks c))" "sc \<in> set (cf_Sinks c)"
  shows "\<exists>rp. wrapSink (registry_of c) c (sc_Name sc) = Inr rp \<and> primary rp = publisher_of sc \<and>
    (if sc_Driver sc = ''composite'' then dlq rp = None \<and> MaxAttempts (rpCfg rp) = 1
     else dlq rp = (if sc_DeadLetter sc = [] then None else registry_Get (registry_of c) (sc_DeadLetter sc)) \<and>
       MaxAttempts (rpCfg rp) = rc_MaxAttempts (cf_Retry c))"
proof -
  have "registry_Get (registry_of c) (sc_Name sc) = Some (publisher_of sc)"
    using assms registry_of_Get by blast
  then show ?thesis
    using findSink_in [OF assms] by (simp add: wrapSink_def WithRetry_def Let_def)
qed

lemma wrap_children_ok:
  assumes "\<And>n. n \<in> set cs \<Longrightarrow> \<exists>rp. wrapSink reg c n = Inr rp"
  shows "\<exists>bs. wrap_children reg c own cs = Inr bs \<and> map brName bs = cs \<and>
    (\<forall>b\<in>set bs. wrapSink reg c (brName b) = Inr (Wrapped b))"
  using assms
proof (induction cs)
  case (Cons n cs)
  then obtain rp bs where "wrapSink reg c n = Inr rp" "wrap_children reg c own cs = Inr bs"
    "map brName bs = cs" "\<forall>b\<in>set bs. wrapSink reg c (brName b) = Inr (Wrapped b)"
    by fastforce
  then show ?case by auto
qed simp

lemma factory_branches_ok:
  assumes "\<And>n. n \<in> set ns \<Longrightarrow> \<exists>rp. wrapSink reg c n = Inr rp"
  shows "\<exists>bs. factory_branches reg c ns = Inr bs \<and> map sbName bs = ns \<and>
    (\<forall>b\<in>set bs. wrapSink reg c (sbName b) = Inr (sbWrapped b))"
  using assms
proof (induction ns)
  case (Cons n ns)
  then obtain rp bs where "wrapSink reg c n = Inr rp" "factory_branches reg c ns = Inr bs"
    "map sbName bs = ns" "\<forall>b\<in>set bs. wrapSink reg c (sbName b) = Inr (sbWrapped b)"
    by fastforce
  then show ?case by auto
qed simp

lemma link_loop_branches:
  assumes "link_loop reg c scs = Inr brs" "map_of brs n = Some bs"
  shows "\<exists>sc\<in>set scs. sc_Driver sc = ''composite'' \<and> registry_Get reg (sc_Name sc) = Some (Composite n) \<and>
    wrap_children reg c (sc_Name sc) (cm_Children (sc_Composite sc)) = Inr bs"
  using assms
  by (induction reg c scs arbitrary: brs rule: link_loop.induct)
    (fastforce split: if_splits option.splits publisher.splits sum.splits)+

lemma link_loop_ok:
  assumes "\<And>sc. sc \<in> set scs \<Longrightarrow> sc_Driver sc = ''composite'' \<Longrightarrow>
      registry_Get reg (sc_Name sc) = Some (Composite (sc_Name sc)) \<and>
      (\<exists>bs. wrap_children reg c (sc_Name sc) (cm_Children (sc_Composite sc)) = Inr bs)"
  shows "\<exists>brs. link_loop reg c scs = Inr brs \<and>
    map fst brs = map sc_Name (filter (\<lambda>sc. sc_Driver sc = ''composite'') scs)"
  using assms
proof (induction scs)
  case (Cons sc scs)
  then obtain brs where "link_loop reg c scs = Inr brs"
    "map fst brs = map sc_Name (filter (\<lambda>sc. sc_Driver sc = ''composite'') scs)" by fastforce
  with Cons.prems [of sc] show ?case by (cases "sc_Driver sc = ''composite''") auto
qed simp

subsection \<open>The wired program\<close>

lemma wireAll_Inr:
  assumes "distinct (map sc_Name (cf_Sinks c))" "wireAll env c (s, []) = (Inr wd, w')"
  shows "wdRegistry wd = registry_of c" "linkComposites (registry_of c) c = Inr (wdBranches wd)"
proof -
  from assms(2) obtain w1 w2 where b: "build_sinks env (cf_Sinks c) NewRegistry w1 = (None, wdRegistry wd, w2)"
    and l: "linkComposites (wdRegistry wd) c = Inr (wdBranches wd)"
    by (auto simp: wireAll_def Let_def split: sum.splits prod.splits option.splits)
  from build_sinks_log [OF b] assms(1) show r: "wdRegistry wd = registry_of c"
    by (auto simp: NewRegistry_def registry_of_def)
  from l r show "linkComposites (registry_of c) c = Inr (wdBranches wd)" by simp
qed

definition wired_env :: "'s sink_env \<Rightarrow> (string \<times> Branch list) list \<Rightarrow> 's sink_env" where
  "wired_env env brs = env\<lparr>branches := \<lambda>n. case map_of brs n of Some bs \<Rightarrow> bs | None \<Rightarrow> []\<rparr>"

text \<open>No dead letter is a composite.\<close>

definition dead_letters_leave :: "Config \<Rightarrow> bool" where
  "dead_letters_leave c \<longleftrightarrow> (\<forall>s\<in>set (cf_Sinks c). \<forall>t\<in>set (cf_Sinks c).
     sc_DeadLetter s = sc_Name t \<longrightarrow> sc_Driver t \<noteq> ''composite'')"

definition sink_rank :: "(string \<times> string list) list \<Rightarrow> publisher \<Rightarrow> nat" where
  "sink_rank ch p = (case p of
     Driver n \<Rightarrow> 0 | Composite n \<Rightarrow> Suc (card {m. (n, m) \<in> (composite_edges ch)\<^sup>+}))"

lemma reachable_composites: "{m. (n, m) \<in> (composite_edges ch)\<^sup>+} \<subseteq> fst ` set ch"
proof
  fix m
  assume "m \<in> {m. (n, m) \<in> (composite_edges ch)\<^sup>+}"
  then have "(n, m) \<in> (composite_edges ch)\<^sup>+" by simp
  then show "m \<in> fst ` set ch"
    by (cases rule: trancl.cases) (auto simp: composite_edges_def map_of_eq_None_iff)
qed

lemma sink_rank_edge:
  assumes "acyclic (composite_edges ch)" "(n, m) \<in> composite_edges ch"
  shows "sink_rank ch (Composite m) < sink_rank ch (Composite n)"
proof -
  have "{k. (m, k) \<in> (composite_edges ch)\<^sup>+} \<subset> {k. (n, k) \<in> (composite_edges ch)\<^sup>+}"
    using assms by (auto simp: acyclic_def intro: trancl_into_trancl2)
  then show ?thesis
    using finite_subset [OF reachable_composites] by (simp add: sink_rank_def psubset_card_mono)
qed

lemma sink_rank_le: "sink_rank (compositeChildren scs) p \<le> Suc (length scs)"
proof -
  have "card {m. (n, m) \<in> (composite_edges (compositeChildren scs))\<^sup>+} \<le> length scs" for n
  proof -
    have "card {m. (n, m) \<in> (composite_edges (compositeChildren scs))\<^sup>+} \<le>
        card (fst ` set (compositeChildren scs))"
      by (rule card_mono) (simp_all add: reachable_composites)
    also have "\<dots> \<le> length (compositeChildren scs)"
      by (metis card_length length_map list.set_map)
    also have "\<dots> \<le> length scs" by (simp add: compositeChildren_def)
    finally show ?thesis .
  qed
  then show ?thesis by (simp add: sink_rank_def split: publisher.split)
qed

lemma accepted_distinct: "snd (Validate env c) = None \<Longrightarrow> distinct (map sc_Name (cf_Sinks c))"
  by (intro validate_sinks_ok(2)) (rule Validate_sections(1))

lemma accepted_wrapSink:
  assumes "snd (Validate venv c) = None" "n \<in> sc_Name ` set (cf_Sinks c)"
  shows "\<exists>rp. wrapSink (registry_of c) c n = Inr rp"
  using wrapSink_eq [OF accepted_distinct [OF assms(1)]] assms(2) by blast

lemma wired_branch:
  assumes "snd (Validate venv c) = None" "linkComposites (registry_of c) c = Inr brs"
    and "b \<in> set (branches (wired_env env brs) n)"
  shows "\<exists>sc\<in>set (cf_Sinks c). \<exists>t\<in>set (cf_Sinks c). sc_Driver sc = ''composite'' \<and> sc_Name sc = n \<and>
    sc_Name t \<in> set (cm_Children (sc_Composite sc)) \<and> wrapSink (registry_of c) c (sc_Name t) = Inr (Wrapped b)"
proof -
  note d = accepted_distinct [OF assms(1)]
  from assms(3) obtain bs where "map_of brs n = Some bs" and b: "b \<in> set bs"
    by (cases "map_of brs n") (auto simp: wired_env_def)
  with link_loop_branches assms(2) obtain sc where sc: "sc \<in> set (cf_Sinks c)"
    "sc_Driver sc = ''composite''" "registry_Get (registry_of c) (sc_Name sc) = Some (Composite n)"
    "wrap_children (registry_of c) c (sc_Name sc) (cm_Children (sc_Composite sc)) = Inr bs"
    unfolding linkComposites_def by metis
  from sc(3) registry_of_Get [OF d] have n: "sc_Name sc = n"
    by (auto simp: publisher_of_def split: if_splits)
  have kids: "set (cm_Children (sc_Composite sc)) \<subseteq> sc_Name ` set (cf_Sinks c)"
    using accepted_composites [OF assms(1) sc(1,2)] by blast
  then have "\<exists>rp. wrapSink (registry_of c) c k = Inr rp" if "k \<in> set (cm_Children (sc_Composite sc))" for k
    using accepted_wrapSink [OF assms(1)] that by blast
  from wrap_children_ok [of "cm_Children (sc_Composite sc)", OF this, of "sc_Name sc"] sc(4)
  have bs: "map brName bs = cm_Children (sc_Composite sc)"
    "\<forall>b\<in>set bs. wrapSink (registry_of c) c (brName b) = Inr (Wrapped b)" by auto
  from b have "brName b \<in> set (map brName bs)" by simp
  with bs(1) have kid: "brName b \<in> set (cm_Children (sc_Composite sc))" by simp
  with kids obtain t where "t \<in> set (cf_Sinks c)" "sc_Name t = brName b" by auto
  with kid bs(2) b sc(1,2) n show ?thesis by metis
qed

lemma accepted_link:
  assumes "snd (Validate venv c) = None"
  shows "\<exists>brs. linkComposites (registry_of c) c = Inr brs \<and>
    map fst brs = map sc_Name (filter (\<lambda>sc. sc_Driver sc = ''composite'') (cf_Sinks c))"
  unfolding linkComposites_def
proof (rule link_loop_ok, rule conjI)
  fix sc
  assume sc: "sc \<in> set (cf_Sinks c)" "sc_Driver sc = ''composite''"
  then show "registry_Get (registry_of c) (sc_Name sc) = Some (Composite (sc_Name sc))"
    using registry_of_Get [OF accepted_distinct [OF assms]] by (auto simp: publisher_of_def)
  have "set (cm_Children (sc_Composite sc)) \<subseteq> sc_Name ` set (cf_Sinks c)"
    using accepted_composites [OF assms sc] by blast
  with accepted_wrapSink [OF assms] show
    "\<exists>bs. wrap_children (registry_of c) c (sc_Name sc) (cm_Children (sc_Composite sc)) = Inr bs"
    using wrap_children_ok [of "cm_Children (sc_Composite sc)" "registry_of c" c "sc_Name sc"] by blast
qed

lemma wired_rank:
  assumes "snd (Validate venv c) = None" "dead_letters_leave c"
    and "linkComposites (registry_of c) c = Inr brs" "b \<in> set (branches (wired_env env brs) n)"
  defines "rank \<equiv> sink_rank (compositeChildren (cf_Sinks c))"
  shows "rank (primary (Wrapped b)) < rank (Composite n) \<and>
    (\<forall>q. dlq (Wrapped b) = Some q \<longrightarrow> rank q < rank (Composite n))"
proof -
  note d = accepted_distinct [OF assms(1)]
  from wired_branch [OF assms(1,3,4)] obtain sc t where sc: "sc \<in> set (cf_Sinks c)"
    "sc_Driver sc = ''composite''" "sc_Name sc = n" and t: "t \<in> set (cf_Sinks c)"
    "sc_Name t \<in> set (cm_Children (sc_Composite sc))" "wrapSink (registry_of c) c (sc_Name t) = Inr (Wrapped b)"
    by blast
  have kid: "rank (publisher_of t) < rank (Composite n)"
  proof (cases "sc_Driver t = ''composite''")
    case True
    then have "(n, sc_Name t) \<in> composite_edges (compositeChildren (cf_Sinks c))"
      using composite_children_edge [OF d sc(1,2)] composite_children_edge [OF d t(1)] sc(3) t(2)
      by (auto simp: composite_edges_def children_of_def)
    with sink_rank_edge [OF accepted_acyclic [OF assms(1)]] True show ?thesis
      by (simp add: rank_def publisher_of_def)
  next
    case False
    then show ?thesis by (simp add: rank_def publisher_of_def sink_rank_def)
  qed
  have "rank q < rank (Composite n)" if q: "registry_Get (registry_of c) (sc_DeadLetter t) = Some q" for q
  proof -
    from q registry_of_Get [OF d] obtain u where "u \<in> set (cf_Sinks c)" "sc_Name u = sc_DeadLetter t"
      "q = publisher_of u" by blast
    with assms(2) t(1) show ?thesis
      by (auto simp: dead_letters_leave_def publisher_of_def rank_def sink_rank_def)
  qed
  with kid wrapSink_eq [OF d t(1)] t(3) show ?thesis by (auto split: if_splits)
qed

lemma wired_publish_returns:
  assumes "snd (Validate venv c) = None" "dead_letters_leave c"
    and "linkComposites (registry_of c) c = Inr brs"
  shows "Publish (length (cf_Sinks c) + 2) rt (wired_env env brs) p cx ch s \<noteq> None"
proof -
  have "\<exists>err s'. Publish (length (cf_Sinks c) + 2) rt (wired_env env brs) p cx ch s = Some (err, s')"
  proof (rule Publish_returns [where rank = "sink_rank (compositeChildren (cf_Sinks c))"])
    show "sink_rank (compositeChildren (cf_Sinks c)) p < length (cf_Sinks c) + 2"
      using sink_rank_le [of "cf_Sinks c" p] by simp
  qed (rule wired_rank [OF assms])
  then show ?thesis by auto
qed

lemma factory_ok:
  assumes "snd (Validate venv c) = None" "wireAll wenv c (s0, []) = (Inr wd, w')"
    and "set (ResolveFeedSinks f) \<subseteq> sc_Name ` set (cf_Sinks c)"
  shows "\<exists>p. newPipelineFactory http sha wd c f = Inr p \<and> plCfg p = f \<and> map sbName (plSinks p) = ResolveFeedSinks f \<and>
    plStore p = wdStore wd \<and> plCoord p = wdCoord wd \<and>
    (\<forall>b\<in>set (plSinks p). wrapSink (registry_of c) c (sbName b) = Inr (sbWrapped b))"
proof -
  have "\<exists>rp. wrapSink (registry_of c) c n = Inr rp" if "n \<in> set (ResolveFeedSinks f)" for n
    using accepted_wrapSink [OF assms(1)] assms(3) that by blast
  from factory_branches_ok [of "ResolveFeedSinks f", OF this] obtain bs where
    "factory_branches (registry_of c) c (ResolveFeedSinks f) = Inr bs" "map sbName bs = ResolveFeedSinks f"
    "\<forall>b\<in>set bs. wrapSink (registry_of c) c (sbName b) = Inr (sbWrapped b)" by blast
  then show ?thesis
    by (simp add: newPipelineFactory_def wireAll_Inr(1) [OF accepted_distinct [OF assms(1)] assms(2)])
qed

lemma wired_first_branch:
  assumes "snd (Validate venv c) = None" "linkComposites (registry_of c) c = Inr brs"
    and "sc \<in> set (cf_Sinks c)" "sc_Driver sc = ''composite''" "cm_Children (sc_Composite sc) = m # rest"
  shows "\<exists>b bs. branches (wired_env env brs) (sc_Name sc) = b # bs \<and> wrapSink (registry_of c) c m = Inr (Wrapped b)"
proof -
  note d = accepted_distinct [OF assms(1)]
  have "map fst brs = map sc_Name (filter (\<lambda>sc. sc_Driver sc = ''composite'') (cf_Sinks c))"
    using accepted_link [OF assms(1)] assms(2) by simp
  then have "fst ` set brs = sc_Name ` {sc \<in> set (cf_Sinks c). sc_Driver sc = ''composite''}"
    by (metis list.set_map set_filter)
  with assms(3,4) have "sc_Name sc \<in> fst ` set brs" by simp
  then obtain bs where bs: "map_of brs (sc_Name sc) = Some bs"
    by (cases "map_of brs (sc_Name sc)") (auto simp: map_of_eq_None_iff)
  from link_loop_branches [OF assms(2) [unfolded linkComposites_def] bs] obtain sc' where sc':
    "sc' \<in> set (cf_Sinks c)" "registry_Get (registry_of c) (sc_Name sc') = Some (Composite (sc_Name sc))"
    "wrap_children (registry_of c) c (sc_Name sc') (cm_Children (sc_Composite sc')) = Inr bs" by blast
  from sc'(1,2) registry_of_Get [OF d] have "sc_Name sc' = sc_Name sc"
    by (auto simp: publisher_of_def split: if_splits)
  with sc'(1) assms(3) d have "sc' = sc" by (metis findSink_in)
  with sc'(3) assms(5) bs show ?thesis
    by (auto simp: wired_env_def split: sum.splits)
qed

subsection \<open>A wired sample\<close>

definition toy_store :: "nat Store" where
  "toy_store = \<lparr>GetItem = (\<lambda>c u i s. (Inr None, s)), UpsertItem = (\<lambda>c u i h t s. (None, s)),
     PruneItemsBefore = (\<lambda>c t s. (0, None, s)), PruneFeedMetaBefore = (\<lambda>c t s. (0, None, s)),
     GetFeedMeta = (\<lambda>c u s. (Inr None, s)), UpsertFeedMeta = (\<lambda>c u m s. (None, s))\<rparr>"

definition toy_wire :: "go_error option \<Rightarrow> nat wire_env" where
  "toy_wire instr = \<lparr>weReadFile = (\<lambda>_. Inl Canceled), weNewStore = (\<lambda>_ s. (Inr toy_store, s)),
     weNewSink = (\<lambda>_ s. (None, s)), weNewCoord = (\<lambda>_ s. (Inl Canceled, s)),
     weCompositeInstruments = (\<lambda>_. None), weInstruments = instr, weClose = (\<lambda>_ s. (None, s)),
     weOrder = rev\<rparr>"

definition sample_sinks :: "string \<Rightarrow> SinkConfig list" where
  "sample_sinks dead = [composite_sink ''c'' [''a''], stdout_sink ''a'' dead]"

lemma sample_wires:
  "\<exists>wd w'. wireAll (toy_wire None) (sample_config (sample_sinks dead)) (0, []) = (Inr wd, w')"
  by (simp add: wireAll_def new_store_def openStateStore_def sample_config_def sample_sinks_def
      composite_sink_def stdout_sink_def zero_defs Defaults_def buildPublisher_def buildOptions_def
      toy_wire_def composite_New_def registry_Add_def registry_Get_def pubName_def NewRegistry_def
      linkComposites_def wrapSink_def new_coordinator_def openCoordinator_def log_event_def Let_def)

lemma sample_feed: "zero_FeedConfig\<lparr>fc_URL := ''u'', fc_Interval := minute, fc_Sinks := [''c'']\<rparr> \<in>
    set (cf_Feeds (sample_config sinks))"
  by (simp add: sample_config_def)

lemma sample_config_Sinks: "cf_Sinks (sample_config sinks) = sinks"
  by (simp add: sample_config_def)

lemmas sample_ok = sample_accepted [folded sample_sinks_def] sample_loop_accepted [folded sample_sinks_def]

subsection \<open>Properties\<close>

text \<open>C13: a program wired from an accepted configuration in which no dead letter is a composite never hangs
  in its sinks: the factory builds the pipeline of every configured feed, and a poll of it returns,
  whatever the drivers, the servers, the store and the clock do.  Fuel above the number of sinks is
  enough.\<close>

theorem accepted_polls_return:
  assumes "snd (Validate venv c) = None" "dead_letters_leave c"
    and "wireAll wenv c (s0, []) = (Inr wd, w')" "f \<in> set (cf_Feeds c)"
  shows "\<exists>p. newPipelineFactory http sha wd c f = Inr p \<and>
    (\<forall>rt env cx u now s.
       RunOnce rt (Deliver rt (wired_env env (wdBranches wd))
         (Publish (length (cf_Sinks c) + 2) rt (wired_env env (wdBranches wd)))) p cx u now s \<noteq> None)"
proof -
  have link: "linkComposites (registry_of c) c = Inr (wdBranches wd)"
    by (rule wireAll_Inr(2) [OF accepted_distinct [OF assms(1)] assms(3)])
  have "set (ResolveFeedSinks f) \<subseteq> sc_Name ` set (cf_Sinks c)"
    using accepted_feed [OF assms(1,4)] by blast
  from factory_ok [OF assms(1,3) this] obtain p where "newPipelineFactory http sha wd c f = Inr p" by blast
  moreover have "RunOnce rt (Deliver rt (wired_env env (wdBranches wd))
      (Publish (length (cf_Sinks c) + 2) rt (wired_env env (wdBranches wd)))) p cx u now s \<noteq> None"
    for rt env cx u now s
    by (intro RunOnce_total Deliver_total wired_publish_returns [OF assms(1,2) link])
  ultimately show ?thesis by blast
qed

theorem accepted_polls_return_witness:
  "\<exists>(wd :: nat wired) p. \<forall>rt env cx u now s.
     RunOnce rt (Deliver rt (wired_env env (wdBranches wd))
       (Publish (length (sample_sinks []) + 2) rt (wired_env env (wdBranches wd)))) p cx u now (s :: nat) \<noteq> None"
proof -
  obtain wd w' where w: "wireAll (toy_wire None) (sample_config (sample_sinks [])) (0, []) = (Inr wd, w')"
    using sample_wires by blast
  have "dead_letters_leave (sample_config (sample_sinks []))"
    by (simp add: dead_letters_leave_def sample_config_def sample_sinks_def composite_sink_def
        stdout_sink_def zero_defs)
  from accepted_polls_return [OF sample_ok(1) this w sample_feed, of toy_env id] show ?thesis
    unfolding sample_config_Sinks by blast
qed

text \<open>C15: validation does not exclude a dead letter that leads back into a composite, and such a program
  hangs.  In a program wired from an accepted configuration, if the first child of a composite has that
  composite as its dead letter and its driver fails, then publishing to the composite never returns,
  however much fuel the recursion is given.\<close>

theorem wired_dead_letter_cycle_hangs:
  assumes "snd (Validate venv c) = None" "wireAll wenv c (s0, []) = (Inr wd, w')"
    and "sc \<in> set (cf_Sinks c)" "sc_Driver sc = ''composite''" "cm_Children (sc_Composite sc) = sc_Name t # rest"
    and "t \<in> set (cf_Sinks c)" "sc_Driver t \<noteq> ''composite''" "sc_DeadLetter t = sc_Name sc"
    and "\<And>cx ch s. fst (leaf_publish env (sc_Name t) cx ch s) \<noteq> None"
  shows "Publish k rt (wired_env env (wdBranches wd)) (Composite (sc_Name sc)) cx ch s = None"
proof -
  note d = accepted_distinct [OF assms(1)]
  have link: "linkComposites (registry_of c) c = Inr (wdBranches wd)"
    by (rule wireAll_Inr(2) [OF d assms(2)])
  from wired_first_branch [OF assms(1) link assms(3-5)] obtain b bs where b:
    "branches (wired_env env (wdBranches wd)) (sc_Name sc) = b # bs"
    "wrapSink (registry_of c) c (sc_Name t) = Inr (Wrapped b)" by blast
  have "sc_Name sc \<noteq> []"
    using validate_sinks_ok(3) [OF Validate_sections(1) [OF assms(1)] assms(3)] by (auto simp: blank_def TrimSpace_def)
  moreover have "registry_Get (registry_of c) (sc_Name sc) = Some (Composite (sc_Name sc))"
    using registry_of_Get [OF d] assms(3,4) by (auto simp: publisher_of_def)
  ultimately have "primary (Wrapped b) = Driver (sc_Name t)" "dlq (Wrapped b) = Some (Composite (sc_Name sc))"
    using wrapSink_eq [OF d assms(6)] b(2) assms(7,8) by (auto simp: publisher_of_def)
  then show ?thesis
    using assms(9) by (intro Publish_cycle_diverges [OF b(1)]) (simp_all add: wired_env_def)
qed

theorem wired_dead_letter_cycle_hangs_witness:
  "snd (Validate plain_env (sample_config (sample_sinks ''c''))) = None \<and>
   (\<exists>wd :: nat wired. \<forall>k. Publish k quiet_rt
      (wired_env \<lparr>leaf_publish = (\<lambda>_ _ _ s. (Some Canceled, s)), branches = (\<lambda>_. []), sprintf = (\<lambda>f _. f)\<rparr> (wdBranches wd))
      (Composite ''c'') None toy_change 0 = None)"
proof -
  obtain wd w' where w: "wireAll (toy_wire None) (sample_config (sample_sinks ''c'')) (0, []) = (Inr wd, w')"
    using sample_wires by blast
  have "composite_sink ''c'' [''a''] \<in> set (cf_Sinks (sample_config (sample_sinks ''c'')))"
    "stdout_sink ''a'' ''c'' \<in> set (cf_Sinks (sample_config (sample_sinks ''c'')))"
    by (simp_all add: sample_config_def sample_sinks_def)
  note hang = wired_dead_letter_cycle_hangs [OF sample_ok(2) w this(1) _ _ this(2)]
  have "Publish k quiet_rt
      (wired_env \<lparr>leaf_publish = (\<lambda>_ _ _ s. (Some Canceled, s)), branches = (\<lambda>_. []), sprintf = (\<lambda>f _. f)\<rparr> (wdBranches wd))
      (Composite (sc_Name (composite_sink ''c'' [''a'']))) None toy_change 0 = None" for k
    by (rule hang) (simp_all add: composite_sink_def stdout_sink_def)
  with sample_ok(2) show ?thesis by (auto simp: composite_sink_def)
qed

text \<open>Wiring leaks nothing.  Started with nothing open and distinct sink names, \<^verbatim>\<open>wireAll\<close> either fails,
  and then everything it opened (store, sinks, coordinator) it has closed again, at whatever step it
  failed; or it succeeds with the store, every sink and the coordinator open and nothing closed, and
  then \<^verbatim>\<open>Close\<close> closes exactly these.\<close>

theorem wireAll_no_leak:
  assumes "distinct (map sc_Name (cf_Sinks c))" "\<And>ps. mset (weOrder env ps) = mset ps"
    and "wireAll env c (s, []) = (r, (s', l))"
  shows "case r of
      Inl err \<Rightarrow> \<forall>x. count_list l (Opened x) = count_list l (Closed x)
    | Inr wd \<Rightarrow>
        l = Opened RStore # map (\<lambda>sc. Opened (RSink (sc_Name sc))) (cf_Sinks c) @ [Opened RCoord] \<and>
        (\<forall>x. count_list (snd (wired_Close env wd (s', l))) (Opened x) =
             count_list (snd (wired_Close env wd (s', l))) (Closed x))"
proof (cases r)
  case (Inl err)
  with wireAll_log [OF assms] show ?thesis by (simp add: balanced_def)
next
  case (Inr wd)
  with wireAll_log [OF assms] have l:
    "l = Opened RStore # map (\<lambda>sc. Opened (RSink (sc_Name sc))) (cf_Sinks c) @ [Opened RCoord]"
    and "wdRegistry wd = map (\<lambda>sc. (sc_Name sc, publisher_of sc)) (cf_Sinks c)" by simp_all
  then have "registry_All (wdRegistry wd) = map publisher_of (cf_Sinks c)" by (simp add: registry_All_def)
  from balanced_closed(3) [OF assms(2) this refl] have "balanced (snd (wired_Close env wd (s', l)))"
    by (simp add: wired_Close_def close_registry_log l)
  with l Inr show ?thesis by (simp add: balanced_def)
qed

theorem wireAll_no_leak_witness:
  "\<exists>err s' l. wireAll (toy_wire (Some Canceled)) (sample_config (sample_sinks [])) (0, []) = (Inl err, (s', l)) \<and>
     l \<noteq> [] \<and> (\<forall>x. count_list l (Opened x) = count_list l (Closed x))"
proof -
  have "\<exists>err s' l. wireAll (toy_wire (Some Canceled)) (sample_config (sample_sinks [])) (0, []) = (Inl err, (s', l)) \<and> l \<noteq> []"
    by (simp add: wireAll_def new_store_def openStateStore_def sample_config_def sample_sinks_def
      composite_sink_def stdout_sink_def zero_defs Defaults_def buildPublisher_def buildOptions_def
      toy_wire_def composite_New_def registry_Add_def registry_Get_def pubName_def NewRegistry_def
      linkComposites_def wrapSink_def new_coordinator_def openCoordinator_def log_event_def Let_def
      close_resource_def close_registry_def registry_All_def)
  then obtain err s' l where w: "wireAll (toy_wire (Some Canceled)) (sample_config (sample_sinks [])) (0, []) =
      (Inl err, (s', l))" "l \<noteq> []" by blast
  have "distinct (map sc_Name (cf_Sinks (sample_config (sample_sinks []))))"
    by (simp add: sample_config_Sinks sample_sinks_def composite_sink_def stdout_sink_def)
  from wireAll_no_leak [OF this _ w(1)] have "\<forall>x. count_list l (Opened x) = count_list l (Closed x)"
    by (simp add: toy_wire_def)
  with w show ?thesis by blast
qed

text \<open>The factory wires a feed as configured.  For an accepted configuration, a feed with resolvable
  sinks gets a pipeline whose branches are its sinks in order: each branch publishes to the sink of that
  name; a composite is tried once and has no dead letter of its own; any other sink has the global
  retry budget and, if it names a dead letter, that sink as its dead letter.\<close>

theorem factory_wires_feed:
  assumes "snd (Validate venv c) = None" "wireAll wenv c (s0, []) = (Inr wd, w')"
    and "set (ResolveFeedSinks f) \<subseteq> sc_Name ` set (cf_Sinks c)"
  shows "\<exists>p. newPipelineFactory http sha wd c f = Inr p \<and> map sbName (plSinks p) = ResolveFeedSinks f \<and>
    (\<forall>b\<in>set (plSinks p). \<exists>sc\<in>set (cf_Sinks c). sc_Name sc = sbName b \<and>
       primary (sbWrapped b) = publisher_of sc \<and>
       (if sc_Driver sc = ''composite''
        then dlq (sbWrapped b) = None \<and> MaxAttempts (rpCfg (sbWrapped b)) = 1
        else MaxAttempts (rpCfg (sbWrapped b)) = rc_MaxAttempts (cf_Retry c) \<and>
          (if sc_DeadLetter sc = [] then dlq (sbWrapped b) = None
           else \<exists>t\<in>set (cf_Sinks c). sc_Name t = sc_DeadLetter sc \<and> dlq (sbWrapped b) = Some (publisher_of t))))"
proof -
  note d = accepted_distinct [OF assms(1)]
  from factory_ok [OF assms] obtain p where p: "newPipelineFactory http sha wd c f = Inr p"
    "map sbName (plSinks p) = ResolveFeedSinks f"
    "\<forall>b\<in>set (plSinks p). wrapSink (registry_of c) c (sbName b) = Inr (sbWrapped b)" by blast
  have "\<exists>sc\<in>set (cf_Sinks c). sc_Name sc = sbName b \<and> primary (sbWrapped b) = publisher_of sc \<and>
      (if sc_Driver sc = ''composite''
       then dlq (sbWrapped b) = None \<and> MaxAttempts (rpCfg (sbWrapped b)) = 1
       else MaxAttempts (rpCfg (sbWrapped b)) = rc_MaxAttempts (cf_Retry c) \<and>
         (if sc_DeadLetter sc = [] then dlq (sbWrapped b) = None
          else \<exists>t\<in>set (cf_Sinks c). sc_Name t = sc_DeadLetter sc \<and> dlq (sbWrapped b) = Some (publisher_of t)))"
    if b: "b \<in> set (plSinks p)" for b
  proof -
    from b have "sbName b \<in> set (map sbName (plSinks p))" by simp
    with p(2) assms(3) obtain sc where sc: "sc \<in> set (cf_Sinks c)" "sc_Name sc = sbName b" by auto
    have dead: "\<exists>t\<in>set (cf_Sinks c). sc_Name t = sc_DeadLetter sc \<and>
        registry_Get (registry_of c) (sc_DeadLetter sc) = Some (publisher_of t)" if "sc_DeadLetter sc \<noteq> []"
      using accepted_dead_letter [OF assms(1) sc(1) that] registry_of_Get [OF d] by blast
    from wrapSink_eq [OF d sc(1)] p(3) b sc(2) obtain rp where
      "rp = sbWrapped b" "primary rp = publisher_of sc"
      "if sc_Driver sc = ''composite'' then dlq rp = None \<and> MaxAttempts (rpCfg rp) = 1
       else dlq rp = (if sc_DeadLetter sc = [] then None else registry_Get (registry_of c) (sc_DeadLetter sc)) \<and>
         MaxAttempts (rpCfg rp) = rc_MaxAttempts (cf_Retry c)" by auto
    with dead sc show ?thesis by (auto split: if_splits)
  qed
  with p show ?thesis by blast
qed

theorem factory_wires_feed_witness:
  "\<exists>(wd :: nat wired) p. newPipelineFactory toy_env id wd (sample_config (sample_sinks []))
     (zero_FeedConfig\<lparr>fc_URL := ''u'', fc_Interval := minute, fc_Sinks := [''c'']\<rparr>) = Inr p \<and>
     map sbName (plSinks p) = [''c'']"
proof -
  let ?f = "zero_FeedConfig\<lparr>fc_URL := ''u'', fc_Interval := minute, fc_Sinks := [''c'']\<rparr>"
  obtain wd w' where w: "wireAll (toy_wire None) (sample_config (sample_sinks [])) (0, []) = (Inr wd, w')"
    using sample_wires by blast
  have "set (ResolveFeedSinks ?f) \<subseteq> sc_Name ` set (cf_Sinks (sample_config (sample_sinks [])))"
    by (simp add: ResolveFeedSinks_def sample_config_Sinks sample_sinks_def composite_sink_def)
  from factory_wires_feed [OF sample_ok(1) w this, of toy_env id] obtain p where
    "newPipelineFactory toy_env id wd (sample_config (sample_sinks [])) ?f = Inr p"
    "map sbName (plSinks p) = ResolveFeedSinks ?f" by blast
  moreover have "ResolveFeedSinks ?f = [''c'']" by (simp add: ResolveFeedSinks_def)
  ultimately show ?thesis by metis
qed

lemma build_pipelines_ok:
  assumes "\<And>fc. fc \<in> set fcs \<Longrightarrow> \<exists>p. factory fc = Inr p \<and> plCfg p = fc"
  shows "\<exists>ps. build_pipelines factory fcs = Inr ps \<and> map plCfg ps = fcs"
  using assms
proof (induction fcs)
  case (Cons fc fcs)
  then obtain p ps where "factory fc = Inr p" "plCfg p = fc" "build_pipelines factory fcs = Inr ps"
    "map plCfg ps = fcs" by fastforce
  then show ?case by simp
qed simp

text \<open>The one-shot modes poll the configured feeds.  For an accepted configuration without feed
  sources, \<^verbatim>\<open>buildOneShotPipelines\<close> opens and closes no source and gives one pipeline per distinct
  URL, with the first feed that has it, in the order of the configuration.\<close>

theorem one_shot_covers_feeds:
  assumes "snd (Validate venv c) = None" "wireAll wenv c (s0, []) = (Inr wd, w')" "cf_FeedSources c = []"
  shows "\<exists>ps. buildOneShotPipelines opn cls (newPipelineFactory http sha wd c) cx c s = (Inr ps, s) \<and>
    map plCfg ps = first_by_url (cf_Feeds c)"
proof -
  have "\<exists>p. newPipelineFactory http sha wd c fc = Inr p \<and> plCfg p = fc"
    if "fc \<in> set (first_by_url (cf_Feeds c))" for fc
  proof -
    have "fc \<in> set (cf_Feeds c)" using that first_by_url_subset by blast
    then have "set (ResolveFeedSinks fc) \<subseteq> sc_Name ` set (cf_Sinks c)"
      using accepted_feed [OF assms(1)] by blast
    from factory_ok [OF assms(1,2) this] show ?thesis by blast
  qed
  from build_pipelines_ok [OF this] obtain ps where
    "build_pipelines (newPipelineFactory http sha wd c) (first_by_url (cf_Feeds c)) = Inr ps"
    "map plCfg ps = first_by_url (cf_Feeds c)" by blast
  moreover have "Snapshot cx [NewStatic ''static'' (cf_Feeds c)] s = (Inr (first_by_url (cf_Feeds c)), s)"
    by (simp add: Snapshot_def NewStatic_def merge_loop_spec)
  ultimately show ?thesis
    by (simp add: buildOneShotPipelines_def buildSources_def closeAll_def assms(3))
qed

theorem one_shot_covers_feeds_witness:
  "\<exists>(wd :: nat wired) ps. buildOneShotPipelines (\<lambda>_ s. (Inl Canceled, s)) (\<lambda>_ s. s)
     (newPipelineFactory toy_env id wd (sample_config (sample_sinks []))) None
     (sample_config (sample_sinks [])) (0 :: nat) = (Inr ps, 0)"
proof -
  obtain wd w' where w: "wireAll (toy_wire None) (sample_config (sample_sinks [])) (0, []) = (Inr wd, w')"
    using sample_wires by blast
  have "cf_FeedSources (sample_config (sample_sinks [])) = []"
    by (simp add: sample_config_def Defaults_def zero_Config_def)
  from one_shot_covers_feeds [OF sample_ok(1) w this, of "\<lambda>_ s. (Inl Canceled, s)" "\<lambda>_ s. s" toy_env id None 0]
  show ?thesis by blast
qed

end
