(* ===== verification/Coord_DynamoDB.thy ===== *)
theory Coord_DynamoDB
  imports Pipeline
begin

section \<open>Leases in a DynamoDB table (\<^verbatim>\<open>internal/coord/dynamodb/dynamodb.go\<close>)\<close>

text \<open>
  The coordinator that lets at most one instance poll a feed: a conditional write takes the lease, a
  conditional delete gives it back, and a lease that is past its expiry may be taken over.  The table
  is reached through the two conditional operations of \<open>ddb_api\<close>; what is relied on of it is
  \<open>ddb_ok\<close>.  A fleet of instances is a step relation: instances act in any order, time passes between
  the steps, and an instance may read its clock late (but not ahead).

  A lease is a pointer in the source, here a number; its expiry, which the source does not keep, is
  recorded for the statements.
\<close>

subsection \<open>The table\<close>

record ddb_item =
  itOwner :: string
  itExpiry :: int

datatype ddb_outcome = DdbOK | CondFailed | DdbErr go_error

text \<open>\<^verbatim>\<open>PutItem\<close> with the condition \<^verbatim>\<open>attribute_not_exists(#pk) OR #exp < :now\<close>, and \<^verbatim>\<open>DeleteItem\<close> with the
  condition \<^verbatim>\<open>#owner = :me\<close>.\<close>

record 's ddb_api =
  PutItem :: "string \<Rightarrow> ddb_item \<Rightarrow> int \<Rightarrow> 's \<Rightarrow> ddb_outcome \<times> 's"
  DeleteItem :: "string \<Rightarrow> string \<Rightarrow> 's \<Rightarrow> ddb_outcome \<times> 's"

subsection \<open>The coordinator\<close>

record lease =
  lsId :: nat
  lsKey :: string
  lsOwner :: string
  lsExpiry :: int

record ddb_coordinator =
  dcOwner :: string
  dcLeaseDuration :: duration
  dcHeld :: "lease list option"  \<comment> \<open>\<open>None\<close> after \<^verbatim>\<open>Close\<close>\<close>
  dcNext :: nat

definition DefaultLeaseDuration :: duration where
  "DefaultLeaseDuration = 60 * second"

definition newWithClient :: "string \<Rightarrow> string \<Rightarrow> duration \<Rightarrow> ddb_coordinator" where
  "newWithClient newOwnerToken optOwner ld =
     \<lparr>dcOwner = (if optOwner = [] then newOwnerToken else optOwner),
      dcLeaseDuration = (if ld \<le> 0 then DefaultLeaseDuration else ld), dcHeld = Some [], dcNext = 0\<rparr>"

definition lockKey :: "(string \<Rightarrow> string) \<Rightarrow> string \<Rightarrow> string" where
  "lockKey sha256hex feedURL = ''rss2msg:coord:'' @ sha256hex feedURL"

definition conditionalDelete :: "'s ddb_api \<Rightarrow> lease \<Rightarrow> 's \<Rightarrow> go_error option \<times> 's" where
  "conditionalDelete api l s =
     (case DeleteItem api (lsKey l) (lsOwner l) s of
        (DdbOK, s1) \<Rightarrow> (None, s1)
      | (CondFailed, s1) \<Rightarrow> (None, s1)
      | (DdbErr err, s1) \<Rightarrow> (Some (Errorf ''coord/dynamodb: DeleteItem: %w'' [FWrap err]), s1))"

text \<open>\<open>now\<close> is what the instance's clock shows.\<close>

definition ddb_TryAcquire ::
    "'s ddb_api \<Rightarrow> (string \<Rightarrow> string) \<Rightarrow> time \<Rightarrow> string \<Rightarrow> ddb_coordinator \<Rightarrow> 's \<Rightarrow>
     lease option result \<times> ddb_coordinator \<times> 's" where
  "ddb_TryAcquire api sha now feedURL c s =
     (let key = lockKey sha feedURL; expiry = UnixMilli (now + dcLeaseDuration c) in
      case PutItem api key \<lparr>itOwner = dcOwner c, itExpiry = expiry\<rparr> (UnixMilli now) s of
        (CondFailed, s1) \<Rightarrow> (Inr None, c, s1)
      | (DdbErr err, s1) \<Rightarrow> (Inl (Errorf ''coord/dynamodb: PutItem: %w'' [FWrap err]), c, s1)
      | (DdbOK, s1) \<Rightarrow>
          (let l = \<lparr>lsId = dcNext c, lsKey = key, lsOwner = dcOwner c, lsExpiry = expiry\<rparr> in
           case dcHeld c of
             None \<Rightarrow> (Inr None, c, snd (conditionalDelete api l s1))
           | Some held \<Rightarrow>
               (Inr (Some l), c\<lparr>dcHeld := Some (l # held), dcNext := Suc (dcNext c)\<rparr>, s1)))"

definition ddb_release ::
    "'s ddb_api \<Rightarrow> lease \<Rightarrow> ddb_coordinator \<Rightarrow> 's \<Rightarrow> go_error option \<times> ddb_coordinator \<times> 's" where
  "ddb_release api l c s =
     (case dcHeld c of
        None \<Rightarrow> (None, c, s)
      | Some held \<Rightarrow>
          if l \<notin> set held then (None, c, s)
          else (case conditionalDelete api l s of
                  (err, s1) \<Rightarrow> (err, c\<lparr>dcHeld := Some (removeAll l held)\<rparr>, s1)))"

text \<open>\<open>order\<close> is the order in which the map of held leases is visited.\<close>

definition ddb_Close ::
    "'s ddb_api \<Rightarrow> (lease list \<Rightarrow> lease list) \<Rightarrow> ddb_coordinator \<Rightarrow> 's \<Rightarrow> ddb_coordinator \<times> 's" where
  "ddb_Close api order c s =
     (case dcHeld c of
        None \<Rightarrow> (c, s)
      | Some held \<Rightarrow>
          (c\<lparr>dcHeld := None\<rparr>, fold (\<lambda>l s. snd (conditionalDelete api l s)) (order held) s))"

definition leases :: "ddb_coordinator \<Rightarrow> lease list" where
  "leases c = (case dcHeld c of None \<Rightarrow> [] | Some held \<Rightarrow> held)"

subsection \<open>A fleet\<close>

record 's fleet =
  flNow :: time
  flTable :: 's
  flNodes :: "nat \<Rightarrow> ddb_coordinator"

text \<open>
  An instance asks for the lease of a feed only while it holds none for it: it has one loop per feed,
  and a poll releases before it returns.
\<close>

inductive fleet_step :: "'s ddb_api \<Rightarrow> (string \<Rightarrow> string) \<Rightarrow> 's fleet \<Rightarrow> 's fleet \<Rightarrow> bool"
  for api :: "'s ddb_api" and sha :: "string \<Rightarrow> string" where
  pass: "0 \<le> d \<Longrightarrow> fleet_step api sha f (f\<lparr>flNow := flNow f + d\<rparr>)"
| acquire: "now \<le> flNow f \<Longrightarrow> \<forall>l\<in>set (leases (flNodes f i)). lsKey l \<noteq> lockKey sha u \<Longrightarrow>
    ddb_TryAcquire api sha now u (flNodes f i) (flTable f) = (r, c, s) \<Longrightarrow>
    fleet_step api sha f (f\<lparr>flTable := s, flNodes := (flNodes f)(i := c)\<rparr>)"
| release: "ddb_release api l (flNodes f i) (flTable f) = (err, c, s) \<Longrightarrow>
    fleet_step api sha f (f\<lparr>flTable := s, flNodes := (flNodes f)(i := c)\<rparr>)"
| close: "ddb_Close api order (flNodes f i) (flTable f) = (c, s) \<Longrightarrow> (\<And>ls. set (order ls) = set ls) \<Longrightarrow>
    fleet_step api sha f (f\<lparr>flTable := s, flNodes := (flNodes f)(i := c)\<rparr>)"

subsection \<open>What is relied on of the table\<close>

text \<open>
  An operation that reports success found its condition true and took effect.  One that reports a
  failed condition or an error (a lost response, a retry by the client) left the table as it was, or
  took effect because its condition held.
\<close>

definition free_at :: "ddb_item option \<Rightarrow> int \<Rightarrow> bool" where
  "free_at x now = (case x of None \<Rightarrow> True | Some it \<Rightarrow> itExpiry it < now)"

definition mine :: "ddb_item option \<Rightarrow> string \<Rightarrow> bool" where
  "mine x me = (case x of None \<Rightarrow> False | Some it \<Rightarrow> itOwner it = me)"

definition ddb_ok :: "'s ddb_api \<Rightarrow> ('s \<Rightarrow> string \<Rightarrow> ddb_item option) \<Rightarrow> bool" where
  "ddb_ok api view \<longleftrightarrow>
     (\<forall>k it now s r s'. PutItem api k it now s = (r, s') \<longrightarrow>
        (free_at (view s k) now \<and> view s' = (view s)(k \<mapsto> it)) \<or> (r \<noteq> DdbOK \<and> view s' = view s)) \<and>
     (\<forall>k me s r s'. DeleteItem api k me s = (r, s') \<longrightarrow>
        (mine (view s k) me \<and> view s' = (view s)(k := None)) \<or> (r \<noteq> DdbOK \<and> view s' = view s))"

lemma ddb_ok_Put:
  assumes "ddb_ok api view" "PutItem api k it now s = (r, s')"
  shows "(free_at (view s k) now \<and> view s' = (view s)(k \<mapsto> it)) \<or> (r \<noteq> DdbOK \<and> view s' = view s)"
  using assms unfolding ddb_ok_def by blast

lemma ddb_ok_delete:
  assumes "ddb_ok api view"
  shows "(mine (view s (lsKey l)) (lsOwner l) \<and> view (snd (conditionalDelete api l s)) = (view s)(lsKey l := None)) \<or>
    view (snd (conditionalDelete api l s)) = view s"
proof -
  obtain r s' where d: "DeleteItem api (lsKey l) (lsOwner l) s = (r, s')" by fastforce
  have "snd (conditionalDelete api l s) = s'"
    by (simp add: conditionalDelete_def d split: ddb_outcome.split)
  moreover have "(mine (view s (lsKey l)) (lsOwner l) \<and> view s' = (view s)(lsKey l := None)) \<or>
      (r \<noteq> DdbOK \<and> view s' = view s)"
    using assms d unfolding ddb_ok_def by blast
  ultimately show ?thesis by auto
qed

subsection \<open>The invariant\<close>

text \<open>The row that stands for a lease.\<close>

definition row_of :: "('s \<Rightarrow> string \<Rightarrow> ddb_item option) \<Rightarrow> 's \<Rightarrow> lease \<Rightarrow> bool" where
  "row_of view s l \<longleftrightarrow> view s (lsKey l) = Some \<lparr>itOwner = lsOwner l, itExpiry = lsExpiry l\<rparr>"

definition node_ok :: "('s \<Rightarrow> string \<Rightarrow> ddb_item option) \<Rightarrow> time \<Rightarrow> 's \<Rightarrow> ddb_coordinator \<Rightarrow> bool" where
  "node_ok view now s c \<longleftrightarrow> distinct (map lsKey (leases c)) \<and>
     (\<forall>l\<in>set (leases c). lsOwner l = dcOwner c \<and> (UnixMilli now \<le> lsExpiry l \<longrightarrow> row_of view s l))"

definition fleet_inv :: "('s \<Rightarrow> string \<Rightarrow> ddb_item option) \<Rightarrow> 's fleet \<Rightarrow> bool" where
  "fleet_inv view f \<longleftrightarrow> inj (\<lambda>i. dcOwner (flNodes f i)) \<and>
     (\<forall>i. node_ok view (flNow f) (flTable f) (flNodes f i))"

lemma row_after_put:
  assumes "ddb_ok api view" "PutItem api k it (UnixMilli t) s = (r, s')" "t \<le> now"
    and "UnixMilli now \<le> lsExpiry l" "row_of view s l"
  shows "row_of view s' l \<and> (r = DdbOK \<longrightarrow> lsKey l \<noteq> k)"
proof -
  have "\<not> free_at (view s (lsKey l)) (UnixMilli t)"
    using assms(4,5) UnixMilli_mono [OF assms(3)] by (simp add: row_of_def free_at_def)
  with ddb_ok_Put [OF assms(1,2)] assms(5) show ?thesis by (auto simp: row_of_def)
qed

lemma row_after_delete:
  assumes "ddb_ok api view" "row_of view s l" "lsKey l \<noteq> lsKey d \<or> lsOwner l \<noteq> lsOwner d"
  shows "row_of view (snd (conditionalDelete api d s)) l"
  using ddb_ok_delete [OF assms(1), of s d] assms(2,3) by (auto simp: row_of_def mine_def)

lemma row_after_deletes:
  assumes "ddb_ok api view" "row_of view s l" "\<forall>d\<in>set ds. lsOwner l \<noteq> lsOwner d"
  shows "row_of view (fold (\<lambda>d s. snd (conditionalDelete api d s)) ds s) l"
  using assms(2,3)
proof (induction ds arbitrary: s)
  case (Cons d ds)
  have "row_of view (snd (conditionalDelete api d s)) l"
    using Cons.prems by (intro row_after_delete [OF assms(1)]) auto
  with Cons show ?case by simp
qed simp

lemma node_okI:
  assumes "node_ok view now s c"
    and "\<And>l. l \<in> set (leases c) \<Longrightarrow> UnixMilli now \<le> lsExpiry l \<Longrightarrow> row_of view s l \<Longrightarrow> row_of view s' l"
  shows "node_ok view now s' c"
  using assms by (simp add: node_ok_def)

lemma fleet_inv_update:
  assumes "fleet_inv view f" "dcOwner c = dcOwner (flNodes f i)" "node_ok view (flNow f) s c"
    and "\<And>j l. j \<noteq> i \<Longrightarrow> l \<in> set (leases (flNodes f j)) \<Longrightarrow> lsOwner l \<noteq> dcOwner (flNodes f i) \<Longrightarrow>
      UnixMilli (flNow f) \<le> lsExpiry l \<Longrightarrow> row_of view (flTable f) l \<Longrightarrow> row_of view s l"
  shows "fleet_inv view (f\<lparr>flTable := s, flNodes := (flNodes f)(i := c)\<rparr>)"
proof -
  have "(\<lambda>j. dcOwner (((flNodes f)(i := c)) j)) = (\<lambda>j. dcOwner (flNodes f j))"
    using assms(2) by (auto simp: fun_eq_iff)
  moreover have "node_ok view (flNow f) s (flNodes f j)" if "j \<noteq> i" for j
  proof (rule node_okI)
    show ok: "node_ok view (flNow f) (flTable f) (flNodes f j)" using assms(1) by (simp add: fleet_inv_def)
    have "dcOwner (flNodes f j) \<noteq> dcOwner (flNodes f i)"
      using assms(1) that by (auto simp: fleet_inv_def dest: injD)
    with ok assms(4) [OF that] show "row_of view s l"
      if "l \<in> set (leases (flNodes f j))" "UnixMilli (flNow f) \<le> lsExpiry l" "row_of view (flTable f) l" for l
      using that by (simp add: node_ok_def)
  qed
  ultimately show ?thesis using assms(1,3) by (simp add: fleet_inv_def)
qed

subsection \<open>Every step keeps it\<close>

lemma TryAcquire_cases:
  fixes c0 :: ddb_coordinator and now :: time and sha :: "string \<Rightarrow> string" and u :: string
  defines "l \<equiv> \<lparr>lsId = dcNext c0, lsKey = lockKey sha u, lsOwner = dcOwner c0,
      lsExpiry = UnixMilli (now + dcLeaseDuration c0)\<rparr>"
  assumes "ddb_TryAcquire api sha now u c0 s0 = (r, c, s)"
    and "PutItem api (lockKey sha u) \<lparr>itOwner = dcOwner c0, itExpiry = UnixMilli (now + dcLeaseDuration c0)\<rparr>
      (UnixMilli now) s0 = (o1, s1)"
  shows "(c = c0 \<and> s = s1) \<or>
    (\<exists>held. o1 = DdbOK \<and> dcHeld c0 = Some held \<and>
       c = c0\<lparr>dcHeld := Some (l # held), dcNext := Suc (dcNext c0)\<rparr> \<and> s = s1) \<or>
    (dcHeld c0 = None \<and> c = c0 \<and> s = snd (conditionalDelete api l s1))"
  using assms by (cases o1; cases "dcHeld c0") (auto simp: ddb_TryAcquire_def Let_def)

lemma acquire_keeps:
  assumes ok: "ddb_ok api view" and inv: "fleet_inv view f" and now: "now \<le> flNow f"
    and free: "\<forall>l\<in>set (leases (flNodes f i)). lsKey l \<noteq> lockKey sha u"
    and att: "ddb_TryAcquire api sha now u (flNodes f i) (flTable f) = (r, c, s)"
  shows "fleet_inv view (f\<lparr>flTable := s, flNodes := (flNodes f)(i := c)\<rparr>)"
proof -
  let ?c = "flNodes f i" and ?s = "flTable f"
  let ?it = "\<lparr>itOwner = dcOwner ?c, itExpiry = UnixMilli (now + dcLeaseDuration ?c)\<rparr>"
  let ?l = "\<lparr>lsId = dcNext ?c, lsKey = lockKey sha u, lsOwner = dcOwner ?c,
      lsExpiry = UnixMilli (now + dcLeaseDuration ?c)\<rparr>"
  have node: "node_ok view (flNow f) ?s ?c" using inv by (simp add: fleet_inv_def)
  obtain o1 s1 where put: "PutItem api (lockKey sha u) ?it (UnixMilli now) ?s = (o1, s1)" by fastforce
  have keep: "row_of view s1 l" if "UnixMilli (flNow f) \<le> lsExpiry l" "row_of view ?s l" for l
    using row_after_put [OF ok put now that] by blast
  show ?thesis
    using TryAcquire_cases [OF att put]
  proof (elim disjE exE conjE)
    assume same: "c = ?c" "s = s1"
    have "node_ok view (flNow f) s1 ?c" using node by (rule node_okI) (rule keep)
    then show ?thesis unfolding same by (rule fleet_inv_update [OF inv refl]) (rule keep)
  next
    fix held
    assume won: "o1 = DdbOK" "dcHeld ?c = Some held"
      "c = ?c\<lparr>dcHeld := Some (?l # held), dcNext := Suc (dcNext ?c)\<rparr>" "s = s1"
    have "view s1 = (view ?s)(lockKey sha u \<mapsto> ?it)"
      using ddb_ok_Put [OF ok put] won(1) by simp
    then have row: "row_of view s1 ?l" by (simp add: row_of_def)
    have "node_ok view (flNow f) s1 ?c" using node by (rule node_okI) (rule keep)
    with row free won have "node_ok view (flNow f) s c"
      by (auto simp: node_ok_def leases_def)
    then show ?thesis
      using keep won(3,4) by (intro fleet_inv_update [OF inv]) auto
  next
    assume closed: "dcHeld ?c = None" "c = ?c" "s = snd (conditionalDelete api ?l s1)"
    have "row_of view s l" if "lsOwner l \<noteq> dcOwner ?c" "row_of view s1 l" for l
      unfolding closed(3) by (rule row_after_delete [OF ok that(2)]) (simp add: that(1))
    moreover have "node_ok view (flNow f) s c" using closed(1,2) by (simp add: node_ok_def leases_def)
    ultimately show ?thesis using keep closed(2) by (intro fleet_inv_update [OF inv]) auto
  qed
qed

lemma release_keeps:
  assumes ok: "ddb_ok api view" and inv: "fleet_inv view f"
    and rel: "ddb_release api l (flNodes f i) (flTable f) = (err, c, s)"
  shows "fleet_inv view (f\<lparr>flTable := s, flNodes := (flNodes f)(i := c)\<rparr>)"
proof -
  let ?c = "flNodes f i" and ?s = "flTable f"
  have node: "node_ok view (flNow f) ?s ?c" using inv by (simp add: fleet_inv_def)
  consider (same) "c = ?c" "s = ?s"
    | (deleted) held where "dcHeld ?c = Some held" "l \<in> set held"
        "c = ?c\<lparr>dcHeld := Some (removeAll l held)\<rparr>" "s = snd (conditionalDelete api l ?s)"
    using rel by (auto simp: ddb_release_def split: option.splits if_splits prod.splits)
  then show ?thesis
  proof cases
    case same
    with node show ?thesis by (intro fleet_inv_update [OF inv]) auto
  next
    case deleted
    with node have l: "lsOwner l = dcOwner ?c" and d: "distinct (map lsKey held)"
      by (simp_all add: node_ok_def leases_def)
    from d deleted(2) have other: "lsKey x \<noteq> lsKey l" if "x \<in> set (removeAll l held)" for x
      using that by (auto simp: distinct_map dest: inj_onD)
    have row: "row_of view s x" if "row_of view ?s x" "lsKey x \<noteq> lsKey l \<or> lsOwner x \<noteq> dcOwner ?c" for x
      unfolding deleted(4) using that l by (intro row_after_delete [OF ok]) auto
    have "distinct (map lsKey (removeAll l held))"
      using d by (simp add: distinct_map_filter removeAll_filter_not_eq)
    with node deleted other row have "node_ok view (flNow f) s c"
      by (auto simp: node_ok_def leases_def)
    with row deleted(3) show ?thesis by (intro fleet_inv_update [OF inv]) auto
  qed
qed

lemma close_keeps:
  assumes ok: "ddb_ok api view" and inv: "fleet_inv view f"
    and cl: "ddb_Close api order (flNodes f i) (flTable f) = (c, s)" "\<And>ls. set (order ls) = set ls"
  shows "fleet_inv view (f\<lparr>flTable := s, flNodes := (flNodes f)(i := c)\<rparr>)"
proof -
  let ?c = "flNodes f i" and ?s = "flTable f"
  have node: "node_ok view (flNow f) ?s ?c" using inv by (simp add: fleet_inv_def)
  consider (same) "c = ?c" "s = ?s"
    | (deleted) held where "dcHeld ?c = Some held" "c = ?c\<lparr>dcHeld := None\<rparr>"
        "s = fold (\<lambda>l s. snd (conditionalDelete api l s)) (order held) ?s"
    using cl(1) by (auto simp: ddb_Close_def split: option.splits)
  then show ?thesis
  proof cases
    case same
    with node show ?thesis by (intro fleet_inv_update [OF inv]) auto
  next
    case deleted
    with node cl(2) have own: "\<forall>d\<in>set (order held). lsOwner d = dcOwner ?c"
      by (simp add: node_ok_def leases_def)
    have "row_of view s x" if "row_of view ?s x" "lsOwner x \<noteq> dcOwner ?c" for x
      unfolding deleted(3) using that own by (intro row_after_deletes [OF ok]) auto
    moreover have "node_ok view (flNow f) s c" using deleted(2) by (simp add: node_ok_def leases_def)
    ultimately show ?thesis using deleted(2) by (intro fleet_inv_update [OF inv]) auto
  qed
qed

lemma fleet_step_inv:
  assumes "ddb_ok api view" "fleet_step api sha f f'" "fleet_inv view f"
  shows "fleet_inv view f'"
  using assms(2)
proof (cases rule: fleet_step.cases)
  case (pass d)
  then have "UnixMilli (flNow f) \<le> UnixMilli (flNow f + d)" by (intro UnixMilli_mono) simp
  with assms(3) pass show ?thesis by (auto simp: fleet_inv_def node_ok_def)
next
  case acquire
  with acquire_keeps [OF assms(1,3)] show ?thesis by blast
next
  case release
  with release_keeps [OF assms(1,3)] show ?thesis by blast
next
  case close
  with close_keeps [OF assms(1,3)] show ?thesis by blast
qed

lemma fleet_reach_inv:
  "(fleet_step api sha)\<^sup>*\<^sup>* f f' \<Longrightarrow> ddb_ok api view \<Longrightarrow> fleet_inv view f \<Longrightarrow> fleet_inv view f'"
  by (induction rule: rtranclp_induct) (auto intro: fleet_step_inv)

definition fresh_fleet :: "'s fleet \<Rightarrow> bool" where
  "fresh_fleet f \<longleftrightarrow> inj (\<lambda>i. dcOwner (flNodes f i)) \<and> (\<forall>i. leases (flNodes f i) = [])"

lemma fresh_fleet_inv: "fresh_fleet f \<Longrightarrow> fleet_inv view f"
  by (simp add: fresh_fleet_def fleet_inv_def node_ok_def)

subsection \<open>Properties\<close>


definition toy_ddb :: "(string \<Rightarrow> ddb_item option) ddb_api" where
  "toy_ddb = \<lparr>PutItem = (\<lambda>k it now s. if free_at (s k) now then (DdbOK, s(k \<mapsto> it)) else (CondFailed, s)),
     DeleteItem = (\<lambda>k me s. if mine (s k) me then (DdbOK, s(k := None)) else (CondFailed, s))\<rparr>"

definition toy_fleet :: "(string \<Rightarrow> ddb_item option) fleet" where
  "toy_fleet = \<lparr>flNow = 0, flTable = Map.empty,
     flNodes = (\<lambda>i. newWithClient [] (replicate (Suc i) CHR ''x'') 0)\<rparr>"

lemma toy_ddb_ok: "ddb_ok toy_ddb (\<lambda>s. s)"
  by (auto simp: ddb_ok_def toy_ddb_def split: if_splits)

lemma toy_fleet_fresh: "fresh_fleet toy_fleet"
  by (auto simp: fresh_fleet_def toy_fleet_def newWithClient_def leases_def inj_def replicate_eq_replicate)


end
