(* ===== verification/Net_Addr.thy ===== *)
theory Net_Addr
  imports Net_Http
begin

section \<open>Addresses and networks (package \<^verbatim>\<open>net\<close>)\<close>

text \<open>
  What the feed sink uses of \<^verbatim>\<open>net\<close>: parsing of IPv4 and IPv6 addresses and of CIDR networks, the
  membership of an address in a network, and the split of \<^verbatim>\<open>host:port\<close>.  A \<^verbatim>\<open>net.IP\<close> is its byte
  list, of length 4 or 16; an address that was parsed has 16 bytes, IPv4 in its mapped form.
\<close>

type_synonym ip = "nat list"

record IPNet =
  netIP :: ip
  netMask :: ip

definition v4InV6Prefix :: ip where
  "v4InV6Prefix = replicate 10 0 @ [255, 255]"

definition To4 :: "ip \<Rightarrow> ip option" where
  "To4 a =
     (if length a = 4 then Some a
      else if length a = 16 \<and> take 12 a = v4InV6Prefix then Some (drop 12 a) else None)"

subsection \<open>Parsing\<close>

definition dec_digit :: "char \<Rightarrow> bool" where
  "dec_digit c \<longleftrightarrow> 48 \<le> byte c \<and> byte c \<le> 57"

definition dec_value :: "string \<Rightarrow> nat" where
  "dec_value s = foldl (\<lambda>n c. 10 * n + (byte c - 48)) 0 s"

text \<open>A field of a dotted address: one to three digits, no leading zero, at most 255.\<close>

definition v4_field :: "string \<Rightarrow> nat option" where
  "v4_field s =
     (if s \<noteq> [] \<and> length s \<le> 3 \<and> list_all dec_digit s \<and> (length s = 1 \<or> hd s \<noteq> CHR ''0'') \<and> dec_value s \<le> 255
      then Some (dec_value s) else None)"

definition parse_v4 :: "string \<Rightarrow> ip option" where
  "parse_v4 s =
     (let fs = map v4_field (strings_Split s (CHR ''.''))
      in if length fs = 4 \<and> list_all (\<lambda>f. f \<noteq> None) fs then Some (map the fs) else None)"

definition hex_run :: "string \<Rightarrow> string" where
  "hex_run s = takeWhile (\<lambda>c. hex_value c \<noteq> None) s"

definition hex_number :: "string \<Rightarrow> nat" where
  "hex_number s = foldl (\<lambda>n c. 16 * n + the (hex_value c)) 0 s"

text \<open>
  The loop of \<^verbatim>\<open>netip.parseIPv6\<close>: \<open>out\<close> holds the bytes read, \<open>ell\<close> where a double colon stood.  The
  result is the bytes, the place of the double colon and what was not read.
\<close>

function v6_loop :: "ip \<Rightarrow> nat option \<Rightarrow> string \<Rightarrow> (ip \<times> nat option \<times> string) option" where
  "v6_loop out ell s =
     (if length out \<ge> 16 then Some (out, ell, s)
      else let h = hex_run s; t = drop (length h) s in
        if h = [] \<or> length h > 4 then None
        else if t \<noteq> [] \<and> hd t = CHR ''.'' then
          (if (ell = None \<and> length out \<noteq> 12) \<or> length out + 4 > 16 then None
           else map_option (\<lambda>b. (out @ b, ell, [])) (parse_v4 s))
        else let out' = out @ [hex_number h div 256, hex_number h mod 256] in
          if t = [] then Some (out', ell, [])
          else if hd t \<noteq> CHR '':'' \<or> length t = 1 then None
          else if hd (tl t) = CHR '':'' then
            (if ell \<noteq> None then None
             else if tl (tl t) = [] then Some (out', Some (length out'), [])
             else v6_loop out' (Some (length out')) (tl (tl t)))
          else v6_loop out' ell (tl t))"
  by pat_completeness auto
termination
  by (relation "measure (\<lambda>(out, ell, s). 16 - length out)") auto

declare v6_loop.simps [simp del]

definition parse_v6 :: "string \<Rightarrow> ip option" where
  "parse_v6 s =
     (if s = ''::'' then Some (replicate 16 0)
      else
        case (if HasPrefix s ''::'' then v6_loop [] (Some 0) (drop 2 s) else v6_loop [] None s) of
          None \<Rightarrow> None
        | Some (out, ell, rest) \<Rightarrow>
            if rest \<noteq> [] then None
            else if length out < 16 then
              (case ell of None \<Rightarrow> None
               | Some e \<Rightarrow> Some (take e out @ replicate (16 - length out) 0 @ drop e out))
            else if ell \<noteq> None then None else Some out)"

text \<open>The first dot or colon decides the family.  A zone, after a percent sign, is refused by
  \<^verbatim>\<open>net.ParseIP\<close>.\<close>

definition ParseAddr :: "string \<Rightarrow> (nat \<times> ip) option" where
  "ParseAddr s =
     (if CHR ''%'' \<in> set s then None
      else case filter (\<lambda>c. c = CHR ''.'' \<or> c = CHR '':'') s of
             [] \<Rightarrow> None
           | c # _ \<Rightarrow>
               if c = CHR ''.'' then map_option (\<lambda>b. (32, v4InV6Prefix @ b)) (parse_v4 s)
               else map_option (\<lambda>b. (128, b)) (parse_v6 s))"

definition net_ParseIP :: "string \<Rightarrow> ip option" where
  "net_ParseIP s = map_option snd (ParseAddr s)"

text \<open>Bytes of a mask with the given number of leading ones.\<close>

definition mask_byte :: "nat \<Rightarrow> nat \<Rightarrow> nat" where
  "mask_byte ones i =
     (if 8 * (i + 1) \<le> ones then 255 else if ones \<le> 8 * i then 0 else 256 - 2 ^ (8 - (ones - 8 * i)))"

definition CIDRMask :: "nat \<Rightarrow> nat \<Rightarrow> ip" where
  "CIDRMask ones bits = map (mask_byte ones) [0..<bits div 8]"

definition and_byte :: "nat \<Rightarrow> nat \<Rightarrow> nat" where
  "and_byte a b = Bit_Operations.and a b"

definition ip_Mask :: "ip \<Rightarrow> ip \<Rightarrow> ip" where
  "ip_Mask a m =
     (let m = (if length m = 16 \<and> length a = 4 \<and> take 12 m = replicate 12 255 then drop 12 m else m);
          a = (if length m = 4 \<and> length a = 16 \<and> take 12 a = v4InV6Prefix then drop 12 a else a)
      in if length a = length m then map2 and_byte a m else [])"

definition cidr_error :: "string \<Rightarrow> go_error" where
  "cidr_error s = Errorf ''invalid CIDR address: %s'' [FStr s]"

definition net_ParseCIDR :: "string \<Rightarrow> IPNet result" where
  "net_ParseCIDR s =
     (case strings_Cut s (CHR ''/'') of
        (addr, None) \<Rightarrow> Inl (cidr_error s)
      | (addr, Some len) \<Rightarrow>
          (case ParseAddr addr of
             None \<Rightarrow> Inl (cidr_error s)
           | Some (bits, a) \<Rightarrow>
               if len = [] \<or> \<not> list_all dec_digit len \<or> dec_value len > bits then Inl (cidr_error s)
               else let m = CIDRMask (dec_value len) bits in Inr \<lparr>netIP = ip_Mask a m, netMask = m\<rparr>))"

subsection \<open>Membership\<close>

definition networkNumberAndMask :: "IPNet \<Rightarrow> (ip \<times> ip) option" where
  "networkNumberAndMask n =
     (case (case To4 (netIP n) of Some a \<Rightarrow> Some a
            | None \<Rightarrow> if length (netIP n) = 16 then Some (netIP n) else None) of
        None \<Rightarrow> None
      | Some a \<Rightarrow>
          (let m = netMask n in
           if length m = 4 then (if length a \<noteq> 4 then None else Some (a, m))
           else if length m = 16 then Some (a, (if length a = 4 then drop 12 m else m))
           else None))"

definition net_Contains :: "IPNet \<Rightarrow> ip \<Rightarrow> bool" where
  "net_Contains n a =
     (case networkNumberAndMask n of
        None \<Rightarrow> length (case To4 a of Some x \<Rightarrow> x | None \<Rightarrow> a) = 0
      | Some (nn, m) \<Rightarrow>
          (let x = (case To4 a of Some x \<Rightarrow> x | None \<Rightarrow> a) in
           length x = length nn \<and> map2 and_byte nn m = map2 and_byte x m))"

subsection \<open>\<^verbatim>\<open>net.SplitHostPort\<close>\<close>

definition last_index :: "char \<Rightarrow> string \<Rightarrow> nat option" where
  "last_index c s =
     (if c \<in> set s then Some (length s - 1 - length (takeWhile (\<lambda>x. x \<noteq> c) (rev s))) else None)"

definition first_index :: "char \<Rightarrow> string \<Rightarrow> nat option" where
  "first_index c s = (if c \<in> set s then Some (length (takeWhile (\<lambda>x. x \<noteq> c) s)) else None)"

definition SplitHostPort :: "string \<Rightarrow> (string \<times> string) option" where
  "SplitHostPort hp =
     (case last_index (CHR '':'') hp of
        None \<Rightarrow> None
      | Some i \<Rightarrow>
          if hd hp = CHR ''['' then
            (case first_index (CHR '']'') hp of
               None \<Rightarrow> None
             | Some e \<Rightarrow>
                 if e + 1 \<noteq> i \<or> CHR ''['' \<in> set (drop 1 hp) \<or> CHR '']'' \<in> set (drop (e + 1) hp) then None
                 else Some (drop 1 (take e hp), drop (i + 1) hp))
          else if CHR '':'' \<in> set (take i hp) \<or> CHR ''['' \<in> set hp \<or> CHR '']'' \<in> set hp then None
          else Some (take i hp, drop (i + 1) hp))"

lemmas string_eval = TrimSpace_def extra_len_def second_ok_def seq_len_def byte_def is_space_def

lemmas parse_eval = net_ParseIP_def ParseAddr_def parse_v4_def v4_field_def v4InV6Prefix_def Let_def
  dec_digit_def byte_def dec_value_def numeral_nat

lemma v4_prefix: "v4InV6Prefix = [0, 0, 0, 0, 0, 0, 0, 0, 0, 0, 255, 255]"
  by (simp add: v4InV6Prefix_def numeral_nat)

lemmas contains_eval = net_Contains_def networkNumberAndMask_def To4_def v4_prefix Let_def
  and_byte_def

lemma ParseCIDR_needs_slash: "CHR ''/'' \<notin> set s \<Longrightarrow> \<exists>e. net_ParseCIDR s = Inl e"
  by (simp add: net_ParseCIDR_def strings_Cut_def)

end
