(* ===== verification/Time_Text.thy ===== *)
theory Time_Text
  imports Change_Model
begin

section \<open>Fixed-width times sort like times (\<^verbatim>\<open>sqliteTimeFormat\<close>)\<close>

text \<open>
  The SQLite window of the feed sink stores the detection time as text and orders by that text.  The
  format has a fixed width, so that the lexical order of the texts is the order of the times.  This
  theory renders the format and proves it, for the years 1 to 9999, in which the year has four
  digits.
\<close>

fun pad_digits :: "nat \<Rightarrow> int \<Rightarrow> string" where
  "pad_digits 0 n = []"
| "pad_digits (Suc w) n = pad_digits w (n div 10) @ [digit n]"

text \<open>The layout \<^verbatim>\<open>2006-01-02T15:04:05.000000000Z07:00\<close> of a UTC time: the width of each field and
  what follows it.\<close>

fun render :: "(nat \<times> string) list \<Rightarrow> int list \<Rightarrow> string" where
  "render ((w, sep) # fs) (v # vs) = pad_digits w v @ sep @ render fs vs"
| "render _ _ = []"

definition sqliteTimeFormat :: "(nat \<times> string) list" where
  "sqliteTimeFormat =
     [(4, ''-''), (2, ''-''), (2, ''T''), (2, '':''), (2, '':''), (2, ''.''), (9, ''Z'')]"

definition time_fields :: "time \<Rightarrow> int list" where
  "time_fields t =
     (let s = t div second; r = s mod 86400
      in case civil (s div 86400) of (y, m, d) \<Rightarrow>
           [y, m, d, r div 3600, r div 60 mod 60, r mod 60, t mod second])"

definition sqlite_time :: "time \<Rightarrow> string" where
  "sqlite_time t = render sqliteTimeFormat (time_fields t)"

subsection \<open>Lexical order of fixed-width fields\<close>

lemma less_append_same_length:
  fixes a b c d :: string
  assumes "length a = length c"
  shows "a @ b < c @ d \<longleftrightarrow> a < c \<or> (a = c \<and> b < d)"
  using assms by (induction a c rule: list_induct2) auto

lemma length_pad_digits [simp]: "length (pad_digits w n) = w"
  by (induction w n rule: pad_digits.induct) auto

lemma digit_less: "digit a < digit b \<longleftrightarrow> a mod 10 < b mod 10"
proof -
  have "nat (x mod 10) < 10" for x :: int by simp
  then have "of_char (digit x) = 48 + nat (x mod 10)" for x
    unfolding digit_def by simp
  moreover have "0 \<le> a mod 10" by simp
  ultimately show ?thesis by (auto simp: less_char_def)
qed

lemma div_lex:
  fixes a b w :: int
  assumes "a < b" "0 < w"
  shows "a div w < b div w \<or> (a div w = b div w \<and> a mod w < b mod w)"
proof (cases "a div w = b div w")
  case True
  then have "a mod w < b mod w"
    using assms(1) minus_mult_div_eq_mod [of a w] minus_mult_div_eq_mod [of b w]
    by (metis diff_strict_right_mono)
  with True show ?thesis by simp
next
  case False
  then show ?thesis using zdiv_mono1 [of a b w] assms by simp
qed

lemma pad_digits_less:
  "0 \<le> a \<Longrightarrow> a < b \<Longrightarrow> b < 10 ^ w \<Longrightarrow> pad_digits w a < pad_digits w b"
proof (induction w arbitrary: a b)
  case (Suc w)
  have "a div 10 < b div 10 \<or> (a div 10 = b div 10 \<and> a mod 10 < b mod 10)"
    using div_lex [of a b 10] Suc.prems(2) by simp
  moreover have "0 \<le> a div 10" "b div 10 < 10 ^ w" using Suc.prems by simp_all
  ultimately show ?case
    using Suc.IH by (auto simp: less_append_same_length digit_less)
qed simp

text \<open>Texts of one layout, with fields that fit their widths, compare like the lists of fields.\<close>

fun fits :: "(nat \<times> string) list \<Rightarrow> int list \<Rightarrow> bool" where
  "fits [] [] = True"
| "fits ((w, sep) # fs) (v # vs) = (0 \<le> v \<and> v < 10 ^ w \<and> fits fs vs)"
| "fits _ _ = False"

lemma same_prefix_less: "sep @ x < sep @ y \<longleftrightarrow> x < (y :: string)"
  by (simp add: less_append_same_length)

lemma render_less: "fits fs vs \<Longrightarrow> fits fs us \<Longrightarrow> vs < us \<Longrightarrow> render fs vs < render fs us"
proof (induction fs vs arbitrary: us rule: fits.induct)
  case (2 w sep fs v vs)
  then obtain u us' where us: "us = u # us'" by (cases us) auto
  with 2 show ?case
    using pad_digits_less [of v u w] by (auto simp: less_append_same_length same_prefix_less)
next
  case 1
  then show ?case by (cases us) auto
qed auto

subsection \<open>The calendar is monotone\<close>

lemma capped_div:
  fixes a b w k :: int
  assumes "a < b" "0 < w"
  shows "min k (a div w) < min k (b div w) \<or>
         (min k (a div w) = min k (b div w) \<and> a - w * min k (a div w) < b - w * min k (b div w))"
proof (cases "min k (a div w) = min k (b div w)")
  case True
  with assms(1) show ?thesis by simp
next
  case False
  then show ?thesis using zdiv_mono1 [of a b w] assms by linarith
qed

lemma capped_rem:
  fixes a w k :: int
  assumes "0 \<le> a" "0 < w" "0 \<le> k" "a \<le> w * (k + 1)"
  shows "0 \<le> min k (a div w)" "0 \<le> a - w * min k (a div w)" "a - w * min k (a div w) \<le> w"
proof -
  have q: "0 \<le> a div w" using assms by (simp add: pos_imp_zdiv_nonneg_iff)
  then show "0 \<le> min k (a div w)" using assms(3) by simp
  have r: "a - w * (a div w) = a mod w" by (rule minus_mult_div_eq_mod)
  have "0 \<le> a mod w" "a mod w < w" using assms(2) by simp_all
  moreover have "w * min k (a div w) \<le> w * (a div w)" using assms(2) by (simp add: mult_left_mono)
  ultimately show "0 \<le> a - w * min k (a div w)" using r by linarith
  show "a - w * min k (a div w) \<le> w"
  proof (cases "a div w \<le> k")
    case True
    then show ?thesis using r \<open>a mod w < w\<close> by (simp add: min_def)
  next
    case False
    then show ?thesis using assms(4) by (simp add: min_def distrib_left)
  qed
qed

lemma year_day_less:
  assumes "a < b" "year_day a = (y, d)" "year_day b = (y', d')"
  shows "y < y' \<or> (y = y' \<and> d < d')"
proof -
  define a1 b1 where "a1 = a mod 146097" and "b1 = b mod 146097"
  define ac bc where "ac = min 3 (a1 div 36524)" and "bc = min 3 (b1 div 36524)"
  define a2 b2 where "a2 = a1 - 36524 * ac" and "b2 = b1 - 36524 * bc"
  define a3 b3 where "a3 = a2 mod 1461" and "b3 = b2 mod 1461"
  define ae be where "ae = min 3 (a3 div 365)" and "be = min 3 (b3 div 365)"
  note defs = a1_def b1_def ac_def bc_def a2_def b2_def a3_def b3_def ae_def be_def
  have "year_day a = (400 * (a div 146097) + 100 * ac + 4 * (a2 div 1461) + ae + 1, a3 - 365 * ae)"
    "year_day b = (400 * (b div 146097) + 100 * bc + 4 * (b2 div 1461) + be + 1, b3 - 365 * be)"
    unfolding year_day_def Let_def defs by (rule refl)+
  with assms(2,3)
  have y: "y = 400 * (a div 146097) + 100 * ac + 4 * (a2 div 1461) + ae + 1" "d = a3 - 365 * ae"
    and y': "y' = 400 * (b div 146097) + 100 * bc + 4 * (b2 div 1461) + be + 1" "d' = b3 - 365 * be"
    by simp_all
  have r1: "0 \<le> a1" "a1 < 146097" "0 \<le> b1" "b1 < 146097" by (simp_all add: defs)
  have r2: "0 \<le> ac" "0 \<le> a2" "a2 \<le> 36524" "0 \<le> bc" "0 \<le> b2" "b2 \<le> 36524"
    unfolding ac_def bc_def a2_def b2_def using r1 by (intro capped_rem; simp)+
  have r3: "0 \<le> a2 div 1461" "a2 div 1461 \<le> 24" "0 \<le> b2 div 1461" "b2 div 1461 \<le> 24" "a3 < 1461" "b3 < 1461"
      "0 \<le> a3" "0 \<le> b3"
    using r2 by (simp_all add: a3_def b3_def)
  have r4: "0 \<le> ae" "0 \<le> be"
    unfolding ae_def be_def using r3 by (intro capped_rem(1); simp)+
  have r5: "ae \<le> 3" "be \<le> 3" "ac \<le> 3" "bc \<le> 3"
    unfolding ae_def be_def ac_def bc_def by (rule min.cobounded1)+
  have s1: "a div 146097 < b div 146097 \<or> (a div 146097 = b div 146097 \<and> a1 < b1)"
    using div_lex [of a b 146097] assms(1) by (simp add: a1_def b1_def)
  have s2: "a1 < b1 \<Longrightarrow> ac < bc \<or> (ac = bc \<and> a2 < b2)"
    using capped_div [of a1 b1 36524 3] by (simp add: ac_def bc_def a2_def b2_def)
  have s3: "a2 < b2 \<Longrightarrow> a2 div 1461 < b2 div 1461 \<or> (a2 div 1461 = b2 div 1461 \<and> a3 < b3)"
    using div_lex [of a2 b2 1461] by (simp add: a3_def b3_def)
  have s4: "a3 < b3 \<Longrightarrow> ae < be \<or> (ae = be \<and> d < d')"
    using capped_div [of a3 b3 365 3] by (simp add: ae_def be_def y(2) y'(2))
  show ?thesis
    using s1 s2 s3 s4 r2 r3 r4 r5 unfolding y(1) y'(1) by linarith
qed

lemma year_day_bounds:
  assumes "year_day n = (y, d)"
  shows "0 \<le> d" "d \<le> 365" "0 \<le> n \<Longrightarrow> 1 \<le> y" "n < 3652059 \<Longrightarrow> y \<le> 9999"
proof -
  define n1 where "n1 = n mod 146097"
  define n2 where "n2 = n1 - 36524 * min 3 (n1 div 36524)"
  define n3 where "n3 = n2 mod 1461"
  have "year_day n = (400 * (n div 146097) + 100 * min 3 (n1 div 36524) + 4 * (n2 div 1461) +
      min 3 (n3 div 365) + 1, n3 - 365 * min 3 (n3 div 365))"
    unfolding year_day_def Let_def n1_def n2_def n3_def by (rule refl)
  with assms
  have yd: "y = 400 * (n div 146097) + 100 * min 3 (n1 div 36524) + 4 * (n2 div 1461) + min 3 (n3 div 365) + 1"
      "d = n3 - 365 * min 3 (n3 div 365)"
    by simp_all
  have "0 \<le> n3" "n3 < 1461" "0 \<le> n1" "n1 < 146097" by (simp_all add: n3_def n1_def)
  then have c3: "0 \<le> min 3 (n3 div 365)" "0 \<le> d" "d \<le> 365" and c1: "0 \<le> min 3 (n1 div 36524)" "0 \<le> n2"
    using capped_rem [of n3 365 3] capped_rem [of n1 36524 3] by (simp_all add: yd(2) n2_def)
  then show "0 \<le> d" "d \<le> 365" by simp_all
  show "1 \<le> y" if "0 \<le> n"
  proof -
    have "0 \<le> n div 146097" "0 \<le> n2 div 1461" using that c1 by simp_all
    then show ?thesis unfolding yd(1) using c3 c1 by linarith
  qed
  have last: "year_day 3652058 = (9999, 364)" by (simp add: year_day_def)
  show "y \<le> 9999" if "n < 3652059"
    using that assms year_day_less [of n 3652058 y d 9999 364, OF _ assms last] last
    by (cases "n = 3652058") auto
qed

lemma month_day_less:
  assumes "l = 0 \<or> l = 1" "a < b"
  shows "fst (month_day l a) < fst (month_day l b) \<or>
         (fst (month_day l a) = fst (month_day l b) \<and> snd (month_day l a) < snd (month_day l b))"
  using assms unfolding month_day_def by (simp split: if_split)

lemma month_day_bounds:
  assumes "l = 0 \<or> l = 1" "0 \<le> yd" "yd \<le> 365"
  shows "0 \<le> fst (month_day l yd)" "fst (month_day l yd) < 100"
    "0 \<le> snd (month_day l yd)" "snd (month_day l yd) < 100"
  using assms unfolding month_day_def by (simp_all split: if_split) auto

lemma civil_less:
  assumes "a < b" "civil a = (y, m, d)" "civil b = (y', m', d')"
  shows "y < y' \<or> (y = y' \<and> (m < m' \<or> (m = m' \<and> d < d')))"
proof -
  obtain e e' where e: "year_day a = (y, e)" "(m, d) = month_day (if is_leap y then 1 else 0) e"
    and e': "year_day b = (y', e')" "(m', d') = month_day (if is_leap y' then 1 else 0) e'"
    using assms(2,3) by (auto simp: civil_def split: prod.splits)
  from year_day_less [OF assms(1) e(1) e'(1)] show ?thesis
    using month_day_less [of "if is_leap y then 1 else 0" e e'] e(2) e'(2) by (auto split: if_splits) (metis fst_conv snd_conv)+
qed

lemma civil_bounds:
  assumes "civil n = (y, m, d)" "0 \<le> n" "n < 3652059"
  shows "0 \<le> y" "y < 10 ^ 4" "0 \<le> m" "m < 10 ^ 2" "0 \<le> d" "d < 10 ^ 2"
proof -
  obtain e where e: "year_day n = (y, e)" "(m, d) = month_day (if is_leap y then 1 else 0) e"
    using assms(1) by (auto simp: civil_def split: prod.splits)
  note b = year_day_bounds [OF e(1)]
  have "0 \<le> fst (m, d)" "fst (m, d) < 100" "0 \<le> snd (m, d)" "snd (m, d) < 100"
    unfolding e(2) using b(1,2) by (intro month_day_bounds; simp)+
  with b assms show "0 \<le> y" "y < 10 ^ 4" "0 \<le> m" "m < 10 ^ 2" "0 \<le> d" "d < 10 ^ 2" by simp_all
qed

subsection \<open>The order of the texts is the order of the times\<close>

text \<open>The first instant of the year 10000.\<close>

definition year_10000 :: time where
  "year_10000 = 3652059 * 86400 * second"

lemma clock_bounds:
  fixes r :: int
  assumes "0 \<le> r" "r < 86400"
  shows "0 \<le> r div 3600" "r div 3600 < 10 ^ 2" "0 \<le> r div 60 mod 60" "r div 60 mod 60 < 10 ^ 2"
    "0 \<le> r mod 60" "r mod 60 < 10 ^ 2"
  using assms by simp_all

lemma clock_less:
  fixes a b :: int
  assumes "a < b"
  shows "a div 3600 < b div 3600 \<or> (a div 3600 = b div 3600 \<and>
    (a div 60 mod 60 < b div 60 mod 60 \<or> (a div 60 mod 60 = b div 60 mod 60 \<and> a mod 60 < b mod 60)))"
proof -
  have h: "x div 3600 = x div 60 div 60" for x :: int
    by (simp add: zdiv_zmult2_eq [symmetric])
  have "(0 :: int) < 60" by simp
  from div_lex [OF assms this] show ?thesis
  proof (elim disjE conjE)
    assume "a div 60 < b div 60"
    from div_lex [OF this \<open>0 < 60\<close>] show ?thesis unfolding h by blast
  next
    assume "a div 60 = b div 60" "a mod 60 < b mod 60"
    then show ?thesis unfolding h by (simp only: simp_thms)
  qed
qed

lemma time_less:
  assumes "t < (u :: time)"
  shows "t div second div 86400 < u div second div 86400 \<or>
    (t div second div 86400 = u div second div 86400 \<and>
      (t div second mod 86400 < u div second mod 86400 \<or>
       (t div second mod 86400 = u div second mod 86400 \<and> t mod second < u mod second)))"
  using div_lex [OF assms, of second] div_lex [of "t div second" "u div second" 86400]
  by (auto simp: second_def)

lemma lex_fields:
  fixes y m d h i s n :: int
  assumes "(y < y' \<or> (y = y' \<and> (m < m' \<or> (m = m' \<and> d < d')))) \<or>
    (y = y' \<and> m = m' \<and> d = d' \<and>
      ((h < h' \<or> (h = h' \<and> (i < i' \<or> (i = i' \<and> s < s')))) \<or>
       (h = h' \<and> i = i' \<and> s = s' \<and> n < n')))"
  shows "[y, m, d, h, i, s, n] < [y', m', d', h', i', s', n']"
  using assms by auto

lemma time_fields_less:
  assumes "t < u"
  shows "time_fields t < time_fields u"
proof -
  obtain y m d where c: "civil (t div second div 86400) = (y, m, d)" by (metis prod_cases3)
  obtain y' m' d' where c': "civil (u div second div 86400) = (y', m', d')" by (metis prod_cases3)
  define rt ru where "rt = t div second mod 86400" and "ru = u div second mod 86400"
  have fields: "time_fields t = [y, m, d, rt div 3600, rt div 60 mod 60, rt mod 60, t mod second]"
    "time_fields u = [y', m', d', ru div 3600, ru div 60 mod 60, ru mod 60, u mod second]"
    by (simp_all only: time_fields_def Let_def c c' rt_def ru_def prod.case)
  from time_less [OF assms] consider
      "t div second div 86400 < u div second div 86400"
    | "t div second div 86400 = u div second div 86400" "rt < ru"
    | "t div second div 86400 = u div second div 86400" "rt = ru" "t mod second < u mod second"
    unfolding rt_def ru_def by blast
  then show ?thesis
  proof cases
    case 1
    from civil_less [OF this c c'] show ?thesis unfolding fields by (rule lex_fields [OF disjI1])
  next
    case 2
    with c c' have "y = y'" "m = m'" "d = d'" by (simp_all only: prod.inject)
    with clock_less [OF 2(2)] show ?thesis unfolding fields by (intro lex_fields) blast
  next
    case 3
    with c c' have "y = y'" "m = m'" "d = d'" by (simp_all only: prod.inject)
    with 3 show ?thesis unfolding fields by (intro lex_fields) simp
  qed
qed

lemma time_fields_fit:
  assumes "0 \<le> t" "t < year_10000"
  shows "fits sqliteTimeFormat (time_fields t)"
proof -
  obtain y m d where c: "civil (t div second div 86400) = (y, m, d)" by (metis prod_cases3)
  have "0 \<le> t div second div 86400" "t div second div 86400 < 3652059"
    using assms by (simp_all add: year_10000_def second_def)
  note b = civil_bounds [OF c this]
  have "0 \<le> t div second mod 86400" "t div second mod 86400 < 86400" by simp_all
  note k = clock_bounds [OF this]
  have "0 \<le> t mod second" "t mod second < 10 ^ 9" by (simp_all add: second_def)
  with b k show ?thesis
    by (simp only: time_fields_def Let_def c prod.case sqliteTimeFormat_def fits.simps simp_thms)
qed

lemma sqlite_time_mono:
  assumes "0 \<le> t" "t < u" "u < year_10000"
  shows "sqlite_time t < sqlite_time u"
  unfolding sqlite_time_def
  using assms by (intro render_less time_fields_fit time_fields_less) simp_all

lemma sqlite_time_less_iff:
  assumes "0 \<le> t" "t < year_10000" "0 \<le> u" "u < year_10000"
  shows "sqlite_time t < sqlite_time u \<longleftrightarrow> t < u"
  using sqlite_time_mono [of t u] sqlite_time_mono [of u t] assms
  by (metis less_asym' linorder_neqE_linordered_idom order_less_irrefl)

lemma sqlite_time_le_iff:
  assumes "0 \<le> t" "t < year_10000" "0 \<le> u" "u < year_10000"
  shows "sqlite_time t \<le> sqlite_time u \<longleftrightarrow> t \<le> u"
  using sqlite_time_less_iff [of u t] assms by (simp add: not_less [symmetric])

text \<open>The text column sorts like the clock.  From the year 1 to the end of the year 9999 the
  fixed-width texts the SQLite window stores are ordered lexically exactly as the times they render,
  to the nanosecond, so \<^verbatim>\<open>ORDER BY detected_at\<close> is the order of detection.\<close>

theorem sqlite_time_chronological:
  assumes "0 \<le> t" "t < year_10000" "0 \<le> u" "u < year_10000"
  shows "(sqlite_time t < sqlite_time u \<longleftrightarrow> t < u) \<and> (sqlite_time t = sqlite_time u \<longleftrightarrow> t = u)"
  using sqlite_time_less_iff [OF assms] sqlite_time_less_iff [OF assms(3,4,1,2)]
  by (metis less_irrefl linorder_neqE_linordered_idom)

theorem sqlite_time_chronological_witness:
  "sqlite_time 63000000000300000000 < sqlite_time 63000000000350000000"
  using sqlite_time_chronological [of 63000000000300000000 63000000000350000000]
  by (simp add: year_10000_def second_def)

end
