(* ===== verification/Feed_Store.thy ===== *)
theory Feed_Store
  imports State_Store Time_Text TLS_Config "HOL-Library.Multiset"
begin

section \<open>The rolling window of the feed sink (\<^verbatim>\<open>internal/sink/feed/store*.go\<close>)\<close>

text \<open>
  The feed sink keeps the most recent changes in a window and renders them newest first.  \<open>FeedStore\<close>
  is the interface of \<^verbatim>\<open>store.go\<close>; the locale \<open>window_store\<close> says what a backend promises, and both the
  map in memory and the SQL tables (SQLite and PostgreSQL) are shown to keep the promise.  The locale
  gives the main fact once for all: as long as changes arrive in the order of their detection times,
  the bounded, pruned window renders exactly like a table from which nothing was ever deleted.

  What the backends do not determine is an argument: \<open>visit\<close> is the order in which a Go map is
  iterated or a table scanned, which decides between changes detected at the same instant
  (\<^verbatim>\<open>sort.Slice\<close> and \<^verbatim>\<open>ORDER BY\<close> are then a stable sort of that order); \<open>enc\<close> and \<open>dec\<close> are
  \<^verbatim>\<open>encoding/json\<close>; \<open>fault\<close> says which statement fails.  The capacity is a natural number: the validation
  rejects a negative \<^verbatim>\<open>max_items\<close>.
\<close>

record 's FeedStore =
  fsWrite :: "ctx \<Rightarrow> change \<Rightarrow> 's \<Rightarrow> go_error option \<times> 's"
  fsRecent :: "ctx \<Rightarrow> nat \<Rightarrow> 's \<Rightarrow> change list result \<times> 's"
  fsPing :: "ctx \<Rightarrow> 's \<Rightarrow> go_error option \<times> 's"
  fsClose :: "'s \<Rightarrow> go_error option \<times> 's"

text \<open>\<^verbatim>\<open>validIdentifier\<close> ranges over the runes of the table name; a rune of more than one byte is
  refused.\<close>

fun id_runes :: "nat \<Rightarrow> string list \<Rightarrow> bool" where
  "id_runes i [] = True"
| "id_runes i (r # rs) =
     ((case r of
         [c] \<Rightarrow> c = CHR ''_'' \<or> (97 \<le> byte c \<and> byte c \<le> 122) \<or> (65 \<le> byte c \<and> byte c \<le> 90) \<or>
                (48 \<le> byte c \<and> byte c \<le> 57 \<and> i > 0)
       | _ \<Rightarrow> False) \<and> id_runes (i + length r) rs)"

definition validIdentifier :: "string \<Rightarrow> bool" where
  "validIdentifier s = (if s = [] \<or> length s > 63 then False else id_runes 0 (runes s))"

subsection \<open>Newest first\<close>

definition newest_first :: "('a \<Rightarrow> 'c :: linorder) \<Rightarrow> 'a list \<Rightarrow> 'a list" where
  "newest_first tm xs = rev (sort_key tm (rev xs))"

definition newest_sorted :: "('a \<Rightarrow> 'c :: linorder) \<Rightarrow> 'a list \<Rightarrow> bool" where
  "newest_sorted tm xs \<longleftrightarrow> sorted_wrt (\<lambda>x y. tm y \<le> tm x) xs"

lemma newest_first_sorted [simp]: "newest_sorted tm (newest_first tm xs)"
  using sorted_sort_key [of tm "rev xs"]
  by (simp add: newest_first_def newest_sorted_def sorted_wrt_rev sorted_wrt_map)

lemma mset_newest_first [simp]: "mset (newest_first tm xs) = mset xs"
  by (simp add: newest_first_def)

lemma set_newest_first [simp]: "set (newest_first tm xs) = set xs"
  by (simp add: newest_first_def)

lemma length_newest_first [simp]: "length (newest_first tm xs) = length xs"
  by (simp add: newest_first_def)

lemma newest_sorted_append:
  "newest_sorted tm (xs @ ys) \<longleftrightarrow>
     newest_sorted tm xs \<and> newest_sorted tm ys \<and> (\<forall>x\<in>set xs. \<forall>y\<in>set ys. tm y \<le> tm x)"
  by (simp add: newest_sorted_def sorted_wrt_append)

lemma newest_first_take_drop:
  "x \<in> set (take n (newest_first tm xs)) \<Longrightarrow> y \<in> set (drop n (newest_first tm xs)) \<Longrightarrow> tm y \<le> tm x"
  using newest_first_sorted [of tm xs] newest_sorted_append [of tm "take n (newest_first tm xs)" "drop n (newest_first tm xs)"]
  by simp

text \<open>The specification of a read: \<open>xs\<close> are the \<open>n\<close> newest of the changes, in order, ties broken
  arbitrarily.\<close>

definition newest :: "('a \<Rightarrow> 'c :: linorder) \<Rightarrow> nat \<Rightarrow> 'a multiset \<Rightarrow> 'a list \<Rightarrow> bool" where
  "newest tm n M xs \<longleftrightarrow> (\<exists>ys. mset ys = M \<and> newest_sorted tm ys \<and> xs = take n ys)"

text \<open>Elements no newer than everything in \<open>M\<close> do not matter when \<open>M\<close> has at least \<open>n\<close>.\<close>

lemma newest_add_old:
  assumes "newest tm n M xs" "D = {#} \<or> n \<le> size M" "\<forall>x\<in>#M. \<forall>y\<in>#D. tm y \<le> tm x"
  shows "newest tm n (M + D) xs"
proof (cases "D = {#}")
  case True
  with assms(1) show ?thesis by simp
next
  case False
  from assms(1) obtain ys where ys: "mset ys = M" "newest_sorted tm ys" "xs = take n ys"
    by (auto simp: newest_def)
  obtain ds where ds: "mset ds = D" by (metis ex_mset)
  let ?zs = "ys @ newest_first tm ds"
  have sets: "set ys = set_mset M" "set ds = set_mset D" using ys(1) ds by auto
  have "mset ?zs = M + D" using ys(1) ds by simp
  moreover have "newest_sorted tm ?zs"
    using ys(2) assms(3) sets by (simp add: newest_sorted_append)
  moreover have "xs = take n ?zs"
    using ys assms(2) False size_mset [of ys] by simp
  ultimately show ?thesis unfolding newest_def by blast
qed

subsection \<open>Runs of writes\<close>

text \<open>A run of writes, of which some may fail: the changes that were written, and the store left.\<close>

fun store_all :: "'s FeedStore \<Rightarrow> ctx \<Rightarrow> change list \<Rightarrow> 's \<Rightarrow> change list \<times> 's" where
  "store_all st c [] s = ([], s)"
| "store_all st c (x # xs) s =
     (case fsWrite st c x s of
        (None, s') \<Rightarrow> (case store_all st c xs s' of (ys, s'') \<Rightarrow> (x # ys, s''))
      | (Some e, s') \<Rightarrow> store_all st c xs s')"

text \<open>The specification: a table to which every change is written and from which nothing is deleted.\<close>

definition table_of :: "(change \<Rightarrow> 'k) \<Rightarrow> (change \<Rightarrow> 'v) \<Rightarrow> change list \<Rightarrow> ('k \<times> 'v) list \<Rightarrow> ('k \<times> 'v) list" where
  "table_of key stamp xs rs = fold (\<lambda>x. upsert_row (key x) (stamp x)) xs rs"

lemma store_all_subset: "store_all st c xs s = (ys, s') \<Longrightarrow> set ys \<subseteq> set xs"
  by (induction st c xs s arbitrary: ys s' rule: store_all.induct) (force split: prod.splits option.splits)+

lemma set_upsert_row_subset: "set (upsert_row k v rs) \<subseteq> insert (k, v) (set rs)"
  by (induction k v rs rule: upsert_row.induct) auto

lemma table_of_values: "snd ` set (table_of key stamp xs rs) \<subseteq> stamp ` set xs \<union> snd ` set rs"
proof (induction xs arbitrary: rs)
  case (Cons x xs)
  have "snd ` set (upsert_row (key x) (stamp x) rs) \<subseteq> insert (stamp x) (snd ` set rs)"
    using set_upsert_row_subset [of "key x" "stamp x" rs] by force
  with Cons [of "upsert_row (key x) (stamp x) rs"] show ?case by (auto simp: table_of_def)
qed (simp add: table_of_def)

lemma map_upsert_row:
  "map (\<lambda>(k, v). (k, f v)) (upsert_row k v rs) = upsert_row k (f v) (map (\<lambda>(k, v). (k, f v)) rs)"
  by (induction k v rs rule: upsert_row.induct) auto

lemma map_table_of:
  "map (\<lambda>(k, v). (k, f v)) (table_of key stamp xs rs) =
     table_of key (\<lambda>x. f (stamp x)) xs (map (\<lambda>(k, v). (k, f v)) rs)"
  by (induction xs arbitrary: rs) (simp_all add: table_of_def map_upsert_row)

subsection \<open>What a backend promises\<close>

text \<open>
  \<open>rows s\<close> are the stored values by key.  \<open>stamp\<close> is what a backend stores of a change, \<open>view\<close> what it
  reads back, and \<open>tm\<close> what it orders by (a column may be coarser than the clock).  A write that
  succeeds inserts or overwrites one row; it may then prune, and if it does, it keeps a newest part
  of the rows, as many as the capacity.
\<close>

locale window_store =
  fixes st :: "'s FeedStore"
    and ok :: "'s \<Rightarrow> bool"
    and rows :: "'s \<Rightarrow> ('k \<times> 'v) list"
    and key :: "change \<Rightarrow> 'k"
    and tm :: "'v \<Rightarrow> 'c :: linorder"
    and stamp :: "change \<Rightarrow> 'v"
    and view :: "'v \<Rightarrow> change"
    and cap :: nat
  assumes keys_distinct: "ok s \<Longrightarrow> distinct (map fst (rows s))"
    and failed: "ok s \<Longrightarrow> fsWrite st c x s = (Some e, s') \<Longrightarrow> ok s' \<and> rows s' = rows s"
    and written: "ok s \<Longrightarrow> fsWrite st c x s = (None, s') \<Longrightarrow>
        ok s' \<and>
        (rows s' = upsert_row (key x) (stamp x) (rows s) \<or>
         (\<exists>kept. rows s' = filter (\<lambda>p. fst p \<in> kept) (upsert_row (key x) (stamp x) (rows s)) \<and>
            length (rows s') = min cap (length (upsert_row (key x) (stamp x) (rows s))) \<and>
            (\<forall>p\<in>set (upsert_row (key x) (stamp x) (rows s)).
             \<forall>q\<in>set (upsert_row (key x) (stamp x) (rows s)).
               fst p \<in> kept \<longrightarrow> fst q \<notin> kept \<longrightarrow> tm (snd q) \<le> tm (snd p))))"
    and recent: "ok s \<Longrightarrow> fsRecent st c n s = (Inr xs, s') \<Longrightarrow>
        ok s' \<and> rows s' = rows s \<and> (\<exists>vs. newest tm n (mset (map snd (rows s))) vs \<and> xs = map view vs)"
begin

text \<open>The window \<open>w\<close> agrees with the full table \<open>f\<close> on what matters: it is part of it, and what is
  missing is no newer than anything kept, and only missing because the window is full.\<close>

definition window_of :: "('k \<times> 'v) list \<Rightarrow> ('k \<times> 'v) list \<Rightarrow> bool" where
  "window_of f w \<longleftrightarrow> distinct (map fst f) \<and> distinct (map fst w) \<and> set w \<subseteq> set f \<and>
     (\<forall>p\<in>set f - set w. cap \<le> length w \<and> (\<forall>q\<in>set w. tm (snd p) \<le> tm (snd q)))"

lemma window_ofI:
  assumes "distinct (map fst f)" "distinct (map fst w)" "set w \<subseteq> set f"
    and "\<And>p. p \<in> set f \<Longrightarrow> p \<notin> set w \<Longrightarrow> cap \<le> length w \<and> (\<forall>q\<in>set w. tm (snd p) \<le> tm (snd q))"
  shows "window_of f w"
  using assms unfolding window_of_def by blast

lemma window_of_refl: "distinct (map fst w) \<Longrightarrow> window_of w w"
  by (simp add: window_of_def)

lemma window_of_upsert:
  assumes "window_of f w" "\<forall>p\<in>set f. tm (snd p) \<le> tm v"
  shows "window_of (upsert_row k v f) (upsert_row k v w)"
proof -
  from assms(1) have d: "distinct (map fst f)" "distinct (map fst w)" and sub: "set w \<subseteq> set f"
    and old: "\<And>p. p \<in> set f \<Longrightarrow> p \<notin> set w \<Longrightarrow> cap \<le> length w \<and> (\<forall>q\<in>set w. tm (snd p) \<le> tm (snd q))"
    by (auto simp: window_of_def)
  have "cap \<le> length (upsert_row k v w) \<and> (\<forall>q\<in>set (upsert_row k v w). tm (snd p) \<le> tm (snd q))"
    if p: "p \<in> set (upsert_row k v f)" "p \<notin> set (upsert_row k v w)" for p
  proof -
    from p d have "p \<in> set f" "p \<notin> set w" "fst p \<noteq> k" by (auto simp: set_upsert_row)
    with old assms(2) have "cap \<le> length w" "\<forall>q\<in>set w. tm (snd p) \<le> tm (snd q)" "tm (snd p) \<le> tm v"
      by auto
    then show ?thesis
      using length_upsert_row(1) [of w k v] d by (auto simp: set_upsert_row)
  qed
  moreover have "set (upsert_row k v w) \<subseteq> set (upsert_row k v f)"
    using d sub by (auto simp: set_upsert_row)
  ultimately show ?thesis
    using d by (intro window_ofI) (simp_all add: distinct_upsert_row)
qed

lemma window_of_prune:
  assumes "window_of f w" "w' = filter (\<lambda>p. fst p \<in> kept) w" "length w' = min cap (length w)"
    and newer: "\<forall>p\<in>set w. \<forall>q\<in>set w. fst p \<in> kept \<longrightarrow> fst q \<notin> kept \<longrightarrow> tm (snd q) \<le> tm (snd p)"
  shows "window_of f w'"
proof -
  from assms(1) have d: "distinct (map fst f)" "distinct (map fst w)" and sub: "set w \<subseteq> set f"
    and old: "\<And>p. p \<in> set f \<Longrightarrow> p \<notin> set w \<Longrightarrow> cap \<le> length w \<and> (\<forall>q\<in>set w. tm (snd p) \<le> tm (snd q))"
    by (auto simp: window_of_def)
  have "cap \<le> length w' \<and> (\<forall>q\<in>set w'. tm (snd p) \<le> tm (snd q))" if p: "p \<in> set f" "p \<notin> set w'" for p
  proof (cases "p \<in> set w")
    case True
    with p assms(2) have "fst p \<notin> kept" by simp
    have "length w' < length w" using True p(2) assms(2)
      by (metis (no_types, lifting) length_filter_less mem_Collect_eq set_filter)
    with assms(3) have "cap \<le> length w'" by simp
    with newer True \<open>fst p \<notin> kept\<close> assms(2) show ?thesis by auto
  next
    case False
    with old [OF p(1)] assms(2,3) show ?thesis by auto
  qed
  moreover have "set w' \<subseteq> set f" using assms(2) sub by auto
  moreover have "distinct (map fst w')" using d assms(2) by (simp add: distinct_map_filter)
  ultimately show ?thesis using d by (intro window_ofI)
qed

text \<open>Reading from the window is reading from the full table.\<close>

lemma window_of_newest:
  assumes "window_of f w" "newest tm n (mset (map snd w)) vs" "n \<le> cap"
  shows "newest tm n (mset (map snd f)) vs"
proof -
  from assms(1) have d: "distinct f" "distinct w" and sub: "set w \<subseteq> set f"
    by (auto simp: window_of_def distinct_map)
  let ?D = "filter (\<lambda>p. p \<notin> set w) f"
  have "filter_mset (\<lambda>p. p \<in> set w) (mset f) = mset w"
  proof (rule multiset_eqI)
    show "count (filter_mset (\<lambda>p. p \<in> set w) (mset f)) x = count (mset w) x" for x
      using d sub distinct_count_atmost_1 [of f] distinct_count_atmost_1 [of w] by (cases x) auto
  qed
  then have "mset f = mset w + mset ?D"
    using multiset_partition [of "mset f" "\<lambda>p. p \<in> set w"] by simp
  then have split: "mset (map snd f) = mset (map snd w) + mset (map snd ?D)"
    by (metis image_mset_union mset_map)
  show ?thesis unfolding split
  proof (rule newest_add_old [OF assms(2)])
    show "mset (map snd ?D) = {#} \<or> n \<le> size (mset (map snd w))"
    proof (cases "?D = []")
      case False
      then obtain p where "p \<in> set f - set w" by (auto simp: filter_empty_conv)
      with assms(1,3) show ?thesis by (fastforce simp: window_of_def)
    qed simp
    show "\<forall>x\<in>#mset (map snd w). \<forall>y\<in>#mset (map snd ?D). tm y \<le> tm x"
      using assms(1) by (fastforce simp: window_of_def)
  qed
qed

lemma store_all_window:
  assumes "ok s" "window_of f (rows s)" "\<forall>p\<in>set f. \<forall>x\<in>set xs. tm (snd p) \<le> tm (stamp x)"
    and "sorted (map (\<lambda>x. tm (stamp x)) xs)" "store_all st c xs s = (ys, s')"
  shows "ok s' \<and> window_of (table_of key stamp ys f) (rows s')"
  using assms
proof (induction xs arbitrary: s f ys)
  case Nil
  then show ?case by (simp add: table_of_def)
next
  case (Cons x xs)
  show ?case
  proof (cases "fst (fsWrite st c x s)")
    case (Some e)
    then obtain s1 where w: "fsWrite st c x s = (Some e, s1)" by (metis prod.collapse)
    with Cons.prems failed [OF Cons.prems(1) w] show ?thesis by (intro Cons.IH) auto
  next
    case None
    then obtain s1 where w: "fsWrite st c x s = (None, s1)" by (metis prod.collapse)
    then obtain zs where zs: "ys = x # zs" "store_all st c xs s1 = (zs, s')"
      using Cons.prems(5) by (auto split: prod.splits)
    let ?f = "upsert_row (key x) (stamp x) f" and ?w = "upsert_row (key x) (stamp x) (rows s)"
    have up: "window_of ?f ?w"
      using Cons.prems(3) by (intro window_of_upsert [OF Cons.prems(2)]) simp
    from written [OF Cons.prems(1) w] have "ok s1" "window_of ?f (rows s1)"
      using up window_of_prune [OF up] by auto
    moreover have "\<forall>p\<in>set ?f. \<forall>y\<in>set xs. tm (snd p) \<le> tm (stamp y)"
      using Cons.prems(2,3,4) by (auto simp: set_upsert_row window_of_def)
    ultimately have "ok s' \<and> window_of (table_of key stamp zs ?f) (rows s')"
      using Cons.prems(4) zs(2) by (intro Cons.IH) auto
    then show ?thesis by (simp add: zs table_of_def)
  qed
qed

lemma recent_of_full:
  assumes "ok s" "rows s = []" "sorted (map (\<lambda>x. tm (stamp x)) xs)" "store_all st c xs s = (ys, s1)"
    and "fsRecent st c' n s1 = (Inr zs, s2)" "n \<le> cap"
  shows "\<exists>vs. newest tm n (mset (map snd (table_of key stamp ys []))) vs \<and> zs = map view vs"
proof -
  have "window_of [] (rows s)" using assms(2) window_of_refl [of "[]"] by simp
  from store_all_window [OF assms(1) this _ assms(3,4)]
  have "ok s1" "window_of (table_of key stamp ys []) (rows s1)" by simp_all
  from recent [OF this(1) assms(5)] window_of_newest [OF this(2)] assms(6) show ?thesis by blast
qed

end

subsection \<open>The window in memory (\<^verbatim>\<open>store_memory.go\<close>)\<close>

record memoryStore =
  msMax :: nat
  byKey :: "(string \<times> change) list"

definition newMemoryStore :: "nat \<Rightarrow> memoryStore" where
  "newMemoryStore n = \<lparr>msMax = n, byKey = []\<rparr>"

definition mem_key :: "change \<Rightarrow> string" where
  "mem_key c = FeedURL c @ [char_of (10 :: nat)] @ ItemID c"

text \<open>\<open>visit\<close> ranks the keys in the order in which this iteration of the map meets them.\<close>

type_synonym 's visit_rank = "'s \<Rightarrow> string \<Rightarrow> nat"

definition visit_map :: "'s visit_rank \<Rightarrow> 's \<Rightarrow> (string \<times> change) list \<Rightarrow> (string \<times> change) list" where
  "visit_map visit s m = sort_key (\<lambda>p. visit s (fst p)) m"

definition pruneLocked :: "'z memoryStore_scheme visit_rank \<Rightarrow> 'z memoryStore_scheme \<Rightarrow> 'z memoryStore_scheme" where
  "pruneLocked visit m =
     (let all = newest_first (\<lambda>p. DetectedAt (snd p)) (visit_map visit m (byKey m));
          gone = map fst (drop (msMax m) all)
      in m\<lparr>byKey := filter (\<lambda>p. fst p \<notin> set gone) (byKey m)\<rparr>)"

definition memory_Write ::
    "'z memoryStore_scheme visit_rank \<Rightarrow> ctx \<Rightarrow> change \<Rightarrow> 'z memoryStore_scheme \<Rightarrow>
     go_error option \<times> 'z memoryStore_scheme" where
  "memory_Write visit c x m =
     (let m1 = m\<lparr>byKey := upsert_row (mem_key x) x (byKey m)\<rparr>
      in (None, (if length (byKey m1) > msMax m1 then pruneLocked visit m1 else m1)))"

definition memory_Recent ::
    "'z memoryStore_scheme visit_rank \<Rightarrow> ctx \<Rightarrow> nat \<Rightarrow> 'z memoryStore_scheme \<Rightarrow>
     change list result \<times> 'z memoryStore_scheme" where
  "memory_Recent visit c n m =
     (let all = newest_first DetectedAt (map snd (visit_map visit m (byKey m)))
      in (Inr (if n < length all then take n all else all), m))"

definition memory_window :: "'z memoryStore_scheme visit_rank \<Rightarrow> 'z memoryStore_scheme FeedStore" where
  "memory_window visit =
     \<lparr>fsWrite = memory_Write visit, fsRecent = memory_Recent visit,
      fsPing = (\<lambda>c s. (None, s)), fsClose = (\<lambda>s. (None, s))\<rparr>"

lemma mset_visit_map [simp]: "mset (visit_map visit s m) = mset m"
  by (simp add: visit_map_def)

lemma set_visit_map [simp]: "set (visit_map visit s m) = set m"
  by (simp add: visit_map_def)

lemma length_visit_map [simp]: "length (visit_map visit s m) = length m"
  by (simp add: visit_map_def)

text \<open>Dropping the keys behind the first \<open>n\<close> of a list is keeping the keys of the first \<open>n\<close>.\<close>

lemma distinct_keys_perm: "mset ys = mset xs \<Longrightarrow> distinct (map fst xs) \<Longrightarrow> distinct (map fst ys)"
  by (metis mset_eq_imp_distinct_iff mset_map)

lemma prune_keeps:
  fixes ys xs :: "('k \<times> 'v) list"
  assumes "mset ys = mset xs" "distinct (map fst xs)"
  shows "length (filter (\<lambda>p. fst p \<in> fst ` set (take n ys)) xs) = min n (length xs)"
    and "p \<in> set xs \<Longrightarrow> fst p \<in> fst ` set (take n ys) \<longleftrightarrow> p \<in> set (take n ys)"
    and "p \<in> set xs \<Longrightarrow> fst p \<in> fst ` set (drop n ys) \<longleftrightarrow> p \<in> set (drop n ys)"
    and "p \<in> set xs \<Longrightarrow> p \<in> set (drop n ys) \<longleftrightarrow> p \<notin> set (take n ys)"
proof -
  have d: "distinct (map fst ys)" by (rule distinct_keys_perm [OF assms])
  then have inj: "inj_on fst (set ys)" and dy: "distinct (take n ys @ drop n ys)"
    by (simp_all add: distinct_map)
  have set_ys: "set ys = set xs" using assms(1) by (rule mset_eq_setD)
  have len: "length ys = length xs" using assms(1) by (rule mset_eq_length)
  have mem: "fst p \<in> fst ` set (take n ys) \<longleftrightarrow> p \<in> set (take n ys)" if "p \<in> set xs" for p
    using that set_ys by (intro inj_on_image_mem_iff [OF inj]) (auto dest: in_set_takeD)
  then show "p \<in> set xs \<Longrightarrow> fst p \<in> fst ` set (take n ys) \<longleftrightarrow> p \<in> set (take n ys)" .
  show "p \<in> set xs \<Longrightarrow> fst p \<in> fst ` set (drop n ys) \<longleftrightarrow> p \<in> set (drop n ys)"
    using set_ys by (intro inj_on_image_mem_iff [OF inj]) (auto dest: in_set_dropD)
  have "set (take n ys) \<union> set (drop n ys) = set ys" by (metis append_take_drop_id set_append)
  then show "p \<in> set xs \<Longrightarrow> p \<in> set (drop n ys) \<longleftrightarrow> p \<notin> set (take n ys)"
    using dy set_ys by (auto simp del: append_take_drop_id)
  have "filter (\<lambda>p. p \<in> set (take n ys)) (take n ys @ drop n ys) = take n ys"
    using dy by (simp only: filter_append distinct_append) (auto simp: filter_empty_conv)
  then have "length (filter (\<lambda>p. p \<in> set (take n ys)) ys) = length (take n ys)" by simp
  moreover have "mset (filter (\<lambda>p. p \<in> set (take n ys)) ys) = mset (filter (\<lambda>p. p \<in> set (take n ys)) xs)"
    using assms(1) by simp
  ultimately have "length (filter (\<lambda>p. p \<in> set (take n ys)) xs) = min n (length xs)"
    using len by (metis length_take min.commute mset_eq_length)
  moreover have "filter (\<lambda>p. fst p \<in> fst ` set (take n ys)) xs = filter (\<lambda>p. p \<in> set (take n ys)) xs"
    using mem by (intro filter_cong) simp_all
  ultimately show "length (filter (\<lambda>p. fst p \<in> fst ` set (take n ys)) xs) = min n (length xs)" by simp
qed

text \<open>The promise of pruning to the newest \<open>n\<close> rows, in the form the locale asks for.\<close>

lemma prune_promise:
  fixes tm :: "'v \<Rightarrow> 'c :: linorder"
  assumes "mset ys = mset xs" "distinct (map fst xs)" "zs = newest_first (\<lambda>p. tm (snd p)) ys"
    and "kept = fst ` set (take n zs)"
  shows "length (filter (\<lambda>p. fst p \<in> kept) xs) = min n (length xs)"
    and "p \<in> set xs \<Longrightarrow> q \<in> set xs \<Longrightarrow> fst p \<in> kept \<Longrightarrow> fst q \<notin> kept \<Longrightarrow> tm (snd q) \<le> tm (snd p)"
    and "p \<in> set xs \<Longrightarrow> fst p \<in> fst ` set (drop n zs) \<longleftrightarrow> fst p \<notin> kept"
proof -
  have m: "mset zs = mset xs" using assms(1,3) by simp
  note keeps = prune_keeps [OF m assms(2)]
  show "length (filter (\<lambda>p. fst p \<in> kept) xs) = min n (length xs)"
    unfolding assms(4) by (rule keeps(1))
  show "p \<in> set xs \<Longrightarrow> fst p \<in> fst ` set (drop n zs) \<longleftrightarrow> fst p \<notin> kept"
    unfolding assms(4) using keeps(2,3,4) by metis
  assume "p \<in> set xs" "q \<in> set xs" "fst p \<in> kept" "fst q \<notin> kept"
  then have "p \<in> set (take n zs)" "q \<in> set (drop n zs)"
    unfolding assms(4) using keeps(2,4) by metis+
  then show "tm (snd q) \<le> tm (snd p)"
    unfolding assms(3) by (rule newest_first_take_drop [where tm = "\<lambda>p. tm (snd p)"])
qed

text \<open>Reading the first \<open>n\<close> of the rows, newest first, is reading the newest \<open>n\<close>.\<close>

lemma newest_take:
  assumes "mset ys = M"
  shows "newest tm n M (take n (newest_first tm ys))"
  unfolding newest_def using assms by (intro exI [of _ "newest_first tm ys"]) simp

definition mem_ok :: "nat \<Rightarrow> 'z memoryStore_scheme \<Rightarrow> bool" where
  "mem_ok n m \<longleftrightarrow> msMax m = n \<and> distinct (map fst (byKey m)) \<and> length (byKey m) \<le> n"

lemma memory_Write_rows:
  assumes "mem_ok n m" "memory_Write visit c x m = (r, m')" "ins = upsert_row (mem_key x) x (byKey m)"
  shows "r = None" "mem_ok n m'" "byKey m' = ins \<or>
    (\<exists>kept. byKey m' = filter (\<lambda>p. fst p \<in> kept) ins \<and> length (byKey m') = min n (length ins) \<and>
       (\<forall>p\<in>set ins. \<forall>q\<in>set ins. fst p \<in> kept \<longrightarrow> fst q \<notin> kept \<longrightarrow>
          DetectedAt (snd q) \<le> DetectedAt (snd p)))"
proof -
  have d: "distinct (map fst ins)" and n: "msMax m = n"
    using assms(1,3) by (simp_all add: mem_ok_def distinct_upsert_row)
  show "r = None" using assms(2) by (simp add: memory_Write_def Let_def)
  have "mem_ok n m' \<and> (byKey m' = ins \<or>
    (\<exists>kept. byKey m' = filter (\<lambda>p. fst p \<in> kept) ins \<and> length (byKey m') = min n (length ins) \<and>
       (\<forall>p\<in>set ins. \<forall>q\<in>set ins. fst p \<in> kept \<longrightarrow> fst q \<notin> kept \<longrightarrow>
          DetectedAt (snd q) \<le> DetectedAt (snd p))))"
  proof (cases "length ins > n")
    case False
    then have "m' = m\<lparr>byKey := ins\<rparr>"
      using assms(2,3) n by (simp add: memory_Write_def Let_def)
    with False d n show ?thesis by (simp add: mem_ok_def)
  next
    case True
    define m1 where "m1 = m\<lparr>byKey := ins\<rparr>"
    define zs where "zs = newest_first (\<lambda>p. DetectedAt (snd p)) (visit_map visit m1 ins)"
    define kept where "kept = fst ` set (take n zs)"
    note pr = prune_promise [OF mset_visit_map d zs_def kept_def]
    have "m' = pruneLocked visit m1"
      using True assms(2,3) n by (simp add: memory_Write_def Let_def m1_def)
    then have "m' = m\<lparr>byKey := filter (\<lambda>p. fst p \<notin> fst ` set (drop n zs)) ins\<rparr>"
      using n by (simp add: pruneLocked_def Let_def m1_def zs_def)
    moreover have "filter (\<lambda>p. fst p \<notin> fst ` set (drop n zs)) ins = filter (\<lambda>p. fst p \<in> kept) ins"
      using pr(3) by (intro filter_cong) auto
    ultimately have m': "m' = m\<lparr>byKey := filter (\<lambda>p. fst p \<in> kept) ins\<rparr>" by simp
    have "mem_ok n m'" using m' n d pr(1) by (simp add: mem_ok_def distinct_map_filter)
    moreover have "length (byKey m') = min n (length ins)" using m' pr(1) by simp
    moreover have "\<forall>p\<in>set ins. \<forall>q\<in>set ins. fst p \<in> kept \<longrightarrow> fst q \<notin> kept \<longrightarrow>
        DetectedAt (snd q) \<le> DetectedAt (snd p)" using pr(2) by blast
    moreover have "byKey m' = filter (\<lambda>p. fst p \<in> kept) ins" using m' by simp
    ultimately show ?thesis by blast
  qed
  then show "mem_ok n m'" "byKey m' = ins \<or>
    (\<exists>kept. byKey m' = filter (\<lambda>p. fst p \<in> kept) ins \<and> length (byKey m') = min n (length ins) \<and>
       (\<forall>p\<in>set ins. \<forall>q\<in>set ins. fst p \<in> kept \<longrightarrow> fst q \<notin> kept \<longrightarrow>
          DetectedAt (snd q) \<le> DetectedAt (snd p)))" by blast+
qed

interpretation mem: window_store "memory_window visit" "mem_ok n" byKey mem_key DetectedAt "\<lambda>c. c" "\<lambda>c. c" n
  for visit n
proof (unfold_locales, goal_cases)
  case (1 s)
  then show ?case by (simp add: mem_ok_def)
next
  case (2 s c x e s')
  then show ?case by (simp add: memory_window_def memory_Write_def Let_def)
next
  case (3 s c x s')
  then have w: "memory_Write visit c x s = (None, s')" by (simp add: memory_window_def)
  show ?case using memory_Write_rows(2,3) [OF 3(1) w refl] by blast
next
  case (4 s c k xs s')
  then have "s' = s" and "xs = take k (newest_first DetectedAt (map snd (visit_map visit s (byKey s))))"
    by (auto simp: memory_window_def memory_Recent_def Let_def)
  moreover have "mset (map snd (visit_map visit s (byKey s))) = mset (map snd (byKey s))" by simp
  ultimately show ?case using 4(1) newest_take by (metis list.map_ident)
qed

subsection \<open>The window in a table (\<^verbatim>\<open>store_sqlite.go\<close>, \<^verbatim>\<open>store_postgres.go\<close>)\<close>

text \<open>
  Both SQL backends run the same statements.  They differ in the type of the column
  \<^verbatim>\<open>detected_at\<close>, the argument \<open>col\<close>: fixed-width text in SQLite, a time in microseconds in
  PostgreSQL.  \<open>sw_writes\<close> is the counter by which every sixteenth write prunes.
\<close>

datatype sql_stmt = InsertStmt | PruneStmt | SelectStmt

record 'c sql_window =
  sw_table :: "((string \<times> string) \<times> ('c \<times> string)) list"
  sw_max :: nat
  sw_writes :: int

type_synonym ('c, 'z) window_fault = "sql_stmt \<Rightarrow> ctx \<Rightarrow> ('c, 'z) sql_window_scheme \<Rightarrow> go_error option"
type_synonym ('c, 'z) scan_rank = "('c, 'z) sql_window_scheme \<Rightarrow> string \<times> string \<Rightarrow> nat"

definition scan_table ::
    "('c, 'z) scan_rank \<Rightarrow> ('c, 'z) sql_window_scheme \<Rightarrow> ((string \<times> string) \<times> ('c \<times> string)) list" where
  "scan_table rank s = sort_key (\<lambda>r. rank s (fst r)) (sw_table s)"

definition sql_prune ::
    "('c :: linorder, 'z) window_fault \<Rightarrow> ('c, 'z) scan_rank \<Rightarrow> ctx \<Rightarrow> ('c, 'z) sql_window_scheme \<Rightarrow>
     go_error option \<times> ('c, 'z) sql_window_scheme" where
  "sql_prune fault rank c s =
     (case fault PruneStmt c s of
        Some e \<Rightarrow> (Some e, s)
      | None \<Rightarrow>
          (let sel = map fst (take (sw_max s) (newest_first (\<lambda>r. fst (snd r)) (scan_table rank s)))
           in (None, s\<lparr>sw_table := filter (\<lambda>r. fst r \<in> set sel) (sw_table s)\<rparr>)))"

definition pruneEvery :: int where
  "pruneEvery = 16"

definition sql_Write ::
    "('c :: linorder, 'z) window_fault \<Rightarrow> ('c, 'z) scan_rank \<Rightarrow> (time \<Rightarrow> 'c) \<Rightarrow> (change \<Rightarrow> string result) \<Rightarrow>
     ctx \<Rightarrow> change \<Rightarrow> ('c, 'z) sql_window_scheme \<Rightarrow> go_error option \<times> ('c, 'z) sql_window_scheme" where
  "sql_Write fault rank col enc c x s =
     (case MarshalJSON enc x of
        Inl err \<Rightarrow> (Some err, s)
      | Inr payload \<Rightarrow>
          (case fault InsertStmt c s of
             Some err \<Rightarrow> (Some err, s)
           | None \<Rightarrow>
               (let w = wrap64 (sw_writes s + 1);
                    s1 = s\<lparr>sw_table := upsert_row (FeedURL x, ItemID x) (col (DetectedAt x), payload) (sw_table s),
                           sw_writes := w\<rparr>
                in (None, (if w mod pruneEvery = 0 then snd (sql_prune fault rank c s1) else s1)))))"

fun scan_rows :: "(string \<Rightarrow> change result) \<Rightarrow> string list \<Rightarrow> change list result" where
  "scan_rows dec [] = Inr []"
| "scan_rows dec (p # ps) =
     (case UnmarshalJSON dec p of
        Inl err \<Rightarrow> Inl err
      | Inr x \<Rightarrow> (case scan_rows dec ps of Inl err \<Rightarrow> Inl err | Inr xs \<Rightarrow> Inr (x # xs)))"

definition sql_Recent ::
    "('c :: linorder, 'z) window_fault \<Rightarrow> ('c, 'z) scan_rank \<Rightarrow> (string \<Rightarrow> change result) \<Rightarrow>
     ctx \<Rightarrow> nat \<Rightarrow> ('c, 'z) sql_window_scheme \<Rightarrow> change list result \<times> ('c, 'z) sql_window_scheme" where
  "sql_Recent fault rank dec c n s =
     (case fault SelectStmt c s of
        Some err \<Rightarrow> (Inl err, s)
      | None \<Rightarrow>
          (scan_rows dec (map (\<lambda>r. snd (snd r))
             (take n (newest_first (\<lambda>r. fst (snd r)) (scan_table rank s)))), s))"

definition sql_window_store ::
    "('c :: linorder, 'z) window_fault \<Rightarrow> ('c, 'z) scan_rank \<Rightarrow> (time \<Rightarrow> 'c) \<Rightarrow> (change \<Rightarrow> string result) \<Rightarrow>
     (string \<Rightarrow> change result) \<Rightarrow> (ctx \<Rightarrow> ('c, 'z) sql_window_scheme \<Rightarrow> go_error option) \<Rightarrow>
     (('c, 'z) sql_window_scheme \<Rightarrow> go_error option) \<Rightarrow> ('c, 'z) sql_window_scheme FeedStore" where
  "sql_window_store fault rank col enc dec ping clos =
     \<lparr>fsWrite = sql_Write fault rank col enc, fsRecent = sql_Recent fault rank dec,
      fsPing = (\<lambda>c s. (ping c s, s)), fsClose = (\<lambda>s. (clos s, s))\<rparr>"

definition sqlite_window where
  "sqlite_window fault rank enc dec ping clos = sql_window_store fault rank sqlite_time enc dec ping clos"

text \<open>A \<^verbatim>\<open>TIMESTAMPTZ\<close> has microseconds; the driver truncates.\<close>

definition pg_time :: "time \<Rightarrow> int" where
  "pg_time t = t div 1000"

definition postgres_window where
  "postgres_window fault rank enc dec ping clos = sql_window_store fault rank pg_time enc dec ping clos"

definition sql_ok :: "nat \<Rightarrow> ('c, 'z) sql_window_scheme \<Rightarrow> bool" where
  "sql_ok n s \<longleftrightarrow> sw_max s = n \<and> distinct (map fst (sw_table s))"

definition row_key :: "change \<Rightarrow> string \<times> string" where
  "row_key x = (FeedURL x, ItemID x)"

definition row_of :: "(time \<Rightarrow> 'c) \<Rightarrow> (change \<Rightarrow> string result) \<Rightarrow> change \<Rightarrow> 'c \<times> string" where
  "row_of col enc x =
     (col (DetectedAt x), (case MarshalJSON enc x of Inr p \<Rightarrow> p | Inl e \<Rightarrow> []))"

definition row_view :: "(string \<Rightarrow> change result) \<Rightarrow> 'c \<times> string \<Rightarrow> change" where
  "row_view dec r = projr (dec (snd r))"

lemma scan_table_perm [simp]: "mset (scan_table rank s) = mset (sw_table s)"
  by (simp add: scan_table_def)

lemma scan_rows_view:
  "scan_rows dec (map snd rs) = Inr xs \<Longrightarrow> xs = map (row_view dec) rs"
  by (induction rs arbitrary: xs) (auto simp: row_view_def UnmarshalJSON_def split: sum.splits)

lemma sql_prune_rows:
  assumes "sql_ok n s" "sql_prune fault rank c s = (r, s')"
  shows "sql_ok n s'" "sw_table s' = sw_table s \<or>
    (\<exists>kept. sw_table s' = filter (\<lambda>p. fst p \<in> kept) (sw_table s) \<and>
       length (sw_table s') = min n (length (sw_table s)) \<and>
       (\<forall>p\<in>set (sw_table s). \<forall>q\<in>set (sw_table s). fst p \<in> kept \<longrightarrow> fst q \<notin> kept \<longrightarrow>
          fst (snd q) \<le> fst (snd p)))"
    and "sw_writes s' = sw_writes s" "r = None \<Longrightarrow> length (sw_table s') \<le> n"
proof -
  have d: "distinct (map fst (sw_table s))" and n: "sw_max s = n" using assms(1) by (simp_all add: sql_ok_def)
  define zs where "zs = newest_first (\<lambda>r. fst (snd r)) (scan_table rank s)"
  define kept where "kept = fst ` set (take n zs)"
  note pr = prune_promise [where tm = fst, OF scan_table_perm d zs_def kept_def]
  have two: "s' = s \<and> r \<noteq> None \<or> s' = s\<lparr>sw_table := filter (\<lambda>p. fst p \<in> kept) (sw_table s)\<rparr>"
  proof (cases "fault PruneStmt c s")
    case (Some e)
    with assms(2) have "r = Some e" "s' = s" by (simp_all add: sql_prune_def)
    then show ?thesis by simp
  next
    case None
    with assms(2) n show ?thesis by (auto simp: sql_prune_def kept_def zs_def Let_def)
  qed
  then show "sql_ok n s'" "sw_writes s' = sw_writes s" "r = None \<Longrightarrow> length (sw_table s') \<le> n"
    using assms(1) d pr(1) by (auto simp: sql_ok_def distinct_map_filter)
  from two show "sw_table s' = sw_table s \<or>
    (\<exists>kept. sw_table s' = filter (\<lambda>p. fst p \<in> kept) (sw_table s) \<and>
       length (sw_table s') = min n (length (sw_table s)) \<and>
       (\<forall>p\<in>set (sw_table s). \<forall>q\<in>set (sw_table s). fst p \<in> kept \<longrightarrow> fst q \<notin> kept \<longrightarrow>
          fst (snd q) \<le> fst (snd p)))"
  proof
    assume s': "s' = s\<lparr>sw_table := filter (\<lambda>p. fst p \<in> kept) (sw_table s)\<rparr>"
    show ?thesis
      using pr(1,2) s' by (intro disjI2 exI [of _ kept]) simp
  qed simp
qed

lemma sql_Write_cases:
  assumes "sql_Write fault rank col enc c x s = (r, s')"
  obtains (failed) e where "r = Some e" "s' = s"
  | (written) s1 r1 where "r = None" "s1 = s\<lparr>sw_table := upsert_row (row_key x) (row_of col enc x) (sw_table s),
        sw_writes := wrap64 (sw_writes s + 1)\<rparr>"
      "if sw_writes s1 mod pruneEvery = 0 then sql_prune fault rank c s1 = (r1, s') else s' = s1"
proof (cases "MarshalJSON enc x")
  case (Inl e)
  with assms show thesis by (intro failed [of e]) (simp_all add: sql_Write_def)
next
  case (Inr p)
  show thesis
  proof (cases "fault InsertStmt c s")
    case (Some e)
    with assms Inr show thesis by (intro failed [of e]) (simp_all add: sql_Write_def)
  next
    case None
    let ?s1 = "s\<lparr>sw_table := upsert_row (row_key x) (row_of col enc x) (sw_table s),
        sw_writes := wrap64 (sw_writes s + 1)\<rparr>"
    from assms Inr None have "r = None"
      "s' = (if sw_writes ?s1 mod pruneEvery = 0 then snd (sql_prune fault rank c ?s1) else ?s1)"
      by (auto simp: sql_Write_def Let_def row_key_def row_of_def)
    then show thesis
      using written [OF _ refl, of "fst (sql_prune fault rank c ?s1)"] by (simp add: prod_eq_iff split: if_splits)
  qed
qed

interpretation sqlw: window_store "sql_window_store fault rank col enc dec ping clos" "sql_ok n" sw_table
    row_key fst "row_of col enc" "row_view dec" n
  for fault rank and col :: "time \<Rightarrow> 'c :: linorder" and enc dec ping clos n
proof (unfold_locales, goal_cases)
  case (1 s)
  then show ?case by (simp add: sql_ok_def)
next
  case (2 s c x e s')
  then have "sql_Write fault rank col enc c x s = (Some e, s')" by (simp add: sql_window_store_def)
  then show ?case using 2(1) by (cases rule: sql_Write_cases) simp_all
next
  case (3 s c x s')
  then have "sql_Write fault rank col enc c x s = (None, s')" by (simp add: sql_window_store_def)
  then show ?case
  proof (cases rule: sql_Write_cases)
    case (written s1 r1)
    have ok: "sql_ok n s1" using 3(1) written(2) by (simp add: sql_ok_def distinct_upsert_row)
    have t: "sw_table s1 = upsert_row (row_key x) (row_of col enc x) (sw_table s)" using written(2) by simp
    show ?thesis
    proof (cases "sw_writes s1 mod pruneEvery = 0")
      case True
      then have "sql_prune fault rank c s1 = (r1, s')" using written(3) by simp
      from sql_prune_rows(1,2) [OF ok this] show ?thesis unfolding t by blast
    next
      case False
      then show ?thesis using written(3) ok t by simp
    qed
  qed simp
next
  case (4 s c k xs s')
  then have "sql_Recent fault rank dec c k s = (Inr xs, s')" by (simp add: sql_window_store_def)
  then have s': "s' = s" and scan: "scan_rows dec (map snd (map snd
      (take k (newest_first (\<lambda>r. fst (snd r)) (scan_table rank s))))) = Inr xs"
    by (auto simp: sql_Recent_def comp_def split: option.splits)
  let ?zs = "newest_first (\<lambda>r. fst (snd r)) (scan_table rank s)"
  have "newest fst k (mset (map snd (sw_table s))) (map snd (take k ?zs))"
    unfolding newest_def
    using newest_first_sorted [of "\<lambda>r. fst (snd r)" "scan_table rank s"]
    by (intro exI [of _ "map snd ?zs"]) (simp add: take_map newest_sorted_def sorted_wrt_map)
  with scan_rows_view [OF scan] s' 4(1) show ?case by blast
qed

subsection \<open>The window renders the whole history\<close>

text \<open>What reading back a stored change gives when JSON round-trips: \<^verbatim>\<open>MarshalJSON\<close> fills in the
  schema version.\<close>

definition with_version :: "change \<Rightarrow> change" where
  "with_version c = (if SchemaVersion c = 0 then c\<lparr>SchemaVersion := SchemaVersionConst\<rparr> else c)"

lemma with_version_sel [simp]: "DetectedAt (with_version c) = DetectedAt c"
  by (simp add: with_version_def)

definition json_ok :: "(change \<Rightarrow> string result) \<Rightarrow> (string \<Rightarrow> change result) \<Rightarrow> change list \<Rightarrow> bool" where
  "json_ok enc dec xs \<longleftrightarrow>
     (\<forall>x\<in>set xs. case enc (with_version x) of Inr p \<Rightarrow> dec p = Inr (with_version x) | Inl e \<Rightarrow> False)"

text \<open>The rows of a table are images of the changes, and their columns order like the detection
  times: then the newest rows are the newest changes.\<close>

lemma newest_image:
  assumes "newest tm n (image_mset f N) vs" "\<forall>x\<in>#N. g (f x) = x"
    and "\<forall>x\<in>#N. \<forall>y\<in>#N. tm (f x) \<le> tm (f y) \<longleftrightarrow> at' x \<le> at' y"
  shows "newest at' n N (map g vs)"
proof -
  from assms(1) obtain ys where ys: "mset ys = image_mset f N" "newest_sorted tm ys" "vs = take n ys"
    by (auto simp: newest_def)
  let ?zs = "map g ys"
  have m: "mset ?zs = N"
  proof -
    have "mset ?zs = image_mset (\<lambda>x. g (f x)) N" using ys(1) by (simp add: image_mset.compositionality comp_def)
    also have "\<dots> = image_mset (\<lambda>x. x) N" using assms(2) by (intro image_mset_cong) simp
    finally show ?thesis by simp
  qed
  have fg: "f (g y) = y" if "y \<in> set ys" for y
  proof -
    from that have "y \<in># image_mset f N" using ys(1) by (metis set_mset_mset)
    with assms(2) show ?thesis by auto
  qed
  have mem: "g y \<in># N" if "y \<in> set ys" for y using that m by (metis imageI set_map set_mset_mset)
  have mono: "at' (g y) \<le> at' (g x)" if "x \<in> set ys" "y \<in> set ys" "tm y \<le> tm x" for x y
    using assms(3) mem that fg by metis
  have "newest_sorted at' ?zs"
    unfolding newest_sorted_def sorted_wrt_map
    by (rule sorted_wrt_mono_rel [OF mono ys(2) [unfolded newest_sorted_def]])
  with m ys(3) show ?thesis unfolding newest_def by (intro exI [of _ ?zs]) (simp add: take_map)
qed

lemma sql_window_history:
  fixes col :: "time \<Rightarrow> 'c :: linorder"
  assumes "sql_ok m s" "sw_table s = []" "n \<le> m" "json_ok enc dec xs"
    and col: "\<forall>x\<in>set xs. \<forall>y\<in>set xs. col (DetectedAt x) \<le> col (DetectedAt y) \<longleftrightarrow> DetectedAt x \<le> DetectedAt y"
    and srt: "sorted (map DetectedAt xs)"
    and st: "st = sql_window_store fault rank col enc dec ping clos"
    and run: "store_all st c xs s = (ys, s1)" "fsRecent st c' n s1 = (Inr zs, s2)"
  shows "newest DetectedAt n (mset (map snd (table_of row_key with_version ys []))) zs"
proof -
  define f where "f x = (col (DetectedAt x), (case enc x of Inr p \<Rightarrow> p | Inl e \<Rightarrow> []))" for x
  define N where "N = mset (map snd (table_of row_key with_version ys []))"
  have row: "row_of col enc x = f (with_version x)" for x
    by (simp add: row_of_def f_def MarshalJSON_def with_version_def)
  have fst_row: "fst (row_of col enc x) = col (DetectedAt x)" for x by (simp add: row_of_def)
  have "sorted_wrt (\<lambda>x y. col (DetectedAt x) \<le> col (DetectedAt y)) xs"
    by (rule sorted_wrt_mono_rel [OF _ srt [unfolded sorted_wrt_map]]) (use col in blast)
  then have "sorted (map (\<lambda>x. fst (row_of col enc x)) xs)"
    by (simp add: sorted_wrt_map fst_row)
  from sqlw.recent_of_full [OF assms(1,2) this run(1) [unfolded st] run(2) [unfolded st] assms(3)]
  obtain vs where vs: "newest fst n (mset (map snd (table_of row_key (row_of col enc) ys []))) vs"
      "zs = map (row_view dec) vs" by blast
  have "map snd (table_of row_key (row_of col enc) ys []) =
      map f (map snd (table_of row_key with_version ys []))"
  proof -
    have "row_of col enc = (\<lambda>x. f (with_version x))" by (rule ext) (rule row)
    then have "table_of row_key (row_of col enc) ys [] =
        map (\<lambda>(k, v). (k, f v)) (table_of row_key with_version ys [])"
      by (simp add: map_table_of)
    then show ?thesis by (simp add: split_beta comp_def)
  qed
  then have "mset (map snd (table_of row_key (row_of col enc) ys [])) = image_mset f N"
    by (simp only: mset_map N_def)
  with vs(1) have "newest fst n (image_mset f N) vs" by (simp only:)
  moreover have N: "x \<in> with_version ` set xs" if "x \<in># N" for x
    using that table_of_values [of row_key with_version ys "[]"] store_all_subset [OF run(1)]
    by (auto simp: N_def)
  have "\<forall>x\<in>#N. row_view dec (f x) = x"
    using N assms(4) by (fastforce simp: json_ok_def row_view_def f_def split: sum.splits)
  moreover have "\<forall>x\<in>#N. \<forall>y\<in>#N. fst (f x) \<le> fst (f y) \<longleftrightarrow> DetectedAt x \<le> DetectedAt y"
  proof (intro ballI)
    fix x y assume "x \<in># N" "y \<in># N"
    then obtain a b where "x = with_version a" "y = with_version b" "a \<in> set xs" "b \<in> set xs"
      using N by blast
    with col show "fst (f x) \<le> fst (f y) \<longleftrightarrow> DetectedAt x \<le> DetectedAt y" by (simp add: f_def)
  qed
  ultimately show ?thesis unfolding vs(2) N_def [symmetric] by (rule newest_image)
qed

subsection \<open>How large the tables grow\<close>

lemma wrap64_mod_16: "wrap64 i mod 16 = i mod 16"
  using take_bit_signed_take_bit [of 4 63 i] by (simp add: wrap64_def take_bit_eq_mod)

lemma mod_16_step:
  fixes a b :: int
  assumes "a mod 16 = (b mod 16 + 1) mod 16" "a mod 16 \<noteq> 0"
  shows "a mod 16 = b mod 16 + 1"
proof -
  have r: "0 \<le> b mod 16" "b mod 16 < 16" by simp_all
  have "b mod 16 + 1 \<noteq> 16" using assms by (metis mod_self)
  with r have "(b mod 16 + 1) mod 16 = b mod 16 + 1" by (intro mod_pos_pos_trivial) linarith+
  with assms(1) show ?thesis by (simp only:)
qed

lemma sql_Write_length:
  assumes "sql_ok n s" "int (length (sw_table s)) \<le> int n + sw_writes s mod 16"
    and prune: "\<And>s. fault PruneStmt c s = None" and "sql_Write fault rank col enc c x s = (r, s')"
  shows "sql_ok n s' \<and> int (length (sw_table s')) \<le> int n + sw_writes s' mod 16"
  using assms(4)
proof (cases rule: sql_Write_cases)
  case (failed e)
  with assms(1,2) show ?thesis by simp
next
  case (written s1 r1)
  have ok: "sql_ok n s1" using assms(1) written(2) by (simp add: sql_ok_def distinct_upsert_row)
  have w: "sw_writes s1 mod 16 = (sw_writes s mod 16 + 1) mod 16"
    using written(2) wrap64_mod_16 [of "sw_writes s + 1"] mod_add_left_eq [of "sw_writes s" 16 1] by simp
  show ?thesis
  proof (cases "sw_writes s1 mod pruneEvery = 0")
    case True
    then have p: "sql_prune fault rank c s1 = (r1, s')" using written(3) by simp
    then have "r1 = None" using prune by (auto simp: sql_prune_def Let_def split: option.splits)
    from sql_prune_rows [OF ok p] this show ?thesis by auto
  next
    case False
    then have s': "s' = s1" using written(3) by simp
    have "sw_writes s1 mod 16 = sw_writes s mod 16 + 1"
      by (rule mod_16_step [OF w]) (use False in \<open>simp add: pruneEvery_def\<close>)
    moreover have "int (length (sw_table s1)) \<le> int (length (sw_table s)) + 1"
      using length_upsert_row(2) [of "row_key x" "row_of col enc x" "sw_table s"] written(2) by simp
    ultimately show ?thesis using ok assms(2) s' by simp
  qed
qed

lemma sql_store_all_length:
  assumes "sql_ok n s" "int (length (sw_table s)) \<le> int n + sw_writes s mod 16"
    and "\<And>s. fault PruneStmt c s = None"
    and "store_all (sql_window_store fault rank col enc dec ping clos) c xs s = (ys, s')"
  shows "sql_ok n s' \<and> int (length (sw_table s')) \<le> int n + sw_writes s' mod 16"
  using assms
proof (induction xs arbitrary: s ys)
  case (Cons x xs)
  obtain r s1 where w: "sql_Write fault rank col enc c x s = (r, s1)" by (metis prod.collapse)
  from sql_Write_length [OF Cons.prems(1,2,3) w]
  have s1: "sql_ok n s1" "int (length (sw_table s1)) \<le> int n + sw_writes s1 mod 16" by simp_all
  obtain ys1 where "store_all (sql_window_store fault rank col enc dec ping clos) c xs s1 = (ys1, s')"
    using Cons.prems(4) w by (auto simp: sql_window_store_def split: option.splits prod.splits)
  from Cons.IH [OF s1 Cons.prems(3) this] show ?case .
qed simp

subsection \<open>Opening a table\<close>

text \<open>
  The constructors of the SQL backends over the drivers: \<open>db_open\<close> and \<open>db_exec\<close> may fail, \<open>db_close\<close> may
  not matter; \<open>pg_parse\<close> is \<^verbatim>\<open>pgxpool.ParseConfig\<close> and \<open>read_ca\<close>, \<open>load_pair\<close> read the certificates.
\<close>

record ('d, 's) sql_driver =
  db_open :: "string \<Rightarrow> 's \<Rightarrow> 'd result \<times> 's"
  db_exec :: "'d \<Rightarrow> string \<Rightarrow> 's \<Rightarrow> go_error option \<times> 's"
  db_close :: "'d \<Rightarrow> 's \<Rightarrow> 's"

record 'd opened_store =
  os_db :: 'd
  os_table :: string
  os_max :: nat

definition newSQLiteStore ::
    "('d, 's) sql_driver \<Rightarrow> string \<Rightarrow> string \<Rightarrow> nat \<Rightarrow> 's \<Rightarrow> 'd opened_store result \<times> 's" where
  "newSQLiteStore drv path table n s =
     (let table = (if table = [] then ''feed_output'' else table) in
      if \<not> validIdentifier table then (Inl (Errorf ''feed sqlite: invalid table %q'' [FStr table]), s)
      else
        case db_open drv path s of
          (Inl err, s1) \<Rightarrow> (Inl (Errorf ''feed sqlite: open: %w'' [FWrap err]), s1)
        | (Inr db, s1) \<Rightarrow>
            (case db_exec drv db ''pragmas'' s1 of
               (Some err, s2) \<Rightarrow> (Inl (Errorf ''feed sqlite: pragmas: %w'' [FWrap err]), db_close drv db s2)
             | (None, s2) \<Rightarrow>
                 (case db_exec drv db (''schema '' @ table) s2 of
                    (Some err, s3) \<Rightarrow> (Inl (Errorf ''feed sqlite: schema: %w'' [FWrap err]), db_close drv db s3)
                  | (None, s3) \<Rightarrow> (Inr \<lparr>os_db = db, os_table = table, os_max = n\<rparr>, s3))))"

record PGTLSOptions =
  pgCAFile :: string
  pgCertFile :: string
  pgKeyFile :: string
  pgServerName :: string
  pgInsecureSkipVerify :: bool

text \<open>\<open>pem_certs\<close>: whether a file holds a certificate, as \<^verbatim>\<open>AppendCertsFromPEM\<close> reports it.\<close>

definition buildTLS ::
    "(string \<Rightarrow> string result) \<Rightarrow> (string \<Rightarrow> bool) \<Rightarrow> (string \<Rightarrow> string \<Rightarrow> go_error option) \<Rightarrow>
     PGTLSOptions \<Rightarrow> tls_config result" where
  "buildTLS readFile pem_certs loadPair opts =
     (let c = \<lparr>tcServerName = pgServerName opts, tcInsecureSkipVerify = pgInsecureSkipVerify opts,
               tcRootCAs = None, tcCertificates = []\<rparr>;
          with_ca =
            (if pgCAFile opts \<noteq> [] then
               (case readFile (pgCAFile opts) of
                  Inl err \<Rightarrow> Inl (Errorf ''feed postgres: ca_file: %w'' [FWrap err])
                | Inr pem \<Rightarrow>
                    if \<not> pem_certs pem then Inl (Errorf ''feed postgres: ca_file has no certs'' [])
                    else Inr (c\<lparr>tcRootCAs := Some pem\<rparr>))
             else Inr c)
      in case with_ca of
           Inl err \<Rightarrow> Inl err
         | Inr c \<Rightarrow>
             if pgCertFile opts \<noteq> [] \<and> pgKeyFile opts \<noteq> [] then
               (case loadPair (pgCertFile opts) (pgKeyFile opts) of
                  Some err \<Rightarrow> Inl (Errorf ''feed postgres: client cert: %w'' [FWrap err])
                | None \<Rightarrow> Inr (c\<lparr>tcCertificates := [(pgCertFile opts, pgKeyFile opts)]\<rparr>))
             else Inr c)"

record pg_config =
  pgcTLSConfig :: "tls_config option"
  pgcFallbacks :: "string list"

record 'f pg_env =
  pg_ParseConfig :: "string \<Rightarrow> pg_config result"
  pg_readFile :: "string \<Rightarrow> string result"
  pg_pemCerts :: "string \<Rightarrow> bool"
  pg_loadPair :: "string \<Rightarrow> string \<Rightarrow> go_error option"

record postgresOptions =
  poDSN :: string
  poTable :: string
  poMax :: nat
  poTLS :: "PGTLSOptions option"

text \<open>The configuration the pool is opened with: TLS settings of the sink replace those of the DSN
  and drop its plaintext fallbacks.\<close>

definition pg_pool_config :: "'f pg_env \<Rightarrow> postgresOptions \<Rightarrow> pg_config result" where
  "pg_pool_config env opts =
     (case pg_ParseConfig env (poDSN opts) of
        Inl err \<Rightarrow> Inl (Errorf ''feed postgres: parse dsn: %w'' [FWrap err])
      | Inr cfg \<Rightarrow>
          (case poTLS opts of
             None \<Rightarrow> Inr cfg
           | Some t \<Rightarrow>
               (case buildTLS (pg_readFile env) (pg_pemCerts env) (pg_loadPair env) t of
                  Inl err \<Rightarrow> Inl err
                | Inr tc \<Rightarrow> Inr (cfg\<lparr>pgcTLSConfig := Some tc, pgcFallbacks := []\<rparr>))))"

definition newPostgresStore ::
    "'f pg_env \<Rightarrow> (pg_config \<Rightarrow> ('d, 's) sql_driver) \<Rightarrow> postgresOptions \<Rightarrow> 's \<Rightarrow> 'd opened_store result \<times> 's" where
  "newPostgresStore env drv opts s =
     (let table = (if poTable opts = [] then ''feed_output'' else poTable opts) in
      if \<not> validIdentifier table then (Inl (Errorf ''feed postgres: invalid table %q'' [FStr table]), s)
      else
        case pg_pool_config env opts of
          Inl err \<Rightarrow> (Inl err, s)
        | Inr cfg \<Rightarrow>
            (case db_open (drv cfg) (poDSN opts) s of
               (Inl err, s1) \<Rightarrow> (Inl (Errorf ''feed postgres: pool: %w'' [FWrap err]), s1)
             | (Inr pool, s1) \<Rightarrow>
                 (case db_exec (drv cfg) pool (''schema '' @ table) s1 of
                    (Some err, s2) \<Rightarrow> (Inl err, db_close (drv cfg) pool s2)
                  | (None, s2) \<Rightarrow> (Inr \<lparr>os_db = pool, os_table = table, os_max = poMax opts\<rparr>, s2))))"

text \<open>Once the sink's TLS settings are given, no plaintext fallback is left.\<close>

lemma pg_tls_no_plaintext:
  "pg_pool_config env opts = Inr cfg \<Longrightarrow> poTLS opts \<noteq> None \<Longrightarrow>
     pgcFallbacks cfg = [] \<and> pgcTLSConfig cfg \<noteq> None"
  by (auto simp: pg_pool_config_def split: sum.splits)

text \<open>Unlike the copies in \<^verbatim>\<open>state/postgres\<close> and \<^verbatim>\<open>coord/postgres\<close>, the server name does not default to the host
  of the DSN: without \<^verbatim>\<open>server_name\<close> the configuration is one with which \<^verbatim>\<open>crypto/tls\<close> refuses every
  handshake; and half a key pair is ignored instead of refused.\<close>

lemma buildTLS_nameless:
  "buildTLS readFile pem_certs loadPair opts = Inr tc \<Longrightarrow> pgServerName opts = [] \<Longrightarrow>
     \<not> pgInsecureSkipVerify opts \<Longrightarrow> \<not> tls_client_ok tc"
  by (auto simp: buildTLS_def tls_client_ok_def Let_def split: sum.splits if_splits option.splits)

lemma buildTLS_half_pair:
  "buildTLS readFile pem_certs loadPair opts = Inr tc \<Longrightarrow> pgKeyFile opts = [] \<Longrightarrow> tcCertificates tc = []"
  by (auto simp: buildTLS_def Let_def split: sum.splits if_splits option.splits)

text \<open>A constructor that fails leaves as many databases open as before, one that succeeds one more.\<close>

definition counts_open :: "('s \<Rightarrow> int) \<Rightarrow> ('d, 's) sql_driver \<Rightarrow> bool" where
  "counts_open n drv \<longleftrightarrow>
     (\<forall>p s r s'. db_open drv p s = (r, s') \<longrightarrow> n s' = (if isl r then n s else n s + 1)) \<and>
     (\<forall>d q s r s'. db_exec drv d q s = (r, s') \<longrightarrow> n s' = n s) \<and>
     (\<forall>d s. n (db_close drv d s) = n s - 1)"

lemma counts_openD:
  assumes "counts_open n drv"
  shows "db_open drv p s = (Inl err, s') \<Longrightarrow> n s' = n s"
    and "db_open drv p s = (Inr d, s') \<Longrightarrow> n s' = n s + 1"
    and "db_exec drv d q s = (e, s') \<Longrightarrow> n s' = n s"
    and "n (db_close drv d s) = n s - 1"
  using assms unfolding counts_open_def by (metis sum.disc(1), metis sum.disc(2), metis, metis)

lemma newSQLiteStore_no_leak:
  assumes "counts_open n drv" "newSQLiteStore drv path table k s = (r, s')"
  shows "n s' = (if isl r then n s else n s + 1)"
  using assms(2) unfolding newSQLiteStore_def Let_def
  by (auto simp: counts_openD(4) [OF assms(1)] split: if_split_asm sum.split_asm prod.split_asm option.split_asm
        dest!: counts_openD(1-3) [OF assms(1)])

lemma newPostgresStore_no_leak:
  assumes "\<And>cfg. counts_open n (drv cfg)" "newPostgresStore env drv opts s = (r, s')"
  shows "n s' = (if isl r then n s else n s + 1)"
  using assms(2) unfolding newPostgresStore_def Let_def
  by (auto simp: counts_openD(4) [OF assms(1)] split: if_split_asm sum.split_asm prod.split_asm option.split_asm
        dest!: counts_openD(1-3) [OF assms(1)])

subsection \<open>Properties of the window\<close>

definition sample_change :: "string \<Rightarrow> time \<Rightarrow> change" where
  "sample_change i t = \<lparr>SchemaVersion = 1, FeedURL = ''u'', FeedTitle = '''', ItemID = i, Kind = ChangeNew,
     Title = ''t'', Link = '''', Authors = [], Summary = '''', Content = '''', Categories = [], PublishedAt = None,
     UpdatedAt = None, ContentHashOf = ''h'', DetectedAt = t, DLQFromSink = '''', DLQError = '''', DLQAttempts = 0\<rparr>"

definition sample_json :: "string \<Rightarrow> change result" where
  "sample_json p = Inr (sample_change p (if p = ''a'' then 1 else 2))"

definition empty_window :: "nat \<Rightarrow> string sql_window" where
  "empty_window n = \<lparr>sw_table = [], sw_max = n, sw_writes = 0\<rparr>"

abbreviation "sample_sqlite \<equiv>
  sqlite_window (\<lambda>_ _ _. None) (\<lambda>_ _. 0) (\<lambda>c. Inr (ItemID c)) sample_json (\<lambda>_ _. None) (\<lambda>_. None)"



text \<open>The stores stay bounded.  The map in memory never holds more changes than \<^verbatim>\<open>max_items\<close>,
  whatever is written and in whatever order the map is iterated; a table holds at most fifteen more,
  one for each write since the last pruning, as long as the pruning statement does not fail.\<close>

theorem window_stays_bounded:
  fixes m :: memoryStore and s :: "string sql_window"
  assumes "byKey m = []" "sw_table s = []" "sw_writes s = 0" "\<And>s. fault PruneStmt c s = None"
    and "store_all (memory_window visit) c xs m = (ys, m')"
    and "store_all (sqlite_window fault rank enc dec ping clos) c xs s = (ys', s')"
  shows "length (byKey m') \<le> msMax m \<and> int (length (sw_table s')) \<le> int (sw_max s) + sw_writes s' mod 16"
proof
  have "mem_ok (msMax m) m'" if "mem_ok (msMax m) m0" "store_all (memory_window visit) c us m0 = (vs, m')" for us m0 vs
    using that
  proof (induction us arbitrary: m0 vs)
    case (Cons u us)
    obtain r m1 where w: "memory_Write visit c u m0 = (r, m1)" by (metis prod.collapse)
    note r = memory_Write_rows(1,2) [OF Cons.prems(1) w refl]
    obtain vs1 where "store_all (memory_window visit) c us m1 = (vs1, m')"
      using Cons.prems(2) w r(1) by (auto simp: memory_window_def split: prod.splits)
    from Cons.IH [OF r(2) this] show ?case .
  qed simp
  then show "length (byKey m') \<le> msMax m"
    using assms(1,5) by (fastforce simp: mem_ok_def)
  have "sql_ok (sw_max s) s" using assms(2) by (simp add: sql_ok_def)
  then show "int (length (sw_table s')) \<le> int (sw_max s) + sw_writes s' mod 16"
    using sql_store_all_length [of "sw_max s" s fault c, OF _ _ assms(4) assms(6) [unfolded sqlite_window_def]]
      assms(2,3) by simp
qed

theorem window_stays_bounded_witness:
  "length (byKey (snd (store_all (memory_window (\<lambda>_ _. 0)) None
      [sample_change ''a'' 1, sample_change ''b'' 2] (newMemoryStore 1)))) \<le> 1"
  using window_stays_bounded [of "newMemoryStore 1" "empty_window 1" "\<lambda>_ _ _. None" None "\<lambda>_ _. 0"
    "[sample_change ''a'' 1, sample_change ''b'' 2]", OF _ _ _ _ surjective_pairing surjective_pairing]
  by (simp add: newMemoryStore_def empty_window_def)

end
