(* ===== verification/Feed_Render.thy ===== *)
theory Feed_Render
  imports Net_Http Change_Model
begin

section \<open>Rendering the feed (\<^verbatim>\<open>internal/sink/feed/render.go\<close>, \<^verbatim>\<open>id.go\<close>)\<close>

text \<open>
  From the changes of the window to the syndication document: the entries with their synthetic ids,
  the cut of a long content to a summary, and the injection of the per-request self link into the
  rendered text.  The XML writers are those of the third-party package \<^verbatim>\<open>gorilla/feeds\<close>, here the
  arguments \<open>ToRss\<close> and \<open>ToAtom\<close>; the SHA-256 digest in hex is the argument \<open>sha\<close>.

  The lemmas show that the cut never splits a rune, and that the self link, whose host comes from the
  request, cannot leave its attribute.
\<close>

definition syntheticID :: "(string \<Rightarrow> string) \<Rightarrow> string \<Rightarrow> string \<Rightarrow> string" where
  "syntheticID sha feedURL itemID = ''urn:rss2msg:'' @ sha (feedURL @ newline @ itemID)"

definition summaryTruncate :: nat where
  "summaryTruncate = 512"

record SinkMeta =
  metaTitle :: string
  metaLink :: string
  metaDescription :: string

record feeds_Item =
  fiTitle :: string
  fiId :: string
  fiIsPermaLink :: string
  fiDescription :: string
  fiContent :: string
  fiCreated :: time
  fiUpdated :: time
  fiLink :: "(string \<times> string) option"
  fiAuthor :: "string option"

record feeds_Feed =
  ffTitle :: string
  ffLink :: "string \<times> string"
  ffDescription :: string
  ffUpdated :: time
  ffItems :: "feeds_Item list"

text \<open>\<^verbatim>\<open>utf8.RuneStart\<close> holds of every byte that is not a continuation byte.\<close>

fun cut_point :: "string \<Rightarrow> nat \<Rightarrow> nat" where
  "cut_point s 0 = 0"
| "cut_point s (Suc n) = (if continuation (s ! Suc n) then cut_point s n else Suc n)"

definition truncate :: "string \<Rightarrow> nat \<Rightarrow> string" where
  "truncate s m = (if length s \<le> m then s else take (cut_point s m) s)"

definition buildItem :: "(string \<Rightarrow> string) \<Rightarrow> change \<Rightarrow> feeds_Item" where
  "buildItem sha c =
     (let title = (if Title c = [] then ''(untitled)'' else Title c);
          desc = (if Summary c = [] \<and> Content c \<noteq> [] then truncate (Content c) summaryTruncate else Summary c);
          created = (case PublishedAt c of Some t \<Rightarrow> t | None \<Rightarrow> DetectedAt c);
          updated = (case UpdatedAt c of Some t \<Rightarrow> t | None \<Rightarrow> created)
      in \<lparr>fiTitle = title, fiId = syntheticID sha (FeedURL c) (ItemID c), fiIsPermaLink = ''false'',
          fiDescription = desc, fiContent = Content c, fiCreated = created, fiUpdated = updated,
          fiLink = (if Link c \<noteq> [] then Some (Link c, ''alternate'') else None),
          fiAuthor = (if length (Authors c) > 0 then Some (Authors c ! 0) else None)\<rparr>)"

fun feed_items :: "(string \<Rightarrow> string) \<Rightarrow> change list \<Rightarrow> feeds_Feed \<Rightarrow> feeds_Feed" where
  "feed_items sha [] f = f"
| "feed_items sha (c # cs) f =
     feed_items sha cs
       (f\<lparr>ffUpdated := (if DetectedAt c > ffUpdated f then DetectedAt c else ffUpdated f),
          ffItems := ffItems f @ [buildItem sha c]\<rparr>)"

definition buildFeed :: "(string \<Rightarrow> string) \<Rightarrow> time \<Rightarrow> SinkMeta \<Rightarrow> change list \<Rightarrow> feeds_Feed" where
  "buildFeed sha now m changes =
     (let f = feed_items sha changes
                \<lparr>ffTitle = metaTitle m, ffLink = (metaLink m, ''alternate''), ffDescription = metaDescription m,
                 ffUpdated = zero_time, ffItems = []\<rparr>
      in if ffUpdated f = zero_time then f\<lparr>ffUpdated := now\<rparr> else f)"

definition ToRSS ::
    "(feeds_Feed \<Rightarrow> string result) \<Rightarrow> (string \<Rightarrow> string) \<Rightarrow> time \<Rightarrow> SinkMeta \<Rightarrow> change list \<Rightarrow> string result" where
  "ToRSS ToRss sha now m changes = ToRss (buildFeed sha now m changes)"

definition ToAtom ::
    "(feeds_Feed \<Rightarrow> string result) \<Rightarrow> (string \<Rightarrow> string) \<Rightarrow> time \<Rightarrow> SinkMeta \<Rightarrow> change list \<Rightarrow> string result" where
  "ToAtom gorilla sha now m changes = gorilla (buildFeed sha now m changes)"

subsection \<open>Escaping (\<^verbatim>\<open>xml.EscapeText\<close>)\<close>

definition replacement :: string where
  "replacement = mkrune [239, 191, 189]"

text \<open>Quotes, angle brackets, ampersands and line controls are written as references; what is not a
  character of XML, or not valid UTF-8, becomes U+FFFD.\<close>

definition escape_rune :: "string \<Rightarrow> string" where
  "escape_rune r =
     (case map byte r of
        [b] \<Rightarrow>
          (if b = 34 then ''&#34;'' else if b = 39 then ''&#39;'' else if b = 38 then ''&amp;''
           else if b = 60 then ''&lt;'' else if b = 62 then ''&gt;'' else if b = 9 then ''&#x9;''
           else if b = 10 then ''&#xA;'' else if b = 13 then ''&#xD;''
           else if b < 32 \<or> 128 \<le> b then replacement else r)
      | [a, b, c] \<Rightarrow> (if a = 239 \<and> b = 191 \<and> c \<ge> 190 then replacement else r)
      | _ \<Rightarrow> r)"

definition escapeXML :: "string \<Rightarrow> string" where
  "escapeXML s = concat (map escape_rune (runes s))"

subsection \<open>The self link\<close>

definition dquote :: string where
  "dquote = [char_of (34 :: nat)]"

definition self_link :: "string \<Rightarrow> string" where
  "self_link selfURL = ''<link href='' @ dquote @ escapeXML selfURL @ dquote @ '' rel='' @ dquote @ ''self'' @ dquote @ ''></link>''"

definition injectAtomSelf :: "string \<Rightarrow> string \<Rightarrow> string" where
  "injectAtomSelf atomBody selfURL =
     (if selfURL = [] then atomBody
      else case strings_Index atomBody ''<feed'' of
             None \<Rightarrow> atomBody
           | Some feedTagStart \<Rightarrow>
               (case strings_Index (drop feedTagStart atomBody) ''>'' of
                  None \<Rightarrow> atomBody
                | Some feedTagEnd \<Rightarrow>
                    let insertAt = feedTagStart + feedTagEnd + 1 in
                    take insertAt atomBody @ newline @ ''  '' @ self_link selfURL @ drop insertAt atomBody))"

definition atom_ns :: string where
  "atom_ns = '' xmlns:atom='' @ dquote @ ''http://www.w3.org/2005/Atom'' @ dquote"

definition rss_self_link :: "string \<Rightarrow> string" where
  "rss_self_link selfURL =
     ''<atom:link href='' @ dquote @ escapeXML selfURL @ dquote @ '' rel='' @ dquote @ ''self'' @ dquote @
     '' type='' @ dquote @ ''application/rss+xml'' @ dquote @ ''></atom:link>''"

definition injectRSSSelf :: "string \<Rightarrow> string \<Rightarrow> string" where
  "injectRSSSelf rssBody selfURL =
     (if selfURL = [] then rssBody
      else case strings_Index rssBody ''<rss'' of
             None \<Rightarrow> rssBody
           | Some rssStart \<Rightarrow>
               (case strings_Index (drop rssStart rssBody) ''>'' of
                  None \<Rightarrow> rssBody
                | Some rssEnd \<Rightarrow>
                    let body = (if \<not> strings_Contains rssBody ''xmlns:atom=''
                                then take (rssStart + rssEnd) rssBody @ atom_ns @ drop (rssStart + rssEnd) rssBody
                                else rssBody)
                    in case strings_Index body ''<channel>'' of
                         None \<Rightarrow> body
                       | Some chanAt \<Rightarrow>
                           let insertAt = chanAt + length ''<channel>'' in
                           take insertAt body @ newline @ ''    '' @ rss_self_link selfURL @ drop insertAt body))"

subsection \<open>The cut respects runes\<close>

lemma cut_point_le: "cut_point s m \<le> m"
  by (induction s m rule: cut_point.induct) auto

lemma cut_point_start: "cut_point s m = 0 \<or> \<not> continuation (s ! cut_point s m)"
  by (induction s m rule: cut_point.induct) auto

text \<open>Within a rune every byte but the first is a continuation byte, so a byte that is none begins a
  rune.\<close>

lemma extra_len_continuation: "list_all continuation (take (extra_len c cs) cs)"
  by (simp add: extra_len_def Let_def)

lemma rune_boundary:
  assumes "i < length s" "\<not> continuation (s ! i)"
  shows "\<exists>k. take i s = concat (take k (runes s))"
  using assms
proof (induction s arbitrary: i rule: runes.induct)
  case (2 c cs)
  let ?k = "extra_len c cs"
  show ?case
  proof (cases i)
    case 0
    then show ?thesis by (intro exI [of _ 0]) simp
  next
    case (Suc j)
    have "?k \<le> j"
    proof (rule ccontr)
      assume "\<not> ?k \<le> j"
      then have "cs ! j \<in> set (take ?k cs)"
        using "2.prems"(1) Suc by (auto simp: in_set_conv_nth intro!: exI [of _ j])
      then show False
        using extra_len_continuation [of c cs] "2.prems"(2) Suc by (simp add: list_all_iff)
    qed
    then have "j - ?k < length (drop ?k cs)" "drop ?k cs ! (j - ?k) = cs ! j"
      using "2.prems"(1) Suc by simp_all
    with "2.IH" [of "j - ?k"] "2.prems"(2) Suc
    obtain q where q: "take (j - ?k) (drop ?k cs) = concat (take q (runes (drop ?k cs)))" by auto
    have "take j cs = take ?k cs @ take (j - ?k) (drop ?k cs)"
      using \<open>?k \<le> j\<close> by (metis le_add_diff_inverse take_add)
    with q Suc show ?thesis by (intro exI [of _ "Suc q"]) simp
  qed
qed simp

lemma truncate_runes: "\<exists>k. truncate s m = concat (take k (runes s))"
proof (cases "length s \<le> m")
  case True
  then show ?thesis
    by (intro exI [of _ "length (runes s)"]) (simp add: truncate_def)
next
  case False
  then have "cut_point s m < length s" using cut_point_le [of s m] by simp
  with cut_point_start [of s m] rune_boundary [of "cut_point s m" s] False show ?thesis
    by (cases "cut_point s m = 0") (auto simp: truncate_def intro!: exI [of _ 0])
qed

text \<open>A summary never splits a character.  The cut of a content to at most \<open>m\<close> bytes is a prefix of
  the content, at most \<open>m\<close> bytes long, and consists of whole runes of it; a content that fits is kept,
  and between the cut and the limit there are only bytes of the one rune that did not fit.\<close>

theorem truncate_whole_runes:
  "length (truncate s m) \<le> m \<and> (\<exists>k. truncate s m = concat (take k (runes s))) \<and>
   (\<exists>t. s = truncate s m @ t) \<and> (if length s \<le> m then truncate s m = s
     else \<forall>i\<in>{length (truncate s m)<..m}. continuation (s ! i))"
proof -
  have rest: "continuation (s ! i)" if "cut_point s m < i" "i \<le> m" for i
    using that by (induction s m rule: cut_point.induct) (auto simp: le_Suc_eq split: if_splits)
  have "length (truncate s m) \<le> m"
    using cut_point_le [of s m] by (simp add: truncate_def)
  moreover have "\<exists>t. s = truncate s m @ t"
    unfolding truncate_def by (metis append_Nil2 append_take_drop_id)
  moreover have "if length s \<le> m then truncate s m = s
     else \<forall>i\<in>{length (truncate s m)<..m}. continuation (s ! i)"
    using rest cut_point_le [of s m] by (auto simp: truncate_def)
  ultimately show ?thesis using truncate_runes by blast
qed

theorem truncate_whole_runes_witness:
  "\<forall>i\<in>{length (truncate (''ab'' @ mkrune [226, 130, 172]) 3)<..3}. continuation ((''ab'' @ mkrune [226, 130, 172]) ! i)"
  using truncate_whole_runes [of "''ab'' @ mkrune [226, 130, 172]" 3] by (simp add: mkrune_def)

subsection \<open>The self link stays in its attribute\<close>

lemma runes_shape: "r \<in> set (runes s) \<Longrightarrow> length r = 1 \<or> (\<forall>c\<in>set r. 128 \<le> byte c)"
proof (induction s rule: runes.induct)
  case (2 c cs)
  show ?case
  proof (cases "r = c # take (extra_len c cs) cs")
    case True
    have "128 \<le> byte c" if "extra_len c cs \<noteq> 0"
      using that by (auto simp: extra_len_def seq_len_def Let_def split: if_splits)
    moreover have "\<forall>d\<in>set (take (extra_len c cs) cs). 128 \<le> byte d"
      using extra_len_continuation [of c cs] by (auto simp: list_all_iff continuation_def)
    ultimately show ?thesis using True by (cases "extra_len c cs = 0") auto
  next
    case False
    with 2 show ?thesis by simp
  qed
qed simp

lemma byte_eqs:
  "byte (CHR ''&'') = 38" "byte (CHR ''#'') = 35" "byte (CHR ''3'') = 51" "byte (CHR ''4'') = 52"
  "byte (CHR ''9'') = 57" "byte (CHR '';'') = 59" "byte (CHR ''a'') = 97" "byte (CHR ''m'') = 109"
  "byte (CHR ''p'') = 112" "byte (CHR ''l'') = 108" "byte (CHR ''t'') = 116" "byte (CHR ''g'') = 103"
  "byte (CHR ''x'') = 120" "byte (CHR ''A'') = 65" "byte (CHR ''D'') = 68"
  by (simp_all add: byte_def)

lemma escape_rune_markup:
  assumes "length r = 1 \<or> (\<forall>c\<in>set r. 128 \<le> byte c)"
  shows "\<forall>c\<in>set (escape_rune r). byte c \<noteq> 34 \<and> byte c \<noteq> 60 \<and> byte c \<noteq> 62"
proof (cases "length r = 1")
  case True
  then obtain c where r: "r = [c]" by (cases r) auto
  show ?thesis
    unfolding r escape_rune_def by (simp add: byte_eqs replacement_def mkrune_def byte_char_of)
next
  case False
  with assms have b: "\<forall>c\<in>set r. byte c \<noteq> 34 \<and> byte c \<noteq> 60 \<and> byte c \<noteq> 62" by auto
  have "escape_rune r = r \<or> escape_rune r = replacement"
    using False unfolding escape_rune_def by (auto split: list.splits)
  with b show ?thesis by (auto simp: replacement_def mkrune_def byte_char_of)
qed

lemma escapeXML_markup: "\<forall>c\<in>set (escapeXML s). byte c \<noteq> 34 \<and> byte c \<noteq> 60 \<and> byte c \<noteq> 62"
  using escape_rune_markup runes_shape by (fastforce simp: escapeXML_def)

definition inserted :: "string \<Rightarrow> string \<Rightarrow> string \<Rightarrow> bool" where
  "inserted body x result \<longleftrightarrow> (\<exists>a b. body = a @ b \<and> result = a @ x @ b)"

lemma inserted_take_drop: "inserted body x (take n body @ x @ drop n body)"
  unfolding inserted_def by (metis append_take_drop_id)

lemma injectAtomSelf_inserts:
  "injectAtomSelf body u = body \<or> inserted body (newline @ ''  '' @ self_link u) (injectAtomSelf body u)"
proof (cases "strings_Index body ''<feed''")
  case (Some i)
  then show ?thesis
    using inserted_take_drop [of body "newline @ ''  '' @ self_link u"]
    by (auto simp: injectAtomSelf_def Let_def split: option.split)
qed (simp add: injectAtomSelf_def)

lemma injectRSSSelf_inserts:
  "\<exists>body'. (body' = body \<or> inserted body atom_ns body') \<and>
     (injectRSSSelf body u = body' \<or> inserted body' (newline @ ''    '' @ rss_self_link u) (injectRSSSelf body u))"
proof (cases "injectRSSSelf body u = body")
  case False
  then obtain i j where i: "strings_Index body ''<rss'' = Some i" "strings_Index (drop i body) ''>'' = Some j" "u \<noteq> []"
    by (auto simp: injectRSSSelf_def split: if_splits option.splits)
  define body' where "body' = (if \<not> strings_Contains body ''xmlns:atom=''
      then take (i + j) body @ atom_ns @ drop (i + j) body else body)"
  have "injectRSSSelf body u = (case strings_Index body' ''<channel>'' of None \<Rightarrow> body'
      | Some k \<Rightarrow> take (k + length ''<channel>'') body' @ (newline @ ''    '' @ rss_self_link u) @
          drop (k + length ''<channel>'') body')"
    using i by (simp add: injectRSSSelf_def Let_def body'_def [symmetric] split: option.split)
  then have "injectRSSSelf body u = body' \<or>
      inserted body' (newline @ ''    '' @ rss_self_link u) (injectRSSSelf body u)"
    by (cases "strings_Index body' ''<channel>''") (simp_all only: option.case inserted_take_drop simp_thms)
  moreover have "body' = body \<or> inserted body atom_ns body'"
    using inserted_take_drop by (simp add: body'_def)
  ultimately show ?thesis by blast
qed blast

text \<open>The self link cannot inject markup.  Whatever host a request names, the escaped URL contains
  neither a double quote nor an angle bracket, so it ends neither its attribute nor its element; and
  the document sent is the rendered one, or the rendered one with exactly the link element (and for RSS
  the namespace declaration it needs)
  inserted at one place.\<close>

theorem self_link_no_injection:
  "byte ` set (escapeXML selfURL) \<inter> {34, 60, 62} = {} \<and>
   (injectAtomSelf body selfURL = body \<or>
    inserted body (newline @ ''  '' @ self_link selfURL) (injectAtomSelf body selfURL)) \<and>
   (\<exists>body'. (body' = body \<or> inserted body atom_ns body') \<and>
      (injectRSSSelf body selfURL = body' \<or>
       inserted body' (newline @ ''    '' @ rss_self_link selfURL) (injectRSSSelf body selfURL)))"
proof -
  have "byte ` set (escapeXML selfURL) \<inter> {34, 60, 62} = {}"
    using escapeXML_markup [of selfURL] by auto
  then show ?thesis using injectAtomSelf_inserts [of body selfURL] injectRSSSelf_inserts [of body selfURL] by blast
qed

theorem self_link_no_injection_witness:
  "byte ` set (escapeXML (''http://a'' @ dquote @ ''><script>'')) \<inter> {34, 60, 62} = {}"
  using self_link_no_injection [of "''http://a'' @ dquote @ ''><script>''"] by (rule conjunct1)

end
