(* ===== verification/Feed_Server.thy ===== *)
theory Feed_Server
  imports Feed_Render Feed_Store Feed_Proxy HTTP_Auth
begin

section \<open>Serving the feed (\<^verbatim>\<open>internal/sink/feed/server.go\<close>)\<close>

text \<open>
  The HTTP handler of the feed sink: routing, authentication, the render cache, conditional requests.
  The state of the handler is the record \<open>server\<close>: the store of the window, the cache by path, and the
  metrics recorded.  What the handler uses of the clock, the digest, the XML writers and the two
  conversions of HTTP dates is the record \<open>serve_env\<close>.  The number of seconds in \<^verbatim>\<open>max-age\<close>, computed
  with a floating-point division in the source, is the integer part of the duration.
\<close>

record cachedDoc =
  cdBody :: string
  cdEtag :: string
  cdModified :: time
  cdCt :: string
  cdAt :: time

datatype metric = AuthSuccess string string | AuthFailure string string | Requests | NotModifieds | McpRequests

record 's handlerConfig =
  hStore :: "'s FeedStore"
  hMeta :: SinkMeta
  hMaxItems :: nat
  hRssPath :: string
  hAtomPath :: string
  hRenderCacheTTL :: duration
  hCacheControlTTL :: duration
  hRssAuth :: "SurfaceAuth option"
  hAtomAuth :: "SurfaceAuth option"
  hProxy :: proxyConfig
  hStartedAt :: time

record 's server =
  svStore :: 's
  svCache :: "string \<Rightarrow> cachedDoc option"
  svInstr :: bool
  svMetrics :: "metric list"

record 's serve_env =
  seNow :: "'s server \<Rightarrow> time"
  seSha :: "string \<Rightarrow> string"
  seRss :: "feeds_Feed \<Rightarrow> string result"
  seAtom :: "feeds_Feed \<Rightarrow> string result"
  seFormat :: "time \<Rightarrow> string"
  seParse :: "string \<Rightarrow> time option"

text \<open>The Unix epoch, on the scale that begins with the year 1.\<close>

definition unix_epoch :: time where
  "unix_epoch = 62135596800 * second"

definition newHandler :: "'s handlerConfig \<Rightarrow> 's \<Rightarrow> 's handlerConfig \<times> 's server" where
  "newHandler cfg st =
     ((if hStartedAt cfg = zero_time then cfg\<lparr>hStartedAt := unix_epoch\<rparr> else cfg),
      \<lparr>svStore = st, svCache = (\<lambda>_. None), svInstr = False, svMetrics = []\<rparr>)"

definition record_metric :: "metric \<Rightarrow> 's server \<Rightarrow> 's server" where
  "record_metric m sv = (if svInstr sv then sv\<lparr>svMetrics := svMetrics sv @ [m]\<rparr> else sv)"

definition authFor :: "'s handlerConfig \<Rightarrow> string \<Rightarrow> SurfaceAuth option" where
  "authFor cfg path = (if path = hAtomPath cfg then hAtomAuth cfg else hRssAuth cfg)"

definition surfaceName :: "'s handlerConfig \<Rightarrow> string \<Rightarrow> string" where
  "surfaceName cfg path = (if path = hAtomPath cfg then ''atom'' else ''rss'')"

definition recordAuthSuccess :: "string \<Rightarrow> string \<Rightarrow> 's server \<Rightarrow> 's server" where
  "recordAuthSuccess surface cred = record_metric (AuthSuccess surface cred)"

definition recordAuthFailure :: "string \<Rightarrow> string \<Rightarrow> 's server \<Rightarrow> 's server" where
  "recordAuthFailure surface reason = record_metric (AuthFailure surface reason)"

definition matchNotModified :: "'s serve_env \<Rightarrow> server_request \<Rightarrow> cachedDoc \<Rightarrow> bool" where
  "matchNotModified env r doc =
     (let inm = request_Get r ''If-None-Match''; ims = request_Get r ''If-Modified-Since'' in
      if inm \<noteq> [] then inm = cdEtag doc
      else if ims \<noteq> [] then
        (case seParse env ims of Some t \<Rightarrow> \<not> cdModified doc > t | None \<Rightarrow> False)
      else False)"

fun last_modified :: "time \<Rightarrow> change list \<Rightarrow> time" where
  "last_modified md [] = md"
| "last_modified md (c # cs) = last_modified (if DetectedAt c > md then DetectedAt c else md) cs"

definition lastModified :: "'s handlerConfig \<Rightarrow> change list \<Rightarrow> time" where
  "lastModified cfg changes = last_modified (hStartedAt cfg) changes"

definition cache_hit :: "'s serve_env \<Rightarrow> 's handlerConfig \<Rightarrow> string \<Rightarrow> 's server \<Rightarrow> cachedDoc option" where
  "cache_hit env cfg path sv =
     (if hRenderCacheTTL cfg > 0 then
        (case svCache sv path of
           Some d \<Rightarrow> if seNow env sv - cdAt d < hRenderCacheTTL cfg then Some d else None
         | None \<Rightarrow> None)
      else None)"

text \<open>\<^verbatim>\<open>rawBody\<close>: the cached body without a self link, rendered and cached on a miss.\<close>

definition rawBody ::
    "'s serve_env \<Rightarrow> 's handlerConfig \<Rightarrow> ctx \<Rightarrow> string \<Rightarrow> 's server \<Rightarrow> cachedDoc result \<times> 's server" where
  "rawBody env cfg c path sv =
     (case cache_hit env cfg path sv of
        Some d \<Rightarrow> (Inr d, sv)
      | None \<Rightarrow>
          (case fsRecent (hStore cfg) c (hMaxItems cfg) (svStore sv) of
             (Inl err, st) \<Rightarrow> (Inl err, sv\<lparr>svStore := st\<rparr>)
           | (Inr changes, st) \<Rightarrow>
               (let sv1 = sv\<lparr>svStore := st\<rparr>; now = seNow env sv1;
                    (ct, body) =
                      (if path = hRssPath cfg
                       then (''application/rss+xml'', ToRSS (seRss env) (seSha env) now (hMeta cfg) changes)
                       else (''application/atom+xml'', ToAtom (seAtom env) (seSha env) now (hMeta cfg) changes))
                in case body of
                     Inl err \<Rightarrow> (Inl err, sv1)
                   | Inr b \<Rightarrow>
                       (let doc = \<lparr>cdBody = b, cdEtag = [], cdModified = lastModified cfg changes,
                                   cdCt = ct, cdAt = seNow env sv1\<rparr>
                        in (Inr doc,
                            (if hRenderCacheTTL cfg > 0
                             then sv1\<lparr>svCache := (svCache sv1)(path \<mapsto> doc)\<rparr> else sv1))))))"

definition document ::
    "'s serve_env \<Rightarrow> 's handlerConfig \<Rightarrow> ctx \<Rightarrow> string \<Rightarrow> string \<Rightarrow> 's server \<Rightarrow> cachedDoc result \<times> 's server" where
  "document env cfg c path self sv =
     (case rawBody env cfg c path sv of
        (Inl err, sv1) \<Rightarrow> (Inl err, sv1)
      | (Inr raw, sv1) \<Rightarrow>
          (let body = (if path = hRssPath cfg then injectRSSSelf (cdBody raw) self
                       else injectAtomSelf (cdBody raw) self)
           in (Inr \<lparr>cdBody = body, cdEtag = quoted (seSha env body), cdModified = cdModified raw,
                    cdCt = cdCt raw, cdAt = cdAt raw\<rparr>, sv1)))"

definition setCacheHeaders :: "'s handlerConfig \<Rightarrow> SurfaceAuth option \<Rightarrow> reply \<Rightarrow> reply" where
  "setCacheHeaders cfg a w =
     (let scope = (if a = None then ''public'' else ''private'') in
      if hCacheControlTTL cfg > 0
      then reply_Set ''Cache-Control''
             (scope @ '', max-age='' @ itoa_nat (nat (hCacheControlTTL cfg div second))) w
      else reply_Set ''Cache-Control'' (scope @ '', no-cache'') w)"

definition ServeHTTP ::
    "'s serve_env \<Rightarrow> 's handlerConfig \<Rightarrow> ctx \<Rightarrow> server_request \<Rightarrow> reply \<Rightarrow> 's server \<Rightarrow> reply \<times> 's server" where
  "ServeHTTP env cfg c r w sv =
     (let path = srPath r in
      if path \<noteq> hRssPath cfg \<and> path \<noteq> hAtomPath cfg then (NotFound w, sv)
      else if srMethod r \<noteq> ''GET'' \<and> srMethod r \<noteq> ''HEAD'' then
        (http_Error ''method not allowed'' 405 (reply_Set ''Allow'' ''GET, HEAD'' w), sv)
      else let a = authFor cfg path in
        case authenticate a r of
          (name, False) \<Rightarrow>
            (writeAuthChallenge a w, recordAuthFailure (surfaceName cfg path) (authFailReason a r) sv)
        | (name, True) \<Rightarrow>
            let sv1 = (if a \<noteq> None then recordAuthSuccess (surfaceName cfg path) name sv else sv);
                sv2 = record_metric Requests sv1 in
            case document env cfg c path (selfURL (hProxy cfg) r path) sv2 of
              (Inl err, sv3) \<Rightarrow> (http_Error ''internal error'' 500 w, sv3)
            | (Inr doc, sv3) \<Rightarrow>
                let w1 = reply_Set ''Last-Modified'' (seFormat env (cdModified doc))
                           (reply_Set ''ETag'' (cdEtag doc)
                             (reply_Set ''Content-Type'' (cdCt doc) (setCacheHeaders cfg a w))) in
                if matchNotModified env r doc then
                  (WriteHeader 304 w1, record_metric NotModifieds sv3)
                else if srMethod r = ''HEAD'' then (w1, sv3)
                else (reply_Write (cdBody doc) w1, sv3))"

subsection \<open>What a request gets\<close>

lemma record_metric_sel [simp]:
  "svStore (record_metric m sv) = svStore sv" "svCache (record_metric m sv) = svCache sv"
  "svInstr (record_metric m sv) = svInstr sv"
  by (simp_all add: record_metric_def)

lemma record_auth_sel [simp]:
  "svStore (recordAuthSuccess a b sv) = svStore sv" "svCache (recordAuthSuccess a b sv) = svCache sv"
  "svStore (recordAuthFailure a b sv) = svStore sv" "svCache (recordAuthFailure a b sv) = svCache sv"
  by (simp_all add: recordAuthSuccess_def recordAuthFailure_def)

definition on_surface :: "'s handlerConfig \<Rightarrow> server_request \<Rightarrow> bool" where
  "on_surface cfg r \<longleftrightarrow> srPath r = hRssPath cfg \<or> srPath r = hAtomPath cfg"

definition reads :: "server_request \<Rightarrow> bool" where
  "reads r \<longleftrightarrow> srMethod r = ''GET'' \<or> srMethod r = ''HEAD''"

definition admitted_to :: "'s handlerConfig \<Rightarrow> server_request \<Rightarrow> bool" where
  "admitted_to cfg r \<longleftrightarrow> snd (authenticate (authFor cfg (srPath r)) r)"

text \<open>The state with which an admitted request asks for the document.\<close>

definition counted :: "'s handlerConfig \<Rightarrow> server_request \<Rightarrow> 's server \<Rightarrow> 's server" where
  "counted cfg r sv =
     record_metric Requests
       (case authFor cfg (srPath r) of
          Some a \<Rightarrow> recordAuthSuccess (surfaceName cfg (srPath r)) (fst (Authenticate a r)) sv
        | None \<Rightarrow> sv)"

lemma counted_sel [simp]: "svStore (counted cfg r sv) = svStore sv" "svCache (counted cfg r sv) = svCache sv"
  by (simp_all add: counted_def split: option.split)

definition doc_reply :: "'s serve_env \<Rightarrow> 's handlerConfig \<Rightarrow> server_request \<Rightarrow> cachedDoc \<Rightarrow> reply \<Rightarrow> reply" where
  "doc_reply env cfg r doc w =
     reply_Set ''Last-Modified'' (seFormat env (cdModified doc))
       (reply_Set ''ETag'' (cdEtag doc)
         (reply_Set ''Content-Type'' (cdCt doc) (setCacheHeaders cfg (authFor cfg (srPath r)) w)))"

lemma ServeHTTP_off: "\<not> on_surface cfg r \<Longrightarrow> ServeHTTP env cfg c r w sv = (NotFound w, sv)"
  by (simp add: ServeHTTP_def on_surface_def)

lemma ServeHTTP_method:
  "on_surface cfg r \<Longrightarrow> \<not> reads r \<Longrightarrow>
     ServeHTTP env cfg c r w sv = (http_Error ''method not allowed'' 405 (reply_Set ''Allow'' ''GET, HEAD'' w), sv)"
  unfolding ServeHTTP_def on_surface_def reads_def Let_def by (simp only: de_Morgan_disj simp_thms if_True if_False) auto

lemma ServeHTTP_denied:
  assumes "on_surface cfg r" "reads r" "\<not> admitted_to cfg r"
  shows "ServeHTTP env cfg c r w sv =
     (writeAuthChallenge (authFor cfg (srPath r)) w,
      recordAuthFailure (surfaceName cfg (srPath r)) (authFailReason (authFor cfg (srPath r)) r) sv)"
proof -
  obtain name where "authenticate (authFor cfg (srPath r)) r = (name, False)"
    using assms(3) by (metis (full_types) admitted_to_def prod.collapse)
  with assms(1,2) show ?thesis
    unfolding ServeHTTP_def on_surface_def reads_def Let_def by auto
qed

lemma ServeHTTP_admitted:
  assumes "on_surface cfg r" "reads r" "admitted_to cfg r"
  shows "ServeHTTP env cfg c r w sv =
     (case document env cfg c (srPath r) (selfURL (hProxy cfg) r (srPath r)) (counted cfg r sv) of
        (Inl err, sv3) \<Rightarrow> (http_Error ''internal error'' 500 w, sv3)
      | (Inr doc, sv3) \<Rightarrow>
          (if matchNotModified env r doc
           then (WriteHeader 304 (doc_reply env cfg r doc w), record_metric NotModifieds sv3)
           else if srMethod r = ''HEAD'' then (doc_reply env cfg r doc w, sv3)
           else (reply_Write (cdBody doc) (doc_reply env cfg r doc w), sv3)))"
proof -
  obtain name where n: "authenticate (authFor cfg (srPath r)) r = (name, True)"
    using assms(3) by (metis (full_types) admitted_to_def prod.collapse)
  have "counted cfg r sv = record_metric Requests
      (if authFor cfg (srPath r) \<noteq> None then recordAuthSuccess (surfaceName cfg (srPath r)) name sv else sv)"
    using n by (auto simp: counted_def authenticate_def split: option.split)
  with assms(1,2) n show ?thesis
    unfolding ServeHTTP_def on_surface_def reads_def Let_def doc_reply_def by auto
qed

lemma doc_reply_sel [simp]:
  "rpStatus (doc_reply env cfg r doc w) = rpStatus w" "rpBody (doc_reply env cfg r doc w) = rpBody w"
  by (simp_all add: doc_reply_def setCacheHeaders_def Let_def)

lemma document_etag:
  "document env cfg c path u sv = (Inr doc, sv') \<Longrightarrow> cdEtag doc = quoted (seSha env (cdBody doc))"
  by (auto simp: document_def Let_def split: sum.splits prod.splits)

lemma header_get_set: "header_Get (header_Set k v h) k' = (if CanonicalHeaderKey k = CanonicalHeaderKey k' then v else header_Get h k')"
  by (simp add: header_Get_def header_Set_def)

lemmas canon_eval = CanonicalHeaderKey_def is_token_byte_def is_lower_def is_upper_def byte_def

lemma canonical_ETag: "CanonicalHeaderKey ''ETag'' = ''Etag''"
  by code_simp

lemma canonical_keys:
  "CanonicalHeaderKey ''Last-Modified'' = ''Last-Modified''"
  "CanonicalHeaderKey ''Content-Type'' = ''Content-Type''" "CanonicalHeaderKey ''Cache-Control'' = ''Cache-Control''"
  "CanonicalHeaderKey ''If-None-Match'' = ''If-None-Match''"
  "CanonicalHeaderKey ''If-Modified-Since'' = ''If-Modified-Since''"
  "CanonicalHeaderKey ''X-Forwarded-Proto'' = ''X-Forwarded-Proto''"
  "CanonicalHeaderKey ''X-Forwarded-Host'' = ''X-Forwarded-Host''"
  "CanonicalHeaderKey ''X-Forwarded-Prefix'' = ''X-Forwarded-Prefix''"
  "CanonicalHeaderKey ''Forwarded'' = ''Forwarded''"
  by (simp_all add: canon_eval)

text \<open>The headers a served document carries.\<close>

lemma doc_reply_headers:
  assumes "rpStatus w = 0"
  shows "header_Get (rpHeader (doc_reply env cfg r doc w)) ''ETag'' = cdEtag doc"
    and "header_Get (rpHeader (doc_reply env cfg r doc w)) ''Last-Modified'' = seFormat env (cdModified doc)"
    and "header_Get (rpHeader (doc_reply env cfg r doc w)) ''Cache-Control'' =
      (if authFor cfg (srPath r) = None then ''public'' else ''private'') @
      (if hCacheControlTTL cfg > 0 then '', max-age='' @ itoa_nat (nat (hCacheControlTTL cfg div second))
       else '', no-cache'')"
  using assms
  by (simp_all add: doc_reply_def setCacheHeaders_def Let_def header_get_set canonical_keys canonical_ETag)

text \<open>A conditional request: the request with a validator added.\<close>

definition with_header :: "string \<Rightarrow> string \<Rightarrow> server_request \<Rightarrow> server_request" where
  "with_header k v r = r\<lparr>srHeader := header_Set k v (srHeader r)\<rparr>"

lemma with_header_sel [simp]:
  "srPath (with_header k v r) = srPath r" "srMethod (with_header k v r) = srMethod r"
  "srHost (with_header k v r) = srHost r" "srTLS (with_header k v r) = srTLS r"
  "srRemoteAddr (with_header k v r) = srRemoteAddr r"
  by (simp_all add: with_header_def)

lemma request_Get_with_header:
  "request_Get (with_header k v r) k' = (if CanonicalHeaderKey k = CanonicalHeaderKey k' then v else request_Get r k')"
  by (simp add: with_header_def header_get_set)

lemma selfURL_with_header:
  assumes "k = ''If-None-Match'' \<or> k = ''If-Modified-Since''"
  shows "selfURL p (with_header k v r) path = selfURL p r path"
proof -
  have "request_Get (with_header k v r) ''X-Forwarded-Proto'' = request_Get r ''X-Forwarded-Proto''"
    "request_Get (with_header k v r) ''X-Forwarded-Host'' = request_Get r ''X-Forwarded-Host''"
    "request_Get (with_header k v r) ''X-Forwarded-Prefix'' = request_Get r ''X-Forwarded-Prefix''"
    "request_Get (with_header k v r) ''Forwarded'' = request_Get r ''Forwarded''"
    using assms by (auto simp: request_Get_with_header canonical_keys)
  then have "parseForwarded p (with_header k v r) = parseForwarded p r"
    by (simp only: parseForwarded_def with_header_sel)
  then show ?thesis by (simp only: selfURL_def with_header_sel)
qed

text \<open>C32: protected surfaces.  A request without a configured credential gets a fixed refusal: not
  found, method not allowed, or unauthorised; the window is not read, nothing is rendered or cached.
  A request that is admitted to a protected surface and gets a document is told to cache it privately
  only.\<close>

theorem protected_surface_refuses:
  assumes "authFor cfg (srPath r) = Some a" "ServeHTTP env cfg c r new_reply sv = (w, sv')"
  shows "(\<not> presents r a \<longrightarrow>
           (rpStatus w, rpBody w) \<in> {(404, ''404 page not found'' @ newline),
              (405, ''method not allowed'' @ newline), (401, ''unauthorized'' @ newline)} \<and>
           svStore sv' = svStore sv \<and> svCache sv' = svCache sv) \<and>
         (presents r a \<and> rpStatus w \<in> {0, 200, 304} \<longrightarrow>
           HasPrefix (header_Get (rpHeader w) ''Cache-Control'') ''private, '')"
proof -
  have adm: "admitted_to cfg r \<longleftrightarrow> presents r a"
    using assms(1) by (simp add: admitted_to_def authenticate_iff)
  consider "\<not> on_surface cfg r" | "on_surface cfg r" "\<not> reads r" | "on_surface cfg r" "reads r" by blast
  then show ?thesis
  proof cases
    case 1
    with assms(2) show ?thesis by (auto simp: ServeHTTP_off NotFound_def)
  next
    case 2
    with assms(2) show ?thesis by (auto simp: ServeHTTP_method)
  next
    case 3
    show ?thesis
    proof (cases "presents r a")
      case False
      with 3 assms adm ServeHTTP_denied [OF 3, of env c new_reply sv] show ?thesis
        by (auto simp: writeAuthChallenge_def)
    next
      case True
      obtain d sv3 where d: "document env cfg c (srPath r) (selfURL (hProxy cfg) r (srPath r)) (counted cfg r sv) = (d, sv3)"
        by (metis prod.collapse)
      have w: "(w, sv') = ServeHTTP env cfg c r new_reply sv" using assms(2) by simp
      show ?thesis
        using w d True adm assms(1) doc_reply_headers(3) [of new_reply env cfg r]
        unfolding ServeHTTP_admitted [OF 3 adm [THEN iffD2, OF True]]
        by (cases d) (auto simp: HasPrefix_def header_Get_def split: if_splits)
    qed
  qed
qed

text \<open>A unary rendering of dates, for the examples.\<close>

definition unary_date :: "time \<Rightarrow> string" where
  "unary_date t = (let q = t div second in
     (if q < 0 then CHR ''-'' # replicate (nat (- q)) (CHR ''x'') else CHR ''+'' # replicate (nat q) (CHR ''x'')))"

definition unary_parse :: "string \<Rightarrow> time option" where
  "unary_parse s = Some ((if hd s = CHR ''-'' then - int (length s - 1) else int (length s - 1)) * second)"

lemma unary_parse_date: "unary_parse (unary_date t) = Some (t div second * second)"
  by (simp add: unary_parse_def unary_date_def Let_def)

definition sample_env :: "memoryStore serve_env" where
  "sample_env = \<lparr>seNow = (\<lambda>_. unix_epoch), seSha = (\<lambda>s. ''x''), seRss = (\<lambda>f. Inr ''<rss><channel></channel></rss>''),
     seAtom = (\<lambda>f. Inr ''<feed></feed>''), seFormat = unary_date, seParse = unary_parse\<rparr>"

definition sample_handler :: "memoryStore handlerConfig" where
  "sample_handler = \<lparr>hStore = memory_window (\<lambda>_ _. 0), hMeta = \<lparr>metaTitle = ''t'', metaLink = ''l'', metaDescription = ''d''\<rparr>,
     hMaxItems = 5, hRssPath = ''/rss'', hAtomPath = ''/atom'', hRenderCacheTTL = second, hCacheControlTTL = 0,
     hRssAuth = Some sample_auth, hAtomAuth = None, hProxy = \<lparr>publicURL = ''p'', pcLink = '''', trusted = None\<rparr>,
     hStartedAt = 5\<rparr>"

definition sample_server :: "memoryStore server" where
  "sample_server = snd (newHandler sample_handler (newMemoryStore 5))"

definition plain_request :: "string \<Rightarrow> server_request" where
  "plain_request path = \<lparr>srMethod = ''GET'', srPath = path, srHost = ''h'', srRemoteAddr = ''192.0.2.7:80'',
     srTLS = False, srHeader = (\<lambda>_. None), srBody = ''''\<rparr>"

theorem protected_surface_refuses_witness:
  "rpStatus (fst (ServeHTTP sample_env sample_handler None (plain_request ''/rss'') new_reply sample_server)) \<in> {404, 405, 401}"
proof -
  have a: "authFor sample_handler (srPath (plain_request ''/rss'')) = Some sample_auth"
    by (simp add: authFor_def sample_handler_def plain_request_def)
  have "\<not> presents (plain_request ''/rss'') sample_auth"
    by (simp add: presents_def plain_request_def sample_auth_def header_Get_def BasicAuth_def)
  with protected_surface_refuses [OF a surjective_pairing] show ?thesis by auto
qed

subsection \<open>Conditional requests\<close>

lemma rawBody_caches:
  assumes "hRenderCacheTTL cfg > 0" "rawBody env cfg c path sv = (Inr raw, sv')"
  shows "svCache sv' path = Some raw"
  using assms by (auto simp: rawBody_def cache_hit_def Let_def split: option.splits sum.splits prod.splits if_splits)

lemma rawBody_hit:
  assumes "hRenderCacheTTL cfg > 0" "svCache sv path = Some raw" "seNow env sv - cdAt raw < hRenderCacheTTL cfg"
  shows "rawBody env cfg c path sv = (Inr raw, sv)"
  using assms by (simp add: rawBody_def cache_hit_def)

text \<open>The first response was the document; while its render is cached, the next request of the client is
  answered from the same document.\<close>

lemma next_document:
  assumes ttl: "hRenderCacheTTL cfg > 0"
    and first: "ServeHTTP env cfg c r new_reply sv = (w, sv')" "rpStatus w = 200"
    and fresh: "\<forall>d s. svCache sv' (srPath r) = Some d \<longrightarrow> seNow env s - cdAt d < hRenderCacheTTL cfg"
    and key: "k = ''If-None-Match'' \<or> k = ''If-Modified-Since''"
    and adm: "admitted_to cfg (with_header k v r)"
  obtains doc where "on_surface cfg r" "srMethod r = ''GET''" "cdBody doc = rpBody w"
    "header_Get (rpHeader w) ''ETag'' = cdEtag doc" "cdEtag doc \<noteq> []"
    "header_Get (rpHeader w) ''Last-Modified'' = seFormat env (cdModified doc)"
    "svCache sv' (srPath r) \<noteq> None \<Longrightarrow> cdModified (the (svCache sv' (srPath r))) = cdModified doc"
    "svCache sv' (srPath r) \<noteq> None"
    "ServeHTTP env cfg c (with_header k v r) new_reply sv' =
       (let w' = doc_reply env cfg (with_header k v r) doc new_reply in
        if matchNotModified env (with_header k v r) doc
        then (WriteHeader 304 w', record_metric NotModifieds (counted cfg (with_header k v r) sv'))
        else (reply_Write (cdBody doc) w', counted cfg (with_header k v r) sv'))"
proof -
  let ?u = "selfURL (hProxy cfg) r (srPath r)"
  have on: "on_surface cfg r"
    using first by (cases "on_surface cfg r") (auto simp: ServeHTTP_off NotFound_def)
  have rd: "reads r"
    using first on by (cases "reads r") (auto simp: ServeHTTP_method)
  have ad: "admitted_to cfg r"
    using first on rd by (cases "admitted_to cfg r") (auto simp: ServeHTTP_denied writeAuthChallenge_def)
  obtain d sv3 where d: "document env cfg c (srPath r) ?u (counted cfg r sv) = (d, sv3)" by (metis prod.collapse)
  from first obtain doc where doc: "d = Inr doc" "\<not> matchNotModified env r doc" "srMethod r = ''GET''" "sv' = sv3"
      and w: "w = reply_Write (cdBody doc) (doc_reply env cfg r doc new_reply)"
    unfolding ServeHTTP_admitted [OF on rd ad] d
    using rd by (cases d) (auto simp: reads_def split: if_splits)
  obtain raw where raw: "rawBody env cfg c (srPath r) (counted cfg r sv) = (Inr raw, sv3)"
      "cdModified raw = cdModified doc"
      "doc = \<lparr>cdBody = cdBody doc, cdEtag = quoted (seSha env (cdBody doc)), cdModified = cdModified raw, cdCt = cdCt raw, cdAt = cdAt raw\<rparr>"
      "cdBody doc = (if srPath r = hRssPath cfg then injectRSSSelf (cdBody raw) ?u else injectAtomSelf (cdBody raw) ?u)"
    using d doc(1) by (auto simp: document_def Let_def split: sum.splits prod.splits)
  have cached: "svCache sv' (srPath r) = Some raw" using rawBody_caches [OF ttl raw(1)] doc(4) by simp
  let ?r = "with_header k v r"
  have "rawBody env cfg c (srPath r) (counted cfg ?r sv') = (Inr raw, counted cfg ?r sv')"
    using cached fresh by (intro rawBody_hit [OF ttl]) simp_all
  then have "document env cfg c (srPath r) ?u (counted cfg ?r sv') = (Inr doc, counted cfg ?r sv')"
    using raw(3,4) by (simp add: document_def Let_def)
  then have "ServeHTTP env cfg c ?r new_reply sv' =
       (let w' = doc_reply env cfg ?r doc new_reply in
        if matchNotModified env ?r doc
        then (WriteHeader 304 w', record_metric NotModifieds (counted cfg ?r sv'))
        else (reply_Write (cdBody doc) w', counted cfg ?r sv'))"
    using on rd doc(3) ServeHTTP_admitted [of cfg ?r env c new_reply sv', OF _ _ adm] selfURL_with_header [OF key]
    by (simp add: on_surface_def reads_def Let_def)
  moreover have "cdEtag doc \<noteq> []" by (subst raw(3)) (simp add: quoted_def)
  ultimately show thesis
    using that [of doc] on doc(3) w cached raw(2) doc_reply_headers [of new_reply env cfg r doc] by simp
qed

text \<open>Revalidation with the entity tag.  A client that was sent a document and asks again with its
  \<^verbatim>\<open>ETag\<close> in \<^verbatim>\<open>If-None-Match\<close>, while the render is cached, is answered 304 without a body.\<close>

theorem etag_revalidates:
  assumes "hRenderCacheTTL cfg > 0"
    and "ServeHTTP env cfg c r new_reply sv = (w, sv')" "rpStatus w = 200"
    and "\<forall>d s. svCache sv' (srPath r) = Some d \<longrightarrow> seNow env s - cdAt d < hRenderCacheTTL cfg"
    and "r' = with_header ''If-None-Match'' (header_Get (rpHeader w) ''ETag'') r" "admitted_to cfg r'"
  shows "rpStatus (fst (ServeHTTP env cfg c r' new_reply sv')) = 304 \<and>
         rpBody (fst (ServeHTTP env cfg c r' new_reply sv')) = []"
proof -
  have k: "''If-None-Match'' = ''If-None-Match'' \<or> ''If-None-Match'' = ''If-Modified-Since''" by simp
  show ?thesis
  proof (rule next_document [OF assms(1,2,3,4) k assms(6) [unfolded assms(5)]], goal_cases)
    case (1 doc)
    then have "matchNotModified env r' doc"
      by (simp add: matchNotModified_def assms(5) request_Get_with_header)
    with 1 show ?case by (simp add: assms(5) Let_def)
  qed
qed

text \<open>Revalidation with the date never succeeds.  HTTP dates have whole seconds, the time of the
  last change has nanoseconds and is compared unrounded; so a client that sends back the
  \<^verbatim>\<open>Last-Modified\<close> it was given is sent the whole unchanged document again, unless the last change fell
  on a whole second.\<close>

theorem last_modified_never_revalidates:
  assumes "hRenderCacheTTL cfg > 0"
    and "ServeHTTP env cfg c r new_reply sv = (w, sv')" "rpStatus w = 200"
    and "\<forall>d s. svCache sv' (srPath r) = Some d \<longrightarrow> seNow env s - cdAt d < hRenderCacheTTL cfg"
    and "\<forall>d. svCache sv' (srPath r) = Some d \<longrightarrow> cdModified d mod second \<noteq> 0"
    and "\<forall>t. seFormat env t \<noteq> [] \<and> seParse env (seFormat env t) = Some (t div second * second)"
    and "request_Get r ''If-None-Match'' = []"
    and "r' = with_header ''If-Modified-Since'' (header_Get (rpHeader w) ''Last-Modified'') r" "admitted_to cfg r'"
  shows "rpStatus (fst (ServeHTTP env cfg c r' new_reply sv')) = 200 \<and>
         rpBody (fst (ServeHTTP env cfg c r' new_reply sv')) = rpBody w"
proof -
  have k: "''If-Modified-Since'' = ''If-None-Match'' \<or> ''If-Modified-Since'' = ''If-Modified-Since''" by simp
  show ?thesis
  proof (rule next_document [OF assms(1,2,3,4) k assms(9) [unfolded assms(8)]], goal_cases)
    case (1 doc)
    let ?t = "cdModified doc"
    have "?t mod second \<noteq> 0" using 1(7,8) assms(5) by fastforce
    moreover have "?t div second * second + ?t mod second = ?t" by (rule div_mult_mod_eq)
    moreover have "0 \<le> ?t mod second" by (simp add: second_def)
    ultimately have "?t div second * second < ?t" by linarith
    then have "\<not> matchNotModified env r' doc"
      using 1(6) assms(6,7)
      by (simp add: matchNotModified_def assms(8) request_Get_with_header canonical_keys Let_def)
    with 1 show ?case by (simp add: assms(8) Let_def)
  qed
qed

text \<open>The Atom surface of the sample sink, read for the first time.\<close>

lemma counted_quiet: "\<not> svInstr sv \<Longrightarrow> counted cfg r sv = sv"
  by (simp add: counted_def record_metric_def recordAuthSuccess_def split: option.split)

definition sample_raw :: cachedDoc where
  "sample_raw = \<lparr>cdBody = ''<feed></feed>'', cdEtag = '''', cdModified = 5, cdCt = ''application/atom+xml'', cdAt = unix_epoch\<rparr>"

lemma sample_rawBody:
  "rawBody sample_env sample_handler None ''/atom'' sample_server =
     (Inr sample_raw, sample_server\<lparr>svCache := [''/atom'' \<mapsto> sample_raw]\<rparr>)"
proof -
  have r: "fsRecent (hStore sample_handler) None 5 (newMemoryStore 5) = (Inr [], newMemoryStore 5)"
    by (simp add: sample_handler_def memory_window_def memory_Recent_def newMemoryStore_def visit_map_def newest_first_def)
  have cfg: "hRenderCacheTTL sample_handler = second" "hMaxItems sample_handler = 5" "hRssPath sample_handler = ''/rss''"
      "hStartedAt sample_handler = 5"
    by (simp_all add: sample_handler_def)
  have sv: "svStore sample_server = newMemoryStore 5" "svCache sample_server = (\<lambda>_. None)"
    by (simp_all add: sample_server_def newHandler_def)
  have "sample_server\<lparr>svStore := newMemoryStore 5\<rparr> = sample_server"
    using sv(1) by (simp add: sample_server_def newHandler_def)
  then show ?thesis
    unfolding rawBody_def cache_hit_def cfg sv r
    by (simp add: second_def ToAtom_def sample_env_def sample_raw_def lastModified_def cfg sv(2) Let_def)
qed

lemma sample_first:
  obtains w sv' where "ServeHTTP sample_env sample_handler None (plain_request ''/atom'') new_reply sample_server = (w, sv')"
    "rpStatus w = 200" "\<And>d. svCache sv' ''/atom'' = Some d \<Longrightarrow> d = sample_raw"
proof -
  let ?r = "plain_request ''/atom''"
  have r: "on_surface sample_handler ?r" "reads ?r" "admitted_to sample_handler ?r" "srPath ?r = ''/atom''"
      "srMethod ?r = ''GET''"
    by (simp_all add: on_surface_def reads_def admitted_to_def authFor_def plain_request_def sample_handler_def)
  have m: "\<not> matchNotModified sample_env ?r doc" for doc
    by (simp add: matchNotModified_def plain_request_def header_Get_def)
  have q: "counted sample_handler ?r sample_server = sample_server"
    by (rule counted_quiet) (simp add: sample_server_def newHandler_def)
  define u where "u = selfURL (hProxy sample_handler) ?r ''/atom''"
  obtain doc where doc: "document sample_env sample_handler None ''/atom'' u sample_server =
      (Inr doc, sample_server\<lparr>svCache := [''/atom'' \<mapsto> sample_raw]\<rparr>)"
    by (simp add: document_def sample_rawBody Let_def)
  have "ServeHTTP sample_env sample_handler None ?r new_reply sample_server =
      (reply_Write (cdBody doc) (doc_reply sample_env sample_handler ?r doc new_reply),
       sample_server\<lparr>svCache := [''/atom'' \<mapsto> sample_raw]\<rparr>)"
    by (simp add: ServeHTTP_admitted [OF r(1,2,3)] q r(4,5) u_def [symmetric] doc m)
  then show thesis by (rule that) simp_all
qed

lemma sample_admitted: "admitted_to sample_handler (with_header k v (plain_request ''/atom''))"
  by (simp add: admitted_to_def authFor_def plain_request_def sample_handler_def)

lemma sample_path: "srPath (plain_request p) = p" "request_Get (plain_request p) h = []"
  by (simp_all add: plain_request_def header_Get_def)

theorem etag_revalidates_witness:
  "\<exists>v sv. rpStatus (fst (ServeHTTP sample_env sample_handler None
     (with_header ''If-None-Match'' v (plain_request ''/atom'')) new_reply sv)) = 304"
proof (rule sample_first)
  fix w sv'
  assume f: "ServeHTTP sample_env sample_handler None (plain_request ''/atom'') new_reply sample_server = (w, sv')"
    "rpStatus w = 200" "\<And>d. svCache sv' ''/atom'' = Some d \<Longrightarrow> d = sample_raw"
  have "\<forall>d s. svCache sv' (srPath (plain_request ''/atom'')) = Some d \<longrightarrow>
      seNow sample_env s - cdAt d < hRenderCacheTTL sample_handler"
    using f(3) by (auto simp: sample_path sample_env_def sample_handler_def sample_raw_def second_def)
  moreover have "hRenderCacheTTL sample_handler > 0" by (simp add: sample_handler_def second_def)
  ultimately show ?thesis
    using etag_revalidates [OF _ f(1,2) _ refl sample_admitted] by blast
qed

theorem last_modified_never_revalidates_witness:
  "\<exists>v sv. rpStatus (fst (ServeHTTP sample_env sample_handler None
     (with_header ''If-Modified-Since'' v (plain_request ''/atom'')) new_reply sv)) = 200"
proof (rule sample_first)
  fix w sv'
  assume f: "ServeHTTP sample_env sample_handler None (plain_request ''/atom'') new_reply sample_server = (w, sv')"
    "rpStatus w = 200" "\<And>d. svCache sv' ''/atom'' = Some d \<Longrightarrow> d = sample_raw"
  have t: "\<forall>d s. svCache sv' (srPath (plain_request ''/atom'')) = Some d \<longrightarrow>
      seNow sample_env s - cdAt d < hRenderCacheTTL sample_handler"
    using f(3) by (auto simp: sample_path sample_env_def sample_handler_def sample_raw_def second_def)
  have m: "\<forall>d. svCache sv' (srPath (plain_request ''/atom'')) = Some d \<longrightarrow> cdModified d mod second \<noteq> 0"
    using f(3) by (auto simp: sample_path sample_raw_def second_def)
  have p: "\<forall>t. seFormat sample_env t \<noteq> [] \<and> seParse sample_env (seFormat sample_env t) = Some (t div second * second)"
    using unary_parse_date by (simp add: sample_env_def unary_date_def Let_def)
  have "hRenderCacheTTL sample_handler > 0" by (simp add: sample_handler_def second_def)
  from last_modified_never_revalidates [OF this f(1,2) t m p sample_path(2) refl sample_admitted] show ?thesis
    by blast
qed

end
