(* ===== verification/Feed_MCP.thy ===== *)
theory Feed_MCP
  imports Feed_Server
begin

section \<open>The window over MCP (\<^verbatim>\<open>internal/sink/feed/mcp.go\<close>)\<close>

text \<open>
  The third rendering of the window: four read-only tools over \<^verbatim>\<open>Store.Recent\<close>, and the middleware that
  guards their route.  The protocol server is third-party; a tool is its handler.  \<open>lower\<close> is the full
  Unicode \<^verbatim>\<open>strings.ToLower\<close>, and \<open>parse3339\<close> is \<^verbatim>\<open>time.Parse(time.RFC3339, ...)\<close>.
\<close>

record mcpFeed =
  mfURL :: string
  mfTitle :: string
  mfCount :: nat

record mcpItem =
  miItemID :: string
  miGUID :: string
  miFeedURL :: string
  miFeedTitle :: string
  miTitle :: string
  miLink :: string
  miAuthors :: "string list"
  miCategories :: "string list"
  miSummary :: string
  miContent :: string
  miPublishedAt :: string
  miUpdatedAt :: string

definition toItem :: "(string \<Rightarrow> string) \<Rightarrow> change \<Rightarrow> mcpItem" where
  "toItem sha c =
     \<lparr>miItemID = ItemID c, miGUID = syntheticID sha (FeedURL c) (ItemID c), miFeedURL = FeedURL c,
      miFeedTitle = FeedTitle c, miTitle = Title c, miLink = Link c, miAuthors = Authors c,
      miCategories = Categories c, miSummary = Summary c, miContent = Content c,
      miPublishedAt = (case PublishedAt c of Some t \<Rightarrow> RFC3339 t | None \<Rightarrow> []),
      miUpdatedAt = (case UpdatedAt c of Some t \<Rightarrow> RFC3339 t | None \<Rightarrow> [])\<rparr>"

definition toSummary :: "(string \<Rightarrow> string) \<Rightarrow> change \<Rightarrow> mcpItem" where
  "toSummary sha c = (toItem sha c)\<lparr>miContent := []\<rparr>"

text \<open>The loop of \<^verbatim>\<open>feedsFrom\<close>, over the order of first sight and the summaries by feed.\<close>

fun feeds_loop ::
    "change list \<Rightarrow> string list \<Rightarrow> (string \<Rightarrow> mcpFeed option) \<Rightarrow> string list \<times> (string \<Rightarrow> mcpFeed option)" where
  "feeds_loop [] order idx = (order, idx)"
| "feeds_loop (c # cs) order idx =
     (let u = FeedURL c;
          (f, order') = (case idx u of
             Some f \<Rightarrow> (f, order)
           | None \<Rightarrow> (\<lparr>mfURL = u, mfTitle = FeedTitle c, mfCount = 0\<rparr>, order @ [u]));
          f1 = f\<lparr>mfCount := mfCount f + 1\<rparr>;
          f2 = (if mfTitle f1 = [] \<and> FeedTitle c \<noteq> [] then f1\<lparr>mfTitle := FeedTitle c\<rparr> else f1)
      in feeds_loop cs order' (idx(u \<mapsto> f2)))"

definition feedsFrom :: "change list \<Rightarrow> mcpFeed list" where
  "feedsFrom changes = (case feeds_loop changes [] (\<lambda>_. None) of (order, idx) \<Rightarrow> map (\<lambda>u. the (idx u)) order)"

fun recent_loop :: "(string \<Rightarrow> string) \<Rightarrow> change list \<Rightarrow> nat \<Rightarrow> string \<Rightarrow> mcpItem list \<Rightarrow> mcpItem list" where
  "recent_loop sha [] limit feedURL out = out"
| "recent_loop sha (c # cs) limit feedURL out =
     (if feedURL \<noteq> [] \<and> FeedURL c \<noteq> feedURL then recent_loop sha cs limit feedURL out
      else let out' = out @ [toSummary sha c] in
        if length out' \<ge> limit then out' else recent_loop sha cs limit feedURL out')"

definition recentItems :: "(string \<Rightarrow> string) \<Rightarrow> change list \<Rightarrow> int \<Rightarrow> string \<Rightarrow> mcpItem list" where
  "recentItems sha changes limit feedURL =
     recent_loop sha changes (nat (if limit \<le> 0 then 50 else limit)) feedURL []"

fun findItem :: "(string \<Rightarrow> string) \<Rightarrow> change list \<Rightarrow> string \<Rightarrow> string \<Rightarrow> mcpItem option" where
  "findItem sha [] feedURL itemID = None"
| "findItem sha (c # cs) feedURL itemID =
     (if FeedURL c = feedURL \<and> ItemID c = itemID then Some (toItem sha c) else findItem sha cs feedURL itemID)"

definition search_hit :: "(string \<Rightarrow> string) \<Rightarrow> time \<Rightarrow> string \<Rightarrow> change \<Rightarrow> bool" where
  "search_hit lower sinceT q c \<longleftrightarrow>
     \<not> (sinceT \<noteq> zero_time \<and> (case PublishedAt c of Some t \<Rightarrow> t | None \<Rightarrow> DetectedAt c) < sinceT) \<and>
     \<not> (q \<noteq> [] \<and> \<not> strings_Contains (lower (Title c @ newline @ Summary c @ newline @ Content c)) q)"

fun search_loop :: "(change \<Rightarrow> bool) \<Rightarrow> (string \<Rightarrow> string) \<Rightarrow> change list \<Rightarrow> mcpItem list \<Rightarrow> mcpItem list" where
  "search_loop hit sha [] out = out"
| "search_loop hit sha (c # cs) out =
     (if \<not> hit c then search_loop hit sha cs out else search_loop hit sha cs (out @ [toSummary sha c]))"

definition searchItems ::
    "(string \<Rightarrow> string) \<Rightarrow> (string \<Rightarrow> time result) \<Rightarrow> (string \<Rightarrow> string) \<Rightarrow> change list \<Rightarrow> string \<Rightarrow> string \<Rightarrow>
     mcpItem list result" where
  "searchItems lower parse3339 sha changes query since =
     (case (if since \<noteq> [] then parse3339 since else Inr zero_time) of
        Inl err \<Rightarrow> Inl (Errorf ''invalid since %q: %w'' [FStr since, FWrap err])
      | Inr sinceT \<Rightarrow> Inr (search_loop (search_hit lower sinceT (lower query)) sha changes []))"

subsection \<open>The tools\<close>

definition mcp_max :: "int \<Rightarrow> int" where
  "mcp_max maxItems = (if maxItems \<le> 0 then 50 else maxItems)"

definition mcp_recent :: "'s FeedStore \<Rightarrow> int \<Rightarrow> ctx \<Rightarrow> 's \<Rightarrow> change list result \<times> 's" where
  "mcp_recent st maxItems c s = fsRecent st c (nat (mcp_max maxItems)) s"

definition list_feeds :: "'s FeedStore \<Rightarrow> int \<Rightarrow> ctx \<Rightarrow> 's \<Rightarrow> mcpFeed list result \<times> 's" where
  "list_feeds st maxItems c s =
     (case mcp_recent st maxItems c s of
        (Inl err, s1) \<Rightarrow> (Inl err, s1) | (Inr ch, s1) \<Rightarrow> (Inr (feedsFrom ch), s1))"

definition list_recent_items ::
    "'s FeedStore \<Rightarrow> int \<Rightarrow> (string \<Rightarrow> string) \<Rightarrow> ctx \<Rightarrow> int \<Rightarrow> string \<Rightarrow> 's \<Rightarrow> mcpItem list result \<times> 's" where
  "list_recent_items st maxItems sha c limit feedURL s =
     (case mcp_recent st maxItems c s of
        (Inl err, s1) \<Rightarrow> (Inl err, s1)
      | (Inr ch, s1) \<Rightarrow>
          (let lim = (if limit \<le> 0 \<or> limit > mcp_max maxItems then mcp_max maxItems else limit)
           in (Inr (recentItems sha ch lim feedURL), s1)))"

definition get_item ::
    "'s FeedStore \<Rightarrow> int \<Rightarrow> (string \<Rightarrow> string) \<Rightarrow> ctx \<Rightarrow> string \<Rightarrow> string \<Rightarrow> 's \<Rightarrow> (bool \<times> mcpItem option) result \<times> 's" where
  "get_item st maxItems sha c feedURL itemID s =
     (case mcp_recent st maxItems c s of
        (Inl err, s1) \<Rightarrow> (Inl err, s1)
      | (Inr ch, s1) \<Rightarrow> (let it = findItem sha ch feedURL itemID in (Inr (it \<noteq> None, it), s1)))"

definition search_items ::
    "'s FeedStore \<Rightarrow> int \<Rightarrow> (string \<Rightarrow> string) \<Rightarrow> (string \<Rightarrow> time result) \<Rightarrow> (string \<Rightarrow> string) \<Rightarrow> ctx \<Rightarrow>
     string \<Rightarrow> string \<Rightarrow> 's \<Rightarrow> mcpItem list result \<times> 's" where
  "search_items st maxItems lower parse3339 sha c query since s =
     (case mcp_recent st maxItems c s of
        (Inl err, s1) \<Rightarrow> (Inl err, s1)
      | (Inr ch, s1) \<Rightarrow> (searchItems lower parse3339 sha ch query since, s1))"

text \<open>\<^verbatim>\<open>mcpAuthMiddleware\<close> in front of the protocol handler \<open>nxt\<close>.\<close>

definition mcpAuthMiddleware ::
    "SurfaceAuth option \<Rightarrow> (server_request \<Rightarrow> reply \<Rightarrow> 's server \<Rightarrow> reply \<times> 's server) \<Rightarrow>
     server_request \<Rightarrow> reply \<Rightarrow> 's server \<Rightarrow> reply \<times> 's server" where
  "mcpAuthMiddleware a nxt r w sv =
     (case authenticate a r of
        (name, False) \<Rightarrow>
          (writeAuthChallenge a w, record_metric (AuthFailure ''mcp'' (authFailReason a r)) sv)
      | (name, True) \<Rightarrow>
          (let sv1 = (if a \<noteq> None then record_metric (AuthSuccess ''mcp'' name) sv else sv)
           in nxt r w (record_metric McpRequests sv1)))"

subsection \<open>What the tools return\<close>

fun first_seen :: "string list \<Rightarrow> string list" where
  "first_seen [] = []"
| "first_seen (u # us) = u # filter (\<lambda>v. v \<noteq> u) (first_seen us)"

definition from_feed :: "string \<Rightarrow> change list \<Rightarrow> change list" where
  "from_feed u cs = filter (\<lambda>c. FeedURL c = u) cs"

text \<open>The first title that is not empty.\<close>

fun title_of :: "change list \<Rightarrow> string" where
  "title_of [] = []"
| "title_of (c # cs) = (if FeedTitle c \<noteq> [] then FeedTitle c else title_of cs)"

text \<open>The reference: one summary per feed, in the order in which the feeds first appear.\<close>

definition feeds_spec :: "change list \<Rightarrow> mcpFeed list" where
  "feeds_spec cs =
     map (\<lambda>u. \<lparr>mfURL = u, mfTitle = title_of (from_feed u cs), mfCount = length (from_feed u cs)\<rparr>)
       (first_seen (map FeedURL cs))"

definition summary_of :: "string \<Rightarrow> change list \<Rightarrow> mcpFeed option" where
  "summary_of u cs = (if from_feed u cs = [] then None
     else Some \<lparr>mfURL = u, mfTitle = title_of (from_feed u cs), mfCount = length (from_feed u cs)\<rparr>)"

lemma first_seen_snoc: "first_seen (us @ [u]) = (if u \<in> set us then first_seen us else first_seen us @ [u])"
  by (induction us) auto

lemma set_first_seen [simp]: "set (first_seen us) = set us"
  by (induction us) auto

lemma title_of_snoc: "title_of (cs @ [c]) = (if title_of cs = [] then FeedTitle c else title_of cs)"
  by (induction cs) auto

lemma from_feed_snoc: "from_feed u (cs @ [c]) = (if FeedURL c = u then from_feed u cs @ [c] else from_feed u cs)"
  by (simp add: from_feed_def)

lemma from_feed_empty: "from_feed u cs = [] \<longleftrightarrow> u \<notin> FeedURL ` set cs"
  by (auto simp: from_feed_def filter_empty_conv)

lemma feeds_loop_spec:
  "feeds_loop cs (first_seen (map FeedURL ds)) (\<lambda>u. summary_of u ds) =
     (first_seen (map FeedURL (ds @ cs)), (\<lambda>u. summary_of u (ds @ cs)))"
proof (induction cs arbitrary: ds)
  case (Cons c cs)
  let ?u = "FeedURL c"
  have step: "feeds_loop (c # cs) (first_seen (map FeedURL ds)) (\<lambda>u. summary_of u ds) =
      feeds_loop cs (first_seen (map FeedURL (ds @ [c]))) (\<lambda>u. summary_of u (ds @ [c]))"
  proof (cases "from_feed ?u ds = []")
    case True
    then have "(\<lambda>u. summary_of u ds)(?u \<mapsto> \<lparr>mfURL = ?u, mfTitle = FeedTitle c, mfCount = 1\<rparr>) = (\<lambda>u. summary_of u (ds @ [c]))"
      by (intro ext) (simp add: summary_of_def from_feed_snoc)
    with True show ?thesis
      by (simp add: summary_of_def [of ?u ds] first_seen_snoc from_feed_empty)
  next
    case False
    let ?n = "Suc (length (from_feed ?u ds))" and ?t = "title_of (from_feed ?u ds)"
    have "(\<lambda>u. summary_of u ds)(?u \<mapsto> (if ?t = [] \<and> FeedTitle c \<noteq> []
          then \<lparr>mfURL = ?u, mfTitle = FeedTitle c, mfCount = ?n\<rparr> else \<lparr>mfURL = ?u, mfTitle = ?t, mfCount = ?n\<rparr>)) =
        (\<lambda>u. summary_of u (ds @ [c]))"
      by (intro ext) (simp add: summary_of_def from_feed_snoc title_of_snoc)
    with False show ?thesis
      by (cases "?t = [] \<and> FeedTitle c \<noteq> []")
        (auto simp: summary_of_def [of ?u ds] first_seen_snoc from_feed_empty Let_def)
  qed
  also have "\<dots> = (first_seen (map FeedURL (ds @ c # cs)), (\<lambda>u. summary_of u (ds @ c # cs)))"
    using Cons [of "ds @ [c]"] by simp
  finally show ?case .
qed simp

lemma feedsFrom_spec: "feedsFrom cs = feeds_spec cs"
proof -
  have "(\<lambda>u. summary_of u []) = (\<lambda>_. None)" by (simp add: summary_of_def from_feed_def)
  then have "feeds_loop cs [] (\<lambda>_. None) = (first_seen (map FeedURL cs), (\<lambda>u. summary_of u cs))"
    using feeds_loop_spec [of cs "[]"] by simp
  then show ?thesis
    by (auto simp: feedsFrom_def feeds_spec_def summary_of_def from_feed_empty)
qed

lemma recent_loop_spec:
  "length out < limit \<Longrightarrow>
     recent_loop sha cs limit u out =
       out @ take (limit - length out) (map (toSummary sha) (filter (\<lambda>c. u = [] \<or> FeedURL c = u) cs))"
proof (induction cs arbitrary: out)
  case (Cons c cs)
  show ?case
  proof (cases "u = [] \<or> FeedURL c = u")
    case True
    show ?thesis
    proof (cases "limit \<le> Suc (length out)")
      case True
      with Cons.prems have "limit - length out = 1" by simp
      with True \<open>u = [] \<or> FeedURL c = u\<close> show ?thesis by auto
    next
      case False
      then have "limit - length out = Suc (limit - Suc (length out))" by simp
      with False \<open>u = [] \<or> FeedURL c = u\<close> Cons.IH [of "out @ [toSummary sha c]"] show ?thesis by auto
    qed
  next
    case False
    with Cons show ?thesis by simp
  qed
qed simp

lemma search_loop_spec: "search_loop hit sha cs out = out @ map (toSummary sha) (filter hit cs)"
  by (induction cs arbitrary: out) auto

lemma findItem_spec:
  "findItem sha cs u i = map_option (toItem sha) (find (\<lambda>c. FeedURL c = u \<and> ItemID c = i) cs)"
  by (induction cs) auto

text \<open>The tools report the window.  \<^verbatim>\<open>list_feeds\<close> gives one summary per feed in the order of first
  appearance, with the exact number of its items and the first title known; \<^verbatim>\<open>list_recent_items\<close> the
  newest items of the window, of one feed if asked, at most the limit and at most the window, without
  their content; \<^verbatim>\<open>get_item\<close> the first change of the window with the given feed and item.\<close>

theorem mcp_tools_report_window:
  assumes "fsRecent st c (nat (mcp_max n)) s = (Inr ch, s')"
  shows "list_feeds st n c s = (Inr (feeds_spec ch), s') \<and>
    list_recent_items st n sha c limit u s =
      (Inr (map (toSummary sha) (take (nat (if limit \<le> 0 \<or> limit > mcp_max n then mcp_max n else limit))
              (filter (\<lambda>x. u = [] \<or> FeedURL x = u) ch))), s') \<and>
    get_item st n sha c u i s =
      (Inr (let it = map_option (toItem sha) (find (\<lambda>x. FeedURL x = u \<and> ItemID x = i) ch) in (it \<noteq> None, it)), s')"
proof -
  have pos: "mcp_max n > 0" by (simp add: mcp_max_def)
  then have lim: "0 < (if limit \<le> 0 \<or> limit > mcp_max n then mcp_max n else limit)" by auto
  then have "recentItems sha ch (if limit \<le> 0 \<or> limit > mcp_max n then mcp_max n else limit) u =
      map (toSummary sha) (take (nat (if limit \<le> 0 \<or> limit > mcp_max n then mcp_max n else limit))
        (filter (\<lambda>x. u = [] \<or> FeedURL x = u) ch))"
    by (simp add: recentItems_def recent_loop_spec take_map)
  with assms show ?thesis
    by (simp add: list_feeds_def list_recent_items_def get_item_def mcp_recent_def feedsFrom_spec
          findItem_spec Let_def)
qed

theorem mcp_tools_report_window_witness:
  "list_feeds (memory_window (\<lambda>_ _. 0)) 5 None
     (snd (memory_Write (\<lambda>_ _. 0) None (sample_change ''a'' 1) (newMemoryStore 5))) =
     (Inr [\<lparr>mfURL = ''u'', mfTitle = '''', mfCount = 1\<rparr>],
      snd (memory_Write (\<lambda>_ _. 0) None (sample_change ''a'' 1) (newMemoryStore 5)))"
proof -
  let ?s = "snd (memory_Write (\<lambda>_ _. 0) None (sample_change ''a'' 1) (newMemoryStore 5))"
  have "fsRecent (memory_window (\<lambda>_ _. 0)) None (nat (mcp_max 5)) ?s = (Inr [sample_change ''a'' 1], ?s)"
    by (simp add: memory_window_def memory_Recent_def memory_Write_def newMemoryStore_def mcp_max_def Let_def
          visit_map_def newest_first_def)
  from mcp_tools_report_window [OF this] show ?thesis
    by (simp add: feeds_spec_def from_feed_def sample_change_def)
qed

end
