(* ===== verification/Feed_Sink.thy ===== *)
theory Feed_Sink
  imports Feed_MCP Wire_Options Validate_Sinks
begin

section \<open>The feed sink (\<^verbatim>\<open>internal/sink/feed/feed.go\<close>)\<close>

text \<open>
  The publisher itself: opening the store, the listener and the QUIC socket with the error paths in
  between, publishing into the window, and closing.  The world counts what is open: TCP listeners, UDP
  sockets and databases.  What the operating system and the libraries may refuse is the record
  \<open>sink_faults\<close>.  \<^verbatim>\<open>http.Server.Shutdown\<close> closes the listener; \<^verbatim>\<open>http3.Server.Close\<close> is documented not to
  close the packet connection it was given.  The loop of \<^verbatim>\<open>serve\<close>, which only hands the connections to
  the servers, is left out.
\<close>

record feed_world =
  fwTCP :: int
  fwUDP :: int
  fwDB :: int

record sink_faults =
  sfListen :: "string \<Rightarrow> feed_world \<Rightarrow> go_error option"
  sfInstruments :: "feed_world \<Rightarrow> go_error option"
  sfKeyPair :: "string \<Rightarrow> string \<Rightarrow> go_error option"
  sfAddr :: string
  sfListenUDP :: "feed_world \<Rightarrow> go_error option"
  sfShutdown :: "feed_world \<Rightarrow> go_error option"
  sfH3Close :: "feed_world \<Rightarrow> go_error option"
  sfDBClose :: "feed_world \<Rightarrow> go_error option"

datatype 'd store_handle =
    MemoryHandle memoryStore
  | SQLiteHandle "'d opened_store"
  | PostgresHandle "'d opened_store"

definition storeDriver :: "string \<Rightarrow> string" where
  "storeDriver d = (if d = [] then ''memory'' else d)"

definition pg_tls_options :: "tls_options \<Rightarrow> PGTLSOptions" where
  "pg_tls_options t = \<lparr>pgCAFile = toCAFile t, pgCertFile = toCertFile t, pgKeyFile = toKeyFile t,
     pgServerName = toServerName t, pgInsecureSkipVerify = toInsecureSkipVerify t\<rparr>"

record ('d, 'f) sink_env =
  sePG :: "'f pg_env"
  seSQLite :: "('d, feed_world) sql_driver"
  sePostgres :: "pg_config \<Rightarrow> ('d, feed_world) sql_driver"
  sePoolClose :: "'d \<Rightarrow> feed_world \<Rightarrow> feed_world"
  seFaults :: sink_faults
  seMeter :: bool

definition openStore :: "('d, 'f) sink_env \<Rightarrow> feed_options \<Rightarrow> feed_world \<Rightarrow> 'd store_handle result \<times> feed_world" where
  "openStore env opts w =
     (let d = storeDriver (feStoreDriver opts) in
      if d = ''memory'' then (Inr (MemoryHandle (newMemoryStore (nat (feMaxItems opts)))), w)
      else if d = ''sqlite'' then
        (case newSQLiteStore (seSQLite env) (feSQLitePath opts) (feTable opts) (nat (feMaxItems opts)) w of
           (Inl err, w1) \<Rightarrow> (Inl err, w1) | (Inr st, w1) \<Rightarrow> (Inr (SQLiteHandle st), w1))
      else if d = ''postgres'' then
        (case newPostgresStore (sePG env) (sePostgres env)
                \<lparr>poDSN = fePostgresDSN opts, poTable = feTable opts, poMax = nat (feMaxItems opts),
                 poTLS = map_option pg_tls_options (fePostgresTLS opts)\<rparr> w of
           (Inl err, w1) \<Rightarrow> (Inl err, w1) | (Inr st, w1) \<Rightarrow> (Inr (PostgresHandle st), w1))
      else (Inl (Errorf ''feed sink %q: unknown store driver %q'' [FStr (feName opts), FStr (feStoreDriver opts)]), w))"

definition closeStore :: "('d, 'f) sink_env \<Rightarrow> 'd store_handle \<Rightarrow> feed_world \<Rightarrow> go_error option \<times> feed_world" where
  "closeStore env h w =
     (case h of
        MemoryHandle m \<Rightarrow> (None, w)
      | SQLiteHandle st \<Rightarrow> (sfDBClose (seFaults env) w, db_close (seSQLite env) (os_db st) w)
      | PostgresHandle st \<Rightarrow> (None, sePoolClose env (os_db st) w))"

definition surfacePath :: "bool \<times> string \<Rightarrow> string \<Rightarrow> string" where
  "surfacePath s def = (if \<not> fst s then [] else if snd s = [] then def else snd s)"

definition withDefaults :: "FeedTimeoutsConfig \<Rightarrow> FeedTimeoutsConfig" where
  "withDefaults t =
     \<lparr>ft_ReadHeader = (if ft_ReadHeader t = 0 then 5 * second else ft_ReadHeader t),
      ft_Read = (if ft_Read t = 0 then 10 * second else ft_Read t),
      ft_Write = (if ft_Write t = 0 then 15 * second else ft_Write t),
      ft_Idle = (if ft_Idle t = 0 then 60 * second else ft_Idle t),
      ft_Shutdown = (if ft_Shutdown t = 0 then 5 * second else ft_Shutdown t)\<rparr>"

record 'd Publisher =
  puName :: string
  puStore :: "'d store_handle"
  puRss :: string
  puAtom :: string
  puMcp :: string
  puProxy :: proxyConfig
  puTimeouts :: FeedTimeoutsConfig
  puTLSCert :: string
  puTLSKey :: string
  puH3 :: bool

definition enableHTTP3 :: "('d, 'f) sink_env \<Rightarrow> 'd Publisher \<Rightarrow> feed_world \<Rightarrow> 'd Publisher result \<times> feed_world" where
  "enableHTTP3 env p w =
     (if puTLSCert p = [] \<or> puTLSKey p = [] then (Inl (Errorf ''http3 requires tls cert_file and key_file'' []), w)
      else
        case sfKeyPair (seFaults env) (puTLSCert p) (puTLSKey p) of
          Some err \<Rightarrow> (Inl (Errorf ''http3: load keypair: %w'' [FWrap err]), w)
        | None \<Rightarrow>
            (case sfListenUDP (seFaults env) w of
               Some err \<Rightarrow> (Inl (Errorf ''http3: listen udp on %s: %w'' [FStr (sfAddr (seFaults env)), FWrap err]), w)
             | None \<Rightarrow> (Inr (p\<lparr>puH3 := True\<rparr>), w\<lparr>fwUDP := fwUDP w + 1\<rparr>)))"

definition feed_New :: "('d, 'f) sink_env \<Rightarrow> feed_options \<Rightarrow> feed_world \<Rightarrow> 'd Publisher result \<times> feed_world" where
  "feed_New env opts w =
     (if feName opts = [] then (Inl (Errorf ''feed sink: name is required'' []), w)
      else
        case openStore env opts w of
          (Inl err, w1) \<Rightarrow> (Inl err, w1)
        | (Inr st, w1) \<Rightarrow>
            (case parseTrustedProxies (feTrustedProxies opts) of
               Inl err \<Rightarrow> (Inl (Errorf ''feed sink %q: trusted_proxies: %w'' [FStr (feName opts), FWrap err]),
                             snd (closeStore env st w1))
             | Inr tp \<Rightarrow>
                 (case (if seMeter env then sfInstruments (seFaults env) w1 else None) of
                    Some err \<Rightarrow> (Inl (Errorf ''feed sink %q: instruments: %w'' [FStr (feName opts), FWrap err]),
                                  snd (closeStore env st w1))
                  | None \<Rightarrow>
                      (case sfListen (seFaults env) (feListen opts) w1 of
                         Some err \<Rightarrow> (Inl (Errorf ''feed sink %q: listen %q: %w''
                                        [FStr (feName opts), FStr (feListen opts), FWrap err]),
                                       snd (closeStore env st w1))
                       | None \<Rightarrow>
                           (let w2 = w1\<lparr>fwTCP := fwTCP w1 + 1\<rparr>;
                                p = \<lparr>puName = feName opts, puStore = st,
                                     puRss = surfacePath (feRSS opts) ''/rss'',
                                     puAtom = surfacePath (feAtom opts) ''/atom'',
                                     puMcp = surfacePath (feMCP opts) ''/mcp'',
                                     puProxy = \<lparr>publicURL = TrimRight (fePublicURL opts) (CHR ''/''),
                                                pcLink = TrimRight (feLink opts) (CHR ''/''), trusted = tp\<rparr>,
                                     puTimeouts = withDefaults (feTimeouts opts), puTLSCert = feTLSCertFile opts,
                                     puTLSKey = feTLSKeyFile opts, puH3 = False\<rparr>
                            in if feHTTP3 opts then
                                 (case enableHTTP3 env p w2 of
                                    (Inl err, w3) \<Rightarrow>
                                      (Inl (Errorf ''feed sink %q: %w'' [FStr (feName opts), FWrap err]),
                                       snd (closeStore env st (w3\<lparr>fwTCP := fwTCP w3 - 1\<rparr>)))
                                  | (Inr p', w3) \<Rightarrow> (Inr p', w3))
                               else (Inr p, w2))))))"

text \<open>\<^verbatim>\<open>Publish\<close>: error envelopes never enter the window.\<close>

definition feed_Publish :: "'s FeedStore \<Rightarrow> ctx \<Rightarrow> change \<Rightarrow> 's \<Rightarrow> go_error option \<times> 's" where
  "feed_Publish st c x s = (if DLQFromSink x \<noteq> [] then (None, s) else fsWrite st c x s)"

definition first_err :: "go_error option \<Rightarrow> go_error option \<Rightarrow> go_error option" where
  "first_err err cerr = (if err = None then cerr else err)"

definition feed_Close :: "('d, 'f) sink_env \<Rightarrow> 'd Publisher \<Rightarrow> feed_world \<Rightarrow> go_error option \<times> feed_world" where
  "feed_Close env p w =
     (let err = sfShutdown (seFaults env) w;
          w1 = w\<lparr>fwTCP := fwTCP w - 1\<rparr>;
          err1 = (if puH3 p then first_err err (sfH3Close (seFaults env) w1) else err);
          (cerr, w2) = closeStore env (puStore p) w1
      in (first_err err1 cerr, w2))"

text \<open>The root handler: with the MCP surface enabled a mux takes its route to the guarded protocol
  handler and everything else to the feed handler.  Paths are taken as clean; the mux redirects
  others.\<close>

definition root_ServeHTTP ::
    "'s serve_env \<Rightarrow> 's handlerConfig \<Rightarrow> ctx \<Rightarrow> string \<Rightarrow> SurfaceAuth option \<Rightarrow>
     (server_request \<Rightarrow> reply \<Rightarrow> 's server \<Rightarrow> reply \<times> 's server) \<Rightarrow>
     server_request \<Rightarrow> reply \<Rightarrow> 's server \<Rightarrow> reply \<times> 's server" where
  "root_ServeHTTP env cfg c mcpPath mcpAuth mcpHandler r w sv =
     (if mcpPath \<noteq> [] \<and> mux_matches mcpPath (srPath r) then mcpAuthMiddleware mcpAuth mcpHandler r w sv
      else ServeHTTP env cfg c r w sv)"

definition altSvcHandler ::
    "(reply \<Rightarrow> reply) \<Rightarrow> (server_request \<Rightarrow> reply \<Rightarrow> 's server \<Rightarrow> reply \<times> 's server) \<Rightarrow>
     server_request \<Rightarrow> reply \<Rightarrow> 's server \<Rightarrow> reply \<times> 's server" where
  "altSvcHandler setQUIC nxt r w sv = nxt r (setQUIC w) sv"

subsection \<open>Resources\<close>

text \<open>The database drivers keep count of the databases and touch nothing else.\<close>

definition counts_same :: "('s \<Rightarrow> int) \<Rightarrow> ('d, 's) sql_driver \<Rightarrow> bool" where
  "counts_same n drv \<longleftrightarrow>
     (\<forall>p s. n (snd (db_open drv p s)) = n s) \<and> (\<forall>d q s. n (snd (db_exec drv d q s)) = n s) \<and>
     (\<forall>d s. n (db_close drv d s) = n s)"

definition driver_ok :: "('d, feed_world) sql_driver \<Rightarrow> bool" where
  "driver_ok drv \<longleftrightarrow> counts_open fwDB drv \<and> counts_same fwTCP drv \<and> counts_same fwUDP drv"

definition drivers_ok :: "('d, 'f) sink_env \<Rightarrow> bool" where
  "drivers_ok env \<longleftrightarrow> driver_ok (seSQLite env) \<and> (\<forall>cfg. driver_ok (sePostgres env cfg)) \<and>
     (\<forall>d w. fwDB (sePoolClose env d w) = fwDB w - 1 \<and> fwTCP (sePoolClose env d w) = fwTCP w \<and>
            fwUDP (sePoolClose env d w) = fwUDP w)"

lemma counts_sameD:
  assumes "counts_same n drv"
  shows "db_open drv p s = (r, s') \<Longrightarrow> n s' = n s" "db_exec drv d q s = (e, s') \<Longrightarrow> n s' = n s"
    "n (db_close drv d s) = n s"
  using assms unfolding counts_same_def by (metis snd_conv)+

lemma newSQLiteStore_same:
  assumes "counts_same n drv" "newSQLiteStore drv path table k s = (r, s')"
  shows "n s' = n s"
  using assms(2) unfolding newSQLiteStore_def Let_def
  by (auto simp: counts_sameD(3) [OF assms(1)] split: if_split_asm sum.split_asm prod.split_asm option.split_asm
        dest!: counts_sameD(1,2) [OF assms(1)])

lemma newPostgresStore_same:
  assumes "\<And>cfg. counts_same n (drv cfg)" "newPostgresStore env drv opts s = (r, s')"
  shows "n s' = n s"
  using assms(2) unfolding newPostgresStore_def Let_def
  by (auto simp: counts_sameD(3) [OF assms(1)] split: if_split_asm sum.split_asm prod.split_asm option.split_asm
        dest!: counts_sameD(1,2) [OF assms(1)])

text \<open>What is open, as a triple.\<close>

definition open_now :: "feed_world \<Rightarrow> int \<times> int \<times> int" where
  "open_now w = (fwTCP w, fwUDP w, fwDB w)"

definition db_of :: "'d store_handle \<Rightarrow> int" where
  "db_of h = (case h of MemoryHandle m \<Rightarrow> 0 | _ \<Rightarrow> 1)"

lemma openStore_open:
  assumes "drivers_ok env" "openStore env opts w = (r, w')"
  shows "open_now w' = (fwTCP w, fwUDP w, fwDB w + (case r of Inr h \<Rightarrow> db_of h | Inl e \<Rightarrow> 0))"
proof -
  note ok = assms(1) [unfolded drivers_ok_def driver_ok_def]
  have sq: "open_now w1 = (fwTCP w, fwUDP w, fwDB w + (if isl q then 0 else 1))"
    if "newSQLiteStore (seSQLite env) p t k w = (q, w1)" for p t k q w1
  proof -
    have "fwDB w1 = (if isl q then fwDB w else fwDB w + 1)"
      using ok by (intro newSQLiteStore_no_leak [OF _ that]) blast
    moreover have "fwTCP w1 = fwTCP w" using ok by (intro newSQLiteStore_same [OF _ that]) blast
    moreover have "fwUDP w1 = fwUDP w" using ok by (intro newSQLiteStore_same [OF _ that]) blast
    ultimately show ?thesis by (simp add: open_now_def)
  qed
  have pg: "open_now w1 = (fwTCP w, fwUDP w, fwDB w + (if isl q then 0 else 1))"
    if "newPostgresStore (sePG env) (sePostgres env) po w = (q, w1)" for po q w1
  proof -
    have "fwDB w1 = (if isl q then fwDB w else fwDB w + 1)"
      using ok by (intro newPostgresStore_no_leak [OF _ that]) blast
    moreover have "fwTCP w1 = fwTCP w" using ok by (intro newPostgresStore_same [OF _ that]) blast
    moreover have "fwUDP w1 = fwUDP w" using ok by (intro newPostgresStore_same [OF _ that]) blast
    ultimately show ?thesis by (simp add: open_now_def)
  qed
  show ?thesis
    using assms(2) unfolding openStore_def Let_def
    by (auto simp: open_now_def db_of_def split: if_split_asm prod.split_asm sum.split_asm dest!: sq pg)
qed

lemma closeStore_open:
  assumes "drivers_ok env" "closeStore env h w = (e, w')"
  shows "open_now w' = (fwTCP w, fwUDP w, fwDB w - db_of h)"
  using assms unfolding drivers_ok_def driver_ok_def closeStore_def
  by (auto simp: open_now_def db_of_def counts_openD(4) counts_sameD(3) split: store_handle.splits)

lemma enableHTTP3_open:
  assumes "enableHTTP3 env p w = (r, w')"
  shows "open_now w' = (fwTCP w, fwUDP w + (if isl r then 0 else 1), fwDB w)"
    and "r = Inr p' \<Longrightarrow> puStore p' = puStore p \<and> puH3 p'"
  using assms by (auto simp: enableHTTP3_def open_now_def split: if_splits option.splits)

lemma feed_New_open:
  assumes "drivers_ok env" "feed_New env opts w = (r, w')"
  shows "case r of
      Inl err \<Rightarrow> open_now w' = open_now w
    | Inr p \<Rightarrow> open_now w' = (fwTCP w + 1, fwUDP w + (if puH3 p then 1 else 0), fwDB w + db_of (puStore p)) \<and>
        puH3 p = feHTTP3 opts"
proof (cases "feName opts = []")
  case True
  with assms(2) show ?thesis by (auto simp: feed_New_def)
next
  case False
  obtain q w1 where q: "openStore env opts w = (q, w1)" by (metis prod.collapse)
  note o1 = openStore_open [OF assms(1) q]
  show ?thesis
  proof (cases q)
    case (Inl err)
    with False q assms(2) o1 show ?thesis by (auto simp: feed_New_def open_now_def)
  next
    case (Inr st)
    have o1': "fwTCP w1 = fwTCP w" "fwUDP w1 = fwUDP w" "fwDB w1 = fwDB w + db_of st"
      using o1 Inr by (simp_all add: open_now_def)
    have cl: "open_now (snd (closeStore env st v)) = (fwTCP v, fwUDP v, fwDB v - db_of st)" for v
      by (rule closeStore_open [OF assms(1) surjective_pairing])
    have h3: "open_now v' = (fwTCP v, fwUDP v + (if isl x then 0 else 1), fwDB v) \<and>
        (\<forall>p'. x = Inr p' \<longrightarrow> puStore p' = puStore p \<and> puH3 p')" if "enableHTTP3 env p v = (x, v')" for p v x v'
      using enableHTTP3_open [OF that] by blast
    show ?thesis
      using assms(2) False q Inr o1' cl unfolding feed_New_def Let_def
      by (auto simp: open_now_def split: if_split_asm sum.split_asm option.split_asm prod.split_asm dest!: h3)
  qed
qed

lemma feed_Close_open:
  assumes "drivers_ok env" "feed_Close env p w = (e, w')"
  shows "open_now w' = (fwTCP w - 1, fwUDP w, fwDB w - db_of (puStore p))"
proof -
  obtain ce w2 where c: "closeStore env (puStore p) (w\<lparr>fwTCP := fwTCP w - 1\<rparr>) = (ce, w2)" by (metis prod.collapse)
  with assms(2) have "w' = w2" by (simp add: feed_Close_def Let_def)
  with closeStore_open [OF assms(1) c] show ?thesis by simp
qed

definition counting_driver :: "(unit, feed_world) sql_driver" where
  "counting_driver = \<lparr>db_open = (\<lambda>p w. (Inr (), w\<lparr>fwDB := fwDB w + 1\<rparr>)), db_exec = (\<lambda>d q w. (None, w)),
     db_close = (\<lambda>d w. w\<lparr>fwDB := fwDB w - 1\<rparr>)\<rparr>"

definition sample_sink_env :: "(unit, unit) sink_env" where
  "sample_sink_env = \<lparr>sePG = \<lparr>pg_ParseConfig = (\<lambda>_. Inl Canceled), pg_readFile = (\<lambda>_. Inl Canceled),
       pg_pemCerts = (\<lambda>_. False), pg_loadPair = (\<lambda>_ _. None)\<rparr>,
     seSQLite = counting_driver, sePostgres = (\<lambda>_. counting_driver), sePoolClose = (\<lambda>d w. w\<lparr>fwDB := fwDB w - 1\<rparr>),
     seFaults = \<lparr>sfListen = (\<lambda>_ _. None), sfInstruments = (\<lambda>_. None), sfKeyPair = (\<lambda>_ _. None), sfAddr = '''',
       sfListenUDP = (\<lambda>_. None), sfShutdown = (\<lambda>_. None), sfH3Close = (\<lambda>_. None), sfDBClose = (\<lambda>_. None)\<rparr>,
     seMeter = False\<rparr>"

definition sample_feed_options :: feed_options where
  "sample_feed_options =
     \<lparr>feName = ''f'', feListen = '':80'', fePublicURL = '''', feTitle = ''t'', feLink = '''', feDescription = '''',
      feMaxItems = 5, feRSS = (True, ''''), feAtom = (True, ''''), feMCP = (False, ''''), feRenderCacheTTL = 0,
      feCacheControlTTL = 0, feTimeouts = \<lparr>ft_ReadHeader = 0, ft_Read = 0, ft_Write = 0, ft_Idle = 0, ft_Shutdown = 0\<rparr>,
      feTLSCertFile = ''c'', feTLSKeyFile = ''k'', feHTTP3 = True, feTrustedProxies = [], feRSSAuth = None,
      feAtomAuth = None, feMCPAuth = None, feStoreDriver = ''memory'', feSQLitePath = '''', fePostgresDSN = '''',
      feTable = '''', fePostgresTLS = None\<rparr>"

text \<open>What the feed sink leaves open.  When construction fails, at whatever step, no listener, socket
  or database stays open.  When it succeeds, closing the publisher closes the listener and the
  database; the UDP socket bound for HTTP/3, which the QUIC server does not close, stays open.\<close>

theorem feed_sink_resources:
  assumes "drivers_ok env" "feed_New env opts w = (r, w1)"
  shows "case r of
      Inl err \<Rightarrow> (fwTCP w1, fwUDP w1, fwDB w1) = (fwTCP w, fwUDP w, fwDB w)
    | Inr p \<Rightarrow> (let w2 = snd (feed_Close env p w1)
                in (fwTCP w2, fwUDP w2, fwDB w2) = (fwTCP w, fwUDP w + (if feHTTP3 opts then 1 else 0), fwDB w))"
  using feed_New_open [OF assms] feed_Close_open [OF assms(1) surjective_pairing, of _ w1]
  by (auto simp: open_now_def Let_def split: sum.splits)

theorem feed_sink_resources_witness:
  "case feed_New sample_sink_env sample_feed_options \<lparr>fwTCP = 0, fwUDP = 0, fwDB = 0\<rparr> of
     (Inl err, w1) \<Rightarrow> False
   | (Inr p, w1) \<Rightarrow> fwUDP (snd (feed_Close sample_sink_env p w1)) = 1"
proof -
  let ?w = "\<lparr>fwTCP = 0, fwUDP = 0, fwDB = 0\<rparr>"
  have ok: "drivers_ok sample_sink_env"
    by (auto simp: drivers_ok_def driver_ok_def counts_open_def counts_same_def sample_sink_env_def counting_driver_def)
  obtain p w1 where n: "feed_New sample_sink_env sample_feed_options ?w = (Inr p, w1)"
    by (simp add: feed_New_def openStore_def storeDriver_def parseTrustedProxies_def enableHTTP3_def
          sample_sink_env_def sample_feed_options_def Let_def)
  have "feHTTP3 sample_feed_options" by (simp add: sample_feed_options_def)
  with feed_sink_resources [OF ok n] show ?thesis by (simp add: n Let_def)
qed

text \<open>Publishing: an error envelope leaves the window as it was, any other change is written.\<close>

lemma feed_Publish_dead_letter: "DLQFromSink x \<noteq> [] \<Longrightarrow> feed_Publish st c x s = (None, s)"
  by (simp add: feed_Publish_def)

lemma mcp_route_guarded:
  assumes "mcpPath \<noteq> []" "mux_matches mcpPath (srPath r)" "\<not> presents r a"
  shows "root_ServeHTTP env cfg c mcpPath (Some a) handler r new_reply sv =
     (WriteChallenge (Some a) new_reply, record_metric (AuthFailure ''mcp'' (FailReason a r)) sv)"
proof -
  obtain name where "authenticate (Some a) r = (name, False)"
    using assms(3) by (metis (full_types) authenticate_iff option.simps(5) prod.collapse)
  with assms(1,2) show ?thesis
    by (simp add: root_ServeHTTP_def mcpAuthMiddleware_def writeAuthChallenge_def authFailReason_def)
qed

subsection \<open>An accepted configuration opens\<close>

lemma Contains_byte: "strings_Contains s [c] \<longleftrightarrow> c \<in> set s"
  by (induction s) (auto simp: strings_Contains_def HasPrefix_def)

lemma Split_chars: "set s \<subseteq> insert c (\<Union>(set ` set (strings_Split s c)))"
proof (induction s c rule: strings_Split.induct)
  case (2 x xs c)
  then show ?case by (cases "strings_Split xs c") auto
qed simp

lemma no_slash_digit: "dec_digit c \<Longrightarrow> c \<noteq> CHR ''/''"
  by (auto simp: dec_digit_def byte_def)

lemma no_slash_hex: "hex_value c \<noteq> None \<Longrightarrow> c \<noteq> CHR ''/''"
  by (auto simp: hex_value_def byte_def Let_def)

lemma v4_field_chars: "v4_field f \<noteq> None \<Longrightarrow> CHR ''/'' \<notin> set f"
proof
  assume "v4_field f \<noteq> None" and slash: "CHR ''/'' \<in> set f"
  then have "list_all dec_digit f" unfolding v4_field_def by (simp only: split: if_split_asm) simp_all
  with slash have "dec_digit (CHR ''/'')" by (simp only: list_all_iff)
  then show False using no_slash_digit by blast
qed

lemma parse_v4_chars:
  assumes "parse_v4 s = Some b"
  shows "CHR ''/'' \<notin> set s"
proof -
  have "\<forall>f\<in>set (strings_Split s (CHR ''.'')). v4_field f \<noteq> None"
    using assms by (auto simp: parse_v4_def Let_def list_all_iff split: if_splits)
  then have "\<forall>f\<in>set (strings_Split s (CHR ''.'')). CHR ''/'' \<notin> set f"
    using v4_field_chars by blast
  with Split_chars [of s "CHR ''.''"] show ?thesis by auto
qed

lemma hex_run_chars: "CHR ''/'' \<notin> set (hex_run s)"
  using no_slash_hex by (auto simp: hex_run_def dest!: set_takeWhileD)

lemma hex_run_rest: "set s = set (hex_run s) \<union> set (drop (length (hex_run s)) s)"
  unfolding hex_run_def dropWhile_eq_drop [symmetric] by (simp only: set_append [symmetric] takeWhile_dropWhile_id)

lemma v6_loop_chars: "v6_loop out ell s = Some (q, e, []) \<Longrightarrow> CHR ''/'' \<notin> set s"
proof (induction out ell s rule: v6_loop.induct)
  case (1 out ell s)
  define h where "h = hex_run s"
  define t where "t = drop (length h) s"
  show ?case
  proof (cases "length out \<ge> 16")
    case True
    with "1.prems" show ?thesis by (simp add: v6_loop.simps [of out])
  next
    case False
    have parts: "set s = set h \<union> set t" unfolding h_def t_def by (rule hex_run_rest)
    have h: "CHR ''/'' \<notin> set h" unfolding h_def by (rule hex_run_chars)
    note step = "1.prems" [unfolded v6_loop.simps [of out ell s] Let_def h_def [symmetric] t_def [symmetric]]
    show ?thesis
    proof (cases "t \<noteq> [] \<and> hd t = CHR ''.''")
      case True
      with step False show ?thesis by (auto split: if_splits dest: parse_v4_chars)
    next
      case nd: False
      have "CHR ''/'' \<notin> set t"
      proof (cases t)
        case (Cons x xs)
        define out' where "out' = out @ [hex_number h div 256, hex_number h mod 256]"
        have c: "\<not> (h = [] \<or> length h > 4)" "t \<noteq> []" "\<not> (hd t \<noteq> CHR '':'' \<or> length t = 1)"
          using step False nd Cons by (auto split: if_splits)
        then obtain y ys where xs: "x = CHR '':''" "xs = y # ys" using Cons by (cases xs) auto
        show ?thesis
        proof (cases "y = CHR '':''")
          case True
          show ?thesis
          proof (cases "ys = []")
            case True
            with Cons xs \<open>y = CHR '':''\<close> show ?thesis by simp
          next
            case False
            have "v6_loop out' (Some (length out')) (tl (tl t)) = Some (q, e, [])" "\<not> ell \<noteq> None"
              using step \<open>\<not> 16 \<le> length out\<close> nd c Cons xs \<open>y = CHR '':''\<close> False
              by (auto simp: out'_def split: if_splits)
            then have "CHR ''/'' \<notin> set (tl (tl t))"
              using "1.IH"(1) [OF \<open>\<not> 16 \<le> length out\<close> h_def t_def c(1) nd out'_def c(2,3)] Cons xs \<open>y = CHR '':''\<close> False
              by simp
            with Cons xs \<open>y = CHR '':''\<close> show ?thesis by simp
          qed
        next
          case False
          have "v6_loop out' ell (tl t) = Some (q, e, [])"
            using step \<open>\<not> 16 \<le> length out\<close> nd c Cons xs False by (auto simp: out'_def split: if_splits)
          then have "CHR ''/'' \<notin> set (tl t)"
            using "1.IH"(2) [OF \<open>\<not> 16 \<le> length out\<close> h_def t_def c(1) nd out'_def c(2,3)] Cons xs False by simp
          with Cons xs show ?thesis by simp
        qed
      qed simp
      with parts h show ?thesis by simp
    qed
  qed
qed

lemma ParseIP_no_slash:
  assumes "net_ParseIP s = Some a"
  shows "CHR ''/'' \<notin> set s"
proof -
  have "(\<exists>b. parse_v4 s = Some b) \<or> (\<exists>b. parse_v6 s = Some b)"
    using assms by (auto simp: net_ParseIP_def ParseAddr_def split: if_splits list.splits)
  then show ?thesis
  proof (elim disjE exE)
    fix b assume "parse_v6 s = Some b"
    then consider "s = ''::''" | q e where "HasPrefix s ''::''" "v6_loop [] (Some 0) (drop 2 s) = Some (q, e, [])"
      | q e where "v6_loop [] None s = Some (q, e, [])"
      by (auto simp: parse_v6_def split: if_splits option.splits)
    then show ?thesis
    proof cases
      case (2 q e)
      then obtain t where "s = ''::'' @ t" by (auto simp: HasPrefix_drop)
      with v6_loop_chars [OF 2(2)] show ?thesis by simp
    qed (simp_all add: v6_loop_chars)
  qed (rule parse_v4_chars)
qed

lemma preset_nets:
  "\<exists>n. net_ParseCIDR ''10.0.0.0/8'' = Inr n" "\<exists>n. net_ParseCIDR ''172.16.0.0/12'' = Inr n"
  "\<exists>n. net_ParseCIDR ''192.168.0.0/16'' = Inr n" "\<exists>n. net_ParseCIDR ''127.0.0.0/8'' = Inr n"
  "\<exists>n. net_ParseCIDR ''0.0.0.0/0'' = Inr n"
  by (simp_all add: net_ParseCIDR_def strings_Cut_def parse_eval)

lemma preset_nets6:
  "\<exists>n. net_ParseCIDR ''::1/128'' = Inr n" "\<exists>n. net_ParseCIDR ''fc00::/7'' = Inr n"
  "\<exists>n. net_ParseCIDR ''::/0'' = Inr n"
  by (simp_all add: net_ParseCIDR_def strings_Cut_def ParseAddr_def parse_v6_def v6_loop.simps [of "[]"] HasPrefix_def
    hex_run_def hex_value_def byte_def Let_def dec_value_def dec_digit_def hex_number_def)

lemma add_cidrs_ok: "\<forall>c\<in>set cs. \<exists>n. net_ParseCIDR c = Inr n \<Longrightarrow> \<exists>ns. add_cidrs cs nets = Inr ns"
  by (induction cs nets rule: add_cidrs.induct) (auto split: sum.splits)

lemma presets_ok:
  assumes "presetCIDRs l = Some cs"
  shows "\<forall>c\<in>set cs. \<exists>n. net_ParseCIDR c = Inr n"
proof -
  have "cs = [''10.0.0.0/8'', ''172.16.0.0/12'', ''192.168.0.0/16'', ''127.0.0.0/8'', ''::1/128'', ''fc00::/7''] \<or>
      cs = [''0.0.0.0/0'', ''::/0'']"
    using assms by (auto simp: presetCIDRs_def split: if_splits)
  with preset_nets preset_nets6 show ?thesis by auto
qed

text \<open>The address parsers the validation runs with are those of package \<^verbatim>\<open>net\<close>.\<close>

definition net_parsers :: "valid_env \<Rightarrow> bool" where
  "net_parsers env \<longleftrightarrow>
     ParseCIDR env = (\<lambda>s. case net_ParseCIDR s of Inl e \<Rightarrow> Some e | Inr n \<Rightarrow> None) \<and>
     ParseIP env = (\<lambda>s. net_ParseIP s \<noteq> None)"

lemma proxy_entry_ok:
  assumes "net_parsers env" "validateTrustedProxyEntry env raw = None"
  shows "\<exists>ns. proxy_entry raw nets = Inr ns"
proof (cases "presetCIDRs (ToLower (TrimSpace raw))")
  case (Some cs)
  obtain ns where "add_cidrs cs nets = Inr ns" using add_cidrs_ok [OF presets_ok [OF Some]] by blast
  with Some show ?thesis by (simp add: proxy_entry_def Let_def)
next
  case None
  let ?e = "TrimSpace raw"
  have "ToLower ?e \<noteq> ''private''" "ToLower ?e \<noteq> ''all''" using None by (auto simp: presetCIDRs_def)
  with assms consider n where "net_ParseCIDR ?e = Inr n" | a where "net_ParseIP ?e = Some a"
    by (auto simp: validateTrustedProxyEntry_def net_parsers_def Let_def split: if_splits sum.splits)
  then show ?thesis
  proof cases
    case 1
    then have "CHR ''/'' \<in> set ?e" using ParseCIDR_needs_slash [of ?e] by auto
    with 1 None show ?thesis by (simp add: proxy_entry_def Let_def Contains_byte)
  next
    case 2
    then have "CHR ''/'' \<notin> set ?e" by (rule ParseIP_no_slash)
    with 2 None show ?thesis by (simp add: proxy_entry_def Let_def Contains_byte)
  qed
qed

text \<open>What the validation accepts, the sink can use.  If every trusted-proxy entry of the
  configuration passes the validation, the sink parses the list: it never fails to start because of
  it, and it trusts nobody only when the list is empty.\<close>

theorem accepted_proxies_parse:
  assumes "net_parsers env" "\<forall>e\<in>set entries. validateTrustedProxyEntry env e = None"
  shows "\<exists>tp. parseTrustedProxies entries = Inr tp \<and> (tp = None \<longleftrightarrow> entries = [])"
proof -
  have "\<exists>ns. proxy_entries es nets = Inr ns" if "\<forall>e\<in>set es. validateTrustedProxyEntry env e = None" for es nets
    using that
  proof (induction es nets rule: proxy_entries.induct)
    case (2 raw rest nets)
    from 2(2) proxy_entry_ok [OF assms(1), of raw nets] obtain ns where "proxy_entry raw nets = Inr ns" by auto
    with 2 show ?case by simp
  qed simp
  from this [OF assms(2), of "[]"] show ?thesis
    by (auto simp: parseTrustedProxies_def)
qed

definition net_env :: valid_env where
  "net_env = \<lparr>url_Parse = (\<lambda>_. Inl Canceled),
     ParseCIDR = (\<lambda>s. case net_ParseCIDR s of Inl e \<Rightarrow> Some e | Inr n \<Rightarrow> None),
     ParseIP = (\<lambda>s. net_ParseIP s \<noteq> None), os_Stat = (\<lambda>_. None), labels_Parse = (\<lambda>_. None), map_order = (\<lambda>m. m)\<rparr>"

theorem accepted_proxies_parse_witness:
  "\<exists>tp. parseTrustedProxies [''10.0.0.0/8''] = Inr tp \<and> tp \<noteq> None"
proof -
  have t: "TrimSpace ''10.0.0.0/8'' = ''10.0.0.0/8''" by (simp add: string_eval)
  have "validateTrustedProxyEntry net_env ''10.0.0.0/8'' = None"
    using preset_nets(1) by (auto simp: validateTrustedProxyEntry_def t net_env_def ToLower_def lower_rune_def
        extra_len_def seq_len_def byte_def Let_def)
  with accepted_proxies_parse [of net_env "[''10.0.0.0/8'']"] show ?thesis
    by (simp add: net_parsers_def net_env_def)
qed

end
