(* ===== verification/Health.thy ===== *)
theory Health
  imports Net_Http Config Retry
begin

section \<open>Health probes (\<^verbatim>\<open>internal/health/health.go\<close>)\<close>

text \<open>
  The liveness, readiness and startup endpoints of the daemon.  A readiness check is a function of the
  world (the ping of the state store or of the coordinator) that may change it.  The rendering of an error
  by \<^verbatim>\<open>%s\<close> is the argument \<open>err_text\<close>; binding a socket and stopping an HTTP server are arguments too.
  The patterns are the configured paths, which the validation requires to be distinct; the goroutine of
  \<^verbatim>\<open>Start\<close>, which only accepts connections, is left out.
\<close>

subsection \<open>Model\<close>

record 's Check =
  ckName :: string
  ckFn :: "ctx \<Rightarrow> 's \<Rightarrow> go_error option \<times> 's"

record 's health_server =
  hsCfg :: HealthConfig
  hsChecks :: "'s Check list"
  hsTimeout :: duration
  hsServer :: bool    \<comment> \<open>\<^verbatim>\<open>s.server != nil\<close>\<close>
  hsStarted :: bool
  hsDraining :: bool

definition checkTimeout :: duration where
  "checkTimeout = 2 * 10 ^ 9"

definition health_New :: "HealthConfig \<Rightarrow> 's Check list \<Rightarrow> 's health_server" where
  "health_New cfg checks =
     \<lparr>hsCfg = cfg, hsChecks = checks, hsTimeout = checkTimeout, hsServer = False, hsStarted = False,
      hsDraining = False\<rparr>"

definition MarkStarted :: "'s health_server \<Rightarrow> 's health_server" where
  "MarkStarted s = s\<lparr>hsStarted := True\<rparr>"

definition SetDraining :: "'s health_server \<Rightarrow> 's health_server" where
  "SetDraining s = s\<lparr>hsDraining := True\<rparr>"

definition writeStatus :: "int \<Rightarrow> string \<Rightarrow> reply \<Rightarrow> reply" where
  "writeStatus code msg w =
     reply_Write (msg @ newline)
       (WriteHeader code (reply_Set ''Content-Type'' ''text/plain; charset=utf-8'' w))"

definition handleLive :: "reply \<Rightarrow> reply" where
  "handleLive w = writeStatus 200 ''ok'' w"

definition handleStartup :: "'s health_server \<Rightarrow> reply \<Rightarrow> reply" where
  "handleStartup s w =
     (if \<not> hsStarted s then writeStatus 503 ''starting'' w else writeStatus 200 ''ok'' w)"

text \<open>The loop of \<^verbatim>\<open>handleReady\<close> over the checks: the first one that fails, with its error.\<close>

fun run_until_failure ::
    "'s runtime \<Rightarrow> ctx \<Rightarrow> duration \<Rightarrow> 's Check list \<Rightarrow> 's \<Rightarrow> (string \<times> go_error) option \<times> 's" where
  "run_until_failure rt c d [] st = (None, st)"
| "run_until_failure rt c d (k # ks) st =
     (case ckFn k (WithTimeout rt c d st) st of
        (Some err, st') \<Rightarrow> (Some (ckName k, err), st')
      | (None, st') \<Rightarrow> run_until_failure rt c d ks st')"

definition handleReady ::
    "(go_error \<Rightarrow> string) \<Rightarrow> 's runtime \<Rightarrow> ctx \<Rightarrow> 's health_server \<Rightarrow> reply \<Rightarrow> 's \<Rightarrow> reply \<times> 's" where
  "handleReady err_text rt c s w st =
     (if \<not> hsStarted s then (writeStatus 503 ''starting'' w, st)
      else if hsDraining s then (writeStatus 503 ''draining'' w, st)
      else case run_until_failure rt c (hsTimeout s) (hsChecks s) st of
        (Some (name, err), st') \<Rightarrow> (writeStatus 503 (name @ '': '' @ err_text err) w, st')
      | (None, st') \<Rightarrow> (writeStatus 200 ''ok'' w, st'))"

definition health_ServeHTTP ::
    "(go_error \<Rightarrow> string) \<Rightarrow> 's runtime \<Rightarrow> ctx \<Rightarrow> 's health_server \<Rightarrow> server_request \<Rightarrow> reply \<Rightarrow> 's \<Rightarrow> reply \<times> 's" where
  "health_ServeHTTP err_text rt c s r w st =
     (case mux_find
        [(hc_LivenessPath (hsCfg s), \<lambda>st. (handleLive w, st)),
         (hc_ReadinessPath (hsCfg s), handleReady err_text rt c s w),
         (hc_StartupPath (hsCfg s), \<lambda>st. (handleStartup s w, st))] (srPath r) of
        None \<Rightarrow> (NotFound w, st)
      | Some (p, h) \<Rightarrow> h st)"

definition health_Start ::
    "(string \<Rightarrow> 's \<Rightarrow> go_error option \<times> 's) \<Rightarrow> 's health_server \<Rightarrow> 's \<Rightarrow> go_error option \<times> 's health_server \<times> 's" where
  "health_Start listen s st =
     (if \<not> hc_Enabled (hsCfg s) then (None, s, st)
      else case listen (hc_Listen (hsCfg s)) st of
        (Some err, st') \<Rightarrow> (Some (Errorf ''health listen on %q: %w'' [FStr (hc_Listen (hsCfg s)), FWrap err]), s, st')
      | (None, st') \<Rightarrow> (None, s\<lparr>hsServer := True\<rparr>, st'))"

definition health_Shutdown ::
    "(ctx \<Rightarrow> 's \<Rightarrow> go_error option \<times> 's) \<Rightarrow> ctx \<Rightarrow> 's health_server \<Rightarrow> 's \<Rightarrow> go_error option \<times> 's" where
  "health_Shutdown stop c s st = (if \<not> hsServer s then (None, st) else stop c st)"

subsection \<open>The life of the server\<close>

text \<open>What happens to the server between its creation and a probe: boot completes, shutdown begins,
  or another request is answered, in any order and any number of times.\<close>

datatype health_event = Started | Draining | Probe ctx server_request

fun health_run ::
    "(go_error \<Rightarrow> string) \<Rightarrow> 's runtime \<Rightarrow> health_event list \<Rightarrow> 's health_server \<times> 's \<Rightarrow> 's health_server \<times> 's" where
  "health_run err_text rt [] (s, st) = (s, st)"
| "health_run err_text rt (Started # es) (s, st) = health_run err_text rt es (MarkStarted s, st)"
| "health_run err_text rt (Draining # es) (s, st) = health_run err_text rt es (SetDraining s, st)"
| "health_run err_text rt (Probe c r # es) (s, st) =
     health_run err_text rt es (s, snd (health_ServeHTTP err_text rt c s r new_reply st))"

lemma health_run_flags:
  assumes "health_run err_text rt es (s, st) = (s', st')"
  shows "s' = s\<lparr>hsStarted := hsStarted s \<or> Started \<in> set es, hsDraining := hsDraining s \<or> Draining \<in> set es\<rparr>"
  using assms
  by (induction err_text rt es "(s, st)" arbitrary: s st rule: health_run.induct)
    (auto simp: MarkStarted_def SetDraining_def)

lemma writeStatus_simps [simp]:
  "rpStatus w = 0 \<Longrightarrow> rpStatus (writeStatus code msg w) = (if code = 0 then 200 else code)"
  "rpBody (writeStatus code msg w) = rpBody w @ msg @ newline"
  by (simp_all add: writeStatus_def reply_Write_def WriteHeader_def reply_Set_def Let_def)

text \<open>The specification of the loop: the results of the checks, one after the other.\<close>

fun check_results ::
    "'s runtime \<Rightarrow> ctx \<Rightarrow> duration \<Rightarrow> 's Check list \<Rightarrow> 's \<Rightarrow> (string \<times> go_error option) list" where
  "check_results rt c d [] st = []"
| "check_results rt c d (k # ks) st =
     (case ckFn k (WithTimeout rt c d st) st of
        (e, st') \<Rightarrow> (ckName k, e) # check_results rt c d ks st')"

lemma run_until_failure_None:
  "fst (run_until_failure rt c d ks st) = None \<longleftrightarrow> (\<forall>(n, e)\<in>set (check_results rt c d ks st). e = None)"
  by (induction rt c d ks st rule: run_until_failure.induct) (auto split: prod.splits option.splits)

lemma run_until_failure_Some:
  "fst (run_until_failure rt c d ks st) = Some (n, err) \<Longrightarrow>
     \<exists>pre post. check_results rt c d ks st = pre @ (n, Some err) # post \<and> (\<forall>(n, e)\<in>set pre. e = None)"
proof (induction rt c d ks st rule: run_until_failure.induct)
  case (2 rt c d k ks st)
  obtain e st' where k: "ckFn k (WithTimeout rt c d st) st = (e, st')" by fastforce
  show ?case
  proof (cases e)
    case None
    with 2 k obtain pre post where
      "check_results rt c d ks st' = pre @ (n, Some err) # post" "\<forall>(n, e)\<in>set pre. e = None"
      by fastforce
    then show ?thesis using k None
      by (intro exI [of _ "(ckName k, None) # pre"] exI [of _ post]) simp
  next
    case (Some err')
    with 2(2) k show ?thesis by (intro exI [of _ "[]"] exI [of _ "check_results rt c d ks st'"]) auto
  qed
qed simp

text \<open>What the probes report.  Whatever happened since the server was built, a request to the
  liveness path is answered 200, one to the startup path 200 exactly when boot has completed, and one to
  the readiness path 200 exactly when boot has completed, shutdown has not begun and every check passes;
  it is answered 503 otherwise, and when a check is the reason the body names the first that failed.\<close>

theorem probes_follow_lifecycle:
  fixes r :: server_request
  assumes "distinct [hc_LivenessPath cfg, hc_ReadinessPath cfg, hc_StartupPath cfg]"
    "health_run err_text rt es (health_New cfg checks, st0) = (s, st)"
    "health_ServeHTTP err_text rt c s r new_reply st = (w, st')"
  shows "(srPath r = hc_LivenessPath cfg \<longrightarrow> rpStatus w = 200) \<and>
    (srPath r = hc_StartupPath cfg \<longrightarrow> rpStatus w = (if Started \<in> set es then 200 else 503)) \<and>
    (srPath r = hc_ReadinessPath cfg \<longrightarrow>
       rpStatus w = (if Started \<in> set es \<and> Draining \<notin> set es \<and>
                        (\<forall>(n, e)\<in>set (check_results rt c checkTimeout checks st). e = None)
                     then 200 else 503) \<and>
       (Started \<in> set es \<and> Draining \<notin> set es \<and> rpStatus w = 503 \<longrightarrow>
          (\<exists>pre n err post. check_results rt c checkTimeout checks st = pre @ (n, Some err) # post \<and>
             (\<forall>(n, e)\<in>set pre. e = None) \<and> rpBody w = n @ '': '' @ err_text err @ newline)))"
proof -
  have s: "s = (health_New cfg checks)\<lparr>hsStarted := Started \<in> set es, hsDraining := Draining \<in> set es\<rparr>"
    using health_run_flags [OF assms(2)] by (simp add: health_New_def)
  let ?routes = "[(hc_LivenessPath cfg, \<lambda>st. (handleLive new_reply, st)),
     (hc_ReadinessPath cfg, handleReady err_text rt c s new_reply),
     (hc_StartupPath cfg, \<lambda>st. (handleStartup s new_reply, st))]"
  have cfg: "hsCfg s = cfg" by (simp add: s health_New_def)
  have route: "(srPath r, h) \<in> set ?routes \<Longrightarrow> (w, st') = h st" for h
    using assms(3) mux_find_exact [of ?routes "srPath r" h] assms(1)
    by (simp add: health_ServeHTTP_def cfg)
  have live: "srPath r = hc_LivenessPath cfg \<longrightarrow> rpStatus w = 200"
    using route [of "\<lambda>st. (handleLive new_reply, st)"] by (auto simp: handleLive_def)
  have startup: "srPath r = hc_StartupPath cfg \<longrightarrow> rpStatus w = (if Started \<in> set es then 200 else 503)"
    using route [of "\<lambda>st. (handleStartup s new_reply, st)"] by (auto simp: handleStartup_def s)
  have "w = fst (handleReady err_text rt c s new_reply st)" if "srPath r = hc_ReadinessPath cfg"
    using route [of "handleReady err_text rt c s new_reply"] that by (metis fst_conv list.set_intros)
  moreover have "(\<forall>(n, e)\<in>set (check_results rt c checkTimeout checks st). e = None) \<longleftrightarrow>
      fst (run_until_failure rt c checkTimeout checks st) = None"
    by (simp add: run_until_failure_None)
  ultimately have ready: "srPath r = hc_ReadinessPath cfg \<longrightarrow>
       rpStatus w = (if Started \<in> set es \<and> Draining \<notin> set es \<and>
                        (\<forall>(n, e)\<in>set (check_results rt c checkTimeout checks st). e = None)
                     then 200 else 503) \<and>
       (Started \<in> set es \<and> Draining \<notin> set es \<and> rpStatus w = 503 \<longrightarrow>
          (\<exists>pre n err post. check_results rt c checkTimeout checks st = pre @ (n, Some err) # post \<and>
             (\<forall>(n, e)\<in>set pre. e = None) \<and> rpBody w = n @ '': '' @ err_text err @ newline))"
    using run_until_failure_Some [of rt c checkTimeout checks st]
    by (fastforce simp: handleReady_def s health_New_def new_reply_def split: prod.splits option.splits)
  from live startup ready show ?thesis by blast
qed

text \<open>Once shutdown has begun the readiness probe fails for good, and a server that was never started
  is never stopped.\<close>

lemma draining_is_final:
  assumes "hsDraining s" "health_run err_text rt es (s, st) = (s', st')"
  shows "rpStatus (fst (handleReady err_text rt c s' new_reply st')) = 503"
  using health_run_flags [OF assms(2)] assms(1) by (auto simp: handleReady_def new_reply_def)

lemma shutdown_before_start: "health_Shutdown stop c (health_New cfg checks) st = (None, st)"
  by (simp add: health_Shutdown_def health_New_def)

lemma failed_start_keeps_server:
  "health_Start listen s st = (Some err, s', st') \<Longrightarrow> s' = s"
  by (auto simp: health_Start_def split: if_splits prod.splits option.splits)

definition sample_health :: HealthConfig where
  "sample_health = \<lparr>hc_Enabled = True, hc_Listen = '':8080'', hc_LivenessPath = ''/livez'',
     hc_ReadinessPath = ''/readyz'', hc_StartupPath = ''/startupz''\<rparr>"

definition frozen_runtime :: "nat runtime" where
  "frozen_runtime = \<lparr>rt_now = int, ctx_Err = (\<lambda>_ _. None), ctx_wait = (\<lambda>_ _ s. (False, s)),
     rand_Int64N = (\<lambda>_ s. (0, s))\<rparr>"

definition ready_probe :: server_request where
  "ready_probe = \<lparr>srMethod = ''GET'', srPath = ''/readyz'', srHost = ''h'', srRemoteAddr = ''192.0.2.7:80'',
     srTLS = False, srHeader = (\<lambda>_. None), srBody = []\<rparr>"

definition pings :: "nat Check list" where
  "pings = [\<lparr>ckName = ''state'', ckFn = (\<lambda>_ n. (None, n + 1))\<rparr>,
     \<lparr>ckName = ''coordination'', ckFn = (\<lambda>_ n. (if n > 2 then Some Canceled else None, n + 1))\<rparr>]"

theorem probes_follow_lifecycle_witness:
  "rpStatus (fst (health_ServeHTTP (\<lambda>_. ''down'') frozen_runtime None
      (fst (health_run (\<lambda>_. ''down'') frozen_runtime [Started, Probe None ready_probe] (health_New sample_health pings, 0)))
      ready_probe new_reply 2)) = 503"
proof -
  let ?run = "health_run (\<lambda>_. ''down'') frozen_runtime [Started, Probe None ready_probe] (health_New sample_health pings, 0)"
  have run: "?run = (fst ?run, 2)"
    by (simp add: health_ServeHTTP_def health_New_def MarkStarted_def sample_health_def ready_probe_def mux_matches_def
        HasSuffix_def handleReady_def pings_def checkTimeout_def Let_def)
  have d: "distinct [hc_LivenessPath sample_health, hc_ReadinessPath sample_health, hc_StartupPath sample_health]"
    by (simp add: sample_health_def)
  have p: "srPath ready_probe = hc_ReadinessPath sample_health" by (simp add: ready_probe_def sample_health_def)
  have c: "\<not> (\<forall>(n, e)\<in>set (check_results frozen_runtime None checkTimeout pings 2). e = None)"
    by (simp add: pings_def)
  show ?thesis
    using probes_follow_lifecycle [OF d run surjective_pairing, of ready_probe None] p c by simp
qed

end
