(* ===== verification/Json.thy ===== *)
theory Json
  imports Prelude
begin

section \<open>JSON values\<close>

text \<open>
  The values that \<^verbatim>\<open>encoding/json\<close> writes and reads.  Objects keep the order of their fields; a field is
  looked up by its name.  The text of a value is not modelled: strings are taken to be valid UTF-8, on which
  encoding and decoding are inverse.
\<close>

datatype json =
    JStr string
  | JInt int
  | JNum rat
  | JBool bool
  | JNull
  | JArr "json list"
  | JObj "(string \<times> json) list"

text \<open>Decoding a field into a Go string: an absent field or \<^verbatim>\<open>null\<close> leaves it empty, another type is an
  error.\<close>

definition json_string :: "(string \<times> json) list \<Rightarrow> string \<Rightarrow> string option" where
  "json_string fs name =
     (case map_of fs name of
        None \<Rightarrow> Some []
      | Some JNull \<Rightarrow> Some []
      | Some (JStr v) \<Rightarrow> Some v
      | Some _ \<Rightarrow> None)"

definition json_int :: "(string \<times> json) list \<Rightarrow> string \<Rightarrow> int option" where
  "json_int fs name =
     (case map_of fs name of
        None \<Rightarrow> Some 0
      | Some JNull \<Rightarrow> Some 0
      | Some (JInt v) \<Rightarrow> Some v
      | Some _ \<Rightarrow> None)"

lemma json_string_Some: "map_of fs name = Some (JStr v) \<Longrightarrow> json_string fs name = Some v"
  and json_string_None: "map_of fs name = None \<Longrightarrow> json_string fs name = Some []"
  and json_int_Some: "map_of fs name = Some (JInt n) \<Longrightarrow> json_int fs name = Some n"
  and json_int_None: "map_of fs name = None \<Longrightarrow> json_int fs name = Some 0"
  by (simp_all add: json_string_def json_int_def)

lemma map_of_append_other: "name \<notin> fst ` set sys \<Longrightarrow> map_of (fs @ sys) name = map_of fs name"
  by (induction fs) (auto simp: map_of_eq_None_iff)

end
