(* ===== verification/Admin.thy ===== *)
theory Admin
  imports Json Health HTTP_Auth State_Store Assign Validate_Base Config_Defaults
begin

section \<open>The admin API (\<^verbatim>\<open>internal/admin\<close>)\<close>

text \<open>
  The JSON API of a running daemon: routing, authentication and CORS in front of the handlers, and the
  handlers with the calls they make on the rest of the daemon.  The state \<open>'s\<close> is the world behind the
  dependencies.  \<^verbatim>\<open>deps.Feeds\<close> and \<^verbatim>\<open>deps.State\<close> are always set by \<^verbatim>\<open>serve.go\<close>; the optional ones are
  options.  A response is a \<open>json\<close> value whose text is the argument \<open>encode\<close>; decoding the body of a prune
  request, parsing a duration, the text of an error, the text of a time and the conversion of a duration to
  floating-point seconds are arguments as well.
\<close>

subsection \<open>Data\<close>

record BuildInfo =
  biVersion :: string
  biCommit :: string
  biDate :: string

record 's Deps =
  dBuild :: BuildInfo
  dStartedAt :: time
  dFeeds :: "ctx \<Rightarrow> 's \<Rightarrow> FeedConfig list result \<times> 's"
  dState :: "'s Store"
  dMembers :: "(('s \<Rightarrow> string) \<times> ('s \<Rightarrow> string list)) option"
  dChecks :: "'s Check list"
  dReconcile :: "('s \<Rightarrow> 's) option"
  dPollNow :: "(string \<Rightarrow> 's \<Rightarrow> bool \<times> 's) option"
  dSelf :: string
  dItemTTL :: duration

record 's admin_server =
  asCfg :: AdminConfig
  asAuth :: "Auth option"
  asDeps :: "'s Deps"
  asServer :: bool    \<comment> \<open>\<^verbatim>\<open>s.server != nil\<close>\<close>

record pruneRequest =
  prItemsOlderThan :: string
  prFeedMetaOlderThan :: string

record 's admin_env =
  aeEncode :: "json \<Rightarrow> string"
  aeError :: "go_error \<Rightarrow> string"
  aeNow :: "'s \<Rightarrow> time"
  aeDecode :: "string \<Rightarrow> pruneRequest"    \<comment> \<open>what \<^verbatim>\<open>Decode\<close> leaves in the zero struct, its error ignored\<close>
  aeParseDuration :: "string \<Rightarrow> duration result"
  aeRFC3339 :: "time \<Rightarrow> string"
  aeSeconds :: "duration \<Rightarrow> rat"
  aeHash :: hash64

text \<open>A request as the mux sees it: the escaped path beside the decoded one.\<close>

record admin_request = server_request +
  arEscapedPath :: string

record feedView =
  fvURL :: string
  fvIntervalSeconds :: rat
  fvOwned :: bool
  fvETag :: "string option"
  fvLastModified :: "string option"

definition ToHTTPAuth :: "AdminAuthConfig \<Rightarrow> Auth" where
  "ToHTTPAuth a =
     (if \<not> aa_Enabled a then \<lparr>BasicUsers = [], BearerTokens = [], APIKeys = [], APIKeyHeader = []\<rparr>
      else \<lparr>BasicUsers = map (\<lambda>b. \<lparr>credName = ba_Name b, Username = ba_Username b, Password = ba_Password b\<rparr>) (aa_BasicUsers a),
            BearerTokens = map (\<lambda>t. \<lparr>secName = bc_Name t, Secret = bc_Token t\<rparr>) (aa_BearerTokens a),
            APIKeys = map (\<lambda>k. \<lparr>secName = ak_Name k, Secret = ak_Key k\<rparr>) (aa_APIKeys a),
            APIKeyHeader = aa_APIKeyHeader a\<rparr>)"

definition admin_New :: "AdminConfig \<Rightarrow> Auth option \<Rightarrow> 's Deps \<Rightarrow> 's admin_server" where
  "admin_New cfg auth deps = \<lparr>asCfg = cfg, asAuth = auth, asDeps = deps, asServer = False\<rparr>"

subsection \<open>Responses\<close>

definition writeJSON :: "'s admin_env \<Rightarrow> int \<Rightarrow> json \<Rightarrow> reply \<Rightarrow> reply" where
  "writeJSON env code v w =
     reply_Write (aeEncode env v) (WriteHeader code (reply_Set ''Content-Type'' ''application/json'' w))"

definition writeErr :: "'s admin_env \<Rightarrow> int \<Rightarrow> string \<Rightarrow> reply \<Rightarrow> reply" where
  "writeErr env code msg w = writeJSON env code (JObj [(''error'', JStr msg)]) w"

text \<open>A Go map filled by a loop: a later value replaces an earlier one, and the keys are encoded in order.\<close>

definition json_map :: "(string \<times> json) list \<Rightarrow> json" where
  "json_map kvs = JObj (map (\<lambda>k. (k, the (map_of (rev kvs) k))) (sort (remdups (map fst kvs))))"

definition json_opt :: "string option \<Rightarrow> json" where
  "json_opt v = (case v of None \<Rightarrow> JNull | Some s \<Rightarrow> JStr s)"

definition json_view :: "feedView \<Rightarrow> json" where
  "json_view v = JObj [(''url'', JStr (fvURL v)), (''interval_seconds'', JNum (fvIntervalSeconds v)),
     (''owned'', JBool (fvOwned v)), (''etag'', json_opt (fvETag v)), (''last_modified'', json_opt (fvLastModified v))]"

subsection \<open>Handlers\<close>

text \<open>\<^verbatim>\<open>int\<close> of a floating-point number truncates toward zero.\<close>

definition trunc :: "rat \<Rightarrow> int" where
  "trunc q = (if q < 0 then - \<lfloor>- q\<rfloor> else \<lfloor>q\<rfloor>)"

definition selfAndMembers :: "'s Deps \<Rightarrow> 's \<Rightarrow> string \<times> string list" where
  "selfAndMembers d st = (case dMembers d of Some (self, ms) \<Rightarrow> (self st, ms st) | None \<Rightarrow> (dSelf d, []))"

definition handleStatus :: "'s admin_env \<Rightarrow> 's admin_server \<Rightarrow> ctx \<Rightarrow> reply \<Rightarrow> 's \<Rightarrow> reply \<times> 's" where
  "handleStatus env s c w st =
     (let d = asDeps s;
          (self, members) = (case dMembers d of Some (f, ms) \<Rightarrow> (f st, length (ms st)) | None \<Rightarrow> (dSelf d, 1)) in
      case dFeeds d c st of
        (feeds, st') \<Rightarrow>
          (writeJSON env 200
             (JObj [(''assignment_enabled'', JBool (dMembers d \<noteq> None)),
                    (''commit'', JStr (biCommit (dBuild d))),
                    (''date'', JStr (biDate (dBuild d))),
                    (''feed_count'', JInt (case feeds of Inr fs \<Rightarrow> int (length fs) | Inl _ \<Rightarrow> 0)),
                    (''instance_id'', JStr self),
                    (''member_count'', JInt (int members)),
                    (''uptime_seconds'', JInt (trunc (aeSeconds env (aeNow env st' - dStartedAt d)))),
                    (''version'', JStr (biVersion (dBuild d)))]) w, st'))"

definition ownedBy :: "'s admin_env \<Rightarrow> string \<Rightarrow> string list \<Rightarrow> string \<Rightarrow> bool" where
  "ownedBy env self members feedURL =
     (if length members = 0 then True
      else case Owner (aeHash env) feedURL members of (owner, ok) \<Rightarrow> ok \<and> owner = self)"

text \<open>One round of the loop of \<^verbatim>\<open>feedViews\<close>, and the loop.\<close>

definition feed_view ::
    "'s admin_env \<Rightarrow> 's Deps \<Rightarrow> ctx \<Rightarrow> string \<Rightarrow> string list \<Rightarrow> FeedConfig \<Rightarrow> 's \<Rightarrow> feedView \<times> 's" where
  "feed_view env d c self members fc st =
     (let v = \<lparr>fvURL = fc_URL fc, fvIntervalSeconds = aeSeconds env (fc_Interval fc),
               fvOwned = ownedBy env self members (fc_URL fc), fvETag = None, fvLastModified = None\<rparr> in
      case GetFeedMeta (dState d) c (fc_URL fc) st of
        (Inr (Some m), st') \<Rightarrow>
          (v\<lparr>fvETag := (if ETagM m \<noteq> [] then Some (ETagM m) else None),
             fvLastModified := (if LastModifiedM m \<noteq> zero_time then Some (aeRFC3339 env (LastModifiedM m)) else None)\<rparr>, st')
      | (_, st') \<Rightarrow> (v, st'))"

fun feed_views ::
    "'s admin_env \<Rightarrow> 's Deps \<Rightarrow> ctx \<Rightarrow> string \<Rightarrow> string list \<Rightarrow> FeedConfig list \<Rightarrow> 's \<Rightarrow> feedView list \<times> 's" where
  "feed_views env d c self members [] st = ([], st)"
| "feed_views env d c self members (fc # fcs) st =
     (case feed_view env d c self members fc st of
        (v, st1) \<Rightarrow> (case feed_views env d c self members fcs st1 of (vs, st2) \<Rightarrow> (v # vs, st2)))"

definition feedViews :: "'s admin_env \<Rightarrow> 's admin_server \<Rightarrow> ctx \<Rightarrow> 's \<Rightarrow> feedView list result \<times> 's" where
  "feedViews env s c st =
     (case dFeeds (asDeps s) c st of
        (Inl err, st1) \<Rightarrow> (Inl err, st1)
      | (Inr feeds, st1) \<Rightarrow>
          (case selfAndMembers (asDeps s) st1 of
             (self, members) \<Rightarrow>
               (case feed_views env (asDeps s) c self members feeds st1 of (vs, st2) \<Rightarrow> (Inr vs, st2))))"

definition list_error :: "'s admin_env \<Rightarrow> go_error \<Rightarrow> reply \<Rightarrow> reply" where
  "list_error env err w = writeErr env 500 (''list feeds: '' @ aeError env err) w"

definition handleFeeds :: "'s admin_env \<Rightarrow> 's admin_server \<Rightarrow> ctx \<Rightarrow> reply \<Rightarrow> 's \<Rightarrow> reply \<times> 's" where
  "handleFeeds env s c w st =
     (case feedViews env s c st of
        (Inl err, st') \<Rightarrow> (list_error env err w, st')
      | (Inr vs, st') \<Rightarrow>
          (writeJSON env 200 (JObj [(''feeds'', JArr (map json_view vs)), (''total'', JInt (int (length vs)))]) w, st'))"

fun find_view :: "string \<Rightarrow> feedView list \<Rightarrow> feedView option" where
  "find_view u [] = None"
| "find_view u (v # vs) = (if fvURL v = u then Some v else find_view u vs)"

definition handleFeedByID ::
    "'s admin_env \<Rightarrow> 's admin_server \<Rightarrow> ctx \<Rightarrow> string \<Rightarrow> reply \<Rightarrow> 's \<Rightarrow> reply \<times> 's" where
  "handleFeedByID env s c pathValue w st =
     (case PathUnescape pathValue of
        Inl err \<Rightarrow> (writeErr env 400 ''invalid feed id'' w, st)
      | Inr feedURL \<Rightarrow>
          (case feedViews env s c st of
             (Inl err, st') \<Rightarrow> (list_error env err w, st')
           | (Inr vs, st') \<Rightarrow>
               (case find_view feedURL vs of
                  Some v \<Rightarrow> (writeJSON env 200 (json_view v) w, st')
                | None \<Rightarrow> (writeErr env 404 ''feed not found'' w, st'))))"

definition handleMembers :: "'s admin_env \<Rightarrow> 's admin_server \<Rightarrow> ctx \<Rightarrow> reply \<Rightarrow> 's \<Rightarrow> reply \<times> 's" where
  "handleMembers env s c w st =
     (case selfAndMembers (asDeps s) st of
        (self, ms) \<Rightarrow>
          let members = (if length ms = 0 then [self] else ms) in
          case dFeeds (asDeps s) c st of
            (feeds, st') \<Rightarrow>
              (writeJSON env 200
                 (JObj [(''members'', JArr (map JStr members)),
                        (''ownership'', json_map (case feeds of
                            Inl _ \<Rightarrow> []
                          | Inr fs \<Rightarrow> map (\<lambda>fc. (fc_URL fc,
                                case Owner (aeHash env) (fc_URL fc) members of
                                  (owner, ok) \<Rightarrow> JStr (if ok then owner else self))) fs)),
                        (''self'', JStr self)]) w, st'))"

definition handleFeedPoll ::
    "'s admin_env \<Rightarrow> 's admin_server \<Rightarrow> ctx \<Rightarrow> string \<Rightarrow> reply \<Rightarrow> 's \<Rightarrow> reply \<times> 's" where
  "handleFeedPoll env s c pathValue w st =
     (case PathUnescape pathValue of
        Inl err \<Rightarrow> (writeErr env 400 ''invalid feed id'' w, st)
      | Inr feedURL \<Rightarrow>
          (case dFeeds (asDeps s) c st of
             (Inl err, st') \<Rightarrow> (list_error env err w, st')
           | (Inr feeds, st') \<Rightarrow>
               if feedURL \<notin> fc_URL ` set feeds then (writeErr env 404 ''feed not found'' w, st')
               else case (case dPollNow (asDeps s) of None \<Rightarrow> (False, st') | Some poll \<Rightarrow> poll feedURL st') of
                 (running, st'') \<Rightarrow>
                   (writeJSON env 202
                      (JObj [(''running'', JBool running), (''status'', JStr ''poll triggered'')]) w, st'')))"

definition handleReconcile :: "'s admin_env \<Rightarrow> 's admin_server \<Rightarrow> reply \<Rightarrow> 's \<Rightarrow> reply \<times> 's" where
  "handleReconcile env s w st =
     (case dReconcile (asDeps s) of
        None \<Rightarrow> (writeErr env 503 ''reconcile unavailable'' w, st)
      | Some trigger \<Rightarrow> (writeJSON env 202 (JObj [(''status'', JStr ''reconcile triggered'')]) w, trigger st))"

definition durationOrDefault :: "'s admin_env \<Rightarrow> string \<Rightarrow> duration \<Rightarrow> duration result" where
  "durationOrDefault env s def = (if s = [] then Inr def else aeParseDuration env s)"

definition handlePrune :: "'s admin_env \<Rightarrow> 's admin_server \<Rightarrow> ctx \<Rightarrow> string \<Rightarrow> reply \<Rightarrow> 's \<Rightarrow> reply \<times> 's" where
  "handlePrune env s c body w st =
     (let d = asDeps s; req = aeDecode env body in
      case durationOrDefault env (prItemsOlderThan req) (dItemTTL d) of
        Inl err \<Rightarrow> (writeErr env 400 (''items_older_than: '' @ aeError env err) w, st)
      | Inr itemDur \<Rightarrow>
      case durationOrDefault env (prFeedMetaOlderThan req) (dItemTTL d) of
        Inl err \<Rightarrow> (writeErr env 400 (''feed_meta_older_than: '' @ aeError env err) w, st)
      | Inr metaDur \<Rightarrow>
      let now = aeNow env st in
      case PruneItemsBefore (dState d) c (now - itemDur) st of
        (_, Some err, st1) \<Rightarrow> (writeErr env 500 (''prune items: '' @ aeError env err) w, st1)
      | (items, None, st1) \<Rightarrow>
      case PruneFeedMetaBefore (dState d) c (now - metaDur) st1 of
        (_, Some err, st2) \<Rightarrow> (writeErr env 500 (''prune feed meta: '' @ aeError env err) w, st2)
      | (meta, None, st2) \<Rightarrow>
          (writeJSON env 200 (JObj [(''feed_meta_removed'', JInt meta), (''items_removed'', JInt items)]) w, st2))"

fun run_all_checks :: "'s admin_env \<Rightarrow> ctx \<Rightarrow> 's Check list \<Rightarrow> 's \<Rightarrow> (string \<times> json) list \<times> bool \<times> 's" where
  "run_all_checks env c [] st = ([], True, st)"
| "run_all_checks env c (k # ks) st =
     (case ckFn k c st of
        (e, st1) \<Rightarrow> (case run_all_checks env c ks st1 of
          (res, ok, st2) \<Rightarrow>
            ((ckName k, JStr (case e of Some err \<Rightarrow> aeError env err | None \<Rightarrow> ''ok'')) # res, ok \<and> e = None, st2)))"

definition handleHealth :: "'s admin_env \<Rightarrow> 's admin_server \<Rightarrow> ctx \<Rightarrow> reply \<Rightarrow> 's \<Rightarrow> reply \<times> 's" where
  "handleHealth env s c w st =
     (case run_all_checks env c (dChecks (asDeps s)) st of
        (res, ok, st') \<Rightarrow>
          (writeJSON env (if ok then 200 else 503) (JObj [(''checks'', json_map res), (''ok'', JBool ok)]) w, st'))"

subsection \<open>Routing\<close>

text \<open>
  The mux splits the escaped path at its slashes and unescapes each segment (a segment that does not
  unescape stands for itself); an empty last segment, a trailing slash, is the segment \<^verbatim>\<open>/\<close>, which a
  wildcard does not match.  A \<^verbatim>\<open>GET\<close> pattern also serves \<^verbatim>\<open>HEAD\<close>.  The path is taken as clean.
\<close>

definition path_segment :: "string \<Rightarrow> string" where
  "path_segment s = (if s = [] then ''/'' else case PathUnescape s of Inr t \<Rightarrow> t | Inl _ \<Rightarrow> s)"

definition segments :: "string \<Rightarrow> string list" where
  "segments path = map path_segment (strings_Split (drop 1 path) CHR ''/'')"

datatype route = RStatus | RHealth | RFeeds | RFeedByID string | RFeedPoll string | RReconcile | RMembers | RPrune

definition get_route :: "string list \<Rightarrow> route option" where
  "get_route segs =
     (if segs = [''v1'', ''status''] then Some RStatus
      else if segs = [''v1'', ''health''] then Some RHealth
      else if segs = [''v1'', ''feeds''] then Some RFeeds
      else if segs = [''v1'', ''members''] then Some RMembers
      else case segs of
        [a, b, i] \<Rightarrow> if a = ''v1'' \<and> b = ''feeds'' \<and> i \<noteq> ''/'' then Some (RFeedByID i) else None
      | _ \<Rightarrow> None)"

definition post_route :: "string list \<Rightarrow> route option" where
  "post_route segs =
     (if segs = [''v1'', ''feeds'', ''reconcile''] then Some RReconcile
      else if segs = [''v1'', ''state'', ''prune''] then Some RPrune
      else case segs of
        [a, b, i, p] \<Rightarrow> if a = ''v1'' \<and> b = ''feeds'' \<and> p = ''poll'' \<and> i \<noteq> ''/'' then Some (RFeedPoll i) else None
      | _ \<Rightarrow> None)"

definition admin_route :: "string \<Rightarrow> string list \<Rightarrow> route option" where
  "admin_route meth segs =
     (if meth = ''GET'' \<or> meth = ''HEAD'' then get_route segs
      else if meth = ''POST'' then post_route segs
      else None)"

definition no_route :: "string list \<Rightarrow> reply \<Rightarrow> reply" where
  "no_route segs w =
     (let g = get_route segs \<noteq> None; p = post_route segs \<noteq> None in
      if g \<or> p
      then http_Error ''Method Not Allowed'' 405
             (reply_Set ''Allow'' (if g \<and> p then ''GET, HEAD, POST'' else if g then ''GET, HEAD'' else ''POST'') w)
      else NotFound w)"

definition admin_mux ::
    "'s admin_env \<Rightarrow> 's admin_server \<Rightarrow> ctx \<Rightarrow> admin_request \<Rightarrow> reply \<Rightarrow> 's \<Rightarrow> reply \<times> 's" where
  "admin_mux env s c r w st =
     (case admin_route (srMethod r) (segments (arEscapedPath r)) of
        None \<Rightarrow> (no_route (segments (arEscapedPath r)) w, st)
      | Some RStatus \<Rightarrow> handleStatus env s c w st
      | Some RHealth \<Rightarrow> handleHealth env s c w st
      | Some RFeeds \<Rightarrow> handleFeeds env s c w st
      | Some (RFeedByID i) \<Rightarrow> handleFeedByID env s c i w st
      | Some (RFeedPoll i) \<Rightarrow> handleFeedPoll env s c i w st
      | Some RReconcile \<Rightarrow> handleReconcile env s w st
      | Some RMembers \<Rightarrow> handleMembers env s c w st
      | Some RPrune \<Rightarrow> handlePrune env s c (srBody r) w st)"

definition withAuth ::
    "'s admin_server \<Rightarrow> (admin_request \<Rightarrow> reply \<Rightarrow> 's \<Rightarrow> reply \<times> 's) \<Rightarrow> admin_request \<Rightarrow> reply \<Rightarrow> 's \<Rightarrow> reply \<times> 's" where
  "withAuth s handler r w st =
     (if srMethod r = ''OPTIONS'' then handler r w st
      else case asAuth s of
        None \<Rightarrow> handler r w st
      | Some a \<Rightarrow>
          if auth_Empty (Some a) then handler r w st
          else case Authenticate a r of
            (_, ok) \<Rightarrow> if \<not> ok then (WriteChallenge (Some a) w, st) else handler r w st)"

definition cors_headers :: "string \<Rightarrow> reply \<Rightarrow> reply" where
  "cors_headers origin w =
     reply_Set ''Access-Control-Allow-Headers'' ''Authorization, Content-Type, X-API-Key''
       (reply_Set ''Access-Control-Allow-Methods'' ''GET, POST, OPTIONS''
         (reply_Set ''Access-Control-Allow-Credentials'' ''true''
           (reply_Set ''Vary'' ''Origin''
             (reply_Set ''Access-Control-Allow-Origin'' origin w))))"

definition withCORS ::
    "'s admin_server \<Rightarrow> (admin_request \<Rightarrow> reply \<Rightarrow> 's \<Rightarrow> reply \<times> 's) \<Rightarrow> admin_request \<Rightarrow> reply \<Rightarrow> 's \<Rightarrow> reply \<times> 's" where
  "withCORS s handler r w st =
     (let origins = ac_AllowedOrigins (ad_CORS (asCfg s)); origin = request_Get r ''Origin'' in
      if origins = [] then handler r w st
      else let w' = (if origin \<noteq> [] \<and> (''*'' \<in> set origins \<or> origin \<in> set origins) then cors_headers origin w else w) in
        if srMethod r = ''OPTIONS'' then (WriteHeader 204 w', st) else handler r w' st)"

definition admin_ServeHTTP ::
    "'s admin_env \<Rightarrow> 's admin_server \<Rightarrow> ctx \<Rightarrow> admin_request \<Rightarrow> reply \<Rightarrow> 's \<Rightarrow> reply \<times> 's" where
  "admin_ServeHTTP env s c = withCORS s (withAuth s (admin_mux env s c))"

subsection \<open>The listener\<close>

record 'k admin_tls =
  atCert :: 'k
  atClientCAs :: "string option"
  atRequireClientCert :: bool

definition admin_serve ::
    "(string \<Rightarrow> string \<Rightarrow> 'k result) \<Rightarrow> (string \<Rightarrow> string result) \<Rightarrow> (string \<Rightarrow> bool) \<Rightarrow> AdminConfig \<Rightarrow>
     'k admin_tls option result" where
  "admin_serve keyPair readFile pem_ok cfg =
     (let t = ad_TLS cfg in
      if \<not> at_Enabled t then Inr None
      else case keyPair (at_CertFile t) (at_KeyFile t) of
        Inl err \<Rightarrow> Inl (Errorf ''admin tls keypair: %w'' [FWrap err])
      | Inr cert \<Rightarrow>
          if at_ClientCAFile t = [] then Inr (Some \<lparr>atCert = cert, atClientCAs = None, atRequireClientCert = False\<rparr>)
          else case readFile (at_ClientCAFile t) of
            Inl err \<Rightarrow> Inl (Errorf ''admin tls client CA: %w'' [FWrap err])
          | Inr pem \<Rightarrow>
              if \<not> pem_ok pem then Inl (Errorf ''admin tls client CA %q: no certificates parsed'' [FStr (at_ClientCAFile t)])
              else Inr (Some \<lparr>atCert = cert, atClientCAs = Some pem, atRequireClientCert = True\<rparr>))"

definition admin_Start ::
    "(string \<Rightarrow> 's \<Rightarrow> go_error option \<times> 's) \<Rightarrow> 's admin_server \<Rightarrow> 's \<Rightarrow> go_error option \<times> 's admin_server \<times> 's" where
  "admin_Start listen s st =
     (if \<not> ad_Enabled (asCfg s) then (None, s, st)
      else case listen (ad_Listen (asCfg s)) st of
        (Some err, st') \<Rightarrow>
          (Some (Errorf ''admin listen on %q: %w'' [FStr (ad_Listen (asCfg s)), FWrap err]), s\<lparr>asServer := True\<rparr>, st')
      | (None, st') \<Rightarrow> (None, s\<lparr>asServer := True\<rparr>, st'))"

definition admin_Shutdown ::
    "(ctx \<Rightarrow> 's \<Rightarrow> go_error option \<times> 's) \<Rightarrow> ctx \<Rightarrow> 's admin_server \<Rightarrow> 's \<Rightarrow> go_error option \<times> 's" where
  "admin_Shutdown stop c s st = (if \<not> asServer s then (None, st) else stop c st)"

subsection \<open>Who may use it\<close>

lemma ToHTTPAuth_nonempty: "aa_Enabled a \<Longrightarrow> HasCredentials a \<Longrightarrow> \<not> auth_Empty (Some (ToHTTPAuth a))"
  by (auto simp: ToHTTPAuth_def HasCredentials_def auth_Empty_def)

lemma accepted_admin_has_credentials:
  assumes "snd (validateAdmin venv cfg) = None" "ad_Enabled (cf_Admin cfg)" "aa_Enabled (ad_Auth (cf_Admin cfg))"
  shows "\<not> auth_Empty (Some (ToHTTPAuth (ad_Auth (cf_Admin cfg))))"
  using assms ToHTTPAuth_nonempty [of "ad_Auth (cf_Admin cfg)"]
  by (auto simp: validateAdmin_def Let_def split: if_splits)

lemma cors_headers_status [simp]: "rpStatus (cors_headers o1 w) = rpStatus w" "rpBody (cors_headers o1 w) = rpBody w"
  by (simp_all add: cors_headers_def reply_Set_def)

lemma admin_route_OPTIONS [simp]: "admin_route ''OPTIONS'' segs = None"
  by (simp add: admin_route_def)

lemma no_route_status: "rpStatus w = 0 \<Longrightarrow> rpStatus (no_route segs w) \<in> {404, 405}"
  by (simp add: no_route_def NotFound_def http_Error_def Let_def reply_Write_def WriteHeader_def reply_Set_def)

text \<open>C33: the admin API is closed.  In an accepted configuration with authentication enabled, a request
  that carries none of the configured credentials reaches no handler: nothing behind the API changes,
  and it is answered 401 (a preflight 204, or 404 or 405 where no origin is configured).  A request with a
  credential is answered by the mux, with at most the CORS headers already set.\<close>

theorem admin_requires_credentials:
  fixes r :: admin_request and deps :: "'s Deps"
  assumes "snd (validateAdmin venv cfg) = None" "ad_Enabled (cf_Admin cfg)" "aa_Enabled (ad_Auth (cf_Admin cfg))"
    "a = ToHTTPAuth (ad_Auth (cf_Admin cfg))" "s = admin_New (cf_Admin cfg) (Some a) deps"
    "admin_ServeHTTP env s c r new_reply st = (w, st')"
  shows "(\<not> presents r a \<longrightarrow>
           st' = st \<and>
           (srMethod r \<noteq> ''OPTIONS'' \<longrightarrow> rpStatus w = 401 \<and> rpBody w = ''unauthorized'' @ newline) \<and>
           (srMethod r = ''OPTIONS'' \<longrightarrow> rpStatus w \<in> {204, 404, 405})) \<and>
         (presents r a \<and> srMethod r \<noteq> ''OPTIONS'' \<longrightarrow>
           (\<exists>w0. rpStatus w0 = 0 \<and> rpBody w0 = [] \<and> (w, st') = admin_mux env s c r w0 st))"
proof -
  have ne: "\<not> auth_Empty (Some a)"
    using accepted_admin_has_credentials [OF assms(1-3)] by (simp add: assms(4))
  let ?w0 = "if request_Get r ''Origin'' \<noteq> [] \<and>
      (''*'' \<in> set (ac_AllowedOrigins (ad_CORS (asCfg s))) \<or> request_Get r ''Origin'' \<in> set (ac_AllowedOrigins (ad_CORS (asCfg s))))
    then cors_headers (request_Get r ''Origin'') new_reply else new_reply"
  define w0 where "w0 = (if ac_AllowedOrigins (ad_CORS (asCfg s)) = [] then new_reply else ?w0)"
  have w0: "rpStatus w0 = 0" "rpBody w0 = []" by (simp_all add: w0_def new_reply_def)
  have auth: "asAuth s = Some a" by (simp add: assms(5) admin_New_def)
  have opt: "rpStatus w \<in> {204, 404, 405} \<and> st' = st" if m: "srMethod r = ''OPTIONS''"
  proof -
    have "rpStatus (WriteHeader 204 w0) = 204" by (simp add: WriteHeader_def w0)
    then show ?thesis using assms(6) no_route_status [of new_reply "segments (arEscapedPath r)"] m
      by (auto simp: admin_ServeHTTP_def withCORS_def withAuth_def admin_mux_def w0_def Let_def new_reply_def split: if_splits)
  qed
  have other: "(w, st') = (if presents r a then admin_mux env s c r w0 st else (WriteChallenge (Some a) w0, st))"
    if m: "srMethod r \<noteq> ''OPTIONS''"
  proof -
    obtain n where A: "Authenticate a r = (n, presents r a)"
      using Authenticate_iff [of a r] by (cases "Authenticate a r") simp
    have "admin_ServeHTTP env s c r new_reply st =
        (if presents r a then admin_mux env s c r w0 st else (WriteChallenge (Some a) w0, st))"
      by (auto simp: admin_ServeHTTP_def withCORS_def withAuth_def auth w0_def Let_def m ne A)
    then show ?thesis using assms(6) by simp
  qed
  show ?thesis
    using opt other w0 by (cases "srMethod r = ''OPTIONS''") (auto split: if_splits)
qed

subsection \<open>Looking up a feed by its URL\<close>

lemma feed_views_urls: "map fvURL (fst (feed_views env d c self ms fcs st)) = map fc_URL fcs"
proof (induction env d c self ms fcs st rule: feed_views.induct)
  case (2 env d c self ms fc fcs st)
  have "fvURL (fst (feed_view env d c self ms fc st)) = fc_URL fc"
    by (auto simp: feed_view_def Let_def split: prod.split sum.split option.split)
  with 2 show ?case by (auto split: prod.splits)
qed simp

lemma find_view_iff: "(\<exists>v. find_view u vs = Some v) \<longleftrightarrow> u \<in> fvURL ` set vs"
  by (induction vs) auto

lemma find_view_url: "find_view u vs = Some v \<Longrightarrow> fvURL v = u"
  by (induction vs) (auto split: if_splits)

lemma PathEscape_no_slash: "CHR ''/'' \<notin> set (PathEscape s)"
proof (induction s)
  case (Cons c cs)
  have b: "byte (CHR ''/'') = 47" by (simp add: byte_def)
  have none: "hex_value CHR ''/'' = None" by (simp add: hex_value_def b Let_def)
  have "\<not> path_safe CHR ''/''" by (simp add: path_safe_def is_lower_def is_upper_def b)
  moreover have "hex_digit n \<noteq> CHR ''/''" if "n < 16" for n
    using hex_value_digit [OF that] none by auto
  ultimately show ?case using Cons byte_nibbles(2) [of c] by (auto dest: sym)
qed simp

lemma feed_segments:
  assumes "u \<noteq> []"
  shows "segments (''/v1/feeds/'' @ PathEscape u) = [''v1'', ''feeds'', u]"
proof -
  have e: "PathEscape u \<noteq> []" using assms by (cases u) (auto simp: PathEscape_def)
  have "strings_Split (''v1/feeds/'' @ PathEscape u) CHR ''/'' = [''v1'', ''feeds'', PathEscape u]"
    using Split_append [of "CHR ''/''" "''v1''" "''feeds/'' @ PathEscape u"]
      Split_append [of "CHR ''/''" "''feeds''" "PathEscape u"] Split_single [OF PathEscape_no_slash [of u]]
    by simp
  then show ?thesis using e
    by (simp add: segments_def path_segment_def PathUnescape_Escape PathUnescape_plain)
qed

lemma writeJSON_simps [simp]:
  "rpStatus w = 0 \<Longrightarrow> code \<noteq> 0 \<Longrightarrow> rpStatus (writeJSON env code v w) = code"
  "rpBody (writeJSON env code v w) = rpBody w @ aeEncode env v"
  by (simp_all add: writeJSON_def reply_Write_def WriteHeader_def reply_Set_def Let_def)

lemma writeErr_simps [simp]:
  "rpStatus w = 0 \<Longrightarrow> code \<noteq> 0 \<Longrightarrow> rpStatus (writeErr env code msg w) = code"
  by (simp add: writeErr_def)

lemma feedViews_ok:
  assumes "dFeeds (asDeps s) c st = (Inr feeds, st1)" "feedViews env s c st = (res, st2)"
  shows "\<exists>vs. res = Inr vs \<and> map fvURL vs = map fc_URL feeds"
proof -
  obtain self ms where m: "selfAndMembers (asDeps s) st1 = (self, ms)" by fastforce
  obtain vs st3 where v: "feed_views env (asDeps s) c self ms feeds st1 = (vs, st3)" by fastforce
  have "map fvURL vs = map fc_URL feeds" using feed_views_urls [of env "asDeps s" c self ms feeds st1] v by simp
  then show ?thesis using assms by (auto simp: feedViews_def m v)
qed

text \<open>The identifier of a feed is decoded twice, once by the mux and once by the handler.  A lookup of
  the URL \<open>u\<close>, escaped the way the API asks for, is answered for the feed whose URL is \<open>u\<close> unescaped once
  more: 400 when \<open>u\<close> has a bad escape, 404 when no feed has the unescaped URL.  Only URLs without a percent
  sign are found under their own name.\<close>

theorem feed_lookup_decodes_twice:
  fixes r :: admin_request and deps :: "'s Deps"
  assumes "srMethod r = ''GET''" "arEscapedPath r = ''/v1/feeds/'' @ PathEscape u" "u \<noteq> []" "u \<noteq> ''/''"
    "dFeeds (asDeps s) c st = (Inr feeds, st1)" "admin_mux env s c r new_reply st = (w, st2)"
  shows "rpStatus w = (case PathUnescape u of
             Inl _ \<Rightarrow> 400
           | Inr v \<Rightarrow> if v \<in> fc_URL ` set feeds then 200 else 404) \<and>
    (\<forall>v. PathUnescape u = Inr v \<and> v \<in> fc_URL ` set feeds \<longrightarrow>
       (\<exists>view. fvURL view = v \<and> rpBody w = aeEncode env (json_view view))) \<and>
    (CHR ''%'' \<notin> set u \<longrightarrow> PathUnescape u = Inr u)"
proof -
  have get: "get_route [''v1'', ''feeds'', u] = Some (RFeedByID u)" using assms(4) by (simp add: get_route_def)
  have seg: "segments (arEscapedPath r) = [''v1'', ''feeds'', u]" unfolding assms(2) by (rule feed_segments [OF assms(3)])
  have h: "(w, st2) = handleFeedByID env s c u new_reply st"
    using assms(6) by (simp add: admin_mux_def assms(1) seg admin_route_def get)
  obtain res st3 where fv: "feedViews env s c st = (res, st3)" by fastforce
  obtain vs where vs: "res = Inr vs" "map fvURL vs = map fc_URL feeds" using feedViews_ok [OF assms(5) fv] by blast
  have urls: "fvURL ` set vs = fc_URL ` set feeds" using vs(2) by (metis list.set_map)
  have nr: "rpStatus new_reply = 0" "rpBody new_reply = []" by (simp_all add: new_reply_def)
  show ?thesis
  proof (cases "PathUnescape u")
    case (Inl e)
    then show ?thesis using h PathUnescape_plain [of u] by (auto simp: handleFeedByID_def nr)
  next
    case (Inr v)
    have "w = (case find_view v vs of Some x \<Rightarrow> writeJSON env 200 (json_view x) new_reply
        | None \<Rightarrow> writeErr env 404 ''feed not found'' new_reply)"
      using h by (simp add: handleFeedByID_def Inr fv vs(1) split: option.splits)
    moreover have "(\<exists>x. find_view v vs = Some x) \<longleftrightarrow> v \<in> fc_URL ` set feeds"
      using find_view_iff urls by metis
    ultimately show ?thesis using Inr PathUnescape_plain [of u] find_view_url [of v vs]
      by (cases "find_view v vs") (auto simp: nr)
  qed
qed

text \<open>A poll is requested only for a feed of the desired set.\<close>

lemma poll_only_known:
  assumes "dFeeds (asDeps s) c st = (Inr feeds, st1)" "handleFeedPoll env s c i w st = (w', st2)" "st2 \<noteq> st1"
    "PathUnescape i = Inr u"
  shows "u \<in> fc_URL ` set feeds \<and> (\<exists>poll. dPollNow (asDeps s) = Some poll \<and> st2 = snd (poll u st1))"
  using assms by (auto simp: handleFeedPoll_def split: if_splits option.splits prod.splits)

lemma reconcile_unavailable:
  "dReconcile (asDeps s) = None \<Longrightarrow> handleReconcile env s w st = (writeErr env 503 ''reconcile unavailable'' w, st)"
  by (simp add: handleReconcile_def)

lemma admin_health_agrees:
  "run_all_checks env c ks st = (res, ok, st') \<Longrightarrow>
     map fst res = map ckName ks \<and> (ok \<longrightarrow> list_all (\<lambda>v. v = JStr ''ok'') (map snd res))"
proof (induction ks arbitrary: st res ok)
  case (Cons k ks)
  obtain e st1 where k: "ckFn k c st = (e, st1)" by fastforce
  obtain res1 ok1 st2 where r: "run_all_checks env c ks st1 = (res1, ok1, st2)" by (metis prod.collapse)
  from Cons.prems k r Cons.IH [of st1 res1 ok1] show ?case by (auto split: option.splits)
qed simp

lemma client_certificates_required:
  "at_Enabled (ad_TLS cfg) \<Longrightarrow> at_ClientCAFile (ad_TLS cfg) \<noteq> [] \<Longrightarrow>
     admin_serve keyPair readFile pem_ok cfg = Inr t \<Longrightarrow> \<exists>tc. t = Some tc \<and> atRequireClientCert tc \<and> atClientCAs tc \<noteq> None"
  by (auto simp: admin_serve_def Let_def split: if_splits sum.splits)

subsection \<open>Pruning on demand\<close>

lemma handlePrune_defaults:
  assumes "prItemsOlderThan (aeDecode env body) = []" "prFeedMetaOlderThan (aeDecode env body) = []"
    "dState (asDeps s) = sqlite_store (\<lambda>_ _. None) dt now"
  shows "snd (handlePrune env s c body w st) =
    st\<lparr>seen_items := filter (\<lambda>(k, v). \<not> dt (LastSeenAt v) < dt (aeNow env st - dItemTTL (asDeps s))) (seen_items st),
       feed_meta := filter (\<lambda>(u, m, t). \<not> dt t < dt (aeNow env st - dItemTTL (asDeps s))) (feed_meta st)\<rparr>"
  by (simp add: handlePrune_def durationOrDefault_def assms sqlite_defs Let_def)

lemma kept_rows:
  assumes "distinct (map fst rs)"
  shows "map_of (filter (\<lambda>(k, v). P v) rs) k = Some v \<longleftrightarrow> map_of rs k = Some v \<and> P v"
  using assms by (auto simp: map_of_filter_row simp del: map_of_eq_Some_iff split: option.splits if_splits)

text \<open>What a prune request without limits deletes.  On a store that answers, exactly the items and the
  feed metadata older than \<^verbatim>\<open>state.item_ttl\<close> go; since the default of that setting is 0, which elsewhere
  means that nothing expires, such a request then deletes everything recorded before this very moment.\<close>

theorem prune_default_exact:
  assumes "prItemsOlderThan (aeDecode env body) = []" "prFeedMetaOlderThan (aeDecode env body) = []"
    "dState (asDeps s) = sqlite_store (\<lambda>_ _. None) dt now" "db_inv st"
    "handlePrune env s c body w st = (w', st')"
  shows "(\<forall>k v. map_of (seen_items st') k = Some v \<longleftrightarrow>
             map_of (seen_items st) k = Some v \<and> dt (aeNow env st - dItemTTL (asDeps s)) \<le> dt (LastSeenAt v)) \<and>
    (\<forall>u m t. map_of (feed_meta st') u = Some (m, t) \<longleftrightarrow>
             map_of (feed_meta st) u = Some (m, t) \<and> dt (aeNow env st - dItemTTL (asDeps s)) \<le> dt t) \<and>
    (dItemTTL (asDeps s) = 0 \<and> (\<forall>(k, v)\<in>set (seen_items st). dt (LastSeenAt v) < dt (aeNow env st)) \<and>
     (\<forall>(u, m, t)\<in>set (feed_meta st). dt t < dt (aeNow env st)) \<longrightarrow>
       seen_items st' = [] \<and> feed_meta st' = [])"
proof -
  have st': "st' = st\<lparr>seen_items := filter (\<lambda>(k, v). \<not> dt (LastSeenAt v) < dt (aeNow env st - dItemTTL (asDeps s))) (seen_items st),
       feed_meta := filter (\<lambda>(u, m, t). \<not> dt t < dt (aeNow env st - dItemTTL (asDeps s))) (feed_meta st)\<rparr>"
    using handlePrune_defaults [OF assms(1-3), of c w st] assms(5) by simp
  have d: "distinct (map fst (seen_items st))" "distinct (map fst (feed_meta st))"
    using assms(4) by (simp_all add: db_inv_def)
  have m: "map_of (feed_meta st') u = Some (m, t) \<longleftrightarrow> map_of (feed_meta st) u = Some (m, t) \<and>
      \<not> dt t < dt (aeNow env st - dItemTTL (asDeps s))" for u m t
    using kept_rows [OF d(2), of "\<lambda>(m, t). \<not> dt t < dt (aeNow env st - dItemTTL (asDeps s))" u "(m, t)"]
    by (simp add: st')
  have i: "map_of (seen_items st') k = Some v \<longleftrightarrow> map_of (seen_items st) k = Some v \<and>
      \<not> dt (LastSeenAt v) < dt (aeNow env st - dItemTTL (asDeps s))" for k v
    using kept_rows [OF d(1), of "\<lambda>v. \<not> dt (LastSeenAt v) < dt (aeNow env st - dItemTTL (asDeps s))"]
    by (simp add: st')
  have "seen_items st' = [] \<and> feed_meta st' = []"
    if "dItemTTL (asDeps s) = 0" "\<forall>(k, v)\<in>set (seen_items st). dt (LastSeenAt v) < dt (aeNow env st)"
      "\<forall>(u, m, t)\<in>set (feed_meta st). dt t < dt (aeNow env st)"
    using that by (auto simp: st' filter_empty_conv)
  with m i show ?thesis by (simp add: not_less)
qed

subsection \<open>Examples\<close>

definition sample_deps :: "sqlite_db Deps" where
  "sample_deps = \<lparr>dBuild = \<lparr>biVersion = ''1'', biCommit = ''c'', biDate = ''d''\<rparr>, dStartedAt = 0,
     dFeeds = (\<lambda>_ st. (Inr [\<lparr>fc_URL = ''http://e/a%20b'', fc_Interval = 1, fc_Sinks = [],
        fc_HTTP = zero_FeedHTTPConfig\<rparr>, \<lparr>fc_URL = ''http://e/a'', fc_Interval = 1, fc_Sinks = [], fc_HTTP = zero_FeedHTTPConfig\<rparr>], st)),
     dState = sqlite_store (\<lambda>_ _. None) (\<lambda>t. t div 10) (\<lambda>_. 100), dMembers = None, dChecks = [],
     dReconcile = None, dPollNow = None, dSelf = ''me'', dItemTTL = 0\<rparr>"

definition sample_admin :: "sqlite_db admin_server" where
  "sample_admin = \<lparr>asCfg = \<lparr>ad_Enabled = True, ad_Listen = '':8081'',
       ad_TLS = \<lparr>at_Enabled = False, at_CertFile = [], at_KeyFile = [], at_ClientCAFile = []\<rparr>,
       ad_Auth = \<lparr>aa_Enabled = True, aa_BasicUsers = [], aa_BearerTokens = [\<lparr>bc_Name = ''ci'', bc_Token = ''tok''\<rparr>],
         aa_APIKeys = [], aa_APIKeyHeader = []\<rparr>,
       ad_CORS = \<lparr>ac_AllowedOrigins = []\<rparr>\<rparr>,
     asAuth = Some \<lparr>BasicUsers = [], BearerTokens = [\<lparr>secName = ''ci'', Secret = ''tok''\<rparr>], APIKeys = [], APIKeyHeader = []\<rparr>,
     asDeps = sample_deps, asServer = False\<rparr>"

definition sample_admin_env :: "sqlite_db admin_env" where
  "sample_admin_env = \<lparr>aeEncode = (\<lambda>_. []), aeError = (\<lambda>_. []), aeNow = (\<lambda>_. 100),
     aeDecode = (\<lambda>_. \<lparr>prItemsOlderThan = [], prFeedMetaOlderThan = []\<rparr>), aeParseDuration = (\<lambda>_. Inl Canceled),
     aeRFC3339 = (\<lambda>_. []), aeSeconds = (\<lambda>d. of_int d), aeHash = (\<lambda>_. 0)\<rparr>"

definition feed_request :: "string \<Rightarrow> admin_request" where
  "feed_request u = \<lparr>srMethod = ''GET'', srPath = ''/v1/feeds/'' @ u, srHost = ''h'', srRemoteAddr = ''192.0.2.7:80'',
     srTLS = False, srHeader = (\<lambda>_. None), srBody = [], arEscapedPath = ''/v1/feeds/'' @ PathEscape u\<rparr>"

definition no_rows :: sqlite_db where
  "no_rows = \<lparr>seen_items = [], feed_meta = []\<rparr>"

text \<open>The feed with a percent escape in its URL is configured and cannot be asked for.\<close>

theorem feed_lookup_decodes_twice_witness:
  "rpStatus (fst (admin_mux sample_admin_env sample_admin None (feed_request ''http://e/a%20b'') new_reply no_rows)) = 404 \<and>
   ''http://e/a%20b'' \<in> fc_URL ` set (projr (fst (dFeeds sample_deps None no_rows)))"
proof -
  have f: "\<exists>fs. dFeeds (asDeps sample_admin) None no_rows = (Inr fs, no_rows) \<and> fc_URL ` set fs = {''http://e/a%20b'', ''http://e/a''}"
    by (simp add: sample_admin_def sample_deps_def)
  then obtain fs where fs: "dFeeds (asDeps sample_admin) None no_rows = (Inr fs, no_rows)"
    "fc_URL ` set fs = {''http://e/a%20b'', ''http://e/a''}" by blast
  have "of_char CHR '' '' = (32 :: nat)" by simp
  then have blank: "char_of (32 :: nat) = CHR '' ''" by (metis char_of_char)
  have u: "PathUnescape ''http://e/a%20b'' = Inr ''http://e/a b''"
    using blank by (simp add: hex_value_def byte_def Let_def)
  have d: "asDeps sample_admin = sample_deps" by (simp add: sample_admin_def)
  have m: "srMethod (feed_request v) = ''GET''" "arEscapedPath (feed_request v) = ''/v1/feeds/'' @ PathEscape v" for v
    by (simp_all add: feed_request_def)
  have ne: "''http://e/a%20b'' \<noteq> []" "''http://e/a%20b'' \<noteq> ''/''" by simp_all
  from feed_lookup_decodes_twice [OF m ne fs(1) surjective_pairing, of sample_admin_env]
  have "rpStatus (fst (admin_mux sample_admin_env sample_admin None (feed_request ''http://e/a%20b'') new_reply no_rows)) = 404"
    unfolding u fs(2) sum.case by simp
  then show ?thesis using fs by (simp add: d)
qed

definition one_row :: sqlite_db where
  "one_row = \<lparr>seen_items = [((''u'', ''i''), \<lparr>ContentHashS = ''h'', LastSeenAt = 5\<rparr>)],
     feed_meta = [(''u'', \<lparr>ETagM = ''e'', LastModifiedM = 0\<rparr>, 7)]\<rparr>"

theorem prune_default_exact_witness:
  "seen_items (snd (handlePrune sample_admin_env sample_admin None [] new_reply one_row)) = []"
proof -
  have 1: "prItemsOlderThan (aeDecode sample_admin_env []) = []" "prFeedMetaOlderThan (aeDecode sample_admin_env []) = []"
    by (simp_all add: sample_admin_env_def)
  have 2: "dState (asDeps sample_admin) = sqlite_store (\<lambda>_ _. None) (\<lambda>t. t div 10) (\<lambda>_. 100)"
    by (simp add: sample_admin_def sample_deps_def)
  have 3: "db_inv one_row" by (simp add: db_inv_def one_row_def)
  from prune_default_exact [OF 1 2 3 surjective_pairing, of None new_reply] show ?thesis
    by (simp add: sample_admin_def sample_deps_def one_row_def sample_admin_env_def)
qed

definition admin_config :: Config where
  "admin_config = Defaults\<lparr>cf_Admin := asCfg sample_admin\<rparr>"

definition prune_request :: admin_request where
  "prune_request = \<lparr>srMethod = ''POST'', srPath = ''/v1/state/prune'', srHost = ''h'', srRemoteAddr = ''192.0.2.7:80'',
     srTLS = False, srHeader = (\<lambda>_. None), srBody = [], arEscapedPath = ''/v1/state/prune''\<rparr>"

definition plain_env :: valid_env where
  "plain_env = \<lparr>url_Parse = (\<lambda>_. Inl Canceled), ParseCIDR = (\<lambda>_. None), ParseIP = (\<lambda>_. False),
     os_Stat = (\<lambda>_. None), labels_Parse = (\<lambda>_. None), map_order = (\<lambda>m. m)\<rparr>"

theorem admin_requires_credentials_witness:
  "snd (admin_ServeHTTP sample_admin_env
      (admin_New (cf_Admin admin_config) (Some (ToHTTPAuth (ad_Auth (cf_Admin admin_config)))) sample_deps)
      None prune_request new_reply one_row) = one_row"
proof -
  have 1: "snd (validateAdmin plain_env admin_config) = None"
    by (simp add: validateAdmin_def admin_config_def sample_admin_def HasCredentials_def TrimSpace_def Let_def
        is_space_def extra_len_def seq_len_def byte_def)
  have 2: "ad_Enabled (cf_Admin admin_config)" "aa_Enabled (ad_Auth (cf_Admin admin_config))"
    by (simp_all add: admin_config_def sample_admin_def)
  have 3: "\<not> presents prune_request (ToHTTPAuth (ad_Auth (cf_Admin admin_config)))"
    by (simp add: presents_def prune_request_def ToHTTPAuth_def admin_config_def sample_admin_def header_Get_def)
  show ?thesis
    using admin_requires_credentials [OF 1 2 refl refl surjective_pairing, where r = prune_request and deps = sample_deps and env = sample_admin_env and c = None and st = one_row] 3
    by simp
qed

end
