(* ===== verification/Time_RFC3339.thy ===== *)
theory Time_RFC3339
  imports Time_Text
begin

section \<open>Times as text, and back (\<^verbatim>\<open>time.RFC3339Nano\<close>)\<close>

text \<open>
  The document stores keep times as text in the layout \<^verbatim>\<open>2006-01-02T15:04:05.999999999Z07:00\<close>, in UTC, and
  parse it when they read.  Both directions are modelled after the standard library: the printer drops the
  trailing zeros of the fraction, the parser is \<^verbatim>\<open>parseRFC3339\<close>, which \<^verbatim>\<open>time.Parse\<close> tries first for this
  layout; what \<^verbatim>\<open>time.Parse\<close> does with other texts is an argument.  The theorem of this theory is the round
  trip, for the years 1 to 9999, in which the year has four digits.
\<close>

subsection \<open>Printing\<close>

definition trim_zeros :: "string \<Rightarrow> string" where
  "trim_zeros s = rev (dropWhile (\<lambda>c. c = CHR ''0'') (rev s))"

definition nano_fraction :: "int \<Rightarrow> string" where
  "nano_fraction n = (if n = 0 then [] else ''.'' @ trim_zeros (pad_digits 9 n))"

definition RFC3339Nano :: "time \<Rightarrow> string" where
  "RFC3339Nano t =
     (let s = t div second; r = s mod 86400
      in case civil (s div 86400) of (y, m, d) \<Rightarrow>
           pad4 y @ ''-'' @ pad2 m @ ''-'' @ pad2 d @ ''T'' @
           pad2 (r div 3600) @ '':'' @ pad2 (r div 60 mod 60) @ '':'' @ pad2 (r mod 60) @
           nano_fraction (t mod second) @ ''Z'')"

subsection \<open>Parsing\<close>

definition ascii_digit :: "char \<Rightarrow> bool" where
  "ascii_digit c \<longleftrightarrow> 48 \<le> (of_char c :: nat) \<and> (of_char c :: nat) \<le> 57"

fun uint_value :: "int \<Rightarrow> string \<Rightarrow> int" where
  "uint_value x [] = x"
| "uint_value x (c # cs) = uint_value (x * 10 + (of_char c - 48)) cs"

definition parseUint :: "string \<Rightarrow> int \<Rightarrow> int \<Rightarrow> int option" where
  "parseUint s lo hi =
     (if list_all ascii_digit s \<and> lo \<le> uint_value 0 s \<and> uint_value 0 s \<le> hi then Some (uint_value 0 s) else None)"

text \<open>\<^verbatim>\<open>time.Date\<close> on a date that exists, in UTC.\<close>

definition days_before_month :: "int \<Rightarrow> int \<Rightarrow> int" where
  "days_before_month l m =
     (if m = 1 then 0 else if m = 2 then 31 else
      l + (if m = 3 then 59 else if m = 4 then 90 else if m = 5 then 120 else if m = 6 then 151
           else if m = 7 then 181 else if m = 8 then 212 else if m = 9 then 243 else if m = 10 then 273
           else if m = 11 then 304 else 334))"

definition leap_day :: "int \<Rightarrow> int" where
  "leap_day y = (if is_leap y then 1 else 0)"

definition daysIn :: "int \<Rightarrow> int \<Rightarrow> int" where
  "daysIn m y =
     (if m = 12 then 31 else days_before_month (leap_day y) (m + 1) - days_before_month (leap_day y) m)"

definition date_days :: "int \<Rightarrow> int \<Rightarrow> int \<Rightarrow> int" where
  "date_days y m d =
     365 * (y - 1) + (y - 1) div 4 - (y - 1) div 100 + (y - 1) div 400 +
     days_before_month (leap_day y) m + d - 1"

definition time_Date :: "int \<Rightarrow> int \<Rightarrow> int \<Rightarrow> int \<Rightarrow> int \<Rightarrow> int \<Rightarrow> int \<Rightarrow> time" where
  "time_Date y m d h i s n = (date_days y m d * 86400 + h * 3600 + i * 60 + s) * second + n"

definition parseNanoseconds :: "string \<Rightarrow> int" where
  "parseNanoseconds ds = (let d = take 9 ds in uint_value 0 d * 10 ^ (9 - length d))"

definition parse_fraction :: "string \<Rightarrow> int \<times> string" where
  "parse_fraction s =
     (if length s \<ge> 2 \<and> s ! 0 = CHR ''.'' \<and> ascii_digit (s ! 1)
      then let ds = takeWhile ascii_digit (tl s) in (parseNanoseconds ds, drop (Suc (length ds)) s)
      else (0, s))"

definition parse_zone :: "string \<Rightarrow> time \<Rightarrow> time option" where
  "parse_zone s t =
     (if s = ''Z'' then Some t
      else if length s \<noteq> 6 then None
      else case (parseUint (take 2 (drop 1 s)) 0 23, parseUint (drop 4 s) 0 59) of
        (Some hr, Some mm) \<Rightarrow>
          if (s ! 0 = CHR ''-'' \<or> s ! 0 = CHR ''+'') \<and> s ! 3 = CHR '':''
          then Some (t - (if s ! 0 = CHR ''-'' then -1 else 1) * (hr * 60 + mm) * 60 * second)
          else None
      | _ \<Rightarrow> None)"

definition parseRFC3339 :: "string \<Rightarrow> time option" where
  "parseRFC3339 s =
     (if length s < 19 then None
      else case (parseUint (take 4 s) 0 9999, parseUint (take 2 (drop 5 s)) 1 12) of
        (Some y, Some m) \<Rightarrow>
          (case (parseUint (take 2 (drop 8 s)) 1 (daysIn m y), parseUint (take 2 (drop 11 s)) 0 23,
                 parseUint (take 2 (drop 14 s)) 0 59, parseUint (take 2 (drop 17 s)) 0 59) of
             (Some d, Some h, Some i, Some sec) \<Rightarrow>
               if s ! 4 = CHR ''-'' \<and> s ! 7 = CHR ''-'' \<and> s ! 10 = CHR ''T'' \<and> s ! 13 = CHR '':'' \<and> s ! 16 = CHR '':''
               then (case parse_fraction (drop 19 s) of
                       (n, rest) \<Rightarrow> parse_zone rest (time_Date y m d h i sec n))
               else None
           | _ \<Rightarrow> None)
      | _ \<Rightarrow> None)"

definition time_Parse :: "(string \<Rightarrow> time result) \<Rightarrow> string \<Rightarrow> time result" where
  "time_Parse slow s = (case parseRFC3339 s of Some t \<Rightarrow> Inr t | None \<Rightarrow> slow s)"

subsection \<open>Digits\<close>

lemma of_char_digit: "of_char (digit n) = (48 + nat (n mod 10) :: nat)" "of_char (digit n) = (48 + n mod 10 :: int)"
proof -
  have "48 + nat (n mod 10) < 256" by simp
  then show n: "of_char (digit n) = (48 + nat (n mod 10) :: nat)" unfolding digit_def by simp
  have "int (of_char (digit n)) = of_char (digit n)" by (rule of_nat_of_char)
  then show "of_char (digit n) = (48 + n mod 10 :: int)" using n by simp
qed

lemma ascii_digit_digit [simp]: "ascii_digit (digit n)"
  by (simp add: ascii_digit_def of_char_digit)

lemma uint_value_append: "uint_value x (a @ b) = uint_value (uint_value x a) b"
  by (induction x a rule: uint_value.induct) auto

lemma all_digits_pad [simp]: "list_all ascii_digit (pad_digits w n)"
  by (induction w n rule: pad_digits.induct) auto

lemma uint_value_pad: "0 \<le> n \<Longrightarrow> n < 10 ^ w \<Longrightarrow> uint_value 0 (pad_digits w n) = n"
proof (induction w arbitrary: n)
  case (Suc w)
  have "0 \<le> n div 10" "n div 10 < 10 ^ w" using Suc.prems by simp_all
  with Suc.IH show ?case by (simp add: uint_value_append of_char_digit)
qed simp

lemma parseUint_pad:
  "0 \<le> n \<Longrightarrow> n < 10 ^ w \<Longrightarrow> lo \<le> n \<Longrightarrow> n \<le> hi \<Longrightarrow> parseUint (pad_digits w n) lo hi = Some n"
  by (simp add: parseUint_def uint_value_pad)

lemma pad2_digits: "pad2 n = pad_digits 2 n"
  by (simp add: pad2_def numeral_2_eq_2)

lemma pad4_digits: "0 \<le> n \<Longrightarrow> n < 10000 \<Longrightarrow> pad4 n = pad_digits 4 n"
  by (simp add: pad4_def numeral_eq_Suc zdiv_zmult2_eq [symmetric])

subsection \<open>The calendar, backwards\<close>

lemma year_day_inverse:
  assumes "year_day n = (y, e)"
  shows "365 * (y - 1) + (y - 1) div 4 - (y - 1) div 100 + (y - 1) div 400 + e = n"
    "e \<le> 364 + leap_day y"
proof -
  define a where "a = n div 146097"
  define n1 where "n1 = n mod 146097"
  define b where "b = min 3 (n1 div 36524)"
  define n2 where "n2 = n1 - 36524 * b"
  define c where "c = n2 div 1461"
  define n3 where "n3 = n2 mod 1461"
  define d where "d = min 3 (n3 div 365)"
  have "year_day n = (400 * a + 100 * b + 4 * c + d + 1, n3 - 365 * d)"
    unfolding year_day_def Let_def a_def n1_def b_def n2_def c_def n3_def d_def by (rule refl)
  with assms have y: "y = 400 * a + 100 * b + 4 * c + d + 1" and e: "e = n3 - 365 * d" by simp_all
  have n1: "0 \<le> n1" "n1 < 146097" "n = 146097 * a + n1" by (simp_all add: n1_def a_def)
  have b: "0 \<le> b" "b \<le> 3" "0 \<le> n2" "n2 \<le> 36524"
    unfolding b_def n2_def using n1 capped_rem [of n1 36524 3] by simp_all
  have c: "0 \<le> c" "c \<le> 24" "0 \<le> n3" "n3 < 1461" "n2 = 1461 * c + n3"
    using b by (simp_all add: c_def n3_def)
  have d: "0 \<le> d" "d \<le> 3" "0 \<le> e" "e \<le> 365"
    unfolding d_def e using c capped_rem [of n3 365 3] by (simp_all add: d_def)
  have q400: "(y - 1) div 400 = a"
    unfolding y by (rule int_div_pos_eq [where r = "100 * b + 4 * c + d"]) (use b c d in \<open>(simp add: algebra_simps; fail) | linarith\<close>)+
  have q100: "(y - 1) div 100 = 4 * a + b"
    unfolding y by (rule int_div_pos_eq [where r = "4 * c + d"]) (use b c d in \<open>(simp add: algebra_simps; fail) | linarith\<close>)+
  have q4: "(y - 1) div 4 = 100 * a + 25 * b + c"
    unfolding y by (rule int_div_pos_eq [where r = "d"]) (use b c d in \<open>(simp add: algebra_simps; fail) | linarith\<close>)+
  have n2: "n1 = 36524 * b + n2" by (simp add: n2_def)
  have "365 * (y - 1) + (100 * a + 25 * b + c) - (4 * a + b) + a + e = n"
    unfolding y e n1(3) n2 c(5) by simp
  then show "365 * (y - 1) + (y - 1) div 4 - (y - 1) div 100 + (y - 1) div 400 + e = n"
    unfolding q400 q100 q4 .
  show "e \<le> 364 + leap_day y"
  proof (cases "e = 365")
    case False
    then show ?thesis using d(4) by (simp add: leap_day_def)
  next
    case True
    have "d = 3"
    proof (rule ccontr)
      assume "d \<noteq> 3"
      then have "d = n3 div 365" unfolding d_def by linarith
      then have "e = n3 mod 365" unfolding e by (simp add: minus_mult_div_eq_mod)
      with True show False by (metis less_irrefl pos_mod_bound zero_less_numeral)
    qed
    with True e have d3: "d = 3" "n3 = 1460" by simp_all
    have y4: "y = 4 * (100 * a + 25 * b + c + 1)" using y d3 by simp
    have "is_leap y"
    proof (cases "c = 24")
      case c24: True
      then have "n2 = 36524" using c(5) d3 by simp
      then have "n1 = 36524 * (b + 1)" using n2 by simp
      then have "n1 div 36524 = b + 1" by simp
      then have "b = 3" unfolding b_def by linarith
      then have "y = 400 * (a + 1)" using y4 c24 by simp
      then show ?thesis by (simp add: is_leap_def)
    next
      case False
      have "y mod 100 = (100 * (4 * a + b) + (4 * c + 4)) mod 100" using y4 by (simp add: algebra_simps)
      also have "\<dots> = (4 * c + 4) mod 100" by (rule mod_mult_self4)
      also have "\<dots> = 4 * c + 4" using False c by (intro mod_pos_pos_trivial) linarith+
      finally have "y mod 100 \<noteq> 0" using c by simp
      moreover have "y mod 4 = 0" unfolding y4 by simp
      ultimately show ?thesis by (simp add: is_leap_def)
    qed
    then show ?thesis using True by (simp add: leap_day_def)
  qed
qed

lemma month_day_inverse:
  assumes "l = 0 \<or> l = 1" "0 \<le> e" "e \<le> 364 + l" "month_day l e = (m, d)"
  shows "days_before_month l m + d - 1 = e" "1 \<le> m" "m \<le> 12" "1 \<le> d"
    "d \<le> (if m = 12 then 31 else days_before_month l (m + 1) - days_before_month l m)"
  using assms unfolding month_day_def days_before_month_def by (auto split: if_splits)

lemma civil_inverse:
  assumes "civil n = (y, m, d)"
  shows "date_days y m d = n" "1 \<le> m" "m \<le> 12" "1 \<le> d" "d \<le> daysIn m y"
proof -
  obtain e where e: "year_day n = (y, e)" "month_day (leap_day y) e = (m, d)"
    using assms by (auto simp: civil_def leap_day_def split: prod.splits)
  have l: "leap_day y = 0 \<or> leap_day y = 1" by (simp add: leap_day_def)
  note b = year_day_inverse [OF e(1)]
  note m = month_day_inverse [OF l year_day_bounds(1) [OF e(1)] b(2) e(2)]
  show "date_days y m d = n" unfolding date_days_def using b(1) m(1) by linarith
  show "1 \<le> m" "m \<le> 12" "1 \<le> d" by (rule m)+
  show "d \<le> daysIn m y" unfolding daysIn_def by (rule m(5))
qed

subsection \<open>The round trip\<close>

lemma parse_layout:
  assumes "length Y = 4" "length M = 2" "length D = 2" "length H = 2" "length I = 2" "length S = 2"
    and "parseUint Y 0 9999 = Some y" "parseUint M 1 12 = Some m" "parseUint D 1 (daysIn m y) = Some d"
      "parseUint H 0 23 = Some h" "parseUint I 0 59 = Some i" "parseUint S 0 59 = Some sec"
      "parse_fraction R = (n, R')"
  shows "parseRFC3339 (Y @ ''-'' @ M @ ''-'' @ D @ ''T'' @ H @ '':'' @ I @ '':'' @ S @ R) =
     parse_zone R' (time_Date y m d h i sec n)"
proof -
  have two: "length X = 2 \<Longrightarrow> \<exists>a b. X = [a, b]" for X :: string by (auto simp: numeral_2_eq_2 length_Suc_conv)
  obtain m1 m2 d1 d2 h1 h2 i1 i2 s1 s2 where
    x: "M = [m1, m2]" "D = [d1, d2]" "H = [h1, h2]" "I = [i1, i2]" "S = [s1, s2]"
    using two assms(2-6) by meson
  obtain y1 y2 y3 y4 where y: "Y = [y1, y2, y3, y4]" using assms(1) by (auto simp: numeral_eq_Suc length_Suc_conv)
  define z where "z = Y @ ''-'' @ M @ ''-'' @ D @ ''T'' @ H @ '':'' @ I @ '':'' @ S @ R"
  have l: "\<not> length z < 19" by (simp add: z_def x y)
  have parts: "take 4 z = Y" "take 2 (drop 5 z) = M" "take 2 (drop 8 z) = D" "take 2 (drop 11 z) = H"
      "take 2 (drop 14 z) = I" "take 2 (drop 17 z) = S" "drop 19 z = R"
    by (simp_all add: z_def x y)
  have seps: "z ! 4 = CHR ''-''" "z ! 7 = CHR ''-''" "z ! 10 = CHR ''T''" "z ! 13 = CHR '':''" "z ! 16 = CHR '':''"
    by (simp_all add: z_def x y)
  show ?thesis
    unfolding z_def [symmetric] parseRFC3339_def parts seps assms(7-13) prod.case option.case
    by (simp only: l assms(9) if_False if_True simp_thms option.case prod.case)
qed

lemma trim_zeros_spec: "\<exists>k. s = trim_zeros s @ replicate k CHR ''0''"
proof -
  have "rev s = takeWhile (\<lambda>c. c = CHR ''0'') (rev s) @ dropWhile (\<lambda>c. c = CHR ''0'') (rev s)"
    by (rule takeWhile_dropWhile_id [symmetric])
  moreover have "takeWhile (\<lambda>c. c = CHR ''0'') (rev s) = replicate (length (takeWhile (\<lambda>c. c = CHR ''0'') (rev s))) CHR ''0''"
    by (rule replicate_length_same [symmetric]) (auto dest: set_takeWhileD)
  ultimately have "s = rev (dropWhile (\<lambda>c. c = CHR ''0'') (rev s)) @
      replicate (length (takeWhile (\<lambda>c. c = CHR ''0'') (rev s))) CHR ''0''"
    by (metis rev_append rev_replicate rev_rev_ident)
  then show ?thesis unfolding trim_zeros_def by blast
qed

lemma uint_value_zeros: "uint_value x (replicate k CHR ''0'') = x * 10 ^ k"
  by (induction k arbitrary: x) (simp_all add: algebra_simps)

lemma uint_value_nonneg: "list_all ascii_digit s \<Longrightarrow> 0 \<le> x \<Longrightarrow> 0 \<le> uint_value x s"
proof (induction x s rule: uint_value.induct)
  case (2 x c cs)
  have "int (of_char c) = of_char c" by (rule of_nat_of_char)
  with 2 show ?case by (simp add: ascii_digit_def)
qed simp

lemma parse_fraction_nano:
  assumes "0 \<le> n" "n < 10 ^ 9"
  shows "parse_fraction (nano_fraction n @ ''Z'') = (n, ''Z'')"
proof (cases "n = 0")
  case True
  then show ?thesis by (simp add: nano_fraction_def parse_fraction_def)
next
  case False
  obtain k where k: "pad_digits 9 n = trim_zeros (pad_digits 9 n) @ replicate k CHR ''0''"
    using trim_zeros_spec by blast
  define ds where "ds = trim_zeros (pad_digits 9 n)"
  have all: "list_all ascii_digit ds" using all_digits_pad [of 9 n] k by (metis ds_def list_all_append)
  have len: "length ds + k = 9" using k by (metis ds_def length_append length_pad_digits length_replicate)
  have val: "uint_value 0 ds * 10 ^ k = n"
    using uint_value_pad [of n 9] assms k by (metis ds_def uint_value_append uint_value_zeros)
  then have "ds \<noteq> []" using False by auto
  then obtain c cs where ds: "ds = c # cs" by (cases ds) auto
  have z: "\<not> ascii_digit CHR ''Z''" by (simp add: ascii_digit_def)
  have tw: "takeWhile ascii_digit (ds @ ''Z'') = ds"
    using all z by (simp add: takeWhile_append2 list_all_iff takeWhile_append)
  have "parseNanoseconds ds = n"
    using val len by (simp add: parseNanoseconds_def Let_def) (metis add_diff_cancel_left')
  moreover have "nano_fraction n @ ''Z'' = CHR ''.'' # ds @ ''Z''" using False by (simp add: nano_fraction_def ds_def)
  ultimately show ?thesis using tw all ds by (simp add: parse_fraction_def Let_def)
qed

lemma clock_split:
  fixes r :: int
  shows "r div 3600 * 3600 + r div 60 mod 60 * 60 + r mod 60 = r"
proof -
  have h: "r div 3600 = r div 60 div 60" by (simp add: zdiv_zmult2_eq [symmetric])
  have "r div 60 div 60 * 60 + r div 60 mod 60 = r div 60" "r div 60 * 60 + r mod 60 = r" by simp_all
  then show ?thesis unfolding h by linarith
qed

lemma parse_RFC3339Nano:
  assumes "0 \<le> t" "t < year_10000"
  shows "parseRFC3339 (RFC3339Nano t) = Some t"
proof -
  obtain y m d where c: "civil (t div second div 86400) = (y, m, d)" by (metis prod_cases3)
  have day: "0 \<le> t div second div 86400" "t div second div 86400 < 3652059"
    using assms by (simp_all add: year_10000_def second_def)
  note b = civil_bounds [OF c day] and v = civil_inverse [OF c]
  define r where "r = t div second mod 86400"
  have r: "0 \<le> r" "r < 86400" by (simp_all add: r_def)
  note k = clock_bounds [OF r]
  have k': "r div 3600 \<le> 23" "r div 60 mod 60 \<le> 59" "r mod 60 \<le> 59" using r by simp_all
  have n: "0 \<le> t mod second" "t mod second < 10 ^ 9" by (simp_all add: second_def)
  have layout: "RFC3339Nano t = pad_digits 4 y @ ''-'' @ pad_digits 2 m @ ''-'' @ pad_digits 2 d @ ''T'' @
      pad_digits 2 (r div 3600) @ '':'' @ pad_digits 2 (r div 60 mod 60) @ '':'' @ pad_digits 2 (r mod 60) @
      (nano_fraction (t mod second) @ ''Z'')"
    unfolding RFC3339Nano_def Let_def c prod.case r_def [symmetric] pad2_digits using b pad4_digits [of y] by simp
  have u: "parseUint (pad_digits 4 y) 0 9999 = Some y" "parseUint (pad_digits 2 m) 1 12 = Some m"
      "parseUint (pad_digits 2 d) 1 (daysIn m y) = Some d" "parseUint (pad_digits 2 (r div 3600)) 0 23 = Some (r div 3600)"
      "parseUint (pad_digits 2 (r div 60 mod 60)) 0 59 = Some (r div 60 mod 60)"
      "parseUint (pad_digits 2 (r mod 60)) 0 59 = Some (r mod 60)"
  proof -
    have two: "parseUint (pad_digits 2 v) lo hi = Some v" if "0 \<le> v" "v < 10 ^ 2" "lo \<le> v" "v \<le> hi" for v lo hi
      using that by (rule parseUint_pad)
    have "y \<le> 9999" using b(2) by simp
    then show "parseUint (pad_digits 4 y) 0 9999 = Some y" using b(1,2) by (intro parseUint_pad)
    show "parseUint (pad_digits 2 m) 1 12 = Some m" "parseUint (pad_digits 2 d) 1 (daysIn m y) = Some d"
      using b(3-6) v(2-5) by (auto intro!: two simp del: power2_eq_square)
    show "parseUint (pad_digits 2 (r div 3600)) 0 23 = Some (r div 3600)"
      by (rule two [OF k(1,2) k(1) k'(1)])
    show "parseUint (pad_digits 2 (r div 60 mod 60)) 0 59 = Some (r div 60 mod 60)"
      by (rule two [OF k(3,4) k(3) k'(2)])
    show "parseUint (pad_digits 2 (r mod 60)) 0 59 = Some (r mod 60)"
      by (rule two [OF k(5,6) k(5) k'(3)])
  qed
  have "parseRFC3339 (RFC3339Nano t) =
      parse_zone ''Z'' (time_Date y m d (r div 3600) (r div 60 mod 60) (r mod 60) (t mod second))"
    unfolding layout
    by (rule parse_layout [OF length_pad_digits length_pad_digits length_pad_digits length_pad_digits
          length_pad_digits length_pad_digits u parse_fraction_nano [OF n]])
  also have "time_Date y m d (r div 3600) (r div 60 mod 60) (r mod 60) (t mod second) = t"
  proof -
    have "date_days y m d * 86400 + r = t div second"
      unfolding v(1) r_def by (simp add: mult.commute)
    then have "date_days y m d * 86400 + r div 3600 * 3600 + r div 60 mod 60 * 60 + r mod 60 = t div second"
      using clock_split [of r] by linarith
    then show ?thesis unfolding time_Date_def by simp
  qed
  finally show ?thesis by (simp add: parse_zone_def)
qed

text \<open>Instants that have a four-digit year, which the stores that keep text can hold.\<close>

definition four_digit_year :: "time \<Rightarrow> bool" where
  "four_digit_year t \<longleftrightarrow> 0 \<le> t \<and> t < year_10000"

lemma RFC3339Nano_nonempty: "RFC3339Nano t \<noteq> []"
  by (simp add: RFC3339Nano_def Let_def split: prod.split)

lemma time_Parse_Nano: "four_digit_year t \<Longrightarrow> time_Parse slow (RFC3339Nano t) = Inr t"
  by (simp add: four_digit_year_def time_Parse_def parse_RFC3339Nano)

text \<open>A time survives its text.  From the year 1 to the end of the year 9999, parsing what
  \<^verbatim>\<open>RFC3339Nano\<close> printed gives the time back, to the nanosecond, whatever the lenient path of
  \<^verbatim>\<open>time.Parse\<close> does.\<close>

theorem RFC3339Nano_roundtrip:
  assumes "0 \<le> t" "t < year_10000"
  shows "time_Parse slow (RFC3339Nano t) = Inr t"
  by (simp add: time_Parse_def parse_RFC3339Nano [OF assms])

theorem RFC3339Nano_roundtrip_witness: "time_Parse (\<lambda>_. Inl Canceled) (RFC3339Nano 1500000000) = Inr 1500000000"
  by (rule RFC3339Nano_roundtrip) (simp_all add: year_10000_def second_def)

end
