(* ===== verification/Int_Text.thy ===== *)
theory Int_Text
  imports Change_Model
begin

section \<open>Integers as text (\<^verbatim>\<open>strconv.FormatInt\<close>, \<^verbatim>\<open>strconv.ParseInt\<close>)\<close>

text \<open>The stores that keep numbers as text write them with \<^verbatim>\<open>FormatInt\<close> and read them with \<^verbatim>\<open>ParseInt\<close>, whose
  error the code ignores: \<open>ParseInt\<close> is the value it returns, errors included.\<close>

definition itoa :: "int \<Rightarrow> string" where
  "itoa n = (if n < 0 then ''-'' @ itoa_nat (nat (- n)) else itoa_nat (nat n))"

definition dec_digit :: "char \<Rightarrow> bool" where
  "dec_digit ch \<longleftrightarrow> 48 \<le> (of_char ch :: nat) \<and> (of_char ch :: nat) \<le> 57"

text \<open>A character that is no digit makes the value 0, an overflow the largest value.\<close>

fun parse_uint :: "nat \<Rightarrow> string \<Rightarrow> nat" where
  "parse_uint n [] = n"
| "parse_uint n (ch # cs) =
     (if \<not> dec_digit ch then 0
      else let n' = 10 * n + (of_char ch - 48) in
        if 2 ^ 64 \<le> n' then 2 ^ 64 - 1 else parse_uint n' cs)"

definition ParseInt :: "string \<Rightarrow> int" where
  "ParseInt s =
     (case s of
        [] \<Rightarrow> 0
      | ch # cs \<Rightarrow>
          let neg = (ch = CHR ''-''); ds = (if neg \<or> ch = CHR ''+'' then cs else s); un = int (parse_uint 0 ds) in
          if neg then (if 2 ^ 63 < un then - (2 ^ 63) else - un)
          else (if 2 ^ 63 \<le> un then 2 ^ 63 - 1 else un))"

lemma nat_of_digit: "(of_char (digit n) :: nat) = 48 + nat (n mod 10)"
proof -
  have "nat (n mod 10) < 10" by (simp add: nat_less_iff)
  then show ?thesis by (simp add: digit_def)
qed

lemma parse_uint_digit:
  "10 * n + d < 2 ^ 64 \<Longrightarrow> d < 10 \<Longrightarrow> parse_uint n (digit (int d) # s) = parse_uint (10 * n + d) s"
  by (simp add: dec_digit_def nat_of_digit)

lemma parse_uint_itoa: "n < 2 ^ 64 \<Longrightarrow> parse_uint 0 (itoa_nat n @ s) = parse_uint n s"
proof (induction n arbitrary: s rule: itoa_nat.induct)
  case (1 n)
  let ?d = "n mod 10"
  have d: "10 * (n div 10) + ?d = n" "?d < 10" by simp_all
  show ?case
  proof (cases "n < 10")
    case True
    then show ?thesis using parse_uint_digit [of 0 n s] 1(2) by (simp add: itoa_nat.simps [of n])
  next
    case False
    have "parse_uint 0 (itoa_nat n @ s) = parse_uint 0 (itoa_nat (n div 10) @ digit (int ?d) # s)"
      using False by (subst itoa_nat.simps) simp
    also have "\<dots> = parse_uint (n div 10) (digit (int ?d) # s)" using False 1(2) by (intro 1(1)) simp_all
    also have "\<dots> = parse_uint n s" using parse_uint_digit [of "n div 10" ?d s] 1(2) d by simp
    finally show ?thesis .
  qed
qed

lemma itoa_nat_head: "\<exists>d cs. itoa_nat n = digit d # cs"
proof (induction n rule: itoa_nat.induct)
  case (1 n)
  then show ?case by (cases "n < 10") (subst itoa_nat.simps, fastforce)+
qed

lemma digit_not_sign: "digit n \<noteq> CHR ''-''" "digit n \<noteq> CHR ''+''"
proof -
  have "(of_char (digit n) :: nat) \<noteq> of_char CHR ''-''" "(of_char (digit n) :: nat) \<noteq> of_char CHR ''+''"
    unfolding nat_of_digit by simp_all
  then show "digit n \<noteq> CHR ''-''" "digit n \<noteq> CHR ''+''" by metis+
qed

text \<open>Every 64-bit integer is read back.\<close>

lemma ParseInt_itoa:
  assumes "- (2 ^ 63) \<le> n" "n < 2 ^ 63"
  shows "ParseInt (itoa n) = n"
proof (cases "n < 0")
  case True
  then have "parse_uint 0 (itoa_nat (nat (- n))) = nat (- n)"
    using parse_uint_itoa [of "nat (- n)" "[]"] assms by simp
  with True assms show ?thesis by (auto simp: ParseInt_def itoa_def)
next
  case False
  obtain d cs where h: "itoa_nat (nat n) = digit d # cs" using itoa_nat_head by blast
  have "parse_uint 0 (itoa_nat (nat n)) = nat n"
    using parse_uint_itoa [of "nat n" "[]"] assms False by simp
  with False assms h show ?thesis by (simp add: ParseInt_def itoa_def digit_not_sign)
qed

end
