(* ===== verification/Pg_Pool.thy ===== *)
theory Pg_Pool
  imports TLS_Config Retry
begin

section \<open>Connection pools to PostgreSQL\<close>

text \<open>
  What the drivers use of \<^verbatim>\<open>pgxpool\<close> when they open a pool: the configuration that a DSN parses to, and the
  calls that open a pool, run a statement on it and close it.  A statement that reports an error may have
  taken effect (the answer was lost).
\<close>

record pgx_config =
  pxHost :: string
  pxTLSConfig :: "tls_config option"
  pxFallbacks :: "string list"
  pxMaxConns :: int

record ('p, 's) pgx =
  pxParseConfig :: "string \<Rightarrow> pgx_config result"
  pxNewWithConfig :: "ctx \<Rightarrow> pgx_config \<Rightarrow> 's \<Rightarrow> 'p result \<times> 's"
  pxExec :: "ctx \<Rightarrow> 'p \<Rightarrow> string \<Rightarrow> 's \<Rightarrow> go_error option \<times> 's"
  pxClose :: "'p \<Rightarrow> 's \<Rightarrow> 's"

text \<open>The TLS part that every constructor repeats: the options replace what the DSN asked for, and no
  plaintext fallback is left.\<close>

definition force_tls :: "pgx_config \<Rightarrow> tls_config \<Rightarrow> pgx_config" where
  "force_tls cfg tc = cfg\<lparr>pxTLSConfig := Some tc, pxFallbacks := []\<rparr>"

datatype stmt_outcome = StmtOK | StmtErr (stmt_error: go_error) (stmt_took_effect: bool)

definition run_stmt :: "stmt_outcome \<Rightarrow> ('s \<Rightarrow> 's) \<Rightarrow> 's \<Rightarrow> go_error option \<times> 's" where
  "run_stmt oc eff s =
     (case oc of
        StmtOK \<Rightarrow> (None, eff s)
      | StmtErr err took \<Rightarrow> (Some err, if took then eff s else s))"

lemma run_stmt_cases:
  assumes "run_stmt oc eff s = (r, s')"
  obtains "s' = eff s" | "r \<noteq> None" "s' = s"
  using assms by (cases oc) (auto simp: run_stmt_def split: if_splits)

text \<open>As many pools are open as \<open>n\<close> counts.\<close>

definition counts_pools :: "('s \<Rightarrow> int) \<Rightarrow> ('p, 's) pgx \<Rightarrow> bool" where
  "counts_pools n px \<longleftrightarrow>
     (\<forall>c cfg s r s'. pxNewWithConfig px c cfg s = (r, s') \<longrightarrow> n s' = (if isl r then n s else n s + 1)) \<and>
     (\<forall>c p q s r s'. pxExec px c p q s = (r, s') \<longrightarrow> n s' = n s) \<and>
     (\<forall>p s. n (pxClose px p s) = n s - 1)"

lemma counts_poolsD:
  assumes "counts_pools n px"
  shows "pxNewWithConfig px c cfg s = (Inl err, s') \<Longrightarrow> n s' = n s"
    and "pxNewWithConfig px c cfg s = (Inr p, s') \<Longrightarrow> n s' = n s + 1"
    and "pxExec px c p q s = (e, s') \<Longrightarrow> n s' = n s"
    and "n (pxClose px p s) = n s - 1"
  using assms unfolding counts_pools_def by (metis sum.disc(1), metis sum.disc(2), metis, metis)

end
