(* ===== verification/Cosmos_SDK.thy ===== *)
theory Cosmos_SDK
  imports Retry Json
begin

section \<open>The Cosmos DB client\<close>

text \<open>
  What the state store and the lease coordinator use of the Cosmos DB client when they open a container:
  errors with their HTTP status, and the calls that create a database and a container.  \<open>'c\<close> is the handle
  of a container, \<open>'s\<close> the account.
\<close>

record cosmos_error =
  ceStatus :: "int option"    \<comment> \<open>the status of an \<^verbatim>\<open>azcore.ResponseError\<close>\<close>
  ceErr :: go_error

definition isStatus :: "cosmos_error \<Rightarrow> int \<Rightarrow> bool" where
  "isStatus err status \<longleftrightarrow> ceStatus err = Some status"

type_synonym fields = "(string \<times> json) list"

record container_props =
  cpID :: string
  cpPartitionKeyPath :: string
  cpDefaultTimeToLive :: "int option"
  cpThroughput :: "int option"

record ('c, 's) cosmos_client =
  ccCreateDatabase :: "ctx \<Rightarrow> string \<Rightarrow> 's \<Rightarrow> cosmos_error option \<times> 's"
  ccNewDatabase :: "string \<Rightarrow> go_error option"
  ccCreateContainer :: "ctx \<Rightarrow> string \<Rightarrow> container_props \<Rightarrow> 's \<Rightarrow> cosmos_error option \<times> 's"
  ccNewContainer :: "string \<Rightarrow> string \<Rightarrow> 'c result"

text \<open>What the SDK may refuse when a client is built: a connection string, the default credential, an
  endpoint.\<close>

record ('c, 's) cosmos_sdk =
  skFromConnectionString :: "string \<Rightarrow> ('c, 's) cosmos_client result"
  skCredential :: "go_error option"
  skFromEndpoint :: "string \<Rightarrow> ('c, 's) cosmos_client result"

end
