(* ===== verification/Places.thy ===== *)
theory Places
  imports Main
begin

section \<open>Where a lease is\<close>

text \<open>
  The leases of a fleet as the coordinators see them.  A lease that was won is about to be recorded by a
  process of an instance, held by an instance, or about to be deleted by a process; it moves along and is in
  one place only.  \<open>tag\<close> is what identifies a lease to the service: the entity tag of the version in Cosmos
  DB, the token in Redis.
\<close>

datatype place = HeldAt nat | RecordedAt nat nat | DeletedAt nat nat

text \<open>Where a lease counts as held: it may be used, or will be.\<close>

fun winner :: "place \<Rightarrow> bool" where
  "winner (DeletedAt i k) = False"
| "winner p = True"

definition one_place :: "('l \<Rightarrow> 't) \<Rightarrow> (place \<Rightarrow> 'l set) \<Rightarrow> bool" where
  "one_place tag A \<longleftrightarrow> (\<forall>p q l l'. l \<in> A p \<and> l' \<in> A q \<and> tag l = tag l' \<longrightarrow> p = q \<and> l = l')"

lemma one_place_shrink: "one_place tag A \<Longrightarrow> (\<And>p. A' p \<subseteq> A p) \<Longrightarrow> one_place tag A'"
  unfolding one_place_def by (meson subsetD)

lemma one_place_move:
  assumes "one_place tag A" "M \<subseteq> A src" "A' src \<inter> M = {}" "A' dst \<subseteq> A dst \<union> M"
    and "\<And>p. p \<noteq> dst \<Longrightarrow> A' p \<subseteq> A p"
  shows "one_place tag A'"
proof -
  define origin where "origin p l = (if p = dst \<and> l \<in> M then src else p)" for p l
  have o: "l \<in> A (origin p l)" if "l \<in> A' p" for p l
    using that assms(2,4,5) by (cases "p = dst") (auto simp: origin_def)
  have "p = q \<and> l = l'" if "l \<in> A' p" "l' \<in> A' q" "tag l = tag l'" for p q l l'
  proof -
    from o [OF that(1)] o [OF that(2)] that(3) assms(1)
    have eq: "origin p l = origin q l'" "l = l'" unfolding one_place_def by blast+
    with that assms(3) show ?thesis by (auto simp: origin_def split: if_splits)
  qed
  then show ?thesis unfolding one_place_def by blast
qed

lemma one_place_new:
  assumes "one_place tag A" "\<And>p l. l \<in> A p \<Longrightarrow> tag l \<noteq> tag n"
    and "A' dst \<subseteq> {n}" "\<And>p. p \<noteq> dst \<Longrightarrow> A' p \<subseteq> A p"
  shows "one_place tag A'"
  using assms unfolding one_place_def by (metis singletonD subsetD)

end
