(* ===== verification/State_DynamoDB.thy ===== *)
theory State_DynamoDB
  imports Feed_Detect Time_RFC3339 Int_Text
begin

section \<open>The state store in a DynamoDB table (\<^verbatim>\<open>internal/state/dynamodb/dynamodb.go\<close>)\<close>

text \<open>
  One table keyed by the feed and an item identifier; the validators of a feed are a row under the
  reserved identifier \<^verbatim>\<open>#META\<close>.  Rows are attribute maps, times are text.  The table is reached through the
  calls of \<open>item_table\<close>, of which \<open>table_ok\<close> says what is relied on: consistent reads, and writes that
  report success took effect.  The store keeps the contract \<open>seen_store\<close> for every identifier but the
  reserved one.
\<close>

subsection \<open>The table\<close>

datatype attr = AttrS string | AttrN string

type_synonym attrs = "(string \<times> attr) list"

record 's item_table =
  itGet :: "ctx \<Rightarrow> attrs \<Rightarrow> 's \<Rightarrow> attrs result \<times> 's"
  itPut :: "ctx \<Rightarrow> attrs \<Rightarrow> 's \<Rightarrow> go_error option \<times> 's"
  itDescribe :: "ctx \<Rightarrow> 's \<Rightarrow> string option result \<times> 's"  \<comment> \<open>the status of the table, if the answer has one\<close>

record ddb_state =
  dsTable :: string
  dsTTLAttribute :: string
  dsItemTTL :: duration

record ddb_state_options =
  doTable :: string
  doRegion :: string
  doEndpointURL :: string
  doTTLAttribute :: string
  doItemTTL :: duration

subsection \<open>The store\<close>

definition pkAttr :: string where "pkAttr = ''feed_url''"
definition skAttr :: string where "skAttr = ''item_id''"
definition metaSK :: string where "metaSK = ''#META''"

definition ddb_state_New :: "(string \<Rightarrow> go_error option) \<Rightarrow> ddb_state_options \<Rightarrow> ddb_state result" where
  "ddb_state_New loadConfig opts =
     (if doTable opts = [] then Inl (Errorf ''state/dynamodb: table is required'' [])
      else if (doTTLAttribute opts = []) \<noteq> (doItemTTL opts \<le> 0)
      then Inl (Errorf ''state/dynamodb: ttl_attribute and item_ttl must both be set or both empty'' [])
      else case loadConfig (doRegion opts) of
        Some err \<Rightarrow> Inl (Errorf ''state/dynamodb: load aws config: %w'' [FWrap err])
      | None \<Rightarrow> Inr \<lparr>dsTable = doTable opts, dsTTLAttribute = doTTLAttribute opts, dsItemTTL = doItemTTL opts\<rparr>)"

definition ddb_state_Ping :: "'s item_table \<Rightarrow> ddb_state \<Rightarrow> ctx \<Rightarrow> 's \<Rightarrow> go_error option \<times> 's" where
  "ddb_state_Ping api sto c s =
     (case itDescribe api c s of
        (Inl err, s1) \<Rightarrow> (Some (Errorf ''state/dynamodb: describe table %q: %w'' [FStr (dsTable sto), FWrap err]), s1)
      | (Inr None, s1) \<Rightarrow> (None, s1)
      | (Inr (Some status), s1) \<Rightarrow>
          if status \<noteq> ''ACTIVE''
          then (Some (Errorf ''state/dynamodb: table %q is %s, not ACTIVE'' [FStr (dsTable sto), FStr status]), s1)
          else (None, s1))"

definition itemKey :: "string \<Rightarrow> string \<Rightarrow> attrs" where
  "itemKey feedURL sk = [(pkAttr, AttrS feedURL), (skAttr, AttrS sk)]"

definition stringAttr :: "attrs \<Rightarrow> string \<Rightarrow> string result" where
  "stringAttr item name =
     (case map_of item name of
        None \<Rightarrow> Inr []
      | Some (AttrS v) \<Rightarrow> Inr v
      | Some (AttrN _) \<Rightarrow> Inl (Errorf ''state/dynamodb: attribute %q is not a string'' [FStr name]))"

definition timeAttr :: "(string \<Rightarrow> time result) \<Rightarrow> attrs \<Rightarrow> string \<Rightarrow> time result" where
  "timeAttr slow item name =
     (case stringAttr item name of
        Inl err \<Rightarrow> Inl err
      | Inr v \<Rightarrow>
          if v = [] then Inr zero_time
          else case time_Parse slow v of
            Inl err \<Rightarrow> Inl (Errorf ''state/dynamodb: parse %s: %w'' [FStr name, FWrap err])
          | Inr t \<Rightarrow> Inr t)"

text \<open>The reading half of \<^verbatim>\<open>GetItem\<close> and of \<^verbatim>\<open>GetFeedMeta\<close>.\<close>

definition read_item :: "(string \<Rightarrow> time result) \<Rightarrow> attrs \<Rightarrow> ItemState option result" where
  "read_item slow item =
     (if length item = 0 then Inr None
      else case stringAttr item ''content_hash'' of
        Inl err \<Rightarrow> Inl err
      | Inr hash \<Rightarrow>
          (case timeAttr slow item ''last_seen_at'' of
             Inl err \<Rightarrow> Inl err
           | Inr seenAt \<Rightarrow> Inr (Some \<lparr>ContentHashS = hash, LastSeenAt = seenAt\<rparr>)))"

definition read_meta :: "(string \<Rightarrow> time result) \<Rightarrow> attrs \<Rightarrow> FeedMeta option result" where
  "read_meta slow item =
     (if length item = 0 then Inr None
      else case stringAttr item ''etag'' of
        Inl err \<Rightarrow> Inl err
      | Inr etag \<Rightarrow>
          (case map_of item ''last_modified'' of
             Some (AttrS v) \<Rightarrow>
               if v \<noteq> []
               then (case time_Parse slow v of
                       Inl err \<Rightarrow> Inl (Errorf ''state/dynamodb: parse last_modified: %w'' [FWrap err])
                     | Inr t \<Rightarrow> Inr (Some \<lparr>ETagM = etag, LastModifiedM = t\<rparr>))
               else Inr (Some \<lparr>ETagM = etag, LastModifiedM = zero_time\<rparr>)
           | _ \<Rightarrow> Inr (Some \<lparr>ETagM = etag, LastModifiedM = zero_time\<rparr>)))"

definition ddb_GetItem ::
    "'s item_table \<Rightarrow> (string \<Rightarrow> time result) \<Rightarrow> ctx \<Rightarrow> string \<Rightarrow> string \<Rightarrow> 's \<Rightarrow> ItemState option result \<times> 's" where
  "ddb_GetItem api slow c feedURL itemID s =
     (case itGet api c (itemKey feedURL itemID) s of
        (Inl err, s1) \<Rightarrow> (Inl (Errorf ''state/dynamodb: GetItem: %w'' [FWrap err]), s1)
      | (Inr item, s1) \<Rightarrow> (read_item slow item, s1))"

definition Unix :: "time \<Rightarrow> int" where
  "Unix t = t div second - 62135596800"

definition with_ttl :: "ddb_state \<Rightarrow> time \<Rightarrow> attrs \<Rightarrow> attrs" where
  "with_ttl sto t item =
     (if dsTTLAttribute sto \<noteq> [] \<and> dsItemTTL sto > 0
      then upsert_row (dsTTLAttribute sto) (AttrN (itoa (Unix (t + dsItemTTL sto)))) item
      else item)"

definition item_row :: "ddb_state \<Rightarrow> string \<Rightarrow> string \<Rightarrow> string \<Rightarrow> time \<Rightarrow> attrs" where
  "item_row sto feedURL itemID hash seenAt =
     with_ttl sto seenAt
       [(pkAttr, AttrS feedURL), (skAttr, AttrS itemID), (''content_hash'', AttrS hash),
        (''last_seen_at'', AttrS (RFC3339Nano seenAt))]"

definition ddb_UpsertItem ::
    "'s item_table \<Rightarrow> ddb_state \<Rightarrow> ctx \<Rightarrow> string \<Rightarrow> string \<Rightarrow> string \<Rightarrow> time \<Rightarrow> 's \<Rightarrow> go_error option \<times> 's" where
  "ddb_UpsertItem api sto c feedURL itemID hash seenAt s =
     (case itPut api c (item_row sto feedURL itemID hash seenAt) s of
        (Some err, s1) \<Rightarrow> (Some (Errorf ''state/dynamodb: PutItem (item): %w'' [FWrap err]), s1)
      | (None, s1) \<Rightarrow> (None, s1))"

definition ddb_GetFeedMeta ::
    "'s item_table \<Rightarrow> (string \<Rightarrow> time result) \<Rightarrow> ctx \<Rightarrow> string \<Rightarrow> 's \<Rightarrow> FeedMeta option result \<times> 's" where
  "ddb_GetFeedMeta api slow c feedURL s =
     (case itGet api c (itemKey feedURL metaSK) s of
        (Inl err, s1) \<Rightarrow> (Inl (Errorf ''state/dynamodb: GetItem (meta): %w'' [FWrap err]), s1)
      | (Inr item, s1) \<Rightarrow> (read_meta slow item, s1))"

definition buildFeedMetaItem :: "ddb_state \<Rightarrow> time \<Rightarrow> string \<Rightarrow> FeedMeta \<Rightarrow> attrs" where
  "buildFeedMetaItem sto now feedURL meta =
     with_ttl sto now
       ([(pkAttr, AttrS feedURL), (skAttr, AttrS metaSK), (''etag'', AttrS (ETagM meta)),
         (''updated_at'', AttrS (RFC3339Nano now))] @
        (if LastModifiedM meta \<noteq> zero_time then [(''last_modified'', AttrS (RFC3339Nano (LastModifiedM meta)))] else []))"

definition ddb_UpsertFeedMeta ::
    "'s item_table \<Rightarrow> ddb_state \<Rightarrow> ('s \<Rightarrow> time) \<Rightarrow> ctx \<Rightarrow> string \<Rightarrow> FeedMeta \<Rightarrow> 's \<Rightarrow> go_error option \<times> 's" where
  "ddb_UpsertFeedMeta api sto now c feedURL meta s =
     (case itPut api c (buildFeedMetaItem sto (now s) feedURL meta) s of
        (Some err, s1) \<Rightarrow> (Some (Errorf ''state/dynamodb: PutItem (meta): %w'' [FWrap err]), s1)
      | (None, s1) \<Rightarrow> (None, s1))"

definition ddb_PruneItemsBefore :: "ctx \<Rightarrow> time \<Rightarrow> 's \<Rightarrow> int \<times> go_error option \<times> 's" where
  "ddb_PruneItemsBefore c cutoff s = (0, None, s)"

definition ddb_PruneFeedMetaBefore :: "ctx \<Rightarrow> time \<Rightarrow> 's \<Rightarrow> int \<times> go_error option \<times> 's" where
  "ddb_PruneFeedMetaBefore c cutoff s = (0, None, s)"

definition ddb_store ::
    "'s item_table \<Rightarrow> (string \<Rightarrow> time result) \<Rightarrow> ddb_state \<Rightarrow> ('s \<Rightarrow> time) \<Rightarrow> 's Store" where
  "ddb_store api slow sto now =
     \<lparr>GetItem = ddb_GetItem api slow, UpsertItem = ddb_UpsertItem api sto,
      PruneItemsBefore = ddb_PruneItemsBefore, PruneFeedMetaBefore = ddb_PruneFeedMetaBefore,
      GetFeedMeta = ddb_GetFeedMeta api slow, UpsertFeedMeta = ddb_UpsertFeedMeta api sto now\<rparr>"

subsection \<open>What is relied on of the table\<close>

text \<open>\<open>view\<close> is the row of a key.  The key of a written row is in its two key attributes.\<close>

definition row_key :: "attrs \<Rightarrow> (attr option \<times> attr option)" where
  "row_key item = (map_of item pkAttr, map_of item skAttr)"

type_synonym 's rows = "'s \<Rightarrow> attr option \<times> attr option \<Rightarrow> attrs option"

definition table_ok :: "'s item_table \<Rightarrow> 's rows \<Rightarrow> bool" where
  "table_ok api view \<longleftrightarrow>
     (\<forall>c k s r s'. itGet api c k s = (r, s') \<longrightarrow>
        view s' = view s \<and>
        (\<forall>item. r = Inr item \<longrightarrow> item = (case view s (row_key k) of Some row \<Rightarrow> row | None \<Rightarrow> []))) \<and>
     (\<forall>c item s r s'. itPut api c item s = (r, s') \<longrightarrow>
        view s' = (view s)(row_key item \<mapsto> item) \<or> (r \<noteq> None \<and> view s' = view s))"

text \<open>The attribute names the store uses itself; the TTL attribute is another one.\<close>

definition own_attrs :: "string list" where
  "own_attrs = [pkAttr, skAttr, ''content_hash'', ''last_seen_at'', ''etag'', ''updated_at'', ''last_modified'']"

definition ddb_items :: "(string \<Rightarrow> time result) \<Rightarrow> 's rows \<Rightarrow> 's \<Rightarrow> string \<times> string \<Rightarrow> ItemState option" where
  "ddb_items slow view s = (\<lambda>(u, i).
     if i = metaSK then None
     else case view s (row_key (itemKey u i)) of
       None \<Rightarrow> None
     | Some row \<Rightarrow> (case read_item slow row of Inr v \<Rightarrow> v | Inl _ \<Rightarrow> None))"

definition ddb_metas :: "(string \<Rightarrow> time result) \<Rightarrow> 's rows \<Rightarrow> 's \<Rightarrow> string \<Rightarrow> FeedMeta option" where
  "ddb_metas slow view s u =
     (case view s (row_key (itemKey u metaSK)) of
        None \<Rightarrow> None
      | Some row \<Rightarrow> (case read_meta slow row of Inr v \<Rightarrow> v | Inl _ \<Rightarrow> None))"

subsection \<open>The store keeps the contract\<close>

lemmas attr_names = pkAttr_def skAttr_def metaSK_def own_attrs_def

lemma with_ttl_own: "dsTTLAttribute sto \<notin> set own_attrs \<Longrightarrow> n \<in> set own_attrs \<Longrightarrow>
    map_of (with_ttl sto t item) n = map_of item n"
  by (auto simp: with_ttl_def)

lemma with_ttl_nonempty: "item \<noteq> [] \<Longrightarrow> with_ttl sto t item \<noteq> []"
  by (cases item) (auto simp: with_ttl_def)

lemma row_key_itemKey [simp]: "row_key (itemKey u i) = (Some (AttrS u), Some (AttrS i))"
  by (simp add: row_key_def itemKey_def attr_names)

lemma row_key_item_row:
  assumes "dsTTLAttribute sto \<notin> set own_attrs"
  shows "row_key (item_row sto u i h t) = (Some (AttrS u), Some (AttrS i))"
  using with_ttl_own [OF assms, of pkAttr] with_ttl_own [OF assms, of skAttr]
  by (simp add: row_key_def item_row_def attr_names)

lemma row_key_meta_row:
  assumes "dsTTLAttribute sto \<notin> set own_attrs"
  shows "row_key (buildFeedMetaItem sto now u m) = (Some (AttrS u), Some (AttrS metaSK))"
  using with_ttl_own [OF assms, of pkAttr] with_ttl_own [OF assms, of skAttr]
  by (simp add: row_key_def buildFeedMetaItem_def attr_names)

lemma read_item_row:
  assumes "dsTTLAttribute sto \<notin> set own_attrs" "four_digit_year t"
  shows "read_item slow (item_row sto u i h t) = Inr (Some \<lparr>ContentHashS = h, LastSeenAt = t\<rparr>)"
proof -
  have "map_of (item_row sto u i h t) ''content_hash'' = Some (AttrS h)"
    "map_of (item_row sto u i h t) ''last_seen_at'' = Some (AttrS (RFC3339Nano t))"
    unfolding item_row_def by (subst with_ttl_own [OF assms(1)]; simp add: attr_names)+
  moreover have "item_row sto u i h t \<noteq> []" unfolding item_row_def by (rule with_ttl_nonempty) simp
  ultimately show ?thesis
    by (simp add: read_item_def stringAttr_def timeAttr_def time_Parse_Nano [OF assms(2)] RFC3339Nano_nonempty)
qed

lemma read_meta_row:
  assumes "dsTTLAttribute sto \<notin> set own_attrs" "four_digit_year (LastModifiedM m)"
  shows "read_meta slow (buildFeedMetaItem sto now u m) = Inr (Some m)"
proof -
  have "map_of (buildFeedMetaItem sto now u m) ''etag'' = Some (AttrS (ETagM m))"
    "map_of (buildFeedMetaItem sto now u m) ''last_modified'' =
       (if LastModifiedM m \<noteq> zero_time then Some (AttrS (RFC3339Nano (LastModifiedM m))) else None)"
    unfolding buildFeedMetaItem_def by (subst with_ttl_own [OF assms(1)]; simp add: attr_names)+
  moreover have "buildFeedMetaItem sto now u m \<noteq> []"
    unfolding buildFeedMetaItem_def by (rule with_ttl_nonempty) simp
  ultimately show ?thesis
    by (simp add: read_meta_def stringAttr_def time_Parse_Nano [OF assms(2)] RFC3339Nano_nonempty)
qed

lemma read_item_Nil: "read_item slow [] = Inr None" and read_meta_Nil: "read_meta slow [] = Inr None"
  by (simp_all add: read_item_def read_meta_def)

lemma ddb_store_sel [simp]:
  "GetItem (ddb_store api slow sto now) = ddb_GetItem api slow"
  "UpsertItem (ddb_store api slow sto now) = ddb_UpsertItem api sto"
  "GetFeedMeta (ddb_store api slow sto now) = ddb_GetFeedMeta api slow"
  "UpsertFeedMeta (ddb_store api slow sto now) = ddb_UpsertFeedMeta api sto now"
  by (simp_all add: ddb_store_def)

lemma table_get:
  assumes "table_ok api view" "itGet api c k s = (r, s')"
  shows "view s' = view s" "r = Inr item \<Longrightarrow> item = (case view s (row_key k) of Some row \<Rightarrow> row | None \<Rightarrow> [])"
  using assms unfolding table_ok_def by blast+

lemma table_put:
  assumes "table_ok api view" "itPut api c item s = (r, s')"
  shows "view s' = (view s)(row_key item \<mapsto> item) \<or> (r \<noteq> None \<and> view s' = view s)"
  using assms unfolding table_ok_def by blast

lemma ddb_seen_store:
  assumes ok: "table_ok api view" and ttl: "dsTTLAttribute sto \<notin> set own_attrs"
  shows "seen_store (ddb_store api slow sto now) (\<lambda>_. True) (ddb_items slow view) (ddb_metas slow view)
    (\<lambda>i. i \<noteq> metaSK) four_digit_year (\<lambda>t. t)"
proof (unfold_locales, goal_cases)
  case (1 i s c u ri s')
  obtain r s1 where g: "itGet api c (itemKey u i) s = (r, s1)" by fastforce
  note t = table_get [OF ok g]
  have "s' = s1" using 1(3) g by (auto simp: ddb_GetItem_def split: sum.splits)
  moreover have "v = ddb_items slow view s (u, i)" if v: "ri = Inr v" for v
  proof -
    obtain item where item: "r = Inr item" using 1(3) g v by (cases r) (auto simp: ddb_GetItem_def)
    with 1(3) g v have "read_item slow item = Inr v" by (simp add: ddb_GetItem_def)
    with t(2) [OF item] 1(1) show ?thesis
      by (cases "view s (row_key (itemKey u i))") (auto simp: ddb_items_def read_item_Nil)
  qed
  ultimately show ?case using t(1) by (simp add: ddb_items_def ddb_metas_def fun_eq_iff)
next
  case (2 i t s c u h r s')
  obtain r1 s1 where p: "itPut api c (item_row sto u i h t) s = (r1, s1)" by fastforce
  have eq: "s' = s1" "(r = None) = (r1 = None)" using 2(4) p by (auto simp: ddb_UpsertItem_def split: option.splits)
  from table_put [OF ok p] eq 2(1,2) show ?case
    unfolding row_key_item_row [OF ttl]
    by (auto simp: ddb_items_def ddb_metas_def fun_eq_iff read_item_row [OF ttl])
next
  case (3 s c u rm s')
  obtain r s1 where g: "itGet api c (itemKey u metaSK) s = (r, s1)" by fastforce
  note t = table_get [OF ok g]
  have "s' = s1" using 3(2) g by (auto simp: ddb_GetFeedMeta_def split: sum.splits)
  moreover have "v = ddb_metas slow view s u" if v: "rm = Inr v" for v
  proof -
    obtain item where item: "r = Inr item" using 3(2) g v by (cases r) (auto simp: ddb_GetFeedMeta_def)
    with 3(2) g v have "read_meta slow item = Inr v" by (simp add: ddb_GetFeedMeta_def)
    with t(2) [OF item] show ?thesis
      by (cases "view s (row_key (itemKey u metaSK))") (auto simp: ddb_metas_def read_meta_Nil)
  qed
  ultimately show ?case using t(1) by (simp add: ddb_items_def ddb_metas_def fun_eq_iff)
next
  case (4 m s c u r s')
  obtain r1 s1 where p: "itPut api c (buildFeedMetaItem sto (now s) u m) s = (r1, s1)" by fastforce
  have eq: "s' = s1" "(r = None) = (r1 = None)" using 4(3) p by (auto simp: ddb_UpsertFeedMeta_def split: option.splits)
  from table_put [OF ok p] eq 4(1) show ?case
    unfolding row_key_meta_row [OF ttl]
    by (auto simp: ddb_items_def ddb_metas_def fun_eq_iff read_meta_row [OF ttl])
qed

subsection \<open>Properties\<close>

text \<open>C19: detection on DynamoDB.  On a table that keeps what is relied on, with a TTL attribute of its own,
  a feed none of whose items has the reserved identifier is classified exactly as specified by what the
  table holds, and the table is not changed; and what an upsert recorded for such an item is what the next
  read of it returns.\<close>

theorem dynamodb_store_remembers:
  assumes "table_ok api view" "dsTTLAttribute sto \<notin> set own_attrs"
  shows "(\<forall>c u g d s r s'. (\<forall>it\<in>set (Items g). item_id sha it \<noteq> metaSK) \<longrightarrow>
            Detect sha (ddb_store api slow sto now) c u (Some g) d s = (r, s') \<longrightarrow>
            ddb_items slow view s' = ddb_items slow view s \<and>
            (\<forall>v. r = Inr v \<longrightarrow> v = detect_spec sha (ddb_items slow view s) u d (Some g))) \<and>
    (\<forall>c u i h t s s1 v s2. i \<noteq> metaSK \<and> four_digit_year t \<longrightarrow>
            ddb_UpsertItem api sto c u i h t s = (None, s1) \<longrightarrow> ddb_GetItem api slow c u i s1 = (Inr v, s2) \<longrightarrow>
            v = Some \<lparr>ContentHashS = h, LastSeenAt = t\<rparr>)"
proof -
  note st = ddb_seen_store [OF assms, of slow now]
  have "ddb_items slow view s' = ddb_items slow view s \<and>
            (\<forall>v. r = Inr v \<longrightarrow> v = detect_spec sha (ddb_items slow view s) u d (Some g))"
    if "\<forall>it\<in>set (Items g). item_id sha it \<noteq> metaSK" "Detect sha (ddb_store api slow sto now) c u (Some g) d s = (r, s')"
    for c u g d s r s'
    using seen_store.Detect_refines [OF st _ TrueI that(2)] that(1) by simp
  moreover have "v = Some \<lparr>ContentHashS = h, LastSeenAt = t\<rparr>"
    if "i \<noteq> metaSK" "four_digit_year t" "ddb_UpsertItem api sto c u i h t s = (None, s1)"
      "ddb_GetItem api slow c u i s1 = (Inr v, s2)" for c u i h t s s1 v s2
    using seen_store.get_after_upsert [OF st that(1,2) TrueI _ that(1), unfolded ddb_store_sel, OF that(3,4)] by simp
  ultimately show ?thesis by blast
qed

text \<open>The reserved identifier is not reserved.  The identifier of an item is its GUID, which the
  publisher of the feed chooses.  An item whose GUID is \<^verbatim>\<open>#META\<close> shares its row with the validators of the
  feed: recording the item erases the validators, and storing the validators, which every poll that
  fetched something does first, erases the recorded hash, so that the item is found changed again.\<close>

theorem dynamodb_reserved_guid:
  assumes "table_ok api view" "dsTTLAttribute sto \<notin> set own_attrs" "four_digit_year t" "four_digit_year (LastModifiedM m)"
  shows "(ddb_UpsertItem api sto c u metaSK h t s = (None, s1) \<and> ddb_GetFeedMeta api slow c u s1 = (Inr v, s2) \<longrightarrow>
            v = Some \<lparr>ETagM = [], LastModifiedM = zero_time\<rparr>) \<and>
    (ddb_UpsertFeedMeta api sto now c u m s = (None, s1) \<and> ddb_GetItem api slow c u metaSK s1 = (Inr x, s2) \<longrightarrow>
            x = Some \<lparr>ContentHashS = [], LastSeenAt = zero_time\<rparr>) \<and>
    (ddb_UpsertFeedMeta api sto now c u m s = (None, s1) \<and> item_id sha it = metaSK \<and> item_hash sha it \<noteq> [] \<and>
       classify sha (ddb_store api slow sto now) c u ti it d s1 = (Inr y, s2) \<longrightarrow>
            y = Some (mkChange sha u ti it d ChangeUpdated))"
proof -
  have key: "row_key (itemKey u metaSK) = (Some (AttrS u), Some (AttrS metaSK))" by simp
  have item: "read_meta slow (item_row sto u metaSK h t) = Inr (Some \<lparr>ETagM = [], LastModifiedM = zero_time\<rparr>)"
  proof -
    have "map_of (item_row sto u metaSK h t) ''etag'' = None" "map_of (item_row sto u metaSK h t) ''last_modified'' = None"
      unfolding item_row_def by (subst with_ttl_own [OF assms(2)]; simp add: attr_names)+
    moreover have "item_row sto u metaSK h t \<noteq> []" unfolding item_row_def by (rule with_ttl_nonempty) simp
    ultimately show ?thesis by (simp add: read_meta_def stringAttr_def)
  qed
  have meta: "read_item slow (buildFeedMetaItem sto n u m) = Inr (Some \<lparr>ContentHashS = [], LastSeenAt = zero_time\<rparr>)" for n
  proof -
    have "map_of (buildFeedMetaItem sto n u m) ''content_hash'' = None" "map_of (buildFeedMetaItem sto n u m) ''last_seen_at'' = None"
      unfolding buildFeedMetaItem_def by (subst with_ttl_own [OF assms(2)]; simp add: attr_names)+
    moreover have "buildFeedMetaItem sto n u m \<noteq> []" unfolding buildFeedMetaItem_def by (rule with_ttl_nonempty) simp
    ultimately show ?thesis by (simp add: read_item_def stringAttr_def timeAttr_def)
  qed
  have 1: "v = Some \<lparr>ETagM = [], LastModifiedM = zero_time\<rparr>"
    if "ddb_UpsertItem api sto c u metaSK h t s = (None, s1)" "ddb_GetFeedMeta api slow c u s1 = (Inr v, s2)"
  proof -
    from that(1) have "itPut api c (item_row sto u metaSK h t) s = (None, s1)"
      by (auto simp: ddb_UpsertItem_def split: prod.splits option.splits)
    from table_put [OF assms(1) this] have "view s1 (row_key (itemKey u metaSK)) = Some (item_row sto u metaSK h t)"
      by (simp add: row_key_item_row [OF assms(2)])
    then show ?thesis using that(2) table_get(2) [OF assms(1), of c "itemKey u metaSK" s1] item
      by (auto simp: ddb_GetFeedMeta_def split: prod.splits sum.splits)
  qed
  have 2: "x = Some \<lparr>ContentHashS = [], LastSeenAt = zero_time\<rparr>"
    if "ddb_UpsertFeedMeta api sto now c u m s = (None, s1)" "ddb_GetItem api slow c u metaSK s1 = (Inr x, s2)" for x s2
  proof -
    from that(1) have "itPut api c (buildFeedMetaItem sto (now s) u m) s = (None, s1)"
      by (auto simp: ddb_UpsertFeedMeta_def split: prod.splits option.splits)
    from table_put [OF assms(1) this] have "view s1 (row_key (itemKey u metaSK)) = Some (buildFeedMetaItem sto (now s) u m)"
      by (simp add: row_key_meta_row [OF assms(2)])
    then show ?thesis using that(2) table_get(2) [OF assms(1), of c "itemKey u metaSK" s1] meta
      by (auto simp: ddb_GetItem_def split: prod.splits sum.splits)
  qed
  have 3: "y = Some (mkChange sha u ti it d ChangeUpdated)"
    if "ddb_UpsertFeedMeta api sto now c u m s = (None, s1)" "item_id sha it = metaSK" "item_hash sha it \<noteq> []"
      "classify sha (ddb_store api slow sto now) c u ti it d s1 = (Inr y, s2)"
  proof -
    note a = that
    obtain x s3 where g: "ddb_GetItem api slow c u metaSK s1 = (Inr x, s3)"
      using a(2,4) by (auto simp: classify_def split: prod.splits sum.splits)
    from 2 [OF a(1) this] g a(2-4) show ?thesis by (auto simp: classify_def split: if_splits)
  qed
  from 1 2 3 show ?thesis by blast
qed

text \<open>\<^verbatim>\<open>New\<close> refuses a TTL attribute without a TTL, which the validation of the configuration accepts.\<close>

lemma ttl_attribute_alone_refused:
  assumes "doTable opts \<noteq> []" "doTTLAttribute opts \<noteq> []" "doItemTTL opts = 0"
  shows "\<exists>err. ddb_state_New loadConfig opts = Inl err"
  using assms by (simp add: ddb_state_New_def)

text \<open>The expiry written with a row is the end of its life, rounded down to a second.\<close>

lemma ttl_expiry_exact:
  "(Unix x + 62135596800) * second \<le> x \<and> x < (Unix x + 62135596800) * second + second"
proof -
  have "(Unix x + 62135596800) * second + x mod second = x" by (simp add: Unix_def)
  moreover have "0 \<le> x mod second" "x mod second < second" by (simp_all add: second_def)
  ultimately show ?thesis by linarith
qed

definition toy_table :: "(attr option \<times> attr option \<Rightarrow> attrs option) item_table" where
  "toy_table = \<lparr>itGet = (\<lambda>c k s. (Inr (case s (row_key k) of Some row \<Rightarrow> row | None \<Rightarrow> []), s)),
     itPut = (\<lambda>c item s. (None, s(row_key item \<mapsto> item))), itDescribe = (\<lambda>c s. (Inr (Some ''ACTIVE''), s))\<rparr>"

lemma toy_table_ok: "table_ok toy_table (\<lambda>s. s)"
  by (auto simp: table_ok_def toy_table_def)

definition plain_state :: ddb_state where
  "plain_state = \<lparr>dsTable = ''t'', dsTTLAttribute = [], dsItemTTL = 0\<rparr>"

lemma plain_state_ttl: "dsTTLAttribute plain_state \<notin> set own_attrs"
  by (simp add: plain_state_def attr_names)

theorem dynamodb_store_remembers_witness:
  "ddb_GetItem toy_table (\<lambda>_. Inl Canceled) None ''u'' ''i''
      (snd (ddb_UpsertItem toy_table plain_state None ''u'' ''i'' ''h'' 7 Map.empty)) =
   (Inr (Some \<lparr>ContentHashS = ''h'', LastSeenAt = 7\<rparr>), snd (ddb_UpsertItem toy_table plain_state None ''u'' ''i'' ''h'' 7 Map.empty))"
proof -
  let ?s1 = "snd (ddb_UpsertItem toy_table plain_state None ''u'' ''i'' ''h'' 7 Map.empty)"
  have u: "ddb_UpsertItem toy_table plain_state None ''u'' ''i'' ''h'' 7 Map.empty = (None, ?s1)"
    by (simp add: ddb_UpsertItem_def toy_table_def)
  have ok: "four_digit_year 7" "''i'' \<noteq> metaSK" by (simp_all add: four_digit_year_def year_10000_def second_def metaSK_def)
  have row: "?s1 (row_key (itemKey ''u'' ''i'')) = Some (item_row plain_state ''u'' ''i'' ''h'' 7)"
    by (simp add: ddb_UpsertItem_def toy_table_def row_key_item_row [OF plain_state_ttl])
  then obtain v where g: "ddb_GetItem toy_table (\<lambda>_. Inl Canceled) None ''u'' ''i'' ?s1 = (Inr v, ?s1)"
    by (simp add: ddb_GetItem_def toy_table_def read_item_row [OF plain_state_ttl ok(1)])
  with dynamodb_store_remembers [OF toy_table_ok plain_state_ttl, of "\<lambda>x. x" "\<lambda>_. Inl Canceled" "\<lambda>_. 0"] u ok show ?thesis
    by blast
qed

theorem dynamodb_reserved_guid_witness:
  "ddb_GetFeedMeta toy_table (\<lambda>_. Inl Canceled) None ''u''
      (snd (ddb_UpsertItem toy_table plain_state None ''u'' metaSK ''h'' 7 Map.empty)) =
   (Inr (Some \<lparr>ETagM = [], LastModifiedM = zero_time\<rparr>),
    snd (ddb_UpsertItem toy_table plain_state None ''u'' metaSK ''h'' 7 Map.empty))"
proof -
  let ?s1 = "snd (ddb_UpsertItem toy_table plain_state None ''u'' metaSK ''h'' 7 Map.empty)"
  have u: "ddb_UpsertItem toy_table plain_state None ''u'' metaSK ''h'' 7 Map.empty = (None, ?s1)"
    by (simp add: ddb_UpsertItem_def toy_table_def)
  have ok: "four_digit_year 7" "four_digit_year (LastModifiedM zero_meta)"
    by (simp_all add: four_digit_year_def year_10000_def second_def zero_meta_def)
  obtain v where g: "ddb_GetFeedMeta toy_table (\<lambda>_. Inl Canceled) None ''u'' ?s1 = (Inr v, ?s1)"
    by (simp add: ddb_GetFeedMeta_def ddb_UpsertItem_def toy_table_def row_key_item_row [OF plain_state_ttl]
        read_meta_def item_row_def with_ttl_def plain_state_def stringAttr_def row_key_def itemKey_def attr_names)
  with dynamodb_reserved_guid [OF toy_table_ok plain_state_ttl ok, of None "''u''" "''h''" Map.empty ?s1 "\<lambda>_. Inl Canceled" v ?s1] u
  show ?thesis by blast
qed

end
