(* ===== verification/State_CosmosDB.thy ===== *)
theory State_CosmosDB
  imports Feed_Detect Time_RFC3339 Cosmos_SDK
begin

section \<open>The state store in a Cosmos DB container (\<^verbatim>\<open>internal/state/cosmosdb/cosmosdb.go\<close>)\<close>

text \<open>
  One container partitioned by the feed; the document of an item has the SHA-256 of its identifier as its
  id, the validators of a feed are the document \<^verbatim>\<open>__meta__\<close>.  The container is reached through the calls of
  \<open>container\<close>, of which \<open>container_ok\<close> says what is relied on; the service adds properties of its own to a
  document.  The hash is an argument: identifiers are told apart as long as it does not collide on them.
\<close>

subsection \<open>The container\<close>

record 's container =
  cnReadItem :: "ctx \<Rightarrow> string \<Rightarrow> string \<Rightarrow> 's \<Rightarrow> (cosmos_error + json) \<times> 's"
  cnUpsertItem :: "ctx \<Rightarrow> string \<Rightarrow> json \<Rightarrow> 's \<Rightarrow> cosmos_error option \<times> 's"
  cnRead :: "ctx \<Rightarrow> 's \<Rightarrow> cosmos_error option \<times> 's"

record cosmos_options =
  coEndpoint :: string
  coConnectionString :: string
  coDatabase :: string
  coContainer :: string
  coCreateIfMissing :: bool
  coThroughput :: int
  coItemTTL :: duration

record 's cosmos_state =
  csContainer :: "'s container"
  csItemTTL :: duration

subsection \<open>Opening the store\<close>

definition defaultContainer :: string where "defaultContainer = ''feed_state''"
definition partitionKeyPath :: string where "partitionKeyPath = ''/feed_url''"
definition metaID :: string where "metaID = ''__meta__''"

definition newClient :: "('s container, 's) cosmos_sdk \<Rightarrow> cosmos_options \<Rightarrow> ('s container, 's) cosmos_client result" where
  "newClient sdk opts =
     (if coConnectionString opts \<noteq> []
      then (case skFromConnectionString sdk (coConnectionString opts) of
              Inl err \<Rightarrow> Inl (Errorf ''state/cosmosdb: client from connection string: %w'' [FWrap err])
            | Inr cl \<Rightarrow> Inr cl)
      else case skCredential sdk of
        Some err \<Rightarrow> Inl (Errorf ''state/cosmosdb: default azure credential: %w'' [FWrap err])
      | None \<Rightarrow>
          (case skFromEndpoint sdk (coEndpoint opts) of
             Inl err \<Rightarrow> Inl (Errorf ''state/cosmosdb: client for endpoint %q: %w'' [FStr (coEndpoint opts), FWrap err])
           | Inr cl \<Rightarrow> Inr cl))"

definition provision ::
    "('s container, 's) cosmos_client \<Rightarrow> ctx \<Rightarrow> string \<Rightarrow> string \<Rightarrow> int \<Rightarrow> bool \<Rightarrow> 's \<Rightarrow> go_error option \<times> 's" where
  "provision cl c database cont throughput enableTTL s =
     (let fatal = (\<lambda>e. case e of Some err \<Rightarrow> \<not> isStatus err 409 | None \<Rightarrow> False) in
      case ccCreateDatabase cl c database s of
        (e1, s1) \<Rightarrow>
          if fatal e1 then (Some (Errorf ''create database %q: %w'' [FStr database, FWrap (ceErr (the e1))]), s1)
          else case ccNewDatabase cl database of
            Some err \<Rightarrow> (Some (Errorf ''database handle %q: %w'' [FStr database, FWrap err]), s1)
          | None \<Rightarrow>
              let props = \<lparr>cpID = cont, cpPartitionKeyPath = partitionKeyPath,
                           cpDefaultTimeToLive = (if enableTTL then Some (-1) else None),
                           cpThroughput = (if throughput > 0 then Some throughput else None)\<rparr> in
              case ccCreateContainer cl c database props s1 of
                (e2, s2) \<Rightarrow>
                  if fatal e2 then (Some (Errorf ''create container %q: %w'' [FStr cont, FWrap (ceErr (the e2))]), s2)
                  else (None, s2))"

definition cosmos_state_New ::
    "('s container, 's) cosmos_sdk \<Rightarrow> ctx \<Rightarrow> cosmos_options \<Rightarrow> 's \<Rightarrow> 's cosmos_state result \<times> 's" where
  "cosmos_state_New sdk c opts s =
     (let hasEndpoint = (coEndpoint opts \<noteq> []); hasConn = (coConnectionString opts \<noteq> []) in
      if \<not> hasEndpoint \<and> \<not> hasConn
      then (Inl (Errorf ''state/cosmosdb: one of endpoint or connection_string is required'' []), s)
      else if hasEndpoint \<and> hasConn
      then (Inl (Errorf ''state/cosmosdb: endpoint and connection_string are mutually exclusive'' []), s)
      else if coDatabase opts = [] then (Inl (Errorf ''state/cosmosdb: database is required'' []), s)
      else if coItemTTL opts < 0 then (Inl (Errorf ''state/cosmosdb: item_ttl must not be negative'' []), s)
      else
        let cont = (if coContainer opts = [] then defaultContainer else coContainer opts) in
        case newClient sdk opts of
          Inl err \<Rightarrow> (Inl err, s)
        | Inr cl \<Rightarrow>
            (case (if coCreateIfMissing opts
                   then provision cl c (coDatabase opts) cont (coThroughput opts) (coItemTTL opts > 0) s
                   else (None, s)) of
               (Some err, s1) \<Rightarrow> (Inl (Errorf ''state/cosmosdb: %w'' [FWrap err]), s1)
             | (None, s1) \<Rightarrow>
                 (case ccNewContainer cl (coDatabase opts) cont of
                    Inl err \<Rightarrow> (Inl (Errorf ''state/cosmosdb: container handle: %w'' [FWrap err]), s1)
                  | Inr cc \<Rightarrow> (Inr \<lparr>csContainer = cc, csItemTTL = coItemTTL opts\<rparr>, s1))))"

definition cosmos_state_Ping :: "'s container \<Rightarrow> ctx \<Rightarrow> 's \<Rightarrow> go_error option \<times> 's" where
  "cosmos_state_Ping cn c s =
     (case cnRead cn c s of
        (Some err, s1) \<Rightarrow> (Some (Errorf ''state/cosmosdb: read container: %w'' [FWrap (ceErr err)]), s1)
      | (None, s1) \<Rightarrow> (None, s1))"

subsection \<open>Documents\<close>

text \<open>The text functions a document depends on: SHA-256 in hexadecimal, the lenient path of \<^verbatim>\<open>time.Parse\<close>, the
  error of \<^verbatim>\<open>json.Unmarshal\<close> on a document of other types, and \<^verbatim>\<open>int(d.Seconds())\<close>.\<close>

record doc_env =
  deSha :: "string \<Rightarrow> string"
  deSlow :: "string \<Rightarrow> time result"
  deUnmarshal :: "json \<Rightarrow> go_error"
  deSeconds :: "duration \<Rightarrow> int"

definition docID :: "doc_env \<Rightarrow> string \<Rightarrow> string" where
  "docID env itemID = deSha env itemID"

definition parseTime :: "doc_env \<Rightarrow> string \<Rightarrow> time result" where
  "parseTime env s = (if s = [] then Inr zero_time else time_Parse (deSlow env) s)"

definition ttl_field :: "doc_env \<Rightarrow> duration \<Rightarrow> fields" where
  "ttl_field env itemTTL =
     (if itemTTL > 0
      then let secs = deSeconds env itemTTL in [(''ttl'', JInt (if secs < 1 then 1 else secs))]
      else [])"

definition buildItemDoc :: "doc_env \<Rightarrow> duration \<Rightarrow> string \<Rightarrow> string \<Rightarrow> string \<Rightarrow> time \<Rightarrow> fields" where
  "buildItemDoc env itemTTL feedURL itemID hash seenAt =
     [(''id'', JStr (docID env itemID)), (''feed_url'', JStr feedURL), (''item_id'', JStr itemID),
      (''content_hash'', JStr hash), (''last_seen_at'', JStr (RFC3339Nano seenAt))] @ ttl_field env itemTTL"

definition buildMetaDoc :: "doc_env \<Rightarrow> duration \<Rightarrow> time \<Rightarrow> string \<Rightarrow> FeedMeta \<Rightarrow> fields" where
  "buildMetaDoc env itemTTL now feedURL meta =
     [(''id'', JStr metaID), (''feed_url'', JStr feedURL), (''etag'', JStr (ETagM meta))] @
     (if LastModifiedM meta \<noteq> zero_time then [(''last_modified'', JStr (RFC3339Nano (LastModifiedM meta)))] else []) @
     [(''updated_at'', JStr (RFC3339Nano now))] @ ttl_field env itemTTL"

text \<open>\<^verbatim>\<open>json.Unmarshal\<close> into \<^verbatim>\<open>itemDoc\<close> and \<^verbatim>\<open>metaDoc\<close>: every declared field must have its type.\<close>

definition typed :: "fields \<Rightarrow> string list \<Rightarrow> bool" where
  "typed fs strs \<longleftrightarrow> list_all (\<lambda>n. json_string fs n \<noteq> None) strs \<and> json_int fs ''ttl'' \<noteq> None"

definition read_item_doc :: "doc_env \<Rightarrow> json \<Rightarrow> ItemState result" where
  "read_item_doc env v =
     (case v of
        JObj fs \<Rightarrow>
          if typed fs [''id'', ''feed_url'', ''item_id'', ''content_hash'', ''last_seen_at'']
          then (case parseTime env (the (json_string fs ''last_seen_at'')) of
                  Inl err \<Rightarrow> Inl (Errorf ''state/cosmosdb: parse last_seen_at: %w'' [FWrap err])
                | Inr seenAt \<Rightarrow> Inr \<lparr>ContentHashS = the (json_string fs ''content_hash''), LastSeenAt = seenAt\<rparr>)
          else Inl (Errorf ''state/cosmosdb: unmarshal item: %w'' [FWrap (deUnmarshal env v)])
      | _ \<Rightarrow> Inl (Errorf ''state/cosmosdb: unmarshal item: %w'' [FWrap (deUnmarshal env v)]))"

definition read_meta_doc :: "doc_env \<Rightarrow> json \<Rightarrow> FeedMeta result" where
  "read_meta_doc env v =
     (case v of
        JObj fs \<Rightarrow>
          if typed fs [''id'', ''feed_url'', ''etag'', ''last_modified'', ''updated_at'']
          then let lm = the (json_string fs ''last_modified''); etag = the (json_string fs ''etag'') in
               if lm \<noteq> []
               then (case parseTime env lm of
                       Inl err \<Rightarrow> Inl (Errorf ''state/cosmosdb: parse last_modified: %w'' [FWrap err])
                     | Inr t \<Rightarrow> Inr \<lparr>ETagM = etag, LastModifiedM = t\<rparr>)
               else Inr \<lparr>ETagM = etag, LastModifiedM = zero_time\<rparr>
          else Inl (Errorf ''state/cosmosdb: unmarshal meta: %w'' [FWrap (deUnmarshal env v)])
      | _ \<Rightarrow> Inl (Errorf ''state/cosmosdb: unmarshal meta: %w'' [FWrap (deUnmarshal env v)]))"

subsection \<open>Operations\<close>

definition cosmos_GetItem ::
    "doc_env \<Rightarrow> 's container \<Rightarrow> ctx \<Rightarrow> string \<Rightarrow> string \<Rightarrow> 's \<Rightarrow> ItemState option result \<times> 's" where
  "cosmos_GetItem env cn c feedURL itemID s =
     (case cnReadItem cn c feedURL (docID env itemID) s of
        (Inl err, s1) \<Rightarrow>
          (if isStatus err 404 then (Inr None, s1)
           else (Inl (Errorf ''state/cosmosdb: ReadItem: %w'' [FWrap (ceErr err)]), s1))
      | (Inr v, s1) \<Rightarrow> (case read_item_doc env v of Inl err \<Rightarrow> (Inl err, s1) | Inr x \<Rightarrow> (Inr (Some x), s1)))"

definition cosmos_UpsertItem ::
    "doc_env \<Rightarrow> 's container \<Rightarrow> duration \<Rightarrow> ctx \<Rightarrow> string \<Rightarrow> string \<Rightarrow> string \<Rightarrow> time \<Rightarrow> 's \<Rightarrow> go_error option \<times> 's" where
  "cosmos_UpsertItem env cn itemTTL c feedURL itemID hash seenAt s =
     (case cnUpsertItem cn c feedURL (JObj (buildItemDoc env itemTTL feedURL itemID hash seenAt)) s of
        (Some err, s1) \<Rightarrow> (Some (Errorf ''state/cosmosdb: UpsertItem: %w'' [FWrap (ceErr err)]), s1)
      | (None, s1) \<Rightarrow> (None, s1))"

definition cosmos_PruneItemsBefore :: "ctx \<Rightarrow> time \<Rightarrow> 's \<Rightarrow> int \<times> go_error option \<times> 's" where
  "cosmos_PruneItemsBefore c cutoff s = (0, None, s)"

definition cosmos_GetFeedMeta ::
    "doc_env \<Rightarrow> 's container \<Rightarrow> ctx \<Rightarrow> string \<Rightarrow> 's \<Rightarrow> FeedMeta option result \<times> 's" where
  "cosmos_GetFeedMeta env cn c feedURL s =
     (case cnReadItem cn c feedURL metaID s of
        (Inl err, s1) \<Rightarrow>
          (if isStatus err 404 then (Inr None, s1)
           else (Inl (Errorf ''state/cosmosdb: ReadItem (meta): %w'' [FWrap (ceErr err)]), s1))
      | (Inr v, s1) \<Rightarrow> (case read_meta_doc env v of Inl err \<Rightarrow> (Inl err, s1) | Inr x \<Rightarrow> (Inr (Some x), s1)))"

definition cosmos_UpsertFeedMeta ::
    "doc_env \<Rightarrow> 's container \<Rightarrow> duration \<Rightarrow> ('s \<Rightarrow> time) \<Rightarrow> ctx \<Rightarrow> string \<Rightarrow> FeedMeta \<Rightarrow> 's \<Rightarrow> go_error option \<times> 's" where
  "cosmos_UpsertFeedMeta env cn itemTTL now c feedURL meta s =
     (case cnUpsertItem cn c feedURL (JObj (buildMetaDoc env itemTTL (now s) feedURL meta)) s of
        (Some err, s1) \<Rightarrow> (Some (Errorf ''state/cosmosdb: UpsertItem (meta): %w'' [FWrap (ceErr err)]), s1)
      | (None, s1) \<Rightarrow> (None, s1))"

definition cosmos_PruneFeedMetaBefore :: "ctx \<Rightarrow> time \<Rightarrow> 's \<Rightarrow> int \<times> go_error option \<times> 's" where
  "cosmos_PruneFeedMetaBefore c cutoff s = (0, None, s)"

definition cosmos_store :: "doc_env \<Rightarrow> ('s \<Rightarrow> time) \<Rightarrow> 's cosmos_state \<Rightarrow> 's Store" where
  "cosmos_store env now sto =
     \<lparr>GetItem = cosmos_GetItem env (csContainer sto),
      UpsertItem = cosmos_UpsertItem env (csContainer sto) (csItemTTL sto),
      PruneItemsBefore = cosmos_PruneItemsBefore, PruneFeedMetaBefore = cosmos_PruneFeedMetaBefore,
      GetFeedMeta = cosmos_GetFeedMeta env (csContainer sto),
      UpsertFeedMeta = cosmos_UpsertFeedMeta env (csContainer sto) (csItemTTL sto) now\<rparr>"

subsection \<open>What is relied on of the container\<close>

definition doc_fields :: "string set" where
  "doc_fields = {''id'', ''feed_url'', ''item_id'', ''content_hash'', ''last_seen_at'', ''etag'', ''last_modified'',
     ''updated_at'', ''ttl''}"

type_synonym 's docs = "'s \<Rightarrow> string \<times> string \<Rightarrow> fields option"

definition container_ok :: "'s container \<Rightarrow> 's docs \<Rightarrow> bool" where
  "container_ok cn view \<longleftrightarrow>
     (\<forall>c pk i s r s'. cnReadItem cn c pk i s = (r, s') \<longrightarrow>
        view s' = view s \<and>
        (\<forall>v. r = Inr v \<longrightarrow>
           (\<exists>fs sys. view s (pk, i) = Some fs \<and> v = JObj (fs @ sys) \<and> fst ` set sys \<inter> doc_fields = {})) \<and>
        (\<forall>e. r = Inl e \<and> ceStatus e = Some 404 \<longrightarrow> view s (pk, i) = None)) \<and>
     (\<forall>c pk i fs s r s'. map_of fs ''id'' = Some (JStr i) \<and> cnUpsertItem cn c pk (JObj fs) s = (r, s') \<longrightarrow>
        view s' = (view s)((pk, i) \<mapsto> fs) \<or> (r \<noteq> None \<and> view s' = view s))"

text \<open>What the container holds of the identifiers in \<open>I\<close>, and of the validators.\<close>

definition cosmos_items ::
    "doc_env \<Rightarrow> string set \<Rightarrow> 's docs \<Rightarrow> 's \<Rightarrow> string \<times> string \<Rightarrow> ItemState option" where
  "cosmos_items env I view s = (\<lambda>(u, i).
     if i \<notin> I then None
     else case view s (u, docID env i) of
       None \<Rightarrow> None
     | Some fs \<Rightarrow> (case read_item_doc env (JObj fs) of Inr v \<Rightarrow> Some v | Inl _ \<Rightarrow> None))"

definition cosmos_metas :: "doc_env \<Rightarrow> 's docs \<Rightarrow> 's \<Rightarrow> string \<Rightarrow> FeedMeta option" where
  "cosmos_metas env view s u =
     (case view s (u, metaID) of
        None \<Rightarrow> None
      | Some fs \<Rightarrow> (case read_meta_doc env (JObj fs) of Inr v \<Rightarrow> Some v | Inl _ \<Rightarrow> None))"

text \<open>The hash tells the identifiers in \<open>I\<close> apart, and from the reserved document id (which no hexadecimal
  hash is).\<close>

definition ids_apart :: "doc_env \<Rightarrow> string set \<Rightarrow> bool" where
  "ids_apart env I \<longleftrightarrow> inj_on (docID env) I \<and> metaID \<notin> docID env ` I"

subsection \<open>The store keeps the contract\<close>

lemma container_read:
  assumes "container_ok cn view" "cnReadItem cn c pk i s = (r, s')"
  shows "view s' = view s"
    and "r = Inr v \<Longrightarrow> \<exists>fs sys. view s (pk, i) = Some fs \<and> v = JObj (fs @ sys) \<and> fst ` set sys \<inter> doc_fields = {}"
    and "r = Inl e \<Longrightarrow> ceStatus e = Some 404 \<Longrightarrow> view s (pk, i) = None"
  using assms unfolding container_ok_def by blast+

lemma container_upsert:
  assumes "container_ok cn view" "cnUpsertItem cn c pk (JObj fs) s = (r, s')" "map_of fs ''id'' = Some (JStr i)"
  shows "view s' = (view s)((pk, i) \<mapsto> fs) \<or> (r \<noteq> None \<and> view s' = view s)"
  using assms unfolding container_ok_def by blast

text \<open>What the service adds to a document does not change how it is read.\<close>

lemma json_fields_sys:
  assumes "fst ` set sys \<inter> doc_fields = {}" "n \<in> doc_fields"
  shows "json_string (fs @ sys) n = json_string fs n" "json_int (fs @ sys) n = json_int fs n"
proof -
  have "map_of (fs @ sys) n = map_of fs n" using assms by (intro map_of_append_other) blast
  then show "json_string (fs @ sys) n = json_string fs n" "json_int (fs @ sys) n = json_int fs n"
    by (simp_all add: json_string_def json_int_def)
qed

lemma doc_fields_mem:
  "''id'' \<in> doc_fields" "''feed_url'' \<in> doc_fields" "''item_id'' \<in> doc_fields" "''content_hash'' \<in> doc_fields"
  "''last_seen_at'' \<in> doc_fields" "''etag'' \<in> doc_fields" "''last_modified'' \<in> doc_fields"
  "''updated_at'' \<in> doc_fields" "''ttl'' \<in> doc_fields"
  by (simp_all add: doc_fields_def)

lemma read_doc_sys:
  assumes "fst ` set sys \<inter> doc_fields = {}"
  shows "read_item_doc env (JObj (fs @ sys)) = Inr x \<longleftrightarrow> read_item_doc env (JObj fs) = Inr x"
    and "read_meta_doc env (JObj (fs @ sys)) = Inr y \<longleftrightarrow> read_meta_doc env (JObj fs) = Inr y"
  by (simp_all add: read_item_doc_def read_meta_doc_def typed_def json_fields_sys [OF assms] doc_fields_mem
      cong: sum.case_cong split: sum.split)

lemma read_buildItemDoc:
  "four_digit_year t \<Longrightarrow>
   read_item_doc env (JObj (buildItemDoc env ttl u i h t)) = Inr \<lparr>ContentHashS = h, LastSeenAt = t\<rparr>"
  by (simp add: read_item_doc_def typed_def buildItemDoc_def ttl_field_def json_string_def json_int_def
      parseTime_def time_Parse_Nano RFC3339Nano_nonempty Let_def)

lemma read_buildMetaDoc:
  "four_digit_year (LastModifiedM m) \<Longrightarrow>
   read_meta_doc env (JObj (buildMetaDoc env ttl now u m)) = Inr m"
  by (simp add: read_meta_doc_def typed_def buildMetaDoc_def ttl_field_def json_string_def json_int_def
      parseTime_def time_Parse_Nano RFC3339Nano_nonempty Let_def)

lemma cosmos_store_sel [simp]:
  "GetItem (cosmos_store env now sto) = cosmos_GetItem env (csContainer sto)"
  "UpsertItem (cosmos_store env now sto) = cosmos_UpsertItem env (csContainer sto) (csItemTTL sto)"
  "GetFeedMeta (cosmos_store env now sto) = cosmos_GetFeedMeta env (csContainer sto)"
  "UpsertFeedMeta (cosmos_store env now sto) = cosmos_UpsertFeedMeta env (csContainer sto) (csItemTTL sto) now"
  by (simp_all add: cosmos_store_def)

lemma doc_ids [simp]:
  "map_of (buildItemDoc env ttl u i h t) ''id'' = Some (JStr (docID env i))"
  "map_of (buildMetaDoc env ttl now u m) ''id'' = Some (JStr metaID)"
  by (simp_all add: buildItemDoc_def buildMetaDoc_def)

lemma cosmos_seen_store:
  assumes ok: "container_ok (csContainer sto) view" and apart: "ids_apart env I"
  shows "seen_store (cosmos_store env now sto) (\<lambda>_. True) (cosmos_items env I view) (cosmos_metas env view)
    (\<lambda>i. i \<in> I) four_digit_year (\<lambda>t. t)"
proof (unfold_locales, goal_cases)
  case (1 i s c u ri s')
  obtain r s1 where g: "cnReadItem (csContainer sto) c u (docID env i) s = (r, s1)" by fastforce
  note t = container_read [OF ok g]
  have "s' = s1" using 1(3) g by (auto simp: cosmos_GetItem_def split: sum.splits if_splits)
  moreover have "v = cosmos_items env I view s (u, i)" if v: "ri = Inr v" for v
  proof (cases r)
    case (Inl e)
    with 1(1,3) g v t(3) [OF Inl] show ?thesis
      by (auto simp: cosmos_GetItem_def cosmos_items_def isStatus_def split: if_splits)
  next
    case (Inr d)
    from t(2) [OF this] obtain fs sys where fs: "view s (u, docID env i) = Some fs" "d = JObj (fs @ sys)"
      "fst ` set sys \<inter> doc_fields = {}" by blast
    from 1(3) g v Inr obtain x where "read_item_doc env d = Inr x" "v = Some x"
      by (auto simp: cosmos_GetItem_def split: sum.splits)
    with fs read_doc_sys(1) [OF fs(3)] 1(1) show ?thesis by (auto simp: cosmos_items_def)
  qed
  ultimately show ?case using t(1) by (simp add: cosmos_items_def cosmos_metas_def fun_eq_iff)
next
  case (2 i t s c u h r s')
  obtain r1 s1 where p: "cnUpsertItem (csContainer sto) c u (JObj (buildItemDoc env (csItemTTL sto) u i h t)) s = (r1, s1)"
    by fastforce
  have eq: "s' = s1" "(r = None) = (r1 = None)" using 2(4) p by (auto simp: cosmos_UpsertItem_def split: option.splits)
  have "docID env j = docID env i \<Longrightarrow> j \<in> I \<Longrightarrow> j = i" "docID env i \<noteq> metaID" for j
    using apart 2(1) unfolding ids_apart_def inj_on_def by (blast, metis imageI)
  with container_upsert [OF ok p doc_ids(1)] eq 2(1,2) show ?case
    by (auto simp: cosmos_items_def cosmos_metas_def fun_eq_iff read_buildItemDoc)
next
  case (3 s c u rm s')
  obtain r s1 where g: "cnReadItem (csContainer sto) c u metaID s = (r, s1)" by fastforce
  note t = container_read [OF ok g]
  have "s' = s1" using 3(2) g by (auto simp: cosmos_GetFeedMeta_def split: sum.splits if_splits)
  moreover have "v = cosmos_metas env view s u" if v: "rm = Inr v" for v
  proof (cases r)
    case (Inl e)
    with 3(2) g v t(3) [OF Inl] show ?thesis
      by (auto simp: cosmos_GetFeedMeta_def cosmos_metas_def isStatus_def split: if_splits)
  next
    case (Inr d)
    from t(2) [OF this] obtain fs sys where fs: "view s (u, metaID) = Some fs" "d = JObj (fs @ sys)"
      "fst ` set sys \<inter> doc_fields = {}" by blast
    from 3(2) g v Inr obtain x where "read_meta_doc env d = Inr x" "v = Some x"
      by (auto simp: cosmos_GetFeedMeta_def split: sum.splits)
    with fs read_doc_sys(2) [OF fs(3)] show ?thesis by (auto simp: cosmos_metas_def)
  qed
  ultimately show ?case using t(1) by (simp add: cosmos_items_def cosmos_metas_def fun_eq_iff)
next
  case (4 m s c u r s')
  obtain r1 s1 where p: "cnUpsertItem (csContainer sto) c u (JObj (buildMetaDoc env (csItemTTL sto) (now s) u m)) s = (r1, s1)"
    by fastforce
  have eq: "s' = s1" "(r = None) = (r1 = None)" using 4(3) p by (auto simp: cosmos_UpsertFeedMeta_def split: option.splits)
  have "docID env j \<noteq> metaID" if "j \<in> I" for j using apart that unfolding ids_apart_def by (metis imageI)
  with container_upsert [OF ok p doc_ids(2)] eq 4(1) show ?case
    by (auto simp: cosmos_items_def cosmos_metas_def fun_eq_iff read_buildMetaDoc)
qed

subsection \<open>Properties\<close>

text \<open>Detection on Cosmos DB.  On a container that keeps what is relied on, and over identifiers that
  the hash tells apart, a feed is classified exactly as specified by what the container holds, and the
  container is not changed; and what an upsert recorded is what the next read returns, whatever the service
  added to the document, and whatever identifier the publisher chose.\<close>

theorem cosmos_store_remembers:
  assumes "container_ok (csContainer sto) view" "ids_apart env I"
  shows "(\<forall>c u g d s r s'. (\<forall>it\<in>set (Items g). item_id sha it \<in> I) \<longrightarrow>
            Detect sha (cosmos_store env now sto) c u (Some g) d s = (r, s') \<longrightarrow>
            cosmos_items env I view s' = cosmos_items env I view s \<and>
            (\<forall>v. r = Inr v \<longrightarrow> v = detect_spec sha (cosmos_items env I view s) u d (Some g))) \<and>
    (\<forall>c u i h t s s1 v s2. i \<in> I \<and> four_digit_year t \<longrightarrow>
            cosmos_UpsertItem env (csContainer sto) (csItemTTL sto) c u i h t s = (None, s1) \<longrightarrow>
            cosmos_GetItem env (csContainer sto) c u i s1 = (Inr v, s2) \<longrightarrow>
            v = Some \<lparr>ContentHashS = h, LastSeenAt = t\<rparr>)"
proof -
  note st = cosmos_seen_store [OF assms, of now]
  have "cosmos_items env I view s' = cosmos_items env I view s \<and>
            (\<forall>v. r = Inr v \<longrightarrow> v = detect_spec sha (cosmos_items env I view s) u d (Some g))"
    if "\<forall>it\<in>set (Items g). item_id sha it \<in> I" "Detect sha (cosmos_store env now sto) c u (Some g) d s = (r, s')"
    for c u g d s r s'
    using seen_store.Detect_refines [OF st _ TrueI that(2)] that(1) by simp
  moreover have "v = Some \<lparr>ContentHashS = h, LastSeenAt = t\<rparr>"
    if "i \<in> I" "four_digit_year t" "cosmos_UpsertItem env (csContainer sto) (csItemTTL sto) c u i h t s = (None, s1)"
      "cosmos_GetItem env (csContainer sto) c u i s1 = (Inr v, s2)" for c u i h t s s1 v s2
    using seen_store.get_after_upsert [OF st that(1,2) TrueI _ that(1), unfolded cosmos_store_sel, OF that(3,4)] by simp
  ultimately show ?thesis by blast
qed

text \<open>A container kept in a map, which stamps every document with its entity tag.\<close>

definition toy_container :: "(string \<times> string \<Rightarrow> fields option) container" where
  "toy_container = \<lparr>cnReadItem = (\<lambda>c pk i s. (case s (pk, i) of
        Some fs \<Rightarrow> Inr (JObj (fs @ [(''_etag'', JStr ''x'')]))
      | None \<Rightarrow> Inl \<lparr>ceStatus = Some 404, ceErr = Canceled\<rparr>, s)),
     cnUpsertItem = (\<lambda>c pk v s. case v of
        JObj fs \<Rightarrow> (case map_of fs ''id'' of Some (JStr i) \<Rightarrow> (None, s((pk, i) \<mapsto> fs)) | _ \<Rightarrow> (Some \<lparr>ceStatus = Some 400, ceErr = Canceled\<rparr>, s))
      | _ \<Rightarrow> (Some \<lparr>ceStatus = Some 400, ceErr = Canceled\<rparr>, s)),
     cnRead = (\<lambda>c s. (None, s))\<rparr>"

definition toy_env :: doc_env where
  "toy_env = \<lparr>deSha = (\<lambda>x. x), deSlow = (\<lambda>_. Inl Canceled), deUnmarshal = (\<lambda>_. Canceled), deSeconds = (\<lambda>d. d div second)\<rparr>"

lemma toy_container_ok: "container_ok toy_container (\<lambda>s. s)"
  by (auto simp: container_ok_def toy_container_def doc_fields_def split: option.splits)

theorem cosmos_store_remembers_witness:
  "cosmos_GetItem toy_env toy_container None ''u'' ''i''
      (snd (cosmos_UpsertItem toy_env toy_container hour None ''u'' ''i'' ''h'' 7 Map.empty)) =
   (Inr (Some \<lparr>ContentHashS = ''h'', LastSeenAt = 7\<rparr>), snd (cosmos_UpsertItem toy_env toy_container hour None ''u'' ''i'' ''h'' 7 Map.empty))"
proof -
  let ?s1 = "snd (cosmos_UpsertItem toy_env toy_container hour None ''u'' ''i'' ''h'' 7 Map.empty)"
  let ?sto = "\<lparr>csContainer = toy_container, csItemTTL = hour\<rparr>"
  have u: "cosmos_UpsertItem toy_env toy_container hour None ''u'' ''i'' ''h'' 7 Map.empty = (None, ?s1)"
    by (simp add: cosmos_UpsertItem_def toy_container_def)
  have ok: "four_digit_year 7" by (simp add: four_digit_year_def year_10000_def second_def)
  have ap: "ids_apart toy_env {''i''}" by (simp add: ids_apart_def docID_def toy_env_def metaID_def)
  have row: "?s1 (''u'', docID toy_env ''i'') = Some (buildItemDoc toy_env hour ''u'' ''i'' ''h'' 7)"
    by (simp add: cosmos_UpsertItem_def toy_container_def)
  have "fst ` set [(''_etag'', JStr ''x'')] \<inter> doc_fields = {}" by (simp add: doc_fields_def)
  from read_doc_sys(1) [OF this] have
    "read_item_doc toy_env (JObj (buildItemDoc toy_env hour ''u'' ''i'' ''h'' 7 @ [(''_etag'', JStr ''x'')])) =
       Inr \<lparr>ContentHashS = ''h'', LastSeenAt = 7\<rparr>" by (simp add: read_buildItemDoc [OF ok])
  with row obtain v where g: "cosmos_GetItem toy_env toy_container None ''u'' ''i'' ?s1 = (Inr v, ?s1)"
    by (simp add: cosmos_GetItem_def toy_container_def)
  with cosmos_store_remembers [of ?sto "\<lambda>s. s" toy_env "{''i''}" "\<lambda>x. x" "\<lambda>_. 0"] u ok ap toy_container_ok show ?thesis
    by fastforce
qed

end
