(* ===== verification/State_Postgres.thy ===== *)
theory State_Postgres
  imports Feed_Detect Pg_Pool
begin

section \<open>The state store in PostgreSQL (\<^verbatim>\<open>internal/state/postgres/postgres.go\<close>)\<close>

text \<open>
  The same two tables as in SQLite, in a database on a server.  A call can fail after its statement took
  effect.  \<open>stamp\<close> is what a \<^verbatim>\<open>TIMESTAMPTZ\<close> column gives back for a time that was put into it; what is
  relied on of it is \<open>stamp_ok\<close>.  \<open>now\<close> is the clock of the server.
\<close>

record pg_state_options =
  psoDSN :: string
  psoTLS :: "tls_options option"

definition schemaSQL :: string where
  "schemaSQL = ''CREATE TABLE IF NOT EXISTS seen_items, feed_meta''"

definition pg_migrate :: "('p, 's) pgx \<Rightarrow> ctx \<Rightarrow> 'p \<Rightarrow> 's \<Rightarrow> go_error option \<times> 's" where
  "pg_migrate px c pool s =
     (case pxExec px c pool schemaSQL s of
        (Some err, s1) \<Rightarrow> (Some (Errorf ''apply schema: %w'' [FWrap err]), s1)
      | (None, s1) \<Rightarrow> (None, s1))"

definition pg_state_config :: "('p, 's) pgx \<Rightarrow> tls_env \<Rightarrow> pg_state_options \<Rightarrow> pgx_config result" where
  "pg_state_config px env opts =
     (case pxParseConfig px (psoDSN opts) of
        Inl err \<Rightarrow> Inl (Errorf ''state/postgres: parse dsn: %w'' [FWrap err])
      | Inr cfg \<Rightarrow>
          (case psoTLS opts of
             None \<Rightarrow> Inr cfg
           | Some t \<Rightarrow>
               (case pg_state_buildTLSConfig env t (pxHost cfg) of
                  Inl err \<Rightarrow> Inl (Errorf ''state/postgres: build TLS config: %w'' [FWrap err])
                | Inr tc \<Rightarrow> Inr (force_tls cfg tc))))"

definition pg_state_New ::
    "('p, 's) pgx \<Rightarrow> tls_env \<Rightarrow> ctx \<Rightarrow> pg_state_options \<Rightarrow> 's \<Rightarrow> 'p result \<times> 's" where
  "pg_state_New px env c opts s =
     (case pg_state_config px env opts of
        Inl err \<Rightarrow> (Inl err, s)
      | Inr cfg \<Rightarrow>
          (case pxNewWithConfig px c cfg s of
             (Inl err, s1) \<Rightarrow> (Inl (Errorf ''state/postgres: pgxpool: %w'' [FWrap err]), s1)
           | (Inr pool, s1) \<Rightarrow>
               (case pg_migrate px c pool s1 of
                  (Some err, s2) \<Rightarrow> (Inl err, pxClose px pool s2)
                | (None, s2) \<Rightarrow> (Inr pool, s2))))"

definition pg_state_Close :: "('p, 's) pgx \<Rightarrow> 'p \<Rightarrow> 's \<Rightarrow> go_error option \<times> 's" where
  "pg_state_Close px pool s = (None, pxClose px pool s)"

subsection \<open>Operations\<close>

record 'z pg_faults =
  pfQuery :: "ctx \<Rightarrow> 'z sqlite_db_scheme \<Rightarrow> go_error option"
  pfExec :: "ctx \<Rightarrow> 'z sqlite_db_scheme \<Rightarrow> stmt_outcome"

definition pg_GetItem ::
    "'z pg_faults \<Rightarrow> ctx \<Rightarrow> string \<Rightarrow> string \<Rightarrow> 'z sqlite_db_scheme \<Rightarrow>
     ItemState option result \<times> 'z sqlite_db_scheme" where
  "pg_GetItem flt c feedURL itemID s =
     (case pfQuery flt c s of
        Some err \<Rightarrow> (Inl err, s)
      | None \<Rightarrow> (Inr (map_of (seen_items s) (feedURL, itemID)), s))"

definition pg_UpsertItem ::
    "'z pg_faults \<Rightarrow> (time \<Rightarrow> time) \<Rightarrow> ctx \<Rightarrow> string \<Rightarrow> string \<Rightarrow> string \<Rightarrow> time \<Rightarrow> 'z sqlite_db_scheme \<Rightarrow>
     go_error option \<times> 'z sqlite_db_scheme" where
  "pg_UpsertItem flt stamp c feedURL itemID hash seenAt s =
     run_stmt (pfExec flt c s)
       (\<lambda>s. s\<lparr>seen_items := upsert_row (feedURL, itemID)
                \<lparr>ContentHashS = hash, LastSeenAt = stamp seenAt\<rparr> (seen_items s)\<rparr>) s"

definition pg_PruneItemsBefore ::
    "'z pg_faults \<Rightarrow> (time \<Rightarrow> time) \<Rightarrow> ctx \<Rightarrow> time \<Rightarrow> 'z sqlite_db_scheme \<Rightarrow>
     int \<times> go_error option \<times> 'z sqlite_db_scheme" where
  "pg_PruneItemsBefore flt stamp c cutoff s =
     (let keep = filter (\<lambda>(k, v). \<not> LastSeenAt v < stamp cutoff) (seen_items s) in
      case run_stmt (pfExec flt c s) (\<lambda>s. s\<lparr>seen_items := keep\<rparr>) s of
        (Some err, s1) \<Rightarrow> (0, Some (Errorf ''state/postgres: prune: %w'' [FWrap err]), s1)
      | (None, s1) \<Rightarrow> (int (length (seen_items s) - length keep), None, s1))"

definition pg_PruneFeedMetaBefore ::
    "'z pg_faults \<Rightarrow> (time \<Rightarrow> time) \<Rightarrow> ctx \<Rightarrow> time \<Rightarrow> 'z sqlite_db_scheme \<Rightarrow>
     int \<times> go_error option \<times> 'z sqlite_db_scheme" where
  "pg_PruneFeedMetaBefore flt stamp c cutoff s =
     (let keep = filter (\<lambda>(u, m, t). \<not> t < stamp cutoff) (feed_meta s) in
      case run_stmt (pfExec flt c s) (\<lambda>s. s\<lparr>feed_meta := keep\<rparr>) s of
        (Some err, s1) \<Rightarrow> (0, Some (Errorf ''state/postgres: prune feed_meta: %w'' [FWrap err]), s1)
      | (None, s1) \<Rightarrow> (int (length (feed_meta s) - length keep), None, s1))"

text \<open>A zero \<^verbatim>\<open>LastModified\<close> is stored as NULL and read back as the zero time.\<close>

definition pg_GetFeedMeta ::
    "'z pg_faults \<Rightarrow> ctx \<Rightarrow> string \<Rightarrow> 'z sqlite_db_scheme \<Rightarrow> FeedMeta option result \<times> 'z sqlite_db_scheme" where
  "pg_GetFeedMeta flt c feedURL s =
     (case pfQuery flt c s of
        Some err \<Rightarrow> (Inl err, s)
      | None \<Rightarrow> (Inr (map_option fst (map_of (feed_meta s) feedURL)), s))"

definition pg_UpsertFeedMeta ::
    "'z pg_faults \<Rightarrow> (time \<Rightarrow> time) \<Rightarrow> ('z sqlite_db_scheme \<Rightarrow> time) \<Rightarrow> ctx \<Rightarrow> string \<Rightarrow> FeedMeta \<Rightarrow>
     'z sqlite_db_scheme \<Rightarrow> go_error option \<times> 'z sqlite_db_scheme" where
  "pg_UpsertFeedMeta flt stamp now c feedURL meta s =
     (let lm = (if LastModifiedM meta \<noteq> zero_time then stamp (LastModifiedM meta) else zero_time) in
      run_stmt (pfExec flt c s)
        (\<lambda>s. s\<lparr>feed_meta := upsert_row feedURL (\<lparr>ETagM = ETagM meta, LastModifiedM = lm\<rparr>, now s) (feed_meta s)\<rparr>) s)"

definition pg_store ::
    "'z pg_faults \<Rightarrow> (time \<Rightarrow> time) \<Rightarrow> ('z sqlite_db_scheme \<Rightarrow> time) \<Rightarrow> 'z sqlite_db_scheme Store" where
  "pg_store flt stamp now =
     \<lparr>GetItem = pg_GetItem flt, UpsertItem = pg_UpsertItem flt stamp,
      PruneItemsBefore = pg_PruneItemsBefore flt stamp, PruneFeedMetaBefore = pg_PruneFeedMetaBefore flt stamp,
      GetFeedMeta = pg_GetFeedMeta flt, UpsertFeedMeta = pg_UpsertFeedMeta flt stamp now\<rparr>"

text \<open>A column keeps the order of times and the zero time (truncation to a coarser grain does).\<close>

definition stamp_ok :: "(time \<Rightarrow> time) \<Rightarrow> bool" where
  "stamp_ok stamp \<longleftrightarrow> mono stamp \<and> stamp zero_time = zero_time"

subsection \<open>The store keeps the contract\<close>

lemma pg_store_sel [simp]:
  "GetItem (pg_store flt stamp now) = pg_GetItem flt"
  "UpsertItem (pg_store flt stamp now) = pg_UpsertItem flt stamp"
  "PruneItemsBefore (pg_store flt stamp now) = pg_PruneItemsBefore flt stamp"
  "PruneFeedMetaBefore (pg_store flt stamp now) = pg_PruneFeedMetaBefore flt stamp"
  "GetFeedMeta (pg_store flt stamp now) = pg_GetFeedMeta flt"
  "UpsertFeedMeta (pg_store flt stamp now) = pg_UpsertFeedMeta flt stamp now"
  by (simp_all add: pg_store_def)

lemmas pg_tables = sql_items_def sql_metas_def db_inv_def distinct_upsert_row map_of_filter_row
  distinct_filter_rows fun_eq_iff

lemma pg_pruning_store:
  assumes "stamp_ok stamp"
  shows "pruning_store (pg_store flt stamp now) db_inv sql_items sql_metas (\<lambda>_. True) (\<lambda>_. True) stamp
    (\<lambda>t cutoff. t < stamp cutoff)"
proof (unfold_locales, goal_cases)
  case (1 i s c u ri s')
  then show ?case by (auto simp: pg_GetItem_def sql_items_def split: option.splits)
next
  case (2 i t s c u h r s')
  from 2(4) [simplified, unfolded pg_UpsertItem_def] show ?case
    by (rule run_stmt_cases) (use 2(3) in \<open>auto simp: pg_tables\<close>)
next
  case (3 s c u rm s')
  then show ?case by (auto simp: pg_GetFeedMeta_def sql_metas_def split: option.splits)
next
  case (4 m s c u r s')
  from 4(3) [simplified, unfolded pg_UpsertFeedMeta_def Let_def] show ?case
    by (rule run_stmt_cases) (use 4(2) assms in \<open>auto simp: pg_tables stamp_ok_def\<close>)
next
  case (5 s c cutoff n r s')
  let ?keep = "filter (\<lambda>(k, v). \<not> LastSeenAt v < stamp cutoff) (seen_items s)"
  obtain e s1 where run: "run_stmt (pfExec flt c s) (\<lambda>s. s\<lparr>seen_items := ?keep\<rparr>) s = (e, s1)" by fastforce
  with 5(2) have eq: "s' = s1" "(r = None) = (e = None)"
    by (auto simp: pg_PruneItemsBefore_def Let_def split: option.splits)
  from run show ?case
    by (rule run_stmt_cases) (use 5(1) eq in \<open>auto simp: pg_tables split: option.splits\<close>)
next
  case (6 s c cutoff n r s')
  let ?keep = "filter (\<lambda>(u, m, t). \<not> t < stamp cutoff) (feed_meta s)"
  obtain e s1 where run: "run_stmt (pfExec flt c s) (\<lambda>s. s\<lparr>feed_meta := ?keep\<rparr>) s = (e, s1)" by fastforce
  with 6(2) have eq: "s' = s1"
    by (auto simp: pg_PruneFeedMetaBefore_def Let_def split: option.splits)
  from run show ?case
    by (rule run_stmt_cases) (use 6(1) eq in \<open>auto simp: pg_tables split: option.splits if_splits\<close>)
qed

lemma pg_sight_survives:
  assumes st: "stamp_ok stamp" and s: "db_inv s" and up: "pg_UpsertItem flt stamp c u i h t s = (None, s1)"
    and pr: "pg_PruneItemsBefore flt stamp c' cutoff s1 = (n, r, s2)" and le: "cutoff \<le> t"
    and get: "pg_GetItem flt c'' u i s2 = (Inr v, s3)"
  shows "v = Some \<lparr>ContentHashS = h, LastSeenAt = stamp t\<rparr>"
proof -
  note p = pg_pruning_store [OF st, of flt "\<lambda>_. 0"]
  have seen: "seen_store (pg_store flt stamp (\<lambda>_. 0)) db_inv sql_items sql_metas (\<lambda>_. True) (\<lambda>_. True) stamp"
    using p unfolding pruning_store_def by simp
  have 1: "db_inv s1" "sql_items s1 (u, i) = Some \<lparr>ContentHashS = h, LastSeenAt = stamp t\<rparr>"
    using seen_store.upsert_item [OF seen TrueI TrueI s, of c u i h t None s1] up by auto
  have "\<not> stamp t < stamp cutoff" using st le by (simp add: stamp_ok_def monoD leD)
  then have 2: "db_inv s2" "sql_items s2 (u, i) = Some \<lparr>ContentHashS = h, LastSeenAt = stamp t\<rparr>"
    using pruning_store.prune_items [OF p 1(1), of c' cutoff n r s2] pr 1(2) by auto
  show ?thesis using seen_store.get_item [OF seen TrueI 2(1), of c'' u i "Inr v" s3] get 2(2) by simp
qed

text \<open>Once the options ask for TLS, no plaintext fallback is left, and the client has a name to verify.\<close>

lemma pg_state_tls:
  assumes "pg_state_config px env opts = Inr cfg" "psoTLS opts \<noteq> None"
  shows "pxFallbacks cfg = [] \<and> (\<exists>tc. pxTLSConfig cfg = Some tc \<and> (pxHost cfg \<noteq> [] \<longrightarrow> tls_client_ok tc))"
  using assms
  by (auto simp: pg_state_config_def force_tls_def pg_state_buildTLSConfig_def intro: buildTLSConfig_client_ok
      split: sum.splits option.splits)

text \<open>A constructor that fails leaves no pool open.\<close>

lemma pg_state_New_no_leak:
  assumes "counts_pools n px" "pg_state_New px env c opts s = (r, s')"
  shows "n s' = (if isl r then n s else n s + 1)"
  using assms(2) counts_poolsD [OF assms(1)]
  by (auto simp: pg_state_New_def pg_migrate_def split: sum.splits prod.splits option.splits)

subsection \<open>Properties\<close>

text \<open>C18: detection on PostgreSQL.  In a database with its primary keys a feed is classified exactly as
  specified by what the tables hold, which stay as they are; and an item that was recorded as seen at a
  time is still there, with its hash and the stored time, after any prune (successful, failed, or failed
  after it took effect) whose cutoff is not later than that time, although times lose precision.\<close>

theorem postgres_store_remembers:
  assumes "stamp_ok stamp" "db_inv s"
  shows "(\<forall>c u g d r s'. Detect sha (pg_store flt stamp now) c u (Some g) d s = (r, s') \<longrightarrow>
            sql_items s' = sql_items s \<and>
            (\<forall>v. r = Inr v \<longrightarrow> v = detect_spec sha (sql_items s) u d (Some g))) \<and>
    (\<forall>c u i h t s1 c' cutoff n r s2 c'' v s3. pg_UpsertItem flt stamp c u i h t s = (None, s1) \<longrightarrow>
            cutoff \<le> t \<longrightarrow> pg_PruneItemsBefore flt stamp c' cutoff s1 = (n, r, s2) \<longrightarrow>
            pg_GetItem flt c'' u i s2 = (Inr v, s3) \<longrightarrow> v = Some \<lparr>ContentHashS = h, LastSeenAt = stamp t\<rparr>)"
proof -
  have seen: "seen_store (pg_store flt stamp now) db_inv sql_items sql_metas (\<lambda>_. True) (\<lambda>_. True) stamp"
    using pg_pruning_store [OF assms(1), of flt now] unfolding pruning_store_def by simp
  have "sql_items s' = sql_items s \<and> (\<forall>v. r = Inr v \<longrightarrow> v = detect_spec sha (sql_items s) u d (Some g))"
    if "Detect sha (pg_store flt stamp now) c u (Some g) d s = (r, s')" for c u g d r s'
    using seen_store.Detect_refines [OF seen _ assms(2) that] by simp
  moreover have "v = Some \<lparr>ContentHashS = h, LastSeenAt = stamp t\<rparr>"
    if "pg_UpsertItem flt stamp c u i h t s = (None, s1)" "cutoff \<le> t"
      "pg_PruneItemsBefore flt stamp c' cutoff s1 = (n, r, s2)" "pg_GetItem flt c'' u i s2 = (Inr v, s3)"
    for c u i h t s1 c' cutoff n r s2 c'' v s3
    using pg_sight_survives [OF assms that(1,3,2,4)] .
  ultimately show ?thesis by (intro conjI allI impI) blast+
qed

definition calm_pg :: "unit pg_faults" where
  "calm_pg = \<lparr>pfQuery = (\<lambda>_ _. None), pfExec = (\<lambda>_ _. StmtOK)\<rparr>"

definition micros :: "time \<Rightarrow> time" where "micros t = t div 1000 * 1000"

lemma micros_ok: "stamp_ok micros"
  by (auto simp: stamp_ok_def micros_def mono_def zdiv_mono1)

theorem postgres_store_remembers_witness:
  "pg_GetItem calm_pg None ''u'' ''i''
     (snd (snd (pg_PruneItemsBefore calm_pg micros None 1500
        (snd (pg_UpsertItem calm_pg micros None ''u'' ''i'' ''h'' 1700 \<lparr>seen_items = [], feed_meta = []\<rparr>))))) =
   (Inr (Some \<lparr>ContentHashS = ''h'', LastSeenAt = 1000\<rparr>),
     snd (snd (pg_PruneItemsBefore calm_pg micros None 1500
        (snd (pg_UpsertItem calm_pg micros None ''u'' ''i'' ''h'' 1700 \<lparr>seen_items = [], feed_meta = []\<rparr>)))))"
proof -
  let ?s1 = "snd (pg_UpsertItem calm_pg micros None ''u'' ''i'' ''h'' 1700 \<lparr>seen_items = [], feed_meta = []\<rparr>)"
  let ?p = "pg_PruneItemsBefore calm_pg micros None 1500 ?s1"
  have u: "pg_UpsertItem calm_pg micros None ''u'' ''i'' ''h'' 1700 \<lparr>seen_items = [], feed_meta = []\<rparr> = (None, ?s1)"
    by (simp add: pg_UpsertItem_def calm_pg_def run_stmt_def)
  obtain n r s2 where p: "?p = (n, r, s2)" by (metis prod.collapse)
  obtain v where g: "pg_GetItem calm_pg None ''u'' ''i'' s2 = (Inr v, s2)"
    by (simp add: pg_GetItem_def calm_pg_def)
  have "v = Some \<lparr>ContentHashS = ''h'', LastSeenAt = micros 1700\<rparr>"
    by (rule conjunct2 [OF postgres_store_remembers [OF micros_ok, where sha = "\<lambda>x. x" and now = "\<lambda>_. 0"],
          rule_format, OF _ u _ p g]) (simp_all add: db_inv_def)
  with p g show ?thesis by (simp add: micros_def)
qed

end
