(* ===== verification/Coord_CosmosDB.thy ===== *)
theory Coord_CosmosDB
  imports Cosmos_SDK Places
begin

section \<open>Leases in a Cosmos DB container (\<^verbatim>\<open>internal/coord/cosmosdb/cosmosdb.go\<close>)\<close>

text \<open>
  A lease is a document with its expiry; it is taken by creating the document, or, when it exists and is
  past its expiry, by replacing the version that was read, and given back by deleting the version that was
  written.  Taking a lease is thus up to three requests to the service and a local step, and releasing one a
  local step and a request; between them other instances and other loops of the same instance run.  The
  functions are written as sequences of phases, and the step relation \<open>lease_step\<close> interleaves the phases of
  all instances in every order.

  The container is reached through \<open>lease_container\<close>; \<open>etag_ok\<close> says what is relied on of it.  The expiry of
  a lease, which the source does not keep, is recorded for the statements.
\<close>

subsection \<open>The container\<close>

type_synonym etag = string

record 's lease_container =
  lcCreateItem :: "string \<Rightarrow> json \<Rightarrow> 's \<Rightarrow> (cosmos_error + etag) \<times> 's"
  lcReadItem :: "string \<Rightarrow> string \<Rightarrow> 's \<Rightarrow> (cosmos_error + json \<times> etag) \<times> 's"
  lcReplaceItem :: "string \<Rightarrow> string \<Rightarrow> json \<Rightarrow> etag \<Rightarrow> 's \<Rightarrow> (cosmos_error + etag) \<times> 's"
  lcDeleteItem :: "string \<Rightarrow> string \<Rightarrow> etag option \<Rightarrow> 's \<Rightarrow> cosmos_error option \<times> 's"

record leaseDoc =
  ldID :: string
  ldPK :: string
  ldOwner :: string
  ldLeaseExpiry :: int

definition marshalLease :: "string \<Rightarrow> string \<Rightarrow> time \<Rightarrow> fields" where
  "marshalLease key owner expiry =
     [(''id'', JStr key), (''pk'', JStr key), (''owner'', JStr owner), (''lease_expiry'', JInt (UnixMilli expiry))]"

text \<open>\<^verbatim>\<open>json.Unmarshal\<close> into \<^verbatim>\<open>leaseDoc\<close>; \<open>bad\<close> is its error on a value of other types.\<close>

definition read_lease :: "(json \<Rightarrow> go_error) \<Rightarrow> json \<Rightarrow> leaseDoc result" where
  "read_lease bad v =
     (case v of
        JObj fs \<Rightarrow>
          (case (json_string fs ''id'', json_string fs ''pk'', json_string fs ''owner'', json_int fs ''lease_expiry'') of
             (Some i, Some p, Some w, Some e) \<Rightarrow> Inr \<lparr>ldID = i, ldPK = p, ldOwner = w, ldLeaseExpiry = e\<rparr>
           | _ \<Rightarrow> Inl (bad v))
      | _ \<Rightarrow> Inl (bad v))"

subsection \<open>The coordinator\<close>

record clease =
  clId :: nat    \<comment> \<open>the pointer\<close>
  clKey :: string
  clOwner :: string
  clETag :: etag
  clExpiry :: int

record cosmos_coordinator =
  czOwner :: string
  czLeaseDuration :: duration
  czMemberTTL :: duration
  czHeld :: "clease list option"  \<comment> \<open>\<open>None\<close> after \<^verbatim>\<open>Close\<close>\<close>

record cosmos_coord_options =
  cqEndpoint :: string
  cqConnectionString :: string
  cqDatabase :: string
  cqContainer :: string
  cqCreateIfMissing :: bool
  cqThroughput :: int
  cqLeaseDuration :: duration
  cqMemberTTL :: duration
  cqOwner :: string

definition coord_defaultContainer :: string where "coord_defaultContainer = ''coordination_locks''"
definition coord_partitionKeyPath :: string where "coord_partitionKeyPath = ''/pk''"
definition cosmos_DefaultLeaseDuration :: duration where "cosmos_DefaultLeaseDuration = 60 * second"

text \<open>The parts of an owner token as text: the host name (absent when it cannot be read), the process id,
  the random bytes in hexadecimal (absent when they cannot be read), and the clock.\<close>

record owner_env =
  oeHostname :: "string option"
  oePid :: string
  oeRandom :: "string option"
  oeNanos :: string

definition newOwnerToken :: "owner_env \<Rightarrow> string" where
  "newOwnerToken env =
     (let host = (case oeHostname env of None \<Rightarrow> ''unknown'' | Some h \<Rightarrow> if h = [] then ''unknown'' else h) in
      case oeRandom env of
        None \<Rightarrow> host @ ''-'' @ oePid env @ ''-'' @ oeNanos env
      | Some b \<Rightarrow> host @ ''-'' @ oePid env @ ''-'' @ b)"

definition newWithContainer :: "owner_env \<Rightarrow> cosmos_coord_options \<Rightarrow> cosmos_coordinator" where
  "newWithContainer env opts =
     \<lparr>czOwner = (if cqOwner opts = [] then newOwnerToken env else cqOwner opts),
      czLeaseDuration = (if cqLeaseDuration opts \<le> 0 then cosmos_DefaultLeaseDuration else cqLeaseDuration opts),
      czMemberTTL = cqMemberTTL opts, czHeld = Some []\<rparr>"

definition coord_newClient ::
    "('c, 's) cosmos_sdk \<Rightarrow> cosmos_coord_options \<Rightarrow> ('c, 's) cosmos_client result" where
  "coord_newClient sdk opts =
     (if cqConnectionString opts \<noteq> []
      then (case skFromConnectionString sdk (cqConnectionString opts) of
              Inl err \<Rightarrow> Inl (Errorf ''coord/cosmosdb: client from connection string: %w'' [FWrap err])
            | Inr cl \<Rightarrow> Inr cl)
      else case skCredential sdk of
        Some err \<Rightarrow> Inl (Errorf ''coord/cosmosdb: default azure credential: %w'' [FWrap err])
      | None \<Rightarrow>
          (case skFromEndpoint sdk (cqEndpoint opts) of
             Inl err \<Rightarrow> Inl (Errorf ''coord/cosmosdb: client for endpoint %q: %w'' [FStr (cqEndpoint opts), FWrap err])
           | Inr cl \<Rightarrow> Inr cl))"

definition coord_provision ::
    "('c, 's) cosmos_client \<Rightarrow> ctx \<Rightarrow> string \<Rightarrow> string \<Rightarrow> int \<Rightarrow> 's \<Rightarrow> go_error option \<times> 's" where
  "coord_provision cl c database cont throughput s =
     (let fatal = (\<lambda>e. case e of Some err \<Rightarrow> \<not> isStatus err 409 | None \<Rightarrow> False) in
      case ccCreateDatabase cl c database s of
        (e1, s1) \<Rightarrow>
          if fatal e1 then (Some (Errorf ''create database %q: %w'' [FStr database, FWrap (ceErr (the e1))]), s1)
          else case ccNewDatabase cl database of
            Some err \<Rightarrow> (Some (Errorf ''database handle %q: %w'' [FStr database, FWrap err]), s1)
          | None \<Rightarrow>
              let props = \<lparr>cpID = cont, cpPartitionKeyPath = coord_partitionKeyPath, cpDefaultTimeToLive = None,
                           cpThroughput = (if throughput > 0 then Some throughput else None)\<rparr> in
              case ccCreateContainer cl c database props s1 of
                (e2, s2) \<Rightarrow>
                  if fatal e2 then (Some (Errorf ''create container %q: %w'' [FStr cont, FWrap (ceErr (the e2))]), s2)
                  else (None, s2))"

definition cosmos_coord_New ::
    "('c, 's) cosmos_sdk \<Rightarrow> owner_env \<Rightarrow> ctx \<Rightarrow> cosmos_coord_options \<Rightarrow> 's \<Rightarrow>
     ('c \<times> cosmos_coordinator) result \<times> 's" where
  "cosmos_coord_New sdk env c opts s =
     (let hasEndpoint = (cqEndpoint opts \<noteq> []); hasConn = (cqConnectionString opts \<noteq> []) in
      if \<not> hasEndpoint \<and> \<not> hasConn
      then (Inl (Errorf ''coord/cosmosdb: one of endpoint or connection_string is required'' []), s)
      else if hasEndpoint \<and> hasConn
      then (Inl (Errorf ''coord/cosmosdb: endpoint and connection_string are mutually exclusive'' []), s)
      else if cqDatabase opts = [] then (Inl (Errorf ''coord/cosmosdb: database is required'' []), s)
      else
        let cont = (if cqContainer opts = [] then coord_defaultContainer else cqContainer opts) in
        case coord_newClient sdk opts of
          Inl err \<Rightarrow> (Inl err, s)
        | Inr cl \<Rightarrow>
            (case (if cqCreateIfMissing opts
                   then coord_provision cl c (cqDatabase opts) cont (cqThroughput opts) s else (None, s)) of
               (Some err, s1) \<Rightarrow> (Inl (Errorf ''coord/cosmosdb: %w'' [FWrap err]), s1)
             | (None, s1) \<Rightarrow>
                 (case ccNewContainer cl (cqDatabase opts) cont of
                    Inl err \<Rightarrow> (Inl (Errorf ''coord/cosmosdb: container handle: %w'' [FWrap err]), s1)
                  | Inr cc \<Rightarrow> (Inr (cc, newWithContainer env opts), s1))))"

definition cosmos_lockKey :: "(string \<Rightarrow> string) \<Rightarrow> string \<Rightarrow> string" where
  "cosmos_lockKey sha256hex feedURL = ''rss2msg:coord:'' @ sha256hex feedURL"

subsection \<open>Phases\<close>

text \<open>A phase answers the caller or goes on.\<close>

datatype 'a phase = Answer "clease option result" | Go 'a

definition cosmos_conditionalDelete :: "'s lease_container \<Rightarrow> clease \<Rightarrow> 's \<Rightarrow> go_error option \<times> 's" where
  "cosmos_conditionalDelete cn l s =
     (case lcDeleteItem cn (clKey l) (clKey l) (Some (clETag l)) s of
        (None, s1) \<Rightarrow> (None, s1)
      | (Some err, s1) \<Rightarrow>
          if isStatus err 412 \<or> isStatus err 404 then (None, s1)
          else (Some (Errorf ''coord/cosmosdb: DeleteItem: %w'' [FWrap (ceErr err)]), s1))"

text \<open>\<open>n\<close> is the next pointer.\<close>

definition new_lease :: "cosmos_coordinator \<Rightarrow> nat \<Rightarrow> string \<Rightarrow> time \<Rightarrow> etag \<Rightarrow> clease" where
  "new_lease c n key now etag =
     \<lparr>clId = n, clKey = key, clOwner = czOwner c, clETag = etag, clExpiry = UnixMilli (now + czLeaseDuration c)\<rparr>"

definition create_phase ::
    "'s lease_container \<Rightarrow> cosmos_coordinator \<Rightarrow> nat \<Rightarrow> string \<Rightarrow> time \<Rightarrow> 's \<Rightarrow> clease option phase \<times> 's" where
  "create_phase cn c n key now s =
     (case lcCreateItem cn key (JObj (marshalLease key (czOwner c) (now + czLeaseDuration c))) s of
        (Inl err, s1) \<Rightarrow>
          (if \<not> isStatus err 409 then (Answer (Inl (Errorf ''coord/cosmosdb: CreateItem: %w'' [FWrap (ceErr err)])), s1)
           else (Go None, s1))
      | (Inr etag, s1) \<Rightarrow> (Go (Some (new_lease c n key now etag)), s1))"

definition read_phase ::
    "'s lease_container \<Rightarrow> (json \<Rightarrow> go_error) \<Rightarrow> string \<Rightarrow> time \<Rightarrow> 's \<Rightarrow> etag phase \<times> 's" where
  "read_phase cn bad key now s =
     (case lcReadItem cn key key s of
        (Inl err, s1) \<Rightarrow>
          (if isStatus err 404 then (Answer (Inr None), s1)
           else (Answer (Inl (Errorf ''coord/cosmosdb: ReadItem: %w'' [FWrap (ceErr err)])), s1))
      | (Inr (v, etag), s1) \<Rightarrow>
          (case read_lease bad v of
             Inl err \<Rightarrow> (Answer (Inl (Errorf ''coord/cosmosdb: unmarshal lease: %w'' [FWrap err])), s1)
           | Inr cur \<Rightarrow>
               if ldLeaseExpiry cur > UnixMilli now then (Answer (Inr None), s1) else (Go etag, s1)))"

definition replace_phase ::
    "'s lease_container \<Rightarrow> cosmos_coordinator \<Rightarrow> nat \<Rightarrow> string \<Rightarrow> time \<Rightarrow> etag \<Rightarrow> 's \<Rightarrow> clease phase \<times> 's" where
  "replace_phase cn c n key now etag s =
     (case lcReplaceItem cn key key (JObj (marshalLease key (czOwner c) (now + czLeaseDuration c))) etag s of
        (Inl err, s1) \<Rightarrow>
          (if isStatus err 412 \<or> isStatus err 404 then (Answer (Inr None), s1)
           else (Answer (Inl (Errorf ''coord/cosmosdb: ReplaceItem: %w'' [FWrap (ceErr err)])), s1))
      | (Inr etag', s1) \<Rightarrow> (Go (new_lease c n key now etag'), s1))"

text \<open>The local step under the mutex: the lease is recorded, or, when the coordinator is closed, to be
  deleted.\<close>

definition record_phase :: "clease \<Rightarrow> cosmos_coordinator \<Rightarrow> clease option phase \<times> cosmos_coordinator" where
  "record_phase l c =
     (case czHeld c of
        None \<Rightarrow> (Go (Some l), c)
      | Some held \<Rightarrow> (Answer (Inr (Some l)), c\<lparr>czHeld := Some (l # held)\<rparr>))"

subsection \<open>Operations\<close>

definition recordHeld ::
    "'s lease_container \<Rightarrow> clease \<Rightarrow> cosmos_coordinator \<Rightarrow> 's \<Rightarrow> clease option result \<times> cosmos_coordinator \<times> 's" where
  "recordHeld cn l c s =
     (case record_phase l c of
        (Answer r, c1) \<Rightarrow> (r, c1, s)
      | (Go _, c1) \<Rightarrow> (Inr None, c1, snd (cosmos_conditionalDelete cn l s)))"

definition tryReclaim ::
    "'s lease_container \<Rightarrow> (json \<Rightarrow> go_error) \<Rightarrow> nat \<Rightarrow> string \<Rightarrow> time \<Rightarrow> cosmos_coordinator \<Rightarrow> 's \<Rightarrow>
     clease option result \<times> cosmos_coordinator \<times> 's" where
  "tryReclaim cn bad n key now c s =
     (case read_phase cn bad key now s of
        (Answer r, s1) \<Rightarrow> (r, c, s1)
      | (Go etag, s1) \<Rightarrow>
          (case replace_phase cn c n key now etag s1 of
             (Answer r, s2) \<Rightarrow> (r, c, s2)
           | (Go l, s2) \<Rightarrow> recordHeld cn l c s2))"

definition cosmos_TryAcquire ::
    "'s lease_container \<Rightarrow> (json \<Rightarrow> go_error) \<Rightarrow> (string \<Rightarrow> string) \<Rightarrow> nat \<Rightarrow> time \<Rightarrow> string \<Rightarrow> cosmos_coordinator \<Rightarrow>
     's \<Rightarrow> clease option result \<times> cosmos_coordinator \<times> 's" where
  "cosmos_TryAcquire cn bad sha n now feedURL c s =
     (let key = cosmos_lockKey sha feedURL in
      case create_phase cn c n key now s of
        (Answer r, s1) \<Rightarrow> (r, c, s1)
      | (Go None, s1) \<Rightarrow> tryReclaim cn bad n key now c s1
      | (Go (Some l), s1) \<Rightarrow> recordHeld cn l c s1)"

text \<open>Releasing: forgotten under the mutex, then deleted.\<close>

definition forget_phase :: "clease \<Rightarrow> cosmos_coordinator \<Rightarrow> clease option \<times> cosmos_coordinator" where
  "forget_phase l c =
     (case czHeld c of
        None \<Rightarrow> (None, c)
      | Some held \<Rightarrow> if l \<notin> set held then (None, c) else (Some l, c\<lparr>czHeld := Some (removeAll l held)\<rparr>))"

definition cosmos_release ::
    "'s lease_container \<Rightarrow> clease \<Rightarrow> cosmos_coordinator \<Rightarrow> 's \<Rightarrow> go_error option \<times> cosmos_coordinator \<times> 's" where
  "cosmos_release cn l c s =
     (case forget_phase l c of
        (None, c1) \<Rightarrow> (None, c1, s)
      | (Some l, c1) \<Rightarrow> (case cosmos_conditionalDelete cn l s of (err, s1) \<Rightarrow> (err, c1, s1)))"

definition close_phase :: "cosmos_coordinator \<Rightarrow> clease list \<times> cosmos_coordinator" where
  "close_phase c = (case czHeld c of None \<Rightarrow> ([], c) | Some held \<Rightarrow> (held, c\<lparr>czHeld := None\<rparr>))"

text \<open>\<open>order\<close> is the order in which the map of held leases is visited.\<close>

definition cosmos_Close ::
    "'s lease_container \<Rightarrow> (clease list \<Rightarrow> clease list) \<Rightarrow> cosmos_coordinator \<Rightarrow> 's \<Rightarrow> cosmos_coordinator \<times> 's" where
  "cosmos_Close cn order c s =
     (case close_phase c of
        (held, c1) \<Rightarrow> (c1, fold (\<lambda>l s. snd (cosmos_conditionalDelete cn l s)) (order held) s))"

subsection \<open>A fleet\<close>

text \<open>
  Process \<open>k\<close> of instance \<open>i\<close> is one goroutine; its program counter says between which phases it is.  A
  process starts an acquisition with a reading of the clock that is late or right, never ahead.  A crash
  loses every process and every held lease of an instance, which comes back empty.
\<close>

datatype pc =
    Idle
  | Reading string time
  | Replacing string time etag
  | Recording clease
  | Deleting "clease list"

definition deleting :: "clease list \<Rightarrow> pc" where
  "deleting ls = (if ls = [] then Idle else Deleting ls)"

fun after_create :: "string \<Rightarrow> time \<Rightarrow> clease option phase \<Rightarrow> pc" where
  "after_create key now (Answer r) = Idle"
| "after_create key now (Go None) = Reading key now"
| "after_create key now (Go (Some l)) = Recording l"

fun after_read :: "string \<Rightarrow> time \<Rightarrow> etag phase \<Rightarrow> pc" where
  "after_read key now (Answer r) = Idle"
| "after_read key now (Go etag) = Replacing key now etag"

fun after_replace :: "clease phase \<Rightarrow> pc" where
  "after_replace (Answer r) = Idle"
| "after_replace (Go l) = Recording l"

fun after_record :: "clease option phase \<Rightarrow> pc" where
  "after_record (Go (Some l)) = Deleting [l]"
| "after_record _ = Idle"

record 's lease_fleet =
  lfNow :: time
  lfWorld :: 's
  lfNodes :: "nat \<Rightarrow> cosmos_coordinator"
  lfPC :: "nat \<Rightarrow> nat \<Rightarrow> pc"
  lfNext :: nat

definition jump :: "'s lease_fleet \<Rightarrow> nat \<Rightarrow> nat \<Rightarrow> pc \<Rightarrow> 's \<Rightarrow> cosmos_coordinator \<Rightarrow> 's lease_fleet" where
  "jump f i k p s c = f\<lparr>lfWorld := s, lfNodes := (lfNodes f)(i := c), lfPC := (lfPC f)(i := (lfPC f i)(k := p)),
     lfNext := Suc (lfNext f)\<rparr>"

inductive lease_step ::
    "'s lease_container \<Rightarrow> (json \<Rightarrow> go_error) \<Rightarrow> (string \<Rightarrow> string) \<Rightarrow> 's lease_fleet \<Rightarrow> 's lease_fleet \<Rightarrow> bool"
  for cn :: "'s lease_container" and bad :: "json \<Rightarrow> go_error" and sha :: "string \<Rightarrow> string" where
  pass: "0 \<le> d \<Longrightarrow> lease_step cn bad sha f (f\<lparr>lfNow := lfNow f + d\<rparr>)"
| create: "lfPC f i k = Idle \<Longrightarrow> now \<le> lfNow f \<Longrightarrow>
    create_phase cn (lfNodes f i) (lfNext f) (cosmos_lockKey sha u) now (lfWorld f) = (p, s) \<Longrightarrow>
    lease_step cn bad sha f (jump f i k (after_create (cosmos_lockKey sha u) now p) s (lfNodes f i))"
| read: "lfPC f i k = Reading key now \<Longrightarrow> read_phase cn bad key now (lfWorld f) = (q, s) \<Longrightarrow>
    lease_step cn bad sha f (jump f i k (after_read key now q) s (lfNodes f i))"
| replace: "lfPC f i k = Replacing key now etag \<Longrightarrow>
    replace_phase cn (lfNodes f i) (lfNext f) key now etag (lfWorld f) = (r, s) \<Longrightarrow>
    lease_step cn bad sha f (jump f i k (after_replace r) s (lfNodes f i))"
| recorded: "lfPC f i k = Recording l \<Longrightarrow> record_phase l (lfNodes f i) = (p, c) \<Longrightarrow>
    lease_step cn bad sha f (jump f i k (after_record p) (lfWorld f) c)"
| release: "lfPC f i k = Idle \<Longrightarrow> forget_phase l (lfNodes f i) = (Some l, c) \<Longrightarrow>
    lease_step cn bad sha f (jump f i k (Deleting [l]) (lfWorld f) c)"
| close: "lfPC f i k = Idle \<Longrightarrow> close_phase (lfNodes f i) = (held, c) \<Longrightarrow> set ls = set held \<Longrightarrow>
    lease_step cn bad sha f (jump f i k (deleting ls) (lfWorld f) c)"
| delete: "lfPC f i k = Deleting (l # ls) \<Longrightarrow> cosmos_conditionalDelete cn l (lfWorld f) = (err, s) \<Longrightarrow>
    lease_step cn bad sha f (jump f i k (deleting ls) s (lfNodes f i))"
| crash: "czHeld c = Some [] \<Longrightarrow>
    lease_step cn bad sha f (f\<lparr>lfNodes := (lfNodes f)(i := c), lfPC := (lfPC f)(i := (\<lambda>_. Idle))\<rparr>)"

subsection \<open>What is relied on of the container\<close>

text \<open>
  \<open>view\<close> is the document of a partition key and id with the entity tag of its version, \<open>used\<close> the tags given
  out so far.  A write that reports success found its condition true, and its version has a tag that was
  never given out; one that reports an error had no effect, or took effect because its condition held.
\<close>

type_synonym 's versions = "'s \<Rightarrow> string \<times> string \<Rightarrow> (fields \<times> etag) option"

definition same_docs :: "'s versions \<Rightarrow> ('s \<Rightarrow> etag set) \<Rightarrow> 's \<Rightarrow> 's \<Rightarrow> bool" where
  "same_docs view used s s' \<longleftrightarrow> view s' = view s \<and> used s' = used s"

definition put_doc :: "'s versions \<Rightarrow> ('s \<Rightarrow> etag set) \<Rightarrow> string \<times> string \<Rightarrow> fields \<Rightarrow> etag \<Rightarrow> 's \<Rightarrow> 's \<Rightarrow> bool" where
  "put_doc view used k fs e s s' \<longleftrightarrow> e \<notin> used s \<and> view s' = (view s)(k \<mapsto> (fs, e)) \<and> used s' = insert e (used s)"

definition lease_fields :: "string set" where
  "lease_fields = {''id'', ''pk'', ''owner'', ''lease_expiry''}"

definition create_ok :: "'s lease_container \<Rightarrow> 's versions \<Rightarrow> ('s \<Rightarrow> etag set) \<Rightarrow> bool" where
  "create_ok cn view used \<longleftrightarrow>
     (\<forall>pk i fs s r s'. map_of fs ''id'' = Some (JStr i) \<and> lcCreateItem cn pk (JObj fs) s = (r, s') \<longrightarrow>
        (\<exists>e. view s (pk, i) = None \<and> put_doc view used (pk, i) fs e s s' \<and> (\<forall>x. r = Inr x \<longrightarrow> x = e)) \<or>
        (isl r \<and> same_docs view used s s'))"

definition read_ok :: "'s lease_container \<Rightarrow> 's versions \<Rightarrow> ('s \<Rightarrow> etag set) \<Rightarrow> bool" where
  "read_ok cn view used \<longleftrightarrow>
     (\<forall>pk i s r s'. lcReadItem cn pk i s = (r, s') \<longrightarrow> same_docs view used s s' \<and>
        (\<forall>v e. r = Inr (v, e) \<longrightarrow>
           (\<exists>fs sys. view s (pk, i) = Some (fs, e) \<and> v = JObj (fs @ sys) \<and> fst ` set sys \<inter> lease_fields = {})))"

definition replace_ok :: "'s lease_container \<Rightarrow> 's versions \<Rightarrow> ('s \<Rightarrow> etag set) \<Rightarrow> bool" where
  "replace_ok cn view used \<longleftrightarrow>
     (\<forall>pk i fs e s r s'. lcReplaceItem cn pk i (JObj fs) e s = (r, s') \<longrightarrow>
        (\<exists>old e'. view s (pk, i) = Some (old, e) \<and> put_doc view used (pk, i) fs e' s s' \<and> (\<forall>x. r = Inr x \<longrightarrow> x = e')) \<or>
        (isl r \<and> same_docs view used s s'))"

definition delete_ok :: "'s lease_container \<Rightarrow> 's versions \<Rightarrow> ('s \<Rightarrow> etag set) \<Rightarrow> bool" where
  "delete_ok cn view used \<longleftrightarrow>
     (\<forall>pk i e s r s'. lcDeleteItem cn pk i (Some e) s = (r, s') \<longrightarrow>
        (\<exists>old. view s (pk, i) = Some (old, e) \<and> view s' = (view s)((pk, i) := None) \<and> used s' = used s) \<or>
        (r \<noteq> None \<and> same_docs view used s s'))"

definition etag_ok :: "'s lease_container \<Rightarrow> 's versions \<Rightarrow> ('s \<Rightarrow> etag set) \<Rightarrow> bool" where
  "etag_ok cn view used \<longleftrightarrow> create_ok cn view used \<and> read_ok cn view used \<and> replace_ok cn view used \<and> delete_ok cn view used"

subsection \<open>Where a lease is\<close>

definition held_leases :: "cosmos_coordinator \<Rightarrow> clease set" where
  "held_leases c = (case czHeld c of None \<Rightarrow> {} | Some held \<Rightarrow> set held)"

fun leases_at :: "'s lease_fleet \<Rightarrow> place \<Rightarrow> clease set" where
  "leases_at f (HeldAt i) = held_leases (lfNodes f i)"
| "leases_at f (RecordedAt i k) = (case lfPC f i k of Recording l \<Rightarrow> {l} | _ \<Rightarrow> {})"
| "leases_at f (DeletedAt i k) = (case lfPC f i k of Deleting ls \<Rightarrow> set ls | _ \<Rightarrow> {})"

subsection \<open>The invariant\<close>

text \<open>A lease that has not expired is the current version of its document; a process that is about to
  replace a version read it expired.\<close>

definition row_for :: "'s versions \<Rightarrow> 's \<Rightarrow> clease \<Rightarrow> bool" where
  "row_for view s l \<longleftrightarrow>
     (\<exists>fs. view s (clKey l, clKey l) = Some (fs, clETag l) \<and> json_int fs ''lease_expiry'' = Some (clExpiry l))"

definition pc_ok :: "'s versions \<Rightarrow> ('s \<Rightarrow> etag set) \<Rightarrow> time \<Rightarrow> 's \<Rightarrow> pc \<Rightarrow> bool" where
  "pc_ok view used now s p =
     (case p of
        Reading key t \<Rightarrow> t \<le> now
      | Replacing key t e \<Rightarrow> t \<le> now \<and> e \<in> used s \<and>
          (\<forall>fs. view s (key, key) = Some (fs, e) \<longrightarrow> (\<exists>x\<le>UnixMilli t. json_int fs ''lease_expiry'' = Some x))
      | _ \<Rightarrow> True)"

definition live_rows :: "'s versions \<Rightarrow> 's lease_fleet \<Rightarrow> bool" where
  "live_rows view f \<longleftrightarrow>
     (\<forall>p l. winner p \<and> l \<in> leases_at f p \<and> UnixMilli (lfNow f) < clExpiry l \<longrightarrow> row_for view (lfWorld f) l)"

definition tags_used :: "'s versions \<Rightarrow> ('s \<Rightarrow> etag set) \<Rightarrow> 's lease_fleet \<Rightarrow> bool" where
  "tags_used view used f \<longleftrightarrow>
     (\<forall>k fs e. view (lfWorld f) k = Some (fs, e) \<longrightarrow> e \<in> used (lfWorld f)) \<and>
     (\<forall>p. \<forall>l\<in>leases_at f p. clETag l \<in> used (lfWorld f))"

definition lease_inv :: "'s versions \<Rightarrow> ('s \<Rightarrow> etag set) \<Rightarrow> 's lease_fleet \<Rightarrow> bool" where
  "lease_inv view used f \<longleftrightarrow> one_place clETag (leases_at f) \<and> tags_used view used f \<and> live_rows view f \<and>
     (\<forall>i k. pc_ok view used (lfNow f) (lfWorld f) (lfPC f i k))"

lemma leases_at_world [simp]: "leases_at (f\<lparr>lfWorld := s\<rparr>) = leases_at f"
proof
  show "leases_at (f\<lparr>lfWorld := s\<rparr>) p = leases_at f p" for p by (cases p) simp_all
qed

text \<open>The three ways in which the container changes.\<close>

lemma pc_ok_mono:
  assumes "pc_ok view used now s p" "used s \<subseteq> used s'"
    and "\<And>k fs e. e \<in> used s \<Longrightarrow> view s' k = Some (fs, e) \<Longrightarrow> view s k = Some (fs, e)"
  shows "pc_ok view used now s' p"
  using assms by (cases p) (auto simp: pc_ok_def)

lemma inv_same:
  assumes "lease_inv view used f" "same_docs view used (lfWorld f) s"
  shows "lease_inv view used (f\<lparr>lfWorld := s\<rparr>)"
proof -
  from assms(2) have v: "view s = view (lfWorld f)" "used s = used (lfWorld f)" by (simp_all add: same_docs_def)
  have "pc_ok view used (lfNow f) s (lfPC f i j)" for i j
    by (rule pc_ok_mono [where s = "lfWorld f"]) (use assms(1) in \<open>simp_all add: lease_inv_def v\<close>)
  moreover have "live_rows view (f\<lparr>lfWorld := s\<rparr>)"
    using assms(1) unfolding lease_inv_def live_rows_def row_for_def by (auto simp: v(1))
  ultimately show ?thesis using assms(1) by (simp add: lease_inv_def tags_used_def v)
qed

lemma inv_put:
  assumes inv: "lease_inv view used f" and put: "put_doc view used k fs e (lfWorld f) s"
    and free: "\<And>p l. winner p \<Longrightarrow> l \<in> leases_at f p \<Longrightarrow> UnixMilli (lfNow f) < clExpiry l \<Longrightarrow> (clKey l, clKey l) \<noteq> k"
  shows "lease_inv view used (f\<lparr>lfWorld := s\<rparr>)"
proof -
  from put have v: "view s = (view (lfWorld f))(k \<mapsto> (fs, e))" "used s = insert e (used (lfWorld f))" "e \<notin> used (lfWorld f)"
    by (simp_all add: put_doc_def)
  have "pc_ok view used (lfNow f) s (lfPC f i j)" for i j
    by (rule pc_ok_mono [where s = "lfWorld f"]) (use inv v in \<open>auto simp: lease_inv_def split: if_splits\<close>)
  moreover have "live_rows view (f\<lparr>lfWorld := s\<rparr>)"
    using inv free unfolding lease_inv_def live_rows_def by (auto simp: row_for_def v(1))
  moreover have "tags_used view used (f\<lparr>lfWorld := s\<rparr>)"
    using inv by (auto simp: lease_inv_def tags_used_def v split: if_splits)
  ultimately show ?thesis using inv by (simp add: lease_inv_def)
qed

lemma inv_delete:
  assumes inv: "lease_inv view used f"
    and del: "view s = (view (lfWorld f))(k := None)" "used s = used (lfWorld f)" "view (lfWorld f) k = Some (old, e)"
    and other: "\<And>p l. winner p \<Longrightarrow> l \<in> leases_at f p \<Longrightarrow> clETag l \<noteq> e"
  shows "lease_inv view used (f\<lparr>lfWorld := s\<rparr>)"
proof -
  have "pc_ok view used (lfNow f) s (lfPC f i j)" for i j
    by (rule pc_ok_mono [where s = "lfWorld f"]) (use inv del in \<open>auto simp: lease_inv_def split: if_splits\<close>)
  moreover have "live_rows view (f\<lparr>lfWorld := s\<rparr>)"
    unfolding live_rows_def
  proof (intro allI impI)
    fix p l
    assume a: "winner p \<and> l \<in> leases_at (f\<lparr>lfWorld := s\<rparr>) p \<and> UnixMilli (lfNow (f\<lparr>lfWorld := s\<rparr>)) < clExpiry l"
    then have "row_for view (lfWorld f) l" using inv unfolding lease_inv_def live_rows_def by auto
    moreover have "clETag l \<noteq> e" using a other [of p l] by simp
    ultimately show "row_for view (lfWorld (f\<lparr>lfWorld := s\<rparr>)) l" using del(3) by (auto simp: row_for_def del(1))
  qed
  moreover have "tags_used view used (f\<lparr>lfWorld := s\<rparr>)"
    using inv by (auto simp: lease_inv_def tags_used_def del(1,2) split: if_splits)
  ultimately show ?thesis using inv by (simp add: lease_inv_def)
qed

text \<open>A process that goes on: leases stay where they were, move, or are new.\<close>

lemma jump_inv:
  assumes inv: "lease_inv view used (f\<lparr>lfWorld := s\<rparr>)"
    and place: "one_place clETag (leases_at (jump f i k p s c))"
    and from_old: "\<And>q l. l \<in> leases_at (jump f i k p s c) q \<Longrightarrow>
      (\<exists>q'. l \<in> leases_at f q' \<and> (winner q \<longrightarrow> winner q')) \<or> (row_for view s l \<and> clETag l \<in> used s)"
    and pc: "pc_ok view used (lfNow f) s p"
  shows "lease_inv view used (jump f i k p s c)"
proof -
  have sel: "lfWorld (jump f i k p s c) = s" "lfNow (jump f i k p s c) = lfNow f"
    "lfPC (jump f i k p s c) = (lfPC f)(i := (lfPC f i)(k := p))" by (simp_all add: jump_def)
  have "pc_ok view used (lfNow f) s (((lfPC f)(i := (lfPC f i)(k := p))) a b)" for a b
    using inv pc by (simp add: lease_inv_def)
  moreover have "live_rows view (jump f i k p s c)"
    unfolding live_rows_def sel
  proof (intro allI impI)
    fix q l
    assume a: "winner q \<and> l \<in> leases_at (jump f i k p s c) q \<and> UnixMilli (lfNow f) < clExpiry l"
    with from_old [of l q] show "row_for view s l"
      using inv by (auto simp: lease_inv_def live_rows_def)
  qed
  moreover have "tags_used view used (jump f i k p s c)"
    unfolding tags_used_def sel using inv from_old by (fastforce simp: lease_inv_def tags_used_def)
  ultimately show ?thesis using place by (simp add: lease_inv_def sel)
qed

subsection \<open>Every step keeps it\<close>

lemma phase_create:
  assumes ok: "etag_ok cn view used" and run: "create_phase cn c n key now s = (p, s')"
  obtains (won) e where "view s (key, key) = None" "put_doc view used (key, key) (marshalLease key (czOwner c) (now + czLeaseDuration c)) e s s'"
      "\<And>l. p = Go (Some l) \<Longrightarrow> l = new_lease c n key now e"
    | (lost) "same_docs view used s s'" "\<And>l. p \<noteq> Go (Some l)"
proof -
  let ?fs = "marshalLease key (czOwner c) (now + czLeaseDuration c)"
  obtain r where r: "lcCreateItem cn key (JObj ?fs) s = (r, s')"
    using run by (auto simp: create_phase_def split: prod.splits sum.splits if_splits)
  have "map_of ?fs ''id'' = Some (JStr key)" by (simp add: marshalLease_def)
  with ok r have "(\<exists>e. view s (key, key) = None \<and> put_doc view used (key, key) ?fs e s s' \<and> (\<forall>x. r = Inr x \<longrightarrow> x = e)) \<or>
        (isl r \<and> same_docs view used s s')" unfolding etag_ok_def create_ok_def by blast
  then show ?thesis
    using won lost run r by (cases r) (auto simp: create_phase_def split: if_splits)
qed

lemma phase_replace:
  assumes ok: "etag_ok cn view used" and run: "replace_phase cn c n key now e s = (p, s')"
  obtains (won) old e' where "view s (key, key) = Some (old, e)"
      "put_doc view used (key, key) (marshalLease key (czOwner c) (now + czLeaseDuration c)) e' s s'"
      "\<And>l. p = Go l \<Longrightarrow> l = new_lease c n key now e'"
    | (lost) "same_docs view used s s'" "\<And>l. p \<noteq> Go l"
proof -
  let ?fs = "marshalLease key (czOwner c) (now + czLeaseDuration c)"
  obtain r where r: "lcReplaceItem cn key key (JObj ?fs) e s = (r, s')"
    using run by (auto simp: replace_phase_def split: prod.splits sum.splits if_splits)
  with ok have "(\<exists>old e'. view s (key, key) = Some (old, e) \<and> put_doc view used (key, key) ?fs e' s s' \<and> (\<forall>x. r = Inr x \<longrightarrow> x = e')) \<or>
        (isl r \<and> same_docs view used s s')" unfolding etag_ok_def replace_ok_def by blast
  then show ?thesis
    using won lost run r by (cases r) (auto simp: replace_phase_def split: if_splits)
qed

text \<open>A version that is worth replacing was read expired.\<close>

lemma phase_read:
  assumes ok: "etag_ok cn view used" and run: "read_phase cn bad key now s = (p, s')"
  shows "same_docs view used s s'"
    and "p = Go e \<Longrightarrow> \<exists>fs x. view s (key, key) = Some (fs, e) \<and> json_int fs ''lease_expiry'' = Some x \<and> x \<le> UnixMilli now"
proof -
  obtain r where r: "lcReadItem cn key key s = (r, s')"
    using run by (auto simp: read_phase_def split: prod.splits sum.splits if_splits)
  with ok have rd: "same_docs view used s s' \<and>
        (\<forall>v e. r = Inr (v, e) \<longrightarrow>
           (\<exists>fs sys. view s (key, key) = Some (fs, e) \<and> v = JObj (fs @ sys) \<and> fst ` set sys \<inter> lease_fields = {}))"
    unfolding etag_ok_def read_ok_def by blast
  then show "same_docs view used s s'" by simp
  show "\<exists>fs x. view s (key, key) = Some (fs, e) \<and> json_int fs ''lease_expiry'' = Some x \<and> x \<le> UnixMilli now" if go: "p = Go e"
  proof -
    obtain v cur where v: "r = Inr (v, e)" "read_lease bad v = Inr cur" "ldLeaseExpiry cur \<le> UnixMilli now"
      using run r go by (auto simp: read_phase_def split: prod.splits sum.splits if_splits)
    then obtain fs sys where fs: "view s (key, key) = Some (fs, e)" "v = JObj (fs @ sys)" "fst ` set sys \<inter> lease_fields = {}"
      using rd by blast
    have "map_of (fs @ sys) ''lease_expiry'' = map_of fs ''lease_expiry''"
      using fs(3) by (intro map_of_append_other) (auto simp: lease_fields_def)
    then have "json_int fs ''lease_expiry'' = Some (ldLeaseExpiry cur)"
      using v(2) fs(2) by (auto simp: read_lease_def json_int_def split: option.splits)
    with fs(1) v(3) show ?thesis by blast
  qed
qed

lemma phase_delete:
  assumes ok: "etag_ok cn view used" and run: "cosmos_conditionalDelete cn l s = (err, s')"
  obtains (gone) old where "view s (clKey l, clKey l) = Some (old, clETag l)"
      "view s' = (view s)((clKey l, clKey l) := None)" "used s' = used s"
    | (kept) "same_docs view used s s'"
proof -
  obtain r where r: "lcDeleteItem cn (clKey l) (clKey l) (Some (clETag l)) s = (r, s')"
    using run by (auto simp: cosmos_conditionalDelete_def split: prod.splits option.splits if_splits)
  with ok have "(\<exists>old. view s (clKey l, clKey l) = Some (old, clETag l) \<and> view s' = (view s)((clKey l, clKey l) := None) \<and> used s' = used s) \<or>
        (r \<noteq> None \<and> same_docs view used s s')" unfolding etag_ok_def delete_ok_def by blast
  then show ?thesis using gone kept by blast
qed

lemma marshalLease_fields [simp]:
  "map_of (marshalLease key w t) ''id'' = Some (JStr key)"
  "json_int (marshalLease key w t) ''lease_expiry'' = Some (UnixMilli t)"
  by (simp_all add: marshalLease_def json_int_def)

lemma new_lease_sel [simp]:
  "clKey (new_lease c n key now e) = key" "clETag (new_lease c n key now e) = e"
  "clExpiry (new_lease c n key now e) = UnixMilli (now + czLeaseDuration c)"
  by (simp_all add: new_lease_def)

lemma row_for_new:
  "put_doc view used (key, key) (marshalLease key w (now + czLeaseDuration c)) e s s' \<Longrightarrow>
     row_for view s' (new_lease c n key now e) \<and> e \<in> used s'"
  by (simp add: row_for_def put_doc_def)

text \<open>A process that has nothing to do with leases changes its counter.\<close>

lemma jump_sel [simp]:
  "lfNodes (jump f i k p s c) a = (if a = i then c else lfNodes f a)"
  "lfPC (jump f i k p s c) a b = (if a = i \<and> b = k then p else lfPC f a b)"
  by (simp_all add: jump_def)

lemma jump_shrink:
  assumes inv: "lease_inv view used (f\<lparr>lfWorld := s\<rparr>)" and pc: "pc_ok view used (lfNow f) s p"
    and sub: "\<And>q. leases_at (jump f i k p s c) q \<subseteq> leases_at f q"
  shows "lease_inv view used (jump f i k p s c)"
proof (rule jump_inv [OF inv _ _ pc])
  show "one_place clETag (leases_at (jump f i k p s c))"
    by (rule one_place_shrink [of clETag "leases_at f"]) (use inv sub in \<open>simp_all add: lease_inv_def\<close>)
  show "(\<exists>q'. l \<in> leases_at f q' \<and> (winner q \<longrightarrow> winner q')) \<or> (row_for view s l \<and> clETag l \<in> used s)"
    if "l \<in> leases_at (jump f i k p s c) q" for q l using that sub by blast
qed

lemma jump_won:
  assumes inv: "lease_inv view used (f\<lparr>lfWorld := s\<rparr>)" and row: "row_for view s l" "clETag l \<in> used s"
    and fresh: "\<And>q x. x \<in> leases_at f q \<Longrightarrow> clETag x \<noteq> clETag l"
  shows "lease_inv view used (jump f i k (Recording l) s (lfNodes f i))"
proof (rule jump_inv [OF inv])
  let ?f = "jump f i k (Recording l) s (lfNodes f i)"
  have sub: "leases_at ?f q \<subseteq> leases_at f q" if "q \<noteq> RecordedAt i k" for q
    using that by (cases q) (auto split: if_splits)
  show "one_place clETag (leases_at ?f)"
    by (rule one_place_new [of clETag "leases_at f" l _ "RecordedAt i k"])
      (use inv fresh sub in \<open>auto simp: lease_inv_def\<close>)
  show "(\<exists>q'. x \<in> leases_at f q' \<and> (winner q \<longrightarrow> winner q')) \<or> (row_for view s x \<and> clETag x \<in> used s)"
    if "x \<in> leases_at ?f q" for q x
    using that row sub by (cases "q = RecordedAt i k") (auto split: if_splits)
qed (simp add: pc_ok_def)

lemma not_used_fresh:
  assumes "lease_inv view used f" "e \<notin> used (lfWorld f)" "x \<in> leases_at f q"
  shows "clETag x \<noteq> e"
  using assms by (auto simp: lease_inv_def tags_used_def)

lemma jump_quiet:
  assumes "lease_inv view used (f\<lparr>lfWorld := s\<rparr>)" "pc_ok view used (lfNow f) s p"
    and "\<And>l. p \<noteq> Recording l" "\<And>ls. p \<noteq> Deleting ls"
  shows "lease_inv view used (jump f i k p s (lfNodes f i))"
proof (rule jump_shrink [OF assms(1,2)])
  show "leases_at (jump f i k p s (lfNodes f i)) q \<subseteq> leases_at f q" for q
    using assms(3,4) by (cases q; cases p) auto
qed

lemma inv_live:
  "lease_inv view used f \<Longrightarrow> winner q \<Longrightarrow> l \<in> leases_at f q \<Longrightarrow> UnixMilli (lfNow f) < clExpiry l \<Longrightarrow>
     row_for view (lfWorld f) l"
  unfolding lease_inv_def live_rows_def by blast

lemma inv_pc: "lease_inv view used f \<Longrightarrow> lfPC f i k = p \<Longrightarrow> pc_ok view used (lfNow f) (lfWorld f) p"
  unfolding lease_inv_def by blast

text \<open>Whoever writes a version, by creation or by replacement, does not overwrite a lease that runs.\<close>

lemma create_keeps:
  assumes ok: "etag_ok cn view used" and inv: "lease_inv view used f" and now: "now \<le> lfNow f"
    and run: "create_phase cn (lfNodes f i) n key now (lfWorld f) = (p, s)"
  shows "lease_inv view used (jump f i k (after_create key now p) s (lfNodes f i))"
proof -
  have quiet: "lease_inv view used (jump f i k (after_create key now p) s (lfNodes f i))"
    if "lease_inv view used (f\<lparr>lfWorld := s\<rparr>)" "\<And>l. p \<noteq> Go (Some l)"
    using that now by (cases "(key, now, p)" rule: after_create.cases) (auto intro!: jump_quiet simp: pc_ok_def)
  from ok run show ?thesis
  proof (cases rule: phase_create)
    case (won e)
    have inv': "lease_inv view used (f\<lparr>lfWorld := s\<rparr>)"
      using won(1) inv_live [OF inv] by (intro inv_put [OF inv won(2)]) (fastforce simp: row_for_def)
    show ?thesis
    proof (cases "\<exists>l. p = Go (Some l)")
      case True
      with won(3) have p: "p = Go (Some (new_lease (lfNodes f i) n key now e))" by blast
      have "e \<notin> used (lfWorld f)" using won(2) by (simp add: put_doc_def)
      from not_used_fresh [OF inv this] row_for_new [OF won(2), of n] inv' p show ?thesis
        by (auto intro!: jump_won)
    qed (use quiet inv' in blast)
  qed (use quiet inv_same [OF inv] in blast)
qed

lemma replace_keeps:
  assumes ok: "etag_ok cn view used" and inv: "lease_inv view used f" and pc: "lfPC f i k = Replacing key now e"
    and run: "replace_phase cn (lfNodes f i) n key now e (lfWorld f) = (p, s)"
  shows "lease_inv view used (jump f i k (after_replace p) s (lfNodes f i))"
proof -
  have quiet: "lease_inv view used (jump f i k (after_replace p) s (lfNodes f i))"
    if "lease_inv view used (f\<lparr>lfWorld := s\<rparr>)" "\<And>l. p \<noteq> Go l"
    using that by (cases p) (auto intro!: jump_quiet simp: pc_ok_def)
  from inv_pc [OF inv pc] have old: "now \<le> lfNow f" "\<And>fs. view (lfWorld f) (key, key) = Some (fs, e) \<Longrightarrow>
      \<exists>x\<le>UnixMilli now. json_int fs ''lease_expiry'' = Some x" by (simp_all add: pc_ok_def)
  from ok run show ?thesis
  proof (cases rule: phase_replace)
    case (won od e')
    obtain x where x: "x \<le> UnixMilli now" "json_int od ''lease_expiry'' = Some x" using old(2) [OF won(1)] by blast
    have inv': "lease_inv view used (f\<lparr>lfWorld := s\<rparr>)"
    proof (rule inv_put [OF inv won(2)])
      fix q l
      assume l: "winner q" "l \<in> leases_at f q" "UnixMilli (lfNow f) < clExpiry l"
      then have "row_for view (lfWorld f) l" by (rule inv_live [OF inv])
      then have "clKey l = key \<Longrightarrow> clExpiry l = x" using won(1) x(2) by (auto simp: row_for_def)
      with l(3) x(1) UnixMilli_mono [OF old(1)] show "(clKey l, clKey l) \<noteq> (key, key)" by auto
    qed
    show ?thesis
    proof (cases "\<exists>l. p = Go l")
      case True
      with won(3) have p: "p = Go (new_lease (lfNodes f i) n key now e')" by blast
      have "e' \<notin> used (lfWorld f)" using won(2) by (simp add: put_doc_def)
      from not_used_fresh [OF inv this] row_for_new [OF won(2), of n] inv' p show ?thesis
        by (auto intro!: jump_won)
    qed (use quiet inv' in blast)
  qed (use quiet inv_same [OF inv] in blast)
qed

lemma read_keeps:
  assumes ok: "etag_ok cn view used" and inv: "lease_inv view used f" and pc: "lfPC f i k = Reading key now"
    and run: "read_phase cn bad key now (lfWorld f) = (p, s)"
  shows "lease_inv view used (jump f i k (after_read key now p) s (lfNodes f i))"
proof -
  have same: "view s = view (lfWorld f)" "used s = used (lfWorld f)"
    using phase_read(1) [OF ok run] by (simp_all add: same_docs_def)
  have inv': "lease_inv view used (f\<lparr>lfWorld := s\<rparr>)" by (rule inv_same [OF inv phase_read(1) [OF ok run]])
  have now: "now \<le> lfNow f" using inv_pc [OF inv pc] by (simp add: pc_ok_def)
  show ?thesis
  proof (cases p)
    case (Go e)
    then obtain fs x where fs: "view (lfWorld f) (key, key) = Some (fs, e)" "json_int fs ''lease_expiry'' = Some x"
      "x \<le> UnixMilli now" using phase_read(2) [OF ok run] by blast
    moreover have "e \<in> used (lfWorld f)" using inv fs(1) unfolding lease_inv_def tags_used_def by blast
    ultimately have "pc_ok view used (lfNow f) s (Replacing key now e)" using now by (simp add: pc_ok_def same)
    with inv' Go show ?thesis by (auto intro!: jump_quiet)
  qed (use inv' in \<open>auto intro!: jump_quiet simp: pc_ok_def\<close>)
qed

text \<open>A lease that changes its place takes nothing with it.\<close>

lemma jump_move:
  assumes inv: "lease_inv view used f" and M: "M \<subseteq> leases_at f src" "leases_at (jump f i k p (lfWorld f) c) src \<inter> M = {}"
    and dst: "leases_at (jump f i k p (lfWorld f) c) dst \<subseteq> leases_at f dst \<union> M" "winner dst \<Longrightarrow> winner src"
    and other: "\<And>q. q \<noteq> dst \<Longrightarrow> leases_at (jump f i k p (lfWorld f) c) q \<subseteq> leases_at f q"
    and pc: "\<And>key t. p \<noteq> Reading key t" "\<And>key t e. p \<noteq> Replacing key t e"
  shows "lease_inv view used (jump f i k p (lfWorld f) c)"
proof (rule jump_inv)
  show "lease_inv view used (f\<lparr>lfWorld := lfWorld f\<rparr>)" using inv by simp
  show "one_place clETag (leases_at (jump f i k p (lfWorld f) c))"
    by (rule one_place_move [OF _ M dst(1) other]) (use inv in \<open>simp add: lease_inv_def\<close>)
  show "(\<exists>q'. l \<in> leases_at f q' \<and> (winner q \<longrightarrow> winner q')) \<or> (row_for view (lfWorld f) l \<and> clETag l \<in> used (lfWorld f))"
    if "l \<in> leases_at (jump f i k p (lfWorld f) c) q" for q l
    using that M(1) dst other by (cases "q = dst") blast+
  show "pc_ok view used (lfNow f) (lfWorld f) p" using pc by (cases p) (auto simp: pc_ok_def)
qed

lemma record_keeps:
  assumes inv: "lease_inv view used f" and pc: "lfPC f i k = Recording l" and run: "record_phase l (lfNodes f i) = (p, c)"
  shows "lease_inv view used (jump f i k (after_record p) (lfWorld f) c)"
proof (cases "czHeld (lfNodes f i)")
  case None
  with run have p: "p = Go (Some l)" "c = lfNodes f i" by (auto simp: record_phase_def)
  have "q \<noteq> DeletedAt i k \<Longrightarrow> leases_at (jump f i k (Deleting [l]) (lfWorld f) (lfNodes f i)) q \<subseteq> leases_at f q" for q
    by (cases q) auto
  then have "lease_inv view used (jump f i k (Deleting [l]) (lfWorld f) (lfNodes f i))"
    by (intro jump_move [OF inv, of "{l}" "RecordedAt i k" _ _ _ _ "DeletedAt i k"]) (use pc in auto)
  with p show ?thesis by simp
next
  case (Some held)
  with run have p: "p = Answer (Inr (Some l))" and c: "held_leases c = insert l (held_leases (lfNodes f i))"
    by (auto simp: record_phase_def held_leases_def)
  have "q \<noteq> HeldAt i \<Longrightarrow> leases_at (jump f i k Idle (lfWorld f) c) q \<subseteq> leases_at f q" for q
    by (cases q) auto
  then have "lease_inv view used (jump f i k Idle (lfWorld f) c)"
    by (intro jump_move [OF inv, of "{l}" "RecordedAt i k" _ _ _ _ "HeldAt i"]) (use pc c in auto)
  with p show ?thesis by simp
qed

lemma forget_leases:
  assumes "forget_phase l c0 = (Some l, c)"
  shows "held_leases c \<subseteq> held_leases c0" "set [l] \<subseteq> held_leases c0" "held_leases c \<inter> set [l] = {}"
  using assms by (auto simp: forget_phase_def held_leases_def split: option.splits if_splits)

lemma close_leases:
  assumes "close_phase c0 = (held, c)"
  shows "held_leases c = {}" "set held = held_leases c0"
  using assms by (auto simp: close_phase_def held_leases_def split: option.splits)

lemma give_up_keeps:
  assumes inv: "lease_inv view used f" and pc: "lfPC f i k = Idle"
    and c: "held_leases c \<subseteq> held_leases (lfNodes f i)" "set ls \<subseteq> held_leases (lfNodes f i)" "held_leases c \<inter> set ls = {}"
  shows "lease_inv view used (jump f i k (deleting ls) (lfWorld f) c)"
proof -
  have "q \<noteq> DeletedAt i k \<Longrightarrow> leases_at (jump f i k (deleting ls) (lfWorld f) c) q \<subseteq> leases_at f q" for q
    using c(1) by (cases q) (auto simp: deleting_def)
  then show ?thesis
    by (intro jump_move [OF inv, of "set ls" "HeldAt i" _ _ _ _ "DeletedAt i k"]) (use pc c in \<open>auto simp: deleting_def\<close>)
qed

lemma delete_keeps:
  assumes ok: "etag_ok cn view used" and inv: "lease_inv view used f" and pc: "lfPC f i k = Deleting (l # ls)"
    and run: "cosmos_conditionalDelete cn l (lfWorld f) = (err, s)"
  shows "lease_inv view used (jump f i k (deleting ls) s (lfNodes f i))"
proof -
  have "lease_inv view used (f\<lparr>lfWorld := s\<rparr>)"
    using ok run
  proof (cases rule: phase_delete)
    case (gone od)
    have l: "l \<in> leases_at f (DeletedAt i k)" using pc by simp
    have "clETag x \<noteq> clETag l" if x: "winner q" "x \<in> leases_at f q" for q x
    proof
      assume "clETag x = clETag l"
      with inv x(2) l have "q = DeletedAt i k" unfolding lease_inv_def one_place_def by blast
      with x(1) show False by simp
    qed
    then show ?thesis by (intro inv_delete [OF inv gone(2,3,1)])
  qed (rule inv_same [OF inv])
  moreover have "leases_at (jump f i k (deleting ls) s (lfNodes f i)) q \<subseteq> leases_at f q" for q
    using pc by (cases q) (auto simp: deleting_def)
  ultimately show ?thesis by (intro jump_shrink) (auto simp: deleting_def pc_ok_def)
qed

lemma pass_keeps:
  assumes inv: "lease_inv view used f" and d: "0 \<le> d"
  shows "lease_inv view used (f\<lparr>lfNow := lfNow f + d\<rparr>)"
proof -
  have at: "leases_at (f\<lparr>lfNow := lfNow f + d\<rparr>) = leases_at f"
  proof
    show "leases_at (f\<lparr>lfNow := lfNow f + d\<rparr>) p = leases_at f p" for p by (cases p) simp_all
  qed
  have "UnixMilli (lfNow f) \<le> UnixMilli (lfNow f + d)" using d by (intro UnixMilli_mono) simp
  then have "live_rows view (f\<lparr>lfNow := lfNow f + d\<rparr>)" using inv_live [OF inv] unfolding live_rows_def at by fastforce
  moreover have "pc_ok view used (lfNow f + d) (lfWorld f) (lfPC f i k)" for i k
    using inv_pc [OF inv refl, of i k] d by (cases "lfPC f i k") (auto simp: pc_ok_def)
  ultimately show ?thesis using inv by (simp add: lease_inv_def tags_used_def at)
qed

lemma crash_keeps:
  assumes inv: "lease_inv view used f" and c: "czHeld c = Some []"
  shows "lease_inv view used (f\<lparr>lfNodes := (lfNodes f)(i := c), lfPC := (lfPC f)(i := (\<lambda>_. Idle))\<rparr>)"
    (is "lease_inv view used ?f")
proof -
  have sub: "leases_at ?f p \<subseteq> leases_at f p" for p using c by (cases p) (auto simp: held_leases_def)
  have "one_place clETag (leases_at ?f)" by (rule one_place_shrink [OF _ sub]) (use inv in \<open>simp add: lease_inv_def\<close>)
  moreover have "live_rows view ?f" unfolding live_rows_def
    using inv_live [OF inv _ subsetD [OF sub]] by auto
  moreover have "tags_used view used ?f"
    using inv sub unfolding lease_inv_def tags_used_def by simp blast
  moreover have "pc_ok view used (lfNow f) (lfWorld f) (((lfPC f)(i := (\<lambda>_. Idle))) a b)" for a b
    using inv_pc [OF inv refl, of a b] by (simp add: pc_ok_def)
  ultimately show ?thesis by (simp add: lease_inv_def)
qed

lemma lease_step_inv:
  assumes "etag_ok cn view used" "lease_step cn bad sha f f'" "lease_inv view used f"
  shows "lease_inv view used f'"
  using assms(2)
proof (cases rule: lease_step.cases)
  case pass
  with pass_keeps [OF assms(3)] show ?thesis by simp
next
  case create
  from create_keeps [OF assms(1,3) create(3,4)] create(1) show ?thesis by simp
next
  case read
  from read_keeps [OF assms(1,3) read(2,3)] read(1) show ?thesis by simp
next
  case replace
  from replace_keeps [OF assms(1,3) replace(2,3)] replace(1) show ?thesis by simp
next
  case recorded
  from record_keeps [OF assms(3) recorded(2,3)] recorded(1) show ?thesis by simp
next
  case (release i k l c)
  from give_up_keeps [OF assms(3) release(2) forget_leases [OF release(3)]] release(1) show ?thesis
    by (simp add: deleting_def)
next
  case (close i k held c ls)
  from give_up_keeps [OF assms(3) close(2), of c ls] close_leases [OF close(3)] close(1,4) show ?thesis by simp
next
  case delete
  from delete_keeps [OF assms(1,3) delete(2,3)] delete(1) show ?thesis by simp
next
  case crash
  with crash_keeps [OF assms(3)] show ?thesis by simp
qed

lemma lease_reach_inv:
  "(lease_step cn bad sha)\<^sup>*\<^sup>* f f' \<Longrightarrow> etag_ok cn view used \<Longrightarrow> lease_inv view used f \<Longrightarrow> lease_inv view used f'"
  by (induction rule: rtranclp_induct) (auto intro: lease_step_inv)

definition fresh_leases :: "'s versions \<Rightarrow> ('s \<Rightarrow> etag set) \<Rightarrow> 's lease_fleet \<Rightarrow> bool" where
  "fresh_leases view used f \<longleftrightarrow> (\<forall>i. czHeld (lfNodes f i) = Some []) \<and> (\<forall>i k. lfPC f i k = Idle) \<and>
     (\<forall>k fs e. view (lfWorld f) k = Some (fs, e) \<longrightarrow> e \<in> used (lfWorld f))"

lemma fresh_leases_inv:
  assumes "fresh_leases view used f"
  shows "lease_inv view used f"
proof -
  have none: "leases_at f p = {}" for p using assms by (cases p) (simp_all add: fresh_leases_def held_leases_def)
  have "one_place clETag (leases_at f)" "live_rows view f" by (simp_all add: one_place_def live_rows_def none)
  moreover have "tags_used view used f" using assms by (auto simp: tags_used_def none fresh_leases_def)
  ultimately show ?thesis using assms by (simp add: lease_inv_def fresh_leases_def pc_ok_def)
qed

subsection \<open>Properties\<close>

text \<open>C9: leases in Cosmos DB exclude each other.  In a fleet that started without leases (over a container
  that may hold old ones), whatever the instances do, with the requests of their acquisitions, releases and
  shutdowns interleaved in any order, clocks that are never ahead, requests that fail or whose answer is
  lost, crashes and passing time: at no moment do two unexpired leases exist for one feed.  An instance
  that read an expired lease cannot take it from one that took it first.\<close>

theorem cosmos_lease_mutual_exclusion:
  assumes "etag_ok cn view used" "fresh_leases view used f0" "(lease_step cn bad sha)\<^sup>*\<^sup>* f0 f"
    and "l \<in> held_leases (lfNodes f i)" "l' \<in> held_leases (lfNodes f j)"
    and "clKey l = clKey l'" "UnixMilli (lfNow f) < clExpiry l" "UnixMilli (lfNow f) < clExpiry l'"
  shows "i = j \<and> l = l'"
proof -
  have inv: "lease_inv view used f" by (rule lease_reach_inv [OF assms(3,1) fresh_leases_inv [OF assms(2)]])
  have at: "l \<in> leases_at f (HeldAt i)" "l' \<in> leases_at f (HeldAt j)" using assms(4,5) by simp_all
  have "row_for view (lfWorld f) l" "row_for view (lfWorld f) l'"
    using inv_live [OF inv _ at(1) assms(7)] inv_live [OF inv _ at(2) assms(8)] by simp_all
  then have "clETag l = clETag l'" using assms(6) by (auto simp: row_for_def)
  with inv at have "HeldAt i = HeldAt j \<and> l = l'" unfolding lease_inv_def one_place_def by blast
  then show ?thesis by simp
qed

text \<open>A container kept in a map, which numbers the versions.\<close>

type_synonym toy_docs = "(string \<times> string \<Rightarrow> (fields \<times> etag) option) \<times> nat"

definition toy_tag :: "nat \<Rightarrow> etag" where "toy_tag n = replicate n CHR ''x''"

definition toy_status :: "int \<Rightarrow> cosmos_error" where "toy_status n = \<lparr>ceStatus = Some n, ceErr = Canceled\<rparr>"

definition toy_write :: "string \<times> string \<Rightarrow> fields \<Rightarrow> toy_docs \<Rightarrow> (cosmos_error + etag) \<times> toy_docs" where
  "toy_write k fs s = (Inr (toy_tag (snd s)), (fst s)(k \<mapsto> (fs, toy_tag (snd s))), Suc (snd s))"

definition toy_leases :: "toy_docs lease_container" where
  "toy_leases =
     \<lparr>lcCreateItem = (\<lambda>pk v s. case v of
          JObj fs \<Rightarrow> (case map_of fs ''id'' of
              Some (JStr i) \<Rightarrow> if fst s (pk, i) = None then toy_write (pk, i) fs s else (Inl (toy_status 409), s)
            | _ \<Rightarrow> (Inl (toy_status 400), s))
        | _ \<Rightarrow> (Inl (toy_status 400), s)),
      lcReadItem = (\<lambda>pk i s. (case fst s (pk, i) of
          None \<Rightarrow> Inl (toy_status 404) | Some (fs, e) \<Rightarrow> Inr (JObj fs, e), s)),
      lcReplaceItem = (\<lambda>pk i v e s. case v of
          JObj fs \<Rightarrow> (case fst s (pk, i) of
              None \<Rightarrow> (Inl (toy_status 404), s)
            | Some (_, e') \<Rightarrow> if e' = e then toy_write (pk, i) fs s else (Inl (toy_status 412), s))
        | _ \<Rightarrow> (Inl (toy_status 400), s)),
      lcDeleteItem = (\<lambda>pk i e s. case (fst s (pk, i), e) of
          (None, _) \<Rightarrow> (Some (toy_status 404), s)
        | (Some _, None) \<Rightarrow> (None, (fst s)((pk, i) := None), snd s)
        | (Some (_, e'), Some e) \<Rightarrow>
            if e' = e then (None, (fst s)((pk, i) := None), snd s) else (Some (toy_status 412), s))\<rparr>"

definition toy_used :: "toy_docs \<Rightarrow> etag set" where "toy_used s = toy_tag ` {..<snd s}"

lemma toy_tag_fresh: "toy_tag (snd s) \<notin> toy_used s"
  by (auto simp: toy_used_def toy_tag_def replicate_eq_replicate)

lemma toy_write_put:
  "toy_write k fs s = (r, s') \<Longrightarrow> put_doc fst toy_used k fs (toy_tag (snd s)) s s' \<and> r = Inr (toy_tag (snd s))"
  using toy_tag_fresh [of s] by (auto simp: toy_write_def put_doc_def toy_used_def less_Suc_eq)

lemma toy_leases_ok: "etag_ok toy_leases fst toy_used"
proof -
  have "create_ok toy_leases fst toy_used"
    unfolding create_ok_def
    by (auto simp: toy_leases_def same_docs_def split: if_splits dest!: toy_write_put)
  moreover have "read_ok toy_leases fst toy_used"
    by (auto simp: read_ok_def toy_leases_def same_docs_def split: option.splits)
  moreover have "replace_ok toy_leases fst toy_used"
    unfolding replace_ok_def
    by (auto simp: toy_leases_def same_docs_def split: if_splits option.splits dest!: toy_write_put)
  moreover have "delete_ok toy_leases fst toy_used"
    by (auto simp: delete_ok_def toy_leases_def same_docs_def toy_used_def split: if_splits option.splits)
  ultimately show ?thesis by (simp add: etag_ok_def)
qed

definition toy_lease_fleet :: "toy_docs lease_fleet" where
  "toy_lease_fleet = \<lparr>lfNow = 0, lfWorld = (Map.empty, 0),
     lfNodes = (\<lambda>i. \<lparr>czOwner = ''a'', czLeaseDuration = 60 * second, czMemberTTL = 0, czHeld = Some []\<rparr>),
     lfPC = (\<lambda>_ _. Idle), lfNext = 0\<rparr>"

lemma toy_lease_fleet_fresh: "fresh_leases fst toy_used toy_lease_fleet"
  by (simp add: fresh_leases_def toy_lease_fleet_def)

theorem cosmos_lease_mutual_exclusion_witness:
  "\<exists>f l. (lease_step toy_leases (\<lambda>_. Canceled) id)\<^sup>*\<^sup>* toy_lease_fleet f \<and> l \<in> held_leases (lfNodes f 0) \<and>
     UnixMilli (lfNow f) < clExpiry l \<and>
     (\<forall>l'. l' \<in> held_leases (lfNodes f 1) \<and> clKey l = clKey l' \<longrightarrow> \<not> UnixMilli (lfNow f) < clExpiry l')"
proof -
  let ?key = "cosmos_lockKey id ''u''" and ?c = "lfNodes toy_lease_fleet 0" and ?step = "lease_step toy_leases (\<lambda>_. Canceled) id"
  let ?l = "new_lease ?c 0 ?key 0 []"
  obtain s where cr: "create_phase toy_leases ?c (lfNext toy_lease_fleet) ?key 0 (lfWorld toy_lease_fleet) = (Go (Some ?l), s)"
    by (simp add: create_phase_def toy_leases_def toy_lease_fleet_def toy_write_def toy_tag_def)
  let ?f1 = "jump toy_lease_fleet 0 0 (Recording ?l) s ?c"
  have s1: "?step toy_lease_fleet ?f1"
    using create [OF _ _ cr, where k = 0] by (simp add: toy_lease_fleet_def)
  let ?c2 = "?c\<lparr>czHeld := Some [?l]\<rparr>"
  let ?f2 = "jump ?f1 0 0 Idle s ?c2"
  have "record_phase ?l (lfNodes ?f1 0) = (Answer (Inr (Some ?l)), ?c2)" "lfWorld ?f1 = s"
    by (simp_all add: record_phase_def toy_lease_fleet_def jump_def)
  then have s2: "?step ?f1 ?f2"
    using recorded [where f = ?f1 and i = 0 and k = 0 and l = ?l and cn = toy_leases and bad = "\<lambda>_. Canceled" and sha = id] by simp
  have reach: "?step\<^sup>*\<^sup>* toy_lease_fleet ?f2" using s1 s2 by (meson rtranclp.rtrancl_into_rtrancl rtranclp.rtrancl_refl)
  have l: "?l \<in> held_leases (lfNodes ?f2 0)" by (simp add: held_leases_def)
  have live: "UnixMilli (lfNow ?f2) < clExpiry ?l"
    by (simp add: jump_def toy_lease_fleet_def UnixMilli_def second_def millisecond_def)
  have "\<not> UnixMilli (lfNow ?f2) < clExpiry l'" if "l' \<in> held_leases (lfNodes ?f2 1)" "clKey ?l = clKey l'" for l'
    using cosmos_lease_mutual_exclusion [OF toy_leases_ok toy_lease_fleet_fresh reach l that live] by auto
  with reach l live show ?thesis by blast
qed

end
