(* ===== verification/Coord_Redis.thy ===== *)
theory Coord_Redis
  imports TLS_Config Retry Places
begin

section \<open>Leases in Redis (\<^verbatim>\<open>internal/coord/redis/redis.go\<close>)\<close>

text \<open>
  A lease is a key with a token of its own and a lifetime, set if the key is absent; a background loop
  extends it as long as the key still holds the token, and a release deletes it under the same condition.
  The server is reached through \<open>redis_client\<close>, whose calls are executed at a time of the server; \<open>redis_ok\<close>
  says what is relied on of it.  Until when a lease is certain to be kept, which the source does not
  compute, is recorded by the step relation for the statements.
\<close>

subsection \<open>Options\<close>

record SentinelOptions =
  seMasterName :: string
  seAddrs :: "string list"
  seUsername :: string
  sePassword :: string
  seSentinelUsername :: string
  seSentinelPassword :: string
  seDB :: int

record ClusterOptions =
  clAddrs :: "string list"
  clUsername :: string
  clPassword :: string

record redis_options =
  roURL :: string
  roLockTTL :: duration
  roRenewalInterval :: duration
  roMemberTTL :: duration
  roTLS :: "tls_options option"
  roMode :: string
  roSentinel :: SentinelOptions
  roCluster :: ClusterOptions

record resolvedOptions =
  rvURL :: string
  rvLockTTL :: duration
  rvRenewalInterval :: duration
  rvMemberTTL :: duration

definition resolved :: "redis_options \<Rightarrow> resolvedOptions" where
  "resolved opts =
     (let lock = (if roLockTTL opts \<le> 0 then 30 * second else roLockTTL opts) in
      \<lparr>rvURL = roURL opts, rvLockTTL = lock,
       rvRenewalInterval = (if roRenewalInterval opts \<le> 0 then lock div 3 else roRenewalInterval opts),
       rvMemberTTL = (if roMemberTTL opts \<le> 0 then 30 * second else roMemberTTL opts)\<rparr>)"

subsection \<open>Opening\<close>

text \<open>What \<^verbatim>\<open>redis.ParseURL\<close> gives: the configuration of a client, its TLS part present for \<^verbatim>\<open>rediss\<close> only.\<close>

record redis_url =
  ruAddr :: string
  ruTLS :: "tls_config option"

text \<open>The client that is built, by topology.\<close>

datatype redis_topology =
    Single redis_url
  | Sentinel SentinelOptions "tls_config option"
  | Cluster ClusterOptions "tls_config option"

definition tlsConfigOrNil :: "tls_env \<Rightarrow> tls_options option \<Rightarrow> tls_config option result" where
  "tlsConfigOrNil env t =
     (case t of
        None \<Rightarrow> Inr None
      | Some t \<Rightarrow>
          (case redis_buildTLSConfig env t [] of
             Inl err \<Rightarrow> Inl (Errorf ''coord/redis: build TLS config: %w'' [FWrap err])
           | Inr tc \<Rightarrow> Inr (Some tc)))"

definition buildClient ::
    "(string \<Rightarrow> redis_url result) \<Rightarrow> tls_env \<Rightarrow> redis_options \<Rightarrow> redis_topology result" where
  "buildClient parseURL env opts =
     (if roMode opts = [] \<or> roMode opts = ''single'' then
        (if roURL opts = [] then Inl (Errorf ''coord/redis: url is required for single mode'' [])
         else case parseURL (roURL opts) of
           Inl err \<Rightarrow> Inl (Errorf ''coord/redis: parse url: %w'' [FWrap err])
         | Inr cfg \<Rightarrow>
             (case roTLS opts of
                None \<Rightarrow> Inr (Single cfg)
              | Some t \<Rightarrow>
                  (case ruTLS cfg of
                     None \<Rightarrow> Inl (Errorf ''coord/redis: TLS options provided but URL scheme is not rediss://'' [])
                   | Some utc \<Rightarrow>
                       (case redis_buildTLSConfig env t (tcServerName utc) of
                          Inl err \<Rightarrow> Inl (Errorf ''coord/redis: build TLS config: %w'' [FWrap err])
                        | Inr tc \<Rightarrow> Inr (Single (cfg\<lparr>ruTLS := Some tc\<rparr>))))))
      else if roMode opts = ''sentinel'' then
        (case tlsConfigOrNil env (roTLS opts) of
           Inl err \<Rightarrow> Inl err
         | Inr tc \<Rightarrow> Inr (Sentinel (roSentinel opts) tc))
      else if roMode opts = ''cluster'' then
        (case tlsConfigOrNil env (roTLS opts) of
           Inl err \<Rightarrow> Inl err
         | Inr tc \<Rightarrow> Inr (Cluster (roCluster opts) tc))
      else Inl (Errorf ''coord/redis: unsupported mode %q'' [FStr (roMode opts)]))"

record rlease =
  rlKey :: string
  rlToken :: string

record redis_coordinator =
  rzOpts :: resolvedOptions
  rzHeld :: "rlease list option"  \<comment> \<open>\<open>None\<close> after \<^verbatim>\<open>Close\<close>\<close>
  rzClosing :: bool
  rzClosed :: bool

text \<open>\<open>ping\<close> and \<open>shut\<close>: \<^verbatim>\<open>client.Ping\<close> and \<^verbatim>\<open>client.Close\<close> on a client of the topology.\<close>

definition redis_New ::
    "(string \<Rightarrow> redis_url result) \<Rightarrow> tls_env \<Rightarrow> (redis_topology \<Rightarrow> ctx \<Rightarrow> 's \<Rightarrow> go_error option \<times> 's) \<Rightarrow>
     (redis_topology \<Rightarrow> 's \<Rightarrow> 's) \<Rightarrow> ctx \<Rightarrow> redis_options \<Rightarrow> 's \<Rightarrow>
     (redis_topology \<times> redis_coordinator) result \<times> 's" where
  "redis_New parseURL env ping shut c opts s =
     (case buildClient parseURL env opts of
        Inl err \<Rightarrow> (Inl err, s)
      | Inr client \<Rightarrow>
          (case ping client c s of
             (Some err, s1) \<Rightarrow> (Inl (Errorf ''coord/redis: ping: %w'' [FWrap err]), shut client s1)
           | (None, s1) \<Rightarrow>
               (Inr (client, \<lparr>rzOpts = resolved opts, rzHeld = Some [], rzClosing = False, rzClosed = False\<rparr>), s1)))"

subsection \<open>Leases\<close>

text \<open>\<^verbatim>\<open>SET NX\<close> with a lifetime, and the two scripts, each executed at a time of the server.\<close>

record 's redis_client =
  rcSetNX :: "time \<Rightarrow> string \<Rightarrow> string \<Rightarrow> duration \<Rightarrow> 's \<Rightarrow> bool result \<times> 's"
  rcRenew :: "time \<Rightarrow> string \<Rightarrow> string \<Rightarrow> int \<Rightarrow> 's \<Rightarrow> int result \<times> 's"
  rcRelease :: "time \<Rightarrow> string \<Rightarrow> string \<Rightarrow> 's \<Rightarrow> go_error option \<times> 's"

definition redis_lockKey :: "(string \<Rightarrow> string) \<Rightarrow> string \<Rightarrow> string" where
  "redis_lockKey sha256hex feedURL = ''rss2msg:coord:'' @ sha256hex feedURL"

definition lock_millis :: "duration \<Rightarrow> int" where
  "lock_millis d = d div millisecond"

definition casDelete :: "'s redis_client \<Rightarrow> time \<Rightarrow> redis_coordinator \<Rightarrow> rlease \<Rightarrow> 's \<Rightarrow> 's" where
  "casDelete cl t c l s = (if rzClosed c then s else snd (rcRelease cl t (rlKey l) (rlToken l) s))"

text \<open>One tick of the renewal loop: whether it goes on.\<close>

definition renew_tick :: "'s redis_client \<Rightarrow> duration \<Rightarrow> rlease \<Rightarrow> time \<Rightarrow> 's \<Rightarrow> bool \<times> 's" where
  "renew_tick cl ttl l t s =
     (case rcRenew cl t (rlKey l) (rlToken l) (lock_millis ttl) s of
        (Inl err, s1) \<Rightarrow> (False, s1)
      | (Inr n, s1) \<Rightarrow> (n \<noteq> 0, s1))"

text \<open>The loop over what its \<^verbatim>\<open>select\<close> receives: the cancellation, or a tick at a time of the server.\<close>

datatype renew_event = CtxDone | Tick time

fun renewLoop :: "'s redis_client \<Rightarrow> duration \<Rightarrow> rlease \<Rightarrow> renew_event list \<Rightarrow> 's \<Rightarrow> 's" where
  "renewLoop cl ttl l [] s = s"
| "renewLoop cl ttl l (CtxDone # es) s = s"
| "renewLoop cl ttl l (Tick t # es) s =
     (case renew_tick cl ttl l t s of (again, s1) \<Rightarrow> if again then renewLoop cl ttl l es s1 else s1)"

text \<open>The local step under the mutex: recorded, or to be deleted again.\<close>

definition redis_record :: "rlease \<Rightarrow> redis_coordinator \<Rightarrow> bool \<times> redis_coordinator" where
  "redis_record l c =
     (case rzHeld c of
        None \<Rightarrow> (False, c)
      | Some held \<Rightarrow> if rzClosing c then (False, c) else (True, c\<lparr>rzHeld := Some (l # held)\<rparr>))"

definition redis_TryAcquire ::
    "'s redis_client \<Rightarrow> (string \<Rightarrow> string) \<Rightarrow> string \<Rightarrow> time \<Rightarrow> time \<Rightarrow> string \<Rightarrow> redis_coordinator \<Rightarrow> 's \<Rightarrow>
     rlease option result \<times> redis_coordinator \<times> 's" where
  "redis_TryAcquire cl sha token t t' feedURL c s =
     (let key = redis_lockKey sha feedURL; l = \<lparr>rlKey = key, rlToken = token\<rparr> in
      case rcSetNX cl t key token (rvLockTTL (rzOpts c)) s of
        (Inl err, s1) \<Rightarrow> (Inl (Errorf ''coord/redis: SET NX EX: %w'' [FWrap err]), c, s1)
      | (Inr False, s1) \<Rightarrow> (Inr None, c, s1)
      | (Inr True, s1) \<Rightarrow>
          (case redis_record l c of
             (True, c1) \<Rightarrow> (Inr (Some l), c1, s1)
           | (False, c1) \<Rightarrow> (Inr None, c1, casDelete cl t' c1 l s1)))"

definition redis_forget :: "rlease \<Rightarrow> redis_coordinator \<Rightarrow> bool \<times> redis_coordinator" where
  "redis_forget l c =
     (case rzHeld c of
        None \<Rightarrow> (False, c)
      | Some held \<Rightarrow> if l \<notin> set held then (False, c) else (True, c\<lparr>rzHeld := Some (removeAll l held)\<rparr>))"

text \<open>The renewal loop is cancelled and waited for before the key is deleted: \<open>es\<close> are the ticks it still
  sees.\<close>

definition redis_release ::
    "'s redis_client \<Rightarrow> renew_event list \<Rightarrow> time \<Rightarrow> rlease \<Rightarrow> redis_coordinator \<Rightarrow> 's \<Rightarrow> redis_coordinator \<times> 's" where
  "redis_release cl es t l c s =
     (case redis_forget l c of
        (False, c1) \<Rightarrow> (c1, s)
      | (True, c1) \<Rightarrow> (c1, casDelete cl t c1 l (renewLoop cl (rvLockTTL (rzOpts c)) l (es @ [CtxDone]) s)))"

definition redis_closing :: "redis_coordinator \<Rightarrow> rlease list \<times> redis_coordinator" where
  "redis_closing c =
     (case rzHeld c of None \<Rightarrow> ([], c) | Some held \<Rightarrow> (held, c\<lparr>rzHeld := None, rzClosing := True\<rparr>))"

text \<open>\<open>order\<close> is the order in which the map of held leases is visited, \<open>at\<close> when each is deleted.\<close>

definition redis_Close ::
    "'s redis_client \<Rightarrow> (rlease list \<Rightarrow> rlease list) \<Rightarrow> (rlease \<Rightarrow> renew_event list) \<Rightarrow> (rlease \<Rightarrow> time) \<Rightarrow>
     redis_coordinator \<Rightarrow> 's \<Rightarrow> redis_coordinator \<times> 's" where
  "redis_Close cl order es at_time c s =
     (if rzHeld c = None then (c, s)
      else case redis_closing c of
        (held, c1) \<Rightarrow>
          (c1\<lparr>rzClosed := True\<rparr>,
           fold (\<lambda>l s. casDelete cl (at_time l) c1 l (renewLoop cl (rvLockTTL (rzOpts c)) l (es l @ [CtxDone]) s))
             (order held) s))"

subsection \<open>Renewal comes before expiry\<close>

text \<open>With the options that the validation of the configuration accepts (a lifetime of at least a second,
  an interval below it), the interval that is used is positive and shorter than the lifetime.\<close>

lemma resolved_renewal:
  assumes "roLockTTL opts \<noteq> 0 \<Longrightarrow> second \<le> roLockTTL opts"
    and "roRenewalInterval opts \<noteq> 0 \<Longrightarrow> roRenewalInterval opts < (if roLockTTL opts = 0 then 30 * second else roLockTTL opts)"
  shows "0 < rvRenewalInterval (resolved opts) \<and> rvRenewalInterval (resolved opts) < rvLockTTL (resolved opts) \<and>
    second \<le> rvLockTTL (resolved opts)"
  using assms by (cases "roLockTTL opts = 0") (auto simp: resolved_def Let_def second_def)

text \<open>No client is left behind by a constructor that fails.\<close>

lemma redis_New_no_leak:
  assumes "redis_New parseURL env ping shut c opts s = (Inl err, s')"
  shows "s' = s \<or> (\<exists>client err' s1. ping client c s = (Some err', s1) \<and> s' = shut client s1)"
  using assms by (auto simp: redis_New_def split: sum.splits prod.splits option.splits)

subsection \<open>A fleet\<close>

text \<open>
  Process \<open>k\<close> of instance \<open>i\<close> is one goroutine that acquires, releases or closes; the renewal loops that run
  are a set.  Tokens are never used twice.  All instances run with the same lifetime of a lock.
\<close>

datatype rpc = RIdle | RRecording rlease | RDeleting "rlease list"

record 's redis_fleet =
  rfNow :: time
  rfWorld :: 's
  rfNodes :: "nat \<Rightarrow> redis_coordinator"
  rfPC :: "nat \<Rightarrow> nat \<Rightarrow> rpc"
  rfLoops :: "nat \<Rightarrow> rlease set"
  rfUsed :: "string set"
  rfUntil :: "string \<Rightarrow> time"

definition rdeleting :: "rlease list \<Rightarrow> rpc" where
  "rdeleting ls = (if ls = [] then RIdle else RDeleting ls)"

definition rjump :: "'s redis_fleet \<Rightarrow> nat \<Rightarrow> nat \<Rightarrow> rpc \<Rightarrow> redis_coordinator \<Rightarrow> 's redis_fleet" where
  "rjump f i k p c = f\<lparr>rfNodes := (rfNodes f)(i := c), rfPC := (rfPC f)(i := (rfPC f i)(k := p))\<rparr>"

definition kept_for :: "duration \<Rightarrow> duration" where
  "kept_for ttl = lock_millis ttl * millisecond"

inductive redis_step :: "'s redis_client \<Rightarrow> (string \<Rightarrow> string) \<Rightarrow> 's redis_fleet \<Rightarrow> 's redis_fleet \<Rightarrow> bool"
  for cl :: "'s redis_client" and sha :: "string \<Rightarrow> string" where
  pass: "0 \<le> d \<Longrightarrow> redis_step cl sha f (f\<lparr>rfNow := rfNow f + d\<rparr>)"
| setnx_won: "rfPC f i k = RIdle \<Longrightarrow> token \<notin> rfUsed f \<Longrightarrow>
    rcSetNX cl (rfNow f) (redis_lockKey sha u) token (rvLockTTL (rzOpts (rfNodes f i))) (rfWorld f) = (Inr True, s) \<Longrightarrow>
    redis_step cl sha f
      (rjump (f\<lparr>rfWorld := s, rfUsed := insert token (rfUsed f),
         rfUntil := (rfUntil f)(token := rfNow f + kept_for (rvLockTTL (rzOpts (rfNodes f i))))\<rparr>)
         i k (RRecording \<lparr>rlKey = redis_lockKey sha u, rlToken = token\<rparr>) (rfNodes f i))"
| setnx_lost: "rfPC f i k = RIdle \<Longrightarrow> token \<notin> rfUsed f \<Longrightarrow>
    rcSetNX cl (rfNow f) (redis_lockKey sha u) token (rvLockTTL (rzOpts (rfNodes f i))) (rfWorld f) = (r, s) \<Longrightarrow>
    r \<noteq> Inr True \<Longrightarrow>
    redis_step cl sha f (f\<lparr>rfWorld := s, rfUsed := insert token (rfUsed f)\<rparr>)"
| recorded: "rfPC f i k = RRecording l \<Longrightarrow> redis_record l (rfNodes f i) = (True, c) \<Longrightarrow>
    redis_step cl sha f (rjump (f\<lparr>rfLoops := (rfLoops f)(i := insert l (rfLoops f i))\<rparr>) i k RIdle c)"
| refused: "rfPC f i k = RRecording l \<Longrightarrow> redis_record l (rfNodes f i) = (False, c) \<Longrightarrow>
    redis_step cl sha f (rjump f i k (RDeleting [l]) c)"
| renewed: "l \<in> rfLoops f i \<Longrightarrow> renew_tick cl (rvLockTTL (rzOpts (rfNodes f i))) l (rfNow f) (rfWorld f) = (True, s) \<Longrightarrow>
    redis_step cl sha f (f\<lparr>rfWorld := s,
      rfUntil := (rfUntil f)(rlToken l := rfNow f + kept_for (rvLockTTL (rzOpts (rfNodes f i))))\<rparr>)"
| renew_failed: "l \<in> rfLoops f i \<Longrightarrow> renew_tick cl (rvLockTTL (rzOpts (rfNodes f i))) l (rfNow f) (rfWorld f) = (False, s) \<Longrightarrow>
    redis_step cl sha f (f\<lparr>rfWorld := s, rfLoops := (rfLoops f)(i := rfLoops f i - {l})\<rparr>)"
| released: "rfPC f i k = RIdle \<Longrightarrow> redis_forget l (rfNodes f i) = (True, c) \<Longrightarrow>
    redis_step cl sha f (rjump f i k (RDeleting [l]) c)"
| closing: "rfPC f i k = RIdle \<Longrightarrow> redis_closing (rfNodes f i) = (held, c) \<Longrightarrow> set ls = set held \<Longrightarrow>
    redis_step cl sha f (rjump f i k (rdeleting ls) c)"
| cancelled: "rfPC f i k = RDeleting ls \<Longrightarrow> l \<in> set ls \<Longrightarrow>
    redis_step cl sha f (f\<lparr>rfLoops := (rfLoops f)(i := rfLoops f i - {l})\<rparr>)"
| deleted: "rfPC f i k = RDeleting (l # ls) \<Longrightarrow> l \<notin> rfLoops f i \<Longrightarrow>
    redis_step cl sha f
      (rjump (f\<lparr>rfWorld := casDelete cl (rfNow f) (rfNodes f i) l (rfWorld f)\<rparr>) i k (rdeleting ls) (rfNodes f i))"
| shut: "rzHeld (rfNodes f i) = None \<Longrightarrow>
    redis_step cl sha f (f\<lparr>rfNodes := (rfNodes f)(i := (rfNodes f i)\<lparr>rzClosed := True\<rparr>)\<rparr>)"
| crash: "rzHeld c = Some [] \<Longrightarrow> rzOpts c = rzOpts (rfNodes f i) \<Longrightarrow>
    redis_step cl sha f (f\<lparr>rfNodes := (rfNodes f)(i := c), rfPC := (rfPC f)(i := (\<lambda>_. RIdle)),
      rfLoops := (rfLoops f)(i := {})\<rparr>)"

subsection \<open>What is relied on of the server\<close>

text \<open>\<open>view\<close> is the value of a key and when it expires.  A call that reports an error had no effect, or took
  effect because its condition held.\<close>

type_synonym 's keyspace = "'s \<Rightarrow> string \<Rightarrow> (string \<times> time) option"

definition alive :: "(string \<times> time) option \<Rightarrow> time \<Rightarrow> bool" where
  "alive v t \<longleftrightarrow> (case v of None \<Rightarrow> False | Some (_, d) \<Rightarrow> t < d)"

definition holds :: "(string \<times> time) option \<Rightarrow> string \<Rightarrow> time \<Rightarrow> bool" where
  "holds v token t \<longleftrightarrow> (case v of None \<Rightarrow> False | Some (x, d) \<Rightarrow> x = token \<and> t < d)"

definition setnx_ok :: "'s redis_client \<Rightarrow> 's keyspace \<Rightarrow> bool" where
  "setnx_ok cl view \<longleftrightarrow>
     (\<forall>t k token ttl s r s'. rcSetNX cl t k token ttl s = (r, s') \<longrightarrow>
        (\<not> alive (view s k) t \<and> (\<exists>d\<ge>t + kept_for ttl. view s' = (view s)(k \<mapsto> (token, d)))) \<or>
        (r \<noteq> Inr True \<and> view s' = view s))"

definition renew_ok :: "'s redis_client \<Rightarrow> 's keyspace \<Rightarrow> bool" where
  "renew_ok cl view \<longleftrightarrow>
     (\<forall>t k token ms s r s'. rcRenew cl t k token ms s = (r, s') \<longrightarrow>
        (holds (view s k) token t \<and> view s' = (view s)(k \<mapsto> (token, t + ms * millisecond))) \<or>
        ((\<exists>e. r = Inl e) \<or> r = Inr 0) \<and> view s' = view s)"

definition release_ok :: "'s redis_client \<Rightarrow> 's keyspace \<Rightarrow> bool" where
  "release_ok cl view \<longleftrightarrow>
     (\<forall>t k token s r s'. rcRelease cl t k token s = (r, s') \<longrightarrow>
        (holds (view s k) token t \<and> view s' = (view s)(k := None)) \<or> view s' = view s)"

definition redis_ok :: "'s redis_client \<Rightarrow> 's keyspace \<Rightarrow> bool" where
  "redis_ok cl view \<longleftrightarrow> setnx_ok cl view \<and> renew_ok cl view \<and> release_ok cl view"

subsection \<open>The invariant\<close>

definition redis_held :: "redis_coordinator \<Rightarrow> rlease set" where
  "redis_held c = (case rzHeld c of None \<Rightarrow> {} | Some held \<Rightarrow> set held)"

fun redis_at :: "'s redis_fleet \<Rightarrow> place \<Rightarrow> rlease set" where
  "redis_at f (HeldAt i) = redis_held (rfNodes f i)"
| "redis_at f (RecordedAt i k) = (case rfPC f i k of RRecording l \<Rightarrow> {l} | _ \<Rightarrow> {})"
| "redis_at f (DeletedAt i k) = (case rfPC f i k of RDeleting ls \<Rightarrow> set ls | _ \<Rightarrow> {})"

text \<open>A lease that was confirmed less than its lifetime ago is the value of its key, for at least as long.\<close>

definition row_kept :: "'s keyspace \<Rightarrow> 's redis_fleet \<Rightarrow> rlease \<Rightarrow> bool" where
  "row_kept view f l \<longleftrightarrow> (\<exists>d\<ge>rfUntil f (rlToken l). view (rfWorld f) (rlKey l) = Some (rlToken l, d))"

definition loops_ok :: "'s redis_fleet \<Rightarrow> bool" where
  "loops_ok f \<longleftrightarrow>
     (\<forall>i. \<forall>l\<in>rfLoops f i. rlToken l \<in> rfUsed f \<and> (\<forall>p. \<forall>x\<in>redis_at f p. rlToken x = rlToken l \<longrightarrow> x = l))"

definition tokens_ok :: "duration \<Rightarrow> 's redis_fleet \<Rightarrow> bool" where
  "tokens_ok ttl f \<longleftrightarrow> one_place rlToken (redis_at f) \<and> (\<forall>i. rvLockTTL (rzOpts (rfNodes f i)) = ttl) \<and>
     (\<forall>p. \<forall>l\<in>redis_at f p. rlToken l \<in> rfUsed f \<and> rfUntil f (rlToken l) \<le> rfNow f + kept_for ttl)"

definition rows_kept :: "'s keyspace \<Rightarrow> 's redis_fleet \<Rightarrow> bool" where
  "rows_kept view f \<longleftrightarrow>
     (\<forall>p l. winner p \<longrightarrow> l \<in> redis_at f p \<longrightarrow> rfNow f < rfUntil f (rlToken l) \<longrightarrow> row_kept view f l)"

definition redis_inv :: "duration \<Rightarrow> 's keyspace \<Rightarrow> 's redis_fleet \<Rightarrow> bool" where
  "redis_inv ttl view f \<longleftrightarrow> tokens_ok ttl f \<and> loops_ok f \<and> rows_kept view f"

lemma redis_invD:
  assumes "redis_inv ttl view f"
  shows "one_place rlToken (redis_at f)" "rvLockTTL (rzOpts (rfNodes f i)) = ttl"
    and "l \<in> redis_at f p \<Longrightarrow> rlToken l \<in> rfUsed f"
    and "l \<in> redis_at f p \<Longrightarrow> rfUntil f (rlToken l) \<le> rfNow f + kept_for ttl"
    and "x \<in> rfLoops f j \<Longrightarrow> rlToken x \<in> rfUsed f"
    and "x \<in> rfLoops f j \<Longrightarrow> l \<in> redis_at f p \<Longrightarrow> rlToken l = rlToken x \<Longrightarrow> l = x"
    and "winner p \<Longrightarrow> l \<in> redis_at f p \<Longrightarrow> rfNow f < rfUntil f (rlToken l) \<Longrightarrow>
      \<exists>d\<ge>rfUntil f (rlToken l). view (rfWorld f) (rlKey l) = Some (rlToken l, d)"
proof -
  note i = assms [unfolded redis_inv_def tokens_ok_def loops_ok_def rows_kept_def row_kept_def]
  show "one_place rlToken (redis_at f)" "rvLockTTL (rzOpts (rfNodes f i)) = ttl"
    "l \<in> redis_at f p \<Longrightarrow> rlToken l \<in> rfUsed f"
    "l \<in> redis_at f p \<Longrightarrow> rfUntil f (rlToken l) \<le> rfNow f + kept_for ttl" using i by blast+
  show "x \<in> rfLoops f j \<Longrightarrow> rlToken x \<in> rfUsed f"
    "x \<in> rfLoops f j \<Longrightarrow> l \<in> redis_at f p \<Longrightarrow> rlToken l = rlToken x \<Longrightarrow> l = x" using i by blast+
  show "winner p \<Longrightarrow> l \<in> redis_at f p \<Longrightarrow> rfNow f < rfUntil f (rlToken l) \<Longrightarrow>
      \<exists>d\<ge>rfUntil f (rlToken l). view (rfWorld f) (rlKey l) = Some (rlToken l, d)" using i by blast
qed

text \<open>Two live leases for one key are one lease.\<close>

lemma live_same:
  assumes inv: "redis_inv ttl view f" and p: "winner p" "l \<in> redis_at f p" "rfNow f < rfUntil f (rlToken l)"
    and v: "view (rfWorld f) (rlKey l) = Some (x, d)"
  shows "x = rlToken l \<and> rfNow f < d"
  using redis_invD(7) [OF inv p] v p(3) by auto

subsection \<open>Every step keeps it\<close>

text \<open>Leases that move.\<close>

lemma relocate:
  assumes inv: "redis_inv ttl view f"
    and same: "rfNow f' = rfNow f" "rfWorld f' = rfWorld f" "rfUsed f' = rfUsed f" "rfUntil f' = rfUntil f"
    and ttl: "\<And>i. rzOpts (rfNodes f' i) = rzOpts (rfNodes f i)"
    and one: "one_place rlToken (redis_at f')"
    and from_old: "\<And>p l. l \<in> redis_at f' p \<Longrightarrow> \<exists>q. l \<in> redis_at f q \<and> (winner p \<longrightarrow> winner q)"
    and loops: "\<And>i l. l \<in> rfLoops f' i \<Longrightarrow> (\<exists>j. l \<in> rfLoops f j) \<or> (\<exists>q. l \<in> redis_at f q)"
  shows "redis_inv ttl view f'"
proof -
  have "tokens_ok ttl f'"
    using one redis_invD(2-4) [OF inv] from_old unfolding tokens_ok_def same ttl by blast
  moreover have "loops_ok f'"
    unfolding loops_ok_def same
  proof (intro allI ballI conjI impI)
    fix i l
    assume l: "l \<in> rfLoops f' i"
    then show "rlToken l \<in> rfUsed f" using loops redis_invD(3,5) [OF inv] by blast
    fix p x
    assume x: "x \<in> redis_at f' p" "rlToken x = rlToken l"
    then obtain q where q: "x \<in> redis_at f q" using from_old by blast
    show "x = l"
    proof (cases "\<exists>j. l \<in> rfLoops f j")
      case True
      with redis_invD(6) [OF inv _ q x(2)] show ?thesis by blast
    next
      case False
      with loops [OF l] obtain q' where "l \<in> redis_at f q'" by blast
      with q x(2) redis_invD(1) [OF inv] show ?thesis unfolding one_place_def by blast
    qed
  qed
  moreover have "rows_kept view f'"
    unfolding rows_kept_def row_kept_def same using redis_invD(7) [OF inv] from_old by blast
  ultimately show ?thesis by (simp add: redis_inv_def)
qed

text \<open>The server changes a key that no live lease has, or extends the lease whose token it holds.\<close>

lemma touch_key:
  assumes inv: "redis_inv ttl view f"
    and same: "rfNow f' = rfNow f" "rfUsed f \<subseteq> rfUsed f'" "rfNodes f' = rfNodes f" "\<And>i. rfLoops f' i \<subseteq> rfLoops f i" "redis_at f' = redis_at f"
    and until: "\<And>p l. l \<in> redis_at f p \<Longrightarrow> rfUntil f' (rlToken l) = rfUntil f (rlToken l) \<or> rfUntil f' (rlToken l) = rfNow f + kept_for ttl"
    and rows: "\<And>p l. winner p \<Longrightarrow> l \<in> redis_at f p \<Longrightarrow> rfNow f < rfUntil f' (rlToken l) \<Longrightarrow>
      \<exists>d\<ge>rfUntil f' (rlToken l). view (rfWorld f') (rlKey l) = Some (rlToken l, d)"
  shows "redis_inv ttl view f'"
proof -
  have "tokens_ok ttl f'"
    using redis_invD(1-4) [OF inv] until same(2) unfolding tokens_ok_def same by (metis order_refl subsetD)
  moreover have "loops_ok f'"
    using redis_invD(5,6) [OF inv] same(2,4) unfolding loops_ok_def same by blast
  moreover have "rows_kept view f'"
    using rows unfolding rows_kept_def row_kept_def same by blast
  ultimately show ?thesis by (simp add: redis_inv_def)
qed

lemma redis_at_cong: "rfNodes f' = rfNodes f \<Longrightarrow> rfPC f' = rfPC f \<Longrightarrow> redis_at f' = redis_at f"
proof
  show "redis_at f' p = redis_at f p" if "rfNodes f' = rfNodes f" "rfPC f' = rfPC f" for p
    using that by (cases p) simp_all
qed

lemma redis_at_upd [simp]:
  "redis_at (f\<lparr>rfWorld := s\<rparr>) = redis_at f" "redis_at (f\<lparr>rfUsed := u\<rparr>) = redis_at f"
  "redis_at (f\<lparr>rfUntil := t\<rparr>) = redis_at f" "redis_at (f\<lparr>rfLoops := ls\<rparr>) = redis_at f"
  "redis_at (f\<lparr>rfNow := n\<rparr>) = redis_at f"
  by (rule redis_at_cong; simp)+

lemma rjump_sel [simp]:
  "rfNow (rjump f i k p c) = rfNow f" "rfWorld (rjump f i k p c) = rfWorld f" "rfUsed (rjump f i k p c) = rfUsed f"
  "rfUntil (rjump f i k p c) = rfUntil f" "rfLoops (rjump f i k p c) = rfLoops f"
  "rfNodes (rjump f i k p c) a = (if a = i then c else rfNodes f a)"
  "rfPC (rjump f i k p c) a b = (if a = i \<and> b = k then p else rfPC f a b)"
  by (simp_all add: rjump_def)

lemma setnx_free:
  assumes ok: "redis_ok cl view" and inv: "redis_inv ttl view f"
    and run: "rcSetNX cl (rfNow f) key token t (rfWorld f) = (r, s)"
    and l: "winner p" "l \<in> redis_at f p" "rfNow f < rfUntil f (rlToken l)"
  shows "view s (rlKey l) = view (rfWorld f) (rlKey l)"
proof -
  obtain d where "view (rfWorld f) (rlKey l) = Some (rlToken l, d)" "rfUntil f (rlToken l) \<le> d"
    using redis_invD(7) [OF inv l] by blast
  with l(3) have "alive (view (rfWorld f) (rlKey l)) (rfNow f)" by (simp add: alive_def)
  moreover have "(\<not> alive (view (rfWorld f) key) (rfNow f) \<and> (\<exists>d. view s = (view (rfWorld f))(key \<mapsto> (token, d)))) \<or>
      view s = view (rfWorld f)"
    using ok run unfolding redis_ok_def setnx_ok_def by blast
  ultimately show ?thesis by auto
qed

lemma setnx_lost_keeps:
  assumes ok: "redis_ok cl view" and inv: "redis_inv ttl view f"
    and run: "rcSetNX cl (rfNow f) key token t (rfWorld f) = (r, s)"
  shows "redis_inv ttl view (f\<lparr>rfWorld := s, rfUsed := insert token (rfUsed f)\<rparr>)"
  by (rule touch_key [OF inv])
    (use setnx_free [OF ok inv run] redis_invD(7) [OF inv] in auto)

lemma setnx_won_keeps:
  assumes ok: "redis_ok cl view" and inv: "redis_inv ttl view f" and pc: "rfPC f i k = RIdle" and fresh: "token \<notin> rfUsed f"
    and run: "rcSetNX cl (rfNow f) key token ttl (rfWorld f) = (Inr True, s)"
  shows "redis_inv ttl view
      (rjump (f\<lparr>rfWorld := s, rfUsed := insert token (rfUsed f), rfUntil := (rfUntil f)(token := rfNow f + kept_for ttl)\<rparr>)
         i k (RRecording \<lparr>rlKey = key, rlToken = token\<rparr>) (rfNodes f i))" (is "redis_inv ttl view ?f")
proof -
  let ?l = "\<lparr>rlKey = key, rlToken = token\<rparr>"
  have at: "redis_at ?f p = (if p = RecordedAt i k then {?l} else redis_at f p)" for p
    using pc by (cases p) simp_all
  have new: "rlToken x \<noteq> token" if "x \<in> redis_at f p" for x p using redis_invD(3) [OF inv that] fresh by blast
  have "one_place rlToken (redis_at ?f)"
    by (rule one_place_new [of rlToken "redis_at f" ?l _ "RecordedAt i k"])
      (use redis_invD(1) [OF inv] new in \<open>auto simp: at\<close>)
  then have "tokens_ok ttl ?f"
    using redis_invD(2-4) [OF inv] new unfolding tokens_ok_def by (auto simp: at)
  moreover have "loops_ok ?f"
    unfolding loops_ok_def
  proof (intro allI ballI conjI impI)
    fix j x
    assume "x \<in> rfLoops ?f j"
    then have x: "x \<in> rfLoops f j" by simp
    show "rlToken x \<in> rfUsed ?f" using redis_invD(5) [OF inv x] by simp
    fix p y
    assume y: "y \<in> redis_at ?f p" "rlToken y = rlToken x"
    have "y \<noteq> ?l" using y(2) redis_invD(5) [OF inv x] fresh by auto
    with y(1) have "y \<in> redis_at f p" by (simp add: at split: if_splits)
    then show "y = x" using redis_invD(6) [OF inv x _ y(2)] by blast
  qed
  moreover have "rows_kept view ?f"
    unfolding rows_kept_def row_kept_def
  proof (intro allI impI)
    fix p x
    assume x: "winner p" "x \<in> redis_at ?f p" "rfNow ?f < rfUntil ?f (rlToken x)"
    have "\<exists>d\<ge>rfNow f + kept_for ttl. view s = (view (rfWorld f))(key \<mapsto> (token, d))"
      using ok run unfolding redis_ok_def setnx_ok_def by blast
    then have "\<exists>d\<ge>rfNow f + kept_for ttl. view s key = Some (token, d)" by auto
    moreover have "\<exists>d\<ge>rfUntil f (rlToken x). view s (rlKey x) = Some (rlToken x, d)" if q: "x \<in> redis_at f p"
      using setnx_free [OF ok inv run x(1) q] redis_invD(7) [OF inv x(1) q] x(3) new [OF q] by simp
    ultimately show "\<exists>d\<ge>rfUntil ?f (rlToken x). view (rfWorld ?f) (rlKey x) = Some (rlToken x, d)"
      using x(2) new by (auto simp: at split: if_splits)
  qed
  ultimately show ?thesis by (simp add: redis_inv_def)
qed

lemma renew_row:
  assumes ok: "redis_ok cl view" and run: "renew_tick cl ttl l t s = (b, s')"
  shows "holds (view s (rlKey l)) (rlToken l) t \<and> view s' = (view s)(rlKey l \<mapsto> (rlToken l, t + kept_for ttl)) \<or>
    \<not> b \<and> view s' = view s"
proof -
  obtain r s1 where r: "rcRenew cl t (rlKey l) (rlToken l) (lock_millis ttl) s = (r, s1)" by fastforce
  with run have eq: "s1 = s'" "b \<longleftrightarrow> (\<exists>n. r = Inr n \<and> n \<noteq> 0)" by (auto simp: renew_tick_def split: sum.splits)
  have "(holds (view s (rlKey l)) (rlToken l) t \<and> view s1 = (view s)(rlKey l \<mapsto> (rlToken l, t + lock_millis ttl * millisecond))) \<or>
        ((\<exists>e. r = Inl e) \<or> r = Inr 0) \<and> view s1 = view s"
    using ok r unfolding redis_ok_def renew_ok_def by blast
  with eq show ?thesis by (auto simp: kept_for_def)
qed

text \<open>A renewal that takes effect is the lease's own.\<close>

lemma renewal_keeps:
  assumes ok: "redis_ok cl view" and inv: "redis_inv ttl view f" and l: "l \<in> rfLoops f i"
    and run: "renew_tick cl ttl l (rfNow f) (rfWorld f) = (b, s)"
    and f': "rfNow f' = rfNow f" "rfUsed f' = rfUsed f" "rfNodes f' = rfNodes f" "rfPC f' = rfPC f" "rfWorld f' = s"
      "\<And>j. rfLoops f' j \<subseteq> rfLoops f j"
      "rfUntil f' = (if b then (rfUntil f)(rlToken l := rfNow f + kept_for ttl) else rfUntil f)"
  shows "redis_inv ttl view f'"
proof (rule touch_key [OF inv f'(1) _ f'(3,6)])
  show "rfUsed f \<subseteq> rfUsed f'" using f'(2) by simp
  show "redis_at f' = redis_at f" by (rule redis_at_cong [OF f'(3,4)])
  show "rfUntil f' (rlToken x) = rfUntil f (rlToken x) \<or> rfUntil f' (rlToken x) = rfNow f + kept_for ttl"
    for p x using f'(7) by auto
  fix p x
  assume x: "winner p" "x \<in> redis_at f p" "rfNow f < rfUntil f' (rlToken x)"
  note row = renew_row [OF ok run]
  show "\<exists>d\<ge>rfUntil f' (rlToken x). view (rfWorld f') (rlKey x) = Some (rlToken x, d)"
  proof (cases "rlToken x = rlToken l")
    case True
    then have "x = l" by (rule redis_invD(6) [OF inv l x(2)])
    with row redis_invD(4,7) [OF inv] x f'(5,7) show ?thesis by (cases b) fastforce+
  next
    case False
    then have u: "rfUntil f' (rlToken x) = rfUntil f (rlToken x)" using f'(7) by simp
    then obtain d where d: "rfUntil f (rlToken x) \<le> d" "view (rfWorld f) (rlKey x) = Some (rlToken x, d)"
      using redis_invD(7) [OF inv x(1,2)] x(3) by auto
    with False row have "view s (rlKey x) = Some (rlToken x, d)" by (auto simp: holds_def)
    with d u f'(5) show ?thesis by auto
  qed
qed

lemma delete_row:
  assumes ok: "redis_ok cl view" and inv: "redis_inv ttl view f" and pc: "rfPC f i k = RDeleting (l # ls)"
  shows "redis_inv ttl view (f\<lparr>rfWorld := casDelete cl (rfNow f) c l (rfWorld f)\<rparr>)" (is "redis_inv ttl view ?f")
proof (rule touch_key [OF inv])
  fix p x
  assume x: "winner p" "x \<in> redis_at f p" "rfNow f < rfUntil ?f (rlToken x)"
  then obtain d where d: "rfUntil f (rlToken x) \<le> d" "view (rfWorld f) (rlKey x) = Some (rlToken x, d)"
    using redis_invD(7) [OF inv x(1,2)] by auto
  have "rlToken x \<noteq> rlToken l"
  proof
    assume "rlToken x = rlToken l"
    moreover have "l \<in> redis_at f (DeletedAt i k)" using pc by simp
    ultimately have "p = DeletedAt i k" using redis_invD(1) [OF inv] x(2) unfolding one_place_def by blast
    with x(1) show False by simp
  qed
  moreover obtain r s' where r: "rcRelease cl (rfNow f) (rlKey l) (rlToken l) (rfWorld f) = (r, s')" by fastforce
  moreover have "(holds (view (rfWorld f) (rlKey l)) (rlToken l) (rfNow f) \<and> view s' = (view (rfWorld f))(rlKey l := None)) \<or>
      view s' = view (rfWorld f)"
    using ok r unfolding redis_ok_def release_ok_def by blast
  ultimately have "view (rfWorld ?f) (rlKey x) = Some (rlToken x, d)"
    using d(2) by (auto simp: casDelete_def holds_def)
  with d(1) show "\<exists>d\<ge>rfUntil ?f (rlToken x). view (rfWorld ?f) (rlKey x) = Some (rlToken x, d)" by auto
qed simp_all

lemma move_keeps:
  assumes inv: "redis_inv ttl view f"
    and M: "M \<subseteq> redis_at f src" "redis_at f' src \<inter> M = {}" "redis_at f' dst \<subseteq> redis_at f dst \<union> M" "winner dst \<Longrightarrow> winner src"
    and other: "\<And>p. p \<noteq> dst \<Longrightarrow> redis_at f' p \<subseteq> redis_at f p"
    and same: "rfNow f' = rfNow f" "rfWorld f' = rfWorld f" "rfUsed f' = rfUsed f" "rfUntil f' = rfUntil f"
    and ttl: "\<And>i. rzOpts (rfNodes f' i) = rzOpts (rfNodes f i)"
    and loops: "\<And>i. rfLoops f' i \<subseteq> rfLoops f i \<union> M"
  shows "redis_inv ttl view f'"
proof (rule relocate [OF inv same ttl])
  show "one_place rlToken (redis_at f')" by (rule one_place_move [OF redis_invD(1) [OF inv] M(1-3) other])
  show "\<exists>q. l \<in> redis_at f q \<and> (winner p \<longrightarrow> winner q)" if "l \<in> redis_at f' p" for p l
    using that M(1,3,4) other by (cases "p = dst") blast+
  show "(\<exists>j. l \<in> rfLoops f j) \<or> (\<exists>q. l \<in> redis_at f q)" if "l \<in> rfLoops f' i" for i l
    using that loops M(1) by blast
qed

lemma shrink_keeps:
  assumes inv: "redis_inv ttl view f" and sub: "\<And>p. redis_at f' p \<subseteq> redis_at f p"
    and same: "rfNow f' = rfNow f" "rfWorld f' = rfWorld f" "rfUsed f' = rfUsed f" "rfUntil f' = rfUntil f"
    and ttl: "\<And>i. rzOpts (rfNodes f' i) = rzOpts (rfNodes f i)" and loops: "\<And>i. rfLoops f' i \<subseteq> rfLoops f i"
  shows "redis_inv ttl view f'"
proof (rule relocate [OF inv same ttl])
  show "one_place rlToken (redis_at f')" by (rule one_place_shrink [OF redis_invD(1) [OF inv] sub])
qed (use sub loops in blast)+

lemma redis_record_sel:
  assumes "redis_record l c0 = (b, c)"
  shows "rzOpts c = rzOpts c0" "redis_held c = (if b then insert l (redis_held c0) else redis_held c0)"
  using assms by (auto simp: redis_record_def redis_held_def split: option.splits if_splits)

lemma redis_forget_sel:
  assumes "redis_forget l c0 = (True, c)"
  shows "rzOpts c = rzOpts c0" "redis_held c = redis_held c0 - {l}" "l \<in> redis_held c0"
  using assms by (auto simp: redis_forget_def redis_held_def split: option.splits if_splits)

lemma redis_closing_sel:
  assumes "redis_closing c0 = (held, c)"
  shows "rzOpts c = rzOpts c0" "redis_held c = {}" "set held = redis_held c0"
  using assms by (auto simp: redis_closing_def redis_held_def split: option.splits)

lemma recorded_keeps:
  assumes inv: "redis_inv ttl view f" and pc: "rfPC f i k = RRecording l" and run: "redis_record l (rfNodes f i) = (True, c)"
  shows "redis_inv ttl view (rjump (f\<lparr>rfLoops := (rfLoops f)(i := insert l (rfLoops f i))\<rparr>) i k RIdle c)"
    (is "redis_inv ttl view ?f")
proof (rule move_keeps [OF inv, of "{l}" "RecordedAt i k" _ "HeldAt i"])
  note c = redis_record_sel [OF run]
  show "redis_at ?f p \<subseteq> redis_at f p" if "p \<noteq> HeldAt i" for p using that by (cases p) auto
qed (use pc redis_record_sel [OF run] in auto)

lemma give_up_lease:
  assumes inv: "redis_inv ttl view f" and pc: "rfPC f i k = RIdle" and c: "rzOpts c = rzOpts (rfNodes f i)"
    and ls: "set ls \<subseteq> redis_held (rfNodes f i)" "redis_held c \<subseteq> redis_held (rfNodes f i)" "redis_held c \<inter> set ls = {}"
  shows "redis_inv ttl view (rjump f i k (rdeleting ls) c)" (is "redis_inv ttl view ?f")
proof (rule move_keeps [OF inv, of "set ls" "HeldAt i" _ "DeletedAt i k"])
  show "redis_at ?f p \<subseteq> redis_at f p" if "p \<noteq> DeletedAt i k" for p
    using that ls(2) by (cases p) (auto simp: rdeleting_def)
qed (use pc c ls in \<open>auto simp: rdeleting_def\<close>)

lemma refused_keeps:
  assumes inv: "redis_inv ttl view f" and pc: "rfPC f i k = RRecording l" and run: "redis_record l (rfNodes f i) = (False, c)"
  shows "redis_inv ttl view (rjump f i k (RDeleting [l]) c)" (is "redis_inv ttl view ?f")
proof (rule move_keeps [OF inv, of "{l}" "RecordedAt i k" _ "DeletedAt i k"])
  show "redis_at ?f p \<subseteq> redis_at f p" if "p \<noteq> DeletedAt i k" for p
    using that redis_record_sel [OF run] by (cases p) auto
qed (use pc redis_record_sel [OF run] in auto)

lemma deleted_keeps:
  assumes ok: "redis_ok cl view" and inv: "redis_inv ttl view f" and pc: "rfPC f i k = RDeleting (l # ls)"
  shows "redis_inv ttl view
      (rjump (f\<lparr>rfWorld := casDelete cl (rfNow f) (rfNodes f i) l (rfWorld f)\<rparr>) i k (rdeleting ls) (rfNodes f i))"
    (is "redis_inv ttl view ?f")
proof (rule shrink_keeps [OF delete_row [OF ok inv pc]])
  show "redis_at ?f p \<subseteq> redis_at (f\<lparr>rfWorld := casDelete cl (rfNow f) (rfNodes f i) l (rfWorld f)\<rparr>) p" for p
    using pc by (cases p) (auto simp: rdeleting_def)
qed simp_all

lemma redis_pass_keeps:
  assumes inv: "redis_inv ttl view f" and d: "0 \<le> d"
  shows "redis_inv ttl view (f\<lparr>rfNow := rfNow f + d\<rparr>)"
proof -
  have "tokens_ok ttl (f\<lparr>rfNow := rfNow f + d\<rparr>)"
    using redis_invD(1-4) [OF inv] d unfolding tokens_ok_def by (fastforce intro: order_trans)
  moreover have "loops_ok (f\<lparr>rfNow := rfNow f + d\<rparr>)" using inv by (simp add: redis_inv_def loops_ok_def)
  moreover have "rows_kept view (f\<lparr>rfNow := rfNow f + d\<rparr>)"
    unfolding rows_kept_def row_kept_def using redis_invD(7) [OF inv] d by auto
  ultimately show ?thesis by (simp add: redis_inv_def)
qed

lemma redis_step_inv:
  assumes ok: "redis_ok cl view" and step: "redis_step cl sha f f'" and inv: "redis_inv ttl view f"
  shows "redis_inv ttl view f'"
  using step
proof (cases rule: redis_step.cases)
  case pass
  then show ?thesis using redis_pass_keeps [OF inv] by simp
next
  case setnx_won
  from setnx_won_keeps [OF ok inv setnx_won(2,3)] setnx_won(1,4) show ?thesis by (simp add: redis_invD(2) [OF inv])
next
  case setnx_lost
  from setnx_lost_keeps [OF ok inv setnx_lost(4)] setnx_lost(1) show ?thesis by simp
next
  case recorded
  from recorded_keeps [OF inv recorded(2,3)] recorded(1) show ?thesis by simp
next
  case refused
  from refused_keeps [OF inv refused(2,3)] refused(1) show ?thesis by simp
next
  case (renewed l i s)
  then show ?thesis
    by (intro renewal_keeps [OF ok inv, of l i True s]) (auto simp: redis_invD(2) [OF inv])
next
  case (renew_failed l i s)
  then show ?thesis
    by (intro renewal_keeps [OF ok inv, of l i False s]) (auto simp: redis_invD(2) [OF inv])
next
  case (released i k l c)
  from give_up_lease [OF inv released(2), of c "[l]"] redis_forget_sel [OF released(3)] released(1) show ?thesis
    by (simp add: rdeleting_def)
next
  case (closing i k held c ls)
  from give_up_lease [OF inv closing(2), of c ls] redis_closing_sel [OF closing(3)] closing(1,4) show ?thesis by simp
next
  case cancelled
  then show ?thesis by (intro shrink_keeps [OF inv]) auto
next
  case deleted
  from deleted_keeps [OF ok inv deleted(2)] deleted(1) show ?thesis by simp
next
  case (shut i)
  have "redis_at f' p \<subseteq> redis_at f p" for p using shut by (cases p) (auto simp: redis_held_def)
  then show ?thesis by (rule shrink_keeps [OF inv]) (use shut in auto)
next
  case (crash c i)
  have "redis_at f' p \<subseteq> redis_at f p" for p using crash by (cases p) (auto simp: redis_held_def)
  then show ?thesis by (rule shrink_keeps [OF inv]) (use crash in auto)
qed

lemma redis_reach_inv:
  "(redis_step cl sha)\<^sup>*\<^sup>* f f' \<Longrightarrow> redis_ok cl view \<Longrightarrow> redis_inv ttl view f \<Longrightarrow> redis_inv ttl view f'"
  by (induction rule: rtranclp_induct) (auto intro: redis_step_inv)

definition fresh_redis :: "duration \<Rightarrow> 's redis_fleet \<Rightarrow> bool" where
  "fresh_redis ttl f \<longleftrightarrow> (\<forall>i. rzHeld (rfNodes f i) = Some [] \<and> rvLockTTL (rzOpts (rfNodes f i)) = ttl \<and> rfLoops f i = {}) \<and>
     (\<forall>i k. rfPC f i k = RIdle)"

lemma fresh_redis_inv:
  assumes "fresh_redis ttl f"
  shows "redis_inv ttl view f"
proof -
  have none: "redis_at f p = {}" for p using assms by (cases p) (simp_all add: fresh_redis_def redis_held_def)
  show ?thesis
    using assms by (simp add: redis_inv_def tokens_ok_def loops_ok_def rows_kept_def none one_place_def fresh_redis_def)
qed

subsection \<open>Properties\<close>


definition toy_redis :: "(string \<Rightarrow> (string \<times> time) option) redis_client" where
  "toy_redis =
     \<lparr>rcSetNX = (\<lambda>t k token ttl s. if alive (s k) t then (Inr False, s) else (Inr True, s(k \<mapsto> (token, t + kept_for ttl)))),
      rcRenew = (\<lambda>t k token ms s. if holds (s k) token t then (Inr 1, s(k \<mapsto> (token, t + ms * millisecond))) else (Inr 0, s)),
      rcRelease = (\<lambda>t k token s. if holds (s k) token t then (None, s(k := None)) else (None, s))\<rparr>"

lemma toy_redis_ok: "redis_ok toy_redis (\<lambda>s. s)"
  by (auto simp: redis_ok_def setnx_ok_def renew_ok_def release_ok_def toy_redis_def split: if_splits)

definition toy_redis_fleet :: "(string \<Rightarrow> (string \<times> time) option) redis_fleet" where
  "toy_redis_fleet = \<lparr>rfNow = 0, rfWorld = Map.empty,
     rfNodes = (\<lambda>i. \<lparr>rzOpts = \<lparr>rvURL = [], rvLockTTL = 30 * second, rvRenewalInterval = 10 * second, rvMemberTTL = 0\<rparr>,
                     rzHeld = Some [], rzClosing = False, rzClosed = False\<rparr>),
     rfPC = (\<lambda>_ _. RIdle), rfLoops = (\<lambda>_. {}), rfUsed = {}, rfUntil = (\<lambda>_. 0)\<rparr>"

lemma toy_redis_fleet_fresh: "fresh_redis (30 * second) toy_redis_fleet"
  by (simp add: fresh_redis_def toy_redis_fleet_def)


end
