(* ===== verification/Coord_Postgres.thy ===== *)
theory Coord_Postgres
  imports Pg_Pool "HOL-Library.Word"
begin

section \<open>Leases as PostgreSQL advisory locks (\<^verbatim>\<open>internal/coord/postgres/postgres.go\<close>)\<close>

text \<open>
  A lease is a session-level advisory lock on a connection that is checked out of the pool until the lease is
  released.  Such locks are reentrant and belong to the session, so a connection that went back to the pool
  with a lock would keep the feed from every other instance and let it be taken twice from this one: the
  statements below are about that.  The pool and the server are reached through \<open>lock_pool\<close>, and \<open>locks_ok\<close>
  says what is relied on of them; a connection is named by the instance whose pool it belongs to and a
  number.
\<close>

unbundle bit_operations_syntax

subsection \<open>Opening\<close>

record pg_coord_options =
  pqDSN :: string
  pqMinConns :: int
  pqTLS :: "tls_options option"
  pqMemberTTL :: duration

text \<open>\<^verbatim>\<open>int32(opts.MinConns)\<close> keeps the low 32 bits.\<close>

definition pg_coord_config :: "('p, 's) pgx \<Rightarrow> tls_env \<Rightarrow> pg_coord_options \<Rightarrow> pgx_config result" where
  "pg_coord_config px env opts =
     (case pxParseConfig px (pqDSN opts) of
        Inl err \<Rightarrow> Inl (Errorf ''coord/postgres: parse dsn: %w'' [FWrap err])
      | Inr cfg \<Rightarrow>
          (let cfg1 = (if pqMinConns opts > 0 \<and> int32_of (pqMinConns opts) > pxMaxConns cfg
                       then cfg\<lparr>pxMaxConns := int32_of (pqMinConns opts)\<rparr> else cfg) in
           case pqTLS opts of
             None \<Rightarrow> Inr cfg1
           | Some t \<Rightarrow>
               (case buildTLSConfig env t (pxHost cfg1) of
                  Inl err \<Rightarrow> Inl (Errorf ''coord/postgres: build TLS config: %w'' [FWrap err])
                | Inr tc \<Rightarrow> Inr (force_tls cfg1 tc))))"

type_synonym conn = "nat \<times> nat"

record please =
  plConn :: conn
  plKey :: int

record pg_coordinator =
  pzMemberTTL :: duration
  pzHeld :: "please list option"  \<comment> \<open>\<open>None\<close> after \<^verbatim>\<open>Close\<close>\<close>

definition pg_coord_New ::
    "('p, 's) pgx \<Rightarrow> tls_env \<Rightarrow> ctx \<Rightarrow> pg_coord_options \<Rightarrow> 's \<Rightarrow> ('p \<times> pg_coordinator) result \<times> 's" where
  "pg_coord_New px env c opts s =
     (case pg_coord_config px env opts of
        Inl err \<Rightarrow> (Inl err, s)
      | Inr cfg \<Rightarrow>
          (case pxNewWithConfig px c cfg s of
             (Inl err, s1) \<Rightarrow> (Inl (Errorf ''coord/postgres: pgxpool: %w'' [FWrap err]), s1)
           | (Inr pool, s1) \<Rightarrow>
               (Inr (pool, \<lparr>pzMemberTTL = (if pqMemberTTL opts \<le> 0 then 30 * second else pqMemberTTL opts),
                            pzHeld = Some []\<rparr>), s1)))"

subsection \<open>Locks\<close>

text \<open>\<^verbatim>\<open>Hijack\<close> and \<^verbatim>\<open>Close\<close> of the raw connection are \<open>lpKill\<close>.\<close>

record 's lock_pool =
  lpAcquire :: "ctx \<Rightarrow> nat \<Rightarrow> 's \<Rightarrow> conn result \<times> 's"
  lpTryLock :: "ctx \<Rightarrow> conn \<Rightarrow> int \<Rightarrow> 's \<Rightarrow> bool result \<times> 's"
  lpUnlock :: "conn \<Rightarrow> int \<Rightarrow> 's \<Rightarrow> go_error option \<times> 's"
  lpRelease :: "conn \<Rightarrow> 's \<Rightarrow> 's"
  lpKill :: "conn \<Rightarrow> 's \<Rightarrow> 's"
  lpClose :: "nat \<Rightarrow> 's \<Rightarrow> 's"

text \<open>The first eight bytes of the hash, big-endian, as a signed integer.\<close>

definition pg_lockKey :: "(string \<Rightarrow> 8 word list) \<Rightarrow> string \<Rightarrow> int" where
  "pg_lockKey sha256 feedURL = sint (foldl (\<lambda>k b. push_bit 8 k OR ucast b) (0 :: 64 word) (take 8 (sha256 feedURL)))"

definition pg_TryAcquire ::
    "'s lock_pool \<Rightarrow> (string \<Rightarrow> 8 word list) \<Rightarrow> ctx \<Rightarrow> nat \<Rightarrow> string \<Rightarrow> pg_coordinator \<Rightarrow> 's \<Rightarrow>
     please option result \<times> pg_coordinator \<times> 's" where
  "pg_TryAcquire lp sha c i feedURL co s =
     (let key = pg_lockKey sha feedURL in
      case lpAcquire lp c i s of
        (Inl err, s1) \<Rightarrow> (Inl (Errorf ''coord/postgres: acquire conn: %w'' [FWrap err]), co, s1)
      | (Inr conn, s1) \<Rightarrow>
          (case lpTryLock lp c conn key s1 of
             (Inl err, s2) \<Rightarrow>
               (Inl (Errorf ''coord/postgres: pg_try_advisory_lock: %w'' [FWrap err]), co, lpRelease lp conn s2)
           | (Inr False, s2) \<Rightarrow> (Inr None, co, lpRelease lp conn s2)
           | (Inr True, s2) \<Rightarrow>
               (case pzHeld co of
                  None \<Rightarrow> (Inl (Errorf ''coord/postgres: coordinator closed'' []), co, lpRelease lp conn s2)
                | Some held \<Rightarrow>
                    (let l = \<lparr>plConn = conn, plKey = key\<rparr> in (Inr (Some l), co\<lparr>pzHeld := Some (l # held)\<rparr>, s2)))))"

definition pg_release ::
    "'s lock_pool \<Rightarrow> please \<Rightarrow> pg_coordinator \<Rightarrow> 's \<Rightarrow> go_error option \<times> pg_coordinator \<times> 's" where
  "pg_release lp l co s =
     (case pzHeld co of
        None \<Rightarrow> (None, co, s)
      | Some held \<Rightarrow>
          if l \<notin> set held then (None, co, s)
          else
            let co1 = co\<lparr>pzHeld := Some (removeAll l held)\<rparr> in
            case lpUnlock lp (plConn l) (plKey l) s of
              (Some err, s1) \<Rightarrow>
                (Some (Errorf ''coord/postgres: pg_advisory_unlock: %w'' [FWrap err]), co1, lpKill lp (plConn l) s1)
            | (None, s1) \<Rightarrow> (None, co1, lpRelease lp (plConn l) s1))"

text \<open>\<open>order\<close> is the order in which the map of held connections is visited.\<close>

definition pg_Close ::
    "'s lock_pool \<Rightarrow> (please list \<Rightarrow> please list) \<Rightarrow> nat \<Rightarrow> pg_coordinator \<Rightarrow> 's \<Rightarrow> pg_coordinator \<times> 's" where
  "pg_Close lp order i co s =
     (let held = (case pzHeld co of None \<Rightarrow> [] | Some held \<Rightarrow> order held) in
      (co\<lparr>pzHeld := None\<rparr>, lpClose lp i (fold (\<lambda>l s. lpKill lp (plConn l) s) held s)))"

subsection \<open>A fleet\<close>

text \<open>Calls of any instance in any order; between them a session may die (the server restarts, the network
  breaks), which releases its locks.\<close>

record 's lock_fleet =
  kfWorld :: 's
  kfNodes :: "nat \<Rightarrow> pg_coordinator"

inductive lock_step ::
    "'s lock_pool \<Rightarrow> (string \<Rightarrow> 8 word list) \<Rightarrow> (conn \<Rightarrow> 's \<Rightarrow> 's) \<Rightarrow> 's lock_fleet \<Rightarrow> 's lock_fleet \<Rightarrow> bool"
  for lp :: "'s lock_pool" and sha :: "string \<Rightarrow> 8 word list" and die :: "conn \<Rightarrow> 's \<Rightarrow> 's" where
  acquire: "pg_TryAcquire lp sha c i u (kfNodes f i) (kfWorld f) = (r, co, s) \<Longrightarrow>
    lock_step lp sha die f (f\<lparr>kfWorld := s, kfNodes := (kfNodes f)(i := co)\<rparr>)"
| release: "pg_release lp l (kfNodes f i) (kfWorld f) = (err, co, s) \<Longrightarrow>
    lock_step lp sha die f (f\<lparr>kfWorld := s, kfNodes := (kfNodes f)(i := co)\<rparr>)"
| close: "pg_Close lp order i (kfNodes f i) (kfWorld f) = (co, s) \<Longrightarrow> (\<And>ls. set (order ls) = set ls) \<Longrightarrow>
    lock_step lp sha die f (f\<lparr>kfWorld := s, kfNodes := (kfNodes f)(i := co)\<rparr>)"
| session_dies: "lock_step lp sha die f (f\<lparr>kfWorld := die x (kfWorld f)\<rparr>)"

subsection \<open>What is relied on of the pool and the server\<close>

text \<open>
  \<open>out\<close> are the connections that are checked out, \<open>lk\<close> how often a session holds a lock, \<open>bad\<close> the connections
  that a failed query left unusable, and \<open>shut\<close> the pools that are closed.  A lock is granted when no other
  session holds it; a query that fails may have taken it, and leaves the connection unusable then; a
  connection that goes back unusable, or to a closed pool, is closed, and closing a connection ends its
  session.
\<close>

record 's lock_view =
  lvOut :: "'s \<Rightarrow> conn set"
  lvLk :: "'s \<Rightarrow> conn \<Rightarrow> int \<Rightarrow> nat"
  lvBad :: "'s \<Rightarrow> conn set"
  lvShut :: "'s \<Rightarrow> nat set"

definition locks_freed :: "'s lock_view \<Rightarrow> conn \<Rightarrow> 's \<Rightarrow> 's \<Rightarrow> bool" where
  "locks_freed v x s s' \<longleftrightarrow> lvLk v s' = (lvLk v s)(x := (\<lambda>_. 0))"

definition locks_same :: "'s lock_view \<Rightarrow> 's \<Rightarrow> 's \<Rightarrow> bool" where
  "locks_same v s s' \<longleftrightarrow> lvLk v s' = lvLk v s"

definition pool_same :: "'s lock_view \<Rightarrow> 's \<Rightarrow> 's \<Rightarrow> bool" where
  "pool_same v s s' \<longleftrightarrow> lvOut v s' = lvOut v s \<and> lvShut v s' = lvShut v s"

definition lock_taken :: "'s lock_view \<Rightarrow> conn \<Rightarrow> int \<Rightarrow> 's \<Rightarrow> 's \<Rightarrow> bool" where
  "lock_taken v x k s s' \<longleftrightarrow> (\<forall>y. y \<noteq> x \<longrightarrow> lvLk v s y k = 0) \<and>
     lvLk v s' = (lvLk v s)(x := (lvLk v s x)(k := Suc (lvLk v s x k)))"

definition lock_dropped :: "'s lock_view \<Rightarrow> conn \<Rightarrow> int \<Rightarrow> 's \<Rightarrow> 's \<Rightarrow> bool" where
  "lock_dropped v x k s s' \<longleftrightarrow> lvLk v s' = (lvLk v s)(x := (lvLk v s x)(k := lvLk v s x k - 1))"

definition acquire_ok :: "'s lock_pool \<Rightarrow> 's lock_view \<Rightarrow> bool" where
  "acquire_ok lp v \<longleftrightarrow>
     (\<forall>c i s r s'. lpAcquire lp c i s = (r, s') \<longrightarrow> locks_same v s s' \<and> lvShut v s' = lvShut v s \<and>
        (case r of
           Inl _ \<Rightarrow> lvOut v s' = lvOut v s
         | Inr x \<Rightarrow> fst x = i \<and> x \<notin> lvOut v s \<and> lvOut v s' = insert x (lvOut v s)))"

definition trylock_ok :: "'s lock_pool \<Rightarrow> 's lock_view \<Rightarrow> bool" where
  "trylock_ok lp v \<longleftrightarrow>
     (\<forall>c x k s r s'. lpTryLock lp c x k s = (r, s') \<longrightarrow> pool_same v s s' \<and>
        (case r of
           Inl _ \<Rightarrow> locks_same v s s' \<or> lock_taken v x k s s' \<and> x \<in> lvBad v s'
         | Inr b \<Rightarrow> if b then lock_taken v x k s s' else locks_same v s s' \<and> (\<exists>y. y \<noteq> x \<and> lvLk v s y k \<noteq> 0)))"

definition unlock_ok :: "'s lock_pool \<Rightarrow> 's lock_view \<Rightarrow> bool" where
  "unlock_ok lp v \<longleftrightarrow>
     (\<forall>x k s r s'. lpUnlock lp x k s = (r, s') \<longrightarrow> pool_same v s s' \<and>
        (lock_dropped v x k s s' \<or> r \<noteq> None \<and> locks_same v s s'))"

definition return_ok :: "'s lock_pool \<Rightarrow> 's lock_view \<Rightarrow> bool" where
  "return_ok lp v \<longleftrightarrow>
     (\<forall>x s. lvOut v (lpRelease lp x s) = lvOut v s - {x} \<and> lvShut v (lpRelease lp x s) = lvShut v s \<and>
        (if x \<in> lvBad v s \<or> fst x \<in> lvShut v s then locks_freed v x s (lpRelease lp x s)
         else locks_same v s (lpRelease lp x s)))"

definition kill_ok :: "'s lock_pool \<Rightarrow> 's lock_view \<Rightarrow> bool" where
  "kill_ok lp v \<longleftrightarrow>
     (\<forall>x s. lvOut v (lpKill lp x s) = lvOut v s - {x} \<and> lvShut v (lpKill lp x s) = lvShut v s \<and>
        locks_freed v x s (lpKill lp x s))"

definition close_ok :: "'s lock_pool \<Rightarrow> 's lock_view \<Rightarrow> bool" where
  "close_ok lp v \<longleftrightarrow>
     (\<forall>i s. lvOut v (lpClose lp i s) = lvOut v s \<and> lvShut v (lpClose lp i s) = insert i (lvShut v s) \<and>
        lvLk v (lpClose lp i s) = (\<lambda>x. if fst x = i \<and> x \<notin> lvOut v s then (\<lambda>_. 0) else lvLk v s x))"

definition die_ok :: "(conn \<Rightarrow> 's \<Rightarrow> 's) \<Rightarrow> 's lock_view \<Rightarrow> bool" where
  "die_ok die v \<longleftrightarrow> (\<forall>x s. pool_same v s (die x s) \<and> locks_freed v x s (die x s))"

definition locks_ok :: "'s lock_pool \<Rightarrow> (conn \<Rightarrow> 's \<Rightarrow> 's) \<Rightarrow> 's lock_view \<Rightarrow> bool" where
  "locks_ok lp die v \<longleftrightarrow>
     acquire_ok lp v \<and> trylock_ok lp v \<and> unlock_ok lp v \<and> return_ok lp v \<and> kill_ok lp v \<and> close_ok lp v \<and> die_ok die v"

subsection \<open>What the calls do\<close>

definition pg_held :: "pg_coordinator \<Rightarrow> please set" where
  "pg_held co = (case pzHeld co of None \<Rightarrow> {} | Some held \<Rightarrow> set held)"

text \<open>A connection that is checked out and holds at most one lock goes back without any.\<close>

lemma returned:
  assumes ok: "locks_ok lp die v"
  shows "lvOut v (lpRelease lp x s) = lvOut v s - {x}" "lvShut v (lpRelease lp x s) = lvShut v s"
    and "lvOut v (lpKill lp x s) = lvOut v s - {x}" "lvShut v (lpKill lp x s) = lvShut v s"
    and "lvLk v (lpKill lp x s) = (lvLk v s)(x := (\<lambda>_. 0))"
    and "lvLk v s x = (\<lambda>_. 0) \<or> x \<in> lvBad v s \<or> fst x \<in> lvShut v s \<Longrightarrow>
      lvLk v (lpRelease lp x s) = (lvLk v s)(x := (\<lambda>_. 0))"
proof -
  have r: "return_ok lp v" "kill_ok lp v" using ok by (simp_all add: locks_ok_def)
  show "lvOut v (lpRelease lp x s) = lvOut v s - {x}" "lvShut v (lpRelease lp x s) = lvShut v s"
    using r(1) unfolding return_ok_def by blast+
  show "lvOut v (lpKill lp x s) = lvOut v s - {x}" "lvShut v (lpKill lp x s) = lvShut v s"
    "lvLk v (lpKill lp x s) = (lvLk v s)(x := (\<lambda>_. 0))"
    using r(2) unfolding kill_ok_def locks_freed_def by blast+
  have "if x \<in> lvBad v s \<or> fst x \<in> lvShut v s then locks_freed v x s (lpRelease lp x s)
         else locks_same v s (lpRelease lp x s)" using r(1) unfolding return_ok_def by blast
  then show "lvLk v s x = (\<lambda>_. 0) \<or> x \<in> lvBad v s \<or> fst x \<in> lvShut v s \<Longrightarrow>
      lvLk v (lpRelease lp x s) = (lvLk v s)(x := (\<lambda>_. 0))"
    by (auto simp: locks_freed_def locks_same_def split: if_splits)
qed

definition same_state :: "'s lock_view \<Rightarrow> 's \<Rightarrow> 's \<Rightarrow> bool" where
  "same_state v s s' \<longleftrightarrow> lvOut v s' = lvOut v s \<and> lvLk v s' = lvLk v s \<and> lvShut v s' = lvShut v s"

lemma pg_TryAcquire_cases:
  assumes ok: "locks_ok lp die v" and clean: "\<forall>x. x \<notin> lvOut v s \<longrightarrow> lvLk v s x = (\<lambda>_. 0)"
    and shut: "pzHeld co = None \<longrightarrow> i \<in> lvShut v s"
    and run: "pg_TryAcquire lp sha c i u co s = (r, co', s')"
  obtains (lost) "co' = co" "same_state v s s'" "\<And>l. r \<noteq> Inr (Some l)"
    | (won) held x where "pzHeld co = Some held" "x \<notin> lvOut v s" "fst x = i"
        "co' = co\<lparr>pzHeld := Some (\<lparr>plConn = x, plKey = pg_lockKey sha u\<rparr> # held)\<rparr>"
        "lvOut v s' = insert x (lvOut v s)" "lvShut v s' = lvShut v s" "\<And>y. y \<noteq> x \<Longrightarrow> lvLk v s y (pg_lockKey sha u) = 0"
        "lvLk v s' = (lvLk v s)(x := (\<lambda>_. 0)(pg_lockKey sha u := 1))"
        "r = Inr (Some \<lparr>plConn = x, plKey = pg_lockKey sha u\<rparr>)"
proof -
  let ?key = "pg_lockKey sha u"
  obtain r1 s1 where a: "lpAcquire lp c i s = (r1, s1)" by fastforce
  have acq: "locks_same v s s1 \<and> lvShut v s1 = lvShut v s \<and>
        (case r1 of Inl _ \<Rightarrow> lvOut v s1 = lvOut v s
         | Inr x \<Rightarrow> fst x = i \<and> x \<notin> lvOut v s \<and> lvOut v s1 = insert x (lvOut v s))"
    using ok a unfolding locks_ok_def acquire_ok_def by blast
  show ?thesis
  proof (cases r1)
    case (Inl err)
    with a acq run lost show ?thesis by (auto simp: pg_TryAcquire_def Let_def same_state_def locks_same_def)
  next
    case (Inr x)
    with acq have x: "fst x = i" "x \<notin> lvOut v s" "lvOut v s1 = insert x (lvOut v s)" "lvLk v s1 = lvLk v s" "lvShut v s1 = lvShut v s"
      by (simp_all add: locks_same_def)
    have x0: "lvLk v s x = (\<lambda>_. 0)" using clean x(2) by blast
    then have upd: "(lvLk v s)(x := (\<lambda>_. 0)) = lvLk v s" by (metis fun_upd_triv)
    obtain r2 s2 where t: "lpTryLock lp c x ?key s1 = (r2, s2)" by fastforce
    have tr: "pool_same v s1 s2 \<and>
        (case r2 of Inl _ \<Rightarrow> locks_same v s1 s2 \<or> lock_taken v x ?key s1 s2 \<and> x \<in> lvBad v s2
         | Inr b \<Rightarrow> if b then lock_taken v x ?key s1 s2 else locks_same v s1 s2 \<and> (\<exists>y. y \<noteq> x \<and> lvLk v s1 y ?key \<noteq> 0))"
      using ok t unfolding locks_ok_def trylock_ok_def by blast
    then have s2: "lvOut v s2 = insert x (lvOut v s)" "lvShut v s2 = lvShut v s" using x by (simp_all add: pool_same_def)
    have returns: "same_state v s (lpRelease lp x s2)"
      if "lvLk v s2 x = (\<lambda>_. 0) \<or> x \<in> lvBad v s2 \<or> i \<in> lvShut v s2" "\<And>y. y \<noteq> x \<Longrightarrow> lvLk v s2 y = lvLk v s y"
    proof -
      have "lvLk v (lpRelease lp x s2) = (lvLk v s2)(x := (\<lambda>_. 0))" using that(1) x(1) by (intro returned(6) [OF ok]) simp
      also have "\<dots> = lvLk v s" using that(2) x0 by (auto simp: fun_eq_iff)
      finally show ?thesis using s2 x(2) by (simp add: same_state_def returned(1,2) [OF ok])
    qed
    show ?thesis
    proof (cases "r2 = Inr True \<and> pzHeld co \<noteq> None")
      case True
      then obtain held where held: "pzHeld co = Some held" "r2 = Inr True" by auto
      with tr have "lock_taken v x ?key s1 s2" by simp
      then have "\<And>y. y \<noteq> x \<Longrightarrow> lvLk v s y ?key = 0" "lvLk v s2 = (lvLk v s)(x := (\<lambda>_. 0)(?key := 1))"
        using x(4) x0 by (auto simp: lock_taken_def)
      moreover have "r = Inr (Some \<lparr>plConn = x, plKey = ?key\<rparr>)" "s' = s2"
        "co' = co\<lparr>pzHeld := Some (\<lparr>plConn = x, plKey = ?key\<rparr> # held)\<rparr>"
        using run a t Inr held by (simp_all add: pg_TryAcquire_def Let_def)
      ultimately show ?thesis using held(1) x(1,2) s2 by (intro won [of held x]) simp_all
    next
      case False
      have "same_state v s (lpRelease lp x s2)"
      proof (rule returns)
        show "lvLk v s2 x = (\<lambda>_. 0) \<or> x \<in> lvBad v s2 \<or> i \<in> lvShut v s2"
          using False tr x(4) x0 shut s2(2)
          by (cases r2) (auto simp: locks_same_def split: if_splits)
        show "lvLk v s2 y = lvLk v s y" if "y \<noteq> x" for y
          using that tr x(4) by (cases r2) (auto simp: locks_same_def lock_taken_def split: if_splits)
      qed
      moreover have "co' = co" "s' = lpRelease lp x s2" "\<And>l. r \<noteq> Inr (Some l)"
        using run a t Inr False by (auto simp: pg_TryAcquire_def Let_def split: sum.splits if_splits bool.splits option.splits)
      ultimately show ?thesis by (intro lost) simp_all
    qed
  qed
qed

lemma release_cases:
  assumes ok: "locks_ok lp die v"
    and held: "\<forall>l\<in>pg_held co. \<forall>k. lvLk v s (plConn l) k \<le> (if k = plKey l then 1 else 0)"
    and run: "pg_release lp l co s = (err, co', s')"
  obtains (nothing) "co' = co" "s' = s" "l \<notin> pg_held co"
    | (given) held where "pzHeld co = Some held" "l \<in> set held" "co' = co\<lparr>pzHeld := Some (removeAll l held)\<rparr>"
        "lvOut v s' = lvOut v s - {plConn l}" "lvShut v s' = lvShut v s" "lvLk v s' = (lvLk v s)(plConn l := (\<lambda>_. 0))"
proof (cases "l \<in> pg_held co")
  case False
  with run have "co' = co" "s' = s" by (auto simp: pg_release_def pg_held_def split: option.splits)
  show ?thesis by (rule nothing) fact+
next
  case True
  then obtain hs where hs: "pzHeld co = Some hs" "l \<in> set hs" by (auto simp: pg_held_def split: option.splits)
  obtain r1 s1 where u: "lpUnlock lp (plConn l) (plKey l) s = (r1, s1)" by fastforce
  have un: "pool_same v s s1 \<and> (lock_dropped v (plConn l) (plKey l) s s1 \<or> r1 \<noteq> None \<and> locks_same v s s1)"
    using ok u unfolding locks_ok_def unlock_ok_def by blast
  have other: "(lvLk v s1)(plConn l := (\<lambda>_. 0)) = (lvLk v s)(plConn l := (\<lambda>_. 0))"
    using un by (auto simp: lock_dropped_def locks_same_def)
  have "lvLk v s1 (plConn l) = (\<lambda>_. 0)" if "lock_dropped v (plConn l) (plKey l) s s1"
  proof
    show "lvLk v s1 (plConn l) k = 0" for k
      using held [rule_format, OF True, of k] that by (simp add: lock_dropped_def split: if_splits)
  qed
  then have "lvLk v s' = (lvLk v s)(plConn l := (\<lambda>_. 0))" "lvOut v s' = lvOut v s - {plConn l}" "lvShut v s' = lvShut v s"
    "co' = co\<lparr>pzHeld := Some (removeAll l hs)\<rparr>"
    using run u hs un other returned [OF ok, where x = "plConn l" and s = s1]
    by (cases r1; auto simp: pg_release_def Let_def pool_same_def)+
  with hs given show ?thesis by blast
qed

lemma close_cases:
  assumes ok: "locks_ok lp die v" and run: "pg_Close lp order i co s = (co', s')" and order: "\<And>ls. set (order ls) = set ls"
  shows "pzHeld co' = None" "lvOut v s' = lvOut v s - plConn ` pg_held co" "lvShut v s' = insert i (lvShut v s)"
    and "lvLk v s' x = (if x \<in> plConn ` pg_held co \<or> fst x = i \<and> x \<notin> lvOut v s then (\<lambda>_. 0) else lvLk v s x)"
proof -
  let ?held = "case pzHeld co of None \<Rightarrow> [] | Some held \<Rightarrow> order held"
  have h: "set ?held = pg_held co" using order by (simp add: pg_held_def split: option.split)
  have kill: "lvOut v (fold (\<lambda>l s. lpKill lp (plConn l) s) ls s) = lvOut v s - plConn ` set ls \<and>
      lvShut v (fold (\<lambda>l s. lpKill lp (plConn l) s) ls s) = lvShut v s \<and>
      lvLk v (fold (\<lambda>l s. lpKill lp (plConn l) s) ls s) x = (if x \<in> plConn ` set ls then (\<lambda>_. 0) else lvLk v s x)" for ls s x
    by (induction ls arbitrary: s) (auto simp: returned [OF ok])
  have cl: "close_ok lp v" using ok by (simp add: locks_ok_def)
  have s': "s' = lpClose lp i (fold (\<lambda>l s. lpKill lp (plConn l) s) ?held s)" "pzHeld co' = None"
    using run by (auto simp: pg_Close_def Let_def)
  show "pzHeld co' = None" by (rule s'(2))
  show "lvOut v s' = lvOut v s - plConn ` pg_held co" "lvShut v s' = insert i (lvShut v s)"
    using cl kill [of ?held s] unfolding s'(1) h close_ok_def by simp_all
  show "lvLk v s' x = (if x \<in> plConn ` pg_held co \<or> fst x = i \<and> x \<notin> lvOut v s then (\<lambda>_. 0) else lvLk v s x)"
    using cl kill [of ?held s x] unfolding s'(1) h close_ok_def by auto
qed

subsection \<open>The invariant\<close>

text \<open>
  Connections in a pool hold no lock; the connections that are checked out are those of the held leases, one
  each, and hold nothing but the lock of their lease; no lock is held twice.
\<close>

definition lock_inv :: "'s lock_view \<Rightarrow> 's lock_fleet \<Rightarrow> bool" where
  "lock_inv v f \<longleftrightarrow>
     (\<forall>x. x \<notin> lvOut v (kfWorld f) \<longrightarrow> lvLk v (kfWorld f) x = (\<lambda>_. 0)) \<and>
     (\<forall>i. \<forall>l\<in>pg_held (kfNodes f i). plConn l \<in> lvOut v (kfWorld f) \<and> fst (plConn l) = i \<and>
        (\<forall>k. lvLk v (kfWorld f) (plConn l) k \<le> (if k = plKey l then 1 else 0))) \<and>
     (\<forall>x\<in>lvOut v (kfWorld f). \<exists>l\<in>pg_held (kfNodes f (fst x)). plConn l = x) \<and>
     (\<forall>i. inj_on plConn (pg_held (kfNodes f i))) \<and>
     (\<forall>x y k. lvLk v (kfWorld f) x k \<noteq> 0 \<longrightarrow> lvLk v (kfWorld f) y k \<noteq> 0 \<longrightarrow> x = y) \<and>
     (\<forall>i. pzHeld (kfNodes f i) = None \<longrightarrow> i \<in> lvShut v (kfWorld f))"

lemma lock_invD:
  assumes "lock_inv v f"
  shows "x \<notin> lvOut v (kfWorld f) \<Longrightarrow> lvLk v (kfWorld f) x = (\<lambda>_. 0)"
    and "l \<in> pg_held (kfNodes f i) \<Longrightarrow> plConn l \<in> lvOut v (kfWorld f)"
    and "l \<in> pg_held (kfNodes f i) \<Longrightarrow> fst (plConn l) = i"
    and "l \<in> pg_held (kfNodes f i) \<Longrightarrow> \<forall>k. lvLk v (kfWorld f) (plConn l) k \<le> (if k = plKey l then 1 else 0)"
    and "x \<in> lvOut v (kfWorld f) \<Longrightarrow> \<exists>l\<in>pg_held (kfNodes f (fst x)). plConn l = x"
    and "inj_on plConn (pg_held (kfNodes f i))"
    and "lvLk v (kfWorld f) x k \<noteq> 0 \<Longrightarrow> lvLk v (kfWorld f) y k \<noteq> 0 \<Longrightarrow> x = y"
    and "pzHeld (kfNodes f i) = None \<Longrightarrow> i \<in> lvShut v (kfWorld f)"
  using assms unfolding lock_inv_def by blast+

text \<open>Giving up leases: their connections leave, and nothing else is touched.\<close>

lemma give_up_inv:
  assumes inv: "lock_inv v f" and sub: "gone \<subseteq> pg_held (kfNodes f i)"
    and co: "pg_held co = pg_held (kfNodes f i) - gone" "pzHeld co = None \<Longrightarrow> i \<in> lvShut v s"
    and out: "lvOut v s = lvOut v (kfWorld f) - plConn ` gone" and shut: "lvShut v (kfWorld f) \<subseteq> lvShut v s"
    and lk: "\<And>x. lvLk v s x = (if x \<in> plConn ` gone then (\<lambda>_. 0) else lvLk v (kfWorld f) x)"
  shows "lock_inv v (f\<lparr>kfWorld := s, kfNodes := (kfNodes f)(i := co)\<rparr>)" (is "lock_inv v ?f")
proof -
  note d = lock_invD [OF inv]
  have held: "pg_held (kfNodes ?f j) \<subseteq> pg_held (kfNodes f j)" for j using co(1) by auto
  have stays: "plConn l \<notin> plConn ` gone" if l: "l \<in> pg_held (kfNodes ?f j)" for l j
  proof
    assume "plConn l \<in> plConn ` gone"
    then obtain g where g: "g \<in> gone" "plConn l = plConn g" by blast
    have lf: "l \<in> pg_held (kfNodes f j)" using l held by blast
    have gi: "g \<in> pg_held (kfNodes f i)" using g(1) sub by blast
    have "j = i" using d(3) [OF lf] d(3) [OF gi] g(2) by simp
    with lf gi g(2) d(6) [of i] have "l = g" by (auto dest: inj_onD)
    with l g(1) co(1) \<open>j = i\<close> show False by simp
  qed
  show ?thesis
    unfolding lock_inv_def
  proof (intro conjI allI ballI impI)
    show "lvLk v (kfWorld ?f) x = (\<lambda>_. 0)" if "x \<notin> lvOut v (kfWorld ?f)" for x
      using that d(1) [of x] by (auto simp: out lk)
    fix j l
    assume l: "l \<in> pg_held (kfNodes ?f j)"
    then have lf: "l \<in> pg_held (kfNodes f j)" using held by blast
    show "plConn l \<in> lvOut v (kfWorld ?f)" using d(2) [OF lf] stays [OF l] by (simp add: out)
    show "fst (plConn l) = j" by (rule d(3) [OF lf])
    show "lvLk v (kfWorld ?f) (plConn l) k \<le> (if k = plKey l then 1 else 0)" for k
      using d(4) [OF lf, rule_format, of k] by (simp add: lk split: if_splits)
  next
    fix x
    assume "x \<in> lvOut v (kfWorld ?f)"
    then have x: "x \<in> lvOut v (kfWorld f)" "x \<notin> plConn ` gone" by (simp_all add: out)
    from d(5) [OF x(1)] obtain l where l: "l \<in> pg_held (kfNodes f (fst x))" "plConn l = x" by blast
    with x(2) have "l \<notin> gone" by blast
    with l co(1) have "l \<in> pg_held (kfNodes ?f (fst x))" by auto
    with l(2) show "\<exists>l\<in>pg_held (kfNodes ?f (fst x)). plConn l = x" by blast
  next
    show "inj_on plConn (pg_held (kfNodes ?f j))" for j using d(6) held by (rule inj_on_subset)
    show "x = y" if "lvLk v (kfWorld ?f) x k \<noteq> 0" "lvLk v (kfWorld ?f) y k \<noteq> 0" for x y k
      using that d(7) [of x k y] by (simp add: lk split: if_splits)
    show "j \<in> lvShut v (kfWorld ?f)" if "pzHeld (kfNodes ?f j) = None" for j
      using that d(8) [of j] co(2) shut by (auto split: if_splits)
  qed
qed

lemma acquire_inv:
  assumes ok: "locks_ok lp die v" and inv: "lock_inv v f"
    and run: "pg_TryAcquire lp sha c i u (kfNodes f i) (kfWorld f) = (r, co, s)"
  shows "lock_inv v (f\<lparr>kfWorld := s, kfNodes := (kfNodes f)(i := co)\<rparr>)"
proof -
  note d = lock_invD [OF inv]
  have clean: "\<forall>x. x \<notin> lvOut v (kfWorld f) \<longrightarrow> lvLk v (kfWorld f) x = (\<lambda>_. 0)"
    "pzHeld (kfNodes f i) = None \<longrightarrow> i \<in> lvShut v (kfWorld f)" using d(1,8) by blast+
  from ok clean run show ?thesis
  proof (cases rule: pg_TryAcquire_cases)
    case lost
    then show ?thesis by (intro give_up_inv [OF inv, of "{}"]) (auto simp: same_state_def d(8))
  next
    case (won held x)
    let ?l = "\<lparr>plConn = x, plKey = pg_lockKey sha u\<rparr>" and ?f = "f\<lparr>kfWorld := s, kfNodes := (kfNodes f)(i := co)\<rparr>"
    have h: "pg_held (kfNodes ?f j) = (if j = i then insert ?l (pg_held (kfNodes f i)) else pg_held (kfNodes f j))" for j
      using won(1,4) by (simp add: pg_held_def)
    have new: "plConn l \<noteq> x" if "l \<in> pg_held (kfNodes f j)" for l j using d(2) [OF that] won(2) by auto
    show ?thesis
      unfolding lock_inv_def
    proof (intro conjI allI ballI impI)
      show "lvLk v (kfWorld ?f) y = (\<lambda>_. 0)" if "y \<notin> lvOut v (kfWorld ?f)" for y
        using that d(1) [of y] by (simp add: won(5,8))
      fix j l
      assume "l \<in> pg_held (kfNodes ?f j)"
      then consider "l = ?l" "j = i" | "l \<in> pg_held (kfNodes f j)" unfolding h by (auto split: if_splits)
      then have "plConn l \<in> lvOut v (kfWorld ?f) \<and> fst (plConn l) = j \<and>
          (\<forall>k. lvLk v (kfWorld ?f) (plConn l) k \<le> (if k = plKey l then 1 else 0))"
      proof cases
        case 1
        then show ?thesis using won(3) by (simp add: won(5,8))
      next
        case 2
        with d(2-4) [OF 2] new [OF 2] show ?thesis by (simp add: won(5,8))
      qed
      then show "plConn l \<in> lvOut v (kfWorld ?f)" "fst (plConn l) = j"
        "lvLk v (kfWorld ?f) (plConn l) k \<le> (if k = plKey l then 1 else 0)" for k by blast+
    next
      fix y
      assume y: "y \<in> lvOut v (kfWorld ?f)"
      show "\<exists>l\<in>pg_held (kfNodes ?f (fst y)). plConn l = y"
      proof (cases "y = x")
        case True
        then show ?thesis using won(3) unfolding h by auto
      next
        case False
        with y have "y \<in> lvOut v (kfWorld f)" by (simp add: won(5))
        from d(5) [OF this] show ?thesis unfolding h by auto
      qed
    next
      show "inj_on plConn (pg_held (kfNodes ?f j))" for j
        unfolding h using d(6) [of j] new [of _ j] by (auto simp: inj_on_def)
      show "y = z" if "lvLk v (kfWorld ?f) y k \<noteq> 0" "lvLk v (kfWorld ?f) z k \<noteq> 0" for y z k
        using that d(7) [of y k z] won(7) by (auto simp: won(8) split: if_splits)
      show "j \<in> lvShut v (kfWorld ?f)" if "pzHeld (kfNodes ?f j) = None" for j
        using that d(8) [of j] won(4,6) by (auto split: if_splits)
    qed
  qed
qed

lemma lock_step_inv:
  assumes ok: "locks_ok lp die v" and step: "lock_step lp sha die f f'" and inv: "lock_inv v f"
  shows "lock_inv v f'"
  using step
proof (cases rule: lock_step.cases)
  case acquire
  from acquire_inv [OF ok inv acquire(2)] acquire(1) show ?thesis by simp
next
  case (release l i err co s)
  have "\<forall>l\<in>pg_held (kfNodes f i). \<forall>k. lvLk v (kfWorld f) (plConn l) k \<le> (if k = plKey l then 1 else 0)"
    using lock_invD(4) [OF inv] by blast
  from ok this release(2) show ?thesis
  proof (cases rule: release_cases)
    case nothing
    then have "f' = f" using release(1) by simp
    with inv show ?thesis by simp
  next
    case (given held)
    then have "pg_held co = pg_held (kfNodes f i) - {l}" "l \<in> pg_held (kfNodes f i)" "pzHeld co \<noteq> None"
      by (auto simp: pg_held_def)
    then show ?thesis
      unfolding release(1) using given by (intro give_up_inv [OF inv, of "{l}"]) auto
  qed
next
  case (close order i co s)
  note cl = close_cases [OF ok close(2,3)]
  have idle: "lvLk v (kfWorld f) x = (\<lambda>_. 0)" if "x \<notin> lvOut v (kfWorld f)" for x by (rule lock_invD(1) [OF inv that])
  have "pg_held co = pg_held (kfNodes f i) - pg_held (kfNodes f i)" using cl(1) by (simp add: pg_held_def)
  then show ?thesis
    unfolding close(1) using cl idle by (intro give_up_inv [OF inv, of "pg_held (kfNodes f i)"]) auto
next
  case (session_dies x)
  note d = lock_invD [OF inv]
  have "die_ok die v" using ok by (simp add: locks_ok_def)
  then have s: "lvOut v (die x (kfWorld f)) = lvOut v (kfWorld f)" "lvShut v (die x (kfWorld f)) = lvShut v (kfWorld f)"
    "lvLk v (die x (kfWorld f)) = (lvLk v (kfWorld f))(x := (\<lambda>_. 0))"
    unfolding die_ok_def pool_same_def locks_freed_def by blast+
  have le: "lvLk v (die x (kfWorld f)) y k \<le> lvLk v (kfWorld f) y k" for y k by (simp add: s(3))
  show ?thesis
    unfolding session_dies lock_inv_def
  proof (intro conjI allI ballI impI; simp)
    show "lvLk v (die x (kfWorld f)) y = (\<lambda>_. 0)" if "y \<notin> lvOut v (die x (kfWorld f))" for y
      using that d(1) [of y] by (simp add: s)
  next
    fix i l
    assume l: "l \<in> pg_held (kfNodes f i)"
    show "plConn l \<in> lvOut v (die x (kfWorld f))" "fst (plConn l) = i" using d(2,3) [OF l] by (simp_all add: s)
    show "(k = plKey l \<longrightarrow> lvLk v (die x (kfWorld f)) (plConn l) (plKey l) \<le> Suc 0) \<and>
        (k \<noteq> plKey l \<longrightarrow> lvLk v (die x (kfWorld f)) (plConn l) k = 0)" for k
      using d(4) [OF l, rule_format, of k] le [of "plConn l" k] by (auto split: if_splits)
  next
    show "\<exists>l\<in>pg_held (kfNodes f (fst y)). plConn l = y" if "y \<in> lvOut v (die x (kfWorld f))" for y
      using that d(5) [of y] by (simp add: s)
    show "inj_on plConn (pg_held (kfNodes f i))" for i by (rule d(6))
    show "y = z" if "0 < lvLk v (die x (kfWorld f)) y k" "0 < lvLk v (die x (kfWorld f)) z k" for y z k
      using that le [of y k] le [of z k] d(7) [of y k z] by simp
    show "i \<in> lvShut v (die x (kfWorld f))" if "pzHeld (kfNodes f i) = None" for i using d(8) [OF that] by (simp add: s)
  qed
qed

lemma lock_reach_inv:
  "(lock_step lp sha die)\<^sup>*\<^sup>* f f' \<Longrightarrow> locks_ok lp die v \<Longrightarrow> lock_inv v f \<Longrightarrow> lock_inv v f'"
  by (induction rule: rtranclp_induct) (auto intro: lock_step_inv)

definition fresh_locks :: "'s lock_view \<Rightarrow> 's lock_fleet \<Rightarrow> bool" where
  "fresh_locks v f \<longleftrightarrow> (\<forall>i. pzHeld (kfNodes f i) = Some []) \<and> lvOut v (kfWorld f) = {} \<and>
     (\<forall>x. lvLk v (kfWorld f) x = (\<lambda>_. 0))"

lemma fresh_locks_inv: "fresh_locks v f \<Longrightarrow> lock_inv v f"
  by (simp add: fresh_locks_def lock_inv_def pg_held_def)

text \<open>Every lock that a session holds is that of a held lease.\<close>

lemma lock_accounted:
  assumes "lock_inv v f" "lvLk v (kfWorld f) x k \<noteq> 0"
  shows "\<exists>l\<in>pg_held (kfNodes f (fst x)). plConn l = x \<and> plKey l = k"
proof -
  have "x \<in> lvOut v (kfWorld f)" using lock_invD(1) [OF assms(1), of x] assms(2) by (metis (mono_tags))
  then obtain l where l: "l \<in> pg_held (kfNodes f (fst x))" "plConn l = x" using lock_invD(5) [OF assms(1)] by blast
  with lock_invD(4) [OF assms(1) l(1), rule_format, of k] assms(2) show ?thesis by (auto split: if_splits)
qed

subsection \<open>Properties\<close>


text \<open>C12: a lease that nobody holds can be taken.  Releases (also those whose unlock fails), lost answers
  and shutdowns leave no lock behind: when no instance holds a lease for the key of a feed, an open
  coordinator that gets a connection and an answer gets the lease.\<close>

theorem pg_free_feed_is_taken:
  assumes "locks_ok lp die v" "fresh_locks v f0" "(lock_step lp sha die)\<^sup>*\<^sup>* f0 f"
    and "\<forall>j. \<forall>l\<in>pg_held (kfNodes f j). plKey l \<noteq> pg_lockKey sha u"
    and "pzHeld (kfNodes f i) \<noteq> None" "lpAcquire lp c i (kfWorld f) = (Inr x, s1)"
    and "lpTryLock lp c x (pg_lockKey sha u) s1 = (Inr b, s2)"
  shows "fst (pg_TryAcquire lp sha c i u (kfNodes f i) (kfWorld f)) = Inr (Some \<lparr>plConn = x, plKey = pg_lockKey sha u\<rparr>)"
proof -
  let ?key = "pg_lockKey sha u"
  have inv: "lock_inv v f" by (rule lock_reach_inv [OF assms(3,1) fresh_locks_inv [OF assms(2)]])
  have free: "lvLk v (kfWorld f) y ?key = 0" for y using lock_accounted [OF inv, of y ?key] assms(4) by blast
  have "acquire_ok lp v" "trylock_ok lp v" using assms(1) by (simp_all add: locks_ok_def)
  then have same: "locks_same v (kfWorld f) s1"
    and tr: "case (Inr b :: bool result) of
        Inl _ \<Rightarrow> locks_same v s1 s2 \<or> lock_taken v x ?key s1 s2 \<and> x \<in> lvBad v s2
      | Inr b \<Rightarrow> if b then lock_taken v x ?key s1 s2 else locks_same v s1 s2 \<and> (\<exists>y. y \<noteq> x \<and> lvLk v s1 y ?key \<noteq> 0)"
    using assms(6,7) unfolding acquire_ok_def trylock_ok_def by blast+
  from tr have "b \<or> (\<exists>y. lvLk v s1 y ?key \<noteq> 0)" by (cases b) auto
  moreover have "lvLk v s1 y ?key = 0" for y using same free unfolding locks_same_def by metis
  ultimately have b by simp
  with assms(5-7) show ?thesis by (auto simp: pg_TryAcquire_def Let_def)
qed

text \<open>A server in memory: the locks as a list of sessions and keys.\<close>

record toy_server =
  tsOut :: "conn list"
  tsLocks :: "(conn \<times> int) list"
  tsShut :: "nat list"
  tsNext :: nat

definition toy_pool :: "toy_server lock_pool" where
  "toy_pool =
     \<lparr>lpAcquire = (\<lambda>c i s. if (i, tsNext s) \<in> set (tsOut s) then (Inl Canceled, s)
          else (Inr (i, tsNext s), s\<lparr>tsOut := (i, tsNext s) # tsOut s, tsNext := Suc (tsNext s)\<rparr>)),
      lpTryLock = (\<lambda>c x k s. if \<exists>e\<in>set (tsLocks s). fst e \<noteq> x \<and> snd e = k then (Inr False, s)
          else (Inr True, s\<lparr>tsLocks := (x, k) # tsLocks s\<rparr>)),
      lpUnlock = (\<lambda>x k s. (None, s\<lparr>tsLocks := remove1 (x, k) (tsLocks s)\<rparr>)),
      lpRelease = (\<lambda>x s. s\<lparr>tsOut := removeAll x (tsOut s),
          tsLocks := (if fst x \<in> set (tsShut s) then filter (\<lambda>e. fst e \<noteq> x) (tsLocks s) else tsLocks s)\<rparr>),
      lpKill = (\<lambda>x s. s\<lparr>tsOut := removeAll x (tsOut s), tsLocks := filter (\<lambda>e. fst e \<noteq> x) (tsLocks s)\<rparr>),
      lpClose = (\<lambda>i s. s\<lparr>tsShut := i # tsShut s,
          tsLocks := filter (\<lambda>e. \<not> (fst (fst e) = i \<and> fst e \<notin> set (tsOut s))) (tsLocks s)\<rparr>)\<rparr>"

definition toy_die :: "conn \<Rightarrow> toy_server \<Rightarrow> toy_server" where
  "toy_die x s = s\<lparr>tsLocks := filter (\<lambda>e. fst e \<noteq> x) (tsLocks s)\<rparr>"

definition toy_view :: "toy_server lock_view" where
  "toy_view = \<lparr>lvOut = (\<lambda>s. set (tsOut s)), lvLk = (\<lambda>s x k. count_list (tsLocks s) (x, k)),
     lvBad = (\<lambda>s. {}), lvShut = (\<lambda>s. set (tsShut s))\<rparr>"

lemma count_filter_keep: "count_list (filter P xs) e = (if P e then count_list xs e else 0)"
  by (induction xs) auto

lemma count_remove1: "count_list (remove1 a xs) e = (if e = a then count_list xs e - 1 else count_list xs e)"
  by (induction xs) (auto simp: count_list_0_iff)

lemma toy_pool_ok: "locks_ok toy_pool toy_die toy_view"
proof -
  have "acquire_ok toy_pool toy_view"
    by (auto simp: acquire_ok_def toy_pool_def toy_view_def locks_same_def)
  moreover have "trylock_ok toy_pool toy_view"
    by (auto simp: trylock_ok_def toy_pool_def toy_view_def locks_same_def pool_same_def lock_taken_def fun_eq_iff count_list_0_iff)
      blast+
  moreover have "unlock_ok toy_pool toy_view"
    by (auto simp: unlock_ok_def toy_pool_def toy_view_def pool_same_def lock_dropped_def fun_eq_iff count_remove1)
  moreover have "return_ok toy_pool toy_view"
    by (auto simp: return_ok_def toy_pool_def toy_view_def locks_freed_def locks_same_def fun_eq_iff count_filter_keep)
  moreover have "kill_ok toy_pool toy_view"
    by (auto simp: kill_ok_def toy_pool_def toy_view_def locks_freed_def fun_eq_iff count_filter_keep)
  moreover have "close_ok toy_pool toy_view"
    by (auto simp: close_ok_def toy_pool_def toy_view_def fun_eq_iff count_filter_keep)
  moreover have "die_ok toy_die toy_view"
    by (auto simp: die_ok_def toy_die_def toy_view_def pool_same_def locks_freed_def fun_eq_iff count_filter_keep)
  ultimately show ?thesis by (simp add: locks_ok_def)
qed

definition toy_locks :: "toy_server lock_fleet" where
  "toy_locks = \<lparr>kfWorld = \<lparr>tsOut = [], tsLocks = [], tsShut = [], tsNext = 0\<rparr>,
     kfNodes = (\<lambda>i. \<lparr>pzMemberTTL = 30 * second, pzHeld = Some []\<rparr>)\<rparr>"

lemma toy_locks_fresh: "fresh_locks toy_view toy_locks"
  by (simp add: fresh_locks_def toy_locks_def toy_view_def)

theorem pg_free_feed_is_taken_witness:
  "fst (pg_TryAcquire toy_pool (\<lambda>_. []) None 0 ''u'' (kfNodes toy_locks 0) (kfWorld toy_locks)) =
     Inr (Some \<lparr>plConn = (0, 0), plKey = pg_lockKey (\<lambda>_. []) ''u''\<rparr>)"
proof -
  obtain s1 where a: "lpAcquire toy_pool None 0 (kfWorld toy_locks) = (Inr (0, 0), s1)" "tsLocks s1 = []"
    by (simp add: toy_pool_def toy_locks_def)
  then obtain s2 where t: "lpTryLock toy_pool None (0, 0) (pg_lockKey (\<lambda>_. []) ''u'') s1 = (Inr True, s2)"
    by (simp add: toy_pool_def)
  show ?thesis
    by (rule pg_free_feed_is_taken [OF toy_pool_ok toy_locks_fresh rtranclp.rtrancl_refl _ _ a(1) t])
      (simp_all add: toy_locks_def pg_held_def)
qed


subsection \<open>Keys and options\<close>

text \<open>A key is a 64-bit integer; it is made of the first eight bytes of the hash only.\<close>

lemma pg_lockKey_range: "int64_range (pg_lockKey sha u)"
  using sint_greater_eq [of "foldl (\<lambda>k b. push_bit 8 k OR ucast b) (0 :: 64 word) (take 8 (sha u))"]
    sint_less [of "foldl (\<lambda>k b. push_bit 8 k OR ucast b) (0 :: 64 word) (take 8 (sha u))"]
  by (simp add: int64_range_def pg_lockKey_def)

lemma pg_lockKey_first_eight: "take 8 (sha u) = take 8 (sha' w) \<Longrightarrow> pg_lockKey sha u = pg_lockKey sha' w"
  by (simp add: pg_lockKey_def)

text \<open>Once the options ask for TLS, no plaintext fallback is left; and the pool is never made smaller.\<close>

lemma pg_coord_tls:
  assumes "pg_coord_config px env opts = Inr cfg" "pqTLS opts \<noteq> None"
  shows "pxFallbacks cfg = [] \<and> pxTLSConfig cfg \<noteq> None"
  using assms by (auto simp: pg_coord_config_def force_tls_def Let_def split: sum.splits option.splits)

lemma pg_coord_max_conns:
  assumes "pg_coord_config px env opts = Inr cfg" "pxParseConfig px (pqDSN opts) = Inr cfg0"
  shows "pxMaxConns cfg0 \<le> pxMaxConns cfg"
  using assms by (auto simp: pg_coord_config_def force_tls_def Let_def split: sum.splits option.splits if_splits)

end
