(* ===== verification/Members.thy ===== *)
theory Members
  imports Ownership State_DynamoDB Coord_CosmosDB Pg_Pool
begin

section \<open>Live members of the fleet (\<^verbatim>\<open>internal/coord/*/membership.go\<close>)\<close>

text \<open>
  A heartbeat refreshes the row of this instance and returns the members whose rows have not expired; the
  owner provider assigns the feeds among them.  Four backends keep the rows: DynamoDB and Cosmos DB list
  them page by page and delete the expired ones on the way, PostgreSQL does it in two statements, Redis
  lets the keys expire.  The services are reached through records of calls; the predicates \<open>scan_ok\<close> and
  \<open>rows_ok\<close> say what is relied on of them.
\<close>

subsection \<open>Listing page by page\<close>

text \<open>One entry: unreadable ones are skipped, live ones are collected without their prefix, and the others
  are deleted.  \<open>decode\<close> gives the key of an entry and its expiry.\<close>

definition visit ::
    "('i \<Rightarrow> (string \<times> int) option) \<Rightarrow> (string \<Rightarrow> 's \<Rightarrow> 's) \<Rightarrow> int \<Rightarrow> 'i \<Rightarrow> string list \<times> 's \<Rightarrow> string list \<times> 's" where
  "visit decode reap nowMs it = (\<lambda>(ids, s).
     case decode it of
       None \<Rightarrow> (ids, s)
     | Some (key, expMs) \<Rightarrow>
         if expMs > nowMs then (ids @ [TrimPrefix key ''member:''], s) else (ids, reap key s))"

partial_function (option) scan_loop ::
    "('k option \<Rightarrow> 's \<Rightarrow> ('i list \<times> 'k option) result \<times> 's) \<Rightarrow> ('i \<Rightarrow> (string \<times> int) option) \<Rightarrow>
     (string \<Rightarrow> 's \<Rightarrow> 's) \<Rightarrow> int \<Rightarrow> 'k option \<Rightarrow> string list \<Rightarrow> 's \<Rightarrow> (string list result \<times> 's) option" where
  "scan_loop next decode reap nowMs start ids s =
     (case next start s of
        (Inl err, s1) \<Rightarrow> Some (Inl err, s1)
      | (Inr (items, lst), s1) \<Rightarrow>
          (case fold (visit decode reap nowMs) items (ids, s1) of
             (ids2, s2) \<Rightarrow>
               (case lst of
                  None \<Rightarrow> Some (Inr ids2, s2)
                | Some k \<Rightarrow> scan_loop next decode reap nowMs (Some k) ids2 s2)))"

subsection \<open>DynamoDB\<close>

record 's member_table =
  mtPut :: "ctx \<Rightarrow> attrs \<Rightarrow> 's \<Rightarrow> go_error option \<times> 's"
  mtScan :: "ctx \<Rightarrow> attrs option \<Rightarrow> 's \<Rightarrow> (attrs list \<times> attrs option) result \<times> 's"
  mtDelete :: "ctx \<Rightarrow> string \<Rightarrow> 's \<Rightarrow> go_error option \<times> 's"

record member =
  mmSelf :: string
  mmTTL :: duration

definition memberPKPrefix :: string where "memberPKPrefix = ''member:''"

definition memberPK :: "string \<Rightarrow> string" where "memberPK self = memberPKPrefix @ self"

definition dynamo_Membership :: "duration \<Rightarrow> duration \<Rightarrow> string \<Rightarrow> member" where
  "dynamo_Membership memberTTL leaseDuration self =
     \<lparr>mmSelf = self, mmTTL = (if memberTTL \<le> 0 then leaseDuration else memberTTL)\<rparr>"

definition member_item :: "member \<Rightarrow> time \<Rightarrow> attrs" where
  "member_item m now =
     [(''pk'', AttrS (memberPK (mmSelf m))), (''lease_expiry'', AttrN (itoa (UnixMilli (now + mmTTL m))))]"

definition decode_item :: "attrs \<Rightarrow> (string \<times> int) option" where
  "decode_item it =
     (case map_of it ''pk'' of
        Some (AttrS pk) \<Rightarrow>
          (case map_of it ''lease_expiry'' of
             Some (AttrN v) \<Rightarrow> Some (pk, ParseInt v)
           | _ \<Rightarrow> None)
      | _ \<Rightarrow> None)"

definition dynamo_Heartbeat ::
    "'s member_table \<Rightarrow> member \<Rightarrow> time \<Rightarrow> ctx \<Rightarrow> 's \<Rightarrow> (string list result \<times> 's) option" where
  "dynamo_Heartbeat api m now c s =
     (case mtPut api c (member_item m now) s of
        (Some err, s1) \<Rightarrow> Some (Inl err, s1)
      | (None, s1) \<Rightarrow>
          scan_loop (mtScan api c) decode_item (\<lambda>key s. snd (mtDelete api c key s)) (UnixMilli now) None [] s1)"

definition dynamo_Deregister :: "'s member_table \<Rightarrow> member \<Rightarrow> ctx \<Rightarrow> 's \<Rightarrow> go_error option \<times> 's" where
  "dynamo_Deregister api m c s = mtDelete api c (memberPK (mmSelf m)) s"

subsection \<open>Cosmos DB\<close>

text \<open>The pager as the pages it gives, by number.\<close>

record 's member_container =
  mcLeases :: "'s lease_container"
  mcPage :: "nat \<Rightarrow> 's \<Rightarrow> (cosmos_error + json list \<times> bool) \<times> 's"

definition memberPartitionKey :: string where "memberPartitionKey = ''members''"

definition memberDocID :: "string \<Rightarrow> string" where "memberDocID self = ''member:'' @ self"

definition cosmos_Membership :: "cosmos_coordinator \<Rightarrow> string \<Rightarrow> member" where
  "cosmos_Membership c self =
     \<lparr>mmSelf = self, mmTTL = (if czMemberTTL c \<le> 0 then czLeaseDuration c else czMemberTTL c)\<rparr>"

definition memberDoc :: "member \<Rightarrow> time \<Rightarrow> fields" where
  "memberDoc m now =
     [(''id'', JStr (memberDocID (mmSelf m))), (''pk'', JStr memberPartitionKey),
      (''lease_expiry'', JInt (UnixMilli (now + mmTTL m)))]"

definition upsertMember :: "'s lease_container \<Rightarrow> member \<Rightarrow> time \<Rightarrow> 's \<Rightarrow> go_error option \<times> 's" where
  "upsertMember cn m now s =
     (let doc = memberDocID (mmSelf m); body = JObj (memberDoc m now) in
      case lcCreateItem cn memberPartitionKey body s of
        (Inr _, s1) \<Rightarrow> (None, s1)
      | (Inl err, s1) \<Rightarrow>
          if \<not> isStatus err 409 then (Some (ceErr err), s1)
          else (case lcReadItem cn memberPartitionKey doc s1 of
                  (Inl err, s2) \<Rightarrow>
                    if isStatus err 404
                    then (case lcCreateItem cn memberPartitionKey body s2 of
                            (Inr _, s3) \<Rightarrow> (None, s3)
                          | (Inl err, s3) \<Rightarrow> (Some (ceErr err), s3))
                    else (Some (ceErr err), s2)
                | (Inr (v, etag), s2) \<Rightarrow>
                    (case lcReplaceItem cn memberPartitionKey doc body etag s2 of
                       (Inr _, s3) \<Rightarrow> (None, s3)
                     | (Inl err, s3) \<Rightarrow>
                         if isStatus err 412 \<or> isStatus err 404 then (None, s3) else (Some (ceErr err), s3))))"

definition decode_doc :: "json \<Rightarrow> (string \<times> int) option" where
  "decode_doc v =
     (case v of
        JObj fs \<Rightarrow>
          (case (json_string fs ''id'', json_int fs ''lease_expiry'') of
             (Some i, Some e) \<Rightarrow> Some (i, e)
           | _ \<Rightarrow> None)
      | _ \<Rightarrow> None)"

definition next_page :: "'s member_container \<Rightarrow> nat option \<Rightarrow> 's \<Rightarrow> (json list \<times> nat option) result \<times> 's" where
  "next_page mc start s =
     (let k = (case start of None \<Rightarrow> 0 | Some k \<Rightarrow> k) in
      case mcPage mc k s of
        (Inl err, s1) \<Rightarrow> (Inl (ceErr err), s1)
      | (Inr (items, again), s1) \<Rightarrow> (Inr (items, if again then Some (Suc k) else None), s1))"

definition queryLiveMembers :: "'s member_container \<Rightarrow> time \<Rightarrow> 's \<Rightarrow> (string list result \<times> 's) option" where
  "queryLiveMembers mc now s =
     scan_loop (next_page mc) decode_doc
       (\<lambda>doc s. snd (lcDeleteItem (mcLeases mc) memberPartitionKey doc None s)) (UnixMilli now) None [] s"

definition cosmos_Heartbeat ::
    "'s member_container \<Rightarrow> member \<Rightarrow> time \<Rightarrow> 's \<Rightarrow> (string list result \<times> 's) option" where
  "cosmos_Heartbeat mc m now s =
     (case upsertMember (mcLeases mc) m now s of
        (Some err, s1) \<Rightarrow> Some (Inl err, s1)
      | (None, s1) \<Rightarrow> queryLiveMembers mc now s1)"

definition cosmos_Deregister :: "'s lease_container \<Rightarrow> member \<Rightarrow> 's \<Rightarrow> go_error option \<times> 's" where
  "cosmos_Deregister cn m s =
     (case lcDeleteItem cn memberPartitionKey (memberDocID (mmSelf m)) None s of
        (None, s1) \<Rightarrow> (None, s1)
      | (Some err, s1) \<Rightarrow> if isStatus err 404 then (None, s1) else (Some (ceErr err), s1))"

subsection \<open>PostgreSQL\<close>

text \<open>\<open>clk\<close> is the clock of the server at each of the three statements, \<open>stmt\<close> how each of them ends, and
  \<open>broken\<close> what reading the rows may end with after some of them.\<close>

record pg_members =
  coordination_members :: "(string \<times> time) list"

record pg_member_run =
  prClock :: "nat \<Rightarrow> time"
  prStmt :: "nat \<Rightarrow> stmt_outcome"
  prScan :: "string list \<Rightarrow> string list result"

definition Milliseconds :: "duration \<Rightarrow> int" where
  "Milliseconds d = (if d < 0 then - ((- d) div millisecond) else d div millisecond)"

definition pg_Heartbeat ::
    "pg_member_run \<Rightarrow> duration \<Rightarrow> string \<Rightarrow> 'z pg_members_scheme \<Rightarrow> string list result \<times> 'z pg_members_scheme" where
  "pg_Heartbeat run memberTTL self s =
     (let ttl = Milliseconds memberTTL * millisecond in
      case run_stmt (prStmt run 0)
             (\<lambda>s. s\<lparr>coordination_members := upsert_row self (prClock run 0) (coordination_members s)\<rparr>) s of
        (Some err, s1) \<Rightarrow> (Inl (Errorf ''coord/postgres: heartbeat upsert: %w'' [FWrap err]), s1)
      | (None, s1) \<Rightarrow>
          (case run_stmt (prStmt run 1)
                 (\<lambda>s. s\<lparr>coordination_members := filter (\<lambda>(i, t). \<not> t < prClock run 1 - ttl) (coordination_members s)\<rparr>) s1 of
             (_, s2) \<Rightarrow>
               (case prStmt run 2 of
                  StmtErr err _ \<Rightarrow> (Inl (Errorf ''coord/postgres: heartbeat select: %w'' [FWrap err]), s2)
                | StmtOK \<Rightarrow>
                    (prScan run (map fst (filter (\<lambda>(i, t). t > prClock run 2 - ttl) (coordination_members s2))), s2))))"

definition pg_Deregister :: "stmt_outcome \<Rightarrow> string \<Rightarrow> 'z pg_members_scheme \<Rightarrow> go_error option \<times> 'z pg_members_scheme" where
  "pg_Deregister oc self s =
     run_stmt oc (\<lambda>s. s\<lparr>coordination_members := filter (\<lambda>(i, t). i \<noteq> self) (coordination_members s)\<rparr>) s"

definition createMembersTable :: string where
  "createMembersTable = ''CREATE TABLE IF NOT EXISTS coordination_members''"

definition pg_Membership :: "('p, 's) pgx \<Rightarrow> 'p \<Rightarrow> string \<Rightarrow> 's \<Rightarrow> string result \<times> 's" where
  "pg_Membership px pool self s =
     (case pxExec px None pool createMembersTable s of
        (Some err, s1) \<Rightarrow> (Inl (Errorf ''coord/postgres: create coordination_members: %w'' [FWrap err]), s1)
      | (None, s1) \<Rightarrow> (Inr self, s1))"

subsection \<open>Redis\<close>

text \<open>\<open>mkScan\<close>: the keys an iteration gives, in order, and the error it ends with.\<close>

record 's member_keys =
  mkSet :: "ctx \<Rightarrow> string \<Rightarrow> string \<Rightarrow> duration \<Rightarrow> 's \<Rightarrow> go_error option \<times> 's"
  mkScan :: "ctx \<Rightarrow> string \<Rightarrow> 's \<Rightarrow> (string list \<times> go_error option) \<times> 's"
  mkDel :: "ctx \<Rightarrow> string \<Rightarrow> 's \<Rightarrow> go_error option \<times> 's"

definition memberKeyPrefix :: string where "memberKeyPrefix = ''rss2msg:coord:member:''"

definition memberKey :: "string \<Rightarrow> string" where "memberKey self = memberKeyPrefix @ self"

definition redis_Heartbeat ::
    "'s member_keys \<Rightarrow> duration \<Rightarrow> string \<Rightarrow> ctx \<Rightarrow> 's \<Rightarrow> string list result \<times> 's" where
  "redis_Heartbeat cl memberTTL self c s =
     (case mkSet cl c (memberKey self) ''1'' memberTTL s of
        (Some err, s1) \<Rightarrow> (Inl err, s1)
      | (None, s1) \<Rightarrow>
          (case mkScan cl c (memberKeyPrefix @ ''*'') s1 of
             ((keys, Some err), s2) \<Rightarrow> (Inl err, s2)
           | ((keys, None), s2) \<Rightarrow> (Inr (map (\<lambda>k. TrimPrefix k memberKeyPrefix) keys), s2)))"

definition redis_Deregister :: "'s member_keys \<Rightarrow> string \<Rightarrow> ctx \<Rightarrow> 's \<Rightarrow> go_error option \<times> 's" where
  "redis_Deregister cl self c s = mkDel cl c (memberKey self) s"

definition redis_Membership :: "'s member_keys \<Rightarrow> duration \<Rightarrow> string \<Rightarrow> 's Membership" where
  "redis_Membership cl memberTTL self =
     \<lparr>mbHeartbeat = redis_Heartbeat cl memberTTL self, mbDeregister = redis_Deregister cl self,
      mbClose = (\<lambda>s. (None, s))\<rparr>"

subsection \<open>A listing finds the live members\<close>

text \<open>
  \<open>members\<close> are the rows with their expiries.  The service lists them in some order, \<open>rank\<close>; a page holds
  what lies between the position it starts at and the one it gives for the next page, the last page all the
  rest, and pages make progress.
\<close>

type_synonym 's members = "'s \<Rightarrow> string \<Rightarrow> int option"

definition page_lo :: "('k \<Rightarrow> nat) \<Rightarrow> 'k option \<Rightarrow> nat" where
  "page_lo pos start = (case start of None \<Rightarrow> 0 | Some k \<Rightarrow> pos k)"

definition entries :: "('i \<Rightarrow> (string \<times> int) option) \<Rightarrow> 'i list \<Rightarrow> (string \<times> int) set" where
  "entries decode items = {x. \<exists>it\<in>set items. decode it = Some x}"

definition page_ok ::
    "('i \<Rightarrow> (string \<times> int) option) \<Rightarrow> (string \<Rightarrow> int option) \<Rightarrow> (string \<Rightarrow> nat) \<Rightarrow> ('k \<Rightarrow> nat) \<Rightarrow> nat \<Rightarrow>
     nat \<Rightarrow> 'i list \<Rightarrow> 'k option \<Rightarrow> nat \<Rightarrow> bool" where
  "page_ok decode rows rank pos bound lo items lst hi \<longleftrightarrow>
     entries decode items = {(k, e). rows k = Some e \<and> lo \<le> rank k \<and> rank k < hi} \<and>
     (case lst of
        None \<Rightarrow> \<forall>k. rows k \<noteq> None \<longrightarrow> rank k < hi
      | Some p \<Rightarrow> pos p = hi \<and> lo < hi \<and> hi \<le> bound)"

definition scan_ok ::
    "('k option \<Rightarrow> 's \<Rightarrow> ('i list \<times> 'k option) result \<times> 's) \<Rightarrow> ('i \<Rightarrow> (string \<times> int) option) \<Rightarrow>
     's members \<Rightarrow> (string \<Rightarrow> nat) \<Rightarrow> ('k \<Rightarrow> nat) \<Rightarrow> nat \<Rightarrow> bool" where
  "scan_ok next decode members rank pos bound \<longleftrightarrow>
     (\<forall>start s r s'. next start s = (r, s') \<longrightarrow> members s' = members s \<and>
        (\<forall>items lst. r = Inr (items, lst) \<longrightarrow>
           (\<exists>hi. page_ok decode (members s) rank pos bound (page_lo pos start) items lst hi)))"

definition reap_ok :: "(string \<Rightarrow> 's \<Rightarrow> 's) \<Rightarrow> 's members \<Rightarrow> bool" where
  "reap_ok reap members \<longleftrightarrow>
     (\<forall>k s. members (reap k s) = members s \<or> members (reap k s) = (members s)(k := None))"

definition live :: "int \<Rightarrow> (string \<Rightarrow> int option) \<Rightarrow> string set" where
  "live nowMs rows = {k. \<exists>e>nowMs. rows k = Some e}"

definition member_ids :: "string set \<Rightarrow> string set" where
  "member_ids ks = (\<lambda>k. TrimPrefix k ''member:'') ` ks"

lemma reap_okD: "reap_ok reap members \<Longrightarrow> members (reap k s) x = members s x \<or> x = k \<and> members (reap k s) x = None"
  unfolding reap_ok_def by (metis fun_upd_apply)

lemma visit_apply:
  "visit decode reap nowMs it (ids, s) =
     (case decode it of
       None \<Rightarrow> (ids, s)
     | Some (key, expMs) \<Rightarrow>
         if expMs > nowMs then (ids @ [TrimPrefix key ''member:''], s) else (ids, reap key s))"
  by (simp add: visit_def)

lemma visit_page:
  assumes "reap_ok reap members" "fold (visit decode reap nowMs) items (ids, s) = (ids2, s2)"
  shows "set ids2 = set ids \<union> member_ids {k. \<exists>e>nowMs. (k, e) \<in> entries decode items} \<and>
    (\<forall>k. members s2 k = members s k \<or> members s2 k = None \<and> (\<exists>e\<le>nowMs. (k, e) \<in> entries decode items))"
  using assms(2)
proof (induction items arbitrary: ids s)
  case (Cons it items)
  have ent: "entries decode (it # items) = set_option (decode it) \<union> entries decode items"
    by (auto simp: entries_def)
  show ?case
  proof (cases "decode it")
    case None
    with Cons show ?thesis by (simp add: visit_apply ent)
  next
    case (Some x)
    obtain key e where x: "x = (key, e)" by fastforce
    show ?thesis
    proof (cases "nowMs < e")
      case True
      with Some x Cons.prems have "fold (visit decode reap nowMs) items (ids @ [TrimPrefix key ''member:''], s) = (ids2, s2)"
        by (simp add: visit_apply)
      from Cons.IH [OF this] True Some x show ?thesis by (auto simp: ent member_ids_def)
    next
      case False
      with Some x Cons.prems have "fold (visit decode reap nowMs) items (ids, reap key s) = (ids2, s2)"
        by (simp add: visit_apply)
      from Cons.IH [OF this] have ih: "set ids2 = set ids \<union> member_ids {k. \<exists>e>nowMs. (k, e) \<in> entries decode items}"
        "\<And>k. members s2 k = members (reap key s) k \<or>
           members s2 k = None \<and> (\<exists>e\<le>nowMs. (k, e) \<in> entries decode items)" by blast+
      have "members s2 k = members s k \<or> members s2 k = None \<and> (\<exists>e\<le>nowMs. (k, e) \<in> entries decode (it # items))" for k
        using ih(2) [of k] reap_okD [OF assms(1), of key s k] False Some x by (fastforce simp: ent not_less)
      moreover have "{k. \<exists>e>nowMs. (k, e) \<in> entries decode (it # items)} = {k. \<exists>e>nowMs. (k, e) \<in> entries decode items}"
        using False Some x by (auto simp: ent)
      ultimately show ?thesis using ih(1) by simp
    qed
  qed
qed (simp add: entries_def member_ids_def)

text \<open>What is true of the loop before each page: the rows still to come are as they were, live rows are
  kept, and the live ones among those listed are collected.\<close>

definition scan_inv :: "'s members \<Rightarrow> (string \<Rightarrow> nat) \<Rightarrow> int \<Rightarrow> 's \<Rightarrow> nat \<Rightarrow> string list \<Rightarrow> 's \<Rightarrow> bool" where
  "scan_inv members rank nowMs s0 lo ids s \<longleftrightarrow>
     (\<forall>k. lo \<le> rank k \<longrightarrow> members s k = members s0 k) \<and>
     (\<forall>k\<in>live nowMs (members s0). members s k = members s0 k) \<and>
     set ids = member_ids {k \<in> live nowMs (members s0). rank k < lo}"

lemma scan_page:
  assumes reap: "reap_ok reap members" and inv: "scan_inv members rank nowMs s0 lo ids s"
    and pg: "page_ok decode (members s) rank pos bound lo items lst hi" and s1: "members s1 = members s"
    and fold: "fold (visit decode reap nowMs) items (ids, s1) = (ids2, s2)"
  shows "scan_inv members rank nowMs s0 (max lo hi) ids2 s2"
proof -
  have ent: "entries decode items = {(k, e). members s k = Some e \<and> lo \<le> rank k \<and> rank k < hi}"
    using pg by (simp add: page_ok_def)
  note v = visit_page [OF reap fold, unfolded ent s1]
  have i: "\<And>k. lo \<le> rank k \<Longrightarrow> members s k = members s0 k" "\<And>k. k \<in> live nowMs (members s0) \<Longrightarrow> members s k = members s0 k"
    "set ids = member_ids {k \<in> live nowMs (members s0). rank k < lo}"
    using inv unfolding scan_inv_def by blast+
  have "members s2 k = members s0 k" if "max lo hi \<le> rank k" for k
    using conjunct2 [OF v, rule_format, of k] i(1) [of k] that by auto
  moreover have "members s2 k = members s0 k" if "k \<in> live nowMs (members s0)" for k
    using conjunct2 [OF v, rule_format, of k] i(2) [OF that] that by (auto simp: live_def)
  moreover have "{k. \<exists>e>nowMs. members s k = Some e \<and> lo \<le> rank k \<and> rank k < hi} =
      {k \<in> live nowMs (members s0). lo \<le> rank k \<and> rank k < hi}"
    using i(1) by (auto simp: live_def)
  then have "set ids2 = member_ids ({k \<in> live nowMs (members s0). rank k < lo} \<union>
      {k \<in> live nowMs (members s0). lo \<le> rank k \<and> rank k < hi})"
    using conjunct1 [OF v] i(3) by (simp add: member_ids_def image_Un)
  moreover have "{k \<in> live nowMs (members s0). rank k < lo} \<union> {k \<in> live nowMs (members s0). lo \<le> rank k \<and> rank k < hi} =
      {k \<in> live nowMs (members s0). rank k < max lo hi}" by auto
  ultimately show ?thesis by (simp add: scan_inv_def)
qed

lemma scan_loop_inv:
  assumes ok: "scan_ok next decode members rank pos bound" and reap: "reap_ok reap members"
    and inv: "scan_inv members rank nowMs s0 (page_lo pos start) ids s"
  shows "\<exists>r s'. scan_loop next decode reap nowMs start ids s = Some (r, s') \<and>
    (\<forall>ids. r = Inr ids \<longrightarrow> set ids = member_ids (live nowMs (members s0))) \<and>
    (\<forall>k\<in>live nowMs (members s0). members s' k = members s0 k)"
  using inv
proof (induction "bound - page_lo pos start" arbitrary: start ids s rule: less_induct)
  case less
  obtain r1 s1 where nx: "next start s = (r1, s1)" by fastforce
  with ok have n: "members s1 = members s"
    "\<And>items lst. r1 = Inr (items, lst) \<Longrightarrow>
       \<exists>hi. page_ok decode (members s) rank pos bound (page_lo pos start) items lst hi"
    unfolding scan_ok_def by blast+
  note inv = less.prems
  show ?case
  proof (cases r1)
    case (Inl err)
    with nx n(1) inv show ?thesis by (simp add: scan_loop.simps scan_inv_def)
  next
    case (Inr x)
    obtain items lst where x: "x = (items, lst)" by fastforce
    then obtain hi where pg: "page_ok decode (members s) rank pos bound (page_lo pos start) items lst hi"
      using n(2) Inr by blast
    obtain ids2 s2 where fold: "fold (visit decode reap nowMs) items (ids, s1) = (ids2, s2)" by fastforce
    note step = scan_page [OF reap inv pg n(1) fold]
    show ?thesis
    proof (cases lst)
      case None
      with pg have all: "\<And>k. members s k \<noteq> None \<Longrightarrow> rank k < hi" by (simp add: page_ok_def)
      have "rank k < max (page_lo pos start) hi" if "k \<in> live nowMs (members s0)" for k
        using all [of k] that inv by (fastforce simp: scan_inv_def live_def)
      then have "{k \<in> live nowMs (members s0). rank k < max (page_lo pos start) hi} = live nowMs (members s0)" by blast
      with step None nx Inr x fold show ?thesis by (simp add: scan_loop.simps scan_inv_def)
    next
      case (Some p)
      with pg have p: "pos p = hi" "page_lo pos start < hi" "hi \<le> bound" by (simp_all add: page_ok_def)
      have "scan_inv members rank nowMs s0 (page_lo pos (Some p)) ids2 s2"
        using step p by (simp add: page_lo_def max_def split: if_splits)
      moreover have "bound - page_lo pos (Some p) < bound - page_lo pos start" using p by (simp add: page_lo_def)
      ultimately have "\<exists>r s'. scan_loop next decode reap nowMs (Some p) ids2 s2 = Some (r, s') \<and>
        (\<forall>ids. r = Inr ids \<longrightarrow> set ids = member_ids (live nowMs (members s0))) \<and>
        (\<forall>k\<in>live nowMs (members s0). members s' k = members s0 k)" by (intro less.hyps)
      with Some nx Inr x fold show ?thesis by (subst scan_loop.simps) simp
    qed
  qed
qed

lemma scan_finds_live:
  assumes "scan_ok next decode members rank pos bound" "reap_ok reap members"
  obtains r s' where "scan_loop next decode reap nowMs None [] s = Some (r, s')"
    "\<And>ids. r = Inr ids \<Longrightarrow> set ids = member_ids (live nowMs (members s))"
    "\<And>k. k \<in> live nowMs (members s) \<Longrightarrow> members s' k = members s k"
proof -
  have "scan_inv members rank nowMs s (page_lo pos None) [] s" by (simp add: scan_inv_def page_lo_def member_ids_def)
  from scan_loop_inv [OF assms this] that show ?thesis by blast
qed

subsection \<open>What is relied on of the table\<close>

definition put_row_ok :: "'s member_table \<Rightarrow> 's members \<Rightarrow> bool" where
  "put_row_ok api members \<longleftrightarrow>
     (\<forall>c it k e s r s'. decode_item it = Some (k, e) \<longrightarrow> mtPut api c it s = (r, s') \<longrightarrow>
        members s' = (members s)(k \<mapsto> e) \<or> (r \<noteq> None \<and> members s' = members s))"

definition delete_row_ok :: "'s member_table \<Rightarrow> 's members \<Rightarrow> bool" where
  "delete_row_ok api members \<longleftrightarrow>
     (\<forall>c k s r s'. mtDelete api c k s = (r, s') \<longrightarrow>
        members s' = (members s)(k := None) \<or> (r \<noteq> None \<and> members s' = members s))"

definition rows_ok :: "'s member_table \<Rightarrow> 's members \<Rightarrow> (string \<Rightarrow> nat) \<Rightarrow> (attrs \<Rightarrow> nat) \<Rightarrow> nat \<Rightarrow> bool" where
  "rows_ok api members rank pos bound \<longleftrightarrow>
     (\<forall>s k. members s k \<noteq> None \<longrightarrow> HasPrefix k ''member:'') \<and> put_row_ok api members \<and>
     (\<forall>c. scan_ok (mtScan api c) decode_item members rank pos bound) \<and> delete_row_ok api members"

lemma rows_okD:
  assumes "rows_ok api members rank pos bound"
  shows "members s k \<noteq> None \<Longrightarrow> HasPrefix k ''member:''"
    and "decode_item it = Some (k, e) \<Longrightarrow> mtPut api c it s = (None, s') \<Longrightarrow> members s' = (members s)(k \<mapsto> e)"
    and "scan_ok (mtScan api c) decode_item members rank pos bound"
    and "reap_ok (\<lambda>k s. snd (mtDelete api c k s)) members"
    and "mtDelete api c k s = (None, s') \<Longrightarrow> members s' = (members s)(k := None)"
proof -
  from assms have ok: "put_row_ok api members" "delete_row_ok api members" by (simp_all add: rows_ok_def)
  show "members s k \<noteq> None \<Longrightarrow> HasPrefix k ''member:''" "scan_ok (mtScan api c) decode_item members rank pos bound"
    using assms by (simp_all add: rows_ok_def)
  show "decode_item it = Some (k, e) \<Longrightarrow> mtPut api c it s = (None, s') \<Longrightarrow> members s' = (members s)(k \<mapsto> e)"
    using ok(1) unfolding put_row_ok_def by blast
  show "mtDelete api c k s = (None, s') \<Longrightarrow> members s' = (members s)(k := None)"
    using ok(2) unfolding delete_row_ok_def by blast
  show "reap_ok (\<lambda>k s. snd (mtDelete api c k s)) members"
    unfolding reap_ok_def
  proof (intro allI)
    fix k s
    obtain r s' where "mtDelete api c k s = (r, s')" by fastforce
    with ok(2) show "members (snd (mtDelete api c k s)) = members s \<or> members (snd (mtDelete api c k s)) = (members s)(k := None)"
      unfolding delete_row_ok_def by fastforce
  qed
qed

lemma TrimPrefix_memberPK [simp]: "TrimPrefix (memberPK i) ''member:'' = i" "HasPrefix (memberPK i) ''member:''"
  by (simp_all add: TrimPrefix_def HasPrefix_def memberPK_def memberPKPrefix_def)

lemma HasPrefix_member: "HasPrefix k ''member:'' \<Longrightarrow> k = memberPK (TrimPrefix k ''member:'')"
proof -
  assume p: "HasPrefix k ''member:''"
  have "k = take (length ''member:'') k @ drop (length ''member:'') k" by (rule append_take_drop_id [symmetric])
  also have "take (length ''member:'') k = ''member:''" using p unfolding HasPrefix_def .
  finally show ?thesis using p unfolding TrimPrefix_def memberPK_def memberPKPrefix_def by (simp only: if_True)
qed

lemma member_ids_live:
  assumes "\<And>k. rows k \<noteq> None \<Longrightarrow> HasPrefix k ''member:''"
  shows "member_ids (live n rows) = {i. memberPK i \<in> live n rows}"
proof -
  have "k = memberPK (TrimPrefix k ''member:'')" if "k \<in> live n rows" for k
    using that assms [of k] by (intro HasPrefix_member) (auto simp: live_def)
  then show ?thesis unfolding member_ids_def by (force simp: image_iff)
qed

lemma decode_member_item:
  "int64_range (UnixMilli (now + mmTTL m)) \<Longrightarrow>
     decode_item (member_item m now) = Some (memberPK (mmSelf m), UnixMilli (now + mmTTL m))"
  by (simp add: decode_item_def member_item_def int64_range_def ParseInt_itoa)

lemma UnixMilli_later: "millisecond \<le> d \<Longrightarrow> UnixMilli now < UnixMilli (now + d)"
proof -
  assume "millisecond \<le> d"
  then have "UnixMilli (now + millisecond) \<le> UnixMilli (now + d)" by (intro UnixMilli_mono) simp
  then show ?thesis by (simp add: UnixMilli_def millisecond_def)
qed

subsection \<open>Properties\<close>


lemma visits_drop:
  assumes reap: "reap_ok reap members" and del: "\<And>k s. members (reap k s) = (members s)(k := None)"
    and stale: "(k, e) \<in> entries decode items" "e \<le> nowMs"
    and fold: "fold (visit decode reap nowMs) items (ids, s) = (ids2, s2)"
  shows "members s2 k = None"
  using stale(1) fold
proof (induction items arbitrary: ids s)
  case (Cons it items)
  obtain ids1 s1 where v: "visit decode reap nowMs it (ids, s) = (ids1, s1)" by fastforce
  with Cons.prems(2) have rest: "fold (visit decode reap nowMs) items (ids1, s1) = (ids2, s2)" by simp
  show ?case
  proof (cases "(k, e) \<in> entries decode items")
    case True
    from Cons.IH [OF this rest] show ?thesis .
  next
    case False
    with Cons.prems(1) have "decode it = Some (k, e)" by (auto simp: entries_def)
    with v stale(2) have "s1 = reap k s" by (auto simp: visit_apply)
    then have "members s1 k = None" by (simp add: del)
    then show ?thesis using conjunct2 [OF visit_page [OF reap rest], rule_format, of k] by auto
  qed
qed (simp add: entries_def)

text \<open>A late heartbeat can be undone by a peer.  Instance A lists the rows and sees that of B expired;
  before A gets to deleting it, B's heartbeat arrives and succeeds.  A deletes the row all the same (the
  deletion has no condition), and B, which has just refreshed it, is not a member for anybody until its next
  heartbeat.\<close>

theorem reap_drops_refreshed_member:
  assumes ok: "rows_ok api members rank pos bound" and calm: "\<And>k s. fst (mtDelete api c k s) = None"
    and listed: "mtScan api c None s0 = (Inr (items, lst), s1)" "(memberPK (mmSelf b), e0) \<in> entries decode_item items"
      "e0 \<le> UnixMilli now"
    and refreshed: "mtPut api c' (member_item b nowB) s1 = (None, s2)"
    and goes_on: "fold (visit decode_item (\<lambda>k s. snd (mtDelete api c k s)) (UnixMilli now)) items (ids, s2) = (ids3, s3)"
  shows "members s3 (memberPK (mmSelf b)) = None"
proof (rule visits_drop [OF rows_okD(4) [OF ok] _ listed(2,3) goes_on])
  show "members (snd (mtDelete api c k s)) = (members s)(k := None)" for k s
    using rows_okD(5) [OF ok, of c k s "snd (mtDelete api c k s)"] calm [of k s] by (metis prod.collapse)
qed

text \<open>A table that is listed in one page.\<close>

type_synonym toy_rows = "(string \<times> string) list"

definition toy_item :: "toy_rows \<Rightarrow> string \<Rightarrow> attrs" where
  "toy_item s k = [(''pk'', AttrS k), (''lease_expiry'', AttrN (the (map_of s k)))]"

definition toy_members :: "toy_rows member_table" where
  "toy_members =
     \<lparr>mtPut = (\<lambda>c it s. case (map_of it ''pk'', map_of it ''lease_expiry'') of
          (Some (AttrS k), Some (AttrN v)) \<Rightarrow> if HasPrefix k ''member:'' then (None, (k, v) # s) else (Some Canceled, s)
        | _ \<Rightarrow> (Some Canceled, s)),
      mtScan = (\<lambda>c start s. (Inr (if start = None then map (toy_item s) (filter (\<lambda>k. HasPrefix k ''member:'') (map fst s)) else [], None), s)),
      mtDelete = (\<lambda>c k s. (None, filter (\<lambda>r. fst r \<noteq> k) s))\<rparr>"

definition toy_expiry :: "toy_rows members" where
  "toy_expiry s k = (if HasPrefix k ''member:'' then map_option ParseInt (map_of s k) else None)"

lemma decode_item_iff:
  "decode_item it = Some (k, e) \<longleftrightarrow> map_of it ''pk'' = Some (AttrS k) \<and> (\<exists>v. map_of it ''lease_expiry'' = Some (AttrN v) \<and> e = ParseInt v)"
  by (auto simp: decode_item_def split: option.splits attr.splits)

lemma toy_entries:
  "entries decode_item (map (toy_item s) (filter (\<lambda>k. HasPrefix k ''member:'') (map fst s))) =
     {(k, e). toy_expiry s k = Some e}"
proof -
  have "decode_item (toy_item s k) = Some (x, e) \<longleftrightarrow> x = k \<and> e = ParseInt (the (map_of s k))" for k x e
    by (auto simp: decode_item_iff toy_item_def)
  moreover have "k \<in> fst ` set s \<longleftrightarrow> (\<exists>v. map_of s k = Some v)" for k
    by (metis domI domIff dom_map_of_conv_image_fst option.exhaust)
  ultimately show ?thesis by (auto simp: entries_def toy_expiry_def split: if_splits)
qed

lemma map_of_filter_neq: "map_of (filter (\<lambda>r. fst r \<noteq> k) s) x = (if x = k then None else map_of s x)"
  by (induction s) auto

lemma toy_members_ok: "rows_ok toy_members toy_expiry (\<lambda>_. 0) (\<lambda>_. 1) 0"
proof -
  have "put_row_ok toy_members toy_expiry"
    by (auto simp: put_row_ok_def decode_item_iff toy_members_def toy_expiry_def fun_eq_iff)
  moreover have "delete_row_ok toy_members toy_expiry"
    by (auto simp: delete_row_ok_def toy_members_def toy_expiry_def fun_eq_iff map_of_filter_neq)
  moreover have "scan_ok (mtScan toy_members c) decode_item toy_expiry (\<lambda>_. 0) (\<lambda>_. 1) 0" for c
    unfolding scan_ok_def
  proof (intro allI impI conjI)
    fix start :: "attrs option" and s r s' and items :: "attrs list" and lst
    assume n: "mtScan toy_members c start s = (r, s')" and r: "r = Inr (items, lst)"
    have "page_ok decode_item (toy_expiry s) (\<lambda>_. 0) (\<lambda>_. 1) 0 (page_lo (\<lambda>_. 1) start) items lst 1"
      using n r by (cases start) (auto simp: page_ok_def page_lo_def toy_members_def toy_entries, simp_all add: entries_def)
    then show "\<exists>hi. page_ok decode_item (toy_expiry s) (\<lambda>_. 0) (\<lambda>_. 1) 0 (page_lo (\<lambda>_. 1) start) items lst hi" ..
  qed (simp add: toy_members_def)
  moreover have "toy_expiry s k \<noteq> None \<longrightarrow> HasPrefix k ''member:''" for s k by (simp add: toy_expiry_def)
  ultimately show ?thesis by (simp add: rows_ok_def)
qed

definition toy_member :: "string \<Rightarrow> member" where
  "toy_member i = \<lparr>mmSelf = i, mmTTL = 30 * second\<rparr>"

lemma toy_member_fits:
  "millisecond \<le> mmTTL (toy_member i)" "int64_range (UnixMilli (0 + mmTTL (toy_member i)))"
  by (simp_all add: toy_member_def second_def millisecond_def int64_range_def UnixMilli_def)


theorem reap_drops_refreshed_member_witness:
  "toy_expiry
     (snd (fold (visit decode_item (\<lambda>k s. snd (mtDelete toy_members None k s)) (UnixMilli 0))
        (map (toy_item [(memberPK ''b'', itoa (UnixMilli 0))]) [memberPK ''b''])
        ([], snd (mtPut toy_members None (member_item (toy_member ''b'') 0) [(memberPK ''b'', itoa (UnixMilli 0))]))))
     (memberPK ''b'') = None"
proof -
  let ?s0 = "[(memberPK ''b'', itoa (UnixMilli 0))]" and ?b = "toy_member ''b''"
  let ?items = "map (toy_item ?s0) [memberPK ''b'']"
  have b: "mmSelf ?b = ''b''" by (simp add: toy_member_def)
  have 1: "mtScan toy_members None None ?s0 = (Inr (?items, None), ?s0)" by (simp add: toy_members_def)
  have "decode_item (toy_item ?s0 (memberPK ''b'')) = Some (memberPK ''b'', UnixMilli 0)"
    by (simp add: decode_item_iff toy_item_def ParseInt_itoa UnixMilli_def)
  then have 2: "(memberPK (mmSelf ?b), UnixMilli 0) \<in> entries decode_item ?items" unfolding b by (simp add: entries_def)
  have 3: "mtPut toy_members None (member_item ?b 0) ?s0 = (None, snd (mtPut toy_members None (member_item ?b 0) ?s0))"
    by (simp add: toy_members_def member_item_def)
  have 0: "fst (mtDelete toy_members None k s) = None" for k s by (simp add: toy_members_def)
  from reap_drops_refreshed_member [OF toy_members_ok 0 1 2 order_refl 3 prod.collapse [symmetric]] b show ?thesis by simp
qed

subsection \<open>The other backends\<close>

text \<open>The same listing, on Cosmos DB.\<close>

lemma cosmos_heartbeat_live:
  assumes "scan_ok (next_page mc) decode_doc members rank pos bound"
    and "reap_ok (\<lambda>doc s. snd (lcDeleteItem (mcLeases mc) memberPartitionKey doc None s)) members"
    and "upsertMember (mcLeases mc) m now s = (None, s1)"
  shows "\<exists>r s'. cosmos_Heartbeat mc m now s = Some (r, s') \<and>
    (\<forall>ids. r = Inr ids \<longrightarrow> set ids = member_ids (live (UnixMilli now) (members s1)))"
proof -
  obtain r s' where "queryLiveMembers mc now s1 = Some (r, s')"
    "\<And>ids. r = Inr ids \<Longrightarrow> set ids = member_ids (live (UnixMilli now) (members s1))"
    unfolding queryLiveMembers_def by (rule scan_finds_live [OF assms(1,2), of "UnixMilli now" s1]) blast
  with assms(3) show ?thesis by (simp add: cosmos_Heartbeat_def)
qed

text \<open>A document that a peer deletes between the read and the replacement is not written again; the
  heartbeat nevertheless succeeds, and reports the live members without this instance.\<close>

lemma cosmos_upsert_lost:
  assumes "lcCreateItem cn memberPartitionKey (JObj (memberDoc m now)) s = (Inl e1, s1)" "ceStatus e1 = Some 409"
    and "lcReadItem cn memberPartitionKey (memberDocID (mmSelf m)) s1 = (Inr (v, etag), s2)"
    and "lcReplaceItem cn memberPartitionKey (memberDocID (mmSelf m)) (JObj (memberDoc m now)) etag s2 = (Inl e3, s3)"
    and "ceStatus e3 = Some 404"
  shows "upsertMember cn m now s = (None, s3)"
  using assms by (simp add: upsertMember_def isStatus_def)

lemma cosmos_heartbeat_without_self:
  assumes "scan_ok (next_page mc) decode_doc members rank pos bound"
    and "reap_ok (\<lambda>doc s. snd (lcDeleteItem (mcLeases mc) memberPartitionKey doc None s)) members"
    and "upsertMember (mcLeases mc) m now s = (None, s1)"
    and "\<And>k. members s1 k \<noteq> None \<Longrightarrow> HasPrefix k ''member:''" "members s1 (memberDocID (mmSelf m)) = None"
    and "cosmos_Heartbeat mc m now s = Some (Inr ids, s')"
  shows "mmSelf m \<notin> set ids"
proof -
  have "set ids = member_ids (live (UnixMilli now) (members s1))"
    using cosmos_heartbeat_live [OF assms(1-3)] assms(6) by auto
  also have "\<dots> = {i. memberPK i \<in> live (UnixMilli now) (members s1)}" by (rule member_ids_live) (rule assms(4))
  finally show ?thesis using assms(5) by (simp add: live_def memberPK_def memberPKPrefix_def memberDocID_def)
qed

text \<open>PostgreSQL decides in one statement on the clock of the server, and deletes and reads what is current
  then: a row refreshed in between is neither deleted nor missed.\<close>

lemma pg_heartbeat_live:
  assumes run: "pg_Heartbeat run ttl self s = (Inr ids, s')" and scan: "prScan run = Inr"
    and clk: "prClock run 0 \<le> prClock run 1" "prClock run 1 \<le> prClock run 2"
    and fast: "prClock run 2 < prClock run 0 + Milliseconds ttl * millisecond" and key: "distinct (map fst (coordination_members s))"
  shows "set ids = {i. i = self \<or> (\<exists>t>prClock run 2 - Milliseconds ttl * millisecond. map_of (coordination_members s) i = Some t)}"
proof -
  let ?ttl = "Milliseconds ttl * millisecond"
  let ?rows = "upsert_row self (prClock run 0) (coordination_members s)"
  have ok: "prStmt run 0 = StmtOK" "prStmt run 2 = StmtOK"
    using run by (auto simp: pg_Heartbeat_def Let_def run_stmt_def split: stmt_outcome.splits)
  have keep: "filter (\<lambda>(i, t). prClock run 2 - ?ttl < t) (filter (\<lambda>(i, t). \<not> t < prClock run 1 - ?ttl) ?rows) =
      filter (\<lambda>(i, t). prClock run 2 - ?ttl < t) ?rows"
    using clk(2) by (auto simp: filter_filter intro!: filter_cong)
  have "ids = map fst (filter (\<lambda>(i, t). prClock run 2 - ?ttl < t) ?rows)"
    using run scan ok keep by (auto simp: pg_Heartbeat_def Let_def run_stmt_def split: stmt_outcome.splits if_splits)
  then have "set ids = {i. \<exists>t>prClock run 2 - ?ttl. (i, t) \<in> set ?rows}" by force
  moreover have "(i, t) \<in> set ?rows \<longleftrightarrow> map_of ?rows i = Some t" for i t
    by (rule map_of_eq_Some_iff [symmetric]) (rule distinct_upsert_row [OF key])
  ultimately show ?thesis using fast by auto
qed

text \<open>A Redis heartbeat reports the members whose keys the iteration gave, in its order, repetitions
  included.\<close>

lemma redis_heartbeat_members:
  assumes "mkSet cl c (memberKey self) ''1'' ttl s = (None, s1)"
    and "mkScan cl c (memberKeyPrefix @ ''*'') s1 = ((map memberKey ids, None), s2)"
  shows "redis_Heartbeat cl ttl self c s = (Inr ids, s2)"
proof -
  have "TrimPrefix (memberKey i) memberKeyPrefix = i" for i by (simp add: memberKey_def TrimPrefix_def HasPrefix_def)
  with assms show ?thesis by (simp add: redis_Heartbeat_def comp_def)
qed

end
