(* ===== verification/Sink_Message.thy ===== *)
theory Sink_Message
  imports Sink Int_Text
begin

section \<open>Sinks that send one message per change\<close>

text \<open>
  What the message sinks under \<^verbatim>\<open>internal/sink\<close> have in common: the JSON body, the metadata that accompany it
  (\<^verbatim>\<open>feed_url\<close>, \<^verbatim>\<open>kind\<close>, \<^verbatim>\<open>schema_version\<close>, the trace context, and \<^verbatim>\<open>dlq_*\<close> on a dead letter), and the contract
  that delivery relies on, the locale \<open>message_sink\<close>: a publish that succeeds has put one message that
  carries the change into the log of the broker; one that fails has put none, or one whose acknowledgement
  was lost.  From the contract follow, for every sink that keeps it, what retries and the dead letter do to
  the logs.  Text encoding and trace propagation are arguments (\<open>message_env\<close>): \<^verbatim>\<open>encoding/json\<close> on the alias
  type of \<^verbatim>\<open>Change\<close>, which may fail, and the carrier that the OpenTelemetry propagator fills.
\<close>

subsection \<open>Body and metadata\<close>

record message_env =
  meMarshal :: "change \<Rightarrow> string result"
  meInject :: "ctx \<Rightarrow> (string \<times> string) list"

definition kind_text :: "ChangeKind \<Rightarrow> string" where
  "kind_text k = (case k of ChangeNew \<Rightarrow> ''new'' | ChangeUpdated \<Rightarrow> ''updated'')"

definition change_json :: "message_env \<Rightarrow> change \<Rightarrow> string result" where
  "change_json env ch = MarshalJSON (meMarshal env) ch"

text \<open>The three groups of metadata; \<open>txt\<close> and \<open>num\<close> are how the sink writes a text and a number.\<close>

definition base_attrs :: "(string \<Rightarrow> 'v) \<Rightarrow> (int \<Rightarrow> 'v) \<Rightarrow> change \<Rightarrow> (string \<times> 'v) list" where
  "base_attrs txt num ch =
     [(''feed_url'', txt (FeedURL ch)), (''kind'', txt (kind_text (Kind ch))),
      (''schema_version'', num (SchemaVersion ch))]"

definition dlq_attrs :: "(string \<Rightarrow> 'v) \<Rightarrow> (int \<Rightarrow> 'v) \<Rightarrow> change \<Rightarrow> (string \<times> 'v) list" where
  "dlq_attrs txt num ch =
     (if DLQFromSink ch \<noteq> [] then
        [(''dlq_from_sink'', txt (DLQFromSink ch)), (''dlq_error'', txt (DLQError ch)),
         (''dlq_attempts'', num (DLQAttempts ch))]
      else [])"

definition trace_attrs :: "(string \<Rightarrow> 'v) \<Rightarrow> (string \<times> string) list \<Rightarrow> (string \<times> 'v) list" where
  "trace_attrs txt carrier =
     (case map_of carrier ''traceparent'' of None \<Rightarrow> [] | Some tp \<Rightarrow> [(''traceparent'', txt tp)]) @
     (case map_of carrier ''tracestate'' of
        None \<Rightarrow> [] | Some ts \<Rightarrow> if ts \<noteq> [] then [(''tracestate'', txt ts)] else [])"

text \<open>What a reader of a message finds: the metadata are those of the change, with \<^verbatim>\<open>dlq_*\<close> exactly on a dead
  letter, and the body is the encoded change.\<close>

definition annotates :: "(string \<Rightarrow> 'v) \<Rightarrow> (int \<Rightarrow> 'v) \<Rightarrow> change \<Rightarrow> (string \<Rightarrow> 'v option) \<Rightarrow> bool" where
  "annotates txt num ch meta \<longleftrightarrow>
     meta ''feed_url'' = Some (txt (FeedURL ch)) \<and>
     meta ''kind'' = Some (txt (kind_text (Kind ch))) \<and>
     meta ''schema_version'' = Some (num (SchemaVersion ch)) \<and>
     meta ''dlq_from_sink'' = (if DLQFromSink ch = [] then None else Some (txt (DLQFromSink ch))) \<and>
     meta ''dlq_error'' = (if DLQFromSink ch = [] then None else Some (txt (DLQError ch))) \<and>
     meta ''dlq_attempts'' = (if DLQFromSink ch = [] then None else Some (num (DLQAttempts ch)))"

definition describes ::
    "(string \<Rightarrow> 'v) \<Rightarrow> (int \<Rightarrow> 'v) \<Rightarrow> message_env \<Rightarrow> change \<Rightarrow> string \<Rightarrow> (string \<Rightarrow> 'v option) \<Rightarrow> bool" where
  "describes txt num env ch body meta \<longleftrightarrow> change_json env ch = Inr body \<and> annotates txt num ch meta"

lemma map_of_trace_attrs:
  "k \<noteq> ''traceparent'' \<Longrightarrow> k \<noteq> ''tracestate'' \<Longrightarrow> map_of (trace_attrs txt carrier) k = None"
  by (auto simp: trace_attrs_def split: option.split)

lemma length_attrs:
  "length (base_attrs txt num ch) + length (dlq_attrs txt num ch) + length (trace_attrs txt carrier) \<le> 8"
  by (auto simp: base_attrs_def dlq_attrs_def trace_attrs_def split: option.split)

lemma attrs_annotate:
  "annotates txt num ch (map_of (base_attrs txt num ch @ dlq_attrs txt num ch @ trace_attrs txt carrier))"
  "annotates txt num ch (map_of (base_attrs txt num ch @ trace_attrs txt carrier @ dlq_attrs txt num ch))"
  by (simp_all add: annotates_def base_attrs_def dlq_attrs_def map_of_trace_attrs map_add_def)

lemma attrs_describe:
  assumes "change_json env ch = Inr body"
  shows "describes txt num env ch body
      (map_of (base_attrs txt num ch @ dlq_attrs txt num ch @ trace_attrs txt carrier))"
    and "describes txt num env ch body
      (map_of (base_attrs txt num ch @ trace_attrs txt carrier @ dlq_attrs txt num ch))"
  using assms attrs_annotate unfolding describes_def by blast+

text \<open>Values of application properties and of AMQP headers.\<close>

datatype prop_value = PStr string | PInt int

subsection \<open>The contract of a message sink\<close>

text \<open>Timers and the random source do not touch what is observed.\<close>

definition quiet :: "'s runtime \<Rightarrow> ('s \<Rightarrow> 'a) \<Rightarrow> bool" where
  "quiet rt sent \<longleftrightarrow>
     (\<forall>c d s. sent (snd (ctx_wait rt c d s)) = sent s) \<and> (\<forall>n s. sent (snd (rand_Int64N rt n s)) = sent s)"

lemma quietD:
  assumes "quiet rt sent"
  shows "ctx_wait rt c d s = (b, s') \<Longrightarrow> sent s' = sent s"
    and "delayFor rt cfg n s = (d, s') \<Longrightarrow> sent s' = sent s"
proof -
  show "ctx_wait rt c d s = (b, s') \<Longrightarrow> sent s' = sent s"
    using assms unfolding quiet_def by (metis snd_conv)
  show "delayFor rt cfg n s = (d, s') \<Longrightarrow> sent s' = sent s"
    using assms unfolding quiet_def delayFor_def Let_def by (metis snd_conv prod.inject)
qed

text \<open>What every attempt, every wait and every draw keeps holds when the loop ends; a loop that succeeds ends
  with an attempt that did.\<close>

lemma do_loop_invariant:
  assumes fn: "\<And>s r s'. P s \<Longrightarrow> fn s = (r, s') \<Longrightarrow> P s'"
    and rt: "\<And>c d s b s'. P s \<Longrightarrow> ctx_wait rt c d s = (b, s') \<Longrightarrow> P s'"
      "\<And>cfg n s d s'. P s \<Longrightarrow> delayFor rt cfg n s = (d, s') \<Longrightarrow> P s'"
    and run: "do_loop rt c cfg fn a le s = (r, s')" and start: "P s"
  shows "P s'" and "Err r = None \<Longrightarrow> a \<le> MaxAttempts cfg \<Longrightarrow> \<exists>s0. P s0 \<and> fn s0 = (None, s')"
proof -
  have "P s' \<and> (Err r = None \<longrightarrow> a \<le> MaxAttempts cfg \<longrightarrow> (\<exists>s0. P s0 \<and> fn s0 = (None, s')))"
    using run start
  proof (induction rt\<equiv>rt c cfg fn\<equiv>fn a le s rule: do_loop.induct)
    case (1 c cfg a le s)
    obtain e s1 where f: "fn s = (e, s1)" by fastforce
    obtain d s2 where d: "delayFor rt cfg a s1 = (d, s2)" by fastforce
    obtain b s3 where w: "ctx_wait rt c d s2 = (b, s3)" by fastforce
    have P: "P s1" "P s3" using fn [OF 1(3) f] rt d w by blast+
    consider (stop) "s' \<in> {s, s1, s3}" "Err r \<noteq> None \<or> MaxAttempts cfg < a" | (ok) "s' = s1" "e = None"
      | (again) err where "\<not> MaxAttempts cfg < a" "ctx_Err rt c s = None" "e = Some err" "\<not> gives_up cfg err"
          "a \<noteq> MaxAttempts cfg" "b = False" "do_loop rt c cfg fn (a + 1) (Some err) s3 = (r, s')"
      using 1(2) f d w
      by (auto simp: do_loop.simps [of rt c cfg _ a] split: option.splits if_splits bool.splits)
    then show ?case
    proof cases
      case stop
      with P 1(3) show ?thesis by auto
    next
      case ok
      with P 1(3) f show ?thesis by blast
    next
      case (again err)
      with 1(1) [OF again(1,2) f [symmetric] again(3-5) d [symmetric] w [symmetric]] P(2) show ?thesis by simp
    qed
  qed
  then show "P s'" "Err r = None \<Longrightarrow> a \<le> MaxAttempts cfg \<Longrightarrow> \<exists>s0. P s0 \<and> fn s0 = (None, s')" by blast+
qed

locale message_sink =
  fixes publish :: "ctx \<Rightarrow> change \<Rightarrow> 's \<Rightarrow> go_error option \<times> 's"
    and sent :: "'s \<Rightarrow> 'm list"
    and carries :: "change \<Rightarrow> 'm \<Rightarrow> bool"
  assumes accepted: "publish c ch s = (None, s') \<Longrightarrow> \<exists>m. sent s' = sent s @ [m] \<and> carries ch m"
    and refused: "publish c ch s = (Some e, s') \<Longrightarrow> sent s' = sent s \<or> (\<exists>m. sent s' = sent s @ [m] \<and> carries ch m)"
begin

text \<open>Any number of attempts adds at most as many messages, all of them for the change, and an attempt
  that succeeded has added one.\<close>

definition adds :: "change \<Rightarrow> 's \<Rightarrow> 's \<Rightarrow> int \<Rightarrow> 'm list \<Rightarrow> bool" where
  "adds ch s s' n ms \<longleftrightarrow> sent s' = sent s @ ms \<and> int (length ms) \<le> n \<and> (\<forall>m\<in>set ms. carries ch m)"

lemma adds_none: "sent s' = sent s \<Longrightarrow> 0 \<le> n \<Longrightarrow> adds ch s s' n []"
  by (simp add: adds_def)

lemma adds_more:
  assumes "adds ch s s1 1 ms" "sent s2 = sent s1" "adds ch s2 s' n ms'"
  shows "adds ch s s' (n + 1) (ms @ ms')"
  using assms by (auto simp: adds_def)

lemma adds_mono: "adds ch s s' n ms \<Longrightarrow> n \<le> n' \<Longrightarrow> adds ch s s' n' ms"
  by (simp add: adds_def)

lemma publish_adds:
  assumes "publish c ch s = (r, s')"
  obtains ms where "adds ch s s' 1 ms" "r = None \<Longrightarrow> ms \<noteq> []"
proof (cases r)
  case None
  with assms accepted obtain m where "sent s' = sent s @ [m]" "carries ch m" by blast
  then show ?thesis by (intro that [of "[m]"]) (simp_all add: adds_def)
next
  case (Some e)
  with assms refused consider "sent s' = sent s" | m where "sent s' = sent s @ [m]" "carries ch m" by blast
  then show ?thesis
  proof cases
    case 1
    with Some show ?thesis by (intro that [of "[]"]) (simp_all add: adds_def)
  next
    case (2 m)
    with Some show ?thesis by (intro that [of "[m]"]) (simp_all add: adds_def)
  qed
qed

lemma do_loop_adds:
  assumes "quiet rt sent" "do_loop rt c cfg (publish c' ch) a le s = (r, s')" "a \<le> MaxAttempts cfg" "1 \<le> a"
  shows "\<exists>ms. adds ch s s' (Attempts r - (a - 1)) ms \<and> (Err r = None \<longrightarrow> ms \<noteq> [])"
  using assms(2-)
proof (induction rt\<equiv>rt c cfg "publish c' ch" a le s rule: do_loop.induct)
  case (1 c cfg a le s)
  show ?case
  proof (cases "ctx_Err rt c s")
    case (Some err)
    with 1(2,3) have "s' = s" "Attempts r = a - 1" "Err r \<noteq> None"
      by (auto simp: do_loop.simps [of rt c cfg] split: option.splits)
    then show ?thesis using adds_none [of s s 0 ch] by auto
  next
    case None
    obtain e s1 where pub: "publish c' ch s = (e, s1)" by fastforce
    obtain ms where ms: "adds ch s s1 1 ms" "e = None \<Longrightarrow> ms \<noteq> []" using publish_adds [OF pub] by blast
    obtain d s2 where d: "delayFor rt cfg a s1 = (d, s2)" by fastforce
    obtain b s3 where w: "ctx_wait rt c d s2 = (b, s3)" by fastforce
    have same: "sent s3 = sent s1" using quietD [OF assms(1)] d w by metis
    consider (ok) "e = None" | (stop) "e \<noteq> None" "s' = s1" "Attempts r = a" "Err r \<noteq> None"
      | (waited) "e \<noteq> None" "s' = s3" "Attempts r = a" "Err r \<noteq> None"
      | (again) err where "e = Some err" "do_loop rt c cfg (publish c' ch) (a + 1) (Some err) s3 = (r, s')"
          "\<not> gives_up cfg err" "a \<noteq> MaxAttempts cfg" "b = False"
      using 1(2,3) None pub d w
      by (auto simp: do_loop.simps [of rt c cfg _ a] split: option.splits if_splits bool.splits)
    then show ?thesis
    proof cases
      case ok
      with 1(2,3) None pub have "s' = s1" "Attempts r = a" "Err r = None"
        by (auto simp: do_loop.simps [of rt c cfg])
      with ok ms show ?thesis by auto
    next
      case stop
      with ms show ?thesis by auto
    next
      case waited
      with ms same show ?thesis by (auto simp: adds_def)
    next
      case (again err)
      have "\<exists>ms'. adds ch s3 s' (Attempts r - a) ms' \<and> (Err r = None \<longrightarrow> ms' \<noteq> [])"
        using 1(1) [OF _ None pub [symmetric] _ _ _ d [symmetric] w [symmetric]] again 1(3,4) by simp
      then show ?thesis using adds_more [OF ms(1) same] by (fastforce simp: algebra_simps)
    qed
  qed
qed

lemma Do_adds:
  assumes "quiet rt sent" "Do rt c cfg (publish c' ch) s = (r, s')"
  obtains ms where "adds ch s s' (Attempts r) ms" "Err r = None \<Longrightarrow> ms \<noteq> []"
  using do_loop_adds [OF assms(1), of c "withDefaults cfg" c' ch 1 None s r s'] assms(2) by (auto simp: Do_def)

end

subsection \<open>What is relied on of a broker\<close>

text \<open>The call that sends a message appends it to the log of the broker, or fails, before or after appending.
  A sink that makes one such call for a message that carries the change keeps the contract.\<close>

definition log_ok :: "(ctx \<Rightarrow> 'i \<Rightarrow> 's \<Rightarrow> go_error option \<times> 's) \<Rightarrow> ('s \<Rightarrow> 'i list) \<Rightarrow> bool" where
  "log_ok send sent \<longleftrightarrow>
     (\<forall>c i s s'. send c i s = (None, s') \<longrightarrow> sent s' = sent s @ [i]) \<and>
     (\<forall>c i s e s'. send c i s = (Some e, s') \<longrightarrow> sent s' = sent s \<or> sent s' = sent s @ [i])"

lemma log_okD:
  assumes "log_ok send sent"
  shows "send c i s = (None, s') \<Longrightarrow> sent s' = sent s @ [i]"
    and "send c i s = (Some e, s') \<Longrightarrow> sent s' = sent s \<or> sent s' = sent s @ [i]"
  using assms unfolding log_ok_def by blast+

lemma message_sink_by_log:
  assumes "log_ok send sent"
    and "\<And>c ch s r s'. publish c ch s = (r, s') \<Longrightarrow>
      r \<noteq> None \<and> sent s' = sent s \<or>
      (\<exists>m e s1. carries ch m \<and> send c m s = (e, s1) \<and> sent s' = sent s1 \<and> (r = None \<longrightarrow> e = None))"
  shows "message_sink publish sent carries"
proof
  fix c ch s s' e
  show "\<exists>m. sent s' = sent s @ [m] \<and> carries ch m" if "publish c ch s = (None, s')"
    using assms(2) [OF that] log_okD(1) [OF assms(1)] by metis
  show "sent s' = sent s \<or> (\<exists>m. sent s' = sent s @ [m] \<and> carries ch m)" if "publish c ch s = (Some e, s')"
    using assms(2) [OF that] log_okD [OF assms(1)] by (metis option.exhaust)
qed

text \<open>Handles that a constructor opens are counted by \<open>n\<close>: opening succeeds or leaves the count, closing takes
  one off.\<close>

definition opens :: "('s \<Rightarrow> int) \<Rightarrow> ('s \<Rightarrow> 'h result \<times> 's) \<Rightarrow> bool" where
  "opens n f \<longleftrightarrow> (\<forall>s r s'. f s = (r, s') \<longrightarrow> n s' = (if isl r then n s else n s + 1))"

definition closes :: "('s \<Rightarrow> int) \<Rightarrow> ('s \<Rightarrow> 'r \<times> 's) \<Rightarrow> bool" where
  "closes n f \<longleftrightarrow> (\<forall>s. n (snd (f s)) = n s - 1)"

lemma opensD:
  assumes "opens n f"
  shows "f s = (Inl e, s') \<Longrightarrow> n s' = n s" and "f s = (Inr h, s') \<Longrightarrow> n s' = n s + 1"
  using assms unfolding opens_def by fastforce+

lemma closesD: "closes n f \<Longrightarrow> n (snd (f s)) = n s - 1"
  by (simp add: closes_def)

text \<open>A sink with a dead letter, in another sink whose log is its own.\<close>

locale dead_lettered_sink =
  main: message_sink publish sent carries + dead: message_sink publish_dlq sent_dlq carries_dlq
  for publish :: "ctx \<Rightarrow> change \<Rightarrow> 's \<Rightarrow> go_error option \<times> 's" and sent :: "'s \<Rightarrow> 'm list" and carries
    and publish_dlq and sent_dlq :: "'s \<Rightarrow> 'd list" and carries_dlq +
  assumes main_keeps: "publish c ch s = (r, s') \<Longrightarrow> sent_dlq s' = sent_dlq s"
    and dead_keeps: "publish_dlq c ch s = (r, s') \<Longrightarrow> sent s' = sent s"
begin

lemma do_loop_keeps:
  assumes "quiet rt sent_dlq" "do_loop rt c cfg (publish c' ch) a le s = (r, s')"
  shows "sent_dlq s' = sent_dlq s"
  by (rule do_loop_invariant(1) [OF _ _ _ assms(2), where P = "\<lambda>t. sent_dlq t = sent_dlq s"])
    (use main_keeps quietD [OF assms(1)] in metis)+

text \<open>What a delivery leaves in the two logs.\<close>

lemma Deliver_logs:
  assumes rt: "quiet rt sent" "quiet rt sent_dlq"
    and pub: "\<And>c ch s. pub (primary r) c ch s = Some (publish c ch s)"
    and dl: "dlq r = Some q" "\<And>c ch s. pub q c ch s = Some (publish_dlq c ch s)"
    and run: "Deliver rt env pub r c0 ch s = Some (res, s')"
  shows "\<exists>ms. main.adds ch s s' (brAttempts res) ms \<and>
    (case brState res of
       BranchSuccess \<Rightarrow> ms \<noteq> [] \<and> sent_dlq s' = sent_dlq s
     | BranchDLQ \<Rightarrow> \<exists>m err. sent_dlq s' = sent_dlq s @ [m] \<and> brErr res = Some err \<and>
         carries_dlq (envelope (sprintf env) (pubName (primary r)) err (brAttempts res) ch) m
     | BranchDropped \<Rightarrow> brErr res \<noteq> None)"
proof -
  define c where "c = (if rpTimeout r > 0 then WithTimeout rt c0 (rpTimeout r) s else c0)"
  obtain rr s1 where d: "Do rt c (rpCfg r) (publish c ch) s = (rr, s1)" by fastforce
  then have do: "DoOpt rt c (rpCfg r) (pub (primary r) c ch) s = Some (rr, s1)"
  proof -
    have "pub (primary r) c ch = (\<lambda>s. Some (publish c ch s))" using pub by (simp add: fun_eq_iff)
    with d DoOpt_total [of rt c "rpCfg r" "publish c ch" s] show ?thesis by simp
  qed
  obtain ms where ms: "main.adds ch s s1 (Attempts rr) ms" "Err rr = None \<Longrightarrow> ms \<noteq> []"
    using main.Do_adds [OF rt(1) d] by blast
  have keep: "sent_dlq s1 = sent_dlq s" using do_loop_keeps [OF rt(2)] d unfolding Do_def by blast
  note run' = run [unfolded Deliver_def Let_def, folded c_def]
  show ?thesis
  proof (cases "Err rr")
    case None
    with run' do have "res = \<lparr>brState = BranchSuccess, brAttempts = Attempts rr, brErr = None\<rparr>" "s' = s1" by simp_all
    with ms None keep show ?thesis by auto
  next
    case (Some err)
    obtain e2 s2 where q: "publish_dlq c (envelope (sprintf env) (pubName (primary r)) err (Attempts rr) ch) s1 = (e2, s2)"
      by fastforce
    have ms': "main.adds ch s s2 (Attempts rr) ms" using ms(1) dead_keeps [OF q] by (simp add: main.adds_def)
    show ?thesis
    proof (cases e2)
      case None
      with run' do Some dl q
      have res: "res = \<lparr>brState = BranchDLQ, brAttempts = Attempts rr, brErr = Some err\<rparr>" "s' = s2" by simp_all
      obtain m where "sent_dlq s2 = sent_dlq s1 @ [m]"
        "carries_dlq (envelope (sprintf env) (pubName (primary r)) err (Attempts rr) ch) m"
        using dead.accepted q None by blast
      with res ms' keep show ?thesis by auto
    next
      case (Some e3)
      with run' do \<open>Err rr = Some err\<close> dl q
      have "brState res = BranchDropped" "brAttempts res = Attempts rr" "brErr res \<noteq> None" "s' = s2" by auto
      with ms' show ?thesis by auto
    qed
  qed
qed

end

end
