(* ===== verification/Sinks_Cloud.thy ===== *)
theory Sinks_Cloud
  imports Sink_Message
begin

section \<open>Sinks of cloud services\<close>

text \<open>
  \<^verbatim>\<open>internal/sink/sqs\<close>, \<^verbatim>\<open>sns\<close>, \<^verbatim>\<open>gcppubsub\<close>, \<^verbatim>\<open>azureservicebus\<close> and \<^verbatim>\<open>dapr\<close>: the checks of their
  constructors, the messages they build and what they make of an error.  The call of the SDK that sends a
  message is an argument over the state of the service; \<open>log_ok\<close> says that it appends the message to the log
  of the service or fails, before or after appending.  FIFO queues drop a message whose deduplication
  identifier they have seen within their window (\<open>fifo_ok\<close>), and an ordered Pub/Sub publisher pauses a key
  after a failure (\<open>ordered_ok\<close>).
\<close>

subsection \<open>SQS and SNS\<close>

text \<open>The client is what \<^verbatim>\<open>LoadDefaultConfig\<close> and the endpoint override made it.\<close>

record aws_client =
  awRegion :: string
  awEndpoint :: string

definition validMessageGroups :: "string list" where
  "validMessageGroups = [''feed_url'', ''item_id'', ''sink'']"

record fifo_publisher =
  fpName :: string
  fpClient :: aws_client
  fpTarget :: string
  fpFifo :: bool
  fpMessageGroup :: string

definition sqs_New ::
    "(string \<Rightarrow> go_error option) \<Rightarrow> string \<Rightarrow> string \<Rightarrow> string \<Rightarrow> string \<Rightarrow> string \<Rightarrow> fifo_publisher result" where
  "sqs_New load name queueURL region endpointURL messageGroup =
     (if name = [] then Inl (Errorf ''sqs sink: name is required'' [])
      else if queueURL = [] then Inl (Errorf ''sqs sink %q: queue_url is required'' [FStr name])
      else
        let fifo = HasSuffix queueURL ''.fifo'' in
        if messageGroup \<noteq> [] \<and> messageGroup \<notin> set validMessageGroups then
          Inl (Errorf ''sqs sink %q: unknown message_group %q (want one of feed_url, item_id, sink)''
                 [FStr name, FStr messageGroup])
        else if messageGroup \<noteq> [] \<and> \<not> fifo then
          Inl (Errorf ''sqs sink %q: message_group is only valid for FIFO queues (queue_url must end with .fifo)''
                 [FStr name])
        else
          let group = (if fifo \<and> messageGroup = [] then ''feed_url'' else messageGroup) in
          case load region of
            Some err \<Rightarrow> Inl (Errorf ''sqs sink %q: load aws config: %w'' [FStr name, FWrap err])
          | None \<Rightarrow> Inr \<lparr>fpName = name, fpClient = \<lparr>awRegion = region, awEndpoint = endpointURL\<rparr>,
                         fpTarget = queueURL, fpFifo = fifo, fpMessageGroup = group\<rparr>)"

definition sns_New ::
    "(string \<Rightarrow> go_error option) \<Rightarrow> string \<Rightarrow> string \<Rightarrow> string \<Rightarrow> string \<Rightarrow> string \<Rightarrow> fifo_publisher result" where
  "sns_New load name topicARN region endpointURL messageGroup =
     (if name = [] then Inl (Errorf ''sns sink: name is required'' [])
      else if topicARN = [] then Inl (Errorf ''sns sink %q: topic_arn is required'' [FStr name])
      else
        let fifo = HasSuffix topicARN ''.fifo'' in
        if messageGroup \<noteq> [] \<and> messageGroup \<notin> set validMessageGroups then
          Inl (Errorf ''sns sink %q: unknown message_group %q (want one of feed_url, item_id, sink)''
                 [FStr name, FStr messageGroup])
        else if messageGroup \<noteq> [] \<and> \<not> fifo then
          Inl (Errorf ''sns sink %q: message_group is only valid for FIFO topics (topic_arn must end with .fifo)''
                 [FStr name])
        else
          let group = (if fifo \<and> messageGroup = [] then ''feed_url'' else messageGroup) in
          case load region of
            Some err \<Rightarrow> Inl (Errorf ''sns sink %q: load aws config: %w'' [FStr name, FWrap err])
          | None \<Rightarrow> Inr \<lparr>fpName = name, fpClient = \<lparr>awRegion = region, awEndpoint = endpointURL\<rparr>,
                         fpTarget = topicARN, fpFifo = fifo, fpMessageGroup = group\<rparr>)"

definition fifoGroupID :: "fifo_publisher \<Rightarrow> change \<Rightarrow> string" where
  "fifoGroupID p ch =
     (if fpMessageGroup p = ''item_id'' then ItemID ch
      else if fpMessageGroup p = ''sink'' then fpName p else FeedURL ch)"

definition fifoDedupID :: "(string \<Rightarrow> string) \<Rightarrow> change \<Rightarrow> string" where
  "fifoDedupID sha256hex ch = sha256hex (FeedURL ch @ [nul] @ ItemID ch @ [nul] @ ContentHashOf ch)"

definition sns_fifoGroupID :: "fifo_publisher \<Rightarrow> change \<Rightarrow> string" where
  "sns_fifoGroupID p ch = fifoGroupID p ch"

definition sns_fifoDedupID :: "(string \<Rightarrow> string) \<Rightarrow> change \<Rightarrow> string" where
  "sns_fifoDedupID sha256hex ch = fifoDedupID sha256hex ch"

text \<open>\<^verbatim>\<open>MessageAttributeValue\<close>: the data type and the value.\<close>

definition strAttr :: "string \<Rightarrow> string \<times> string" where
  "strAttr v = (''String'', v)"

record fifo_input =
  fiTarget :: string
  fiBody :: string
  fiAttributes :: "(string \<times> (string \<times> string)) list"
  fiGroupID :: "string option"
  fiDedupID :: "string option"

definition fifo_message ::
    "message_env \<Rightarrow> (string \<Rightarrow> string) \<Rightarrow> fifo_publisher \<Rightarrow> ctx \<Rightarrow> change \<Rightarrow> string \<Rightarrow> fifo_input" where
  "fifo_message env sha p c ch body =
     \<lparr>fiTarget = fpTarget p, fiBody = body,
      fiAttributes = base_attrs strAttr (strAttr \<circ> itoa) ch @ trace_attrs strAttr (meInject env c) @
        dlq_attrs strAttr (strAttr \<circ> itoa) ch,
      fiGroupID = (if fpFifo p then Some (fifoGroupID p ch) else None),
      fiDedupID = (if fpFifo p then Some (fifoDedupID sha ch) else None)\<rparr>"

definition sqs_Publish ::
    "message_env \<Rightarrow> (string \<Rightarrow> string) \<Rightarrow> (ctx \<Rightarrow> fifo_input \<Rightarrow> 's \<Rightarrow> go_error option \<times> 's) \<Rightarrow> fifo_publisher \<Rightarrow>
     ctx \<Rightarrow> change \<Rightarrow> 's \<Rightarrow> go_error option \<times> 's" where
  "sqs_Publish env sha send p c ch s =
     (case change_json env ch of
        Inl err \<Rightarrow> (Some (Errorf ''sqs sink %q: marshal: %w'' [FStr (fpName p), FWrap err]), s)
      | Inr body \<Rightarrow>
          (case send c (fifo_message env sha p c ch body) s of
             (Some err, s1) \<Rightarrow> (Some (Errorf ''sqs sink %q: SendMessage: %w'' [FStr (fpName p), FWrap err]), s1)
           | (None, s1) \<Rightarrow> (None, s1)))"

definition sns_Publish ::
    "message_env \<Rightarrow> (string \<Rightarrow> string) \<Rightarrow> (ctx \<Rightarrow> fifo_input \<Rightarrow> 's \<Rightarrow> go_error option \<times> 's) \<Rightarrow> fifo_publisher \<Rightarrow>
     ctx \<Rightarrow> change \<Rightarrow> 's \<Rightarrow> go_error option \<times> 's" where
  "sns_Publish env sha send p c ch s =
     (case change_json env ch of
        Inl err \<Rightarrow> (Some (Errorf ''sns sink %q: marshal: %w'' [FStr (fpName p), FWrap err]), s)
      | Inr body \<Rightarrow>
          (case send c (fifo_message env sha p c ch body) s of
             (Some err, s1) \<Rightarrow> (Some (Errorf ''sns sink %q: Publish: %w'' [FStr (fpName p), FWrap err]), s1)
           | (None, s1) \<Rightarrow> (None, s1)))"

definition fifo_carries :: "message_env \<Rightarrow> change \<Rightarrow> fifo_input \<Rightarrow> bool" where
  "fifo_carries env ch m \<longleftrightarrow>
     describes strAttr (strAttr \<circ> itoa) env ch (fiBody m) (map_of (fiAttributes m)) \<and> length (fiAttributes m) \<le> 10"

lemma fifo_message_carries:
  "change_json env ch = Inr body \<Longrightarrow> fifo_carries env ch (fifo_message env sha p c ch body)"
  using length_attrs [of strAttr "strAttr \<circ> itoa" ch "meInject env c"]
  by (simp add: fifo_carries_def fifo_message_def attrs_describe(2) del: map_of_append)

lemma sqs_message_sink: "log_ok send sent \<Longrightarrow> message_sink (sqs_Publish env sha send p) sent (fifo_carries env)"
  by (rule message_sink_by_log [where send = send])
    (auto simp: sqs_Publish_def split: sum.splits prod.splits option.splits intro: fifo_message_carries)

lemma sns_message_sink: "log_ok send sent \<Longrightarrow> message_sink (sns_Publish env sha send p) sent (fifo_carries env)"
  by (rule message_sink_by_log [where send = send])
    (auto simp: sns_Publish_def split: sum.splits prod.splits option.splits intro: fifo_message_carries)

subsection \<open>Deduplication on FIFO queues\<close>

text \<open>\<open>queue\<close> is what consumers receive, \<open>recent\<close> the deduplication identifiers of the window.  A message whose
  identifier is recent is accepted and not queued.\<close>

definition takes_in :: "('s \<Rightarrow> fifo_input list) \<Rightarrow> ('s \<Rightarrow> string set) \<Rightarrow> fifo_input \<Rightarrow> 's \<Rightarrow> 's \<Rightarrow> bool" where
  "takes_in queue recent i s s' \<longleftrightarrow>
     (case fiDedupID i of
        None \<Rightarrow> queue s' = queue s @ [i] \<and> recent s' = recent s
      | Some d \<Rightarrow> queue s' = (if d \<in> recent s then queue s else queue s @ [i]) \<and> recent s' = insert d (recent s))"

definition fifo_ok ::
    "(ctx \<Rightarrow> fifo_input \<Rightarrow> 's \<Rightarrow> go_error option \<times> 's) \<Rightarrow> ('s \<Rightarrow> fifo_input list) \<Rightarrow> ('s \<Rightarrow> string set) \<Rightarrow> bool" where
  "fifo_ok send queue recent \<longleftrightarrow>
     (\<forall>c i s r s'. send c i s = (r, s') \<longrightarrow>
        takes_in queue recent i s s' \<or> r \<noteq> None \<and> queue s' = queue s \<and> recent s' = recent s)"

lemma fifo_okD:
  "fifo_ok send queue recent \<Longrightarrow> send c i s = (r, s') \<Longrightarrow>
     takes_in queue recent i s s' \<or> r \<noteq> None \<and> queue s' = queue s \<and> recent s' = recent s"
  unfolding fifo_ok_def by blast

lemma sqs_attempt:
  assumes ok: "fifo_ok send queue recent" and fifo: "fpFifo p" and body: "change_json env ch = Inr body"
    and run: "sqs_Publish env sha send p c ch s = (r, s')"
  shows "takes_in queue recent (fifo_message env sha p c ch body) s s' \<or>
     r \<noteq> None \<and> queue s' = queue s \<and> recent s' = recent s"
proof -
  obtain r1 s1 where send: "send c (fifo_message env sha p c ch body) s = (r1, s1)" by fastforce
  with run body have "s' = s1" "r = None \<longleftrightarrow> r1 = None" by (auto simp: sqs_Publish_def split: option.splits)
  with fifo_okD [OF ok send] show ?thesis by simp
qed

text \<open>C6: on a FIFO queue the attempts of one delivery queue the change once, however many of them failed with the
  message taken in: a delivery that succeeds has added exactly its message, one that fails at most one, when
  the window of deduplication is longer than the waits between the attempts (which leave what is recent).\<close>

theorem sqs_fifo_once:
  assumes ok: "fifo_ok send queue recent" and fifo: "fpFifo p"
    and rt: "quiet rt queue" "quiet rt recent"
    and fresh: "fifoDedupID sha ch \<notin> recent s"
    and run: "Do rt c cfg (sqs_Publish env sha send p c' ch) s = (r, s')"
  shows "(Err r = None \<longrightarrow> (\<exists>body. change_json env ch = Inr body \<and>
            queue s' = queue s @ [fifo_message env sha p c' ch body] \<and>
            recent s' = insert (fifoDedupID sha ch) (recent s))) \<and>
         (queue s' = queue s \<or> (\<exists>m. queue s' = queue s @ [m]))"
proof (cases "change_json env ch")
  case (Inl err)
  then have "fst (sqs_Publish env sha send p c' ch t) \<noteq> None" "snd (sqs_Publish env sha send p c' ch t) = t" for t
    by (simp_all add: sqs_Publish_def)
  then have same: "t' = t" "e \<noteq> None" if "sqs_Publish env sha send p c' ch t = (e, t')" for t e t'
    using that by (metis fst_conv snd_conv)+
  have "queue s' = queue s"
    by (rule do_loop_invariant(1) [OF _ _ _ run [unfolded Do_def], where P = "\<lambda>t. queue t = queue s"])
      (use same quietD [OF rt(1)] in metis)+
  moreover have "Err r \<noteq> None"
    using do_loop_fails [of "sqs_Publish env sha send p c' ch" 1 "withDefaults cfg" rt c None s] run
      \<open>fst (sqs_Publish env sha send p c' ch _) \<noteq> None\<close> by (simp add: Do_def)
  ultimately show ?thesis by simp
next
  case (Inr body)
  define m where "m = fifo_message env sha p c' ch body"
  have d: "fiDedupID m = Some (fifoDedupID sha ch)" using fifo by (simp add: m_def fifo_message_def)
  define P where "P = (\<lambda>t. queue t = queue s \<and> recent t = recent s \<or>
     queue t = queue s @ [m] \<and> recent t = insert (fifoDedupID sha ch) (recent s))"
  have step: "P t'" "e = None \<Longrightarrow> queue t' = queue s @ [m] \<and> recent t' = insert (fifoDedupID sha ch) (recent s)"
    if "P t" "sqs_Publish env sha send p c' ch t = (e, t')" for t e t'
    using sqs_attempt [OF ok fifo Inr that(2)] that(1) fresh d
    by (auto simp: P_def takes_in_def simp flip: m_def)
  have quiet: "P t'" if "P t" "queue t' = queue t" "recent t' = recent t" for t t' using that by (simp add: P_def)
  have wait: "P t'" if "P t" "ctx_wait rt c d t = (b, t')" for c d t b t'
    by (rule quiet [OF that(1) quietD(1) [OF rt(1) that(2)] quietD(1) [OF rt(2) that(2)]])
  have draw: "P t'" if "P t" "delayFor rt cfg n t = (d, t')" for cfg n t d t'
    by (rule quiet [OF that(1) quietD(2) [OF rt(1) that(2)] quietD(2) [OF rt(2) that(2)]])
  have start: "P s" by (simp add: P_def)
  have end_state: "P s'"
    by (rule do_loop_invariant(1) [where P = P, OF _ _ _ run [unfolded Do_def] start])
      (erule (1) step(1) wait draw)+
  have "\<exists>s0. P s0 \<and> sqs_Publish env sha send p c' ch s0 = (None, s')" if "Err r = None"
    by (rule do_loop_invariant(2) [where P = P, OF _ _ _ run [unfolded Do_def] start that])
      (erule (1) step(1) wait draw | simp)+
  with end_state show ?thesis using step(2) Inr unfolding P_def m_def by blast
qed

text \<open>An item that goes back to an earlier version within the window of deduplication is accepted by the FIFO
  queue and never reaches the consumers: their last word is the version in between.\<close>

theorem sqs_fifo_revert:
  assumes ok: "fifo_ok send queue recent" and fifo: "fpFifo p"
    and fresh: "fifoDedupID sha a \<notin> recent s" "fifoDedupID sha b \<notin> recent s" "fifoDedupID sha a \<noteq> fifoDedupID sha b"
    and reverts: "FeedURL a' = FeedURL a" "ItemID a' = ItemID a" "ContentHashOf a' = ContentHashOf a"
    and runs: "sqs_Publish env sha send p c a s = (None, s1)" "sqs_Publish env sha send p c1 b s1 = (None, s2)"
      "sqs_Publish env sha send p c2 a' s2 = (r, s3)"
  shows "\<exists>ba bb. queue s3 = queue s @ [fifo_message env sha p c a ba, fifo_message env sha p c1 b bb]"
proof -
  have enc: "\<exists>body. change_json env x = Inr body" if "sqs_Publish env sha send p c0 x t = (None, t')" for c0 x t t'
    using that by (cases "change_json env x") (simp_all add: sqs_Publish_def)
  obtain ba bb where e: "change_json env a = Inr ba" "change_json env b = Inr bb" using enc runs(1,2) by blast
  have same: "fifoDedupID sha a' = fifoDedupID sha a" using reverts by (simp add: fifoDedupID_def)
  have 1: "queue s1 = queue s @ [fifo_message env sha p c a ba]" "recent s1 = insert (fifoDedupID sha a) (recent s)"
    using sqs_attempt [OF ok fifo e(1) runs(1)] fresh fifo by (simp_all add: takes_in_def fifo_message_def)
  have 2: "queue s2 = queue s1 @ [fifo_message env sha p c1 b bb]" "recent s2 = insert (fifoDedupID sha b) (recent s1)"
    using sqs_attempt [OF ok fifo e(2) runs(2)] fresh fifo 1 by (simp_all add: takes_in_def fifo_message_def)
  have "queue s3 = queue s2"
  proof (cases "change_json env a'")
    case (Inl err)
    with runs(3) show ?thesis by (simp add: sqs_Publish_def)
  next
    case (Inr body)
    with sqs_attempt [OF ok fifo Inr runs(3)] 1 2 same fifo show ?thesis by (auto simp: takes_in_def fifo_message_def)
  qed
  with 1 2 show ?thesis by auto
qed

subsection \<open>Google Cloud Pub/Sub\<close>

definition validOrderingKeys :: "string list" where
  "validOrderingKeys = [''feed_url'', ''item_id'', ''sink'']"

record pubsub_publisher =
  ppName :: string
  ppTopic :: string
  ppMessageOrdering :: bool
  ppOrderingKey :: string

text \<open>\<open>newClient\<close> takes the project and the emulator's endpoint, empty for the service itself.\<close>

definition pubsub_New ::
    "(string \<Rightarrow> string \<Rightarrow> 's \<Rightarrow> go_error option \<times> 's) \<Rightarrow> string \<Rightarrow> string \<Rightarrow> string \<Rightarrow> string \<Rightarrow> string \<Rightarrow> 's \<Rightarrow>
     pubsub_publisher result \<times> 's" where
  "pubsub_New newClient name projectID topicID endpoint orderingKey s =
     (if name = [] then (Inl (Errorf ''gcp_pubsub sink: name is required'' []), s)
      else if projectID = [] then (Inl (Errorf ''gcp_pubsub sink %q: project_id is required'' [FStr name]), s)
      else if topicID = [] then (Inl (Errorf ''gcp_pubsub sink %q: topic_id is required'' [FStr name]), s)
      else if orderingKey \<noteq> [] \<and> orderingKey \<notin> set validOrderingKeys then
        (Inl (Errorf ''gcp_pubsub sink %q: unknown ordering_key %q (want one of feed_url, item_id, sink)''
                [FStr name, FStr orderingKey]), s)
      else case newClient projectID endpoint s of
        (Some err, s1) \<Rightarrow> (Inl (Errorf ''gcp_pubsub sink %q: new client: %w'' [FStr name, FWrap err]), s1)
      | (None, s1) \<Rightarrow>
          (Inr \<lparr>ppName = name, ppTopic = topicID, ppMessageOrdering = (orderingKey \<noteq> []), ppOrderingKey = orderingKey\<rparr>, s1))"

record pubsub_message =
  psData :: string
  psAttributes :: "(string \<times> string) list"
  psOrderingKey :: string

record 's pubsub =
  puPublish :: "ctx \<Rightarrow> pubsub_message \<Rightarrow> 's \<Rightarrow> go_error option \<times> 's"
  puResume :: "string \<Rightarrow> 's \<Rightarrow> 's"
  puStop :: "'s \<Rightarrow> 's"
  puClose :: "'s \<Rightarrow> go_error option \<times> 's"

definition orderingKeyFor :: "pubsub_publisher \<Rightarrow> change \<Rightarrow> string" where
  "orderingKeyFor p ch =
     (if ppOrderingKey p = ''feed_url'' then FeedURL ch
      else if ppOrderingKey p = ''item_id'' then ItemID ch
      else if ppOrderingKey p = ''sink'' then ppName p else [])"

definition pubsub_message_of :: "message_env \<Rightarrow> pubsub_publisher \<Rightarrow> ctx \<Rightarrow> change \<Rightarrow> string \<Rightarrow> pubsub_message" where
  "pubsub_message_of env p c ch body =
     \<lparr>psData = body, psAttributes = base_attrs id itoa ch @ trace_attrs id (meInject env c) @ dlq_attrs id itoa ch,
      psOrderingKey = orderingKeyFor p ch\<rparr>"

definition pubsub_Publish ::
    "message_env \<Rightarrow> 's pubsub \<Rightarrow> pubsub_publisher \<Rightarrow> ctx \<Rightarrow> change \<Rightarrow> 's \<Rightarrow> go_error option \<times> 's" where
  "pubsub_Publish env api p c ch s =
     (case change_json env ch of
        Inl err \<Rightarrow> (Some (Errorf ''gcp_pubsub sink %q: marshal: %w'' [FStr (ppName p), FWrap err]), s)
      | Inr body \<Rightarrow>
          let key = orderingKeyFor p ch in
          case puPublish api c (pubsub_message_of env p c ch body) s of
            (Some err, s1) \<Rightarrow>
              (Some (Errorf ''gcp_pubsub sink %q: publish: %w'' [FStr (ppName p), FWrap err]),
               if key \<noteq> [] then puResume api key s1 else s1)
          | (None, s1) \<Rightarrow> (None, s1))"

definition pubsub_Close :: "'s pubsub \<Rightarrow> 's \<Rightarrow> go_error option \<times> 's" where
  "pubsub_Close api s = puClose api (puStop api s)"

definition pubsub_carries :: "message_env \<Rightarrow> change \<Rightarrow> pubsub_message \<Rightarrow> bool" where
  "pubsub_carries env ch m \<longleftrightarrow> describes id itoa env ch (psData m) (map_of (psAttributes m))"

definition pubsub_ok :: "'s pubsub \<Rightarrow> ('s \<Rightarrow> pubsub_message list) \<Rightarrow> bool" where
  "pubsub_ok api sent \<longleftrightarrow> log_ok (puPublish api) sent \<and> (\<forall>k s. sent (puResume api k s) = sent s)"

lemma pubsub_message_carries:
  "change_json env ch = Inr body \<Longrightarrow> pubsub_carries env ch (pubsub_message_of env p c ch body)"
  by (simp add: pubsub_carries_def pubsub_message_of_def attrs_describe(2) del: map_of_append)

lemma pubsub_message_sink:
  assumes "pubsub_ok api sent"
  shows "message_sink (pubsub_Publish env api p) sent (pubsub_carries env)"
proof (rule message_sink_by_log)
  show "log_ok (puPublish api) sent" using assms by (simp add: pubsub_ok_def)
  have same: "sent (puResume api k s) = sent s" for k s using assms by (simp add: pubsub_ok_def)
  show "r \<noteq> None \<and> sent s' = sent s \<or> (\<exists>m e s1. pubsub_carries env ch m \<and> puPublish api c m s = (e, s1) \<and>
      sent s' = sent s1 \<and> (r = None \<longrightarrow> e = None))" if "pubsub_Publish env api p c ch s = (r, s')" for c ch s r s'
    using that pubsub_message_carries [of env ch _ p c]
    by (auto simp: pubsub_Publish_def Let_def same split: sum.splits prod.splits option.splits if_splits)
qed

text \<open>A failure pauses its key until it is resumed, and a paused key accepts nothing.\<close>

definition ordered_ok :: "'s pubsub \<Rightarrow> ('s \<Rightarrow> string set) \<Rightarrow> bool" where
  "ordered_ok api paused \<longleftrightarrow>
     (\<forall>c m s r s'. puPublish api c m s = (r, s') \<longrightarrow>
        paused s' = (if r = None \<or> psOrderingKey m = [] then paused s else insert (psOrderingKey m) (paused s))) \<and>
     (\<forall>k s. paused (puResume api k s) = paused s - {k})"

lemma pubsub_never_paused:
  assumes "ordered_ok api paused" "pubsub_Publish env api p c ch s = (r, s')"
  shows "paused s' \<subseteq> paused s"
proof (cases "change_json env ch")
  case (Inl err)
  with assms(2) show ?thesis by (simp add: pubsub_Publish_def)
next
  case (Inr body)
  define msg where "msg = pubsub_message_of env p c ch body"
  obtain e s1 where pub: "puPublish api c msg s = (e, s1)" by fastforce
  with assms(1) have "paused s1 = (if e = None \<or> psOrderingKey msg = [] then paused s else insert (psOrderingKey msg) (paused s))"
    unfolding ordered_ok_def by blast
  moreover have "paused (puResume api k t) = paused t - {k}" for k t using assms(1) unfolding ordered_ok_def by blast
  ultimately show ?thesis using assms(2) Inr pub
    by (auto simp: pubsub_Publish_def pubsub_message_of_def Let_def msg_def split: option.splits if_splits)
qed

subsection \<open>Azure Service Bus\<close>

record sb_message =
  sbBody :: string
  sbContentType :: string
  sbProperties :: "(string \<times> prop_value) list"
  sbMessageID :: "string option"

text \<open>The calls of the SDK, over handles of clients and senders.\<close>

record ('c, 'd, 's) servicebus =
  svFromConnectionString :: "string \<Rightarrow> 's \<Rightarrow> 'c result \<times> 's"
  svCredential :: "go_error option"
  svFromNamespace :: "string \<Rightarrow> 's \<Rightarrow> 'c result \<times> 's"
  svNewSender :: "'c \<Rightarrow> string \<Rightarrow> 's \<Rightarrow> 'd result \<times> 's"
  svCloseSender :: "'d \<Rightarrow> 's \<Rightarrow> go_error option \<times> 's"
  svCloseClient :: "'c \<Rightarrow> 's \<Rightarrow> go_error option \<times> 's"
  svSendMessage :: "'d \<Rightarrow> ctx \<Rightarrow> sb_message \<Rightarrow> 's \<Rightarrow> go_error option \<times> 's"

record ('c, 'd) sb_publisher =
  sbName :: string
  sbClient :: 'c
  sbSender :: 'd

definition sb_client :: "('c, 'd, 's) servicebus \<Rightarrow> string \<Rightarrow> string \<Rightarrow> string \<Rightarrow> 's \<Rightarrow> 'c result \<times> 's" where
  "sb_client sv name connectionString namespace s =
     (if connectionString \<noteq> [] then
        (case svFromConnectionString sv connectionString s of
           (Inl err, s1) \<Rightarrow> (Inl (Errorf ''azureservicebus sink %q: client from connection string: %w'' [FStr name, FWrap err]), s1)
         | (Inr cl, s1) \<Rightarrow> (Inr cl, s1))
      else case svCredential sv of
        Some err \<Rightarrow> (Inl (Errorf ''azureservicebus sink %q: default azure credential: %w'' [FStr name, FWrap err]), s)
      | None \<Rightarrow>
          (case svFromNamespace sv namespace s of
             (Inl err, s1) \<Rightarrow>
               (Inl (Errorf ''azureservicebus sink %q: client for namespace %q: %w'' [FStr name, FStr namespace, FWrap err]), s1)
           | (Inr cl, s1) \<Rightarrow> (Inr cl, s1)))"

definition sb_New ::
    "('c, 'd, 's) servicebus \<Rightarrow> string \<Rightarrow> string \<Rightarrow> string \<Rightarrow> string \<Rightarrow> string \<Rightarrow> 's \<Rightarrow> ('c, 'd) sb_publisher result \<times> 's" where
  "sb_New sv name connectionString namespace queue topic s =
     (if name = [] then (Inl (Errorf ''azureservicebus sink: name is required'' []), s)
      else if connectionString = [] \<and> namespace = [] then
        (Inl (Errorf ''azureservicebus sink %q: one of connection_string or namespace is required'' [FStr name]), s)
      else if connectionString \<noteq> [] \<and> namespace \<noteq> [] then
        (Inl (Errorf ''azureservicebus sink %q: connection_string and namespace are mutually exclusive'' [FStr name]), s)
      else if queue = [] \<and> topic = [] then
        (Inl (Errorf ''azureservicebus sink %q: one of queue or topic is required'' [FStr name]), s)
      else if queue \<noteq> [] \<and> topic \<noteq> [] then
        (Inl (Errorf ''azureservicebus sink %q: queue and topic are mutually exclusive'' [FStr name]), s)
      else
        let entity = (if topic \<noteq> [] then topic else queue) in
        case sb_client sv name connectionString namespace s of
          (Inl err, s1) \<Rightarrow> (Inl err, s1)
        | (Inr cl, s1) \<Rightarrow>
            (case svNewSender sv cl entity s1 of
               (Inl err, s2) \<Rightarrow>
                 (Inl (Errorf ''azureservicebus sink %q: sender for %q: %w'' [FStr name, FStr entity, FWrap err]),
                  snd (svCloseClient sv cl s2))
             | (Inr sd, s2) \<Rightarrow> (Inr \<lparr>sbName = name, sbClient = cl, sbSender = sd\<rparr>, s2)))"

definition sb_Close :: "('c, 'd, 's) servicebus \<Rightarrow> ('c, 'd) sb_publisher \<Rightarrow> 's \<Rightarrow> go_error option \<times> 's" where
  "sb_Close sv p s = svCloseClient sv (sbClient p) (snd (svCloseSender sv (sbSender p) s))"

definition sb_buildMessage :: "message_env \<Rightarrow> ctx \<Rightarrow> change \<Rightarrow> sb_message result" where
  "sb_buildMessage env c ch =
     (case change_json env ch of
        Inl err \<Rightarrow> Inl (Errorf ''marshal: %w'' [FWrap err])
      | Inr body \<Rightarrow>
          Inr \<lparr>sbBody = body, sbContentType = ''application/json'',
               sbProperties = base_attrs PStr PInt ch @ dlq_attrs PStr PInt ch @ trace_attrs PStr (meInject env c),
               sbMessageID = (if ItemID ch \<noteq> [] then Some (ItemID ch) else None)\<rparr>)"

definition sb_Publish ::
    "message_env \<Rightarrow> ('c, 'd, 's) servicebus \<Rightarrow> ('c, 'd) sb_publisher \<Rightarrow> ctx \<Rightarrow> change \<Rightarrow> 's \<Rightarrow> go_error option \<times> 's" where
  "sb_Publish env sv p c ch s =
     (case sb_buildMessage env c ch of
        Inl err \<Rightarrow> (Some (Errorf ''azureservicebus sink %q: %w'' [FStr (sbName p), FWrap err]), s)
      | Inr msg \<Rightarrow>
          (case svSendMessage sv (sbSender p) c msg s of
             (Some err, s1) \<Rightarrow> (Some (Errorf ''azureservicebus sink %q: send: %w'' [FStr (sbName p), FWrap err]), s1)
           | (None, s1) \<Rightarrow> (None, s1)))"

definition sb_carries :: "message_env \<Rightarrow> change \<Rightarrow> sb_message \<Rightarrow> bool" where
  "sb_carries env ch m \<longleftrightarrow>
     describes PStr PInt env ch (sbBody m) (map_of (sbProperties m)) \<and> sbMessageID m \<in> {None, Some (ItemID ch)}"

lemma sb_message_carries: "sb_buildMessage env c ch = Inr m \<Longrightarrow> sb_carries env ch m"
  by (auto simp: sb_buildMessage_def sb_carries_def attrs_describe(1) split: sum.splits if_splits simp del: map_of_append)

lemma sb_message_sink:
  "log_ok (svSendMessage sv (sbSender p)) sent \<Longrightarrow> message_sink (sb_Publish env sv p) sent (sb_carries env)"
  by (rule message_sink_by_log [where send = "svSendMessage sv (sbSender p)"])
    (auto simp: sb_Publish_def split: sum.splits prod.splits option.splits intro: sb_message_carries)

definition sb_counts :: "('s \<Rightarrow> int) \<Rightarrow> ('c, 'd, 's) servicebus \<Rightarrow> bool" where
  "sb_counts n sv \<longleftrightarrow>
     (\<forall>x. opens n (svFromConnectionString sv x)) \<and> (\<forall>x. opens n (svFromNamespace sv x)) \<and>
     (\<forall>cl x. opens n (svNewSender sv cl x)) \<and> (\<forall>d. closes n (svCloseSender sv d)) \<and> (\<forall>cl. closes n (svCloseClient sv cl))"

lemma sb_client_opens:
  assumes "sb_counts n sv"
  shows "opens n (sb_client sv name cs ns)"
proof -
  have o: "opens n (svFromConnectionString sv x)" "opens n (svFromNamespace sv x)" for x
    using assms by (simp_all add: sb_counts_def)
  show ?thesis
    unfolding opens_def sb_client_def
    by (auto split: if_splits prod.splits sum.splits option.splits dest: opensD(1) [OF o(1)] opensD(2) [OF o(1)]
        opensD(1) [OF o(2)] opensD(2) [OF o(2)])
qed

text \<open>A constructor that fails has closed what it opened; a publisher that was closed as well.\<close>

lemma sb_no_leak:
  assumes "sb_counts n sv" "sb_New sv name cs ns qu tp s = (r, s')"
  shows "case r of Inl _ \<Rightarrow> n s' = n s | Inr p \<Rightarrow> n s' = n s + 2 \<and> n (snd (sb_Close sv p s')) = n s"
proof -
  have o: "opens n (svNewSender sv cl x)" and c: "closes n (svCloseSender sv d)" "closes n (svCloseClient sv cl)" for cl x d
    using assms(1) by (simp_all add: sb_counts_def)
  show ?thesis
    using assms(2) unfolding sb_New_def Let_def
    by (auto simp: sb_Close_def closesD [OF c(1)] closesD [OF c(2)] split: if_splits prod.splits sum.splits
        dest!: opensD(1) [OF sb_client_opens [OF assms(1)]] opensD(2) [OF sb_client_opens [OF assms(1)]]
          opensD(1) [OF o] opensD(2) [OF o])
qed

subsection \<open>Dapr\<close>

record dapr_publisher =
  daName :: string
  daPubsubName :: string
  daTopic :: string
  daContentType :: string
  daMeta :: "(string \<times> string) list"

definition newPublisher ::
    "string \<Rightarrow> string \<Rightarrow> string \<Rightarrow> string \<Rightarrow> (string \<times> string) list \<Rightarrow> dapr_publisher result" where
  "newPublisher name pubsubName topic contentType metadata =
     (if name = [] then Inl (Errorf ''dapr_pubsub sink: name is required'' [])
      else if pubsubName = [] then Inl (Errorf ''dapr_pubsub sink %q: pubsub_name is required'' [FStr name])
      else if topic = [] then Inl (Errorf ''dapr_pubsub sink %q: topic is required'' [FStr name])
      else Inr \<lparr>daName = name, daPubsubName = pubsubName, daTopic = topic,
                daContentType = (if contentType = [] then ''application/json'' else contentType), daMeta = metadata\<rparr>)"

text \<open>\<open>dial\<close> is the client for an address, or the default one.\<close>

definition dapr_New ::
    "(string option \<Rightarrow> 's \<Rightarrow> go_error option \<times> 's) \<Rightarrow> string \<Rightarrow> string \<Rightarrow> string \<Rightarrow> string \<Rightarrow> string \<Rightarrow> (string \<times> string) list \<Rightarrow> 's \<Rightarrow>
     dapr_publisher result \<times> 's" where
  "dapr_New dial name address pubsubName topic contentType metadata s =
     (case newPublisher name pubsubName topic contentType metadata of
        Inl err \<Rightarrow> (Inl err, s)
      | Inr p \<Rightarrow>
          (case dial (if address \<noteq> [] then Some address else None) s of
             (Some err, s1) \<Rightarrow> (Inl (Errorf ''dapr_pubsub sink %q: new client: %w'' [FStr name, FWrap err]), s1)
           | (None, s1) \<Rightarrow> (Inr p, s1)))"

record dapr_event =
  deTopic :: "string \<times> string"
  deData :: string
  deContentType :: string
  deMetadata :: "(string \<times> string) list"

text \<open>The later writes into the map win.\<close>

definition overlay :: "(string \<times> 'v) list \<Rightarrow> (string \<times> 'v) list \<Rightarrow> (string \<times> 'v) list" where
  "overlay ws m = ws @ filter (\<lambda>(k, _). k \<notin> fst ` set ws) m"

definition dapr_event_of :: "message_env \<Rightarrow> dapr_publisher \<Rightarrow> ctx \<Rightarrow> change \<Rightarrow> string \<Rightarrow> dapr_event" where
  "dapr_event_of env p c ch body =
     \<lparr>deTopic = (daPubsubName p, daTopic p), deData = body, deContentType = daContentType p,
      deMetadata = overlay (base_attrs id itoa ch @ trace_attrs id (meInject env c) @ dlq_attrs id itoa ch) (daMeta p)\<rparr>"

definition dapr_Publish ::
    "message_env \<Rightarrow> (ctx \<Rightarrow> dapr_event \<Rightarrow> 's \<Rightarrow> go_error option \<times> 's) \<Rightarrow> dapr_publisher \<Rightarrow> ctx \<Rightarrow> change \<Rightarrow> 's \<Rightarrow>
     go_error option \<times> 's" where
  "dapr_Publish env publish p c ch s =
     (case change_json env ch of
        Inl err \<Rightarrow> (Some (Errorf ''dapr_pubsub sink %q: marshal: %w'' [FStr (daName p), FWrap err]), s)
      | Inr body \<Rightarrow>
          (case publish c (dapr_event_of env p c ch body) s of
             (Some err, s1) \<Rightarrow> (Some (Errorf ''dapr_pubsub sink %q: publish: %w'' [FStr (daName p), FWrap err]), s1)
           | (None, s1) \<Rightarrow> (None, s1)))"

text \<open>Static metadata never shadow what describes the change; on a change that is no dead letter they may
  add \<^verbatim>\<open>dlq_*\<close> keys of their own.\<close>

definition dapr_carries :: "message_env \<Rightarrow> change \<Rightarrow> dapr_event \<Rightarrow> bool" where
  "dapr_carries env ch m \<longleftrightarrow>
     change_json env ch = Inr (deData m) \<and>
     map_of (deMetadata m) ''feed_url'' = Some (FeedURL ch) \<and>
     map_of (deMetadata m) ''kind'' = Some (kind_text (Kind ch)) \<and>
     map_of (deMetadata m) ''schema_version'' = Some (itoa (SchemaVersion ch)) \<and>
     (DLQFromSink ch \<noteq> [] \<longrightarrow> map_of (deMetadata m) ''dlq_from_sink'' = Some (DLQFromSink ch) \<and>
        map_of (deMetadata m) ''dlq_error'' = Some (DLQError ch) \<and>
        map_of (deMetadata m) ''dlq_attempts'' = Some (itoa (DLQAttempts ch)))"

lemma map_of_overlay: "map_of ws k = Some v \<Longrightarrow> map_of (overlay ws m) k = Some v"
  by (simp add: overlay_def map_add_Some_iff)

lemma dapr_event_carries: "change_json env ch = Inr body \<Longrightarrow> dapr_carries env ch (dapr_event_of env p c ch body)"
  using attrs_describe(2) [of env ch body id itoa "meInject env c"]
  by (simp add: dapr_carries_def dapr_event_of_def describes_def annotates_def map_of_overlay del: map_of_append)

lemma dapr_message_sink: "log_ok publish sent \<Longrightarrow> message_sink (dapr_Publish env publish p) sent (dapr_carries env)"
  by (rule message_sink_by_log [where send = publish])
    (auto simp: dapr_Publish_def split: sum.splits prod.splits option.splits intro: dapr_event_carries)

end
