(* ===== verification/Sinks_Broker.thy ===== *)
theory Sinks_Broker
  imports Sink_Message Wire_Options
begin

section \<open>Sinks of message brokers\<close>

text \<open>
  \<^verbatim>\<open>internal/sink/kafka\<close> with its schema encoders, \<^verbatim>\<open>nats\<close>, \<^verbatim>\<open>amqp091\<close>, \<^verbatim>\<open>amqp10\<close> and \<^verbatim>\<open>rabbitmqstream\<close>.
  Connections, channels, sessions and producers are handles that the calls of the client libraries open and
  close; what a call does to the broker is an argument.
\<close>

subsection \<open>The protobuf form of a change\<close>

text \<open>\<^verbatim>\<open>timestamppb.New\<close>: seconds of the Unix epoch and nanoseconds.\<close>

definition timestamppb :: "time \<Rightarrow> int \<times> int" where
  "timestamppb t = (t div second - 62135596800, t mod second)"

record proto_change =
  pcSchemaVersion :: int
  pcFeedUrl :: string
  pcFeedTitle :: string
  pcItemId :: string
  pcKind :: string
  pcTitle :: string
  pcLink :: string
  pcAuthors :: "string list"
  pcSummary :: string
  pcContent :: string
  pcCategories :: "string list"
  pcPublishedAt :: "(int \<times> int) option"
  pcUpdatedAt :: "(int \<times> int) option"
  pcContentHash :: string
  pcDetectedAt :: "int \<times> int"
  pcDlqFromSink :: string
  pcDlqError :: string
  pcDlqAttempts :: int

definition toProtoChange :: "change \<Rightarrow> proto_change" where
  "toProtoChange ch =
     \<lparr>pcSchemaVersion = int32_of (SchemaVersion ch), pcFeedUrl = FeedURL ch, pcFeedTitle = FeedTitle ch,
      pcItemId = ItemID ch, pcKind = kind_text (Kind ch), pcTitle = Title ch, pcLink = Link ch, pcAuthors = Authors ch,
      pcSummary = Summary ch, pcContent = Content ch, pcCategories = Categories ch,
      pcPublishedAt = map_option timestamppb (PublishedAt ch), pcUpdatedAt = map_option timestamppb (UpdatedAt ch),
      pcContentHash = ContentHashOf ch, pcDetectedAt = timestamppb (DetectedAt ch), pcDlqFromSink = DLQFromSink ch,
      pcDlqError = DLQError ch, pcDlqAttempts = int32_of (DLQAttempts ch)\<rparr>"

text \<open>What a consumer reads back.\<close>

definition proto_time :: "int \<times> int \<Rightarrow> time" where
  "proto_time = (\<lambda>(secs, nanos). (secs + 62135596800) * second + nanos)"

definition of_proto :: "proto_change \<Rightarrow> change" where
  "of_proto pc =
     \<lparr>SchemaVersion = pcSchemaVersion pc, FeedURL = pcFeedUrl pc, FeedTitle = pcFeedTitle pc, ItemID = pcItemId pc,
      Kind = (if pcKind pc = ''new'' then ChangeNew else ChangeUpdated), Title = pcTitle pc, Link = pcLink pc,
      Authors = pcAuthors pc, Summary = pcSummary pc, Content = pcContent pc, Categories = pcCategories pc,
      PublishedAt = map_option proto_time (pcPublishedAt pc), UpdatedAt = map_option proto_time (pcUpdatedAt pc),
      ContentHashOf = pcContentHash pc, DetectedAt = proto_time (pcDetectedAt pc), DLQFromSink = pcDlqFromSink pc,
      DLQError = pcDlqError pc, DLQAttempts = pcDlqAttempts pc\<rparr>"

definition int32_range :: "int \<Rightarrow> bool" where
  "int32_range n \<longleftrightarrow> - (2 ^ 31) \<le> n \<and> n < 2 ^ 31"

lemma int32_of_id: "int32_range n \<Longrightarrow> int32_of n = n"
  by (simp add: int32_of_def int32_range_def signed_of_int signed_take_bit_int_eq_self)

lemma proto_time_timestamppb [simp]: "proto_time (timestamppb t) = t"
  by (simp add: proto_time_def timestamppb_def)

lemma of_proto_toProtoChange:
  assumes "int32_range (SchemaVersion ch)" "int32_range (DLQAttempts ch)"
  shows "of_proto (toProtoChange ch) = ch"
proof -
  have "map_option proto_time (map_option timestamppb x) = x" for x by (cases x) simp_all
  with assms show ?thesis
    by (cases "Kind ch") (simp_all add: of_proto_def toProtoChange_def int32_of_id kind_text_def)
qed

subsection \<open>Kafka: schema registry\<close>

text \<open>\<^verbatim>\<open>internal/sink/kafka/schema\<close>.  The identifier of a schema is resolved on the first use and kept; 0 is
  not yet resolved.\<close>

record registrar =
  rgSubject :: string
  rgSchema :: "string \<times> string"    \<comment> \<open>text and type\<close>
  rgAuto :: bool
  rgID :: int

record 's registry_api =
  srCreateSchema :: "ctx \<Rightarrow> string \<Rightarrow> string \<times> string \<Rightarrow> 's \<Rightarrow> int result \<times> 's"
  srLookupSchema :: "ctx \<Rightarrow> string \<Rightarrow> string \<times> string \<Rightarrow> 's \<Rightarrow> int result \<times> 's"

definition schemaID :: "'s registry_api \<Rightarrow> ctx \<Rightarrow> registrar \<Rightarrow> 's \<Rightarrow> int result \<times> registrar \<times> 's" where
  "schemaID api c r s =
     (if rgID r \<noteq> 0 then (Inr (rgID r), r, s)
      else case (if rgAuto r then srCreateSchema api c (rgSubject r) (rgSchema r) s
                 else srLookupSchema api c (rgSubject r) (rgSchema r) s) of
        (Inl err, s1) \<Rightarrow> (Inl err, r, s1)
      | (Inr ident, s1) \<Rightarrow> (Inr ident, r\<lparr>rgID := ident\<rparr>, s1))"

record avro_change =
  avSchemaVersion :: int
  avStrings :: "(string \<times> string) list"
  avAuthors :: "string list"
  avCategories :: "string list"
  avPublishedAt :: "time option"
  avUpdatedAt :: "time option"
  avDetectedAt :: time
  avDLQAttempts :: int

definition toAvroChange :: "change \<Rightarrow> avro_change" where
  "toAvroChange ch =
     \<lparr>avSchemaVersion = SchemaVersion ch,
      avStrings = [(''feed_url'', FeedURL ch), (''feed_title'', FeedTitle ch), (''item_id'', ItemID ch),
        (''kind'', kind_text (Kind ch)), (''title'', Title ch), (''link'', Link ch), (''summary'', Summary ch),
        (''content'', Content ch), (''content_hash'', ContentHashOf ch), (''dlq_from_sink'', DLQFromSink ch),
        (''dlq_error'', DLQError ch)],
      avAuthors = Authors ch, avCategories = Categories ch, avPublishedAt = PublishedAt ch, avUpdatedAt = UpdatedAt ch,
      avDetectedAt = DetectedAt ch, avDLQAttempts = DLQAttempts ch\<rparr>"

datatype encoder = JsonEncoder registrar | AvroEncoder registrar string | ProtobufEncoder registrar

text \<open>The serializers, the Confluent header (schema identifier and message index), the canonical schemas and the
  construction of the client are arguments.\<close>

record schema_env =
  seProto :: "proto_change \<Rightarrow> string result"
  seAvro :: "string \<Rightarrow> avro_change \<Rightarrow> string result"
  seHeader :: "int \<Rightarrow> int list \<Rightarrow> string"
  seCanonicalJSON :: "string result"
  seCanonicalAvro :: string
  seCanonicalProto :: string
  seParseAvro :: "string \<Rightarrow> go_error option"
  seNewClient :: "string \<Rightarrow> (string \<times> string) option \<Rightarrow> tls_config option \<Rightarrow> go_error option"

definition schema_newClient :: "schema_env \<Rightarrow> tls_env \<Rightarrow> schema_options \<Rightarrow> go_error option" where
  "schema_newClient se te opts =
     (let auth = (if shBasicUser opts \<noteq> [] \<or> shBasicPass opts \<noteq> [] then Some (shBasicUser opts, shBasicPass opts) else None) in
      case shTLS opts of
        None \<Rightarrow> seNewClient se (shURL opts) auth None
      | Some t \<Rightarrow>
          (case buildTLSConfig te t [] of
             Inl err \<Rightarrow> Some (Errorf ''schema registry tls: %w'' [FWrap err])
           | Inr tc \<Rightarrow> seNewClient se (shURL opts) auth (Some tc)))"

definition new_registrar :: "schema_options \<Rightarrow> string \<Rightarrow> string \<Rightarrow> string \<Rightarrow> registrar" where
  "new_registrar opts subject txt kind =
     \<lparr>rgSubject = subject, rgSchema = (txt, kind), rgAuto = shAutoRegister opts, rgID = 0\<rparr>"

definition newJSONEncoder :: "schema_env \<Rightarrow> tls_env \<Rightarrow> schema_options \<Rightarrow> string \<Rightarrow> encoder result" where
  "newJSONEncoder se te opts subject =
     (case schema_newClient se te opts of
        Some err \<Rightarrow> Inl (Errorf ''schema registry client: %w'' [FWrap err])
      | None \<Rightarrow>
          (case (if shSchemaText opts = [] then seCanonicalJSON se else Inr (shSchemaText opts)) of
             Inl err \<Rightarrow> Inl (Errorf ''canonical json schema: %w'' [FWrap err])
           | Inr txt \<Rightarrow> Inr (JsonEncoder (new_registrar opts subject txt ''JSON''))))"

definition newAvroEncoder :: "schema_env \<Rightarrow> tls_env \<Rightarrow> schema_options \<Rightarrow> string \<Rightarrow> encoder result" where
  "newAvroEncoder se te opts subject =
     (case schema_newClient se te opts of
        Some err \<Rightarrow> Inl (Errorf ''schema registry client: %w'' [FWrap err])
      | None \<Rightarrow>
          let txt = (if shSchemaText opts = [] then seCanonicalAvro se else shSchemaText opts) in
          case seParseAvro se txt of
            Some err \<Rightarrow> Inl (Errorf ''parse avro schema: %w'' [FWrap err])
          | None \<Rightarrow> Inr (AvroEncoder (new_registrar opts subject txt ''AVRO'') txt))"

definition newProtobufEncoder :: "schema_env \<Rightarrow> tls_env \<Rightarrow> schema_options \<Rightarrow> string \<Rightarrow> encoder result" where
  "newProtobufEncoder se te opts subject =
     (case schema_newClient se te opts of
        Some err \<Rightarrow> Inl (Errorf ''schema registry client: %w'' [FWrap err])
      | None \<Rightarrow>
          Inr (ProtobufEncoder (new_registrar opts subject
            (if shSchemaText opts = [] then seCanonicalProto se else shSchemaText opts) ''PROTOBUF'')))"

definition defaultSubject :: "string \<Rightarrow> string \<Rightarrow> string" where
  "defaultSubject topic override = (if override \<noteq> [] then override else topic @ ''-value'')"

definition schema_New :: "schema_env \<Rightarrow> tls_env \<Rightarrow> schema_options \<Rightarrow> encoder result" where
  "schema_New se te opts =
     (if shURL opts = [] then Inl (Errorf ''schema registry: url is required'' [])
      else if shTopic opts = [] \<and> shSubject opts = [] then Inl (Errorf ''schema registry: topic or subject is required'' [])
      else
        let subject = defaultSubject (shTopic opts) (shSubject opts) in
        if shFormat opts = ''json'' then newJSONEncoder se te opts subject
        else if shFormat opts = ''avro'' then newAvroEncoder se te opts subject
        else if shFormat opts = ''protobuf'' then newProtobufEncoder se te opts subject
        else Inl (Errorf ''schema registry: unknown format %q'' [FStr (shFormat opts)]))"

fun enc_registrar :: "encoder \<Rightarrow> registrar" where
  "enc_registrar (JsonEncoder r) = r"
| "enc_registrar (AvroEncoder r sc) = r"
| "enc_registrar (ProtobufEncoder r) = r"

fun with_registrar :: "encoder \<Rightarrow> registrar \<Rightarrow> encoder" where
  "with_registrar (JsonEncoder _) r = JsonEncoder r"
| "with_registrar (AvroEncoder _ sc) r = AvroEncoder r sc"
| "with_registrar (ProtobufEncoder _) r = ProtobufEncoder r"

text \<open>The payload of a change and the index of its message type, per format.\<close>

fun payload :: "message_env \<Rightarrow> schema_env \<Rightarrow> encoder \<Rightarrow> change \<Rightarrow> string result" where
  "payload env se (JsonEncoder r) ch =
     (case change_json env ch of Inl err \<Rightarrow> Inl (Errorf ''marshal change: %w'' [FWrap err]) | Inr b \<Rightarrow> Inr b)"
| "payload env se (AvroEncoder r sc) ch =
     (case seAvro se sc (toAvroChange ch) of
        Inl err \<Rightarrow> Inl (Errorf ''marshal avro change: %w'' [FWrap err]) | Inr b \<Rightarrow> Inr b)"
| "payload env se (ProtobufEncoder r) ch =
     (case seProto se (toProtoChange ch) of
        Inl err \<Rightarrow> Inl (Errorf ''marshal protobuf change: %w'' [FWrap err]) | Inr b \<Rightarrow> Inr b)"

fun message_index :: "encoder \<Rightarrow> int list" where
  "message_index (ProtobufEncoder r) = [0]"
| "message_index (JsonEncoder r) = []"
| "message_index (AvroEncoder r sc) = []"

definition Encode ::
    "message_env \<Rightarrow> schema_env \<Rightarrow> 's registry_api \<Rightarrow> ctx \<Rightarrow> change \<Rightarrow> encoder \<Rightarrow> 's \<Rightarrow> string result \<times> encoder \<times> 's" where
  "Encode env se api c ch e s =
     (case schemaID api c (enc_registrar e) s of
        (Inl err, r, s1) \<Rightarrow> (Inl (Errorf ''schema registry: %w'' [FWrap err]), with_registrar e r, s1)
      | (Inr ident, r, s1) \<Rightarrow>
          (case payload env se e ch of
             Inl err \<Rightarrow> (Inl err, with_registrar e r, s1)
           | Inr b \<Rightarrow> (Inr (seHeader se ident (message_index e) @ b), with_registrar e r, s1)))"

lemma with_registrar_simps [simp]:
  "enc_registrar (with_registrar e r) = r" "with_registrar (with_registrar e r) r' = with_registrar e r'"
  "payload env se (with_registrar e r) ch = payload env se e ch" "message_index (with_registrar e r) = message_index e"
  "with_registrar e (enc_registrar e) = e"
  by (cases e; simp)+

text \<open>The registry is asked until it answers, and not after that: a resolved encoder encodes without it, and
  with one identifier.\<close>

lemma Encode_resolved:
  assumes "rgID (enc_registrar e) \<noteq> 0"
  shows "Encode env se api c ch e s =
     (case payload env se e ch of
        Inl err \<Rightarrow> Inl err | Inr b \<Rightarrow> Inr (seHeader se (rgID (enc_registrar e)) (message_index e) @ b), e, s)"
  using assms by (simp add: Encode_def schemaID_def split: sum.split)

lemma Encode_resolves:
  assumes "Encode env se api c ch e s = (Inr b, e1, s1)"
  shows "\<exists>p. payload env se e ch = Inr p \<and> b = seHeader se (rgID (enc_registrar e1)) (message_index e) @ p \<and>
     e1 = with_registrar e ((enc_registrar e)\<lparr>rgID := rgID (enc_registrar e1)\<rparr>)"
  using assms
  by (auto simp: Encode_def schemaID_def split: prod.splits sum.splits if_splits)

subsection \<open>Kafka\<close>

datatype acks = AllISRAcks | LeaderAck | NoAck

record kafka_client =
  kcBrokers :: "string list"
  kcTopic :: string
  kcAcks :: acks
  kcCompression :: "string option"
  kcTLS :: "tls_config option"

record kafka_publisher =
  kpName :: string
  kpClient :: kafka_client
  kpTopic :: string

definition compressionMap :: "string list" where
  "compressionMap = [''none'', ''snappy'', ''lz4'', ''zstd'', ''gzip'']"

definition kafka_acks :: "string \<Rightarrow> acks option" where
  "kafka_acks a =
     (if a = [] \<or> a = ''all'' then Some AllISRAcks
      else if a = ''leader'' then Some LeaderAck else if a = ''none'' then Some NoAck else None)"

definition opt_tls :: "(tls_options \<Rightarrow> tls_config result) \<Rightarrow> tls_options option \<Rightarrow> tls_config option result" where
  "opt_tls build t = (case t of None \<Rightarrow> Inr None | Some x \<Rightarrow> (case build x of Inl err \<Rightarrow> Inl err | Inr tc \<Rightarrow> Inr (Some tc)))"

definition kafka_New ::
    "schema_env \<Rightarrow> tls_env \<Rightarrow> (kafka_client \<Rightarrow> go_error option) \<Rightarrow> string \<Rightarrow> string list \<Rightarrow> string \<Rightarrow> string \<Rightarrow> string \<Rightarrow>
     tls_options option \<Rightarrow> schema_options option \<Rightarrow> (kafka_publisher \<times> encoder option) result" where
  "kafka_New se te newClient name brokers topic acksText compression tls schema =
     (if name = [] then Inl (Errorf ''kafka sink: name is required'' [])
      else if brokers = [] then Inl (Errorf ''kafka sink %q: brokers required'' [FStr name])
      else if topic = [] then Inl (Errorf ''kafka sink %q: topic required'' [FStr name])
      else case kafka_acks acksText of
        None \<Rightarrow> Inl (Errorf ''kafka sink %q: unknown acks %q'' [FStr name, FStr acksText])
      | Some ack \<Rightarrow>
          if compression \<noteq> [] \<and> compression \<notin> set compressionMap then
            Inl (Errorf ''kafka sink %q: unknown compression %q'' [FStr name, FStr compression])
          else case opt_tls (kafka_buildTLSConfig te) tls of
            Inl err \<Rightarrow> Inl (Errorf ''kafka sink %q: build TLS config: %w'' [FStr name, FWrap err])
          | Inr tc \<Rightarrow>
              (case (case schema of None \<Rightarrow> Inr None
                     | Some so \<Rightarrow> (case schema_New se te so of Inl err \<Rightarrow> Inl err | Inr e \<Rightarrow> Inr (Some e))) of
                 Inl err \<Rightarrow> Inl (Errorf ''kafka sink %q: schema: %w'' [FStr name, FWrap err])
               | Inr enc \<Rightarrow>
                   let cl = \<lparr>kcBrokers = brokers, kcTopic = topic, kcAcks = ack,
                             kcCompression = (if compression = [] then None else Some compression), kcTLS = tc\<rparr> in
                   case newClient cl of
                     Some err \<Rightarrow> Inl (Errorf ''kafka sink %q: %w'' [FStr name, FWrap err])
                   | None \<Rightarrow> Inr (\<lparr>kpName = name, kpClient = cl, kpTopic = topic\<rparr>, enc)))"

record kafka_record =
  krTopic :: string
  krKey :: string
  krValue :: string
  krHeaders :: "(string \<times> string) list"

record 's kafka_api =
  kaRegistry :: "'s registry_api"
  kaProduceSync :: "ctx \<Rightarrow> kafka_record \<Rightarrow> 's \<Rightarrow> go_error option \<times> 's"

definition kafka_value ::
    "message_env \<Rightarrow> schema_env \<Rightarrow> 's kafka_api \<Rightarrow> ctx \<Rightarrow> change \<Rightarrow> encoder option \<Rightarrow> 's \<Rightarrow> string result \<times> encoder option \<times> 's" where
  "kafka_value env se api c ch enc s =
     (case enc of
        None \<Rightarrow> (change_json env ch, None, s)
      | Some e \<Rightarrow> (case Encode env se (kaRegistry api) c ch e s of (r, e1, s1) \<Rightarrow> (r, Some e1, s1)))"

definition kafka_record_of :: "message_env \<Rightarrow> kafka_publisher \<Rightarrow> ctx \<Rightarrow> change \<Rightarrow> string \<Rightarrow> kafka_record" where
  "kafka_record_of env p c ch v =
     \<lparr>krTopic = kpTopic p, krKey = ItemID ch, krValue = v,
      krHeaders = base_attrs id itoa ch @ dlq_attrs id itoa ch @ trace_attrs id (meInject env c)\<rparr>"

text \<open>The state of a publisher with its encoder, and the broker.\<close>

definition kafka_Publish ::
    "message_env \<Rightarrow> schema_env \<Rightarrow> 's kafka_api \<Rightarrow> kafka_publisher \<Rightarrow> ctx \<Rightarrow> change \<Rightarrow> encoder option \<times> 's \<Rightarrow>
     go_error option \<times> (encoder option \<times> 's)" where
  "kafka_Publish env se api p c ch = (\<lambda>(enc, s).
     case kafka_value env se api c ch enc s of
       (Inl err, enc1, s1) \<Rightarrow> (Some (Errorf ''kafka sink %q: encode: %w'' [FStr (kpName p), FWrap err]), (enc1, s1))
     | (Inr v, enc1, s1) \<Rightarrow>
         (case kaProduceSync api c (kafka_record_of env p c ch v) s1 of (r, s2) \<Rightarrow> (r, (enc1, s2))))"

text \<open>A record carries the change: keyed by the item, and its value is the JSON or the framed payload.\<close>

definition framed :: "message_env \<Rightarrow> schema_env \<Rightarrow> change \<Rightarrow> string \<Rightarrow> bool" where
  "framed env se ch v \<longleftrightarrow>
     change_json env ch = Inr v \<or>
     (\<exists>e ident b. payload env se e ch = Inr b \<and> v = seHeader se ident (message_index e) @ b)"

definition kafka_carries :: "message_env \<Rightarrow> schema_env \<Rightarrow> change \<Rightarrow> kafka_record \<Rightarrow> bool" where
  "kafka_carries env se ch m \<longleftrightarrow> krKey m = ItemID ch \<and> annotates id itoa ch (map_of (krHeaders m)) \<and> framed env se ch (krValue m)"

definition registry_quiet :: "'s registry_api \<Rightarrow> ('s \<Rightarrow> 'a) \<Rightarrow> bool" where
  "registry_quiet api f \<longleftrightarrow>
     (\<forall>c sub sc s. f (snd (srCreateSchema api c sub sc s)) = f s \<and> f (snd (srLookupSchema api c sub sc s)) = f s)"

lemma schemaID_quiet:
  assumes "registry_quiet api f" "schemaID api c r s = (x, r1, s1)"
  shows "f s1 = f s"
proof -
  let ?ask = "if rgAuto r then srCreateSchema api c (rgSubject r) (rgSchema r) s
              else srLookupSchema api c (rgSubject r) (rgSchema r) s"
  have "f (snd ?ask) = f s" using assms(1) unfolding registry_quiet_def by presburger
  moreover obtain y t where ask: "?ask = (y, t)" by fastforce
  moreover have "s1 = s \<or> s1 = t" using assms(2) unfolding schemaID_def ask by (auto split: if_splits sum.splits)
  ultimately show ?thesis by auto
qed

lemma kafka_value_quiet:
  assumes "registry_quiet (kaRegistry api) f" "kafka_value env se api c ch enc s = (r, enc1, s1)"
  shows "f s1 = f s"
  using assms(2) schemaID_quiet [OF assms(1)]
  by (auto simp: kafka_value_def Encode_def split: option.splits prod.splits sum.splits)

lemma kafka_value_framed: "kafka_value env se api c ch enc s = (Inr v, enc1, s1) \<Longrightarrow> framed env se ch v"
  using Encode_resolves [of env se "kaRegistry api" c ch]
  by (fastforce simp: kafka_value_def framed_def split: option.splits prod.splits)

lemma kafka_record_carries:
  "framed env se ch v \<Longrightarrow> kafka_carries env se ch (kafka_record_of env p c ch v)"
  by (simp add: kafka_carries_def kafka_record_of_def attrs_annotate(1) del: map_of_append)

text \<open>A publish fails before it produces, or produces one record.\<close>

lemma kafka_Publish_cases:
  assumes quiet: "registry_quiet (kaRegistry api) f" and run: "kafka_Publish env se api p c ch (enc, s) = (r, enc1, s2)"
  obtains "r \<noteq> None" "f s2 = f s"
  | m s1 where "kafka_carries env se ch m" "f s1 = f s" "kaProduceSync api c m s1 = (r, s2)"
proof -
  obtain x e1 s1 where v: "kafka_value env se api c ch enc s = (x, e1, s1)" by (metis prod_cases3)
  note same = kafka_value_quiet [OF quiet v]
  show ?thesis
  proof (cases x)
    case (Inl err)
    with run v same show ?thesis by (intro that(1)) (auto simp: kafka_Publish_def)
  next
    case (Inr b)
    then have "kafka_carries env se ch (kafka_record_of env p c ch b)"
      using v by (intro kafka_record_carries kafka_value_framed) simp
    moreover have "kaProduceSync api c (kafka_record_of env p c ch b) s1 = (r, s2)"
      using run v Inr by (auto simp: kafka_Publish_def split: prod.splits)
    ultimately show ?thesis using same that(2) by blast
  qed
qed

lemma kafka_message_sink:
  assumes "log_ok (kaProduceSync api) sent" "registry_quiet (kaRegistry api) sent"
  shows "message_sink (kafka_Publish env se api p) (sent \<circ> snd) (kafka_carries env se)"
proof
  fix c ch and st st' :: "encoder option \<times> 'a" and e
  obtain enc s enc1 s2 where st: "st = (enc, s)" "st' = (enc1, s2)" by fastforce
  show "\<exists>m. (sent \<circ> snd) st' = (sent \<circ> snd) st @ [m] \<and> kafka_carries env se ch m"
    if "kafka_Publish env se api p c ch st = (None, st')"
    by (rule kafka_Publish_cases [OF assms(2) that [unfolded st]])
      (use st log_okD(1) [OF assms(1)] in \<open>auto\<close>)
  show "(sent \<circ> snd) st' = (sent \<circ> snd) st \<or> (\<exists>m. (sent \<circ> snd) st' = (sent \<circ> snd) st @ [m] \<and> kafka_carries env se ch m)"
    if "kafka_Publish env se api p c ch st = (Some e, st')"
    by (rule kafka_Publish_cases [OF assms(2) that [unfolded st]])
      (use st log_okD(2) [OF assms(1)] in \<open>fastforce\<close>)+
qed

subsection \<open>NATS\<close>

definition defaultPublishTimeout :: duration where
  "defaultPublishTimeout = 10 * second"

datatype nats_option =
  NatsName string | NatsToken string | NatsUserInfo string string | NatsUserCredentials string | NatsSecure tls_config

record ('c, 's) nats_lib =
  nlConnect :: "string \<Rightarrow> nats_option list \<Rightarrow> 's \<Rightarrow> 'c result \<times> 's"
  nlJetStream :: "'c \<Rightarrow> go_error option"
  nlClose :: "'c \<Rightarrow> 's \<Rightarrow> unit \<times> 's"
  nlFlush :: "'c \<Rightarrow> ctx \<Rightarrow> 's \<Rightarrow> go_error option \<times> 's"

record 'c nats_publisher =
  npName :: string
  npSubject :: string
  npConn :: 'c
  npJetStream :: bool
  npTimeout :: duration

definition nats_auth :: "string \<Rightarrow> string \<Rightarrow> string \<Rightarrow> string \<Rightarrow> nats_option list" where
  "nats_auth token username password credsFile =
     (if token \<noteq> [] then [NatsToken token] else if username \<noteq> [] then [NatsUserInfo username password]
      else if credsFile \<noteq> [] then [NatsUserCredentials credsFile] else [])"

definition nats_New ::
    "tls_env \<Rightarrow> ('c, 's) nats_lib \<Rightarrow> string \<Rightarrow> string \<Rightarrow> string \<Rightarrow> string \<Rightarrow> string \<Rightarrow> string \<Rightarrow> string \<Rightarrow> bool \<Rightarrow> duration \<Rightarrow>
     tls_options option \<Rightarrow> 's \<Rightarrow> 'c nats_publisher result \<times> 's" where
  "nats_New te lib name url subject token username password credsFile jetStream publishTimeout tls s =
     (if name = [] then (Inl (Errorf ''nats sink: name is required'' []), s)
      else if url = [] then (Inl (Errorf ''nats sink %q: url is required'' [FStr name]), s)
      else if subject = [] then (Inl (Errorf ''nats sink %q: subject is required'' [FStr name]), s)
      else if (username \<noteq> []) \<noteq> (password \<noteq> []) then
        (Inl (Errorf ''nats sink %q: username and password must both be set or both empty'' [FStr name]), s)
      else if 1 < length (filter (\<lambda>x. x \<noteq> []) [token, username, credsFile]) then
        (Inl (Errorf ''nats sink %q: at most one of token, username/password, or creds_file may be set'' [FStr name]), s)
      else case opt_tls (nats_buildTLSConfig te) tls of
        Inl err \<Rightarrow> (Inl (Errorf ''nats sink %q: build TLS config: %w'' [FStr name, FWrap err]), s)
      | Inr tc \<Rightarrow>
          (case nlConnect lib url
                 ([NatsName name] @ nats_auth token username password credsFile @
                  (case tc of None \<Rightarrow> [] | Some x \<Rightarrow> [NatsSecure x])) s of
             (Inl err, s1) \<Rightarrow> (Inl (Errorf ''nats sink %q: connect: %w'' [FStr name, FWrap err]), s1)
           | (Inr nc, s1) \<Rightarrow>
               let timeout = (if publishTimeout \<le> 0 then defaultPublishTimeout else publishTimeout);
                   p = \<lparr>npName = name, npSubject = subject, npConn = nc, npJetStream = jetStream, npTimeout = timeout\<rparr> in
               if jetStream then
                 (case nlJetStream lib nc of
                    Some err \<Rightarrow> (Inl (Errorf ''nats sink %q: jetstream: %w'' [FStr name, FWrap err]), snd (nlClose lib nc s1))
                  | None \<Rightarrow> (Inr p, s1))
               else (Inr p, s1)))"

definition nats_Close :: "('c, 's) nats_lib \<Rightarrow> 'c nats_publisher \<Rightarrow> 's \<Rightarrow> go_error option \<times> 's" where
  "nats_Close lib p s = (None, snd (nlClose lib (npConn p) (snd (nlFlush lib (npConn p) None s))))"

record nats_msg =
  nmSubject :: string
  nmData :: string
  nmHeader :: "(string \<times> string) list"

record 's nats_api =
  naPublishMsg :: "nats_msg \<Rightarrow> 's \<Rightarrow> go_error option \<times> 's"
  naFlush :: "ctx \<Rightarrow> 's \<Rightarrow> go_error option \<times> 's"
  naJSPublish :: "ctx \<Rightarrow> nats_msg \<Rightarrow> 's \<Rightarrow> go_error option \<times> 's"

definition publishContext :: "'s runtime \<Rightarrow> duration \<Rightarrow> ctx \<Rightarrow> 's \<Rightarrow> ctx" where
  "publishContext rt timeout c s = (if c \<noteq> None then c else WithTimeout rt c timeout s)"

definition nats_msg_of :: "message_env \<Rightarrow> 'c nats_publisher \<Rightarrow> ctx \<Rightarrow> change \<Rightarrow> string \<Rightarrow> nats_msg" where
  "nats_msg_of env p c ch body =
     \<lparr>nmSubject = npSubject p, nmData = body,
      nmHeader = base_attrs id itoa ch @ dlq_attrs id itoa ch @ trace_attrs id (meInject env c)\<rparr>"

definition nats_Publish ::
    "'s runtime \<Rightarrow> message_env \<Rightarrow> 's nats_api \<Rightarrow> 'c nats_publisher \<Rightarrow> ctx \<Rightarrow> change \<Rightarrow> 's \<Rightarrow> go_error option \<times> 's" where
  "nats_Publish rt env api p c ch s =
     (case change_json env ch of
        Inl err \<Rightarrow> (Some (Errorf ''nats sink %q: marshal: %w'' [FStr (npName p), FWrap err]), s)
      | Inr body \<Rightarrow>
          let msg = nats_msg_of env p c ch body in
          if npJetStream p then
            (case naJSPublish api (publishContext rt (npTimeout p) c s) msg s of
               (Some err, s1) \<Rightarrow> (Some (Errorf ''nats sink %q: jetstream publish: %w'' [FStr (npName p), FWrap err]), s1)
             | (None, s1) \<Rightarrow> (None, s1))
          else
            (case naPublishMsg api msg s of
               (Some err, s1) \<Rightarrow> (Some (Errorf ''nats sink %q: publish: %w'' [FStr (npName p), FWrap err]), s1)
             | (None, s1) \<Rightarrow>
                 (case naFlush api (publishContext rt (npTimeout p) c s1) s1 of
                    (Some err, s2) \<Rightarrow> (Some (Errorf ''nats sink %q: flush: %w'' [FStr (npName p), FWrap err]), s2)
                  | (None, s2) \<Rightarrow> (None, s2))))"

text \<open>A core publish goes into the buffer of the client; a flush hands the buffer to the server, all of it when
  it succeeds, a part of it when it fails.\<close>

definition nats_ok :: "'s nats_api \<Rightarrow> ('s \<Rightarrow> nats_msg list) \<Rightarrow> ('s \<Rightarrow> nats_msg list) \<Rightarrow> bool" where
  "nats_ok api buffered sent \<longleftrightarrow>
     (\<forall>m s r s'. naPublishMsg api m s = (r, s') \<longrightarrow>
        sent s' = sent s \<and> buffered s' = (if r = None then buffered s @ [m] else buffered s)) \<and>
     (\<forall>c s r s'. naFlush api c s = (r, s') \<longrightarrow>
        sent s' @ buffered s' = sent s @ buffered s \<and> (r = None \<longrightarrow> buffered s' = [])) \<and>
     log_ok (naJSPublish api) sent"

lemma nats_okD:
  assumes "nats_ok api buffered sent"
  shows "naPublishMsg api m s = (r, s') \<Longrightarrow> sent s' = sent s \<and> buffered s' = (if r = None then buffered s @ [m] else buffered s)"
    and "naFlush api c s = (r, s') \<Longrightarrow> sent s' @ buffered s' = sent s @ buffered s \<and> (r = None \<longrightarrow> buffered s' = [])"
    and "log_ok (naJSPublish api) sent"
  using assms unfolding nats_ok_def by blast+

definition nats_carries :: "message_env \<Rightarrow> change \<Rightarrow> nats_msg \<Rightarrow> bool" where
  "nats_carries env ch m \<longleftrightarrow> describes id itoa env ch (nmData m) (map_of (nmHeader m))"

lemma nats_msg_carries: "change_json env ch = Inr body \<Longrightarrow> nats_carries env ch (nats_msg_of env p c ch body)"
  by (simp add: nats_carries_def nats_msg_of_def attrs_describe(1) del: map_of_append)

text \<open>A JetStream publish is acknowledged by the server.  A core publish hands its message to the client, and
  has handed everything to the server when it succeeds.\<close>

lemma nats_jetstream_sink:
  assumes "nats_ok api buffered sent" "npJetStream p"
  shows "message_sink (nats_Publish rt env api p) sent (nats_carries env)"
proof (rule message_sink_by_log [where send = "\<lambda>c m s. naJSPublish api (publishContext rt (npTimeout p) c s) m s"])
  show "log_ok (\<lambda>c m s. naJSPublish api (publishContext rt (npTimeout p) c s) m s) sent"
    using log_okD [OF nats_okD(3) [OF assms(1)]] unfolding log_ok_def by blast
qed (use assms(2) in \<open>auto simp: nats_Publish_def Let_def split: sum.splits prod.splits option.splits
  intro: nats_msg_carries\<close>)

lemma nats_core_attempt:
  assumes ok: "nats_ok api buffered sent" and core: "\<not> npJetStream p"
    and run: "nats_Publish rt env api p c ch s = (r, s')"
  obtains (failed) "r \<noteq> None" "sent s' @ buffered s' = sent s @ buffered s"
  | (taken) m where "nats_carries env ch m" "sent s' @ buffered s' = (sent s @ buffered s) @ [m]" "r = None \<Longrightarrow> buffered s' = []"
proof (cases "change_json env ch")
  case (Inl err)
  with run show ?thesis by (intro failed) (auto simp: nats_Publish_def)
next
  case (Inr body)
  define m where "m = nats_msg_of env p c ch body"
  note run' = run [unfolded nats_Publish_def Let_def, simplified Inr, simplified, folded m_def]
  obtain e s1 where pub: "naPublishMsg api m s = (e, s1)" by fastforce
  obtain e2 s2 where fl: "naFlush api (publishContext rt (npTimeout p) c s1) s1 = (e2, s2)" by fastforce
  show ?thesis
  proof (cases e)
    case None
    with nats_okD(1) [OF ok pub] have 1: "sent s1 @ buffered s1 = (sent s @ buffered s) @ [m]" by simp
    from run' core pub fl None have "s' = s2" "r = None \<longleftrightarrow> e2 = None" by (auto split: option.splits)
    with nats_okD(2) [OF ok fl] 1 show ?thesis
      by (intro taken [OF nats_msg_carries [OF Inr, of p c, folded m_def]]) auto
  next
    case (Some err)
    with nats_okD(1) [OF ok pub] run' core pub show ?thesis by (intro failed) auto
  qed
qed

lemma nats_core_sink:
  assumes "nats_ok api buffered sent" "\<not> npJetStream p"
  shows "message_sink (nats_Publish rt env api p) (\<lambda>s. sent s @ buffered s) (nats_carries env)"
proof
  fix c ch s s' e
  show "\<exists>m. sent s' @ buffered s' = (sent s @ buffered s) @ [m] \<and> nats_carries env ch m"
    if "nats_Publish rt env api p c ch s = (None, s')"
    by (rule nats_core_attempt [OF assms that]) auto
  show "sent s' @ buffered s' = sent s @ buffered s \<or>
      (\<exists>m. sent s' @ buffered s' = (sent s @ buffered s) @ [m] \<and> nats_carries env ch m)"
    if "nats_Publish rt env api p c ch s = (Some e, s')"
    by (rule nats_core_attempt [OF assms that]) auto
qed

subsection \<open>AMQP 0-9-1\<close>

definition validExchangeTypes :: "string list" where
  "validExchangeTypes = [''direct'', ''topic'', ''fanout'', ''headers'']"

record ('c, 'h, 's) amqp_lib =
  alDial :: "string \<Rightarrow> tls_config option \<Rightarrow> 's \<Rightarrow> 'c result \<times> 's"
  alChannel :: "'c \<Rightarrow> 's \<Rightarrow> 'h result \<times> 's"
  alDeclare :: "'h \<Rightarrow> string \<Rightarrow> string \<Rightarrow> bool \<Rightarrow> 's \<Rightarrow> go_error option \<times> 's"
  alCloseChannel :: "'h \<Rightarrow> 's \<Rightarrow> go_error option \<times> 's"
  alCloseConn :: "'c \<Rightarrow> 's \<Rightarrow> go_error option \<times> 's"

record ('c, 'h) amqp_publisher =
  apName :: string
  apConn :: 'c
  apChannel :: 'h
  apExchange :: string
  apRoutingKey :: string
  apMandatory :: bool

definition amqp091_New ::
    "tls_env \<Rightarrow> ('c, 'h, 's) amqp_lib \<Rightarrow> string \<Rightarrow> string \<Rightarrow> string \<Rightarrow> string \<Rightarrow> string \<Rightarrow> bool \<Rightarrow> bool \<Rightarrow> bool \<Rightarrow> tls_options option \<Rightarrow>
     's \<Rightarrow> ('c, 'h) amqp_publisher result \<times> 's" where
  "amqp091_New te lib name url exchange exchangeType0 routingKey declare durable mandatory tls s =
     (let exchangeType = (if exchangeType0 = [] then ''direct'' else exchangeType0) in
      if name = [] then (Inl (Errorf ''amqp091 sink: name is required'' []), s)
      else if url = [] then (Inl (Errorf ''amqp091 sink %q: url is required'' [FStr name]), s)
      else if exchangeType \<notin> set validExchangeTypes then
        (Inl (Errorf ''amqp091 sink %q: unknown exchange_type %q'' [FStr name, FStr exchangeType0]), s)
      else if declare \<and> exchange = [] then
        (Inl (Errorf ''amqp091 sink %q: declare=true requires a non-empty exchange (the default exchange cannot be declared)''
                [FStr name]), s)
      else case opt_tls (amqp091_buildTLSConfig te) tls of
        Inl err \<Rightarrow> (Inl (Errorf ''amqp091 sink %q: build TLS config: %w'' [FStr name, FWrap err]), s)
      | Inr tc \<Rightarrow>
          (case alDial lib url tc s of
             (Inl err, s1) \<Rightarrow> (Inl (Errorf ''amqp091 sink %q: dial: %w'' [FStr name, FWrap err]), s1)
           | (Inr conn, s1) \<Rightarrow>
               (case alChannel lib conn s1 of
                  (Inl err, s2) \<Rightarrow>
                    (Inl (Errorf ''amqp091 sink %q: channel: %w'' [FStr name, FWrap err]), snd (alCloseConn lib conn s2))
                | (Inr ch, s2) \<Rightarrow>
                    let p = \<lparr>apName = name, apConn = conn, apChannel = ch, apExchange = exchange,
                             apRoutingKey = routingKey, apMandatory = mandatory\<rparr> in
                    if declare then
                      (case alDeclare lib ch exchange exchangeType durable s2 of
                         (Some err, s3) \<Rightarrow>
                           (Inl (Errorf ''amqp091 sink %q: declare exchange %q: %w'' [FStr name, FStr exchange, FWrap err]),
                            snd (alCloseConn lib conn (snd (alCloseChannel lib ch s3))))
                       | (None, s3) \<Rightarrow> (Inr p, s3))
                    else (Inr p, s2))))"

definition amqp091_Close :: "('c, 'h, 's) amqp_lib \<Rightarrow> ('c, 'h) amqp_publisher \<Rightarrow> 's \<Rightarrow> go_error option \<times> 's" where
  "amqp091_Close lib p s = alCloseConn lib (apConn p) (snd (alCloseChannel lib (apChannel p) s))"

record amqp_publishing =
  paRoute :: "string \<times> string \<times> bool"
  paContentType :: string
  paPersistent :: bool
  paMessageId :: string
  paTimestamp :: time
  paHeaders :: "(string \<times> prop_value) list"
  paBody :: string

definition amqp_publishing_of :: "message_env \<Rightarrow> ('c, 'h) amqp_publisher \<Rightarrow> ctx \<Rightarrow> change \<Rightarrow> string \<Rightarrow> amqp_publishing" where
  "amqp_publishing_of env p c ch body =
     \<lparr>paRoute = (apExchange p, apRoutingKey p, apMandatory p), paContentType = ''application/json'', paPersistent = True,
      paMessageId = ItemID ch, paTimestamp = DetectedAt ch,
      paHeaders = base_attrs PStr (PInt \<circ> int32_of) ch @ dlq_attrs PStr (PInt \<circ> int32_of) ch @ trace_attrs PStr (meInject env c),
      paBody = body\<rparr>"

text \<open>\<open>publish\<close> is \<^verbatim>\<open>PublishWithContext\<close> on the channel.\<close>

definition amqp091_Publish ::
    "message_env \<Rightarrow> (ctx \<Rightarrow> amqp_publishing \<Rightarrow> 's \<Rightarrow> go_error option \<times> 's) \<Rightarrow> ('c, 'h) amqp_publisher \<Rightarrow> ctx \<Rightarrow> change \<Rightarrow> 's \<Rightarrow>
     go_error option \<times> 's" where
  "amqp091_Publish env publish p c ch s =
     (case change_json env ch of
        Inl err \<Rightarrow> (Some (Errorf ''amqp091 sink %q: marshal: %w'' [FStr (apName p), FWrap err]), s)
      | Inr body \<Rightarrow>
          (case publish c (amqp_publishing_of env p c ch body) s of
             (Some err, s1) \<Rightarrow> (Some (Errorf ''amqp091 sink %q: publish: %w'' [FStr (apName p), FWrap err]), s1)
           | (None, s1) \<Rightarrow> (None, s1)))"

definition amqp_carries :: "message_env \<Rightarrow> change \<Rightarrow> amqp_publishing \<Rightarrow> bool" where
  "amqp_carries env ch m \<longleftrightarrow>
     describes PStr (PInt \<circ> int32_of) env ch (paBody m) (map_of (paHeaders m)) \<and> paMessageId m = ItemID ch \<and> paPersistent m"

lemma amqp_publishing_carries: "change_json env ch = Inr body \<Longrightarrow> amqp_carries env ch (amqp_publishing_of env p c ch body)"
  by (simp add: amqp_carries_def amqp_publishing_of_def attrs_describe(1) del: map_of_append)

lemma amqp091_message_sink: "log_ok publish sent \<Longrightarrow> message_sink (amqp091_Publish env publish p) sent (amqp_carries env)"
  by (rule message_sink_by_log [where send = publish])
    (auto simp: amqp091_Publish_def split: sum.splits prod.splits option.splits intro: amqp_publishing_carries)

definition amqp_counts :: "('s \<Rightarrow> int) \<Rightarrow> ('c, 'h, 's) amqp_lib \<Rightarrow> bool" where
  "amqp_counts n lib \<longleftrightarrow>
     (\<forall>u t. opens n (alDial lib u t)) \<and> (\<forall>c. opens n (alChannel lib c)) \<and> (\<forall>h. closes n (alCloseChannel lib h)) \<and>
     (\<forall>c. closes n (alCloseConn lib c)) \<and> (\<forall>h e t d s. n (snd (alDeclare lib h e t d s)) = n s)"

lemma amqp091_no_leak:
  assumes "amqp_counts n lib" "amqp091_New te lib name url ex ty rk dec dur man tls s = (r, s')"
  shows "case r of Inl _ \<Rightarrow> n s' = n s | Inr p \<Rightarrow> n s' = n s + 2 \<and> n (snd (amqp091_Close lib p s')) = n s"
proof -
  have o: "opens n (alDial lib u t)" "opens n (alChannel lib c)"
    and c: "closes n (alCloseChannel lib h)" "closes n (alCloseConn lib c)"
    and d: "n (snd (alDeclare lib h e ty du x)) = n x" for u t c h e ty du x
    using assms(1) by (simp_all add: amqp_counts_def)
  have d': "n t' = n t" if "alDeclare lib h e ty du t = (x, t')" for h e ty du t x t' using d that by (metis snd_conv)
  show ?thesis
    using assms(2) unfolding amqp091_New_def Let_def
    by (auto simp: amqp091_Close_def closesD [OF c(1)] closesD [OF c(2)] split: if_splits prod.splits sum.splits option.splits
        dest!: opensD(1) [OF o(1)] opensD(2) [OF o(1)] opensD(1) [OF o(2)] opensD(2) [OF o(2)] d')
qed

end
