(* ===== verification/Sinks_Stream.thy ===== *)
theory Sinks_Stream
  imports Sinks_Broker
begin

section \<open>AMQP 1.0 and RabbitMQ streams\<close>

text \<open>
  \<^verbatim>\<open>internal/sink/amqp10\<close> and \<^verbatim>\<open>internal/sink/rabbitmqstream\<close>.  Both wait for the broker to confirm a message,
  and both build the message without looking at the error of the JSON encoder: what cannot be encoded is sent
  with an empty body.
\<close>

subsection \<open>The message\<close>

record bare_message =
  bmMessageID :: string
  bmContentType :: string
  bmProperties :: "(string \<times> prop_value) list"
  bmData :: string

definition amqp10_buildMessage :: "message_env \<Rightarrow> ctx \<Rightarrow> change \<Rightarrow> bare_message" where
  "amqp10_buildMessage env c ch =
     \<lparr>bmMessageID = ItemID ch, bmContentType = ''application/json'',
      bmProperties = base_attrs PStr (PInt \<circ> int32_of) ch @ dlq_attrs PStr (PInt \<circ> int32_of) ch @ trace_attrs PStr (meInject env c),
      bmData = (case change_json env ch of Inl _ \<Rightarrow> [] | Inr body \<Rightarrow> body)\<rparr>"

definition stream_buildMessage :: "message_env \<Rightarrow> ctx \<Rightarrow> change \<Rightarrow> bare_message" where
  "stream_buildMessage env c ch = amqp10_buildMessage env c ch"

text \<open>The contract of these sinks has to allow for the empty body.\<close>

definition bare_carries :: "message_env \<Rightarrow> change \<Rightarrow> bare_message \<Rightarrow> bool" where
  "bare_carries env ch m \<longleftrightarrow>
     annotates PStr (PInt \<circ> int32_of) ch (map_of (bmProperties m)) \<and> bmMessageID m = ItemID ch \<and>
     (case change_json env ch of Inl _ \<Rightarrow> bmData m = [] | Inr body \<Rightarrow> bmData m = body)"

lemma buildMessage_carries [simp]: "bare_carries env ch (amqp10_buildMessage env c ch)" "bare_carries env ch (stream_buildMessage env c ch)"
  by (simp_all add: bare_carries_def amqp10_buildMessage_def stream_buildMessage_def attrs_annotate(1) del: map_of_append
      split: sum.split)

subsection \<open>AMQP 1.0\<close>

text \<open>\<open>urlUser\<close> is the user information of a URL as \<^verbatim>\<open>url.Parse\<close> finds it: name and password.\<close>

definition resolveAuth ::
    "(string \<Rightarrow> (string \<times> string) option result) \<Rightarrow> string \<Rightarrow> string \<Rightarrow> string \<Rightarrow> (string \<times> string) result" where
  "resolveAuth urlUser rawURL user pass =
     (if user \<noteq> [] then Inr (user, pass)
      else case urlUser rawURL of
        Inl err \<Rightarrow> Inl (Errorf ''parse url: %w'' [FWrap err])
      | Inr None \<Rightarrow> Inr ([], [])
      | Inr (Some (u, pw)) \<Rightarrow> Inr (u, pw))"

record ('c, 'e, 'd, 's) amqp10_lib =
  tlDial :: "string \<Rightarrow> (string \<times> string) option \<Rightarrow> tls_config option \<Rightarrow> 's \<Rightarrow> 'c result \<times> 's"
  tlNewSession :: "'c \<Rightarrow> 's \<Rightarrow> 'e result \<times> 's"
  tlNewSender :: "'e \<Rightarrow> string \<Rightarrow> 's \<Rightarrow> 'd result \<times> 's"
  tlCloseSender :: "'d \<Rightarrow> 's \<Rightarrow> go_error option \<times> 's"
  tlCloseConn :: "'c \<Rightarrow> 's \<Rightarrow> go_error option \<times> 's"
  tlSend :: "'d \<Rightarrow> ctx \<Rightarrow> bare_message \<Rightarrow> 's \<Rightarrow> go_error option \<times> 's"

record ('c, 'e, 'd) amqp10_publisher =
  tpName :: string
  tpConn :: 'c
  tpSession :: 'e
  tpSender :: 'd

definition amqp10_New ::
    "tls_env \<Rightarrow> (string \<Rightarrow> (string \<times> string) option result) \<Rightarrow> ('c, 'e, 'd, 's) amqp10_lib \<Rightarrow> string \<Rightarrow> string \<Rightarrow> string \<Rightarrow> string \<Rightarrow>
     string \<Rightarrow> tls_options option \<Rightarrow> 's \<Rightarrow> ('c, 'e, 'd) amqp10_publisher result \<times> 's" where
  "amqp10_New te urlUser lib name url target username password tls s =
     (if name = [] then (Inl (Errorf ''amqp10 sink: name is required'' []), s)
      else if url = [] then (Inl (Errorf ''amqp10 sink %q: url is required'' [FStr name]), s)
      else if target = [] then (Inl (Errorf ''amqp10 sink %q: target is required'' [FStr name]), s)
      else case resolveAuth urlUser url username password of
        Inl err \<Rightarrow> (Inl (Errorf ''amqp10 sink %q: %w'' [FStr name, FWrap err]), s)
      | Inr (user, pass) \<Rightarrow>
          (case opt_tls (amqp10_buildTLSConfig te) tls of
             Inl err \<Rightarrow> (Inl (Errorf ''amqp10 sink %q: build TLS config: %w'' [FStr name, FWrap err]), s)
           | Inr tc \<Rightarrow>
               (case tlDial lib url (if user \<noteq> [] then Some (user, pass) else None) tc s of
                  (Inl err, s1) \<Rightarrow> (Inl (Errorf ''amqp10 sink %q: dial: %w'' [FStr name, FWrap err]), s1)
                | (Inr conn, s1) \<Rightarrow>
                    (case tlNewSession lib conn s1 of
                       (Inl err, s2) \<Rightarrow>
                         (Inl (Errorf ''amqp10 sink %q: session: %w'' [FStr name, FWrap err]), snd (tlCloseConn lib conn s2))
                     | (Inr sess, s2) \<Rightarrow>
                         (case tlNewSender lib sess target s2 of
                            (Inl err, s3) \<Rightarrow>
                              (Inl (Errorf ''amqp10 sink %q: sender to %q: %w'' [FStr name, FStr target, FWrap err]),
                               snd (tlCloseConn lib conn s3))
                          | (Inr sd, s3) \<Rightarrow>
                              (Inr \<lparr>tpName = name, tpConn = conn, tpSession = sess, tpSender = sd\<rparr>, s3))))))"

definition amqp10_Publish ::
    "message_env \<Rightarrow> ('c, 'e, 'd, 's) amqp10_lib \<Rightarrow> ('c, 'e, 'd) amqp10_publisher \<Rightarrow> ctx \<Rightarrow> change \<Rightarrow> 's \<Rightarrow> go_error option \<times> 's" where
  "amqp10_Publish env lib p c ch s =
     (case tlSend lib (tpSender p) c (amqp10_buildMessage env c ch) s of
        (Some err, s1) \<Rightarrow> (Some (Errorf ''amqp10 sink %q: send: %w'' [FStr (tpName p), FWrap err]), s1)
      | (None, s1) \<Rightarrow> (None, s1))"

definition amqp10_Close :: "('c, 'e, 'd, 's) amqp10_lib \<Rightarrow> ('c, 'e, 'd) amqp10_publisher \<Rightarrow> 's \<Rightarrow> go_error option \<times> 's" where
  "amqp10_Close lib p s = tlCloseConn lib (tpConn p) (snd (tlCloseSender lib (tpSender p) s))"

lemma amqp10_message_sink:
  "log_ok (tlSend lib (tpSender p)) sent \<Longrightarrow> message_sink (amqp10_Publish env lib p) sent (bare_carries env)"
  by (rule message_sink_by_log [where send = "tlSend lib (tpSender p)"])
    (auto simp: amqp10_Publish_def split: prod.splits option.splits intro: buildMessage_carries)

text \<open>Closing a connection closes its session and its sender: \<open>conns\<close> counts connections only.\<close>

lemma amqp10_no_leak:
  assumes "\<And>u a t. opens conns (tlDial lib u a t)" "\<And>c. closes conns (tlCloseConn lib c)"
    and "\<And>c s r s'. tlNewSession lib c s = (r, s') \<Longrightarrow> conns s' = conns s" "\<And>e t s r s'. tlNewSender lib e t s = (r, s') \<Longrightarrow> conns s' = conns s"
    and "\<And>d s. conns (snd (tlCloseSender lib d s)) = conns s"
    and "amqp10_New te urlUser lib name url target user pass tls s = (r, s')"
  shows "case r of Inl _ \<Rightarrow> conns s' = conns s | Inr p \<Rightarrow> conns s' = conns s + 1 \<and> conns (snd (amqp10_Close lib p s')) = conns s"
  using assms(6) unfolding amqp10_New_def
  by (auto simp: amqp10_Close_def assms(5) closesD [OF assms(2)] split: if_splits prod.splits sum.splits option.splits
      dest!: opensD(1) [OF assms(1)] opensD(2) [OF assms(1)] assms(3,4))

subsection \<open>RabbitMQ streams\<close>

record env_options =
  eoUris :: "string list"
  eoUser :: string
  eoPassword :: string
  eoResolver :: "(string \<times> int) option"
  eoTLS :: "tls_config option"

definition buildEnvOptions ::
    "tls_env \<Rightarrow> string list \<Rightarrow> string \<Rightarrow> string \<Rightarrow> string \<Rightarrow> string \<Rightarrow> int \<Rightarrow> tls_options option \<Rightarrow> env_options result" where
  "buildEnvOptions te uris url username password resolverHost resolverPort tls =
     (case opt_tls (rabbitmqstream_buildTLSConfig te) tls of
        Inl err \<Rightarrow> Inl (Errorf ''build TLS config: %w'' [FWrap err])
      | Inr tc \<Rightarrow>
          Inr \<lparr>eoUris = (if uris \<noteq> [] then uris else [url]), eoUser = username, eoPassword = password,
               eoResolver = (if resolverHost \<noteq> [] \<and> resolverPort \<noteq> 0 then Some (resolverHost, resolverPort) else None),
               eoTLS = tc\<rparr>)"

text \<open>The error of \<open>rlDeclare\<close> comes with whether it is \<^verbatim>\<open>StreamAlreadyExists\<close>.\<close>

record ('v, 'd, 's) stream_lib =
  rlNewEnvironment :: "env_options \<Rightarrow> 's \<Rightarrow> 'v result \<times> 's"
  rlDeclare :: "'v \<Rightarrow> string \<Rightarrow> duration option \<Rightarrow> int option \<Rightarrow> 's \<Rightarrow> (go_error \<times> bool) option \<times> 's"
  rlNewProducer :: "'v \<Rightarrow> string \<Rightarrow> 's \<Rightarrow> 'd result \<times> 's"
  rlCloseProducer :: "'d \<Rightarrow> 's \<Rightarrow> go_error option \<times> 's"
  rlCloseEnv :: "'v \<Rightarrow> 's \<Rightarrow> go_error option \<times> 's"

record ('v, 'd) stream_publisher =
  rpName :: string
  rpEnv :: 'v
  rpProducer :: 'd

definition stream_New ::
    "tls_env \<Rightarrow> ('v, 'd, 's) stream_lib \<Rightarrow> string \<Rightarrow> string list \<Rightarrow> string \<Rightarrow> string \<Rightarrow> string \<Rightarrow> string \<Rightarrow> bool \<Rightarrow> duration \<Rightarrow> int \<Rightarrow>
     string \<Rightarrow> int \<Rightarrow> tls_options option \<Rightarrow> 's \<Rightarrow> ('v, 'd) stream_publisher result \<times> 's" where
  "stream_New te lib name uris url stream username password declare maxAge maxLengthBytes rhost rport tls s =
     (if name = [] then (Inl (Errorf ''rabbitmq_stream sink: name is required'' []), s)
      else if stream = [] then (Inl (Errorf ''rabbitmq_stream sink %q: stream is required'' [FStr name]), s)
      else if uris = [] \<and> url = [] then (Inl (Errorf ''rabbitmq_stream sink %q: uris or url is required'' [FStr name]), s)
      else case buildEnvOptions te uris url username password rhost rport tls of
        Inl err \<Rightarrow> (Inl (Errorf ''rabbitmq_stream sink %q: %w'' [FStr name, FWrap err]), s)
      | Inr eo \<Rightarrow>
          (case rlNewEnvironment lib eo s of
             (Inl err, s1) \<Rightarrow> (Inl (Errorf ''rabbitmq_stream sink %q: environment: %w'' [FStr name, FWrap err]), s1)
           | (Inr ev, s1) \<Rightarrow>
               (case (if declare
                      then rlDeclare lib ev stream (if maxAge > 0 then Some maxAge else None)
                             (if maxLengthBytes > 0 then Some maxLengthBytes else None) s1
                      else (None, s1)) of
                  (Some (err, False), s2) \<Rightarrow>
                    (Inl (Errorf ''rabbitmq_stream sink %q: declare stream %q: %w'' [FStr name, FStr stream, FWrap err]),
                     snd (rlCloseEnv lib ev s2))
                | (_, s2) \<Rightarrow>
                    (case rlNewProducer lib ev stream s2 of
                       (Inl err, s3) \<Rightarrow>
                         (Inl (Errorf ''rabbitmq_stream sink %q: producer: %w'' [FStr name, FWrap err]), snd (rlCloseEnv lib ev s3))
                     | (Inr pr, s3) \<Rightarrow> (Inr \<lparr>rpName = name, rpEnv = ev, rpProducer = pr\<rparr>, s3)))))"

definition stream_Close :: "('v, 'd, 's) stream_lib \<Rightarrow> ('v, 'd) stream_publisher \<Rightarrow> 's \<Rightarrow> go_error option \<times> 's" where
  "stream_Close lib p s = rlCloseEnv lib (rpEnv p) (snd (rlCloseProducer lib (rpProducer p) s))"

text \<open>A confirmation: whether the message is confirmed, and the error.  Receiving from the channel of
  confirmations gives a batch, and the empty one once the channel is closed.\<close>

type_synonym confirmation = "bool \<times> go_error option"

record 's producer_api =
  prSend :: "bare_message \<Rightarrow> 's \<Rightarrow> go_error option \<times> 's"
  prReceive :: "'s \<Rightarrow> confirmation list \<times> 's"

definition notConfirmedError :: "string \<Rightarrow> go_error option \<Rightarrow> go_error" where
  "notConfirmedError name cause =
     (case cause of
        None \<Rightarrow> Errorf ''rabbitmq_stream sink %q: publish not confirmed (no error detail)'' [FStr name]
      | Some err \<Rightarrow> Errorf ''rabbitmq_stream sink %q: publish not confirmed: %w'' [FStr name, FWrap err])"

definition stream_Publish ::
    "'s runtime \<Rightarrow> message_env \<Rightarrow> 's producer_api \<Rightarrow> ('v, 'd) stream_publisher \<Rightarrow> ctx \<Rightarrow> change \<Rightarrow> 's \<Rightarrow> go_error option \<times> 's" where
  "stream_Publish rt env api p c ch s =
     (case ctx_Err rt c s of
        Some err \<Rightarrow> (Some (Errorf ''rabbitmq_stream sink %q: confirmation wait: %w'' [FStr (rpName p), FWrap err]), s)
      | None \<Rightarrow>
          (case prSend api (stream_buildMessage env c ch) s of
             (Some err, s1) \<Rightarrow> (Some (Errorf ''rabbitmq_stream sink %q: send: %w'' [FStr (rpName p), FWrap err]), s1)
           | (None, s1) \<Rightarrow>
               (case prReceive api s1 of
                  (batch, s2) \<Rightarrow>
                    (case filter (\<lambda>st. \<not> fst st) batch of
                       [] \<Rightarrow> (None, s2)
                     | st # _ \<Rightarrow> (Some (notConfirmedError (rpName p) (snd st)), s2)))))"

text \<open>A producer whose confirmations are those of the message in flight: a message is stored exactly when it is
  confirmed, or stored and not confirmed when the confirmation timed out.\<close>

definition producer_ok :: "'s producer_api \<Rightarrow> ('s \<Rightarrow> bare_message list) \<Rightarrow> bool" where
  "producer_ok api sent \<longleftrightarrow>
     (\<forall>m s e s1. prSend api m s = (Some e, s1) \<longrightarrow> sent s1 = sent s) \<and>
     (\<forall>m s s1 batch s2. prSend api m s = (None, s1) \<longrightarrow> prReceive api s1 = (batch, s2) \<longrightarrow>
        batch \<noteq> [] \<and> (if list_all fst batch then sent s2 = sent s @ [m] else sent s2 = sent s \<or> sent s2 = sent s @ [m]))"

lemma stream_message_sink:
  assumes "producer_ok api sent"
  shows "message_sink (stream_Publish rt env api p) sent (bare_carries env)"
proof -
  have err: "sent s1 = sent s" if "prSend api m s = (Some e, s1)" for m s e s1
    using assms that unfolding producer_ok_def by blast
  have rec: "if list_all fst batch then sent s2 = sent s @ [m] else sent s2 = sent s \<or> sent s2 = sent s @ [m]"
    if "prSend api m s = (None, s1)" "prReceive api s1 = (batch, s2)" for m s s1 batch s2
    using assms that unfolding producer_ok_def by blast
  have all: "list_all fst batch \<longleftrightarrow> filter (\<lambda>st. \<not> fst st) batch = []" for batch :: "confirmation list"
    by (simp add: list_all_iff filter_empty_conv)
  show ?thesis
  proof
    fix c ch s s' e
    show "\<exists>m. sent s' = sent s @ [m] \<and> bare_carries env ch m" if "stream_Publish rt env api p c ch s = (None, s')"
      using that rec [of "stream_buildMessage env c ch" s] unfolding stream_Publish_def
      by (auto simp: all split: option.splits prod.splits list.splits intro!: exI [of _ "stream_buildMessage env c ch"])
    show "sent s' = sent s \<or> (\<exists>m. sent s' = sent s @ [m] \<and> bare_carries env ch m)"
      if "stream_Publish rt env api p c ch s = (Some e, s')"
      using that rec [of "stream_buildMessage env c ch" s] err [of "stream_buildMessage env c ch" s] unfolding stream_Publish_def
      by (auto simp: all split: option.splits prod.splits list.splits)
  qed
qed

text \<open>Closing the publisher closes the channel of confirmations under a publish that waits on it: the publish
  then reports success, whatever became of its message.\<close>

lemma stream_closed_is_success:
  assumes "ctx_Err rt c s = None" "prSend api (stream_buildMessage env c ch) s = (None, s1)" "prReceive api s1 = ([], s2)"
  shows "stream_Publish rt env api p c ch s = (None, s2)"
  using assms by (simp add: stream_Publish_def)

lemma stream_no_leak:
  assumes "\<And>eo. opens n (rlNewEnvironment lib eo)" "\<And>v st. opens n (rlNewProducer lib v st)"
    and "\<And>d. closes n (rlCloseProducer lib d)" "\<And>v. closes n (rlCloseEnv lib v)"
    and "\<And>v st a b s r s'. rlDeclare lib v st a b s = (r, s') \<Longrightarrow> n s' = n s"
    and "stream_New te lib name uris url st us pw dec age len rh rp tls s = (r, s')"
  shows "case r of Inl _ \<Rightarrow> n s' = n s | Inr p \<Rightarrow> n s' = n s + 2 \<and> n (snd (stream_Close lib p s')) = n s"
  using assms(6) unfolding stream_New_def
  by (auto simp: stream_Close_def closesD [OF assms(3)] closesD [OF assms(4)]
      split: if_splits prod.splits sum.splits option.splits bool.splits
      dest!: opensD(1) [OF assms(1)] opensD(2) [OF assms(1)] opensD(1) [OF assms(2)] opensD(2) [OF assms(2)] assms(5))

end
