(* ===== verification/Sinks_Http.thy ===== *)
theory Sinks_Http
  imports Sinks_Broker Feed_Fetch
begin

section \<open>Sinks that call a server, and standard output\<close>

text \<open>
  \<^verbatim>\<open>internal/sink/http\<close>, \<^verbatim>\<open>internal/sink/grpc\<close> and \<^verbatim>\<open>internal/sink/stdout\<close>.  The webhook sink describes a change in
  request headers, which the client of \<^verbatim>\<open>net/http\<close> refuses to send when a value holds a control character;
  the gRPC sink describes it in metadata, which keep every value of a key.
\<close>

subsection \<open>Webhooks\<close>

record http_publisher =
  hpName :: string
  hpURL :: string
  hpMethod :: string
  hpHeaders :: "(string \<times> string) list"
  hpSuccessCodes :: "int list"
  hpTimeout :: duration
  hpTLS :: "tls_config option"
  hpHTTP3 :: bool

text \<open>\<open>parse\<close> is \<^verbatim>\<open>url.Parse\<close>: scheme and host.\<close>

fun bad_code :: "int list \<Rightarrow> int option" where
  "bad_code [] = None"
| "bad_code (c # cs) = (if c < 100 \<or> c > 599 then Some c else bad_code cs)"

definition http_New ::
    "tls_env \<Rightarrow> (string \<Rightarrow> (string \<times> string) result) \<Rightarrow> string \<Rightarrow> string \<Rightarrow> string \<Rightarrow> (string \<times> string) list \<Rightarrow> duration \<Rightarrow> int list \<Rightarrow>
     tls_options option \<Rightarrow> bool \<Rightarrow> http_publisher result" where
  "http_New te parse name url method0 headers timeout0 successCodes tls http3 =
     (if name = [] then Inl (Errorf ''http sink: name is required'' [])
      else if url = [] then Inl (Errorf ''http sink %q: url is required'' [FStr name])
      else case parse url of
        Inl err \<Rightarrow> Inl (Errorf ''http sink %q: parse url: %w'' [FStr name, FWrap err])
      | Inr (scheme, host) \<Rightarrow>
          if scheme \<noteq> ''http'' \<and> scheme \<noteq> ''https'' then
            Inl (Errorf ''http sink %q: url scheme must be http or https, got %q'' [FStr name, FStr scheme])
          else if host = [] then Inl (Errorf ''http sink %q: url has no host'' [FStr name])
          else if http3 \<and> scheme \<noteq> ''https'' then
            Inl (Errorf ''http sink %q: http3 requires an https:// url, got scheme %q'' [FStr name, FStr scheme])
          else
            let method = (if method0 = [] then ''POST'' else method0) in
            if method \<noteq> ''POST'' \<and> method \<noteq> ''PUT'' then
              Inl (Errorf ''http sink %q: method must be POST or PUT, got %q'' [FStr name, FStr method])
            else case bad_code successCodes of
              Some c \<Rightarrow> Inl (Errorf ''http sink %q: success_code %d is out of range 100-599'' [FStr name, FInt c])
            | None \<Rightarrow>
                (case opt_tls (http_buildTLSConfig te) tls of
                   Inl err \<Rightarrow> Inl (Errorf ''http sink %q: build TLS config: %w'' [FStr name, FWrap err])
                 | Inr tc \<Rightarrow>
                     Inr \<lparr>hpName = name, hpURL = url, hpMethod = method, hpHeaders = headers,
                          hpSuccessCodes = (if successCodes = [] then [200, 201, 202, 204] else successCodes),
                          hpTimeout = (if timeout0 \<le> 0 then 30 * second else timeout0), hpTLS = tc, hpHTTP3 = http3\<rparr>))"

record hook_request =
  hrMethod :: string
  hrURL :: string
  hrHeader :: header
  hrBody :: string

fun set_headers :: "(string \<times> string) list \<Rightarrow> header \<Rightarrow> header" where
  "set_headers [] h = h"
| "set_headers ((k, v) # kvs) h = set_headers kvs (header_Set k v h)"

definition canonical_headers :: "change \<Rightarrow> (string \<times> string) list" where
  "canonical_headers ch =
     [(''Content-Type'', ''application/json''), (''X-Schema-Version'', itoa (SchemaVersion ch)), (''X-Feed-Url'', FeedURL ch),
      (''X-Item-Id'', ItemID ch), (''X-Kind'', kind_text (Kind ch))] @
     (if DLQFromSink ch \<noteq> [] then
        [(''X-Dlq-From-Sink'', DLQFromSink ch), (''X-Dlq-Error'', DLQError ch), (''X-Dlq-Attempts'', itoa (DLQAttempts ch))]
      else [])"

definition hook_headers :: "message_env \<Rightarrow> http_publisher \<Rightarrow> ctx \<Rightarrow> change \<Rightarrow> header" where
  "hook_headers env p c ch = set_headers (hpHeaders p @ canonical_headers ch @ meInject env c) (\<lambda>_. None)"

definition hook_request_of :: "message_env \<Rightarrow> http_publisher \<Rightarrow> ctx \<Rightarrow> change \<Rightarrow> string \<Rightarrow> hook_request" where
  "hook_request_of env p c ch body =
     \<lparr>hrMethod = hpMethod p, hrURL = hpURL p, hrHeader = hook_headers env p c ch, hrBody = body\<rparr>"

text \<open>\<^verbatim>\<open>httpguts.ValidHeaderFieldName\<close> and \<^verbatim>\<open>ValidHeaderFieldValue\<close>, and the transport of \<^verbatim>\<open>net/http\<close>, which checks
  every header that was set before it sends; \<open>hcRoundTrip\<close> is the exchange with the server (its status),
  \<open>hcHTTP3\<close> the whole client over HTTP/3, \<open>hcStatusText\<close> is \<^verbatim>\<open>http.StatusText\<close>.\<close>

definition valid_name :: "string \<Rightarrow> bool" where
  "valid_name k \<longleftrightarrow> k \<noteq> [] \<and> list_all is_token_byte k"

definition valid_value :: "string \<Rightarrow> bool" where
  "valid_value v \<longleftrightarrow> list_all (\<lambda>b. \<not> (byte b < 32 \<and> byte b \<noteq> 9) \<and> byte b \<noteq> 127) v"

fun invalid_header :: "(string \<times> string) list \<Rightarrow> header \<Rightarrow> go_error option" where
  "invalid_header [] h = None"
| "invalid_header ((k, _) # kvs) h =
     (let key = CanonicalHeaderKey k; vs = (case h key of None \<Rightarrow> [] | Some vs \<Rightarrow> vs)
      in if \<not> valid_name key then Some (Errorf ''net/http: invalid header field name %q'' [FStr key])
         else if \<not> list_all valid_value vs then Some (Errorf ''net/http: invalid header field value for %q'' [FStr key])
         else invalid_header kvs h)"

record 's http_client =
  hcRoundTrip :: "ctx \<Rightarrow> hook_request \<Rightarrow> 's \<Rightarrow> int result \<times> 's"
  hcHTTP3 :: "ctx \<Rightarrow> hook_request \<Rightarrow> 's \<Rightarrow> int result \<times> 's"
  hcStatusText :: "int \<Rightarrow> string"

definition client_Do ::
    "'s http_client \<Rightarrow> http_publisher \<Rightarrow> (string \<times> string) list \<Rightarrow> ctx \<Rightarrow> hook_request \<Rightarrow> 's \<Rightarrow> int result \<times> 's" where
  "client_Do cl p kvs c req s =
     (if hpHTTP3 p then hcHTTP3 cl c req s
      else case invalid_header kvs (hrHeader req) of
        Some err \<Rightarrow> (Inl err, s)
      | None \<Rightarrow> hcRoundTrip cl c req s)"

definition http_Publish ::
    "'s runtime \<Rightarrow> message_env \<Rightarrow> (string \<Rightarrow> (string \<times> string) result) \<Rightarrow> 's http_client \<Rightarrow> http_publisher \<Rightarrow> ctx \<Rightarrow> change \<Rightarrow> 's \<Rightarrow>
     go_error option \<times> 's" where
  "http_Publish rt env parse cl p c ch s =
     (case change_json env ch of
        Inl err \<Rightarrow> (Some (Errorf ''http sink %q: marshal: %w'' [FStr (hpName p), FWrap err]), s)
      | Inr body \<Rightarrow>
          (case parse (hpURL p) of
             Inl err \<Rightarrow> (Some (Errorf ''http sink %q: build request: %w'' [FStr (hpName p), FWrap err]), s)
           | Inr _ \<Rightarrow>
               (case client_Do cl p (hpHeaders p @ canonical_headers ch @ meInject env c)
                       (WithTimeout rt c (hpTimeout p) s) (hook_request_of env p c ch body) s of
                  (Inl err, s1) \<Rightarrow> (Some (Errorf ''http sink %q: request: %w'' [FStr (hpName p), FWrap err]), s1)
                | (Inr status, s1) \<Rightarrow>
                    if status \<notin> set (hpSuccessCodes p)
                    then (Some (Errorf ''http sink %q: unexpected status %d %s''
                            [FStr (hpName p), FInt status, FStr (hcStatusText cl status)]), s1)
                    else (None, s1))))"

text \<open>\<^verbatim>\<open>Close\<close>: idle connections go, and the transport of HTTP/3 with its socket.\<close>

definition http_Close :: "('s \<Rightarrow> 's) \<Rightarrow> ('s \<Rightarrow> go_error option \<times> 's) \<Rightarrow> http_publisher \<Rightarrow> 's \<Rightarrow> go_error option \<times> 's" where
  "http_Close closeIdle closeTransport p s =
     (if hpHTTP3 p then closeTransport (closeIdle s) else (None, closeIdle s))"

text \<open>What the last write to a header left: the headers that describe the change are those of the change,
  whatever the operator configured, provided the propagator writes others.\<close>

lemma set_headers_append: "set_headers (xs @ ys) h = set_headers ys (set_headers xs h)"
  by (induction xs h rule: set_headers.induct) simp_all

lemma set_headers_other: "k \<notin> (CanonicalHeaderKey \<circ> fst) ` set kvs \<Longrightarrow> set_headers kvs h k = h k"
  by (induction kvs h rule: set_headers.induct) (auto simp: header_Set_def)

lemma set_headers_last:
  "k \<notin> (CanonicalHeaderKey \<circ> fst) ` set post \<Longrightarrow> CanonicalHeaderKey n = k \<Longrightarrow>
     set_headers (pre @ (n, v) # post) h k = Some [v]"
  by (simp add: set_headers_append set_headers_other header_Set_def)

lemma set_headers_distinct:
  assumes "distinct (map (CanonicalHeaderKey \<circ> fst) kvs)" "(k, v) \<in> set kvs"
  shows "set_headers kvs h (CanonicalHeaderKey k) = Some [v]"
proof -
  from assms(2) obtain pre post where kvs: "kvs = pre @ (k, v) # post" by (meson split_list)
  with assms(1) have "CanonicalHeaderKey k \<notin> (CanonicalHeaderKey \<circ> fst) ` set post" by auto
  with kvs show ?thesis by (simp add: set_headers_last)
qed

definition described_by :: "string list" where
  "described_by = [''Content-Type'', ''X-Schema-Version'', ''X-Feed-Url'', ''X-Item-Id'', ''X-Kind'', ''X-Dlq-From-Sink'',
     ''X-Dlq-Error'', ''X-Dlq-Attempts'']"

definition trace_apart :: "message_env \<Rightarrow> bool" where
  "trace_apart env \<longleftrightarrow> (\<forall>c k v. (k, v) \<in> set (meInject env c) \<longrightarrow> CanonicalHeaderKey k \<notin> set described_by)"

lemma described_by_canonical: "map CanonicalHeaderKey described_by = described_by"
  by (simp add: described_by_def CanonicalHeaderKey_def is_token_byte_def is_lower_def is_upper_def byte_def)

lemma fst_canonical_headers:
  "map fst (canonical_headers ch) = (if DLQFromSink ch = [] then take 5 described_by else described_by)"
  by (simp add: canonical_headers_def described_by_def)

lemma canonical_header_keys:
  "map (CanonicalHeaderKey \<circ> fst) (canonical_headers ch) = map fst (canonical_headers ch)"
proof -
  have "map CanonicalHeaderKey (map fst (canonical_headers ch)) = map fst (canonical_headers ch)"
    using described_by_canonical by (simp only: fst_canonical_headers take_map [symmetric] split: if_split) simp
  then show ?thesis by simp
qed

lemma hook_headers_describe:
  assumes "trace_apart env" "(k, v) \<in> set (canonical_headers ch)"
  shows "hook_headers env p c ch k = Some [v]"
proof -
  have k: "CanonicalHeaderKey k = k" using canonical_header_keys [of ch] assms(2)
    by (metis comp_apply fst_conv map_eq_conv)
  have "k \<in> set described_by" using assms(2) fst_canonical_headers [of ch]
    by (metis fst_conv image_eqI in_set_takeD list.set_map)
  with assms(1) have "k \<notin> (CanonicalHeaderKey \<circ> fst) ` set (meInject env c)" unfolding trace_apart_def by fastforce
  moreover have "distinct (map (CanonicalHeaderKey \<circ> fst) (canonical_headers ch))"
    unfolding canonical_header_keys fst_canonical_headers by (simp add: described_by_def)
  ultimately show ?thesis
    using set_headers_distinct assms(2) k
    unfolding hook_headers_def set_headers_append by (metis set_headers_other)
qed

definition hook_carries :: "message_env \<Rightarrow> change \<Rightarrow> hook_request \<Rightarrow> bool" where
  "hook_carries env ch req \<longleftrightarrow>
     change_json env ch = Inr (hrBody req) \<and> (\<forall>k v. (k, v) \<in> set (canonical_headers ch) \<longrightarrow> hrHeader req k = Some [v])"

text \<open>The exchange with a server: it has seen the request when it answers, and may have when the exchange fails.\<close>

definition exchange_ok :: "(ctx \<Rightarrow> hook_request \<Rightarrow> 's \<Rightarrow> int result \<times> 's) \<Rightarrow> ('s \<Rightarrow> hook_request list) \<Rightarrow> bool" where
  "exchange_ok f seen \<longleftrightarrow>
     (\<forall>c req s r s'. f c req s = (r, s') \<longrightarrow> seen s' = seen s @ [req] \<or> isl r \<and> seen s' = seen s)"

lemma exchange_okD:
  assumes "exchange_ok f seen" "f c req s = (r, s')"
  shows "seen s' = seen s @ [req] \<or> isl r \<and> seen s' = seen s"
  using assms unfolding exchange_ok_def by blast

lemma client_Do_cases:
  assumes "exchange_ok (hcRoundTrip cl) seen" "exchange_ok (hcHTTP3 cl) seen" "client_Do cl p kvs c req s = (r, s')"
  shows "seen s' = seen s @ [req] \<or> isl r \<and> seen s' = seen s"
  using assms(3) exchange_okD [OF assms(1)] exchange_okD [OF assms(2)]
  by (auto simp: client_Do_def split: if_splits option.splits)

lemma http_message_sink:
  assumes "exchange_ok (hcRoundTrip cl) seen" "exchange_ok (hcHTTP3 cl) seen" "trace_apart env"
  shows "message_sink (http_Publish rt env parse cl p) seen (hook_carries env)"
proof
  fix c ch s s' e
  have carries: "hook_carries env ch (hook_request_of env p c ch body)" if "change_json env ch = Inr body" for body
    using that hook_headers_describe [OF assms(3)] by (simp add: hook_carries_def hook_request_of_def)
  note step = client_Do_cases [OF assms(1,2)]
  show "\<exists>m. seen s' = seen s @ [m] \<and> hook_carries env ch m" if "http_Publish rt env parse cl p c ch s = (None, s')"
    using that carries
    by (auto simp: http_Publish_def dest!: step split: sum.splits prod.splits if_splits)
  show "seen s' = seen s \<or> (\<exists>m. seen s' = seen s @ [m] \<and> hook_carries env ch m)"
    if "http_Publish rt env parse cl p c ch s = (Some e, s')"
    using that carries
    by (auto simp: http_Publish_def dest!: step split: sum.splits prod.splits if_splits)
qed

text \<open>A value that the transport refuses is refused at every attempt, before anything is sent.\<close>

lemma invalid_header_value:
  assumes "k \<in> fst ` set kvs" "h (CanonicalHeaderKey k) = Some [v]" "\<not> valid_value v"
  shows "invalid_header kvs h \<noteq> None"
  using assms by (induction kvs h rule: invalid_header.induct) (auto simp: Let_def)

lemma http_Publish_refuses:
  assumes "\<not> hpHTTP3 p" "trace_apart env" "(k, v) \<in> set (canonical_headers ch)" "\<not> valid_value v"
  shows "\<exists>e. http_Publish rt env parse cl p c ch s = (Some e, s)"
proof -
  let ?kvs = "hpHeaders p @ canonical_headers ch @ meInject env c"
  have "hook_headers env p c ch (CanonicalHeaderKey k) = Some [v]"
    using hook_headers_describe [OF assms(2,3)] canonical_header_keys [of ch] assms(3)
    by (metis comp_apply fst_conv map_eq_conv)
  moreover have "k \<in> fst ` set ?kvs" using assms(3) by force
  ultimately have "invalid_header ?kvs (hook_headers env p c ch) \<noteq> None" using assms(4) invalid_header_value by blast
  then show ?thesis
    using assms(1)
    by (auto simp: http_Publish_def client_Do_def hook_request_of_def split: sum.split option.split)
qed

text \<open>An operation that fails and changes nothing leaves the log alone, however often it is tried.\<close>

lemma do_loop_refused:
  assumes "quiet rt sent" "\<And>s. \<exists>e. fn s = (Some e, s)" "do_loop rt c cfg fn a le s = (r, s')" "a \<le> MaxAttempts cfg"
  shows "sent s' = sent s \<and> Err r \<noteq> None"
proof
  show "sent s' = sent s"
    by (rule do_loop_invariant(1) [OF _ _ _ assms(3), where P = "\<lambda>t. sent t = sent s"])
      (use quietD [OF assms(1)] assms(2) in \<open>metis prod.inject\<close>)+
  show "Err r \<noteq> None"
    using do_loop_fails [of fn a cfg rt c le s] assms(2-4) by (metis fst_conv option.distinct(1))
qed

lemma Deliver_refused:
  assumes "quiet rt sent" "\<And>c s. \<exists>e. publish c ch s = (Some e, s)"
    and pub: "\<And>c ch s. pub (primary r) c ch s = Some (publish c ch s)" and dl: "dlq r = None"
    and run: "Deliver rt senv pub r c0 ch s = Some (res, s')"
  shows "brState res = BranchDropped \<and> sent s' = sent s"
proof -
  define c where "c = (if rpTimeout r > 0 then WithTimeout rt c0 (rpTimeout r) s else c0)"
  obtain rr s1 where d: "Do rt c (rpCfg r) (publish c ch) s = (rr, s1)" by fastforce
  have "pub (primary r) c ch = (\<lambda>s. Some (publish c ch s))" using pub by (simp add: fun_eq_iff)
  with d DoOpt_total [of rt c "rpCfg r" "publish c ch" s]
  have do: "DoOpt rt c (rpCfg r) (pub (primary r) c ch) s = Some (rr, s1)" by simp
  have "sent s1 = sent s \<and> Err rr \<noteq> None"
    by (rule do_loop_refused [OF assms(1) _ d [unfolded Do_def]]) (use assms(2) in auto)
  then show ?thesis using dl run do by (auto simp: Deliver_def Let_def c_def [symmetric])
qed


subsection \<open>gRPC\<close>

text \<open>\<open>dial\<close> is \<^verbatim>\<open>grpc.NewClient\<close>, given the target, the authority and the credentials.\<close>

record 'c grpc_publisher =
  gpName :: string
  gpConn :: 'c
  gpTimeout :: duration
  gpMetadata :: "(string \<times> string) list"

definition grpc_New ::
    "tls_env \<Rightarrow> (string \<Rightarrow> string \<Rightarrow> tls_config option \<Rightarrow> 'c result) \<Rightarrow> string \<Rightarrow> string \<Rightarrow> string \<Rightarrow> duration \<Rightarrow> (string \<times> string) list \<Rightarrow>
     tls_options option \<Rightarrow> 'c grpc_publisher result" where
  "grpc_New te dial name target authority timeout meta tls =
     (if TrimSpace name = [] then Inl (Errorf ''grpc sink: name is required'' [])
      else if TrimSpace target = [] then Inl (Errorf ''grpc sink %q: target is required'' [FStr name])
      else case opt_tls (grpc_buildTLSConfig te) tls of
        Inl err \<Rightarrow> Inl (Errorf ''grpc sink %q: tls: %w'' [FStr name, FWrap err])
      | Inr tc0 \<Rightarrow>
          let tc = map_option (\<lambda>t. if tcServerName t = [] \<and> authority \<noteq> [] then t\<lparr>tcServerName := authority\<rparr> else t) tc0
          in case dial target authority tc of
               Inl err \<Rightarrow> Inl (Errorf ''grpc sink %q: dial %q: %w'' [FStr name, FStr target, FWrap err])
             | Inr conn \<Rightarrow> Inr \<lparr>gpName = name, gpConn = conn, gpTimeout = timeout, gpMetadata = meta\<rparr>)"

definition grpc_Close :: "('c \<Rightarrow> 's \<Rightarrow> go_error option \<times> 's) \<Rightarrow> 'c grpc_publisher \<Rightarrow> 's \<Rightarrow> go_error option \<times> 's" where
  "grpc_Close close p s = close (gpConn p) s"

definition toProto :: "change \<Rightarrow> proto_change" where
  "toProto ch = toProtoChange (if SchemaVersion ch = 0 then ch\<lparr>SchemaVersion := SchemaVersionConst\<rparr> else ch)"

record grpc_request =
  grMetadata :: "(string \<times> string) list"
  grChange :: proto_change

definition grpc_metadata :: "change \<Rightarrow> (string \<times> string) list" where
  "grpc_metadata ch =
     [(''rss2msg-schema-version'', itoa (SchemaVersion ch)), (''rss2msg-feed-url'', FeedURL ch),
      (''rss2msg-item-id'', ItemID ch), (''rss2msg-kind'', kind_text (Kind ch))] @
     (if DLQFromSink ch \<noteq> [] then
        [(''rss2msg-dlq-from-sink'', DLQFromSink ch), (''rss2msg-dlq-error'', DLQError ch),
         (''rss2msg-dlq-attempts'', itoa (DLQAttempts ch))]
      else [])"

definition grpc_request_of :: "'c grpc_publisher \<Rightarrow> change \<Rightarrow> grpc_request" where
  "grpc_request_of p ch = \<lparr>grMetadata = gpMetadata p @ grpc_metadata ch, grChange = toProto ch\<rparr>"

text \<open>\<open>call\<close> is the client stub of the service; an acknowledgement has \<^verbatim>\<open>accepted\<close> and \<^verbatim>\<open>error\<close>.\<close>

definition grpc_Publish ::
    "'s runtime \<Rightarrow> (ctx \<Rightarrow> grpc_request \<Rightarrow> 's \<Rightarrow> (bool \<times> string) option result \<times> 's) \<Rightarrow> 'c grpc_publisher \<Rightarrow> ctx \<Rightarrow> change \<Rightarrow> 's \<Rightarrow>
     go_error option \<times> 's" where
  "grpc_Publish rt call p c0 ch s =
     (let c = (if gpTimeout p > 0 then WithTimeout rt c0 (gpTimeout p) s else c0)
      in case call c (grpc_request_of p ch) s of
           (Inl err, s1) \<Rightarrow> (Some (Errorf ''grpc sink %q: publish: %w'' [FStr (gpName p), FWrap err]), s1)
         | (Inr None, s1) \<Rightarrow> (None, s1)
         | (Inr (Some (True, _)), s1) \<Rightarrow> (None, s1)
         | (Inr (Some (False, msg)), s1) \<Rightarrow>
             if msg \<noteq> [] then (Some (Errorf ''grpc sink %q: server rejected change: %s'' [FStr (gpName p), FStr msg]), s1)
             else (Some (Errorf ''grpc sink %q: server rejected change'' [FStr (gpName p)]), s1))"

text \<open>What the server finds under a key: every value, in the order they were appended.  The configured value
  of a colliding key comes first, so a server that reads the first value of a key reads the operator's.\<close>

definition metadata_Get :: "(string \<times> string) list \<Rightarrow> string \<Rightarrow> string list" where
  "metadata_Get kvs k = map snd (filter (\<lambda>kv. ToLower (fst kv) = ToLower k) kvs)"

lemma metadata_Get_append: "metadata_Get (xs @ ys) k = metadata_Get xs k @ metadata_Get ys k"
  by (simp add: metadata_Get_def)

lemma ToLower_lower:
  assumes "list_all (\<lambda>c. byte c < 65 \<or> 90 < byte c \<and> byte c < 128) s"
  shows "ToLower s = s"
  using assms
proof (induction s)
  case (Cons c s)
  then have "extra_len c s = 0" by (auto simp: extra_len_def seq_len_def)
  with Cons show ?case by (auto simp: ToLower_def lower_rune_def)
qed (simp add: ToLower_def)

lemma grpc_keys:
  "map (ToLower \<circ> fst) (grpc_metadata ch) = map fst (grpc_metadata ch)" "distinct (map fst (grpc_metadata ch))"
  by (auto simp: grpc_metadata_def ToLower_lower byte_def)

lemma filter_key:
  assumes "distinct (map fst kvs)" "(k, v) \<in> set kvs"
  shows "filter (\<lambda>kv. fst kv = k) kvs = [(k, v)]"
  using assms by (induction kvs) (auto simp: filter_empty_conv image_iff)

lemma metadata_Get_canonical:
  assumes "(k, v) \<in> set (grpc_metadata ch)"
  shows "metadata_Get (grpc_metadata ch) k = [v]"
proof -
  have low: "ToLower (fst kv) = fst kv" if "kv \<in> set (grpc_metadata ch)" for kv
    using grpc_keys(1) [of ch] that by (simp add: map_eq_conv)
  then have "filter (\<lambda>kv. ToLower (fst kv) = ToLower k) (grpc_metadata ch) = filter (\<lambda>kv. fst kv = k) (grpc_metadata ch)"
    using assms by (intro filter_cong) force+
  with filter_key [OF grpc_keys(2) assms] show ?thesis by (simp add: metadata_Get_def)
qed

text \<open>The gRPC sink appends the metadata that describe a change to the configured ones: under each of its
  keys the server finds the configured values of that key first and the value of the change last, so a
  configured key is not replaced.\<close>

theorem grpc_metadata_order:
  assumes "(k, v) \<in> set (grpc_metadata ch)"
  shows "metadata_Get (grMetadata (grpc_request_of p ch)) k = metadata_Get (gpMetadata p) k @ [v]"
  using metadata_Get_canonical [OF assms] by (simp add: grpc_request_of_def metadata_Get_append)

definition grpc_carries :: "change \<Rightarrow> grpc_request \<Rightarrow> bool" where
  "grpc_carries ch req \<longleftrightarrow>
     grChange req = toProto ch \<and>
     (\<forall>k v. (k, v) \<in> set (grpc_metadata ch) \<longrightarrow> (\<exists>vs. metadata_Get (grMetadata req) k = vs @ [v]))"

definition call_ok ::
    "(ctx \<Rightarrow> grpc_request \<Rightarrow> 's \<Rightarrow> (bool \<times> string) option result \<times> 's) \<Rightarrow> ('s \<Rightarrow> grpc_request list) \<Rightarrow> bool" where
  "call_ok call seen \<longleftrightarrow>
     (\<forall>c req s r s'. call c req s = (r, s') \<longrightarrow> seen s' = seen s @ [req] \<or> isl r \<and> seen s' = seen s)"

lemma call_okD:
  assumes "call_ok call seen" "call c req s = (r, s')"
  shows "seen s' = seen s @ [req] \<or> isl r \<and> seen s' = seen s"
  using assms unfolding call_ok_def by blast

lemma grpc_request_carries: "grpc_carries ch (grpc_request_of p ch)"
  using metadata_Get_canonical
  by (auto simp: grpc_carries_def grpc_request_of_def metadata_Get_append)

lemma grpc_Publish_cases:
  assumes "call_ok call seen" "grpc_Publish rt call p c ch s = (r, s')"
  shows "seen s' = seen s @ [grpc_request_of p ch] \<or> r \<noteq> None \<and> seen s' = seen s"
  using assms(2) call_okD [OF assms(1)]
  by (fastforce simp: grpc_Publish_def Let_def split: prod.splits sum.splits option.splits bool.splits if_splits)

lemma grpc_message_sink:
  assumes "call_ok call seen"
  shows "message_sink (grpc_Publish rt call p) seen grpc_carries"
  using grpc_Publish_cases [OF assms] grpc_request_carries by unfold_locales blast+

text \<open>A stub that refuses metadata outside the printable ASCII characters, as the protocol of gRPC demands, never
  sends a change whose item id or feed URL has another character.\<close>

definition printable :: "string \<Rightarrow> bool" where
  "printable v \<longleftrightarrow> list_all (\<lambda>b. 32 \<le> byte b \<and> byte b \<le> 126) v"

definition checks_metadata :: "(ctx \<Rightarrow> grpc_request \<Rightarrow> 's \<Rightarrow> (bool \<times> string) option result \<times> 's) \<Rightarrow> bool" where
  "checks_metadata call \<longleftrightarrow>
     (\<forall>c req s k v. (k, v) \<in> set (grMetadata req) \<longrightarrow> \<not> printable v \<longrightarrow> (\<exists>e. call c req s = (Inl e, s)))"

lemma grpc_Publish_refuses:
  assumes "checks_metadata call" "(k, v) \<in> set (grpc_metadata ch)" "\<not> printable v"
  shows "\<exists>e. grpc_Publish rt call p c ch s = (Some e, s)"
proof -
  let ?c = "if gpTimeout p > 0 then WithTimeout rt c (gpTimeout p) s else c"
  have "(k, v) \<in> set (grMetadata (grpc_request_of p ch))" using assms(2) by (simp add: grpc_request_of_def)
  with assms(1,3) obtain e where "call ?c (grpc_request_of p ch) s = (Inl e, s)" unfolding checks_metadata_def by blast
  then show ?thesis by (simp add: grpc_Publish_def Let_def)
qed

lemma grpc_unsendable:
  assumes "quiet rt seen" "checks_metadata call" "(k, v) \<in> set (grpc_metadata ch)" "\<not> printable v"
    and "\<And>c ch s. pub (primary r) c ch s = Some (grpc_Publish rt call p c ch s)" "dlq r = None"
    and "Deliver rt senv pub r c0 ch s = Some (res, s')"
  shows "brState res = BranchDropped \<and> seen s' = seen s"
  by (rule Deliver_refused [OF assms(1) grpc_Publish_refuses [OF assms(2-4)] assms(5-7)])

subsection \<open>Standard output\<close>

text \<open>A publisher writes one record per call to a stream of the process; the mutex makes a write one step.  A
  stream may refuse (a closed pipe), and then has taken nothing.\<close>

datatype std_target = StdOut | StdErr

record out_stream =
  osWrites :: "string list"
  osError :: "go_error option"

record std_streams =
  ssOut :: out_stream
  ssErr :: out_stream

record stdout_publisher =
  spName :: string
  spW :: std_target
  spPretty :: bool

definition NewForWriter :: "string \<Rightarrow> std_target \<Rightarrow> bool \<Rightarrow> stdout_publisher" where
  "NewForWriter name w pretty = \<lparr>spName = name, spW = w, spPretty = pretty\<rparr>"

definition stdout_New :: "string \<Rightarrow> string \<Rightarrow> string \<Rightarrow> stdout_publisher result" where
  "stdout_New name target format =
     (if name = [] then Inl (Errorf ''stdout sink: name is required'' [])
      else if target \<notin> {[], ''stdout'', ''stderr''}
      then Inl (Errorf ''stdout sink %q: unknown target %q (want stdout or stderr)'' [FStr name, FStr target])
      else if format \<notin> {[], ''json'', ''pretty''}
      then Inl (Errorf ''stdout sink %q: unknown format %q (want json or pretty)'' [FStr name, FStr format])
      else Inr \<lparr>spName = name, spW = (if target = ''stderr'' then StdErr else StdOut), spPretty = (format = ''pretty'')\<rparr>)"

definition stream_of :: "std_target \<Rightarrow> std_streams \<Rightarrow> out_stream" where
  "stream_of w s = (case w of StdOut \<Rightarrow> ssOut s | StdErr \<Rightarrow> ssErr s)"

definition file_Write :: "std_target \<Rightarrow> string \<Rightarrow> std_streams \<Rightarrow> go_error option \<times> std_streams" where
  "file_Write w b s =
     (case osError (stream_of w s) of
        Some e \<Rightarrow> (Some e, s)
      | None \<Rightarrow>
          let st = (stream_of w s)\<lparr>osWrites := osWrites (stream_of w s) @ [b]\<rparr>
          in (None, (case w of StdOut \<Rightarrow> s\<lparr>ssOut := st\<rparr> | StdErr \<Rightarrow> s\<lparr>ssErr := st\<rparr>)))"

definition stdout_body :: "message_env \<Rightarrow> (change \<Rightarrow> string result) \<Rightarrow> stdout_publisher \<Rightarrow> change \<Rightarrow> string result" where
  "stdout_body env indent p ch = (if spPretty p then MarshalJSON indent ch else change_json env ch)"

definition stdout_Publish ::
    "message_env \<Rightarrow> (change \<Rightarrow> string result) \<Rightarrow> stdout_publisher \<Rightarrow> ctx \<Rightarrow> change \<Rightarrow> std_streams \<Rightarrow> go_error option \<times> std_streams" where
  "stdout_Publish env indent p c ch s =
     (case stdout_body env indent p ch of
        Inl err \<Rightarrow> (Some (Errorf ''stdout sink %q: marshal: %w'' [FStr (spName p), FWrap err]), s)
      | Inr body \<Rightarrow>
          (case file_Write (spW p) (body @ [CHR 0x0A]) s of
             (Some err, s1) \<Rightarrow> (Some (Errorf ''stdout sink %q: write: %w'' [FStr (spName p), FWrap err]), s1)
           | (None, s1) \<Rightarrow> (None, s1)))"

definition stdout_carries :: "message_env \<Rightarrow> (change \<Rightarrow> string result) \<Rightarrow> stdout_publisher \<Rightarrow> change \<Rightarrow> string \<Rightarrow> bool" where
  "stdout_carries env indent p ch m \<longleftrightarrow> (\<exists>body. stdout_body env indent p ch = Inr body \<and> m = body @ [CHR 0x0A])"

lemma stdout_Publish_cases:
  assumes "stdout_Publish env indent p c ch s = (r, s')"
  obtains (fails) "r \<noteq> None" "s' = s"
  | (writes) body where "r = None" "stdout_body env indent p ch = Inr body"
      "osWrites (stream_of (spW p) s') = osWrites (stream_of (spW p) s) @ [body @ [CHR 0x0A]]"
      "\<And>w. w \<noteq> spW p \<Longrightarrow> stream_of w s' = stream_of w s"
proof (cases "stdout_body env indent p ch")
  case (Inl e)
  with assms fails show ?thesis by (auto simp: stdout_Publish_def)
next
  case (Inr body)
  show ?thesis
  proof (cases "osError (stream_of (spW p) s)")
    case None
    with assms Inr show ?thesis
      by (intro writes [OF _ Inr]; cases "spW p")
        (auto simp: stdout_Publish_def file_Write_def stream_of_def Let_def split: std_target.splits)
  next
    case (Some e)
    with assms Inr fails show ?thesis by (auto simp: stdout_Publish_def file_Write_def)
  qed
qed

interpretation stdout: message_sink
  "stdout_Publish env indent p" "\<lambda>s. osWrites (stream_of (spW p) s)" "stdout_carries env indent p"
  for env indent p
  by unfold_locales (auto simp: stdout_carries_def elim!: stdout_Publish_cases)

interpretation stdio: dead_lettered_sink
  "stdout_Publish env indent (NewForWriter n StdOut f)" "\<lambda>s. osWrites (stream_of StdOut s)"
  "stdout_carries env indent (NewForWriter n StdOut f)"
  "stdout_Publish env indent (NewForWriter m StdErr g)" "\<lambda>s. osWrites (stream_of StdErr s)"
  "stdout_carries env indent (NewForWriter m StdErr g)"
  for env indent n f m g
  by (unfold_locales; auto simp: NewForWriter_def stdout_carries_def elim!: stdout_Publish_cases)

end
