(* ===== verification/Sinks_Store.thy ===== *)
theory Sinks_Store
  imports Sink_Message Pg_Pool Cosmos_SDK Feed_Store
begin

section \<open>Sinks that store changes\<close>

text \<open>
  \<^verbatim>\<open>internal/sink/postgres\<close>, \<^verbatim>\<open>internal/sink/dynamodb\<close> and \<^verbatim>\<open>internal/sink/cosmosdb\<close>: a change becomes a row.  The
  contract \<open>store_sink\<close> says under which key and over what: a publish that succeeds has put its row once, one
  that fails has put it or not, and putting it again changes nothing.  So retries leave what one publish
  leaves.  The three differ in what a second change of the same item does: PostgreSQL keeps both (the time of
  detection is in the key), DynamoDB the last, Cosmos DB the first.
\<close>

subsection \<open>The contract\<close>

locale store_sink =
  fixes publish :: "ctx \<Rightarrow> change \<Rightarrow> 's \<Rightarrow> go_error option \<times> 's"
    and rows :: "'s \<Rightarrow> 'k \<Rightarrow> 'v option"
    and key :: "change \<Rightarrow> 'k"
    and put :: "change \<Rightarrow> 'v option \<Rightarrow> 'v option"
  assumes stored: "publish c ch s = (None, s') \<Longrightarrow> rows s' = (rows s)(key ch := put ch (rows s (key ch)))"
    and unsure: "publish c ch s = (Some e, s') \<Longrightarrow>
      rows s' = rows s \<or> rows s' = (rows s)(key ch := put ch (rows s (key ch)))"
    and again: "put ch (put ch v) = put ch v"
begin

definition effect :: "change \<Rightarrow> 's \<Rightarrow> 'k \<Rightarrow> 'v option" where
  "effect ch s = (rows s)(key ch := put ch (rows s (key ch)))"

lemma publish_effect:
  assumes "publish c ch t = (r, t')" "rows t = rows s \<or> rows t = effect ch s"
  shows "rows t' = rows s \<or> rows t' = effect ch s" and "r = None \<Longrightarrow> rows t' = effect ch s"
proof -
  have twice: "(rows t)(key ch := put ch (rows t (key ch))) = effect ch s"
    using assms(2) by (auto simp: effect_def again)
  show "r = None \<Longrightarrow> rows t' = effect ch s" using assms(1) stored twice by auto
  show "rows t' = rows s \<or> rows t' = effect ch s"
  proof (cases r)
    case None
    with assms(1) stored twice show ?thesis by auto
  next
    case (Some e)
    with assms(1) have "publish c ch t = (Some e, t')" by simp
    from unsure [OF this] assms(2) twice show ?thesis by metis
  qed
qed

text \<open>Any number of attempts has the effect of one, or none; a delivery that succeeds has it.\<close>

lemma Do_effect:
  assumes "quiet rt rows" "Do rt c cfg (publish c' ch) s = (r, s')"
  shows "rows s' = rows s \<or> rows s' = effect ch s" and "Err r = None \<Longrightarrow> rows s' = effect ch s"
    and "Err r = None \<Longrightarrow> \<exists>s0. publish c' ch s0 = (None, s')"
proof -
  let ?P = "\<lambda>t. rows t = rows s \<or> rows t = effect ch s"
  note run = assms(2) [unfolded Do_def]
  have fn: "?P t'" if "?P t" "publish c' ch t = (e, t')" for t e t' using publish_effect(1) that by blast
  have w: "?P t'" if "?P t" "ctx_wait rt x d t = (b, t')" for t x d b t'
    using that quietD(1) [OF assms(1) that(2)] by simp
  have d: "?P t'" if "?P t" "delayFor rt x n t = (b, t')" for t x n b t'
    using that quietD(2) [OF assms(1) that(2)] by simp
  show "?P s'" by (rule do_loop_invariant(1) [OF _ _ _ run, where P = ?P]) (erule (1) fn w d | simp)+
  have last: "\<exists>s0. ?P s0 \<and> publish c' ch s0 = (None, s')" if "Err r = None"
    by (rule do_loop_invariant(2) [OF _ _ _ run, where P = ?P]) (erule (1) fn w d | simp add: that)+
  then show "Err r = None \<Longrightarrow> rows s' = effect ch s" using publish_effect(2) by blast
  show "Err r = None \<Longrightarrow> \<exists>s0. publish c' ch s0 = (None, s')" using last by blast
qed

end

subsection \<open>A database\<close>

text \<open>Rows by key, and the outcomes of the statements to come: carried out, refused, or carried out with the
  answer lost.\<close>

record ('k, 'v) table_db =
  tdRows :: "'k \<Rightarrow> 'v option"
  tdOutcomes :: "stmt_outcome list"

definition db_exec :: "(('k \<Rightarrow> 'v option) \<Rightarrow> 'k \<Rightarrow> 'v option) \<Rightarrow> ('k, 'v) table_db \<Rightarrow> go_error option \<times> ('k, 'v) table_db" where
  "db_exec eff d =
     (case tdOutcomes d of
        [] \<Rightarrow> (None, d\<lparr>tdRows := eff (tdRows d)\<rparr>)
      | oc # ocs \<Rightarrow> run_stmt oc (\<lambda>d. d\<lparr>tdRows := eff (tdRows d)\<rparr>) (d\<lparr>tdOutcomes := ocs\<rparr>))"

lemma db_exec_cases:
  assumes "db_exec eff d = (r, d')"
  obtains "tdRows d' = eff (tdRows d)" | "r \<noteq> None" "tdRows d' = tdRows d"
  using assms by (auto simp: db_exec_def run_stmt_def split: list.splits stmt_outcome.splits if_splits)

subsection \<open>PostgreSQL\<close>

record 'p pg_publisher =
  ppName :: string
  ppPool :: 'p
  ppTable :: string

definition pg_sink_defaultTable :: string where
  "pg_sink_defaultTable = ''feed_changes''"

definition pg_sink_validIdentifier :: "string \<Rightarrow> bool" where
  "pg_sink_validIdentifier s = (if s = [] \<or> length s > 63 then False else id_runes 0 (runes s))"

text \<open>The statement up to white space.\<close>

definition pg_sink_migrate :: "('p, 's) pgx \<Rightarrow> ctx \<Rightarrow> 'p \<Rightarrow> string \<Rightarrow> 's \<Rightarrow> go_error option \<times> 's" where
  "pg_sink_migrate px c pool table s =
     pxExec px c pool
       (''CREATE TABLE IF NOT EXISTS '' @ table @
        '' ( feed_url TEXT NOT NULL, item_id TEXT NOT NULL, kind TEXT NOT NULL, payload JSONB NOT NULL,'' @
        '' detected_at TIMESTAMPTZ NOT NULL, PRIMARY KEY (feed_url, item_id, detected_at) );'') s"

definition pg_sink_New ::
    "('p, 's) pgx \<Rightarrow> tls_env \<Rightarrow> ctx \<Rightarrow> string \<Rightarrow> string \<Rightarrow> string \<Rightarrow> tls_options option \<Rightarrow> 's \<Rightarrow> 'p pg_publisher result \<times> 's" where
  "pg_sink_New px te c name dsn table0 tls s =
     (if name = [] then (Inl (Errorf ''postgres sink: name is required'' []), s)
      else if dsn = [] then (Inl (Errorf ''postgres sink %q: dsn is required'' [FStr name]), s)
      else
        let table = (if table0 = [] then pg_sink_defaultTable else table0) in
        if \<not> pg_sink_validIdentifier table
        then (Inl (Errorf ''postgres sink %q: invalid table name %q'' [FStr name, FStr table]), s)
        else case pxParseConfig px dsn of
          Inl err \<Rightarrow> (Inl (Errorf ''postgres sink %q: parse dsn: %w'' [FStr name, FWrap err]), s)
        | Inr cfg0 \<Rightarrow>
            (case (case tls of
                     None \<Rightarrow> Inr cfg0
                   | Some t \<Rightarrow>
                       (case pg_sink_buildTLSConfig te t (pxHost cfg0) of
                          Inl err \<Rightarrow> Inl (Errorf ''postgres sink %q: build TLS config: %w'' [FStr name, FWrap err])
                        | Inr tc \<Rightarrow> Inr (force_tls cfg0 tc))) of
               Inl err \<Rightarrow> (Inl err, s)
             | Inr cfg \<Rightarrow>
                 (case pxNewWithConfig px c cfg s of
                    (Inl err, s1) \<Rightarrow> (Inl (Errorf ''postgres sink %q: pgxpool: %w'' [FStr name, FWrap err]), s1)
                  | (Inr pool, s1) \<Rightarrow>
                      (case pg_sink_migrate px c pool table s1 of
                         (Some err, s2) \<Rightarrow> (Inl err, pxClose px pool s2)
                       | (None, s2) \<Rightarrow> (Inr \<lparr>ppName = name, ppPool = pool, ppTable = table\<rparr>, s2)))))"

definition pg_sink_Close :: "('p, 's) pgx \<Rightarrow> 'p pg_publisher \<Rightarrow> 's \<Rightarrow> go_error option \<times> 's" where
  "pg_sink_Close px p s = (None, pxClose px (ppPool p) s)"

type_synonym pg_row_key = "string \<times> string \<times> string \<times> int"
type_synonym pg_row = "string \<times> string"

definition pg_row_key :: "'p pg_publisher \<Rightarrow> change \<Rightarrow> pg_row_key" where
  "pg_row_key p ch = (ppTable p, FeedURL ch, ItemID ch, pg_time (DetectedAt ch))"

definition insert_or_nothing :: "'k \<Rightarrow> 'v \<Rightarrow> ('k \<Rightarrow> 'v option) \<Rightarrow> 'k \<Rightarrow> 'v option" where
  "insert_or_nothing k v rows = (if rows k = None then rows(k \<mapsto> v) else rows)"

definition pg_sink_Publish ::
    "message_env \<Rightarrow> 'p pg_publisher \<Rightarrow> ctx \<Rightarrow> change \<Rightarrow> (pg_row_key, pg_row) table_db \<Rightarrow>
     go_error option \<times> (pg_row_key, pg_row) table_db" where
  "pg_sink_Publish env p c ch d =
     (case change_json env ch of
        Inl err \<Rightarrow> (Some (Errorf ''postgres sink %q: marshal: %w'' [FStr (ppName p), FWrap err]), d)
      | Inr payload \<Rightarrow> db_exec (insert_or_nothing (pg_row_key p ch) (kind_text (Kind ch), payload)) d)"

definition pg_put :: "message_env \<Rightarrow> change \<Rightarrow> pg_row option \<Rightarrow> pg_row option" where
  "pg_put env ch v =
     (case (v, change_json env ch) of
        (Some r, _) \<Rightarrow> Some r
      | (None, Inr payload) \<Rightarrow> Some (kind_text (Kind ch), payload)
      | (None, Inl _) \<Rightarrow> None)"

lemma insert_or_nothing_put:
  "insert_or_nothing k v rows = rows(k := (case rows k of Some r \<Rightarrow> Some r | None \<Rightarrow> Some v))"
  by (auto simp: insert_or_nothing_def split: option.split)

interpretation pg_sink: store_sink "pg_sink_Publish env p" tdRows "pg_row_key p" "pg_put env"
  for env p
proof
  fix c ch s s' e v
  show "tdRows s' = (tdRows s)(pg_row_key p ch := pg_put env ch (tdRows s (pg_row_key p ch)))"
    if "pg_sink_Publish env p c ch s = (None, s')"
    using that
    by (auto simp: pg_sink_Publish_def pg_put_def insert_or_nothing_put elim!: db_exec_cases
        split: sum.splits option.splits)
  show "tdRows s' = tdRows s \<or> tdRows s' = (tdRows s)(pg_row_key p ch := pg_put env ch (tdRows s (pg_row_key p ch)))"
    if "pg_sink_Publish env p c ch s = (Some e, s')"
    using that
    by (auto simp: pg_sink_Publish_def pg_put_def insert_or_nothing_put elim!: db_exec_cases
        split: sum.splits option.splits)
  show "pg_put env ch (pg_put env ch v) = pg_put env ch v"
    by (auto simp: pg_put_def split: option.split sum.split)
qed

text \<open>A constructor that fails leaves no pool open.\<close>

lemma pg_sink_no_leak:
  assumes "counts_pools n px" "pg_sink_New px te c name dsn table tls s = (r, s')"
  shows "n s' = (if isl r then n s else n s + 1)"
  using assms(2)
  by (auto simp: pg_sink_New_def pg_sink_migrate_def Let_def counts_poolsD [OF assms(1)]
      split: if_splits sum.splits option.splits prod.splits dest: counts_poolsD(1-3) [OF assms(1)])

subsection \<open>DynamoDB\<close>

datatype attribute = AttrS string | AttrN string | AttrBool bool | AttrNull | AttrL "attribute list" | AttrM "(string \<times> attribute) list"

record dynamo_publisher =
  dbpName :: string
  dbpRegion :: string
  dbpEndpoint :: string
  dbpTable :: string
  dbpPartitionKey :: string
  dbpSortKey :: string
  dbpTTLAttribute :: string
  dbpItemTTL :: duration

definition dynamo_DefaultPartitionKey :: string where "dynamo_DefaultPartitionKey = ''feed_url''"
definition dynamo_DefaultSortKey :: string where "dynamo_DefaultSortKey = ''item_id''"

text \<open>\<open>load\<close> is \<^verbatim>\<open>LoadDefaultConfig\<close> for a region.\<close>

definition dynamo_sink_New ::
    "(string \<Rightarrow> go_error option) \<Rightarrow> string \<Rightarrow> string \<Rightarrow> string \<Rightarrow> string \<Rightarrow> string \<Rightarrow> string \<Rightarrow> string \<Rightarrow> duration \<Rightarrow>
     dynamo_publisher result" where
  "dynamo_sink_New load name table region endpointURL partitionKey sortKey ttlAttribute itemTTL =
     (if name = [] then Inl (Errorf ''dynamodb sink: name is required'' [])
      else if table = [] then Inl (Errorf ''dynamodb sink %q: table is required'' [FStr name])
      else if ttlAttribute = [] \<and> itemTTL \<noteq> 0
      then Inl (Errorf ''dynamodb sink %q: item_ttl set but ttl_attribute is empty'' [FStr name])
      else case load region of
        Some err \<Rightarrow> Inl (Errorf ''dynamodb sink %q: load aws config: %w'' [FStr name, FWrap err])
      | None \<Rightarrow>
          Inr \<lparr>dbpName = name, dbpRegion = region, dbpEndpoint = endpointURL, dbpTable = table,
               dbpPartitionKey = (if partitionKey = [] then dynamo_DefaultPartitionKey else partitionKey),
               dbpSortKey = (if sortKey = [] then dynamo_DefaultSortKey else sortKey),
               dbpTTLAttribute = ttlAttribute, dbpItemTTL = itemTTL\<rparr>)"

text \<open>\<open>attrs\<close> decodes the text of a change into a generic map and marshals that to attribute values.\<close>

definition Unix_seconds :: "time \<Rightarrow> int" where
  "Unix_seconds t = t div second - 62135596800"

definition item_overlay :: "dynamo_publisher \<Rightarrow> change \<Rightarrow> (string \<Rightarrow> attribute option) \<Rightarrow> string \<Rightarrow> attribute option" where
  "item_overlay p ch m =
     (let m1 = m(dbpPartitionKey p \<mapsto> AttrS (FeedURL ch)); m2 = m1(dbpSortKey p \<mapsto> AttrS (ItemID ch))
      in if dbpTTLAttribute p \<noteq> []
         then m2(dbpTTLAttribute p \<mapsto> AttrN (itoa (Unix_seconds (DetectedAt ch + dbpItemTTL p)))) else m2)"

definition dynamo_item ::
    "message_env \<Rightarrow> (string \<Rightarrow> (string \<times> attribute) list result) \<Rightarrow> dynamo_publisher \<Rightarrow> change \<Rightarrow>
     (string \<Rightarrow> attribute option) result" where
  "dynamo_item env attrs p ch =
     (case change_json env ch of
        Inl err \<Rightarrow> Inl err
      | Inr raw \<Rightarrow> (case attrs raw of Inl err \<Rightarrow> Inl err | Inr m \<Rightarrow> Inr (item_overlay p ch (map_of m))))"

text \<open>The key is what the item has under the key attributes.\<close>

type_synonym dynamo_row_key = "string \<times> attribute option \<times> attribute option"
type_synonym dynamo_row = "string \<Rightarrow> attribute option"

definition dynamo_row_key :: "dynamo_publisher \<Rightarrow> (string \<Rightarrow> attribute option) \<Rightarrow> dynamo_row_key" where
  "dynamo_row_key p m = (dbpTable p, m (dbpPartitionKey p), m (dbpSortKey p))"

definition dynamo_sink_Publish ::
    "message_env \<Rightarrow> (string \<Rightarrow> (string \<times> attribute) list result) \<Rightarrow> dynamo_publisher \<Rightarrow> ctx \<Rightarrow> change \<Rightarrow>
     (dynamo_row_key, dynamo_row) table_db \<Rightarrow> go_error option \<times> (dynamo_row_key, dynamo_row) table_db" where
  "dynamo_sink_Publish env attrs p c ch d =
     (case dynamo_item env attrs p ch of
        Inl err \<Rightarrow> (Some (Errorf ''dynamodb sink %q: marshal: %w'' [FStr (dbpName p), FWrap err]), d)
      | Inr m \<Rightarrow>
          (case db_exec (\<lambda>rows. rows(dynamo_row_key p m \<mapsto> m)) d of
             (Some err, d1) \<Rightarrow> (Some (Errorf ''dynamodb sink %q: PutItem: %w'' [FStr (dbpName p), FWrap err]), d1)
           | (None, d1) \<Rightarrow> (None, d1)))"

definition dynamo_key_of :: "dynamo_publisher \<Rightarrow> change \<Rightarrow> dynamo_row_key" where
  "dynamo_key_of p ch = dynamo_row_key p (item_overlay p ch (\<lambda>_. None))"

definition dynamo_put ::
    "message_env \<Rightarrow> (string \<Rightarrow> (string \<times> attribute) list result) \<Rightarrow> dynamo_publisher \<Rightarrow> change \<Rightarrow> dynamo_row option \<Rightarrow>
     dynamo_row option" where
  "dynamo_put env attrs p ch v = (case dynamo_item env attrs p ch of Inr m \<Rightarrow> Some m | Inl _ \<Rightarrow> v)"

lemma dynamo_item_key:
  assumes "dynamo_item env attrs p ch = Inr m"
  shows "dynamo_row_key p m = dynamo_key_of p ch"
  using assms
  by (auto simp: dynamo_item_def dynamo_key_of_def dynamo_row_key_def item_overlay_def Let_def split: sum.splits)

text \<open>The rest of the item is the encoded change; the key attributes hold the feed and the item unless a
  configured name is used twice.\<close>

lemma dynamo_item_attributes:
  assumes "dynamo_item env attrs p ch = Inr m" "change_json env ch = Inr raw" "attrs raw = Inr as"
  shows "a \<notin> {dbpPartitionKey p, dbpSortKey p, dbpTTLAttribute p} \<Longrightarrow> m a = map_of as a"
    and "dbpTTLAttribute p \<notin> {dbpPartitionKey p, dbpSortKey p} \<Longrightarrow> m (dbpSortKey p) = Some (AttrS (ItemID ch))"
    and "distinct [dbpPartitionKey p, dbpSortKey p, dbpTTLAttribute p] \<Longrightarrow>
      m (dbpPartitionKey p) = Some (AttrS (FeedURL ch))"
  using assms by (auto simp: dynamo_item_def item_overlay_def Let_def split: if_splits)

interpretation dynamo_sink: store_sink "dynamo_sink_Publish env attrs p" tdRows "dynamo_key_of p" "dynamo_put env attrs p"
  for env attrs p
proof
  fix c ch s s' e v
  show "tdRows s' = (tdRows s)(dynamo_key_of p ch := dynamo_put env attrs p ch (tdRows s (dynamo_key_of p ch)))"
    if "dynamo_sink_Publish env attrs p c ch s = (None, s')"
    using that
    by (auto simp: dynamo_sink_Publish_def dynamo_put_def dynamo_item_key elim!: db_exec_cases
        split: sum.splits option.splits prod.splits)
  show "tdRows s' = tdRows s \<or>
      tdRows s' = (tdRows s)(dynamo_key_of p ch := dynamo_put env attrs p ch (tdRows s (dynamo_key_of p ch)))"
    if "dynamo_sink_Publish env attrs p c ch s = (Some e, s')"
    using that
    by (auto simp: dynamo_sink_Publish_def dynamo_put_def dynamo_item_key elim!: db_exec_cases
        split: sum.splits option.splits prod.splits)
  show "dynamo_put env attrs p ch (dynamo_put env attrs p ch v) = dynamo_put env attrs p ch v"
    by (simp add: dynamo_put_def split: sum.split)
qed

text \<open>With a TTL attribute and no \<^verbatim>\<open>item_ttl\<close> a row expires at the second in which its change was detected.\<close>

lemma dynamo_ttl_zero:
  assumes "dynamo_item env attrs p ch = Inr m" "dbpTTLAttribute p \<noteq> []" "dbpItemTTL p = 0"
  shows "m (dbpTTLAttribute p) = Some (AttrN (itoa (Unix_seconds (DetectedAt ch))))"
  using assms by (auto simp: dynamo_item_def item_overlay_def Let_def split: sum.splits)

subsection \<open>Cosmos DB\<close>

definition cosmos_sink_defaultContainer :: string where "cosmos_sink_defaultContainer = ''feed_changes''"
definition cosmos_sink_partitionKeyPath :: string where "cosmos_sink_partitionKeyPath = ''/feed_url''"

record 'c cosmos_publisher =
  cbpName :: string
  cbpContainer :: 'c

record cosmos_sink_options =
  cbName :: string
  cbEndpoint :: string
  cbConnectionString :: string
  cbDatabase :: string
  cbContainer :: string
  cbCreateIfMissing :: bool
  cbThroughput :: int

definition cosmos_sink_newClient :: "('c, 's) cosmos_sdk \<Rightarrow> cosmos_sink_options \<Rightarrow> ('c, 's) cosmos_client result" where
  "cosmos_sink_newClient sdk opts =
     (if cbConnectionString opts \<noteq> [] then
        (case skFromConnectionString sdk (cbConnectionString opts) of
           Inl err \<Rightarrow> Inl (Errorf ''cosmosdb sink %q: client from connection string: %w'' [FStr (cbName opts), FWrap err])
         | Inr cl \<Rightarrow> Inr cl)
      else case skCredential sdk of
        Some err \<Rightarrow> Inl (Errorf ''cosmosdb sink %q: default azure credential: %w'' [FStr (cbName opts), FWrap err])
      | None \<Rightarrow>
          (case skFromEndpoint sdk (cbEndpoint opts) of
             Inl err \<Rightarrow> Inl (Errorf ''cosmosdb sink %q: client for endpoint %q: %w''
                                [FStr (cbName opts), FStr (cbEndpoint opts), FWrap err])
           | Inr cl \<Rightarrow> Inr cl))"

definition isConflict :: "cosmos_error \<Rightarrow> bool" where
  "isConflict err = isStatus err 409"

definition cosmos_sink_provision ::
    "('c, 's) cosmos_client \<Rightarrow> ctx \<Rightarrow> string \<Rightarrow> string \<Rightarrow> int \<Rightarrow> 's \<Rightarrow> go_error option \<times> 's" where
  "cosmos_sink_provision cl c database container throughput s =
     (let props = \<lparr>cpID = container, cpPartitionKeyPath = cosmos_sink_partitionKeyPath, cpDefaultTimeToLive = None,
                   cpThroughput = (if throughput > 0 then Some throughput else None)\<rparr>;
          create = (\<lambda>s1. case ccNewDatabase cl database of
             Some err \<Rightarrow> (Some (Errorf ''database handle %q: %w'' [FStr database, FWrap err]), s1)
           | None \<Rightarrow>
               (case ccCreateContainer cl c database props s1 of
                  (None, s2) \<Rightarrow> (None, s2)
                | (Some err, s2) \<Rightarrow>
                    if isConflict err then (None, s2)
                    else (Some (Errorf ''create container %q: %w'' [FStr container, FWrap (ceErr err)]), s2)))
      in case ccCreateDatabase cl c database s of
           (None, s1) \<Rightarrow> create s1
         | (Some err, s1) \<Rightarrow>
             if isConflict err then create s1
             else (Some (Errorf ''create database %q: %w'' [FStr database, FWrap (ceErr err)]), s1))"

definition cosmos_sink_New ::
    "('c, 's) cosmos_sdk \<Rightarrow> ctx \<Rightarrow> cosmos_sink_options \<Rightarrow> 's \<Rightarrow> 'c cosmos_publisher result \<times> 's" where
  "cosmos_sink_New sdk c opts s =
     (let hasEndpoint = (cbEndpoint opts \<noteq> []); hasConn = (cbConnectionString opts \<noteq> []) in
      if cbName opts = [] then (Inl (Errorf ''cosmosdb sink: name is required'' []), s)
      else if \<not> hasEndpoint \<and> \<not> hasConn
      then (Inl (Errorf ''cosmosdb sink %q: one of endpoint or connection_string is required'' [FStr (cbName opts)]), s)
      else if hasEndpoint \<and> hasConn
      then (Inl (Errorf ''cosmosdb sink %q: endpoint and connection_string are mutually exclusive'' [FStr (cbName opts)]), s)
      else if cbDatabase opts = [] then (Inl (Errorf ''cosmosdb sink %q: database is required'' [FStr (cbName opts)]), s)
      else
        let container = (if cbContainer opts = [] then cosmos_sink_defaultContainer else cbContainer opts) in
        case cosmos_sink_newClient sdk opts of
          Inl err \<Rightarrow> (Inl err, s)
        | Inr cl \<Rightarrow>
            (case (if cbCreateIfMissing opts then cosmos_sink_provision cl c (cbDatabase opts) container (cbThroughput opts) s
                   else (None, s)) of
               (Some err, s1) \<Rightarrow> (Inl (Errorf ''cosmosdb sink %q: %w'' [FStr (cbName opts), FWrap err]), s1)
             | (None, s1) \<Rightarrow>
                 (case ccNewContainer cl (cbDatabase opts) container of
                    Inl err \<Rightarrow> (Inl (Errorf ''cosmosdb sink %q: container handle: %w'' [FStr (cbName opts), FWrap err]), s1)
                  | Inr cc \<Rightarrow> (Inr \<lparr>cbpName = cbName opts, cbpContainer = cc\<rparr>, s1))))"

text \<open>\<open>sha\<close> is SHA-256 in hexadecimal, which \<^verbatim>\<open>%q\<close> only puts in quotes.\<close>

definition change_docID :: "(string \<Rightarrow> string) \<Rightarrow> string \<Rightarrow> string \<Rightarrow> string" where
  "change_docID sha feedURL itemID = sha (feedURL @ [nul] @ itemID)"

definition splice_id :: "string \<Rightarrow> string \<Rightarrow> string" where
  "splice_id ident raw =
     (let idField = ''{'' @ [CHR 0x22] @ ''id'' @ [CHR 0x22] @ '':'' @ [CHR 0x22] @ ident @ [CHR 0x22]
      in if length raw > 2 then idField @ '','' @ drop 1 raw else idField @ ''}'')"

definition buildDocument :: "message_env \<Rightarrow> (string \<Rightarrow> string) \<Rightarrow> change \<Rightarrow> (string \<times> string \<times> string) result" where
  "buildDocument env sha ch =
     (let ident = change_docID sha (FeedURL ch) (ItemID ch) in
      case change_json env ch of
        Inl err \<Rightarrow> Inl (Errorf ''marshal: %w'' [FWrap err])
      | Inr raw \<Rightarrow> Inr (ident, FeedURL ch, splice_id ident raw))"

definition cosmos_sink_Publish ::
    "message_env \<Rightarrow> (string \<Rightarrow> string) \<Rightarrow> ('c \<Rightarrow> ctx \<Rightarrow> string \<Rightarrow> string \<Rightarrow> 's \<Rightarrow> cosmos_error option \<times> 's) \<Rightarrow> 'c cosmos_publisher \<Rightarrow>
     ctx \<Rightarrow> change \<Rightarrow> 's \<Rightarrow> go_error option \<times> 's" where
  "cosmos_sink_Publish env sha createItem p c ch s =
     (case buildDocument env sha ch of
        Inl err \<Rightarrow> (Some (Errorf ''cosmosdb sink %q: %w'' [FStr (cbpName p), FWrap err]), s)
      | Inr (_, pk, body) \<Rightarrow>
          (case createItem (cbpContainer p) c pk body s of
             (None, s1) \<Rightarrow> (None, s1)
           | (Some err, s1) \<Rightarrow>
               if isConflict err then (None, s1)
               else (Some (Errorf ''cosmosdb sink %q: create item: %w'' [FStr (cbpName p), FWrap (ceErr err)]), s1)))"

text \<open>What is relied on of a container: a document is created under the partition key and its \<^verbatim>\<open>id\<close>, which the
  service reads from the body (\<open>ident\<close>), unless there is one, which the answer 409 says.\<close>

definition create_ok ::
    "(string \<Rightarrow> string) \<Rightarrow> (ctx \<Rightarrow> string \<Rightarrow> string \<Rightarrow> 's \<Rightarrow> cosmos_error option \<times> 's) \<Rightarrow>
     ('s \<Rightarrow> string \<times> string \<Rightarrow> string option) \<Rightarrow> bool" where
  "create_ok ident create docs \<longleftrightarrow>
     (\<forall>c pk body s r s'. create c pk body s = (r, s') \<longrightarrow>
        (case r of
           None \<Rightarrow> docs s (pk, ident body) = None \<and> docs s' = insert_or_nothing (pk, ident body) body (docs s)
         | Some e \<Rightarrow>
             if isConflict e then docs s (pk, ident body) \<noteq> None \<and> docs s' = docs s
             else docs s' = docs s \<or> docs s' = insert_or_nothing (pk, ident body) body (docs s)))"

definition reads_id :: "(string \<Rightarrow> string) \<Rightarrow> (string \<Rightarrow> string) \<Rightarrow> bool" where
  "reads_id ident sha \<longleftrightarrow> (\<forall>x raw. ident (splice_id (sha x) raw) = sha x)"

definition doc_key :: "(string \<Rightarrow> string) \<Rightarrow> change \<Rightarrow> string \<times> string" where
  "doc_key sha ch = (FeedURL ch, change_docID sha (FeedURL ch) (ItemID ch))"

definition doc_put :: "message_env \<Rightarrow> (string \<Rightarrow> string) \<Rightarrow> change \<Rightarrow> string option \<Rightarrow> string option" where
  "doc_put env sha ch v =
     (case (v, buildDocument env sha ch) of
        (Some d, _) \<Rightarrow> Some d
      | (None, Inr (_, _, body)) \<Rightarrow> Some body
      | (None, Inl _) \<Rightarrow> None)"

lemma cosmos_Publish_cases:
  assumes "create_ok ident (createItem (cbpContainer p)) docs" "reads_id ident sha"
    and run: "cosmos_sink_Publish env sha createItem p c ch s = (r, s')"
  shows "docs s' = (docs s)(doc_key sha ch := doc_put env sha ch (docs s (doc_key sha ch))) \<or> r \<noteq> None \<and> docs s' = docs s"
proof (cases "buildDocument env sha ch")
  case (Inl err)
  with run show ?thesis by (auto simp: cosmos_sink_Publish_def)
next
  case (Inr doc)
  then obtain raw where raw: "change_json env ch = Inr raw"
    and doc: "doc = (change_docID sha (FeedURL ch) (ItemID ch), FeedURL ch, splice_id (change_docID sha (FeedURL ch) (ItemID ch)) raw)"
    by (auto simp: buildDocument_def Let_def split: sum.splits)
  let ?body = "snd (snd doc)"
  have k: "(FeedURL ch, ident ?body) = doc_key sha ch"
    using assms(2) doc by (simp add: doc_key_def change_docID_def reads_id_def)
  have put: "insert_or_nothing (doc_key sha ch) ?body (docs s) =
      (docs s)(doc_key sha ch := doc_put env sha ch (docs s (doc_key sha ch)))"
    using Inr doc by (auto simp: insert_or_nothing_put doc_put_def split: option.split)
  obtain e s1 where cr: "createItem (cbpContainer p) c (FeedURL ch) ?body s = (e, s1)" by fastforce
  have "s' = s1" "r = None \<longleftrightarrow> (e = None \<or> (\<exists>x. e = Some x \<and> isConflict x))"
    using run Inr doc cr by (auto simp: cosmos_sink_Publish_def split: option.splits if_splits)
  moreover have "case e of
           None \<Rightarrow> docs s (doc_key sha ch) = None \<and> docs s1 = insert_or_nothing (doc_key sha ch) ?body (docs s)
         | Some e \<Rightarrow>
             if isConflict e then docs s (doc_key sha ch) \<noteq> None \<and> docs s1 = docs s
             else docs s1 = docs s \<or> docs s1 = insert_or_nothing (doc_key sha ch) ?body (docs s)"
    using assms(1) cr unfolding create_ok_def k [symmetric] by blast
  moreover have "docs s (doc_key sha ch) \<noteq> None \<Longrightarrow> docs s = insert_or_nothing (doc_key sha ch) ?body (docs s)"
    by (auto simp: insert_or_nothing_def)
  ultimately show ?thesis unfolding put by (auto split: option.splits if_splits)
qed

lemma cosmos_store_sink:
  assumes "create_ok ident (createItem (cbpContainer p)) docs" "reads_id ident sha"
  shows "store_sink (cosmos_sink_Publish env sha createItem p) docs (doc_key sha) (doc_put env sha)"
proof
  fix c ch s s' e v
  note step = cosmos_Publish_cases [where createItem = createItem and p = p, OF assms]
  show "docs s' = (docs s)(doc_key sha ch := doc_put env sha ch (docs s (doc_key sha ch)))"
    if "cosmos_sink_Publish env sha createItem p c ch s = (None, s')" using step [OF that] by simp
  show "docs s' = docs s \<or> docs s' = (docs s)(doc_key sha ch := doc_put env sha ch (docs s (doc_key sha ch)))"
    if "cosmos_sink_Publish env sha createItem p c ch s = (Some e, s')" using step [OF that] by auto
  show "doc_put env sha ch (doc_put env sha ch v) = doc_put env sha ch v"
    by (auto simp: doc_put_def split: option.split sum.split)
qed

subsection \<open>What the tables hold after deliveries with retries\<close>

text \<open>C27: the PostgreSQL sink stores a delivered change once, whatever attempts failed on the way and whether
  their statements had taken effect: exactly one row is added, under the feed, the item and the time of
  detection, and no other row changes; a second change of the item, detected at another microsecond, adds
  a row of its own.\<close>

theorem pg_sink_history:
  assumes "quiet rt tdRows"
    and "Do rt c cfg (pg_sink_Publish env p c1 a) s = (r1, s1)" "Err r1 = None"
    and "Do rt c cfg (pg_sink_Publish env p c2 b) s1 = (r2, s2)" "Err r2 = None"
    and "tdRows s (pg_row_key p a) = None" "tdRows s (pg_row_key p b) = None" "pg_time (DetectedAt a) \<noteq> pg_time (DetectedAt b)"
  shows "\<exists>pa pb. change_json env a = Inr pa \<and> change_json env b = Inr pb \<and>
    tdRows s2 = (tdRows s)(pg_row_key p a \<mapsto> (kind_text (Kind a), pa), pg_row_key p b \<mapsto> (kind_text (Kind b), pb))"
proof -
  have enc: "\<exists>x. change_json env ch = Inr x" if "pg_sink_Publish env p c ch t = (None, t')" for c ch t t'
    using that by (auto simp: pg_sink_Publish_def split: sum.splits)
  note da = pg_sink.Do_effect(2,3) [OF assms(1,2,3)] and db = pg_sink.Do_effect(2,3) [OF assms(1,4,5)]
  obtain pa pb where "change_json env a = Inr pa" "change_json env b = Inr pb" using da(2) db(2) enc by blast
  moreover have "pg_row_key p a \<noteq> pg_row_key p b" using assms(8) by (simp add: pg_row_key_def)
  ultimately show ?thesis using da(1) db(1) assms(6,7) by (simp add: pg_sink.effect_def pg_put_def)
qed


text \<open>Concrete runs: a database whose first statement loses its answer, and a container that keeps documents by
  partition key and the text between the quotes of the first field.\<close>

definition plain_rt :: "'s runtime" where
  "plain_rt = \<lparr>rt_now = (\<lambda>_. 0), ctx_Err = (\<lambda>_ _. None), ctx_wait = (\<lambda>_ _ s. (False, s)), rand_Int64N = (\<lambda>_ s. (0, s))\<rparr>"

definition plain_env :: message_env where
  "plain_env = \<lparr>meMarshal = (\<lambda>ch. Inr (''{'' @ ItemID ch @ ''}'')), meInject = (\<lambda>_. [])\<rparr>"

definition two_attempts :: retry_config where
  "two_attempts = \<lparr>MaxAttempts = 2, BaseDelay = 1, MaxDelay = 1, Retryable = None\<rparr>"

definition body_ident :: "string \<Rightarrow> string" where
  "body_ident b = takeWhile (\<lambda>x. x \<noteq> CHR 0x22) (drop 7 b)"

definition map_create ::
    "unit \<Rightarrow> ctx \<Rightarrow> string \<Rightarrow> string \<Rightarrow> (string \<times> string \<Rightarrow> string option) \<Rightarrow>
     cosmos_error option \<times> (string \<times> string \<Rightarrow> string option)" where
  "map_create u c pk b m =
     (if m (pk, body_ident b) = None then (None, m((pk, body_ident b) \<mapsto> b)) else (Some \<lparr>ceStatus = Some 409, ceErr = Canceled\<rparr>, m))"

lemma quiet_plain_rt: "quiet plain_rt f"
  by (simp add: quiet_def plain_rt_def)

lemma map_create_ok: "create_ok body_ident (map_create u) (\<lambda>m. m)"
  by (auto simp: create_ok_def map_create_def insert_or_nothing_def isConflict_def isStatus_def split: if_splits)

lemma body_ident_reads: "reads_id body_ident (\<lambda>_. ''5a'')"
  by (simp add: reads_id_def splice_id_def body_ident_def Let_def)

lemma plain_rt_sel [simp]: "ctx_Err plain_rt c s = None" "ctx_wait plain_rt c d s = (False, s)"
  by (simp_all add: plain_rt_def)

lemma delayFor_plain: "snd (delayFor plain_rt cfg n s) = s"
  by (simp add: delayFor_def plain_rt_def Let_def)

text \<open>A first attempt that fails and a second that succeeds.\<close>

lemma Do_second:
  assumes "fn s = (Some e, s1)" "fn s1 = (None, s2)"
  shows "Do plain_rt c two_attempts fn s = (\<lparr>Attempts = 2, Err = None\<rparr>, s2)"
  using assms delayFor_plain [of "withDefaults two_attempts" 1 s1]
  by (cases "delayFor plain_rt (withDefaults two_attempts) 1 s1")
    (simp add: Do_def do_loop.simps two_attempts_def withDefaults_def clampAttempts_def clampBase_def clampMax_def gives_up_def)

lemma Do_first:
  assumes "fn s = (None, s1)"
  shows "Do plain_rt c two_attempts fn s = (\<lparr>Attempts = 1, Err = None\<rparr>, s1)"
  using assms by (simp add: Do_def do_loop.simps two_attempts_def withDefaults_def clampAttempts_def clampBase_def clampMax_def)

definition lossy_db :: "(pg_row_key, pg_row) table_db" where
  "lossy_db = \<lparr>tdRows = (\<lambda>_. None), tdOutcomes = [StmtErr DeadlineExceeded True]\<rparr>"

theorem pg_sink_history_witness:
  "\<exists>s1 s2 pa pb.
     Do plain_rt None two_attempts (pg_sink_Publish plain_env \<lparr>ppName = ''p'', ppPool = (), ppTable = ''t''\<rparr> None (sample_change ''a'' 1000)) lossy_db
       = (\<lparr>Attempts = 2, Err = None\<rparr>, s1) \<and>
     Do plain_rt None two_attempts (pg_sink_Publish plain_env \<lparr>ppName = ''p'', ppPool = (), ppTable = ''t''\<rparr> None (sample_change ''a'' 2000)) s1
       = (\<lparr>Attempts = 1, Err = None\<rparr>, s2) \<and>
     tdRows s2 = (\<lambda>_. None)((''t'', ''u'', ''a'', 1) \<mapsto> (''new'', pa), (''t'', ''u'', ''a'', 2) \<mapsto> (''new'', pb))"
proof -
  let ?p = "\<lparr>ppName = ''p'', ppPool = (), ppTable = ''t''\<rparr>"
  let ?a = "sample_change ''a'' 1000" and ?b = "sample_change ''a'' 2000"
  let ?m = "(\<lambda>_. None)((''t'', ''u'', ''a'', 1) \<mapsto> (''new'', ''{a}''))"
  let ?s1 = "\<lparr>tdRows = ?m, tdOutcomes = []\<rparr>"
  let ?s2 = "\<lparr>tdRows = ?m((''t'', ''u'', ''a'', 2) \<mapsto> (''new'', ''{a}'')), tdOutcomes = []\<rparr>"
  note defs = pg_sink_Publish_def change_json_def MarshalJSON_def plain_env_def sample_change_def db_exec_def run_stmt_def
    insert_or_nothing_def pg_row_key_def pg_time_def kind_text_def lossy_db_def
  have keys: "pg_row_key ?p ?a = (''t'', ''u'', ''a'', 1)" "pg_row_key ?p ?b = (''t'', ''u'', ''a'', 2)" by (simp_all add: defs)
  have 1: "Do plain_rt None two_attempts (pg_sink_Publish plain_env ?p None ?a) lossy_db = (\<lparr>Attempts = 2, Err = None\<rparr>, ?s1)"
    by (rule Do_second [where e = DeadlineExceeded and ?s1.0 = ?s1]) (simp_all add: defs)
  have 2: "Do plain_rt None two_attempts (pg_sink_Publish plain_env ?p None ?b) ?s1 = (\<lparr>Attempts = 1, Err = None\<rparr>, ?s2)"
    by (rule Do_first) (simp add: defs)
  obtain pa pb where "tdRows ?s2 = (tdRows lossy_db)(pg_row_key ?p ?a \<mapsto> (kind_text (Kind ?a), pa), pg_row_key ?p ?b \<mapsto> (kind_text (Kind ?b), pb))"
    using pg_sink_history [OF quiet_plain_rt 1 _ 2] unfolding keys by (auto simp: lossy_db_def sample_change_def pg_time_def)
  with 1 2 keys show ?thesis by (intro exI [of _ ?s1] exI [of _ ?s2] exI [of _ pa] exI [of _ pb]) (simp add: lossy_db_def sample_change_def kind_text_def)
qed


end
