(* ===== verification/Sinks_Delivery.thy ===== *)
theory Sinks_Delivery
  imports Sinks_Cloud Sinks_Http Sinks_Stream Sinks_Store
begin

section \<open>Deliveries through the drivers\<close>

text \<open>
  What retries and dead letters (\<^verbatim>\<open>internal/sink/retrywrap.go\<close>) do over the drivers of the previous theories: how
  often a change reaches a webhook and its dead letter a queue, when a dead letter cannot be sent, and concrete
  runs.
\<close>

subsection \<open>A webhook with a queue as dead letter\<close>

text \<open>The two services do not touch each other's log.\<close>

definition apart :: "(ctx \<Rightarrow> 'i \<Rightarrow> 's \<Rightarrow> 'r \<times> 's) \<Rightarrow> ('s \<Rightarrow> 'a) \<Rightarrow> bool" where
  "apart f lg \<longleftrightarrow> (\<forall>c i s r s'. f c i s = (r, s') \<longrightarrow> lg s' = lg s)"

lemma apartD: "apart f lg \<Longrightarrow> f c i s = (r, s') \<Longrightarrow> lg s' = lg s"
  by (auto simp: apart_def)

lemma http_Publish_apart:
  assumes "apart (hcRoundTrip cl) lg" "apart (hcHTTP3 cl) lg" "http_Publish rt env parse cl p c ch s = (r, s')"
  shows "lg s' = lg s"
  using assms(3)
  by (auto simp: http_Publish_def client_Do_def split: sum.splits prod.splits if_splits option.splits
      dest: apartD [OF assms(1)] apartD [OF assms(2)])

lemma sqs_Publish_apart:
  assumes "apart send lg" "sqs_Publish env sha send p c ch s = (r, s')"
  shows "lg s' = lg s"
  using assms(2)
  by (auto simp: sqs_Publish_def split: sum.splits prod.splits option.splits dest: apartD [OF assms(1)])


subsection \<open>Dead letters after the deadline\<close>

definition deadlines :: "'s runtime \<Rightarrow> bool" where
  "deadlines rt \<longleftrightarrow>
     (\<forall>t s. t \<le> rt_now rt s \<longrightarrow> ctx_Err rt (Some t) s \<noteq> None) \<and>
     (\<forall>c d s b s'. ctx_wait rt c d s = (b, s') \<longrightarrow> rt_now rt s \<le> rt_now rt s') \<and>
     (\<forall>n s d s'. rand_Int64N rt n s = (d, s') \<longrightarrow> rt_now rt s \<le> rt_now rt s')"

lemma deadlinesD:
  assumes "deadlines rt"
  shows "t \<le> rt_now rt s \<Longrightarrow> ctx_Err rt (Some t) s \<noteq> None"
    and "ctx_wait rt c d s = (b, s') \<Longrightarrow> rt_now rt s \<le> rt_now rt s'"
    and "delayFor rt cfg n s = (x, s') \<Longrightarrow> rt_now rt s \<le> rt_now rt s'"
proof -
  show "t \<le> rt_now rt s \<Longrightarrow> ctx_Err rt (Some t) s \<noteq> None" using assms unfolding deadlines_def by blast
  show "ctx_wait rt c d s = (b, s') \<Longrightarrow> rt_now rt s \<le> rt_now rt s'" using assms unfolding deadlines_def by blast
  show "delayFor rt cfg n s = (x, s') \<Longrightarrow> rt_now rt s \<le> rt_now rt s'"
    using assms unfolding deadlines_def delayFor_def Let_def by (auto split: if_splits prod.splits)
qed

text \<open>An operation that returns only at its deadline, and fails, leaves a context that is over.\<close>

lemma wedged_do_loop:
  assumes rt: "deadlines rt" and fn: "\<And>s e s'. fn s = (e, s') \<Longrightarrow> e \<noteq> None \<and> t \<le> rt_now rt s'"
    and run: "do_loop rt (Some t) cfg fn a le s = (r, s')" "a \<le> MaxAttempts cfg"
  shows "ctx_Err rt (Some t) s' \<noteq> None \<and> Err r \<noteq> None"
proof
  show "Err r \<noteq> None" using do_loop_fails [of fn a cfg rt "Some t" le s] fn run by (metis fst_conv prod.exhaust_sel)
  let ?P = "\<lambda>u. t \<le> rt_now rt u"
  have keep: "?P u'" if "?P u" "ctx_wait rt c d u = (b, u')" for u c d b u' using that deadlinesD(2) [OF rt] order_trans by blast
  have keep': "?P u'" if "?P u" "delayFor rt cg n u = (b, u')" for u cg n b u' using that deadlinesD(3) [OF rt] order_trans by blast
  obtain e s1 where f: "fn s = (e, s1)" by fastforce
  obtain d s2 where d: "delayFor rt cfg a s1 = (d, s2)" by fastforce
  obtain b s3 where w: "ctx_wait rt (Some t) d s2 = (b, s3)" by fastforce
  have P: "?P s1" "?P s3" using fn [OF f] keep keep' d w by blast+
  consider (over) "s' = s" "ctx_Err rt (Some t) s \<noteq> None" | (past) "s' \<in> {s1, s3}"
    | (again) le' where "do_loop rt (Some t) cfg fn (a + 1) le' s3 = (r, s')"
    using run f d w fn [OF f]
    by (auto simp: do_loop.simps [of rt _ cfg _ a] split: option.splits if_splits bool.splits)
  then show "ctx_Err rt (Some t) s' \<noteq> None"
  proof cases
    case past
    with P deadlinesD(1) [OF rt] show ?thesis by auto
  next
    case (again le')
    have "?P s'"
      by (rule do_loop_invariant(1) [OF _ _ _ again, where P = ?P]) (use fn keep keep' P in blast)+
    then show ?thesis by (rule deadlinesD(1) [OF rt])
  qed simp
qed

text \<open>C7: a sink that hangs until the deadline of the delivery never has its change dead-lettered: the dead letter
  is sent with the context of the delivery, which is over by then, so a dead-letter sink that honours contexts
  refuses it and the change is dropped.\<close>

theorem wedged_sink_drops:
  assumes rt: "deadlines rt"
    and wedged: "\<And>t ch s e s'. publish (Some t) ch s = (e, s') \<Longrightarrow> e \<noteq> None \<and> t \<le> rt_now rt s'"
    and honours: "\<And>c ch s. ctx_Err rt c s \<noteq> None \<Longrightarrow> \<exists>e s'. pub q c ch s = Some (Some e, s')"
    and pub: "\<And>c ch s. pub (primary r) c ch s = Some (publish c ch s)" "dlq r = Some q" "rpTimeout r > 0"
  shows "\<exists>res s'. Deliver rt senv pub r c0 ch s = Some (res, s') \<and> brState res = BranchDropped"
proof -
  obtain t where t: "WithTimeout rt c0 (rpTimeout r) s = Some t"
    by (cases c0) (auto simp: WithTimeout_def)
  obtain rr s1 where d: "Do rt (Some t) (rpCfg r) (publish (Some t) ch) s = (rr, s1)" by fastforce
  have "pub (primary r) (Some t) ch = (\<lambda>s. Some (publish (Some t) ch s))" using pub(1) by (simp add: fun_eq_iff)
  with d DoOpt_total [of rt "Some t" "rpCfg r" "publish (Some t) ch" s]
  have do: "DoOpt rt (Some t) (rpCfg r) (pub (primary r) (Some t) ch) s = Some (rr, s1)" by simp
  have "ctx_Err rt (Some t) s1 \<noteq> None \<and> Err rr \<noteq> None"
    by (rule wedged_do_loop [OF rt wedged d [unfolded Do_def]]) simp_all
  then obtain err where err: "Err rr = Some err" and over: "ctx_Err rt (Some t) s1 \<noteq> None" by auto
  obtain e s2 where "pub q (Some t) (envelope (sprintf senv) (pubName (primary r)) err (Attempts rr) ch) s1 = Some (Some e, s2)"
    using honours [OF over] by blast
  with do t pub(2,3) err show ?thesis by (simp add: Deliver_def Let_def)
qed

subsection \<open>Concrete runs\<close>

text \<open>A webhook server, a queue and a clock; the server refuses the first requests and the queue takes
  everything in, once per identifier.\<close>

record toy_world =
  twSeen :: "hook_request list"
  twStatus :: "int list"    \<comment> \<open>the answers to come, then 200\<close>
  twQueue :: "fifo_input list"
  twRecent :: "string list"
  twNow :: int

definition toy_exchange :: "ctx \<Rightarrow> hook_request \<Rightarrow> toy_world \<Rightarrow> int result \<times> toy_world" where
  "toy_exchange c req w =
     (case twStatus w of
        [] \<Rightarrow> (Inr 200, w\<lparr>twSeen := twSeen w @ [req]\<rparr>)
      | st # sts \<Rightarrow> (Inr st, w\<lparr>twSeen := twSeen w @ [req], twStatus := sts\<rparr>))"

definition toy_client :: "toy_world http_client" where
  "toy_client = \<lparr>hcRoundTrip = toy_exchange, hcHTTP3 = toy_exchange, hcStatusText = (\<lambda>_. [])\<rparr>"

definition toy_send :: "ctx \<Rightarrow> fifo_input \<Rightarrow> toy_world \<Rightarrow> go_error option \<times> toy_world" where
  "toy_send c i w = (None, w\<lparr>twQueue := twQueue w @ [i]\<rparr>)"

definition toy_fifo_send :: "ctx \<Rightarrow> fifo_input \<Rightarrow> toy_world \<Rightarrow> go_error option \<times> toy_world" where
  "toy_fifo_send c i w =
     (case twStatus w of
        [] \<Rightarrow> (\<lambda>w1. (None, w1))
      | _ # sts \<Rightarrow> (\<lambda>w1. (Some DeadlineExceeded, w1\<lparr>twStatus := sts\<rparr>)))
     (case fiDedupID i of
        None \<Rightarrow> w\<lparr>twQueue := twQueue w @ [i]\<rparr>
      | Some d \<Rightarrow> w\<lparr>twQueue := (if d \<in> set (twRecent w) then twQueue w else twQueue w @ [i]), twRecent := d # twRecent w\<rparr>)"

definition toy_hook :: http_publisher where
  "toy_hook = \<lparr>hpName = ''h'', hpURL = ''http://h/'', hpMethod = ''POST'', hpHeaders = [], hpSuccessCodes = [200], hpTimeout = 5,
     hpTLS = None, hpHTTP3 = False\<rparr>"

definition toy_fifo :: fifo_publisher where
  "toy_fifo = \<lparr>fpName = ''q'', fpClient = \<lparr>awRegion = [], awEndpoint = []\<rparr>, fpTarget = ''q.fifo'', fpFifo = True,
     fpMessageGroup = ''feed_url''\<rparr>"

definition toy_parse :: "string \<Rightarrow> (string \<times> string) result" where
  "toy_parse u = Inr (''http'', ''h'')"

definition toy_pub :: "toy_world publish_fn" where
  "toy_pub p c ch w =
     (if p = Driver ''h'' then Some (http_Publish plain_rt plain_env toy_parse toy_client toy_hook c ch w)
      else Some (sqs_Publish plain_env id toy_send toy_fifo c ch w))"

definition toy_world0 :: "int list \<Rightarrow> toy_world" where
  "toy_world0 sts = \<lparr>twSeen = [], twStatus = sts, twQueue = [], twRecent = [], twNow = 0\<rparr>"

definition toy_senv :: "toy_world sink_env" where
  "toy_senv = \<lparr>leaf_publish = (\<lambda>_ _ _ w. (None, w)), branches = (\<lambda>_. []), sprintf = (\<lambda>f _. f)\<rparr>"

lemma toy_ok:
  "exchange_ok (hcRoundTrip toy_client) twSeen" "exchange_ok (hcHTTP3 toy_client) twSeen" "trace_apart plain_env"
  "log_ok toy_send twQueue" "apart (hcRoundTrip toy_client) twQueue" "apart (hcHTTP3 toy_client) twQueue" "apart toy_send twSeen"
  by (auto simp: exchange_ok_def log_ok_def apart_def trace_apart_def toy_client_def toy_exchange_def toy_send_def plain_env_def
      split: list.splits)

lemma toy_fifo_ok: "fifo_ok toy_fifo_send twQueue (set \<circ> twRecent)"
  by (auto simp: fifo_ok_def takes_in_def toy_fifo_send_def split: list.splits option.splits)

theorem sqs_fifo_once_witness:
  "let ch = sample_change ''a'' 1; run = Do plain_rt None two_attempts (sqs_Publish plain_env id toy_fifo_send toy_fifo None ch) (toy_world0 [1])
   in fst run = \<lparr>Attempts = 2, Err = None\<rparr> \<and> (\<exists>m. twQueue (snd run) = [m])"
proof -
  let ?ch = "sample_change ''a'' 1"
  let ?pub = "sqs_Publish plain_env id toy_fifo_send toy_fifo None ?ch"
  note defs = sqs_Publish_def change_json_def MarshalJSON_def plain_env_def sample_change_def toy_fifo_send_def toy_world0_def
    fifo_message_def toy_fifo_def
  define w1 where "w1 = snd (?pub (toy_world0 [1]))"
  define w2 where "w2 = snd (?pub w1)"
  have 1: "\<exists>e. ?pub (toy_world0 [1]) = (Some e, w1)" unfolding w1_def by (simp add: defs)
  have 2: "?pub w1 = (None, w2)" unfolding w2_def w1_def by (simp add: defs)
  have run: "Do plain_rt None two_attempts ?pub (toy_world0 [1]) = (\<lparr>Attempts = 2, Err = None\<rparr>, w2)"
    using 1 2 Do_second [of ?pub "toy_world0 [1]" _ w1 w2] by blast
  have "\<exists>body. change_json plain_env ?ch = Inr body \<and> twQueue w2 = twQueue (toy_world0 [1]) @ [fifo_message plain_env id toy_fifo None ?ch body] \<and>
      (set \<circ> twRecent) w2 = insert (fifoDedupID id ?ch) ((set \<circ> twRecent) (toy_world0 [1]))"
    using sqs_fifo_once [OF toy_fifo_ok _ quiet_plain_rt quiet_plain_rt _ run] by (simp add: toy_fifo_def toy_world0_def)
  with run show ?thesis by (auto simp: Let_def toy_world0_def)
qed

theorem sqs_fifo_revert_witness:
  "let a = sample_change ''a'' 1; b = (sample_change ''a'' 2)\<lparr>ContentHashOf := ''g''\<rparr>; a' = sample_change ''a'' 3;
       pub = sqs_Publish plain_env id toy_fifo_send toy_fifo None; w1 = snd (pub a (toy_world0 [])); w2 = snd (pub b w1);
       w3 = snd (pub a' w2)
   in \<exists>ba bb. twQueue w3 = [fifo_message plain_env id toy_fifo None a ba, fifo_message plain_env id toy_fifo None b bb]"
proof -
  let ?pub = "sqs_Publish plain_env id toy_fifo_send toy_fifo None"
  let ?a = "sample_change ''a'' 1" and ?b = "(sample_change ''a'' 2)\<lparr>ContentHashOf := ''g''\<rparr>" and ?c = "sample_change ''a'' 3"
  note defs = sqs_Publish_def change_json_def MarshalJSON_def plain_env_def toy_fifo_send_def
  have ok: "\<exists>w'. ?pub ch w = (None, w')" if "twStatus w = []" for ch w using that by (simp add: defs)
  have keep: "twStatus (snd (?pub ch w)) = []" if "twStatus w = []" for ch w
    using that by (simp add: defs split: option.split)
  have st: "twStatus (toy_world0 []) = []" by (simp add: toy_world0_def)
  have step: "?pub ch w = (None, snd (?pub ch w))" if "twStatus w = []" for ch w using ok [OF that] by (metis snd_conv)
  have "\<exists>ba bb. twQueue (snd (?pub ?c (snd (?pub ?b (snd (?pub ?a (toy_world0 []))))))) =
      twQueue (toy_world0 []) @ [fifo_message plain_env id toy_fifo None ?a ba, fifo_message plain_env id toy_fifo None ?b bb]"
    by (rule sqs_fifo_revert [OF toy_fifo_ok _ _ _ _ _ _ _ step [OF st] step [OF keep [OF st]] step [OF keep [OF keep [OF st]]]])
      (simp_all add: toy_fifo_def toy_world0_def fifoDedupID_def sample_change_def)
  then show ?thesis by (simp add: Let_def toy_world0_def)
qed

definition toy_route :: "publisher option \<Rightarrow> RetryingPublisher" where
  "toy_route d = \<lparr>primary = Driver ''h'', dlq = d, rpCfg = two_attempts, rpTimeout = 0\<rparr>"

text \<open>A server that answers 500 twice: two requests seen, one message queued.\<close>

lemma toy_hook_fails:
  assumes "twStatus w = 500 # sts"
  shows "\<exists>e req. http_Publish plain_rt plain_env toy_parse toy_client toy_hook c (sample_change ''a'' 1) w =
    (Some e, w\<lparr>twSeen := twSeen w @ [req], twStatus := sts\<rparr>)"
proof -
  have "invalid_header (canonical_headers (sample_change ''a'' 1)) (hook_headers plain_env toy_hook c (sample_change ''a'' 1)) = None"
    by (simp add: canonical_headers_def hook_headers_def sample_change_def toy_hook_def plain_env_def header_Set_def kind_text_def itoa_def
        CanonicalHeaderKey_def is_token_byte_def is_lower_def is_upper_def byte_def valid_name_def valid_value_def Let_def itoa_nat.simps digit_def)
  moreover have "change_json plain_env (sample_change ''a'' 1) = Inr ''{a}''"
    by (simp add: change_json_def MarshalJSON_def plain_env_def sample_change_def)
  moreover have "hpHeaders toy_hook = []" "meInject plain_env c = []" "\<not> hpHTTP3 toy_hook" "500 \<notin> set (hpSuccessCodes toy_hook)"
    by (simp_all add: toy_hook_def plain_env_def)
  ultimately show ?thesis
    using assms
    by (simp add: http_Publish_def client_Do_def toy_client_def toy_exchange_def toy_parse_def hook_request_of_def) blast
qed

lemma Do_two_failures:
  assumes "fn s = (Some e, s1)" "fn s1 = (Some e', s2)"
  shows "Do plain_rt c two_attempts fn s = (\<lparr>Attempts = 2, Err = Some e'\<rparr>, s2)"
  using assms delayFor_plain [of "withDefaults two_attempts" 1 s1]
  by (cases "delayFor plain_rt (withDefaults two_attempts) 1 s1")
    (simp add: Do_def do_loop.simps two_attempts_def withDefaults_def clampAttempts_def clampBase_def clampMax_def gives_up_def)

lemma toy_delivery:
  "\<exists>res w' err. Deliver plain_rt toy_senv toy_pub (toy_route (Some (Driver ''q''))) None (sample_change ''a'' 1) (toy_world0 [500, 500]) =
     Some (res, w') \<and> res = \<lparr>brState = BranchDLQ, brAttempts = 2, brErr = Some err\<rparr>"
proof -
  let ?ch = "sample_change ''a'' 1"
  let ?f = "http_Publish plain_rt plain_env toy_parse toy_client toy_hook None ?ch"
  obtain e w1 where 1: "?f (toy_world0 [500, 500]) = (Some e, w1)" "twStatus w1 = [500]"
    using toy_hook_fails [of "toy_world0 [500, 500]" "[500]"] by (force simp: toy_world0_def)
  obtain e' w2 where 2: "?f w1 = (Some e', w2)" using toy_hook_fails [OF 1(2)] by blast
  have "DoOpt plain_rt None two_attempts (toy_pub (Driver ''h'') None ?ch) (toy_world0 [500, 500]) = Some (\<lparr>Attempts = 2, Err = Some e'\<rparr>, w2)"
    using DoOpt_total [of plain_rt None two_attempts ?f] Do_two_failures [of ?f, OF 1(1) 2] by (simp add: toy_pub_def [abs_def])
  then show ?thesis
    by (simp add: Deliver_def toy_route_def toy_pub_def sqs_Publish_def toy_send_def change_json_def MarshalJSON_def plain_env_def Let_def)
qed



theorem grpc_metadata_order_witness:
  "metadata_Get (grMetadata (grpc_request_of \<lparr>gpName = ''g'', gpConn = (), gpTimeout = 0, gpMetadata = [(''rss2msg-kind'', ''x'')]\<rparr>
     (sample_change ''a'' 1))) ''rss2msg-kind'' = [''x'', ''new'']"
  using grpc_metadata_order [of "''rss2msg-kind''" "''new''" "sample_change ''a'' 1"
      "\<lparr>gpName = ''g'', gpConn = (), gpTimeout = 0, gpMetadata = [(''rss2msg-kind'', ''x'')]\<rparr>"]
  by (simp add: grpc_metadata_def sample_change_def kind_text_def metadata_Get_def)

definition clock_rt :: "toy_world runtime" where
  "clock_rt = \<lparr>rt_now = twNow, ctx_Err = (\<lambda>c w. case c of None \<Rightarrow> None | Some t \<Rightarrow> if t \<le> twNow w then Some DeadlineExceeded else None),
     ctx_wait = (\<lambda>_ _ w. (False, w)), rand_Int64N = (\<lambda>_ w. (0, w))\<rparr>"

definition hung :: "ctx \<Rightarrow> change \<Rightarrow> toy_world \<Rightarrow> go_error option \<times> toy_world" where
  "hung c ch w = (Some DeadlineExceeded, case c of None \<Rightarrow> w | Some t \<Rightarrow> w\<lparr>twNow := max t (twNow w)\<rparr>)"

definition hung_pub :: "toy_world publish_fn" where
  "hung_pub p c ch w =
     (if p = Driver ''h'' then Some (hung c ch w)
      else case ctx_Err clock_rt c w of Some e \<Rightarrow> Some (Some e, w) | None \<Rightarrow> Some (None, w))"

theorem wedged_sink_drops_witness:
  "\<exists>res w'. Deliver clock_rt toy_senv hung_pub ((toy_route (Some (Driver ''q'')))\<lparr>rpTimeout := 10\<rparr>) None (sample_change ''a'' 1) (toy_world0 []) =
     Some (res, w') \<and> brState res = BranchDropped"
proof (rule wedged_sink_drops [where publish = hung and q = "Driver ''q''"])
  show "deadlines clock_rt" by (auto simp: deadlines_def clock_rt_def)
  show "e \<noteq> None \<and> t \<le> rt_now clock_rt s'" if "hung (Some t) ch s = (e, s')" for t ch s e s'
    using that by (auto simp: hung_def clock_rt_def)
  show "\<exists>e s'. hung_pub (Driver ''q'') c ch s = Some (Some e, s')" if "ctx_Err clock_rt c s \<noteq> None" for c ch s
    using that by (auto simp: hung_pub_def)
qed (simp_all add: hung_pub_def toy_route_def)

end
