(* ===== verification/Source_Kubernetes.thy ===== *)
theory Source_Kubernetes
  imports Feedsource Json Change_Model "HOL-Library.AList"
begin

section \<open>Feeds from Kubernetes\<close>

text \<open>
  \<^verbatim>\<open>internal/feedsource/sources/kubernetes\<close>: an informer reports the \<^verbatim>\<open>Feed\<close> resources of a cluster, the source keeps
  their specs by namespace and name and, for writing status back, an index from URL to resource.  An object
  of the dynamic client is its metadata and its fields; what a handler is given may be something else, or a
  tombstone.  The iteration order of a map is an argument.
\<close>

record namespacedName =
  nnNamespace :: string
  nnName :: string

record k8s_object =
  koNamespace :: string
  koName :: string
  koGeneration :: int
  koObject :: "(string \<times> json) list"

datatype k8s_any = Unstructured k8s_object | Tombstone "k8s_object option" | OtherObj

record KubernetesOptions =
  kqName :: string
  kqNamespace :: string
  kqLabelSelector :: string
  kqResyncInterval :: duration
  kqWriteStatus :: bool

record kubernetes =
  kbName :: string
  kbNamespace :: string
  kbSelector :: string
  kbResync :: duration
  kbWriteStatus :: bool
  kbStopped :: bool
  kbChanges :: bool
  kbSpecs :: "string \<Rightarrow> FeedSpec option"
  kbIndex :: "string \<Rightarrow> namespacedName option"

definition defaultResyncInterval :: duration where
  "defaultResyncInterval = 10 * 60 * second"

subsection \<open>Reading a resource\<close>

definition objString :: "(string \<times> json) list \<Rightarrow> string \<Rightarrow> string" where
  "objString m key = (case map_of m key of Some (JStr s) \<Rightarrow> s | _ \<Rightarrow> [])"

fun only_strings :: "json list \<Rightarrow> string list" where
  "only_strings [] = []"
| "only_strings (JStr s # es) = s # only_strings es"
| "only_strings (_ # es) = only_strings es"

definition objStringSlice :: "(string \<times> json) list \<Rightarrow> string \<Rightarrow> string list" where
  "objStringSlice m key = (case map_of m key of Some (JArr raw) \<Rightarrow> only_strings raw | _ \<Rightarrow> [])"

fun only_string_fields :: "(string \<times> json) list \<Rightarrow> (string \<times> string) list" where
  "only_string_fields [] = []"
| "only_string_fields ((k, JStr s) # kvs) = (k, s) # only_string_fields kvs"
| "only_string_fields (_ # kvs) = only_string_fields kvs"

definition objStringMap :: "(string \<times> json) list \<Rightarrow> string \<Rightarrow> (string \<times> string) list" where
  "objStringMap m key = (case map_of m key of Some (JObj raw) \<Rightarrow> only_string_fields raw | _ \<Rightarrow> [])"

definition specFromUnstructured :: "(string \<times> json) list \<Rightarrow> FeedSpec result" where
  "specFromUnstructured obj =
     (let spec = (case map_of obj ''spec'' of Some (JObj m) \<Rightarrow> m | _ \<Rightarrow> []);
          url = objString spec ''url''
      in if TrimSpace url = [] then Inl (Errorf ''spec.url is required'' [])
         else Inr \<lparr>sp_URL = url, sp_Interval = TrimSpace (objString spec ''interval''), sp_Sinks = objStringSlice spec ''sinks'',
                   sp_HTTP = (case map_of spec ''http'' of
                                Some (JObj http) \<Rightarrow> Some \<lparr>sh_Timeout = TrimSpace (objString http ''timeout''),
                                                           sh_Headers = objStringMap http ''headers''\<rparr>
                              | _ \<Rightarrow> None)\<rparr>)"

subsection \<open>The cache\<close>

definition k8s_key :: "string \<Rightarrow> string \<Rightarrow> string" where
  "k8s_key ns name = ns @ ''/'' @ name"

definition signal :: "kubernetes \<Rightarrow> kubernetes" where
  "signal k = k\<lparr>kbChanges := True\<rparr>"

definition upsert :: "k8s_any \<Rightarrow> kubernetes \<Rightarrow> kubernetes" where
  "upsert obj k =
     (case obj of
        Unstructured u \<Rightarrow>
          (case specFromUnstructured (koObject u) of
             Inl err \<Rightarrow> k
           | Inr spec \<Rightarrow>
               let key = k8s_key (koNamespace u) (koName u);
                   index1 = (case kbSpecs k key of
                               Some old \<Rightarrow> if sp_URL old \<noteq> sp_URL spec then (kbIndex k)(sp_URL old := None) else kbIndex k
                             | None \<Rightarrow> kbIndex k)
               in k\<lparr>kbSpecs := (kbSpecs k)(key \<mapsto> spec),
                    kbIndex := index1(sp_URL spec \<mapsto> \<lparr>nnNamespace = koNamespace u, nnName = koName u\<rparr>)\<rparr>)
      | _ \<Rightarrow> k)"

definition removed_object :: "k8s_any \<Rightarrow> k8s_object option" where
  "removed_object obj = (case obj of Unstructured u \<Rightarrow> Some u | Tombstone t \<Rightarrow> t | OtherObj \<Rightarrow> None)"

definition remove :: "k8s_any \<Rightarrow> kubernetes \<Rightarrow> kubernetes" where
  "remove obj k =
     (case removed_object obj of
        None \<Rightarrow> k
      | Some u \<Rightarrow>
          let key = k8s_key (koNamespace u) (koName u);
              index1 = (case kbSpecs k key of Some s \<Rightarrow> (kbIndex k)(sp_URL s := None) | None \<Rightarrow> kbIndex k)
          in k\<lparr>kbSpecs := (kbSpecs k)(key := None), kbIndex := index1\<rparr>)"

datatype k8s_event = AddFunc k8s_any | UpdateFunc k8s_any k8s_any | DeleteFunc k8s_any

fun handle_event :: "k8s_event \<Rightarrow> kubernetes \<Rightarrow> kubernetes" where
  "handle_event (AddFunc obj) k = signal (upsert obj k)"
| "handle_event (UpdateFunc _ obj) k = signal (upsert obj k)"
| "handle_event (DeleteFunc obj) k = signal (remove obj k)"

definition k8s_Close :: "kubernetes \<Rightarrow> kubernetes" where
  "k8s_Close k = k\<lparr>kbStopped := True\<rparr>"

definition k8s_Feeds :: "(string \<Rightarrow> duration result) \<Rightarrow> string list \<Rightarrow> kubernetes \<Rightarrow> FeedConfig list result" where
  "k8s_Feeds pd order k = SpecsToConfigs pd (List.map_filter (kbSpecs k) order)"

text \<open>\<open>addHandler\<close> is the answer of the informer to the handler, \<open>events\<close> what it reports before it has synced or
  the context ends (\<open>synced\<close>).\<close>

definition newKubernetesWithClient ::
    "go_error option \<Rightarrow> k8s_event list \<Rightarrow> bool \<Rightarrow> string \<Rightarrow> KubernetesOptions \<Rightarrow> kubernetes result" where
  "newKubernetesWithClient addHandler events synced name opts =
     (let k = \<lparr>kbName = name, kbNamespace = kqNamespace opts, kbSelector = kqLabelSelector opts,
               kbResync = (if kqResyncInterval opts \<le> 0 then defaultResyncInterval else kqResyncInterval opts),
               kbWriteStatus = kqWriteStatus opts, kbStopped = False, kbChanges = False,
               kbSpecs = (\<lambda>_. None), kbIndex = (\<lambda>_. None)\<rparr>
      in case addHandler of
           Some err \<Rightarrow> Inl (Errorf ''kubernetes feed source %q: add handler: %w'' [FStr name, FWrap err])
         | None \<Rightarrow>
             if \<not> synced then Inl (Errorf ''kubernetes feed source %q: cache sync failed'' [FStr name])
             else Inr (fold handle_event events k))"

text \<open>The credentials: in the cluster, or from a file; \<open>dyn\<close> builds the dynamic client.\<close>

definition NewKubernetes ::
    "'c result \<Rightarrow> (string \<Rightarrow> 'c result) \<Rightarrow> ('c \<Rightarrow> go_error option) \<Rightarrow> go_error option \<Rightarrow> k8s_event list \<Rightarrow> bool \<Rightarrow> KubernetesOptions \<Rightarrow> string \<Rightarrow>
     kubernetes result" where
  "NewKubernetes inCluster fromFile dyn addHandler events synced opts kubeconfig =
     (case (if kubeconfig = [] then inCluster else fromFile kubeconfig) of
        Inl err \<Rightarrow> Inl (Errorf ''kubernetes feed source %q: rest config: %w'' [FStr (kqName opts), FWrap err])
      | Inr cfg \<Rightarrow>
          (case dyn cfg of
             Some err \<Rightarrow> Inl (Errorf ''kubernetes feed source %q: dynamic client: %w'' [FStr (kqName opts), FWrap err])
           | None \<Rightarrow> newKubernetesWithClient addHandler events synced (kqName opts) opts))"

subsection \<open>Status\<close>

record 's k8s_api =
  kaGet :: "ctx \<Rightarrow> namespacedName \<Rightarrow> 's \<Rightarrow> k8s_object result \<times> 's"
  kaUpdateStatus :: "ctx \<Rightarrow> namespacedName \<Rightarrow> k8s_object \<Rightarrow> 's \<Rightarrow> 's"

definition poll_status :: "(go_error \<Rightarrow> string) \<Rightarrow> int \<Rightarrow> int \<Rightarrow> go_error option \<Rightarrow> time \<Rightarrow> (string \<times> json) list" where
  "poll_status txt generation changeCount pollErr when =
     (let lastError = (case pollErr of Some e \<Rightarrow> txt e | None \<Rightarrow> []);
          (readyStatus, reason, message) =
            (case pollErr of Some e \<Rightarrow> (''False'', ''PollError'', txt e) | None \<Rightarrow> (''True'', ''Polled'', []))
      in [(''observedGeneration'', JInt generation), (''lastPollTime'', JStr (RFC3339 when)),
          (''lastChangeCount'', JInt changeCount), (''lastError'', JStr lastError),
          (''conditions'', JArr [JObj [(''type'', JStr ''Ready''), (''status'', JStr readyStatus), (''reason'', JStr reason),
             (''message'', JStr message), (''lastTransitionTime'', JStr (RFC3339 when))]])])"

definition ReportPoll ::
    "(go_error \<Rightarrow> string) \<Rightarrow> 's k8s_api \<Rightarrow> kubernetes \<Rightarrow> ctx \<Rightarrow> string \<Rightarrow> int \<Rightarrow> go_error option \<Rightarrow> time \<Rightarrow> 's \<Rightarrow> 's" where
  "ReportPoll txt api k c feedURL changeCount pollErr when s =
     (if \<not> kbWriteStatus k then s
      else case kbIndex k feedURL of
        None \<Rightarrow> s
      | Some nn \<Rightarrow>
          (case kaGet api c nn s of
             (Inl err, s1) \<Rightarrow> s1
           | (Inr cur, s1) \<Rightarrow>
               let st = poll_status txt (koGeneration cur) changeCount pollErr when
               in kaUpdateStatus api c nn (cur\<lparr>koObject := AList.update ''status'' (JObj st) (koObject cur)\<rparr>) s1))"

subsection \<open>The index and the specs\<close>

definition nn_key :: "namespacedName \<Rightarrow> string" where
  "nn_key nn = k8s_key (nnNamespace nn) (nnName nn)"

text \<open>Sound: an entry names a resource that asks for the URL.  Complete: every resource is the entry of its URL.\<close>

definition index_sound :: "kubernetes \<Rightarrow> bool" where
  "index_sound k \<longleftrightarrow> (\<forall>u nn. kbIndex k u = Some nn \<longrightarrow> (\<exists>s. kbSpecs k (nn_key nn) = Some s \<and> sp_URL s = u))"

definition index_complete :: "kubernetes \<Rightarrow> bool" where
  "index_complete k \<longleftrightarrow> (\<forall>key s. kbSpecs k key = Some s \<longrightarrow> (\<exists>nn. kbIndex k (sp_URL s) = Some nn \<and> nn_key nn = key))"

definition urls_distinct :: "kubernetes \<Rightarrow> bool" where
  "urls_distinct k \<longleftrightarrow>
     (\<forall>key key' s s'. kbSpecs k key = Some s \<longrightarrow> kbSpecs k key' = Some s' \<longrightarrow> sp_URL s = sp_URL s' \<longrightarrow> key = key')"

lemma signal_same [simp]:
  "index_sound (signal k) = index_sound k" "index_complete (signal k) = index_complete k" "urls_distinct (signal k) = urls_distinct k"
  "kbSpecs (signal k) = kbSpecs k" "kbIndex (signal k) = kbIndex k" "kbWriteStatus (signal k) = kbWriteStatus k"
  by (simp_all add: index_sound_def index_complete_def urls_distinct_def signal_def)

lemma upsert_sound: "index_sound k \<Longrightarrow> index_sound (upsert obj k)"
  by (auto simp: index_sound_def upsert_def nn_key_def Let_def split: k8s_any.split sum.split option.split) fastforce+

lemma remove_sound: "index_sound k \<Longrightarrow> index_sound (remove obj k)"
  by (auto simp: index_sound_def remove_def Let_def split: option.split) fastforce+

lemma upsert_complete:
  assumes "index_complete k" "urls_distinct k" "urls_distinct (upsert obj k)"
  shows "index_complete (upsert obj k)"
proof (cases "\<exists>u spec. obj = Unstructured u \<and> specFromUnstructured (koObject u) = Inr spec")
  case False
  then have "upsert obj k = k" by (auto simp: upsert_def split: k8s_any.split sum.split)
  with assms(1) show ?thesis by simp
next
  case True
  then obtain u spec where o: "obj = Unstructured u" and sp: "specFromUnstructured (koObject u) = Inr spec" by blast
  let ?key = "k8s_key (koNamespace u) (koName u)" and ?k = "upsert obj k"
  have specs: "kbSpecs ?k = (kbSpecs k)(?key \<mapsto> spec)" using o sp by (simp add: upsert_def Let_def)
  have new: "kbIndex ?k (sp_URL spec) = Some \<lparr>nnNamespace = koNamespace u, nnName = koName u\<rparr>"
    using o sp by (simp add: upsert_def Let_def)
  have other: "kbIndex ?k v = kbIndex k v"
    if "v \<noteq> sp_URL spec" "\<And>old. kbSpecs k ?key = Some old \<Longrightarrow> v \<noteq> sp_URL old" for v
    using o sp that by (simp add: upsert_def Let_def split: option.split)
  show ?thesis
    unfolding index_complete_def
  proof (intro allI impI)
    fix key s assume s: "kbSpecs ?k key = Some s"
    show "\<exists>nn. kbIndex ?k (sp_URL s) = Some nn \<and> nn_key nn = key"
    proof (cases "key = ?key")
      case True
      with s specs new show ?thesis by (simp add: nn_key_def)
    next
      case False
      with s specs have old: "kbSpecs k key = Some s" by simp
      have "sp_URL s \<noteq> sp_URL spec" using assms(3) False s specs unfolding urls_distinct_def by (metis fun_upd_same)
      moreover have "sp_URL s \<noteq> sp_URL o'" if "kbSpecs k ?key = Some o'" for o'
        using assms(2) False old that unfolding urls_distinct_def by blast
      ultimately show ?thesis using assms(1) old other unfolding index_complete_def by auto
    qed
  qed
qed

lemma remove_complete:
  assumes "index_complete k" "urls_distinct k"
  shows "index_complete (remove obj k)"
proof (cases "removed_object obj")
  case None
  with assms(1) show ?thesis by (simp add: remove_def)
next
  case (Some u)
  let ?key = "k8s_key (koNamespace u) (koName u)"
  show ?thesis
    unfolding index_complete_def
  proof (intro allI impI)
    fix key s assume s: "kbSpecs (remove obj k) key = Some s"
    with Some have old: "kbSpecs k key = Some s" "key \<noteq> ?key" by (auto simp: remove_def Let_def split: if_splits)
    then have "sp_URL s \<noteq> sp_URL o'" if "kbSpecs k ?key = Some o'" for o'
      using assms(2) that unfolding urls_distinct_def by blast
    with Some have "kbIndex (remove obj k) (sp_URL s) = kbIndex k (sp_URL s)" by (auto simp: remove_def Let_def split: option.split)
    with assms(1) old show "\<exists>nn. kbIndex (remove obj k) (sp_URL s) = Some nn \<and> nn_key nn = key"
      unfolding index_complete_def by auto
  qed
qed

text \<open>The states an informer can bring about from an empty cache; the flag says that no two resources asked for
  one URL at any moment.\<close>

inductive watched :: "kubernetes \<Rightarrow> bool \<Rightarrow> bool" where
  start: "kbSpecs k = (\<lambda>_. None) \<Longrightarrow> kbIndex k = (\<lambda>_. None) \<Longrightarrow> watched k True"
| event: "watched k d \<Longrightarrow> watched (handle_event e k) (d \<and> urls_distinct (handle_event e k))"

lemma watched_inv:
  assumes "watched k d"
  shows "index_sound k \<and> (d \<longrightarrow> urls_distinct k \<and> index_complete k)"
  using assms
proof (induction rule: watched.induct)
  case (start k)
  then show ?case by (simp add: index_sound_def index_complete_def urls_distinct_def)
next
  case (event k d e)
  then show ?case by (cases e) (auto simp: upsert_sound remove_sound upsert_complete remove_complete)
qed

definition write_status ::
    "(go_error \<Rightarrow> string) \<Rightarrow> 's k8s_api \<Rightarrow> namespacedName \<Rightarrow> ctx \<Rightarrow> int \<Rightarrow> go_error option \<Rightarrow> time \<Rightarrow> 's \<Rightarrow> 's" where
  "write_status txt api nn c n e t s =
     (case kaGet api c nn s of
        (Inl err, s1) \<Rightarrow> s1
      | (Inr cur, s1) \<Rightarrow>
          kaUpdateStatus api c nn
            (cur\<lparr>koObject := AList.update ''status'' (JObj (poll_status txt (koGeneration cur) n e t)) (koObject cur)\<rparr>) s1)"

lemma ReportPoll_index:
  "ReportPoll txt api k c url n e t s =
     (if kbWriteStatus k then (case kbIndex k url of None \<Rightarrow> s | Some nn \<Rightarrow> write_status txt api nn c n e t s) else s)"
  by (auto simp: ReportPoll_def write_status_def Let_def split: option.split prod.split sum.split)


text \<open>Two resources with one URL: when the first is deleted the second is still served, and its polls are no longer
  reported.\<close>

lemma shared_url_unreported:
  assumes "specFromUnstructured (koObject a) = Inr sa" "specFromUnstructured (koObject b) = Inr sb" "sp_URL sa = sp_URL sb"
    and "k8s_key (koNamespace a) (koName a) \<noteq> k8s_key (koNamespace b) (koName b)"
  shows "let k' = fold handle_event [AddFunc (Unstructured a), AddFunc (Unstructured b), DeleteFunc (Unstructured a)] k in
    kbSpecs k' (k8s_key (koNamespace b) (koName b)) = Some sb \<and> ReportPoll txt api k' c (sp_URL sb) n e t s = s"
  using assms by (auto simp: ReportPoll_index upsert_def remove_def removed_object_def Let_def split: option.split)

text \<open>An update that drops the URL leaves the previous spec in service.\<close>

lemma invalid_update_keeps:
  "specFromUnstructured (koObject u) = Inl err \<Longrightarrow> kbSpecs (handle_event (UpdateFunc v (Unstructured u)) k) = kbSpecs k"
  by (simp add: upsert_def)

text \<open>One resource whose interval does not parse makes the whole source fail.\<close>

lemma specs_loop_fails: "s \<in> set ss \<Longrightarrow> ToFeedConfig pd s = Inl err \<Longrightarrow> isl (specs_loop pd ss out)"
  by (induction ss arbitrary: out) (auto split: sum.split)

lemma k8s_Feeds_fails:
  assumes "kbSpecs k key = Some s" "key \<in> set order" "ToFeedConfig pd s = Inl err"
  shows "isl (k8s_Feeds pd order k)"
  using assms specs_loop_fails [of s "List.map_filter (kbSpecs k) order" pd err]
  by (force simp: k8s_Feeds_def SpecsToConfigs_def List.map_filter_def)

definition toy_cr :: "string \<Rightarrow> string \<Rightarrow> k8s_object" where
  "toy_cr n u = \<lparr>koNamespace = ''d'', koName = n, koGeneration = 1, koObject = [(''spec'', JObj [(''url'', JStr u)])]\<rparr>"

definition toy_k8s :: kubernetes where
  "toy_k8s = \<lparr>kbName = ''k'', kbNamespace = [], kbSelector = [], kbResync = 1, kbWriteStatus = True, kbStopped = False, kbChanges = False,
     kbSpecs = (\<lambda>_. None), kbIndex = (\<lambda>_. None)\<rparr>"

definition toy_api :: "(namespacedName list) k8s_api" where
  "toy_api = \<lparr>kaGet = (\<lambda>_ nn s. (Inr (toy_cr (nnName nn) ''x''), s)), kaUpdateStatus = (\<lambda>_ nn _ s. s @ [nn])\<rparr>"


end
