(* ===== verification/Sources_Remote.thy ===== *)
theory Sources_Remote
  imports Feedsource Pg_Pool Feed_Fetch Feed_Store
begin

section \<open>Feeds from a server, a table and a file\<close>

text \<open>
  \<^verbatim>\<open>internal/feedsource/sources/http\<close>, \<^verbatim>\<open>postgres\<close> and \<^verbatim>\<open>file\<close>.  The first two are polled and keep a poll loop of
  \<^verbatim>\<open>internal/feedsource/poll.go\<close>; the file source is told by a watch on the directory and waits until writing has
  stopped.  The HTTP client, the database and the file system are arguments.
\<close>

subsection \<open>HTTP\<close>

definition defaultHTTPTimeout :: duration where "defaultHTTPTimeout = 30 * second"
definition source_maxBodyBytes :: nat where "source_maxBodyBytes = 10 * 2 ^ 20"

record http_source =
  hsURL :: string
  hsHeaders :: "(string \<times> string) list"
  hsTimeout :: duration
  hsTLS :: "tls_config option"
  hsName :: string
  hsInterval :: duration
  hsETag :: string
  hsLastModified :: string
  hsCached :: "FeedConfig list"

definition NewHTTP ::
    "tls_env \<Rightarrow> string \<Rightarrow> string \<Rightarrow> duration \<Rightarrow> (string \<times> string) list \<Rightarrow> duration \<Rightarrow> tls_options option \<Rightarrow> http_source result" where
  "NewHTTP te name url timeout headers interval tls =
     (if TrimSpace url = [] then Inl (Errorf ''http feed source %q: url is required'' [FStr name])
      else case (case tls of None \<Rightarrow> Inr None | Some t \<Rightarrow> (case buildHTTPSourceTLS te t of Inl err \<Rightarrow> Inl err | Inr tc \<Rightarrow> Inr (Some tc))) of
        Inl err \<Rightarrow> Inl (Errorf ''http feed source %q: %w'' [FStr name, FWrap err])
      | Inr tc \<Rightarrow>
          Inr \<lparr>hsURL = url, hsHeaders = headers, hsTimeout = (if timeout \<le> 0 then defaultHTTPTimeout else timeout), hsTLS = tc,
               hsName = name, hsInterval = interval, hsETag = [], hsLastModified = [], hsCached = []\<rparr>)"

record list_response =
  lrStatus :: int
  lrETag :: string
  lrLastModified :: string
  lrBody :: "string result"    \<comment> \<open>all of it, or the error of reading\<close>

fun set_all :: "(string \<times> string) list \<Rightarrow> header \<Rightarrow> header" where
  "set_all [] h = h"
| "set_all ((k, v) # kvs) h = set_all kvs (header_Set k v h)"

definition list_headers :: "http_source \<Rightarrow> header" where
  "list_headers h =
     (let h0 = set_all (hsHeaders h) (\<lambda>_. None);
          h1 = (if hsETag h \<noteq> [] then header_Set ''If-None-Match'' (hsETag h) h0 else h0)
      in if hsLastModified h \<noteq> [] then header_Set ''If-Modified-Since'' (hsLastModified h) h1 else h1)"

text \<open>\<open>get\<close> is \<^verbatim>\<open>client.Do\<close> of a \<^verbatim>\<open>GET\<close>, \<open>valid\<close> what \<^verbatim>\<open>NewRequestWithContext\<close> says of the URL, and \<open>decode\<close> the decoding
  into \<^verbatim>\<open>feedListResponse\<close>.\<close>

definition source_fetch ::
    "(string \<Rightarrow> duration result) \<Rightarrow> (string \<Rightarrow> FeedSpec list option result) \<Rightarrow> (string \<Rightarrow> go_error option) \<Rightarrow>
     (ctx \<Rightarrow> duration \<Rightarrow> string \<Rightarrow> header \<Rightarrow> 's \<Rightarrow> list_response result \<times> 's) \<Rightarrow> ctx \<Rightarrow> http_source \<Rightarrow> 's \<Rightarrow>
     FeedConfig list result \<times> http_source \<times> 's" where
  "source_fetch pd decode valid get c h s =
     (case valid (hsURL h) of
        Some err \<Rightarrow> (Inl (Errorf ''http feed source %q: build request: %w'' [FStr (hsName h), FWrap err]), h, s)
      | None \<Rightarrow>
          (case get c (hsTimeout h) (hsURL h) (list_headers h) s of
             (Inl err, s1) \<Rightarrow> (Inl (Errorf ''http feed source %q: get: %w'' [FStr (hsName h), FWrap err]), h, s1)
           | (Inr resp, s1) \<Rightarrow>
               if lrStatus resp = 304 then
                 (if hsETag h = [] \<and> hsLastModified h = []
                  then (Inl (Errorf ''http feed source %q: got 304 without a prior conditional request'' [FStr (hsName h)]), h, s1)
                  else (Inr (hsCached h), h, s1))
               else if lrStatus resp \<ge> 200 \<and> lrStatus resp < 300 then
                 (case lrBody resp of
                    Inl err \<Rightarrow> (Inl (Errorf ''http feed source %q: read body: %w'' [FStr (hsName h), FWrap err]), h, s1)
                  | Inr full \<Rightarrow>
                      let body = take (source_maxBodyBytes + 1) full in
                      if length body > source_maxBodyBytes
                      then (Inl (Errorf ''http feed source %q: response body exceeds %d bytes''
                              [FStr (hsName h), FInt (int source_maxBodyBytes)]), h, s1)
                      else case decode body of
                        Inl err \<Rightarrow> (Inl (Errorf ''http feed source %q: decode: %w'' [FStr (hsName h), FWrap err]), h, s1)
                      | Inr None \<Rightarrow> (Inl (Errorf ''http feed source %q: response missing \"feeds\" key'' [FStr (hsName h)]), h, s1)
                      | Inr (Some specs) \<Rightarrow>
                          (case SpecsToConfigs pd specs of
                             Inl err \<Rightarrow> (Inl (Errorf ''http feed source %q: %w'' [FStr (hsName h), FWrap err]), h, s1)
                           | Inr feeds \<Rightarrow>
                               (Inr feeds, h\<lparr>hsETag := lrETag resp, hsLastModified := lrLastModified resp, hsCached := feeds\<rparr>, s1)))
               else (Inl (Errorf ''http feed source %q: unexpected status %d'' [FStr (hsName h), FInt (lrStatus resp)]), h, s1)))"

text \<open>What an unconditional request for a list would give.\<close>

definition list_of :: "(string \<Rightarrow> duration result) \<Rightarrow> (string \<Rightarrow> FeedSpec list option result) \<Rightarrow> string \<Rightarrow> FeedConfig list option" where
  "list_of pd decode body =
     (if length body > source_maxBodyBytes then None
      else case decode body of
        Inr (Some specs) \<Rightarrow> (case SpecsToConfigs pd specs of Inr feeds \<Rightarrow> Some feeds | Inl _ \<Rightarrow> None)
      | _ \<Rightarrow> None)"

text \<open>A server that has one list at a time and tags it; it says 304 to a request for the tag it has.\<close>

definition tagging_server ::
    "(string \<Rightarrow> string) \<Rightarrow> ('s \<Rightarrow> string) \<Rightarrow> (ctx \<Rightarrow> duration \<Rightarrow> string \<Rightarrow> header \<Rightarrow> 's \<Rightarrow> list_response result \<times> 's) \<Rightarrow> bool" where
  "tagging_server tag current get \<longleftrightarrow>
     (\<forall>c d u hd s. \<exists>s'. current s' = current s \<and>
        get c d u hd s =
          (Inr (if hd ''If-None-Match'' = Some [tag (current s)]
                then \<lparr>lrStatus = 304, lrETag = tag (current s), lrLastModified = [], lrBody = Inr []\<rparr>
                else \<lparr>lrStatus = 200, lrETag = tag (current s), lrLastModified = [], lrBody = Inr (current s)\<rparr>), s'))"

definition cache_ok ::
    "(string \<Rightarrow> duration result) \<Rightarrow> (string \<Rightarrow> FeedSpec list option result) \<Rightarrow> (string \<Rightarrow> string) \<Rightarrow> http_source \<Rightarrow> bool" where
  "cache_ok pd decode tag h \<longleftrightarrow>
     hsLastModified h = [] \<and> (hsETag h \<noteq> [] \<longrightarrow> (\<exists>b. tag b = hsETag h \<and> list_of pd decode b = Some (hsCached h)))"

definition plain_headers :: "http_source \<Rightarrow> bool" where
  "plain_headers h \<longleftrightarrow> (\<forall>(k, v)\<in>set (hsHeaders h). CanonicalHeaderKey k \<noteq> ''If-None-Match'')"

lemma set_all_other: "\<forall>(k, v)\<in>set kvs. CanonicalHeaderKey k \<noteq> x \<Longrightarrow> set_all kvs h x = h x"
  by (induction kvs h rule: set_all.induct) (auto simp: header_Set_def)

lemma list_headers_tag:
  assumes "plain_headers h" "hsLastModified h = []"
  shows "list_headers h ''If-None-Match'' = (if hsETag h = [] then None else Some [hsETag h])"
proof -
  have "CanonicalHeaderKey ''If-None-Match'' = ''If-None-Match''"
    by (simp add: CanonicalHeaderKey_def is_token_byte_def is_lower_def is_upper_def byte_def)
  then show ?thesis
    using assms set_all_other [of "hsHeaders h" "''If-None-Match''"]
    by (simp add: list_headers_def plain_headers_def header_Set_def Let_def)
qed

lemma NewHTTP_cache_ok: "NewHTTP te name url timeout headers interval tls = Inr h \<Longrightarrow> cache_ok pd decode tag h"
  by (auto simp: NewHTTP_def cache_ok_def split: if_splits sum.splits)

text \<open>A list that was sent is taken in exactly when it is usable.\<close>

lemma source_fetch_200:
  assumes "valid (hsURL h) = None"
    and "get c (hsTimeout h) (hsURL h) (list_headers h) s = (Inr \<lparr>lrStatus = 200, lrETag = e, lrLastModified = m, lrBody = Inr full\<rparr>, s1)"
  shows "\<exists>err. source_fetch pd decode valid get c h s =
    (case list_of pd decode full of
       None \<Rightarrow> (Inl err, h, s1)
     | Some feeds \<Rightarrow> (Inr feeds, h\<lparr>hsETag := e, hsLastModified := m, hsCached := feeds\<rparr>, s1))"
  using assms by (auto simp: source_fetch_def list_of_def Let_def split: sum.split option.split)

text \<open>C36: conditional requests do not change what the HTTP source reports.  Against a server whose tags tell its
  lists apart, every fetch gives the list that an unconditional request would decode at that moment, cached or
  not, or an error exactly when that list is unusable; and the cache stays right.\<close>

theorem source_fetch_transparent:
  assumes server: "tagging_server tag current get" "inj tag" "\<And>b. tag b \<noteq> []"
    and h: "cache_ok pd decode tag h" "plain_headers h" "valid (hsURL h) = None"
    and run: "source_fetch pd decode valid get c h s = (r, h', s')"
  shows "(case r of Inr feeds \<Rightarrow> list_of pd decode (current s) = Some feeds | Inl _ \<Rightarrow> list_of pd decode (current s) = None) \<and>
    cache_ok pd decode tag h'"
proof -
  have tagged: "list_headers h ''If-None-Match'' = (if hsETag h = [] then None else Some [hsETag h])"
    using list_headers_tag h(1,2) by (simp add: cache_ok_def)
  obtain s1 where get: "get c (hsTimeout h) (hsURL h) (list_headers h) s =
      (Inr (if list_headers h ''If-None-Match'' = Some [tag (current s)]
            then \<lparr>lrStatus = 304, lrETag = tag (current s), lrLastModified = [], lrBody = Inr []\<rparr>
            else \<lparr>lrStatus = 200, lrETag = tag (current s), lrLastModified = [], lrBody = Inr (current s)\<rparr>), s1)"
    using server(1) unfolding tagging_server_def by blast
  show ?thesis
  proof (cases "hsETag h = tag (current s)")
    case True
    with h(1) server(2,3) have "list_of pd decode (current s) = Some (hsCached h)"
      unfolding cache_ok_def by (metis injD)
    with run get h tagged True server(3) show ?thesis by (auto simp: source_fetch_def)
  next
    case False
    with tagged have no: "list_headers h ''If-None-Match'' \<noteq> Some [tag (current s)]" by auto
    then have "get c (hsTimeout h) (hsURL h) (list_headers h) s =
        (Inr \<lparr>lrStatus = 200, lrETag = tag (current s), lrLastModified = [], lrBody = Inr (current s)\<rparr>, s1)"
      using get by simp
    from source_fetch_200 [where valid = valid and get = get and h = h and pd = pd and decode = decode, OF h(3) this] run show ?thesis
      using h(1) by (cases "list_of pd decode (current s)") (auto simp: cache_ok_def)
  qed
qed

theorem source_fetch_transparent_witness:
  "let h = \<lparr>hsURL = ''http://l'', hsHeaders = [], hsTimeout = 1, hsTLS = None, hsName = ''h'', hsInterval = 1, hsETag = ''2x'',
            hsLastModified = [], hsCached = []\<rparr>;
       get = (\<lambda>c d u hd s. (Inr (if hd ''If-None-Match'' = Some [CHR ''2'' # s]
          then \<lparr>lrStatus = 304, lrETag = CHR ''2'' # s, lrLastModified = [], lrBody = Inr []\<rparr>
          else \<lparr>lrStatus = 200, lrETag = CHR ''2'' # s, lrLastModified = [], lrBody = Inr s\<rparr>), s))
   in case fst (source_fetch (\<lambda>_. Inr 0) (\<lambda>_. Inr (Some [])) (\<lambda>_. None) get None h ''y'') of Inr feeds \<Rightarrow> feeds = [] | Inl _ \<Rightarrow> False"
proof -
  let ?h = "\<lparr>hsURL = ''http://l'', hsHeaders = [], hsTimeout = 1, hsTLS = None, hsName = ''h'', hsInterval = 1, hsETag = ''2x'',
            hsLastModified = [], hsCached = []\<rparr>"
  let ?get = "\<lambda>c d u hd s. (Inr (if hd ''If-None-Match'' = Some [CHR ''2'' # s]
          then \<lparr>lrStatus = 304, lrETag = CHR ''2'' # s, lrLastModified = [], lrBody = Inr []\<rparr>
          else \<lparr>lrStatus = 200, lrETag = CHR ''2'' # s, lrLastModified = [], lrBody = Inr s\<rparr>), s)"
  obtain r h' s' where run: "source_fetch (\<lambda>_. Inr 0) (\<lambda>_. Inr (Some [])) (\<lambda>_. None) ?get None ?h ''y'' = (r, h', s')"
    by (rule prod_cases3)
  have "list_of (\<lambda>_. Inr 0) (\<lambda>_. Inr (Some [])) b = Some []" if "length b \<le> 5" for b
    using that by (simp add: list_of_def source_maxBodyBytes_def SpecsToConfigs_def)
  then have l: "list_of (\<lambda>_. Inr 0) (\<lambda>_. Inr (Some [])) ''x'' = Some []" "list_of (\<lambda>_. Inr 0) (\<lambda>_. Inr (Some [])) ''y'' = Some []" by simp_all
  have "(case r of Inr feeds \<Rightarrow> list_of (\<lambda>_. Inr 0) (\<lambda>_. Inr (Some [])) ((\<lambda>s. s) ''y'') = Some feeds
      | Inl _ \<Rightarrow> list_of (\<lambda>_. Inr 0) (\<lambda>_. Inr (Some [])) ((\<lambda>s. s) ''y'') = None) \<and> cache_ok (\<lambda>_. Inr 0) (\<lambda>_. Inr (Some [])) (Cons (CHR ''2'')) h'"
    by (rule source_fetch_transparent [OF _ _ _ _ _ _ run]) (auto simp: tagging_server_def cache_ok_def plain_headers_def l)
  with l run show ?thesis by (auto simp: Let_def split: sum.splits)
qed

subsection \<open>PostgreSQL\<close>

text \<open>What a column of a row may hold, as the driver decodes it; the last case carries the name of its type.\<close>

datatype pg_value = PgNull | PgText string | PgBytes string | PgTexts "string list" | PgArray "pg_value list" | PgOther string

fun pg_type :: "pg_value \<Rightarrow> string" where
  "pg_type PgNull = ''<nil>''"
| "pg_type (PgText _) = ''string''"
| "pg_type (PgBytes _) = ''[]uint8''"
| "pg_type (PgTexts _) = ''[]string''"
| "pg_type (PgArray _) = ''[]interface {}''"
| "pg_type (PgOther t) = t"

definition rowString :: "(string \<times> pg_value) list \<Rightarrow> string \<Rightarrow> string result" where
  "rowString m key =
     (case map_of m key of
        None \<Rightarrow> Inr [] | Some PgNull \<Rightarrow> Inr []
      | Some (PgText s) \<Rightarrow> Inr s | Some (PgBytes s) \<Rightarrow> Inr s
      | Some v \<Rightarrow> Inl (Errorf ''column %q: expected text, got %T'' [FStr key, FStr (pg_type v)]))"

text \<open>\<open>unmarshal\<close> decodes a JSON array of strings.\<close>

definition parseSinkText :: "(string \<Rightarrow> string list result) \<Rightarrow> string \<Rightarrow> string list" where
  "parseSinkText unmarshal s =
     (let trimmed = TrimSpace s in
      if trimmed = [] then []
      else if HasPrefix trimmed ''['' then (case unmarshal trimmed of Inr arr \<Rightarrow> arr | Inl _ \<Rightarrow> [trimmed])
      else [trimmed])"

fun text_elements :: "string \<Rightarrow> pg_value list \<Rightarrow> string list result" where
  "text_elements key [] = Inr []"
| "text_elements key (e # es) =
     (case (case e of PgText s \<Rightarrow> Some s | PgBytes s \<Rightarrow> Some s | _ \<Rightarrow> None) of
        None \<Rightarrow> Inl (Errorf ''column %q: element %T is not text'' [FStr key, FStr (pg_type e)])
      | Some s \<Rightarrow> (case text_elements key es of Inl err \<Rightarrow> Inl err | Inr ss \<Rightarrow> Inr (s # ss)))"

definition rowStringSlice :: "(string \<Rightarrow> string list result) \<Rightarrow> (string \<times> pg_value) list \<Rightarrow> string \<Rightarrow> string list result" where
  "rowStringSlice unmarshal m key =
     (case map_of m key of
        None \<Rightarrow> Inr [] | Some PgNull \<Rightarrow> Inr []
      | Some (PgTexts ss) \<Rightarrow> Inr ss
      | Some (PgArray es) \<Rightarrow> text_elements key es
      | Some (PgText s) \<Rightarrow> Inr (parseSinkText unmarshal s)
      | Some (PgBytes s) \<Rightarrow> Inr (parseSinkText unmarshal s)
      | Some (PgOther t) \<Rightarrow> Inl (Errorf ''column %q: expected text[] or text, got %T'' [FStr key, FStr t]))"

definition specFromRow :: "(string \<Rightarrow> string list result) \<Rightarrow> (string \<times> pg_value) list \<Rightarrow> FeedSpec result" where
  "specFromRow unmarshal m =
     (case rowString m ''url'' of
        Inl err \<Rightarrow> Inl err
      | Inr url \<Rightarrow>
          if TrimSpace url = [] then Inl (Errorf ''url is required'' [])
          else case rowString m ''interval'' of
            Inl err \<Rightarrow> Inl err
          | Inr interval \<Rightarrow>
              (case rowStringSlice unmarshal m ''sinks'' of
                 Inl err \<Rightarrow> Inl err
               | Inr sinks \<Rightarrow> Inr \<lparr>sp_URL = url, sp_Interval = TrimSpace interval, sp_Sinks = sinks, sp_HTTP = None\<rparr>))"

definition validPGIdentifier :: "string \<Rightarrow> bool" where
  "validPGIdentifier s = (if s = [] \<or> length s > 63 then False else id_runes 0 (runes s))"

definition defaultPostgresTable :: string where "defaultPostgresTable = ''feeds''"

record 'p postgres_source =
  psPool :: 'p
  psQuery :: string
  psName :: string
  psInterval :: duration
  psStopped :: bool

definition source_query :: "string \<Rightarrow> string \<Rightarrow> string \<Rightarrow> string result" where
  "source_query name table0 query =
     (if table0 \<noteq> [] \<and> query \<noteq> []
      then Inl (Errorf ''postgres feed source %q: table and query are mutually exclusive'' [FStr name])
      else if query \<noteq> [] then Inr query
      else
        let table = (if table0 = [] then defaultPostgresTable else table0) in
        if \<not> validPGIdentifier table
        then Inl (Errorf ''postgres feed source %q: invalid table %q'' [FStr name, FStr table])
        else Inr (''SELECT * FROM '' @ table))"

definition NewPostgres ::
    "('p, 's) pgx \<Rightarrow> tls_env \<Rightarrow> ctx \<Rightarrow> string \<Rightarrow> string \<Rightarrow> string \<Rightarrow> string \<Rightarrow> duration \<Rightarrow> tls_options option \<Rightarrow> 's \<Rightarrow>
     'p postgres_source result \<times> 's" where
  "NewPostgres px te c name dsn table query0 interval tls s =
     (if TrimSpace dsn = [] then (Inl (Errorf ''postgres feed source %q: dsn is required'' [FStr name]), s)
      else case source_query name table query0 of
        Inl err \<Rightarrow> (Inl err, s)
      | Inr query \<Rightarrow>
          (case pxParseConfig px dsn of
             Inl err \<Rightarrow> (Inl (Errorf ''postgres feed source %q: parse dsn: %w'' [FStr name, FWrap err]), s)
           | Inr cfg0 \<Rightarrow>
               (case (case tls of
                        None \<Rightarrow> Inr cfg0
                      | Some t \<Rightarrow>
                          (case buildPostgresTLS te t (pxHost cfg0) of
                             Inl err \<Rightarrow> Inl (Errorf ''postgres feed source %q: %w'' [FStr name, FWrap err])
                           | Inr tc \<Rightarrow> Inr (force_tls cfg0 tc))) of
                  Inl err \<Rightarrow> (Inl err, s)
                | Inr cfg \<Rightarrow>
                    (case pxNewWithConfig px c cfg s of
                       (Inl err, s1) \<Rightarrow> (Inl (Errorf ''postgres feed source %q: pgxpool: %w'' [FStr name, FWrap err]), s1)
                     | (Inr pool, s1) \<Rightarrow>
                         (Inr \<lparr>psPool = pool, psQuery = query, psName = name, psInterval = interval, psStopped = False\<rparr>, s1)))))"

text \<open>\<open>query\<close> runs the statement, \<open>Inl\<close> when it cannot be run, and collects the rows into maps.\<close>

fun specs_of_rows ::
    "(string \<Rightarrow> string list result) \<Rightarrow> string \<Rightarrow> nat \<Rightarrow> (string \<times> pg_value) list list \<Rightarrow> FeedSpec list result" where
  "specs_of_rows um name i [] = Inr []"
| "specs_of_rows um name i (m # ms) =
     (case specFromRow um m of
        Inl err \<Rightarrow> Inl (Errorf ''postgres feed source %q: row %d: %w'' [FStr name, FInt (int i), FWrap err])
      | Inr spec \<Rightarrow> (case specs_of_rows um name (Suc i) ms of Inl err \<Rightarrow> Inl err | Inr specs \<Rightarrow> Inr (spec # specs)))"

definition postgres_fetch ::
    "(string \<Rightarrow> duration result) \<Rightarrow> (string \<Rightarrow> string list result) \<Rightarrow>
     (ctx \<Rightarrow> 'p \<Rightarrow> string \<Rightarrow> 's \<Rightarrow> ((string \<times> pg_value) list list result) result \<times> 's) \<Rightarrow> 'p postgres_source \<Rightarrow> ctx \<Rightarrow> 's \<Rightarrow>
     FeedConfig list result \<times> 's" where
  "postgres_fetch pd um query p c s =
     (case query c (psPool p) (psQuery p) s of
        (Inl err, s1) \<Rightarrow> (Inl (Errorf ''postgres feed source %q: query: %w'' [FStr (psName p), FWrap err]), s1)
      | (Inr (Inl err), s1) \<Rightarrow> (Inl (Errorf ''postgres feed source %q: scan: %w'' [FStr (psName p), FWrap err]), s1)
      | (Inr (Inr maps), s1) \<Rightarrow>
          (case specs_of_rows um (psName p) 0 maps of
             Inl err \<Rightarrow> (Inl err, s1)
           | Inr specs \<Rightarrow> (SpecsToConfigs pd specs, s1)))"

definition postgres_source_Close :: "('p, 's) pgx \<Rightarrow> 'p postgres_source \<Rightarrow> 's \<Rightarrow> 'p postgres_source \<times> 's" where
  "postgres_source_Close px p s = (p\<lparr>psStopped := True\<rparr>, pxClose px (psPool p) s)"

text \<open>A source that was built runs the operator's own statement or selects from a plain identifier: letters, digits
  and underscores.\<close>

definition plain_char :: "char \<Rightarrow> bool" where
  "plain_char c \<longleftrightarrow> c = CHR ''_'' \<or> (97 \<le> byte c \<and> byte c \<le> 122) \<or> (65 \<le> byte c \<and> byte c \<le> 90) \<or> (48 \<le> byte c \<and> byte c \<le> 57)"

lemma id_runes_plain: "id_runes i rs \<Longrightarrow> list_all plain_char (concat rs)"
  by (induction i rs rule: id_runes.induct) (auto simp: plain_char_def split: list.splits)

lemma NewPostgres_query:
  assumes "NewPostgres px te c name dsn table query interval tls s = (Inr p, s')"
  shows "query \<noteq> [] \<and> psQuery p = query \<or> (\<exists>t. psQuery p = ''SELECT * FROM '' @ t \<and> t \<noteq> [] \<and> length t \<le> 63 \<and> list_all plain_char t)"
proof -
  have "list_all plain_char t" if "validPGIdentifier t" for t
    using that id_runes_plain [of 0 "runes t"] by (simp add: validPGIdentifier_def split: if_splits)
  then show ?thesis
    using assms
    by (auto simp: NewPostgres_def source_query_def validPGIdentifier_def Let_def split: if_splits sum.splits prod.splits option.splits)
qed

lemma NewPostgres_no_leak:
  assumes "counts_pools n px" "NewPostgres px te c name dsn table query interval tls s = (r, s')"
  shows "n s' = (if isl r then n s else n s + 1)"
  using assms(2)
  by (auto simp: NewPostgres_def split: if_splits sum.splits option.splits prod.splits dest: counts_poolsD(1-3) [OF assms(1)])

subsection \<open>File\<close>

definition fileDebounce :: duration where "fileDebounce = 150 * millisecond"

record 'w file_source =
  flName :: string
  flPath :: string
  flWatcher :: 'w
  flOut :: bool
  flDone :: bool    \<comment> \<open>the loop has returned or will at its next round\<close>
  flTimer :: "time option"    \<comment> \<open>when the pending call of \<^verbatim>\<open>emit\<close> is due\<close>

text \<open>\<^verbatim>\<open>filepath\<close>, and \<^verbatim>\<open>fsnotify\<close> over the state \<open>'s\<close>.\<close>

record path_env =
  peAbs :: "string \<Rightarrow> string result"
  peClean :: "string \<Rightarrow> string"
  peDir :: "string \<Rightarrow> string"

record ('w, 's) watch_lib =
  wlNew :: "'s \<Rightarrow> 'w result \<times> 's"
  wlAdd :: "'w \<Rightarrow> string \<Rightarrow> 's \<Rightarrow> go_error option \<times> 's"
  wlClose :: "'w \<Rightarrow> 's \<Rightarrow> go_error option \<times> 's"

definition NewFile :: "path_env \<Rightarrow> ('w, 's) watch_lib \<Rightarrow> string \<Rightarrow> string \<Rightarrow> 's \<Rightarrow> 'w file_source result \<times> 's" where
  "NewFile pe wl name path s =
     (case peAbs pe path of
        Inl err \<Rightarrow> (Inl (Errorf ''file source %s: resolve path: %w'' [FStr name, FWrap err]), s)
      | Inr abs0 \<Rightarrow>
          let p = peClean pe abs0 in
          (case wlNew wl s of
             (Inl err, s1) \<Rightarrow> (Inl (Errorf ''file source %s: watcher: %w'' [FStr name, FWrap err]), s1)
           | (Inr w, s1) \<Rightarrow>
               (case wlAdd wl w (peDir pe p) s1 of
                  (Some err, s2) \<Rightarrow> (Inl (Errorf ''file source %s: watch dir: %w'' [FStr name, FWrap err]), snd (wlClose wl w s2))
                | (None, s2) \<Rightarrow>
                    (Inr \<lparr>flName = name, flPath = p, flWatcher = w, flOut = False, flDone = False, flTimer = None\<rparr>, s2))))"

datatype file_read = NoFile | ReadFails go_error | Content string

definition file_Feeds ::
    "(string \<Rightarrow> duration result) \<Rightarrow> (string \<Rightarrow> FeedSpec list result) \<Rightarrow> (string \<Rightarrow> 's \<Rightarrow> file_read) \<Rightarrow> 'w file_source \<Rightarrow> 's \<Rightarrow>
     FeedConfig list result" where
  "file_Feeds pd unmarshal readFile f s =
     (case readFile (flPath f) s of
        NoFile \<Rightarrow> Inr []
      | ReadFails err \<Rightarrow> Inl (Errorf ''file source %s: read: %w'' [FStr (flName f), FWrap err])
      | Content data \<Rightarrow>
          (case unmarshal data of
             Inl err \<Rightarrow> Inl (Errorf ''file source %s: parse: %w'' [FStr (flName f), FWrap err])
           | Inr specs \<Rightarrow> SpecsToConfigs pd specs))"

definition file_Close :: "('w, 's) watch_lib \<Rightarrow> 'w file_source \<Rightarrow> 's \<Rightarrow> go_error option \<times> 'w file_source \<times> 's" where
  "file_Close wl f s = (case wlClose wl (flWatcher f) s of (r, s1) \<Rightarrow> (r, f\<lparr>flDone := True\<rparr>, s1))"

text \<open>One round of \<^verbatim>\<open>loop\<close> (an event of the watch at a time, an error of the watch, the channels of the watch closed), the
  timer's own call, and the receiver.\<close>

datatype file_input = FsEvent string time | FsError | FsClosed | TimerFires time | Receive

fun file_step :: "path_env \<Rightarrow> file_input \<Rightarrow> 'w file_source \<Rightarrow> 'w file_source" where
  "file_step pe (FsEvent name now) f =
     (if flDone f \<or> peClean pe name \<noteq> flPath f then f else f\<lparr>flTimer := Some (now + fileDebounce)\<rparr>)"
| "file_step pe FsError f = f"
| "file_step pe FsClosed f = f\<lparr>flDone := True\<rparr>"
| "file_step pe (TimerFires now) f =
     (case flTimer f of
        Some due \<Rightarrow> if due \<le> now then f\<lparr>flTimer := None, flOut := True\<rparr> else f
      | None \<Rightarrow> f)"
| "file_step pe Receive f = f\<lparr>flOut := False\<rparr>"

text \<open>A write to the file is signalled: once nothing has touched the file for the debounce time and the timer has run,
  the signal is out until it is received.\<close>

definition touches :: "path_env \<Rightarrow> string \<Rightarrow> file_input \<Rightarrow> bool" where
  "touches pe path i \<longleftrightarrow> (case i of FsEvent name _ \<Rightarrow> peClean pe name = path | _ \<Rightarrow> False)"

lemma file_step_quiet:
  assumes "\<not> touches pe (flPath f) i" "i \<noteq> Receive" "flTimer f = Some due \<or> flOut f \<and> flTimer f = None"
  shows "flPath (file_step pe i f) = flPath f \<and>
    (flTimer (file_step pe i f) = Some due \<or> flOut (file_step pe i f) \<and> flTimer (file_step pe i f) = None)"
  using assms by (cases i) (auto simp: touches_def split: if_splits)

lemma file_write_signalled:
  assumes "\<not> flDone f" "peClean pe name = flPath f" "t + fileDebounce \<le> now"
    and "\<And>i. i \<in> set is \<Longrightarrow> \<not> touches pe (flPath f) i \<and> i \<noteq> Receive"
  shows "flOut (file_step pe (TimerFires now) (fold (file_step pe) is (file_step pe (FsEvent name t) f)))"
proof -
  let ?P = "\<lambda>g. flPath g = flPath f \<and> (flTimer g = Some (t + fileDebounce) \<or> flOut g \<and> flTimer g = None)"
  have keep: "?P (fold (file_step pe) js g)" if "?P g" "set js \<subseteq> set is" for js g
    using that
  proof (induction js arbitrary: g)
    case (Cons i js)
    from Cons.prems assms(4) [of i] have "?P (file_step pe i g)" using file_step_quiet [of pe g i "t + fileDebounce"] by auto
    with Cons show ?case by simp
  qed simp
  have "?P (fold (file_step pe) is (file_step pe (FsEvent name t) f))" by (rule keep) (use assms(1,2) in simp_all)
  with assms(3) show ?thesis by auto
qed

text \<open>A failed constructor leaves no watch open.\<close>

lemma NewFile_no_leak:
  assumes "\<And>s r s'. wlNew wl s = (r, s') \<Longrightarrow> n s' = (if isl r then n s else n s + (1 :: int))"
    and "\<And>w d s r s'. wlAdd wl w d s = (r, s') \<Longrightarrow> n s' = n s" "\<And>w s. n (snd (wlClose wl w s)) = n s - 1"
    and "NewFile pe wl name path s = (r, s')"
  shows "n s' = (if isl r then n s else n s + 1)"
  using assms(4)
  by (auto simp: NewFile_def Let_def assms(3) split: sum.splits prod.splits option.splits dest!: assms(1,2))

end
