(* ===== verification/Telemetry_Logs.thy ===== *)
theory Telemetry_Logs
  imports Retry "HOL-Library.Multiset"
begin

section \<open>Shipping logs to CloudWatch\<close>

text \<open>
  \<^verbatim>\<open>internal/telemetry/cloudwatch_logs.go\<close>: the hook on the logging path puts a record into a channel of fixed
  capacity or counts it as dropped; the loop of the shipper buffers records and sends them in sorted batches.
  Both run concurrently; their steps interleave as a list of inputs.  The CloudWatch client is an argument over
  its own state.
\<close>

subsection \<open>The hook\<close>

record log_event =
  lgTs :: time
  lgMsg :: string

definition maxLogBatch :: nat where "maxLogBatch = 10000"
definition log_channel_cap :: nat where "log_channel_cap = 4096"
definition NoLevel :: int where "NoLevel = 6"
definition Disabled :: int where "Disabled = 7"

record shipper =
  shMinLevel :: int
  shCh :: "log_event list"
  shDropped :: int
  shReported :: int
  shBuf :: "log_event list"
  shMaxBatch :: int
  shGroup :: string
  shStream :: string
  shDone :: bool
  shErrors :: "go_error list"    \<comment> \<open>what \<^verbatim>\<open>onError\<close> was given\<close>

definition hook_admits :: "shipper \<Rightarrow> int \<Rightarrow> bool" where
  "hook_admits sh level \<longleftrightarrow> \<not> (level = NoLevel \<or> level = Disabled \<or> level < shMinLevel sh)"

text \<open>\<open>spn\<close> is the valid span context of the event, if it has one: trace and span identifier.\<close>

definition hook_message :: "string \<Rightarrow> (string \<times> string) option \<Rightarrow> string" where
  "hook_message msg spn =
     (case spn of None \<Rightarrow> msg | Some (t, sp) \<Rightarrow> msg @ '' trace_id='' @ t @ '' span_id='' @ sp)"

definition hook_Run :: "int \<Rightarrow> string \<Rightarrow> (string \<times> string) option \<Rightarrow> time \<Rightarrow> shipper \<Rightarrow> shipper" where
  "hook_Run level msg spn now sh =
     (if \<not> hook_admits sh level then sh
      else if length (shCh sh) < log_channel_cap
      then sh\<lparr>shCh := shCh sh @ [\<lparr>lgTs = now, lgMsg = hook_message msg spn\<rparr>]\<rparr>
      else sh\<lparr>shDropped := shDropped sh + 1\<rparr>)"

subsection \<open>The shipper\<close>

definition handleErr :: "go_error option \<Rightarrow> shipper \<Rightarrow> shipper" where
  "handleErr e sh = (case e of None \<Rightarrow> sh | Some err \<Rightarrow> sh\<lparr>shErrors := shErrors sh @ [err]\<rparr>)"

definition droppedLogsError :: "int \<Rightarrow> go_error" where
  "droppedLogsError n = Errorf ''cloudwatch logs buffer full: dropped %d events'' [FInt n]"

definition reportDrops :: "shipper \<Rightarrow> shipper" where
  "reportDrops sh =
     (if shDropped sh > shReported sh
      then (handleErr (Some (droppedLogsError (shDropped sh - shReported sh))) sh)\<lparr>shReported := shDropped sh\<rparr>
      else sh)"

type_synonym wire_event = "string \<times> int"

definition wire_of :: "log_event \<Rightarrow> wire_event" where
  "wire_of ev = (lgMsg ev, UnixMilli (lgTs ev))"

text \<open>\<open>put\<close> is \<^verbatim>\<open>PutLogEvents\<close> for a group and a stream.\<close>

function put_batches ::
    "(string \<Rightarrow> string \<Rightarrow> wire_event list \<Rightarrow> 's \<Rightarrow> go_error option \<times> 's) \<Rightarrow> string \<Rightarrow> string \<Rightarrow> nat \<Rightarrow> log_event list \<Rightarrow> 's \<Rightarrow>
     go_error option \<times> 's" where
  "put_batches put grp stream n events s =
     (if events = [] \<or> n = 0 then (None, s)
      else case put grp stream (map wire_of (take n events)) s of
        (Some err, s1) \<Rightarrow> (Some err, s1)
      | (None, s1) \<Rightarrow> put_batches put grp stream n (drop n events) s1)"
  by pat_completeness auto
termination by (relation "measure (\<lambda>(_, _, _, _, events, _). length events)") auto

definition putLogEvents ::
    "(string \<Rightarrow> string \<Rightarrow> wire_event list \<Rightarrow> 's \<Rightarrow> go_error option \<times> 's) \<Rightarrow> string \<Rightarrow> string \<Rightarrow> int \<Rightarrow> log_event list \<Rightarrow> 's \<Rightarrow>
     go_error option \<times> 's" where
  "putLogEvents put grp stream maxBatch events s =
     (if events = [] then (None, s)
      else put_batches put grp stream (if maxBatch \<le> 0 then maxLogBatch else nat maxBatch) (sort_key lgTs events) s)"

definition flush ::
    "(string \<Rightarrow> string \<Rightarrow> wire_event list \<Rightarrow> 's \<Rightarrow> go_error option \<times> 's) \<Rightarrow> shipper \<Rightarrow> 's \<Rightarrow> shipper \<times> 's" where
  "flush put sh0 s =
     (let sh = reportDrops sh0 in
      if shBuf sh = [] then (sh, s)
      else case putLogEvents put (shGroup sh) (shStream sh) (shMaxBatch sh) (shBuf sh) s of
        (e, s1) \<Rightarrow> ((handleErr e sh)\<lparr>shBuf := []\<rparr>, s1))"

text \<open>The creation of group and stream when the loop starts; an error says whether the resource existed.\<close>

definition ensureLogStream ::
    "(string \<Rightarrow> 's \<Rightarrow> (bool \<times> go_error) option \<times> 's) \<Rightarrow> (string \<Rightarrow> string \<Rightarrow> 's \<Rightarrow> (bool \<times> go_error) option \<times> 's) \<Rightarrow> string \<Rightarrow> string \<Rightarrow> 's \<Rightarrow>
     go_error option \<times> 's" where
  "ensureLogStream createGroup createStream grp stream s =
     (let stream_call = (\<lambda>s1. case createStream grp stream s1 of
             (None, s2) \<Rightarrow> (None, s2)
           | (Some (exists, err), s2) \<Rightarrow> if exists then (None, s2) else (Some err, s2))
      in case createGroup grp s of
           (None, s1) \<Rightarrow> stream_call s1
         | (Some (exists, err), s1) \<Rightarrow> if exists then stream_call s1 else (Some err, s1))"

text \<open>The hook may run at any time; the loop takes a record, sees the ticker or sees \<^verbatim>\<open>stop\<close>, and then drains the
  channel and ends.\<close>

datatype ship_input =
    LogLine int string "(string \<times> string) option" time
  | TakeEvent
  | FlushTick
  | StopShipper

fun ship_step ::
    "(string \<Rightarrow> string \<Rightarrow> wire_event list \<Rightarrow> 's \<Rightarrow> go_error option \<times> 's) \<Rightarrow> ship_input \<Rightarrow> shipper \<times> 's \<Rightarrow> shipper \<times> 's" where
  "ship_step put (LogLine level msg spn now) (sh, s) = (hook_Run level msg spn now sh, s)"
| "ship_step put TakeEvent (sh, s) =
     (if shDone sh then (sh, s)
      else case shCh sh of
        [] \<Rightarrow> (sh, s)
      | ev # rest \<Rightarrow>
          let sh1 = sh\<lparr>shCh := rest, shBuf := shBuf sh @ [ev]\<rparr>
          in if int (length (shBuf sh1)) \<ge> shMaxBatch sh1 then flush put sh1 s else (sh1, s))"
| "ship_step put FlushTick (sh, s) = (if shDone sh then (sh, s) else flush put sh s)"
| "ship_step put StopShipper (sh, s) =
     (if shDone sh then (sh, s)
      else case flush put (sh\<lparr>shCh := [], shBuf := shBuf sh @ shCh sh\<rparr>) s of
        (sh1, s1) \<Rightarrow> (sh1\<lparr>shDone := True\<rparr>, s1))"

text \<open>\<open>parse\<close> is \<^verbatim>\<open>zerolog.ParseLevel\<close>, \<open>load\<close> the loading of the AWS configuration.\<close>

definition setupCloudWatchLogs ::
    "(string \<Rightarrow> int option) \<Rightarrow> (string \<Rightarrow> go_error option) \<Rightarrow> string \<Rightarrow> string \<Rightarrow> string \<Rightarrow> string \<Rightarrow> string \<Rightarrow> duration \<Rightarrow>
     (shipper \<times> duration) result" where
  "setupCloudWatchLogs parse load hostname region level0 grp stream0 batchInterval =
     (let level = (if level0 = [] then ''info'' else level0) in
      case parse level of
        None \<Rightarrow> Inl (Errorf ''parse cloudwatch logs level %s'' [FStr level0])
      | Some lv \<Rightarrow>
          if lv = NoLevel then Inl (Errorf ''parse cloudwatch logs level %s'' [FStr level0])
          else case load region of
            Some err \<Rightarrow> Inl err
          | None \<Rightarrow>
              Inr (\<lparr>shMinLevel = lv, shCh = [], shDropped = 0, shReported = 0, shBuf = [], shMaxBatch = int maxLogBatch,
                    shGroup = grp, shStream = (if stream0 = [] then hostname else stream0), shDone = False, shErrors = []\<rparr>,
                   if batchInterval \<le> 0 then 5 * second else batchInterval))"

subsection \<open>Nothing is lost uncounted\<close>

definition admitted :: "int \<Rightarrow> ship_input \<Rightarrow> log_event list" where
  "admitted minLevel i =
     (case i of
        LogLine level msg spn now \<Rightarrow>
          (if level = NoLevel \<or> level = Disabled \<or> level < minLevel then []
           else [\<lparr>lgTs = now, lgMsg = hook_message msg spn\<rparr>])
      | _ \<Rightarrow> [])"

text \<open>A service that accepts every batch and keeps them.\<close>

definition accepts :: "(string \<Rightarrow> string \<Rightarrow> wire_event list \<Rightarrow> 's \<Rightarrow> go_error option \<times> 's) \<Rightarrow> ('s \<Rightarrow> wire_event list list) \<Rightarrow> bool" where
  "accepts put batches \<longleftrightarrow> (\<forall>g st b s. \<exists>s'. put g st b s = (None, s') \<and> batches s' = batches s @ [b])"

definition batch_ok :: "wire_event list \<Rightarrow> bool" where
  "batch_ok b \<longleftrightarrow> b \<noteq> [] \<and> length b \<le> maxLogBatch \<and> sorted (map snd b)"

lemma sorted_wire: "sorted (map lgTs evs) \<Longrightarrow> sorted (map snd (map wire_of evs))"
  by (auto simp: sorted_map wire_of_def intro: UnixMilli_mono elim: sorted_wrt_mono_rel [rotated])

lemma put_batches_accepted:
  assumes "accepts put batches" "0 < n" "n \<le> maxLogBatch" "sorted (map lgTs events)"
  shows "\<exists>s' bs. put_batches put g st n events s = (None, s') \<and> batches s' = batches s @ bs \<and>
    concat bs = map wire_of events \<and> list_all batch_ok bs"
  using assms(4)
proof (induction events arbitrary: s rule: length_induct)
  case (1 events)
  show ?case
  proof (cases "events = []")
    case False
    let ?b = "map wire_of (take n events)"
    obtain s1 where put: "put g st ?b s = (None, s1)" "batches s1 = batches s @ [?b]" using assms(1) unfolding accepts_def by blast
    have "length (drop n events) < length events" "sorted (map lgTs (drop n events))"
      using False assms(2) 1(2) by (simp_all add: drop_map [symmetric] sorted_wrt_drop)
    then obtain s' bs where rest: "put_batches put g st n (drop n events) s1 = (None, s')" "batches s' = batches s1 @ bs"
      "concat bs = map wire_of (drop n events)" "list_all batch_ok bs" using 1(1) by blast
    have "sorted (map lgTs (take n events))" using 1(2) by (simp add: take_map [symmetric] sorted_wrt_take)
    from sorted_wire [OF this] have "batch_ok ?b" using False assms(2,3) by (simp add: batch_ok_def)
    moreover have "?b @ map wire_of (drop n events) = map wire_of events" by (metis append_take_drop_id map_append)
    ultimately show ?thesis
      using put rest False assms(2)
      by (intro exI [of _ s'] exI [of _ "?b # bs"]) (simp add: put_batches.simps [of put g st n events s])
  qed simp
qed

lemma flush_accepted:
  assumes "accepts put batches" "0 \<le> shMaxBatch sh" "shMaxBatch sh \<le> int maxLogBatch"
  shows "\<exists>s' bs. flush put sh s = ((reportDrops sh)\<lparr>shBuf := []\<rparr>, s') \<and> batches s' = batches s @ bs \<and>
    mset (concat bs) = image_mset wire_of (mset (shBuf sh)) \<and> list_all batch_ok bs"
proof -
  have same: "shBuf (reportDrops sh) = shBuf sh" "shMaxBatch (reportDrops sh) = shMaxBatch sh"
    by (simp_all add: reportDrops_def handleErr_def)
  let ?n = "if shMaxBatch sh \<le> 0 then maxLogBatch else nat (shMaxBatch sh)"
  have n: "0 < ?n" "?n \<le> maxLogBatch" using assms(3) by (auto simp: maxLogBatch_def)
  obtain s' bs where run: "put_batches put (shGroup (reportDrops sh)) (shStream (reportDrops sh)) ?n (sort_key lgTs (shBuf sh)) s = (None, s')"
    "batches s' = batches s @ bs" "concat bs = map wire_of (sort_key lgTs (shBuf sh))" "list_all batch_ok bs"
    using put_batches_accepted [OF assms(1) n sorted_sort_key] by blast
  show ?thesis
  proof (cases "shBuf sh = []")
    case True
    with same have "flush put sh s = ((reportDrops sh)\<lparr>shBuf := []\<rparr>, s)"
      by (cases "reportDrops sh") (simp add: flush_def Let_def)
    with True show ?thesis by (intro exI [of _ s] exI [of _ "[]"]) simp
  next
    case False
    with same run(1) have "flush put sh s = ((reportDrops sh)\<lparr>shBuf := []\<rparr>, s')"
      by (simp add: flush_def putLogEvents_def handleErr_def Let_def)
    with run show ?thesis by (intro exI [of _ s'] exI [of _ bs]) (simp add: mset_map)
  qed
qed

text \<open>What the records of the past have become: sent, waiting in the channel or the buffer, or counted as dropped.\<close>

definition accounted :: "int \<Rightarrow> log_event list \<Rightarrow> wire_event list list \<Rightarrow> shipper \<Rightarrow> bool" where
  "accounted minLevel past bs sh \<longleftrightarrow>
     shMinLevel sh = minLevel \<and> 0 \<le> shMaxBatch sh \<and> shMaxBatch sh \<le> int maxLogBatch \<and> list_all batch_ok bs \<and>
     mset (concat bs) + image_mset wire_of (mset (shCh sh) + mset (shBuf sh)) \<subseteq># image_mset wire_of (mset past) \<and>
     int (length (concat bs)) + int (length (shCh sh)) + int (length (shBuf sh)) + shDropped sh = int (length past)"

lemma reportDrops_accounted: "accounted l past bs (reportDrops sh) = accounted l past bs sh"
  by (simp add: accounted_def reportDrops_def handleErr_def)

lemma flush_accounts:
  assumes "accepts put batches" "accounted l past (batches s) sh" "flush put sh s = (sh', s')"
  shows "accounted l past (batches s') sh' \<and> shBuf sh' = [] \<and> shCh sh' = shCh sh"
proof -
  have "0 \<le> shMaxBatch sh" "shMaxBatch sh \<le> int maxLogBatch" using assms(2) by (simp_all add: accounted_def)
  from flush_accepted [OF assms(1) this, of s] assms(3) obtain bs where
    sh': "sh' = (reportDrops sh)\<lparr>shBuf := []\<rparr>" and bs: "batches s' = batches s @ bs"
    "mset (concat bs) = image_mset wire_of (mset (shBuf sh))" "list_all batch_ok bs" by auto
  have len: "length (concat bs) = length (shBuf sh)" using bs(2) by (metis size_image_mset size_mset)
  have same: "shCh (reportDrops sh) = shCh sh" "shBuf (reportDrops sh) = shBuf sh" by (simp_all add: reportDrops_def handleErr_def)
  have "accounted l past (batches s) (reportDrops sh)" using assms(2) by (simp add: reportDrops_accounted)
  then show ?thesis
    using bs len same unfolding sh' accounted_def by (simp add: ac_simps)
qed

lemma subseteq_add_mset: "X \<subseteq># Y \<Longrightarrow> X \<subseteq># add_mset z Y"
  by (auto simp: subseteq_mset_def intro: le_SucI)

lemma ship_step_accounts:
  assumes put: "accepts put batches" and acc: "accounted l past (batches s) sh" and run: "ship_step put i (sh, s) = (sh', s')"
  shows "accounted l (past @ admitted l i) (batches s') sh'"
proof (cases i)
  case (LogLine level msg spn now)
  let ?ev = "\<lparr>lgTs = now, lgMsg = hook_message msg spn\<rparr>"
  have l: "shMinLevel sh = l" using acc by (simp add: accounted_def)
  show ?thesis
  proof (cases "hook_admits sh level")
    case False
    with LogLine run acc l show ?thesis by (auto simp: hook_Run_def admitted_def hook_admits_def)
  next
    case True
    with LogLine run acc l show ?thesis
      by (auto simp: hook_Run_def admitted_def hook_admits_def accounted_def intro: subseteq_add_mset)
  qed
next
  case TakeEvent
  show ?thesis
  proof (cases "shDone sh \<or> shCh sh = []")
    case True
    with TakeEvent run acc show ?thesis by (auto simp: admitted_def split: if_splits)
  next
    case False
    then obtain ev rest where ch: "shCh sh = ev # rest" by (cases "shCh sh") auto
    let ?sh1 = "sh\<lparr>shCh := rest, shBuf := shBuf sh @ [ev]\<rparr>"
    have "accounted l past (batches s) ?sh1" using acc ch by (simp add: accounted_def)
    with flush_accounts [OF put this] TakeEvent run False ch show ?thesis
      by (auto simp: admitted_def Let_def split: if_splits)
  qed
next
  case FlushTick
  with flush_accounts [OF put acc] acc run show ?thesis by (auto simp: admitted_def split: if_splits)
next
  case StopShipper
  let ?sh1 = "sh\<lparr>shCh := [], shBuf := shBuf sh @ shCh sh\<rparr>"
  have acc1: "accounted l past (batches s) ?sh1" using acc by (simp add: accounted_def ac_simps)
  obtain sh2 s2 where fl: "flush put ?sh1 s = (sh2, s2)" by fastforce
  have fin: "accounted l past (batches s2) (sh2\<lparr>shDone := True\<rparr>)"
    using flush_accounts [OF put acc1 fl] by (auto simp: accounted_def)
  show ?thesis
  proof (cases "shDone sh")
    case True
    with StopShipper run acc show ?thesis by (simp add: admitted_def)
  next
    case False
    with StopShipper run fl fin show ?thesis by (simp add: admitted_def)
  qed
qed

lemma ships_account:
  assumes "accepts put batches" "accounted l past (batches s) sh" "fold (ship_step put) is (sh, s) = (sh', s')"
  shows "accounted l (past @ concat (map (admitted l) is)) (batches s') sh'"
  using assms(2,3)
proof (induction "is" arbitrary: past sh s)
  case (Cons i "is")
  obtain sh1 s1 where step: "ship_step put i (sh, s) = (sh1, s1)" by fastforce
  with Cons.prems have "fold (ship_step put) is (sh1, s1) = (sh', s')" by simp
  with Cons.IH [OF ship_step_accounts [OF assms(1) Cons.prems(1) step]] show ?case by simp
qed simp



end
