(* ===== verification/Telemetry_Metrics.thy ===== *)
theory Telemetry_Metrics
  imports Config Feed_Proxy Int_Text
begin

section \<open>Pushing metrics to Graphite and CloudWatch\<close>

text \<open>
  \<^verbatim>\<open>internal/telemetry/graphite.go\<close> and \<^verbatim>\<open>cloudwatch_metrics.go\<close>.  The values of data points are the \<^verbatim>\<open>float64\<close> that the
  exporters make of them; \<^verbatim>\<open>FormatFloat\<close>, the connection and the CloudWatch client are arguments.  The attributes of
  a point are a list of names and rendered values, as their set iterates.
\<close>

subsection \<open>Data points\<close>

record data_point =
  dpAttributes :: "(string \<times> string) list"
  dpTime :: time
  dpValue :: rat

record hist_point =
  hiAttributes :: "(string \<times> string) list"
  hiTime :: time
  hiCount :: nat
  hiSum :: rat
  hiMin :: "rat option"
  hiMax :: "rat option"

datatype metric_data = SumData "data_point list" | GaugeData "data_point list" | HistogramData "hist_point list" | OtherData

record metric =
  mName :: string
  mData :: metric_data

text \<open>The resource: its attributes, if there is one; the metrics by scope.\<close>

record resource_metrics =
  rmResource :: "(string \<times> string) list option"
  rmScopes :: "metric list list"

definition ServiceInstanceIDKey :: string where "ServiceInstanceIDKey = ''service.instance.id''"

definition instance_tag :: "(string \<times> string) list option \<Rightarrow> (string \<times> string) list" where
  "instance_tag res =
     (case res of
        None \<Rightarrow> []
      | Some as \<Rightarrow> (case map_of as ServiceInstanceIDKey of None \<Rightarrow> [] | Some v \<Rightarrow> [(ServiceInstanceIDKey, v)]))"

text \<open>Pairs written to a map in order, and the map sorted by key.\<close>

fun put_pairs :: "(string \<times> string) list \<Rightarrow> (string \<Rightarrow> string option) \<Rightarrow> string \<Rightarrow> string option" where
  "put_pairs [] m = m"
| "put_pairs ((k, v) # kvs) m = put_pairs kvs (m(k \<mapsto> v))"

definition sorted_keys :: "(string \<times> string) list \<Rightarrow> string list" where
  "sorted_keys kvs = sort (remdups (map fst kvs))"

definition merged_pairs :: "(string \<times> string) list \<Rightarrow> (string \<times> string) list" where
  "merged_pairs kvs = map (\<lambda>k. (k, case put_pairs kvs (\<lambda>_. None) k of Some v \<Rightarrow> v | None \<Rightarrow> [])) (sorted_keys kvs)"

lemma put_pairs_append: "put_pairs (xs @ ys) m = put_pairs ys (put_pairs xs m)"
  by (induction xs arbitrary: m) auto

lemma put_pairs_other: "k \<notin> fst ` set kvs \<Longrightarrow> put_pairs kvs m k = m k"
  by (induction kvs arbitrary: m) auto

lemma put_pairs_dom: "k \<in> fst ` set kvs \<Longrightarrow> \<exists>v. put_pairs kvs m k = Some v \<and> (k, v) \<in> set kvs"
proof (induction kvs arbitrary: m)
  case (Cons kv kvs)
  obtain k' v' where kv: "kv = (k', v')" by fastforce
  show ?case
  proof (cases "k \<in> fst ` set kvs")
    case True
    from Cons.IH [OF this] kv show ?thesis by fastforce
  next
    case False
    with Cons.prems kv show ?thesis by (auto simp: put_pairs_other)
  qed
qed simp

lemma merged_pairs_sorted: "sorted (map fst (merged_pairs kvs))" "distinct (map fst (merged_pairs kvs))"
  by (simp_all add: merged_pairs_def sorted_keys_def comp_def)

lemma merged_pairs_subset: "set (merged_pairs kvs) \<subseteq> set kvs"
proof
  fix kv assume "kv \<in> set (merged_pairs kvs)"
  then obtain k where "k \<in> fst ` set kvs" "kv = (k, case put_pairs kvs (\<lambda>_. None) k of Some v \<Rightarrow> v | None \<Rightarrow> [])"
    by (auto simp: merged_pairs_def sorted_keys_def)
  then show "kv \<in> set kvs" using put_pairs_dom [of k kvs "\<lambda>_. None"] by auto
qed

subsection \<open>Graphite\<close>

record graphite_exporter =
  gxAddress :: string
  gxPrefix :: string
  gxShutdown :: bool

definition newGraphiteExporter :: "TelemetryGraphiteConfig \<Rightarrow> graphite_exporter result" where
  "newGraphiteExporter cfg =
     (if TrimSpace (gr_Address cfg) = [] then Inl (Errorf ''graphite address is required'' [])
      else Inr \<lparr>gxAddress = gr_Address cfg, gxPrefix = TrimRight (TrimLeft (gr_Prefix cfg) (CHR ''.'')) (CHR ''.''), gxShutdown = False\<rparr>)"

text \<open>\<^verbatim>\<open>strings.Map\<close> with these functions: white space and separators become an underscore, and a byte that is not
  part of a rune becomes U+FFFD.\<close>

definition carbon_rune :: "string \<Rightarrow> string" where
  "carbon_rune r =
     (case r of
        [c] \<Rightarrow>
          if c \<in> {CHR 0x20, CHR 0x09, CHR 0x0A, CHR 0x3B, CHR 0x3D} then ''_''
          else if byte c \<ge> 128 then mkrune [239, 191, 189] else r
      | _ \<Rightarrow> r)"

definition sanitizeNode :: "string \<Rightarrow> string" where
  "sanitizeNode s = concat (map carbon_rune (runes s))"

definition sanitizeTag :: "string \<Rightarrow> string" where
  "sanitizeTag s = (let t = concat (map carbon_rune (runes s)) in if t = [] then ''_'' else t)"

definition metricPath :: "string \<Rightarrow> string \<Rightarrow> string" where
  "metricPath prefix name0 = (let name = sanitizeNode name0 in if prefix = [] then name else prefix @ ''.'' @ name)"

definition resourceTags :: "(string \<times> string) list option \<Rightarrow> (string \<times> string) list" where
  "resourceTags res = instance_tag res"

definition tags_of :: "(string \<times> string) list \<Rightarrow> (string \<times> string) list \<Rightarrow> (string \<times> string) list" where
  "tags_of attrs extra = merged_pairs (map (\<lambda>(k, v). (sanitizeTag k, sanitizeTag v)) (extra @ attrs))"

definition writeTags :: "(string \<times> string) list \<Rightarrow> (string \<times> string) list \<Rightarrow> string" where
  "writeTags attrs extra = concat (map (\<lambda>(k, v). CHR 0x3B # k @ CHR 0x3D # v) (tags_of attrs extra))"

record sample =
  smName :: string
  smAttributes :: "(string \<times> string) list"
  smValue :: rat
  smTime :: time

definition carbon_seconds :: "time \<Rightarrow> int" where
  "carbon_seconds t = t div second - 62135596800"

definition carbon_line :: "(rat \<Rightarrow> string) \<Rightarrow> graphite_exporter \<Rightarrow> (string \<times> string) list \<Rightarrow> sample \<Rightarrow> string" where
  "carbon_line fmt e extra x =
     metricPath (gxPrefix e) (smName x) @ writeTags (smAttributes x) extra @ [CHR 0x20] @ fmt (smValue x) @ [CHR 0x20] @
     itoa (carbon_seconds (smTime x)) @ [CHR 0x0A]"

definition num_samples :: "string \<Rightarrow> data_point list \<Rightarrow> sample list" where
  "num_samples name dps =
     map (\<lambda>dp. \<lparr>smName = name, smAttributes = dpAttributes dp, smValue = dpValue dp, smTime = dpTime dp\<rparr>) dps"

definition hist_samples :: "string \<Rightarrow> hist_point list \<Rightarrow> sample list" where
  "hist_samples name dps =
     concat (map (\<lambda>dp.
       let sm = (\<lambda>suffix v. \<lparr>smName = name @ suffix, smAttributes = hiAttributes dp, smValue = v, smTime = hiTime dp\<rparr>)
       in [sm ''.count'' (of_nat (hiCount dp)), sm ''.sum'' (hiSum dp)] @
          (case hiMin dp of Some v \<Rightarrow> [sm ''.min'' v] | None \<Rightarrow> []) @
          (case hiMax dp of Some v \<Rightarrow> [sm ''.max'' v] | None \<Rightarrow> [])) dps)"

definition encode_samples :: "metric \<Rightarrow> sample list" where
  "encode_samples m =
     (case mData m of
        SumData dps \<Rightarrow> num_samples (mName m) dps
      | GaugeData dps \<Rightarrow> num_samples (mName m) dps
      | HistogramData dps \<Rightarrow> hist_samples (mName m) dps
      | OtherData \<Rightarrow> [])"

definition encode_metric :: "(rat \<Rightarrow> string) \<Rightarrow> graphite_exporter \<Rightarrow> (string \<times> string) list \<Rightarrow> metric \<Rightarrow> string" where
  "encode_metric fmt e extra m = concat (map (carbon_line fmt e extra) (encode_samples m))"

definition graphite_payload :: "(rat \<Rightarrow> string) \<Rightarrow> graphite_exporter \<Rightarrow> resource_metrics \<Rightarrow> string" where
  "graphite_payload fmt e rm =
     concat (map (encode_metric fmt e (resourceTags (rmResource rm))) (concat (rmScopes rm)))"

text \<open>\<open>dial\<close> opens a connection, \<open>write\<close> writes to it and \<open>close\<close> closes it.\<close>

definition graphite_Export ::
    "(rat \<Rightarrow> string) \<Rightarrow> (ctx \<Rightarrow> string \<Rightarrow> 's \<Rightarrow> 'c result \<times> 's) \<Rightarrow> ('c \<Rightarrow> ctx \<Rightarrow> string \<Rightarrow> 's \<Rightarrow> go_error option \<times> 's) \<Rightarrow> ('c \<Rightarrow> 's \<Rightarrow> 's) \<Rightarrow>
     graphite_exporter \<Rightarrow> ctx \<Rightarrow> resource_metrics \<Rightarrow> 's \<Rightarrow> go_error option \<times> 's" where
  "graphite_Export fmt dial conn_write close e c rm s =
     (if gxShutdown e then (None, s)
      else
        let payload = graphite_payload fmt e rm in
        if payload = [] then (None, s)
        else case dial c (gxAddress e) s of
          (Inl err, s1) \<Rightarrow> (Some (Errorf ''graphite dial %s: %w'' [FStr (gxAddress e), FWrap err]), s1)
        | (Inr conn, s1) \<Rightarrow>
            (case conn_write conn c payload s1 of
               (Some err, s2) \<Rightarrow> (Some (Errorf ''graphite write: %w'' [FWrap err]), close conn s2)
             | (None, s2) \<Rightarrow> (None, close conn s2)))"

definition graphite_Shutdown :: "graphite_exporter \<Rightarrow> graphite_exporter" where
  "graphite_Shutdown e = e\<lparr>gxShutdown := True\<rparr>"

text \<open>What Carbon reads: lines, their three fields, and the tags of the first.\<close>

definition carbon_parse :: "string \<Rightarrow> (string \<times> (string \<times> string option) list \<times> string \<times> string) option" where
  "carbon_parse l =
     (case strings_Split l (CHR 0x20) of
        [series, v, t] \<Rightarrow>
          (case strings_Split series (CHR 0x3B) of
             p # tags \<Rightarrow> Some (p, map (\<lambda>x. strings_Cut x (CHR 0x3D)) tags, v, t)
           | [] \<Rightarrow> None)
      | _ \<Rightarrow> None)"

definition carbon_read :: "string \<Rightarrow> (string \<times> (string \<times> string option) list \<times> string \<times> string) option list" where
  "carbon_read payload = map carbon_parse (butlast (strings_Split payload (CHR 0x0A)))"

definition carbon_clean :: "string \<Rightarrow> bool" where
  "carbon_clean s \<longleftrightarrow> set s \<inter> {CHR 0x20, CHR 0x0A, CHR 0x3B, CHR 0x3D} = {}"

lemma carbon_clean_append [simp]: "carbon_clean (s @ t) \<longleftrightarrow> carbon_clean s \<and> carbon_clean t"
  by (auto simp: carbon_clean_def)

lemma extra_len_bytes: "extra_len c cs \<noteq> 0 \<Longrightarrow> 128 \<le> byte c \<and> list_all continuation (take (extra_len c cs) cs)"
  by (auto simp: extra_len_def seq_len_def Let_def split: if_splits)

lemma runes_multi: "r \<in> set (runes s) \<Longrightarrow> length r \<noteq> 1 \<Longrightarrow> b \<in> set r \<Longrightarrow> 128 \<le> byte b"
proof (induction s rule: runes.induct)
  case (2 c cs)
  show ?case
  proof (cases "r = c # take (extra_len c cs) cs")
    case True
    with 2(3) have "extra_len c cs \<noteq> 0" by (cases "extra_len c cs") auto
    from extra_len_bytes [OF this] True 2(4) show ?thesis by (auto simp: list_all_iff continuation_def)
  next
    case False
    with 2 show ?thesis by simp
  qed
qed simp

lemma high_clean: "(\<And>b. b \<in> set s \<Longrightarrow> 128 \<le> byte b) \<Longrightarrow> carbon_clean s"
  by (fastforce simp: carbon_clean_def byte_def)

lemma replacement_clean: "carbon_clean (mkrune [239, 191, 189])"
  by (rule high_clean) (auto simp: mkrune_def byte_def)

lemma carbon_rune_clean: "r \<in> set (runes s) \<Longrightarrow> carbon_clean (carbon_rune r)"
proof (cases "length r = 1")
  case True
  then obtain c where "r = [c]" by (cases r) auto
  then show ?thesis using replacement_clean by (simp add: carbon_rune_def) (simp add: carbon_clean_def)
next
  case False
  assume r: "r \<in> set (runes s)"
  have "carbon_rune r = r" using False by (auto simp: carbon_rune_def split: list.split)
  with high_clean runes_multi [OF r False] show ?thesis by metis
qed

lemma carbon_map_clean: "carbon_clean (concat (map carbon_rune (runes s)))"
  using carbon_rune_clean by (fastforce simp: carbon_clean_def)

lemma sanitize_clean: "carbon_clean (sanitizeNode s)" "carbon_clean (sanitizeTag s)"
  using carbon_map_clean [of s] by (simp_all add: sanitizeNode_def sanitizeTag_def Let_def) (simp add: carbon_clean_def)

lemma tags_clean: "(k, v) \<in> set (tags_of attrs extra) \<Longrightarrow> carbon_clean k \<and> carbon_clean v"
  using merged_pairs_subset [of "map (\<lambda>(k, v). (sanitizeTag k, sanitizeTag v)) (extra @ attrs)"]
  by (force simp: tags_of_def sanitize_clean)

lemma Split_free: "c \<notin> set w \<Longrightarrow> strings_Split w c = [w]"
  by (induction w) auto

lemma Split_lines: "(\<And>w. w \<in> set ws \<Longrightarrow> c \<notin> set w) \<Longrightarrow> strings_Split (concat (map (\<lambda>w. w @ [c]) ws)) c = ws @ [[]]"
  by (induction ws) (simp_all add: Split_append_sep Split_free)

lemma Split_words: "c \<notin> set p \<Longrightarrow> (\<And>w. w \<in> set ws \<Longrightarrow> c \<notin> set w) \<Longrightarrow> strings_Split (p @ concat (map (\<lambda>w. c # w) ws)) c = p # ws"
proof (induction ws arbitrary: p)
  case (Cons w ws)
  have "p @ concat (map (\<lambda>w. c # w) (w # ws)) = p @ c # (w @ concat (map (\<lambda>w. c # w) ws))" by simp
  with Cons show ?case by (simp only: Split_append_sep) (simp add: Split_free)
qed (simp add: Split_free)

lemma not_in_joined: "c \<noteq> d \<Longrightarrow> (\<And>w. w \<in> set ws \<Longrightarrow> c \<notin> set w) \<Longrightarrow> c \<notin> set (concat (map (\<lambda>w. d # w) ws))"
  by (induction ws) auto

definition carbon_record ::
    "(rat \<Rightarrow> string) \<Rightarrow> graphite_exporter \<Rightarrow> (string \<times> string) list \<Rightarrow> sample \<Rightarrow> string \<times> (string \<times> string option) list \<times> string \<times> string" where
  "carbon_record fmt e extra x =
     (metricPath (gxPrefix e) (smName x), map (\<lambda>(k, v). (k, Some v)) (tags_of (smAttributes x) extra), fmt (smValue x),
      itoa (carbon_seconds (smTime x)))"

lemma itoa_nat_digits: "set (itoa_nat n) \<subseteq> range digit"
proof (induction n rule: itoa_nat.induct)
  case (1 n)
  then show ?case by (subst itoa_nat.simps) auto
qed

lemma itoa_clean: "carbon_clean (itoa n)"
proof -
  have d: "digit m \<notin> {CHR 0x20, CHR 0x0A, CHR 0x3B, CHR 0x3D}" for m
  proof -
    have "48 \<le> byte (digit m) \<and> byte (digit m) < 58" by (simp add: digit_def byte_def)
    then show ?thesis by (auto simp: byte_def)
  qed
  have "carbon_clean (itoa_nat k)" for k using itoa_nat_digits [of k] d by (fastforce simp: carbon_clean_def)
  then show ?thesis by (simp add: itoa_def) (simp add: carbon_clean_def)
qed

lemma carbon_line_parse:
  assumes "carbon_clean (gxPrefix e)" "\<And>v. carbon_clean (fmt v)"
  obtains w where "carbon_line fmt e extra x = w @ [CHR 0x0A]" "CHR 0x0A \<notin> set w" "carbon_parse w = Some (carbon_record fmt e extra x)"
proof
  let ?p = "metricPath (gxPrefix e) (smName x)" and ?tags = "tags_of (smAttributes x) extra"
  let ?words = "map (\<lambda>(k, v). k @ CHR 0x3D # v) ?tags"
  let ?series = "?p @ writeTags (smAttributes x) extra"
  let ?w = "?series @ CHR 0x20 # fmt (smValue x) @ CHR 0x20 # itoa (carbon_seconds (smTime x))"
  have p: "carbon_clean ?p" using assms(1) sanitize_clean by (simp add: metricPath_def Let_def carbon_clean_def)
  have words: "CHR 0x0A \<notin> set w" "CHR 0x20 \<notin> set w" "CHR 0x3B \<notin> set w" if "w \<in> set ?words" for w
    using that tags_clean by (fastforce simp: carbon_clean_def)+
  have wt: "writeTags (smAttributes x) extra = concat (map (\<lambda>w. CHR 0x3B # w) ?words)"
    by (simp add: writeTags_def comp_def case_prod_unfold)
  have "CHR 0x20 \<notin> set (concat (map (\<lambda>w. CHR 0x3B # w) ?words))" "CHR 0x0A \<notin> set (concat (map (\<lambda>w. CHR 0x3B # w) ?words))"
    by (rule not_in_joined; use words in simp)+
  then have series: "CHR 0x20 \<notin> set ?series" "CHR 0x0A \<notin> set ?series" using p unfolding wt carbon_clean_def by simp_all
  note rest = assms(2) [of "smValue x"] itoa_clean [of "carbon_seconds (smTime x)"]
  show "carbon_line fmt e extra x = ?w @ [CHR 0x0A]" by (simp add: carbon_line_def)
  show "CHR 0x0A \<notin> set ?w" using series rest by (auto simp: carbon_clean_def)
  have split: "strings_Split ?w (CHR 0x20) = [?series, fmt (smValue x), itoa (carbon_seconds (smTime x))]"
    using series rest by (simp only: Split_append_sep) (simp add: Split_free carbon_clean_def)
  have "strings_Split ?series (CHR 0x3B) = ?p # ?words"
    unfolding wt by (rule Split_words) (use p words in \<open>auto simp: carbon_clean_def\<close>)
  moreover have "map (\<lambda>w. strings_Cut w (CHR 0x3D)) ?words = map (\<lambda>(k, v). (k, Some v)) ?tags"
    using tags_clean by (fastforce simp: carbon_clean_def intro!: strings_Cut_found)
  ultimately show "carbon_parse ?w = Some (carbon_record fmt e extra x)"
    using split by (simp add: carbon_parse_def carbon_record_def)
qed

definition rm_samples :: "resource_metrics \<Rightarrow> sample list" where
  "rm_samples rm = concat (map encode_samples (concat (rmScopes rm)))"

lemma graphite_payload_lines:
  "graphite_payload fmt e rm = concat (map (carbon_line fmt e (resourceTags (rmResource rm))) (rm_samples rm))"
proof -
  have "concat (map (\<lambda>m. concat (map f (g m))) ms) = concat (map f (concat (map g ms)))" for f :: "sample \<Rightarrow> string" and g and ms :: "metric list"
    by (induction ms) simp_all
  then show ?thesis by (simp add: graphite_payload_def encode_metric_def [abs_def] rm_samples_def)
qed



subsection \<open>CloudWatch\<close>

definition maxMetricData :: nat where "maxMetricData = 1000"
definition maxDimensions :: nat where "maxDimensions = 30"
definition defaultMetricNamespace :: string where "defaultMetricNamespace = ''rss2msg''"

record stat_set =
  stSampleCount :: rat
  stSum :: rat
  stMinimum :: rat
  stMaximum :: rat

datatype datum_value = SingleValue rat | Statistics stat_set

record metric_datum =
  mdName :: string
  mdValue :: datum_value
  mdTime :: time
  mdDimensions :: "(string \<times> string) list"

record cw_exporter =
  cxNamespace :: string
  cxShutdown :: bool

definition newCloudWatchMetricsExporter :: "string \<Rightarrow> cw_exporter" where
  "newCloudWatchMetricsExporter namespace =
     \<lparr>cxNamespace = (if namespace = [] then defaultMetricNamespace else namespace), cxShutdown = False\<rparr>"

definition resourceDimensions :: "(string \<times> string) list option \<Rightarrow> (string \<times> string) list" where
  "resourceDimensions res = instance_tag res"

definition toDimensions :: "(string \<times> string) list \<Rightarrow> (string \<times> string) list \<Rightarrow> (string \<times> string) list" where
  "toDimensions attrs extra = take maxDimensions (merged_pairs (extra @ attrs))"

definition appendNum :: "string \<Rightarrow> (string \<times> string) list \<Rightarrow> data_point list \<Rightarrow> metric_datum list" where
  "appendNum name extra dps =
     map (\<lambda>dp. \<lparr>mdName = name, mdValue = SingleValue (dpValue dp), mdTime = dpTime dp,
                 mdDimensions = toDimensions (dpAttributes dp) extra\<rparr>) dps"

definition appendHist :: "string \<Rightarrow> (string \<times> string) list \<Rightarrow> hist_point list \<Rightarrow> metric_datum list" where
  "appendHist name extra dps =
     map (\<lambda>dp. \<lparr>mdName = name,
          mdValue = Statistics \<lparr>stSampleCount = of_nat (hiCount dp), stSum = hiSum dp,
                     stMinimum = (case hiMin dp of Some v \<Rightarrow> v | None \<Rightarrow> 0),
                     stMaximum = (case hiMax dp of Some v \<Rightarrow> v | None \<Rightarrow> 0)\<rparr>,
          mdTime = hiTime dp, mdDimensions = toDimensions (hiAttributes dp) extra\<rparr>)
       (filter (\<lambda>dp. hiCount dp \<noteq> 0) dps)"

definition appendMetricData :: "(string \<times> string) list \<Rightarrow> metric \<Rightarrow> metric_datum list" where
  "appendMetricData extra m =
     (case mData m of
        SumData dps \<Rightarrow> appendNum (mName m) extra dps
      | GaugeData dps \<Rightarrow> appendNum (mName m) extra dps
      | HistogramData dps \<Rightarrow> appendHist (mName m) extra dps
      | OtherData \<Rightarrow> [])"

text \<open>\<open>put\<close> is \<^verbatim>\<open>PutMetricData\<close> for a namespace.\<close>

function put_chunks ::
    "(ctx \<Rightarrow> string \<Rightarrow> metric_datum list \<Rightarrow> 's \<Rightarrow> go_error option \<times> 's) \<Rightarrow> ctx \<Rightarrow> string \<Rightarrow> metric_datum list \<Rightarrow> 's \<Rightarrow> go_error option \<times> 's" where
  "put_chunks put c ns ds s =
     (if ds = [] then (None, s)
      else case put c ns (take maxMetricData ds) s of
        (Some err, s1) \<Rightarrow> (Some err, s1)
      | (None, s1) \<Rightarrow> put_chunks put c ns (drop maxMetricData ds) s1)"
  by pat_completeness auto
termination by (relation "measure (\<lambda>(_, _, _, ds, _). length ds)") (auto simp: maxMetricData_def)

definition cloudwatch_Export ::
    "(ctx \<Rightarrow> string \<Rightarrow> metric_datum list \<Rightarrow> 's \<Rightarrow> go_error option \<times> 's) \<Rightarrow> cw_exporter \<Rightarrow> ctx \<Rightarrow> resource_metrics \<Rightarrow> 's \<Rightarrow>
     go_error option \<times> 's" where
  "cloudwatch_Export put e c rm s =
     (if cxShutdown e then (None, s)
      else put_chunks put c (cxNamespace e) (concat (map (appendMetricData (resourceDimensions (rmResource rm))) (concat (rmScopes rm)))) s)"

definition cloudwatch_Shutdown :: "cw_exporter \<Rightarrow> cw_exporter" where
  "cloudwatch_Shutdown e = e\<lparr>cxShutdown := True\<rparr>"

text \<open>\<open>load\<close> loads the AWS configuration for a region; the result is the exporter, its endpoint and its interval (0 is
  the default of the SDK).\<close>

definition setupCloudWatchMetrics ::
    "(string \<Rightarrow> go_error option) \<Rightarrow> TelemetryCloudWatchConfig \<Rightarrow> (cw_exporter \<times> string \<times> duration) result" where
  "setupCloudWatchMetrics load cfg =
     (case load (cw_Region cfg) of
        Some err \<Rightarrow> Inl err
      | None \<Rightarrow>
          Inr (newCloudWatchMetricsExporter (cwm_Namespace (cw_Metrics cfg)), cw_EndpointURL cfg,
               if cwm_Interval (cw_Metrics cfg) > 0 then cwm_Interval (cw_Metrics cfg) else 0))"

text \<open>Dimensions are sorted, distinct and within the limit of the service; the statistics of an empty histogram, which
  the service would refuse with the whole batch, are never sent.\<close>

lemma toDimensions_ok:
  "length (toDimensions attrs extra) \<le> maxDimensions" "sorted (map fst (toDimensions attrs extra))"
  "distinct (map fst (toDimensions attrs extra))" "set (toDimensions attrs extra) \<subseteq> set extra \<union> set attrs"
  using merged_pairs_sorted [of "extra @ attrs"] merged_pairs_subset [of "extra @ attrs"]
  by (auto simp: toDimensions_def take_map [symmetric] sorted_wrt_take distinct_take dest: in_set_takeD)

lemma appendHist_nonempty:
  "d \<in> set (appendHist name extra dps) \<Longrightarrow> \<exists>st. mdValue d = Statistics st \<and> stSampleCount st \<noteq> 0"
  by (auto simp: appendHist_def)

lemma put_chunks_sends:
  assumes "\<And>c ns b s r s'. put c ns b s = (r, s') \<Longrightarrow> sent s' = sent s @ [b]"
  shows "put_chunks put c ns ds s = (r, s') \<Longrightarrow>
    \<exists>bs rest. sent s' = sent s @ bs \<and> ds = concat bs @ rest \<and> (r = None \<longrightarrow> rest = []) \<and>
      (\<forall>b\<in>set bs. b \<noteq> [] \<and> length b \<le> maxMetricData)"
proof (induction ds arbitrary: s rule: length_induct)
  case (1 ds)
  show ?case
  proof (cases "ds = []")
    case True
    with 1(2) show ?thesis by (intro exI [of _ "[]"]) (simp add: put_chunks.simps [of put c ns ds])
  next
    case False
    let ?b = "take maxMetricData ds"
    have b: "?b \<noteq> [] \<and> length ?b \<le> maxMetricData" using False by (simp add: maxMetricData_def)
    obtain e s1 where put: "put c ns ?b s = (e, s1)" by fastforce
    show ?thesis
    proof (cases e)
      case (Some err)
      with 1(2) put False have "r = Some err" "s' = s1" by (simp_all add: put_chunks.simps [of put c ns ds])
      with assms [OF put] b show ?thesis by (intro exI [of _ "[?b]"] exI [of _ "drop maxMetricData ds"]) simp
    next
      case None
      with 1(2) put False have run: "put_chunks put c ns (drop maxMetricData ds) s1 = (r, s')"
        by (simp add: put_chunks.simps [of put c ns ds])
      have "length (drop maxMetricData ds) < length ds" using False by (simp add: maxMetricData_def)
      with 1(1) run obtain bs rest where "sent s' = sent s1 @ bs" "drop maxMetricData ds = concat bs @ rest" "r = None \<longrightarrow> rest = []"
        "\<forall>b\<in>set bs. b \<noteq> [] \<and> length b \<le> maxMetricData" by blast
      with assms [OF put] b show ?thesis
        by (intro exI [of _ "?b # bs"] exI [of _ rest]) (auto intro: append_take_drop_id [symmetric, THEN trans])
    qed
  qed
qed

end
