(* ===== verification/Telemetry_Setup.thy ===== *)
theory Telemetry_Setup
  imports Telemetry_Logs Telemetry_Metrics Config_Defaults
begin

section \<open>Setting telemetry up and shutting it down\<close>

text \<open>
  \<^verbatim>\<open>internal/telemetry/telemetry.go\<close>, \<^verbatim>\<open>sentry.go\<close> and \<^verbatim>\<open>posthog.go\<close>.  What each step starts (a client, a loop, a listener)
  is recorded in the order it is started; \<open>Shutdown\<close> runs the closers of a handle, last first.  The environment
  variables, the SDKs and the network are arguments (\<open>tel_env\<close>).
\<close>

subsection \<open>Names and protocols\<close>

record tel_env =
  tvGetenv :: "string \<Rightarrow> string"
  tvHostname :: string
  tvParseLevel :: "string \<Rightarrow> int result"    \<comment> \<open>\<^verbatim>\<open>zerolog.ParseLevel\<close>\<close>
  tvSentryInit :: "string \<Rightarrow> string \<Rightarrow> string \<Rightarrow> go_error option"    \<comment> \<open>DSN, environment, release\<close>
  tvPostHogNew :: "string \<Rightarrow> string \<Rightarrow> go_error option"    \<comment> \<open>key, endpoint\<close>
  tvLoadAWS :: "string \<Rightarrow> go_error option"
  tvResource :: "string \<Rightarrow> string \<Rightarrow> go_error option"    \<comment> \<open>service name, instance id\<close>
  tvTraceExporter :: "string \<Rightarrow> go_error option"
  tvMetricExporter :: "string \<Rightarrow> go_error option"
  tvPromExporter :: "go_error option"
  tvListen :: "string \<Rightarrow> go_error option"

definition serviceName :: "tel_env \<Rightarrow> Config \<Rightarrow> string" where
  "serviceName env cfg =
     (if tl_ServiceName (cf_Telemetry cfg) \<noteq> [] then tl_ServiceName (cf_Telemetry cfg)
      else if tvGetenv env ''OTEL_SERVICE_NAME'' \<noteq> [] then tvGetenv env ''OTEL_SERVICE_NAME''
      else ''rss2msg'')"

definition instanceID :: "tel_env \<Rightarrow> Config \<Rightarrow> string" where
  "instanceID env cfg =
     (if tl_InstanceID (cf_Telemetry cfg) \<noteq> [] then tl_InstanceID (cf_Telemetry cfg)
      else if tvGetenv env ''OTEL_SERVICE_INSTANCE_ID'' \<noteq> [] then tvGetenv env ''OTEL_SERVICE_INSTANCE_ID''
      else tvHostname env)"

definition hasOTLPEndpoint :: "tel_env \<Rightarrow> bool" where
  "hasOTLPEndpoint env \<longleftrightarrow>
     tvGetenv env ''OTEL_EXPORTER_OTLP_ENDPOINT'' \<noteq> [] \<or>
     tvGetenv env ''OTEL_EXPORTER_OTLP_TRACES_ENDPOINT'' \<noteq> [] \<or>
     tvGetenv env ''OTEL_EXPORTER_OTLP_METRICS_ENDPOINT'' \<noteq> []"

definition upper_byte :: "char \<Rightarrow> char" where
  "upper_byte c = (if is_lower c then char_of (byte c - 32) else c)"

definition otlpProtocol :: "tel_env \<Rightarrow> string \<Rightarrow> string result" where
  "otlpProtocol env sig =
     (let signalVar = ''OTEL_EXPORTER_OTLP_'' @ map upper_byte sig @ ''_PROTOCOL'';
          p0 = tvGetenv env signalVar;
          (p, from) = (if p0 = [] then (tvGetenv env ''OTEL_EXPORTER_OTLP_PROTOCOL'', ''OTEL_EXPORTER_OTLP_PROTOCOL'') else (p0, signalVar))
      in if p = [] then Inr ''grpc''
         else if p = ''grpc'' \<or> p = ''http/protobuf'' then Inr p
         else Inl (Errorf ''unsupported %s %q (want \"grpc\" or \"http/protobuf\")'' [FStr from, FStr p]))"

fun firstNonEmpty :: "string list \<Rightarrow> string" where
  "firstNonEmpty [] = []"
| "firstNonEmpty (v # vs) = (if v \<noteq> [] then v else firstNonEmpty vs)"

subsection \<open>Log hooks\<close>

datatype log_hook = OtelHook | SentryHook int | PostHogHook int string | CloudWatchHook int

datatype setup_error = NoCredential | SetupError go_error

definition resolveSentryDSN :: "tel_env \<Rightarrow> TelemetrySentryConfig \<Rightarrow> string" where
  "resolveSentryDSN env c = (if TrimSpace (se_DSN c) \<noteq> [] then se_DSN c else tvGetenv env ''SENTRY_DSN'')"

text \<open>The level of a hook; the error wraps \<^verbatim>\<open>err\<close>, which is nil when the level parses to \<^verbatim>\<open>NoLevel\<close>.\<close>

definition hook_level :: "tel_env \<Rightarrow> string \<Rightarrow> string \<Rightarrow> int result" where
  "hook_level env what level0 =
     (let level = (if TrimSpace level0 = [] then ''error'' else TrimSpace level0) in
      case tvParseLevel env (ToLower level) of
        Inl err \<Rightarrow> Inl (Errorf (''parse '' @ what @ '' level %q: %w'') [FStr level0, FWrap err])
      | Inr l \<Rightarrow> if l = NoLevel then Inl (Errorf (''parse '' @ what @ '' level %q: %w'') [FStr level0]) else Inr l)"

datatype tel_resource = RSentry | RPostHog | RShipper | RTracer | RMeter | RPromListener

definition setupSentry :: "tel_env \<Rightarrow> TelemetrySentryConfig \<Rightarrow> tel_resource list \<Rightarrow> (setup_error + log_hook) \<times> tel_resource list" where
  "setupSentry env cfg s =
     (let dsn = resolveSentryDSN env cfg in
      if dsn = [] then (Inl NoCredential, s)
      else case hook_level env ''sentry'' (se_Level cfg) of
        Inl err \<Rightarrow> (Inl (SetupError err), s)
      | Inr l \<Rightarrow>
          (case tvSentryInit env dsn (firstNonEmpty [se_Environment cfg, tvGetenv env ''SENTRY_ENVIRONMENT''])
                  (firstNonEmpty [se_Release cfg, tvGetenv env ''SENTRY_RELEASE'']) of
             Some err \<Rightarrow> (Inl (SetupError (Errorf ''init sentry: %w'' [FWrap err])), s)
           | None \<Rightarrow> (Inr (SentryHook l), s @ [RSentry])))"

definition resolvePostHogAPIKey :: "tel_env \<Rightarrow> TelemetryPostHogConfig \<Rightarrow> string" where
  "resolvePostHogAPIKey env c =
     (if TrimSpace (ph_APIKey c) \<noteq> [] then TrimSpace (ph_APIKey c) else TrimSpace (tvGetenv env ''POSTHOG_API_KEY''))"

definition setupPostHog :: "tel_env \<Rightarrow> TelemetryPostHogConfig \<Rightarrow> tel_resource list \<Rightarrow> (setup_error + log_hook) \<times> tel_resource list" where
  "setupPostHog env cfg s =
     (let key = resolvePostHogAPIKey env cfg in
      if key = [] then (Inl NoCredential, s)
      else case hook_level env ''posthog'' (ph_Level cfg) of
        Inl err \<Rightarrow> (Inl (SetupError err), s)
      | Inr l \<Rightarrow>
          (case tvPostHogNew env key (firstNonEmpty [ph_Endpoint cfg, tvGetenv env ''POSTHOG_ENDPOINT'']) of
             Some err \<Rightarrow> (Inl (SetupError (Errorf ''init posthog: %w'' [FWrap err])), s)
           | None \<Rightarrow> (Inr (PostHogHook l (firstNonEmpty [ph_DistinctID cfg, tvHostname env, ''rss2msg''])), s @ [RPostHog])))"

text \<open>What a hook forwards: the severity of Sentry, and for PostHog an exception from the level \<^verbatim>\<open>error\<close> on.  Levels count
  from \<open>-1\<close> (trace) over 0 (debug), 1 (info), 2 (warn), 3 (error), 4 (fatal) to 5 (panic).\<close>

definition sentryLevel :: "int \<Rightarrow> string" where
  "sentryLevel l =
     (if l = -1 \<or> l = 0 then ''debug'' else if l = 2 then ''warning'' else if l = 3 then ''error''
      else if l = 4 \<or> l = 5 then ''fatal'' else ''info'')"

datatype posthog_message = PhException "(string \<times> string) list" string string | PhCapture "(string \<times> string) list"

definition span_props :: "(string \<times> string) option \<Rightarrow> (string \<times> string) list" where
  "span_props spn = (case spn of None \<Rightarrow> [] | Some (t, sp) \<Rightarrow> [(''trace_id'', t), (''span_id'', sp)])"

definition sentry_Run :: "int \<Rightarrow> int \<Rightarrow> string \<Rightarrow> (string \<times> string) option \<Rightarrow> (string \<times> string \<times> (string \<times> string) list) option" where
  "sentry_Run minLevel level msg spn =
     (if level = NoLevel \<or> level = Disabled \<or> level < minLevel then None
      else Some (sentryLevel level, msg, span_props spn))"

text \<open>\<open>name\<close> renders a level.\<close>

definition posthog_Run :: "(int \<Rightarrow> string) \<Rightarrow> int \<Rightarrow> int \<Rightarrow> string \<Rightarrow> (string \<times> string) option \<Rightarrow> posthog_message option" where
  "posthog_Run name minLevel level msg spn =
     (if level = NoLevel \<or> level = Disabled \<or> level < minLevel then None
      else let props = (''level'', name level) # span_props spn in
        if level \<ge> 3 then Some (PhException props (''rss2msg.'' @ name level) msg)
        else Some (PhCapture (props @ [(''message'', msg)])))"

record logger =
  loLevel :: int
  loConsole :: bool
  loHooks :: "log_hook list"

definition buildLogger :: "tel_env \<Rightarrow> LogConfig \<Rightarrow> log_hook list \<Rightarrow> logger" where
  "buildLogger env c extraHooks =
     \<lparr>loLevel = (case tvParseLevel env (lg_Level c) of Inl _ \<Rightarrow> 1 | Inr l \<Rightarrow> if l = NoLevel then 1 else l),
      loConsole = (lg_Format c = ''console''), loHooks = OtelHook # extraHooks\<rparr>"

subsection \<open>Providers\<close>

definition newTracerProvider :: "tel_env \<Rightarrow> tel_resource list \<Rightarrow> go_error option \<times> tel_resource list" where
  "newTracerProvider env s =
     (case otlpProtocol env ''traces'' of
        Inl err \<Rightarrow> (Some err, s)
      | Inr proto \<Rightarrow>
          (case tvTraceExporter env proto of
             Some err \<Rightarrow> (Some (Errorf ''otlp trace exporter (%s): %w'' [FStr proto, FWrap err]), s)
           | None \<Rightarrow> (None, s @ [RTracer])))"

definition startPrometheusServer :: "tel_env \<Rightarrow> string \<Rightarrow> tel_resource list \<Rightarrow> go_error option \<times> tel_resource list" where
  "startPrometheusServer env listen s =
     (case tvListen env listen of
        Some err \<Rightarrow> (Some (Errorf ''prometheus listen %q: %w'' [FStr listen, FWrap err]), s)
      | None \<Rightarrow> (None, s @ [RPromListener]))"

text \<open>The result says whether the server of Prometheus is to be stopped with the provider, and how many readers the
  provider has.\<close>

definition newMeterProvider :: "tel_env \<Rightarrow> Config \<Rightarrow> tel_resource list \<Rightarrow> (bool \<times> nat) result \<times> tel_resource list" where
  "newMeterProvider env cfg s =
     (let t = cf_Telemetry cfg in
      case (if hasOTLPEndpoint env
            then (case otlpProtocol env ''metrics'' of
                    Inl err \<Rightarrow> Some err
                  | Inr proto \<Rightarrow>
                      (case tvMetricExporter env proto of
                         Some err \<Rightarrow> Some (Errorf ''otlp metric exporter (%s): %w'' [FStr proto, FWrap err])
                       | None \<Rightarrow> None))
            else None) of
        Some err \<Rightarrow> (Inl err, s)
      | None \<Rightarrow>
          (case (if pr_Enabled (tl_Prometheus t)
                 then (case tvPromExporter env of
                         Some err \<Rightarrow> (Some (Errorf ''prometheus exporter: %w'' [FWrap err]), s)
                       | None \<Rightarrow> startPrometheusServer env (pr_Listen (tl_Prometheus t)) s)
                 else (None, s)) of
             (Some err, s1) \<Rightarrow> (Inl err, s1)
           | (None, s1) \<Rightarrow>
               (case (if gr_Enabled (tl_Graphite t)
                      then (case newGraphiteExporter (tl_Graphite t) of
                              Inl err \<Rightarrow> Some (Errorf ''graphite exporter: %w'' [FWrap err])
                            | Inr _ \<Rightarrow> None)
                      else None) of
                  Some err \<Rightarrow> (Inl err, s1)
                | None \<Rightarrow>
                    (case (if cw_Enabled (tl_CloudWatch t) \<and> cwm_Enabled (cw_Metrics (tl_CloudWatch t))
                           then (case setupCloudWatchMetrics (tvLoadAWS env) (tl_CloudWatch t) of
                                   Inl err \<Rightarrow> Some (Errorf ''cloudwatch metrics exporter: %w'' [FWrap err])
                                 | Inr _ \<Rightarrow> None)
                           else None) of
                       Some err \<Rightarrow> (Inl err, s1)
                     | None \<Rightarrow>
                         (Inr (pr_Enabled (tl_Prometheus t),
                               (if hasOTLPEndpoint env then 1 else 0) + (if pr_Enabled (tl_Prometheus t) then 1 else 0) +
                               (if gr_Enabled (tl_Graphite t) then 1 else 0) +
                               (if cw_Enabled (tl_CloudWatch t) \<and> cwm_Enabled (cw_Metrics (tl_CloudWatch t)) then 1 else 0)),
                          s1 @ [RMeter])))))"

subsection \<open>Setup and shutdown\<close>

datatype closer = CloseSentry | ClosePostHog | CloseShipper | CloseTracer | CloseMeter bool

record telemetry =
  tmLogger :: logger
  tmWarnings :: "string list"
  tmClosers :: "closer list"

text \<open>A hook that is optional: skipped with a warning when it has no credential.\<close>

definition add_hook ::
    "bool \<Rightarrow> (tel_resource list \<Rightarrow> (setup_error + log_hook) \<times> tel_resource list) \<Rightarrow> string \<Rightarrow> closer \<Rightarrow>
     log_hook list \<times> string list \<times> closer list \<Rightarrow> tel_resource list \<Rightarrow> (log_hook list \<times> string list \<times> closer list) result \<times> tel_resource list" where
  "add_hook enabled setup warning cl acc s =
     (case acc of (hooks, warns, cls) \<Rightarrow>
        if \<not> enabled then (Inr acc, s)
        else case setup s of
          (Inl NoCredential, s1) \<Rightarrow> (Inr (hooks, warns @ [warning], cls), s1)
        | (Inl (SetupError err), s1) \<Rightarrow> (Inl err, s1)
        | (Inr hook, s1) \<Rightarrow> (Inr (hooks @ [hook], warns, cls @ [cl]), s1))"

definition shipper_hook :: "tel_env \<Rightarrow> TelemetryCloudWatchConfig \<Rightarrow> tel_resource list \<Rightarrow> (setup_error + log_hook) \<times> tel_resource list" where
  "shipper_hook env cfg s =
     (case setupCloudWatchLogs (\<lambda>l. case tvParseLevel env l of Inl _ \<Rightarrow> None | Inr n \<Rightarrow> Some n) (tvLoadAWS env) (tvHostname env) (cw_Region cfg) (cwl_Level (cw_Logs cfg))
             (cwl_LogGroup (cw_Logs cfg)) (cwl_LogStream (cw_Logs cfg)) (cwl_BatchInterval (cw_Logs cfg)) of
        Inl err \<Rightarrow> (Inl (SetupError err), s)
      | Inr (sh, _) \<Rightarrow> (Inr (CloudWatchHook (shMinLevel sh)), s @ [RShipper]))"

definition setup_providers ::
    "tel_env \<Rightarrow> Config \<Rightarrow> closer list \<Rightarrow> tel_resource list \<Rightarrow> closer list result \<times> tel_resource list" where
  "setup_providers env cfg cls s =
     (let t = cf_Telemetry cfg in
      case tvResource env (serviceName env cfg) (instanceID env cfg) of
        Some err \<Rightarrow> (Inl (Errorf ''build otel resource: %w'' [FWrap err]), s)
      | None \<Rightarrow>
          (case (if ts_Enabled (tl_Traces t) \<and> hasOTLPEndpoint env
                 then (case newTracerProvider env s of (Some err, s1) \<Rightarrow> (Inl err, s1) | (None, s1) \<Rightarrow> (Inr (cls @ [CloseTracer]), s1))
                 else (Inr cls, s)) of
             (Inl err, s1) \<Rightarrow> (Inl err, s1)
           | (Inr cls1, s1) \<Rightarrow>
               if ts_Enabled (tl_Metrics t)
               then (case newMeterProvider env cfg s1 of
                       (Inl err, s2) \<Rightarrow> (Inl err, s2)
                     | (Inr (stopHTTP, _), s2) \<Rightarrow> (Inr (cls1 @ [CloseMeter stopHTTP]), s2))
               else (Inr cls1, s1)))"

definition Setup :: "tel_env \<Rightarrow> Config \<Rightarrow> tel_resource list \<Rightarrow> telemetry result \<times> tel_resource list" where
  "Setup env cfg s =
     (let t = cf_Telemetry cfg; cw = tl_CloudWatch t in
      case add_hook (se_Enabled (tl_Sentry t)) (setupSentry env (tl_Sentry t))
             ''telemetry.sentry.enabled=true but no DSN resolved (set telemetry.sentry.dsn or SENTRY_DSN); Sentry disabled''
             CloseSentry ([], [], []) s of
        (Inl err, s1) \<Rightarrow> (Inl err, s1)
      | (Inr a1, s1) \<Rightarrow>
          (case add_hook (ph_Enabled (tl_PostHog t)) (setupPostHog env (tl_PostHog t))
                  ''telemetry.posthog.enabled=true but no API key resolved (set telemetry.posthog.api_key or POSTHOG_API_KEY); PostHog disabled''
                  ClosePostHog a1 s1 of
             (Inl err, s2) \<Rightarrow> (Inl err, s2)
           | (Inr a2, s2) \<Rightarrow>
               (case add_hook (cw_Enabled cw \<and> cwl_Enabled (cw_Logs cw)) (shipper_hook env cw) [] CloseShipper a2 s2 of
                  (Inl err, s3) \<Rightarrow> (Inl err, s3)
                | (Inr (hooks, warns, cls), s3) \<Rightarrow>
                    (case setup_providers env cfg cls s3 of
                       (Inl err, s4) \<Rightarrow> (Inl err, s4)
                     | (Inr cls1, s4) \<Rightarrow>
                         (Inr \<lparr>tmLogger = buildLogger env (cf_Log cfg) hooks, tmWarnings = warns, tmClosers = cls1\<rparr>, s4)))))"

text \<open>A closer and what it releases; \<open>fails\<close> says what it reports.\<close>

fun releases :: "closer \<Rightarrow> tel_resource list" where
  "releases CloseSentry = [RSentry]"
| "releases ClosePostHog = [RPostHog]"
| "releases CloseShipper = [RShipper]"
| "releases CloseTracer = [RTracer]"
| "releases (CloseMeter stopHTTP) = RMeter # (if stopHTTP then [RPromListener] else [])"

fun release_all :: "tel_resource list \<Rightarrow> tel_resource list \<Rightarrow> tel_resource list" where
  "release_all [] s = s"
| "release_all (r # rs) s = release_all rs (remove1 r s)"

fun run_closers :: "(closer \<Rightarrow> go_error option) \<Rightarrow> closer list \<Rightarrow> tel_resource list \<Rightarrow> go_error option list \<times> tel_resource list" where
  "run_closers fails [] s = ([], s)"
| "run_closers fails (c # cs) s =
     (case run_closers fails cs (release_all (releases c) s) of (errs, s1) \<Rightarrow> (fails c # errs, s1))"

definition telemetry_Shutdown :: "(closer \<Rightarrow> go_error option) \<Rightarrow> telemetry \<Rightarrow> tel_resource list \<Rightarrow> go_error option \<times> tel_resource list" where
  "telemetry_Shutdown fails t s = (case run_closers fails (rev (tmClosers t)) s of (errs, s1) \<Rightarrow> (errors_Join errs, s1))"

subsection \<open>Everything that was started is released\<close>

definition owned :: "closer list \<Rightarrow> tel_resource multiset" where
  "owned cls = mset (concat (map releases cls))"

lemma owned_append [simp]: "owned (xs @ ys) = owned xs + owned ys"
  by (simp add: owned_def)

lemma owned_simps [simp]: "owned [] = {#}" "owned (c # cs) = mset (releases c) + owned cs"
  by (simp_all add: owned_def)

lemma add_hook_owned:
  assumes "\<And>s h s'. setup s = (Inr h, s') \<Longrightarrow> mset s' = mset s + mset (releases cl)" "\<And>s e s'. setup s = (Inl e, s') \<Longrightarrow> s' = s"
    and "add_hook enabled setup w cl (hooks, warns, cls) s = (Inr (hooks', warns', cls'), s')" "mset s = owned cls"
  shows "mset s' = owned cls'"
  using assms(3,4)
  by (auto simp: add_hook_def split: if_splits prod.splits sum.splits setup_error.splits dest: assms(1,2))

lemma setup_hooks_own:
  "setupSentry env sc s = (Inr h, s') \<Longrightarrow> mset s' = mset s + mset (releases CloseSentry)"
  "setupSentry env sc s = (Inl e, s') \<Longrightarrow> s' = s"
  "setupPostHog env pc s = (Inr h, s') \<Longrightarrow> mset s' = mset s + mset (releases ClosePostHog)"
  "setupPostHog env pc s = (Inl e, s') \<Longrightarrow> s' = s"
  "shipper_hook env cc s = (Inr h, s') \<Longrightarrow> mset s' = mset s + mset (releases CloseShipper)"
  "shipper_hook env cc s = (Inl e, s') \<Longrightarrow> s' = s"
  by (auto simp: setupSentry_def setupPostHog_def shipper_hook_def Let_def split: if_splits sum.splits option.splits prod.splits)

lemma newMeterProvider_owned:
  "newMeterProvider env cfg s = (Inr (b, n), s') \<Longrightarrow> mset s' = mset s + mset (releases (CloseMeter b))"
  by (auto simp: newMeterProvider_def startPrometheusServer_def Let_def split: if_splits sum.splits option.splits prod.splits)

lemma setup_providers_owned:
  assumes "setup_providers env cfg cls s = (Inr cls', s')" "mset s = owned cls"
  shows "mset s' = owned cls'"
  using assms
  by (auto simp: setup_providers_def newTracerProvider_def Let_def split: if_splits sum.splits option.splits prod.splits
      dest!: newMeterProvider_owned)

lemma mset_release_all: "mset (release_all rs s) = mset s - mset rs"
  by (induction rs arbitrary: s) simp_all

lemma run_closers_owned: "mset (snd (run_closers fails cls s)) = mset s - owned cls"
proof (induction cls arbitrary: s)
  case (Cons c cls)
  then show ?case by (simp add: split_beta mset_release_all diff_diff_add_mset)
qed simp

lemma Setup_owned:
  assumes "Setup env cfg [] = (Inr t, s)"
  shows "mset s = owned (tmClosers t)"
proof -
  let ?t = "cf_Telemetry cfg"
  obtain h1 w1 c1 s1 where 1: "add_hook (se_Enabled (tl_Sentry ?t)) (setupSentry env (tl_Sentry ?t))
      ''telemetry.sentry.enabled=true but no DSN resolved (set telemetry.sentry.dsn or SENTRY_DSN); Sentry disabled''
      CloseSentry ([], [], []) [] = (Inr (h1, w1, c1), s1)"
    using assms by (auto simp: Setup_def Let_def split: sum.splits prod.splits)
  obtain h2 w2 c2 s2 where 2: "add_hook (ph_Enabled (tl_PostHog ?t)) (setupPostHog env (tl_PostHog ?t))
      ''telemetry.posthog.enabled=true but no API key resolved (set telemetry.posthog.api_key or POSTHOG_API_KEY); PostHog disabled''
      ClosePostHog (h1, w1, c1) s1 = (Inr (h2, w2, c2), s2)"
    using assms 1 by (auto simp: Setup_def Let_def split: sum.splits prod.splits)
  obtain h3 w3 c3 s3 where 3: "add_hook (cw_Enabled (tl_CloudWatch ?t) \<and> cwl_Enabled (cw_Logs (tl_CloudWatch ?t)))
      (shipper_hook env (tl_CloudWatch ?t)) [] CloseShipper (h2, w2, c2) s2 = (Inr (h3, w3, c3), s3)"
    using assms 1 2 by (auto simp: Setup_def Let_def split: sum.splits prod.splits)
  have 4: "setup_providers env cfg c3 s3 = (Inr (tmClosers t), s)"
    using assms 1 2 3 by (auto simp: Setup_def Let_def split: sum.splits prod.splits)
  have "mset s1 = owned c1" using add_hook_owned [OF setup_hooks_own(1,2) 1] by (simp add: owned_def)
  from add_hook_owned [OF setup_hooks_own(3,4) 2 this] have "mset s2 = owned c2" .
  from add_hook_owned [OF setup_hooks_own(5,6) 3 this] have "mset s3 = owned c3" .
  from setup_providers_owned [OF 4 this] show ?thesis .
qed

lemma Shutdown_owned:
  assumes "mset s = owned (tmClosers t)"
  shows "snd (telemetry_Shutdown fails t s) = []"
proof -
  have "owned (rev (tmClosers t)) = owned (tmClosers t)" by (simp add: owned_def mset_concat rev_map [symmetric] sum_mset_sum_list)
  with assms run_closers_owned [of fails "rev (tmClosers t)" s] have "mset (snd (run_closers fails (rev (tmClosers t)) s)) = {#}" by simp
  then show ?thesis by (simp add: telemetry_Shutdown_def split_beta)
qed

text \<open>Whatever the configuration starts, the handle that setup returns releases, each exactly once, even when some of
  the closers fail: after \<^verbatim>\<open>Shutdown\<close> nothing of it is running.\<close>

theorem Setup_Shutdown_releases:
  assumes "Setup env cfg [] = (Inr t, s)"
  shows "mset s = owned (tmClosers t) \<and> snd (telemetry_Shutdown fails t s) = []"
  using Setup_owned [OF assms] Shutdown_owned by blast

text \<open>A setup that fails releases nothing of what it has started: the server of Prometheus, for instance, when a later
  exporter is refused.\<close>

lemma newMeterProvider_leak:
  assumes "\<not> hasOTLPEndpoint env" "pr_Enabled (tl_Prometheus (cf_Telemetry cfg))" "tvPromExporter env = None"
    and "tvListen env (pr_Listen (tl_Prometheus (cf_Telemetry cfg))) = None"
    and "gr_Enabled (tl_Graphite (cf_Telemetry cfg))" "newGraphiteExporter (tl_Graphite (cf_Telemetry cfg)) = Inl err"
  shows "snd (newMeterProvider env cfg s) = s @ [RPromListener] \<and> isl (fst (newMeterProvider env cfg s))"
  using assms by (simp add: newMeterProvider_def startPrometheusServer_def Let_def)

definition toy_tel_env :: tel_env where
  "toy_tel_env = \<lparr>tvGetenv = (\<lambda>v. if v = ''OTEL_EXPORTER_OTLP_ENDPOINT'' then ''http://o'' else []), tvHostname = ''h'', tvParseLevel = (\<lambda>_. Inr 1),
     tvSentryInit = (\<lambda>_ _ _. None), tvPostHogNew = (\<lambda>_ _. None), tvLoadAWS = (\<lambda>_. None), tvResource = (\<lambda>_ _. None),
     tvTraceExporter = (\<lambda>_. None), tvMetricExporter = (\<lambda>_. None), tvPromExporter = None, tvListen = (\<lambda>_. None)\<rparr>"

definition toy_tel_config :: Config where
  "toy_tel_config = zero_Config\<lparr>cf_Telemetry := zero_TelemetryConfig\<lparr>tl_Traces := \<lparr>ts_Enabled = True\<rparr>, tl_Metrics := \<lparr>ts_Enabled = True\<rparr>,
     tl_Prometheus := \<lparr>pr_Enabled = True, pr_Listen = '':9090''\<rparr>\<rparr>\<rparr>"

theorem Setup_Shutdown_releases_witness:
  "\<exists>t. Setup toy_tel_env toy_tel_config [] = (Inr t, [RTracer, RPromListener, RMeter]) \<and> tmClosers t = [CloseTracer, CloseMeter True] \<and>
     snd (telemetry_Shutdown (\<lambda>_. Some Canceled) t [RTracer, RPromListener, RMeter]) = []"
proof -
  note defs = toy_tel_env_def toy_tel_config_def zero_Config_def zero_TelemetryConfig_def zero_TelemetrySentryConfig_def
    zero_TelemetryPostHogConfig_def zero_TelemetryCloudWatchConfig_def zero_TelemetryGraphiteConfig_def
  obtain t where t: "Setup toy_tel_env toy_tel_config [] = (Inr t, [RTracer, RPromListener, RMeter])" "tmClosers t = [CloseTracer, CloseMeter True]"
    by (simp add: Setup_def add_hook_def setup_providers_def newTracerProvider_def newMeterProvider_def startPrometheusServer_def
        otlpProtocol_def hasOTLPEndpoint_def upper_byte_def is_lower_def byte_def defs Let_def)
  with Setup_Shutdown_releases [OF t(1), of "\<lambda>_. Some Canceled"] show ?thesis by blast
qed

end
