(* ===== verification/Config_Load.thy ===== *)
theory Config_Load
  imports Config_Defaults Feed_Fetch
begin

section \<open>Loading the configuration\<close>

text \<open>
  \<^verbatim>\<open>internal/config/load.go\<close>: the defaults that are registered by key, the precedence of environment, file and
  default, and the substitution of \<^verbatim>\<open>${VAR}\<close> in strings.  Reading the file and decoding values are arguments: a
  setting is a value of its type, and \<open>base\<close> is what the other keys of the file decode to.
\<close>

subsection \<open>Substitution\<close>

definition var_char :: "char \<Rightarrow> bool" where
  "var_char c \<longleftrightarrow> is_upper c \<or> c = CHR ''_'' \<or> (48 \<le> byte c \<and> byte c \<le> 57)"

text \<open>The pattern \<^verbatim>\<open>\$\{([A-Z_][A-Z0-9_]*)\}\<close> at the start of a string: the name and what follows.\<close>

definition match_var :: "string \<Rightarrow> (string \<times> string) option" where
  "match_var s =
     (case s of
        c # d # rest \<Rightarrow>
          (let name = takeWhile var_char rest; after = dropWhile var_char rest in
           if c = CHR ''$'' \<and> d = CHR ''{'' \<and> name \<noteq> [] \<and> \<not> (48 \<le> byte (hd name) \<and> byte (hd name) \<le> 57) \<and>
              after \<noteq> [] \<and> hd after = CHR ''}''
           then Some (name, tl after) else None)
      | _ \<Rightarrow> None)"

lemma match_var_length: "match_var s = Some (name, rest) \<Longrightarrow> length rest < length s"
proof -
  assume a: "match_var s = Some (name, rest)"
  then obtain c d r where s: "s = c # d # r" by (auto simp: match_var_def split: list.splits)
  with a have "rest = tl (dropWhile var_char r)" by (auto simp: match_var_def Let_def split: if_splits)
  then have "length rest \<le> length r" using length_dropWhile_le [of var_char r] by simp
  with s show ?thesis by simp
qed

function expand_env :: "(string \<Rightarrow> string) \<Rightarrow> string \<Rightarrow> string" where
  "expand_env getenv s =
     (case match_var s of
        Some (name, rest) \<Rightarrow> getenv name @ expand_env getenv rest
      | None \<Rightarrow> (case s of [] \<Rightarrow> [] | c # cs \<Rightarrow> c # expand_env getenv cs))"
  by pat_completeness auto
termination by (relation "measure (length \<circ> snd)") (auto dest: match_var_length)

text \<open>A string without a dollar sign is left alone; a reference is replaced by the value as it is, which is not
  searched again.\<close>

lemma match_var_dollar: "match_var (c # s) = Some r \<Longrightarrow> c = CHR ''$''"
  by (auto simp: match_var_def Let_def split: list.splits if_splits)

lemma expand_env_plain: "CHR ''$'' \<notin> set a \<Longrightarrow> expand_env getenv (a @ s) = a @ expand_env getenv s"
proof (induction a)
  case (Cons c a)
  then have "match_var (c # a @ s) = None" using match_var_dollar by (cases "match_var (c # a @ s)") auto
  with Cons show ?case by (simp add: expand_env.simps [of getenv "c # a @ s"])
qed simp

lemma expand_env_reference:
  assumes "CHR ''$'' \<notin> set a" "list_all var_char name" "name \<noteq> []" "\<not> (48 \<le> byte (hd name) \<and> byte (hd name) \<le> 57)"
  shows "expand_env getenv (a @ ''${'' @ name @ ''}'' @ s) = a @ getenv name @ expand_env getenv s"
proof -
  have "\<not> var_char (CHR ''}'')" by (simp add: var_char_def is_upper_def byte_def)
  moreover have "takeWhile var_char name = name" "dropWhile var_char name = []"
    using assms(2) by (simp_all add: list_all_iff)
  ultimately have "match_var (''${'' @ name @ ''}'' @ s) = Some (name, s)"
    using assms by (simp add: match_var_def Let_def takeWhile_append list_all_iff dropWhile_append)
  then show ?thesis using expand_env_plain [OF assms(1)] by (simp add: expand_env.simps [of getenv "''${'' @ name @ ''}'' @ s"])
qed

subsection \<open>Settings\<close>

datatype setting = STxt string | SBool bool | SNum int | SDur duration | SRate "rat option"

definition applyDefaults :: "Config \<Rightarrow> (string \<times> setting) list" where
  "applyDefaults d =
     [(''log.level'', STxt (lg_Level (cf_Log d))),
      (''log.format'', STxt (lg_Format (cf_Log d))),
      (''telemetry.service_name'', STxt (tl_ServiceName (cf_Telemetry d))),
      (''telemetry.instance_id'', STxt (tl_InstanceID (cf_Telemetry d))),
      (''telemetry.traces.enabled'', SBool (ts_Enabled (tl_Traces (cf_Telemetry d)))),
      (''telemetry.metrics.enabled'', SBool (ts_Enabled (tl_Metrics (cf_Telemetry d)))),
      (''telemetry.logs.enabled'', SBool (ts_Enabled (tl_Logs (cf_Telemetry d)))),
      (''telemetry.prometheus.enabled'', SBool (pr_Enabled (tl_Prometheus (cf_Telemetry d)))),
      (''telemetry.prometheus.listen'', STxt (pr_Listen (tl_Prometheus (cf_Telemetry d)))),
      (''telemetry.graphite.enabled'', SBool (gr_Enabled (tl_Graphite (cf_Telemetry d)))),
      (''telemetry.graphite.address'', STxt (gr_Address (tl_Graphite (cf_Telemetry d)))),
      (''telemetry.graphite.prefix'', STxt (gr_Prefix (tl_Graphite (cf_Telemetry d)))),
      (''telemetry.graphite.interval'', SDur (gr_Interval (tl_Graphite (cf_Telemetry d)))),
      (''telemetry.sentry.enabled'', SBool (se_Enabled (tl_Sentry (cf_Telemetry d)))),
      (''telemetry.sentry.level'', STxt (se_Level (tl_Sentry (cf_Telemetry d)))),
      (''telemetry.sentry.sample_rate'', SRate (se_SampleRate (tl_Sentry (cf_Telemetry d)))),
      (''telemetry.sentry.traces_sample_rate'', SRate (se_TracesSampleRate (tl_Sentry (cf_Telemetry d)))),
      (''telemetry.posthog.enabled'', SBool (ph_Enabled (tl_PostHog (cf_Telemetry d)))),
      (''telemetry.posthog.endpoint'', STxt (ph_Endpoint (tl_PostHog (cf_Telemetry d)))),
      (''telemetry.posthog.level'', STxt (ph_Level (tl_PostHog (cf_Telemetry d)))),
      (''telemetry.posthog.flush_interval'', SDur (ph_FlushInterval (tl_PostHog (cf_Telemetry d)))),
      (''http.user_agent'', STxt (ht_UserAgent (cf_HTTP d))),
      (''http.timeout'', SDur (ht_Timeout (cf_HTTP d))),
      (''http.retry.max_attempts'', SNum (rc_MaxAttempts (ht_Retry (cf_HTTP d)))),
      (''http.retry.base_delay'', SDur (rc_BaseDelay (ht_Retry (cf_HTTP d)))),
      (''http.retry.max_delay'', SDur (rc_MaxDelay (ht_Retry (cf_HTTP d)))),
      (''retry.max_attempts'', SNum (rc_MaxAttempts (cf_Retry d))),
      (''retry.base_delay'', SDur (rc_BaseDelay (cf_Retry d))),
      (''retry.max_delay'', SDur (rc_MaxDelay (cf_Retry d))),
      (''runtime.shutdown_drain_timeout'', SDur (rn_ShutdownDrainTimeout (cf_Runtime d))),
      (''runtime.run_once_concurrency'', SNum (rn_RunOnceConcurrency (cf_Runtime d))),
      (''heartbeat.enabled'', SBool (hb_Enabled (cf_Heartbeat d))),
      (''heartbeat.interval'', SDur (hb_Interval (cf_Heartbeat d))),
      (''coordination.driver'', STxt (co_Driver (cf_Coordination d))),
      (''coordination.assignment.enabled'', SBool (as_Enabled (co_Assignment (cf_Coordination d)))),
      (''coordination.assignment.strategy'', STxt (as_Strategy (co_Assignment (cf_Coordination d)))),
      (''coordination.assignment.heartbeat_interval'', SDur (as_HeartbeatInterval (co_Assignment (cf_Coordination d)))),
      (''coordination.assignment.member_ttl'', SDur (as_MemberTTL (co_Assignment (cf_Coordination d)))),
      (''coordination.assignment.rebalance_grace'', SDur (as_RebalanceGrace (co_Assignment (cf_Coordination d)))),
      (''health.enabled'', SBool (hc_Enabled (cf_Health d))),
      (''health.listen'', STxt (hc_Listen (cf_Health d))),
      (''health.liveness_path'', STxt (hc_LivenessPath (cf_Health d))),
      (''health.readiness_path'', STxt (hc_ReadinessPath (cf_Health d))),
      (''health.startup_path'', STxt (hc_StartupPath (cf_Health d))),
      (''admin.enabled'', SBool (ad_Enabled (cf_Admin d))),
      (''admin.listen'', STxt (ad_Listen (cf_Admin d))),
      (''admin.auth.enabled'', SBool (aa_Enabled (ad_Auth (cf_Admin d))))]"

text \<open>What \<^verbatim>\<open>Unmarshal\<close> sees of a key: the environment counts for a key that is registered or in the file.\<close>

definition effective :: "(string \<times> setting) list \<Rightarrow> (string \<Rightarrow> setting option) \<Rightarrow> (string \<Rightarrow> setting option) \<Rightarrow> string \<Rightarrow> setting option" where
  "effective defaults file env key =
     (case env key of
        Some v \<Rightarrow> if map_of defaults key \<noteq> None \<or> file key \<noteq> None then Some v else None
      | None \<Rightarrow> (case file key of Some v \<Rightarrow> Some v | None \<Rightarrow> map_of defaults key))"

definition get_txt :: "(string \<Rightarrow> setting option) \<Rightarrow> string \<Rightarrow> string" where
  "get_txt m k = (case m k of Some (STxt s) \<Rightarrow> s | _ \<Rightarrow> [])"

definition get_bool :: "(string \<Rightarrow> setting option) \<Rightarrow> string \<Rightarrow> bool" where
  "get_bool m k = (case m k of Some (SBool b) \<Rightarrow> b | _ \<Rightarrow> False)"

definition get_num :: "(string \<Rightarrow> setting option) \<Rightarrow> string \<Rightarrow> int" where
  "get_num m k = (case m k of Some (SNum n) \<Rightarrow> n | _ \<Rightarrow> 0)"

definition get_dur :: "(string \<Rightarrow> setting option) \<Rightarrow> string \<Rightarrow> duration" where
  "get_dur m k = (case m k of Some (SDur n) \<Rightarrow> n | _ \<Rightarrow> 0)"

definition get_rate :: "(string \<Rightarrow> setting option) \<Rightarrow> string \<Rightarrow> rat option" where
  "get_rate m k = (case m k of Some (SRate r) \<Rightarrow> r | _ \<Rightarrow> Some 0)"

definition load_telemetry :: "(string \<Rightarrow> setting option) \<Rightarrow> TelemetryConfig \<Rightarrow> TelemetryConfig" where
  "load_telemetry m t =
     t\<lparr>tl_ServiceName := get_txt m ''telemetry.service_name'', tl_InstanceID := get_txt m ''telemetry.instance_id'',
       tl_Traces := \<lparr>ts_Enabled = get_bool m ''telemetry.traces.enabled''\<rparr>,
       tl_Metrics := \<lparr>ts_Enabled = get_bool m ''telemetry.metrics.enabled''\<rparr>,
       tl_Logs := \<lparr>ts_Enabled = get_bool m ''telemetry.logs.enabled''\<rparr>,
       tl_Prometheus := \<lparr>pr_Enabled = get_bool m ''telemetry.prometheus.enabled'', pr_Listen = get_txt m ''telemetry.prometheus.listen''\<rparr>,
       tl_Graphite := \<lparr>gr_Enabled = get_bool m ''telemetry.graphite.enabled'', gr_Address = get_txt m ''telemetry.graphite.address'',
         gr_Prefix = get_txt m ''telemetry.graphite.prefix'', gr_Interval = get_dur m ''telemetry.graphite.interval''\<rparr>,
       tl_Sentry := (tl_Sentry t)\<lparr>se_Enabled := get_bool m ''telemetry.sentry.enabled'', se_Level := get_txt m ''telemetry.sentry.level'',
         se_SampleRate := get_rate m ''telemetry.sentry.sample_rate'',
         se_TracesSampleRate := get_rate m ''telemetry.sentry.traces_sample_rate''\<rparr>,
       tl_PostHog := (tl_PostHog t)\<lparr>ph_Enabled := get_bool m ''telemetry.posthog.enabled'',
         ph_Endpoint := get_txt m ''telemetry.posthog.endpoint'', ph_Level := get_txt m ''telemetry.posthog.level'',
         ph_FlushInterval := get_dur m ''telemetry.posthog.flush_interval''\<rparr>\<rparr>"

definition load_retry :: "(string \<Rightarrow> setting option) \<Rightarrow> string \<Rightarrow> RetryConfig" where
  "load_retry m p =
     \<lparr>rc_MaxAttempts = get_num m (p @ ''.max_attempts''), rc_BaseDelay = get_dur m (p @ ''.base_delay''),
      rc_MaxDelay = get_dur m (p @ ''.max_delay'')\<rparr>"

definition load_registered :: "(string \<Rightarrow> setting option) \<Rightarrow> Config \<Rightarrow> Config" where
  "load_registered m base =
     base\<lparr>cf_Log := \<lparr>lg_Level = get_txt m ''log.level'', lg_Format = get_txt m ''log.format''\<rparr>,
       cf_Telemetry := load_telemetry m (cf_Telemetry base),
       cf_HTTP := \<lparr>ht_UserAgent = get_txt m ''http.user_agent'', ht_Timeout = get_dur m ''http.timeout'', ht_Retry = load_retry m ''http.retry''\<rparr>,
       cf_Retry := load_retry m ''retry'',
       cf_Runtime := (cf_Runtime base)\<lparr>rn_ShutdownDrainTimeout := get_dur m ''runtime.shutdown_drain_timeout'',
         rn_RunOnceConcurrency := get_num m ''runtime.run_once_concurrency''\<rparr>,
       cf_Heartbeat := \<lparr>hb_Enabled = get_bool m ''heartbeat.enabled'', hb_Interval = get_dur m ''heartbeat.interval''\<rparr>,
       cf_Coordination := (cf_Coordination base)\<lparr>co_Driver := get_txt m ''coordination.driver'',
         co_Assignment := \<lparr>as_Enabled = get_bool m ''coordination.assignment.enabled'',
           as_Strategy = get_txt m ''coordination.assignment.strategy'',
           as_HeartbeatInterval = get_dur m ''coordination.assignment.heartbeat_interval'',
           as_MemberTTL = get_dur m ''coordination.assignment.member_ttl'',
           as_RebalanceGrace = get_dur m ''coordination.assignment.rebalance_grace''\<rparr>\<rparr>,
       cf_Health := \<lparr>hc_Enabled = get_bool m ''health.enabled'', hc_Listen = get_txt m ''health.listen'',
         hc_LivenessPath = get_txt m ''health.liveness_path'', hc_ReadinessPath = get_txt m ''health.readiness_path'',
         hc_StartupPath = get_txt m ''health.startup_path''\<rparr>,
       cf_Admin := (cf_Admin base)\<lparr>ad_Enabled := get_bool m ''admin.enabled'', ad_Listen := get_txt m ''admin.listen'',
         ad_Auth := (ad_Auth (cf_Admin base))\<lparr>aa_Enabled := get_bool m ''admin.auth.enabled''\<rparr>\<rparr>\<rparr>"

text \<open>\<open>read\<close> reads the file at a path, or the one that is searched for: not found, an error, or its settings and what its
  other keys decode to; \<open>decodes\<close> is the error of decoding.\<close>

datatype config_file = ConfigNotFound | ConfigError go_error | ConfigFile "string \<Rightarrow> setting option" Config

definition Load ::
    "(string \<Rightarrow> config_file) \<Rightarrow> (string \<Rightarrow> setting option) \<Rightarrow> (config_file \<Rightarrow> go_error option) \<Rightarrow> string \<Rightarrow> Config result" where
  "Load read env decodes explicitPath =
     (let decode = (\<lambda>f file base. case decodes f of
             Some err \<Rightarrow> Inl (Errorf ''unmarshal config: %w'' [FWrap err])
           | None \<Rightarrow> Inr (load_registered (effective (applyDefaults Defaults) file env) base))
      in case read explicitPath of
           ConfigError err \<Rightarrow> Inl (Errorf ''read config: %w'' [FWrap err])
         | ConfigNotFound \<Rightarrow>
             if explicitPath \<noteq> [] then Inl (Errorf ''read config: %w'' [FWrap (Errorf ''not found'' [])])
             else decode ConfigNotFound (\<lambda>_. None) zero_Config
         | ConfigFile file base \<Rightarrow> decode (ConfigFile file base) file base)"

subsection \<open>What is loaded without a file\<close>

lemma effective_unregistered: "map_of defaults k = None \<Longrightarrow> file k = None \<Longrightarrow> effective defaults file env k = None"
  by (simp add: effective_def split: option.split)

definition registered :: "string list" where
  "registered = map fst (applyDefaults Defaults)"

text \<open>What is registered under each key, for any defaults.\<close>

lemma registered_log:
  "map_of (applyDefaults d) ''log.level'' = Some (STxt (lg_Level (cf_Log d)))"
  "map_of (applyDefaults d) ''log.format'' = Some (STxt (lg_Format (cf_Log d)))"
  by (simp_all add: applyDefaults_def)

lemma registered_telemetry:
  "map_of (applyDefaults d) ''telemetry.service_name'' = Some (STxt (tl_ServiceName (cf_Telemetry d)))"
  "map_of (applyDefaults d) ''telemetry.instance_id'' = Some (STxt (tl_InstanceID (cf_Telemetry d)))"
  "map_of (applyDefaults d) ''telemetry.traces.enabled'' = Some (SBool (ts_Enabled (tl_Traces (cf_Telemetry d))))"
  "map_of (applyDefaults d) ''telemetry.metrics.enabled'' = Some (SBool (ts_Enabled (tl_Metrics (cf_Telemetry d))))"
  "map_of (applyDefaults d) ''telemetry.logs.enabled'' = Some (SBool (ts_Enabled (tl_Logs (cf_Telemetry d))))"
  "map_of (applyDefaults d) ''telemetry.prometheus.enabled'' = Some (SBool (pr_Enabled (tl_Prometheus (cf_Telemetry d))))"
  "map_of (applyDefaults d) ''telemetry.prometheus.listen'' = Some (STxt (pr_Listen (tl_Prometheus (cf_Telemetry d))))"
  "map_of (applyDefaults d) ''telemetry.graphite.enabled'' = Some (SBool (gr_Enabled (tl_Graphite (cf_Telemetry d))))"
  "map_of (applyDefaults d) ''telemetry.graphite.address'' = Some (STxt (gr_Address (tl_Graphite (cf_Telemetry d))))"
  "map_of (applyDefaults d) ''telemetry.graphite.prefix'' = Some (STxt (gr_Prefix (tl_Graphite (cf_Telemetry d))))"
  "map_of (applyDefaults d) ''telemetry.graphite.interval'' = Some (SDur (gr_Interval (tl_Graphite (cf_Telemetry d))))"
  "map_of (applyDefaults d) ''telemetry.sentry.enabled'' = Some (SBool (se_Enabled (tl_Sentry (cf_Telemetry d))))"
  "map_of (applyDefaults d) ''telemetry.sentry.level'' = Some (STxt (se_Level (tl_Sentry (cf_Telemetry d))))"
  "map_of (applyDefaults d) ''telemetry.sentry.sample_rate'' = Some (SRate (se_SampleRate (tl_Sentry (cf_Telemetry d))))"
  "map_of (applyDefaults d) ''telemetry.sentry.traces_sample_rate'' = Some (SRate (se_TracesSampleRate (tl_Sentry (cf_Telemetry d))))"
  "map_of (applyDefaults d) ''telemetry.posthog.enabled'' = Some (SBool (ph_Enabled (tl_PostHog (cf_Telemetry d))))"
  "map_of (applyDefaults d) ''telemetry.posthog.endpoint'' = Some (STxt (ph_Endpoint (tl_PostHog (cf_Telemetry d))))"
  "map_of (applyDefaults d) ''telemetry.posthog.level'' = Some (STxt (ph_Level (tl_PostHog (cf_Telemetry d))))"
  "map_of (applyDefaults d) ''telemetry.posthog.flush_interval'' = Some (SDur (ph_FlushInterval (tl_PostHog (cf_Telemetry d))))"
  by (simp_all add: applyDefaults_def)

lemma registered_http:
  "map_of (applyDefaults d) ''http.user_agent'' = Some (STxt (ht_UserAgent (cf_HTTP d)))"
  "map_of (applyDefaults d) ''http.timeout'' = Some (SDur (ht_Timeout (cf_HTTP d)))"
  "map_of (applyDefaults d) ''http.retry.max_attempts'' = Some (SNum (rc_MaxAttempts (ht_Retry (cf_HTTP d))))"
  "map_of (applyDefaults d) ''http.retry.base_delay'' = Some (SDur (rc_BaseDelay (ht_Retry (cf_HTTP d))))"
  "map_of (applyDefaults d) ''http.retry.max_delay'' = Some (SDur (rc_MaxDelay (ht_Retry (cf_HTTP d))))"
  by (simp_all add: applyDefaults_def)

lemma registered_retry:
  "map_of (applyDefaults d) ''retry.max_attempts'' = Some (SNum (rc_MaxAttempts (cf_Retry d)))"
  "map_of (applyDefaults d) ''retry.base_delay'' = Some (SDur (rc_BaseDelay (cf_Retry d)))"
  "map_of (applyDefaults d) ''retry.max_delay'' = Some (SDur (rc_MaxDelay (cf_Retry d)))"
  by (simp_all add: applyDefaults_def)

lemma registered_runtime:
  "map_of (applyDefaults d) ''runtime.shutdown_drain_timeout'' = Some (SDur (rn_ShutdownDrainTimeout (cf_Runtime d)))"
  "map_of (applyDefaults d) ''runtime.run_once_concurrency'' = Some (SNum (rn_RunOnceConcurrency (cf_Runtime d)))"
  by (simp_all add: applyDefaults_def)

lemma registered_heartbeat:
  "map_of (applyDefaults d) ''heartbeat.enabled'' = Some (SBool (hb_Enabled (cf_Heartbeat d)))"
  "map_of (applyDefaults d) ''heartbeat.interval'' = Some (SDur (hb_Interval (cf_Heartbeat d)))"
  by (simp_all add: applyDefaults_def)

lemma registered_coordination:
  "map_of (applyDefaults d) ''coordination.driver'' = Some (STxt (co_Driver (cf_Coordination d)))"
  "map_of (applyDefaults d) ''coordination.assignment.enabled'' = Some (SBool (as_Enabled (co_Assignment (cf_Coordination d))))"
  "map_of (applyDefaults d) ''coordination.assignment.strategy'' = Some (STxt (as_Strategy (co_Assignment (cf_Coordination d))))"
  "map_of (applyDefaults d) ''coordination.assignment.heartbeat_interval'' = Some (SDur (as_HeartbeatInterval (co_Assignment (cf_Coordination d))))"
  "map_of (applyDefaults d) ''coordination.assignment.member_ttl'' = Some (SDur (as_MemberTTL (co_Assignment (cf_Coordination d))))"
  "map_of (applyDefaults d) ''coordination.assignment.rebalance_grace'' = Some (SDur (as_RebalanceGrace (co_Assignment (cf_Coordination d))))"
  by (simp_all add: applyDefaults_def)

lemma registered_health:
  "map_of (applyDefaults d) ''health.enabled'' = Some (SBool (hc_Enabled (cf_Health d)))"
  "map_of (applyDefaults d) ''health.listen'' = Some (STxt (hc_Listen (cf_Health d)))"
  "map_of (applyDefaults d) ''health.liveness_path'' = Some (STxt (hc_LivenessPath (cf_Health d)))"
  "map_of (applyDefaults d) ''health.readiness_path'' = Some (STxt (hc_ReadinessPath (cf_Health d)))"
  "map_of (applyDefaults d) ''health.startup_path'' = Some (STxt (hc_StartupPath (cf_Health d)))"
  by (simp_all add: applyDefaults_def)

lemma registered_admin:
  "map_of (applyDefaults d) ''admin.enabled'' = Some (SBool (ad_Enabled (cf_Admin d)))"
  "map_of (applyDefaults d) ''admin.listen'' = Some (STxt (ad_Listen (cf_Admin d)))"
  "map_of (applyDefaults d) ''admin.auth.enabled'' = Some (SBool (aa_Enabled (ad_Auth (cf_Admin d))))"
  by (simp_all add: applyDefaults_def)

lemmas registered_keys = registered_log registered_telemetry registered_http registered_retry registered_runtime registered_heartbeat registered_coordination registered_health registered_admin

lemma effective_no_file:
  assumes "list_all (\<lambda>k. env k = None) (map fst defaults)"
  shows "effective defaults (\<lambda>_. None) env = map_of defaults"
proof
  fix k
  show "effective defaults (\<lambda>_. None) env k = map_of defaults k"
  proof (cases "map_of defaults k")
    case None
    then show ?thesis by (simp add: effective_unregistered)
  next
    case (Some v)
    then have "env k = None" using assms map_of_SomeD [of defaults k v] by (auto simp: list_all_iff)
    with Some show ?thesis by (simp add: effective_def)
  qed
qed

lemmas getters = get_txt_def get_bool_def get_num_def get_dur_def get_rate_def

lemma load_telemetry_registered:
  "load_telemetry (map_of (applyDefaults Defaults)) zero_TelemetryConfig =
     Defaults_Telemetry\<lparr>tl_CloudWatch := zero_TelemetryCloudWatchConfig\<rparr>"
  by (simp add: load_telemetry_def getters registered_telemetry Defaults_def zero_TelemetryConfig_def Defaults_Telemetry_def
      zero_TelemetrySignalConfig_def zero_TelemetryPrometheusConfig_def zero_TelemetryGraphiteConfig_def)

lemma load_registered_defaults:
  "load_registered (map_of (applyDefaults Defaults)) zero_Config =
     Defaults\<lparr>cf_Telemetry := (cf_Telemetry Defaults)\<lparr>tl_CloudWatch := zero_TelemetryCloudWatchConfig\<rparr>\<rparr>"
proof -
  have "cf_Telemetry zero_Config = zero_TelemetryConfig" by (simp add: zero_Config_def)
  then show ?thesis
    by (simp add: load_registered_def load_retry_def getters registered_keys load_telemetry_registered)
      (simp add: Defaults_def zero_Config_def Defaults_Retry_def zero_RuntimeConfig_def zero_AdminConfig_def)
qed

text \<open>Without a file, and whatever the environment sets outside the registered keys, \<^verbatim>\<open>Load\<close> yields
  \<^verbatim>\<open>Defaults()\<close> in every section but one: no key of \<^verbatim>\<open>telemetry.cloudwatch\<close> is registered, so that section is the zero value,
  not its default, and its \<^verbatim>\<open>RSS2MSG_TELEMETRY__CLOUDWATCH__*\<close> variables are not seen.\<close>

theorem Load_defaults:
  assumes "list_all (\<lambda>k. env k = None) registered"
  shows "Load (\<lambda>_. ConfigNotFound) env (\<lambda>_. None) [] =
           Inr (Defaults\<lparr>cf_Telemetry := (cf_Telemetry Defaults)\<lparr>tl_CloudWatch := zero_TelemetryCloudWatchConfig\<rparr>\<rparr>)"
  using effective_no_file [OF assms [unfolded registered_def]] load_registered_defaults by (simp add: Load_def)

text \<open>With \<^verbatim>\<open>RSS2MSG_TELEMETRY__CLOUDWATCH__ENABLED=true\<close> in the environment, CloudWatch stays disabled.\<close>

lemma cloudwatch_unregistered: "''telemetry.cloudwatch.enabled'' \<notin> set registered"
  by (simp add: registered_def applyDefaults_def)

theorem Load_defaults_witness:
  "map_sum id (\<lambda>c. cw_Enabled (tl_CloudWatch (cf_Telemetry c)))
     (Load (\<lambda>_. ConfigNotFound) ((\<lambda>_. None)(''telemetry.cloudwatch.enabled'' \<mapsto> SBool True)) (\<lambda>_. None) []) = Inr False"
proof -
  have "list_all (\<lambda>k. ((\<lambda>_. None)(''telemetry.cloudwatch.enabled'' \<mapsto> SBool True)) k = None) registered"
    using cloudwatch_unregistered by (auto simp: list_all_iff)
  then show ?thesis by (simp add: Load_defaults zero_TelemetryCloudWatchConfig_def)
qed

end
