(* ===== verification/Commands.thy ===== *)
theory Commands
  imports Config_Load Wire Telemetry_Setup Health Run_Pool Net_Addr Json Int_Text
begin

section \<open>Commands (\<^verbatim>\<open>cmd/rss2msg\<close>)\<close>

text \<open>
  The entry points that put the parts together: \<^verbatim>\<open>bootstrap\<close> (\<^verbatim>\<open>main.go\<close>), \<^verbatim>\<open>run-once\<close>, the handlers for AWS Lambda and
  Azure Functions, \<^verbatim>\<open>validate-config\<close>, and the \<^verbatim>\<open>healthcheck\<close> probe; and the identifier of a fleet member
  (\<^verbatim>\<open>internal/coord/memberid.go\<close>).  The process is the telemetry resources that run, the world of the stores and sinks and
  the log of what was opened and closed.  The goroutines of a one-shot run follow a schedule, as in the theory of the
  worker pool; the command line parser and the warnings on the standard error are left out.
\<close>

subsection \<open>Which command runs\<close>

definition effectiveArgs :: "string list \<Rightarrow> string \<Rightarrow> string list" where
  "effectiveArgs args implicit = (if implicit = [] \<or> length args > 1 then args else args @ [implicit])"

definition implicitSubcommand :: "(string \<Rightarrow> string) \<Rightarrow> string" where
  "implicitSubcommand getenv =
     (if getenv ''AWS_LAMBDA_RUNTIME_API'' \<noteq> [] then ''lambda''
      else if getenv ''FUNCTIONS_CUSTOMHANDLER_PORT'' \<noteq> [] then ''azure-functions''
      else [])"

text \<open>\<^verbatim>\<open>coord.NewMemberID\<close>; the parts are given as text, absent where they cannot be read.\<close>

definition NewMemberID :: "string option \<Rightarrow> string \<Rightarrow> string option \<Rightarrow> string \<Rightarrow> string" where
  "NewMemberID hostname pid rand nanos =
     (let host = (case hostname of None \<Rightarrow> ''unknown'' | Some h \<Rightarrow> if h = [] then ''unknown'' else h) in
      case rand of
        None \<Rightarrow> host @ ''-'' @ pid @ ''-'' @ nanos
      | Some b \<Rightarrow> host @ ''-'' @ pid @ ''-'' @ b)"

subsection \<open>Start and end of a process\<close>

record 's cmd_env =
  meRead :: "string \<Rightarrow> config_file"
  meSettings :: "string \<Rightarrow> setting option"
  meDecodes :: "config_file \<Rightarrow> go_error option"
  meValid :: valid_env
  meTel :: tel_env
  meTelFails :: "closer \<Rightarrow> go_error option"
  meWire :: "'s wire_env"
  meOpen :: "source_options \<Rightarrow> 's \<Rightarrow> 's Source result \<times> 's"
  meClose :: "source_options \<Rightarrow> 's \<Rightarrow> 's"
  meHTTP :: "'s http_env"
  meSha :: "string \<Rightarrow> string"
  mePing :: "'s Store \<Rightarrow> 's \<Rightarrow> go_error option \<times> 's"

type_synonym 's process = "tel_resource list \<times> 's world"

definition bootstrap ::
    "'s cmd_env \<Rightarrow> string \<Rightarrow> 's process \<Rightarrow> (Config \<times> telemetry \<times> 's wired) result \<times> 's process" where
  "bootstrap m configPath p =
     (case Load (meRead m) (meSettings m) (meDecodes m) configPath of
        Inl err \<Rightarrow> (Inl err, p)
      | Inr cfg \<Rightarrow>
          (case snd (Validate (meValid m) cfg) of
             Some err \<Rightarrow> (Inl err, p)
           | None \<Rightarrow>
               (case Setup (meTel m) cfg (fst p) of
                  (Inl err, t) \<Rightarrow> (Inl err, (t, snd p))
                | (Inr tel, t) \<Rightarrow>
                    (case wireAll (meWire m) cfg (snd p) of
                       (Inl err, w) \<Rightarrow> (Inl err, (snd (telemetry_Shutdown (meTelFails m) tel t), w))
                     | (Inr wd, w) \<Rightarrow> (Inr (cfg, tel, wd), (t, w))))))"

text \<open>The deferred cleanup of a command.\<close>

definition clean_up :: "'s cmd_env \<Rightarrow> telemetry \<Rightarrow> 's wired \<Rightarrow> 's process \<Rightarrow> 's process" where
  "clean_up m tel wd p = (snd (telemetry_Shutdown (meTelFails m) tel (fst p)), wired_Close (meWire m) wd (snd p))"

text \<open>\<open>polls\<close> is what the polls of the schedule \<open>acts\<close> make of the world; the result is \<open>None\<close> for a schedule that does not
  complete.\<close>

definition run_once ::
    "'s cmd_env \<Rightarrow> ctx \<Rightarrow> string \<Rightarrow> pool_action list \<Rightarrow> ('s pipeline pool \<Rightarrow> 's \<Rightarrow> 's) \<Rightarrow> 's process \<Rightarrow>
     (go_error option \<times> 's process) option" where
  "run_once m c configPath acts polls p =
     (case bootstrap m configPath p of
        (Inl err, p1) \<Rightarrow> Some (Some err, p1)
      | (Inr (cfg, tel, wd), (t1, s1, l1)) \<Rightarrow>
          (case buildOneShotPipelines (meOpen m) (meClose m) (newPipelineFactory (meHTTP m) (meSha m) wd cfg) c cfg s1 of
             (Inl err, s2) \<Rightarrow> Some (Some err, clean_up m tel wd (t1, s2, l1))
           | (Inr pipes, s2) \<Rightarrow>
               (case pool_exec acts (start_pool (rn_RunOnceConcurrency (cf_Runtime cfg)) pipes) of
                  None \<Rightarrow> None
                | Some st \<Rightarrow>
                    if pool_done st then Some (pool_result st, clean_up m tel wd (t1, polls st s2, l1))
                    else None)))"

definition validate_config :: "'s cmd_env \<Rightarrow> string \<Rightarrow> 's process \<Rightarrow> go_error option \<times> 's process" where
  "validate_config m configPath p =
     (case Load (meRead m) (meSettings m) (meDecodes m) configPath of
        Inl err \<Rightarrow> (Some err, p)
      | Inr cfg \<Rightarrow>
          (case snd (Validate (meValid m) cfg) of
             Some err \<Rightarrow> (Some err, p)
           | None \<Rightarrow>
               (case Setup (meTel m) cfg (fst p) of
                  (Inl err, t) \<Rightarrow> (Some err, (t, snd p))
                | (Inr tel, t) \<Rightarrow>
                    (case wireAll (meWire m) cfg (snd p) of
                       (Inl err, w) \<Rightarrow> (Some err, (snd (telemetry_Shutdown (meTelFails m) tel t), w))
                     | (Inr wd, (s, l)) \<Rightarrow>
                         (case mePing m (wdStore wd) s of
                            (Some err, s1) \<Rightarrow> (Some (Errorf ''state store: %w'' [FWrap err]), clean_up m tel wd (t, s1, l))
                          | (None, s1) \<Rightarrow> (None, clean_up m tel wd (t, s1, l)))))))"

subsection \<open>Serverless handlers\<close>

record invokeResult =
  ivFeeds :: int
  ivOK :: bool
  ivError :: string

definition invoke_result :: "(go_error \<Rightarrow> string) \<Rightarrow> 'p list \<Rightarrow> go_error option \<Rightarrow> invokeResult" where
  "invoke_result err_text pipes err =
     \<lparr>ivFeeds = int (length pipes), ivOK = (err = None), ivError = (case err of None \<Rightarrow> [] | Some e \<Rightarrow> err_text e)\<rparr>"

text \<open>\<^verbatim>\<open>concurrency\<close> is the field of the event; zero when the payload does not have it.\<close>

definition pollHandler ::
    "(go_error \<Rightarrow> string) \<Rightarrow> 'p list \<Rightarrow> int \<Rightarrow> int \<Rightarrow> pool_action list \<Rightarrow> (invokeResult \<times> go_error option \<times> 'p pool) option" where
  "pollHandler err_text pipes defaultConcurrency evConcurrency acts =
     (let concurrency = (if evConcurrency > 0 then evConcurrency else defaultConcurrency) in
      case pool_exec acts (start_pool concurrency pipes) of
        None \<Rightarrow> None
      | Some st \<Rightarrow>
          if pool_done st then (let err = pool_result st in Some (invoke_result err_text pipes err, err, st))
          else None)"

definition json_result :: "invokeResult \<Rightarrow> json" where
  "json_result r = JObj ([(''feeds'', JInt (ivFeeds r)), (''ok'', JBool (ivOK r))] @
     (if ivError r = [] then [] else [(''error'', JStr (ivError r))]))"

definition customHandlerFunc ::
    "(json \<Rightarrow> string) \<Rightarrow> (go_error \<Rightarrow> string) \<Rightarrow> 'p list \<Rightarrow> int \<Rightarrow> pool_action list \<Rightarrow> reply \<Rightarrow> (reply \<times> 'p pool) option" where
  "customHandlerFunc encode err_text pipes concurrency acts w =
     (case pool_exec acts (start_pool concurrency pipes) of
        None \<Rightarrow> None
      | Some st \<Rightarrow>
          if pool_done st then
            (let err = pool_result st;
                 w1 = reply_Set ''Content-Type'' ''application/json'' w;
                 w2 = (if err \<noteq> None then WriteHeader 500 w1 else w1)
             in Some (reply_Write (encode (json_result (invoke_result err_text pipes err)) @ newline) w2, st))
          else None)"

subsection \<open>The health probe\<close>

text \<open>The URL before it is rendered: the request is sent to this host and path.\<close>

record probe_url =
  puHost :: string
  puPath :: string

definition JoinHostPort :: "string \<Rightarrow> string \<Rightarrow> string" where
  "JoinHostPort host port =
     (if CHR '':'' \<in> set host then ''['' @ host @ '']:'' @ port else host @ '':'' @ port)"

definition probeURL :: "HealthConfig \<Rightarrow> string \<Rightarrow> probe_url result" where
  "probeURL h probe =
     (case (if probe = ''readiness'' then Some (hc_ReadinessPath h)
            else if probe = ''liveness'' then Some (hc_LivenessPath h)
            else if probe = ''startup'' then Some (hc_StartupPath h)
            else None) of
        None \<Rightarrow> Inl (Errorf ''unknown probe %q (want %s, %s, or %s)''
                  [FStr probe, FStr ''readiness'', FStr ''liveness'', FStr ''startup''])
      | Some path \<Rightarrow>
          (case SplitHostPort (hc_Listen h) of
             None \<Rightarrow> Inl (Errorf ''parse health listen address %q: %w''
                       [FStr (hc_Listen h), FWrap (Errorf ''address error'' [])])
           | Some (host, port) \<Rightarrow>
               (let host' = (if host = [] \<or> host = ''0.0.0.0'' \<or> host = ''::'' then ''127.0.0.1'' else host) in
                Inr \<lparr>puHost = JoinHostPort host' port, puPath = path\<rparr>)))"

text \<open>\<open>get\<close> is the default HTTP client: the status of the response, or the error of the exchange.\<close>

definition runHealthcheck ::
    "'s runtime \<Rightarrow> (ctx \<Rightarrow> probe_url \<Rightarrow> 's \<Rightarrow> int result \<times> 's) \<Rightarrow> ctx \<Rightarrow> probe_url \<Rightarrow> duration \<Rightarrow> 's \<Rightarrow> go_error option \<times> 's" where
  "runHealthcheck rt get c target timeout s =
     (case get (WithTimeout rt c timeout s) target s of
        (Inl err, s1) \<Rightarrow> (Some (Errorf ''probe %s: %w'' [FStr (puHost target @ puPath target), FWrap err]), s1)
      | (Inr code, s1) \<Rightarrow>
          if code < 200 \<or> code \<ge> 300
          then (Some (Errorf ''probe %s: unhealthy (HTTP %d)'' [FStr (puHost target @ puPath target), FInt code]), s1)
          else (None, s1))"

definition healthcheck ::
    "'s runtime \<Rightarrow> (ctx \<Rightarrow> probe_url \<Rightarrow> 's \<Rightarrow> int result \<times> 's) \<Rightarrow> ctx \<Rightarrow> Config result \<Rightarrow> string \<Rightarrow> duration \<Rightarrow> 's \<Rightarrow> go_error option \<times> 's" where
  "healthcheck rt get c loaded probe timeout s =
     (case loaded of
        Inl err \<Rightarrow> (Some err, s)
      | Inr cfg \<Rightarrow>
          if \<not> hc_Enabled (cf_Health cfg)
          then (Some (Errorf ''health endpoints are disabled in config; nothing to probe'' []), s)
          else case probeURL (cf_Health cfg) probe of
            Inl err \<Rightarrow> (Some err, s)
          | Inr target \<Rightarrow> runHealthcheck rt get c target timeout s)"

subsection \<open>Everything is released\<close>

lemma wired_Close_balanced:
  assumes "distinct (map sc_Name (cf_Sinks cfg))" "\<And>ps. mset (weOrder env ps) = mset ps"
    and "wireAll env cfg (s, []) = (Inr wd, w)"
  shows "balanced (snd (wired_Close env wd (s', snd w)))"
proof -
  from wireAll_log [OF assms] have
    l: "snd w = Opened RStore # map (\<lambda>sc. Opened (RSink (sc_Name sc))) (cf_Sinks cfg) @ [Opened RCoord]"
    and "wdRegistry wd = map (\<lambda>sc. (sc_Name sc, publisher_of sc)) (cf_Sinks cfg)" by simp_all
  then have "registry_All (wdRegistry wd) = map publisher_of (cf_Sinks cfg)" by (simp add: registry_All_def)
  from balanced_closed(3) [OF assms(2) this refl] show ?thesis
    by (simp add: wired_Close_def close_registry_log l)
qed

text \<open>What bootstrap leaves behind: nothing when it fails, unless telemetry itself could not be set up; and a process that
  \<open>clean_up\<close> empties when it succeeds.\<close>

lemma bootstrap_fails:
  assumes "\<And>ps. mset (weOrder (meWire m) ps) = mset ps"
    and "bootstrap m path ([], s0, []) = (Inl err, (t, s, l))"
  shows "balanced l \<and> (t = [] \<or> (\<exists>cfg. Setup (meTel m) cfg [] = (Inl err, t)))"
proof (cases "Load (meRead m) (meSettings m) (meDecodes m) path")
  case (Inl e)
  with assms(2) show ?thesis by (simp add: bootstrap_def balanced_def)
next
  case (Inr cfg)
  show ?thesis
  proof (cases "snd (Validate (meValid m) cfg)")
    case None
    note valid = this
    obtain r t1 where started: "Setup (meTel m) cfg [] = (r, t1)" by fastforce
    show ?thesis
    proof (cases r)
      case (Inl e)
      with assms(2) Inr valid started show ?thesis by (auto simp: bootstrap_def balanced_def)
    next
      case (Inr tel)
      obtain r' w where wire: "wireAll (meWire m) cfg (s0, []) = (r', w)" by (metis prod.collapse)
      with assms(2) \<open>Load _ _ _ path = Inr cfg\<close> valid started Inr obtain e where
        "r' = Inl e" "t = snd (telemetry_Shutdown (meTelFails m) tel t1)" "w = (s, l)"
        by (cases r') (auto simp: bootstrap_def)
      then show ?thesis
        using wireAll_log [OF accepted_distinct [OF valid] assms(1) wire] Shutdown_owned [OF Setup_owned] started Inr by simp
    qed
  qed (use assms(2) Inr in \<open>simp add: bootstrap_def balanced_def\<close>)
qed

lemma bootstrap_starts:
  assumes "\<And>ps. mset (weOrder (meWire m) ps) = mset ps"
    and "bootstrap m path ([], s0, []) = (Inr (cfg, tel, wd), (t, s, l))"
  shows "fst (clean_up m tel wd (t, w)) = [] \<and> balanced (snd (snd (clean_up m tel wd (t', s', l))))"
proof -
  from assms(2) have "Setup (meTel m) cfg [] = (Inr tel, t)" "wireAll (meWire m) cfg (s0, []) = (Inr wd, (s, l))"
    and "snd (Validate (meValid m) cfg) = None"
    by (auto simp: bootstrap_def split: sum.splits option.splits prod.splits)
  then show ?thesis
    using wired_Close_balanced [OF accepted_distinct assms(1)] Shutdown_owned [OF Setup_owned] by (auto simp: clean_up_def)
qed


subsection \<open>What an invocation reports\<close>

lemma pollHandler_pool:
  "pollHandler err_text pipes d ev acts = Some (res, err, st) \<Longrightarrow>
     pool_run (start_pool (if ev > 0 then ev else d) pipes) acts st \<and> pool_done st \<and> err = pool_result st \<and>
     res = invoke_result err_text pipes err"
  by (auto simp: pollHandler_def pool_run_exec Let_def split: option.splits if_splits)

lemma pool_result_None: "pool_result st = None \<longleftrightarrow> errs st = []"
  by (cases "errs st") (simp_all add: pool_result_def)

lemma collected_Nil: "collected e = [] \<longleftrightarrow> (e = None \<or> is_canceled (the e))"
  by (simp add: collected_def split: option.split)

text \<open>The Lambda handler reports success exactly when no poll failed other than by cancellation, and counts every
  pipeline; without a cancellation every pipeline was polled.\<close>

lemma pollHandler_summary:
  assumes "pollHandler err_text pipes d ev acts = Some (res, err, st)"
  shows "ivFeeds res = int (length pipes) \<and> (ivOK res \<longleftrightarrow> err = None) \<and>
    (ivOK res \<longleftrightarrow> (\<forall>(p, e) \<in> set (polled st). e = None \<or> is_canceled (the e))) \<and>
    mset (map fst (polled st)) + mset (skipped st) = mset pipes \<and>
    (Cancel \<notin> set acts \<longrightarrow> mset (map fst (polled st)) = mset pipes)"
proof -
  note pool = pollHandler_pool [OF assms]
  then have run: "pool_run (start_pool (if ev > 0 then ev else d) pipes) acts st" and fin: "pool_done st" by blast+
  have iv: "pool_inv pipes (nat (effectiveConcurrency (if ev > 0 then ev else d) pipes)) st"
    using pool_run_inv [OF run start_pool_inv] by blast
  have "(\<Sum>w\<leftarrow>workers st. in_hand w) = {#}"
    using fin by (intro hands_empty) (auto simp: pool_done_def list_all_iff)
  then have all: "mset (map fst (polled st)) + mset (skipped st) = mset pipes"
    using iv fin by (simp add: pool_inv_def accounted_def pool_done_def)
  have "skipped st = []" if "Cancel \<notin> set acts"
    using pool_run_cancel [OF run] that iv by (auto simp: pool_inv_def start_pool_def)
  moreover have "err = None \<longleftrightarrow> (\<forall>(p, e) \<in> set (polled st). e = None \<or> is_canceled (the e))"
    using pool iv by (auto simp: pool_result_None pool_inv_def collected_Nil)
  ultimately show ?thesis using pool all by (auto simp: invoke_result_def)
qed

text \<open>The Functions handler answers 200 or 500 by the same rule.\<close>

lemma customHandlerFunc_status:
  assumes "customHandlerFunc encode err_text pipes k acts new_reply = Some (w, st)"
  shows "rpStatus w = (if pool_result st = None then 200 else 500) \<and>
    rpBody w = encode (json_result (invoke_result err_text pipes (pool_result st))) @ newline"
  using assms
  by (auto simp: customHandlerFunc_def reply_Write_def WriteHeader_def reply_Set_def new_reply_def Let_def
      split: option.splits if_splits)

text \<open>An invocation that is cut short counts as a success: when the context ends before any pipeline was handed out, every
  pipeline is skipped and the result is \<open>OK\<close>, with all of them counted.\<close>

lemma cancelled_invocation_is_ok:
  "\<exists>st. pollHandler err_text [a, b] 1 0 [Cancel, Skip, Skip, Close 0] =
     Some (\<lparr>ivFeeds = 2, ivOK = True, ivError = []\<rparr>, None, st) \<and> polled st = [] \<and> skipped st = [b, a]"
  by (simp add: pollHandler_def start_pool_def effectiveConcurrency_def pool_done_def pool_result_def invoke_result_def Let_def)

subsection \<open>The probe sees the daemon's state\<close>

text \<open>The client reaches the health server of the daemon.\<close>

definition health_get ::
    "(go_error \<Rightarrow> string) \<Rightarrow> 's runtime \<Rightarrow> 's health_server \<Rightarrow> ctx \<Rightarrow> probe_url \<Rightarrow> 's \<Rightarrow> int result \<times> 's" where
  "health_get err_text rt hs c u s =
     (case health_ServeHTTP err_text rt c hs
             \<lparr>srMethod = ''GET'', srPath = puPath u, srHost = puHost u, srRemoteAddr = [], srTLS = False,
              srHeader = (\<lambda>_. None), srBody = []\<rparr> new_reply s of
        (w, s1) \<Rightarrow> (Inr (rpStatus w), s1))"

lemma health_get_status:
  assumes "distinct [hc_LivenessPath cfg, hc_ReadinessPath cfg, hc_StartupPath cfg]" "hsCfg hs = cfg"
  shows "puPath u = hc_ReadinessPath cfg \<Longrightarrow>
      health_get err_text rt hs c u s = apfst (Inr \<circ> rpStatus) (handleReady err_text rt c hs new_reply s)"
    and "puPath u = hc_StartupPath cfg \<Longrightarrow>
      health_get err_text rt hs c u s = (Inr (rpStatus (handleStartup hs new_reply)), s)"
    and "puPath u = hc_LivenessPath cfg \<Longrightarrow> health_get err_text rt hs c u s = (Inr (rpStatus (handleLive new_reply)), s)"
proof -
  let ?routes = "[(hc_LivenessPath cfg, \<lambda>st. (handleLive new_reply, st)),
     (hc_ReadinessPath cfg, handleReady err_text rt c hs new_reply),
     (hc_StartupPath cfg, \<lambda>st. (handleStartup hs new_reply, st))]"
  have route: "(puPath u, h) \<in> set ?routes \<Longrightarrow> health_get err_text rt hs c u s = apfst (Inr \<circ> rpStatus) (h s)" for h
    using mux_find_exact [of ?routes "puPath u" h] assms
    by (simp add: health_get_def health_ServeHTTP_def split: prod.split)
  show "puPath u = hc_ReadinessPath cfg \<Longrightarrow>
      health_get err_text rt hs c u s = apfst (Inr \<circ> rpStatus) (handleReady err_text rt c hs new_reply s)"
    using route by simp
  show "puPath u = hc_StartupPath cfg \<Longrightarrow>
      health_get err_text rt hs c u s = (Inr (rpStatus (handleStartup hs new_reply)), s)"
    using route [of "\<lambda>st. (handleStartup hs new_reply, st)"] by simp
  show "puPath u = hc_LivenessPath cfg \<Longrightarrow> health_get err_text rt hs c u s = (Inr (rpStatus (handleLive new_reply)), s)"
    using route [of "\<lambda>st. (handleLive new_reply, st)"] by simp
qed

lemma handleReady_status:
  "rpStatus (fst (handleReady err_text rt c hs new_reply s)) =
     (if hsStarted hs \<and> \<not> hsDraining hs \<and> (\<forall>(n, e)\<in>set (check_results rt c (hsTimeout hs) (hsChecks hs) s). e = None)
      then 200 else 503)"
proof -
  have ok: "(\<forall>(n, e)\<in>set (check_results rt c (hsTimeout hs) (hsChecks hs) s). e = None) \<longleftrightarrow>
      fst (run_until_failure rt c (hsTimeout hs) (hsChecks hs) s) = None"
    by (simp add: run_until_failure_None)
  show ?thesis unfolding ok
    by (auto simp: handleReady_def new_reply_def split: prod.splits option.splits)
qed

lemma healthcheck_status:
  assumes "hc_Enabled (cf_Health cfg)" "probeURL (cf_Health cfg) probe = Inr u" "fst (get (WithTimeout rt c d s) u s) = Inr code"
  shows "fst (healthcheck rt get c (Inr cfg) probe d s) = None \<longleftrightarrow> 200 \<le> code \<and> code < 300"
  using assms by (auto simp: healthcheck_def runHealthcheck_def split: prod.splits if_splits)

lemma probeURL_paths:
  assumes "SplitHostPort (hc_Listen h) = Some hp"
  shows "\<exists>u. probeURL h ''readiness'' = Inr u \<and> puPath u = hc_ReadinessPath h"
    and "\<exists>u. probeURL h ''startup'' = Inr u \<and> puPath u = hc_StartupPath h"
    and "\<exists>u. probeURL h ''liveness'' = Inr u \<and> puPath u = hc_LivenessPath h"
  using assms by (cases hp; simp add: probeURL_def Let_def)+


definition probed_config :: Config where
  "probed_config = zero_Config\<lparr>cf_Health := sample_health\<rparr>"


subsection \<open>A one-shot run\<close>

definition toy_cmd :: "nat cmd_env" where
  "toy_cmd = \<lparr>meRead = (\<lambda>_. ConfigFile (\<lambda>_. None) (sample_config (sample_sinks []))), meSettings = (\<lambda>_. None), meDecodes = (\<lambda>_. None),
     meValid = plain_env, meTel = toy_tel_env, meTelFails = (\<lambda>_. Some Canceled), meWire = toy_wire None,
     meOpen = (\<lambda>_ s. (Inl Canceled, s)), meClose = (\<lambda>_ s. s), meHTTP = toy_env, meSha = id, mePing = (\<lambda>_ s. (None, s))\<rparr>"

lemma sample_loads: "load_registered (map_of (applyDefaults Defaults)) (sample_config sinks) = sample_config sinks"
proof -
  have "load_telemetry (map_of (applyDefaults Defaults)) (cf_Telemetry (sample_config sinks)) = cf_Telemetry (sample_config sinks)"
    by (simp add: load_telemetry_def getters registered_telemetry sample_config_def Defaults_def zero_TelemetryConfig_def Defaults_Telemetry_def
        zero_TelemetrySignalConfig_def zero_TelemetryPrometheusConfig_def zero_TelemetryGraphiteConfig_def)
  then show ?thesis
    by (simp add: load_registered_def load_retry_def getters registered_keys)
      (simp add: sample_config_def Defaults_def zero_Config_def Defaults_Retry_def zero_RuntimeConfig_def zero_AdminConfig_def)
qed

lemma sample_Setup: "\<exists>tel t. Setup toy_tel_env (sample_config sinks) [] = (Inr tel, t)"
  by (simp add: Setup_def add_hook_def setup_providers_def newTracerProvider_def newMeterProvider_def
      otlpProtocol_def hasOTLPEndpoint_def upper_byte_def is_lower_def byte_def Let_def toy_tel_env_def sample_config_def
      Defaults_def Defaults_Telemetry_def zero_TelemetryConfig_def zero_TelemetrySentryConfig_def
      zero_TelemetryPostHogConfig_def zero_TelemetryCloudWatchConfig_def zero_TelemetryGraphiteConfig_def)

lemma sample_bootstrap:
  "\<exists>tel wd p. bootstrap toy_cmd [] ([], 0, []) = (Inr (sample_config (sample_sinks []), tel, wd), p) \<and>
     wireAll (toy_wire None) (sample_config (sample_sinks [])) (0, []) = (Inr wd, snd p)"
proof -
  obtain wd w' where "wireAll (toy_wire None) (sample_config (sample_sinks [])) (0, []) = (Inr wd, w')"
    using sample_wires by blast
  moreover obtain tel t where "Setup toy_tel_env (sample_config (sample_sinks [])) [] = (Inr tel, t)"
    using sample_Setup by blast
  moreover have "Load (meRead toy_cmd) (meSettings toy_cmd) (meDecodes toy_cmd) [] = Inr (sample_config (sample_sinks []))"
    using effective_no_file [of "\<lambda>_. None" "applyDefaults Defaults"] sample_loads
    by (simp add: Load_def toy_cmd_def list_all_iff)
  ultimately show ?thesis using sample_ok(1) by (simp add: bootstrap_def toy_cmd_def)
qed


end
