(* ===== verification/Spec2Isabelle.thy ===== *)
theory Spec2Isabelle
  imports Prelude Change_Model Retry Assign State_Store Feed_Fetch Feed_Detect Sink Config Frames Pipeline
    Poll Feedsource Scheduler Run_Pool Ownership State_Cleanup Config_Defaults Validate_Base Validate_Sinks
    Validate Wire_Options Wire Coord_DynamoDB Net_Http HTTP_Auth Net_Addr Time_Text Feed_Proxy Feed_Store
    Feed_Render Feed_Server Feed_MCP Feed_Sink Health Admin Time_RFC3339 Int_Text Json TLS_Config Pg_Pool
    Cosmos_SDK Places State_DynamoDB State_CosmosDB State_Postgres Coord_CosmosDB Coord_Redis Coord_Postgres
    Members Sink_Message Sinks_Cloud Sinks_Broker Sinks_Stream Sinks_Http Sinks_Store Sinks_Delivery
    Source_Kubernetes Sources_Remote Telemetry_Logs Telemetry_Metrics Telemetry_Setup Config_Load Commands
begin

text \<open>
  A verification development of \<^verbatim>\<open>rss2msg\<close>, a program that polls RSS and Atom feeds, finds the items that
  are new or changed since the last poll, and delivers each as a message to one or several sinks.  The
  program runs once (from a shell, as an AWS Lambda or an Azure function) or as a daemon, alone or as one
  of a fleet of instances that share a state store and a coordinator.

  How the parts interact.  The configuration is read and validated (\<^verbatim>\<open>internal/config\<close>), telemetry is set up
  (\<^verbatim>\<open>internal/telemetry\<close>), then everything is wired
  (\<^verbatim>\<open>cmd/rss2msg/wire.go\<close>): the state store, the coordinator and every sink are opened, composites are
  linked, sinks are wrapped with retries and a dead letter, and a factory builds one pipeline per feed.
  A scheduler (\<^verbatim>\<open>internal/scheduler\<close>) runs the pipelines, once or in loops; the feeds come from the
  configuration or from feed sources (\<^verbatim>\<open>internal/feedsource\<close>) and in a fleet are narrowed to those this
  instance owns (\<^verbatim>\<open>internal/assign\<close>, \<^verbatim>\<open>ownerprovider.go\<close>).  One poll (\<^verbatim>\<open>cmd/rss2msg/pipeline.go\<close>) takes the
  lease of the feed, reads the validators, fetches conditionally and with retries, stores the new
  validators, detects changes against the stored hashes, delivers every change to every branch and
  records an item once no branch dropped it.  The feed sink (\<^verbatim>\<open>internal/sink/feed\<close>) is itself a server: it
  keeps a window of changes and serves it as RSS, Atom and MCP tools.  Probes (\<^verbatim>\<open>internal/health\<close>) and an
  admin API (\<^verbatim>\<open>internal/admin\<close>) watch and steer the daemon.

  Conventions.  Times and durations are integers, in nanoseconds, counted from the year 1; Go's \<^verbatim>\<open>int64\<close> is
  written out with \<^verbatim>\<open>wrap64\<close> where it can overflow.  Strings are byte strings, and UTF-8 is decoded where
  the code ranges over runes.  A fallible function returns \<^verbatim>\<open>result\<close>, a sum with the error on the left;
  errors are values of \<^verbatim>\<open>go_error\<close> built like the \<^verbatim>\<open>fmt.Errorf\<close> of the source.  State is passed explicitly;
  the world behind an interface is a type parameter, and the interface a record of functions (\<^verbatim>\<open>Store\<close>,
  \<^verbatim>\<open>Coordinator\<close>, \<^verbatim>\<open>FeedStore\<close>, \<^verbatim>\<open>runtime\<close>).  What belongs to other code (SQL engines, SDK clients, hash
  functions, sockets, JSON texts) is an argument, with what is relied on of it as a named predicate
  (\<^verbatim>\<open>ddb_ok\<close>, \<^verbatim>\<open>json_ok\<close>, \<^verbatim>\<open>net_parsers\<close>) that a witness shows satisfiable.  The iteration order of Go maps is
  an argument too.

  Theories, in the order of the program, with the files they model.

  \<^verbatim>\<open>Prelude\<close>: errors, results, 64-bit wrap-around, UTF-8, \<^verbatim>\<open>strings\<close>; used everywhere.
  \<^verbatim>\<open>Change_Model\<close> (\<^verbatim>\<open>internal/model\<close>): the change, its identity key and its content hash.
  \<^verbatim>\<open>Retry\<close> (\<^verbatim>\<open>internal/retry\<close>): backoff with jitter, overflow and cancellation as a function with a measure;
  call counts, bounds of every delay, recovery.
  \<^verbatim>\<open>Assign\<close> (\<^verbatim>\<open>internal/assign\<close>): rendezvous hashing; the locale \<^verbatim>\<open>rendezvous\<close>, interpreted on the scores,
  gives partition, agreement and minimal churn.
  \<^verbatim>\<open>State_Store\<close> (\<^verbatim>\<open>internal/state\<close>, \<^verbatim>\<open>state/sqlite\<close>): the interface and its contracts as locales (\<^verbatim>\<open>seen_store\<close>:
  what was upserted is what is read; \<^verbatim>\<open>pruning_store\<close>: what a prune may take; \<^verbatim>\<open>state_store\<close> for rows that
  are kept as they are), and the SQLite store as their interpretation.
  \<^verbatim>\<open>Time_RFC3339\<close>, \<^verbatim>\<open>Int_Text\<close>, \<^verbatim>\<open>Json\<close>: the texts that the services keep, with their round trips.
  \<^verbatim>\<open>TLS_Config\<close> (the thirteen \<^verbatim>\<open>buildTLSConfig\<close> of the repository), \<^verbatim>\<open>Pg_Pool\<close>, \<^verbatim>\<open>Cosmos_SDK\<close>: what the backends
  share: TLS options, the options of a \<^verbatim>\<open>pgx\<close> pool and statements that may fail after they took effect,
  client construction and error statuses of \<^verbatim>\<open>azcosmos\<close>.
  \<^verbatim>\<open>State_DynamoDB\<close>, \<^verbatim>\<open>State_CosmosDB\<close>, \<^verbatim>\<open>State_Postgres\<close> (\<^verbatim>\<open>internal/state/*\<close>): the other stores, from their
  constructors to the rows they write and decode; each satisfies the contract over what the service keeps
  (\<^verbatim>\<open>table_ok\<close>, \<^verbatim>\<open>container_ok\<close>, \<^verbatim>\<open>stamp_ok\<close>), which carries detection over to it.
  \<^verbatim>\<open>Feed_Fetch\<close>, \<^verbatim>\<open>Feed_Detect\<close> (\<^verbatim>\<open>internal/feed\<close>): conditional GET and its error classes; detection, which
  refines a declarative specification on every store that keeps the contract.
  \<^verbatim>\<open>Sink\<close> (\<^verbatim>\<open>internal/sink\<close>, \<^verbatim>\<open>sink/composite\<close>): retries, dead letters and composites, with fuel for the
  recursion through composites; \<^verbatim>\<open>Publish_returns\<close> gives the fuel that is enough (the rank of the sink),
  and \<^verbatim>\<open>Publish_cycle_diverges\<close> shows that no fuel is enough for a cycle through a dead letter.
  \<^verbatim>\<open>Frames\<close>, \<^verbatim>\<open>Pipeline\<close>, \<^verbatim>\<open>Poll\<close> (\<^verbatim>\<open>cmd/rss2msg/pipeline.go\<close>): one poll, over any store and then over SQLite:
  commit only after delivery, redelivery of what was dropped, and the validators stored too early.
  \<^verbatim>\<open>Feedsource\<close> (\<^verbatim>\<open>internal/feedsource\<close>), \<^verbatim>\<open>Scheduler\<close> (\<^verbatim>\<open>scheduler/serve.go\<close>, \<^verbatim>\<open>dynamic.go\<close>), \<^verbatim>\<open>Run_Pool\<close>
  (\<^verbatim>\<open>scheduler/runonce.go\<close>), \<^verbatim>\<open>Ownership\<close> (\<^verbatim>\<open>ownerprovider.go\<close>), \<^verbatim>\<open>State_Cleanup\<close> (\<^verbatim>\<open>internal/statecleanup\<close>,
  \<^verbatim>\<open>internal/heartbeat\<close>): aggregation of sources, atomic and convergent reconciliation, one loop per feed,
  the worker pool as interleavings of its goroutines, disjoint shares in a fleet, retention sweeps.
  Loops that run until they are cancelled take a bound on their ticks, and the theorems hold for every
  bound.
  \<^verbatim>\<open>Config\<close>, \<^verbatim>\<open>Config_Defaults\<close>, \<^verbatim>\<open>Validate_Base\<close>, \<^verbatim>\<open>Validate_Sinks\<close>, \<^verbatim>\<open>Validate\<close> (\<^verbatim>\<open>internal/config\<close>): the
  configuration as records, its defaults, and its validation in the order of the source; an accepted
  configuration is closed, and the cycle search is exact.
  \<^verbatim>\<open>Wire_Options\<close>, \<^verbatim>\<open>Wire\<close> (\<^verbatim>\<open>cmd/rss2msg/wire.go\<close>, \<^verbatim>\<open>sources.go\<close>): what reaches each constructor, opening and
  closing on every error path, and the pipelines of a whole program, which return on an accepted
  configuration without composite dead letters.
  \<^verbatim>\<open>Coord_DynamoDB\<close>, \<^verbatim>\<open>Coord_CosmosDB\<close>, \<^verbatim>\<open>Coord_Redis\<close>, \<^verbatim>\<open>Coord_Postgres\<close> (\<^verbatim>\<open>internal/coord/*\<close>), \<^verbatim>\<open>Places\<close>: leases
  by conditional writes, by versions of a document, by keys that expire and are renewed, and by advisory
  locks of pooled sessions.  Each fleet is an inductive step relation whose steps are single requests (the
  local steps under a mutex are steps too), with lost answers, crashes and passing time; mutual exclusion
  is by rule induction over an invariant that says where each lease is (\<^verbatim>\<open>Places\<close>).
  \<^verbatim>\<open>Members\<close> (\<^verbatim>\<open>internal/coord/*/membership.go\<close>): the heartbeats of the four backends; the paginated listing
  is a \<^verbatim>\<open>partial_function\<close>, shown to return when the pages advance.
  \<^verbatim>\<open>Net_Http\<close>, \<^verbatim>\<open>Net_Addr\<close>, \<^verbatim>\<open>Time_Text\<close>: the parts of \<^verbatim>\<open>net/http\<close>, \<^verbatim>\<open>net/url\<close>, \<^verbatim>\<open>net\<close>, \<^verbatim>\<open>encoding/base64\<close> and
  \<^verbatim>\<open>time\<close> that the servers use, with their round trips and orders.
  \<^verbatim>\<open>HTTP_Auth\<close> (\<^verbatim>\<open>internal/httpauth\<close>), \<^verbatim>\<open>Feed_Proxy\<close>, \<^verbatim>\<open>Feed_Store\<close>, \<^verbatim>\<open>Feed_Render\<close>, \<^verbatim>\<open>Feed_Server\<close>, \<^verbatim>\<open>Feed_MCP\<close>,
  \<^verbatim>\<open>Feed_Sink\<close> (\<^verbatim>\<open>internal/sink/feed\<close>): credentials, forwarding headers, the window (locale \<^verbatim>\<open>window_store\<close>,
  interpreted on the memory and the SQL stores), rendering, the request handler, the tools, and the
  resources of the publisher.
  \<^verbatim>\<open>Health\<close> (\<^verbatim>\<open>internal/health\<close>), \<^verbatim>\<open>Admin\<close> (\<^verbatim>\<open>internal/admin\<close>): the probes over the life of the server, and the
  admin API from the mux to the store.

  \<^verbatim>\<open>Sink_Message\<close>, \<^verbatim>\<open>Sinks_Cloud\<close> (SQS, SNS, Pub/Sub, Service Bus, Dapr), \<^verbatim>\<open>Sinks_Broker\<close> (Kafka with its schema
  registry, NATS, AMQP 0-9-1), \<^verbatim>\<open>Sinks_Stream\<close> (AMQP 1.0, RabbitMQ streams), \<^verbatim>\<open>Sinks_Http\<close> (webhooks, gRPC,
  standard output), under \<^verbatim>\<open>internal/sink/*\<close>: each sink from the checks of its constructor, with the cleanup of
  every error path, to the message it sends.  The contract is the locale \<^verbatim>\<open>message_sink\<close>: a publish that
  succeeds has put one message that carries the change into the log of the broker, one that fails none or
  one whose acknowledgement was lost; every sink is shown to keep it over what its client promises (\<^verbatim>\<open>log_ok\<close>,
  \<^verbatim>\<open>exchange_ok\<close>, \<^verbatim>\<open>ordered_ok\<close>, ...), it is interpreted on the sinks that need no such hypothesis, and
  \<^verbatim>\<open>dead_lettered_sink\<close> derives from two of them what a delivery with retries and a dead letter leaves in the
  logs.
  \<^verbatim>\<open>Sinks_Store\<close> (\<^verbatim>\<open>sink/postgres\<close>, \<^verbatim>\<open>sink/dynamodb\<close>, \<^verbatim>\<open>sink/cosmosdb\<close>): sinks that keep rows, with the locale
  \<^verbatim>\<open>store_sink\<close> for what retries leave in a keyed table; \<^verbatim>\<open>Sinks_Delivery\<close>: deliveries over concrete pairs of
  sinks, and the dead letter that comes too late.
  \<^verbatim>\<open>Source_Kubernetes\<close>, \<^verbatim>\<open>Sources_Remote\<close> (\<^verbatim>\<open>internal/feedsource/sources/*\<close>): the cache over the events of an
  informer as an inductive relation and the status written back; conditional requests for a list of feeds,
  rows of a table, and a watched file as a step function.
  \<^verbatim>\<open>Telemetry_Logs\<close>, \<^verbatim>\<open>Telemetry_Metrics\<close>, \<^verbatim>\<open>Telemetry_Setup\<close> (\<^verbatim>\<open>internal/telemetry\<close>): the shipper of log records
  with its bounded channel, where a step is one action of the logging path or of the shipper; the texts and
  data points of the exporters; what a configuration starts and what shutdown releases.
  \<^verbatim>\<open>Config_Load\<close> (\<^verbatim>\<open>internal/config/load.go\<close>): registered defaults, precedence, and substitution in strings.
  \<^verbatim>\<open>Commands\<close> (\<^verbatim>\<open>cmd/rss2msg\<close>): \<^verbatim>\<open>bootstrap\<close>, \<^verbatim>\<open>run-once\<close>, \<^verbatim>\<open>validate-config\<close>, the serverless handlers and the health
  probe, composed of the definitions of the other theories; what a whole run opens and closes, and what the
  probe sees of the daemon.

  What is not modelled, and why.  \<^verbatim>\<open>serve.go\<close> starts the goroutines whose loops are modelled one by one and
  forwards signals; the command line, \<^verbatim>\<open>version\<close>, \<^verbatim>\<open>generate-config\<close> and the report of a panic have no logic; the
  instruments of \<^verbatim>\<open>internal/telemetry\<close>, of the feed sink and of the composite register counters; \<^verbatim>\<open>proto\<close> is
  generated.  SDK clients, SQL engines, brokers and the API server of Kubernetes are arguments.  Logging and
  metrics never influence a result in this program and are left out of the pipeline, except where they are
  the subject.  The time a comparison takes, goroutine scheduling inside the standard library and TLS are
  outside the model.
\<close>

end
